(* ===== verification/Go_Prelude.thy ===== *)
theory Go_Prelude
  imports Main "HOL-Library.Multiset"
begin

text \<open>
  What the components share: Go's error values, the pieces of the standard library the
  sources call (\<open>errors.Is\<close>, \<open>strconv\<close>, \<open>strings.Split\<close>, \<open>time\<close> arithmetic), and the generic
  lemmas on lists that carry the proofs about tables and queues.

  A Go function that returns \<open>(T, error)\<close> is a function into \<open>'a res\<close>: \<open>Inl\<close> holds the
  non-nil error, \<open>Inr\<close> the value.
\<close>

named_theorems res_simps \<open>evaluation of results, errors and first-row reads\<close>
named_theorems row_simps \<open>effect of the entity operations on single fields\<close>

section \<open>Errors\<close>

text \<open>
  \<open>Err s\<close> is \<open>errors.New(s)\<close> or a \<open>fmt.Errorf\<close> without \<open>%w\<close>; \<open>Wrapf s e\<close> is
  \<open>fmt.Errorf("s: %w", e)\<close> and \<open>Wrapped e s\<close> is \<open>fmt.Errorf("%w: s", e)\<close>, which keep \<open>e\<close> in the chain that
  \<open>errors.Is\<close> walks. A message the sources have in Chinese is given in English.
\<close>

datatype gerror = Err string | Wrapf string gerror | Wrapped gerror string

type_synonym 'a res = "gerror + 'a"

fun err_text :: "gerror \<Rightarrow> string" where
  "err_text (Err s) = s"
| "err_text (Wrapf s e) = s @ '': '' @ err_text e"
| "err_text (Wrapped e s) = err_text e @ '': '' @ s"

fun errors_is :: "gerror \<Rightarrow> gerror \<Rightarrow> bool" where
  "errors_is (Err s) t = (Err s = t)"
| "errors_is (Wrapf s e) t = (Wrapf s e = t \<or> errors_is e t)"
| "errors_is (Wrapped e s) t = (Wrapped e s = t \<or> errors_is e t)"

lemma errors_is_refl [simp]: "errors_is e e"
  by (cases e) simp_all

lemma errors_is_Wrapf [simp]: "errors_is (Wrapf s e) e" "errors_is (Wrapped e s) e"
  by (cases e; simp)+

definition is_ok :: "'e + 'a \<Rightarrow> bool" where
  "is_ok r = (case r of Inl _ \<Rightarrow> False | Inr _ \<Rightarrow> True)"

lemma is_ok_simps [simp, res_simps]: "\<not> is_ok (Inl e)" "is_ok (Inr x)"
  by (simp_all add: is_ok_def)

lemma is_ok_iff: "is_ok r \<longleftrightarrow> (\<exists>x. r = Inr x)"
  by (cases r) simp_all

section \<open>Time\<close>

text \<open>
  Instants and durations are integers in nanoseconds. \<open>Time.Sub\<close> saturates at the \<open>int64\<close>
  range, and converting \<open>Duration.Seconds()\<close> to an integer drops the fraction towards zero.
\<close>

type_synonym gotime = int
type_synonym duration = int

definition time_Second :: duration where
  "time_Second = 1000000000"

definition time_Minute :: duration where
  "time_Minute = 60 * time_Second"

definition time_Sub :: "gotime \<Rightarrow> gotime \<Rightarrow> duration" where
  "time_Sub t u = max (- (2 ^ 63)) (min (2 ^ 63 - 1) (t - u))"

definition tquot :: "int \<Rightarrow> int \<Rightarrow> int" where
  "tquot a b = sgn a * sgn b * (\<bar>a\<bar> div \<bar>b\<bar>)"

definition whole_seconds :: "duration \<Rightarrow> int" where
  "whole_seconds d = tquot d time_Second"

definition unix_seconds :: "gotime \<Rightarrow> int" where
  "unix_seconds t = t div time_Second"

lemma whole_seconds_nonneg: "0 \<le> d \<Longrightarrow> 0 \<le> whole_seconds d"
  by (simp add: whole_seconds_def tquot_def time_Second_def sgn_if)

lemma time_Sub_nonneg: "u \<le> t \<Longrightarrow> 0 \<le> time_Sub t u"
  by (simp add: time_Sub_def)

lemma unix_seconds_mono: "t \<le> u \<Longrightarrow> unix_seconds t \<le> unix_seconds u"
  by (simp add: unix_seconds_def time_Second_def zdiv_mono1)

section \<open>Integers as \<open>float64\<close>\<close>

text \<open>
  \<open>float64(n)\<close> of an \<open>int64\<close> keeps 53 bits and rounds ties to even: \<open>round_53 a\<close> is the rounded mantissa with its
  exponent, and \<open>float64_of_int n\<close> the value, which is again an integer.
\<close>

definition round_53 :: "nat \<Rightarrow> nat \<times> nat" where
  "round_53 a =
     (if a < 2 ^ 53 then (a, 0)
      else let k = length (takeWhile (\<lambda>i. 2 ^ 53 \<le> a div 2 ^ i) [0..<12]);
               q = a div 2 ^ k; r = a mod 2 ^ k; half = 2 ^ (k - 1)
           in (if half < r \<or> r = half \<and> odd q then q + 1 else q, k))"

definition float64_of_int :: "int \<Rightarrow> int" where
  "float64_of_int n = (case round_53 (nat \<bar>n\<bar>) of (q, k) \<Rightarrow> sgn n * int q * 2 ^ k)"

lemma float64_of_small: "\<bar>n\<bar> < 2 ^ 53 \<Longrightarrow> float64_of_int n = n"
  by (simp add: float64_of_int_def round_53_def nat_less_iff sgn_mult_abs)

text \<open>Rounding to 53 bits keeps the order: \<open>exp_53 a\<close> is the exponent dropped and \<open>round_val a\<close> the rounded value.\<close>

definition exp_53 :: "nat \<Rightarrow> nat" where
  "exp_53 a = length (takeWhile (\<lambda>i. 2 ^ 53 \<le> a div 2 ^ i) [0..<12])"

lemma exp_53_le: "exp_53 a \<le> 12"
  unfolding exp_53_def by (rule order_trans [OF length_takeWhile_le]) simp

lemma exp_53_above: "i < exp_53 a \<Longrightarrow> 2 ^ 53 \<le> a div 2 ^ i"
proof -
  assume i: "i < exp_53 a"
  then have "takeWhile (\<lambda>i. 2 ^ 53 \<le> a div 2 ^ i) [0..<12] ! i = [0..<12] ! i"
    by (intro takeWhile_nth) (simp add: exp_53_def)
  moreover have "takeWhile (\<lambda>i. 2 ^ 53 \<le> a div 2 ^ i) [0..<12] ! i \<in> set (takeWhile (\<lambda>i. 2 ^ 53 \<le> a div 2 ^ i) [0..<12])"
    using i by (simp add: exp_53_def)
  ultimately show ?thesis using i exp_53_le [of a] by (auto dest!: set_takeWhileD)
qed

lemma exp_53_below: "exp_53 a < 12 \<Longrightarrow> a div 2 ^ exp_53 a < 2 ^ 53"
  using nth_length_takeWhile [of "\<lambda>i. 2 ^ 53 \<le> a div 2 ^ i" "[0..<12]"] by (simp add: exp_53_def)

definition round_val :: "nat \<Rightarrow> nat" where
  "round_val a = (case round_53 a of (q, k) \<Rightarrow> q * 2 ^ k)"

lemma round_53_exp: "\<not> a < 2 ^ 53 \<Longrightarrow> round_53 a = (let k = exp_53 a; q = a div 2 ^ k; r = a mod 2 ^ k; half = 2 ^ (k - 1)
           in (if half < r \<or> r = half \<and> odd q then q + 1 else q, k))"
  by (simp add: round_53_def exp_53_def)

lemma exp_53_zero: "a < 2 ^ 53 \<Longrightarrow> exp_53 a = 0"
  by (simp add: exp_53_def upt_rec)

lemma round_val_eq: "round_val a = (let k = exp_53 a; q = a div 2 ^ k; r = a mod 2 ^ k
   in (if 0 < k \<and> (2 ^ (k - 1) < r \<or> r = 2 ^ (k - 1) \<and> odd q) then q + 1 else q) * 2 ^ k)"
proof (cases "a < 2 ^ 53")
  case True
  then show ?thesis by (simp add: round_val_def exp_53_zero round_53_def)
next
  case False
  then have "0 < exp_53 a" by (simp add: exp_53_def upt_rec)
  then show ?thesis by (simp add: round_val_def round_53_exp [OF False] Let_def)
qed

lemma round_val_bounds:
  "a div 2 ^ exp_53 a * 2 ^ exp_53 a \<le> round_val a" "round_val a \<le> (a div 2 ^ exp_53 a + 1) * 2 ^ exp_53 a"
  by (simp_all add: round_val_eq Let_def)

lemma exp_53_mono: "a \<le> b \<Longrightarrow> exp_53 a \<le> exp_53 b"
proof (rule ccontr)
  assume ab: "a \<le> b" and "\<not> exp_53 a \<le> exp_53 b"
  then have "exp_53 b < exp_53 a" by simp
  from exp_53_above [OF this] exp_53_below [of b] exp_53_le [of a] this div_le_mono [OF ab, of "2 ^ exp_53 b"]
  show False by simp
qed

lemma round_val_mono:
  assumes ab: "a \<le> b"
  shows "round_val a \<le> round_val b"
proof (cases "exp_53 a = exp_53 b")
  case True
  define k where "k = exp_53 b"
  have q: "a div 2 ^ k \<le> b div 2 ^ k" using ab by (rule div_le_mono)
  show ?thesis
  proof (cases "a div 2 ^ k = b div 2 ^ k")
    case same: True
    have "a mod 2 ^ k \<le> b mod 2 ^ k"
      using ab same div_mult_mod_eq [of a "2 ^ k"] div_mult_mod_eq [of b "2 ^ k"] by simp
    then show ?thesis using True same by (auto simp: round_val_eq Let_def k_def)
  next
    case False
    then have "(a div 2 ^ k + 1) * 2 ^ k \<le> b div 2 ^ k * 2 ^ k" using q by (intro mult_le_mono1) simp
    then show ?thesis using round_val_bounds [of a] round_val_bounds [of b] True by (simp add: k_def)
  qed
next
  case False
  then have less: "exp_53 a < exp_53 b" using exp_53_mono [OF ab] by simp
  have up: "a div 2 ^ exp_53 a + 1 \<le> 2 ^ 53" using exp_53_below [of a] less exp_53_le [of b] by simp
  obtain j where j: "exp_53 b = Suc j" using less by (cases "exp_53 b") auto
  have "(2::nat) ^ 53 \<le> b div 2 ^ j" using exp_53_above [of j b] j by simp
  then have "2 ^ 53 div 2 \<le> b div 2 ^ j div (2::nat)" by (rule div_le_mono)
  then have lo: "2 ^ 52 \<le> b div 2 ^ exp_53 b" by (simp add: j div_mult2_eq [symmetric] mult.commute)
  have "round_val a \<le> 2 ^ 53 * 2 ^ exp_53 a"
    using round_val_bounds(2) [of a] mult_le_mono1 [OF up, of "2 ^ exp_53 a"] by linarith
  also have "\<dots> \<le> 2 ^ 53 * 2 ^ j" using less j by simp
  also have "\<dots> = 2 ^ 52 * 2 ^ exp_53 b" by (simp add: j)
  also have "\<dots> \<le> b div 2 ^ exp_53 b * 2 ^ exp_53 b" using lo by (rule mult_le_mono1)
  also have "\<dots> \<le> round_val b" by (rule round_val_bounds)
  finally show ?thesis .
qed

lemma float64_of_int_val: "float64_of_int n = sgn n * int (round_val (nat \<bar>n\<bar>))"
  by (simp add: float64_of_int_def round_val_def split: prod.splits)

lemma float64_of_int_mono:
  assumes "m \<le> n"
  shows "float64_of_int m \<le> float64_of_int n"
proof (cases "0 \<le> m")
  case True
  then show ?thesis using assms round_val_mono [of "nat m" "nat n"]
    by (cases "m = 0") (auto simp: float64_of_int_val sgn_if)
next
  case False
  then show ?thesis using assms round_val_mono [of "nat (- n)" "nat (- m)"]
    by (auto simp: float64_of_int_val sgn_if)
qed

section \<open>Decimal printing and parsing (fmt \<open>%d\<close>, strconv)\<close>

definition digit_char :: "nat \<Rightarrow> char" where
  "digit_char d = char_of (48 + d)"

fun nat_digits :: "nat \<Rightarrow> string" where
  "nat_digits n = (if n < 10 then [digit_char n]
                   else nat_digits (n div 10) @ [digit_char (n mod 10)])"

declare nat_digits.simps [simp del]

definition itoa :: "int \<Rightarrow> string" where
  "itoa i = (if i < 0 then CHR ''-'' # nat_digits (nat (- i)) else nat_digits (nat i))"

definition is_digit :: "char \<Rightarrow> bool" where
  "is_digit c = (48 \<le> (of_char c :: nat) \<and> (of_char c :: nat) \<le> 57)"

fun digits_from :: "nat \<Rightarrow> string \<Rightarrow> nat option" where
  "digits_from acc [] = Some acc"
| "digits_from acc (c # cs) =
     (if is_digit c then digits_from (acc * 10 + (of_char c - 48)) cs else None)"

definition parse_digits :: "string \<Rightarrow> nat option" where
  "parse_digits s = (if s = [] then None else digits_from 0 s)"

text \<open>\<open>strconv.ParseUint(s, 10, 64)\<close> and \<open>strconv.ParseInt(s, 10, 64)\<close>.\<close>

definition parse_uint64 :: "string \<Rightarrow> nat option" where
  "parse_uint64 s = (case parse_digits s of
     Some n \<Rightarrow> (if n < 2 ^ 64 then Some n else None) | None \<Rightarrow> None)"

definition parse_int64 :: "string \<Rightarrow> int option" where
  "parse_int64 s = (case s of
     [] \<Rightarrow> None
   | c # cs \<Rightarrow>
       (if c = CHR ''-'' then
          (case parse_digits cs of
             Some n \<Rightarrow> (if n \<le> 2 ^ 63 then Some (- int n) else None) | None \<Rightarrow> None)
        else
          (case parse_digits (if c = CHR ''+'' then cs else s) of
             Some n \<Rightarrow> (if n < 2 ^ 63 then Some (int n) else None) | None \<Rightarrow> None)))"

lemma is_digit_digit_char [simp]: "d < 10 \<Longrightarrow> is_digit (digit_char d)"
  by (simp add: is_digit_def digit_char_def of_char_of)

lemma of_char_digit_char [simp]: "d < 10 \<Longrightarrow> of_char (digit_char d) = (48 + d :: nat)"
  by (simp add: digit_char_def of_char_of)

lemma digits_from_append:
  "digits_from acc (xs @ ys) =
     (case digits_from acc xs of None \<Rightarrow> None | Some a \<Rightarrow> digits_from a ys)"
  by (induction xs arbitrary: acc) auto

lemma digits_from_nat_digits: "digits_from 0 (nat_digits n) = Some n"
proof (induction n rule: nat_digits.induct)
  case (1 n)
  then show ?case
    by (cases "n < 10") (simp_all add: nat_digits.simps [of n] digits_from_append)
qed

lemma nat_digits_nonempty [simp]: "nat_digits n \<noteq> []"
  by (subst nat_digits.simps) simp

lemma parse_digits_nat_digits [simp]: "parse_digits (nat_digits n) = Some n"
  by (simp add: parse_digits_def digits_from_nat_digits)

lemma nat_digits_all_digits: "c \<in> set (nat_digits n) \<Longrightarrow> is_digit c"
proof (induction n rule: nat_digits.induct)
  case (1 n)
  then show ?case
    by (cases "n < 10") (auto simp: nat_digits.simps [of n])
qed

lemma not_is_digit_signs [simp]: "\<not> is_digit CHR ''-''" "\<not> is_digit CHR ''+''"
  by (simp_all add: is_digit_def)

lemma dash_notin_nat_digits [simp]: "CHR ''-'' \<notin> set (nat_digits n)"
  using nat_digits_all_digits [of "CHR ''-''" n] by auto

lemma hd_nat_digits_not_sign:
  "nat_digits n = c # cs \<Longrightarrow> c \<noteq> CHR ''-'' \<and> c \<noteq> CHR ''+''"
  using nat_digits_all_digits [of c n] by auto

text \<open>Parsing inverts printing on the whole \<open>int64\<close> range.\<close>

lemma parse_int64_itoa:
  assumes "- (2 ^ 63) \<le> i" and "i < 2 ^ 63"
  shows "parse_int64 (itoa i) = Some i"
proof (cases "i < 0")
  case True
  then show ?thesis using assms by (simp add: parse_int64_def itoa_def)
next
  case False
  then obtain c cs where cs: "nat_digits (nat i) = c # cs"
    by (metis nat_digits_nonempty neq_Nil_conv)
  have "nat i < 2 ^ 63" using assms(2) by simp
  with False cs hd_nat_digits_not_sign [OF cs] show ?thesis
    using parse_digits_nat_digits [of "nat i"] by (simp add: parse_int64_def itoa_def)
qed

lemma parse_uint64_nat_digits: "n < 2 ^ 64 \<Longrightarrow> parse_uint64 (nat_digits n) = Some n"
  by (simp add: parse_uint64_def)

lemma nat_digits_inj: "nat_digits m = nat_digits n \<Longrightarrow> m = n"
  by (metis option.inject parse_digits_nat_digits)

section \<open>Strings\<close>

text \<open>\<open>strings.Split(s, c)\<close> for a one-byte separator: never empty, as in Go.\<close>

fun split_on :: "char \<Rightarrow> string \<Rightarrow> string list" where
  "split_on c [] = [[]]"
| "split_on c (x # xs) =
     (if x = c then [] # split_on c xs
      else (case split_on c xs of y # ys \<Rightarrow> (x # y) # ys | [] \<Rightarrow> [[x]]))"

lemma split_on_nonempty [simp]: "split_on c s \<noteq> []"
  by (induction s) (auto split: list.splits)

lemma split_on_none: "c \<notin> set a \<Longrightarrow> split_on c a = [a]"
  by (induction a) auto

lemma split_on_append: "c \<notin> set a \<Longrightarrow> split_on c (a @ c # b) = a # split_on c b"
  by (induction a) auto

text \<open>\<open>strings.Join\<close>.\<close>

fun join_strings :: "string \<Rightarrow> string list \<Rightarrow> string" where
  "join_strings sep [] = []"
| "join_strings sep [x] = x"
| "join_strings sep (x # y # ys) = x @ sep @ join_strings sep (y # ys)"

lemma join_strings_snoc: "xs \<noteq> [] \<Longrightarrow> join_strings sep (xs @ [y]) = join_strings sep xs @ sep @ y"
  by (induction sep xs rule: join_strings.induct) auto

lemma split_on_join:
  "xs \<noteq> [] \<Longrightarrow> \<forall>x\<in>set xs. c \<notin> set x \<Longrightarrow> split_on c (join_strings [c] xs) = xs"
  by (induction "[c]" xs rule: join_strings.induct) (auto simp: split_on_none split_on_append)

definition has_prefix :: "string \<Rightarrow> string \<Rightarrow> bool" where
  "has_prefix s p = (take (length p) s = p)"

lemma has_prefix_append [simp]: "has_prefix (p @ s) p"
  by (simp add: has_prefix_def)

lemma has_prefix_conv: "has_prefix s p \<longleftrightarrow> (\<exists>t. s = p @ t)"
  by (metis append_eq_conv_conj append_take_drop_id has_prefix_def)

section \<open>Lists of rows\<close>

text \<open>Reading one row into a zeroed struct: the first row, or the zero value.\<close>

definition first_or :: "'a \<Rightarrow> 'a list \<Rightarrow> 'a" where
  "first_or z xs = (case xs of [] \<Rightarrow> z | x # _ \<Rightarrow> x)"

lemma first_or_simps [simp, res_simps]: "first_or z [] = z" "first_or z (x # xs) = x"
  by (simp_all add: first_or_def)

lemma first_or_in: "xs \<noteq> [] \<Longrightarrow> first_or z xs \<in> set xs"
  by (cases xs) simp_all

lemma mset_eq_filter_setD: "mset rs = mset (filter P xs) \<Longrightarrow> set rs = {r \<in> set xs. P r}"
  by (metis set_filter set_mset_mset)

lemma mset_eq_filter_NilD: "mset rs = mset (filter P xs) \<Longrightarrow> rs = [] \<longleftrightarrow> (\<forall>r \<in> set xs. \<not> P r)"
  by (metis filter_empty_conv mset_zero_iff)

lemma distinct_map_inj_on: "distinct (map f xs) \<Longrightarrow> x \<in> set xs \<Longrightarrow> y \<in> set xs \<Longrightarrow> f x = f y \<Longrightarrow> x = y"
  by (simp add: distinct_map inj_on_def)

lemma filter_eq_key_single:
  assumes "distinct (map f xs)" and "x \<in> set xs"
  shows "filter (\<lambda>y. f y = f x) xs = [x]"
  using assms
proof (induction xs)
  case (Cons z zs)
  show ?case
  proof (cases "x = z")
    case True
    with Cons.prems have "\<forall>y \<in> set zs. f y \<noteq> f x" by (metis distinct.simps(2) image_eqI list.set_map list.simps(9))
    with True show ?thesis by (simp add: filter_empty_conv)
  next
    case False
    with Cons have "f z \<noteq> f x" by auto
    with False Cons show ?thesis by simp
  qed
qed simp

lemma mset_eq_singleton: "mset xs = mset [a] \<Longrightarrow> xs = [a]"
  by simp

text \<open>Insertion sort by an arbitrary total preorder, the executable reference of \<open>ORDER BY\<close>.\<close>

fun insert_by :: "('a \<Rightarrow> 'a \<Rightarrow> bool) \<Rightarrow> 'a \<Rightarrow> 'a list \<Rightarrow> 'a list" where
  "insert_by le x [] = [x]"
| "insert_by le x (y # ys) = (if le x y then x # y # ys else y # insert_by le x ys)"

definition isort_by :: "('a \<Rightarrow> 'a \<Rightarrow> bool) \<Rightarrow> 'a list \<Rightarrow> 'a list" where
  "isort_by le xs = foldr (insert_by le) xs []"

lemma mset_insert_by [simp]: "mset (insert_by le x ys) = add_mset x (mset ys)"
  by (induction ys) auto

lemma mset_isort_by [simp]: "mset (isort_by le xs) = mset xs"
  by (induction xs) (auto simp: isort_by_def)

lemma set_insert_by [simp]: "set (insert_by le x ys) = insert x (set ys)"
  by (induction ys) auto

lemma sorted_wrt_insert_by:
  assumes tr: "\<And>x y z. le x y \<Longrightarrow> le y z \<Longrightarrow> le x z" and tot: "\<And>x y. le x y \<or> le y x"
  shows "sorted_wrt le ys \<Longrightarrow> sorted_wrt le (insert_by le x ys)"
  using tot by (induction ys) (auto intro: tr)

lemma sorted_wrt_isort_by:
  assumes "\<And>x y z. le x y \<Longrightarrow> le y z \<Longrightarrow> le x z" and "\<And>x y. le x y \<or> le y x"
  shows "sorted_wrt le (isort_by le xs)"
proof (induction xs)
  case (Cons x xs)
  then show ?case
    using sorted_wrt_insert_by [of le "isort_by le xs" x] assms by (auto simp: isort_by_def)
qed (simp add: isort_by_def)

lemma length_filter_pos_iff: "0 < length (filter P xs) \<longleftrightarrow> (\<exists>x \<in> set xs. P x)"
  by (auto simp: filter_empty_conv)

lemma length_filter_keys:
  assumes "distinct ks" "distinct (map f xs)" "{k \<in> set ks. Q k} = f ` {x \<in> set xs. P x}"
  shows "length (filter Q ks) = length (filter P xs)"
proof -
  have "length (filter Q ks) = card {k \<in> set ks. Q k}"
    using assms(1) by (metis distinct_card distinct_filter set_filter)
  also have "\<dots> = card (set (map f (filter P xs)))" using assms(3) by simp
  also have "\<dots> = length (filter P xs)"
    using distinct_map_filter [OF assms(2), of P] by (metis distinct_card length_map)
  finally show ?thesis .
qed

lemma count_list_distinct: "distinct xs \<Longrightarrow> count_list xs x = (if x \<in> set xs then 1 else 0)"
  by (induction xs) auto

end
