(* ===== verification/Sql_Table.thy ===== *)
theory Sql_Table
  imports Go_Prelude
begin

text \<open>
  The relational store behind GORM. The database server and the ORM are not part of the
  repository's own code, so they are a parameter of every definition that talks to them: a
  record of operations on an abstract database state \<open>'d\<close>, one per statement shape the
  sources use (\<open>Where(..).Order(..).Find\<close>, \<open>Count\<close>, \<open>Updates\<close>, \<open>Create\<close>, \<open>Save\<close>). Any statement
  may fail with an error of the driver's choosing.

  The locale \<open>sql_table\<close> names the documented behaviour the repository relies on: a successful
  statement has SQL's effect on the table's rows. The WHERE and ORDER BY clauses themselves
  are written in the sources and are translated there, as predicates; a predicate receives
  the whole table as well as the row, for correlated subqueries.
\<close>

record ('d, 'r) table_ops =
  tb_find :: "'d \<Rightarrow> ('r list \<Rightarrow> 'r \<Rightarrow> bool) \<Rightarrow> ('r \<Rightarrow> 'r \<Rightarrow> bool) \<Rightarrow> 'r list res"
  tb_count :: "'d \<Rightarrow> ('r list \<Rightarrow> 'r \<Rightarrow> bool) \<Rightarrow> nat res"
  tb_update :: "'d \<Rightarrow> ('r \<Rightarrow> bool) \<Rightarrow> ('r \<Rightarrow> 'r) \<Rightarrow> 'd res"
  tb_insert :: "'d \<Rightarrow> 'r list \<Rightarrow> ('r list \<times> 'd) res"
  tb_save :: "'d \<Rightarrow> 'r \<Rightarrow> 'd res"

definition any_order :: "'r \<Rightarrow> 'r \<Rightarrow> bool" where
  "any_order x y = True"

definition row_at :: "('r \<Rightarrow> nat) \<Rightarrow> 'r list \<Rightarrow> nat \<Rightarrow> 'r option" where
  "row_at pk rs k = List.find (\<lambda>r. pk r = k) rs"

definition replace_row :: "('r \<Rightarrow> nat) \<Rightarrow> 'r \<Rightarrow> 'r list \<Rightarrow> 'r list" where
  "replace_row pk r rs = map (\<lambda>x. if pk x = pk r then r else x) rs"

definition update_rows :: "('r \<Rightarrow> bool) \<Rightarrow> ('r \<Rightarrow> 'r) \<Rightarrow> 'r list \<Rightarrow> 'r list" where
  "update_rows P f rs = map (\<lambda>r. if P r then f r else r) rs"

section \<open>Rows by primary key\<close>

lemma row_at_Nil [simp]: "row_at pk [] k = None"
  by (simp add: row_at_def)

lemma row_at_Cons [simp]: "row_at pk (r # rs) k = (if pk r = k then Some r else row_at pk rs k)"
  by (simp add: row_at_def)

lemma row_at_SomeD: "row_at pk rs k = Some r \<Longrightarrow> r \<in> set rs \<and> pk r = k"
  by (induction rs) (auto split: if_splits)

lemma row_at_None_iff: "row_at pk rs k = None \<longleftrightarrow> k \<notin> pk ` set rs"
  by (induction rs) auto

lemma row_at_in: "distinct (map pk rs) \<Longrightarrow> r \<in> set rs \<Longrightarrow> row_at pk rs (pk r) = Some r"
proof (cases "row_at pk rs (pk r)")
  case None
  moreover assume "r \<in> set rs"
  ultimately show ?thesis by (simp add: row_at_None_iff)
next
  case (Some x)
  moreover assume "distinct (map pk rs)" "r \<in> set rs"
  ultimately show ?thesis
    using row_at_SomeD [OF Some] distinct_map_inj_on [of pk rs x r] by simp
qed

lemma row_at_replace_same: "row_at pk (replace_row pk r rs) (pk r) = (if pk r \<in> pk ` set rs then Some r else None)"
  unfolding replace_row_def by (induction rs) (simp_all add: image_iff)

lemma row_at_replace_other: "k \<noteq> pk r \<Longrightarrow> row_at pk (replace_row pk r rs) k = row_at pk rs k"
  unfolding replace_row_def by (induction rs) simp_all

lemma row_at_replace_row:
  "pk r \<in> pk ` set rs \<Longrightarrow> row_at pk (replace_row pk r rs) k = (if k = pk r then Some r else row_at pk rs k)"
  by (cases "k = pk r") (simp_all add: row_at_replace_same row_at_replace_other)

lemma row_at_update_rows:
  assumes "\<And>r. pk (f r) = pk r"
  shows "row_at pk (update_rows P f rs) k = map_option (\<lambda>r. if P r then f r else r) (row_at pk rs k)"
  unfolding update_rows_def using assms by (induction rs) auto

lemma keys_replace_row [simp]: "map pk (replace_row pk r rs) = map pk rs"
  by (induction rs) (auto simp: replace_row_def)

lemma keys_update_rows: "(\<And>r. pk (f r) = pk r) \<Longrightarrow> map pk (update_rows P f rs) = map pk rs"
  by (induction rs) (auto simp: update_rows_def)

lemma set_replace_row:
  "pk r \<in> pk ` set rs \<Longrightarrow> set (replace_row pk r rs) = insert r {x \<in> set rs. pk x \<noteq> pk r}"
  by (auto simp: replace_row_def)

lemma set_update_rows: "set (update_rows P f rs) = {f r | r. r \<in> set rs \<and> P r} \<union> {r \<in> set rs. \<not> P r}"
  by (auto simp: update_rows_def)

lemma update_rows_none: "(\<And>r. r \<in> set rs \<Longrightarrow> \<not> P r) \<Longrightarrow> update_rows P f rs = rs"
  by (induction rs) (auto simp: update_rows_def)

section \<open>The interface\<close>

locale sql_table =
  fixes T :: "('d, 'r) table_ops" and rows :: "'d \<Rightarrow> 'r list" and tinv :: "'d \<Rightarrow> bool"
    and pk :: "'r \<Rightarrow> nat" and setpk :: "nat \<Rightarrow> 'r \<Rightarrow> 'r"
  assumes keys_distinct: "tinv d \<Longrightarrow> distinct (map pk (rows d))"
    and keys_nonzero: "tinv d \<Longrightarrow> r \<in> set (rows d) \<Longrightarrow> pk r \<noteq> 0"
    and find_rows: "tinv d \<Longrightarrow> tb_find T d P le = Inr rs \<Longrightarrow> mset rs = mset (filter (P (rows d)) (rows d))"
    and find_sorted: "tinv d \<Longrightarrow> tb_find T d P le = Inr rs \<Longrightarrow>
       (\<And>x y z. le x y \<Longrightarrow> le y z \<Longrightarrow> le x z) \<Longrightarrow> (\<And>x y. le x y \<or> le y x) \<Longrightarrow> sorted_wrt le rs"
    and count_rows: "tinv d \<Longrightarrow> tb_count T d P = Inr n \<Longrightarrow> n = length (filter (P (rows d)) (rows d))"
    and update_rows_ok: "tinv d \<Longrightarrow> tb_update T d Q f = Inr d' \<Longrightarrow> rows d' = update_rows Q f (rows d) \<and> tinv d'"
    and insert_rows: "tinv d \<Longrightarrow> tb_insert T d rs = Inr (rs', d') \<Longrightarrow>
       rows d' = rows d @ rs' \<and> tinv d' \<and>
       list_all2 (\<lambda>r r'. r' = (if pk r = 0 then setpk (pk r') r else r)) rs rs'"
    and save_row: "tinv d \<Longrightarrow> tb_save T d r = Inr d' \<Longrightarrow> pk r \<in> pk ` set (rows d) \<Longrightarrow>
       rows d' = replace_row pk r (rows d) \<and> tinv d'"
begin

lemma find_set: "tinv d \<Longrightarrow> tb_find T d P le = Inr rs \<Longrightarrow> set rs = {r \<in> set (rows d). P (rows d) r}"
  by (rule mset_eq_filter_setD) (rule find_rows)

lemma find_Nil_iff: "tinv d \<Longrightarrow> tb_find T d P le = Inr rs \<Longrightarrow> rs = [] \<longleftrightarrow> (\<forall>r \<in> set (rows d). \<not> P (rows d) r)"
  by (rule mset_eq_filter_NilD) (rule find_rows)

lemma find_distinct:
  assumes "tinv d" "tb_find T d P le = Inr rs"
  shows "distinct (map pk rs)"
proof -
  have "mset (map pk rs) = mset (map pk (filter (P (rows d)) (rows d)))"
    using find_rows [OF assms] by (simp only: mset_map)
  then show ?thesis
    using distinct_map_filter [OF keys_distinct [OF assms(1)]] mset_eq_imp_distinct_iff by metis
qed

lemma find_first:
  assumes "tinv d" "tb_find T d P le = Inr rs" "pk (first_or z rs) \<noteq> 0" "pk z = 0"
  shows "first_or z rs \<in> set (rows d)" "P (rows d) (first_or z rs)"
proof -
  have "rs \<noteq> []" using assms(3,4) by auto
  with find_set [OF assms(1,2)] show "first_or z rs \<in> set (rows d)" "P (rows d) (first_or z rs)"
    using first_or_in [of rs z] by auto
qed

lemma find_first_none:
  assumes "tinv d" "tb_find T d P le = Inr rs" "pk (first_or z rs) = 0"
  shows "\<forall>r \<in> set (rows d). \<not> P (rows d) r"
proof (rule ccontr)
  assume "\<not> ?thesis"
  with find_Nil_iff [OF assms(1,2)] have "rs \<noteq> []" by auto
  then have "first_or z rs \<in> set (rows d)"
    using first_or_in [of rs z] find_set [OF assms(1,2)] by auto
  then show False using keys_nonzero [OF assms(1)] assms(3) by blast
qed

text \<open>A query by primary key returns that row or nothing.\<close>

lemma find_by_key:
  assumes "tinv d" "tb_find T d (\<lambda>_ r. pk r = k \<and> Q r) le = Inr rs"
  shows "rs = (case row_at pk (rows d) k of Some r \<Rightarrow> (if Q r then [r] else []) | None \<Rightarrow> [])"
proof (cases "row_at pk (rows d) k")
  case None
  then have "k \<notin> pk ` set (rows d)" by (simp add: row_at_None_iff)
  then have "rs = []" using find_Nil_iff [OF assms] by blast
  with None show ?thesis by simp
next
  case (Some r)
  then have r: "r \<in> set (rows d)" "pk r = k" by (auto dest: row_at_SomeD)
  have "filter (\<lambda>x. pk x = k \<and> Q x) (rows d) = filter Q (filter (\<lambda>x. pk x = pk r) (rows d))"
    using r by (simp add: conj_commute)
  also have "\<dots> = filter Q [r]"
    by (simp only: filter_eq_key_single [OF keys_distinct [OF assms(1)] r(1)])
  finally have "mset rs = mset (filter Q [r])"
    using find_rows [OF assms] by simp
  then show ?thesis using Some by (auto split: if_splits)
qed

lemma row_at_mem: "tinv d \<Longrightarrow> r \<in> set (rows d) \<Longrightarrow> row_at pk (rows d) (pk r) = Some r"
  by (rule row_at_in) (rule keys_distinct)

lemma row_at_zero: "tinv d \<Longrightarrow> row_at pk (rows d) 0 = None"
  using keys_nonzero [of d] by (metis imageE row_at_None_iff)

lemma save_row_at:
  assumes "tinv d" "tb_save T d r = Inr d'" "pk r \<in> pk ` set (rows d)"
  shows "tinv d'" "row_at pk (rows d') k = (if k = pk r then Some r else row_at pk (rows d) k)"
  using save_row [OF assms] row_at_replace_row [OF assms(3)] by simp_all

lemma update_row_at:
  assumes "tinv d" "tb_update T d Q f = Inr d'" "\<And>r. pk (f r) = pk r"
  shows "tinv d'" "row_at pk (rows d') k = map_option (\<lambda>r. if Q r then f r else r) (row_at pk (rows d) k)"
  using update_rows_ok [OF assms(1,2)] row_at_update_rows [of pk f] assms(3) by simp_all

lemma insert_length: "tinv d \<Longrightarrow> tb_insert T d rs = Inr (rs', d') \<Longrightarrow> length rs' = length rs"
  using insert_rows [of d rs rs' d'] list_all2_lengthD [of _ rs rs'] by metis

end

section \<open>A table held in memory\<close>

text \<open>
  The interface is satisfiable: a table kept as a list of rows, whose statements succeed unless
  they would break the primary key. It is the instance the concrete runs are evaluated on.
\<close>

definition mem_wf :: "('r \<Rightarrow> nat) \<Rightarrow> 'r list \<Rightarrow> bool" where
  "mem_wf pk rs = (distinct (map pk rs) \<and> list_all (\<lambda>r. pk r \<noteq> 0) rs)"

definition mem_checked :: "('r \<Rightarrow> nat) \<Rightarrow> 'r list \<Rightarrow> 'r list res" where
  "mem_checked pk rs = (if mem_wf pk rs then Inr rs else Inl (Err ''Error 1062: Duplicate entry''))"

fun assign_keys :: "('r \<Rightarrow> nat) \<Rightarrow> (nat \<Rightarrow> 'r \<Rightarrow> 'r) \<Rightarrow> nat \<Rightarrow> 'r list \<Rightarrow> 'r list" where
  "assign_keys pk setpk n [] = []"
| "assign_keys pk setpk n (r # rs) =
     (if pk r = 0 then setpk n r # assign_keys pk setpk (Suc n) rs else r # assign_keys pk setpk n rs)"

definition mem_insert :: "('r \<Rightarrow> nat) \<Rightarrow> (nat \<Rightarrow> 'r \<Rightarrow> 'r) \<Rightarrow> 'r list \<Rightarrow> 'r list \<Rightarrow> ('r list \<times> 'r list) res" where
  "mem_insert pk setpk d rs =
     (let rs' = assign_keys pk setpk (Suc (foldr max (map pk d) 0)) rs in
      case mem_checked pk (d @ rs') of Inl e \<Rightarrow> Inl e | Inr d' \<Rightarrow> Inr (rs', d'))"

definition mem_table :: "('r \<Rightarrow> nat) \<Rightarrow> (nat \<Rightarrow> 'r \<Rightarrow> 'r) \<Rightarrow> ('r list, 'r) table_ops" where
  "mem_table pk setpk = \<lparr>
     tb_find = (\<lambda>d P le. Inr (isort_by le (filter (P d) d))),
     tb_count = (\<lambda>d P. Inr (length (filter (P d) d))),
     tb_update = (\<lambda>d Q f. mem_checked pk (update_rows Q f d)),
     tb_insert = mem_insert pk setpk,
     tb_save = (\<lambda>d r. if pk r \<in> set (map pk d) then mem_checked pk (replace_row pk r d)
                       else mem_checked pk (d @ [r]))\<rparr>"

lemma mem_checked_eq [simp]: "mem_checked pk rs = Inr d \<longleftrightarrow> d = rs \<and> mem_wf pk rs"
  by (auto simp: mem_checked_def)

lemma assign_keys_all2:
  assumes "\<And>k r. pk (setpk k r) = k"
  shows "list_all2 (\<lambda>r r'. r' = (if pk r = 0 then setpk (pk r') r else r)) rs (assign_keys pk setpk n rs)"
  by (induction rs arbitrary: n) (auto simp: assms)

lemma mem_table_sql_table:
  assumes "\<And>k r. pk (setpk k r) = k"
  shows "sql_table (mem_table pk setpk) id (mem_wf pk) pk setpk"
proof (unfold_locales, goal_cases)
  case (1 d)
  then show ?case by (simp add: mem_wf_def)
next
  case (2 d r)
  then show ?case by (simp add: mem_wf_def list_all_iff)
next
  case (3 d P le rs)
  then show ?case by (auto simp: mem_table_def)
next
  case (4 d P le rs)
  then have "rs = isort_by le (filter (P d) d)" by (simp add: mem_table_def)
  then show ?case using sorted_wrt_isort_by [of le] 4(3,4) by blast
next
  case (5 d P n)
  then show ?case by (simp add: mem_table_def)
next
  case (6 d Q f d')
  then show ?case by (simp add: mem_table_def)
next
  case (7 d rs rs' d')
  then have "rs' = assign_keys pk setpk (Suc (foldr max (map pk d) 0)) rs" "d' = d @ rs'" "mem_wf pk d'"
    by (auto simp: mem_table_def mem_insert_def Let_def split: sum.splits)
  moreover have "list_all2 (\<lambda>r r'. r' = (if pk r = 0 then setpk (pk r') r else r)) rs rs'"
    using calculation(1) assign_keys_all2 [of pk setpk, OF assms] by (simp only:)
  ultimately show ?case by simp
next
  case (8 d r d')
  then show ?case by (simp add: mem_table_def split: if_splits)
qed


text \<open>A further constraint on the table, such as a unique index: a statement that would break it fails.\<close>

definition index_checked :: "('r list \<Rightarrow> bool) \<Rightarrow> ('d \<Rightarrow> 'r list) \<Rightarrow> 'd \<Rightarrow> 'a \<Rightarrow> 'a res" where
  "index_checked G rows d' x = (if G (rows d') then Inr x else Inl (Err ''Error 1062: Duplicate entry''))"

definition with_index :: "('r list \<Rightarrow> bool) \<Rightarrow> ('d \<Rightarrow> 'r list) \<Rightarrow> ('d, 'r) table_ops \<Rightarrow> ('d, 'r) table_ops" where
  "with_index G rows T = \<lparr>
     tb_find = tb_find T,
     tb_count = tb_count T,
     tb_update = (\<lambda>d Q f. case tb_update T d Q f of Inl e \<Rightarrow> Inl e | Inr d' \<Rightarrow> index_checked G rows d' d'),
     tb_insert = (\<lambda>d rs. case tb_insert T d rs of Inl e \<Rightarrow> Inl e | Inr (rs', d') \<Rightarrow> index_checked G rows d' (rs', d')),
     tb_save = (\<lambda>d r. case tb_save T d r of Inl e \<Rightarrow> Inl e | Inr d' \<Rightarrow> index_checked G rows d' d')\<rparr>"

lemma index_checked_Inr [simp]: "index_checked G rows d' x = Inr y \<longleftrightarrow> G (rows d') \<and> y = x"
  by (auto simp: index_checked_def)

lemma with_index_sql_table:
  assumes "sql_table T rows tinv pk setpk"
  shows "sql_table (with_index G rows T) rows (\<lambda>d. tinv d \<and> G (rows d)) pk setpk"
proof (unfold_locales, goal_cases)
  case (3 d P le rs)
  then show ?case using sql_table.find_rows [OF assms, of d P le rs] by (simp add: with_index_def)
next
  case (4 d P le rs)
  then show ?case using sql_table.find_sorted [OF assms, of d P le rs] by (simp add: with_index_def)
next
  case (5 d P n)
  then show ?case using sql_table.count_rows [OF assms, of d P n] by (simp add: with_index_def)
next
  case (6 d Q f d')
  then show ?case using sql_table.update_rows_ok [OF assms, of d Q f] by (fastforce simp: with_index_def split: sum.splits)
next
  case (7 d rs rs' d')
  then have "tb_insert T d rs = Inr (rs', d')" "G (rows d')"
    by (auto simp: with_index_def split: sum.splits prod.splits)
  then show ?case using sql_table.insert_rows [OF assms, of d rs rs' d'] 7(1) by simp
next
  case (8 d r d')
  then show ?case using sql_table.save_row [OF assms, of d r] by (fastforce simp: with_index_def split: sum.splits)
qed (use sql_table.keys_distinct [OF assms] sql_table.keys_nonzero [OF assms] in auto)

end
