(* ===== verification/Task_Model.thy ===== *)
theory Task_Model
  imports Sql_Table
begin

text \<open>
  The task entity of \<open>task/model/entity.go\<close>: its status values, the struct with the columns of
  \<open>core_task\<close> (including \<open>gorm.Model\<close>), the status predicates, the \<open>MarkAs*\<close> transitions and
  \<open>Validate\<close>, with the sentinel errors of \<open>task/model/errors.go\<close>. The wall clock read by a
  transition (\<open>time.Now()\<close>) is an argument.
\<close>

section \<open>Status values and errors\<close>

text \<open>\<open>type TaskStatus string\<close>: any string, with six named values.\<close>

type_synonym TaskStatus = string

definition TaskStatusPending :: TaskStatus where "TaskStatusPending = ''pending''"
definition TaskStatusRunning :: TaskStatus where "TaskStatusRunning = ''running''"
definition TaskStatusSuccess :: TaskStatus where "TaskStatusSuccess = ''success''"
definition TaskStatusFailed :: TaskStatus where "TaskStatusFailed = ''failed''"
definition TaskStatusCanceled :: TaskStatus where "TaskStatusCanceled = ''canceled''"
definition TaskStatusTimeout :: TaskStatus where "TaskStatusTimeout = ''timeout''"

lemmas task_status_defs = TaskStatusPending_def TaskStatusRunning_def TaskStatusSuccess_def
  TaskStatusFailed_def TaskStatusCanceled_def TaskStatusTimeout_def

lemma task_status_distinct [simp]:
  "distinct [TaskStatusPending, TaskStatusRunning, TaskStatusSuccess, TaskStatusFailed,
             TaskStatusCanceled, TaskStatusTimeout, []]"
  by (simp add: task_status_defs)

lemma task_status_neq [simp]:
  "TaskStatusPending \<noteq> TaskStatusRunning" "TaskStatusPending \<noteq> TaskStatusSuccess"
  "TaskStatusPending \<noteq> TaskStatusFailed" "TaskStatusPending \<noteq> TaskStatusCanceled"
  "TaskStatusPending \<noteq> TaskStatusTimeout" "TaskStatusRunning \<noteq> TaskStatusSuccess"
  "TaskStatusRunning \<noteq> TaskStatusFailed" "TaskStatusRunning \<noteq> TaskStatusCanceled"
  "TaskStatusRunning \<noteq> TaskStatusTimeout" "TaskStatusSuccess \<noteq> TaskStatusFailed"
  "TaskStatusSuccess \<noteq> TaskStatusCanceled" "TaskStatusSuccess \<noteq> TaskStatusTimeout"
  "TaskStatusFailed \<noteq> TaskStatusCanceled" "TaskStatusFailed \<noteq> TaskStatusTimeout"
  "TaskStatusCanceled \<noteq> TaskStatusTimeout"
  by (simp_all add: task_status_defs)

lemmas task_status_neq_sym [simp] = task_status_neq [symmetric]

lemma task_status_nonempty [simp]:
  "TaskStatusPending \<noteq> []" "TaskStatusRunning \<noteq> []" "TaskStatusSuccess \<noteq> []"
  "TaskStatusFailed \<noteq> []" "TaskStatusCanceled \<noteq> []" "TaskStatusTimeout \<noteq> []"
  by (simp_all add: task_status_defs)

definition ErrInvalidTimeout :: gerror where "ErrInvalidTimeout = Err ''task: invalid timeout''"
definition ErrTaskNotFound :: gerror where "ErrTaskNotFound = Err ''task: task not found''"
definition ErrEmptyTaskType :: gerror where
  "ErrEmptyTaskType = Err ''task: task type cannot be empty''"
definition ErrEmptyPayload :: gerror where
  "ErrEmptyPayload = Err ''task: payload cannot be empty''"
definition ErrInvalidSubjectID :: gerror where
  "ErrInvalidSubjectID = Err ''task: invalid subject id''"

section \<open>The entity\<close>

record TaskEntity =
  te_ID :: nat
  te_CreatedAt :: "gotime option"
  te_UpdatedAt :: "gotime option"
  te_DeletedAt :: "gotime option"
  te_CompanyID :: nat
  te_Uin :: nat
  te_SubjectType :: string
  te_SubjectID :: nat
  te_TaskType :: string
  te_TaskStatus :: TaskStatus
  te_Priority :: int
  te_Step :: int
  te_Redo :: int
  te_MaxRedo :: int
  te_Timeout :: duration
  te_Payload :: string
  te_Result :: string
  te_ErrMsg :: string
  te_WorkerID :: string
  te_StartAt :: "gotime option"
  te_EndAt :: "gotime option"
  te_Cost :: int
  te_AppGroup :: string

text \<open>The zero value of the struct, what \<open>var taskEntity TaskEntity\<close> holds.\<close>

definition zero_task :: TaskEntity where
  "zero_task = \<lparr>te_ID = 0, te_CreatedAt = None, te_UpdatedAt = None, te_DeletedAt = None,
     te_CompanyID = 0, te_Uin = 0, te_SubjectType = [], te_SubjectID = 0, te_TaskType = [],
     te_TaskStatus = [], te_Priority = 0, te_Step = 0, te_Redo = 0, te_MaxRedo = 0,
     te_Timeout = 0, te_Payload = [], te_Result = [], te_ErrMsg = [], te_WorkerID = [],
     te_StartAt = None, te_EndAt = None, te_Cost = 0, te_AppGroup = []\<rparr>"

lemma zero_task_ID [simp]: "te_ID zero_task = 0"
  by (simp add: zero_task_def)

definition set_task_ID :: "nat \<Rightarrow> TaskEntity \<Rightarrow> TaskEntity" where
  "set_task_ID k t = t\<lparr>te_ID := k\<rparr>"

lemma te_ID_set_task_ID [simp]: "te_ID (set_task_ID k t) = k"
  by (simp add: set_task_ID_def)

definition IsPending :: "TaskEntity \<Rightarrow> bool" where
  "IsPending t = (te_TaskStatus t = TaskStatusPending)"

definition IsRunning :: "TaskEntity \<Rightarrow> bool" where
  "IsRunning t = (te_TaskStatus t = TaskStatusRunning)"

definition IsFinished :: "TaskEntity \<Rightarrow> bool" where
  "IsFinished t = (te_TaskStatus t = TaskStatusSuccess \<or> te_TaskStatus t = TaskStatusFailed \<or>
     te_TaskStatus t = TaskStatusCanceled \<or> te_TaskStatus t = TaskStatusTimeout)"

definition IsSuccess :: "TaskEntity \<Rightarrow> bool" where
  "IsSuccess t = (te_TaskStatus t = TaskStatusSuccess)"

definition CanRetry :: "TaskEntity \<Rightarrow> bool" where
  "CanRetry t = (te_Redo t < te_MaxRedo t \<and>
     (te_TaskStatus t = TaskStatusFailed \<or> te_TaskStatus t = TaskStatusTimeout))"

lemmas status_preds = IsPending_def IsRunning_def IsFinished_def IsSuccess_def CanRetry_def

section \<open>Transitions\<close>

definition cost_since :: "gotime \<Rightarrow> TaskEntity \<Rightarrow> int" where
  "cost_since now t = (case te_StartAt t of
     Some s \<Rightarrow> whole_seconds (time_Sub now s) | None \<Rightarrow> te_Cost t)"

definition MarkAsRunning :: "gotime \<Rightarrow> string \<Rightarrow> TaskEntity \<Rightarrow> TaskEntity" where
  "MarkAsRunning now workerID t =
     t\<lparr>te_TaskStatus := TaskStatusRunning, te_WorkerID := workerID, te_StartAt := Some now\<rparr>"

definition MarkAsSuccess :: "gotime \<Rightarrow> string \<Rightarrow> TaskEntity \<Rightarrow> TaskEntity" where
  "MarkAsSuccess now result t =
     t\<lparr>te_TaskStatus := TaskStatusSuccess, te_Result := result, te_EndAt := Some now,
       te_Cost := cost_since now t\<rparr>"

definition MarkAsFailed :: "gotime \<Rightarrow> string \<Rightarrow> TaskEntity \<Rightarrow> TaskEntity" where
  "MarkAsFailed now errMsg t =
     t\<lparr>te_TaskStatus := TaskStatusFailed, te_ErrMsg := errMsg, te_EndAt := Some now,
       te_Redo := te_Redo t + 1, te_Cost := cost_since now t\<rparr>"

definition MarkAsTimeout :: "gotime \<Rightarrow> TaskEntity \<Rightarrow> TaskEntity" where
  "MarkAsTimeout now t =
     t\<lparr>te_TaskStatus := TaskStatusTimeout, te_ErrMsg := ''task execution timeout'',
       te_EndAt := Some now, te_Redo := te_Redo t + 1, te_Cost := cost_since now t\<rparr>"

definition MarkAsCanceled :: "gotime \<Rightarrow> string \<Rightarrow> TaskEntity \<Rightarrow> TaskEntity" where
  "MarkAsCanceled now reason t =
     t\<lparr>te_TaskStatus := TaskStatusCanceled, te_ErrMsg := reason, te_EndAt := Some now,
       te_Cost := cost_since now t\<rparr>"

lemmas mark_defs = MarkAsRunning_def MarkAsSuccess_def MarkAsFailed_def MarkAsTimeout_def
  MarkAsCanceled_def

lemma mark_status [row_simps]:
  "te_TaskStatus (MarkAsRunning now w t) = TaskStatusRunning"
  "te_TaskStatus (MarkAsSuccess now res t) = TaskStatusSuccess"
  "te_TaskStatus (MarkAsFailed now msg t) = TaskStatusFailed"
  "te_TaskStatus (MarkAsTimeout now t) = TaskStatusTimeout"
  "te_TaskStatus (MarkAsCanceled now msg t) = TaskStatusCanceled"
  by (simp_all add: mark_defs)

lemma mark_redo [row_simps]:
  "te_Redo (MarkAsRunning now w t) = te_Redo t"
  "te_Redo (MarkAsSuccess now res t) = te_Redo t"
  "te_Redo (MarkAsFailed now msg t) = te_Redo t + 1"
  "te_Redo (MarkAsTimeout now t) = te_Redo t + 1"
  "te_Redo (MarkAsCanceled now msg t) = te_Redo t"
  by (simp_all add: mark_defs)

lemma mark_ID [simp, row_simps]:
  "te_ID (MarkAsRunning now w t) = te_ID t" "te_ID (MarkAsSuccess now res t) = te_ID t"
  "te_ID (MarkAsFailed now msg t) = te_ID t" "te_ID (MarkAsTimeout now t) = te_ID t"
  "te_ID (MarkAsCanceled now msg t) = te_ID t"
  by (simp_all add: mark_defs)

text \<open>The columns that identify a task and place it in its flow: no transition writes them.\<close>

definition task_key :: "TaskEntity \<Rightarrow> nat \<times> nat \<times> string \<times> string \<times> int \<times> int \<times> int \<times> gotime option" where
  "task_key t = (te_ID t, te_SubjectID t, te_AppGroup t, te_TaskType t, te_Step t, te_Priority t,
     te_MaxRedo t, te_DeletedAt t)"

lemma mark_key [simp, row_simps]:
  "task_key (MarkAsRunning now w t) = task_key t" "task_key (MarkAsSuccess now res t) = task_key t"
  "task_key (MarkAsFailed now msg t) = task_key t" "task_key (MarkAsTimeout now t) = task_key t"
  "task_key (MarkAsCanceled now msg t) = task_key t"
  by (simp_all add: mark_defs task_key_def)

lemma task_keyD:
  assumes "task_key t = task_key u"
  shows "te_ID t = te_ID u" "te_SubjectID t = te_SubjectID u" "te_AppGroup t = te_AppGroup u"
    "te_TaskType t = te_TaskType u" "te_Step t = te_Step u" "te_Priority t = te_Priority u"
    "te_MaxRedo t = te_MaxRedo u" "te_DeletedAt t = te_DeletedAt u"
  using assms by (simp_all add: task_key_def)

lemma cost_since_nonneg: "te_StartAt t = Some s \<Longrightarrow> s \<le> now \<Longrightarrow> 0 \<le> cost_since now t"
  by (simp add: cost_since_def whole_seconds_nonneg time_Sub_nonneg)

section \<open>Validation\<close>

definition Validate :: "TaskEntity \<Rightarrow> unit res" where
  "Validate t =
     (if te_TaskType t = [] then Inl ErrEmptyTaskType
      else if te_SubjectID t = 0 then Inl ErrInvalidSubjectID
      else if te_Payload t = [] then Inl ErrEmptyPayload
      else if te_Timeout t \<le> 0 then Inl ErrInvalidTimeout
      else Inr ())"

lemma Validate_ok_iff:
  "is_ok (Validate t) \<longleftrightarrow> te_TaskType t \<noteq> [] \<and> te_SubjectID t \<noteq> 0 \<and> te_Payload t \<noteq> [] \<and> 0 < te_Timeout t"
  by (auto simp: Validate_def)

section \<open>The retry budget of a task\<close>

text \<open>One attempt that ends badly: the worker reports an error or the deadline passed.\<close>

datatype bad_end = EndFailed string | EndTimeout

fun end_badly :: "gotime \<Rightarrow> bad_end \<Rightarrow> TaskEntity \<Rightarrow> TaskEntity" where
  "end_badly now (EndFailed msg) t = MarkAsFailed now msg t"
| "end_badly now EndTimeout t = MarkAsTimeout now t"

fun attempts :: "(gotime \<times> string \<times> bad_end) list \<Rightarrow> TaskEntity \<Rightarrow> TaskEntity" where
  "attempts [] t = t"
| "attempts ((now, w, b) # as) t = attempts as (end_badly now b (MarkAsRunning now w t))"

lemma attempts_redo: "te_Redo (attempts as t) = te_Redo t + int (length as)"
proof (induction as t rule: attempts.induct)
  case (2 now w b as t)
  then show ?case by (cases b) (simp_all add: row_simps)
qed simp

lemma end_badly_status:
  "te_TaskStatus (end_badly now b t) = TaskStatusFailed \<or> te_TaskStatus (end_badly now b t) = TaskStatusTimeout"
  by (cases b) (simp_all add: row_simps)

lemma attempts_key: "task_key (attempts as t) = task_key t"
proof (induction as t rule: attempts.induct)
  case (2 now w b as t)
  then show ?case by (cases b) simp_all
qed simp

lemma attempts_status:
  "as \<noteq> [] \<Longrightarrow> te_TaskStatus (attempts as t) = TaskStatusFailed \<or> te_TaskStatus (attempts as t) = TaskStatusTimeout"
proof (induction as t rule: attempts.induct)
  case (2 now w b as t)
  then show ?case by (cases as) (simp_all add: end_badly_status)
qed simp

end
