(* ===== verification/Task_Dao.thy ===== *)
theory Task_Dao
  imports Task_Model
begin

text \<open>
  \<open>TaskDao\<close> of \<open>task/model/dao.go\<close>: the CRUD statements on \<open>core_task\<close> and the condition builder.
  Every function takes the table operations \<open>T\<close> and the database state it reads or changes.
  Statements whose destination is the entity struct carry GORM's soft-delete scope
  (\<open>deleted_at IS NULL\<close>) and its update timestamp; statements given only a table name and a map
  (\<open>UpdateMap\<close>, \<open>Delete\<close>) have no schema and carry neither. \<open>Updates\<close> with a struct writes the
  non-zero fields only. Raw SQL fragments passed in by callers (\<open>OrderBy\<close>, \<open>OrCondition\<close>) are
  interpreted by a parameter.
\<close>

type_synonym 'd task_table = "('d, TaskEntity) table_ops"

record sql_lang =
  sq_where :: "string \<Rightarrow> string list \<Rightarrow> TaskEntity \<Rightarrow> bool"
  sq_order :: "string \<Rightarrow> TaskEntity \<Rightarrow> TaskEntity \<Rightarrow> bool"

record TaskCond =
  tc_CompanyID :: nat
  tc_Uin :: nat
  tc_ID :: nat
  tc_IDs :: "nat list"
  tc_SubjectID :: nat
  tc_Step :: int
  tc_WorkerID :: string
  tc_TaskType :: string
  tc_TaskStatus :: TaskStatus
  tc_OrderBy :: "string list"
  tc_OrConditions :: "string list"
  tc_OrArgs :: "string list"
  tc_Offset :: int
  tc_Limit :: int
  tc_IsDelete :: bool

definition zero_cond :: TaskCond where
  "zero_cond = \<lparr>tc_CompanyID = 0, tc_Uin = 0, tc_ID = 0, tc_IDs = [], tc_SubjectID = 0, tc_Step = 0,
     tc_WorkerID = [], tc_TaskType = [], tc_TaskStatus = [], tc_OrderBy = [], tc_OrConditions = [],
     tc_OrArgs = [], tc_Offset = 0, tc_Limit = 0, tc_IsDelete = False\<rparr>"


definition not_deleted :: "TaskEntity \<Rightarrow> bool" where
  "not_deleted t = (te_DeletedAt t = None)"

text \<open>The WHERE clause \<open>BuildCondition\<close> adds, and the ORDER BY clause.\<close>

definition BuildCondition :: "sql_lang \<Rightarrow> TaskCond \<Rightarrow> TaskEntity \<Rightarrow> bool" where
  "BuildCondition L c t \<longleftrightarrow>
     (0 < tc_CompanyID c \<longrightarrow> te_CompanyID t = tc_CompanyID c) \<and>
     (0 < tc_Uin c \<longrightarrow> te_Uin t = tc_Uin c) \<and>
     (tc_WorkerID c \<noteq> [] \<longrightarrow> te_WorkerID t = tc_WorkerID c) \<and>
     (0 < tc_ID c \<longrightarrow> te_ID t = tc_ID c) \<and>
     (tc_IDs c \<noteq> [] \<longrightarrow> te_ID t \<in> set (tc_IDs c)) \<and>
     (tc_TaskType c \<noteq> [] \<longrightarrow> te_TaskType t = tc_TaskType c) \<and>
     (tc_TaskStatus c \<noteq> [] \<longrightarrow> te_TaskStatus t = tc_TaskStatus c) \<and>
     (0 < tc_SubjectID c \<longrightarrow> te_SubjectID t = tc_SubjectID c) \<and>
     (0 < tc_Step c \<longrightarrow> te_Step t = tc_Step c) \<and>
     (\<not> tc_IsDelete c \<longrightarrow> not_deleted t) \<and>
     (tc_OrConditions c \<noteq> [] \<and> length (tc_OrArgs c) = length (tc_OrConditions c) \<longrightarrow>
        sq_where L (''('' @ join_strings '' OR '' (tc_OrConditions c) @ '')'') (tc_OrArgs c) t)"

definition cond_order :: "sql_lang \<Rightarrow> TaskCond \<Rightarrow> TaskEntity \<Rightarrow> TaskEntity \<Rightarrow> bool" where
  "cond_order L c = (if tc_OrderBy c \<noteq> [] then sq_order L (join_strings '','' (tc_OrderBy c)) else any_order)"

section \<open>Writes\<close>

text \<open>
  \<open>Create\<close> fills the fields GORM has a value for when they are zero: the tracked timestamps, and
  \<open>MaxRedo\<close>, whose column tag says \<open>default:3\<close>.
\<close>

definition stamp_created :: "gotime \<Rightarrow> TaskEntity \<Rightarrow> TaskEntity" where
  "stamp_created now t = t\<lparr>te_CreatedAt := (case te_CreatedAt t of None \<Rightarrow> Some now | s \<Rightarrow> s),
     te_UpdatedAt := (case te_UpdatedAt t of None \<Rightarrow> Some now | s \<Rightarrow> s),
     te_MaxRedo := (if te_MaxRedo t = 0 then 3 else te_MaxRedo t)\<rparr>"

definition stamp_updated :: "gotime \<Rightarrow> TaskEntity \<Rightarrow> TaskEntity" where
  "stamp_updated now t = t\<lparr>te_UpdatedAt := Some now\<rparr>"

definition Insert :: "'d task_table \<Rightarrow> gotime \<Rightarrow> TaskEntity \<Rightarrow> 'd \<Rightarrow> (TaskEntity \<times> 'd) res" where
  "Insert T now entity d = (case tb_insert T d [stamp_created now entity] of
     Inl e \<Rightarrow> Inl (Err (''[TaskDao] Insert fail, err: '' @ err_text e))
   | Inr (rs, d') \<Rightarrow> Inr (first_or entity rs, d'))"

definition BatchInsert :: "'d task_table \<Rightarrow> gotime \<Rightarrow> TaskEntity list \<Rightarrow> 'd \<Rightarrow> (TaskEntity list \<times> 'd) res" where
  "BatchInsert T now entityList d =
     (if entityList = [] then Inl (Err ''[TaskDao] BatchInsert fail, entityList is empty'')
      else case tb_insert T d (map (stamp_created now) entityList) of
        Inl e \<Rightarrow> Inl (Err (''[TaskDao] BatchInsert fail, err: '' @ err_text e))
      | Inr r \<Rightarrow> Inr r)"

text \<open>\<open>Updates(entity)\<close>: a zero field keeps the stored value.\<close>

definition nz :: "'a \<Rightarrow> 'a \<Rightarrow> 'a \<Rightarrow> 'a" where
  "nz zero new old = (if new = zero then old else new)"

definition updates_struct :: "TaskEntity \<Rightarrow> TaskEntity \<Rightarrow> TaskEntity" where
  "updates_struct e t = t\<lparr>
     te_CreatedAt := nz None (te_CreatedAt e) (te_CreatedAt t),
     te_DeletedAt := nz None (te_DeletedAt e) (te_DeletedAt t),
     te_CompanyID := nz 0 (te_CompanyID e) (te_CompanyID t), te_Uin := nz 0 (te_Uin e) (te_Uin t),
     te_SubjectType := nz [] (te_SubjectType e) (te_SubjectType t),
     te_SubjectID := nz 0 (te_SubjectID e) (te_SubjectID t),
     te_TaskType := nz [] (te_TaskType e) (te_TaskType t),
     te_TaskStatus := nz [] (te_TaskStatus e) (te_TaskStatus t),
     te_Priority := nz 0 (te_Priority e) (te_Priority t), te_Step := nz 0 (te_Step e) (te_Step t),
     te_Redo := nz 0 (te_Redo e) (te_Redo t), te_MaxRedo := nz 0 (te_MaxRedo e) (te_MaxRedo t),
     te_Timeout := nz 0 (te_Timeout e) (te_Timeout t),
     te_Payload := nz [] (te_Payload e) (te_Payload t), te_Result := nz [] (te_Result e) (te_Result t),
     te_ErrMsg := nz [] (te_ErrMsg e) (te_ErrMsg t), te_WorkerID := nz [] (te_WorkerID e) (te_WorkerID t),
     te_StartAt := nz None (te_StartAt e) (te_StartAt t), te_EndAt := nz None (te_EndAt e) (te_EndAt t),
     te_Cost := nz 0 (te_Cost e) (te_Cost t), te_AppGroup := nz [] (te_AppGroup e) (te_AppGroup t)\<rparr>"

definition UpdateByID :: "'d task_table \<Rightarrow> gotime \<Rightarrow> nat \<Rightarrow> TaskEntity \<Rightarrow> 'd \<Rightarrow> 'd res" where
  "UpdateByID T now k entity d =
     (case tb_update T d (\<lambda>r. te_ID r = k \<and> (te_ID entity \<noteq> 0 \<longrightarrow> te_ID r = te_ID entity) \<and> not_deleted r)
             (\<lambda>r. stamp_updated now (updates_struct entity r)) of
        Inl e \<Rightarrow> Inl (Err (''[TaskDao] UpdateByID fail, id:'' @ nat_digits k @ '', err: '' @ err_text e))
      | Inr d' \<Rightarrow> Inr d')"

text \<open>\<open>UpdateMap\<close>: the column map is given as the change it makes to a row.\<close>

definition UpdateMap :: "'d task_table \<Rightarrow> nat \<Rightarrow> (TaskEntity \<Rightarrow> TaskEntity) \<Rightarrow> 'd \<Rightarrow> 'd res" where
  "UpdateMap T k updateMap d = (case tb_update T d (\<lambda>r. te_ID r = k) updateMap of
     Inl e \<Rightarrow> Inl (Err (''[TaskDao] UpdateMap fail, id:'' @ nat_digits k @ '', err: '' @ err_text e))
   | Inr d' \<Rightarrow> Inr d')"

definition Delete :: "'d task_table \<Rightarrow> gotime \<Rightarrow> nat \<Rightarrow> 'd \<Rightarrow> 'd res" where
  "Delete T now k d = (case tb_update T d (\<lambda>r. te_ID r = k) (\<lambda>r. r\<lparr>te_DeletedAt := Some now\<rparr>) of
     Inl e \<Rightarrow> Inl (Err (''[TaskDao] Delete fail, id:'' @ nat_digits k @ '', err: '' @ err_text e))
   | Inr d' \<Rightarrow> Inr d')"

section \<open>Reads\<close>

definition GetByID :: "'d task_table \<Rightarrow> nat \<Rightarrow> 'd \<Rightarrow> TaskEntity res" where
  "GetByID T k d = (case tb_find T d (\<lambda>_ r. te_ID r = k \<and> not_deleted r) any_order of
     Inl e \<Rightarrow> Inl (Err (''[TaskDao] GetByID fail, id:'' @ nat_digits k @ '', err: '' @ err_text e))
   | Inr rs \<Rightarrow> Inr (first_or zero_task rs))"

definition GetByCond :: "sql_lang \<Rightarrow> 'd task_table \<Rightarrow> TaskCond \<Rightarrow> 'd \<Rightarrow> TaskEntity res" where
  "GetByCond L T c d = (case tb_find T d (\<lambda>_ r. BuildCondition L c r) (cond_order L c) of
     Inl e \<Rightarrow> Inl (Err (''[TaskDao] GetByCond fail, err: '' @ err_text e))
   | Inr rs \<Rightarrow> Inr (first_or zero_task rs))"

definition GetListByCond :: "sql_lang \<Rightarrow> 'd task_table \<Rightarrow> TaskCond \<Rightarrow> 'd \<Rightarrow> TaskEntity list res" where
  "GetListByCond L T c d = (case tb_find T d (\<lambda>_ r. BuildCondition L c r) (cond_order L c) of
     Inl e \<Rightarrow> Inl (Err (''[TaskDao] GetListByCond fail, err: '' @ err_text e))
   | Inr rs \<Rightarrow> Inr rs)"

definition CountByCond :: "sql_lang \<Rightarrow> 'd task_table \<Rightarrow> TaskCond \<Rightarrow> 'd \<Rightarrow> nat res" where
  "CountByCond L T c d = (case tb_count T d (\<lambda>_ r. BuildCondition L c r) of
     Inl e \<Rightarrow> Inl (Err (''[TaskDao] CountByCond fail, err: '' @ err_text e))
   | Inr n \<Rightarrow> Inr n)"

definition page_of :: "int \<Rightarrow> int \<Rightarrow> 'r list \<Rightarrow> 'r list" where
  "page_of offset limit rs =
     (let rs' = (if 0 < offset then drop (nat offset) rs else rs)
      in if 0 < limit then take (nat limit) rs' else rs')"

definition GetPageListByCond :: "sql_lang \<Rightarrow> 'd task_table \<Rightarrow> TaskCond \<Rightarrow> 'd \<Rightarrow> (TaskEntity list \<times> nat) res" where
  "GetPageListByCond L T c d = (case tb_count T d (\<lambda>_ r. BuildCondition L c r) of
     Inl e \<Rightarrow> Inl (Err (''[TaskDao] GetPageListByCond count fail, err: '' @ err_text e))
   | Inr n \<Rightarrow> (case tb_find T d (\<lambda>_ r. BuildCondition L c r) (cond_order L c) of
        Inl e \<Rightarrow> Inl (Err (''[TaskDao] GetPageListByCond find fail, err: '' @ err_text e))
      | Inr rs \<Rightarrow> Inr (page_of (tc_Offset c) (tc_Limit c) rs, n)))"

lemmas dao_defs = Insert_def BatchInsert_def UpdateByID_def UpdateMap_def Delete_def GetByID_def
  GetByCond_def GetListByCond_def CountByCond_def GetPageListByCond_def

section \<open>Lemmas\<close>

lemma stamp_keeps [simp, row_simps]:
  "te_ID (stamp_updated now t) = te_ID t" "te_TaskStatus (stamp_updated now t) = te_TaskStatus t"
  "te_Redo (stamp_updated now t) = te_Redo t" "te_MaxRedo (stamp_updated now t) = te_MaxRedo t"
  "task_key (stamp_updated now t) = task_key t" "te_DeletedAt (stamp_updated now t) = te_DeletedAt t"
  "te_ID (stamp_created now t) = te_ID t" "te_TaskStatus (stamp_created now t) = te_TaskStatus t"
  "te_Redo (stamp_created now t) = te_Redo t" "te_DeletedAt (stamp_created now t) = te_DeletedAt t"
  "te_MaxRedo (stamp_created now t) = (if te_MaxRedo t = 0 then 3 else te_MaxRedo t)"
  by (simp_all add: stamp_updated_def stamp_created_def task_key_def)

lemma updates_struct_ID [simp]: "te_ID (updates_struct e t) = te_ID t"
  by (simp add: updates_struct_def)

lemma nz_same [simp]: "nz z x x = x"
  by (simp add: nz_def)

lemma nz_nonzero: "new \<noteq> z \<Longrightarrow> nz z new old = new"
  by (simp add: nz_def)

lemma page_of_length: "0 < lim \<Longrightarrow> length (page_of off lim rs) \<le> nat lim"
  by (simp add: page_of_def Let_def)

text \<open>Pages of one size, taken one after the other, cover the list without overlap.\<close>

lemma page_of_append:
  assumes "0 < lim" and "0 \<le> off"
  shows "page_of off lim rs @ page_of (off + lim) lim rs = page_of off (2 * lim) rs"
proof -
  have "nat (off + lim) = nat off + nat lim" "nat (2 * lim) = nat lim + nat lim"
    using assms by (simp_all add: nat_add_distrib)
  then show ?thesis
    using assms by (auto simp: page_of_def Let_def take_add add.commute)
qed

context sql_table
begin

text \<open>\<open>Count\<close> and \<open>Find\<close> with the same WHERE clause agree.\<close>

lemma count_eq_find_length:
  assumes "tinv d" "tb_count T d P = Inr n" "tb_find T d P le = Inr rs"
  shows "n = length rs"
  using count_rows [OF assms(1,2)] find_rows [OF assms(1,3)] by (metis size_mset)

end

end
