(* ===== verification/Task_Repository.thy ===== *)
theory Task_Repository
  imports Task_Dao
begin

text \<open>
  \<open>TaskRepository\<close> of \<open>task/manager/repository.go\<close>. Every method is a function of the table
  operations, of the clock where it reads one, and of the database state; a method that fails
  inside a GORM transaction returns no new state (the transaction is rolled back).

  \<open>FOR UPDATE SKIP LOCKED\<close> is the argument \<open>locked\<close>: the rows held by transactions of other
  workers, which the query passes over.
\<close>

section \<open>Picking a task\<close>

text \<open>The correlated subquery: an earlier step of the same flow is neither canceled nor successful.\<close>

definition earlier_step_open :: "TaskEntity list \<Rightarrow> TaskEntity \<Rightarrow> bool" where
  "earlier_step_open tbl r \<longleftrightarrow> (\<exists>t2 \<in> set tbl.
     te_SubjectID t2 = te_SubjectID r \<and> te_AppGroup t2 = te_AppGroup r \<and> te_Step t2 < te_Step r \<and>
     te_DeletedAt t2 = None \<and> te_TaskStatus t2 \<notin> {TaskStatusCanceled, TaskStatusSuccess})"

definition pending_where :: "string \<Rightarrow> TaskEntity list \<Rightarrow> TaskEntity \<Rightarrow> bool" where
  "pending_where taskType tbl r \<longleftrightarrow>
     te_TaskType r = taskType \<and>
     te_TaskStatus r \<in> {TaskStatusPending, TaskStatusFailed, TaskStatusTimeout} \<and>
     te_Redo r < te_MaxRedo r \<and> \<not> earlier_step_open tbl r \<and> not_deleted r"

definition opt_le :: "gotime option \<Rightarrow> gotime option \<Rightarrow> bool" where
  "opt_le a b = (case a of None \<Rightarrow> True | Some x \<Rightarrow> (case b of None \<Rightarrow> False | Some y \<Rightarrow> x \<le> y))"

definition pending_order :: "TaskEntity \<Rightarrow> TaskEntity \<Rightarrow> bool" where
  "pending_order x y \<longleftrightarrow> te_Priority y < te_Priority x \<or>
     (te_Priority x = te_Priority y \<and> opt_le (te_UpdatedAt x) (te_UpdatedAt y))"

definition GetOnePendingTask ::
  "'d task_table \<Rightarrow> (nat \<Rightarrow> bool) \<Rightarrow> gotime \<Rightarrow> string \<Rightarrow> string \<Rightarrow> 'd \<Rightarrow> (TaskEntity \<times> 'd) res" where
  "GetOnePendingTask T locked now taskType workerID d =
     (case tb_find T d (\<lambda>tbl r. pending_where taskType tbl r \<and> \<not> locked (te_ID r)) pending_order of
        Inl e \<Rightarrow> Inl (Wrapf ''failed to find pending task'' e)
      | Inr rs \<Rightarrow>
          (let taskEntity = first_or zero_task rs in
           if te_ID taskEntity = 0 then Inr (taskEntity, d)
           else (let running = stamp_updated now (MarkAsRunning now workerID taskEntity) in
             case tb_save T d running of
               Inl e \<Rightarrow> Inl (Wrapf ''failed to update task status'' e)
             | Inr d' \<Rightarrow> Inr (running, d'))))"

definition GetPendingTaskCount :: "'d task_table \<Rightarrow> string \<Rightarrow> 'd \<Rightarrow> nat res" where
  "GetPendingTaskCount T taskType d = tb_count T d (pending_where taskType)"

section \<open>Reading, saving, creating, canceling\<close>

definition GetTaskByID :: "'d task_table \<Rightarrow> nat \<Rightarrow> 'd \<Rightarrow> TaskEntity res" where
  "GetTaskByID T k d = (case GetByID T k d of
     Inl e \<Rightarrow> Inl (Wrapf ''failed to get task'' e)
   | Inr t \<Rightarrow> (if te_ID t = 0 then Inl ErrTaskNotFound else Inr t))"

definition GetTaskByIDAndWorkerID :: "sql_lang \<Rightarrow> 'd task_table \<Rightarrow> nat \<Rightarrow> string \<Rightarrow> 'd \<Rightarrow> TaskEntity res" where
  "GetTaskByIDAndWorkerID L T k workerID d =
     (case GetByCond L T (zero_cond\<lparr>tc_ID := k, tc_WorkerID := workerID\<rparr>) d of
        Inl e \<Rightarrow> Inl (Wrapf ''failed to get task'' e)
      | Inr t \<Rightarrow> (if te_ID t = 0 then Inl ErrTaskNotFound else Inr t))"

definition SaveTask :: "'d task_table \<Rightarrow> gotime \<Rightarrow> TaskEntity \<Rightarrow> 'd \<Rightarrow> 'd res" where
  "SaveTask T now t d = UpdateByID T now (te_ID t) t d"

definition default_status :: "TaskEntity \<Rightarrow> TaskEntity" where
  "default_status t = (if te_TaskStatus t = [] then t\<lparr>te_TaskStatus := TaskStatusPending\<rparr> else t)"

definition CreateTask :: "'d task_table \<Rightarrow> gotime \<Rightarrow> TaskEntity \<Rightarrow> 'd \<Rightarrow> (TaskEntity \<times> 'd) res" where
  "CreateTask T now t d = (case Validate t of
     Inl e \<Rightarrow> Inl e
   | Inr _ \<Rightarrow> Insert T now (default_status t) d)"

fun prepare_tasks :: "TaskEntity list \<Rightarrow> TaskEntity list res" where
  "prepare_tasks [] = Inr []"
| "prepare_tasks (t # ts) = (case Validate t of
     Inl e \<Rightarrow> Inl (Wrapf ''task validation failed'' e)
   | Inr _ \<Rightarrow> (case prepare_tasks ts of Inl e \<Rightarrow> Inl e | Inr us \<Rightarrow> Inr (default_status t # us)))"

text \<open>\<open>CreateInBatches(tasks, 100)\<close>: one transaction over batches of a hundred rows.\<close>

function insert_batches :: "'d task_table \<Rightarrow> 'd \<Rightarrow> TaskEntity list \<Rightarrow> (TaskEntity list \<times> 'd) res" where
  "insert_batches T d ts =
     (if ts = [] then Inr ([], d)
      else case tb_insert T d (take 100 ts) of
        Inl e \<Rightarrow> Inl e
      | Inr (us, d') \<Rightarrow> (case insert_batches T d' (drop 100 ts) of
          Inl e \<Rightarrow> Inl e | Inr (vs, d'') \<Rightarrow> Inr (us @ vs, d'')))"
  by pat_completeness auto
termination
  by (relation "measure (\<lambda>(T, d, ts). length ts)") auto

declare insert_batches.simps [simp del]

definition repo_CreateTasks :: "'d task_table \<Rightarrow> gotime \<Rightarrow> TaskEntity list \<Rightarrow> 'd \<Rightarrow> (TaskEntity list \<times> 'd) res" where
  "repo_CreateTasks T now tasks d =
     (if tasks = [] then Inr ([], d)
      else case prepare_tasks tasks of
        Inl e \<Rightarrow> Inl e
      | Inr ts \<Rightarrow> insert_batches T d (map (stamp_created now) ts))"

definition repo_CancelTask :: "'d task_table \<Rightarrow> gotime \<Rightarrow> nat \<Rightarrow> string \<Rightarrow> 'd \<Rightarrow> 'd res" where
  "repo_CancelTask T now taskID reason d = (case GetTaskByID T taskID d of
     Inl e \<Rightarrow> Inl e
   | Inr t \<Rightarrow>
       (if \<not> IsPending t \<and> te_TaskStatus t \<noteq> TaskStatusFailed
        then Inl (Err (''cannot cancel task in status: '' @ te_TaskStatus t))
        else SaveTask T now (MarkAsCanceled now reason t) d))"

definition DeleteTask :: "'d task_table \<Rightarrow> gotime \<Rightarrow> nat \<Rightarrow> 'd \<Rightarrow> 'd res" where
  "DeleteTask T now k d = Delete T now k d"

section \<open>Timeouts, restart, dead workers\<close>

definition HeartbeatTimeout_repo :: int where "HeartbeatTimeout_repo = 30"

text \<open>The loop body: no start time, not yet due, or still within the buffer means \<open>continue\<close>.\<close>

definition overdue :: "gotime \<Rightarrow> TaskEntity \<Rightarrow> bool" where
  "overdue now t = (case te_StartAt t of
     None \<Rightarrow> False
   | Some s \<Rightarrow>
       (let timeoutTime = s + te_Timeout t in
        if \<not> timeoutTime < now then False
        else (let bufferTime = timeoutTime + HeartbeatTimeout_repo * 2 * time_Second in bufferTime < now)))"

definition timeout_row :: "gotime \<Rightarrow> string \<Rightarrow> TaskEntity \<Rightarrow> TaskEntity" where
  "timeout_row now msg r = stamp_updated now (r\<lparr>te_TaskStatus := TaskStatusTimeout, te_ErrMsg := msg,
     te_Redo := te_Redo r + 1, te_EndAt := Some now\<rparr>)"

definition running_in :: "nat list \<Rightarrow> TaskEntity \<Rightarrow> bool" where
  "running_in ids r \<longleftrightarrow> te_ID r \<in> set ids \<and> te_TaskStatus r = TaskStatusRunning \<and> not_deleted r"

fun timeout_callbacks ::
  "'d task_table \<Rightarrow> (TaskEntity \<Rightarrow> 'q \<Rightarrow> unit res \<times> 'q) \<Rightarrow> nat list \<Rightarrow> 'd \<Rightarrow> 'q \<Rightarrow> 'q" where
  "timeout_callbacks T cb [] d q = q"
| "timeout_callbacks T cb (k # ks) d q = (case GetTaskByID T k d of
     Inl e \<Rightarrow> timeout_callbacks T cb ks d q
   | Inr t \<Rightarrow> timeout_callbacks T cb ks d (snd (cb t q)))"

definition repo_CheckAndTimeoutTasks ::
  "sql_lang \<Rightarrow> 'd task_table \<Rightarrow> gotime \<Rightarrow> (TaskEntity \<Rightarrow> 'q \<Rightarrow> unit res \<times> 'q) \<Rightarrow> 'd \<Rightarrow> 'q \<Rightarrow> unit res \<times> 'd \<times> 'q" where
  "repo_CheckAndTimeoutTasks L T now onTimeoutCallback d q =
     (case GetListByCond L T (zero_cond\<lparr>tc_TaskStatus := TaskStatusRunning\<rparr>) d of
        Inl e \<Rightarrow> (Inl (Wrapf ''failed to query running tasks'' e), d, q)
      | Inr tasks \<Rightarrow>
          (let timeoutTasks = filter (overdue now) tasks; timeoutIDs = map te_ID timeoutTasks in
           if timeoutTasks = [] then (Inr (), d, q)
           else case tb_update T d (running_in timeoutIDs)
                       (timeout_row now ''task execution timeout (worker heartbeat lost)'') of
               Inl e \<Rightarrow> (Inl (Wrapf ''failed to update timeout tasks'' e), d, q)
             | Inr d' \<Rightarrow> (Inr (), d', timeout_callbacks T onTimeoutCallback timeoutIDs d' q)))"

definition interrupted_row :: "gotime \<Rightarrow> TaskEntity \<Rightarrow> TaskEntity" where
  "interrupted_row now r = stamp_updated now (r\<lparr>te_TaskStatus := TaskStatusFailed,
     te_ErrMsg := ''task interrupted by restart'', te_Redo := te_Redo r + 1\<rparr>)"

definition InitTaskDBStatus :: "'d task_table \<Rightarrow> gotime \<Rightarrow> 'd \<Rightarrow> 'd res" where
  "InitTaskDBStatus T now d =
     (case tb_update T d (\<lambda>r. te_TaskStatus r = TaskStatusRunning \<and> not_deleted r) (interrupted_row now) of
        Inl e \<Rightarrow> Inl (Wrapf ''failed to init task status'' e)
      | Inr d' \<Rightarrow> Inr d')"

text \<open>
  The parameters \<open>taskType\<close> and \<open>taskID\<close> of the Go method are not used by its body. The set of
  task types is a Go map; its keys are returned in first-occurrence order.
\<close>

definition HandleDeadWorkerTasks ::
  "'d task_table \<Rightarrow> gotime \<Rightarrow> string \<Rightarrow> string \<Rightarrow> nat \<Rightarrow> 'd \<Rightarrow> (string list \<times> 'd) res" where
  "HandleDeadWorkerTasks T now taskType workerID taskID d =
     (case tb_find T d (\<lambda>_ r. te_WorkerID r = workerID \<and> te_TaskStatus r = TaskStatusRunning \<and> not_deleted r)
             any_order of
        Inl e \<Rightarrow> Inl (Wrapf (''failed to get running tasks for worker '' @ workerID) e)
      | Inr runningTasks \<Rightarrow>
          (if runningTasks = [] then Inr ([], d)
           else case tb_update T d (running_in (map te_ID runningTasks))
                       (timeout_row now ''worker dead, task re-assigned'') of
               Inl e \<Rightarrow> Inl (Wrapf (''failed to update tasks for dead worker '' @ workerID) e)
             | Inr d' \<Rightarrow> Inr (remdups (map te_TaskType (filter CanRetry runningTasks)), d')))"

section \<open>The next step of a flow\<close>

definition tasks_of_step :: "TaskEntity list \<Rightarrow> int \<Rightarrow> TaskEntity list" where
  "tasks_of_step all step = filter (\<lambda>t. te_Step t = step) all"

fun first_incomplete :: "TaskEntity list \<Rightarrow> int list \<Rightarrow> TaskEntity list" where
  "first_incomplete all [] = []"
| "first_incomplete all (step # steps) =
     (let tasks = tasks_of_step all step in
      if list_all IsSuccess tasks then first_incomplete all steps
      else filter (\<lambda>t. IsPending t \<or> te_TaskStatus t = TaskStatusFailed \<or> IsRunning t) tasks)"

definition GetNextStepTasks :: "'d task_table \<Rightarrow> nat \<Rightarrow> string \<Rightarrow> 'd \<Rightarrow> TaskEntity list res" where
  "GetNextStepTasks T subjectID appGroup d =
     (case tb_find T d (\<lambda>_ r. te_SubjectID r = subjectID \<and> te_AppGroup r = appGroup \<and> not_deleted r)
             (\<lambda>x y. te_Step x \<le> te_Step y) of
        Inl e \<Rightarrow> Inl (Wrapf ''failed to get tasks'' e)
      | Inr allTasks \<Rightarrow> Inr (first_incomplete allTasks (sort (remdups (map te_Step allTasks)))))"

section \<open>The contract of a task table\<close>

locale task_store = sql_table T rows tinv te_ID set_task_ID
  for T :: "('d, TaskEntity) table_ops" and rows :: "'d \<Rightarrow> TaskEntity list" and tinv :: "'d \<Rightarrow> bool"

lemma opt_le_trans: "opt_le a b \<Longrightarrow> opt_le b c \<Longrightarrow> opt_le a c"
  by (auto simp: opt_le_def split: option.splits)

lemma opt_le_total: "opt_le a b \<or> opt_le b a"
  by (auto simp: opt_le_def split: option.splits)

lemma pending_order_trans: "pending_order x y \<Longrightarrow> pending_order y z \<Longrightarrow> pending_order x z"
  by (auto simp: pending_order_def intro: opt_le_trans)

lemma pending_order_total: "pending_order x y \<or> pending_order y x"
  using opt_le_total by (auto simp: pending_order_def)

lemma pending_order_refl: "pending_order x x"
  using pending_order_total by blast

lemma sorted_first_least:
  "sorted_wrt pending_order rs \<Longrightarrow> r \<in> set rs \<Longrightarrow> pending_order (first_or z rs) r"
  by (cases rs) (auto simp: pending_order_refl)

lemma row_updates [simp, row_simps]:
  "te_ID (timeout_row now msg r) = te_ID r" "te_ID (interrupted_row now r) = te_ID r"
  "te_TaskStatus (timeout_row now msg r) = TaskStatusTimeout"
  "te_TaskStatus (interrupted_row now r) = TaskStatusFailed"
  "te_Redo (timeout_row now msg r) = te_Redo r + 1" "te_Redo (interrupted_row now r) = te_Redo r + 1"
  "te_MaxRedo (timeout_row now msg r) = te_MaxRedo r" "te_MaxRedo (interrupted_row now r) = te_MaxRedo r"
  "task_key (timeout_row now msg r) = task_key r" "task_key (interrupted_row now r) = task_key r"
  by (simp_all add: timeout_row_def interrupted_row_def stamp_updated_def task_key_def)

lemma overdue_iff: "overdue now t \<longleftrightarrow> (\<exists>s. te_StartAt t = Some s \<and> s + te_Timeout t + 60 * time_Second < now)"
  by (auto simp: overdue_def Let_def HeartbeatTimeout_repo_def time_Second_def split: option.splits)

lemma prepare_tasks_Inr_iff:
  "prepare_tasks ts = Inr us \<longleftrightarrow> list_all (\<lambda>t. is_ok (Validate t)) ts \<and> us = map default_status ts"
proof (induction ts arbitrary: us)
  case (Cons t ts)
  show ?case
    using Cons.IH [of "map default_status ts"] Cons.IH
    by (cases "Validate t"; cases "prepare_tasks ts") auto
qed auto

context task_store
begin

text \<open>Reading by primary key is a map lookup in the undeleted rows.\<close>

lemma GetByID_row_at:
  assumes "tinv d" "GetByID T k d = Inr t"
  shows "t = (case row_at te_ID (rows d) k of Some r \<Rightarrow> (if not_deleted r then r else zero_task) | None \<Rightarrow> zero_task)"
  using assms find_by_key [of d k not_deleted any_order]
  by (auto simp: GetByID_def split: sum.splits option.splits if_splits)

lemma GetTaskByID_Inr:
  assumes "tinv d" "GetTaskByID T k d = Inr t"
  shows "row_at te_ID (rows d) k = Some t" "t \<in> set (rows d)" "te_ID t = k" "k \<noteq> 0" "not_deleted t"
proof -
  from assms(2) obtain "GetByID T k d = Inr t" and nz: "te_ID t \<noteq> 0"
    by (auto simp: GetTaskByID_def split: sum.splits if_splits)
  with GetByID_row_at [OF assms(1)] have "row_at te_ID (rows d) k = Some t \<and> not_deleted t"
    by (fastforce split: option.splits if_splits)
  then show r: "row_at te_ID (rows d) k = Some t" and "not_deleted t" by auto
  with row_at_SomeD [OF r] nz show "t \<in> set (rows d)" "te_ID t = k" "k \<noteq> 0" by auto
qed

lemma GetTaskByID_absent:
  assumes "tinv d" "row_at te_ID (rows d) k = None" "\<And>e. GetByID T k d \<noteq> Inl e"
  shows "GetTaskByID T k d = Inl ErrTaskNotFound"
  using assms GetByID_row_at [OF assms(1), of k]
  by (cases "GetByID T k d") (auto simp: GetTaskByID_def)

text \<open>What one successful pick does.\<close>

lemma GetOnePendingTask_picked:
  assumes "tinv d" "GetOnePendingTask T locked now ty w d = Inr (t, d')" "te_ID t \<noteq> 0"
  obtains r where "r \<in> set (rows d)" "pending_where ty (rows d) r" "\<not> locked (te_ID r)"
    "t = stamp_updated now (MarkAsRunning now w r)"
    "tinv d'" "rows d' = replace_row te_ID t (rows d)"
    "\<And>r'. r' \<in> set (rows d) \<Longrightarrow> pending_where ty (rows d) r' \<Longrightarrow> \<not> locked (te_ID r') \<Longrightarrow> pending_order r r'"
proof -
  let ?P = "\<lambda>tbl r. pending_where ty tbl r \<and> \<not> locked (te_ID r)"
  from assms(2) obtain rs where f: "tb_find T d ?P pending_order = Inr rs"
    by (auto simp: GetOnePendingTask_def split: sum.splits)
  let ?r = "first_or zero_task rs"
  from f assms(2,3) have nz: "te_ID ?r \<noteq> 0" and t: "t = stamp_updated now (MarkAsRunning now w ?r)"
    and s: "tb_save T d t = Inr d'"
    by (auto simp: GetOnePendingTask_def Let_def split: sum.splits if_splits)
  note r = find_first [OF assms(1) f nz zero_task_ID]
  have "te_ID t \<in> te_ID ` set (rows d)" using r(1) t by simp
  note sv = save_row [OF assms(1) s this]
  have "sorted_wrt pending_order rs"
    using find_sorted [OF assms(1) f] pending_order_trans pending_order_total by blast
  then have "pending_order ?r r'" if "r' \<in> set (rows d)" "pending_where ty (rows d) r'" "\<not> locked (te_ID r')" for r'
    using that find_set [OF assms(1) f] by (auto intro: sorted_first_least)
  then show thesis using that [of ?r] r t sv by blast
qed

lemma GetOnePendingTask_none:
  assumes "tinv d" "GetOnePendingTask T locked now ty w d = Inr (t, d')" "te_ID t = 0"
  shows "d' = d" "\<And>r. r \<in> set (rows d) \<Longrightarrow> pending_where ty (rows d) r \<Longrightarrow> locked (te_ID r)"
proof -
  let ?P = "\<lambda>tbl r. pending_where ty tbl r \<and> \<not> locked (te_ID r)"
  from assms(2) obtain rs where f: "tb_find T d ?P pending_order = Inr rs"
    by (auto simp: GetOnePendingTask_def split: sum.splits)
  from f assms(2,3) have z: "te_ID (first_or zero_task rs) = 0" and "d' = d"
    by (auto simp: GetOnePendingTask_def Let_def split: sum.splits if_splits)
  then show "d' = d" by simp
  fix r assume "r \<in> set (rows d)" "pending_where ty (rows d) r"
  then show "locked (te_ID r)" using find_first_none [OF assms(1) f z] by blast
qed

lemma GetPendingTaskCount_eq:
  "tinv d \<Longrightarrow> GetPendingTaskCount T ty d = Inr n \<Longrightarrow> n = length (filter (pending_where ty (rows d)) (rows d))"
  unfolding GetPendingTaskCount_def by (rule count_rows)

text \<open>Bulk updates of running rows.\<close>

lemma running_in_overdue:
  assumes "tinv d" "set ids = te_ID ` {r \<in> set (rows d). P r}" "r \<in> set (rows d)"
  shows "running_in ids r \<longleftrightarrow> P r \<and> te_TaskStatus r = TaskStatusRunning \<and> not_deleted r"
  using assms distinct_map_inj_on [OF keys_distinct [OF assms(1)]]
  by (auto simp: running_in_def)

lemma update_rows_cong_on:
  "(\<And>r. r \<in> set xs \<Longrightarrow> P r = Q r) \<Longrightarrow> update_rows P f xs = update_rows Q f xs"
  by (simp add: update_rows_def)

end

text \<open>A sequence of picks, each in a transaction of its own.\<close>

fun picks :: "'d task_table \<Rightarrow> (nat \<Rightarrow> bool) \<Rightarrow> string \<Rightarrow> (gotime \<times> string) list \<Rightarrow> 'd \<Rightarrow> TaskEntity list \<times> 'd" where
  "picks T locked ty [] d = ([], d)"
| "picks T locked ty ((now, w) # ws) d = (case GetOnePendingTask T locked now ty w d of
     Inl e \<Rightarrow> picks T locked ty ws d
   | Inr (t, d') \<Rightarrow> (let (ts, d'') = picks T locked ty ws d' in (if te_ID t = 0 then ts else t # ts, d'')))"

abbreviation pickable :: "TaskEntity \<Rightarrow> bool" where
  "pickable r \<equiv> te_TaskStatus r \<in> {TaskStatusPending, TaskStatusFailed, TaskStatusTimeout}"

context task_store
begin

lemma picks_running:
  assumes "tinv d" "picks T locked ty ws d = (ts, d')"
  shows "tinv d' \<and> distinct (map te_ID ts) \<and> list_all IsRunning ts \<and>
    (\<forall>t \<in> set ts. row_at te_ID (rows d') (te_ID t) = Some t \<and>
        (\<exists>r. row_at te_ID (rows d) (te_ID t) = Some r \<and> pickable r)) \<and>
    (\<forall>r \<in> set (rows d). IsRunning r \<longrightarrow> row_at te_ID (rows d') (te_ID r) = Some r)"
  using assms
proof (induction ws arbitrary: d ts)
  case Nil
  then show ?case using row_at_mem by auto
next
  case (Cons nw ws)
  obtain now w where nw: "nw = (now, w)" by (cases nw)
  show ?case
  proof (cases "GetOnePendingTask T locked now ty w d")
    case (Inl e)
    with Cons nw show ?thesis by simp
  next
    case (Inr td)
    obtain t d1 where td: "td = (t, d1)" by (cases td)
    obtain ts1 where p1: "picks T locked ty ws d1 = (ts1, d')" and ts: "ts = (if te_ID t = 0 then ts1 else t # ts1)"
      using Cons.prems(2) nw Inr td by (auto simp: Let_def split: prod.splits)
    show ?thesis
    proof (cases "te_ID t = 0")
      case True
      with GetOnePendingTask_none [OF Cons.prems(1) Inr [unfolded td]] have "d1 = d" by blast
      with Cons.IH [OF Cons.prems(1)] p1 ts True show ?thesis by simp
    next
      case False
      from GetOnePendingTask_picked [OF Cons.prems(1) Inr [unfolded td] False]
      obtain r where r: "r \<in> set (rows d)" "pending_where ty (rows d) r"
        "t = stamp_updated now (MarkAsRunning now w r)" "tinv d1" "rows d1 = replace_row te_ID t (rows d)" by metis
      then have k: "te_ID t = te_ID r" "te_ID t \<in> te_ID ` set (rows d)" "IsRunning t" "pickable r"
        by (auto simp: row_simps IsRunning_def pending_where_def)
      note IH = Cons.IH [OF r(4) p1]
      have at1: "row_at te_ID (rows d1) k = (if k = te_ID t then Some t else row_at te_ID (rows d) k)" for k
        using row_at_replace_row [of te_ID t "rows d" k] k(2) r(5) by simp
      have "t \<in> set (rows d1)" using at1 [of "te_ID t"] row_at_SomeD [of te_ID "rows d1"] by force
      then have t': "row_at te_ID (rows d') (te_ID t) = Some t" using IH k(3) by blast
      have old: "row_at te_ID (rows d) (te_ID x) = Some y \<and> te_ID x \<noteq> te_ID t" 
        if "x \<in> set ts1" "row_at te_ID (rows d1) (te_ID x) = Some y" "pickable y" for x y
        using that at1 k(3) by (cases "te_ID x = te_ID t") (auto simp: IsRunning_def)
      have "te_ID t \<notin> te_ID ` set ts1" using IH old by fastforce
      moreover have "row_at te_ID (rows d') (te_ID x) = Some x" if "x \<in> set (rows d)" "IsRunning x" for x
      proof -
        have "x \<noteq> r" using that(2) k(4) by (auto simp: IsRunning_def)
        then have "te_ID x \<noteq> te_ID t"
          using that(1) k(1) r(1) distinct_map_inj_on [OF keys_distinct [OF Cons.prems(1)]] by metis
        then have "row_at te_ID (rows d1) (te_ID x) = Some x"
          using at1 row_at_mem [OF Cons.prems(1) that(1)] by simp
        then have "x \<in> set (rows d1)" by (auto dest: row_at_SomeD)
        with IH that(2) show ?thesis by blast
      qed
      moreover have "\<exists>r. row_at te_ID (rows d) (te_ID t) = Some r \<and> pickable r"
        using row_at_mem [OF Cons.prems(1) r(1)] k by auto
      moreover have "\<forall>x \<in> set ts1. \<exists>r. row_at te_ID (rows d) (te_ID x) = Some r \<and> pickable r"
        using IH old by blast
      ultimately show ?thesis using IH t' ts False k(3) by auto
    qed
  qed
qed

end

interpretation mem_tasks: task_store "mem_table te_ID set_task_ID" id "mem_wf te_ID"
proof -
  have "sql_table (mem_table te_ID set_task_ID) id (mem_wf te_ID) te_ID set_task_ID"
    by (rule mem_table_sql_table) simp
  then show "task_store (mem_table te_ID set_task_ID) id (mem_wf te_ID)"
    by (simp add: task_store_def)
qed

end
