(* ===== verification/Task_Repository_Correct.thy ===== *)
theory Task_Repository_Correct
  imports Task_Repository
begin

text \<open>
  The correctness properties of the task repository, over any task table that keeps the contract
  \<open>task_store\<close>, with concrete runs on the table held in memory.
\<close>

section \<open>A concrete table\<close>

definition sample_task :: "nat \<Rightarrow> string \<Rightarrow> TaskStatus \<Rightarrow> int \<Rightarrow> int \<Rightarrow> TaskEntity" where
  "sample_task k ty st step prio = zero_task\<lparr>te_ID := k, te_SubjectID := 7, te_TaskType := ty, te_TaskStatus := st,
     te_Priority := prio, te_Step := step, te_MaxRedo := 3, te_Timeout := 60 * time_Second,
     te_Payload := ''p'', te_AppGroup := ''g'', te_UpdatedAt := Some (int k),
     te_WorkerID := (if st = TaskStatusRunning then ''w1'' else []),
     te_StartAt := (if st = TaskStatusRunning then Some 0 else None)\<rparr>"

definition sample_rows :: "TaskEntity list" where
  "sample_rows = [sample_task 1 ''a'' TaskStatusSuccess 1 0, sample_task 2 ''b'' TaskStatusPending 2 1,
     sample_task 3 ''b'' TaskStatusPending 2 5, sample_task 4 ''c'' TaskStatusRunning 2 0,
     sample_task 5 ''d'' TaskStatusPending 3 0]"

abbreviation mem_db :: "TaskEntity list task_table" where
  "mem_db \<equiv> mem_table te_ID set_task_ID"

abbreviation no_lock :: "nat \<Rightarrow> bool" where
  "no_lock \<equiv> \<lambda>_. False"

lemma sample_wf: "mem_wf te_ID sample_rows"
  by code_simp

section \<open>Picking\<close>

text \<open>
  Pick correctness (C2): a task handed to a worker was, in the committed table, of the requested
  type, pending or retryable with attempts left, undeleted, not held by another transaction, and
  every earlier step of its flow was successful or canceled; no eligible task has a higher priority,
  or the same priority and an older update. Exactly that row changes, to running under that worker.
\<close>

theorem GetOnePendingTask_correct:
  assumes "task_store T rows tinv" "tinv d"
    and "GetOnePendingTask T locked now ty w d = Inr (t, d')" "te_ID t \<noteq> 0"
  shows "\<exists>r \<in> set (rows d). te_TaskType r = ty \<and>
      te_TaskStatus r \<in> {TaskStatusPending, TaskStatusFailed, TaskStatusTimeout} \<and>
      te_Redo r < te_MaxRedo r \<and> te_DeletedAt r = None \<and> \<not> locked (te_ID r) \<and>
      (\<forall>t2 \<in> set (rows d). te_SubjectID t2 = te_SubjectID r \<and> te_AppGroup t2 = te_AppGroup r \<and>
         te_Step t2 < te_Step r \<and> te_DeletedAt t2 = None \<longrightarrow>
         te_TaskStatus t2 = TaskStatusCanceled \<or> te_TaskStatus t2 = TaskStatusSuccess) \<and>
      (\<forall>r' \<in> set (rows d). pending_where ty (rows d) r' \<and> \<not> locked (te_ID r') \<longrightarrow>
         te_Priority r' < te_Priority r \<or>
         te_Priority r = te_Priority r' \<and> opt_le (te_UpdatedAt r) (te_UpdatedAt r')) \<and>
      t = r\<lparr>te_TaskStatus := TaskStatusRunning, te_WorkerID := w, te_StartAt := Some now,
            te_UpdatedAt := Some now\<rparr> \<and>
      rows d' = map (\<lambda>x. if te_ID x = te_ID r then t else x) (rows d)"
proof -
  from task_store.GetOnePendingTask_picked [OF assms] obtain r where r: "r \<in> set (rows d)"
    "pending_where ty (rows d) r" "\<not> locked (te_ID r)" "t = stamp_updated now (MarkAsRunning now w r)"
    "rows d' = replace_row te_ID t (rows d)"
    "\<And>r'. r' \<in> set (rows d) \<Longrightarrow> pending_where ty (rows d) r' \<Longrightarrow> \<not> locked (te_ID r') \<Longrightarrow> pending_order r r'"
    by metis
  have t: "t = r\<lparr>te_TaskStatus := TaskStatusRunning, te_WorkerID := w, te_StartAt := Some now, te_UpdatedAt := Some now\<rparr>"
    using r(4) by (simp add: stamp_updated_def MarkAsRunning_def)
  have rows: "rows d' = map (\<lambda>x. if te_ID x = te_ID r then t else x) (rows d)"
    using r(4,5) by (simp add: replace_row_def)
  have step: "\<forall>t2 \<in> set (rows d). te_SubjectID t2 = te_SubjectID r \<and> te_AppGroup t2 = te_AppGroup r \<and>
         te_Step t2 < te_Step r \<and> te_DeletedAt t2 = None \<longrightarrow>
         te_TaskStatus t2 = TaskStatusCanceled \<or> te_TaskStatus t2 = TaskStatusSuccess"
    using r(2) by (auto simp: pending_where_def earlier_step_open_def)
  have order: "\<forall>r' \<in> set (rows d). pending_where ty (rows d) r' \<and> \<not> locked (te_ID r') \<longrightarrow>
         te_Priority r' < te_Priority r \<or> te_Priority r = te_Priority r' \<and> opt_le (te_UpdatedAt r) (te_UpdatedAt r')"
    using r(6) by (auto simp: pending_order_def)
  from r(1,2,3) t rows step order show ?thesis
    unfolding pending_where_def not_deleted_def by (intro bexI [of _ r] conjI) simp_all
qed

definition sample_picked :: TaskEntity where
  "sample_picked = (sample_task 3 ''b'' TaskStatusPending 2 5)\<lparr>te_TaskStatus := TaskStatusRunning,
     te_WorkerID := ''w9'', te_StartAt := Some 100, te_UpdatedAt := Some 100\<rparr>"

lemma sample_pick_run: "GetOnePendingTask mem_db no_lock 100 ''b'' ''w9'' sample_rows =
   Inr (sample_picked, replace_row te_ID sample_picked sample_rows)"
  by code_simp

theorem GetOnePendingTask_correct_witness:
  "\<exists>r \<in> set (id sample_rows). te_TaskType r = ''b'' \<and> te_Redo r < te_MaxRedo r \<and>
     sample_picked = r\<lparr>te_TaskStatus := TaskStatusRunning, te_WorkerID := ''w9'', te_StartAt := Some 100,
       te_UpdatedAt := Some 100\<rparr>"
proof -
  have "te_ID sample_picked \<noteq> 0" by code_simp
  from GetOnePendingTask_correct [OF mem_tasks.task_store_axioms sample_wf sample_pick_run this]
  show ?thesis by blast
qed

text \<open>
  No double dispatch (C3): any number of picks by any workers, one transaction after the other,
  hand out different tasks; every task handed out was pending, failed or timed out before and is running
  under its worker afterwards, and tasks that were already running are left alone.
\<close>

theorem picks_distinct:
  assumes "task_store T rows tinv" "tinv d" "picks T locked ty ws d = (ts, d')"
  shows "distinct (map te_ID ts) \<and>
    (\<forall>t \<in> set ts. te_TaskStatus t = TaskStatusRunning \<and> row_at te_ID (rows d') (te_ID t) = Some t \<and>
        (\<exists>r. row_at te_ID (rows d) (te_ID t) = Some r \<and>
           te_TaskStatus r \<in> {TaskStatusPending, TaskStatusFailed, TaskStatusTimeout})) \<and>
    (\<forall>r \<in> set (rows d). te_TaskStatus r = TaskStatusRunning \<longrightarrow> row_at te_ID (rows d') (te_ID r) = Some r)"
  using task_store.picks_running [OF assms] by (auto simp: IsRunning_def list_all_iff)

lemma sample_picks_run:
  "map te_ID (fst (picks mem_db no_lock ''b'' [(100, ''w9''), (101, ''w8''), (102, ''w7'')] sample_rows)) = [3, 2]"
  by code_simp

theorem picks_distinct_witness:
  "distinct (map te_ID (fst (picks mem_db no_lock ''b'' [(100, ''w9''), (101, ''w8''), (102, ''w7'')] sample_rows))) \<and>
   map te_ID (fst (picks mem_db no_lock ''b'' [(100, ''w9''), (101, ''w8''), (102, ''w7'')] sample_rows)) = [3, 2]"
  using picks_distinct [OF mem_tasks.task_store_axioms sample_wf prod.collapse [symmetric]] sample_picks_run by blast

text \<open>
  Count and pick agree: with no row held by another transaction, the pending count of a type
  is positive exactly when a pick of that type returns a task.
\<close>

theorem pending_count_pick:
  assumes "task_store T rows tinv" "tinv d" "GetPendingTaskCount T ty d = Inr n"
    and "GetOnePendingTask T (\<lambda>_. False) now ty w d = Inr (t, d')"
  shows "0 < n \<longleftrightarrow> te_ID t \<noteq> 0"
proof -
  have n: "n = length (filter (pending_where ty (rows d)) (rows d))"
    using task_store.GetPendingTaskCount_eq [OF assms(1,2,3)] .
  show ?thesis
  proof
    assume "0 < n"
    then obtain r where "r \<in> set (rows d)" "pending_where ty (rows d) r"
      using n length_filter_pos_iff [of "pending_where ty (rows d)"] by auto
    then show "te_ID t \<noteq> 0" using task_store.GetOnePendingTask_none [OF assms(1,2,4)] by blast
  next
    assume "te_ID t \<noteq> 0"
    then obtain r where "r \<in> set (rows d)" "pending_where ty (rows d) r"
      using task_store.GetOnePendingTask_picked [OF assms(1,2,4)] by metis
    then show "0 < n" using n length_filter_pos_iff [of "pending_where ty (rows d)"] by auto
  qed
qed

lemma sample_count_run: "GetPendingTaskCount mem_db ''b'' sample_rows = Inr 2"
  by code_simp

theorem pending_count_pick_witness: "0 < (2 :: nat) \<longleftrightarrow> te_ID sample_picked \<noteq> 0"
  using pending_count_pick [OF mem_tasks.task_store_axioms sample_wf sample_count_run sample_pick_run] .

section \<open>Canceling\<close>

lemma updates_struct_canceled:
  "updates_struct (MarkAsCanceled now reason r) r = r\<lparr>te_TaskStatus := TaskStatusCanceled,
     te_ErrMsg := (if reason = [] then te_ErrMsg r else reason), te_EndAt := Some now,
     te_Cost := (if cost_since now r = 0 then te_Cost r else cost_since now r)\<rparr>"
  by (simp add: updates_struct_def MarkAsCanceled_def nz_def)

context task_store
begin

lemma SaveTask_row:
  assumes "tinv d" "row_at te_ID (rows d) (te_ID e) = Some r" "not_deleted r" "SaveTask T now e d = Inr d'"
  shows "rows d' = map (\<lambda>x. if te_ID x = te_ID e then stamp_updated now (updates_struct e r) else x) (rows d)"
    and "tinv d'"
proof -
  let ?f = "\<lambda>x. stamp_updated now (updates_struct e x)"
  let ?P = "\<lambda>x. te_ID x = te_ID e \<and> (te_ID e \<noteq> 0 \<longrightarrow> te_ID x = te_ID e) \<and> not_deleted x"
  from assms(4) have "tb_update T d ?P ?f = Inr d'"
    by (simp add: SaveTask_def UpdateByID_def split: sum.splits)
  from update_rows_ok [OF assms(1) this] have u: "rows d' = update_rows ?P ?f (rows d)" and "tinv d'" by auto
  then show "tinv d'" by simp
  have "x = r" if "x \<in> set (rows d)" "te_ID x = te_ID e" for x
    using row_at_mem [OF assms(1) that(1)] that(2) assms(2) by simp
  then show "rows d' = map (\<lambda>x. if te_ID x = te_ID e then ?f r else x) (rows d)"
    unfolding u update_rows_def using assms(3) by (intro map_cong refl) auto
qed

lemma CancelTask_row:
  assumes "tinv d" "repo_CancelTask T now k reason d = Inr d'"
  obtains r where "row_at te_ID (rows d) k = Some r" "not_deleted r"
    "te_TaskStatus r = TaskStatusPending \<or> te_TaskStatus r = TaskStatusFailed" "tinv d'"
    "rows d' = map (\<lambda>x. if te_ID x = k then stamp_updated now (updates_struct (MarkAsCanceled now reason r) r) else x) (rows d)"
proof -
  from assms(2) obtain r where g: "GetTaskByID T k d = Inr r"
    and st: "te_TaskStatus r = TaskStatusPending \<or> te_TaskStatus r = TaskStatusFailed"
    and s: "SaveTask T now (MarkAsCanceled now reason r) d = Inr d'"
    by (auto simp: repo_CancelTask_def IsPending_def split: sum.splits if_splits)
  note r = GetTaskByID_Inr [OF assms(1) g]
  have at: "row_at te_ID (rows d) (te_ID (MarkAsCanceled now reason r)) = Some r" using r by simp
  from SaveTask_row [OF assms(1) at r(5) s] r st show thesis by (intro that [of r]) simp_all
qed

end

text \<open>
  Cancellation: it succeeds only on an undeleted task that is pending or failed, and then
  changes that row alone: status canceled, end time now, and the reason as its message. The row is
  written through \<open>Updates(struct)\<close>, so an empty reason leaves the previous message in place.
\<close>

theorem CancelTask_ok:
  assumes "task_store T rows tinv" "tinv d" "repo_CancelTask T now k reason d = Inr d'"
  shows "\<exists>r. row_at te_ID (rows d) k = Some r \<and> te_DeletedAt r = None \<and>
     (te_TaskStatus r = TaskStatusPending \<or> te_TaskStatus r = TaskStatusFailed) \<and>
     rows d' = map (\<lambda>x. if te_ID x = k then r\<lparr>te_TaskStatus := TaskStatusCanceled,
          te_ErrMsg := (if reason = [] then te_ErrMsg r else reason), te_EndAt := Some now,
          te_Cost := (if cost_since now r = 0 then te_Cost r else cost_since now r),
          te_UpdatedAt := Some now\<rparr> else x) (rows d)"
  by (rule task_store.CancelTask_row [OF assms]) (auto simp: not_deleted_def updates_struct_canceled stamp_updated_def)

lemma sample_cancel_run: "is_ok (repo_CancelTask mem_db 200 2 ''stop'' sample_rows)"
  by code_simp

theorem CancelTask_ok_witness:
  "\<exists>d'. repo_CancelTask mem_db 200 2 ''stop'' sample_rows = Inr d' \<and>
     (\<exists>r. row_at te_ID sample_rows 2 = Some r \<and>
       (te_TaskStatus r = TaskStatusPending \<or> te_TaskStatus r = TaskStatusFailed))"
proof -
  from sample_cancel_run obtain d' where "repo_CancelTask mem_db 200 2 ''stop'' sample_rows = Inr d'"
    by (auto simp: is_ok_iff)
  with CancelTask_ok [OF mem_tasks.task_store_axioms sample_wf this] show ?thesis by auto
qed

text \<open>
  A canceled task stays canceled: after a successful cancellation no sequence of picks hands
  the task out.
\<close>

theorem canceled_never_picked:
  assumes "task_store T rows tinv" "tinv d" "repo_CancelTask T now k reason d = Inr d'"
    and "picks T locked ty ws d' = (ts, d'')"
  shows "k \<notin> te_ID ` set ts"
proof -
  from task_store.CancelTask_row [OF assms(1-3)] obtain r where r: "row_at te_ID (rows d) k = Some r" "tinv d'"
    "rows d' = map (\<lambda>x. if te_ID x = k then stamp_updated now (updates_struct (MarkAsCanceled now reason r) r) else x) (rows d)"
    by metis
  let ?c = "stamp_updated now (updates_struct (MarkAsCanceled now reason r) r)"
  have c: "te_ID ?c = k" "te_TaskStatus ?c = TaskStatusCanceled" "k \<in> te_ID ` set (rows d)"
    using r(1) by (auto simp: updates_struct_canceled dest: row_at_SomeD)
  have "row_at te_ID (rows d') k = Some ?c"
    using row_at_replace_row [of te_ID ?c "rows d" k] r(3) c(1,3) by (simp add: replace_row_def)
  then show ?thesis
    using task_store.picks_running [OF assms(1) r(2) assms(4)] c(2) by fastforce
qed

theorem canceled_never_picked_witness:
  "\<exists>d'. repo_CancelTask mem_db 200 2 ''stop'' sample_rows = Inr d' \<and>
     2 \<notin> te_ID ` set (fst (picks mem_db no_lock ''b'' [(300, ''w1''), (301, ''w2'')] d'))"
proof -
  from sample_cancel_run obtain d' where c: "repo_CancelTask mem_db 200 2 ''stop'' sample_rows = Inr d'"
    by (auto simp: is_ok_iff)
  from canceled_never_picked [OF mem_tasks.task_store_axioms sample_wf c prod.collapse [symmetric]] c
  show ?thesis by blast
qed

section \<open>Restart and dead workers\<close>

text \<open>
  Restart recovery: \<open>InitTaskDBStatus\<close> turns every undeleted running row into a failed one with
  one more attempt used, changes nothing else, and leaves no undeleted running row.
\<close>

theorem InitTaskDBStatus_ok:
  assumes "task_store T rows tinv" "tinv d" "InitTaskDBStatus T now d = Inr d'"
  shows "rows d' = map (\<lambda>r. if te_TaskStatus r = TaskStatusRunning \<and> te_DeletedAt r = None
            then r\<lparr>te_TaskStatus := TaskStatusFailed, te_ErrMsg := ''task interrupted by restart'',
                   te_Redo := te_Redo r + 1, te_UpdatedAt := Some now\<rparr> else r) (rows d) \<and>
    (\<forall>r \<in> set (rows d'). te_DeletedAt r = None \<longrightarrow> te_TaskStatus r \<noteq> TaskStatusRunning)"
proof -
  have tab: "sql_table T rows tinv te_ID set_task_ID" using assms(1) by (simp add: task_store_def)
  from assms(3) have "tb_update T d (\<lambda>r. te_TaskStatus r = TaskStatusRunning \<and> not_deleted r) (interrupted_row now) = Inr d'"
    by (simp add: InitTaskDBStatus_def split: sum.splits)
  from sql_table.update_rows_ok [OF tab assms(2) this] show ?thesis
    by (auto simp: update_rows_def interrupted_row_def stamp_updated_def not_deleted_def)
qed

lemma sample_init_run: "is_ok (InitTaskDBStatus mem_db 50 sample_rows)"
  by code_simp

theorem InitTaskDBStatus_ok_witness:
  "\<exists>d'. InitTaskDBStatus mem_db 50 sample_rows = Inr d' \<and>
     (\<forall>r \<in> set d'. te_DeletedAt r = None \<longrightarrow> te_TaskStatus r \<noteq> TaskStatusRunning)"
proof -
  from sample_init_run obtain d' where c: "InitTaskDBStatus mem_db 50 sample_rows = Inr d'"
    by (auto simp: is_ok_iff)
  from InitTaskDBStatus_ok [OF mem_tasks.task_store_axioms sample_wf c]
  have "\<forall>r \<in> set (id d'). te_DeletedAt r = None \<longrightarrow> te_TaskStatus r \<noteq> TaskStatusRunning" by (rule conjunct2)
  with c show ?thesis by (intro exI [of _ d']) simp
qed

lemma HandleDeadWorkerTasks_rows:
  assumes "task_store T rows tinv" "tinv d" "HandleDeadWorkerTasks T now ty w k d = Inr (tys, d')"
  shows "tys = [] \<and> tinv d' \<and> rows d' = update_rows
      (\<lambda>r. te_WorkerID r = w \<and> te_TaskStatus r = TaskStatusRunning \<and> not_deleted r)
      (timeout_row now ''worker dead, task re-assigned'') (rows d)"
proof -
  have tab: "sql_table T rows tinv te_ID set_task_ID" using assms(1) by (simp add: task_store_def)
  let ?P = "\<lambda>r. te_WorkerID r = w \<and> te_TaskStatus r = TaskStatusRunning \<and> not_deleted r"
  let ?f = "timeout_row now ''worker dead, task re-assigned''"
  from assms(3) obtain rs where f: "tb_find T d (\<lambda>_ r. ?P r) any_order = Inr rs"
    and c: "rs = [] \<and> d' = d \<and> tys = [] \<or> tb_update T d (running_in (map te_ID rs)) ?f = Inr d' \<and>
       tys = remdups (map te_TaskType (filter CanRetry rs))"
    by (auto simp: HandleDeadWorkerTasks_def split: sum.splits if_splits)
  note set_rs = sql_table.find_set [OF tab assms(2) f]
  have "filter CanRetry rs = []" using set_rs by (auto simp: filter_empty_conv CanRetry_def)
  then have tys: "tys = []" using c by auto
  have ids: "set (map te_ID rs) = te_ID ` {r \<in> set (rows d). ?P r}" using set_rs by simp
  from c have "rows d' = update_rows ?P ?f (rows d)"
  proof
    assume "rs = [] \<and> d' = d \<and> tys = []"
    then show ?thesis using set_rs update_rows_none [of "rows d" ?P ?f] by auto
  next
    assume "tb_update T d (running_in (map te_ID rs)) ?f = Inr d' \<and> tys = remdups (map te_TaskType (filter CanRetry rs))"
    then have "rows d' = update_rows (running_in (map te_ID rs)) ?f (rows d)"
      using sql_table.update_rows_ok [OF tab assms(2)] by blast
    also have "\<dots> = update_rows ?P ?f (rows d)"
      unfolding update_rows_def
      using task_store.running_in_overdue [OF assms(1,2) ids] by (intro map_cong refl) auto
    finally show ?thesis .
  qed
  moreover have "tinv d'" using c assms(2) sql_table.update_rows_ok [OF tab assms(2)] by blast
  ultimately show ?thesis using tys by simp
qed

text \<open>
  Dead workers: every undeleted running task of the worker is timed out with one more attempt
  used and nothing else changes; but the list of task types to announce again is always empty,
  because \<open>CanRetry\<close> is asked of the rows as they were read, while they were still running.
\<close>

theorem HandleDeadWorkerTasks_ok:
  assumes "task_store T rows tinv" "tinv d" "HandleDeadWorkerTasks T now ty w k d = Inr (tys, d')"
  shows "tys = [] \<and> rows d' = map (\<lambda>r. if te_WorkerID r = w \<and> te_TaskStatus r = TaskStatusRunning \<and> te_DeletedAt r = None
            then r\<lparr>te_TaskStatus := TaskStatusTimeout, te_ErrMsg := ''worker dead, task re-assigned'',
                   te_Redo := te_Redo r + 1, te_EndAt := Some now, te_UpdatedAt := Some now\<rparr> else r) (rows d)"
  using HandleDeadWorkerTasks_rows [OF assms]
  by (auto simp: update_rows_def timeout_row_def stamp_updated_def not_deleted_def)

lemma sample_dead_run: "is_ok (HandleDeadWorkerTasks mem_db 50 ''c'' ''w1'' 4 sample_rows)"
  by code_simp

theorem HandleDeadWorkerTasks_ok_witness:
  "\<exists>d'. HandleDeadWorkerTasks mem_db 50 ''c'' ''w1'' 4 sample_rows = Inr ([], d')"
proof -
  from sample_dead_run obtain tys d' where c: "HandleDeadWorkerTasks mem_db 50 ''c'' ''w1'' 4 sample_rows = Inr (tys, d')"
    by (auto simp: is_ok_iff)
  from HandleDeadWorkerTasks_ok [OF mem_tasks.task_store_axioms sample_wf c] have "tys = []" by (rule conjunct1)
  with c show ?thesis by blast
qed

section \<open>Steps of a flow\<close>

definition open_task :: "TaskEntity \<Rightarrow> bool" where
  "open_task t \<longleftrightarrow> te_TaskStatus t \<in> {TaskStatusPending, TaskStatusFailed, TaskStatusRunning}"

lemma first_incomplete_Min:
  assumes "sorted steps" "distinct steps"
  shows "first_incomplete all steps =
    (let B = {te_Step t | t. t \<in> set all \<and> \<not> IsSuccess t \<and> te_Step t \<in> set steps} in
     if B = {} then [] else filter open_task (tasks_of_step all (Min B)))"
  using assms
proof (induction steps)
  case (Cons s steps)
  let ?B = "\<lambda>ss. {te_Step t | t. t \<in> set all \<and> \<not> IsSuccess t \<and> te_Step t \<in> set ss}"
  have fin: "finite (?B ss)" for ss by (rule finite_subset [of _ "te_Step ` set all"]) auto
  have opn: "(\<lambda>t. IsPending t \<or> te_TaskStatus t = TaskStatusFailed \<or> IsRunning t) = open_task"
    by (auto simp: open_task_def IsPending_def IsRunning_def)
  show ?case
  proof (cases "list_all IsSuccess (tasks_of_step all s)")
    case True
    then have "?B (s # steps) = ?B steps" by (auto simp: list_all_iff tasks_of_step_def)
    with True Cons show ?thesis by (simp add: Let_def)
  next
    case False
    then have "s \<in> ?B (s # steps)" by (auto simp: list_all_iff tasks_of_step_def)
    moreover have "\<forall>x \<in> ?B (s # steps). s \<le> x" using Cons.prems by auto
    ultimately have "Min (?B (s # steps)) = s" using fin by (meson Min_eqI)
    with False \<open>s \<in> ?B (s # steps)\<close> opn show ?thesis by (auto simp: Let_def)
  qed
qed simp

lemma GetNextStepTasks_mset:
  assumes "task_store T rows tinv" "tinv d" "GetNextStepTasks T sid grp d = Inr ts"
  shows "let F = filter (\<lambda>r. te_SubjectID r = sid \<and> te_AppGroup r = grp \<and> te_DeletedAt r = None) (rows d);
             B = te_Step ` {r \<in> set F. te_TaskStatus r \<noteq> TaskStatusSuccess}
         in mset ts = (if B = {} then {#} else mset (filter (\<lambda>r. te_Step r = Min B \<and>
              te_TaskStatus r \<in> {TaskStatusPending, TaskStatusFailed, TaskStatusRunning}) F))"
proof -
  have tab: "sql_table T rows tinv te_ID set_task_ID" using assms(1) by (simp add: task_store_def)
  let ?flow = "\<lambda>r. te_SubjectID r = sid \<and> te_AppGroup r = grp \<and> not_deleted r"
  from assms(3) obtain all where f: "tb_find T d (\<lambda>_ r. ?flow r) (\<lambda>x y. te_Step x \<le> te_Step y) = Inr all"
    and ts: "ts = first_incomplete all (sort (remdups (map te_Step all)))"
    by (auto simp: GetNextStepTasks_def split: sum.splits)
  let ?F = "filter ?flow (rows d)"
  let ?B = "te_Step ` {r \<in> set ?F. te_TaskStatus r \<noteq> TaskStatusSuccess}"
  have m: "mset all = mset ?F" using sql_table.find_rows [OF tab assms(2) f] .
  then have st: "set all = set ?F" by (metis set_mset_mset)
  have "{te_Step t | t. t \<in> set all \<and> \<not> IsSuccess t \<and> te_Step t \<in> set (sort (remdups (map te_Step all)))} = ?B"
    using st by (auto simp: IsSuccess_def)
  then have "ts = (if ?B = {} then [] else filter open_task (tasks_of_step all (Min ?B)))"
    unfolding ts by (subst first_incomplete_Min) (simp_all only: Let_def sorted_sort distinct_sort distinct_remdups)
  moreover have "mset (filter open_task (tasks_of_step all k)) = mset (filter (\<lambda>r. te_Step r = k \<and> open_task r) ?F)" for k
  proof -
    have "mset (filter open_task (tasks_of_step all k)) = filter_mset (\<lambda>r. te_Step r = k \<and> open_task r) (mset all)"
      by (simp only: tasks_of_step_def filter_filter mset_filter)
    then show ?thesis unfolding m mset_filter .
  qed
  ultimately have "mset ts = (if ?B = {} then {#} else mset (filter (\<lambda>r. te_Step r = Min ?B \<and> open_task r) ?F))"
    by (simp only: if_distrib [of mset] mset.simps(1))
  then show ?thesis unfolding Let_def open_task_def not_deleted_def .
qed

text \<open>
  Next step of a flow: the tasks returned are the pending, failed and running ones of the
  smallest step that still has a task that is not successful, and none when every task of the flow
  is successful.
\<close>

theorem GetNextStepTasks_spec:
  assumes "task_store T rows tinv" "tinv d" "GetNextStepTasks T sid grp d = Inr ts"
  shows "let F = filter (\<lambda>r. te_SubjectID r = sid \<and> te_AppGroup r = grp \<and> te_DeletedAt r = None) (rows d);
             B = te_Step ` {r \<in> set F. te_TaskStatus r \<noteq> TaskStatusSuccess}
         in mset ts = (if B = {} then {#} else mset (filter (\<lambda>r. te_Step r = Min B \<and>
              te_TaskStatus r \<in> {TaskStatusPending, TaskStatusFailed, TaskStatusRunning}) F))"
  by (rule GetNextStepTasks_mset [OF assms])

lemma sample_next_run: "GetNextStepTasks mem_db 7 ''g'' sample_rows =
   Inr [sample_task 2 ''b'' TaskStatusPending 2 1, sample_task 3 ''b'' TaskStatusPending 2 5,
        sample_task 4 ''c'' TaskStatusRunning 2 0]"
  by code_simp

theorem GetNextStepTasks_spec_witness:
  "let F = filter (\<lambda>r. te_SubjectID r = 7 \<and> te_AppGroup r = ''g'' \<and> te_DeletedAt r = None) (id sample_rows);
       B = te_Step ` {r \<in> set F. te_TaskStatus r \<noteq> TaskStatusSuccess}
   in mset [sample_task 2 ''b'' TaskStatusPending 2 1, sample_task 3 ''b'' TaskStatusPending 2 5,
        sample_task 4 ''c'' TaskStatusRunning 2 0] = (if B = {} then {#} else mset (filter (\<lambda>r. te_Step r = Min B \<and>
              te_TaskStatus r \<in> {TaskStatusPending, TaskStatusFailed, TaskStatusRunning}) F))"
  by (rule GetNextStepTasks_spec [OF mem_tasks.task_store_axioms sample_wf sample_next_run])

section \<open>Creating\<close>

context task_store
begin

lemma insert_batches_rows:
  assumes "tinv d" "insert_batches T d ts = Inr (us, d')"
  shows "rows d' = rows d @ us \<and> tinv d' \<and>
    list_all2 (\<lambda>t u. u = (if te_ID t = 0 then set_task_ID (te_ID u) t else t)) ts us"
  using assms
proof (induction ts arbitrary: d us rule: length_induct)
  case (1 ts)
  show ?case
  proof (cases "ts = []")
    case True
    with 1 show ?thesis by (simp add: insert_batches.simps)
  next
    case False
    with 1(3) obtain us1 d1 vs where b: "tb_insert T d (take 100 ts) = Inr (us1, d1)"
      "insert_batches T d1 (drop 100 ts) = Inr (vs, d')" "us = us1 @ vs"
      by (auto simp: insert_batches.simps [of T d ts] split: sum.splits)
    have i: "rows d1 = rows d @ us1" "tinv d1"
      "list_all2 (\<lambda>t u. u = (if te_ID t = 0 then set_task_ID (te_ID u) t else t)) (take 100 ts) us1"
      using insert_rows [OF 1(2) b(1)] by auto
    have "length (drop 100 ts) < length ts" using False by simp
    with 1(1) b(2) i(2) have "rows d' = rows d1 @ vs \<and> tinv d' \<and>
      list_all2 (\<lambda>t u. u = (if te_ID t = 0 then set_task_ID (te_ID u) t else t)) (drop 100 ts) vs" by blast
    with list_all2_appendI [OF i(3)] have "list_all2 (\<lambda>t u. u = (if te_ID t = 0 then set_task_ID (te_ID u) t else t))
        (take 100 ts @ drop 100 ts) (us1 @ vs)" "rows d' = rows d1 @ vs" "tinv d'" by blast+
    then show ?thesis unfolding append_take_drop_id b(3) i(1) append_assoc by simp
  qed
qed

end

lemma prepare_tasks_Inl:
  "prepare_tasks ts = Inl e \<Longrightarrow> \<exists>t \<in> set ts. \<exists>v. Validate t = Inl v \<and> e = Wrapf ''task validation failed'' v"
  by (induction ts) (auto split: sum.splits)

lemma te_ID_default_status [simp]: "te_ID (default_status t) = te_ID t"
  by (simp add: default_status_def)

lemma CreateTasks_rows:
  assumes "task_store T rows tinv" "tinv d" "repo_CreateTasks T now ts d = Inr (us, d')"
  shows "list_all (\<lambda>t. is_ok (Validate t)) ts" "rows d' = rows d @ us" "tinv d'"
    "list_all2 (\<lambda>t u. u = (let s = stamp_created now (default_status t) in
           if te_ID t = 0 then set_task_ID (te_ID u) s else s)) ts us"
proof -
  have "list_all (\<lambda>t. is_ok (Validate t)) ts \<and> rows d' = rows d @ us \<and> tinv d' \<and>
    list_all2 (\<lambda>t u. u = (let s = stamp_created now (default_status t) in
           if te_ID t = 0 then set_task_ID (te_ID u) s else s)) ts us"
  proof (cases "ts = []")
    case True
    with assms(2,3) show ?thesis by (auto simp: repo_CreateTasks_def)
  next
    case False
    with assms(3) obtain ps where p: "prepare_tasks ts = Inr ps"
      and b: "insert_batches T d (map (stamp_created now) ps) = Inr (us, d')"
      by (auto simp: repo_CreateTasks_def split: sum.splits)
    from p have v: "list_all (\<lambda>t. is_ok (Validate t)) ts" "ps = map default_status ts"
      by (simp_all add: prepare_tasks_Inr_iff)
    from task_store.insert_batches_rows [OF assms(1,2) b] v show ?thesis
      by (simp add: list_all2_map1 Let_def o_def cong: if_cong)
  qed
  then show "list_all (\<lambda>t. is_ok (Validate t)) ts" "rows d' = rows d @ us" "tinv d'"
    "list_all2 (\<lambda>t u. u = (let s = stamp_created now (default_status t) in
           if te_ID t = 0 then set_task_ID (te_ID u) s else s)) ts us" by auto
qed

text \<open>
  Batch creation: the repository stores all tasks or none. On success every task was valid and
  the table has gained, in order, one row per task with its defaults, timestamps and key filled in;
  with an invalid task in the list nothing is sent to the database and the error names the
  validation failure.
\<close>

theorem CreateTasks_all_or_nothing:
  assumes "task_store T rows tinv" "tinv d"
  shows "case repo_CreateTasks T now ts d of
      Inr (us, d') \<Rightarrow> list_all (\<lambda>t. is_ok (Validate t)) ts \<and> rows d' = rows d @ us \<and> tinv d' \<and>
        list_all2 (\<lambda>t u. u = (let s = stamp_created now (default_status t) in
           if te_ID t = 0 then set_task_ID (te_ID u) s else s)) ts us
    | Inl e \<Rightarrow> ts \<noteq> [] \<and> ((\<exists>t \<in> set ts. \<exists>v. Validate t = Inl v \<and> e = Wrapf ''task validation failed'' v) \<or>
        list_all (\<lambda>t. is_ok (Validate t)) ts)"
proof (cases "repo_CreateTasks T now ts d")
  case (Inl e)
  then show ?thesis using prepare_tasks_Inl prepare_tasks_Inr_iff
    by (auto simp: repo_CreateTasks_def split: sum.splits if_splits)
next
  case (Inr r)
  then show ?thesis using CreateTasks_rows [OF assms, of now ts] by (cases r) simp
qed

lemma sample_create_run:
  "is_ok (repo_CreateTasks mem_db 9 [sample_task 0 ''a'' [] 1 0, sample_task 0 ''b'' [] 2 0] sample_rows)"
  by code_simp

theorem CreateTasks_all_or_nothing_witness:
  "\<exists>us d'. repo_CreateTasks mem_db 9 [sample_task 0 ''a'' [] 1 0, sample_task 0 ''b'' [] 2 0] sample_rows = Inr (us, d') \<and>
     d' = sample_rows @ us"
proof -
  let ?ts = "[sample_task 0 ''a'' [] 1 0, sample_task 0 ''b'' [] 2 0]"
  from sample_create_run obtain us d' where c: "repo_CreateTasks mem_db 9 ?ts sample_rows = Inr (us, d')"
    by (auto simp: is_ok_iff)
  have "id d' = id sample_rows @ us"
    using CreateTasks_all_or_nothing [OF mem_tasks.task_store_axioms sample_wf, where now = 9 and ts = ?ts]
    unfolding c by (simp only: sum.case prod.case)
  with c show ?thesis by (intro exI [of _ us] exI [of _ d']) (simp only: id_apply)
qed

end
