(* ===== verification/Redis_Stream.thy ===== *)
theory Redis_Stream
  imports Go_Prelude
begin

text \<open>
  The Redis commands the task queue sends (streams, consumer groups, SCAN), as a record of
  operations on an abstract server state \<open>'q\<close>. The server is not part of the repository: the
  locale \<open>redis_stream\<close> names the documented behaviour the queue relies on, in terms of two views
  of the state: the entries of each stream, and how many of them each consumer group has had
  delivered. Any command may fail.
\<close>

type_synonym entry = "string \<times> (string \<times> string) list"

record 'q stream_ops =
  sx_add :: "'q \<Rightarrow> string \<Rightarrow> (string \<times> string) list \<Rightarrow> (string \<times> 'q) res"
  sx_group :: "'q \<Rightarrow> string \<Rightarrow> string \<Rightarrow> string \<Rightarrow> unit res \<times> 'q"
  sx_readgroup :: "'q \<Rightarrow> string \<Rightarrow> string \<Rightarrow> string \<Rightarrow> (string \<times> entry list) list res \<times> 'q"
  sx_ack :: "'q \<Rightarrow> string \<Rightarrow> string \<Rightarrow> string \<Rightarrow> unit res \<times> 'q"
  sx_infogroups :: "'q \<Rightarrow> string \<Rightarrow> (string \<times> string) list res"
  sx_range :: "'q \<Rightarrow> string \<Rightarrow> string \<Rightarrow> string \<Rightarrow> nat \<Rightarrow> entry list res"
  sx_pending :: "'q \<Rightarrow> string \<Rightarrow> string \<Rightarrow> duration \<Rightarrow> string list res"
  sx_scan :: "'q \<Rightarrow> nat \<Rightarrow> string \<Rightarrow> nat \<Rightarrow> (string list \<times> nat) res"

definition redis_Nil :: gerror where
  "redis_Nil = Err ''redis: nil''"

text \<open>The last-delivered id of a group that has had \<open>p\<close> entries of a stream.\<close>

definition last_delivered :: "entry list \<Rightarrow> nat \<Rightarrow> string" where
  "last_delivered es p = (if p = 0 then ''0-0'' else fst (es ! (p - 1)))"

locale redis_stream =
  fixes R :: "'q stream_ops" and strm :: "'q \<Rightarrow> string \<Rightarrow> entry list"
    and grp :: "'q \<Rightarrow> string \<Rightarrow> string \<Rightarrow> nat option" and qinv :: "'q \<Rightarrow> bool"
  assumes grp_bound: "qinv q \<Longrightarrow> grp q k g = Some p \<Longrightarrow> p \<le> length (strm q k)"
    and add_ok: "qinv q \<Longrightarrow> sx_add R q k f = Inr (eid, q') \<Longrightarrow>
       strm q' = (strm q)(k := strm q k @ [(eid, f)]) \<and> grp q' = grp q \<and> qinv q'"
    and group_new: "qinv q \<Longrightarrow> sx_group R q k g ''$'' = (Inr (), q') \<Longrightarrow> grp q k g = None \<and>
       strm q' = strm q \<and> grp q' = (grp q)(k := (grp q k)(g \<mapsto> length (strm q k))) \<and> qinv q'"
    and group_err: "qinv q \<Longrightarrow> sx_group R q k g st = (Inl e, q') \<Longrightarrow> q' = q"
    and read_ok: "qinv q \<Longrightarrow> sx_readgroup R q k g c = (Inr res, q') \<Longrightarrow> \<exists>p. grp q k g = Some p \<and>
       p < length (strm q k) \<and> res = [(k, [strm q k ! p])] \<and>
       strm q' = strm q \<and> grp q' = (grp q)(k := (grp q k)(g \<mapsto> Suc p)) \<and> qinv q'"
    and read_err: "qinv q \<Longrightarrow> sx_readgroup R q k g c = (Inl e, q') \<Longrightarrow> q' = q"
    and info_ok: "qinv q \<Longrightarrow> sx_infogroups R q k = Inr gs \<Longrightarrow>
       map_of gs g = map_option (last_delivered (strm q k)) (grp q k g)"
    and range_from: "qinv q \<Longrightarrow> j < length (strm q k) \<Longrightarrow>
       sx_range R q k (fst (strm q k ! j)) ''+'' n = Inr es \<Longrightarrow> es = take n (drop j (strm q k))"
    and range_all: "qinv q \<Longrightarrow> sx_range R q k ''0-0'' ''+'' n = Inr es \<Longrightarrow> es = take n (strm q k)"
    and entry_named: "qinv q \<Longrightarrow> m \<in> set (strm q k) \<Longrightarrow> fst m \<noteq> []"
begin

lemma add_length: "qinv q \<Longrightarrow> sx_add R q k f = Inr (eid, q') \<Longrightarrow>
  length (strm q' k') = (if k' = k then Suc (length (strm q k)) else length (strm q k'))"
  using add_ok by fastforce

lemma read_advances:
  assumes "qinv q" "sx_readgroup R q k g c = (Inr res, q')"
  shows "\<exists>p. grp q k g = Some p \<and> grp q' k g = Some (Suc p) \<and> strm q' = strm q"
  using read_ok [OF assms] by auto

lemma read_at_end:
  assumes "qinv q" "grp q k g = Some (length (strm q k))"
  shows "\<exists>e. sx_readgroup R q k g c = (Inl e, q)"
proof (cases "sx_readgroup R q k g c")
  case (Pair r q')
  show ?thesis
  proof (cases r)
    case (Inl e)
    with Pair read_err [OF assms(1)] show ?thesis by auto
  next
    case (Inr res)
    with Pair read_ok [OF assms(1)] assms(2) show ?thesis by fastforce
  qed
qed

text \<open>From the last-delivered id on, a range holds that entry and the undelivered ones.\<close>

lemma range_last_delivered:
  assumes "qinv q" "grp q k g = Some p" "sx_range R q k (last_delivered (strm q k) p) ''+'' n = Inr es"
  shows "es = take n (drop (p - 1) (strm q k))"
proof (cases p)
  case 0
  with assms range_all [OF assms(1)] show ?thesis by (simp add: last_delivered_def)
next
  case (Suc j)
  then have "j < length (strm q k)" using grp_bound [OF assms(1,2)] by simp
  with Suc assms(3) range_from [OF assms(1)] show ?thesis by (simp add: last_delivered_def)
qed

end

text \<open>
  A SCAN iteration returns, page by page, the keys that match the pattern (possibly repeated) and
  ends with cursor 0. \<open>unseen q pat c\<close> is what an iteration at cursor \<open>c\<close> has still to return and
  \<open>rank\<close> bounds its pages. Only patterns that are a literal prefix followed by a star are used.
\<close>

locale redis_scan = redis_stream R strm grp qinv
  for R :: "'q stream_ops" and strm :: "'q \<Rightarrow> string \<Rightarrow> entry list"
    and grp :: "'q \<Rightarrow> string \<Rightarrow> string \<Rightarrow> nat option" and qinv :: "'q \<Rightarrow> bool" +
  fixes has_key :: "'q \<Rightarrow> string \<Rightarrow> bool" and unseen :: "'q \<Rightarrow> string \<Rightarrow> nat \<Rightarrow> string set"
    and rank :: "'q \<Rightarrow> string \<Rightarrow> nat \<Rightarrow> nat"
  assumes scan_page: "qinv q \<Longrightarrow> sx_scan R q c pat n = Inr (ks, c') \<Longrightarrow>
       unseen q pat c = set ks \<union> (if c' = 0 then {} else unseen q pat c')"
    and scan_rank: "qinv q \<Longrightarrow> sx_scan R q c pat n = Inr (ks, c') \<Longrightarrow> c' \<noteq> 0 \<Longrightarrow> rank q pat c' < rank q pat c"
    and scan_all: "qinv q \<Longrightarrow> unseen q (pre @ ''*'') 0 = {k. has_key q k \<and> has_prefix k pre}"
    and stream_key: "qinv q \<Longrightarrow> strm q k \<noteq> [] \<Longrightarrow> has_key q k"

section \<open>A server held in memory\<close>

text \<open>
  A total implementation of those commands: entry ids count up, groups keep their position, SCAN
  returns the keys with the pattern's literal prefix in one page.
\<close>

record mem_server =
  ms_strm :: "string \<Rightarrow> (string \<times> string) list list"
  ms_grp :: "string \<Rightarrow> (string \<times> nat) list"
  ms_keys :: "string list"

definition entry_id :: "nat \<Rightarrow> string" where
  "entry_id i = nat_digits (Suc i) @ ''-0''"

definition mem_strm :: "mem_server \<Rightarrow> string \<Rightarrow> entry list" where
  "mem_strm q k = map (\<lambda>i. (entry_id i, ms_strm q k ! i)) [0..<length (ms_strm q k)]"

definition mem_grp :: "mem_server \<Rightarrow> string \<Rightarrow> string \<Rightarrow> nat option" where
  "mem_grp q k = map_of (ms_grp q k)"

definition mem_qinv :: "mem_server \<Rightarrow> bool" where
  "mem_qinv q \<longleftrightarrow> (\<forall>k g p. mem_grp q k g = Some p \<longrightarrow> p \<le> length (ms_strm q k)) \<and>
     (\<forall>k. ms_strm q k \<noteq> [] \<longrightarrow> k \<in> set (ms_keys q))"

definition mem_has_key :: "mem_server \<Rightarrow> string \<Rightarrow> bool" where
  "mem_has_key q k = (k \<in> set (ms_keys q))"

definition mem_unseen :: "mem_server \<Rightarrow> string \<Rightarrow> nat \<Rightarrow> string set" where
  "mem_unseen q pat c = set (filter (\<lambda>k. has_prefix k (butlast pat)) (ms_keys q))"

definition mem_add :: "mem_server \<Rightarrow> string \<Rightarrow> (string \<times> string) list \<Rightarrow> (string \<times> mem_server) res" where
  "mem_add q k f = Inr (entry_id (length (ms_strm q k)),
     q\<lparr>ms_strm := (ms_strm q)(k := ms_strm q k @ [f]), ms_keys := List.insert k (ms_keys q)\<rparr>)"

definition mem_group :: "mem_server \<Rightarrow> string \<Rightarrow> string \<Rightarrow> string \<Rightarrow> unit res \<times> mem_server" where
  "mem_group q k g st = (case map_of (ms_grp q k) g of
     Some _ \<Rightarrow> (Inl (Err ''BUSYGROUP Consumer Group name already exists''), q)
   | None \<Rightarrow> (Inr (), q\<lparr>ms_grp := (ms_grp q)(k := (g, length (ms_strm q k)) # ms_grp q k),
       ms_keys := List.insert k (ms_keys q)\<rparr>))"

definition mem_readgroup ::
  "mem_server \<Rightarrow> string \<Rightarrow> string \<Rightarrow> string \<Rightarrow> (string \<times> entry list) list res \<times> mem_server" where
  "mem_readgroup q k g c = (case map_of (ms_grp q k) g of
     None \<Rightarrow> (Inl (Err ''NOGROUP''), q)
   | Some p \<Rightarrow> (if p < length (ms_strm q k)
       then (Inr [(k, [mem_strm q k ! p])], q\<lparr>ms_grp := (ms_grp q)(k := (g, Suc p) # ms_grp q k)\<rparr>)
       else (Inl redis_Nil, q)))"

definition mem_range :: "mem_server \<Rightarrow> string \<Rightarrow> string \<Rightarrow> string \<Rightarrow> nat \<Rightarrow> entry list res" where
  "mem_range q k start stop n =
     Inr (take n (if start = ''0-0'' then mem_strm q k else dropWhile (\<lambda>e. fst e \<noteq> start) (mem_strm q k)))"

definition mem_streams :: "mem_server stream_ops" where
  "mem_streams = \<lparr>sx_add = mem_add, sx_group = mem_group, sx_readgroup = mem_readgroup,
     sx_ack = (\<lambda>q k g i. (Inr (), q)),
     sx_infogroups = (\<lambda>q k. Inr (map (\<lambda>(g, p). (g, last_delivered (mem_strm q k) p)) (ms_grp q k))),
     sx_range = mem_range, sx_pending = (\<lambda>q k g idle. Inr []),
     sx_scan = (\<lambda>q c pat n. Inr (filter (\<lambda>k. has_prefix k (butlast pat)) (ms_keys q), 0))\<rparr>"

definition empty_server :: mem_server where
  "empty_server = \<lparr>ms_strm = (\<lambda>_. []), ms_grp = (\<lambda>_. []), ms_keys = []\<rparr>"

lemma entry_id_inj [simp]: "entry_id i = entry_id j \<longleftrightarrow> i = j"
  by (auto simp: entry_id_def dest: nat_digits_inj)

lemma entry_id_nonzero: "entry_id i \<noteq> ''0-0''"
proof
  assume "entry_id i = ''0-0''"
  then have "nat_digits (Suc i) = ''0''" by (simp add: entry_id_def)
  then have "parse_digits ''0'' = Some (Suc i)" using parse_digits_nat_digits [of "Suc i"] by simp
  then show False by (simp add: parse_digits_def is_digit_def)
qed

lemma length_mem_strm [simp]: "length (mem_strm q k) = length (ms_strm q k)"
  by (simp add: mem_strm_def)

lemma nth_mem_strm [simp]: "j < length (ms_strm q k) \<Longrightarrow> mem_strm q k ! j = (entry_id j, ms_strm q k ! j)"
  by (simp add: mem_strm_def)

lemma mem_strm_append:
  "mem_strm (q\<lparr>ms_strm := (ms_strm q)(k := ms_strm q k @ [f]), ms_keys := ks\<rparr>) =
     (mem_strm q)(k := mem_strm q k @ [(entry_id (length (ms_strm q k)), f)])"
  by (rule ext) (auto simp: mem_strm_def nth_append)

lemma mem_strm_frame [simp]: "mem_strm (q\<lparr>ms_grp := g\<rparr>) = mem_strm q"
  "mem_strm (q\<lparr>ms_grp := g, ms_keys := ks\<rparr>) = mem_strm q"
  by (rule ext, simp add: mem_strm_def)+

lemma dropWhile_entry:
  assumes "j < length (ms_strm q k)"
  shows "dropWhile (\<lambda>e. fst e \<noteq> entry_id j) (mem_strm q k) = drop j (mem_strm q k)"
proof -
  let ?P = "\<lambda>e. fst e \<noteq> entry_id j"
  have "\<forall>x \<in> set (take j (mem_strm q k)). ?P x"
    using assms by (auto simp: in_set_conv_nth)
  then have "dropWhile ?P (take j (mem_strm q k) @ drop j (mem_strm q k)) = dropWhile ?P (drop j (mem_strm q k))"
    by (intro dropWhile_append2) blast
  also have "\<dots> = drop j (mem_strm q k)"
    using assms by (simp add: Cons_nth_drop_Suc [symmetric])
  finally show ?thesis by simp
qed

lemma mem_qinvD: "mem_qinv q \<Longrightarrow> map_of (ms_grp q k) g = Some p \<Longrightarrow> p \<le> length (ms_strm q k)"
  by (simp add: mem_qinv_def mem_grp_def)

lemma map_of_map_snd: "map_of (map (\<lambda>(g, p). (g, f p)) xs) g = map_option f (map_of xs g)"
  by (induction xs) auto

lemma mem_read_Some:
  assumes "mem_qinv q" "sx_readgroup mem_streams q k g c = (Inr res, q')"
  shows "\<exists>p. mem_grp q k g = Some p \<and> p < length (mem_strm q k) \<and> res = [(k, [mem_strm q k ! p])] \<and>
    mem_strm q' = mem_strm q \<and> mem_grp q' = (mem_grp q)(k := (mem_grp q k)(g \<mapsto> Suc p)) \<and> mem_qinv q'"
proof -
  from assms(2) obtain p where p: "map_of (ms_grp q k) g = Some p" "p < length (ms_strm q k)"
    and q': "q' = q\<lparr>ms_grp := (ms_grp q)(k := (g, Suc p) # ms_grp q k)\<rparr>" "res = [(k, [mem_strm q k ! p])]"
    by (auto simp: mem_streams_def mem_readgroup_def split: option.splits if_splits)
  have "mem_grp q' = (mem_grp q)(k := (mem_grp q k)(g \<mapsto> Suc p))"
    by (rule ext) (simp add: mem_grp_def q')
  moreover from this have "mem_qinv q'"
    using p assms(1) by (auto simp: mem_qinv_def q' split: if_splits)
  ultimately show ?thesis using p q' by (simp add: mem_grp_def)
qed

interpretation mem_redis: redis_stream mem_streams mem_strm mem_grp mem_qinv
proof (unfold_locales, goal_cases)
  case (1 q k g p)
  then show ?case by (simp add: mem_qinv_def)
next
  case (2 q k f eid q')
  then have q': "q' = q\<lparr>ms_strm := (ms_strm q)(k := ms_strm q k @ [f]), ms_keys := List.insert k (ms_keys q)\<rparr>"
    "eid = entry_id (length (ms_strm q k))"
    by (simp_all add: mem_streams_def mem_add_def)
  have g: "mem_grp q' = mem_grp q" by (rule ext) (simp add: mem_grp_def q')
  moreover have "mem_qinv q'"
    using 2(1) g by (fastforce simp: mem_qinv_def q' split: if_splits)
  ultimately show ?case using mem_strm_append q' by simp
next
  case (3 q k g q')
  then have n: "map_of (ms_grp q k) g = None"
    and q': "q' = q\<lparr>ms_grp := (ms_grp q)(k := (g, length (ms_strm q k)) # ms_grp q k),
       ms_keys := List.insert k (ms_keys q)\<rparr>"
    by (auto simp: mem_streams_def mem_group_def split: option.splits)
  have g: "mem_grp q' = (mem_grp q)(k := (mem_grp q k)(g \<mapsto> length (mem_strm q k)))"
    by (rule ext) (simp add: mem_grp_def q')
  moreover have "mem_qinv q'"
    using 3(1) g by (auto simp: mem_qinv_def q' split: if_splits)
  ultimately show ?case using n q' by (simp add: mem_grp_def)
next
  case (4 q k g st e q')
  then show ?case by (auto simp: mem_streams_def mem_group_def split: option.splits)
next
  case (5 q k g c res q')
  then show ?case by (rule mem_read_Some)
next
  case (6 q k g c e q')
  then show ?case by (auto simp: mem_streams_def mem_readgroup_def split: option.splits if_splits)
next
  case (7 q k gs g)
  then show ?case by (auto simp: mem_streams_def mem_grp_def map_of_map_snd)
next
  case (8 q j k n es)
  then show ?case by (simp add: mem_streams_def mem_range_def entry_id_nonzero dropWhile_entry)
next
  case (9 q k n es)
  then show ?case by (simp add: mem_streams_def mem_range_def)
next
  case (10 q e k)
  then show ?case by (auto simp: mem_strm_def entry_id_def)
qed

interpretation mem_redis_scan: redis_scan mem_streams mem_strm mem_grp mem_qinv mem_has_key mem_unseen "\<lambda>_ _ _. 0"
proof (unfold_locales, goal_cases)
  case (1 q c pat n ks c')
  then show ?case by (auto simp: mem_streams_def mem_unseen_def)
next
  case (2 q c pat n ks c')
  then show ?case by (simp add: mem_streams_def)
next
  case (3 q pre)
  then show ?case by (auto simp: mem_unseen_def mem_has_key_def)
next
  case (4 q k)
  then show ?case by (auto simp: mem_qinv_def mem_has_key_def mem_strm_def)
qed

lemma mem_qinv_empty: "mem_qinv empty_server"
  by (simp add: mem_qinv_def mem_grp_def empty_server_def)

end
