(* ===== verification/Task_Queue.thy ===== *)
theory Task_Queue
  imports Redis_Stream
begin

text \<open>
  The Redis stream queue of \<open>task/manager/queue.go\<close> and its configuration
  (\<open>QueueConfig\<close> of \<open>task/manager/config.go\<close>). Every method takes the queue's configuration, the
  stream commands \<open>R\<close> and the server state. \<open>XREADGROUP\<close> is sent with COUNT 1, NOACK and the id
  \<open>>\<close>, which is the only form \<open>sx_readgroup\<close> stands for; a read that times out answers \<open>redis.Nil\<close>.
\<close>

section \<open>Configuration\<close>

record QueueConfig =
  qc_KeyPrefix :: string
  qc_BlockTime :: duration
  qc_MaxRetries :: int
  qc_RedisClient :: bool
  qc_DB :: bool

definition DefaultQueueConfig :: QueueConfig where
  "DefaultQueueConfig = \<lparr>qc_KeyPrefix = ''task:'', qc_BlockTime = 5 * time_Second, qc_MaxRetries = 3,
     qc_RedisClient = False, qc_DB = False\<rparr>"

text \<open>\<open>Validate\<close> repairs the two numeric fields in place, so it returns the changed struct.\<close>

definition QueueConfig_Validate :: "QueueConfig \<Rightarrow> QueueConfig res" where
  "QueueConfig_Validate c =
     (if qc_KeyPrefix c = [] then Inl (Err ''queue config: key prefix cannot be empty'')
      else if \<not> qc_RedisClient c then Inl (Err ''queue config: redis client is required'')
      else (let c1 = (if qc_BlockTime c \<le> 0 then c\<lparr>qc_BlockTime := 5 * time_Second\<rparr> else c);
                c2 = (if qc_MaxRetries c1 < 0 then c1\<lparr>qc_MaxRetries := 3\<rparr> else c1) in Inr c2))"

text \<open>\<open>NewQueue\<close> panics on an invalid configuration: \<open>None\<close>.\<close>

definition NewQueue :: "QueueConfig option \<Rightarrow> QueueConfig option" where
  "NewQueue config = (let c = (case config of None \<Rightarrow> DefaultQueueConfig | Some c \<Rightarrow> c) in
     case QueueConfig_Validate c of Inl e \<Rightarrow> None | Inr c' \<Rightarrow> Some c')"

section \<open>Operations\<close>

definition streamKey :: "QueueConfig \<Rightarrow> string \<Rightarrow> string" where
  "streamKey c taskType = qc_KeyPrefix c @ ''task_queue:'' @ taskType"

definition groupKey :: "QueueConfig \<Rightarrow> string \<Rightarrow> string" where
  "groupKey c taskType = qc_KeyPrefix c @ ''task_group:'' @ taskType"

definition Push :: "QueueConfig \<Rightarrow> 'q stream_ops \<Rightarrow> gotime \<Rightarrow> string \<Rightarrow> 'q \<Rightarrow> unit res \<times> 'q" where
  "Push c R now taskType q =
     (case sx_add R q (streamKey c taskType)
             [(''task_type'', taskType), (''timestamp'', itoa (unix_seconds now))] of
        Inl e \<Rightarrow> (Inl (Wrapf ''failed to push task to queue'' e), q)
      | Inr (msgID, q') \<Rightarrow> (Inr (), q'))"

definition Pop :: "QueueConfig \<Rightarrow> 'q stream_ops \<Rightarrow> string \<Rightarrow> string \<Rightarrow> 'q \<Rightarrow> string res \<times> 'q" where
  "Pop c R taskType workerID q =
     (let stream = streamKey c taskType; group = groupKey c taskType;
          q1 = snd (sx_group R q stream group ''$'') in
      case sx_readgroup R q1 stream group workerID of
        (Inl e, q2) \<Rightarrow> (if errors_is e redis_Nil then Inr [] else Inl (Wrapf ''failed to pop task from queue'' e), q2)
      | (Inr res, q2) \<Rightarrow> (case res of
            (s, m # ms) # _ \<Rightarrow> (Inr (fst m), q2)
          | _ \<Rightarrow> (Inr [], q2)))"

definition Ack :: "QueueConfig \<Rightarrow> 'q stream_ops \<Rightarrow> string \<Rightarrow> string \<Rightarrow> 'q \<Rightarrow> unit res \<times> 'q" where
  "Ack c R taskType msgID q =
     (case sx_ack R q (streamKey c taskType) (groupKey c taskType) msgID of
        (Inl e, q') \<Rightarrow> (Inl (Wrapf ''failed to ack task'' e), q')
      | (Inr _, q') \<Rightarrow> (Inr (), q'))"

text \<open>The loop over the group infos stops at the first group with the queue's name.\<close>

definition GetPendingCount :: "QueueConfig \<Rightarrow> 'q stream_ops \<Rightarrow> string \<Rightarrow> 'q \<Rightarrow> int res" where
  "GetPendingCount c R taskType q =
     (case sx_infogroups R q (streamKey c taskType) of
        Inl e \<Rightarrow> Inl (Wrapf ''failed to get group info'' e)
      | Inr groupInfo \<Rightarrow> (case map_of groupInfo (groupKey c taskType) of
            None \<Rightarrow> Inr 0
          | Some lastID \<Rightarrow> (case sx_range R q (streamKey c taskType) lastID ''+'' 10000 of
                Inl e \<Rightarrow> Inl (Wrapf ''failed to get pending count'' e)
              | Inr entries \<Rightarrow>
                  (let count = int (length entries) in Inr (if 0 < count then count - 1 else count)))))"

fun repush :: "QueueConfig \<Rightarrow> 'q stream_ops \<Rightarrow> gotime \<Rightarrow> string \<Rightarrow> string list \<Rightarrow> 'q \<Rightarrow> 'q" where
  "repush c R now taskType [] q = q"
| "repush c R now taskType (p # ps) q = (case Push c R now taskType q of
     (Inl e, q1) \<Rightarrow> repush c R now taskType ps q1
   | (Inr _, q1) \<Rightarrow>
       repush c R now taskType ps (snd (sx_ack R q1 (streamKey c taskType) (groupKey c taskType) p)))"

definition CheckPendingMessages ::
  "QueueConfig \<Rightarrow> 'q stream_ops \<Rightarrow> gotime \<Rightarrow> string \<Rightarrow> duration \<Rightarrow> 'q \<Rightarrow> int res \<times> 'q" where
  "CheckPendingMessages c R now taskType idleTime q =
     (case sx_pending R q (streamKey c taskType) (groupKey c taskType) idleTime of
        Inl e \<Rightarrow> (Inl (Wrapf ''failed to check pending messages'' e), q)
      | Inr pending \<Rightarrow> (Inr (int (length pending)), repush c R now taskType pending q))"

text \<open>The SCAN loop runs until the server answers cursor 0; \<open>None\<close> is a loop that never ends.\<close>

partial_function (option) scan_loop ::
  "'q stream_ops \<Rightarrow> 'q \<Rightarrow> string \<Rightarrow> nat \<Rightarrow> string list \<Rightarrow> string list res option" where
  "scan_loop R q pat cursor keys =
     (case sx_scan R q cursor pat 100 of
        Inl e \<Rightarrow> Some (Inl (Wrapf ''failed to scan keys'' e))
      | Inr (kk, nextCursor) \<Rightarrow>
          (if nextCursor = 0 then Some (Inr (keys @ kk)) else scan_loop R q pat nextCursor (keys @ kk)))"

definition types_of_keys :: "string \<Rightarrow> string list \<Rightarrow> string list" where
  "types_of_keys prefix keys = map (drop (length prefix)) (filter (\<lambda>key. length prefix < length key) keys)"

definition GetAllTaskTypes :: "QueueConfig \<Rightarrow> 'q stream_ops \<Rightarrow> 'q \<Rightarrow> string list res option" where
  "GetAllTaskTypes c R q = (case scan_loop R q (qc_KeyPrefix c @ ''task_queue:*'') 0 [] of
     None \<Rightarrow> None
   | Some (Inl e) \<Rightarrow> Some (Inl e)
   | Some (Inr keys) \<Rightarrow> Some (Inr (types_of_keys (qc_KeyPrefix c @ ''task_queue:'') keys)))"

section \<open>Lemmas\<close>

lemma streamKey_inj [simp]: "streamKey c s = streamKey c t \<longleftrightarrow> s = t"
  by (simp add: streamKey_def)

lemma QueueConfig_Validate_ok:
  "QueueConfig_Validate c = Inr c' \<Longrightarrow> 0 < qc_BlockTime c' \<and> 0 \<le> qc_MaxRetries c' \<and>
     qc_KeyPrefix c' = qc_KeyPrefix c \<and> qc_KeyPrefix c' \<noteq> [] \<and> qc_RedisClient c'"
  by (auto simp: QueueConfig_Validate_def Let_def time_Second_def split: if_splits)

text \<open>One push, then a sequence of pops by any workers.\<close>

fun pops :: "QueueConfig \<Rightarrow> 'q stream_ops \<Rightarrow> string \<Rightarrow> string list \<Rightarrow> 'q \<Rightarrow> string res list \<times> 'q" where
  "pops c R ty [] q = ([], q)"
| "pops c R ty (w # ws) q = (let (r, q1) = Pop c R ty w q; (rs, q2) = pops c R ty ws q1 in (r # rs, q2))"

definition delivered :: "string res list \<Rightarrow> string list" where
  "delivered rs = concat (map (\<lambda>r. case r of Inr m \<Rightarrow> (if m = [] then [] else [m]) | Inl _ \<Rightarrow> []) rs)"

lemma delivered_simps [simp]:
  "delivered [] = []" "delivered (Inl e # rs) = delivered rs"
  "delivered (Inr m # rs) = (if m = [] then delivered rs else m # delivered rs)"
  by (simp_all add: delivered_def)

context redis_stream
begin

lemma Push_ok:
  assumes "qinv q" "Push c R now ty q = (Inr (), q')"
  obtains eid where "strm q' = (strm q)(streamKey c ty := strm q (streamKey c ty) @
      [(eid, [(''task_type'', ty), (''timestamp'', itoa (unix_seconds now))])])"
    "grp q' = grp q" "qinv q'"
  using assms add_ok [OF assms(1)] by (auto simp: Push_def split: sum.splits prod.splits)

lemma Push_frame: "Push c R now ty q = (Inl e, q') \<Longrightarrow> q' = q"
  by (auto simp: Push_def split: sum.splits prod.splits)

lemma Push_qinv: "qinv q \<Longrightarrow> qinv (snd (Push c R now ty q))"
  using add_ok [of q] by (auto simp: Push_def split: sum.splits prod.splits)

lemma Push_length:
  assumes "qinv q" "Push c R now ty q = (Inr (), q')"
  shows "length (strm q' (streamKey c u)) = length (strm q (streamKey c u)) + (if u = ty then 1 else 0)"
proof -
  from assms obtain eid where "strm q' = (strm q)(streamKey c ty := strm q (streamKey c ty) @
      [(eid, [(''task_type'', ty), (''timestamp'', itoa (unix_seconds now))])])"
    by (rule Push_ok) simp
  then show ?thesis by simp
qed

text \<open>An existing group stays where it is when \<open>Pop\<close> tries to create it again.\<close>

lemma group_existing:
  assumes "qinv q" "grp q k g = Some p"
  shows "snd (sx_group R q k g ''$'') = q"
proof (cases "sx_group R q k g ''$''")
  case (Pair r q')
  then show ?thesis
    using group_new [OF assms(1), of k g q'] group_err [OF assms(1), of k g "''$''"] assms(2)
    by (cases r) auto
qed

lemma Pop_existing:
  assumes "qinv q" "grp q (streamKey c ty) (groupKey c ty) = Some p"
  shows "(\<exists>r q'. Pop c R ty w q = (r, q') \<and> delivered [r] = [] \<and> q' = q) \<or>
     (\<exists>q'. Pop c R ty w q = (Inr (fst (strm q (streamKey c ty) ! p)), q') \<and> p < length (strm q (streamKey c ty)) \<and>
        strm q' = strm q \<and> grp q' (streamKey c ty) (groupKey c ty) = Some (Suc p) \<and> qinv q')"
proof (cases "sx_readgroup R q (streamKey c ty) (groupKey c ty) w")
  case (Pair r q')
  note g = group_existing [OF assms]
  show ?thesis
  proof (cases r)
    case (Inl e)
    with Pair have "q' = q" using read_err [OF assms(1)] by simp
    with Inl Pair g show ?thesis by (simp add: Pop_def Let_def)
  next
    case (Inr res)
    with Pair read_ok [OF assms(1), of "streamKey c ty" "groupKey c ty" w res q'] assms(2) g
    show ?thesis by (auto simp: Pop_def Let_def)
  qed
qed

text \<open>
  Pops by any number of workers hand out the undelivered messages of a stream in order, each
  once.
\<close>

lemma pops_delivered:
  assumes "qinv q" "grp q (streamKey c ty) (groupKey c ty) = Some p" "pops c R ty ws q = (rs, q')"
  shows "delivered rs = map fst (take (length (delivered rs)) (drop p (strm q (streamKey c ty)))) \<and>
    grp q' (streamKey c ty) (groupKey c ty) = Some (p + length (delivered rs)) \<and>
    strm q' = strm q \<and> qinv q'"
  using assms
proof (induction ws arbitrary: q p rs)
  case (Cons w ws)
  let ?k = "streamKey c ty" and ?g = "groupKey c ty"
  from Cons.prems(3) obtain r q1 rs1 where p1: "Pop c R ty w q = (r, q1)" "pops c R ty ws q1 = (rs1, q')"
    "rs = r # rs1" by (auto simp: Let_def split: prod.splits)
  from Pop_existing [OF Cons.prems(1,2), of w] p1(1) consider
      (none) "delivered [r] = []" "q1 = q"
    | (one) "r = Inr (fst (strm q ?k ! p))" "p < length (strm q ?k)" "strm q1 = strm q"
        "grp q1 ?k ?g = Some (Suc p)" "qinv q1" by auto
  then show ?case
  proof cases
    case none
    with p1(3) have "delivered rs = delivered rs1" by (cases r) (auto split: if_splits)
    with Cons.IH [OF _ _ p1(2)] none(2) Cons.prems(1,2) show ?thesis by simp
  next
    case one
    then have "fst (strm q ?k ! p) \<noteq> []" using entry_named [OF Cons.prems(1)] nth_mem by blast
    moreover have "drop p (strm q ?k) = strm q ?k ! p # drop (Suc p) (strm q ?k)"
      using one(2) by (simp add: Cons_nth_drop_Suc)
    ultimately show ?thesis using Cons.IH [OF one(5,4) p1(2)] one(1,3) p1(3) by simp
  qed
qed simp

lemma GetPendingCount_eq:
  assumes "qinv q" "GetPendingCount c R ty q = Inr n" "grp q (streamKey c ty) (groupKey c ty) = Some p"
  shows "n = (if p = 0 then min 10000 (int (length (strm q (streamKey c ty)))) - (if strm q (streamKey c ty) = [] then 0 else 1)
     else min 9999 (int (length (strm q (streamKey c ty))) - int p))"
proof -
  let ?s = "strm q (streamKey c ty)"
  from assms(2) obtain gs where gs: "sx_infogroups R q (streamKey c ty) = Inr gs"
    by (auto simp: GetPendingCount_def split: sum.splits)
  have "map_of gs (groupKey c ty) = Some (last_delivered ?s p)"
    using info_ok [OF assms(1) gs] assms(3) by simp
  with gs assms(2) obtain es where rng: "sx_range R q (streamKey c ty) (last_delivered ?s p) ''+'' 10000 = Inr es"
    and n: "n = (if 0 < int (length es) then int (length es) - 1 else int (length es))"
    by (auto simp: GetPendingCount_def Let_def split: sum.splits)
  from range_last_delivered [OF assms(1,3) rng] have "length es = min 10000 (length ?s - (p - 1))"
    by (simp only: length_take length_drop min.commute)
  moreover have "p \<le> length ?s" by (rule grp_bound [OF assms(1,3)])
  ultimately show ?thesis using n by (cases "p = 0") auto
qed

end

context redis_scan
begin

lemma scan_loop_total:
  assumes "qinv q"
  shows "\<exists>r. scan_loop R q pat c ks = Some r \<and>
     (\<forall>ks'. r = Inr ks' \<longrightarrow> set ks' = set ks \<union> unseen q pat c)"
proof (induction "rank q pat c" arbitrary: c ks rule: less_induct)
  case less
  show ?case
  proof (cases "sx_scan R q c pat 100")
    case (Inl e)
    then show ?thesis by (simp add: scan_loop.simps)
  next
    case (Inr x)
    obtain kk c' where x: "x = (kk, c')" by (cases x)
    note pg = scan_page [OF assms Inr [unfolded x]]
    show ?thesis
    proof (cases "c' = 0")
      case True
      with Inr x pg show ?thesis by (simp add: scan_loop.simps [of R q pat c])
    next
      case False
      with less [OF scan_rank [OF assms Inr [unfolded x]], of "ks @ kk"] Inr x pg show ?thesis
        by (auto simp: scan_loop.simps [of R q pat c])
    qed
  qed
qed

text \<open>The task types found are those of the stream keys present, whatever the paging.\<close>

lemma GetAllTaskTypes_set:
  assumes "qinv q"
  shows "\<exists>r. GetAllTaskTypes c R q = Some r \<and>
    (\<forall>tys. r = Inr tys \<longrightarrow> set tys = {ty. ty \<noteq> [] \<and> has_key q (streamKey c ty)})"
proof -
  let ?pre = "qc_KeyPrefix c @ ''task_queue:''"
  obtain r where r: "scan_loop R q (?pre @ ''*'') 0 [] = Some r"
    "\<And>ks. r = Inr ks \<Longrightarrow> set ks = unseen q (?pre @ ''*'') 0"
    using scan_loop_total [OF assms, of "?pre @ ''*''" 0 "[]"] by auto
  have "set (types_of_keys ?pre ks) = {ty. ty \<noteq> [] \<and> has_key q (streamKey c ty)}"
    if "set ks = unseen q (?pre @ ''*'') 0" for ks
  proof -
    have ks: "set ks = {k. has_key q k \<and> has_prefix k ?pre}"
      using that scan_all [OF assms] by blast
    show ?thesis
    proof (intro set_eqI iffI)
      fix ty assume "ty \<in> set (types_of_keys ?pre ks)"
      then obtain k where "k \<in> set ks" "length ?pre < length k" "ty = drop (length ?pre) k"
        by (auto simp: types_of_keys_def)
      then show "ty \<in> {ty. ty \<noteq> [] \<and> has_key q (streamKey c ty)}"
        using ks by (auto simp: has_prefix_conv streamKey_def)
    next
      fix ty assume a: "ty \<in> {ty. ty \<noteq> [] \<and> has_key q (streamKey c ty)}"
      then have "streamKey c ty \<in> set ks" using ks has_prefix_conv [of "streamKey c ty" ?pre]
        by (auto simp: streamKey_def)
      moreover have "drop (length ?pre) (streamKey c ty) = ty" "length ?pre < length (streamKey c ty)"
        using a by (auto simp: streamKey_def)
      ultimately show "ty \<in> set (types_of_keys ?pre ks)"
        unfolding types_of_keys_def set_map set_filter by (intro image_eqI [of _ _ "streamKey c ty"]) simp_all
    qed
  qed
  with r show ?thesis by (cases r) (auto simp: GetAllTaskTypes_def)
qed

end

section \<open>Properties\<close>


definition sample_queue :: mem_server where
  "sample_queue = snd (Push DefaultQueueConfig mem_streams 0 ''a''
     (snd (Push DefaultQueueConfig mem_streams 0 ''a'' (snd (Pop DefaultQueueConfig mem_streams ''a'' ''w0'' empty_server)))))"

lemma sample_queue_inv: "mem_qinv sample_queue"
proof -
  have "snd (Pop DefaultQueueConfig mem_streams ''a'' ''w0'' empty_server) =
      snd (sx_group mem_streams empty_server (streamKey DefaultQueueConfig ''a'') (groupKey DefaultQueueConfig ''a'') ''$'')"
    by (simp add: Pop_def Let_def mem_streams_def mem_group_def mem_readgroup_def empty_server_def)
  moreover have "sx_group mem_streams empty_server (streamKey DefaultQueueConfig ''a'') (groupKey DefaultQueueConfig ''a'') ''$'' =
      (Inr (), snd (sx_group mem_streams empty_server (streamKey DefaultQueueConfig ''a'') (groupKey DefaultQueueConfig ''a'') ''$''))"
    by (simp add: mem_streams_def mem_group_def empty_server_def)
  ultimately have "mem_qinv (snd (Pop DefaultQueueConfig mem_streams ''a'' ''w0'' empty_server))"
    using mem_redis.group_new [OF mem_qinv_empty] by metis
  then show ?thesis unfolding sample_queue_def by (intro mem_redis.Push_qinv)
qed

lemma sample_queue_group:
  "mem_grp sample_queue (streamKey DefaultQueueConfig ''a'') (groupKey DefaultQueueConfig ''a'') = Some 0"
  by code_simp


text \<open>
  Backlog: for a group that has received a message, the pending count is the number of
  undelivered messages, capped at 9999; for a group that has received none it is one less than the
  number of messages, because the entry subtracted as already delivered does not exist.
\<close>

theorem GetPendingCount_correct:
  assumes "redis_stream R strm grp qinv" "qinv q"
    and "GetPendingCount c R ty q = Inr n" "grp q (streamKey c ty) (groupKey c ty) = Some p"
  shows "n = (if 0 < p then min 9999 (int (length (strm q (streamKey c ty))) - int p)
     else if strm q (streamKey c ty) = [] then 0
     else min 10000 (int (length (strm q (streamKey c ty)))) - 1)"
  using redis_stream.GetPendingCount_eq [OF assms] by auto

lemma sample_pending_run: "GetPendingCount DefaultQueueConfig mem_streams ''a'' sample_queue = Inr 1"
  by code_simp

theorem GetPendingCount_correct_witness:
  "(1 :: int) = min 10000 (int (length (mem_strm sample_queue (streamKey DefaultQueueConfig ''a'')))) - 1 \<and>
   GetPendingCount DefaultQueueConfig mem_streams ''a'' sample_queue = Inr 1"
proof -
  have "mem_strm sample_queue (streamKey DefaultQueueConfig ''a'') \<noteq> []" by code_simp
  with GetPendingCount_correct [OF mem_redis.redis_stream_axioms sample_queue_inv sample_pending_run sample_queue_group]
    sample_pending_run show ?thesis by simp
qed

text \<open>
  Known task types: listing the task types ends for every paging of the key scan, and returns
  the non-empty types whose stream key exists, so a type is listed as soon as it has had a message.
\<close>

theorem GetAllTaskTypes_correct:
  assumes "redis_scan R strm grp qinv has_key unseen rank" "qinv q"
  shows "\<exists>r. GetAllTaskTypes c R q = Some r \<and>
    (\<forall>tys. r = Inr tys \<longrightarrow> set tys = {ty. ty \<noteq> [] \<and> has_key q (streamKey c ty)} \<and>
       (\<forall>ty. ty \<noteq> [] \<and> strm q (streamKey c ty) \<noteq> [] \<longrightarrow> ty \<in> set tys))"
proof -
  obtain r where "GetAllTaskTypes c R q = Some r"
    "\<forall>tys. r = Inr tys \<longrightarrow> set tys = {ty. ty \<noteq> [] \<and> has_key q (streamKey c ty)}"
    using redis_scan.GetAllTaskTypes_set [OF assms] by blast
  then show ?thesis using redis_scan.stream_key [OF assms] by auto
qed

theorem GetAllTaskTypes_correct_witness:
  "\<exists>r. GetAllTaskTypes DefaultQueueConfig mem_streams sample_queue = Some r \<and>
    (\<forall>tys. r = Inr tys \<longrightarrow> ''a'' \<in> set tys)"
proof -
  have "mem_strm sample_queue (streamKey DefaultQueueConfig ''a'') \<noteq> []" by code_simp
  with GetAllTaskTypes_correct [OF mem_redis_scan.redis_scan_axioms sample_queue_inv, of DefaultQueueConfig]
  show ?thesis by auto
qed

end
