(* ===== verification/Go_Json.thy ===== *)
theory Go_Json
  imports Go_Prelude
begin

text \<open>
  \<open>json.Marshal\<close> of a Go string, as \<open>encoding/json\<close> writes it (with HTML escaping, the default):
  the manager stores task results in this form. A Go string is a list of bytes; bytes that do not
  start a valid UTF-8 sequence become the replacement character.
\<close>

definition byte_of :: "char \<Rightarrow> nat" where
  "byte_of c = of_char c"

definition hex_digit :: "nat \<Rightarrow> char" where
  "hex_digit d = (if d < 10 then char_of (48 + d) else char_of (87 + d))"

definition in_range :: "nat \<Rightarrow> nat \<Rightarrow> nat \<Rightarrow> bool" where
  "in_range lo hi b = (lo \<le> b \<and> b \<le> hi)"

definition cont :: "nat \<Rightarrow> bool" where
  "cont b = in_range 128 191 b"

text \<open>The length of the UTF-8 sequence at the front of a byte list, 0 when it is malformed.\<close>

definition utf8_len :: "nat list \<Rightarrow> nat" where
  "utf8_len bs = (case bs of
     [] \<Rightarrow> 0
   | b0 # r0 \<Rightarrow>
      if b0 < 128 then 1
      else (case r0 of
         [] \<Rightarrow> 0
       | b1 # r1 \<Rightarrow>
          if in_range 194 223 b0 then (if cont b1 then 2 else 0)
          else (case r1 of
             [] \<Rightarrow> 0
           | b2 # r2 \<Rightarrow>
              if in_range 224 239 b0 then
                (if in_range (if b0 = 224 then 160 else 128) (if b0 = 237 then 159 else 191) b1 \<and> cont b2
                 then 3 else 0)
              else (case r2 of
                 [] \<Rightarrow> 0
               | b3 # r3 \<Rightarrow>
                  if in_range 240 244 b0 \<and>
                     in_range (if b0 = 240 then 144 else 128) (if b0 = 244 then 143 else 191) b1 \<and>
                     cont b2 \<and> cont b3 then 4 else 0))))"

definition hex_escape :: "nat \<Rightarrow> string" where
  "hex_escape b = [CHR 0x5C] @ ''u00'' @ [hex_digit (b div 16), hex_digit (b mod 16)]"

text \<open>\<open>appendString\<close> with \<open>escapeHTML\<close>: quote, backslash, the short escapes, other control bytes and \<open><>&\<close>.\<close>

definition json_ascii :: "char \<Rightarrow> string" where
  "json_ascii c = (let b = byte_of c in
     if b = 34 \<or> b = 92 then [CHR 0x5C, c]
     else if b = 8 then CHR 0x5C # ''b''
     else if b = 12 then CHR 0x5C # ''f''
     else if b = 10 then CHR 0x5C # ''n''
     else if b = 13 then CHR 0x5C # ''r''
     else if b = 9 then CHR 0x5C # ''t''
     else if b < 32 \<or> b = 60 \<or> b = 62 \<or> b = 38 then hex_escape b
     else [c])"

function json_body :: "string \<Rightarrow> string" where
  "json_body s = (case s of
     [] \<Rightarrow> []
   | c # cs \<Rightarrow>
      (let n = utf8_len (map byte_of s) in
       if n = 0 then (CHR 0x5C # ''ufffd'') @ json_body cs
       else if n = 1 then json_ascii c @ json_body cs
       else if map byte_of (take 3 s) = [226, 128, 168] then (CHR 0x5C # ''u2028'') @ json_body (drop 3 s)
       else if map byte_of (take 3 s) = [226, 128, 169] then (CHR 0x5C # ''u2029'') @ json_body (drop 3 s)
       else take n s @ json_body (drop n s)))"
  by pat_completeness auto
termination
  by (relation "measure length") auto

declare json_body.simps [simp del]

definition json_string :: "string \<Rightarrow> string" where
  "json_string s = CHR 0x22 # json_body s @ [CHR 0x22]"

section \<open>Lemmas\<close>

definition plain :: "char \<Rightarrow> bool" where
  "plain c = (32 \<le> byte_of c \<and> byte_of c < 128 \<and> byte_of c \<notin> {34, 92, 60, 62, 38})"

lemma utf8_len_ascii: "b < 128 \<Longrightarrow> utf8_len (b # bs) = 1"
  by (simp add: utf8_len_def)

lemma json_body_ascii: "byte_of c < 128 \<Longrightarrow> json_body (c # cs) = json_ascii c @ json_body cs"
  by (subst json_body.simps) (simp add: utf8_len_ascii)

lemma json_body_plain: "list_all plain s \<Longrightarrow> json_body s = s"
proof (induction s)
  case Nil
  show ?case by (simp add: json_body.simps)
next
  case (Cons c cs)
  then have "json_ascii c = [c]" by (auto simp: plain_def json_ascii_def Let_def)
  with Cons show ?case by (simp add: json_body_ascii plain_def)
qed

lemma json_string_plain: "list_all plain s \<Longrightarrow> json_string s = CHR 0x22 # s @ [CHR 0x22]"
  by (simp add: json_string_def json_body_plain)

text \<open>No control byte survives, so a stored result is one line of printable text.\<close>

lemma byte_hex_digit: "d < 16 \<Longrightarrow> 48 \<le> byte_of (hex_digit d)"
  by (auto simp: byte_of_def hex_digit_def of_char_of)

lemma json_ascii_no_control: "x \<in> set (json_ascii c) \<Longrightarrow> 32 \<le> byte_of x"
proof -
  have "byte_of c < 16 * 16" by (simp add: byte_of_def)
  then have "byte_of c div 16 < 16" by (rule less_mult_imp_div_less)
  then have "32 \<le> byte_of (hex_digit (byte_of c div 16))" "32 \<le> byte_of (hex_digit (byte_of c mod 16))"
    using byte_hex_digit [of "byte_of c div 16"] byte_hex_digit [of "byte_of c mod 16"] by simp_all
  moreover assume "x \<in> set (json_ascii c)"
  ultimately show ?thesis
    by (auto simp: json_ascii_def hex_escape_def Let_def split: if_splits) (simp_all add: byte_of_def)
qed

end
