(* ===== verification/Task_Manager.thy ===== *)
theory Task_Manager
  imports Task_Repository Task_Queue Go_Json
begin

text \<open>
  \<open>Manager\<close> of \<open>task/manager/manager.go\<close>: it writes tasks through the repository and announces
  work on the queue. An operation takes the table operations \<open>T\<close>, the queue configuration \<open>c\<close>,
  the stream commands \<open>R\<close> and the two states, the database \<open>d\<close> and the Redis server \<open>q\<close>. Queue
  messages are not part of the SQL transaction: a rollback leaves them in the stream. Logging is
  left out.
\<close>

section \<open>Construction\<close>

record ManagerConfig =
  mc_KeyPrefix :: string
  mc_QueueBlockTime :: duration
  mc_QueueSyncInterval :: duration

definition DefaultManagerConfig :: ManagerConfig where
  "DefaultManagerConfig = \<lparr>mc_KeyPrefix = ''task:'', mc_QueueBlockTime = 5 * time_Second,
     mc_QueueSyncInterval = time_Minute\<rparr>"

definition ManagerConfig_Validate :: "ManagerConfig \<Rightarrow> ManagerConfig res" where
  "ManagerConfig_Validate c =
     (if mc_KeyPrefix c = [] then Inl (Err ''manager config: key prefix cannot be empty'')
      else (let c1 = (if mc_QueueBlockTime c \<le> 0 then c\<lparr>mc_QueueBlockTime := 5 * time_Second\<rparr> else c);
                c2 = (if mc_QueueSyncInterval c1 \<le> 0 then c1\<lparr>mc_QueueSyncInterval := time_Minute\<rparr> else c1)
            in Inr c2))"

text \<open>The struct: \<open>mg_routines\<close> are the goroutines counted by the wait group.\<close>

record Manager =
  mg_config :: ManagerConfig
  mg_queue :: QueueConfig
  mg_started :: bool
  mg_routines :: "string list"

text \<open>\<open>NewManager\<close>: an error of the configuration is returned, a missing Redis client panics (\<open>None\<close>).\<close>

definition NewManager :: "ManagerConfig option \<Rightarrow> bool \<Rightarrow> bool \<Rightarrow> Manager res option" where
  "NewManager config db redisClient =
     (let c = (case config of None \<Rightarrow> DefaultManagerConfig | Some c \<Rightarrow> c) in
      case ManagerConfig_Validate c of
        Inl e \<Rightarrow> Some (Inl (Wrapf ''invalid manager config'' e))
      | Inr c' \<Rightarrow>
          (case NewQueue (Some \<lparr>qc_KeyPrefix = mc_KeyPrefix c', qc_BlockTime = mc_QueueBlockTime c',
                   qc_MaxRetries = 0, qc_RedisClient = redisClient, qc_DB = db\<rparr>) of
             None \<Rightarrow> None
           | Some qc \<Rightarrow> Some (Inr \<lparr>mg_config = c', mg_queue = qc, mg_started = False, mg_routines = []\<rparr>)))"

text \<open>
  The package variables \<open>stdManager\<close> and \<open>once\<close>. \<open>InitManager\<close> runs \<open>NewManager\<close> the first time
  only; a later call returns nil whatever happened then.
\<close>

record StdManager =
  sm_done :: bool
  sm_manager :: "Manager option"

definition InitManager ::
  "ManagerConfig option \<Rightarrow> bool \<Rightarrow> bool \<Rightarrow> StdManager \<Rightarrow> (unit res \<times> StdManager) option" where
  "InitManager config db redisClient s =
     (if sm_done s then Some (Inr (), s)
      else case NewManager config db redisClient of
        None \<Rightarrow> None
      | Some (Inl e) \<Rightarrow> Some (Inl e, s\<lparr>sm_done := True, sm_manager := None\<rparr>)
      | Some (Inr m) \<Rightarrow> Some (Inr (), s\<lparr>sm_done := True, sm_manager := Some m\<rparr>))"

definition GetManager :: "StdManager \<Rightarrow> Manager option" where
  "GetManager s = sm_manager s"

section \<open>Creating tasks\<close>

text \<open>
  \<open>push_all\<close> is the loop \<open>for .. { if err := queue.Push(..); err != nil { return fmt.Errorf(..) } }\<close>.
\<close>

fun push_all :: "QueueConfig \<Rightarrow> 'q stream_ops \<Rightarrow> gotime \<Rightarrow> (string \<Rightarrow> string) \<Rightarrow> string list \<Rightarrow> 'q \<Rightarrow> unit res \<times> 'q" where
  "push_all c R now msg [] q = (Inr (), q)"
| "push_all c R now msg (ty # tys) q = (case Push c R now ty q of
     (Inl e, q') \<Rightarrow> (Inl (Wrapf (msg ty) e), q')
   | (Inr _, q') \<Rightarrow> push_all c R now msg tys q')"

text \<open>
  \<open>sort.Slice\<close> gives some ascending permutation; the stable one is taken. The stored tasks carry the
  steps and types of the sorted slice.
\<close>

definition mgr_CreateTasks ::
  "QueueConfig \<Rightarrow> 'q stream_ops \<Rightarrow> 'd task_table \<Rightarrow> gotime \<Rightarrow> TaskEntity list \<Rightarrow> 'd \<Rightarrow> 'q \<Rightarrow> unit res \<times> 'd \<times> 'q" where
  "mgr_CreateTasks c R T now tasks d q =
     (if tasks = [] then (Inr (), d, q)
      else (let sorted = sort_key te_Step tasks in
        case repo_CreateTasks T now sorted d of
          Inl e \<Rightarrow> (Inl (Wrapf ''failed to batch create tasks'' e), d, q)
        | Inr (created, d') \<Rightarrow>
            (let firstStep = te_Step (hd created);
                 (r, q') = push_all c R now (\<lambda>ty. ''failed to push task '' @ ty @ '' to queue'')
                   (map te_TaskType (filter (\<lambda>t. te_Step t = firstStep) created)) q
             in (r, d', q'))))"

section \<open>Delegation to the repository and the queue\<close>

definition GetTask :: "'d task_table \<Rightarrow> nat \<Rightarrow> 'd \<Rightarrow> TaskEntity res" where
  "GetTask T k d = GetTaskByID T k d"

text \<open>The argument is an \<open>interface{}\<close>: a value of another type is \<open>None\<close>.\<close>

definition mgr_SaveTask :: "'d task_table \<Rightarrow> gotime \<Rightarrow> TaskEntity option \<Rightarrow> 'd \<Rightarrow> 'd res" where
  "mgr_SaveTask T now task d = (case task of
     None \<Rightarrow> Inl (Err ''invalid task type: expected *model.TaskEntity'')
   | Some t \<Rightarrow> SaveTask T now t d)"

definition mgr_CancelTask :: "'d task_table \<Rightarrow> gotime \<Rightarrow> nat \<Rightarrow> string \<Rightarrow> 'd \<Rightarrow> 'd res" where
  "mgr_CancelTask T now taskID reason d = repo_CancelTask T now taskID reason d"

definition PushToQueue :: "QueueConfig \<Rightarrow> 'q stream_ops \<Rightarrow> gotime \<Rightarrow> string \<Rightarrow> 'q \<Rightarrow> unit res \<times> 'q" where
  "PushToQueue c R now taskType q = Push c R now taskType q"

definition PopFromQueue :: "QueueConfig \<Rightarrow> 'q stream_ops \<Rightarrow> string \<Rightarrow> string \<Rightarrow> 'q \<Rightarrow> string res \<times> 'q" where
  "PopFromQueue c R taskType workerID q = Pop c R taskType workerID q"

definition mgr_CheckAndTimeoutTasks ::
  "sql_lang \<Rightarrow> QueueConfig \<Rightarrow> 'q stream_ops \<Rightarrow> 'd task_table \<Rightarrow> gotime \<Rightarrow> 'd \<Rightarrow> 'q \<Rightarrow> unit res \<times> 'd \<times> 'q" where
  "mgr_CheckAndTimeoutTasks L c R T now d q =
     repo_CheckAndTimeoutTasks L T now
       (\<lambda>task q. if CanRetry task then
            (case Push c R now (te_TaskType task) q of
               (Inl e, q') \<Rightarrow> (Inl (Wrapf ''failed to push retry task'' e), q')
             | (Inr _, q') \<Rightarrow> (Inr (), q'))
          else (Inr (), q)) d q"

fun push_each :: "QueueConfig \<Rightarrow> 'q stream_ops \<Rightarrow> gotime \<Rightarrow> string list \<Rightarrow> 'q \<Rightarrow> 'q" where
  "push_each c R now [] q = q"
| "push_each c R now (ty # tys) q = push_each c R now tys (snd (Push c R now ty q))"

definition ReassignDeadWorkerTasks ::
  "QueueConfig \<Rightarrow> 'q stream_ops \<Rightarrow> 'd task_table \<Rightarrow> gotime \<Rightarrow> string \<Rightarrow> string \<Rightarrow> nat \<Rightarrow> 'd \<Rightarrow> 'q \<Rightarrow> unit res \<times> 'd \<times> 'q" where
  "ReassignDeadWorkerTasks c R T now taskType workerID taskID d q =
     (case HandleDeadWorkerTasks T now taskType workerID taskID d of
        Inl e \<Rightarrow> (Inl (Wrapf ''failed to handle dead worker tasks'' e), d, q)
      | Inr (taskTypes, d') \<Rightarrow> (Inr (), d', push_each c R now taskTypes q))"

section \<open>Task flow\<close>

definition GetNextStepPendingTaskTypes :: "'d task_table \<Rightarrow> nat \<Rightarrow> string \<Rightarrow> 'd \<Rightarrow> string list res" where
  "GetNextStepPendingTaskTypes T subjectID appGroup d = (case GetNextStepTasks T subjectID appGroup d of
     Inl e \<Rightarrow> Inl e
   | Inr nextTasks \<Rightarrow> Inr (remdups (map te_TaskType (filter IsPending nextTasks))))"

definition GetNextTask ::
  "QueueConfig \<Rightarrow> 'q stream_ops \<Rightarrow> 'd task_table \<Rightarrow> (nat \<Rightarrow> bool) \<Rightarrow> gotime \<Rightarrow> string \<Rightarrow> string \<Rightarrow> 'd \<Rightarrow> 'q
     \<Rightarrow> TaskEntity res \<times> 'd \<times> 'q" where
  "GetNextTask c R T locked now taskType workerID d q = (case Pop c R taskType workerID q of
     (Inl e, q') \<Rightarrow> (Inl e, d, q')
   | (Inr _, q') \<Rightarrow> (case GetOnePendingTask T locked now taskType workerID d of
        Inl e \<Rightarrow> (Inl e, d, q')
      | Inr (t, d') \<Rightarrow> (Inr t, d', q')))"

definition triggerNextStepTaskInTx ::
  "QueueConfig \<Rightarrow> 'q stream_ops \<Rightarrow> 'd task_table \<Rightarrow> gotime \<Rightarrow> TaskEntity \<Rightarrow> 'd \<Rightarrow> 'q \<Rightarrow> unit res \<times> 'q" where
  "triggerNextStepTaskInTx c R T now completed d q =
     (case GetNextStepPendingTaskTypes T (te_SubjectID completed) (te_AppGroup completed) d of
        Inl e \<Rightarrow> (Inl (Wrapf ''failed to get next step task types'' e), q)
      | Inr nextTaskTypes \<Rightarrow> push_all c R now (\<lambda>_. ''failed to push next step task'') nextTaskTypes q)"

definition triggerNextNormalTaskInTx ::
  "QueueConfig \<Rightarrow> 'q stream_ops \<Rightarrow> 'd task_table \<Rightarrow> gotime \<Rightarrow> string \<Rightarrow> 'd \<Rightarrow> 'q \<Rightarrow> unit res \<times> 'q" where
  "triggerNextNormalTaskInTx c R T now taskType d q = (case GetPendingTaskCount T taskType d of
     Inl e \<Rightarrow> (Inl (Wrapf ''failed to get pending task count'' e), q)
   | Inr n \<Rightarrow>
       (if 0 < n then
          (case Push c R now taskType q of
             (Inl e, q') \<Rightarrow> (Inl (Wrapf ''failed to push next normal task'' e), q')
           | (Inr _, q') \<Rightarrow> (Inr (), q'))
        else (Inr (), q)))"

definition handleTaskFlowInTx ::
  "QueueConfig \<Rightarrow> 'q stream_ops \<Rightarrow> 'd task_table \<Rightarrow> gotime \<Rightarrow> TaskEntity \<Rightarrow> 'd \<Rightarrow> 'q \<Rightarrow> unit res \<times> 'q" where
  "handleTaskFlowInTx c R T now task d q =
     (if CanRetry task then
        (case Push c R now (te_TaskType task) q of
           (Inl e, q') \<Rightarrow> (Inl (Wrapf ''failed to push retry task'' e), q')
         | (Inr _, q') \<Rightarrow> (Inr (), q'))
      else if IsSuccess task then
        (if te_AppGroup task \<noteq> [] then triggerNextStepTaskInTx c R T now task d q
         else triggerNextNormalTaskInTx c R T now (te_TaskType task) d q)
      else (Inr (), q))"

definition DeadlineExceeded :: gerror where
  "DeadlineExceeded = Err ''context deadline exceeded''"

definition toJSON :: "string \<Rightarrow> string" where
  "toJSON v = json_string v"

text \<open>The switch on \<open>execErr\<close> compares with \<open>==\<close>, so a wrapped deadline error is a failure.\<close>

definition apply_result :: "gotime \<Rightarrow> string \<Rightarrow> gerror option \<Rightarrow> TaskEntity \<Rightarrow> TaskEntity" where
  "apply_result now result execErr t = (case execErr of
     None \<Rightarrow> MarkAsSuccess now (toJSON result) t
   | Some e \<Rightarrow> (if e = DeadlineExceeded then MarkAsTimeout now t else MarkAsFailed now (err_text e) t))"

text \<open>
  The read at the start and the flow handler go through \<open>m.repo\<close>, whose connection is not the
  transaction: they see the committed state \<open>d\<close>, not the row saved by \<open>tx\<close>. The callback runs after
  the commit, on a world \<open>'w\<close> of its own, and its error is only logged.
\<close>

definition SaveTaskResult ::
  "QueueConfig \<Rightarrow> 'q stream_ops \<Rightarrow> 'd task_table \<Rightarrow> gotime \<Rightarrow> nat \<Rightarrow> string \<Rightarrow> gerror option \<Rightarrow>
     ('w \<Rightarrow> unit res \<times> 'w) option \<Rightarrow> 'd \<Rightarrow> 'q \<Rightarrow> 'w \<Rightarrow> unit res \<times> 'd \<times> 'q \<times> 'w" where
  "SaveTaskResult c R T now taskID result execErr onCallback d q w =
     (case GetTaskByID T taskID d of
        Inl e \<Rightarrow> (Inl (Wrapf ''failed to get task'' e), d, q, w)
      | Inr t0 \<Rightarrow>
          (let t = stamp_updated now (apply_result now result execErr t0) in
           case tb_save T d t of
             Inl e \<Rightarrow> (Inl (Wrapf ''failed to save task'' e), d, q, w)
           | Inr d' \<Rightarrow>
               (case handleTaskFlowInTx c R T now t d q of
                  (Inl e, q') \<Rightarrow> (Inl (Wrapf ''failed to handle task flow'' e), d, q', w)
                | (Inr _, q') \<Rightarrow>
                    (case onCallback of
                       None \<Rightarrow> (Inr (), d', q', w)
                     | Some cb \<Rightarrow> (Inr (), d', q', snd (cb w))))))"

section \<open>Background service\<close>

definition Start :: "Manager \<Rightarrow> unit res \<times> Manager" where
  "Start m = (if mg_started m then (Inl (Err ''queue syncer already started''), m)
     else (Inr (), m\<lparr>mg_routines := mg_routines m @ [''queue-syncer'', ''timeout-checker''], mg_started := True\<rparr>))"

text \<open>\<open>exited\<close>: the wait group drained within thirty seconds of the cancellation.\<close>

definition Stop :: "bool \<Rightarrow> Manager \<Rightarrow> unit res \<times> Manager" where
  "Stop exited m = (if \<not> mg_started m then (Inl (Err ''queue syncer not started''), m)
     else (Inr (), m\<lparr>mg_routines := (if exited then [] else mg_routines m), mg_started := False\<rparr>))"

definition syncTaskTypeQueue ::
  "QueueConfig \<Rightarrow> 'q stream_ops \<Rightarrow> 'd task_table \<Rightarrow> gotime \<Rightarrow> string \<Rightarrow> 'd \<Rightarrow> 'q \<Rightarrow> unit res \<times> 'q" where
  "syncTaskTypeQueue c R T now taskType d q = (case GetPendingTaskCount T taskType d of
     Inl e \<Rightarrow> (Inl (Wrapf ''failed to get task count'' e), q)
   | Inr taskCount \<Rightarrow> (Inr (), if 0 < taskCount then snd (Push c R now taskType q) else q))"

fun sync_types :: "QueueConfig \<Rightarrow> 'q stream_ops \<Rightarrow> 'd task_table \<Rightarrow> gotime \<Rightarrow> string list \<Rightarrow> 'd \<Rightarrow> 'q \<Rightarrow> 'q" where
  "sync_types c R T now [] d q = q"
| "sync_types c R T now (ty # tys) d q = sync_types c R T now tys d (snd (syncTaskTypeQueue c R T now ty d q))"

definition SyncQueueCount ::
  "QueueConfig \<Rightarrow> 'q stream_ops \<Rightarrow> 'd task_table \<Rightarrow> gotime \<Rightarrow> 'd \<Rightarrow> 'q \<Rightarrow> (unit res \<times> 'q) option" where
  "SyncQueueCount c R T now d q = (case GetAllTaskTypes c R q of
     None \<Rightarrow> None
   | Some (Inl e) \<Rightarrow> Some (Inl e, q)
   | Some (Inr types) \<Rightarrow> Some (Inr (), sync_types c R T now types d q))"

text \<open>One tick of each background loop, on the master only.\<close>

definition queueSyncRoutine ::
  "QueueConfig \<Rightarrow> 'q stream_ops \<Rightarrow> 'd task_table \<Rightarrow> gotime \<Rightarrow> bool \<Rightarrow> 'd \<Rightarrow> 'q \<Rightarrow> 'q option" where
  "queueSyncRoutine c R T now isMaster d q =
     (if isMaster then map_option snd (SyncQueueCount c R T now d q) else Some q)"

definition timeoutCheckRoutine ::
  "sql_lang \<Rightarrow> QueueConfig \<Rightarrow> 'q stream_ops \<Rightarrow> 'd task_table \<Rightarrow> gotime \<Rightarrow> bool \<Rightarrow> 'd \<Rightarrow> 'q \<Rightarrow> 'd \<times> 'q" where
  "timeoutCheckRoutine L c R T now isMaster d q =
     (if isMaster then snd (mgr_CheckAndTimeoutTasks L c R T now d q) else (d, q))"

end
