(* ===== verification/Task_Manager_Correct.thy ===== *)
theory Task_Manager_Correct
  imports Task_Manager Task_Repository_Correct
begin

text \<open>
  The correctness properties of the manager: what each operation does to the task table and how
  many messages it adds to each task type's stream. They hold over any task table and any Redis
  server that keep the contracts, collected in the locale \<open>task_system\<close>.
\<close>

section \<open>The two stores together\<close>

locale task_system = task_store T rows tinv + redis_stream R strm grp qinv
  for T :: "('d, TaskEntity) table_ops" and rows :: "'d \<Rightarrow> TaskEntity list" and tinv :: "'d \<Rightarrow> bool"
    and R :: "'q stream_ops" and strm :: "'q \<Rightarrow> string \<Rightarrow> entry list"
    and grp :: "'q \<Rightarrow> string \<Rightarrow> string \<Rightarrow> nat option" and qinv :: "'q \<Rightarrow> bool"

interpretation mem_system: task_system mem_db id "mem_wf te_ID" mem_streams mem_strm mem_grp mem_qinv
  by unfold_locales

text \<open>Stores that are up: reads and appends succeed.\<close>

definition reads_ok :: "('d, 'r) table_ops \<Rightarrow> bool" where
  "reads_ok T \<longleftrightarrow> (\<forall>d P le. is_ok (tb_find T d P le)) \<and> (\<forall>d P. is_ok (tb_count T d P))"

definition adds_ok :: "'q stream_ops \<Rightarrow> bool" where
  "adds_ok R \<longleftrightarrow> (\<forall>q k f. is_ok (sx_add R q k f))"

lemma mem_reads_ok: "reads_ok (mem_table pk setpk)"
  by (simp add: reads_ok_def mem_table_def)

lemma mem_adds_ok: "adds_ok mem_streams"
  by (simp add: adds_ok_def mem_streams_def mem_add_def)

lemma Push_up:
  assumes "adds_ok R"
  shows "fst (Push c R now ty q) = Inr ()"
proof -
  from assms obtain m q' where "sx_add R q (streamKey c ty)
      [(''task_type'', ty), (''timestamp'', itoa (unix_seconds now))] = Inr (m, q')"
    unfolding adds_ok_def is_ok_iff by (metis surj_pair)
  then show ?thesis by (simp add: Push_def)
qed

context task_system
begin

lemma push_all_counts:
  assumes "qinv q" "push_all c R now msg tys q = (Inr (), q')"
  shows "qinv q' \<and> (\<forall>u. length (strm q' (streamKey c u)) = length (strm q (streamKey c u)) + count_list tys u)"
  using assms
proof (induction tys arbitrary: q)
  case (Cons ty tys)
  from Cons.prems(2) obtain q1 where p: "Push c R now ty q = (Inr (), q1)" "push_all c R now msg tys q1 = (Inr (), q')"
    by (auto split: prod.splits sum.splits)
  have "qinv q1" using Push_qinv [OF Cons.prems(1), of c now ty] p(1) by simp
  from Cons.IH [OF this p(2)] Push_length [OF Cons.prems(1) p(1)] show ?case by auto
qed simp

lemma Push_count:
  assumes "qinv q" "adds_ok R"
  shows "qinv (snd (Push c R now ty q)) \<and>
    length (strm (snd (Push c R now ty q)) (streamKey c u)) = length (strm q (streamKey c u)) + (if u = ty then 1 else 0)"
proof -
  have "Push c R now ty q = (Inr (), snd (Push c R now ty q))"
    using Push_up [OF assms(2), of c now ty q] by (metis prod.collapse)
  from Push_length [OF assms(1) this] Push_qinv [OF assms(1)] show ?thesis by simp
qed

end

section \<open>Creating tasks\<close>

lemma created_fields:
  "te_Step (set_task_ID k t) = te_Step t" "te_TaskType (set_task_ID k t) = te_TaskType t"
  "te_Step (stamp_created now t) = te_Step t" "te_TaskType (stamp_created now t) = te_TaskType t"
  "te_Step (default_status t) = te_Step t" "te_TaskType (default_status t) = te_TaskType t"
  by (simp_all add: set_task_ID_def stamp_created_def default_status_def)

lemma created_like:
  assumes "list_all2 (\<lambda>t u. u = (let s = stamp_created now (default_status t) in
      if te_ID t = 0 then set_task_ID (te_ID u) s else s)) ts us"
  shows "map te_Step us = map te_Step ts" "map te_TaskType us = map te_TaskType ts" "length us = length ts"
proof -
  have same: "te_Step u = te_Step t \<and> te_TaskType u = te_TaskType t"
    if "u = (let s = stamp_created now (default_status t) in if te_ID t = 0 then set_task_ID (te_ID u) s else s)" for t u
    using arg_cong [OF that, of te_Step] arg_cong [OF that, of te_TaskType]
    by (simp only: Let_def if_distrib [of te_Step] if_distrib [of te_TaskType] created_fields if_cancel simp_thms)
  have "list_all2 (\<lambda>t u. te_Step u = te_Step t \<and> te_TaskType u = te_TaskType t) ts us"
    by (rule list_all2_mono [OF assms]) (rule same)
  then show "map te_Step us = map te_Step ts" "map te_TaskType us = map te_TaskType ts" "length us = length ts"
    by (induction rule: list_all2_induct) simp_all
qed

lemma count_types_of_step:
  "map te_Step us = map te_Step ts \<Longrightarrow> map te_TaskType us = map te_TaskType ts \<Longrightarrow>
   count_list (map te_TaskType (filter (\<lambda>t. te_Step t = s) us)) ty =
   length (filter (\<lambda>t. te_TaskType t = ty \<and> te_Step t = s) ts)"
proof (induction us arbitrary: ts)
  case (Cons u us)
  then obtain t ts' where "ts = t # ts'" by (cases ts) auto
  with Cons show ?case by auto
qed simp

lemma hd_sort_key_Min:
  assumes "ts \<noteq> []"
  shows "te_Step (hd (sort_key te_Step ts)) = Min (te_Step ` set ts)"
proof -
  let ?s = "sort_key te_Step ts"
  have "sorted (map te_Step ?s)" by simp
  moreover obtain x xs where x: "?s = x # xs" using assms by (metis length_0_conv length_sort neq_Nil_conv)
  ultimately have "\<forall>y \<in> set ?s. te_Step x \<le> te_Step y" by auto
  then show ?thesis using x
    by (intro Min_eqI [symmetric]) (auto simp flip: set_sort [of te_Step ts])
qed

text \<open>
  Creation announces the first step (C8): a successful \<open>CreateTasks\<close> has added one row per task to
  the table, and one message per task of the lowest step to the stream of that task's type; no other
  stream of the queue has grown.
\<close>

theorem mgr_CreateTasks_announces:
  assumes "task_system T rows tinv R strm grp qinv" "tinv d" "qinv q" "ts \<noteq> []"
    and "mgr_CreateTasks c R T now ts d q = (Inr (), d', q')"
  shows "(\<exists>us. rows d' = rows d @ us \<and> length us = length ts) \<and>
    (\<forall>ty. length (strm q' (streamKey c ty)) = length (strm q (streamKey c ty)) +
       length (filter (\<lambda>t. te_TaskType t = ty \<and> te_Step t = Min (te_Step ` set ts)) ts))"
proof -
  have store: "task_store T rows tinv" using assms(1) by (rule task_system.axioms)
  let ?s = "sort_key te_Step ts"
  from assms(4,5) obtain us where r: "repo_CreateTasks T now ?s d = Inr (us, d')"
    and p: "push_all c R now (\<lambda>ty. ''failed to push task '' @ ty @ '' to queue'')
        (map te_TaskType (filter (\<lambda>t. te_Step t = te_Step (hd us)) us)) q = (Inr (), q')"
    by (auto simp: mgr_CreateTasks_def Let_def split: sum.splits prod.splits)
  from CreateTasks_rows [OF store assms(2) r] have rows: "rows d' = rows d @ us"
    and like: "map te_Step us = map te_Step ?s" "map te_TaskType us = map te_TaskType ?s" "length us = length ?s"
    using created_like by blast+
  have "us \<noteq> []" using like(3) assms(4) by auto
  then have hd: "te_Step (hd us) = Min (te_Step ` set ts)"
    using like(1) hd_sort_key_Min [OF assms(4)] by (metis hd_map map_is_Nil_conv)
  have cnt: "length (filter P ?s) = length (filter P ts)" for P
    by (metis mset_filter mset_sort size_mset)
  from task_system.push_all_counts [OF assms(1,3) p] count_types_of_step [OF like(1,2)] hd cnt
  have "\<forall>ty. length (strm q' (streamKey c ty)) = length (strm q (streamKey c ty)) +
       length (filter (\<lambda>t. te_TaskType t = ty \<and> te_Step t = Min (te_Step ` set ts)) ts)" by simp
  with rows like(3) show ?thesis by auto
qed

abbreviation sample_new :: "TaskEntity list" where
  "sample_new \<equiv> [sample_task 0 ''b'' [] 2 0, sample_task 0 ''a'' [] 1 0, sample_task 0 ''a'' [] 1 4]"

lemma sample_create_ok:
  "fst (mgr_CreateTasks DefaultQueueConfig mem_streams mem_db 9 sample_new sample_rows empty_server) = Inr ()"
  by code_simp

lemma split3: "fst x = a \<Longrightarrow> x = (a, fst (snd x), snd (snd x))"
  by (cases x) auto

theorem mgr_CreateTasks_announces_witness:
  "length (mem_strm (snd (snd (mgr_CreateTasks DefaultQueueConfig mem_streams mem_db 9 sample_new sample_rows empty_server)))
     (streamKey DefaultQueueConfig ''a'')) = 2"
proof -
  note m = mgr_CreateTasks_announces [OF mem_system.task_system_axioms sample_wf mem_qinv_empty _ split3 [OF sample_create_ok]]
  have "length (filter (\<lambda>t. te_TaskType t = ''a'' \<and> te_Step t = Min (te_Step ` set sample_new)) sample_new) = 2"
    by code_simp
  moreover have "length (mem_strm empty_server (streamKey DefaultQueueConfig ''a'')) = 0" by code_simp
  ultimately show ?thesis using conjunct2 [OF m, rule_format, of "''a''"] by simp
qed

text \<open>
  Invalid input changes nothing: a task that fails validation anywhere in the list makes
  \<open>CreateTasks\<close> return an error with the table and the queue untouched.
\<close>

theorem mgr_CreateTasks_invalid:
  assumes "t \<in> set ts" "\<not> is_ok (Validate t)"
  shows "\<exists>e. mgr_CreateTasks c R T now ts d q = (Inl e, d, q)"
proof -
  let ?s = "sort_key te_Step ts"
  have "\<not> list_all (\<lambda>t. is_ok (Validate t)) ?s" using assms by (auto simp: list_all_iff)
  then obtain e where "prepare_tasks ?s = Inl e"
    using prepare_tasks_Inr_iff [of ?s] by (cases "prepare_tasks ?s") auto
  moreover have "?s \<noteq> []" "ts \<noteq> []" using assms(1) by (auto simp flip: set_empty)
  ultimately show ?thesis by (simp add: mgr_CreateTasks_def repo_CreateTasks_def)
qed

theorem mgr_CreateTasks_invalid_witness:
  "\<exists>e. mgr_CreateTasks DefaultQueueConfig mem_streams mem_db 9 [sample_task 0 ''a'' [] 1 0, zero_task] sample_rows empty_server
      = (Inl e, sample_rows, empty_server)"
proof -
  have "\<not> is_ok (Validate zero_task)" by code_simp
  then show ?thesis by (intro mgr_CreateTasks_invalid [of zero_task]) simp
qed

section \<open>Timeouts\<close>

definition times_out :: "gotime \<Rightarrow> TaskEntity \<Rightarrow> bool" where
  "times_out now r \<longleftrightarrow> te_TaskStatus r = TaskStatusRunning \<and> te_DeletedAt r = None \<and>
     (\<exists>s. te_StartAt r = Some s \<and> s + te_Timeout r + 60 * time_Second < now)"

definition retry_push :: "QueueConfig \<Rightarrow> 'q stream_ops \<Rightarrow> gotime \<Rightarrow> TaskEntity \<Rightarrow> 'q \<Rightarrow> unit res \<times> 'q" where
  "retry_push c R now task q = (if CanRetry task then
       (case Push c R now (te_TaskType task) q of
          (Inl e, q') \<Rightarrow> (Inl (Wrapf ''failed to push retry task'' e), q')
        | (Inr _, q') \<Rightarrow> (Inr (), q'))
     else (Inr (), q))"

lemma snd_retry_push:
  "snd (retry_push c R now t q) = (if CanRetry t then snd (Push c R now (te_TaskType t) q) else q)"
  by (auto simp: retry_push_def split: prod.splits sum.splits)

lemma running_condition:
  "BuildCondition L (zero_cond\<lparr>tc_TaskStatus := TaskStatusRunning\<rparr>) r \<longleftrightarrow>
     te_TaskStatus r = TaskStatusRunning \<and> te_DeletedAt r = None"
  by (simp add: BuildCondition_def zero_cond_def not_deleted_def)

context task_system
begin

lemma timeout_callbacks_count:
  assumes "qinv q" "adds_ok R" "reads_ok T" "tinv d"
    and "\<And>k. k \<in> set ks \<Longrightarrow> \<exists>r. row_at te_ID (rows d) k = Some r \<and> not_deleted r"
  shows "length (strm (timeout_callbacks T (retry_push c R now) ks d q) (streamKey c u)) =
    length (strm q (streamKey c u)) +
    length (filter (\<lambda>k. \<exists>r. row_at te_ID (rows d) k = Some r \<and> CanRetry r \<and> te_TaskType r = u) ks)"
  using assms(1,5)
proof (induction ks arbitrary: q)
  case (Cons k ks)
  from Cons.prems(2) obtain r where r: "row_at te_ID (rows d) k = Some r" "not_deleted r" by auto
  have "is_ok (GetByID T k d)" using assms(3) by (simp add: GetByID_def reads_ok_def is_ok_def split: sum.splits)
  then obtain t where t: "GetByID T k d = Inr t" by (auto simp: is_ok_iff)
  from GetByID_row_at [OF assms(4) this] r have "t = r" by simp
  moreover have "te_ID r \<noteq> 0" using r(1) keys_nonzero [OF assms(4)] by (auto dest: row_at_SomeD)
  ultimately have g: "GetTaskByID T k d = Inr r" using t by (simp add: GetTaskByID_def)
  let ?q = "snd (retry_push c R now r q)"
  have q1: "qinv ?q" "length (strm ?q (streamKey c u)) =
      length (strm q (streamKey c u)) + (if CanRetry r \<and> te_TaskType r = u then 1 else 0)"
    using Push_count [OF Cons.prems(1) assms(2)] Cons.prems(1) by (auto simp: snd_retry_push)
  from Cons.IH [OF q1(1)] Cons.prems(2) g q1(2) r(1) show ?case by simp
qed simp

lemma CheckAndTimeout_rows:
  assumes "tinv d" "repo_CheckAndTimeoutTasks L T now cb d q = (Inr (), d', q')"
  shows "\<exists>ids. distinct ids \<and> set ids = te_ID ` {r \<in> set (rows d). times_out now r} \<and> tinv d' \<and>
    rows d' = update_rows (times_out now) (timeout_row now ''task execution timeout (worker heartbeat lost)'') (rows d) \<and>
    q' = timeout_callbacks T cb ids d' q"
proof -
  let ?c = "zero_cond\<lparr>tc_TaskStatus := TaskStatusRunning\<rparr>"
  let ?f = "timeout_row now ''task execution timeout (worker heartbeat lost)''"
  from assms(2) obtain all where f: "tb_find T d (\<lambda>_ r. BuildCondition L ?c r) (cond_order L ?c) = Inr all"
    and c: "filter (overdue now) all = [] \<and> d' = d \<and> q' = q \<or>
      tb_update T d (running_in (map te_ID (filter (overdue now) all))) ?f = Inr d' \<and>
      q' = timeout_callbacks T cb (map te_ID (filter (overdue now) all)) d' q"
    by (auto simp: repo_CheckAndTimeoutTasks_def GetListByCond_def Let_def split: sum.splits if_splits)
  let ?ids = "map te_ID (filter (overdue now) all)"
  have st: "{r \<in> set all. overdue now r} = {r \<in> set (rows d). times_out now r}"
    using find_set [OF assms(1) f] by (auto simp: running_condition times_out_def overdue_iff)
  have ids: "set ?ids = te_ID ` {r \<in> set (rows d). times_out now r}" using st by auto
  have dist: "distinct ?ids" by (rule distinct_map_filter) (rule find_distinct [OF assms(1) f])
  from c have "tinv d' \<and> rows d' = update_rows (times_out now) ?f (rows d) \<and> q' = timeout_callbacks T cb ?ids d' q"
  proof
    assume e: "filter (overdue now) all = [] \<and> d' = d \<and> q' = q"
    then have "\<not> times_out now r" if "r \<in> set (rows d)" for r using st that by (auto simp: filter_empty_conv)
    then have "update_rows (times_out now) ?f (rows d) = rows d" by (rule update_rows_none)
    with e assms(1) show ?thesis by simp
  next
    assume u: "tb_update T d (running_in ?ids) ?f = Inr d' \<and> q' = timeout_callbacks T cb ?ids d' q"
    have "update_rows (running_in ?ids) ?f (rows d) = update_rows (times_out now) ?f (rows d)"
      using running_in_overdue [OF assms(1) ids] by (intro update_rows_cong_on) (auto simp: times_out_def not_deleted_def)
    with u update_rows_ok [OF assms(1)] show ?thesis by auto
  qed
  with dist ids show ?thesis by blast
qed

end

text \<open>
  Timeout sweep (C7): the sweep times out exactly the undeleted running tasks whose time limit
  plus sixty seconds has passed, charging each one attempt, and adds to each type's stream one
  message per timed-out task of that type that has attempts left.
\<close>

theorem CheckAndTimeoutTasks_correct:
  assumes "task_system T rows tinv R strm grp qinv" "tinv d" "qinv q" "reads_ok T" "adds_ok R"
    and "mgr_CheckAndTimeoutTasks L c R T now d q = (Inr (), d', q')"
  shows "rows d' = map (\<lambda>r. if times_out now r
         then r\<lparr>te_TaskStatus := TaskStatusTimeout, te_ErrMsg := ''task execution timeout (worker heartbeat lost)'',
                te_Redo := te_Redo r + 1, te_EndAt := Some now, te_UpdatedAt := Some now\<rparr> else r) (rows d) \<and>
    (\<forall>ty. length (strm q' (streamKey c ty)) = length (strm q (streamKey c ty)) +
       length (filter (\<lambda>r. times_out now r \<and> te_Redo r + 1 < te_MaxRedo r \<and> te_TaskType r = ty) (rows d)))"
proof -
  let ?f = "timeout_row now ''task execution timeout (worker heartbeat lost)''"
  have store: "task_store T rows tinv" and tab: "sql_table T rows tinv te_ID set_task_ID"
    using assms(1) task_system.axioms(1) task_store.axioms by blast+
  have "repo_CheckAndTimeoutTasks L T now (retry_push c R now) d q = (Inr (), d', q')"
    using assms(6) by (simp add: mgr_CheckAndTimeoutTasks_def retry_push_def [abs_def])
  from task_system.CheckAndTimeout_rows [OF assms(1,2) this] obtain ids where ids: "distinct ids"
    "set ids = te_ID ` {r \<in> set (rows d). times_out now r}" "tinv d'" "rows d' = update_rows (times_out now) ?f (rows d)"
    "q' = timeout_callbacks T (retry_push c R now) ids d' q" by blast
  have at: "row_at te_ID (rows d') (te_ID r) = Some (?f r)" if "r \<in> set (rows d)" "times_out now r" for r
    using that row_at_update_rows [of te_ID ?f "times_out now" "rows d"] sql_table.row_at_mem [OF tab assms(2)] ids(4)
    by simp
  have del: "not_deleted (?f r)" if "times_out now r" for r
    using that by (simp add: times_out_def not_deleted_def timeout_row_def stamp_updated_def)
  have len: "length (strm q' (streamKey c ty)) = length (strm q (streamKey c ty)) +
      length (filter (\<lambda>k. \<exists>r. row_at te_ID (rows d') k = Some r \<and> CanRetry r \<and> te_TaskType r = ty) ids)" for ty
    unfolding ids(5)
    by (rule task_system.timeout_callbacks_count [OF assms(1,3,5,4) ids(3)]) (use ids(2) at del in auto)
  have "length (filter (\<lambda>k. \<exists>r. row_at te_ID (rows d') k = Some r \<and> CanRetry r \<and> te_TaskType r = ty) ids) =
      length (filter (\<lambda>r. times_out now r \<and> te_Redo r + 1 < te_MaxRedo r \<and> te_TaskType r = ty) (rows d))" for ty
  proof (rule length_filter_keys [OF ids(1) sql_table.keys_distinct [OF tab assms(2)]])
    have "(\<exists>r'. row_at te_ID (rows d') (te_ID r) = Some r' \<and> CanRetry r' \<and> te_TaskType r' = ty) \<longleftrightarrow>
        te_Redo r + 1 < te_MaxRedo r \<and> te_TaskType r = ty" if "r \<in> set (rows d)" "times_out now r" for r
      using at [OF that] by (simp add: CanRetry_def timeout_row_def stamp_updated_def)
    then show "{k \<in> set ids. \<exists>r. row_at te_ID (rows d') k = Some r \<and> CanRetry r \<and> te_TaskType r = ty} =
        te_ID ` {r \<in> set (rows d). times_out now r \<and> te_Redo r + 1 < te_MaxRedo r \<and> te_TaskType r = ty}"
      unfolding ids(2) by blast
  qed
  with len ids(4) show ?thesis by (simp add: update_rows_def timeout_row_def stamp_updated_def)
qed

abbreviation no_sql :: sql_lang where
  "no_sql \<equiv> \<lparr>sq_where = (\<lambda>_ _ _. True), sq_order = (\<lambda>_ _ _. True)\<rparr>"

lemma sample_timeout_ok:
  "fst (mgr_CheckAndTimeoutTasks no_sql DefaultQueueConfig mem_streams mem_db 200000000000 sample_rows empty_server) = Inr ()"
  by code_simp

theorem CheckAndTimeoutTasks_correct_witness:
  "length (mem_strm (snd (snd (mgr_CheckAndTimeoutTasks no_sql DefaultQueueConfig mem_streams mem_db 200000000000
     sample_rows empty_server))) (streamKey DefaultQueueConfig ''c'')) = 1"
proof -
  note m = CheckAndTimeoutTasks_correct [OF mem_system.task_system_axioms sample_wf mem_qinv_empty mem_reads_ok mem_adds_ok
      split3 [OF sample_timeout_ok]]
  have "length (filter (\<lambda>r. times_out 200000000000 r \<and> te_Redo r + 1 < te_MaxRedo r \<and> te_TaskType r = ''c'') sample_rows) = 1"
    by (simp add: sample_rows_def sample_task_def times_out_def zero_task_def time_Second_def)
  moreover have "length (mem_strm empty_server (streamKey DefaultQueueConfig ''c'')) = 0" by code_simp
  ultimately show ?thesis using conjunct2 [OF m, rule_format, of "''c''"] by simp
qed

section \<open>Results\<close>

lemma apply_result_ID [simp]: "te_ID (apply_result now res e t) = te_ID t"
  by (simp add: apply_result_def split: option.splits)

lemma apply_result_key [simp]: "task_key (apply_result now res e t) = task_key t"
  by (simp add: apply_result_def split: option.splits)

lemma saved_key: "task_key (stamp_updated now (apply_result now res e t)) = task_key t"
  by simp

lemmas saved_fields = task_keyD [OF saved_key] task_keyD [OF apply_result_key]

lemma apply_result_status:
  "te_TaskStatus (apply_result now res e t) = (case e of None \<Rightarrow> TaskStatusSuccess
     | Some x \<Rightarrow> if x = DeadlineExceeded then TaskStatusTimeout else TaskStatusFailed)"
  by (simp add: apply_result_def row_simps split: option.splits)

lemma apply_result_redo:
  "te_Redo (apply_result now res e t) = (case e of None \<Rightarrow> te_Redo t | Some x \<Rightarrow> te_Redo t + 1)"
  by (simp add: apply_result_def row_simps split: option.splits)

lemma SaveTaskResult_Inr:
  assumes "task_store T rows tinv" "tinv d"
    and "SaveTaskResult c R T now k res e cb d q w = (Inr (), d', q', w')"
  obtains r where "row_at te_ID (rows d) k = Some r" "not_deleted r" "tinv d'"
    "rows d' = replace_row te_ID (stamp_updated now (apply_result now res e r)) (rows d)"
    "handleTaskFlowInTx c R T now (stamp_updated now (apply_result now res e r)) d q = (Inr (), q')"
    "w' = (case cb of None \<Rightarrow> w | Some f \<Rightarrow> snd (f w))"
proof -
  from assms(3) obtain r where g: "GetTaskByID T k d = Inr r"
    and s: "tb_save T d (stamp_updated now (apply_result now res e r)) = Inr d'"
    and h: "handleTaskFlowInTx c R T now (stamp_updated now (apply_result now res e r)) d q = (Inr (), q')"
    and w: "w' = (case cb of None \<Rightarrow> w | Some f \<Rightarrow> snd (f w))"
    by (auto simp: SaveTaskResult_def Let_def split: sum.splits prod.splits option.splits)
  note r = task_store.GetTaskByID_Inr [OF assms(1,2) g]
  have tab: "sql_table T rows tinv te_ID set_task_ID" using assms(1) by (simp add: task_store_def)
  have "te_ID (stamp_updated now (apply_result now res e r)) \<in> te_ID ` set (rows d)" using r(2) by simp
  from sql_table.save_row [OF tab assms(2) s this] r h w show thesis by (intro that) auto
qed

lemma saved_row_eq:
  "stamp_updated now (apply_result now res e r) = (case e of
      None \<Rightarrow> r\<lparr>te_TaskStatus := TaskStatusSuccess, te_Result := json_string res, te_EndAt := Some now,
                    te_Cost := cost_since now r, te_UpdatedAt := Some now\<rparr>
    | Some x \<Rightarrow> r\<lparr>te_TaskStatus := (if x = DeadlineExceeded then TaskStatusTimeout else TaskStatusFailed),
                    te_ErrMsg := (if x = DeadlineExceeded then ''task execution timeout'' else err_text x),
                    te_EndAt := Some now, te_Redo := te_Redo r + 1,
                    te_Cost := cost_since now r, te_UpdatedAt := Some now\<rparr>)"
  by (simp add: stamp_updated_def apply_result_def toJSON_def mark_defs split: option.split)

text \<open>
  Results are saved atomically (C4): when \<open>SaveTaskResult\<close> succeeds, the task existed, its row alone
  has changed to the outcome (success with the result in JSON, timeout, or failure with the error
  text; an unsuccessful outcome uses one attempt), and the callback has run once. When it fails,
  the table is unchanged and the callback has not run.
\<close>

theorem SaveTaskResult_atomic:
  assumes "task_store T rows tinv" "tinv d"
  shows "case SaveTaskResult c R T now k res e cb d q w of
      (Inr _, d', q', w') \<Rightarrow> w' = (case cb of None \<Rightarrow> w | Some f \<Rightarrow> snd (f w)) \<and>
        (\<exists>r. row_at te_ID (rows d) k = Some r \<and> te_DeletedAt r = None \<and>
          rows d' = map (\<lambda>x. if te_ID x = k then (case e of
                None \<Rightarrow> r\<lparr>te_TaskStatus := TaskStatusSuccess, te_Result := json_string res, te_EndAt := Some now,
                    te_Cost := cost_since now r, te_UpdatedAt := Some now\<rparr>
              | Some x \<Rightarrow> r\<lparr>te_TaskStatus := (if x = DeadlineExceeded then TaskStatusTimeout else TaskStatusFailed),
                    te_ErrMsg := (if x = DeadlineExceeded then ''task execution timeout'' else err_text x),
                    te_EndAt := Some now, te_Redo := te_Redo r + 1,
                    te_Cost := cost_since now r, te_UpdatedAt := Some now\<rparr>) else x) (rows d))
    | (Inl _, d', q', w') \<Rightarrow> d' = d \<and> w' = w"
proof -
  obtain o1 d' q' w' where s: "SaveTaskResult c R T now k res e cb d q w = (o1, d', q', w')"
    by (metis prod.collapse)
  show ?thesis
  proof (cases o1)
    case (Inl x)
    with s show ?thesis
      by (auto simp: SaveTaskResult_def Let_def split: sum.splits prod.splits option.splits)
  next
    case (Inr u)
    with s have s': "SaveTaskResult c R T now k res e cb d q w = (Inr (), d', q', w')" by simp
    from SaveTaskResult_Inr [OF assms s'] obtain r where r: "row_at te_ID (rows d) k = Some r" "not_deleted r"
      "rows d' = replace_row te_ID (stamp_updated now (apply_result now res e r)) (rows d)"
      "w' = (case cb of None \<Rightarrow> w | Some f \<Rightarrow> snd (f w))" by metis
    then have "te_ID r = k" by (auto dest: row_at_SomeD)
    with r(3) have "rows d' = map (\<lambda>x. if te_ID x = k then stamp_updated now (apply_result now res e r) else x) (rows d)"
      by (simp add: replace_row_def)
    with r(1,2,4) show ?thesis unfolding s' saved_row_eq prod.case sum.case not_deleted_def by blast
  qed
qed

lemma sample_save_ok: "fst (SaveTaskResult DefaultQueueConfig mem_streams mem_db 50 4 ''done'' None
    (Some (\<lambda>n. (Inr (), Suc n))) sample_rows empty_server 0) = Inr ()"
  by code_simp

theorem SaveTaskResult_atomic_witness:
  "snd (snd (snd (SaveTaskResult DefaultQueueConfig mem_streams mem_db 50 4 ''done'' None
    (Some (\<lambda>n. (Inr (), Suc n))) sample_rows empty_server 0))) = 1"
proof -
  let ?x = "SaveTaskResult DefaultQueueConfig mem_streams mem_db 50 4 ''done'' None
    (Some (\<lambda>n. (Inr (), Suc n))) sample_rows empty_server 0"
  obtain d' q' w' where x: "?x = (Inr (), d', q', w')"
    using sample_save_ok by (metis prod.collapse)
  from SaveTaskResult_atomic [OF mem_tasks.task_store_axioms sample_wf,
      where c = DefaultQueueConfig and R = mem_streams and now = 50 and k = 4 and res = "''done''" and e = None and
        cb = "Some (\<lambda>n. (Inr (), Suc n))" and q = empty_server and w = 0, unfolded x prod.case sum.case, THEN conjunct1]
  show ?thesis unfolding x by simp
qed

context task_system
begin

lemma handleTaskFlow_retry:
  assumes "qinv q" "handleTaskFlowInTx c R T now t d q = (Inr (), q')" "\<not> IsSuccess t"
  shows "length (strm q' (streamKey c ty)) = length (strm q (streamKey c ty)) +
     (if CanRetry t \<and> ty = te_TaskType t then 1 else 0)"
proof (cases "CanRetry t")
  case True
  with assms(2) have "Push c R now (te_TaskType t) q = (Inr (), q')"
    by (auto simp: handleTaskFlowInTx_def split: prod.splits sum.splits)
  from Push_length [OF assms(1) this] True show ?thesis by simp
next
  case False
  with assms(2,3) show ?thesis by (simp add: handleTaskFlowInTx_def)
qed

lemma handleTaskFlow_normal:
  assumes "qinv q" "tinv d" "handleTaskFlowInTx c R T now t d q = (Inr (), q')" "IsSuccess t" "te_AppGroup t = []"
  shows "length (strm q' (streamKey c ty)) = length (strm q (streamKey c ty)) +
     (if ty = te_TaskType t \<and> (\<exists>r \<in> set (rows d). pending_where ty (rows d) r) then 1 else 0)"
proof -
  have "\<not> CanRetry t" using assms(4) by (auto simp: CanRetry_def IsSuccess_def)
  with assms(3-5) obtain n where n: "GetPendingTaskCount T (te_TaskType t) d = Inr n"
    and p: "if 0 < n then Push c R now (te_TaskType t) q = (Inr (), q') else q' = q"
    by (auto simp: handleTaskFlowInTx_def triggerNextNormalTaskInTx_def split: sum.splits if_splits prod.splits)
  have "0 < n \<longleftrightarrow> (\<exists>r \<in> set (rows d). pending_where (te_TaskType t) (rows d) r)"
    using GetPendingTaskCount_eq [OF assms(2) n] length_filter_pos_iff by metis
  with p Push_length [OF assms(1)] show ?thesis by (auto split: if_splits)
qed

lemma handleTaskFlow_step:
  assumes "qinv q" "tinv d" "handleTaskFlowInTx c R T now t d q = (Inr (), q')" "IsSuccess t" "te_AppGroup t \<noteq> []"
  obtains ts where "GetNextStepTasks T (te_SubjectID t) (te_AppGroup t) d = Inr ts"
    "\<forall>ty. length (strm q' (streamKey c ty)) = length (strm q (streamKey c ty)) +
       (if \<exists>u \<in> set ts. IsPending u \<and> te_TaskType u = ty then 1 else 0)"
proof -
  have "\<not> CanRetry t" using assms(4) by (auto simp: CanRetry_def IsSuccess_def)
  with assms(3-5) obtain ts where n: "GetNextStepTasks T (te_SubjectID t) (te_AppGroup t) d = Inr ts"
    and p: "push_all c R now (\<lambda>_. ''failed to push next step task'')
       (remdups (map te_TaskType (filter IsPending ts))) q = (Inr (), q')"
    by (auto simp: handleTaskFlowInTx_def triggerNextStepTaskInTx_def GetNextStepPendingTaskTypes_def split: sum.splits)
  have "length (strm q' (streamKey c ty)) = length (strm q (streamKey c ty)) +
       (if \<exists>u \<in> set ts. IsPending u \<and> te_TaskType u = ty then 1 else 0)" for ty
    using push_all_counts [OF assms(1) p] by (auto simp: count_list_distinct)
  with that n show thesis by blast
qed

end

text \<open>
  Retries are announced: a saved failure or timeout adds exactly one message to the task
  type's stream while attempts are left, and none once the last attempt is used; other types'
  streams do not grow.
\<close>

theorem SaveTaskResult_retry:
  assumes "task_system T rows tinv R strm grp qinv" "tinv d" "qinv q"
    and "SaveTaskResult c R T now k res (Some e) cb d q w = (Inr (), d', q', w')"
  shows "\<exists>r. row_at te_ID (rows d) k = Some r \<and>
    (\<forall>ty. length (strm q' (streamKey c ty)) = length (strm q (streamKey c ty)) +
       (if ty = te_TaskType r \<and> te_Redo r + 1 < te_MaxRedo r then 1 else 0))"
proof -
  have store: "task_store T rows tinv" using assms(1) by (rule task_system.axioms)
  from SaveTaskResult_Inr [OF store assms(2,4)] obtain r where r: "row_at te_ID (rows d) k = Some r"
    "handleTaskFlowInTx c R T now (stamp_updated now (apply_result now res (Some e) r)) d q = (Inr (), q')" by metis
  have "\<not> IsSuccess (stamp_updated now (apply_result now res (Some e) r))"
    by (simp add: IsSuccess_def apply_result_status)
  from task_system.handleTaskFlow_retry [OF assms(1,3) r(2) this] r(1) show ?thesis
    by (intro exI [of _ r]) (auto simp: CanRetry_def apply_result_status apply_result_redo saved_fields)
qed

lemma sample_fail_ok: "fst (SaveTaskResult DefaultQueueConfig mem_streams mem_db 50 4 [] (Some (Err ''boom''))
    None sample_rows empty_server ()) = Inr ()"
  by code_simp

lemma split4: "fst x = a \<Longrightarrow> x = (a, fst (snd x), fst (snd (snd x)), snd (snd (snd x)))"
  by (cases x) auto

theorem SaveTaskResult_retry_witness:
  "length (mem_strm (fst (snd (snd (SaveTaskResult DefaultQueueConfig mem_streams mem_db 50 4 [] (Some (Err ''boom''))
    None sample_rows empty_server ())))) (streamKey DefaultQueueConfig ''c'')) = 1"
proof -
  note m = SaveTaskResult_retry [OF mem_system.task_system_axioms sample_wf mem_qinv_empty split4 [OF sample_fail_ok]]
  have "row_at te_ID (id sample_rows) 4 = Some (sample_task 4 ''c'' TaskStatusRunning 2 0)" by code_simp
  moreover have "te_TaskType (sample_task 4 ''c'' TaskStatusRunning 2 0) = ''c''"
    "te_Redo (sample_task 4 ''c'' TaskStatusRunning 2 0) + 1 < te_MaxRedo (sample_task 4 ''c'' TaskStatusRunning 2 0)"
    "length (mem_strm empty_server (streamKey DefaultQueueConfig ''c'')) = 0" by code_simp+
  ultimately show ?thesis using m by auto
qed

text \<open>
  Success of a task without a flow: it adds one message to its own type's stream exactly when
  the committed table still holds an eligible task of that type.
\<close>

theorem SaveTaskResult_normal:
  assumes "task_system T rows tinv R strm grp qinv" "tinv d" "qinv q"
    and "SaveTaskResult c R T now k res None cb d q w = (Inr (), d', q', w')"
    and "row_at te_ID (rows d) k = Some r" "te_AppGroup r = []"
  shows "length (strm q' (streamKey c ty)) = length (strm q (streamKey c ty)) +
       (if ty = te_TaskType r \<and> (\<exists>r2 \<in> set (rows d). pending_where ty (rows d) r2) then 1 else 0)"
proof -
  have store: "task_store T rows tinv" using assms(1) by (rule task_system.axioms)
  from SaveTaskResult_Inr [OF store assms(2,4)] assms(5)
  have h: "handleTaskFlowInTx c R T now (stamp_updated now (apply_result now res None r)) d q = (Inr (), q')"
    by (metis option.inject)
  have "IsSuccess (stamp_updated now (apply_result now res None r))"
    "te_AppGroup (stamp_updated now (apply_result now res None r)) = []"
    using assms(6) by (simp_all add: IsSuccess_def apply_result_status saved_fields)
  from task_system.handleTaskFlow_normal [OF assms(1,3,2) h this] show ?thesis by (simp add: saved_fields)
qed

definition plain_rows :: "TaskEntity list" where
  "plain_rows = [(sample_task 1 ''a'' TaskStatusRunning 0 0)\<lparr>te_AppGroup := []\<rparr>,
     (sample_task 2 ''a'' TaskStatusPending 0 0)\<lparr>te_AppGroup := []\<rparr>]"

lemma plain_save_ok: "mem_wf te_ID plain_rows"
  "fst (SaveTaskResult DefaultQueueConfig mem_streams mem_db 50 1 ''ok'' None None plain_rows empty_server ()) = Inr ()"
  by code_simp+

theorem SaveTaskResult_normal_witness:
  "length (mem_strm (fst (snd (snd (SaveTaskResult DefaultQueueConfig mem_streams mem_db 50 1 ''ok'' None None
     plain_rows empty_server ())))) (streamKey DefaultQueueConfig ''a'')) = 1"
proof -
  let ?r = "(sample_task 1 ''a'' TaskStatusRunning 0 0)\<lparr>te_AppGroup := []\<rparr>"
  have r: "row_at te_ID (id plain_rows) 1 = Some ?r" "te_AppGroup ?r = []" "te_TaskType ?r = ''a''" by code_simp+
  have "\<exists>r2 \<in> set (id plain_rows). pending_where ''a'' (id plain_rows) r2" by code_simp
  moreover have "length (mem_strm empty_server (streamKey DefaultQueueConfig ''a'')) = 0" by code_simp
  ultimately show ?thesis
    using SaveTaskResult_normal [OF mem_system.task_system_axioms plain_save_ok(1) mem_qinv_empty
        split4 [OF plain_save_ok(2)] r(1,2), of "''a''"] r(3) by simp
qed

definition in_flow :: "TaskEntity \<Rightarrow> TaskEntity \<Rightarrow> bool" where
  "in_flow r x \<longleftrightarrow> te_SubjectID x = te_SubjectID r \<and> te_AppGroup x = te_AppGroup r \<and> te_DeletedAt x = None"

definition open_steps :: "TaskEntity list \<Rightarrow> TaskEntity \<Rightarrow> int set" where
  "open_steps tbl r = te_Step ` {x \<in> set tbl. in_flow r x \<and> te_TaskStatus x \<noteq> TaskStatusSuccess}"

lemma SaveTaskResult_flow_counts:
  assumes "task_system T rows tinv R strm grp qinv" "tinv d" "qinv q"
    and "SaveTaskResult c R T now k res None cb d q w = (Inr (), d', q', w')"
    and "row_at te_ID (rows d) k = Some r" "te_AppGroup r \<noteq> []"
  shows "length (strm q' (streamKey c ty)) = length (strm q (streamKey c ty)) +
    (if \<exists>x \<in> set (rows d). in_flow r x \<and> te_Step x = Min (open_steps (rows d) r) \<and>
        te_TaskStatus x = TaskStatusPending \<and> te_TaskType x = ty then 1 else 0)"
proof -
  have store: "task_store T rows tinv" using assms(1) by (rule task_system.axioms)
  let ?t = "stamp_updated now (apply_result now res None r)"
  let ?F = "filter (\<lambda>x. te_SubjectID x = te_SubjectID r \<and> te_AppGroup x = te_AppGroup r \<and> te_DeletedAt x = None) (rows d)"
  from SaveTaskResult_Inr [OF store assms(2,4)] assms(5)
  have h: "handleTaskFlowInTx c R T now ?t d q = (Inr (), q')" by (metis option.inject)
  have t: "IsSuccess ?t" "te_AppGroup ?t \<noteq> []" "te_AppGroup ?t = te_AppGroup r" "te_SubjectID ?t = te_SubjectID r"
    using assms(6) by (simp_all add: IsSuccess_def apply_result_status saved_fields)
  obtain ts where n: "GetNextStepTasks T (te_SubjectID ?t) (te_AppGroup ?t) d = Inr ts"
    and len: "\<forall>ty. length (strm q' (streamKey c ty)) = length (strm q (streamKey c ty)) +
       (if \<exists>u \<in> set ts. IsPending u \<and> te_TaskType u = ty then 1 else 0)"
    by (rule task_system.handleTaskFlow_step [OF assms(1,3,2) h t(1,2)])
  note n = n [unfolded t(3,4)]
  have B: "te_Step ` {x \<in> set ?F. te_TaskStatus x \<noteq> TaskStatusSuccess} = open_steps (rows d) r"
    by (auto simp: open_steps_def in_flow_def)
  from GetNextStepTasks_mset [OF store assms(2) n, unfolded Let_def B]
  have ts: "set ts = (if open_steps (rows d) r = {} then {} else {x \<in> set ?F. te_Step x = Min (open_steps (rows d) r) \<and>
      te_TaskStatus x \<in> {TaskStatusPending, TaskStatusFailed, TaskStatusRunning}})"
    by (auto dest!: arg_cong [of _ _ set_mset] split: if_splits)
  have "open_steps (rows d) r = {} \<Longrightarrow> \<forall>x \<in> set (rows d). in_flow r x \<longrightarrow> te_TaskStatus x \<noteq> TaskStatusPending"
    by (auto simp: open_steps_def)
  then have "(\<exists>u \<in> set ts. IsPending u \<and> te_TaskType u = ty) \<longleftrightarrow>
     (\<exists>x \<in> set (rows d). in_flow r x \<and> te_Step x = Min (open_steps (rows d) r) \<and>
        te_TaskStatus x = TaskStatusPending \<and> te_TaskType x = ty)"
    unfolding ts in_flow_def IsPending_def by auto
  with len show ?thesis by simp
qed


lemma sample_flow_facts:
  "row_at te_ID (id sample_rows) 4 = Some (sample_task 4 ''c'' TaskStatusRunning 2 0)"
  "te_AppGroup (sample_task 4 ''c'' TaskStatusRunning 2 0) \<noteq> []"
  "length (mem_strm empty_server (streamKey DefaultQueueConfig ''b'')) = 0"
  by code_simp+

lemma sample_save_unit: "fst (SaveTaskResult DefaultQueueConfig mem_streams mem_db 50 4 ''done'' None
    None sample_rows empty_server ()) = Inr ()"
  by code_simp


text \<open>
  The last task of a step does not announce the next step: when a running task succeeds and
  every other task of its flow up to its step is already successful, no stream of the queue grows.
  The flow handler reads through a connection that is not the transaction, where the task is still
  running; the next step waits for the periodic queue synchronisation.
\<close>

theorem SaveTaskResult_step_end_silent:
  assumes "task_system T rows tinv R strm grp qinv" "tinv d" "qinv q"
    and "SaveTaskResult c R T now k res None cb d q w = (Inr (), d', q', w')"
    and "row_at te_ID (rows d) k = Some r" "te_AppGroup r \<noteq> []" "te_TaskStatus r = TaskStatusRunning"
    and "\<forall>x \<in> set (rows d). in_flow r x \<and> te_Step x \<le> te_Step r \<and> te_ID x \<noteq> k \<longrightarrow> te_TaskStatus x = TaskStatusSuccess"
  shows "length (strm q' (streamKey c ty)) = length (strm q (streamKey c ty))"
proof -
  have store: "task_store T rows tinv" using assms(1) by (rule task_system.axioms)
  have tab: "sql_table T rows tinv te_ID set_task_ID" using store by (simp add: task_store_def)
  from SaveTaskResult_Inr [OF store assms(2,4)] assms(5) have "not_deleted r" by (metis option.inject)
  then have r: "r \<in> set (rows d)" "te_ID r = k" "in_flow r r"
    using assms(5) by (auto dest: row_at_SomeD simp: in_flow_def not_deleted_def)
  have "te_Step r \<in> open_steps (rows d) r" using r assms(7) by (auto simp: open_steps_def)
  moreover have "te_Step r \<le> s" if "s \<in> open_steps (rows d) r" for s
  proof -
    from that obtain x where x: "x \<in> set (rows d)" "in_flow r x" "te_TaskStatus x \<noteq> TaskStatusSuccess" "s = te_Step x"
      by (auto simp: open_steps_def)
    show ?thesis
    proof (cases "te_ID x = k")
      case True
      then have "x = r" using sql_table.row_at_mem [OF tab assms(2) x(1)] assms(5) by simp
      with x(4) show ?thesis by simp
    next
      case False
      with x assms(8) show ?thesis by auto
    qed
  qed
  moreover have "finite (open_steps (rows d) r)" by (simp add: open_steps_def)
  ultimately have "Min (open_steps (rows d) r) = te_Step r" by (intro Min_eqI) auto
  moreover have "\<not> (in_flow r x \<and> te_Step x = te_Step r \<and> te_TaskStatus x = TaskStatusPending)" if "x \<in> set (rows d)" for x
    using that assms(7,8) sql_table.row_at_mem [OF tab assms(2) that] assms(5) by fastforce
  ultimately show ?thesis using SaveTaskResult_flow_counts [OF assms(1-6), of ty] by auto
qed

definition step_rows :: "TaskEntity list" where
  "step_rows = [sample_task 1 ''a'' TaskStatusRunning 1 0, sample_task 2 ''b'' TaskStatusPending 2 0]"

lemma step_save_ok: "mem_wf te_ID step_rows"
  "fst (SaveTaskResult DefaultQueueConfig mem_streams mem_db 50 1 ''ok'' None None step_rows empty_server ()) = Inr ()"
  by code_simp+

theorem SaveTaskResult_step_end_silent_witness:
  "length (mem_strm (fst (snd (snd (SaveTaskResult DefaultQueueConfig mem_streams mem_db 50 1 ''ok'' None None
     step_rows empty_server ())))) (streamKey DefaultQueueConfig ''b'')) = 0"
proof -
  let ?r = "sample_task 1 ''a'' TaskStatusRunning 1 0"
  have r: "row_at te_ID (id step_rows) 1 = Some ?r" "te_AppGroup ?r \<noteq> []" "te_TaskStatus ?r = TaskStatusRunning"
    "\<forall>x \<in> set (id step_rows). in_flow ?r x \<and> te_Step x \<le> te_Step ?r \<and> te_ID x \<noteq> 1 \<longrightarrow> te_TaskStatus x = TaskStatusSuccess"
    by code_simp+
  from SaveTaskResult_step_end_silent [OF mem_system.task_system_axioms step_save_ok(1) mem_qinv_empty
        split4 [OF step_save_ok(2)] r, of "''b''"] sample_flow_facts(3) show ?thesis by simp
qed

section \<open>Queue synchronisation\<close>

context task_system
begin

lemma sync_step:
  assumes "qinv q" "adds_ok R" "reads_ok T" "tinv d"
  shows "qinv (snd (syncTaskTypeQueue c R T now ty d q)) \<and>
    length (strm (snd (syncTaskTypeQueue c R T now ty d q)) (streamKey c u)) = length (strm q (streamKey c u)) +
      (if u = ty \<and> (\<exists>r \<in> set (rows d). pending_where ty (rows d) r) then 1 else 0)"
proof -
  have "is_ok (GetPendingTaskCount T ty d)" using assms(3) by (simp add: GetPendingTaskCount_def reads_ok_def)
  then obtain n where n: "GetPendingTaskCount T ty d = Inr n" by (auto simp: is_ok_iff)
  have "0 < n \<longleftrightarrow> (\<exists>r \<in> set (rows d). pending_where ty (rows d) r)"
    using GetPendingTaskCount_eq [OF assms(4) n] length_filter_pos_iff by metis
  with n Push_count [OF assms(1,2)] assms(1) show ?thesis by (simp add: syncTaskTypeQueue_def)
qed

lemma sync_types_counts:
  assumes "qinv q" "adds_ok R" "reads_ok T" "tinv d"
  shows "length (strm (sync_types c R T now tys d q) (streamKey c u)) = length (strm q (streamKey c u)) +
      (if \<exists>r \<in> set (rows d). pending_where u (rows d) r then count_list tys u else 0)"
  using assms(1)
proof (induction tys arbitrary: q)
  case (Cons ty tys)
  from sync_step [OF Cons.prems assms(2-4)] Cons.IH show ?case by simp
qed simp

end

text \<open>
  Queue synchronisation: it always ends, and when the key scan succeeds it adds a message to
  the stream of every known task type that has an eligible task in the table, and to no other.
\<close>

theorem SyncQueueCount_correct:
  assumes "task_system T rows tinv R strm grp qinv"
    and "redis_scan R strm grp qinv has_key unseen rank"
    and "tinv d" "qinv q" "reads_ok T" "adds_ok R"
  shows "\<exists>r q'. SyncQueueCount c R T now d q = Some (r, q') \<and>
    (case r of Inl e \<Rightarrow> q' = q
     | Inr _ \<Rightarrow> (\<forall>ty. ty \<noteq> [] \<and> has_key q (streamKey c ty) \<longrightarrow>
         (length (strm q (streamKey c ty)) < length (strm q' (streamKey c ty)) \<longleftrightarrow>
          (\<exists>r \<in> set (rows d). pending_where ty (rows d) r))))"
proof -
  obtain r where r: "GetAllTaskTypes c R q = Some r"
    and tys: "\<And>tys. r = Inr tys \<Longrightarrow> set tys = {ty. ty \<noteq> [] \<and> has_key q (streamKey c ty)}"
    using redis_scan.GetAllTaskTypes_set [OF assms(2,4), of c] by blast
  show ?thesis
  proof (cases r)
    case (Inl e)
    with r show ?thesis by (simp add: SyncQueueCount_def)
  next
    case (Inr ts)
    have "0 < count_list ts ty" if "ty \<noteq> []" "has_key q (streamKey c ty)" for ty
      using tys [OF Inr] that by (auto simp: count_list_0_iff neq0_conv [symmetric])
    with r Inr task_system.sync_types_counts [OF assms(1,4,6,5,3), of c now ts] show ?thesis
      by (simp add: SyncQueueCount_def)
  qed
qed

lemma pushed_up:
  "has_prefix [] []" "mem_qinv (snd (Push DefaultQueueConfig mem_streams 0 ''b'' empty_server))"
  using mem_redis.Push_qinv [OF mem_qinv_empty] by (simp_all add: has_prefix_def)

theorem SyncQueueCount_correct_witness:
  "\<exists>r q'. SyncQueueCount DefaultQueueConfig mem_streams mem_db 0 sample_rows
       (snd (Push DefaultQueueConfig mem_streams 0 ''b'' empty_server)) = Some (r, q')"
  using SyncQueueCount_correct [OF mem_system.task_system_axioms mem_redis_scan.redis_scan_axioms sample_wf pushed_up(2)
      mem_reads_ok mem_adds_ok] by blast

section \<open>Fetching work\<close>


lemma sample_next_task_ok:
  "fst (GetNextTask DefaultQueueConfig mem_streams mem_db no_lock 100 ''b'' ''w9'' sample_rows empty_server) = Inr sample_picked"
  by code_simp


end
