(* ===== verification/Task_Worker.thy ===== *)
theory Task_Worker
  imports Task_Manager "HOL-Library.AList"
begin

text \<open>
  The worker of \<open>task/worker/\<close>: its configuration, the executor registry, the goroutines it starts
  and the path of one task from the manager through the executor back to the manager.

  \<open>WorkManager\<close> and \<open>TaskExecutor\<close> are Go interfaces, here records of functions. Business code
  (executors and callbacks) acts on a world \<open>'w\<close>; the manager keeps a state \<open>'m\<close>. An executor's
  \<open>Execute\<close> may return an error or panic. The context's error after the execution is an argument.
\<close>

section \<open>Configuration and errors\<close>

definition ErrEmptyWorkerID :: gerror where "ErrEmptyWorkerID = Err ''task: worker id cannot be empty''"
definition ErrInvalidTimeout_worker :: gerror where "ErrInvalidTimeout_worker = Err ''task: invalid timeout''"
definition ErrInvalidMaxRedo :: gerror where "ErrInvalidMaxRedo = Err ''task: invalid max redo''"
definition ErrInvalidMaxConcurrency :: gerror where
  "ErrInvalidMaxConcurrency = Err ''task: invalid max concurrency''"
definition ErrWorkerNotStarted :: gerror where "ErrWorkerNotStarted = Err ''task: worker not started''"
definition ErrWorkerAlreadyStarted :: gerror where
  "ErrWorkerAlreadyStarted = Err ''task: worker already started''"
definition ErrInvalidHealthReportInterval :: gerror where
  "ErrInvalidHealthReportInterval = Err ''task: invalid health report interval''"

record WorkerConfig =
  wc_Timeout :: duration
  wc_MaxRedo :: int
  wc_MaxConcurrency :: int
  wc_WorkerID :: string
  wc_HealthReportInterval :: duration

definition DefaultWorkerConfig :: WorkerConfig where
  "DefaultWorkerConfig = \<lparr>wc_Timeout = 10 * time_Minute, wc_MaxRedo = 3, wc_MaxConcurrency = 5,
     wc_WorkerID = [], wc_HealthReportInterval = 0\<rparr>"

definition WorkerConfig_Validate :: "WorkerConfig \<Rightarrow> unit res" where
  "WorkerConfig_Validate c =
     (if wc_WorkerID c = [] then Inl ErrEmptyWorkerID
      else if wc_Timeout c \<le> 0 then Inl ErrInvalidTimeout_worker
      else if wc_MaxRedo c < 0 then Inl ErrInvalidMaxRedo
      else if wc_MaxConcurrency c \<le> 0 then Inl ErrInvalidMaxConcurrency
      else if wc_HealthReportInterval c < 0 then Inl ErrInvalidHealthReportInterval
      else Inr ())"

section \<open>Executors and their registry\<close>

datatype outcome = Returned "gerror option" | Panicked string

record 'w TaskExecutor =
  xe_Execute :: "'w \<Rightarrow> outcome \<times> 'w"
  xe_GetResult :: "'w \<Rightarrow> string"
  xe_SetResult :: "string \<Rightarrow> 'w \<Rightarrow> 'w"
  xe_OnSuccess :: "'w \<Rightarrow> unit res \<times> 'w"
  xe_OnFailure :: "'w \<Rightarrow> unit res \<times> 'w"

type_synonym 'w ExecutorFactory = "string \<Rightarrow> 'w TaskExecutor res"

text \<open>The two maps; the association lists fix one iteration order.\<close>

record 'w ExecutorRegistry =
  er_executors :: "(string \<times> 'w ExecutorFactory) list"
  er_concurrency :: "(string \<times> int) list"

definition NewExecutorRegistry :: "'w ExecutorRegistry" where
  "NewExecutorRegistry = \<lparr>er_executors = [], er_concurrency = []\<rparr>"

definition Register :: "string \<Rightarrow> 'w ExecutorFactory \<Rightarrow> 'w ExecutorRegistry \<Rightarrow> 'w ExecutorRegistry" where
  "Register taskType factory r = r\<lparr>er_executors := AList.update taskType factory (er_executors r)\<rparr>"

definition RegisterWithConcurrency ::
  "string \<Rightarrow> 'w ExecutorFactory \<Rightarrow> int \<Rightarrow> 'w ExecutorRegistry \<Rightarrow> 'w ExecutorRegistry" where
  "RegisterWithConcurrency taskType factory n r =
     r\<lparr>er_executors := AList.update taskType factory (er_executors r),
       er_concurrency := AList.update taskType n (er_concurrency r)\<rparr>"

definition registry_Get :: "string \<Rightarrow> 'w ExecutorRegistry \<Rightarrow> 'w ExecutorFactory option" where
  "registry_Get taskType r = map_of (er_executors r) taskType"

definition GetConcurrency :: "string \<Rightarrow> int \<Rightarrow> 'w ExecutorRegistry \<Rightarrow> int" where
  "GetConcurrency taskType dflt r = (case map_of (er_concurrency r) taskType of Some n \<Rightarrow> n | None \<Rightarrow> dflt)"

definition GetAll :: "'w ExecutorRegistry \<Rightarrow> string list" where
  "GetAll r = map fst (er_executors r)"

section \<open>The manager as the worker sees it\<close>

record TaskInfo =
  ti_TaskID :: nat
  ti_TaskType :: string
  ti_Payload :: string
  ti_Timeout :: duration
  ti_AppGroup :: string
  ti_SubjectID :: nat
  ti_Redo :: int
  ti_MaxRedo :: int

definition zero_info :: TaskInfo where
  "zero_info = \<lparr>ti_TaskID = 0, ti_TaskType = [], ti_Payload = [], ti_Timeout = 0, ti_AppGroup = [],
     ti_SubjectID = 0, ti_Redo = 0, ti_MaxRedo = 0\<rparr>"

record ('m, 'w) WorkManager =
  wm_GetNextTask :: "string \<Rightarrow> string \<Rightarrow> 'm \<Rightarrow> TaskInfo res \<times> 'm"
  wm_SaveTaskResult :: "string \<Rightarrow> TaskInfo \<Rightarrow> string \<Rightarrow> gerror option \<Rightarrow> ('w \<Rightarrow> unit res \<times> 'w) option \<Rightarrow>
     'm \<Rightarrow> 'w \<Rightarrow> unit res \<times> 'm \<times> 'w"
  wm_InitTaskDBStatus :: "'m \<Rightarrow> unit res \<times> 'm"

text \<open>The adapter that makes the task manager a \<open>WorkManager\<close>; its state is the two stores.\<close>

definition info_of :: "TaskEntity \<Rightarrow> TaskInfo" where
  "info_of t = \<lparr>ti_TaskID = te_ID t, ti_TaskType = te_TaskType t, ti_Payload = te_Payload t,
     ti_Timeout = te_Timeout t, ti_AppGroup = te_AppGroup t, ti_SubjectID = te_SubjectID t,
     ti_Redo = te_Redo t, ti_MaxRedo = te_MaxRedo t\<rparr>"

definition WorkManagerAdapter ::
  "QueueConfig \<Rightarrow> 'q stream_ops \<Rightarrow> 'd task_table \<Rightarrow> (nat \<Rightarrow> bool) \<Rightarrow> gotime \<Rightarrow> ('d \<times> 'q, 'w) WorkManager" where
  "WorkManagerAdapter c R T locked now = \<lparr>
     wm_GetNextTask = (\<lambda>taskType workerID (d, q).
        case GetNextTask c R T locked now taskType workerID d q of
          (Inl e, d', q') \<Rightarrow> (Inl e, d', q')
        | (Inr t, d', q') \<Rightarrow> (Inr (info_of t), d', q')),
     wm_SaveTaskResult = (\<lambda>workerID info result execErr onCallback (d, q) w.
        case SaveTaskResult c R T now (ti_TaskID info) result execErr onCallback d q w of
          (r, d', q', w') \<Rightarrow> (r, (d', q'), w')),
     wm_InitTaskDBStatus = (\<lambda>m. (Inr (), m))\<rparr>"

section \<open>The worker\<close>

record 'w Worker =
  wk_config :: WorkerConfig
  wk_registry :: "'w ExecutorRegistry"
  wk_reporter :: bool
  wk_started :: bool
  wk_routines :: "string list"

definition NewWorker :: "WorkerConfig \<Rightarrow> bool \<Rightarrow> 'w Worker res" where
  "NewWorker config mgr = (case WorkerConfig_Validate config of
     Inl e \<Rightarrow> Inl e
   | Inr _ \<Rightarrow> (if \<not> mgr then Inl (Err ''manager is required'')
       else Inr \<lparr>wk_config = config, wk_registry = NewExecutorRegistry, wk_reporter = False,
                 wk_started = False, wk_routines = []\<rparr>))"

text \<open>Options are functions on the concurrency, applied in order; \<open>WithConcurrency n\<close> sets it.\<close>

definition WithConcurrency :: "int \<Rightarrow> int \<Rightarrow> int" where
  "WithConcurrency n old = n"

definition RegisterExecutor :: "string \<Rightarrow> 'w ExecutorFactory \<Rightarrow> (int \<Rightarrow> int) list \<Rightarrow> 'w Worker \<Rightarrow> 'w Worker" where
  "RegisterExecutor taskType factory opts w =
     w\<lparr>wk_registry := RegisterWithConcurrency taskType factory
         (fold (\<lambda>opt n. opt n) opts (wc_MaxConcurrency (wk_config w))) (wk_registry w)\<rparr>"

definition SetHealthReporter :: "bool \<Rightarrow> 'w Worker \<Rightarrow> 'w Worker" where
  "SetHealthReporter reporter w = w\<lparr>wk_reporter := reporter\<rparr>"

text \<open>The goroutines \<open>Start\<close> launches for one task type.\<close>

definition type_routines :: "'w Worker \<Rightarrow> string \<Rightarrow> string list" where
  "type_routines w taskType =
     map (\<lambda>i. ''worker-'' @ taskType @ ''-'' @ nat_digits i)
       [0..<nat (GetConcurrency taskType (wc_MaxConcurrency (wk_config w)) (wk_registry w))]"

definition Worker_Start :: "'w Worker \<Rightarrow> unit res \<times> 'w Worker" where
  "Worker_Start w = (if wk_started w then (Inl ErrWorkerAlreadyStarted, w)
     else (let rs = wk_routines w @ concat (map (type_routines w) (GetAll (wk_registry w)));
               rs' = (if wk_reporter w \<and> 0 < wc_HealthReportInterval (wk_config w) then rs @ [''health-reporter''] else rs)
           in (Inr (), w\<lparr>wk_routines := rs', wk_started := True\<rparr>)))"

definition Worker_Stop :: "bool \<Rightarrow> 'w Worker \<Rightarrow> unit res \<times> 'w Worker" where
  "Worker_Stop exited w = (if \<not> wk_started w then (Inl ErrWorkerNotStarted, w)
     else (Inr (), w\<lparr>wk_routines := (if exited then [] else wk_routines w), wk_started := False\<rparr>))"

text \<open>\<open>doExecute\<close>: the deferred recover turns a panic into an error.\<close>

definition doExecute :: "'w TaskExecutor \<Rightarrow> 'w \<Rightarrow> gerror option \<times> 'w" where
  "doExecute executor w = (case xe_Execute executor w of
     (Returned e, w') \<Rightarrow> (e, w')
   | (Panicked s, w') \<Rightarrow> (Some (Err (''task panic: '' @ s)), w'))"

definition executeTask ::
  "('m, 'w) WorkManager \<Rightarrow> 'w Worker \<Rightarrow> gerror option \<Rightarrow> TaskInfo \<Rightarrow> 'm \<Rightarrow> 'w \<Rightarrow> 'm \<times> 'w" where
  "executeTask M wk ctxErr info m w =
     (if ti_TaskID info = 0 then (m, w)
      else case registry_Get (ti_TaskType info) (wk_registry wk) of
        None \<Rightarrow> snd (wm_SaveTaskResult M (wc_WorkerID (wk_config wk)) info [] (Some (Err ''executor not found'')) None m w)
      | Some factory \<Rightarrow>
          (case factory (ti_Payload info) of
             Inl e \<Rightarrow> snd (wm_SaveTaskResult M (wc_WorkerID (wk_config wk)) info []
                         (Some (Wrapf ''create executor failed'' e)) None m w)
           | Inr executor \<Rightarrow>
               (let (execErr, w1) = doExecute executor w;
                    result = xe_GetResult executor w1 in
                if execErr = None \<and> ctxErr \<noteq> Some DeadlineExceeded
                then snd (wm_SaveTaskResult M (wc_WorkerID (wk_config wk)) info result execErr (Some (xe_OnSuccess executor)) m w1)
                else (let execErr' = (if ctxErr = Some DeadlineExceeded then Some DeadlineExceeded else execErr) in
                  snd (wm_SaveTaskResult M (wc_WorkerID (wk_config wk)) info result execErr' (Some (xe_OnFailure executor)) m w1)))))"

definition processOneTask ::
  "('m, 'w) WorkManager \<Rightarrow> 'w Worker \<Rightarrow> gerror option \<Rightarrow> string \<Rightarrow> 'm \<Rightarrow> 'w \<Rightarrow> 'm \<times> 'w" where
  "processOneTask M wk ctxErr taskType m w =
     (case wm_GetNextTask M taskType (wc_WorkerID (wk_config wk)) m of
        (Inl e, m') \<Rightarrow> (m', w)
      | (Inr info, m') \<Rightarrow> (if ti_TaskID info = 0 then (m', w) else executeTask M wk ctxErr info m' w))"

text \<open>\<open>workRoutine\<close> until the context is done: one entry of the list per iteration.\<close>

fun workRoutine ::
  "('m, 'w) WorkManager \<Rightarrow> 'w Worker \<Rightarrow> string \<Rightarrow> gerror option list \<Rightarrow> 'm \<Rightarrow> 'w \<Rightarrow> 'm \<times> 'w" where
  "workRoutine M wk taskType [] m w = (m, w)"
| "workRoutine M wk taskType (ce # ces) m w =
     (let (m', w') = processOneTask M wk ce taskType m w in workRoutine M wk taskType ces m' w')"

record WorkerHealth =
  wh_WorkerID :: string
  wh_Timestamp :: gotime
  wh_TaskTypes :: "string list"
  wh_Status :: string

definition reportHealthOnce :: "gotime \<Rightarrow> 'w Worker \<Rightarrow> WorkerHealth" where
  "reportHealthOnce now w = \<lparr>wh_WorkerID = wc_WorkerID (wk_config w), wh_Timestamp = now,
     wh_TaskTypes = GetAll (wk_registry w), wh_Status = ''running''\<rparr>"

end
