(* ===== verification/Task_Worker_Correct.thy ===== *)
theory Task_Worker_Correct
  imports Task_Worker Task_Manager_Correct
begin

text \<open>
  Correctness of the worker against the contract it expects of its manager, and the proof that the
  task manager, through its adapter, keeps that contract.
\<close>

section \<open>The contract of a work manager\<close>

definition saved_status :: "gerror option \<Rightarrow> TaskStatus" where
  "saved_status e = (case e of None \<Rightarrow> TaskStatusSuccess
     | Some x \<Rightarrow> if x = DeadlineExceeded then TaskStatusTimeout else TaskStatusFailed)"

text \<open>
  \<open>stored\<close> is the status the manager holds for a task. A save that succeeds stores the outcome and
  then runs the callback once; a save that fails does neither.
\<close>

locale work_manager =
  fixes M :: "('m, 'w) WorkManager" and stored :: "'m \<Rightarrow> nat \<Rightarrow> TaskStatus option" and minv :: "'m \<Rightarrow> bool"
  assumes save_ok: "minv m \<Longrightarrow> wm_SaveTaskResult M wid info res e cb m w = (Inr (), m', w') \<Longrightarrow>
      stored m' (ti_TaskID info) = Some (saved_status e) \<and> minv m' \<and>
      w' = (case cb of None \<Rightarrow> w | Some f \<Rightarrow> snd (f w))"
    and save_err: "minv m \<Longrightarrow> wm_SaveTaskResult M wid info res e cb m w = (Inl x, m', w') \<Longrightarrow>
      (\<forall>k. stored m' k = stored m k) \<and> minv m' \<and> w' = w"
begin

lemma executeTask_runs:
  assumes "minv m" "ti_TaskID info \<noteq> 0" "registry_Get (ti_TaskType info) (wk_registry wk) = Some f"
    and "f (ti_Payload info) = Inr ex" "doExecute ex w = (e, w1)"
    and "executeTask M wk ctxErr info m w = (m', w')"
  shows "(w' = w1 \<and> (\<forall>k. stored m' k = stored m k)) \<or>
    (w' = snd ((if e = None \<and> ctxErr \<noteq> Some DeadlineExceeded then xe_OnSuccess ex else xe_OnFailure ex) w1) \<and>
     stored m' (ti_TaskID info) = Some (saved_status (if ctxErr = Some DeadlineExceeded then Some DeadlineExceeded else e)))"
proof -
  let ?good = "e = None \<and> ctxErr \<noteq> Some DeadlineExceeded"
  let ?e = "if ctxErr = Some DeadlineExceeded then Some DeadlineExceeded else e"
  let ?cb = "if ?good then xe_OnSuccess ex else xe_OnFailure ex"
  obtain r where s: "wm_SaveTaskResult M (wc_WorkerID (wk_config wk)) info (xe_GetResult ex w1) ?e (Some ?cb) m w1 = (r, m', w')"
    using assms(2-6) by (cases "wm_SaveTaskResult M (wc_WorkerID (wk_config wk)) info (xe_GetResult ex w1) ?e (Some ?cb) m w1")
      (auto simp: executeTask_def Let_def split: if_splits)
  show ?thesis
  proof (cases r)
    case (Inl x)
    with save_err [OF assms(1)] s show ?thesis by blast
  next
    case (Inr u)
    then have r: "r = Inr ()" by simp
    from save_ok [OF assms(1) s [unfolded r]] show ?thesis by (simp only: option.case) blast
  qed
qed

end

section \<open>The task manager keeps it\<close>

definition task_status :: "('d \<Rightarrow> TaskEntity list) \<Rightarrow> 'd \<times> 'q \<Rightarrow> nat \<Rightarrow> TaskStatus option" where
  "task_status rows m k = map_option te_TaskStatus (row_at te_ID (rows (fst m)) k)"

lemma adapter_work_manager:
  fixes R :: "'q stream_ops"
  assumes "task_store T rows tinv"
  shows "work_manager (WorkManagerAdapter c R T locked now :: ('d \<times> 'q, 'w) WorkManager) (task_status rows) (\<lambda>m. tinv (fst m))"
proof (unfold_locales, goal_cases)
  case (1 m wid info res e cb w m' w')
  obtain d q where m: "m = (d, q)" by (cases m)
  obtain d' q' where m': "m' = (d', q')" by (cases m')
  from 1(2) have s: "SaveTaskResult c R T now (ti_TaskID info) res e cb d q w = (Inr (), d', q', w')"
    by (auto simp: WorkManagerAdapter_def m m' split: prod.splits)
  have d: "tinv d" using 1(1) m by simp
  from SaveTaskResult_Inr [OF assms d s] obtain r where r: "row_at te_ID (rows d) (ti_TaskID info) = Some r" "tinv d'"
    "rows d' = replace_row te_ID (stamp_updated now (apply_result now res e r)) (rows d)"
    "w' = (case cb of None \<Rightarrow> w | Some f \<Rightarrow> snd (f w))" by metis
  have k: "te_ID (stamp_updated now (apply_result now res e r)) = ti_TaskID info"
    "ti_TaskID info \<in> te_ID ` set (rows d)"
    using row_at_SomeD [OF r(1)] by (simp, metis imageI)
  have "row_at te_ID (rows d') (ti_TaskID info) = Some (stamp_updated now (apply_result now res e r))"
    using row_at_replace_row [of te_ID "stamp_updated now (apply_result now res e r)" "rows d"] k r(3) by simp
  then show ?case using r(2,4) m' by (simp add: task_status_def apply_result_status saved_status_def)
next
  case (2 m wid info res e cb w x m' w')
  obtain d q where m: "m = (d, q)" by (cases m)
  obtain d' q' where m': "m' = (d', q')" by (cases m')
  from 2(2) have "SaveTaskResult c R T now (ti_TaskID info) res e cb d q w = (Inl x, d', q', w')"
    by (auto simp: WorkManagerAdapter_def m m' split: prod.splits)
  then have "d' = d" "w' = w"
    by (auto simp: SaveTaskResult_def Let_def split: sum.splits prod.splits option.splits)
  with 2(1) m m' show ?case by (simp add: task_status_def)
qed

interpretation mem_adapter: work_manager "WorkManagerAdapter c mem_streams mem_db locked now" "task_status id"
    "\<lambda>m. mem_wf te_ID (fst m)" for c locked now
  by (rule adapter_work_manager) (rule mem_tasks.task_store_axioms)

text \<open>
  Callbacks match stored outcomes (C12): when a worker runs a task through the task manager, either
  the save failed, and then no callback ran and no stored status changed, or the stored status is
  success and \<open>OnSuccess\<close> ran once, or the stored status is failed or timeout and \<open>OnFailure\<close> ran
  once. A panic or an expired context counts as an unsuccessful execution.
\<close>

theorem executeTask_callback_matches:
  assumes "task_store T rows tinv" "tinv d" "ti_TaskID info \<noteq> 0"
    and "registry_Get (ti_TaskType info) (wk_registry wk) = Some f" "f (ti_Payload info) = Inr ex"
    and "doExecute ex w = (e, w1)"
    and "executeTask (WorkManagerAdapter c R T locked now) wk ctxErr info (d, q) w = ((d', q'), w')"
  shows "(w' = w1 \<and> (\<forall>k. task_status rows (d', q') k = task_status rows (d, q) k)) \<or>
    (e = None \<and> ctxErr \<noteq> Some DeadlineExceeded \<and> w' = snd (xe_OnSuccess ex w1) \<and>
       task_status rows (d', q') (ti_TaskID info) = Some TaskStatusSuccess) \<or>
    ((e \<noteq> None \<or> ctxErr = Some DeadlineExceeded) \<and> w' = snd (xe_OnFailure ex w1) \<and>
       task_status rows (d', q') (ti_TaskID info) =
         Some (if ctxErr = Some DeadlineExceeded \<or> e = Some DeadlineExceeded then TaskStatusTimeout else TaskStatusFailed))"
proof -
  have i: "(\<lambda>m. tinv (fst m)) (d, q)" using assms(2) by simp
  from work_manager.executeTask_runs [OF adapter_work_manager [OF assms(1)] i assms(3-7)]
  show ?thesis by (cases e) (auto simp: saved_status_def)
qed

definition sample_executor :: "nat TaskExecutor" where
  "sample_executor = \<lparr>xe_Execute = (\<lambda>w. (Panicked ''boom'', w)), xe_GetResult = (\<lambda>w. []), xe_SetResult = (\<lambda>r w. w),
     xe_OnSuccess = (\<lambda>w. (Inr (), w + 1)), xe_OnFailure = (\<lambda>w. (Inr (), w + 100))\<rparr>"

definition sample_worker :: "nat Worker" where
  "sample_worker = \<lparr>wk_config = DefaultWorkerConfig\<lparr>wc_WorkerID := ''w1''\<rparr>,
     wk_registry = RegisterWithConcurrency ''c'' (\<lambda>_. Inr sample_executor) 2 NewExecutorRegistry,
     wk_reporter = False, wk_started = False, wk_routines = []\<rparr>"

theorem executeTask_callback_matches_witness:
  "snd (executeTask (WorkManagerAdapter DefaultQueueConfig mem_streams mem_db no_lock 50) sample_worker None
     (info_of (sample_task 4 ''c'' TaskStatusRunning 2 0)) (sample_rows, empty_server) 0) \<in> {0, 100}"
proof -
  let ?info = "info_of (sample_task 4 ''c'' TaskStatusRunning 2 0)"
  let ?x = "executeTask (WorkManagerAdapter DefaultQueueConfig mem_streams mem_db no_lock 50) sample_worker None ?info
     (sample_rows, empty_server) 0"
  have h: "ti_TaskID ?info \<noteq> 0"
    "registry_Get (ti_TaskType ?info) (wk_registry sample_worker) = Some (\<lambda>_. Inr sample_executor)"
    "doExecute sample_executor 0 = (Some (Err ''task panic: boom''), 0)"
    by (simp_all add: info_of_def sample_task_def zero_task_def registry_Get_def sample_worker_def
        RegisterWithConcurrency_def NewExecutorRegistry_def doExecute_def sample_executor_def)
  obtain d' q' w' where x: "?x = ((d', q'), w')" by (metis prod.collapse)
  from executeTask_callback_matches [OF mem_tasks.task_store_axioms sample_wf h(1,2) refl h(3) x]
  have "w' = 0 \<or> w' = snd (xe_OnFailure sample_executor 0)" by auto
  then show ?thesis unfolding x by (auto simp: sample_executor_def)
qed

section \<open>Registration and start\<close>

lemma distinct_GetAll_update: "distinct (map fst xs) \<Longrightarrow> distinct (map fst (AList.update k v xs))"
  by (rule distinct_update)

text \<open>
  Concurrency per task type: registering an executor makes it the one found for its type and
  leaves other types alone; starting the worker then launches, for every registered type, exactly
  the configured number of work routines and nothing else but the optional health reporter.
\<close>

theorem worker_start_concurrency:
  assumes "\<not> wk_started wk" "wk_routines wk = []"
  shows "let wk' = RegisterExecutor ty f [WithConcurrency n] wk; wk'' = snd (Worker_Start wk') in
    registry_Get ty (wk_registry wk') = Some f \<and>
    (\<forall>u. u \<noteq> ty \<longrightarrow> registry_Get u (wk_registry wk') = registry_Get u (wk_registry wk) \<and>
       GetConcurrency u dflt (wk_registry wk') = GetConcurrency u dflt (wk_registry wk)) \<and>
    length (type_routines wk' ty) = nat n \<and> wk_started wk'' \<and>
    wk_routines wk'' = concat (map (type_routines wk') (GetAll (wk_registry wk'))) @
      (if wk_reporter wk \<and> 0 < wc_HealthReportInterval (wk_config wk) then [''health-reporter''] else [])"
  using assms
  by (simp add: Let_def RegisterExecutor_def Worker_Start_def registry_Get_def RegisterWithConcurrency_def
      GetConcurrency_def type_routines_def WithConcurrency_def update_conv')

theorem worker_start_concurrency_witness:
  "length (type_routines (RegisterExecutor ''d'' (\<lambda>_. Inr sample_executor) [WithConcurrency 7] sample_worker) ''d'') = 7"
proof -
  have "\<not> wk_started sample_worker" "wk_routines sample_worker = []" by (simp_all add: sample_worker_def)
  from worker_start_concurrency [OF this, of "''d''" "\<lambda>_. Inr sample_executor" 7] show ?thesis by (simp add: Let_def)
qed

end
