(* ===== verification/Redis_Hash.thy ===== *)
theory Redis_Hash
  imports Redis_Stream
begin

text \<open>
  The Redis hash commands the health checker sends, on an abstract server state \<open>'q\<close>. A Lua script
  made of hash commands runs atomically, so it is a list of commands given to \<open>hx_eval\<close>; a single
  HSET or HDEL is a list of one. The locale \<open>redis_hash\<close> names the documented behaviour in terms of
  the view \<open>hv\<close>, the fields of each hash.
\<close>

datatype hcmd = HSET string string string | HDEL string string

record 'q hash_ops =
  hx_eval :: "'q \<Rightarrow> hcmd list \<Rightarrow> 'q res"
  hx_get :: "'q \<Rightarrow> string \<Rightarrow> string \<Rightarrow> string res"
  hx_getall :: "'q \<Rightarrow> string \<Rightarrow> (string \<times> string) list res"
  hx_len :: "'q \<Rightarrow> string \<Rightarrow> int res"
  hx_scan :: "'q \<Rightarrow> nat \<Rightarrow> string \<Rightarrow> nat \<Rightarrow> (string list \<times> nat) res"

type_synonym hashes = "string \<Rightarrow> string \<Rightarrow> string option"

fun apply_hcmd :: "hcmd \<Rightarrow> hashes \<Rightarrow> hashes" where
  "apply_hcmd (HSET k f v) h = h(k := (h k)(f \<mapsto> v))"
| "apply_hcmd (HDEL k f) h = h(k := (h k)(f := None))"

fun apply_hcmds :: "hcmd list \<Rightarrow> hashes \<Rightarrow> hashes" where
  "apply_hcmds [] h = h"
| "apply_hcmds (c # cs) h = apply_hcmds cs (apply_hcmd c h)"

locale redis_hash =
  fixes H :: "'q hash_ops" and hv :: "'q \<Rightarrow> hashes" and hinv :: "'q \<Rightarrow> bool"
  assumes eval_ok: "hinv q \<Longrightarrow> hx_eval H q cs = Inr q' \<Longrightarrow> hv q' = apply_hcmds cs (hv q) \<and> hinv q'"
    and get_ok: "hinv q \<Longrightarrow> hx_get H q k f = Inr v \<Longrightarrow> hv q k f = Some v"
    and get_nil: "hinv q \<Longrightarrow> hx_get H q k f = Inl e \<Longrightarrow> errors_is e redis_Nil \<Longrightarrow> hv q k f = None"
    and getall_ok: "hinv q \<Longrightarrow> hx_getall H q k = Inr fvs \<Longrightarrow> distinct (map fst fvs) \<and> map_of fvs = hv q k"
    and len_ok: "hinv q \<Longrightarrow> hx_len H q k = Inr n \<Longrightarrow> n = int (card (dom (hv q k)))"

section \<open>A server held in memory\<close>

record mem_hashes =
  mh_get :: "string \<Rightarrow> (string \<times> string) list"
  mh_keys :: "string list"

definition mem_hv :: "mem_hashes \<Rightarrow> hashes" where
  "mem_hv q k = map_of (mh_get q k)"

definition mem_hinv :: "mem_hashes \<Rightarrow> bool" where
  "mem_hinv q \<longleftrightarrow> (\<forall>k. distinct (map fst (mh_get q k)))"

fun mem_hcmd :: "hcmd \<Rightarrow> mem_hashes \<Rightarrow> mem_hashes" where
  "mem_hcmd (HSET k f v) q = q\<lparr>mh_get := (mh_get q)(k := (f, v) # filter (\<lambda>x. fst x \<noteq> f) (mh_get q k)),
     mh_keys := List.insert k (mh_keys q)\<rparr>"
| "mem_hcmd (HDEL k f) q = q\<lparr>mh_get := (mh_get q)(k := filter (\<lambda>x. fst x \<noteq> f) (mh_get q k))\<rparr>"

definition mem_hash :: "mem_hashes hash_ops" where
  "mem_hash = \<lparr>hx_eval = (\<lambda>q cs. Inr (fold mem_hcmd cs q)),
     hx_get = (\<lambda>q k f. case map_of (mh_get q k) f of Some v \<Rightarrow> Inr v | None \<Rightarrow> Inl redis_Nil),
     hx_getall = (\<lambda>q k. Inr (mh_get q k)), hx_len = (\<lambda>q k. Inr (int (length (mh_get q k)))),
     hx_scan = (\<lambda>q c pat n. Inr (filter (\<lambda>k. has_prefix k (butlast pat) \<and> mh_get q k \<noteq> []) (mh_keys q), 0))\<rparr>"

definition empty_hashes :: mem_hashes where
  "empty_hashes = \<lparr>mh_get = (\<lambda>_. []), mh_keys = []\<rparr>"

lemma map_of_filter_key: "map_of (filter (\<lambda>x. fst x \<noteq> f) xs) = (map_of xs)(f := None)"
  by (induction xs) (auto simp: fun_eq_iff)

lemma mem_hcmd_inv: "mem_hinv q \<Longrightarrow> mem_hinv (mem_hcmd c q)"
  using distinct_map_filter [of fst] by (cases c) (auto simp: mem_hinv_def)

lemma mem_hcmd_hv: "mem_hv (mem_hcmd c q) = apply_hcmd c (mem_hv q)"
  by (cases c; rule ext; simp add: mem_hv_def map_of_filter_key)

lemma mem_hcmds_ok: "mem_hinv q \<Longrightarrow> mem_hinv (fold mem_hcmd cs q) \<and> mem_hv (fold mem_hcmd cs q) = apply_hcmds cs (mem_hv q)"
  by (induction cs arbitrary: q) (simp_all add: mem_hcmd_inv mem_hcmd_hv)

interpretation mem_redis_hash: redis_hash mem_hash mem_hv mem_hinv
proof (unfold_locales, goal_cases)
  case (1 q cs q')
  then show ?case using mem_hcmds_ok [of q cs] by (simp add: mem_hash_def)
next
  case (2 q k f v)
  then show ?case by (simp add: mem_hash_def mem_hv_def split: option.splits)
next
  case (3 q k f e)
  then show ?case by (simp add: mem_hash_def mem_hv_def split: option.splits)
next
  case (4 q k fvs)
  then show ?case by (auto simp: mem_hash_def mem_hv_def mem_hinv_def)
next
  case (5 q k n)
  then have "distinct (map fst (mh_get q k))" "n = int (length (mh_get q k))"
    by (simp_all add: mem_hinv_def mem_hash_def)
  then show ?case
    by (metis distinct_card dom_map_of_conv_image_fst length_map list.set_map mem_hv_def)
qed

lemma mem_hinv_empty: "mem_hinv empty_hashes"
  by (simp add: mem_hinv_def empty_hashes_def)

end
