(* ===== verification/Task_Health.thy ===== *)
theory Task_Health
  imports Redis_Hash
begin

text \<open>
  The worker health checker of \<open>task/health/checker.go\<close> and \<open>config.go\<close>: workers report heartbeats
  into a Redis hash per task type; a periodic sweep moves a silent worker into a grace period and,
  if it stays silent, declares it dead, calls \<open>OnWorkerDead\<close> and removes its heartbeat. The callback
  acts on a world \<open>'w\<close> of its own. Clock readings are arguments, in seconds where the code calls
  \<open>Unix()\<close>; the sweep reads the clock once at its start and again for every worker whose grace entry
  it inspects.
\<close>

section \<open>Configuration\<close>

definition HeartbeatTimeout :: int where "HeartbeatTimeout = 30"
definition GracePeriodTimeout :: int where "GracePeriodTimeout = 60"
definition DefaultCheckPeriod :: duration where "DefaultCheckPeriod = 30 * time_Second"

datatype WorkerStatus = WorkerStatusHealthy | WorkerStatusGracePeriod | WorkerStatusDead

fun WorkerStatus_String :: "WorkerStatus \<Rightarrow> string" where
  "WorkerStatus_String WorkerStatusHealthy = ''healthy''"
| "WorkerStatus_String WorkerStatusGracePeriod = ''grace_period''"
| "WorkerStatus_String WorkerStatusDead = ''dead''"

record DeadWorkerInfo =
  dw_WorkerID :: string
  dw_TaskType :: string
  dw_TaskID :: nat
  dw_LastHeartbeat :: int

record 'w CheckerConfig =
  hc_KeyPrefix :: string
  hc_RedisClient :: bool
  hc_CheckPeriod :: duration
  hc_OnWorkerDead :: "(DeadWorkerInfo \<Rightarrow> 'w \<Rightarrow> unit res \<times> 'w) option"

definition DefaultCheckerConfig :: "'w CheckerConfig" where
  "DefaultCheckerConfig = \<lparr>hc_KeyPrefix = ''task:'', hc_RedisClient = False, hc_CheckPeriod = DefaultCheckPeriod,
     hc_OnWorkerDead = None\<rparr>"

definition CheckerConfig_Validate :: "'w CheckerConfig \<Rightarrow> 'w CheckerConfig res" where
  "CheckerConfig_Validate c =
     (if \<not> hc_RedisClient c then Inl (Err ''health checker config: redis client is required'')
      else if hc_KeyPrefix c = [] then Inl (Err ''health checker config: key prefix cannot be empty'')
      else if hc_CheckPeriod c \<le> 0 then Inr (c\<lparr>hc_CheckPeriod := DefaultCheckPeriod\<rparr>)
      else Inr c)"

record 'w Checker =
  ck_config :: "'w CheckerConfig"
  ck_started :: bool
  ck_routines :: "string list"

definition NewChecker :: "'w CheckerConfig option \<Rightarrow> 'w Checker res" where
  "NewChecker config = (case CheckerConfig_Validate (case config of None \<Rightarrow> DefaultCheckerConfig | Some c \<Rightarrow> c) of
     Inl e \<Rightarrow> Inl (Wrapf ''invalid health checker config'' e)
   | Inr c \<Rightarrow> Inr \<lparr>ck_config = c, ck_started = False, ck_routines = []\<rparr>)"

text \<open>The package variables \<open>once\<close> and \<open>stdChecker\<close>; \<open>GetChecker\<close> panics (\<open>None\<close>) before a successful start.\<close>

record 'w StdChecker =
  sk_done :: bool
  sk_checker :: "'w Checker option"

definition InitChecker :: "'w CheckerConfig option \<Rightarrow> 'w StdChecker \<Rightarrow> unit res \<times> 'w StdChecker" where
  "InitChecker config s = (if sk_done s then (Inr (), s)
     else case NewChecker config of
       Inl e \<Rightarrow> (Inl e, s\<lparr>sk_done := True, sk_checker := None\<rparr>)
     | Inr c \<Rightarrow> (Inr (), s\<lparr>sk_done := True, sk_checker := Some c\<rparr>))"

definition GetChecker :: "'w StdChecker \<Rightarrow> 'w Checker option" where
  "GetChecker s = sk_checker s"

definition Checker_Start :: "'w Checker \<Rightarrow> unit res \<times> 'w Checker" where
  "Checker_Start h = (if ck_started h then (Inl (Err ''health checker already started''), h)
     else (Inr (), h\<lparr>ck_routines := ck_routines h @ [''health-checker''], ck_started := True\<rparr>))"

definition Checker_Stop :: "bool \<Rightarrow> 'w Checker \<Rightarrow> unit res \<times> 'w Checker" where
  "Checker_Stop exited h = (if \<not> ck_started h then (Inl (Err ''health checker not started''), h)
     else (Inr (), h\<lparr>ck_routines := (if exited then [] else ck_routines h), ck_started := False\<rparr>))"

section \<open>Heartbeats\<close>

definition heartbeatKey :: "'w CheckerConfig \<Rightarrow> string \<Rightarrow> string" where
  "heartbeatKey c taskType = hc_KeyPrefix c @ ''_task_heartbeat:'' @ taskType"

definition gracePeriodKey :: "'w CheckerConfig \<Rightarrow> string \<Rightarrow> string" where
  "gracePeriodKey c taskType = hc_KeyPrefix c @ ''_task_grace_period:'' @ taskType"

text \<open>The two Lua scripts.\<close>

definition setHeartbeatScript :: "string \<Rightarrow> string \<Rightarrow> string \<Rightarrow> string \<Rightarrow> hcmd list" where
  "setHeartbeatScript hb gp workerID v = [HSET hb workerID v, HDEL gp workerID]"

definition deleteHeartbeatScript :: "string \<Rightarrow> string \<Rightarrow> string \<Rightarrow> hcmd list" where
  "deleteHeartbeatScript hb gp workerID = [HDEL hb workerID, HDEL gp workerID]"

definition pair_value :: "int \<Rightarrow> int \<Rightarrow> string" where
  "pair_value a b = itoa a @ ''-'' @ itoa b"

definition SetHeartbeat ::
  "'w CheckerConfig \<Rightarrow> 'q hash_ops \<Rightarrow> gotime \<Rightarrow> string \<Rightarrow> string \<Rightarrow> nat \<Rightarrow> 'q \<Rightarrow> 'q res" where
  "SetHeartbeat c H now taskType workerID taskID q =
     (case hx_eval H q (setHeartbeatScript (heartbeatKey c taskType) (gracePeriodKey c taskType) workerID
             (pair_value (unix_seconds now) (int taskID))) of
        Inl e \<Rightarrow> Inl (Wrapf ''failed to set heartbeat'' e)
      | Inr q' \<Rightarrow> Inr q')"

definition DeleteHeartbeat :: "'w CheckerConfig \<Rightarrow> 'q hash_ops \<Rightarrow> string \<Rightarrow> string \<Rightarrow> 'q \<Rightarrow> 'q res" where
  "DeleteHeartbeat c H taskType workerID q =
     (case hx_eval H q (deleteHeartbeatScript (heartbeatKey c taskType) (gracePeriodKey c taskType) workerID) of
        Inl e \<Rightarrow> Inl (Wrapf ''failed to delete heartbeat'' e)
      | Inr q' \<Rightarrow> Inr q')"

definition GetWorkerCount :: "'w CheckerConfig \<Rightarrow> 'q hash_ops \<Rightarrow> string \<Rightarrow> 'q \<Rightarrow> int res" where
  "GetWorkerCount c H taskType q = (case hx_len H q (heartbeatKey c taskType) of
     Inl e \<Rightarrow> Inl (Wrapf ''failed to get worker count'' e)
   | Inr n \<Rightarrow> Inr n)"

definition IsWorkerAlive :: "'w CheckerConfig \<Rightarrow> 'q hash_ops \<Rightarrow> gotime \<Rightarrow> string \<Rightarrow> string \<Rightarrow> 'q \<Rightarrow> bool res" where
  "IsWorkerAlive c H now taskType workerID q = (case hx_get H q (heartbeatKey c taskType) workerID of
     Inl e \<Rightarrow> (if errors_is e redis_Nil then Inr False else Inl e)
   | Inr v \<Rightarrow>
       (let parts = split_on CHR ''-'' v in
        if length parts < 2 then Inr False
        else case parse_int64 (parts ! 0) of
          None \<Rightarrow> Inr False
        | Some timestamp \<Rightarrow> Inr (unix_seconds now - timestamp \<le> HeartbeatTimeout)))"

section \<open>The sweep\<close>

definition getWorkerStatus :: "int \<Rightarrow> int \<Rightarrow> string \<Rightarrow> (string \<Rightarrow> string option) \<Rightarrow> WorkerStatus" where
  "getWorkerStatus clock elapsed workerID graceMap =
     (if elapsed \<le> HeartbeatTimeout then WorkerStatusHealthy
      else case graceMap workerID of
        None \<Rightarrow> WorkerStatusGracePeriod
      | Some v \<Rightarrow>
          (let parts = split_on CHR ''-'' v in
           if length parts < 1 then WorkerStatusGracePeriod
           else case parse_int64 (parts ! 0) of
             None \<Rightarrow> WorkerStatusGracePeriod
           | Some graceEnterTime \<Rightarrow>
               (if GracePeriodTimeout < clock - graceEnterTime then WorkerStatusDead else WorkerStatusGracePeriod)))"

text \<open>A command whose error is only logged leaves the server as it was when it fails.\<close>

definition or_same :: "'q \<Rightarrow> 'q res \<Rightarrow> 'q" where
  "or_same q r = (case r of Inl _ \<Rightarrow> q | Inr q' \<Rightarrow> q')"

text \<open>The loop body for one worker: \<open>now\<close> is the sweep's reading, \<open>clock\<close> the later one.\<close>

definition check_worker ::
  "'w CheckerConfig \<Rightarrow> 'q hash_ops \<Rightarrow> string \<Rightarrow> int \<Rightarrow> int \<Rightarrow> (string \<Rightarrow> string option) \<Rightarrow> string \<Rightarrow> string \<Rightarrow> 'q \<Rightarrow> 'w \<Rightarrow> 'q \<times> 'w" where
  "check_worker c H taskType now clock graceMap workerID heartbeatValue q w =
     (let parts = split_on CHR ''-'' heartbeatValue in
      if length parts < 2 then (or_same q (DeleteHeartbeat c H taskType workerID q), w)
      else case parse_int64 (parts ! 0) of
        None \<Rightarrow> (or_same q (DeleteHeartbeat c H taskType workerID q), w)
      | Some timestamp \<Rightarrow>
          (let elapsed = now - timestamp;
               taskID = (case parse_uint64 (parts ! 1) of Some tid \<Rightarrow> tid | None \<Rightarrow> 0) in
           case getWorkerStatus clock elapsed workerID graceMap of
             WorkerStatusHealthy \<Rightarrow>
               (if graceMap workerID \<noteq> None
                then (or_same q (hx_eval H q [HDEL (gracePeriodKey c taskType) workerID]), w) else (q, w))
           | WorkerStatusGracePeriod \<Rightarrow>
               (if graceMap workerID = None
                then (or_same q (hx_eval H q [HSET (gracePeriodKey c taskType) workerID (pair_value now timestamp)]), w)
                else (q, w))
           | WorkerStatusDead \<Rightarrow>
               (case hc_OnWorkerDead c of
                  None \<Rightarrow> (or_same q (DeleteHeartbeat c H taskType workerID q), w)
                | Some cb \<Rightarrow>
                    (case cb \<lparr>dw_WorkerID = workerID, dw_TaskType = taskType, dw_TaskID = taskID,
                              dw_LastHeartbeat = timestamp\<rparr> w of
                       (Inl e, w') \<Rightarrow> (q, w')
                     | (Inr _, w') \<Rightarrow> (or_same q (DeleteHeartbeat c H taskType workerID q), w')))))"

fun check_workers ::
  "'w CheckerConfig \<Rightarrow> 'q hash_ops \<Rightarrow> string \<Rightarrow> int \<Rightarrow> (string \<Rightarrow> int) \<Rightarrow> (string \<Rightarrow> string option) \<Rightarrow>
     (string \<times> string) list \<Rightarrow> 'q \<Rightarrow> 'w \<Rightarrow> 'q \<times> 'w" where
  "check_workers c H taskType now clock graceMap [] q w = (q, w)"
| "check_workers c H taskType now clock graceMap ((workerID, v) # rest) q w =
     (let (q1, w1) = check_worker c H taskType now (clock workerID) graceMap workerID v q w in
      check_workers c H taskType now clock graceMap rest q1 w1)"

text \<open>\<open>clock workerID\<close> is the clock reading for that worker; the hash is ranged over in the order it is listed.\<close>

definition checkTaskTypeWorkers ::
  "'w CheckerConfig \<Rightarrow> 'q hash_ops \<Rightarrow> string \<Rightarrow> int \<Rightarrow> (string \<Rightarrow> int) \<Rightarrow> 'q \<Rightarrow> 'w \<Rightarrow> unit res \<times> 'q \<times> 'w" where
  "checkTaskTypeWorkers c H taskType now clock q w =
     (case hx_getall H q (heartbeatKey c taskType) of
        Inl e \<Rightarrow> (Inl (Wrapf ''failed to get workers'' e), q, w)
      | Inr heartbeatMap \<Rightarrow>
          (let graceMap = (case hx_getall H q (gracePeriodKey c taskType) of
                  Inl e \<Rightarrow> Map.empty | Inr fvs \<Rightarrow> map_of fvs);
               (q', w') = check_workers c H taskType now clock graceMap heartbeatMap q w
           in (Inr (), q', w')))"

partial_function (option) health_scan ::
  "'q hash_ops \<Rightarrow> 'q \<Rightarrow> string \<Rightarrow> nat \<Rightarrow> string list \<Rightarrow> string list res option" where
  "health_scan H q pat cursor keys =
     (case hx_scan H q cursor pat 100 of
        Inl e \<Rightarrow> Some (Inl (Wrapf ''failed to scan keys'' e))
      | Inr (kk, nextCursor) \<Rightarrow>
          (if nextCursor = 0 then Some (Inr (keys @ kk)) else health_scan H q pat nextCursor (keys @ kk)))"

definition getAllTaskTypes :: "'w CheckerConfig \<Rightarrow> 'q hash_ops \<Rightarrow> 'q \<Rightarrow> string list res option" where
  "getAllTaskTypes c H q = (case health_scan H q (hc_KeyPrefix c @ ''_task_heartbeat:*'') 0 [] of
     None \<Rightarrow> None
   | Some (Inl e) \<Rightarrow> Some (Inl e)
   | Some (Inr keys) \<Rightarrow>
       (let prefix = hc_KeyPrefix c @ ''_task_heartbeat:'' in
        Some (Inr (map (drop (length prefix)) (filter (\<lambda>key. length prefix < length key) keys)))))"

fun check_types ::
  "'w CheckerConfig \<Rightarrow> 'q hash_ops \<Rightarrow> int \<Rightarrow> (string \<Rightarrow> string \<Rightarrow> int) \<Rightarrow> string list \<Rightarrow> 'q \<Rightarrow> 'w \<Rightarrow> 'q \<times> 'w" where
  "check_types c H now clock [] q w = (q, w)"
| "check_types c H now clock (ty # tys) q w =
     (let (r, q1, w1) = checkTaskTypeWorkers c H ty now (clock ty) q w in check_types c H now clock tys q1 w1)"

definition CheckWorkerHealth ::
  "'w CheckerConfig \<Rightarrow> 'q hash_ops \<Rightarrow> gotime \<Rightarrow> (string \<Rightarrow> string \<Rightarrow> int) \<Rightarrow> 'q \<Rightarrow> 'w \<Rightarrow> (unit res \<times> 'q \<times> 'w) option" where
  "CheckWorkerHealth c H now clock q w = (case getAllTaskTypes c H q of
     None \<Rightarrow> None
   | Some (Inl e) \<Rightarrow> Some (Inl e, q, w)
   | Some (Inr types) \<Rightarrow> Some (Inr (), check_types c H (unix_seconds now) clock types q w))"

text \<open>One tick of the routine.\<close>

definition healthCheckRoutine ::
  "'w CheckerConfig \<Rightarrow> 'q hash_ops \<Rightarrow> gotime \<Rightarrow> (string \<Rightarrow> string \<Rightarrow> int) \<Rightarrow> bool \<Rightarrow> 'q \<Rightarrow> 'w \<Rightarrow> ('q \<times> 'w) option" where
  "healthCheckRoutine c H now clock isMaster q w =
     (if \<not> isMaster then Some (q, w) else map_option snd (CheckWorkerHealth c H now clock q w))"

end
