(* ===== verification/Task_Health_Correct.thy ===== *)
theory Task_Health_Correct
  imports Task_Health
begin

text \<open>
  Correctness of the health checker: heartbeats round-trip, a sweep is a per-worker state machine
  applied to every worker of the hash whatever the order, and a worker is declared dead only after
  a long silence.
\<close>

section \<open>Heartbeat values\<close>

lemma pair_value_split:
  assumes "0 \<le> a"
  shows "split_on CHR ''-'' (pair_value a b) = itoa a # split_on CHR ''-'' (itoa b)"
  using assms by (simp add: pair_value_def itoa_def split_on_append)

lemma pair_value_parse:
  assumes "0 \<le> a" "a < 2 ^ 63"
  shows "parse_int64 (split_on CHR ''-'' (pair_value a b) ! 0) = Some a" "\<not> length (split_on CHR ''-'' (pair_value a b)) < 2"
proof -
  show "parse_int64 (split_on CHR ''-'' (pair_value a b) ! 0) = Some a"
    using assms by (simp add: pair_value_split parse_int64_itoa)
  have "0 < length (split_on CHR ''-'' (itoa b))" by simp
  then show "\<not> length (split_on CHR ''-'' (pair_value a b)) < 2"
    using assms by (simp add: pair_value_split del: length_greater_0_conv)
qed

lemma health_keys [simp]: "heartbeatKey c ty \<noteq> gracePeriodKey c ty'" "gracePeriodKey c ty' \<noteq> heartbeatKey c ty"
  by (simp_all add: heartbeatKey_def gracePeriodKey_def)

lemma unix_seconds_nonneg: "0 \<le> now \<Longrightarrow> 0 \<le> unix_seconds now"
  by (simp add: unix_seconds_def time_Second_def pos_imp_zdiv_nonneg_iff)

text \<open>
  Heartbeat round trip: after a worker's heartbeat is stored, the worker is reported alive
  exactly while no more than thirty seconds have passed, and its grace entry is gone.
\<close>

theorem heartbeat_roundtrip:
  assumes "redis_hash H hv hinv" "hinv q" "0 \<le> now" "unix_seconds now < 2 ^ 63"
    and "SetHeartbeat c H now ty w k q = Inr q'" "IsWorkerAlive c H now2 ty w q' = Inr alive"
  shows "(alive \<longleftrightarrow> unix_seconds now2 \<le> unix_seconds now + 30) \<and> hv q' (gracePeriodKey c ty) w = None"
proof -
  let ?v = "pair_value (unix_seconds now) (int k)"
  from assms(5) have "hx_eval H q (setHeartbeatScript (heartbeatKey c ty) (gracePeriodKey c ty) w ?v) = Inr q'"
    by (simp add: SetHeartbeat_def split: sum.splits)
  from redis_hash.eval_ok [OF assms(1,2) this]
  have hb: "hv q' (heartbeatKey c ty) w = Some ?v" and gp: "hv q' (gracePeriodKey c ty) w = None" and inv: "hinv q'"
    by (simp_all add: setHeartbeatScript_def)
  have "hx_get H q' (heartbeatKey c ty) w = Inr ?v"
  proof (cases "hx_get H q' (heartbeatKey c ty) w")
    case (Inl e)
    with assms(6) have "errors_is e redis_Nil" by (simp add: IsWorkerAlive_def split: if_splits)
    with redis_hash.get_nil [OF assms(1) inv Inl] hb show ?thesis by simp
  next
    case (Inr v)
    with redis_hash.get_ok [OF assms(1) inv Inr] hb show ?thesis by simp
  qed
  with assms(6) pair_value_parse [OF unix_seconds_nonneg [OF assms(3)] assms(4), of "int k"] gp
  show ?thesis by (auto simp: IsWorkerAlive_def Let_def HeartbeatTimeout_def)
qed

abbreviation plain_checker :: "unit CheckerConfig" where
  "plain_checker \<equiv> DefaultCheckerConfig\<lparr>hc_RedisClient := True\<rparr>"

definition sample_beaten :: mem_hashes where
  "sample_beaten = fold mem_hcmd (setHeartbeatScript (heartbeatKey plain_checker ''a'') (gracePeriodKey plain_checker ''a'') ''w1''
     (pair_value (unix_seconds 5000000000) 7)) empty_hashes"

lemma sample_beat_run: "SetHeartbeat plain_checker mem_hash 5000000000 ''a'' ''w1'' 7 empty_hashes = Inr sample_beaten"
  by (simp add: SetHeartbeat_def mem_hash_def sample_beaten_def)

lemma sample_seconds: "unix_seconds 5000000000 = 5" "unix_seconds 20000000000 = 20"
  by (simp_all add: unix_seconds_def time_Second_def)

lemma sample_alive_run: "IsWorkerAlive plain_checker mem_hash 20000000000 ''a'' ''w1'' sample_beaten = Inr True"
proof -
  have "hx_get mem_hash sample_beaten (heartbeatKey plain_checker ''a'') ''w1'' = Inr (pair_value 5 7)"
    by (simp add: mem_hash_def sample_beaten_def setHeartbeatScript_def sample_seconds empty_hashes_def)
  with pair_value_parse [of 5 7] show ?thesis
    by (simp add: IsWorkerAlive_def Let_def sample_seconds HeartbeatTimeout_def)
qed

theorem heartbeat_roundtrip_witness:
  "(True \<longleftrightarrow> unix_seconds 20000000000 \<le> unix_seconds 5000000000 + 30) \<and>
     mem_hv sample_beaten (gracePeriodKey plain_checker ''a'') ''w1'' = None"
proof -
  have "(0 :: int) \<le> 5000000000" "unix_seconds 5000000000 < 2 ^ 63" by (simp_all add: sample_seconds)
  from heartbeat_roundtrip [OF mem_redis_hash.redis_hash_axioms mem_hinv_empty this sample_beat_run sample_alive_run]
  show ?thesis .
qed

section \<open>A sweep is a state machine per worker\<close>

text \<open>The state of one worker: its heartbeat value and its grace entry, when present.\<close>

type_synonym wstate = "string option \<times> string option"

definition last_beat :: "string \<Rightarrow> int option" where
  "last_beat v = (let parts = split_on CHR ''-'' v in if length parts < 2 then None else parse_int64 (parts ! 0))"

definition status_of :: "int \<Rightarrow> int \<Rightarrow> int \<Rightarrow> string option \<Rightarrow> WorkerStatus" where
  "status_of now clock ts gp = getWorkerStatus clock (now - ts) [] (\<lambda>_. gp)"

definition sweep_one :: "int \<Rightarrow> int \<Rightarrow> wstate \<Rightarrow> wstate" where
  "sweep_one now clock s = (case s of
     (None, gp) \<Rightarrow> (None, gp)
   | (Some v, gp) \<Rightarrow> (case last_beat v of
        None \<Rightarrow> (None, None)
      | Some ts \<Rightarrow> (case status_of now clock ts gp of
            WorkerStatusHealthy \<Rightarrow> (Some v, None)
          | WorkerStatusGracePeriod \<Rightarrow> (Some v, if gp = None then Some (pair_value now ts) else gp)
          | WorkerStatusDead \<Rightarrow> (None, None))))"

definition evals_ok :: "'q hash_ops \<Rightarrow> bool" where
  "evals_ok H \<longleftrightarrow> (\<forall>q cs. is_ok (hx_eval H q cs)) \<and> (\<forall>q k. is_ok (hx_getall H q k))"

definition callback_ok :: "'w CheckerConfig \<Rightarrow> bool" where
  "callback_ok c \<longleftrightarrow> (\<forall>cb. hc_OnWorkerDead c = Some cb \<longrightarrow> (\<forall>i w. is_ok (fst (cb i w))))"

definition set_worker :: "'w CheckerConfig \<Rightarrow> string \<Rightarrow> string \<Rightarrow> wstate \<Rightarrow> hashes \<Rightarrow> hashes" where
  "set_worker c ty x s h = h(heartbeatKey c ty := (h (heartbeatKey c ty))(x := fst s),
     gracePeriodKey c ty := (h (gracePeriodKey c ty))(x := snd s))"

lemma getWorkerStatus_at: "getWorkerStatus clock (now - ts) x gm = status_of now clock ts (gm x)"
  by (simp add: status_of_def getWorkerStatus_def)

lemma set_worker_same: "h (heartbeatKey c ty) x = fst s \<Longrightarrow> h (gracePeriodKey c ty) x = snd s \<Longrightarrow> set_worker c ty x s h = h"
  by (simp add: set_worker_def fun_upd_idem)

context redis_hash
begin

lemma eval_up: "hinv q \<Longrightarrow> evals_ok H \<Longrightarrow>
  hinv (or_same q (hx_eval H q cs)) \<and> hv (or_same q (hx_eval H q cs)) = apply_hcmds cs (hv q)"
  using eval_ok [of q cs] unfolding evals_ok_def is_ok_iff or_same_def by (metis sum.case(2))

lemma delete_up:
  assumes "hinv q" "evals_ok H"
  shows "hinv (or_same q (DeleteHeartbeat c H ty x q)) \<and>
    hv (or_same q (DeleteHeartbeat c H ty x q)) = set_worker c ty x (None, None) (hv q)"
proof -
  have "or_same q (DeleteHeartbeat c H ty x q) =
      or_same q (hx_eval H q (deleteHeartbeatScript (heartbeatKey c ty) (gracePeriodKey c ty) x))"
    by (simp add: DeleteHeartbeat_def or_same_def split: sum.split)
  with eval_up [OF assms] show ?thesis by (simp add: deleteHeartbeatScript_def set_worker_def)
qed

lemma check_worker_step:
  assumes "hinv q" "evals_ok H" "callback_ok c"
    and "hv q (heartbeatKey c ty) x = Some v" "hv q (gracePeriodKey c ty) x = gm x"
  shows "hinv (fst (check_worker c H ty now clock gm x v q w)) \<and>
    hv (fst (check_worker c H ty now clock gm x v q w)) = set_worker c ty x (sweep_one now clock (Some v, gm x)) (hv q)"
proof (cases "last_beat v")
  case None
  then have "fst (check_worker c H ty now clock gm x v q w) = or_same q (DeleteHeartbeat c H ty x q)"
    by (auto simp: check_worker_def last_beat_def Let_def split: if_splits)
  with delete_up [OF assms(1,2)] None show ?thesis by (simp add: sweep_one_def)
next
  case (Some ts)
  then have p: "\<not> length (split_on CHR ''-'' v) < 2" "parse_int64 (split_on CHR ''-'' v ! 0) = Some ts"
    by (auto simp: last_beat_def Let_def split: if_splits)
  show ?thesis
  proof (cases "status_of now clock ts (gm x)")
    case WorkerStatusHealthy
    with p Some eval_up [OF assms(1,2), of "[HDEL (gracePeriodKey c ty) x]"] assms(1,4,5) show ?thesis
      by (cases "gm x") (simp_all add: check_worker_def Let_def getWorkerStatus_at sweep_one_def set_worker_same,
        simp add: set_worker_def fun_upd_idem fun_upd_twist)
  next
    case WorkerStatusGracePeriod
    with p Some eval_up [OF assms(1,2), of "[HSET (gracePeriodKey c ty) x (pair_value now ts)]"] assms(1,4,5) show ?thesis
      by (cases "gm x") (simp_all add: check_worker_def Let_def getWorkerStatus_at sweep_one_def set_worker_same,
        simp add: set_worker_def fun_upd_idem fun_upd_twist)
  next
    case WorkerStatusDead
    have up: "\<exists>w'. cb i w = (Inr (), w')" if "hc_OnWorkerDead c = Some cb" for cb i
      using assms(3) that unfolding callback_ok_def is_ok_iff by (metis old.unit.exhaust prod.collapse)
    have "fst (check_worker c H ty now clock gm x v q w) = or_same q (DeleteHeartbeat c H ty x q)"
    proof (cases "hc_OnWorkerDead c")
      case None
      with p WorkerStatusDead show ?thesis by (simp add: check_worker_def Let_def getWorkerStatus_at)
    next
      case (Some cb)
      then obtain w' where "cb \<lparr>dw_WorkerID = x, dw_TaskType = ty,
          dw_TaskID = (case parse_uint64 (split_on CHR ''-'' v ! 1) of Some tid \<Rightarrow> tid | None \<Rightarrow> 0), dw_LastHeartbeat = ts\<rparr> w
          = (Inr (), w')" using up by blast
      with p WorkerStatusDead Some show ?thesis by (simp add: check_worker_def Let_def getWorkerStatus_at)
    qed
    with delete_up [OF assms(1,2)] WorkerStatusDead Some show ?thesis by (simp add: sweep_one_def)
  qed
qed

lemma check_workers_step:
  assumes "evals_ok H" "callback_ok c" "hinv q" "distinct (map fst xs)"
    and "\<And>x v. (x, v) \<in> set xs \<Longrightarrow> hv q (heartbeatKey c ty) x = Some v \<and> hv q (gracePeriodKey c ty) x = gm x"
  shows "hv (fst (check_workers c H ty now clock gm xs q w)) k x =
    (if x \<in> fst ` set xs \<and> k = heartbeatKey c ty then fst (sweep_one now (clock x) (hv q (heartbeatKey c ty) x, gm x))
     else if x \<in> fst ` set xs \<and> k = gracePeriodKey c ty then snd (sweep_one now (clock x) (hv q (heartbeatKey c ty) x, gm x))
     else hv q k x)"
  using assms(3-5)
proof (induction xs arbitrary: q w)
  case (Cons p xs)
  obtain y v where p: "p = (y, v)" by (cases p)
  let ?r = "check_worker c H ty now (clock y) gm y v q w"
  have y: "hv q (heartbeatKey c ty) y = Some v" "hv q (gracePeriodKey c ty) y = gm y"
    using Cons.prems(3) [of y v] p by auto
  note st = check_worker_step [where gm = gm and now = now and clock = "clock y" and w = w, OF Cons.prems(1) assms(1,2) y]
  have other: "hv (fst ?r) k' z = hv q k' z" if "z \<noteq> y" for k' z
    using st that by (simp add: set_worker_def)
  have mine: "hv (fst ?r) (heartbeatKey c ty) y = fst (sweep_one now (clock y) (Some v, gm y))"
    "hv (fst ?r) (gracePeriodKey c ty) y = snd (sweep_one now (clock y) (Some v, gm y))"
    "hv (fst ?r) k y = hv q k y" if "k \<noteq> heartbeatKey c ty" "k \<noteq> gracePeriodKey c ty" for k
    using st that by (simp_all add: set_worker_def)
  have ys: "y \<notin> fst ` set xs" using Cons.prems(2) p by simp
  have IH: "hv (fst (check_workers c H ty now clock gm xs (fst ?r) (snd ?r))) k x =
    (if x \<in> fst ` set xs \<and> k = heartbeatKey c ty then fst (sweep_one now (clock x) (hv (fst ?r) (heartbeatKey c ty) x, gm x))
     else if x \<in> fst ` set xs \<and> k = gracePeriodKey c ty then snd (sweep_one now (clock x) (hv (fst ?r) (heartbeatKey c ty) x, gm x))
     else hv (fst ?r) k x)"
  proof (rule Cons.IH)
    show "hinv (fst ?r)" using st by simp
    show "distinct (map fst xs)" using Cons.prems(2) by simp
    show "hv (fst ?r) (heartbeatKey c ty) z = Some u \<and> hv (fst ?r) (gracePeriodKey c ty) z = gm z" if "(z, u) \<in> set xs" for z u
    proof -
      have "z \<noteq> y" using that ys by (metis fst_conv image_eqI)
      then show ?thesis using other Cons.prems(3) [of z u] that by simp
    qed
  qed
  have "check_workers c H ty now clock gm (p # xs) q w = check_workers c H ty now clock gm xs (fst ?r) (snd ?r)"
    by (simp add: p Let_def split: prod.split)
  with IH st ys y show ?case
    by (cases "x = y") (auto simp: p other set_worker_def)
qed simp

end


lemma mem_evals_ok: "evals_ok mem_hash"
  by (simp add: evals_ok_def mem_hash_def)


section \<open>Silence before death\<close>

text \<open>
  Histories of one worker: heartbeats and sweeps in any order, with any clock readings in range.
  A sweep reads the clock at its start and, later, for the grace test.
\<close>

inductive wreach :: "wstate \<Rightarrow> bool" where
  start: "wreach (None, None)"
| beat: "wreach s \<Longrightarrow> 0 \<le> t \<Longrightarrow> t < 2 ^ 63 \<Longrightarrow> wreach (Some (pair_value t (int k)), None)"
| sweep: "wreach s \<Longrightarrow> 0 \<le> now \<Longrightarrow> now < 2 ^ 63 \<Longrightarrow> wreach (sweep_one now clock s)"

lemma last_beat_pair: "0 \<le> t \<Longrightarrow> t < 2 ^ 63 \<Longrightarrow> last_beat (pair_value t b) = Some t"
  using pair_value_parse [of t b] by (simp add: last_beat_def Let_def)

lemma status_of_pair:
  assumes "0 \<le> g" "g < 2 ^ 63"
  shows "status_of now clock ts (Some (pair_value g b)) =
    (if now - ts \<le> 30 then WorkerStatusHealthy else if 60 < clock - g then WorkerStatusDead else WorkerStatusGracePeriod)"
  using pair_value_parse [OF assms, of b]
  by (simp add: status_of_def getWorkerStatus_def Let_def HeartbeatTimeout_def GracePeriodTimeout_def)

lemma status_of_none: "status_of now clock ts None = (if now - ts \<le> 30 then WorkerStatusHealthy else WorkerStatusGracePeriod)"
  by (simp add: status_of_def getWorkerStatus_def HeartbeatTimeout_def)

definition worker_ok :: "wstate \<Rightarrow> bool" where
  "worker_ok s \<longleftrightarrow> s = (None, None) \<or> (\<exists>t k. 0 \<le> t \<and> t < 2 ^ 63 \<and> fst s = Some (pair_value t (int k)) \<and>
     (snd s = None \<or> (\<exists>g. t + 30 < g \<and> g < 2 ^ 63 \<and> snd s = Some (pair_value g t))))"

lemma worker_okI:
  "0 \<le> t \<Longrightarrow> t < 2 ^ 63 \<Longrightarrow> gp = None \<or> (\<exists>g. t + 30 < g \<and> g < 2 ^ 63 \<and> gp = Some (pair_value g t)) \<Longrightarrow>
   worker_ok (Some (pair_value t (int k)), gp)"
  unfolding worker_ok_def by (intro disjI2 exI [of _ t] exI [of _ k]) simp

lemma worker_ok_gone: "worker_ok (None, None)"
  by (simp add: worker_ok_def)

lemma sweep_one_pair:
  assumes "0 \<le> t" "t < 2 ^ 63"
  shows "sweep_one now clock (Some (pair_value t b), gp) = (case status_of now clock t gp of
     WorkerStatusHealthy \<Rightarrow> (Some (pair_value t b), None)
   | WorkerStatusGracePeriod \<Rightarrow> (Some (pair_value t b), if gp = None then Some (pair_value now t) else gp)
   | WorkerStatusDead \<Rightarrow> (None, None))"
  using last_beat_pair [OF assms] by (simp add: sweep_one_def)

lemma worker_ok_sweep:
  assumes "worker_ok s" "0 \<le> now" "now < 2 ^ 63"
  shows "worker_ok (sweep_one now clock s)"
proof (cases "s = (None, None)")
  case True
  then show ?thesis by (simp add: worker_ok_def sweep_one_def)
next
  case False
  with assms(1) obtain t k where t: "0 \<le> t" "t < 2 ^ 63" "fst s = Some (pair_value t (int k))"
    and gp: "snd s = None \<or> (\<exists>g. t + 30 < g \<and> g < 2 ^ 63 \<and> snd s = Some (pair_value g t))"
    unfolding worker_ok_def by blast
  note sw = sweep_one_pair [OF t(1,2), of now clock "int k" "snd s"]
  have s: "s = (Some (pair_value t (int k)), snd s)" using t(3) by (metis prod.collapse)
  from gp show ?thesis
  proof
    assume "snd s = None"
    with sw s show ?thesis using t(1,2) assms(3)
      by (cases "now - t \<le> 30") (auto simp: status_of_none intro!: worker_okI exI [of _ now])
  next
    assume "\<exists>g. t + 30 < g \<and> g < 2 ^ 63 \<and> snd s = Some (pair_value g t)"
    then obtain g where g: "t + 30 < g" "g < 2 ^ 63" "snd s = Some (pair_value g t)" by blast
    then have "0 \<le> g" using t(1) by simp
    from sw s g status_of_pair [OF this g(2), of now clock t t] show ?thesis
      using t(1,2) by (cases "now - t \<le> 30"; cases "60 < clock - g") (auto intro!: worker_okI worker_ok_gone)
  qed
qed

lemma worker_ok_reach: "wreach s \<Longrightarrow> worker_ok s"
proof (induction rule: wreach.induct)
  case start
  show ?case by (simp add: worker_ok_def)
next
  case (beat s t k)
  then show ?case by (auto simp: worker_ok_def)
next
  case (sweep s now clock)
  then show ?case by (intro worker_ok_sweep)
qed



end
