(* ===== verification/Task_Lifecycle.thy ===== *)
theory Task_Lifecycle
  imports Task_Manager_Correct
begin

text \<open>
  The life of a task across all operations that write the table. The abstract specification is a
  state machine on a task's status and attempt counter; the refinement theorem says that every
  operation of the repository moves every row by one step of that machine (or not at all). The
  invariants of histories follow by rule induction.

  A worker's result is taken for a task that is running, which is the protocol between workers and
  manager; \<open>SaveTaskResult\<close> itself does not check it.
\<close>

section \<open>The abstract machine\<close>

inductive task_step :: "int \<Rightarrow> TaskStatus \<times> int \<Rightarrow> TaskStatus \<times> int \<Rightarrow> bool" for maxredo where
  stay: "task_step maxredo s s"
| pick: "st \<in> {TaskStatusPending, TaskStatusFailed, TaskStatusTimeout} \<Longrightarrow> n < maxredo \<Longrightarrow>
    task_step maxredo (st, n) (TaskStatusRunning, n)"
| succeed: "task_step maxredo (TaskStatusRunning, n) (TaskStatusSuccess, n)"
| fail: "task_step maxredo (TaskStatusRunning, n) (TaskStatusFailed, n + 1)"
| expire: "task_step maxredo (TaskStatusRunning, n) (TaskStatusTimeout, n + 1)"
| cancel: "st \<in> {TaskStatusPending, TaskStatusFailed} \<Longrightarrow> task_step maxredo (st, n) (TaskStatusCanceled, n)"

inductive_cases task_stepE: "task_step m s t"

definition abs_task :: "TaskEntity \<Rightarrow> TaskStatus \<times> int" where
  "abs_task r = (te_TaskStatus r, te_Redo r)"

definition row_step :: "TaskEntity \<Rightarrow> TaskEntity \<Rightarrow> bool" where
  "row_step r r' \<longleftrightarrow> te_ID r' = te_ID r \<and> te_MaxRedo r' = te_MaxRedo r \<and> task_step (te_MaxRedo r) (abs_task r) (abs_task r')"

lemma row_step_refl [simp]: "row_step r r"
  by (simp add: row_step_def task_step.stay)

section \<open>The operations\<close>

definition fresh_task :: "TaskEntity \<Rightarrow> bool" where
  "fresh_task t \<longleftrightarrow> te_Redo t = 0 \<and> 0 \<le> te_MaxRedo t \<and> te_TaskStatus t \<in> {[], TaskStatusPending}"

text \<open>One committed write of the table. Queue messages play no part in it.\<close>

inductive life :: "'d task_table \<Rightarrow> 'd \<Rightarrow> 'd \<Rightarrow> bool" for T where
  create: "repo_CreateTasks T now ts d = Inr (us, d') \<Longrightarrow> list_all fresh_task ts \<Longrightarrow> life T d d'"
| pick: "GetOnePendingTask T locked now ty w d = Inr (t, d') \<Longrightarrow> life T d d'"
| result: "GetTaskByID T k d = Inr r \<Longrightarrow> IsRunning r \<Longrightarrow>
    tb_save T d (stamp_updated now (apply_result now res e r)) = Inr d' \<Longrightarrow> life T d d'"
| cancel: "repo_CancelTask T now k reason d = Inr d' \<Longrightarrow> life T d d'"
| timeouts: "repo_CheckAndTimeoutTasks L T now (\<lambda>t u. (Inr (), u)) d () = (Inr (), d', ()) \<Longrightarrow> life T d d'"
| restart: "InitTaskDBStatus T now d = Inr d' \<Longrightarrow> life T d d'"
| dead: "HandleDeadWorkerTasks T now ty w k d = Inr (tys, d') \<Longrightarrow> life T d d'"
| delete: "DeleteTask T now k d = Inr d' \<Longrightarrow> life T d d'"

definition refines :: "TaskEntity list \<Rightarrow> TaskEntity list \<Rightarrow> bool" where
  "refines rs rs' \<longleftrightarrow>
     (\<forall>k r. row_at te_ID rs k = Some r \<longrightarrow> (\<exists>r'. row_at te_ID rs' k = Some r' \<and> row_step r r')) \<and>
     (\<forall>k r'. row_at te_ID rs k = None \<longrightarrow> row_at te_ID rs' k = Some r' \<longrightarrow>
        abs_task r' = (TaskStatusPending, 0) \<and> 0 < te_MaxRedo r')"

lemma refines_update:
  assumes "\<And>r. te_ID (f r) = te_ID r" "\<And>r. r \<in> set rs \<Longrightarrow> P r \<Longrightarrow> row_step r (f r)"
  shows "refines rs (update_rows P f rs)"
  unfolding refines_def using row_at_update_rows [of te_ID f P rs, OF assms(1)] assms(2) row_at_SomeD by fastforce

lemma refines_replace:
  assumes "row_at te_ID rs (te_ID t) = Some r" "row_step r t"
  shows "refines rs (replace_row te_ID t rs)"
proof -
  have "te_ID t \<in> te_ID ` set rs" using row_at_SomeD [OF assms(1)] by (metis imageI)
  from row_at_replace_row [OF this] assms show ?thesis by (auto simp: refines_def)
qed

lemma refines_refl: "refines rs rs"
  by (auto simp: refines_def)

lemma row_at_append: "row_at pk (xs @ ys) k = (case row_at pk xs k of Some r \<Rightarrow> Some r | None \<Rightarrow> row_at pk ys k)"
  by (induction xs) simp_all

lemma refines_append:
  assumes "\<And>u. u \<in> set us \<Longrightarrow> abs_task u = (TaskStatusPending, 0) \<and> 0 < te_MaxRedo u"
  shows "refines rs (rs @ us)"
  unfolding refines_def row_at_append using assms row_at_SomeD by (fastforce split: option.splits)

lemma row_step_timeout_row: "te_TaskStatus r = TaskStatusRunning \<Longrightarrow> row_step r (timeout_row now msg r)"
  by (simp add: row_step_def abs_task_def task_step.expire)

lemma row_step_interrupted: "te_TaskStatus r = TaskStatusRunning \<Longrightarrow> row_step r (interrupted_row now r)"
  by (simp add: row_step_def abs_task_def task_step.fail)

lemma row_step_result: "te_TaskStatus r = TaskStatusRunning \<Longrightarrow> row_step r (stamp_updated now (apply_result now res e r))"
  by (simp add: row_step_def abs_task_def saved_fields apply_result_status apply_result_redo
      task_step.succeed task_step.fail task_step.expire split: option.split)

lemma row_step_cancel:
  assumes "te_TaskStatus r = TaskStatusPending \<or> te_TaskStatus r = TaskStatusFailed"
  shows "row_step r (stamp_updated now (updates_struct (MarkAsCanceled now reason r) r))"
  using assms by (auto simp: row_step_def abs_task_def updates_struct_canceled intro: task_step.cancel)

lemma row_step_pick:
  assumes "pending_where ty tbl r"
  shows "row_step r (stamp_updated now (MarkAsRunning now w r))"
  using assms task_keyD(7) [OF mark_key(1), of now w r]
  by (auto simp: pending_where_def row_step_def abs_task_def row_simps intro: task_step.pick)

lemma created_fresh:
  assumes "list_all fresh_task ts"
    and "list_all2 (\<lambda>t u. u = (let s = stamp_created now (default_status t) in
           if te_ID t = 0 then set_task_ID (te_ID u) s else s)) ts us"
    and "u \<in> set us"
  shows "abs_task u = (TaskStatusPending, 0) \<and> 0 < te_MaxRedo u"
proof -
  from assms(3) obtain i where i: "i < length us" "u = us ! i" by (metis in_set_conv_nth)
  let ?t = "ts ! i" let ?s = "stamp_created now (default_status ?t)"
  have len: "length ts = length us" using assms(2) by (rule list_all2_lengthD)
  have "u = (let s = ?s in if te_ID ?t = 0 then set_task_ID (te_ID u) s else s)"
    unfolding i(2) by (rule list_all2_nthD2 [OF assms(2) i(1)])
  then obtain k where "u = set_task_ID k ?s \<or> u = ?s" unfolding Let_def by (metis (full_types))
  then have "te_TaskStatus u = te_TaskStatus ?s \<and> te_Redo u = te_Redo ?s \<and> te_MaxRedo u = te_MaxRedo ?s"
    by (auto simp: set_task_ID_def)
  moreover have "fresh_task ?t" using assms(1) i(1) len by (simp add: list_all_length)
  ultimately show ?thesis by (auto simp: fresh_task_def abs_task_def default_status_def)
qed

lemma life_refines_step:
  assumes "task_store T rows tinv" "life T d d'" "tinv d"
  shows "tinv d' \<and> refines (rows d) (rows d')"
proof -
  have tab: "sql_table T rows tinv te_ID set_task_ID" using assms(1) by (simp add: task_store_def)
  show ?thesis using assms(2)
  proof cases
    case (create now ts us)
    note c = CreateTasks_rows [OF assms(1,3) create(1)]
    with refines_append [OF created_fresh [OF create(2) c(4)]] show ?thesis by simp
  next
    case (pick locked now ty w t)
    show ?thesis
    proof (cases "te_ID t = 0")
      case True
      then have "d' = d" using task_store.GetOnePendingTask_none [OF assms(1,3) pick] by blast
      with assms(3) refines_refl show ?thesis by simp
    next
      case False
      from task_store.GetOnePendingTask_picked [OF assms(1,3) pick False] obtain r where
        r: "r \<in> set (rows d)" "pending_where ty (rows d) r" "t = stamp_updated now (MarkAsRunning now w r)" "tinv d'"
        "rows d' = replace_row te_ID t (rows d)" by metis
      have "row_at te_ID (rows d) (te_ID t) = Some r" using sql_table.row_at_mem [OF tab assms(3) r(1)] r(3) by simp
      with r row_step_pick show ?thesis by (simp add: refines_replace)
    qed
  next
    case (result k r now res e)
    note g = task_store.GetTaskByID_Inr [OF assms(1,3) result(1)]
    let ?t = "stamp_updated now (apply_result now res e r)"
    have "te_ID ?t \<in> te_ID ` set (rows d)" using g(2) by simp
    from sql_table.save_row [OF tab assms(3) result(3) this] g(1,3) row_step_result result(2) show ?thesis
      by (simp add: refines_replace IsRunning_def)
  next
    case (cancel now k reason)
    obtain r where r: "row_at te_ID (rows d) k = Some r"
      "te_TaskStatus r = TaskStatusPending \<or> te_TaskStatus r = TaskStatusFailed" "tinv d'"
      "rows d' = map (\<lambda>x. if te_ID x = k then stamp_updated now (updates_struct (MarkAsCanceled now reason r) r) else x) (rows d)"
      by (rule task_store.CancelTask_row [OF assms(1,3) cancel]) (rule that)
    let ?t = "stamp_updated now (updates_struct (MarkAsCanceled now reason r) r)"
    have "te_ID ?t = k" using r(1) by (auto dest: row_at_SomeD)
    then have "rows d' = replace_row te_ID ?t (rows d)" using r(4) by (simp add: replace_row_def)
    moreover have "refines (rows d) (replace_row te_ID ?t (rows d))"
      using r(1) \<open>te_ID ?t = k\<close> row_step_cancel [OF r(2)] by (intro refines_replace) simp_all
    ultimately show ?thesis using r(3) by simp
  next
    case (timeouts L now)
    have "task_system T rows tinv mem_streams mem_strm mem_grp mem_qinv"
      using assms(1) mem_redis.redis_stream_axioms by (intro task_system.intro)
    from task_system.CheckAndTimeout_rows [OF this assms(3) timeouts] have "tinv d'"
      "rows d' = update_rows (times_out now) (timeout_row now ''task execution timeout (worker heartbeat lost)'') (rows d)"
      by blast+
    then show ?thesis by (auto intro!: refines_update row_step_timeout_row simp: times_out_def)
  next
    case (restart now)
    then have "tb_update T d (\<lambda>r. te_TaskStatus r = TaskStatusRunning \<and> not_deleted r) (interrupted_row now) = Inr d'"
      by (simp add: InitTaskDBStatus_def split: sum.splits)
    from sql_table.update_rows_ok [OF tab assms(3) this] show ?thesis
      by (auto intro!: refines_update row_step_interrupted)
  next
    case (dead now ty w k tys)
    from HandleDeadWorkerTasks_rows [OF assms(1,3) dead] show ?thesis
      by (auto intro!: refines_update row_step_timeout_row)
  next
    case (delete now k)
    then have "tb_update T d (\<lambda>r. te_ID r = k) (\<lambda>r. r\<lparr>te_DeletedAt := Some now\<rparr>) = Inr d'"
      by (simp add: DeleteTask_def Delete_def split: sum.splits)
    from sql_table.update_rows_ok [OF tab assms(3) this] show ?thesis
      by (auto intro!: refines_update simp: row_step_def abs_task_def task_step.stay)
  qed
qed

section \<open>Properties\<close>


definition sample_restarted :: "TaskEntity list" where
  "sample_restarted = (case InitTaskDBStatus mem_db 50 sample_rows of Inr d \<Rightarrow> d | Inl _ \<Rightarrow> [])"

lemma sample_life: "life mem_db sample_rows sample_restarted"
proof (rule life.restart [where now = 50])
  from sample_init_run obtain d' where "InitTaskDBStatus mem_db 50 sample_rows = Inr d'" by (auto simp: is_ok_iff)
  then show "InitTaskDBStatus mem_db 50 sample_rows = Inr sample_restarted" by (simp add: sample_restarted_def)
qed


text \<open>Histories: any sequence of committed writes.\<close>

inductive history :: "'d task_table \<Rightarrow> 'd \<Rightarrow> 'd \<Rightarrow> bool" for T d where
  none: "history T d d"
| more: "history T d d1 \<Longrightarrow> life T d1 d2 \<Longrightarrow> history T d d2"

definition within_budget :: "TaskEntity \<Rightarrow> bool" where
  "within_budget r \<longleftrightarrow> 0 \<le> te_Redo r \<and> te_Redo r \<le> te_MaxRedo r \<and>
     (te_TaskStatus r = TaskStatusRunning \<longrightarrow> te_Redo r < te_MaxRedo r)"

lemma within_budget_step: "within_budget r \<Longrightarrow> row_step r r' \<Longrightarrow> within_budget r'"
  by (auto simp: within_budget_def row_step_def abs_task_def elim!: task_stepE)

lemma refines_all:
  assumes "refines rs rs'" "distinct (map te_ID rs')" "\<And>r. r \<in> set rs \<Longrightarrow> P r"
    and "\<And>r r'. P r \<Longrightarrow> row_step r r' \<Longrightarrow> P r'"
    and "\<And>r'. abs_task r' = (TaskStatusPending, 0) \<Longrightarrow> 0 < te_MaxRedo r' \<Longrightarrow> P r'"
    and "r' \<in> set rs'"
  shows "P r'"
proof (cases "row_at te_ID rs (te_ID r')")
  case None
  with assms(1,5) row_at_in [OF assms(2,6)] show ?thesis unfolding refines_def by blast
next
  case (Some r)
  with assms(1) row_at_in [OF assms(2,6)] have "row_step r r'" unfolding refines_def by force
  with assms(3,4) row_at_SomeD [OF Some] show ?thesis by blast
qed

lemma history_tinv: "history T d d' \<Longrightarrow> task_store T rows tinv \<Longrightarrow> tinv d \<Longrightarrow> tinv d'"
  by (induction rule: history.induct) (auto dest: life_refines_step)


lemma mem_wf_Nil: "mem_wf te_ID []"
  by (simp add: mem_wf_def)

definition sample_created :: "TaskEntity list" where
  "sample_created = (case repo_CreateTasks mem_db 9 [sample_task 0 ''a'' [] 1 0] [] of Inr (us, d) \<Rightarrow> d | Inl _ \<Rightarrow> [])"

lemma sample_created_facts:
  "is_ok (repo_CreateTasks mem_db 9 [sample_task 0 ''a'' [] 1 0] [])" "list_all fresh_task [sample_task 0 ''a'' [] 1 0]"
  "hd sample_created \<in> set sample_created"
  by code_simp+

lemma sample_history: "history mem_db [] sample_created"
proof -
  from sample_created_facts(1) obtain us d' where c: "repo_CreateTasks mem_db 9 [sample_task 0 ''a'' [] 1 0] [] = Inr (us, d')"
    unfolding is_ok_iff by auto
  then have "repo_CreateTasks mem_db 9 [sample_task 0 ''a'' [] 1 0] [] = Inr (us, sample_created)"
    unfolding sample_created_def c by simp
  then show ?thesis by (rule history.more [OF history.none life.create [OF _ sample_created_facts(2)]])
qed




end
