(* ===== verification/Redis_Kv.thy ===== *)
theory Redis_Kv
  imports Redis_Stream
begin

text \<open>
  The Redis string commands (SET, SET NX with an expiry, GET, EXPIRE, EXISTS, DEL) on an abstract
  server state \<open>'q\<close>; the server's clock reading at each command is an argument. The locale
  \<open>redis_kv\<close> names the documented behaviour in terms of the view \<open>ent\<close>: the value of a key and the
  instant it expires (\<open>None\<close> for a key that does not).
\<close>

record 'q kv_ops =
  kv_set :: "'q \<Rightarrow> gotime \<Rightarrow> string \<Rightarrow> string \<Rightarrow> duration \<Rightarrow> 'q res"
  kv_setnx :: "'q \<Rightarrow> gotime \<Rightarrow> string \<Rightarrow> string \<Rightarrow> duration \<Rightarrow> (bool \<times> 'q) res"
  kv_get :: "'q \<Rightarrow> gotime \<Rightarrow> string \<Rightarrow> string res"
  kv_expire :: "'q \<Rightarrow> gotime \<Rightarrow> string \<Rightarrow> duration \<Rightarrow> (bool \<times> 'q) res"
  kv_exists :: "'q \<Rightarrow> gotime \<Rightarrow> string \<Rightarrow> int res"
  kv_del :: "'q \<Rightarrow> gotime \<Rightarrow> string \<Rightarrow> 'q res"

type_synonym kv_entry = "string \<times> gotime option"

definition live :: "kv_entry option \<Rightarrow> gotime \<Rightarrow> string option" where
  "live e now = (case e of
     None \<Rightarrow> None
   | Some (v, None) \<Rightarrow> Some v
   | Some (v, Some x) \<Rightarrow> (if now < x then Some v else None))"

text \<open>A time to live of zero means no expiry in SET; the other commands here always give one.\<close>

definition expiry :: "gotime \<Rightarrow> duration \<Rightarrow> gotime option" where
  "expiry now ttl = (if ttl = 0 then None else Some (now + ttl))"

lemma live_simps [simp]:
  "live None now = None" "live (Some (v, None)) now = Some v"
  "live (Some (v, Some x)) now = (if now < x then Some v else None)"
  by (simp_all add: live_def)

lemma live_SomeD: "live e now = Some v \<Longrightarrow> \<exists>x. e = Some (v, x)"
  by (auto simp: live_def split: option.splits if_splits)

locale redis_kv =
  fixes K :: "'q kv_ops" and ent :: "'q \<Rightarrow> string \<Rightarrow> kv_entry option"
  assumes set_ok: "kv_set K q now k v ttl = Inr q' \<Longrightarrow> ent q' = (ent q)(k \<mapsto> (v, expiry now ttl))"
    and setnx_ok: "kv_setnx K q now k v ttl = Inr (b, q') \<Longrightarrow> b = (live (ent q k) now = None) \<and>
       ent q' = (if b then (ent q)(k \<mapsto> (v, Some (now + ttl))) else ent q)"
    and get_ok: "kv_get K q now k = Inr v \<Longrightarrow> live (ent q k) now = Some v"
    and get_nil: "kv_get K q now k = Inl e \<Longrightarrow> errors_is e redis_Nil \<Longrightarrow> live (ent q k) now = None"
    and expire_ok: "kv_expire K q now k ttl = Inr (b, q') \<Longrightarrow> b = (live (ent q k) now \<noteq> None) \<and>
       ent q' = (if b then (ent q)(k \<mapsto> (the (live (ent q k) now), Some (now + ttl))) else ent q)"
    and exists_ok: "kv_exists K q now k = Inr n \<Longrightarrow> n = (if live (ent q k) now = None then 0 else 1)"
    and del_ok: "kv_del K q now k = Inr q' \<Longrightarrow> ent q' = (ent q)(k := None)"

section \<open>A server held in memory\<close>

type_synonym mem_kv = "string \<Rightarrow> kv_entry option"

definition mem_kv_ops :: "mem_kv kv_ops" where
  "mem_kv_ops = \<lparr>
     kv_set = (\<lambda>q now k v ttl. Inr (q(k \<mapsto> (v, expiry now ttl)))),
     kv_setnx = (\<lambda>q now k v ttl. if live (q k) now = None then Inr (True, q(k \<mapsto> (v, Some (now + ttl)))) else Inr (False, q)),
     kv_get = (\<lambda>q now k. case live (q k) now of None \<Rightarrow> Inl redis_Nil | Some v \<Rightarrow> Inr v),
     kv_expire = (\<lambda>q now k ttl. case live (q k) now of
        None \<Rightarrow> Inr (False, q) | Some v \<Rightarrow> Inr (True, q(k \<mapsto> (v, Some (now + ttl))))),
     kv_exists = (\<lambda>q now k. Inr (if live (q k) now = None then 0 else 1)),
     kv_del = (\<lambda>q now k. Inr (q(k := None)))\<rparr>"

interpretation mem_kv: redis_kv mem_kv_ops id
  by unfold_locales (auto simp: mem_kv_ops_def split: option.splits if_splits)

end
