(* ===== verification/Cluster_Mutex.thy ===== *)
theory Cluster_Mutex
  imports Redis_Kv
begin

text \<open>
  Leader election of \<open>mutex/cluster.go\<close>, the package-level \<open>IsMaster\<close> of \<open>mutex/mutex.go\<close> and the
  Redis lock of \<open>mutex/redis_locker.go\<close>. Each method takes the Redis commands \<open>K\<close>, the clock reading
  and the server state, and returns the changed struct and server.
\<close>

section \<open>The cluster mutex\<close>

definition time_Millisecond :: duration where "time_Millisecond = 1000000"

definition clusterMutexExpiration :: duration where "clusterMutexExpiration = 30 * time_Second"
definition minRenewInterval :: duration where "minRenewInterval = 8 * time_Second"

record ClusterMutex =
  cm_key :: string
  cm_myName :: string
  cm_currentMaster :: string
  cm_interval :: duration
  cm_ready :: bool

text \<open>\<open>jitter\<close> is the value of \<open>rand.Int63n(5000)\<close>.\<close>

definition NewClusterMutex :: "int \<Rightarrow> string \<Rightarrow> string \<Rightarrow> ClusterMutex" where
  "NewClusterMutex jitter lockName nodeID = \<lparr>cm_key = ''cluster:mutex:'' @ lockName, cm_myName = nodeID,
     cm_currentMaster = [], cm_interval = minRenewInterval + time_Millisecond * jitter, cm_ready = False\<rparr>"

definition cm_IsMaster :: "ClusterMutex \<Rightarrow> bool" where
  "cm_IsMaster m = (cm_myName m \<noteq> [] \<and> cm_myName m = cm_currentMaster m)"

definition markReady :: "ClusterMutex \<Rightarrow> ClusterMutex" where
  "markReady m = m\<lparr>cm_ready := True\<rparr>"

text \<open>\<open>WaitReady\<close> as a choice: ready, or the context's error when that comes first.\<close>

definition WaitReady :: "gerror option \<Rightarrow> ClusterMutex \<Rightarrow> unit res option" where
  "WaitReady ctxErr m = (if cm_ready m then Some (Inr ()) else map_option Inl ctxErr)"

definition getCurrentMaster :: "'q kv_ops \<Rightarrow> gotime \<Rightarrow> ClusterMutex \<Rightarrow> 'q \<Rightarrow> string res \<times> ClusterMutex" where
  "getCurrentMaster K now m q = (case kv_get K q now (cm_key m) of
     Inl e \<Rightarrow> (Inl e, m)
   | Inr v \<Rightarrow> (Inr v, m\<lparr>cm_currentMaster := v\<rparr>))"

definition tryPreempt :: "'q kv_ops \<Rightarrow> gotime \<Rightarrow> bool \<Rightarrow> ClusterMutex \<Rightarrow> 'q \<Rightarrow> unit res \<times> ClusterMutex \<times> 'q" where
  "tryPreempt K now isfirst m q =
     (case kv_setnx K q now (cm_key m) (cm_myName m) clusterMutexExpiration of
        Inl e \<Rightarrow> (Inl e, m, q)
      | Inr (ok, q') \<Rightarrow>
          (if ok then (Inr (), markReady (m\<lparr>cm_currentMaster := cm_myName m\<rparr>), q')
           else if isfirst then (Inr (), markReady (snd (getCurrentMaster K now m q')), q')
           else (Inr (), m, q')))"

definition renew :: "'q kv_ops \<Rightarrow> gotime \<Rightarrow> ClusterMutex \<Rightarrow> 'q \<Rightarrow> unit res \<times> 'q" where
  "renew K now m q = (case kv_expire K q now (cm_key m) clusterMutexExpiration of
     Inl e \<Rightarrow> (Inl e, q) | Inr (b, q') \<Rightarrow> (Inr (), q'))"

definition tick :: "'q kv_ops \<Rightarrow> gotime \<Rightarrow> ClusterMutex \<Rightarrow> 'q \<Rightarrow> ClusterMutex \<times> 'q" where
  "tick K now m q = (case getCurrentMaster K now m q of
     (Inl e, m') \<Rightarrow> snd (tryPreempt K now False m' q)
   | (Inr master, m') \<Rightarrow> (m', if master = cm_myName m' then snd (renew K now m' q) else q))"

definition release :: "'q kv_ops \<Rightarrow> gotime \<Rightarrow> ClusterMutex \<Rightarrow> 'q \<Rightarrow> 'q" where
  "release K now m q = (if \<not> cm_IsMaster m then q
     else case kv_del K q now (cm_key m) of Inl e \<Rightarrow> q | Inr q' \<Rightarrow> q')"

text \<open>
  \<open>daemonRoutine\<close>: the first attempt, one \<open>tick\<close> per reading of the ticker, and the release when the
  context ends. Between its steps the server is changed by others: \<open>env i\<close>.
\<close>

fun daemon_ticks :: "'q kv_ops \<Rightarrow> (gotime \<times> ('q \<Rightarrow> 'q)) list \<Rightarrow> ClusterMutex \<Rightarrow> 'q \<Rightarrow> ClusterMutex \<times> 'q" where
  "daemon_ticks K [] m q = (m, q)"
| "daemon_ticks K ((now, env) # ts) m q = (let (m', q') = tick K now m (env q) in daemon_ticks K ts m' q')"

definition daemonRoutine ::
  "'q kv_ops \<Rightarrow> gotime \<Rightarrow> (gotime \<times> ('q \<Rightarrow> 'q)) list \<Rightarrow> gotime \<Rightarrow> ClusterMutex \<Rightarrow> 'q \<Rightarrow> ClusterMutex \<times> 'q" where
  "daemonRoutine K start ts stop m q =
     (let (r, m1, q1) = tryPreempt K start True m q; (m2, q2) = daemon_ticks K ts m1 q1 in (m2, release K stop m2 q2))"

text \<open>
  The package-level \<open>IsMaster\<close>: the instance is created on the first call, with the options of that
  call; \<open>hostname\<close> is the environment variable and \<open>uuid\<close> the value used when it is empty.
\<close>

definition WithMutexKey :: "string \<Rightarrow> string \<Rightarrow> string" where
  "WithMutexKey key old = key"

definition IsMaster ::
  "int \<Rightarrow> string \<Rightarrow> string \<Rightarrow> (string \<Rightarrow> string) list \<Rightarrow> ClusterMutex option \<Rightarrow> bool \<times> ClusterMutex option" where
  "IsMaster jitter hostname uuid options std =
     (let mutexKey = fold (\<lambda>opt k. opt k) options ''default_cluster_mutex'';
          m = (case std of
                 Some m \<Rightarrow> m
               | None \<Rightarrow> NewClusterMutex jitter mutexKey (if hostname = [] then uuid else hostname))
      in (cm_IsMaster m, Some m))"

section \<open>The Redis lock\<close>

record RedisLocker =
  rl_lockTimeout :: duration
  rl_lockerName :: string
  rl_retryDelay :: duration

definition NewRedisLocker :: "string \<Rightarrow> duration \<Rightarrow> RedisLocker" where
  "NewRedisLocker name timeout =
     (let d = tquot timeout 100;
          retryDelay = (if d < time_Millisecond * 10 then time_Millisecond * 10
                        else if time_Second < d then time_Second else d)
      in \<lparr>rl_lockTimeout = timeout, rl_lockerName = name, rl_retryDelay = retryDelay\<rparr>)"

definition lockerKey :: "RedisLocker \<Rightarrow> string" where
  "lockerKey l = ''core:locker:'' @ rl_lockerName l"

text \<open>
  \<open>Lock\<close>: one SET NX per attempt, the server being changed by others (\<open>env\<close>) while it sleeps. The
  result says whether it returned (\<open>None\<close>: still waiting after the given attempts) and whether it
  holds the lock.
\<close>

fun Lock :: "'q kv_ops \<Rightarrow> RedisLocker \<Rightarrow> (gotime \<times> ('q \<Rightarrow> 'q)) list \<Rightarrow> 'q \<Rightarrow> bool option \<times> 'q" where
  "Lock K l [] q = (None, q)"
| "Lock K l ((now, env) # ts) q =
     (case kv_setnx K (env q) now (lockerKey l) ''1'' (rl_lockTimeout l) of
        Inl e \<Rightarrow> (Some False, env q)
      | Inr (b, q') \<Rightarrow> (if b then (Some True, q') else Lock K l ts q'))"

definition Unlock :: "'q kv_ops \<Rightarrow> gotime \<Rightarrow> RedisLocker \<Rightarrow> 'q \<Rightarrow> 'q" where
  "Unlock K now l q = (case kv_del K q now (lockerKey l) of Inl e \<Rightarrow> q | Inr q' \<Rightarrow> q')"

section \<open>Leases\<close>

text \<open>
  The nodes of one cluster, by name, with the server and the clock. \<open>lease n\<close> records the expiry of
  the lock as node \<open>n\<close> last set or renewed it. A step is a node's first attempt or one of its ticks,
  at a later clock reading. Release is not a step here.
\<close>

inductive cluster :: "'q kv_ops \<Rightarrow> ('q \<Rightarrow> string \<Rightarrow> kv_entry option) \<Rightarrow> string \<Rightarrow>
    (string \<Rightarrow> ClusterMutex) \<Rightarrow> 'q \<Rightarrow> gotime \<Rightarrow> (string \<Rightarrow> gotime) \<Rightarrow> bool" for K ent key where
  boot: "(\<And>n. cm_key (ms n) = key \<and> cm_myName (ms n) = n) \<Longrightarrow> (\<And>n. lease n \<le> t) \<Longrightarrow> cluster K ent key ms q t lease"
| attempt: "cluster K ent key ms q t lease \<Longrightarrow> t \<le> t' \<Longrightarrow> tryPreempt K t' True (ms n) q = (r, m', q') \<Longrightarrow>
    cluster K ent key (ms(n := m')) q' t' (lease(n := case ent q' key of Some (v, Some x) \<Rightarrow> if v = n then x else lease n | _ \<Rightarrow> lease n))"
| ticks: "cluster K ent key ms q t lease \<Longrightarrow> t \<le> t' \<Longrightarrow> tick K t' (ms n) q = (m', q') \<Longrightarrow>
    cluster K ent key (ms(n := m')) q' t' (lease(n := case ent q' key of Some (v, Some x) \<Rightarrow> if v = n then x else lease n | _ \<Rightarrow> lease n))"

text \<open>The effect of one node's step on the lock: nothing, taking a free lock, or renewing its own.\<close>

definition lock_change :: "string \<Rightarrow> gotime \<Rightarrow> kv_entry option \<Rightarrow> kv_entry option \<Rightarrow> bool" where
  "lock_change n t e e' \<longleftrightarrow> e' = e \<or>
     (live e t = None \<or> live e t = Some n) \<and> e' = Some (n, Some (t + clusterMutexExpiration))"

definition named :: "string \<Rightarrow> string \<Rightarrow> ClusterMutex \<Rightarrow> bool" where
  "named key n m \<longleftrightarrow> cm_key m = key \<and> cm_myName m = n"

context redis_kv
begin

lemma getCurrentMaster_named: "named key n m \<Longrightarrow> named key n (snd (getCurrentMaster K now m q))"
  by (simp add: getCurrentMaster_def named_def split: sum.split)

lemma tryPreempt_change:
  assumes "named key n m" "tryPreempt K t b m q = (r, m', q')"
  shows "named key n m' \<and> lock_change n t (ent q key) (ent q' key)"
proof (cases "kv_setnx K q t key n clusterMutexExpiration")
  case (Inl e)
  with assms show ?thesis by (auto simp: tryPreempt_def named_def lock_change_def)
next
  case (Inr p)
  obtain ok q1 where p: "p = (ok, q1)" by (cases p)
  from setnx_ok [OF Inr [unfolded p]]
  have "lock_change n t (ent q key) (ent q1 key)" by (auto simp: lock_change_def)
  moreover have "q' = q1" "named key n m'"
    using assms Inr p getCurrentMaster_named [of key n m t q1]
    by (auto simp: tryPreempt_def named_def markReady_def split: if_splits)
  ultimately show ?thesis by simp
qed

lemma tick_change:
  assumes "named key n m" "tick K t m q = (m', q')"
  shows "named key n m' \<and> lock_change n t (ent q key) (ent q' key)"
proof (cases "kv_get K q t key")
  case (Inl e)
  with assms have "snd (tryPreempt K t False m q) = (m', q')"
    by (simp add: tick_def getCurrentMaster_def named_def)
  with tryPreempt_change [OF assms(1)] show ?thesis by (metis prod.collapse)
next
  case (Inr v)
  with assms have m': "m' = m\<lparr>cm_currentMaster := v\<rparr>" and q': "q' = (if v = n then snd (renew K t m' q) else q)"
    by (auto simp: tick_def getCurrentMaster_def named_def)
  have "lock_change n t (ent q key) (ent q' key)"
  proof (cases "v = n")
    case True
    with get_ok [OF Inr] have lv: "live (ent q key) t = Some n" by simp
    have k: "cm_key m' = key" using m' assms(1) by (simp add: named_def)
    show ?thesis
    proof (cases "kv_expire K q t key clusterMutexExpiration")
      case (Inl e)
      with True q' k show ?thesis by (simp add: renew_def lock_change_def)
    next
      case (Inr p)
      with expire_ok [of q t key clusterMutexExpiration "fst p" "snd p"] True q' k lv show ?thesis
        by (cases p) (auto simp: renew_def lock_change_def)
    qed
  next
    case False
    with q' show ?thesis by (simp add: lock_change_def)
  qed
  with m' assms(1) show ?thesis by (simp add: named_def)
qed

end

definition lease_inv :: "kv_entry option \<Rightarrow> gotime \<Rightarrow> (string \<Rightarrow> gotime) \<Rightarrow> bool" where
  "lease_inv e t lease \<longleftrightarrow> (\<forall>n. t < lease n \<longrightarrow> e = Some (n, Some (lease n)))"

lemma lease_inv_step:
  assumes "lease_inv e t lease" "t \<le> t'" "lock_change j t' e e'"
  shows "lease_inv e' t' (lease(j := case e' of Some (v, Some x) \<Rightarrow> if v = j then x else lease j | _ \<Rightarrow> lease j))"
    (is "lease_inv e' t' ?l")
  unfolding lease_inv_def
proof (intro allI impI)
  fix n assume n: "t' < ?l n"
  show "e' = Some (n, Some (?l n))"
  proof (cases "n = j")
    case True
    show ?thesis
    proof (cases "\<exists>x. e' = Some (j, Some x)")
      case True
      with \<open>n = j\<close> show ?thesis by auto
    next
      case False
      then have "?l j = lease j" by (auto split: option.splits)
      with n \<open>n = j\<close> assms(1,2) have "e = Some (j, Some (lease j))" by (simp add: lease_inv_def)
      with False assms(3) show ?thesis by (auto simp: lock_change_def)
    qed
  next
    case False
    with n assms(1,2) have "e = Some (n, Some (lease n))" by (simp add: lease_inv_def)
    moreover from this n False have "live e t' = Some n" by simp
    ultimately show ?thesis using assms(3) False by (auto simp: lock_change_def)
  qed
qed

context redis_kv
begin

lemma cluster_inv:
  "cluster K ent key ms q t lease \<Longrightarrow> (\<forall>n. named key n (ms n)) \<and> lease_inv (ent q key) t lease"
proof (induction rule: cluster.induct)
  case (boot ms lease t q)
  then show ?case by (auto simp: named_def lease_inv_def not_less [symmetric])
next
  case (attempt ms q t lease t' n r m' q')
  then have "named key n (ms n)" by blast
  note c = tryPreempt_change [OF this attempt.hyps(3)]
  from attempt.IH c have "\<forall>k. named key k ((ms(n := m')) k)" by simp
  moreover note lease_inv_step [OF conjunct2 [OF attempt.IH] attempt.hyps(2) conjunct2 [OF c]]
  ultimately show ?case ..
next
  case (ticks ms q t lease t' n m' q')
  then have "named key n (ms n)" by blast
  note c = tick_change [OF this ticks.hyps(3)]
  from ticks.IH c have "\<forall>k. named key k ((ms(n := m')) k)" by simp
  moreover note lease_inv_step [OF conjunct2 [OF ticks.IH] ticks.hyps(2) conjunct2 [OF c]]
  ultimately show ?case ..
qed

end


definition kv_up :: "'q kv_ops \<Rightarrow> bool" where
  "kv_up K \<longleftrightarrow> (\<forall>q now k v ttl. is_ok (kv_setnx K q now k v ttl) \<and> is_ok (kv_expire K q now k ttl)) \<and>
     (\<forall>q now k e. kv_get K q now k = Inl e \<longrightarrow> errors_is e redis_Nil)"

lemma mem_kv_up: "kv_up mem_kv_ops"
  by (auto simp: kv_up_def mem_kv_ops_def split: option.splits)

definition two_nodes :: "string \<Rightarrow> ClusterMutex" where
  "two_nodes n = NewClusterMutex 0 ''L'' n"

definition cluster_at_10 :: "(string \<Rightarrow> ClusterMutex) \<times> mem_kv" where
  "cluster_at_10 = (case tick mem_kv_ops 10 (two_nodes ''A'') Map.empty of (m, q) \<Rightarrow> (two_nodes(''A'' := m), q))"

lemma sample_cluster:
  "cluster mem_kv_ops id ''cluster:mutex:L'' (fst cluster_at_10) (snd cluster_at_10) 10
     ((\<lambda>_. 0)(''A'' := 10 + clusterMutexExpiration))"
proof -
  have "cluster mem_kv_ops id ''cluster:mutex:L'' two_nodes Map.empty 0 (\<lambda>_. 0)"
    by (rule cluster.boot) (simp_all add: two_nodes_def NewClusterMutex_def)
  from cluster.ticks [OF this, of 10 "''A''" "fst cluster_at_10 ''A''" "snd cluster_at_10"]
  show ?thesis
    by (simp add: cluster_at_10_def tick_def getCurrentMaster_def tryPreempt_def mem_kv_ops_def two_nodes_def NewClusterMutex_def)
qed


text \<open>
  A tick settles the question: after a node's tick with the server up, the node says it is the
  master exactly when the lock key holds its name with a lease of thirty seconds from now, and then
  no other node of the run holds an unexpired lease.
\<close>

theorem tick_decides:
  assumes "redis_kv K ent" "cluster K ent key ms q t lease" "t \<le> t'" "kv_up K" "n \<noteq> []"
    and "tick K t' (ms n) q = (m', q')"
  shows "(cm_IsMaster m' \<longleftrightarrow> ent q' key = Some (n, Some (t' + 30 * time_Second))) \<and>
    (cm_IsMaster m' \<longrightarrow> (\<forall>n'. n' \<noteq> n \<longrightarrow> lease n' \<le> t'))"
proof -
  have inv: "named key n (ms n)" "lease_inv (ent q key) t lease"
    using redis_kv.cluster_inv [OF assms(1,2)] by blast+
  have iff: "cm_IsMaster m' \<longleftrightarrow> ent q' key = Some (n, Some (t' + clusterMutexExpiration))"
  proof (cases "kv_get K q t' key")
    case (Inl e)
    then have free: "live (ent q key) t' = None"
      using assms(4) redis_kv.get_nil [OF assms(1) Inl] by (simp add: kv_up_def)
    from assms(4) obtain ok q1 where sx: "kv_setnx K q t' key n clusterMutexExpiration = Inr (ok, q1)"
      unfolding kv_up_def is_ok_iff by (metis surj_pair)
    from redis_kv.setnx_ok [OF assms(1) sx] free have ok: "ok" "ent q1 key = Some (n, Some (t' + clusterMutexExpiration))" by auto
    with assms(5,6) inv(1) Inl sx show ?thesis
      by (auto simp: tick_def getCurrentMaster_def tryPreempt_def named_def markReady_def cm_IsMaster_def)
  next
    case (Inr v)
    note lv = redis_kv.get_ok [OF assms(1) Inr]
    show ?thesis
    proof (cases "v = n")
      case True
      from assms(4) obtain b q1 where ex: "kv_expire K q t' key clusterMutexExpiration = Inr (b, q1)"
        unfolding kv_up_def is_ok_iff by (metis surj_pair)
      from redis_kv.expire_ok [OF assms(1) ex] lv True
      have "ent q1 key = Some (n, Some (t' + clusterMutexExpiration))" by auto
      with True assms(5,6) inv(1) Inr ex show ?thesis
        by (auto simp: tick_def getCurrentMaster_def renew_def named_def cm_IsMaster_def)
    next
      case False
      with assms(5,6) inv(1) Inr live_SomeD [OF lv] show ?thesis
        by (auto simp: tick_def getCurrentMaster_def named_def cm_IsMaster_def)
    qed
  qed
  have "lease n' \<le> t'" if "cm_IsMaster m'" "n' \<noteq> n" for n'
  proof -
    have "cluster K ent key (ms(n := m')) q' t'
        (lease(n := case ent q' key of Some (v, Some x) \<Rightarrow> if v = n then x else lease n | _ \<Rightarrow> lease n))"
      by (rule cluster.ticks [OF assms(2,3,6)])
    from redis_kv.cluster_inv [OF assms(1) this, THEN conjunct2, unfolded lease_inv_def, THEN spec, of n'] that iff
    show ?thesis by (cases "t' < lease n'") auto
  qed
  with iff show ?thesis by (simp add: clusterMutexExpiration_def)
qed

theorem tick_decides_witness:
  "cm_IsMaster (fst (tick mem_kv_ops 20 (fst cluster_at_10 ''A'') (snd cluster_at_10))) \<longleftrightarrow>
   snd (tick mem_kv_ops 20 (fst cluster_at_10 ''A'') (snd cluster_at_10)) ''cluster:mutex:L'' = Some (''A'', Some (20 + 30 * time_Second))"
  using tick_decides [OF mem_kv.redis_kv_axioms sample_cluster _ mem_kv_up _ prod.collapse [symmetric], of 20 "''A''"] by simp

end
