(* ===== verification/Port_Pool.thy ===== *)
theory Port_Pool
  imports Go_Prelude
begin

text \<open>
  The port pool of \<open>pool/portspool/ports.go\<close>. The mutex makes each method atomic, so a run is a
  sequence of calls. Error messages are given in English.
\<close>

record PortPool =
  pp_available :: "int list"
  pp_allocated :: "int list"
  pp_maxPort :: int
  pp_minPort :: int

definition port_range :: "int \<Rightarrow> int \<Rightarrow> int list" where
  "port_range lo hi = [lo..hi]"

text \<open>\<open>None\<close> is the panic of \<open>make\<close> with a negative length.\<close>

definition NewPortPool :: "int \<Rightarrow> int \<Rightarrow> PortPool option" where
  "NewPortPool minPort0 maxPort0 =
     (let (minPort1, maxPort1) = (if minPort0 > maxPort0 then (maxPort0, minPort0) else (minPort0, maxPort0));
          minPort = (if minPort1 < 0 then 50000 else minPort1);
          maxPort = (if maxPort1 > 65535 then 60005 else maxPort1)
      in if maxPort - minPort + 1 < 0 then None
         else Some \<lparr>pp_available = port_range minPort maxPort, pp_allocated = [], pp_maxPort = maxPort, pp_minPort = minPort\<rparr>)"

definition GetPort :: "PortPool \<Rightarrow> int res \<times> PortPool" where
  "GetPort p = (case pp_available p of
     [] \<Rightarrow> (Inl (Err ''port pool exhausted''), p)
   | port # rest \<Rightarrow> (Inr port, p\<lparr>pp_available := rest, pp_allocated := pp_allocated p @ [port]\<rparr>))"

text \<open>The search loop leaves the index of the first match, or -1.\<close>

fun index_of :: "int \<Rightarrow> int list \<Rightarrow> nat option" where
  "index_of port [] = None"
| "index_of port (x # xs) = (if port = x then Some 0 else map_option Suc (index_of port xs))"

definition ReturnPort :: "int \<Rightarrow> PortPool \<Rightarrow> unit res \<times> PortPool" where
  "ReturnPort port p = (case index_of port (pp_allocated p) of
     None \<Rightarrow> (Inl (Err ''port not allocated or already returned''), p)
   | Some i \<Rightarrow> (Inr (), p\<lparr>pp_allocated := take i (pp_allocated p) @ drop (Suc i) (pp_allocated p),
                          pp_available := pp_available p @ [port]\<rparr>))"

section \<open>Invariant\<close>

definition pool_inv :: "PortPool \<Rightarrow> bool" where
  "pool_inv p \<longleftrightarrow> mset (pp_available p) + mset (pp_allocated p) = mset (port_range (pp_minPort p) (pp_maxPort p))"

lemma index_of_Some:
  "index_of port xs = Some i \<Longrightarrow> i < length xs \<and> xs ! i = port"
  by (induction xs arbitrary: i) (auto split: if_splits)

lemma index_of_None: "index_of port xs = None \<longleftrightarrow> port \<notin> set xs"
  by (induction xs) auto

lemma mset_remove_nth: "i < length xs \<Longrightarrow> mset xs = add_mset (xs ! i) (mset (take i xs @ drop (Suc i) xs))"
  by (metis Cons_nth_drop_Suc append_take_drop_id mset.simps(2) mset_append union_mset_add_mset_right)

lemma pool_inv_Get: "pool_inv p \<Longrightarrow> pool_inv (snd (GetPort p))"
  by (auto simp: pool_inv_def GetPort_def split: list.split)

lemma pool_inv_Return:
  assumes "pool_inv p"
  shows "pool_inv (snd (ReturnPort port p))"
proof (cases "index_of port (pp_allocated p)")
  case None
  with assms show ?thesis by (simp add: ReturnPort_def)
next
  case (Some i)
  note i = index_of_Some [OF Some]
  from mset_remove_nth [of i "pp_allocated p"] i
  have "mset (pp_allocated p) = add_mset port (mset (take i (pp_allocated p) @ drop (Suc i) (pp_allocated p)))" by simp
  with assms Some show ?thesis by (simp add: pool_inv_def ReturnPort_def)
qed

lemma pool_inv_New: "NewPortPool a b = Some p \<Longrightarrow> pool_inv p"
  by (auto simp: NewPortPool_def pool_inv_def Let_def split: prod.splits if_splits)

lemma pool_inv_distinct: "pool_inv p \<Longrightarrow> distinct (pp_available p @ pp_allocated p)"
  unfolding pool_inv_def by (metis distinct_upto mset_append mset_eq_imp_distinct_iff port_range_def)

datatype pool_call = CallGet | CallReturn int

fun pool_step :: "pool_call \<Rightarrow> PortPool \<Rightarrow> PortPool" where
  "pool_step CallGet p = snd (GetPort p)"
| "pool_step (CallReturn port) p = snd (ReturnPort port p)"

lemma pool_inv_run: "pool_inv p \<Longrightarrow> pool_inv (fold pool_step cs p)"
proof (induction cs arbitrary: p)
  case (Cons c cs)
  then show ?case by (cases c) (simp_all add: pool_inv_Get pool_inv_Return)
qed simp

text \<open>
  Ports are never shared or lost (C22): after any sequence of calls on a new pool, the available and
  allocated ports together are exactly the range, each once; a port that \<open>GetPort\<close> hands out was not
  allocated before and is in range; and \<open>GetPort\<close> fails only when the whole range is allocated.
\<close>

theorem port_pool_correct:
  assumes "NewPortPool a b = Some p0"
  shows "let p = fold pool_step cs p0; (r, p') = GetPort p in
    distinct (pp_available p @ pp_allocated p) \<and>
    set (pp_available p) \<union> set (pp_allocated p) = {pp_minPort p..pp_maxPort p} \<and>
    (case r of
       Inr port \<Rightarrow> port \<notin> set (pp_allocated p) \<and> pp_minPort p \<le> port \<and> port \<le> pp_maxPort p \<and>
         pp_allocated p' = pp_allocated p @ [port]
     | Inl e \<Rightarrow> set (pp_allocated p) = {pp_minPort p..pp_maxPort p})"
proof -
  let ?p = "fold pool_step cs p0"
  have inv: "pool_inv ?p" by (rule pool_inv_run [OF pool_inv_New [OF assms]])
  have d: "distinct (pp_available ?p @ pp_allocated ?p)" by (rule pool_inv_distinct [OF inv])
  have s: "set (pp_available ?p) \<union> set (pp_allocated ?p) = {pp_minPort ?p..pp_maxPort ?p}"
    using inv unfolding pool_inv_def by (metis set_mset_mset set_mset_union set_upto port_range_def)
  show ?thesis
  proof (cases "pp_available ?p")
    case Nil
    with d s show ?thesis by (simp add: Let_def GetPort_def)
  next
    case (Cons x xs)
    then have "x \<in> {pp_minPort ?p..pp_maxPort ?p}" using s by auto
    with Cons d s show ?thesis by (simp add: Let_def GetPort_def)
  qed
qed

theorem port_pool_correct_witness:
  "\<exists>p0. NewPortPool 10 12 = Some p0 \<and>
     distinct (pp_available (fold pool_step [CallGet, CallGet, CallReturn 10] p0) @
       pp_allocated (fold pool_step [CallGet, CallGet, CallReturn 10] p0))"
proof -
  obtain p0 where p: "NewPortPool 10 12 = Some p0" by (simp add: NewPortPool_def)
  from port_pool_correct [OF p, of "[CallGet, CallGet, CallReturn 10]"] p show ?thesis
    by (auto simp only: Let_def fst_conv snd_conv split: prod.splits)
qed

text \<open>
  A returned port comes back: returning an allocated port succeeds once, a second return of the
  same port fails and changes nothing, and returning a port that is not allocated fails.
\<close>

theorem ReturnPort_once:
  assumes "NewPortPool a b = Some p0"
  shows "let p = fold pool_step cs p0; (r, p') = ReturnPort port p in
    (r = Inr () \<longleftrightarrow> port \<in> set (pp_allocated p)) \<and>
    (r = Inr () \<longrightarrow> port \<in> set (pp_available p') \<and> \<not> is_ok (fst (ReturnPort port p')) \<and> snd (ReturnPort port p') = p') \<and>
    (r \<noteq> Inr () \<longrightarrow> p' = p)"
proof -
  let ?p = "fold pool_step cs p0"
  have inv: "pool_inv ?p" by (rule pool_inv_run [OF pool_inv_New [OF assms]])
  obtain r p' where ok: "ReturnPort port ?p = (r, p')" by (cases "ReturnPort port ?p")
  have "pool_inv p'" using pool_inv_Return [OF inv, of port] ok by simp
  then have d': "distinct (pp_available p' @ pp_allocated p')" by (rule pool_inv_distinct)
  show ?thesis
  proof (cases "index_of port (pp_allocated ?p)")
    case None
    then show ?thesis using index_of_None [of port "pp_allocated ?p"] by (simp add: Let_def ReturnPort_def)
  next
    case (Some i)
    then have av: "r = Inr ()" "pp_available p' = pp_available ?p @ [port]" using ok by (auto simp: ReturnPort_def)
    with d' have "port \<notin> set (pp_allocated p')" by auto
    then have "ReturnPort port p' = (Inl (Err ''port not allocated or already returned''), p')"
      using index_of_None [of port "pp_allocated p'"] by (simp add: ReturnPort_def)
    moreover have "port \<in> set (pp_allocated ?p)" using index_of_Some [OF Some] nth_mem by metis
    ultimately show ?thesis using av unfolding Let_def ok by simp
  qed
qed

theorem ReturnPort_once_witness:
  "\<exists>p0. NewPortPool 10 12 = Some p0 \<and> fst (ReturnPort 11 (fold pool_step [CallGet] p0)) \<noteq> Inr ()"
proof -
  obtain p0 where p: "NewPortPool 10 12 = Some p0" by (simp add: NewPortPool_def)
  have "11 \<notin> set (pp_allocated (fold pool_step [CallGet] p0))"
    using p by (auto simp: NewPortPool_def GetPort_def port_range_def upto_rec1)
  then have "fst (ReturnPort 11 (fold pool_step [CallGet] p0)) \<noteq> Inr ()"
    using ReturnPort_once [OF p, of "[CallGet]" 11] by (auto simp only: Let_def fst_conv snd_conv split: prod.splits)
  with p show ?thesis by blast
qed

end
