(* ===== verification/Encryptor.thy ===== *)
theory Encryptor
  imports Go_Prelude "HOL-Library.Word"
begin

text \<open>
  \<open>encryptor/padding.go\<close>, \<open>aes.go\<close> and \<open>blowfish.go\<close>: padding, and encryption with AES and
  Blowfish in CBC and CFB mode. The block ciphers are parameters (a constructor \<open>NewCipher\<close> that
  rejects bad keys and gives the block permutation of a key); the chaining modes of
  \<open>crypto/cipher\<close>, the padding and the framing with the initialisation vector are written out.
  The random source gives the initialisation vector or an error.

  A result \<open>None\<close> is a Go panic (an index or slice out of range, \<open>CryptBlocks\<close> on input that is
  not whole blocks); \<open>Some (Inl e)\<close> is a returned error.
\<close>

unbundle bit_operations_syntax

type_synonym bytes = "8 word list"

record block =
  BlockSize :: nat
  bl_Encrypt :: "bytes \<Rightarrow> bytes"
  bl_Decrypt :: "bytes \<Rightarrow> bytes"

type_synonym new_cipher = "bytes \<Rightarrow> block res"
type_synonym rand_reader = "nat \<Rightarrow> bytes res"

section \<open>Padding (\<open>padding.go\<close>)\<close>

definition pad :: "bytes \<Rightarrow> nat \<Rightarrow> bytes option" where
  "pad cipherText blockSize =
     (if blockSize = 0 then None
      else let padding = blockSize - length cipherText mod blockSize
           in Some (cipherText @ replicate padding (of_nat padding)))"

definition unpad :: "bytes \<Rightarrow> bytes option" where
  "unpad plainText =
     (if plainText = [] then None
      else let unpadding = unat (last plainText)
           in if length plainText < unpadding then None
              else Some (take (length plainText - unpadding) plainText))"

section \<open>The chaining modes of \<open>crypto/cipher\<close>\<close>

function blocks :: "nat \<Rightarrow> 'a list \<Rightarrow> 'a list list" where
  "blocks n xs = (if n = 0 \<or> xs = [] then [] else take n xs # blocks n (drop n xs))"
  by pat_completeness auto
termination by (relation "measure (\<lambda>(n, xs). length xs)") auto

declare blocks.simps [simp del]

definition xor_bytes :: "bytes \<Rightarrow> bytes \<Rightarrow> bytes" where
  "xor_bytes a b = map2 (XOR) a b"

primrec cbc_enc :: "(bytes \<Rightarrow> bytes) \<Rightarrow> bytes \<Rightarrow> bytes list \<Rightarrow> bytes list" where
  "cbc_enc f iv [] = []"
| "cbc_enc f iv (b # bs) = (let c = f (xor_bytes b iv) in c # cbc_enc f c bs)"

primrec cbc_dec :: "(bytes \<Rightarrow> bytes) \<Rightarrow> bytes \<Rightarrow> bytes list \<Rightarrow> bytes list" where
  "cbc_dec g iv [] = []"
| "cbc_dec g iv (c # cs) = xor_bytes (g c) iv # cbc_dec g c cs"

primrec cfb_enc :: "(bytes \<Rightarrow> bytes) \<Rightarrow> bytes \<Rightarrow> bytes list \<Rightarrow> bytes list" where
  "cfb_enc f iv [] = []"
| "cfb_enc f iv (b # bs) = (let c = xor_bytes b (f iv) in c # cfb_enc f c bs)"

primrec cfb_dec :: "(bytes \<Rightarrow> bytes) \<Rightarrow> bytes \<Rightarrow> bytes list \<Rightarrow> bytes list" where
  "cfb_dec f iv [] = []"
| "cfb_dec f iv (c # cs) = xor_bytes c (f iv) # cfb_dec f c cs"

text \<open>
  \<open>NewCBCEncrypter(block, iv).CryptBlocks(dst, src)\<close>: panics unless the vector is one block and the
  source is whole blocks. \<open>NewCFBEncrypter(block, iv).XORKeyStream\<close> takes a source of any length.
\<close>

definition cbc_ready :: "block \<Rightarrow> bytes \<Rightarrow> bytes \<Rightarrow> bool" where
  "cbc_ready blk iv src = (0 < BlockSize blk \<and> length iv = BlockSize blk \<and> length src mod BlockSize blk = 0)"

definition CBCEncrypt :: "block \<Rightarrow> bytes \<Rightarrow> bytes \<Rightarrow> bytes option" where
  "CBCEncrypt blk iv src =
     (if cbc_ready blk iv src then Some (concat (cbc_enc (bl_Encrypt blk) iv (blocks (BlockSize blk) src))) else None)"

definition CBCDecrypt :: "block \<Rightarrow> bytes \<Rightarrow> bytes \<Rightarrow> bytes option" where
  "CBCDecrypt blk iv src =
     (if cbc_ready blk iv src then Some (concat (cbc_dec (bl_Decrypt blk) iv (blocks (BlockSize blk) src))) else None)"

definition CFBEncrypt :: "block \<Rightarrow> bytes \<Rightarrow> bytes \<Rightarrow> bytes option" where
  "CFBEncrypt blk iv src =
     (if length iv = BlockSize blk then Some (concat (cfb_enc (bl_Encrypt blk) iv (blocks (BlockSize blk) src))) else None)"

definition CFBDecrypt :: "block \<Rightarrow> bytes \<Rightarrow> bytes \<Rightarrow> bytes option" where
  "CFBDecrypt blk iv src =
     (if length iv = BlockSize blk then Some (concat (cfb_dec (bl_Encrypt blk) iv (blocks (BlockSize blk) src))) else None)"

section \<open>AES (\<open>aes.go\<close>)\<close>

definition AesEncrypt :: "new_cipher \<Rightarrow> bytes \<Rightarrow> bytes \<Rightarrow> bytes res option" where
  "AesEncrypt newc key plainText =
     (case newc key of
        Inl e \<Rightarrow> Some (Inl e)
      | Inr blk \<Rightarrow>
          Option.bind (pad plainText (BlockSize blk)) (\<lambda>padded.
            if length key < BlockSize blk then None
            else map_option Inr (CBCEncrypt blk (take (BlockSize blk) key) padded)))"

definition AesDecrypt :: "new_cipher \<Rightarrow> bytes \<Rightarrow> bytes \<Rightarrow> bytes res option" where
  "AesDecrypt newc key cipherText =
     (case newc key of
        Inl e \<Rightarrow> Some (Inl e)
      | Inr blk \<Rightarrow>
          if length key < BlockSize blk then None
          else Option.bind (CBCDecrypt blk (take (BlockSize blk) key) cipherText) (\<lambda>plain.
                 map_option Inr (unpad plain)))"

definition AesEncryptToBase58 :: "new_cipher \<Rightarrow> (bytes \<Rightarrow> string) \<Rightarrow> bytes \<Rightarrow> bytes \<Rightarrow> string res option" where
  "AesEncryptToBase58 newc enc58 key plainText =
     (case AesEncrypt newc key plainText of
        None \<Rightarrow> None
      | Some (Inl e) \<Rightarrow> Some (Inl e)
      | Some (Inr encripted) \<Rightarrow> Some (Inr (enc58 encripted)))"

definition AesDecryptFromBase58 :: "new_cipher \<Rightarrow> (string \<Rightarrow> bytes res) \<Rightarrow> bytes \<Rightarrow> string \<Rightarrow> bytes res option" where
  "AesDecryptFromBase58 newc dec58 key cipherText =
     (case dec58 cipherText of
        Inl e \<Rightarrow> Some (Inl e)
      | Inr buf \<Rightarrow> AesDecrypt newc key buf)"

definition aes_BlockSize :: nat where
  "aes_BlockSize = 16"

text \<open>
  \<open>EncryptAesCBC\<close> and \<open>EncryptBlowfishCBC\<close> have the same body, with the block size of their cipher;
  so have the two decryptions.
\<close>

definition encrypt_cbc :: "nat \<Rightarrow> new_cipher \<Rightarrow> rand_reader \<Rightarrow> bytes \<Rightarrow> bytes \<Rightarrow> bytes res option" where
  "encrypt_cbc bsz newc rnd key plainText =
     (case newc key of
        Inl e \<Rightarrow> Some (Inl e)
      | Inr blk \<Rightarrow>
          Option.bind (pad plainText bsz) (\<lambda>padded.
            case rnd bsz of
              Inl e \<Rightarrow> Some (Inl e)
            | Inr iv \<Rightarrow> map_option (\<lambda>c. Inr (iv @ c)) (CBCEncrypt blk iv padded)))"

definition decrypt_cbc :: "nat \<Rightarrow> string \<Rightarrow> new_cipher \<Rightarrow> bytes \<Rightarrow> bytes \<Rightarrow> bytes res option" where
  "decrypt_cbc bsz short newc key cipherText =
     (case newc key of
        Inl e \<Rightarrow> Some (Inl e)
      | Inr blk \<Rightarrow>
          if length cipherText < bsz then Some (Inl (Err short))
          else Option.bind (CBCDecrypt blk (take bsz cipherText) (drop bsz cipherText)) (\<lambda>plain.
                 map_option Inr (unpad plain)))"

definition EncryptAesCBC :: "new_cipher \<Rightarrow> rand_reader \<Rightarrow> bytes \<Rightarrow> bytes \<Rightarrow> bytes res option" where
  "EncryptAesCBC newc rnd key plainText = encrypt_cbc aes_BlockSize newc rnd key plainText"

definition DecryptAesCBC :: "new_cipher \<Rightarrow> bytes \<Rightarrow> bytes \<Rightarrow> bytes res option" where
  "DecryptAesCBC newc key cipherText = decrypt_cbc aes_BlockSize ''cipherText too short'' newc key cipherText"

section \<open>Blowfish (\<open>blowfish.go\<close>)\<close>

definition blowfish_BlockSize :: nat where
  "blowfish_BlockSize = 8"

definition BlowfishEncrypt :: "new_cipher \<Rightarrow> rand_reader \<Rightarrow> bytes \<Rightarrow> bytes \<Rightarrow> bytes res option" where
  "BlowfishEncrypt newc rnd key plaintext =
     (case newc key of
        Inl e \<Rightarrow> Some (Inl e)
      | Inr blk \<Rightarrow>
          (case rnd blowfish_BlockSize of
             Inl e \<Rightarrow> Some (Inl e)
           | Inr iv \<Rightarrow> map_option (\<lambda>c. Inr (iv @ c)) (CFBEncrypt blk iv plaintext)))"

text \<open>A ciphertext shorter than a block gives \<open>nil, err\<close> with \<open>err\<close> the nil error of \<open>NewCipher\<close>: an empty plaintext.\<close>

definition BlowfishDecrypt :: "new_cipher \<Rightarrow> bytes \<Rightarrow> bytes \<Rightarrow> bytes res option" where
  "BlowfishDecrypt newc key ciphertext =
     (case newc key of
        Inl e \<Rightarrow> Some (Inl e)
      | Inr blk \<Rightarrow>
          if length ciphertext < blowfish_BlockSize then Some (Inr [])
          else map_option Inr (CFBDecrypt blk (take blowfish_BlockSize ciphertext) (drop blowfish_BlockSize ciphertext)))"

definition EncryptBlowfishCBC :: "new_cipher \<Rightarrow> rand_reader \<Rightarrow> bytes \<Rightarrow> bytes \<Rightarrow> bytes res option" where
  "EncryptBlowfishCBC newc rnd key plaintext = encrypt_cbc blowfish_BlockSize newc rnd key plaintext"

definition DecryptBlowfishCBC :: "new_cipher \<Rightarrow> bytes \<Rightarrow> bytes \<Rightarrow> bytes res option" where
  "DecryptBlowfishCBC newc key ciphertext = decrypt_cbc blowfish_BlockSize ''ciphertext too short'' newc key ciphertext"


section \<open>Round trips\<close>

lemma length_xor_bytes [simp]: "length (xor_bytes a b) = min (length a) (length b)"
  by (simp add: xor_bytes_def)

lemma xor_bytes_twice: "length a \<le> length b \<Longrightarrow> xor_bytes (xor_bytes a b) b = a"
  by (rule nth_equalityI) (auto simp: xor_bytes_def ac_simps xor.left_commute)

lemma blocks_length: "length xs mod n = 0 \<Longrightarrow> b \<in> set (blocks n xs) \<Longrightarrow> length b = n"
proof (induction n xs rule: blocks.induct)
  case (1 n xs)
  show ?case
  proof (cases "n = 0 \<or> xs = []")
    case True
    then show ?thesis using 1 by (simp add: blocks.simps)
  next
    case False
    then have "n \<le> length xs" using 1 by (metis length_greater_0_conv linorder_not_less mod_less not_gr_zero)
    then have "length (drop n xs) mod n = 0" using 1(2) by (simp add: le_mod_geq)
    then show ?thesis using 1(1,3) False \<open>n \<le> length xs\<close> blocks.simps [of n xs] by auto
  qed
qed

lemma concat_blocks: "0 < n \<Longrightarrow> concat (blocks n xs) = xs"
  by (induction n xs rule: blocks.induct) (subst blocks.simps, simp)

lemma blocks_append: "0 < n \<Longrightarrow> length b = n \<Longrightarrow> blocks n (b @ xs) = b # blocks n xs"
  by (subst blocks.simps) auto

lemma blocks_concat: "0 < n \<Longrightarrow> (\<And>b. b \<in> set bs \<Longrightarrow> length b = n) \<Longrightarrow> blocks n (concat bs) = bs"
  by (induction bs) (auto simp: blocks_append blocks.simps [of n "[]"])

lemma length_concat_blocks: "(\<And>b. b \<in> set bs \<Longrightarrow> length b = n) \<Longrightarrow> length (concat bs) = length bs * n"
  by (induction bs) auto

definition cipher_ok :: "nat \<Rightarrow> new_cipher \<Rightarrow> bool" where
  "cipher_ok n newc \<longleftrightarrow> (\<forall>key blk. newc key = Inr blk \<longrightarrow>
     BlockSize blk = n \<and> n \<le> length key \<and>
     (\<forall>b. length b = n \<longrightarrow> length (bl_Encrypt blk b) = n \<and> bl_Decrypt blk (bl_Encrypt blk b) = b))"

definition stream_cipher_ok :: "nat \<Rightarrow> new_cipher \<Rightarrow> bool" where
  "stream_cipher_ok n newc \<longleftrightarrow> (\<forall>key blk. newc key = Inr blk \<longrightarrow>
     BlockSize blk = n \<and>
     (\<forall>b. length b = n \<longrightarrow> length (bl_Encrypt blk b) = n \<and> bl_Decrypt blk (bl_Encrypt blk b) = b))"

definition rand_ok :: "rand_reader \<Rightarrow> bool" where
  "rand_ok rnd \<longleftrightarrow> (\<forall>n iv. rnd n = Inr iv \<longrightarrow> length iv = n)"

lemma cbc_enc_length:
  "(\<And>b. length b = n \<Longrightarrow> length (f b) = n) \<Longrightarrow> length iv = n \<Longrightarrow> (\<And>b. b \<in> set bs \<Longrightarrow> length b = n)
   \<Longrightarrow> c \<in> set (cbc_enc f iv bs) \<Longrightarrow> length c = n"
proof (induction bs arbitrary: iv)
  case (Cons a bs)
  then have l: "length (f (xor_bytes a iv)) = n" by simp
  show ?case
  proof (cases "c = f (xor_bytes a iv)")
    case False
    with Cons.prems have "c \<in> set (cbc_enc f (f (xor_bytes a iv)) bs)" by (simp add: Let_def)
    with l show ?thesis by (intro Cons.IH) (simp_all add: Cons.prems)
  qed (use l in simp)
qed simp

lemma length_cbc_enc [simp]: "length (cbc_enc f iv bs) = length bs"
  by (induction bs arbitrary: iv) (auto simp: Let_def)

lemma cbc_dec_enc:
  "(\<And>b. length b = n \<Longrightarrow> length (f b) = n \<and> g (f b) = b) \<Longrightarrow> length iv = n \<Longrightarrow> (\<And>b. b \<in> set bs \<Longrightarrow> length b = n)
   \<Longrightarrow> cbc_dec g iv (cbc_enc f iv bs) = bs"
  by (induction bs arbitrary: iv) (auto simp: Let_def xor_bytes_twice)

lemma length_pad: "pad p n = Some q \<Longrightarrow> length q = (length p div n + 1) * n"
proof -
  assume a: "pad p n = Some q"
  then have "0 < n" by (auto simp: pad_def split: if_splits)
  then have "length p mod n < n" "length p mod n \<le> length p" by simp_all
  moreover have "length p - length p mod n = length p div n * n" by (rule minus_mod_eq_div_mult)
  moreover have "length q = length p + (n - length p mod n)"
    using a by (auto simp: pad_def Let_def split: if_splits)
  ultimately show ?thesis unfolding add_mult_distrib by linarith
qed

lemma pad_Some: "0 < n \<Longrightarrow> \<exists>q. pad p n = Some q"
  by (simp add: pad_def Let_def)

lemma unpad_pad: "n < 256 \<Longrightarrow> pad p n = Some q \<Longrightarrow> unpad q = Some p"
proof -
  assume n: "n < 256" and a: "pad p n = Some q"
  then have "0 < n" by (auto simp: pad_def split: if_splits)
  then have k: "0 < n - length p mod n" "n - length p mod n < 256" using n by auto
  then have u: "unat (of_nat (n - length p mod n) :: 8 word) = n - length p mod n"
    by (simp only: unat_of_nat) simp
  have q: "q = p @ replicate (n - length p mod n) (of_nat (n - length p mod n))"
    using a by (simp only: pad_def Let_def option.inject option.distinct split: if_splits)
  have "last q = of_nat (n - length p mod n)" "q \<noteq> []" using k unfolding q by simp_all
  then show ?thesis using u k by (simp only: unpad_def Let_def if_False) (simp add: q)
qed

lemma cbc_roundtrip:
  assumes n: "0 < BlockSize blk" and ok: "\<And>b. length b = BlockSize blk \<Longrightarrow> length (bl_Encrypt blk b) = BlockSize blk \<and> bl_Decrypt blk (bl_Encrypt blk b) = b"
    and iv: "length iv = BlockSize blk" and src: "length src mod BlockSize blk = 0"
  obtains c where "CBCEncrypt blk iv src = Some c" "length c = length src" "CBCDecrypt blk iv c = Some src"
proof -
  let ?n = "BlockSize blk" and ?bs = "blocks (BlockSize blk) src"
  let ?cs = "cbc_enc (bl_Encrypt blk) iv ?bs"
  have b: "\<And>b. b \<in> set ?bs \<Longrightarrow> length b = ?n" by (rule blocks_length [OF src])
  have c: "\<And>c. c \<in> set ?cs \<Longrightarrow> length c = ?n" by (rule cbc_enc_length [OF _ iv b]) (use ok in auto)
  have len: "length (concat ?cs) = length src"
    using length_concat_blocks [of ?cs, OF c] length_concat_blocks [of ?bs, OF b] by (simp add: concat_blocks [OF n])
  have e: "CBCEncrypt blk iv src = Some (concat ?cs)"
    using n iv src by (simp add: CBCEncrypt_def cbc_ready_def)
  have "CBCDecrypt blk iv (concat ?cs) = Some src"
    using n iv src len blocks_concat [OF n c] cbc_dec_enc [where f = "bl_Encrypt blk", OF ok iv b]
    by (simp add: CBCDecrypt_def cbc_ready_def concat_blocks [OF n])
  with e len show ?thesis by (rule that)
qed

lemma cbc_framed:
  assumes n: "0 < n" "n < 256" and ok: "stream_cipher_ok n newc" and r: "rand_ok rnd"
  shows "case newc key of
      Inl e \<Rightarrow> encrypt_cbc n newc rnd key p = Some (Inl e)
    | Inr blk \<Rightarrow> (case rnd n of
        Inl e \<Rightarrow> encrypt_cbc n newc rnd key p = Some (Inl e)
      | Inr iv \<Rightarrow> \<exists>c. encrypt_cbc n newc rnd key p = Some (Inr (iv @ c)) \<and> length c = (length p div n + 1) * n \<and>
                     decrypt_cbc n short newc key (iv @ c) = Some (Inr p))"
proof (cases "newc key")
  case (Inl e)
  then show ?thesis by (simp add: encrypt_cbc_def)
next
  case (Inr blk)
  then have blk: "BlockSize blk = n" "\<And>b. length b = n \<Longrightarrow> length (bl_Encrypt blk b) = n \<and> bl_Decrypt blk (bl_Encrypt blk b) = b"
    using ok unfolding stream_cipher_ok_def by auto
  obtain q where q: "pad p n = Some q" using pad_Some [OF n(1)] by blast
  show ?thesis
  proof (cases "rnd n")
    case (Inl e)
    then show ?thesis using Inr q by (simp add: encrypt_cbc_def)
  next
    case iv: (Inr iv)
    then have len: "length iv = n" using r by (simp add: rand_ok_def)
    have "length q mod BlockSize blk = 0" using length_pad [OF q] blk(1) by simp
    then obtain c where c: "CBCEncrypt blk iv q = Some c" "length c = length q" "CBCDecrypt blk iv c = Some q"
      using cbc_roundtrip [of blk iv q] blk len n(1) by auto
    then show ?thesis
      using Inr q iv len length_pad [OF q] unpad_pad [OF n(2) q] by (simp add: encrypt_cbc_def decrypt_cbc_def)
  qed
qed

lemma cfb_dec_enc:
  "(\<And>b. length b = n \<Longrightarrow> length (f b) = n) \<Longrightarrow> length iv = n \<Longrightarrow> 0 < n \<Longrightarrow>
   blocks n (concat (cfb_enc f iv (blocks n src))) = cfb_enc f iv (blocks n src) \<and>
   cfb_dec f iv (cfb_enc f iv (blocks n src)) = blocks n src \<and>
   length (concat (cfb_enc f iv (blocks n src))) = length src"
proof (induction n src arbitrary: iv rule: blocks.induct)
  case (1 n src)
  note f = 1(2) and iv = 1(3) and n = 1(4)
  show ?case
  proof (cases "src = []")
    case True
    then show ?thesis by (simp add: blocks.simps)
  next
    case False
    let ?c = "xor_bytes (take n src) (f iv)"
    have bl: "blocks n src = take n src # blocks n (drop n src)" using False n by (subst blocks.simps) simp
    have fl: "length (f iv) = n" using f iv by simp
    have tw: "xor_bytes ?c (f iv) = take n src" by (rule xor_bytes_twice) (simp add: fl)
    show ?thesis
    proof (cases "n \<le> length src")
      case True
      then have "length ?c = n" by (simp add: fl)
      then show ?thesis using 1(1) [of ?c] False f n True tw by (simp add: bl Let_def blocks_append)
    next
      case short: False
      then have "blocks n (drop n src) = []" by (simp add: blocks.simps)
      moreover have "length ?c < n" "?c \<noteq> []" using short False fl n by (auto simp: xor_bytes_def zip_eq_Nil_iff)
      moreover from this have "blocks n ?c = [?c]" using blocks.simps [of n ?c] blocks.simps [of n "[]"] n by simp
      ultimately show ?thesis using short tw fl n by (simp add: bl Let_def)
    qed
  qed
qed


lemma AesEncrypt_roundtrip:
  assumes aes: "cipher_ok aes_BlockSize newc" and key: "newc key = Inr blk"
  shows "\<exists>c. AesEncrypt newc key p = Some (Inr c) \<and> length c = (length p div 16 + 1) * 16 \<and>
             AesDecrypt newc key c = Some (Inr p)"
proof -
  have blk: "BlockSize blk = 16" "16 \<le> length key"
    "\<And>b. length b = 16 \<Longrightarrow> length (bl_Encrypt blk b) = 16 \<and> bl_Decrypt blk (bl_Encrypt blk b) = b"
    using aes key unfolding cipher_ok_def aes_BlockSize_def by auto
  obtain q where q: "pad p 16 = Some q" using pad_Some [of 16 p] by auto
  have "length q mod BlockSize blk = 0" using length_pad [OF q] blk(1) by simp
  then obtain c where "CBCEncrypt blk (take 16 key) q = Some c" "length c = length q" "CBCDecrypt blk (take 16 key) c = Some q"
    using cbc_roundtrip [of blk "take 16 key" q] blk by auto
  then show ?thesis
    using key q blk length_pad [OF q] unpad_pad [OF _ q] by (simp add: AesEncrypt_def AesDecrypt_def)
qed

text \<open>
  Each cipher of the package in CBC mode: under a block cipher whose decryption inverts its
  encryption on blocks of the announced size, encryption never panics; it fails exactly with the error
  of the key or of the random source, and otherwise returns the vector followed by the next whole
  number of blocks above the plaintext, from which decryption gets the plaintext back.
\<close>

theorem cbc_encryption_correct:
  assumes aes: "cipher_ok aes_BlockSize aesc" and bf: "stream_cipher_ok blowfish_BlockSize bfc" and r: "rand_ok rnd"
  shows "(case aesc key of
      Inl e \<Rightarrow> AesEncrypt aesc key p = Some (Inl e) \<and> EncryptAesCBC aesc rnd key p = Some (Inl e)
    | Inr blk \<Rightarrow>
        (\<exists>c. AesEncrypt aesc key p = Some (Inr c) \<and> length c = (length p div 16 + 1) * 16 \<and>
             AesDecrypt aesc key c = Some (Inr p)) \<and>
        (case rnd 16 of
           Inl e \<Rightarrow> EncryptAesCBC aesc rnd key p = Some (Inl e)
         | Inr iv \<Rightarrow> \<exists>c. EncryptAesCBC aesc rnd key p = Some (Inr (iv @ c)) \<and> length c = (length p div 16 + 1) * 16 \<and>
                        DecryptAesCBC aesc key (iv @ c) = Some (Inr p))) \<and>
    (case bfc key of
      Inl e \<Rightarrow> EncryptBlowfishCBC bfc rnd key p = Some (Inl e)
    | Inr blk \<Rightarrow> (case rnd 8 of
        Inl e \<Rightarrow> EncryptBlowfishCBC bfc rnd key p = Some (Inl e)
      | Inr iv \<Rightarrow> \<exists>c. EncryptBlowfishCBC bfc rnd key p = Some (Inr (iv @ c)) \<and> length c = (length p div 8 + 1) * 8 \<and>
                     DecryptBlowfishCBC bfc key (iv @ c) = Some (Inr p)))"
proof (rule conjI, goal_cases)
  case 1
  have sc: "stream_cipher_ok 16 aesc" using aes by (simp add: cipher_ok_def stream_cipher_ok_def aes_BlockSize_def)
  show ?case
    using cbc_framed [OF _ _ sc r, of key p "''cipherText too short''"] AesEncrypt_roundtrip [OF aes, of key _ p]
    by (cases "aesc key"; cases "rnd 16")
      (simp_all add: AesEncrypt_def EncryptAesCBC_def DecryptAesCBC_def aes_BlockSize_def)
next
  case 2
  show ?case
    using cbc_framed [of 8 bfc rnd key p "''ciphertext too short''"] bf r
    by (cases "bfc key"; cases "rnd 8")
      (simp_all add: EncryptBlowfishCBC_def DecryptBlowfishCBC_def blowfish_BlockSize_def)
qed

text \<open>The exclusive-or with the key as a block cipher, and a constant random source, satisfy the hypotheses.\<close>

definition xor_cipher :: "nat \<Rightarrow> new_cipher" where
  "xor_cipher n key = (if length key = n
     then Inr \<lparr>BlockSize = n, bl_Encrypt = (\<lambda>b. xor_bytes b key), bl_Decrypt = (\<lambda>b. xor_bytes b key)\<rparr>
     else Inl (Err ''invalid key size''))"

definition zero_rand :: rand_reader where
  "zero_rand n = Inr (replicate n 7)"

lemma xor_cipher_ok: "cipher_ok n (xor_cipher n)" "stream_cipher_ok n (xor_cipher n)"
  by (auto simp: cipher_ok_def stream_cipher_ok_def xor_cipher_def xor_bytes_twice split: if_splits)

lemma zero_rand_ok: "rand_ok zero_rand"
  by (simp add: rand_ok_def zero_rand_def)

theorem cbc_encryption_correct_witness:
  "\<exists>c. AesEncrypt (xor_cipher 16) (replicate 16 3) [1, 2] = Some (Inr c) \<and> length c = 16 \<and>
       AesDecrypt (xor_cipher 16) (replicate 16 3) c = Some (Inr [1, 2])"
  using cbc_encryption_correct [of "xor_cipher 16" "xor_cipher 8" zero_rand "replicate 16 3" "[1, 2]"]
    xor_cipher_ok zero_rand_ok
  by (simp add: xor_cipher_def aes_BlockSize_def blowfish_BlockSize_def split: if_splits)

text \<open>
  Blowfish in CFB mode: encryption never panics and returns the vector followed by as many bytes
  as the plaintext, from which decryption gets the plaintext back; decryption of anything shorter than
  a block reports success with an empty plaintext.
\<close>

theorem cfb_encryption_correct:
  assumes bf: "stream_cipher_ok blowfish_BlockSize bfc" and r: "rand_ok rnd"
  shows "(case bfc key of
      Inl e \<Rightarrow> BlowfishEncrypt bfc rnd key p = Some (Inl e) \<and> BlowfishDecrypt bfc key s = Some (Inl e)
    | Inr blk \<Rightarrow>
        (case rnd 8 of
           Inl e \<Rightarrow> BlowfishEncrypt bfc rnd key p = Some (Inl e)
         | Inr iv \<Rightarrow> \<exists>c. BlowfishEncrypt bfc rnd key p = Some (Inr (iv @ c)) \<and> length c = length p \<and>
                        BlowfishDecrypt bfc key (iv @ c) = Some (Inr p)) \<and>
        (length s < 8 \<longrightarrow> BlowfishDecrypt bfc key s = Some (Inr [])))"
proof (cases "bfc key")
  case (Inl e)
  then show ?thesis by (simp add: BlowfishEncrypt_def BlowfishDecrypt_def)
next
  case (Inr blk)
  then have blk: "BlockSize blk = 8" "\<And>b. length b = 8 \<Longrightarrow> length (bl_Encrypt blk b) = 8"
    using bf unfolding stream_cipher_ok_def blowfish_BlockSize_def by auto
  show ?thesis
  proof (cases "rnd 8")
    case (Inl e)
    then show ?thesis using Inr by (simp add: BlowfishEncrypt_def BlowfishDecrypt_def blowfish_BlockSize_def)
  next
    case iv: (Inr iv)
    then have "length iv = 8" using r by (simp add: rand_ok_def)
    with cfb_dec_enc [of 8 "bl_Encrypt blk" iv p] blk Inr iv show ?thesis
      by (simp add: BlowfishEncrypt_def BlowfishDecrypt_def blowfish_BlockSize_def CFBEncrypt_def CFBDecrypt_def concat_blocks)
  qed
qed

theorem cfb_encryption_correct_witness:
  "\<exists>c. BlowfishEncrypt (xor_cipher 8) zero_rand (replicate 8 3) [1, 2] = Some (Inr (replicate 8 7 @ c)) \<and> length c = 2 \<and>
       BlowfishDecrypt (xor_cipher 8) (replicate 8 3) (replicate 8 7 @ c) = Some (Inr [1, 2])"
  using cfb_encryption_correct [of "xor_cipher 8" zero_rand "replicate 8 3" "[1, 2]" "[]"]
    xor_cipher_ok zero_rand_ok
  by (simp add: xor_cipher_def blowfish_BlockSize_def zero_rand_def numeral_2_eq_2)

end
