(* ===== verification/Snowflake.thy ===== *)
theory Snowflake
  imports Go_Prelude "HOL-Library.Word"
begin

text \<open>
  \<open>encryptor/snowflake\<close>: the 64-bit identifier generator. An \<open>int64\<close> is a 64-bit word read with
  \<open>sint\<close>. The readings of \<open>time.Now().UnixMilli()\<close> are a list that the calls consume; a call that would
  need a reading beyond the list has not returned yet, which is \<open>None\<close>.
\<close>

unbundle bit_operations_syntax

type_synonym int64 = "64 word"

definition nodeBits :: nat where "nodeBits = 10"
definition seqBits :: nat where "seqBits = 12"
definition maxSeq :: int64 where "maxSeq = push_bit seqBits 1 - 1"
definition nodeShift :: nat where "nodeShift = seqBits"
definition timeShift :: nat where "timeShift = seqBits + nodeBits"
definition epoch :: int64 where "epoch = 1735689600000"

record Generator =
  g_nodeID :: int64
  g_seq :: int64
  g_lastTime :: int64

definition sf_New :: "int64 \<Rightarrow> Generator" where
  "sf_New nodeID = \<lparr>g_nodeID = nodeID, g_seq = 0, g_lastTime = 0\<rparr>"

primrec spin :: "int64 \<Rightarrow> int64 list \<Rightarrow> (int64 \<times> int64 list) option" where
  "spin lastTime [] = None"
| "spin lastTime (t # ts) = (if sint t \<le> sint lastTime then spin lastTime ts else Some (t, ts))"

definition sf_id :: "int64 \<Rightarrow> int64 \<Rightarrow> int64 \<Rightarrow> 64 word" where
  "sf_id now nodeID sq = push_bit timeShift (now - epoch) OR push_bit nodeShift nodeID OR sq"

definition Next :: "Generator \<Rightarrow> int64 list \<Rightarrow> (64 word \<times> Generator \<times> int64 list) option" where
  "Next g clock =
     (case clock of
        [] \<Rightarrow> None
      | now # ts \<Rightarrow>
          (case (if now = g_lastTime g
                 then let sq = (g_seq g + 1) AND maxSeq
                      in if sq = 0 then map_option (\<lambda>(now', ts'). (now', sq, ts')) (spin (g_lastTime g) ts)
                         else Some (now, sq, ts)
                 else Some (now, 0, ts)) of
             None \<Rightarrow> None
           | Some (now', sq, ts') \<Rightarrow>
               Some (sf_id now' (g_nodeID g) sq, g\<lparr>g_seq := sq, g_lastTime := now'\<rparr>, ts')))"

text \<open>The standard generator (\<open>std.go\<close>): \<open>None\<close> is the panic of \<open>SetNodeID\<close>.\<close>

definition sf_std :: "int64 \<Rightarrow> Generator" where
  "sf_std random = sf_New random"

definition SetNodeID :: "int64 \<Rightarrow> Generator \<Rightarrow> Generator option" where
  "SetNodeID nodeID std =
     (if sint nodeID < 0 \<or> sint nodeID > sint (push_bit nodeBits 1 - 1 :: int64) then None
      else Some (std\<lparr>g_nodeID := nodeID\<rparr>))"

definition GenerateID :: "Generator \<Rightarrow> int64 list \<Rightarrow> (64 word \<times> Generator \<times> int64 list) option" where
  "GenerateID std clock = Next std clock"

definition be_bytes :: "64 word \<Rightarrow> 8 word list" where
  "be_bytes x = map (\<lambda>i. ucast (drop_bit ((7 - i) * 8) x)) [0..<8]"

definition GenerateIDBase58 :: "(8 word list \<Rightarrow> string) \<Rightarrow> Generator \<Rightarrow> int64 list \<Rightarrow> (string \<times> Generator \<times> int64 list) option" where
  "GenerateIDBase58 enc58 std clock =
     (case GenerateID std clock of
        None \<Rightarrow> None
      | Some (x, std', ts) \<Rightarrow> Some (enc58 (be_bytes x), std', ts))"

section \<open>Layout of an identifier\<close>

lemmas sf_consts = nodeBits_def seqBits_def nodeShift_def timeShift_def

lemma maxSeq_mask: "maxSeq = mask 12"
  by (simp add: maxSeq_def seqBits_def mask_eq_decr_exp push_bit_eq_mult)

lemma small_bits:
  fixes w :: int64 assumes "unat w < 2 ^ n" "bit w i"
  shows "i < n"
proof (rule ccontr)
  assume "\<not> i < n"
  have "take_bit n (unat w) = unat w" using assms(1) by (simp add: take_bit_nat_eq_self)
  moreover have "bit (unat w) i" using assms(2) by (simp add: bit_unsigned_iff)
  ultimately show False using \<open>\<not> i < n\<close> by (metis bit_take_bit_iff)
qed

lemma unat_push_bit:
  fixes w :: int64 assumes "unat w < 2 ^ n" "n + k \<le> 64"
  shows "unat (push_bit k w) = unat w * 2 ^ k"
proof -
  have "unat w * 2 ^ k < 2 ^ n * 2 ^ k" using assms(1) by simp
  also have "\<dots> \<le> 2 ^ 64" using power_increasing [of "n + k" 64 "2 :: nat"] assms(2) by (simp add: power_add)
  finally show ?thesis
    by (simp only: unsigned_push_bit_eq push_bit_nat_def take_bit_nat_eq_self) (simp add: take_bit_nat_eq_self push_bit_eq_mult)
qed

lemma unat_or_disjoint:
  fixes a b :: int64 assumes "\<And>i. bit a i \<Longrightarrow> bit b i \<Longrightarrow> False"
  shows "unat (a OR b) = unat a + unat b"
proof -
  have "unat (a OR b) = unat a OR unat b" by (simp add: unsigned_or_eq)
  also have "\<dots> = unat a + unat b"
    by (rule disjunctive_add [symmetric]) (use assms in \<open>auto simp: bit_unsigned_iff\<close>)
  finally show ?thesis .
qed

lemma unat_sf_id:
  assumes t: "unat (now - epoch) < 2 ^ 41" and n: "unat node < 2 ^ 10" and s: "unat sq < 2 ^ 12"
  shows "unat (sf_id now node sq) = unat (now - epoch) * 2 ^ 22 + unat node * 2 ^ 12 + unat sq"
proof -
  let ?t = "push_bit 22 (now - epoch)" and ?n = "push_bit 12 node"
  have b: "bit ?t i \<Longrightarrow> 22 \<le> i" "bit ?n i \<Longrightarrow> 12 \<le> i \<and> i < 22" "bit sq i \<Longrightarrow> i < 12" for i
    using small_bits [OF n, of "i - 12"] small_bits [OF s, of i] by (auto simp: bit_push_bit_iff)
  have "unat (?n OR sq) = unat ?n + unat sq" by (rule unat_or_disjoint) (use b in fastforce)
  moreover have "unat (?t OR (?n OR sq)) = unat ?t + unat (?n OR sq)"
    by (rule unat_or_disjoint) (use b in \<open>fastforce simp: bit_or_iff\<close>)
  ultimately show ?thesis
    using unat_push_bit [OF t, of 22] unat_push_bit [OF n, of 12] by (simp add: sf_id_def sf_consts or.assoc)
qed


section \<open>Identifiers grow\<close>

definition in_epoch :: "int64 \<Rightarrow> bool" where
  "in_epoch t = (sint epoch \<le> sint t \<and> sint t < sint epoch + 2 ^ 41)"

definition clock_ok :: "int64 \<Rightarrow> int64 list \<Rightarrow> bool" where
  "clock_ok t ts = (sorted (map sint ts) \<and> list_all in_epoch ts \<and> list_all (\<lambda>u. sint t \<le> sint u) ts)"

lemma unat_since_epoch: "in_epoch t \<Longrightarrow> unat (t - epoch) = nat (sint t - sint epoch) \<and> unat (t - epoch) < 2 ^ 41"
proof -
  assume t: "in_epoch t"
  have "t - epoch = word_of_int (sint t - sint epoch)" by simp
  then have "unat (t - epoch) = nat (take_bit 64 (sint t - sint epoch))"
    by (simp only: unat_eq_nat_uint uint_word_of_int_eq) simp
  moreover have "take_bit 64 (sint t - sint epoch) = sint t - sint epoch"
    using t by (intro take_bit_int_eq_self) (auto simp: in_epoch_def)
  ultimately show ?thesis using t by (auto simp: in_epoch_def)
qed

lemma spin_Some: "spin l ts = Some (t, ts') \<Longrightarrow> sint l < sint t \<and> (\<exists>pre. ts = pre @ t # ts')"
  by (induction ts) (auto split: if_splits intro: exI [of _ "_ # _"])

lemma spin_None_iff: "spin l ts = None \<longleftrightarrow> (\<forall>t \<in> set ts. sint t \<le> sint l)"
  by (induction ts) auto

lemma clock_ok_drop: "clock_ok l (pre @ t # ts) \<Longrightarrow> clock_ok t ts \<and> in_epoch t \<and> sint l \<le> sint t"
  by (auto simp: clock_ok_def list_all_iff sorted_append)

lemma next_seq:
  assumes "unat s < 2 ^ 12" "(s + 1) AND maxSeq \<noteq> 0"
  shows "unat ((s + 1) AND maxSeq) = unat s + 1" "unat s + 1 < 2 ^ 12"
proof -
  have "unat (s + 1) = unat s + 1" using assms(1) by (simp add: unat_word_ariths)
  then have u: "unat ((s + 1) AND maxSeq) = (unat s + 1) mod 2 ^ 12"
    by (simp only: maxSeq_mask take_bit_eq_mask [symmetric] unsigned_take_bit_eq) (simp add: take_bit_eq_mod)
  moreover have "unat ((s + 1) AND maxSeq) \<noteq> 0" using assms(2) by (simp add: unat_eq_0)
  ultimately show "unat s + 1 < 2 ^ 12" using assms(1) by (cases "unat s + 1 = 2 ^ 12") auto
  then show "unat ((s + 1) AND maxSeq) = unat s + 1" using u by simp
qed

lemma Next_step:
  assumes "Next g ts = Some (x, g', ts')" "clock_ok (g_lastTime g) ts" "unat (g_seq g) < 2 ^ 12"
  shows "x = sf_id (g_lastTime g') (g_nodeID g) (g_seq g')" "g_nodeID g' = g_nodeID g" "clock_ok (g_lastTime g') ts'"
    "in_epoch (g_lastTime g')" "unat (g_seq g') < 2 ^ 12"
    "sint (g_lastTime g) < sint (g_lastTime g') \<or> g_lastTime g = g_lastTime g' \<and> unat (g_seq g) < unat (g_seq g')"
proof -
  obtain now rest where ts: "ts = now # rest" using assms(1) by (cases ts) (auto simp: Next_def)
  consider (later) "now \<noteq> g_lastTime g" | (same) "now = g_lastTime g" "(g_seq g + 1) AND maxSeq \<noteq> 0"
    | (full) "now = g_lastTime g" "(g_seq g + 1) AND maxSeq = 0" by blast
  then have "x = sf_id (g_lastTime g') (g_nodeID g) (g_seq g') \<and> g_nodeID g' = g_nodeID g \<and> clock_ok (g_lastTime g') ts' \<and>
    in_epoch (g_lastTime g') \<and> unat (g_seq g') < 2 ^ 12 \<and>
    (sint (g_lastTime g) < sint (g_lastTime g') \<or> g_lastTime g = g_lastTime g' \<and> unat (g_seq g) < unat (g_seq g'))"
  proof cases
    case later
    then have "sint now \<noteq> sint (g_lastTime g)" using signed_word_eqI [of now "g_lastTime g"] by blast
    with later assms clock_ok_drop [of "g_lastTime g" "[]" now rest] show ?thesis by (auto simp: Next_def ts)
  next
    case same
    with assms clock_ok_drop [of "g_lastTime g" "[]" now rest] next_seq [OF assms(3) same(2)] show ?thesis
      by (auto simp: Next_def ts Let_def)
  next
    case full
    then obtain t pre where t: "g' = g\<lparr>g_seq := 0, g_lastTime := t\<rparr>" "x = sf_id t (g_nodeID g) 0"
      "sint (g_lastTime g) < sint t" "rest = pre @ t # ts'"
      using assms(1) spin_Some [of "g_lastTime g" rest] by (auto simp: Next_def ts Let_def split: option.splits)
    with assms clock_ok_drop [of "g_lastTime g" "now # pre" t ts'] show ?thesis by (simp add: ts)
  qed
  then show "x = sf_id (g_lastTime g') (g_nodeID g) (g_seq g')" "g_nodeID g' = g_nodeID g" "clock_ok (g_lastTime g') ts'"
    "in_epoch (g_lastTime g')" "unat (g_seq g') < 2 ^ 12"
    "sint (g_lastTime g) < sint (g_lastTime g') \<or> g_lastTime g = g_lastTime g' \<and> unat (g_seq g) < unat (g_seq g')"
    by blast+
qed

fun sf_ids :: "nat \<Rightarrow> Generator \<Rightarrow> int64 list \<Rightarrow> (64 word list \<times> int64 list) option" where
  "sf_ids 0 g ts = Some ([], ts)"
| "sf_ids (Suc k) g ts =
     (case Next g ts of
        None \<Rightarrow> None
      | Some (x, g', ts') \<Rightarrow> map_option (\<lambda>(xs, us). (x # xs, us)) (sf_ids k g' ts'))"

lemma length_sf_ids: "sf_ids k g ts = Some (xs, us) \<Longrightarrow> length xs = k"
  by (induction k arbitrary: g ts xs) (auto split: option.splits)

lemma sf_id_mono:
  assumes "in_epoch t" "in_epoch u" "unat node < 2 ^ 10" "unat s < 2 ^ 12" "unat r < 2 ^ 12"
    "sint t < sint u \<or> t = u \<and> unat s < unat r"
  shows "unat (sf_id t node s) < unat (sf_id u node r)"
proof (cases "t = u")
  case True
  then show ?thesis using assms unat_since_epoch [of u] by (simp add: unat_sf_id)
next
  case False
  then have "unat (t - epoch) + 1 \<le> unat (u - epoch)" using assms unat_since_epoch [of t] unat_since_epoch [of u]
    by (auto simp: in_epoch_def)
  then have "unat (t - epoch) * 2 ^ 22 + 2 ^ 22 \<le> unat (u - epoch) * 2 ^ 22" by simp
  then show ?thesis using assms unat_since_epoch [of t] unat_since_epoch [of u] by (simp add: unat_sf_id)
qed

lemma middle_digit: "(s :: nat) < b \<Longrightarrow> n < a \<Longrightarrow> ((t * a + n) * b + s) div b mod a = n"
  by simp

lemma node_field:
  assumes "in_epoch t" "unat node < 2 ^ 10" "unat s < 2 ^ 12"
  shows "unat (sf_id t node s) div 2 ^ 12 mod 2 ^ 10 = unat node" "unat (sf_id t node s) < 2 ^ 63"
proof -
  have "unat (sf_id t node s) = (unat (t - epoch) * 2 ^ 10 + unat node) * 2 ^ 12 + unat s"
    using assms unat_since_epoch [of t] unat_sf_id [of t node s] by (simp add: algebra_simps)
  then show "unat (sf_id t node s) div 2 ^ 12 mod 2 ^ 10 = unat node"
    using middle_digit [OF assms(3,2)] by metis
  show "unat (sf_id t node s) < 2 ^ 63" using assms unat_since_epoch [of t] by (simp add: unat_sf_id)
qed

lemma sf_ids_sorted:
  "sf_ids k g ts = Some (xs, us) \<Longrightarrow> clock_ok (g_lastTime g) ts \<Longrightarrow> unat (g_nodeID g) < 2 ^ 10 \<Longrightarrow> unat (g_seq g) < 2 ^ 12 \<Longrightarrow>
   sorted_wrt (<) (map unat xs) \<and>
   (\<forall>x \<in> set xs. unat x div 2 ^ 12 mod 2 ^ 10 = unat (g_nodeID g) \<and> unat x < 2 ^ 63 \<and>
      (in_epoch (g_lastTime g) \<longrightarrow> unat (sf_id (g_lastTime g) (g_nodeID g) (g_seq g)) < unat x))"
proof (induction k arbitrary: g ts xs)
  case (Suc k)
  obtain x g' ts' ys where n: "Next g ts = Some (x, g', ts')" and ys: "sf_ids k g' ts' = Some (ys, us)" "xs = x # ys"
    using Suc.prems(1) by (auto split: option.splits)
  note st = Next_step [OF n Suc.prems(2,4)]
  note ih = Suc.IH [OF ys(1) st(3) _ st(5)]
  have x: "in_epoch (g_lastTime g) \<Longrightarrow> unat (sf_id (g_lastTime g) (g_nodeID g) (g_seq g)) < unat x"
    using sf_id_mono [OF _ st(4) Suc.prems(3,4) st(5,6)] st(1) by simp
  show ?case using ih x node_field [OF st(4) Suc.prems(3) st(5)] Suc.prems(3) st(1,2,4)
    by (auto simp: ys(2) intro: less_trans)
qed simp

text \<open>
  Identifiers of one generator (C20): with a clock that does not run backwards and stays within the
  41 bits after the epoch, and a node number of ten bits, successive calls return strictly increasing
  identifiers below \<open>2\<^sup>6\<^sup>3\<close> whose middle field is the node number, so generators with different node
  numbers never return the same identifier.
\<close>

theorem snowflake_increasing:
  assumes "sorted (map sint ts)" "list_all in_epoch ts" "unat node < 2 ^ 10"
    "sf_ids k (sf_New node) ts = Some (xs, us)"
  shows "length xs = k \<and> sorted_wrt (<) (map unat xs) \<and>
    (\<forall>x \<in> set xs. unat x div 2 ^ 12 mod 2 ^ 10 = unat node \<and> unat x < 2 ^ 63)"
proof -
  have "clock_ok 0 ts" using assms(1,2) by (auto simp: clock_ok_def list_all_iff in_epoch_def epoch_def)
  moreover have "length xs = k" by (rule length_sf_ids [OF assms(4)])
  ultimately show ?thesis using sf_ids_sorted [OF assms(4)] assms(3) by (simp add: sf_New_def)
qed

theorem snowflake_increasing_witness:
  "\<exists>xs us. sf_ids 3 (sf_New 5) [epoch, epoch, epoch + 1] = Some (xs, us) \<and> sorted_wrt (<) (map unat xs)"
proof -
  obtain xs us where "sf_ids 3 (sf_New 5) [epoch, epoch, epoch + 1] = Some (xs, us)"
    by (simp add: numeral_3_eq_3 Next_def sf_New_def epoch_def maxSeq_def seqBits_def)
  moreover from this have "sorted_wrt (<) (map unat xs)"
    using snowflake_increasing [of "[epoch, epoch, epoch + 1]" 5 3 xs us] by (simp add: epoch_def in_epoch_def)
  ultimately show ?thesis by blast
qed

text \<open>
  When a call returns: it returns on its first clock reading, except when that reading is the
  millisecond of the last identifier and the sequence number wraps; then it returns exactly when a
  later reading passes that millisecond, and the loop takes the first such reading.
\<close>

theorem Next_returns:
  "(Next g (now # ts) \<noteq> None) \<longleftrightarrow>
     (now \<noteq> g_lastTime g \<or> (g_seq g + 1) AND maxSeq \<noteq> 0 \<or> (\<exists>t \<in> set ts. sint (g_lastTime g) < sint t))"
  using spin_None_iff [of "g_lastTime g" ts]
  by (auto simp: Next_def Let_def not_le not_less split: option.splits)

theorem Next_returns_witness:
  "Next \<lparr>g_nodeID = 1, g_seq = maxSeq, g_lastTime = 7\<rparr> [7, 6, 8] \<noteq> None"
  using Next_returns [of "\<lparr>g_nodeID = 1, g_seq = maxSeq, g_lastTime = 7\<rparr>" 7 "[6, 8]"] by simp

end
