(* ===== verification/Sse_Cache.thy ===== *)
theory Sse_Cache
  imports Redis_Kv
begin

text \<open>
  The stores behind the server-sent-events client (\<open>apis/sseclient/cache.go\<close>, \<open>memory.go\<close>,
  \<open>redis.go\<close>): the interface \<open>Cache\<close> as a record of operations on a state, the memory store, the
  Redis store over abstract Redis commands, and the locale \<open>sse_store\<close> with what a reader that
  follows a stream relies on. Each operation reads the clock once; \<open>None\<close> in the result of
  \<open>ReadAfterID\<close> is a Go panic (a negative index).
\<close>

record 's Cache =
  c_WriteMessage :: "gotime \<Rightarrow> string \<Rightarrow> string \<Rightarrow> duration \<Rightarrow> 's \<Rightarrow> unit res \<times> 's"
  c_ReadMessages :: "gotime \<Rightarrow> string \<Rightarrow> 's \<Rightarrow> (string \<times> string list) res \<times> 's"
  c_ReadAfterID :: "gotime \<Rightarrow> string \<Rightarrow> string \<Rightarrow> 's \<Rightarrow> (string \<times> string) res option \<times> 's"
  c_Set :: "gotime \<Rightarrow> string \<Rightarrow> duration \<Rightarrow> 's \<Rightarrow> unit res \<times> 's"
  c_Exist :: "gotime \<Rightarrow> string \<Rightarrow> 's \<Rightarrow> bool res \<times> 's"
  c_Delete :: "gotime \<Rightarrow> string \<Rightarrow> 's \<Rightarrow> unit res \<times> 's"

section \<open>The memory store (\<open>memory.go\<close>)\<close>

record memoryDataItem =
  mi_list :: "string list"
  mi_expired :: gotime

record memoryCache =
  dataMap :: "string \<Rightarrow> memoryDataItem option"
  signals :: "string \<Rightarrow> bool option"
  mc_writeKeyPrefix :: string
  mc_stopKeyPrefix :: string

definition newMemoryCache :: "string \<Rightarrow> string \<Rightarrow> memoryCache" where
  "newMemoryCache writeKeyPrefix stopKeyPrefix =
     \<lparr>dataMap = Map.empty, signals = Map.empty, mc_writeKeyPrefix = writeKeyPrefix, mc_stopKeyPrefix = stopKeyPrefix\<rparr>"

definition mem_WriteMessage :: "gotime \<Rightarrow> string \<Rightarrow> string \<Rightarrow> duration \<Rightarrow> memoryCache \<Rightarrow> unit res \<times> memoryCache" where
  "mem_WriteMessage now key msg expiration m =
     (let list = (case dataMap m key of None \<Rightarrow> [] | Some d \<Rightarrow> mi_list d)
      in (Inr (), m\<lparr>dataMap := (dataMap m)(key \<mapsto> \<lparr>mi_list = list @ [msg], mi_expired = now + expiration\<rparr>)\<rparr>))"

text \<open>\<open>strings.ReplaceAll\<close> for a nonempty pattern; the prefixes are nonempty constants.\<close>

function replace_all :: "string \<Rightarrow> string \<Rightarrow> string \<Rightarrow> string" where
  "replace_all old new s =
     (if s = [] \<or> old = [] then s
      else if has_prefix s old then new @ replace_all old new (drop (length old) s)
      else hd s # replace_all old new (tl s))"
  by pat_completeness auto
termination by (relation "measure (\<lambda>(_, _, s). length s)") auto

declare replace_all.simps [simp del]

definition mem_purge :: "string \<Rightarrow> memoryCache \<Rightarrow> memoryCache" where
  "mem_purge key m = m\<lparr>dataMap := (dataMap m)(key := None),
     signals := (signals m)(replace_all (mc_writeKeyPrefix m) (mc_stopKeyPrefix m) key := None)\<rparr>"

definition mem_ReadMessages :: "gotime \<Rightarrow> string \<Rightarrow> memoryCache \<Rightarrow> (string \<times> string list) res \<times> memoryCache" where
  "mem_ReadMessages now key m =
     (case dataMap m key of
        None \<Rightarrow> (Inr ('''', []), m)
      | Some data \<Rightarrow>
          if mi_expired data < now then (Inr ('''', []), mem_purge key m)
          else (Inr (itoa (int (length (mi_list data)) - 1), mi_list data), m))"

text \<open>
  \<open>idx, _ := strconv.Atoi(id)\<close> with the error dropped: a syntax error gives 0, an out-of-range number
  the nearest \<open>int64\<close>. \<open>idx + 1\<close> wraps around.
\<close>

definition atoi_or :: "string \<Rightarrow> int" where
  "atoi_or s = (case s of
     [] \<Rightarrow> 0
   | c # cs \<Rightarrow>
       (if c = CHR ''-'' then
          (case parse_digits cs of Some n \<Rightarrow> max (- (2 ^ 63)) (- int n) | None \<Rightarrow> 0)
        else
          (case parse_digits (if c = CHR ''+'' then cs else s) of
             Some n \<Rightarrow> min (2 ^ 63 - 1) (int n) | None \<Rightarrow> 0)))"

definition incr_int64 :: "int \<Rightarrow> int" where
  "incr_int64 i = (if i = 2 ^ 63 - 1 then - (2 ^ 63) else i + 1)"

definition mem_ReadAfterID :: "gotime \<Rightarrow> string \<Rightarrow> string \<Rightarrow> memoryCache \<Rightarrow> (string \<times> string) res option \<times> memoryCache" where
  "mem_ReadAfterID now key mid m =
     (case dataMap m key of
        None \<Rightarrow> (Some (Inr ('''', '''')), m)
      | Some data \<Rightarrow>
          if mi_expired data < now then (Some (Inr ('''', '''')), mem_purge key m)
          else let n = int (length (mi_list data)); j = incr_int64 (atoi_or mid)
               in if n \<le> j then (Some (Inr ('''', '''')), m)
                  else if j < 0 then (None, m)
                  else (Some (Inr (itoa j, mi_list data ! nat j)), m))"

definition mem_Set :: "gotime \<Rightarrow> string \<Rightarrow> duration \<Rightarrow> memoryCache \<Rightarrow> unit res \<times> memoryCache" where
  "mem_Set now key expiration m = (Inr (), m\<lparr>signals := (signals m)(key \<mapsto> True)\<rparr>)"

definition mem_Exist :: "gotime \<Rightarrow> string \<Rightarrow> memoryCache \<Rightarrow> bool res \<times> memoryCache" where
  "mem_Exist now key m = (Inr (dataMap m key \<noteq> None), m)"

definition mem_Delete :: "gotime \<Rightarrow> string \<Rightarrow> memoryCache \<Rightarrow> unit res \<times> memoryCache" where
  "mem_Delete now key m = (Inr (), m\<lparr>dataMap := (dataMap m)(key := None)\<rparr>)"

definition memory_cache :: "memoryCache Cache" where
  "memory_cache = \<lparr>c_WriteMessage = mem_WriteMessage, c_ReadMessages = mem_ReadMessages, c_ReadAfterID = mem_ReadAfterID,
     c_Set = mem_Set, c_Exist = mem_Exist, c_Delete = mem_Delete\<rparr>"

section \<open>The Redis store (\<open>redis.go\<close>)\<close>

text \<open>The commands it sends; \<open>None\<close> of XREAD is the nil reply of a block that timed out.\<close>

record 'q log_ops =
  lg_xadd :: "gotime \<Rightarrow> string \<Rightarrow> (string \<times> string) list \<Rightarrow> 'q \<Rightarrow> string res \<times> 'q"
  lg_expire :: "gotime \<Rightarrow> string \<Rightarrow> duration \<Rightarrow> 'q \<Rightarrow> bool res \<times> 'q"
  lg_xrevrange :: "gotime \<Rightarrow> string \<Rightarrow> string \<Rightarrow> string \<Rightarrow> nat \<Rightarrow> 'q \<Rightarrow> entry list res"
  lg_xrange :: "gotime \<Rightarrow> string \<Rightarrow> string \<Rightarrow> string \<Rightarrow> 'q \<Rightarrow> entry list res"
  lg_xread :: "gotime \<Rightarrow> duration \<Rightarrow> nat \<Rightarrow> string \<Rightarrow> string \<Rightarrow> 'q \<Rightarrow> (string \<times> entry list) list res"
  lg_set :: "gotime \<Rightarrow> string \<Rightarrow> string \<Rightarrow> duration \<Rightarrow> 'q \<Rightarrow> unit res \<times> 'q"
  lg_exists :: "gotime \<Rightarrow> string \<Rightarrow> 'q \<Rightarrow> int res"
  lg_del :: "gotime \<Rightarrow> string \<Rightarrow> 'q \<Rightarrow> unit res \<times> 'q"

definition rds_WriteMessage :: "'q log_ops \<Rightarrow> gotime \<Rightarrow> string \<Rightarrow> string \<Rightarrow> duration \<Rightarrow> 'q \<Rightarrow> unit res \<times> 'q" where
  "rds_WriteMessage R now key msg expiration q =
     (case lg_xadd R now key [(''data'', msg)] q of
        (Inl e, q1) \<Rightarrow> (Inl (Err (''failed to add message to redis stream, err: '' @ err_text e @ '', key:'' @ key @ '', msg:'' @ msg)), q1)
      | (Inr _, q1) \<Rightarrow>
          (case lg_expire R now key expiration q1 of
             (Inl e, q2) \<Rightarrow> (Inl (Err (''failed to set expiration for redis stream, err: '' @ err_text e @ '', key:'' @ key)), q2)
           | (Inr _, q2) \<Rightarrow> (Inr (), q2)))"

definition data_fields :: "entry list \<Rightarrow> string list" where
  "data_fields es = List.map_filter (\<lambda>v. map_of (snd v) ''data'') es"

definition rds_ReadMessages :: "'q log_ops \<Rightarrow> gotime \<Rightarrow> string \<Rightarrow> 'q \<Rightarrow> (string \<times> string list) res \<times> 'q" where
  "rds_ReadMessages R now key q =
     (case lg_xrevrange R now key ''+'' ''-'' 1 q of
        Inl e \<Rightarrow> (Inl (Err (''failed to get latest id, err: '' @ err_text e @ '', key: '' @ key)), q)
      | Inr [] \<Rightarrow> (Inr ('''', []), q)
      | Inr (latest # _) \<Rightarrow>
          (case lg_xrange R now key ''-'' (fst latest) q of
             Inl e \<Rightarrow> (Inl (Err (''failed to read from redis stream, err: '' @ err_text e @ '', key: '' @ key)), q)
           | Inr es \<Rightarrow> (Inr (fst latest, data_fields es), q)))"

text \<open>The two nested loops of \<open>ReadAfterID\<close>: the last entry gives the id, the last data field the text.\<close>

definition last_message :: "(string \<times> entry list) list \<Rightarrow> string \<times> string" where
  "last_message res = fold (\<lambda>v (msgID, msg). (fst v, case map_of (snd v) ''data'' of Some str \<Rightarrow> str | None \<Rightarrow> msg))
     (concat (map snd res)) ('''', '''')"

definition rds_ReadAfterID :: "'q log_ops \<Rightarrow> duration \<Rightarrow> gotime \<Rightarrow> string \<Rightarrow> string \<Rightarrow> 'q \<Rightarrow> (string \<times> string) res option \<times> 'q" where
  "rds_ReadAfterID R blockTimeout now key mid q =
     (case lg_xread R now blockTimeout 1 key mid q of
        Inl e \<Rightarrow>
          if e = redis_Nil then (Some (Inr ('''', '''')), q)
          else (Some (Inl (Err (''failed to read from redis stream, err: '' @ err_text e @ '', key: '' @ key @ '', id:'' @ mid))), q)
      | Inr res \<Rightarrow> (Some (Inr (last_message res)), q))"

definition rds_Set :: "'q log_ops \<Rightarrow> gotime \<Rightarrow> string \<Rightarrow> duration \<Rightarrow> 'q \<Rightarrow> unit res \<times> 'q" where
  "rds_Set R now key expiration q =
     (case lg_set R now key ''stop_signal'' expiration q of
        (Inl e, q1) \<Rightarrow> (Inl (Err (''failed to set stop signal, err: '' @ err_text e @ '', key:'' @ key)), q1)
      | (Inr _, q1) \<Rightarrow> (Inr (), q1))"

definition rds_Exist :: "'q log_ops \<Rightarrow> gotime \<Rightarrow> string \<Rightarrow> 'q \<Rightarrow> bool res \<times> 'q" where
  "rds_Exist R now key q =
     (case lg_exists R now key q of
        Inl e \<Rightarrow> (Inl (Err (''failed to get stop signal, err: '' @ err_text e @ '', key:'' @ key)), q)
      | Inr cnt \<Rightarrow> (Inr (0 < cnt), q))"

definition rds_Delete :: "'q log_ops \<Rightarrow> gotime \<Rightarrow> string \<Rightarrow> 'q \<Rightarrow> unit res \<times> 'q" where
  "rds_Delete R now key q =
     (case lg_del R now key q of
        (Inl e, q1) \<Rightarrow> (Inl (Err (''failed to delete message, err: '' @ err_text e @ '', key:'' @ key)), q1)
      | (Inr _, q1) \<Rightarrow> (Inr (), q1))"

definition redis_cache :: "'q log_ops \<Rightarrow> duration \<Rightarrow> 'q Cache" where
  "redis_cache R blockTimeout = \<lparr>c_WriteMessage = rds_WriteMessage R, c_ReadMessages = rds_ReadMessages R,
     c_ReadAfterID = rds_ReadAfterID R blockTimeout, c_Set = rds_Set R, c_Exist = rds_Exist R, c_Delete = rds_Delete R\<rparr>"

section \<open>What a follower of a stream relies on\<close>

text \<open>
  \<open>msgs s k\<close> is the text of the messages of a stream, \<open>mid s k i\<close> the id of its \<open>i\<close>-th message and
  \<open>alive s t k\<close> says that it exists and has not expired at \<open>t\<close>. Operations may fail; they promise
  nothing then, except that reads change nothing.
\<close>

locale sse_store =
  fixes C :: "'s Cache" and msgs :: "'s \<Rightarrow> string \<Rightarrow> string list" and mid :: "'s \<Rightarrow> string \<Rightarrow> nat \<Rightarrow> string"
    and alive :: "'s \<Rightarrow> gotime \<Rightarrow> string \<Rightarrow> bool" and sinv :: "'s \<Rightarrow> bool"
  assumes write_ok: "sinv s \<Longrightarrow> alive s now k \<Longrightarrow> c_WriteMessage C now k m ex s = (Inr (), s') \<Longrightarrow>
       sinv s' \<and> msgs s' k = msgs s k @ [m] \<and> (\<forall>i < length (msgs s k). mid s' k i = mid s k i) \<and>
       (\<forall>t. t < now + ex \<longrightarrow> alive s' t k)"
    and read_after: "sinv s \<Longrightarrow> alive s now k \<Longrightarrow> i < length (msgs s k) \<Longrightarrow> length (msgs s k) < 2 ^ 63 \<Longrightarrow>
       c_ReadAfterID C now k (mid s k i) s = (r, s') \<Longrightarrow> s' = s \<and> r \<noteq> None \<and>
       (\<forall>j m. r = Some (Inr (j, m)) \<longrightarrow>
          (if Suc i < length (msgs s k) then j = mid s k (Suc i) \<and> m = msgs s k ! Suc i else j = ''''))"
    and read_same: "sinv s \<Longrightarrow> alive s now k \<Longrightarrow> c_ReadAfterID C now k x s = (r, s') \<Longrightarrow> s' = s"
    and mid_nonempty: "sinv s \<Longrightarrow> i < length (msgs s k) \<Longrightarrow> mid s k i \<noteq> ''''"
    and exist_same: "c_Exist C now k s = (b, s') \<Longrightarrow> s' = s"
    and alive_mono: "alive s t k \<Longrightarrow> u \<le> t \<Longrightarrow> alive s u k"
    and read_all: "sinv s \<Longrightarrow> alive s now k \<Longrightarrow> c_ReadMessages C now k s = (Inr (j, ms), s') \<Longrightarrow>
       s' = s \<and> ms = msgs s k \<and> (ms \<noteq> [] \<longrightarrow> j = mid s k (length ms - 1))"

subsection \<open>The memory store keeps it\<close>

definition mem_msgs :: "memoryCache \<Rightarrow> string \<Rightarrow> string list" where
  "mem_msgs m k = (case dataMap m k of None \<Rightarrow> [] | Some d \<Rightarrow> mi_list d)"

definition mem_mid :: "memoryCache \<Rightarrow> string \<Rightarrow> nat \<Rightarrow> string" where
  "mem_mid m k i = itoa (int i)"

definition mem_alive :: "memoryCache \<Rightarrow> gotime \<Rightarrow> string \<Rightarrow> bool" where
  "mem_alive m t k = (case dataMap m k of None \<Rightarrow> False | Some d \<Rightarrow> t \<le> mi_expired d)"

lemma atoi_or_itoa: "n < 2 ^ 63 \<Longrightarrow> atoi_or (itoa (int n)) = int n"
proof -
  assume n: "n < 2 ^ 63"
  obtain c cs where d: "nat_digits n = c # cs" by (cases "nat_digits n") auto
  have "c \<noteq> CHR ''-''" "c \<noteq> CHR ''+''" using nat_digits_all_digits [of c n] by (auto simp: d)
  moreover have "parse_digits (c # cs) = Some n" using parse_digits_nat_digits [of n] by (simp add: d)
  ultimately show ?thesis using n by (simp add: atoi_or_def itoa_def d)
qed

interpretation memory_store: sse_store memory_cache mem_msgs mem_mid mem_alive "\<lambda>_. True"
proof (unfold_locales, goal_cases)
  case (2 s now k i r s')
  then obtain d where d: "dataMap s k = Some d" "now \<le> mi_expired d" by (auto simp: mem_alive_def split: option.splits)
  have "i < 2 ^ 63" using 2 by simp
  then have a: "atoi_or (itoa (int i)) = int i" by (rule atoi_or_itoa)
  have inc: "incr_int64 (int i) = int (Suc i)" using 2 by (auto simp: incr_int64_def)
  have c: "c_ReadAfterID memory_cache now k (mem_mid s k i) s =
      (if length (mi_list d) \<le> Suc i then (Some (Inr ('''', '''')), s)
       else (Some (Inr (itoa (int (Suc i)), mi_list d ! Suc i)), s))"
    using d unfolding memory_cache_def mem_ReadAfterID_def mem_mid_def Cache.select_convs a inc Let_def
    by (simp del: of_nat_Suc)
  show ?case using 2(5) d(1) unfolding c by (auto simp: mem_msgs_def mem_mid_def simp del: of_nat_Suc split: if_splits)
next
  case (4 s i k)
  then show ?case by (simp add: mem_mid_def itoa_def)
next
  case (3 s now k x r s')
  then show ?case
    by (auto simp: memory_cache_def mem_ReadAfterID_def mem_alive_def Let_def split: option.splits if_splits)
next
  case (7 s now k j ms s')
  then show ?case
    by (auto simp: memory_cache_def mem_ReadMessages_def mem_alive_def mem_msgs_def mem_mid_def of_nat_diff Suc_leI split: option.splits if_splits)
qed (auto simp: memory_cache_def mem_WriteMessage_def mem_msgs_def mem_mid_def mem_alive_def mem_Exist_def Let_def split: option.splits)

subsection \<open>The Redis store keeps it, given the documented behaviour of the commands\<close>

type_synonym log_entry = "entry list \<times> gotime option"

definition live_log :: "log_entry option \<Rightarrow> gotime \<Rightarrow> entry list" where
  "live_log e now = (case e of
     None \<Rightarrow> []
   | Some (es, None) \<Rightarrow> es
   | Some (es, Some x) \<Rightarrow> (if now < x then es else []))"

definition log_ttl :: "log_entry option \<Rightarrow> gotime \<Rightarrow> gotime option" where
  "log_ttl e now = (if live_log e now = [] then None else snd (the e))"

text \<open>
  The view \<open>lent\<close>: the entries of each stream with the instant it expires; ids are nonempty and
  distinct within a stream.
\<close>

locale redis_log =
  fixes R :: "'q log_ops" and blk :: duration and lent :: "'q \<Rightarrow> string \<Rightarrow> log_entry option"
  assumes ids_distinct: "distinct (map fst (live_log (lent q k) now))"
    and ids_nonempty: "e \<in> set (live_log (lent q k) now) \<Longrightarrow> fst e \<noteq> ''''"
    and xadd_ok: "lg_xadd R now k f q = (Inr eid, q') \<Longrightarrow>
       lent q' = (lent q)(k \<mapsto> (live_log (lent q k) now @ [(eid, f)], log_ttl (lent q k) now))"
    and expire_ok: "lg_expire R now k ttl q = (Inr b, q') \<Longrightarrow> live_log (lent q k) now = es \<Longrightarrow>
       lent q' = (if es = [] then lent q else (lent q)(k \<mapsto> (es, Some (now + ttl))))"
    and xrevrange_ok: "lg_xrevrange R now k ''+'' ''-'' 1 q = Inr es \<Longrightarrow> es = take 1 (rev (live_log (lent q k) now))"
    and xrange_ok: "i < length (live_log (lent q k) now) \<Longrightarrow>
       lg_xrange R now k ''-'' (fst (live_log (lent q k) now ! i)) q = Inr es \<Longrightarrow> es = take (Suc i) (live_log (lent q k) now)"
    and xread_ok: "i < length (live_log (lent q k) now) \<Longrightarrow>
       lg_xread R now blk 1 k (fst (live_log (lent q k) now ! i)) q = Inr res \<Longrightarrow>
       Suc i < length (live_log (lent q k) now) \<and> res = [(k, [live_log (lent q k) now ! Suc i])]"
    and xread_nil: "i < length (live_log (lent q k) now) \<Longrightarrow>
       lg_xread R now blk 1 k (fst (live_log (lent q k) now ! i)) q = Inl redis_Nil \<Longrightarrow>
       Suc i = length (live_log (lent q k) now)"
begin

definition rmsgs :: "'q \<Rightarrow> string \<Rightarrow> string list" where
  "rmsgs q k = (case lent q k of None \<Rightarrow> [] | Some (es, _) \<Rightarrow> map (\<lambda>e. the (map_of (snd e) ''data'')) es)"

definition rmid :: "'q \<Rightarrow> string \<Rightarrow> nat \<Rightarrow> string" where
  "rmid q k i = fst (fst (the (lent q k)) ! i)"

definition ralive :: "'q \<Rightarrow> gotime \<Rightarrow> string \<Rightarrow> bool" where
  "ralive q t k \<longleftrightarrow> (\<exists>es x. lent q k = Some (es, x) \<and> es \<noteq> [] \<and> (x = None \<or> t < the x))"

definition rinv :: "'q \<Rightarrow> bool" where
  "rinv q \<longleftrightarrow> (\<forall>k es x. lent q k = Some (es, x) \<longrightarrow> (\<forall>e \<in> set es. map_of (snd e) ''data'' \<noteq> None \<and> fst e \<noteq> ''''))"

lemma ralive_live: "ralive q now k \<Longrightarrow> \<exists>es x. lent q k = Some (es, x) \<and> es \<noteq> [] \<and> live_log (lent q k) now = es"
  by (auto simp: ralive_def live_log_def split: option.splits)

lemma data_fields_all: "(\<And>e. e \<in> set es \<Longrightarrow> map_of (snd e) ''data'' \<noteq> None) \<Longrightarrow>
  data_fields es = map (\<lambda>e. the (map_of (snd e) ''data'')) es"
  unfolding data_fields_def by (induction es) (force simp: List.map_filter_simps)+

lemma rwrite_ok:
  assumes inv: "rinv q" and al: "ralive q now k" and w: "rds_WriteMessage R now k m ex q = (Inr (), q')"
  shows "rinv q' \<and> rmsgs q' k = rmsgs q k @ [m] \<and> (\<forall>i < length (rmsgs q k). rmid q' k i = rmid q k i) \<and>
    (\<forall>t. t < now + ex \<longrightarrow> ralive q' t k)"
proof -
  obtain es x where es: "lent q k = Some (es, x)" "es \<noteq> []" "live_log (lent q k) now = es" using ralive_live [OF al] by blast
  obtain i q1 b where a: "lg_xadd R now k [(''data'', m)] q = (Inr i, q1)" and e: "lg_expire R now k ex q1 = (Inr b, q')"
    using w by (auto simp: rds_WriteMessage_def split: prod.splits sum.splits)
  have l1: "lent q1 = (lent q)(k \<mapsto> (es @ [(i, [(''data'', m)])], x))"
    using xadd_ok [OF a] es by (simp add: log_ttl_def)
  have live1: "live_log (lent q1 k) now = es @ [(i, [(''data'', m)])]"
    using es by (auto simp: l1 live_log_def split: option.splits if_splits)
  then have "i \<noteq> ''''" using ids_nonempty [of "(i, [(''data'', m)])" q1 k now] by simp
  moreover have l2: "lent q' = (lent q)(k \<mapsto> (es @ [(i, [(''data'', m)])], Some (now + ex)))"
    using expire_ok [OF e live1] by (simp add: l1)
  ultimately have "rinv q'" using inv es(1) by (auto simp: rinv_def split: if_splits)
  then show ?thesis using es(1) by (auto simp: l2 rmsgs_def rmid_def ralive_def nth_append)
qed

lemma rread_after:
  assumes inv: "rinv q" and al: "ralive q now k" and i: "i < length (rmsgs q k)"
    and r: "rds_ReadAfterID R blk now k (rmid q k i) q = (r, q')"
  shows "q' = q \<and> r \<noteq> None \<and> (\<forall>j m. r = Some (Inr (j, m)) \<longrightarrow>
     (if Suc i < length (rmsgs q k) then j = rmid q k (Suc i) \<and> m = rmsgs q k ! Suc i else j = ''''))"
proof -
  obtain es x where es: "lent q k = Some (es, x)" "live_log (lent q k) now = es" using ralive_live [OF al] by blast
  have len: "length (rmsgs q k) = length es" using es(1) by (simp add: rmsgs_def)
  have id: "rmid q k i = fst (live_log (lent q k) now ! i)" using es by (simp add: rmid_def)
  have il: "i < length (live_log (lent q k) now)" using i len es(2) by simp
  show ?thesis
  proof (cases "lg_xread R now blk 1 k (rmid q k i) q")
    case (Inl e)
    then show ?thesis using r xread_nil [OF il] len es(2) by (auto simp: rds_ReadAfterID_def id split: if_splits)
  next
    case (Inr res)
    then have n: "Suc i < length es" "res = [(k, [es ! Suc i])]" using xread_ok [OF il] es(2) by (auto simp: id)
    then have "es ! Suc i \<in> set es" by simp
    then obtain d where "map_of (snd (es ! Suc i)) ''data'' = Some d" using inv es(1) unfolding rinv_def by fastforce
    then show ?thesis using r Inr n len es(1)
      by (auto simp: rds_ReadAfterID_def last_message_def rmid_def rmsgs_def)
  qed
qed

lemma rread_all:
  assumes inv: "rinv q" and al: "ralive q now k" and r: "rds_ReadMessages R now k q = (Inr (j, ms), q')"
  shows "q' = q \<and> ms = rmsgs q k \<and> (ms \<noteq> [] \<longrightarrow> j = rmid q k (length ms - 1))"
proof -
  obtain es x where es: "lent q k = Some (es, x)" "es \<noteq> []" "live_log (lent q k) now = es" using ralive_live [OF al] by blast
  have last: "lg_xrevrange R now k ''+'' ''-'' 1 q = Inr ls \<Longrightarrow> ls = [last es]" for ls
    using xrevrange_ok [of now k q ls] es by (cases es rule: rev_cases) auto
  have lst: "last es = es ! (length es - 1)" "length es - 1 < length es" using es(2) by (simp_all add: last_conv_nth)
  have rng: "lg_xrange R now k ''-'' (fst (last es)) q = Inr zs \<Longrightarrow> zs = es" for zs
    using xrange_ok [of "length es - 1" q k now zs] lst es by simp
  have df: "data_fields es = rmsgs q k" "length (rmsgs q k) = length es" using data_fields_all [of es] inv es(1) unfolding rinv_def by (fastforce simp: rmsgs_def)+
  show ?thesis using r last rng df es lst(1)
    by (auto simp: rds_ReadMessages_def rmid_def split: sum.splits list.splits)
qed

sublocale redis_store: sse_store "redis_cache R blk" rmsgs rmid ralive rinv
proof (unfold_locales, goal_cases)
  case (1 s now k m ex s')
  show ?case by (rule rwrite_ok [OF 1(1,2)]) (use 1(3) in \<open>simp add: redis_cache_def\<close>)
next
  case (2 s now k i r s')
  show ?case by (rule rread_after [OF 2(1-3)]) (use 2(5) in \<open>simp add: redis_cache_def\<close>)
next
  case (3 s now k x r s')
  then show ?case by (auto simp: redis_cache_def rds_ReadAfterID_def split: sum.splits if_splits)
next
  case (4 s i k)
  then show ?case by (fastforce simp: rinv_def rmsgs_def rmid_def split: option.splits)
next
  case (5 now k s b s')
  then show ?case by (auto simp: redis_cache_def rds_Exist_def split: sum.splits)
next
  case (6 s t k u)
  then show ?case by (auto simp: ralive_def)
next
  case (7 s now k j ms s')
  show ?case by (rule rread_all [OF 7(1,2)]) (use 7(3) in \<open>simp add: redis_cache_def\<close>)
qed

end

subsection \<open>A server held in memory\<close>

record mem_log =
  ml_log :: "string \<Rightarrow> ((string \<times> string) list list \<times> gotime option) option"
  ml_str :: "string \<Rightarrow> kv_entry option"

definition number_entries :: "(string \<times> string) list list \<Rightarrow> entry list" where
  "number_entries fs = map (\<lambda>i. (entry_id i, fs ! i)) [0..<length fs]"

definition mem_lent :: "mem_log \<Rightarrow> string \<Rightarrow> log_entry option" where
  "mem_lent q k = map_option (\<lambda>(fs, x). (number_entries fs, x)) (ml_log q k)"

definition live_fields :: "mem_log \<Rightarrow> string \<Rightarrow> gotime \<Rightarrow> (string \<times> string) list list" where
  "live_fields q k now = map snd (live_log (mem_lent q k) now)"

definition mem_log_ops :: "mem_log log_ops" where
  "mem_log_ops = \<lparr>
     lg_xadd = (\<lambda>now k f q. (Inr (entry_id (length (live_fields q k now))),
        q\<lparr>ml_log := (ml_log q)(k \<mapsto> (live_fields q k now @ [f], log_ttl (mem_lent q k) now))\<rparr>)),
     lg_expire = (\<lambda>now k ttl q. if live_log (mem_lent q k) now = [] then (Inr False, q)
        else (Inr True, q\<lparr>ml_log := (ml_log q)(k \<mapsto> (live_fields q k now, Some (now + ttl)))\<rparr>)),
     lg_xrevrange = (\<lambda>now k a b n q. Inr (take n (rev (live_log (mem_lent q k) now)))),
     lg_xrange = (\<lambda>now k a b q. let es = live_log (mem_lent q k) now in
        Inr (takeWhile (\<lambda>e. fst e \<noteq> b) es @ take 1 (dropWhile (\<lambda>e. fst e \<noteq> b) es))),
     lg_xread = (\<lambda>now bl n k i q. case tl (dropWhile (\<lambda>e. fst e \<noteq> i) (live_log (mem_lent q k) now)) of
        [] \<Rightarrow> Inl redis_Nil | e # _ \<Rightarrow> Inr [(k, [e])]),
     lg_set = (\<lambda>now k v ttl q. (Inr (), q\<lparr>ml_str := (ml_str q)(k \<mapsto> (v, expiry now ttl)), ml_log := (ml_log q)(k := None)\<rparr>)),
     lg_exists = (\<lambda>now k q. Inr (if live (ml_str q k) now = None \<and> live_log (mem_lent q k) now = [] then 0 else 1)),
     lg_del = (\<lambda>now k q. (Inr (), q\<lparr>ml_str := (ml_str q)(k := None), ml_log := (ml_log q)(k := None)\<rparr>))\<rparr>"

lemma number_entries_snoc: "number_entries (fs @ [f]) = number_entries fs @ [(entry_id (length fs), f)]"
  by (simp add: number_entries_def nth_append)

lemma snd_number_entries [simp]: "map snd (number_entries fs) = fs"
  by (simp add: number_entries_def map_nth comp_def)

lemma live_log_mem: "live_log (mem_lent q k) now = number_entries (live_fields q k now)"
  by (auto simp: live_fields_def live_log_def mem_lent_def number_entries_def map_nth comp_def split: option.splits)

lemma dropWhile_key:
  assumes "distinct (map fst es)" "i < length es"
  shows "dropWhile (\<lambda>e. fst e \<noteq> fst (es ! i)) es = drop i es" "takeWhile (\<lambda>e. fst e \<noteq> fst (es ! i)) es = take i es"
proof -
  have other: "fst (es ! j) \<noteq> fst (es ! i)" if "j < i" for j
    using assms that nth_eq_iff_index_eq [OF assms(1), of j i] by (simp add: distinct_map)
  have e: "es = take i es @ es ! i # drop (Suc i) es" using assms(2) by (rule id_take_nth_drop)
  have n: "\<And>x. x \<in> set (take i es) \<Longrightarrow> fst x \<noteq> fst (es ! i)" using other assms(2) by (metis in_set_conv_nth length_take min.strict_boundedE nth_take)
  show "dropWhile (\<lambda>e. fst e \<noteq> fst (es ! i)) es = drop i es"
    by (subst e, subst dropWhile_append2) (use n assms(2) in \<open>auto simp: Cons_nth_drop_Suc [symmetric]\<close>)
  show "takeWhile (\<lambda>e. fst e \<noteq> fst (es ! i)) es = take i es"
    by (subst e, subst takeWhile_append2) (use n in auto)
qed

lemma mem_lent_update:
  "mem_lent (q\<lparr>ml_log := (ml_log q)(k \<mapsto> (fs, x))\<rparr>) = (mem_lent q)(k \<mapsto> (number_entries fs, x))"
  by (rule ext) (simp add: mem_lent_def)

lemma drop_ConsD: "drop n xs = y # ys \<Longrightarrow> n < length xs \<and> y = xs ! n"
  by (metis drop_eq_Nil hd_drop_conv_nth list.sel(1) list.simps(3) not_le)

lemma live_ids_distinct: "distinct (map fst (live_log (mem_lent q k) now))"
  by (simp add: live_log_mem number_entries_def distinct_map comp_def inj_on_def)

interpretation mem_log: redis_log mem_log_ops blk mem_lent for blk
proof (unfold_locales, goal_cases)
  case (1 q k now)
  then show ?case by (rule live_ids_distinct)
next
  case (2 e q k now)
  then show ?case by (auto simp: live_log_mem number_entries_def entry_id_def)
next
  case (3 now k f q eid q')
  then show ?case by (auto simp: mem_log_ops_def mem_lent_update number_entries_snoc live_log_mem)
next
  case (4 now k ttl q b q' es)
  then show ?case by (auto simp: mem_log_ops_def mem_lent_update live_log_mem split: if_splits)
next
  case (5 now k q es)
  then show ?case by (simp add: mem_log_ops_def)
next
  case (6 i q k now es)
  with dropWhile_key [OF live_ids_distinct 6(1)] show ?case
    by (auto simp: mem_log_ops_def Let_def take_Suc_conv_app_nth Cons_nth_drop_Suc [symmetric])
next
  case (7 i q k now res)
  with dropWhile_key [OF live_ids_distinct 7(1)] show ?case
    by (auto simp: mem_log_ops_def Cons_nth_drop_Suc [symmetric] split: list.splits dest: drop_ConsD)
next
  case (8 i q k now)
  with dropWhile_key [OF live_ids_distinct 8(1)] show ?case
    by (auto simp: mem_log_ops_def Cons_nth_drop_Suc [symmetric] split: list.splits)
qed

end
