(* ===== verification/Sse_Client.thy ===== *)
theory Sse_Client
  imports Sse_Cache "HOL-Library.Word"
begin

text \<open>
  \<open>apis/sseclient/client.go\<close>: the client that appends messages to a stream, sends them to the response
  and lets a second connection follow the stream. It is written against the interface \<open>Cache\<close>. The
  response is a state \<open>'w\<close> with operations; the loop of \<open>BlockRead\<close> runs over a list of rounds, one per
  iteration: what other goroutines do to the store before it, the clock, and whether the context is
  done. A list that ends before the loop returns is a call still in progress.
\<close>

definition defaultExpiration :: duration where "defaultExpiration = 30 * time_Minute"
definition defaultBlockTimeout :: duration where "defaultBlockTimeout = 300 * 1000000"
definition defaultBlockMaxRetry :: int where "defaultBlockMaxRetry = 3"
definition writeKeyPrefix :: string where "writeKeyPrefix = ''stream_write''"
definition stopKeyPrefix :: string where "stopKeyPrefix = ''stream_stop''"

record 'q sse_config =
  cfg_rdb :: "'q option"
  cfg_expiration :: duration
  cfg_blockTimeout :: duration
  cfg_blockMaxRetry :: int

type_synonym 'q sse_option = "'q sse_config \<Rightarrow> 'q sse_config"

definition WithRedisClient :: "'q \<Rightarrow> 'q sse_option" where
  "WithRedisClient rdb cfg = cfg\<lparr>cfg_rdb := Some rdb\<rparr>"

definition WithExpiration :: "duration \<Rightarrow> 'q sse_option" where
  "WithExpiration ex cfg = cfg\<lparr>cfg_expiration := ex\<rparr>"

definition WithBlockTimeout :: "duration \<Rightarrow> 'q sse_option" where
  "WithBlockTimeout bt cfg = cfg\<lparr>cfg_blockTimeout := bt\<rparr>"

definition WithBlockMaxRetry :: "int \<Rightarrow> 'q sse_option" where
  "WithBlockMaxRetry r cfg = cfg\<lparr>cfg_blockMaxRetry := r\<rparr>"

text \<open>
  \<open>New\<close> applies the options to the defaults, caps the block timeout, and picks the Redis store if
  there is a client and the memory store otherwise.
\<close>

datatype 'q storage = RedisStorage 'q duration | MemoryStorage memoryCache

record 'q SSEClient =
  sse_storage :: "'q storage"
  sse_cfg :: "'q sse_config"

definition sse_New :: "'q sse_option list \<Rightarrow> 'q SSEClient" where
  "sse_New opts =
     (let cfg = fold (\<lambda>opt c. opt c) opts
            \<lparr>cfg_rdb = None, cfg_expiration = defaultExpiration, cfg_blockTimeout = defaultBlockTimeout,
             cfg_blockMaxRetry = defaultBlockMaxRetry\<rparr>;
          cfg' = (if defaultBlockTimeout < cfg_blockTimeout cfg then cfg\<lparr>cfg_blockTimeout := defaultBlockTimeout\<rparr> else cfg)
      in \<lparr>sse_storage = (case cfg_rdb cfg' of
              Some rdb \<Rightarrow> RedisStorage rdb (cfg_blockTimeout cfg')
            | None \<Rightarrow> MemoryStorage (newMemoryCache writeKeyPrefix stopKeyPrefix)),
          sse_cfg = cfg'\<rparr>)"

definition buildWriteKey :: "string \<Rightarrow> string" where
  "buildWriteKey streamID = writeKeyPrefix @ '':'' @ streamID"

definition buildStopKey :: "string \<Rightarrow> string" where
  "buildStopKey streamID = stopKeyPrefix @ '':'' @ streamID"

section \<open>Sending to the response\<close>

record 'w io_writer =
  wr_nil :: bool
  wr_write :: "string \<Rightarrow> 'w \<Rightarrow> unit res \<times> 'w"
  wr_flusher :: "('w \<Rightarrow> 'w) option"

definition SendEvent :: "'w io_writer \<Rightarrow> string \<Rightarrow> 'w \<Rightarrow> unit res \<times> 'w" where
  "SendEvent W msg w =
     (if wr_nil W then (Inl (Err ''response writer is nil''), w)
      else case wr_write W msg w of
             (Inl e, w1) \<Rightarrow> (Inl (Err (''failed to write to response writer: '' @ err_text e)), w1)
           | (Inr _, w1) \<Rightarrow>
               (case wr_flusher W of
                  Some flush \<Rightarrow> (Inr (), flush w1)
                | None \<Rightarrow> (Inl (Err (''failed to flush response writer, msg:'' @ msg)), w1)))"

definition SetHeaders :: "(string \<Rightarrow> string option) \<Rightarrow> (string \<Rightarrow> string option)" where
  "SetHeaders h = h(''Content-Type'' \<mapsto> ''text/event-stream'', ''Cache-Control'' \<mapsto> ''no-cache'', ''Connection'' \<mapsto> ''keep-alive'')"

definition sse_WriteMessage ::
  "'s Cache \<Rightarrow> 'q sse_config \<Rightarrow> 'w io_writer \<Rightarrow> gotime \<Rightarrow> string \<Rightarrow> string \<Rightarrow> 's \<times> 'w \<Rightarrow> bool res \<times> 's \<times> 'w" where
  "sse_WriteMessage C cfg W now streamID msg = (\<lambda>(s, w).
     let stopKey = buildStopKey streamID in
     case c_Exist C now stopKey s of
       (Inl e, s1) \<Rightarrow> (Inl (Err (''failed to get write stop signal, err: '' @ err_text e @ '', key:'' @ stopKey)), s1, w)
     | (Inr stopped, s1) \<Rightarrow>
         if stopped then (Inr True, s1, w)
         else case c_WriteMessage C now (buildWriteKey streamID) msg (cfg_expiration cfg) s1 of
                (Inl e, s2) \<Rightarrow> (Inl e, s2, w)
              | (Inr _, s2) \<Rightarrow>
                  (case SendEvent W msg w of
                     (Inl e, w1) \<Rightarrow> (Inl e, s2, w1)
                   | (Inr _, w1) \<Rightarrow> (Inr False, s2, w1)))"

definition sse_ReadMessages :: "'s Cache \<Rightarrow> gotime \<Rightarrow> string \<Rightarrow> 's \<Rightarrow> (string \<times> string list) res \<times> 's" where
  "sse_ReadMessages C now streamID s = c_ReadMessages C now (buildWriteKey streamID) s"

section \<open>Following a stream\<close>

record 's round =
  rd_env :: "'s \<Rightarrow> 's"
  rd_now :: gotime
  rd_done :: bool

text \<open>
  A call is waiting, has panicked, or has returned its flag, the number of messages sent and an error;
  the two counters are \<open>atomic.Int32\<close>.
\<close>

datatype follow = Waiting | Panicked | Returned bool int "gerror option"

primrec block_loop ::
  "'s Cache \<Rightarrow> 'q sse_config \<Rightarrow> 'w io_writer \<Rightarrow> string \<Rightarrow> string \<Rightarrow> 's round list \<Rightarrow>
   string \<Rightarrow> 32 word \<Rightarrow> 32 word \<Rightarrow> 's \<times> 'w \<Rightarrow> follow \<times> 's \<times> 'w" where
  "block_loop C cfg W writeKey stopKey [] nextID timeouts affected sw = (Waiting, sw)"
| "block_loop C cfg W writeKey stopKey (rd # rds) nextID timeouts affected sw =
     (let s = rd_env rd (fst sw); w = snd sw in
      case c_Exist C (rd_now rd) stopKey s of
        (Inl e, s1) \<Rightarrow>
          (Returned False 0 (Some (Err (''failed to get write stop signal, err: '' @ err_text e @ '', key:'' @ stopKey))), s1, w)
      | (Inr stopped, s1) \<Rightarrow>
          if stopped then (Returned True (sint affected) None, s1, w)
          else if sint (word_of_int (cfg_blockMaxRetry cfg) :: 32 word) \<le> sint timeouts
          then (Returned True (sint affected) None, s1, w)
          else if rd_done rd then (Returned True (sint affected) None, s1, w)
          else case c_ReadAfterID C (rd_now rd) writeKey nextID s1 of
                 (None, s2) \<Rightarrow> (Panicked, s2, w)
               | (Some (Inl e), s2) \<Rightarrow> (Returned False (sint affected) (Some e), s2, w)
               | (Some (Inr (msgID, msg)), s2) \<Rightarrow>
                   if msgID = [] then block_loop C cfg W writeKey stopKey rds nextID (timeouts + 1) affected (s2, w)
                   else case SendEvent W msg w of
                          (Inl e, w1) \<Rightarrow> (Returned False (sint affected) (Some e), s2, w1)
                        | (Inr _, w1) \<Rightarrow> block_loop C cfg W writeKey stopKey rds msgID 0 (affected + 1) (s2, w1))"

definition BlockRead ::
  "'s Cache \<Rightarrow> 'q sse_config \<Rightarrow> 'w io_writer \<Rightarrow> 's round list \<Rightarrow> string \<Rightarrow> string \<Rightarrow> 's \<times> 'w \<Rightarrow> follow \<times> 's \<times> 'w" where
  "BlockRead C cfg W rds streamID latestID sw =
     block_loop C cfg W (buildWriteKey streamID) (buildStopKey streamID) rds latestID 0 0 sw"

section \<open>Stopping and closing\<close>

definition sse_Stop :: "'s Cache \<Rightarrow> 'q sse_config \<Rightarrow> gotime \<Rightarrow> string \<Rightarrow> 's \<Rightarrow> unit res \<times> 's" where
  "sse_Stop C cfg now streamID s =
     (let stopKey = buildStopKey streamID; writeKey = buildWriteKey streamID in
      case c_Set C now stopKey (cfg_expiration cfg * 2) s of
        (Inl e, s1) \<Rightarrow> (Inl (Err (''failed to set write stop signal, err: '' @ err_text e @ '', key:'' @ stopKey)), s1)
      | (Inr _, s1) \<Rightarrow>
          (case c_Delete C now writeKey s1 of
             (Inl e, s2) \<Rightarrow> (Inl (Err (''failed to delete message, err: '' @ err_text e @ '', key:'' @ writeKey)), s2)
           | (Inr _, s2) \<Rightarrow> (Inr (), s2)))"

definition GetStopSignal :: "'s Cache \<Rightarrow> gotime \<Rightarrow> string \<Rightarrow> 's \<Rightarrow> bool res \<times> 's" where
  "GetStopSignal C now streamID s = c_Exist C now (buildStopKey streamID) s"

definition sse_Close :: "'s Cache \<Rightarrow> gotime \<Rightarrow> string \<Rightarrow> 's \<Rightarrow> unit res \<times> 's" where
  "sse_Close C now streamID s =
     (let writeKey = buildWriteKey streamID in
      case c_Delete C now writeKey s of
        (Inl e, s1) \<Rightarrow> (Inl (Err (''failed to delete stop signal, err: '' @ err_text e @ '', key:'' @ writeKey)), s1)
      | (Inr _, s1) \<Rightarrow> (Inr (), s1))"

section \<open>What a follower receives\<close>

definition recorder :: "string list io_writer" where
  "recorder = \<lparr>wr_nil = False, wr_write = (\<lambda>m w. (Inr (), w @ [m])), wr_flusher = Some (\<lambda>w. w)\<rparr>"

lemma SendEvent_recorder [simp]: "SendEvent recorder m w = (Inr (), w @ [m])"
  by (simp add: SendEvent_def recorder_def)

lemma sint_Suc:
  assumes "sint (w :: 32 word) = int t" "t < R" "sint (v :: 32 word) = int R"
  shows "sint (w + 1) = int (Suc t)"
proof -
  have "sint v < 2 ^ 31" using sint_lt [of v] by simp
  then have "sint w + 1 < 2 ^ 31" using assms by simp
  then show ?thesis using assms(1) by (simp add: sint_word_ariths signed_take_bit_int_eq_self)
qed

context sse_store
begin

text \<open>\<open>ext k T s s'\<close>: \<open>s'\<close> is a good state in which the stream \<open>k\<close> of \<open>s\<close> has only been appended to and lives until \<open>T\<close>.\<close>

definition ext :: "string \<Rightarrow> gotime \<Rightarrow> 's \<Rightarrow> 's \<Rightarrow> bool" where
  "ext k T s s' \<longleftrightarrow> sinv s' \<and> alive s' T k \<and> (\<exists>ys. msgs s' k = msgs s k @ ys) \<and>
     (\<forall>i < length (msgs s k). mid s' k i = mid s k i)"

definition rounds_ok :: "string \<Rightarrow> gotime \<Rightarrow> 's round list \<Rightarrow> bool" where
  "rounds_ok k T rds \<longleftrightarrow> (\<forall>rd \<in> set rds. rd_now rd \<le> T \<and>
     (\<forall>s. sinv s \<longrightarrow> alive s T k \<longrightarrow> ext k T s (rd_env rd s)))"

lemma ext_refl: "sinv s \<Longrightarrow> alive s T k \<Longrightarrow> ext k T s s"
  by (simp add: ext_def)

lemma ext_trans: "ext k T s s1 \<Longrightarrow> ext k T s1 s2 \<Longrightarrow> ext k T s s2"
  by (auto simp: ext_def)

lemma ext_length: "ext k T s s' \<Longrightarrow> length (msgs s k) \<le> length (msgs s' k)"
  by (auto simp: ext_def)

lemma ext_nth: "ext k T s s' \<Longrightarrow> i < length (msgs s k) \<Longrightarrow> msgs s' k ! i = msgs s k ! i \<and> mid s' k i = mid s k i"
  by (auto simp: ext_def nth_append)

lemma ext_write:
  assumes "now \<le> T" "T < now + ex" "sinv s" "alive s T k" "c_WriteMessage C now k m ex s = (Inr (), s')"
  shows "ext k T s s'"
  using write_ok [OF assms(3) alive_mono [OF assms(4,1)] assms(5)] assms(2) by (auto simp: ext_def)

lemma loop_ext:
  "rounds_ok k T rds \<Longrightarrow> sinv s \<Longrightarrow> alive s T k \<Longrightarrow>
   block_loop C cfg W k sk rds nid tc aff (s, w) = (res, s', w') \<Longrightarrow>
   ext k T s s' \<and> (rds \<noteq> [] \<longrightarrow> ext k T (rd_env (hd rds) s) s')"
proof (induction rds arbitrary: nid tc aff s w)
  case Nil
  then show ?case by (simp add: ext_refl)
next
  case (Cons rd rds)
  let ?s = "rd_env rd s"
  have e: "ext k T s ?s" and now: "rd_now rd \<le> T" using Cons.prems(1-3) by (simp_all add: rounds_ok_def)
  then have g: "sinv ?s" "alive ?s T k" "alive ?s (rd_now rd) k" using alive_mono by (auto simp: ext_def)
  have rds: "rounds_ok k T rds" using Cons.prems(1) by (simp add: rounds_ok_def)
  note ih = Cons.IH [OF rds g(1,2), THEN conjunct1]
  obtain b where ex: "c_Exist C (rd_now rd) sk ?s = (b, ?s)" using exist_same by (cases "c_Exist C (rd_now rd) sk ?s") auto
  obtain r where rd: "c_ReadAfterID C (rd_now rd) k nid ?s = (r, ?s)"
    using read_same [OF g(1,3)] by (cases "c_ReadAfterID C (rd_now rd) k nid ?s") auto
  have "ext k T ?s s'" using Cons.prems(4) ext_refl [OF g(1,2)]
    by (auto simp: ex rd Let_def split: sum.splits option.splits if_splits prod.splits intro: ih)
  with ext_trans [OF e] show ?case by simp
qed

lemma loop_delivers:
  "rounds_ok k T rds \<Longrightarrow> sinv s \<Longrightarrow> alive s T k \<Longrightarrow> i < length (msgs s k) \<Longrightarrow>
   block_loop C cfg recorder k sk rds (mid s k i) tc aff (s, w) = (res, s', w') \<Longrightarrow> length (msgs s' k) < 2 ^ 63 \<Longrightarrow>
   \<exists>n \<le> length rds. i + n < length (msgs s' k) \<and> w' = w @ take n (drop (Suc i) (msgs s' k)) \<and> res \<noteq> Panicked \<and>
     (\<forall>b c. res = Returned b c None \<longrightarrow> c = sint (aff + of_nat n))"
proof (induction rds arbitrary: i tc aff s w)
  case Nil
  then show ?case by auto
next
  case (Cons rd rds)
  let ?s = "rd_env rd s"
  have e: "ext k T s ?s" and now: "rd_now rd \<le> T" using Cons.prems(1-3) by (simp_all add: rounds_ok_def)
  then have g: "sinv ?s" "alive ?s T k" "alive ?s (rd_now rd) k" using alive_mono by (auto simp: ext_def)
  have rds: "rounds_ok k T rds" using Cons.prems(1) by (simp add: rounds_ok_def)
  have i: "i < length (msgs ?s k)" "mid ?s k i = mid s k i"
    using Cons.prems(4) ext_length [OF e] ext_nth [OF e] by auto
  have fin: "ext k T s s'" and fin2: "ext k T ?s s'" using loop_ext [OF Cons.prems(1-3,5)] by simp_all
  then have stop: "\<exists>n \<le> length (rd # rds). i + n < length (msgs s' k) \<and> w = w @ take n (drop (Suc i) (msgs s' k)) \<and>
     sint aff = sint (aff + of_nat n)" using Cons.prems(4) ext_length [OF fin] by (intro exI [of _ 0]) auto
  note ih = Cons.IH [OF rds g(1,2)]
  obtain b where ex: "c_Exist C (rd_now rd) sk ?s = (b, ?s)" using exist_same by (cases "c_Exist C (rd_now rd) sk ?s") auto
  obtain r where rd: "c_ReadAfterID C (rd_now rd) k (mid s k i) ?s = (r, ?s)"
    using read_same [OF g(1,3)] by (cases "c_ReadAfterID C (rd_now rd) k (mid s k i) ?s") auto
  have small: "length (msgs ?s k) < 2 ^ 63" using ext_length [OF fin2] Cons.prems(6) by simp
  note ra = read_after [OF g(1,3) i(1) small, unfolded i(2), OF rd]
  show ?case
  proof (cases "\<exists>j m. r = Some (Inr (j, m)) \<and> b = Inr False \<and> \<not> sint (word_of_int (cfg_blockMaxRetry cfg) :: 32 word) \<le> sint tc \<and> \<not> rd_done rd")
    case False
    then show ?thesis using Cons.prems(5) stop ra
      by (auto simp: ex rd Let_def split: sum.splits option.splits if_splits)
  next
    case True
    then obtain j m where jm: "r = Some (Inr (j, m))" "b = Inr False"
      "\<not> sint (word_of_int (cfg_blockMaxRetry cfg) :: 32 word) \<le> sint tc" "\<not> rd_done rd" by blast
    show ?thesis
    proof (cases "Suc i < length (msgs ?s k)")
      case True
      then have j: "j = mid ?s k (Suc i)" "m = msgs ?s k ! Suc i" "j \<noteq> []" using ra jm(1) mid_nonempty [OF g(1) True] by auto
      then obtain n where n: "n \<le> length rds" "Suc i + n < length (msgs s' k)"
        "w' = (w @ [m]) @ take n (drop (Suc (Suc i)) (msgs s' k))" "res \<noteq> Panicked"
        "\<forall>b c. res = Returned b c None \<longrightarrow> c = sint (aff + 1 + of_nat n)"
        using ih [OF True, of 0 "aff + 1" "w @ [m]"] Cons.prems(5,6) jm by (auto simp: ex rd Let_def)
      have "drop (Suc i) (msgs s' k) = m # drop (Suc (Suc i)) (msgs s' k)"
        using j(2) ext_nth [OF fin2 True] n(2) Cons_nth_drop_Suc [of "Suc i" "msgs s' k"] by simp
      then show ?thesis using n by (intro exI [of _ "Suc n"]) (auto simp: add.assoc)
    next
      case False
      then have "j = []" using ra jm(1) by auto
      then obtain n where "n \<le> length rds" "i + n < length (msgs s' k)"
        "w' = w @ take n (drop (Suc i) (msgs s' k))" "res \<noteq> Panicked"
        "\<forall>b c. res = Returned b c None \<longrightarrow> c = sint (aff + of_nat n)"
        using ih [OF i(1), of "tc + 1" aff w] Cons.prems(5,6) jm i(2) by (auto simp: ex rd Let_def)
      then show ?thesis by (intro exI [of _ n]) auto
    qed
  qed
qed

lemma follow_safe:
  assumes "rounds_ok (buildWriteKey streamID) T rds" "sinv s" "alive s T (buildWriteKey streamID)"
    "i < length (msgs s (buildWriteKey streamID))"
    "BlockRead C cfg recorder rds streamID (mid s (buildWriteKey streamID) i) (s, w) = (res, s', w')"
    "length (msgs s' (buildWriteKey streamID)) < 2 ^ 63"
  shows "\<exists>n. n \<le> length rds \<and> i + n < length (msgs s' (buildWriteKey streamID)) \<and>
     w' = w @ take n (drop (Suc i) (msgs s' (buildWriteKey streamID))) \<and> res \<noteq> Panicked \<and>
     (\<forall>b c. res = Returned b c None \<longrightarrow> c = sint (of_nat n :: 32 word))"
  using loop_delivers [OF assms(1-4) assms(5) [unfolded BlockRead_def] assms(6)] by auto

text \<open>With nobody else writing, no stop signal and no failing read, the loop sends the rest of the stream and returns.\<close>

definition quiet :: "string \<Rightarrow> string \<Rightarrow> 's \<Rightarrow> 's round \<Rightarrow> bool" where
  "quiet k sk s rd \<longleftrightarrow> rd_env rd s = s \<and> \<not> rd_done rd \<and> alive s (rd_now rd) k \<and>
     c_Exist C (rd_now rd) sk s = (Inr False, s) \<and>
     (\<forall>x e. fst (c_ReadAfterID C (rd_now rd) k x s) \<noteq> Some (Inl e))"

lemma quiet_loop:
  assumes s: "sinv s" "length (msgs s k) < 2 ^ 63"
    and R: "sint (word_of_int (cfg_blockMaxRetry cfg) :: 32 word) = int R"
  shows "\<forall>rd \<in> set rds. quiet k sk s rd \<Longrightarrow> i < length (msgs s k) \<Longrightarrow>
     sint tc = int t \<Longrightarrow> t \<le> R \<Longrightarrow> (t < R \<or> length (msgs s k) = Suc i) \<Longrightarrow>
     length (msgs s k) - Suc i + (R - (if length (msgs s k) = Suc i then t else 0)) < length rds \<Longrightarrow>
     block_loop C cfg recorder k sk rds (mid s k i) tc aff (s, w) =
       (Returned True (sint (aff + of_nat (length (msgs s k) - Suc i))) None, s, w @ drop (Suc i) (msgs s k))"
proof (induction rds arbitrary: i tc t aff w)
  case (Cons rd rds)
  let ?n = "length (msgs s k)"
  have q: "quiet k sk s rd" "\<forall>rd \<in> set rds. quiet k sk s rd" using Cons.prems(1) by auto
  have al: "alive s (rd_now rd) k" using q(1) by (simp add: quiet_def)
  obtain r s1 where rd1: "c_ReadAfterID C (rd_now rd) k (mid s k i) s = (r, s1)" by fastforce
  have "s1 = s" by (rule read_same [OF s(1) al rd1])
  with rd1 have rd: "c_ReadAfterID C (rd_now rd) k (mid s k i) s = (r, s)" by simp
  have ne: "r \<noteq> Some (Inl e)" for e
    using q(1)[unfolded quiet_def, THEN conjunct2, THEN conjunct2, THEN conjunct2, THEN conjunct2, rule_format, of "mid s k i" e] rd by simp
  note ra = read_after [OF s(1) al Cons.prems(2) s(2) rd]
  obtain v where "r = Some v" using ra by blast
  then obtain j m where r: "r = Some (Inr (j, m))" using ne by (cases v) auto
  consider (over) "?n = Suc i" "t = R" | (empty) "?n = Suc i" "t < R" | (more) "Suc i < ?n" "t < R"
    using Cons.prems(2,4,5) by linarith
  then show ?case
  proof cases
    case over
    then show ?thesis using q(1) Cons.prems(3) R by (simp add: quiet_def)
  next
    case empty
    have tc: "sint (tc + 1) = int (Suc t)" by (rule sint_Suc [OF Cons.prems(3) empty(2) R])
    have "j = []" using ra r empty by simp
    then show ?thesis
      using q(1) Cons.IH [OF q(2) Cons.prems(2) tc] Cons.prems(3,6) R empty rd r by (simp add: quiet_def)
  next
    case more
    have j: "j = mid s k (Suc i)" "m = msgs s k ! Suc i" "j \<noteq> []" using ra r more(1) mid_nonempty [OF s(1) more(1)] by auto
    have d: "drop (Suc i) (msgs s k) = m # drop (Suc (Suc i)) (msgs s k)"
      using Cons_nth_drop_Suc [OF more(1)] j(2) by simp
    have a: "aff + 1 + of_nat (?n - Suc (Suc i)) = aff + of_nat (?n - Suc i)" using more(1)
      by (simp add: Suc_diff_Suc [symmetric] del: diff_Suc_Suc)
    show ?thesis
      using q(1) Cons.IH [OF q(2) more(1), of 0 0 "aff + 1" "w @ [m]"] Cons.prems(3,6) R more rd r j a d
      by (auto simp: quiet_def algebra_simps)
  qed
qed simp

end

section \<open>The memory client\<close>

lemma sint_of_nat32: "n < 2 ^ 31 \<Longrightarrow> sint (of_nat n :: 32 word) = int n"
  by (simp add: signed_of_nat signed_take_bit_int_eq_self)

lemma mem_follow_quiet:
  assumes "dataMap s (buildWriteKey sid) = Some d" "dataMap s (buildStopKey sid) = None" "rd_env rd s = s" "\<not> rd_done rd"
    "rd_now rd \<le> mi_expired d"
  shows "memory_store.quiet (buildWriteKey sid) (buildStopKey sid) s rd"
  using assms unfolding memory_store.quiet_def
  by (auto simp: mem_alive_def memory_cache_def mem_Exist_def mem_ReadAfterID_def Let_def split: if_splits)

text \<open>
  Following to the end (C19): a reader of the memory client that has seen a message of a live stream
  nobody else changes receives exactly the later messages, in order, and the call returns \<open>true\<close> with
  their number once the retries are used up: \<open>BlockRead\<close> ends after one round per message, the retries,
  and one more.
\<close>

theorem BlockRead_delivers_rest:
  assumes d: "dataMap s (buildWriteKey sid) = Some d" "dataMap s (buildStopKey sid) = None"
    and i: "i < length (mi_list d)" "length (mi_list d) < 2 ^ 31"
    and R: "cfg_blockMaxRetry cfg = int R" "0 < R" "R < 2 ^ 31"
    and rds: "\<forall>rd \<in> set rds. rd_env rd s = s \<and> \<not> rd_done rd \<and> rd_now rd \<le> mi_expired d"
      "length (mi_list d) - Suc i + R < length rds"
  shows "BlockRead memory_cache cfg recorder rds sid (itoa (int i)) (s, w) =
     (Returned True (int (length (mi_list d) - Suc i)) None, s, w @ drop (Suc i) (mi_list d))"
proof -
  have m: "mem_msgs s (buildWriteKey sid) = mi_list d" using d(1) by (simp add: mem_msgs_def)
  have r: "sint (word_of_int (cfg_blockMaxRetry cfg) :: 32 word) = int R"
    using R sint_of_nat32 [of R] by simp
  have c: "sint (of_nat (length (mi_list d) - Suc i) :: 32 word) = int (length (mi_list d) - Suc i)"
    using i sint_of_nat32 [of "length (mi_list d) - Suc i"] by linarith
  have q: "\<forall>rd \<in> set rds. memory_store.quiet (buildWriteKey sid) (buildStopKey sid) s rd"
    using rds(1) mem_follow_quiet [OF d] by simp
  have "block_loop memory_cache cfg recorder (buildWriteKey sid) (buildStopKey sid) rds (mem_mid s (buildWriteKey sid) i) 0 0 (s, w) =
    (Returned True (sint (0 + of_nat (length (mi_list d) - Suc i) :: 32 word)) None, s, w @ drop (Suc i) (mi_list d))"
    using memory_store.quiet_loop [OF _ _ r q, of i 0 0 0 w, unfolded m] i R(2) rds(2) by (simp del: of_nat_diff)
  then show ?thesis using c by (simp add: BlockRead_def mem_mid_def)
qed

definition sse_sample :: memoryCache where
  "sse_sample = (newMemoryCache writeKeyPrefix stopKeyPrefix)\<lparr>dataMap :=
     [buildWriteKey ''a'' \<mapsto> \<lparr>mi_list = [''x'', ''y'', ''z''], mi_expired = 100\<rparr>]\<rparr>"

definition sse_default :: "unit sse_config" where
  "sse_default = sse_cfg (sse_New [])"

lemma sse_default_simps: "cfg_blockMaxRetry sse_default = int 3" "cfg_expiration sse_default = defaultExpiration"
  by (simp_all add: sse_default_def sse_New_def defaultBlockMaxRetry_def)

lemma keys_differ: "buildStopKey a \<noteq> buildWriteKey b"
  by (simp add: buildStopKey_def buildWriteKey_def stopKeyPrefix_def writeKeyPrefix_def)

theorem BlockRead_delivers_rest_witness:
  "BlockRead memory_cache sse_default recorder (replicate 6 \<lparr>rd_env = id, rd_now = 7, rd_done = False\<rparr>) ''a'' (itoa (int 0)) (sse_sample, []) =
     (Returned True 2 None, sse_sample, [''y'', ''z''])"
  using BlockRead_delivers_rest [of sse_sample "''a''" _ 0 sse_default 3 "replicate 6 \<lparr>rd_env = id, rd_now = 7, rd_done = False\<rparr>" "[]"]
  by (simp add: sse_sample_def sse_default_simps keys_differ)

text \<open>The round of a follower before which other writers append \<open>ms\<close> to the same stream.\<close>

definition write_round :: "'q sse_config \<Rightarrow> string \<Rightarrow> gotime \<times> string list \<times> bool \<Rightarrow> memoryCache round" where
  "write_round cfg sid x = (case x of (now, ms, dn) \<Rightarrow>
     \<lparr>rd_env = fold (\<lambda>m s. snd (mem_WriteMessage now (buildWriteKey sid) m (cfg_expiration cfg) s)) ms,
      rd_now = now, rd_done = dn\<rparr>)"

lemma ext_writes:
  assumes "now \<le> T" "T < now + ex" "mem_alive s T k"
  shows "memory_store.ext k T s (fold (\<lambda>m s. snd (mem_WriteMessage now k m ex s)) ms s)"
  using assms(3)
proof (induction ms arbitrary: s)
  case Nil
  then show ?case by (simp add: memory_store.ext_refl)
next
  case (Cons m ms)
  let ?s = "snd (mem_WriteMessage now k m ex s)"
  have "mem_WriteMessage now k m ex s = (Inr (), ?s)" by (simp add: mem_WriteMessage_def Let_def)
  then have e: "memory_store.ext k T s ?s"
    using memory_store.ext_write [OF assms(1,2) _ Cons.prems, of m ?s] by (simp add: memory_cache_def)
  then have "mem_alive ?s T k" by (simp add: memory_store.ext_def)
  then show ?case using memory_store.ext_trans [OF e Cons.IH] by simp
qed

text \<open>
  Following while others write: whatever other goroutines append between the rounds of a
  follower, and however the call ends, it has sent a contiguous run of the stream in order from the
  message after the one it was given, with no gap and no repetition, it does not panic, and without an
  error it returns the number of messages sent. The stream must outlive the call.
\<close>

theorem BlockRead_follows:
  assumes "mem_alive s T (buildWriteKey sid)" "i < length (mem_msgs s (buildWriteKey sid))"
    and "\<forall>(now, ms, dn) \<in> set xs. now \<le> T \<and> T < now + cfg_expiration cfg"
    and "BlockRead memory_cache cfg recorder (map (write_round cfg sid) xs) sid (itoa (int i)) (s, w) = (res, s', w')"
    and "length (mem_msgs s' (buildWriteKey sid)) < 2 ^ 63"
  shows "\<exists>n. n \<le> length xs \<and> i + n < length (mem_msgs s' (buildWriteKey sid)) \<and>
     w' = w @ take n (drop (Suc i) (mem_msgs s' (buildWriteKey sid))) \<and> res \<noteq> Panicked \<and>
     (\<forall>b c. res = Returned b c None \<longrightarrow> c = sint (of_nat n :: 32 word))"
proof -
  have "memory_store.rounds_ok (buildWriteKey sid) T (map (write_round cfg sid) xs)"
    using assms(3) ext_writes by (fastforce simp: memory_store.rounds_ok_def write_round_def)
  then show ?thesis
    using memory_store.follow_safe [of sid T "map (write_round cfg sid) xs" s i cfg w res s' w'] assms
    by (simp add: mem_mid_def)
qed

theorem BlockRead_follows_witness:
  "\<exists>res s' w'. BlockRead memory_cache sse_default recorder (map (write_round sse_default ''a'') [(7, [''u''], False), (8, [], True)]) ''a'' (itoa (int 2)) (sse_sample, []) = (res, s', w')
     \<and> res \<noteq> Panicked \<and> mem_msgs s' (buildWriteKey ''a'') = [''x'', ''y'', ''z'', ''u''] \<and> w' \<in> {[], [''u'']}"
proof -
  let ?rds = "[(7, [''u''], False), (8, [], True)] :: (gotime \<times> string list \<times> bool) list"
  obtain res s' w' where b: "BlockRead memory_cache sse_default recorder (map (write_round sse_default ''a'') ?rds) ''a'' (itoa (int 2)) (sse_sample, []) = (res, s', w')"
    by (metis prod_cases3)
  have a: "mem_alive sse_sample 100 (buildWriteKey ''a'')" "mem_msgs sse_sample (buildWriteKey ''a'') = [''x'', ''y'', ''z'']"
    by (simp_all add: sse_sample_def mem_alive_def mem_msgs_def)
  have m: "mem_msgs s' (buildWriteKey ''a'') = [''x'', ''y'', ''z'', ''u'']"
    using b atoi_or_itoa [of 2]
    by (auto simp: BlockRead_def write_round_def memory_cache_def mem_WriteMessage_def mem_Exist_def mem_ReadAfterID_def incr_int64_def
        sse_sample_def sse_default_simps defaultExpiration_def time_Minute_def time_Second_def keys_differ itoa_def mem_msgs_def Let_def
        split: if_splits)
  show ?thesis using BlockRead_follows [OF a(1) _ _ b] a(2) m b
    by (auto simp: sse_default_simps defaultExpiration_def time_Minute_def time_Second_def)
qed

text \<open>
  Stopping with the memory store: \<open>Stop\<close> reports success, but the stop signal is never seen:
  \<open>GetStopSignal\<close> stays false at every later time and the next \<open>WriteMessage\<close> writes and sends as if
  the stream had not been stopped, because \<open>Set\<close> fills the signals while \<open>Exist\<close> looks at the data.
\<close>

theorem memory_Stop_ignored:
  assumes "dataMap s (buildStopKey sid) = None" "sse_Stop memory_cache cfg now sid s = (r, s')"
  shows "r = Inr () \<and> GetStopSignal memory_cache t sid s' = (Inr False, s') \<and>
    (\<exists>s''. sse_WriteMessage memory_cache cfg recorder t sid msg (s', w) = (Inr False, s'', w @ [msg]) \<and>
           mem_msgs s'' (buildWriteKey sid) = [msg])"
  using assms keys_differ [of sid sid]
  by (auto simp: sse_Stop_def GetStopSignal_def sse_WriteMessage_def memory_cache_def mem_Set_def mem_Delete_def mem_Exist_def
      mem_WriteMessage_def mem_msgs_def Let_def)

theorem memory_Stop_ignored_witness:
  "\<exists>r s'. sse_Stop memory_cache sse_default 5 ''a'' sse_sample = (r, s') \<and> r = Inr () \<and>
     GetStopSignal memory_cache 6 ''a'' s' = (Inr False, s')"
proof -
  obtain r s' where s: "sse_Stop memory_cache sse_default 5 ''a'' sse_sample = (r, s')" by fastforce
  show ?thesis using memory_Stop_ignored [OF _ s, of 6 "[]" "[]"] s by (simp add: sse_sample_def keys_differ)
qed

end
