(* ===== verification/Prompt_Model.thy ===== *)
theory Prompt_Model
  imports Go_Prelude
begin

text \<open>
  \<open>prompt/model/entity.go\<close>, \<open>errors.go\<close> and \<open>render.go\<close>: prompt templates, the declaration of their
  variables, validation of the values and rendering.

  The template engine \<open>text/template\<close> is a parameter: \<open>tp_parse fs s\<close> parses the text \<open>s\<close> with the function
  names \<open>fs\<close> known beside the built-in ones, \<open>tp_exec\<close> renders a tree, \<open>tp_show\<close> is the text of a value under
  \<open>%v\<close>. The tree itself is a datatype, and the walk over it is written out. A value of Go type \<open>any\<close> is
  tagged with its dynamic type; other types than the ones the code asks for are \<open>VOther\<close>.
\<close>

section \<open>Entities\<close>

type_synonym PromptStatus = int

definition PromptStatusEnabled :: PromptStatus where "PromptStatusEnabled = 1"
definition PromptStatusDisabled :: PromptStatus where "PromptStatusDisabled = 0"

type_synonym EnumType = string

definition VarKeyTypeString :: EnumType where "VarKeyTypeString = ''string''"
definition VarKeyTypeInt :: EnumType where "VarKeyTypeInt = ''int''"
definition VarKeyTypeEnum :: EnumType where "VarKeyTypeEnum = ''enum''"
definition VarKeyTypeBool :: EnumType where "VarKeyTypeBool = ''bool''"
definition VarKeyTypeFloat :: EnumType where "VarKeyTypeFloat = ''float''"
definition VarKeyTypeList :: EnumType where "VarKeyTypeList = ''list''"

lemmas var_types = VarKeyTypeString_def VarKeyTypeInt_def VarKeyTypeEnum_def VarKeyTypeBool_def
  VarKeyTypeFloat_def VarKeyTypeList_def

text \<open>
  A \<open>float64\<close> is not a number, an infinity, or \<open>m * 2\<^sup>e\<close>.
\<close>

datatype gofloat = FNaN | FInf bool | Fin int int

datatype goval = VNil | VString string | VInt int | VInt64 int | VFloat gofloat | VBool bool
  | VList "goval list" | VOther string

record VarKey =
  vk_Name :: string
  vk_Type :: EnumType
  vk_Desc :: string
  vk_Required :: bool
  vk_EnumValues :: "string list"
  vk_Default :: goval
  vk_MaxLength :: int
  vk_Min :: "int option"
  vk_Max :: "int option"
  vk_MaxItems :: int

record CorePrompt =
  cp_ID :: nat
  cp_CreatedAt :: "gotime option"
  cp_UpdatedAt :: "gotime option"
  cp_DeletedAt :: "gotime option"
  cp_CompanyID :: nat
  cp_Uin :: nat
  cp_App :: string
  cp_Group :: string
  cp_Name :: string
  cp_Code :: string
  cp_LatestVersionID :: nat
  cp_Status :: PromptStatus
  cp_CreatedUin :: nat
  cp_UpdatedUin :: nat

record CorePromptVersion =
  cv_ID :: nat
  cv_CreatedAt :: "gotime option"
  cv_UpdatedAt :: "gotime option"
  cv_DeletedAt :: "gotime option"
  cv_CompanyID :: nat
  cv_Uin :: nat
  cv_PromptID :: nat
  cv_Content :: string
  cv_VariableKeys :: string
  cv_CreatedUin :: nat
  cv_UpdatedUin :: nat

text \<open>\<open>ToMap\<close>: a later entry with the same id wins.\<close>

definition CorePromptList_ToMap :: "CorePrompt list \<Rightarrow> nat \<rightharpoonup> CorePrompt" where
  "CorePromptList_ToMap l = fold (\<lambda>v m. m(cp_ID v \<mapsto> v)) l Map.empty"

definition CorePromptVersionList_ToMap :: "CorePromptVersion list \<Rightarrow> nat \<rightharpoonup> CorePromptVersion" where
  "CorePromptVersionList_ToMap l = fold (\<lambda>v m. m(cv_ID v \<mapsto> v)) l Map.empty"

section \<open>Errors (\<open>errors.go\<close>)\<close>

definition ErrPromptDisabled :: gerror where "ErrPromptDisabled = Err ''prompt is disabled''"
definition ErrEmptyContent :: gerror where "ErrEmptyContent = Err ''prompt content is empty''"
definition ErrPromptNotFound :: gerror where "ErrPromptNotFound = Err ''prompt not found''"
definition ErrVersionNotFound :: gerror where "ErrVersionNotFound = Err ''prompt version not found''"
definition ErrUndeclaredVariable :: gerror where
  "ErrUndeclaredVariable = Err ''variable referenced in template but not declared in variable_keys''"
definition ErrInvalidVarKeyType :: gerror where "ErrInvalidVarKeyType = Err ''invalid variable key type''"
definition ErrMissingRequiredVar :: gerror where "ErrMissingRequiredVar = Err ''missing required variable in prompt_value''"
definition ErrEnumValueMismatch :: gerror where "ErrEnumValueMismatch = Err ''value not in enum_values list''"
definition ErrIntRangeExceeded :: gerror where "ErrIntRangeExceeded = Err ''int value out of min/max range''"
definition ErrFloatRangeExceeded :: gerror where "ErrFloatRangeExceeded = Err ''float value out of min/max range''"
definition ErrStringLengthExceeded :: gerror where "ErrStringLengthExceeded = Err ''string value exceeds max_length''"
definition ErrListTooManyItems :: gerror where "ErrListTooManyItems = Err ''list exceeds max_items''"
definition ErrInvalidValueType :: gerror where "ErrInvalidValueType = Err ''variable value type does not match declared type''"
definition ErrTemplateParseFailed :: gerror where "ErrTemplateParseFailed = Err ''failed to parse template content''"
definition ErrTemplateRenderFailed :: gerror where "ErrTemplateRenderFailed = Err ''failed to render template''"

lemmas prompt_errors = ErrPromptDisabled_def ErrEmptyContent_def ErrPromptNotFound_def ErrVersionNotFound_def
  ErrUndeclaredVariable_def ErrInvalidVarKeyType_def ErrMissingRequiredVar_def ErrEnumValueMismatch_def
  ErrIntRangeExceeded_def ErrFloatRangeExceeded_def ErrStringLengthExceeded_def ErrListTooManyItems_def
  ErrInvalidValueType_def ErrTemplateParseFailed_def ErrTemplateRenderFailed_def

section \<open>Template functions\<close>

text \<open>\<open>None\<close> is the panic of a slice expression with a negative bound.\<close>

definition truncFunc :: "string \<Rightarrow> int \<Rightarrow> string option" where
  "truncFunc s maxLen =
     (if int (length s) \<le> maxLen then Some s
      else if maxLen < 3 then (if maxLen < 0 then None else Some (take (nat maxLen) s))
      else Some (take (nat (maxLen - 3)) s @ ''...''))"

definition joinCommaFunc :: "string list \<Rightarrow> string" where
  "joinCommaFunc items = join_strings '', '' items"

definition DefaultFuncMap :: "string list" where
  "DefaultFuncMap = [''Upper'', ''Lower'', ''Trunct'', ''JoinComma'']"

section \<open>The template tree and the variables it mentions\<close>

text \<open>
  The nodes of \<open>text/template/parse\<close>. \<open>IdentifierNode\<close> is a function name; the declarations of a pipe are its
  first list; \<open>LeafNode\<close> stands for text, literals, the dot, comments, break and continue, and \<open>ChainNode\<close>
  for a parenthesised pipe followed by fields.
\<close>

datatype tnode = ListNode "tnode list" | ActionNode tnode | PipeNode "tnode list" "tnode list"
  | CommandNode "tnode list" | FieldNode "string list" | VariableNode "string list"
  | IfNode tnode tnode "tnode option" | RangeNode tnode tnode "tnode option" | WithNode tnode tnode "tnode option"
  | IdentifierNode string | ChainNode tnode "string list" | TemplateNode string "tnode option" | LeafNode

definition see :: "string \<Rightarrow> string list \<Rightarrow> string list" where
  "see name seen = (if name \<in> set seen then seen else seen @ [name])"

function walkAST :: "tnode \<Rightarrow> string list \<Rightarrow> string list" where
  "walkAST (ListNode ns) seen = fold walkAST ns seen"
| "walkAST (ActionNode p) seen = walkAST p seen"
| "walkAST (PipeNode decl cmds) seen = fold walkAST cmds seen"
| "walkAST (CommandNode args) seen = fold walkAST args seen"
| "walkAST (FieldNode ids) seen = fold see ids seen"
| "walkAST (VariableNode ids) seen =
     (case ids of [] \<Rightarrow> seen | i # is \<Rightarrow> if i = ''$'' then fold see is seen else fold see ids seen)"
| "walkAST (IfNode p l e) seen = (case e of None \<Rightarrow> walkAST l (walkAST p seen) | Some m \<Rightarrow> walkAST m (walkAST l (walkAST p seen)))"
| "walkAST (RangeNode p l e) seen = (case e of None \<Rightarrow> walkAST l (walkAST p seen) | Some m \<Rightarrow> walkAST m (walkAST l (walkAST p seen)))"
| "walkAST (WithNode p l e) seen = (case e of None \<Rightarrow> walkAST l (walkAST p seen) | Some m \<Rightarrow> walkAST m (walkAST l (walkAST p seen)))"
| "walkAST (IdentifierNode f) seen = seen"
| "walkAST (ChainNode n fs) seen = seen"
| "walkAST (TemplateNode t p) seen = seen"
| "walkAST LeafNode seen = seen"
  by pat_completeness auto
termination by (relation "measure (\<lambda>(n, _). size n)") (auto simp: less_Suc_eq_le size_list_estimation' trans_le_add2)

section \<open>Declared variables and values\<close>

record template_engine =
  tp_parse :: "string list \<Rightarrow> string \<Rightarrow> tnode res"
  tp_exec :: "string list \<Rightarrow> tnode \<Rightarrow> (string \<rightharpoonup> goval) \<Rightarrow> string res"
  tp_show :: "goval \<Rightarrow> string"
  tp_oob :: "gofloat \<Rightarrow> int"

definition ExtractVariableNames :: "template_engine \<Rightarrow> string \<Rightarrow> string list res" where
  "ExtractVariableNames E content =
     (case tp_parse E [] content of
        Inl e \<Rightarrow> Inl (Wrapped ErrTemplateParseFailed (err_text e))
      | Inr t \<Rightarrow> Inr (walkAST t []))"

definition isValidEnumType :: "EnumType \<Rightarrow> bool" where
  "isValidEnumType t = (t \<in> {VarKeyTypeString, VarKeyTypeInt, VarKeyTypeEnum, VarKeyTypeBool, VarKeyTypeFloat, VarKeyTypeList})"

definition ParseVariableKeys :: "template_engine \<Rightarrow> string \<Rightarrow> VarKey list \<Rightarrow> VarKey list res" where
  "ParseVariableKeys E content declaredKeys =
     (if content = [] then Inl ErrEmptyContent
      else case ExtractVariableNames E content of
        Inl e \<Rightarrow> Inl e
      | Inr astNames \<Rightarrow>
          let undeclared = filter (\<lambda>name. name \<notin> vk_Name ` set declaredKeys) astNames
          in if undeclared \<noteq> []
             then Inl (Wrapped ErrUndeclaredVariable (''['' @ join_strings '' '' undeclared @ '']''))
             else case List.find (\<lambda>k. \<not> isValidEnumType (vk_Type k)) declaredKeys of
                    Some k \<Rightarrow> Inl (Wrapped ErrInvalidVarKeyType (''name='' @ vk_Name k @ '', type='' @ vk_Type k))
                  | None \<Rightarrow> Inr declaredKeys)"

text \<open>
  Numbers: \<open>int(v)\<close> of a \<open>float64\<close> drops the fraction (outside the range of \<open>int64\<close> the result depends on
  the machine: a parameter); \<open>float64(n)\<close> of an \<open>int64\<close> rounds to 53 bits, ties to even.
\<close>

definition float_trunc :: "gofloat \<Rightarrow> int option" where
  "float_trunc f = (case f of
     Fin m e \<Rightarrow> Some (if 0 \<le> e then m * 2 ^ nat e else tquot m (2 ^ nat (- e)))
   | _ \<Rightarrow> None)"

definition float_to_int :: "template_engine \<Rightarrow> gofloat \<Rightarrow> int" where
  "float_to_int E f = (case float_trunc f of
     Some n \<Rightarrow> (if - (2 ^ 63) \<le> n \<and> n < 2 ^ 63 then n else tp_oob E f)
   | None \<Rightarrow> tp_oob E f)"

definition int_to_float :: "int \<Rightarrow> gofloat" where
  "int_to_float n = (case round_53 (nat \<bar>n\<bar>) of (q, k) \<Rightarrow> Fin (sgn n * int q) (int k))"

fun float_less :: "gofloat \<Rightarrow> gofloat \<Rightarrow> bool" where
  "float_less FNaN _ = False"
| "float_less _ FNaN = False"
| "float_less (FInf neg) (FInf neg') = (neg \<and> \<not> neg')"
| "float_less (FInf neg) (Fin _ _) = neg"
| "float_less (Fin _ _) (FInf neg) = (\<not> neg)"
| "float_less (Fin m e) (Fin m' e') = (m * 2 ^ nat (e - min e e') < m' * 2 ^ nat (e' - min e e'))"

definition int_value :: "template_engine \<Rightarrow> goval \<Rightarrow> int option" where
  "int_value E v = (case v of VInt i \<Rightarrow> Some i | VInt64 i \<Rightarrow> Some i | VFloat f \<Rightarrow> Some (float_to_int E f) | _ \<Rightarrow> None)"

text \<open>A limit given by an optional pointer is exceeded.\<close>

definition limit_hit :: "int option \<Rightarrow> (int \<Rightarrow> bool) \<Rightarrow> bool" where
  "limit_hit lim exceeds = (case lim of None \<Rightarrow> False | Some l \<Rightarrow> exceeds l)"

text \<open>The switch over the declared type, for a value that is present.\<close>

definition check_value :: "template_engine \<Rightarrow> VarKey \<Rightarrow> goval \<Rightarrow> goval res" where
  "check_value E key val =
     (let name = vk_Name key in
      if vk_Type key = VarKeyTypeString then
        (case val of
           VString s \<Rightarrow>
             if 0 < vk_MaxLength key \<and> vk_MaxLength key < int (length s)
             then Inl (Wrapped ErrStringLengthExceeded (name @ '' len='' @ nat_digits (length s) @ '', max_length='' @ itoa (vk_MaxLength key)))
             else Inr (VString s)
         | _ \<Rightarrow> Inl (Wrapped ErrInvalidValueType (name @ '' expected string'')))
      else if vk_Type key = VarKeyTypeInt then
        (case int_value E val of
           None \<Rightarrow> Inl (Wrapped ErrInvalidValueType (name @ '' expected int''))
         | Some i \<Rightarrow>
             if limit_hit (vk_Min key) (\<lambda>lo. i < lo)
             then Inl (Wrapped ErrIntRangeExceeded (name @ '' val='' @ itoa i @ '', min='' @ itoa (the (vk_Min key))))
             else if limit_hit (vk_Max key) (\<lambda>hi. hi < i)
             then Inl (Wrapped ErrIntRangeExceeded (name @ '' val='' @ itoa i @ '', max='' @ itoa (the (vk_Max key))))
             else Inr (VInt i))
      else if vk_Type key = VarKeyTypeEnum then
        (case val of
           VString s \<Rightarrow>
             if s \<notin> set (vk_EnumValues key)
             then Inl (Wrapped ErrEnumValueMismatch (name @ '' val='' @ s @ '', enum_values=['' @ join_strings '' '' (vk_EnumValues key) @ '']''))
             else Inr (VString s)
         | _ \<Rightarrow> Inl (Wrapped ErrInvalidValueType (name @ '' expected string for enum'')))
      else if vk_Type key = VarKeyTypeBool then
        (case val of
           VBool b \<Rightarrow> Inr (VBool b)
         | _ \<Rightarrow> Inl (Wrapped ErrInvalidValueType (name @ '' expected bool'')))
      else if vk_Type key = VarKeyTypeFloat then
        (case val of
           VFloat f \<Rightarrow>
             if limit_hit (vk_Min key) (\<lambda>lo. float_less f (int_to_float lo))
             then Inl (Wrapped ErrFloatRangeExceeded (name @ '' val='' @ tp_show E val @ '', min='' @ itoa (the (vk_Min key))))
             else if limit_hit (vk_Max key) (\<lambda>hi. float_less (int_to_float hi) f)
             then Inl (Wrapped ErrFloatRangeExceeded (name @ '' val='' @ tp_show E val @ '', max='' @ itoa (the (vk_Max key))))
             else Inr (VFloat f)
         | _ \<Rightarrow> Inl (Wrapped ErrInvalidValueType (name @ '' expected float'')))
      else if vk_Type key = VarKeyTypeList then
        (case val of
           VList items \<Rightarrow>
             if 0 < vk_MaxItems key \<and> vk_MaxItems key < int (length items)
             then Inl (Wrapped ErrListTooManyItems (name @ '' len='' @ nat_digits (length items) @ '', max_items='' @ itoa (vk_MaxItems key)))
             else Inr (VList items)
         | _ \<Rightarrow> Inl (Wrapped ErrInvalidValueType (name @ '' expected list'')))
      else Inl (Wrapped ErrInvalidVarKeyType (name @ '' type='' @ vk_Type key)))"

fun validate_keys :: "template_engine \<Rightarrow> VarKey list \<Rightarrow> (string \<rightharpoonup> goval) \<Rightarrow> (string \<rightharpoonup> goval) \<Rightarrow> (string \<rightharpoonup> goval) res" where
  "validate_keys E [] values result = Inr result"
| "validate_keys E (key # keys) values result =
     (case values (vk_Name key) of
        Some val \<Rightarrow>
          if val = VNil then
            (if vk_Required key then Inl (Wrapped ErrMissingRequiredVar (vk_Name key))
             else validate_keys E keys values (if vk_Default key \<noteq> VNil then result(vk_Name key \<mapsto> vk_Default key) else result))
          else (case check_value E key val of
                  Inl e \<Rightarrow> Inl e
                | Inr v \<Rightarrow> validate_keys E keys values (result(vk_Name key \<mapsto> v)))
      | None \<Rightarrow>
          (if vk_Required key then Inl (Wrapped ErrMissingRequiredVar (vk_Name key))
           else validate_keys E keys values (if vk_Default key \<noteq> VNil then result(vk_Name key \<mapsto> vk_Default key) else result)))"

definition ValidatePromptValue :: "template_engine \<Rightarrow> VarKey list \<Rightarrow> (string \<rightharpoonup> goval) \<Rightarrow> (string \<rightharpoonup> goval) res" where
  "ValidatePromptValue E keys values = validate_keys E keys values Map.empty"

definition ValidateAndRender :: "template_engine \<Rightarrow> string \<Rightarrow> VarKey list \<Rightarrow> (string \<rightharpoonup> goval) \<Rightarrow> string res" where
  "ValidateAndRender E content variableKeys promptValue =
     (if content = [] then Inl ErrEmptyContent
      else case ParseVariableKeys E content variableKeys of
        Inl e \<Rightarrow> Inl e
      | Inr _ \<Rightarrow>
          (case ValidatePromptValue E variableKeys promptValue of
             Inl e \<Rightarrow> Inl e
           | Inr validatedValues \<Rightarrow>
               (case tp_parse E DefaultFuncMap content of
                  Inl e \<Rightarrow> Inl (Wrapped ErrTemplateParseFailed (err_text e))
                | Inr t \<Rightarrow>
                    (case tp_exec E DefaultFuncMap t validatedValues of
                       Inl e \<Rightarrow> Inl (Wrapped ErrTemplateRenderFailed (err_text e))
                     | Inr out \<Rightarrow> Inr out))))"

section \<open>Validated values fit their declarations\<close>

text \<open>What the declaration of a variable promises of a value of it.\<close>

fun conforms :: "VarKey \<Rightarrow> goval \<Rightarrow> bool" where
  "conforms key (VString s) =
     (vk_Type key = VarKeyTypeString \<and> (0 < vk_MaxLength key \<longrightarrow> int (length s) \<le> vk_MaxLength key) \<or>
      vk_Type key = VarKeyTypeEnum \<and> s \<in> set (vk_EnumValues key))"
| "conforms key (VInt i) =
     (vk_Type key = VarKeyTypeInt \<and> (\<forall>lo \<in> set_option (vk_Min key). lo \<le> i) \<and> (\<forall>hi \<in> set_option (vk_Max key). i \<le> hi))"
| "conforms key (VBool b) = (vk_Type key = VarKeyTypeBool)"
| "conforms key (VFloat f) =
     (vk_Type key = VarKeyTypeFloat \<and> (\<forall>lo \<in> set_option (vk_Min key). \<not> float_less f (int_to_float lo)) \<and>
      (\<forall>hi \<in> set_option (vk_Max key). \<not> float_less (int_to_float hi) f))"
| "conforms key (VList items) =
     (vk_Type key = VarKeyTypeList \<and> (0 < vk_MaxItems key \<longrightarrow> int (length items) \<le> vk_MaxItems key))"
| "conforms key v = False"

lemma check_value_conforms: "check_value E key v = Inr v' \<Longrightarrow> conforms key v'"
  by (auto simp: check_value_def Let_def limit_hit_def split: if_splits goval.splits option.splits)

lemma check_value_same:
  assumes "check_value E key v = Inr v'" "vk_Type key \<noteq> VarKeyTypeInt"
  shows "v' = v"
  using assms by (auto simp: check_value_def Let_def split: if_splits goval.splits)

text \<open>A value that conforms is accepted unchanged.\<close>

lemma check_value_accepts: "conforms key v \<Longrightarrow> check_value E key v = Inr v"
  by (cases v) (auto simp: check_value_def Let_def limit_hit_def int_value_def var_types split: option.splits)

definition given :: "(string \<rightharpoonup> goval) \<Rightarrow> string \<Rightarrow> bool" where
  "given values name = (values name \<noteq> None \<and> values name \<noteq> Some VNil)"

text \<open>What validation leaves for one variable, when it succeeds.\<close>

definition entry_of :: "template_engine \<Rightarrow> (string \<rightharpoonup> goval) \<Rightarrow> VarKey \<Rightarrow> goval option" where
  "entry_of E values key =
     (if given values (vk_Name key)
      then (case check_value E key (the (values (vk_Name key))) of Inl _ \<Rightarrow> None | Inr v \<Rightarrow> Some v)
      else if vk_Default key = VNil then None else Some (vk_Default key))"

definition key_ok :: "template_engine \<Rightarrow> (string \<rightharpoonup> goval) \<Rightarrow> VarKey \<Rightarrow> bool" where
  "key_ok E values key =
     (if given values (vk_Name key) then is_ok (check_value E key (the (values (vk_Name key))))
      else \<not> vk_Required key)"

lemma validate_keys_Cons:
  "validate_keys E (key # keys) values result =
     (if key_ok E values key
      then validate_keys E keys values (case entry_of E values key of None \<Rightarrow> result | Some v \<Rightarrow> result(vk_Name key \<mapsto> v))
      else Inl (if given values (vk_Name key) then projl (check_value E key (the (values (vk_Name key))))
                else Wrapped ErrMissingRequiredVar (vk_Name key)))"
  by (auto simp: key_ok_def entry_of_def given_def split: option.splits sum.splits)

lemma validate_keys_ok_iff: "is_ok (validate_keys E keys values result) \<longleftrightarrow> list_all (key_ok E values) keys"
  by (induction keys arbitrary: result) (auto simp: validate_keys_Cons simp del: validate_keys.simps(2))

lemma validate_keys_other: "validate_keys E keys values result = Inr m \<Longrightarrow> n \<notin> vk_Name ` set keys \<Longrightarrow> m n = result n"
  by (induction keys arbitrary: result) (auto simp: validate_keys_Cons simp del: validate_keys.simps(2) split: if_splits option.splits)

lemma validate_keys_entry:
  assumes "distinct (map vk_Name keys)" "validate_keys E keys values result = Inr m" "key \<in> set keys"
    "result (vk_Name key) = None"
  shows "m (vk_Name key) = entry_of E values key"
  using assms
proof (induction keys arbitrary: result)
  case (Cons k keys)
  let ?r = "case entry_of E values k of None \<Rightarrow> result | Some v \<Rightarrow> result(vk_Name k \<mapsto> v)"
  have v: "validate_keys E keys values ?r = Inr m"
    using Cons.prems(2) by (simp only: validate_keys_Cons split: if_splits) simp_all
  show ?case
  proof (cases "key = k")
    case True
    then have "m (vk_Name key) = ?r (vk_Name key)" using Cons.prems(1) by (intro validate_keys_other [OF v]) simp
    then show ?thesis using True Cons.prems(4) by (auto split: option.splits)
  next
    case False
    then have "key \<in> set keys" using Cons.prems(3) by simp
    moreover from this have "vk_Name key \<in> vk_Name ` set keys" by (rule imageI)
    moreover from this have "vk_Name key \<noteq> vk_Name k" using Cons.prems(1) by auto
    ultimately have "vk_Name key \<noteq> vk_Name k" "key \<in> set keys" by simp_all
    then show ?thesis using Cons.prems(1,4) by (intro Cons.IH [OF _ v]) (auto split: option.splits)
  qed
qed simp

end
