(* ===== verification/Prompt_Dao.thy ===== *)
theory Prompt_Dao
  imports Prompt_Model Sql_Table
begin

text \<open>
  \<open>prompt/model/dao.go\<close>: the statements on \<open>core_prompt\<close> and \<open>core_prompt_version\<close>. The two DAOs have the
  same bodies on different tables, so each statement shape is written once over a description of the
  entity (\<open>dao_kind\<close>) and instantiated for both. All statements run with GORM's \<open>Model\<close>: they carry the
  soft-delete scope and stamp the update time; \<open>Updates\<close> with a struct writes its non-zero fields, the
  primary key included, and with a map the given columns; \<open>Create\<close> fills timestamps and the columns
  whose tag names a default. Strings are compared byte by byte.

  What stands for code outside the sources: the table operations, the SQL language for \<open>LIKE\<close> and for the
  \<open>ORDER BY\<close> texts given by callers, and the upsert statement.
\<close>

record 'r dao_kind =
  dk_name :: string
  dk_id :: "'r \<Rightarrow> nat"
  dk_deleted :: "'r \<Rightarrow> gotime option"
  dk_set_deleted :: "gotime \<Rightarrow> 'r \<Rightarrow> 'r"
  dk_touch :: "gotime \<Rightarrow> 'r \<Rightarrow> 'r"
  dk_created :: "gotime \<Rightarrow> 'r \<Rightarrow> 'r"
  dk_merge :: "'r \<Rightarrow> 'r \<Rightarrow> 'r"
  dk_zero :: 'r

definition dao_err :: "'r dao_kind \<Rightarrow> string \<Rightarrow> gerror \<Rightarrow> gerror" where
  "dao_err K what e = Err (''['' @ dk_name K @ ''] '' @ what @ err_text e)"

definition scoped :: "'r dao_kind \<Rightarrow> 'r \<Rightarrow> bool" where
  "scoped K r = (dk_deleted K r = None)"

definition dao_create :: "'r dao_kind \<Rightarrow> ('d, 'r) table_ops \<Rightarrow> gotime \<Rightarrow> 'r \<Rightarrow> 'd \<Rightarrow> ('r \<times> 'd) res" where
  "dao_create K T now entity d =
     (case tb_insert T d [dk_created K now entity] of
        Inl e \<Rightarrow> Inl (dao_err K ''Create fail, err: '' e)
      | Inr (rs, d') \<Rightarrow> Inr (first_or entity rs, d'))"

definition dao_create_batch :: "'r dao_kind \<Rightarrow> ('d, 'r) table_ops \<Rightarrow> gotime \<Rightarrow> 'r list \<Rightarrow> 'd \<Rightarrow> ('r list \<times> 'd) res" where
  "dao_create_batch K T now entityList d =
     (if entityList = [] then Inr ([], d)
      else case tb_insert T d (map (dk_created K now) entityList) of
        Inl e \<Rightarrow> Inl (dao_err K ''CreateBatch fail, err: '' e)
      | Inr r \<Rightarrow> Inr r)"

text \<open>A single-row query: \<open>Find\<close> into a struct leaves it zero when no row matches.\<close>

definition dao_one :: "'r dao_kind \<Rightarrow> ('d, 'r) table_ops \<Rightarrow> string \<Rightarrow> ('r \<Rightarrow> bool) \<Rightarrow> ('r \<Rightarrow> 'r \<Rightarrow> bool) \<Rightarrow> 'd \<Rightarrow> 'r res" where
  "dao_one K T what cond le d =
     (case tb_find T d (\<lambda>_ r. cond r) le of
        Inl e \<Rightarrow> Inl (dao_err K what e)
      | Inr rs \<Rightarrow> Inr (first_or (dk_zero K) rs))"

definition dao_list :: "'r dao_kind \<Rightarrow> ('d, 'r) table_ops \<Rightarrow> string \<Rightarrow> ('r \<Rightarrow> bool) \<Rightarrow> ('r \<Rightarrow> 'r \<Rightarrow> bool) \<Rightarrow> 'd \<Rightarrow> 'r list res" where
  "dao_list K T what cond le d =
     (case tb_find T d (\<lambda>_ r. cond r) le of
        Inl e \<Rightarrow> Inl (dao_err K what e)
      | Inr rs \<Rightarrow> Inr rs)"

definition dao_get_by_id :: "'r dao_kind \<Rightarrow> ('d, 'r) table_ops \<Rightarrow> nat \<Rightarrow> 'd \<Rightarrow> 'r res" where
  "dao_get_by_id K T k d =
     dao_one K T (''GetByID fail, id:'' @ nat_digits k @ '', err: '') (\<lambda>r. dk_id K r = k \<and> scoped K r) any_order d"

definition dao_get_by_ids :: "'r dao_kind \<Rightarrow> ('d, 'r) table_ops \<Rightarrow> nat list \<Rightarrow> 'd \<Rightarrow> 'r list res" where
  "dao_get_by_ids K T ids d =
     (if ids = [] then Inr []
      else dao_list K T ''GetByIDs fail, err: '' (\<lambda>r. dk_id K r \<in> set ids \<and> scoped K r) any_order d)"

definition dao_update :: "'r dao_kind \<Rightarrow> ('d, 'r) table_ops \<Rightarrow> gotime \<Rightarrow> string \<Rightarrow> ('r \<Rightarrow> bool) \<Rightarrow> ('r \<Rightarrow> 'r) \<Rightarrow> 'd \<Rightarrow> 'd res" where
  "dao_update K T now what cond change d =
     (case tb_update T d (\<lambda>r. cond r \<and> scoped K r) (\<lambda>r. dk_touch K now (change r)) of
        Inl e \<Rightarrow> Inl (dao_err K what e)
      | Inr d' \<Rightarrow> Inr d')"

definition dao_update_by_id :: "'r dao_kind \<Rightarrow> ('d, 'r) table_ops \<Rightarrow> gotime \<Rightarrow> nat \<Rightarrow> 'r \<Rightarrow> 'd \<Rightarrow> 'd res" where
  "dao_update_by_id K T now k entity d =
     dao_update K T now (''UpdateByID fail, id:'' @ nat_digits k @ '', err: '') (\<lambda>r. dk_id K r = k) (dk_merge K entity) d"

definition dao_update_map :: "'r dao_kind \<Rightarrow> ('d, 'r) table_ops \<Rightarrow> gotime \<Rightarrow> nat \<Rightarrow> ('r \<Rightarrow> 'r) \<Rightarrow> 'd \<Rightarrow> 'd res" where
  "dao_update_map K T now k updateMap d =
     dao_update K T now (''UpdateMap fail, id:'' @ nat_digits k @ '', err: '') (\<lambda>r. dk_id K r = k) updateMap d"

definition dao_delete :: "'r dao_kind \<Rightarrow> ('d, 'r) table_ops \<Rightarrow> gotime \<Rightarrow> nat \<Rightarrow> 'd \<Rightarrow> 'd res" where
  "dao_delete K T now k d =
     dao_update K T now (''Delete fail, id:'' @ nat_digits k @ '', err: '') (\<lambda>r. dk_id K r = k) (dk_set_deleted K now) d"

definition dao_delete_by_ids :: "'r dao_kind \<Rightarrow> ('d, 'r) table_ops \<Rightarrow> gotime \<Rightarrow> nat list \<Rightarrow> 'd \<Rightarrow> 'd res" where
  "dao_delete_by_ids K T now ids d =
     (if ids = [] then Inr d
      else dao_update K T now ''DeleteByIDs fail, err: '' (\<lambda>r. dk_id K r \<in> set ids) (dk_set_deleted K now) d)"

text \<open>
  \<open>UpdateMapBatch\<close>: GORM refuses an update without any condition of its own. \<open>unscoped\<close> drops the
  soft-delete scope.
\<close>

definition ErrMissingWhereClause :: gerror where
  "ErrMissingWhereClause = Err ''WHERE conditions required''"

definition dao_update_batch ::
  "'r dao_kind \<Rightarrow> ('d, 'r) table_ops \<Rightarrow> gotime \<Rightarrow> bool \<Rightarrow> ('r \<Rightarrow> bool) \<Rightarrow> ('r \<Rightarrow> 'r) \<Rightarrow> 'd \<Rightarrow> 'd res" where
  "dao_update_batch K T now has_where cond updateMap d =
     (if \<not> has_where then Inl (dao_err K ''UpdateMapBatch fail, err: '' ErrMissingWhereClause)
      else case tb_update T d cond (\<lambda>r. dk_touch K now (updateMap r)) of
        Inl e \<Rightarrow> Inl (dao_err K ''UpdateMapBatch fail, err: '' e)
      | Inr d' \<Rightarrow> Inr d')"

type_synonym ('d, 'r) upsert = "string list \<Rightarrow> 'r list \<Rightarrow> 'd \<Rightarrow> 'd res"

definition dao_save_batch ::
  "'r dao_kind \<Rightarrow> ('d, 'r) table_ops \<Rightarrow> ('d, 'r) upsert \<Rightarrow> gotime \<Rightarrow> 'r list \<Rightarrow> string list \<Rightarrow> 'd \<Rightarrow> 'd res" where
  "dao_save_batch K T U now entityList conflictColumns d =
     (if entityList = [] then Inr d
      else case (if conflictColumns \<noteq> [] then U conflictColumns (map (dk_created K now) entityList) d
                 else map_sum id snd (tb_insert T d (map (dk_created K now) entityList))) of
        Inl e \<Rightarrow> Inl (dao_err K ''SaveBatchOnConflict fail, err: '' e)
      | Inr d' \<Rightarrow> Inr d')"

definition dao_count :: "'r dao_kind \<Rightarrow> ('d, 'r) table_ops \<Rightarrow> string \<Rightarrow> ('r \<Rightarrow> bool) \<Rightarrow> 'd \<Rightarrow> nat res" where
  "dao_count K T what cond d =
     (case tb_count T d (\<lambda>_ r. cond r) of
        Inl e \<Rightarrow> Inl (dao_err K what e)
      | Inr n \<Rightarrow> Inr n)"

definition page :: "int \<Rightarrow> int \<Rightarrow> 'r list \<Rightarrow> 'r list" where
  "page offset limit rs =
     (let rs' = (if 0 < offset then drop (nat offset) rs else rs)
      in if 0 < limit then take (nat limit) rs' else rs')"

definition dao_page ::
  "'r dao_kind \<Rightarrow> ('d, 'r) table_ops \<Rightarrow> int \<Rightarrow> int \<Rightarrow> ('r \<Rightarrow> bool) \<Rightarrow> ('r \<Rightarrow> 'r \<Rightarrow> bool) \<Rightarrow> 'd \<Rightarrow> ('r list \<times> nat) res" where
  "dao_page K T offset limit cond le d =
     (case dao_count K T ''GetPageListByCond count fail, err: '' cond d of
        Inl e \<Rightarrow> Inl e
      | Inr n \<Rightarrow>
          (case dao_list K T ''GetPageListByCond find fail, err: '' cond le d of
             Inl e \<Rightarrow> Inl e
           | Inr rs \<Rightarrow> Inr (page offset limit rs, n)))"


text \<open>
  The WHERE clause and the ORDER BY clause of a condition; a nil condition adds nothing. The page query
  dereferences the condition after counting: with a nil one it panics there (\<open>None\<close>).
\<close>

record 'r sql_text =
  sx_like :: "string \<Rightarrow> string \<Rightarrow> bool"
  sx_order :: "string \<Rightarrow> 'r \<Rightarrow> 'r \<Rightarrow> bool"

section \<open>\<open>PromptDao\<close>\<close>

record PromptCond =
  pc_CompanyID :: nat
  pc_Uin :: nat
  pc_ID :: nat
  pc_IDs :: "nat list"
  pc_App :: string
  pc_Group :: string
  pc_Code :: string
  pc_NameLike :: string
  pc_Status :: "PromptStatus list"
  pc_OrderBy :: "string list"
  pc_Offset :: int
  pc_Limit :: int
  pc_IsDelete :: bool

definition zero_prompt :: CorePrompt where
  "zero_prompt = \<lparr>cp_ID = 0, cp_CreatedAt = None, cp_UpdatedAt = None, cp_DeletedAt = None, cp_CompanyID = 0, cp_Uin = 0,
     cp_App = [], cp_Group = [], cp_Name = [], cp_Code = [], cp_LatestVersionID = 0, cp_Status = 0, cp_CreatedUin = 0,
     cp_UpdatedUin = 0\<rparr>"

definition pick :: "'a \<Rightarrow> 'a \<Rightarrow> 'a \<Rightarrow> 'a" where
  "pick zero new old = (if new = zero then old else new)"

text \<open>\<open>Create\<close>: timestamps, and the status, whose tag says \<open>default:1\<close> (the other defaults are the zero value).\<close>

definition prompt_created :: "gotime \<Rightarrow> CorePrompt \<Rightarrow> CorePrompt" where
  "prompt_created now p = p\<lparr>cp_CreatedAt := pick None (cp_CreatedAt p) (Some now),
     cp_UpdatedAt := pick None (cp_UpdatedAt p) (Some now), cp_Status := pick 0 (cp_Status p) 1\<rparr>"

definition prompt_merge :: "CorePrompt \<Rightarrow> CorePrompt \<Rightarrow> CorePrompt" where
  "prompt_merge e p = p\<lparr>cp_ID := pick 0 (cp_ID e) (cp_ID p), cp_CreatedAt := pick None (cp_CreatedAt e) (cp_CreatedAt p),
     cp_DeletedAt := pick None (cp_DeletedAt e) (cp_DeletedAt p), cp_CompanyID := pick 0 (cp_CompanyID e) (cp_CompanyID p),
     cp_Uin := pick 0 (cp_Uin e) (cp_Uin p), cp_App := pick [] (cp_App e) (cp_App p), cp_Group := pick [] (cp_Group e) (cp_Group p),
     cp_Name := pick [] (cp_Name e) (cp_Name p), cp_Code := pick [] (cp_Code e) (cp_Code p),
     cp_LatestVersionID := pick 0 (cp_LatestVersionID e) (cp_LatestVersionID p), cp_Status := pick 0 (cp_Status e) (cp_Status p),
     cp_CreatedUin := pick 0 (cp_CreatedUin e) (cp_CreatedUin p), cp_UpdatedUin := pick 0 (cp_UpdatedUin e) (cp_UpdatedUin p)\<rparr>"

definition prompt_kind :: "CorePrompt dao_kind" where
  "prompt_kind = \<lparr>dk_name = ''PromptDao'', dk_id = cp_ID, dk_deleted = cp_DeletedAt,
     dk_set_deleted = (\<lambda>now p. p\<lparr>cp_DeletedAt := Some now\<rparr>), dk_touch = (\<lambda>now p. p\<lparr>cp_UpdatedAt := Some now\<rparr>),
     dk_created = prompt_created, dk_merge = prompt_merge, dk_zero = zero_prompt\<rparr>"

definition PromptDao_BuildCondition :: "CorePrompt sql_text \<Rightarrow> PromptCond option \<Rightarrow> CorePrompt \<Rightarrow> bool" where
  "PromptDao_BuildCondition L cond p =
     (case cond of
        None \<Rightarrow> cp_DeletedAt p = None
      | Some c \<Rightarrow>
          (0 < pc_CompanyID c \<longrightarrow> cp_CompanyID p = pc_CompanyID c) \<and>
          (0 < pc_Uin c \<longrightarrow> cp_Uin p = pc_Uin c) \<and>
          (0 < pc_ID c \<longrightarrow> cp_ID p = pc_ID c) \<and>
          (pc_IDs c \<noteq> [] \<longrightarrow> cp_ID p \<in> set (pc_IDs c)) \<and>
          (pc_App c \<noteq> [] \<longrightarrow> cp_App p = pc_App c) \<and>
          (pc_Group c \<noteq> [] \<longrightarrow> cp_Group p = pc_Group c) \<and>
          (pc_Code c \<noteq> [] \<longrightarrow> cp_Code p = pc_Code c) \<and>
          (pc_NameLike c \<noteq> [] \<longrightarrow> sx_like L (pc_NameLike c @ ''%'') (cp_Name p)) \<and>
          (pc_Status c \<noteq> [] \<longrightarrow> cp_Status p \<in> set (pc_Status c)) \<and>
          (\<not> pc_IsDelete c \<longrightarrow> cp_DeletedAt p = None))"

definition PromptDao_order :: "CorePrompt sql_text \<Rightarrow> PromptCond option \<Rightarrow> CorePrompt \<Rightarrow> CorePrompt \<Rightarrow> bool" where
  "PromptDao_order L cond = (case cond of
     Some c \<Rightarrow> if pc_OrderBy c \<noteq> [] then sx_order L (join_strings '','' (pc_OrderBy c)) else any_order
   | None \<Rightarrow> any_order)"

definition PromptDao_has_where :: "PromptCond option \<Rightarrow> bool" where
  "PromptDao_has_where cond = (case cond of
     None \<Rightarrow> False
   | Some c \<Rightarrow> 0 < pc_CompanyID c \<or> 0 < pc_Uin c \<or> 0 < pc_ID c \<or> pc_IDs c \<noteq> [] \<or> pc_App c \<noteq> [] \<or> pc_Group c \<noteq> [] \<or>
       pc_Code c \<noteq> [] \<or> pc_NameLike c \<noteq> [] \<or> pc_Status c \<noteq> [])"

definition PromptDao_Create :: "('d, CorePrompt) table_ops \<Rightarrow> gotime \<Rightarrow> CorePrompt \<Rightarrow> 'd \<Rightarrow> (CorePrompt \<times> 'd) res" where
  "PromptDao_Create T now entity d = dao_create prompt_kind T now entity d"

definition PromptDao_CreateBatch :: "('d, CorePrompt) table_ops \<Rightarrow> gotime \<Rightarrow> CorePrompt list \<Rightarrow> 'd \<Rightarrow> (CorePrompt list \<times> 'd) res" where
  "PromptDao_CreateBatch T now entityList d = dao_create_batch prompt_kind T now entityList d"

definition PromptDao_GetByID :: "('d, CorePrompt) table_ops \<Rightarrow> nat \<Rightarrow> 'd \<Rightarrow> CorePrompt res" where
  "PromptDao_GetByID T k d = dao_get_by_id prompt_kind T k d"

definition PromptDao_GetByIDs :: "('d, CorePrompt) table_ops \<Rightarrow> nat list \<Rightarrow> 'd \<Rightarrow> CorePrompt list res" where
  "PromptDao_GetByIDs T ids d = dao_get_by_ids prompt_kind T ids d"

definition PromptDao_UpdateByID :: "('d, CorePrompt) table_ops \<Rightarrow> gotime \<Rightarrow> nat \<Rightarrow> CorePrompt \<Rightarrow> 'd \<Rightarrow> 'd res" where
  "PromptDao_UpdateByID T now k entity d = dao_update_by_id prompt_kind T now k entity d"

definition PromptDao_UpdateMap :: "('d, CorePrompt) table_ops \<Rightarrow> gotime \<Rightarrow> nat \<Rightarrow> (CorePrompt \<Rightarrow> CorePrompt) \<Rightarrow> 'd \<Rightarrow> 'd res" where
  "PromptDao_UpdateMap T now k updateMap d = dao_update_map prompt_kind T now k updateMap d"

definition PromptDao_UpdateMapBatch :: "CorePrompt sql_text \<Rightarrow> ('d, CorePrompt) table_ops \<Rightarrow> gotime \<Rightarrow> PromptCond option \<Rightarrow> (CorePrompt \<Rightarrow> CorePrompt) \<Rightarrow> 'd \<Rightarrow> 'd res" where
  "PromptDao_UpdateMapBatch L T now cond updateMap d = dao_update_batch prompt_kind T now (PromptDao_has_where cond) (PromptDao_BuildCondition L cond) updateMap d"

definition PromptDao_SaveBatchOnConflict :: "('d, CorePrompt) table_ops \<Rightarrow> ('d, CorePrompt) upsert \<Rightarrow> gotime \<Rightarrow> CorePrompt list \<Rightarrow> string list \<Rightarrow> 'd \<Rightarrow> 'd res" where
  "PromptDao_SaveBatchOnConflict T U now entityList conflictColumns d = dao_save_batch prompt_kind T U now entityList conflictColumns d"

definition PromptDao_Delete :: "('d, CorePrompt) table_ops \<Rightarrow> gotime \<Rightarrow> nat \<Rightarrow> 'd \<Rightarrow> 'd res" where
  "PromptDao_Delete T now k d = dao_delete prompt_kind T now k d"

definition PromptDao_DeleteByIDs :: "('d, CorePrompt) table_ops \<Rightarrow> gotime \<Rightarrow> nat list \<Rightarrow> 'd \<Rightarrow> 'd res" where
  "PromptDao_DeleteByIDs T now ids d = dao_delete_by_ids prompt_kind T now ids d"

definition PromptDao_GetByCond :: "CorePrompt sql_text \<Rightarrow> ('d, CorePrompt) table_ops \<Rightarrow> PromptCond option \<Rightarrow> 'd \<Rightarrow> CorePrompt res" where
  "PromptDao_GetByCond L T cond d = dao_one prompt_kind T ''GetByCond fail, err: '' (PromptDao_BuildCondition L cond) (PromptDao_order L cond) d"

definition PromptDao_GetListByCond :: "CorePrompt sql_text \<Rightarrow> ('d, CorePrompt) table_ops \<Rightarrow> PromptCond option \<Rightarrow> 'd \<Rightarrow> CorePrompt list res" where
  "PromptDao_GetListByCond L T cond d = dao_list prompt_kind T ''GetListByCond fail, err: '' (PromptDao_BuildCondition L cond) (PromptDao_order L cond) d"

definition PromptDao_CountByCond :: "CorePrompt sql_text \<Rightarrow> ('d, CorePrompt) table_ops \<Rightarrow> PromptCond option \<Rightarrow> 'd \<Rightarrow> nat res" where
  "PromptDao_CountByCond L T cond d = dao_count prompt_kind T ''CountByCond fail, err: '' (PromptDao_BuildCondition L cond) d"

definition PromptDao_GetPageListByCond :: "CorePrompt sql_text \<Rightarrow> ('d, CorePrompt) table_ops \<Rightarrow> PromptCond option \<Rightarrow> 'd \<Rightarrow> (CorePrompt list \<times> nat) res option" where
  "PromptDao_GetPageListByCond L T cond d =
     (case cond of
        None \<Rightarrow> (case dao_count prompt_kind T ''GetPageListByCond count fail, err: '' (PromptDao_BuildCondition L None) d of Inl e \<Rightarrow> Some (Inl e) | Inr _ \<Rightarrow> None)
      | Some c \<Rightarrow> Some (dao_page prompt_kind T (pc_Offset c) (pc_Limit c) (PromptDao_BuildCondition L cond) (PromptDao_order L cond) d))"

definition GetByAppAndGroup :: "('d, CorePrompt) table_ops \<Rightarrow> string \<Rightarrow> string \<Rightarrow> 'd \<Rightarrow> CorePrompt res" where
  "GetByAppAndGroup T app grp d =
     dao_one prompt_kind T (''GetByAppAndGroup fail, app:'' @ app @ '', group:'' @ grp @ '', err: '')
       (\<lambda>p. cp_App p = app \<and> cp_Group p = grp \<and> scoped prompt_kind p) any_order d"

definition GetByCode :: "('d, CorePrompt) table_ops \<Rightarrow> string \<Rightarrow> 'd \<Rightarrow> CorePrompt res" where
  "GetByCode T code d =
     dao_one prompt_kind T (''GetByCode fail, code:'' @ code @ '', err: '') (\<lambda>p. cp_Code p = code \<and> scoped prompt_kind p) any_order d"

section \<open>\<open>PromptVersionDao\<close>\<close>

record PromptVersionCond =
  vc_CompanyID :: nat
  vc_Uin :: nat
  vc_ID :: nat
  vc_IDs :: "nat list"
  vc_PromptID :: nat
  vc_PromptIDs :: "nat list"
  vc_OrderBy :: "string list"
  vc_Offset :: int
  vc_Limit :: int
  vc_IsDelete :: bool

definition zero_version :: CorePromptVersion where
  "zero_version = \<lparr>cv_ID = 0, cv_CreatedAt = None, cv_UpdatedAt = None, cv_DeletedAt = None, cv_CompanyID = 0, cv_Uin = 0,
     cv_PromptID = 0, cv_Content = [], cv_VariableKeys = [], cv_CreatedUin = 0, cv_UpdatedUin = 0\<rparr>"

definition version_created :: "gotime \<Rightarrow> CorePromptVersion \<Rightarrow> CorePromptVersion" where
  "version_created now v = v\<lparr>cv_CreatedAt := pick None (cv_CreatedAt v) (Some now), cv_UpdatedAt := pick None (cv_UpdatedAt v) (Some now)\<rparr>"

definition version_merge :: "CorePromptVersion \<Rightarrow> CorePromptVersion \<Rightarrow> CorePromptVersion" where
  "version_merge e v = v\<lparr>cv_ID := pick 0 (cv_ID e) (cv_ID v), cv_CreatedAt := pick None (cv_CreatedAt e) (cv_CreatedAt v),
     cv_DeletedAt := pick None (cv_DeletedAt e) (cv_DeletedAt v), cv_CompanyID := pick 0 (cv_CompanyID e) (cv_CompanyID v),
     cv_Uin := pick 0 (cv_Uin e) (cv_Uin v), cv_PromptID := pick 0 (cv_PromptID e) (cv_PromptID v),
     cv_Content := pick [] (cv_Content e) (cv_Content v), cv_VariableKeys := pick [] (cv_VariableKeys e) (cv_VariableKeys v),
     cv_CreatedUin := pick 0 (cv_CreatedUin e) (cv_CreatedUin v), cv_UpdatedUin := pick 0 (cv_UpdatedUin e) (cv_UpdatedUin v)\<rparr>"

definition version_kind :: "CorePromptVersion dao_kind" where
  "version_kind = \<lparr>dk_name = ''PromptVersionDao'', dk_id = cv_ID, dk_deleted = cv_DeletedAt,
     dk_set_deleted = (\<lambda>now v. v\<lparr>cv_DeletedAt := Some now\<rparr>), dk_touch = (\<lambda>now v. v\<lparr>cv_UpdatedAt := Some now\<rparr>),
     dk_created = version_created, dk_merge = version_merge, dk_zero = zero_version\<rparr>"

definition VersionDao_BuildCondition :: "CorePromptVersion sql_text \<Rightarrow> PromptVersionCond option \<Rightarrow> CorePromptVersion \<Rightarrow> bool" where
  "VersionDao_BuildCondition L cond v =
     (case cond of
        None \<Rightarrow> cv_DeletedAt v = None
      | Some c \<Rightarrow>
          (0 < vc_CompanyID c \<longrightarrow> cv_CompanyID v = vc_CompanyID c) \<and>
          (0 < vc_Uin c \<longrightarrow> cv_Uin v = vc_Uin c) \<and>
          (0 < vc_ID c \<longrightarrow> cv_ID v = vc_ID c) \<and>
          (vc_IDs c \<noteq> [] \<longrightarrow> cv_ID v \<in> set (vc_IDs c)) \<and>
          (0 < vc_PromptID c \<longrightarrow> cv_PromptID v = vc_PromptID c) \<and>
          (vc_PromptIDs c \<noteq> [] \<longrightarrow> cv_PromptID v \<in> set (vc_PromptIDs c)) \<and>
          (\<not> vc_IsDelete c \<longrightarrow> cv_DeletedAt v = None))"

definition VersionDao_order :: "CorePromptVersion sql_text \<Rightarrow> PromptVersionCond option \<Rightarrow> CorePromptVersion \<Rightarrow> CorePromptVersion \<Rightarrow> bool" where
  "VersionDao_order L cond = (case cond of
     Some c \<Rightarrow> if vc_OrderBy c \<noteq> [] then sx_order L (join_strings '','' (vc_OrderBy c)) else any_order
   | None \<Rightarrow> any_order)"

definition VersionDao_has_where :: "PromptVersionCond option \<Rightarrow> bool" where
  "VersionDao_has_where cond = (case cond of
     None \<Rightarrow> False
   | Some c \<Rightarrow> 0 < vc_CompanyID c \<or> 0 < vc_Uin c \<or> 0 < vc_ID c \<or> vc_IDs c \<noteq> [] \<or> 0 < vc_PromptID c \<or> vc_PromptIDs c \<noteq> [])"

definition VersionDao_Create :: "('d, CorePromptVersion) table_ops \<Rightarrow> gotime \<Rightarrow> CorePromptVersion \<Rightarrow> 'd \<Rightarrow> (CorePromptVersion \<times> 'd) res" where
  "VersionDao_Create T now entity d = dao_create version_kind T now entity d"

definition VersionDao_CreateBatch :: "('d, CorePromptVersion) table_ops \<Rightarrow> gotime \<Rightarrow> CorePromptVersion list \<Rightarrow> 'd \<Rightarrow> (CorePromptVersion list \<times> 'd) res" where
  "VersionDao_CreateBatch T now entityList d = dao_create_batch version_kind T now entityList d"

definition VersionDao_GetByID :: "('d, CorePromptVersion) table_ops \<Rightarrow> nat \<Rightarrow> 'd \<Rightarrow> CorePromptVersion res" where
  "VersionDao_GetByID T k d = dao_get_by_id version_kind T k d"

definition VersionDao_GetByIDs :: "('d, CorePromptVersion) table_ops \<Rightarrow> nat list \<Rightarrow> 'd \<Rightarrow> CorePromptVersion list res" where
  "VersionDao_GetByIDs T ids d = dao_get_by_ids version_kind T ids d"

definition VersionDao_UpdateByID :: "('d, CorePromptVersion) table_ops \<Rightarrow> gotime \<Rightarrow> nat \<Rightarrow> CorePromptVersion \<Rightarrow> 'd \<Rightarrow> 'd res" where
  "VersionDao_UpdateByID T now k entity d = dao_update_by_id version_kind T now k entity d"

definition VersionDao_UpdateMap :: "('d, CorePromptVersion) table_ops \<Rightarrow> gotime \<Rightarrow> nat \<Rightarrow> (CorePromptVersion \<Rightarrow> CorePromptVersion) \<Rightarrow> 'd \<Rightarrow> 'd res" where
  "VersionDao_UpdateMap T now k updateMap d = dao_update_map version_kind T now k updateMap d"

definition VersionDao_UpdateMapBatch :: "CorePromptVersion sql_text \<Rightarrow> ('d, CorePromptVersion) table_ops \<Rightarrow> gotime \<Rightarrow> PromptVersionCond option \<Rightarrow> (CorePromptVersion \<Rightarrow> CorePromptVersion) \<Rightarrow> 'd \<Rightarrow> 'd res" where
  "VersionDao_UpdateMapBatch L T now cond updateMap d = dao_update_batch version_kind T now (VersionDao_has_where cond) (VersionDao_BuildCondition L cond) updateMap d"

definition VersionDao_SaveBatchOnConflict :: "('d, CorePromptVersion) table_ops \<Rightarrow> ('d, CorePromptVersion) upsert \<Rightarrow> gotime \<Rightarrow> CorePromptVersion list \<Rightarrow> string list \<Rightarrow> 'd \<Rightarrow> 'd res" where
  "VersionDao_SaveBatchOnConflict T U now entityList conflictColumns d = dao_save_batch version_kind T U now entityList conflictColumns d"

definition VersionDao_Delete :: "('d, CorePromptVersion) table_ops \<Rightarrow> gotime \<Rightarrow> nat \<Rightarrow> 'd \<Rightarrow> 'd res" where
  "VersionDao_Delete T now k d = dao_delete version_kind T now k d"

definition VersionDao_DeleteByIDs :: "('d, CorePromptVersion) table_ops \<Rightarrow> gotime \<Rightarrow> nat list \<Rightarrow> 'd \<Rightarrow> 'd res" where
  "VersionDao_DeleteByIDs T now ids d = dao_delete_by_ids version_kind T now ids d"

definition VersionDao_GetByCond :: "CorePromptVersion sql_text \<Rightarrow> ('d, CorePromptVersion) table_ops \<Rightarrow> PromptVersionCond option \<Rightarrow> 'd \<Rightarrow> CorePromptVersion res" where
  "VersionDao_GetByCond L T cond d = dao_one version_kind T ''GetByCond fail, err: '' (VersionDao_BuildCondition L cond) (VersionDao_order L cond) d"

definition VersionDao_GetListByCond :: "CorePromptVersion sql_text \<Rightarrow> ('d, CorePromptVersion) table_ops \<Rightarrow> PromptVersionCond option \<Rightarrow> 'd \<Rightarrow> CorePromptVersion list res" where
  "VersionDao_GetListByCond L T cond d = dao_list version_kind T ''GetListByCond fail, err: '' (VersionDao_BuildCondition L cond) (VersionDao_order L cond) d"

definition VersionDao_CountByCond :: "CorePromptVersion sql_text \<Rightarrow> ('d, CorePromptVersion) table_ops \<Rightarrow> PromptVersionCond option \<Rightarrow> 'd \<Rightarrow> nat res" where
  "VersionDao_CountByCond L T cond d = dao_count version_kind T ''CountByCond fail, err: '' (VersionDao_BuildCondition L cond) d"

definition VersionDao_GetPageListByCond :: "CorePromptVersion sql_text \<Rightarrow> ('d, CorePromptVersion) table_ops \<Rightarrow> PromptVersionCond option \<Rightarrow> 'd \<Rightarrow> (CorePromptVersion list \<times> nat) res option" where
  "VersionDao_GetPageListByCond L T cond d =
     (case cond of
        None \<Rightarrow> (case dao_count version_kind T ''GetPageListByCond count fail, err: '' (VersionDao_BuildCondition L None) d of Inl e \<Rightarrow> Some (Inl e) | Inr _ \<Rightarrow> None)
      | Some c \<Rightarrow> Some (dao_page version_kind T (vc_Offset c) (vc_Limit c) (VersionDao_BuildCondition L cond) (VersionDao_order L cond) d))"

definition GetListByPromptID :: "('d, CorePromptVersion) table_ops \<Rightarrow> nat \<Rightarrow> 'd \<Rightarrow> CorePromptVersion list res" where
  "GetListByPromptID T promptID d =
     (if promptID = 0 then Inr []
      else dao_list version_kind T (''GetListByPromptID fail, promptID:'' @ nat_digits promptID @ '', err: '')
             (\<lambda>v. cv_PromptID v = promptID \<and> scoped version_kind v) any_order d)"

end
