(* ===== verification/Prompt_Correct.thy ===== *)
theory Prompt_Correct
  imports Prompt_Dao
begin

text \<open>
  The renderer of \<open>prompt/renderer.go\<close> and the properties of the prompt subsystem: validated values fit their
  declarations, a rendered prompt passed every check, the helper functions cannot be used, and what the
  soft-delete and update statements of the DAOs do to the table.
\<close>

section \<open>Rendering by code\<close>

record ('d, 'e) Renderer =
  rn_prompts :: "('d, CorePrompt) table_ops"
  rn_versions :: "('e, CorePromptVersion) table_ops"

definition NewRenderer :: "('d, CorePrompt) table_ops \<Rightarrow> ('e, CorePromptVersion) table_ops \<Rightarrow> ('d, 'e) Renderer" where
  "NewRenderer P V = \<lparr>rn_prompts = P, rn_versions = V\<rparr>"

text \<open>\<open>unmarshal\<close> is \<open>json.Unmarshal\<close> of the stored variable declarations.\<close>

definition RenderByCode ::
  "('d, 'e) Renderer \<Rightarrow> template_engine \<Rightarrow> (string \<Rightarrow> VarKey list res) \<Rightarrow> string \<Rightarrow> (string \<rightharpoonup> goval) \<Rightarrow> 'd \<times> 'e \<Rightarrow> string res" where
  "RenderByCode R E unmarshal code values db =
     (case GetByCode (rn_prompts R) code (fst db) of
        Inl e \<Rightarrow> Inl (Wrapf (''get prompt by code '' @ code @ '' fail'') e)
      | Inr prompt \<Rightarrow>
          if cp_ID prompt = 0 then Inl (Wrapped ErrPromptNotFound (''code='' @ code))
          else if cp_Status prompt = PromptStatusDisabled
          then Inl (Wrapped ErrPromptDisabled (''code='' @ code @ '', promptID='' @ nat_digits (cp_ID prompt)))
          else if cp_LatestVersionID prompt = 0
          then Inl (Wrapped ErrVersionNotFound (''promptID='' @ nat_digits (cp_ID prompt) @ '', latestVersionID=0''))
          else case VersionDao_GetByID (rn_versions R) (cp_LatestVersionID prompt) (snd db) of
            Inl e \<Rightarrow> Inl (Wrapf (''get prompt version '' @ nat_digits (cp_LatestVersionID prompt) @ '' fail'') e)
          | Inr version \<Rightarrow>
              if cv_ID version = 0
              then Inl (Wrapped ErrVersionNotFound (''promptID='' @ nat_digits (cp_ID prompt) @ '', versionID='' @ nat_digits (cp_LatestVersionID prompt)))
              else case unmarshal (cv_VariableKeys version) of
                Inl e \<Rightarrow> Inl (Wrapf (''unmarshal variable_keys fail: promptID='' @ nat_digits (cp_ID prompt) @ '', versionID='' @ nat_digits (cv_ID version) @ '', err'') e)
              | Inr keys \<Rightarrow> ValidateAndRender E (cv_Content version) keys values)"

section \<open>The names a template mentions\<close>

text \<open>The tree nodes the walk visits, and the names it collects.\<close>

fun mentions :: "tnode \<Rightarrow> string set" where
  "mentions (ListNode ns) = \<Union> (set (map mentions ns))"
| "mentions (ActionNode p) = mentions p"
| "mentions (PipeNode decl cmds) = \<Union> (set (map mentions cmds))"
| "mentions (CommandNode args) = \<Union> (set (map mentions args))"
| "mentions (FieldNode ids) = set ids"
| "mentions (VariableNode ids) = (if ids \<noteq> [] \<and> hd ids = ''$'' then set (tl ids) else set ids)"
| "mentions (IfNode p l e) = mentions p \<union> mentions l \<union> \<Union> (set_option (map_option mentions e))"
| "mentions (RangeNode p l e) = mentions p \<union> mentions l \<union> \<Union> (set_option (map_option mentions e))"
| "mentions (WithNode p l e) = mentions p \<union> mentions l \<union> \<Union> (set_option (map_option mentions e))"
| "mentions _ = {}"

lemma set_see [simp]: "set (see n seen) = insert n (set seen)" "distinct (see n seen) = distinct seen"
  by (auto simp: see_def)

lemma set_fold_see [simp]: "set (fold see ns seen) = set ns \<union> set seen" "distinct (fold see ns seen) = distinct seen"
  by (induction ns arbitrary: seen) auto

lemma set_fold_walk:
  "(\<And>n s. n \<in> set ns \<Longrightarrow> set (walkAST n s) = mentions n \<union> set s) \<Longrightarrow>
   set (fold walkAST ns seen) = \<Union> (mentions ` set ns) \<union> set seen"
  by (induction ns arbitrary: seen) auto

lemma set_walkAST: "set (walkAST n seen) = mentions n \<union> set seen"
proof (induction n arbitrary: seen)
  case (VariableNode ids)
  then show ?case by (cases ids) auto
qed (auto simp: set_fold_walk split: option.splits)

text \<open>The function names a tree calls.\<close>

fun calls :: "tnode \<Rightarrow> string set" where
  "calls (ListNode ns) = \<Union> (set (map calls ns))"
| "calls (ActionNode p) = calls p"
| "calls (PipeNode decl cmds) = \<Union> (set (map calls cmds))"
| "calls (CommandNode args) = \<Union> (set (map calls args))"
| "calls (IfNode p l e) = calls p \<union> calls l \<union> \<Union> (set_option (map_option calls e))"
| "calls (RangeNode p l e) = calls p \<union> calls l \<union> \<Union> (set_option (map_option calls e))"
| "calls (WithNode p l e) = calls p \<union> calls l \<union> \<Union> (set_option (map_option calls e))"
| "calls (IdentifierNode f) = {f}"
| "calls (ChainNode n fs) = calls n"
| "calls (TemplateNode t p) = \<Union> (set_option (map_option calls p))"
| "calls _ = {}"

text \<open>
  What the documentation of \<open>text/template\<close> says of \<open>Parse\<close>: it fails on a function that is neither built in nor
  registered, and the registered functions only decide whether a text is accepted.
\<close>

definition engine_ok :: "template_engine \<Rightarrow> string set \<Rightarrow> bool" where
  "engine_ok E builtin \<longleftrightarrow>
     (\<forall>fs s t. tp_parse E fs s = Inr t \<longrightarrow> calls t \<subseteq> builtin \<union> set fs) \<and>
     (\<forall>fs gs s t u. tp_parse E fs s = Inr t \<longrightarrow> tp_parse E gs s = Inr u \<longrightarrow> t = u)"

section \<open>Properties of validation and rendering\<close>

text \<open>
  Typing of validated values (C40): when validation succeeds, a variable that was given has a value that
  fits its declared type, range, length and enumeration (unchanged, except that numbers for an integer
  variable become integers); a variable not given is optional and has its default, if any; no other
  variable is set. Defaults themselves are not checked.
\<close>

theorem validated_values_conform:
  assumes "distinct (map vk_Name keys)" "ValidatePromptValue E keys values = Inr m" "key \<in> set keys"
  shows "(if given values (vk_Name key)
     then \<exists>v. m (vk_Name key) = Some v \<and> conforms key v \<and> (vk_Type key \<noteq> VarKeyTypeInt \<longrightarrow> values (vk_Name key) = Some v)
     else \<not> vk_Required key \<and> m (vk_Name key) = (if vk_Default key = VNil then None else Some (vk_Default key))) \<and>
    dom m \<subseteq> vk_Name ` set keys"
proof -
  have v: "validate_keys E keys values Map.empty = Inr m" using assms(2) by (simp add: ValidatePromptValue_def)
  then have "list_all (key_ok E values) keys" using validate_keys_ok_iff [of E keys "values" Map.empty] by simp
  then have ok: "key_ok E values key" using assms(3) by (simp add: list_all_iff)
  have "m (vk_Name key) = entry_of E values key" by (rule validate_keys_entry [OF assms(1) v assms(3)]) simp
  moreover have "dom m \<subseteq> vk_Name ` set keys" using validate_keys_other [OF v] by (metis domIff subsetI)
  ultimately show ?thesis using ok check_value_conforms
    by (auto simp: key_ok_def entry_of_def given_def is_ok_iff split: if_splits intro: check_value_same [symmetric])
qed

definition sample_key :: VarKey where
  "sample_key = \<lparr>vk_Name = ''n'', vk_Type = VarKeyTypeInt, vk_Desc = [], vk_Required = True, vk_EnumValues = [],
     vk_Default = VNil, vk_MaxLength = 0, vk_Min = Some 1, vk_Max = Some 9, vk_MaxItems = 0\<rparr>"

definition sample_tree :: tnode where
  "sample_tree = ListNode [LeafNode, ActionNode (PipeNode [] [CommandNode [IdentifierNode ''Upper'', FieldNode [''n'']]])]"

definition sample_engine :: template_engine where
  "sample_engine = \<lparr>tp_parse = (\<lambda>fs s. if s = ''u'' then (if ''Upper'' \<in> set fs then Inr sample_tree else Inl (Err ''function not defined''))
        else Inr (FieldNode [s])),
     tp_exec = (\<lambda>fs t m. Inr ''out''), tp_show = (\<lambda>_. []), tp_oob = (\<lambda>_. 0)\<rparr>"

theorem validated_values_conform_witness:
  "\<exists>m v. ValidatePromptValue sample_engine [sample_key] [''n'' \<mapsto> VFloat (Fin 7 (- 1))] = Inr m \<and>
     m ''n'' = Some v \<and> conforms sample_key v"
proof -
  obtain m where m: "ValidatePromptValue sample_engine [sample_key] [''n'' \<mapsto> VFloat (Fin 7 (- 1))] = Inr m"
    by (simp add: ValidatePromptValue_def sample_key_def check_value_def int_value_def float_to_int_def float_trunc_def
        tquot_def limit_hit_def var_types)
  then show ?thesis using validated_values_conform [OF _ m, of sample_key]
    by (auto simp: sample_key_def given_def)
qed

lemma ParseVariableKeys_ok:
  assumes "ParseVariableKeys E content keys = Inr ks"
  obtains t where "tp_parse E [] content = Inr t" "mentions t \<subseteq> vk_Name ` set keys" "ks = keys"
    "list_all (\<lambda>k. isValidEnumType (vk_Type k)) keys"
proof -
  obtain t where t: "tp_parse E [] content = Inr t"
    using assms by (auto simp: ParseVariableKeys_def ExtractVariableNames_def split: if_splits sum.splits)
  have none: "filter (\<lambda>name. name \<notin> vk_Name ` set keys) (walkAST t []) = []" "ks = keys"
    "List.find (\<lambda>k. \<not> isValidEnumType (vk_Type k)) keys = None"
    using assms t by (auto simp: ParseVariableKeys_def ExtractVariableNames_def Let_def split: if_splits option.splits)
  have "mentions t \<subseteq> vk_Name ` set keys" using none(1) set_walkAST [of t "[]"] by (auto simp: filter_empty_conv)
  moreover have "list_all (\<lambda>k. isValidEnumType (vk_Type k)) keys" using none(3) by (simp add: find_None_iff list_all_iff)
  ultimately show ?thesis using that t none(2) by blast
qed

lemma ValidateAndRender_ok:
  assumes "ValidateAndRender E content keys vals = Inr out"
  shows "content \<noteq> [] \<and> (\<exists>t u m. tp_parse E [] content = Inr t \<and> mentions t \<subseteq> vk_Name ` set keys \<and>
     list_all (\<lambda>k. isValidEnumType (vk_Type k)) keys \<and>
     ValidatePromptValue E keys vals = Inr m \<and> tp_parse E DefaultFuncMap content = Inr u \<and> tp_exec E DefaultFuncMap u m = Inr out)"
proof -
  obtain ks where p: "ParseVariableKeys E content keys = Inr ks" and c: "content \<noteq> []"
    using assms by (auto simp: ValidateAndRender_def split: if_splits sum.splits)
  obtain t where "tp_parse E [] content = Inr t" "mentions t \<subseteq> vk_Name ` set keys" "list_all (\<lambda>k. isValidEnumType (vk_Type k)) keys"
    by (rule ParseVariableKeys_ok [OF p]) blast
  moreover obtain m u where "ValidatePromptValue E keys vals = Inr m" "tp_parse E DefaultFuncMap content = Inr u"
    "tp_exec E DefaultFuncMap u m = Inr out"
    using assms p c by (auto simp: ValidateAndRender_def split: sum.splits)
  ultimately show ?thesis using c by blast
qed

text \<open>
  What a rendered prompt went through: if rendering by code succeeds, the table holds a prompt with
  that code that is neither deleted nor disabled, its latest version exists and is not deleted, every
  variable the template mentions is declared, every declared type is a known one, all values passed
  validation, and the text is the engine's rendering of the validated values.
\<close>

theorem RenderByCode_checked:
  assumes tabs: "sql_table P prows pinv cp_ID psetpk" "sql_table V vrows vinv cv_ID vsetpk" "pinv d" "vinv d2"
    and ok: "RenderByCode (NewRenderer P V) E unmarshal code vals (d, d2) = Inr out"
  shows "\<exists>p v keys t u m. p \<in> set (prows d) \<and> cp_Code p = code \<and> cp_DeletedAt p = None \<and> cp_Status p \<noteq> PromptStatusDisabled \<and>
     v \<in> set (vrows d2) \<and> cv_ID v = cp_LatestVersionID p \<and> cv_DeletedAt v = None \<and> unmarshal (cv_VariableKeys v) = Inr keys \<and>
     tp_parse E [] (cv_Content v) = Inr t \<and> mentions t \<subseteq> vk_Name ` set keys \<and> list_all (\<lambda>k. isValidEnumType (vk_Type k)) keys \<and>
     ValidatePromptValue E keys vals = Inr m \<and> tp_parse E DefaultFuncMap (cv_Content v) = Inr u \<and> tp_exec E DefaultFuncMap u m = Inr out"
proof -
  obtain rs where rs: "tb_find P d (\<lambda>_ p. cp_Code p = code \<and> scoped prompt_kind p) any_order = Inr rs"
    using ok by (auto simp: RenderByCode_def GetByCode_def dao_one_def NewRenderer_def split: sum.splits)
  let ?p = "first_or zero_prompt rs"
  have g: "GetByCode P code d = Inr ?p" using rs by (simp add: GetByCode_def dao_one_def prompt_kind_def scoped_def)
  have st: "cp_ID ?p \<noteq> 0" "cp_Status ?p \<noteq> PromptStatusDisabled"
    using ok by (auto simp: RenderByCode_def NewRenderer_def g split: if_splits)
  obtain vs where vs: "tb_find V d2 (\<lambda>_ v. cv_ID v = cp_LatestVersionID ?p \<and> scoped version_kind v) any_order = Inr vs"
    using ok st by (auto simp: RenderByCode_def NewRenderer_def g VersionDao_GetByID_def dao_get_by_id_def dao_one_def version_kind_def
        split: if_splits sum.splits)
  let ?v = "first_or zero_version vs"
  have gv: "VersionDao_GetByID V (cp_LatestVersionID ?p) d2 = Inr ?v"
    using vs by (simp add: VersionDao_GetByID_def dao_get_by_id_def dao_one_def version_kind_def scoped_def)
  obtain keys where vid: "cv_ID ?v \<noteq> 0" and keys: "unmarshal (cv_VariableKeys ?v) = Inr keys"
    and r: "ValidateAndRender E (cv_Content ?v) keys vals = Inr out"
    using ok st by (auto simp: RenderByCode_def NewRenderer_def g gv split: if_splits sum.splits)
  have "?p \<in> set (prows d)" "cp_Code ?p = code \<and> scoped prompt_kind ?p"
    using sql_table.find_first [OF tabs(1,3) rs st(1)] by (simp_all add: zero_prompt_def)
  moreover have "?v \<in> set (vrows d2)" "cv_ID ?v = cp_LatestVersionID ?p \<and> scoped version_kind ?v"
    using sql_table.find_first [OF tabs(2,4) vs vid] by (simp_all add: zero_version_def)
  moreover obtain t u m where "tp_parse E [] (cv_Content ?v) = Inr t" "mentions t \<subseteq> vk_Name ` set keys"
    "list_all (\<lambda>k. isValidEnumType (vk_Type k)) keys" "ValidatePromptValue E keys vals = Inr m"
    "tp_parse E DefaultFuncMap (cv_Content ?v) = Inr u" "tp_exec E DefaultFuncMap u m = Inr out"
    using ValidateAndRender_ok [OF r] by blast
  ultimately show ?thesis using st(2) keys
    by (intro exI [of _ ?p] exI [of _ ?v] exI [of _ keys] exI [of _ t] exI [of _ u] exI [of _ m])
      (simp add: scoped_def prompt_kind_def version_kind_def)
qed

definition prompt_rows :: "CorePrompt list" where
  "prompt_rows = [zero_prompt\<lparr>cp_ID := 1, cp_Code := ''c'', cp_Status := 1, cp_LatestVersionID := 4\<rparr>,
     zero_prompt\<lparr>cp_ID := 2, cp_Code := ''e'', cp_Status := 1\<rparr>]"

definition version_rows :: "CorePromptVersion list" where
  "version_rows = [zero_version\<lparr>cv_ID := 4, cv_PromptID := 1, cv_Content := ''n''\<rparr>]"

abbreviation prompt_table :: "(CorePrompt list, CorePrompt) table_ops" where
  "prompt_table \<equiv> mem_table cp_ID (\<lambda>k r. r\<lparr>cp_ID := k\<rparr>)"

abbreviation version_table :: "(CorePromptVersion list, CorePromptVersion) table_ops" where
  "version_table \<equiv> mem_table cv_ID (\<lambda>k r. r\<lparr>cv_ID := k\<rparr>)"

theorem RenderByCode_checked_witness:
  "\<exists>p v. p \<in> set prompt_rows \<and> cp_Code p = ''c'' \<and> v \<in> set version_rows \<and> cv_ID v = cp_LatestVersionID p"
proof -
  have r: "RenderByCode (NewRenderer prompt_table version_table) sample_engine (\<lambda>_. Inr [sample_key]) ''c'' [''n'' \<mapsto> VInt 3]
      (prompt_rows, version_rows) = Inr ''out''"
    by (simp add: RenderByCode_def NewRenderer_def GetByCode_def VersionDao_GetByID_def dao_get_by_id_def dao_one_def mem_table_def
        isort_by_def any_order_def prompt_rows_def version_rows_def zero_prompt_def zero_version_def scoped_def prompt_kind_def version_kind_def
        ValidateAndRender_def ParseVariableKeys_def ExtractVariableNames_def ValidatePromptValue_def sample_engine_def sample_key_def
        PromptStatusDisabled_def isValidEnumType_def check_value_def int_value_def limit_hit_def var_types see_def)
  have "mem_wf cp_ID prompt_rows" "mem_wf cv_ID version_rows"
    by (simp_all add: mem_wf_def prompt_rows_def version_rows_def)
  then show ?thesis
    using RenderByCode_checked [OF mem_table_sql_table mem_table_sql_table _ _ r] by (auto simp: id_def)
qed

text \<open>
  The helper functions cannot be used: a template that calls a function outside the built-in ones,
  such as \<open>Upper\<close>, is refused with a parse error even though rendering would know the function, because
  the variables are extracted by a parser that has not been given the function map.
\<close>

theorem helper_functions_rejected:
  assumes "engine_ok E builtin" "tp_parse E DefaultFuncMap content = Inr t" "\<not> calls t \<subseteq> builtin" "content \<noteq> []"
  shows "\<exists>e. ValidateAndRender E content keys vals = Inl e \<and> errors_is e ErrTemplateParseFailed"
proof (cases "tp_parse E [] content")
  case (Inl e)
  then show ?thesis using assms(4)
    by (auto simp: ValidateAndRender_def ParseVariableKeys_def ExtractVariableNames_def)
next
  case (Inr u)
  then have "calls u \<subseteq> builtin" "u = t" using assms(1,2) unfolding engine_ok_def by fastforce+
  then show ?thesis using assms(3) by simp
qed

lemma sample_engine_ok: "engine_ok sample_engine {}"
  by (auto simp: engine_ok_def sample_engine_def sample_tree_def split: if_splits)

theorem helper_functions_rejected_witness:
  "\<exists>e. ValidateAndRender sample_engine ''u'' [sample_key] [''n'' \<mapsto> VInt 3] = Inl e \<and> errors_is e ErrTemplateParseFailed"
  using helper_functions_rejected [OF sample_engine_ok, of "''u''" sample_tree "[sample_key]" "[''n'' \<mapsto> VInt 3]"]
  by (simp add: sample_engine_def sample_tree_def DefaultFuncMap_def)

section \<open>The tables\<close>

text \<open>
  What the statements need of an entity: updates keep its key unless they set it, and the deletion mark is
  what the scope reads.
\<close>

locale soft_dao = sql_table T rows tinv pk setpk
  for T :: "('d, 'r) table_ops" and rows :: "'d \<Rightarrow> 'r list" and tinv :: "'d \<Rightarrow> bool"
    and pk :: "'r \<Rightarrow> nat" and setpk :: "nat \<Rightarrow> 'r \<Rightarrow> 'r" +
  fixes K :: "'r dao_kind"
  assumes kind_id: "dk_id K = pk"
    and touch: "pk (dk_touch K now r) = pk r" "dk_deleted K (dk_touch K now r) = dk_deleted K r"
    and mark: "pk (dk_set_deleted K now r) = pk r" "dk_deleted K (dk_set_deleted K now r) = Some now"
    and zero_id: "pk (dk_zero K) = 0"
begin

lemma delete_rows:
  assumes "tinv d" "dao_update K T now what cond (dk_set_deleted K now) d = Inr d'"
  shows "tinv d'" "row_at pk (rows d') j =
    map_option (\<lambda>r. if cond r \<and> scoped K r then dk_touch K now (dk_set_deleted K now r) else r) (row_at pk (rows d) j)"
proof -
  have u: "tb_update T d (\<lambda>r. cond r \<and> scoped K r) (\<lambda>r. dk_touch K now (dk_set_deleted K now r)) = Inr d'"
    using assms(2) by (auto simp: dao_update_def split: sum.splits)
  show "tinv d'" "row_at pk (rows d') j =
    map_option (\<lambda>r. if cond r \<and> scoped K r then dk_touch K now (dk_set_deleted K now r) else r) (row_at pk (rows d) j)"
    using update_row_at [OF assms(1) u] touch mark by simp_all
qed

lemma get_by_id:
  assumes "tinv d" "dao_get_by_id K T k d = Inr r"
  shows "r = (case row_at pk (rows d) k of Some x \<Rightarrow> if scoped K x then x else dk_zero K | None \<Rightarrow> dk_zero K)"
proof -
  obtain rs where rs: "tb_find T d (\<lambda>_ x. pk x = k \<and> scoped K x) any_order = Inr rs" "r = first_or (dk_zero K) rs"
    using assms(2) by (auto simp: dao_get_by_id_def dao_one_def kind_id split: sum.splits)
  show ?thesis using find_by_key [OF assms(1) rs(1)] rs(2) by (auto split: option.splits if_splits)
qed

lemma deleted_is_gone:
  assumes d: "tinv d" and del: "dao_delete K T now k d = Inr d'"
  shows "tinv d' \<and> (dao_get_by_id K T k d' = Inr r \<longrightarrow> r = dk_zero K) \<and>
    (dao_list K T what (\<lambda>x. cond x \<and> scoped K x) le d' = Inr rs \<longrightarrow> (\<forall>x \<in> set rs. pk x \<noteq> k)) \<and>
    (j \<noteq> k \<longrightarrow> row_at pk (rows d') j = row_at pk (rows d) j)"
proof (intro conjI impI)
  note dr = delete_rows [OF d del [unfolded dao_delete_def]]
  show inv: "tinv d'" by (rule dr)
  have gone: "\<not> scoped K x" if at: "row_at pk (rows d') k = Some x" for x
  proof -
    obtain r0 where r0: "row_at pk (rows d) k = Some r0"
      "x = (if dk_id K r0 = k \<and> scoped K r0 then dk_touch K now (dk_set_deleted K now r0) else r0)"
      using dr(2) [of k] at by (cases "row_at pk (rows d) k") auto
    moreover have "pk r0 = k" using row_at_SomeD [OF r0(1)] by simp
    ultimately show ?thesis using touch(2) mark(2) by (cases "scoped K r0") (simp_all add: kind_id scoped_def)
  qed
  show "r = dk_zero K" if "dao_get_by_id K T k d' = Inr r"
    using get_by_id [OF inv that] gone by (auto split: option.splits)
  show "\<forall>x \<in> set rs. pk x \<noteq> k" if "dao_list K T what (\<lambda>x. cond x \<and> scoped K x) le d' = Inr rs"
  proof (intro ballI notI)
    fix x assume "x \<in> set rs" "pk x = k"
    have "set rs = {x \<in> set (rows d'). cond x \<and> scoped K x}"
      using find_set [OF inv, of "\<lambda>_ x. cond x \<and> scoped K x"] that by (auto simp: dao_list_def split: sum.splits)
    with \<open>x \<in> set rs\<close> \<open>pk x = k\<close> gone row_at_mem [OF inv, of x] show False by auto
  qed
  show "row_at pk (rows d') j = row_at pk (rows d) j" if "j \<noteq> k"
    using dr(2) [of j] that by (cases "row_at pk (rows d) j") (auto simp: kind_id dest: row_at_SomeD)
qed

lemma page_and_count:
  assumes "tinv d" "dao_page K T offset limit cond le d = Inr (rs, n)"
  shows "n = length (filter cond (rows d)) \<and> (\<exists>all. mset all = mset (filter cond (rows d)) \<and> rs = page offset limit all)"
proof -
  obtain all where "tb_find T d (\<lambda>_. cond) le = Inr all" "tb_count T d (\<lambda>_. cond) = Inr n" "rs = page offset limit all"
    using assms(2) by (auto simp: dao_page_def dao_list_def dao_count_def split: sum.splits)
  then show ?thesis using find_rows [OF assms(1)] count_rows [OF assms(1)] by blast
qed

end

lemma prompt_soft_dao: "sql_table T rows tinv cp_ID setpk \<Longrightarrow> soft_dao T rows tinv cp_ID setpk prompt_kind"
  by (auto simp: soft_dao_def soft_dao_axioms_def prompt_kind_def zero_prompt_def)

lemma version_soft_dao: "sql_table T rows tinv cv_ID setpk \<Longrightarrow> soft_dao T rows tinv cv_ID setpk version_kind"
  by (auto simp: soft_dao_def soft_dao_axioms_def version_kind_def zero_version_def)

interpretation prompts: soft_dao prompt_table id "mem_wf cp_ID" cp_ID "\<lambda>k r. r\<lparr>cp_ID := k\<rparr>" prompt_kind
  by (rule prompt_soft_dao, rule mem_table_sql_table) simp

interpretation versions: soft_dao version_table id "mem_wf cv_ID" cv_ID "\<lambda>k r. r\<lparr>cv_ID := k\<rparr>" version_kind
  by (rule version_soft_dao, rule mem_table_sql_table) simp

text \<open>
  Deletion of a prompt or a version: after a successful \<open>Delete\<close> the row is found neither by id nor by
  any of the scoped queries (by code, by application and group, by prompt), and no other row changes.
\<close>

theorem prompt_delete_hides:
  assumes "sql_table P prows pinv cp_ID psetpk" "pinv d" "PromptDao_Delete P now k d = Inr d'"
    and "sql_table V vrows vinv cv_ID vsetpk" "vinv e" "VersionDao_Delete V now k e = Inr e'"
  shows "(PromptDao_GetByID P k d' = Inr p \<longrightarrow> p = zero_prompt) \<and> (GetByCode P code d' = Inr q \<longrightarrow> cp_ID q \<noteq> k \<or> q = zero_prompt) \<and>
    (j \<noteq> k \<longrightarrow> row_at cp_ID (prows d') j = row_at cp_ID (prows d) j) \<and>
    (VersionDao_GetByID V k e' = Inr v \<longrightarrow> v = zero_version) \<and> (GetListByPromptID V n e' = Inr vs \<longrightarrow> k \<notin> cv_ID ` set vs) \<and>
    (j \<noteq> k \<longrightarrow> row_at cv_ID (vrows e') j = row_at cv_ID (vrows e) j)"
proof -
  note pd = soft_dao.deleted_is_gone [OF prompt_soft_dao [OF assms(1)] assms(2), of now k d', folded PromptDao_Delete_def, OF assms(3)]
  note vd = soft_dao.deleted_is_gone [OF version_soft_dao [OF assms(4)] assms(5), of now k e', folded VersionDao_Delete_def, OF assms(6)]
  have k0: "dk_zero prompt_kind = zero_prompt" "dk_zero version_kind = zero_version"
    by (simp_all add: prompt_kind_def version_kind_def)
  have "GetByCode P code d' = Inr q \<Longrightarrow> cp_ID q \<noteq> k \<or> q = zero_prompt"
  proof -
    assume "GetByCode P code d' = Inr q"
    then obtain rs where "dao_list prompt_kind P [] (\<lambda>x. cp_Code x = code \<and> scoped prompt_kind x) any_order d' = Inr rs" "q = first_or zero_prompt rs"
      by (auto simp: GetByCode_def dao_one_def dao_list_def k0 split: sum.splits)
    then show ?thesis using pd [of p "[]" "\<lambda>x. cp_Code x = code" any_order rs j] first_or_in [of rs zero_prompt] by (cases rs) auto
  qed
  moreover have "k \<notin> cv_ID ` set vs" if "GetListByPromptID V n e' = Inr vs"
    using that vd [of v _ "\<lambda>x. cv_PromptID x = n" any_order vs j] by (auto simp: GetListByPromptID_def split: if_splits)
  ultimately show ?thesis using pd [of p "[]" "\<lambda>_. True" any_order "[]" j] vd [of v "[]" "\<lambda>_. True" any_order "[]" j]
    by (auto simp: PromptDao_GetByID_def VersionDao_GetByID_def k0)
qed

lemmas dao_evals = dao_delete_def dao_update_def dao_create_def dao_update_by_id_def mem_table_def mem_insert_def update_rows_def
  mem_checked_def mem_wf_def prompt_kind_def version_kind_def scoped_def zero_prompt_def zero_version_def

theorem prompt_delete_hides_witness:
  "\<exists>d' e'. PromptDao_Delete prompt_table 9 1 prompt_rows = Inr d' \<and> VersionDao_Delete version_table 9 1 version_rows = Inr e' \<and>
     (\<forall>p. PromptDao_GetByID prompt_table 1 d' = Inr p \<longrightarrow> p = zero_prompt)"
proof -
  obtain d' where d: "PromptDao_Delete prompt_table 9 1 prompt_rows = Inr d'"
    by (simp add: PromptDao_Delete_def prompt_rows_def dao_evals)
  obtain e' where e: "VersionDao_Delete version_table 9 1 version_rows = Inr e'"
    by (simp add: VersionDao_Delete_def version_rows_def dao_evals)
  have "mem_wf cp_ID prompt_rows" "mem_wf cv_ID version_rows" by (simp_all add: mem_wf_def prompt_rows_def version_rows_def)
  then show ?thesis
    using prompt_delete_hides [OF mem_table_sql_table _ d mem_table_sql_table _ e] d e by auto
qed

text \<open>
  A prompt cannot be disabled through the entity: because the disabled status is the zero value,
  \<open>Create\<close> stores an enabled prompt when asked for a disabled one, and \<open>UpdateByID\<close> with a disabled entity
  leaves the status of every row as it was.
\<close>

theorem prompt_disable_lost:
  assumes tab: "sql_table P prows pinv cp_ID psetpk" "\<And>j r. cp_Status (psetpk j r) = cp_Status r" "pinv d" "cp_Status p = PromptStatusDisabled"
    and "PromptDao_Create P now p d = Inr (p', d1)" "PromptDao_UpdateByID P now k p d = Inr d2" "cp_ID p = 0"
  shows "cp_Status p' = PromptStatusEnabled \<and> (\<forall>j. map_option cp_Status (row_at cp_ID (prows d2) j) = map_option cp_Status (row_at cp_ID (prows d) j))"
proof -
  obtain rs where i: "tb_insert P d [prompt_created now p] = Inr (rs, d1)" "p' = first_or p rs"
    using assms(5) by (auto simp: PromptDao_Create_def dao_create_def prompt_kind_def split: sum.splits)
  have "list_all2 (\<lambda>r r'. r' = (if cp_ID r = 0 then psetpk (cp_ID r') r else r)) [prompt_created now p] rs"
    using sql_table.insert_rows [OF tab(1,3) i(1)] by blast
  then have "cp_Status p' = cp_Status (prompt_created now p)"
    using i(2) tab(2) by (auto simp: list_all2_Cons1 split: if_splits) (metis tab(2))
  moreover have "cp_Status (prompt_created now p) = PromptStatusEnabled"
    using assms(4) by (simp add: prompt_created_def pick_def PromptStatusEnabled_def PromptStatusDisabled_def)
  moreover have u: "tb_update P d (\<lambda>r. cp_ID r = k \<and> scoped prompt_kind r) (\<lambda>r. dk_touch prompt_kind now (prompt_merge p r)) = Inr d2"
    using assms(6) by (auto simp: PromptDao_UpdateByID_def dao_update_by_id_def dao_update_def prompt_kind_def scoped_def split: sum.splits)
  have "cp_ID (dk_touch prompt_kind now (prompt_merge p r)) = cp_ID r" "cp_Status (dk_touch prompt_kind now (prompt_merge p r)) = cp_Status r" for r
    using assms(4,7) by (simp_all add: prompt_kind_def prompt_merge_def pick_def PromptStatusDisabled_def)
  then have "map_option cp_Status (row_at cp_ID (prows d2) j) = map_option cp_Status (row_at cp_ID (prows d) j)" for j
    using sql_table.update_row_at(2) [OF tab(1,3) u, of j] by (cases "row_at cp_ID (prows d) j") auto
  ultimately show ?thesis by simp
qed

theorem prompt_disable_lost_witness:
  "\<exists>p' d1 d2. PromptDao_Create prompt_table 5 zero_prompt prompt_rows = Inr (p', d1) \<and>
     PromptDao_UpdateByID prompt_table 5 2 zero_prompt prompt_rows = Inr d2 \<and> cp_Status p' = PromptStatusEnabled"
proof -
  obtain p' d1 where c: "PromptDao_Create prompt_table 5 zero_prompt prompt_rows = Inr (p', d1)"
    by (simp add: PromptDao_Create_def prompt_rows_def prompt_created_def Let_def dao_evals)
  obtain d2 where u: "PromptDao_UpdateByID prompt_table 5 2 zero_prompt prompt_rows = Inr d2"
    by (simp add: PromptDao_UpdateByID_def prompt_rows_def prompt_merge_def pick_def dao_evals)
  have "mem_wf cp_ID prompt_rows" by (simp add: mem_wf_def prompt_rows_def)
  then show ?thesis
    using prompt_disable_lost [OF mem_table_sql_table _ _ _ c u] c u by (simp add: zero_prompt_def PromptStatusDisabled_def)
qed

end
