(* ===== verification/Redis_Zset.thy ===== *)
theory Redis_Zset
  imports Redis_Kv "HOL-Library.AList"
begin

text \<open>
  The Redis sorted-set commands used by the service pool (ZPOPMIN with count 1, ZADD, ZSCORE, ZREM and
  ZREMRANGEBYRANK 0 -1), on the same server state as the string commands. A command returns its reply and
  the server afterwards; one that fails has had its effect or none, because the reply may be what was
  lost. The view \<open>zs q k\<close> is the set at key \<open>k\<close>: the score of each member. Scores are the integers a
  \<open>float64\<close> of a nanosecond count can be.
\<close>

type_synonym zset = "string \<rightharpoonup> int"
type_synonym redis_Z = "string \<times> int"

record 'q zset_ops =
  zz_popmin :: "'q \<Rightarrow> string \<Rightarrow> redis_Z list res \<times> 'q"
  zz_add :: "'q \<Rightarrow> string \<Rightarrow> redis_Z list \<Rightarrow> unit res \<times> 'q"
  zz_score :: "'q \<Rightarrow> string \<Rightarrow> string \<Rightarrow> int res"
  zz_rem :: "'q \<Rightarrow> string \<Rightarrow> string list \<Rightarrow> unit res \<times> 'q"
  zz_clear :: "'q \<Rightarrow> string \<Rightarrow> unit res \<times> 'q"

definition zadd :: "redis_Z list \<Rightarrow> zset \<Rightarrow> zset" where
  "zadd ms z = fold (\<lambda>(m, s) z. z(m \<mapsto> s)) ms z"

definition zleast :: "zset \<Rightarrow> string \<Rightarrow> int \<Rightarrow> bool" where
  "zleast z m s = (z m = Some s \<and> (\<forall>m' s'. z m' = Some s' \<longrightarrow> s \<le> s'))"

text \<open>A reply with the effect it promises: done on success, done or not done on failure.\<close>

definition effect :: "'a res \<Rightarrow> zset \<Rightarrow> zset \<Rightarrow> zset \<Rightarrow> bool" where
  "effect r z z' new = (case r of Inl e \<Rightarrow> z' = z \<or> z' = new | Inr _ \<Rightarrow> z' = new)"

lemma zadd_simps [simp]: "zadd [] z = z" "zadd ((m, s) # ms) z = zadd ms (z(m \<mapsto> s))"
  by (simp_all add: zadd_def)

lemma zadd_append [simp]: "zadd (ms @ [(m, s)]) z = (zadd ms z)(m \<mapsto> s)"
  by (simp add: zadd_def)

lemma zadd_zero: "zadd (map (\<lambda>m. (m, 0)) ms) z = (\<lambda>m. if m \<in> set ms then Some 0 else z m)"
  by (induction ms arbitrary: z) (auto simp: fun_eq_iff)

lemma effect_simps [simp]:
  "effect (Inr x) z z' new = (z' = new)" "effect (Inl e) z z' new = (z' = z \<or> z' = new)"
  by (simp_all add: effect_def)

locale redis_zset =
  fixes Z :: "'q zset_ops" and zs :: "'q \<Rightarrow> string \<Rightarrow> zset"
  assumes popmin_ok: "zz_popmin Z q k = (Inr ms, q') \<Longrightarrow>
       ms = [] \<and> zs q k = Map.empty \<and> zs q' = zs q \<or>
       (\<exists>m s. ms = [(m, s)] \<and> zleast (zs q k) m s \<and> zs q' = (zs q)(k := (zs q k)(m := None)))"
    and popmin_failed: "zz_popmin Z q k = (Inl e, q') \<Longrightarrow>
       zs q' = zs q \<or> (\<exists>m. zs q' = (zs q)(k := (zs q k)(m := None)))"
    and add_ok: "zz_add Z q k ms = (r, q') \<Longrightarrow>
       effect r (zs q k) (zs q' k) (zadd ms (zs q k)) \<and> (\<forall>j. j \<noteq> k \<longrightarrow> zs q' j = zs q j)"
    and score_ok: "zz_score Z q k m = Inr s \<Longrightarrow> zs q k m = Some s"
    and score_nil: "zz_score Z q k m = Inl redis_Nil \<Longrightarrow> zs q k m = None"
    and rem_ok: "zz_rem Z q k ms' = (r, q') \<Longrightarrow>
       effect r (zs q k) (zs q' k) (zs q k |` (- set ms')) \<and> (\<forall>j. j \<noteq> k \<longrightarrow> zs q' j = zs q j)"
    and clear_ok: "zz_clear Z q k = (r, q') \<Longrightarrow>
       effect r (zs q k) (zs q' k) Map.empty \<and> (\<forall>j. j \<noteq> k \<longrightarrow> zs q' j = zs q j)"
begin

lemma popmin_others:
  assumes "zz_popmin Z q k = (r, q')" "j \<noteq> k"
  shows "zs q' j = zs q j"
  using assms popmin_ok popmin_failed by (cases r) fastforce+

lemma popmin_shrinks:
  assumes "zz_popmin Z q k = (r, q')"
  shows "zs q' k m = Some s \<Longrightarrow> zs q k m = Some s"
  using assms popmin_ok popmin_failed by (cases r) (fastforce split: if_splits)+

end

text \<open>The locks live beside the sets: a string command leaves every set at another key alone, and the set
  commands leave the strings alone.\<close>

locale redis_store = redis_kv K ent + redis_zset Z zs
  for K :: "'q kv_ops" and ent :: "'q \<Rightarrow> string \<Rightarrow> kv_entry option"
    and Z :: "'q zset_ops" and zs :: "'q \<Rightarrow> string \<Rightarrow> zset" +
  assumes setnx_frame: "kv_setnx K q now k v ttl = Inr (b, q') \<Longrightarrow> j \<noteq> k \<Longrightarrow> zs q' j = zs q j"
    and del_frame: "kv_del K q now k = Inr q' \<Longrightarrow> j \<noteq> k \<Longrightarrow> zs q' j = zs q j"
    and add_frame: "zz_add Z q k ms = (r, q') \<Longrightarrow> ent q' = ent q"
    and rem_frame: "zz_rem Z q k ms' = (r', q') \<Longrightarrow> ent q' = ent q"

section \<open>A server held in memory\<close>

text \<open>A set is kept as a list of members with their scores, the first entry of a member being the one that counts.\<close>

type_synonym mem_store = "mem_kv \<times> (string \<Rightarrow> redis_Z list)"

fun mem_least :: "redis_Z list \<Rightarrow> redis_Z option" where
  "mem_least [] = None"
| "mem_least ((m, s) # zs) = (case mem_least zs of
     None \<Rightarrow> Some (m, s)
   | Some (m', s') \<Rightarrow> (if s \<le> s' then Some (m, s) else Some (m', s')))"

definition mem_put :: "redis_Z list \<Rightarrow> redis_Z list \<Rightarrow> redis_Z list" where
  "mem_put ms z = fold (\<lambda>(m, s) z. AList.update m s z) ms z"

definition mem_zset_ops :: "mem_store zset_ops" where
  "mem_zset_ops = \<lparr>
     zz_popmin = (\<lambda>(kv, z) k. case mem_least (AList.clearjunk (z k)) of
        None \<Rightarrow> (Inr [], (kv, z))
      | Some (m, s) \<Rightarrow> (Inr [(m, s)], (kv, z(k := AList.delete m (z k))))),
     zz_add = (\<lambda>(kv, z) k ms. (Inr (), (kv, z(k := mem_put ms (z k))))),
     zz_score = (\<lambda>(kv, z) k m. case map_of (z k) m of None \<Rightarrow> Inl redis_Nil | Some s \<Rightarrow> Inr s),
     zz_rem = (\<lambda>(kv, z) k ms. (Inr (), (kv, z(k := filter (\<lambda>(m, s). m \<notin> set ms) (z k))))),
     zz_clear = (\<lambda>(kv, z) k. (Inr (), (kv, z(k := []))))\<rparr>"

definition on_kv :: "'a kv_ops \<Rightarrow> ('a \<times> 'z) kv_ops" where
  "on_kv K = \<lparr>
     kv_set = (\<lambda>(kv, z) now k v ttl. map_sum id (\<lambda>kv'. (kv', z)) (kv_set K kv now k v ttl)),
     kv_setnx = (\<lambda>(kv, z) now k v ttl. map_sum id (\<lambda>(b, kv'). (b, kv', z)) (kv_setnx K kv now k v ttl)),
     kv_get = (\<lambda>(kv, z). kv_get K kv),
     kv_expire = (\<lambda>(kv, z) now k ttl. map_sum id (\<lambda>(b, kv'). (b, kv', z)) (kv_expire K kv now k ttl)),
     kv_exists = (\<lambda>(kv, z). kv_exists K kv),
     kv_del = (\<lambda>(kv, z) now k. map_sum id (\<lambda>kv'. (kv', z)) (kv_del K kv now k))\<rparr>"

definition mem_zview :: "mem_store \<Rightarrow> string \<Rightarrow> zset" where
  "mem_zview q k = map_of (snd q k)"

lemma mem_least_None: "mem_least z = None \<longleftrightarrow> z = []"
  by (cases z) (auto split: option.splits)

lemma mem_least_Some: "mem_least z = Some (m, s) \<Longrightarrow> (m, s) \<in> set z \<and> (\<forall>(m', s') \<in> set z. s \<le> s')"
  by (induction z arbitrary: m s) (auto simp: mem_least_None split: option.splits if_splits, fastforce+)

lemma mem_put_view: "map_of (mem_put ms z) = zadd ms (map_of z)"
  by (induction ms arbitrary: z) (auto simp: mem_put_def zadd_def update_conv')

lemma map_of_drop: "map_of (filter (\<lambda>(m, s). m \<notin> M) z) = map_of z |` (- M)"
  by (induction z) (auto simp: fun_eq_iff restrict_map_def)


lemma mem_zleast:
  assumes "mem_least (AList.clearjunk z) = Some (m, s)"
  shows "zleast (map_of z) m s"
proof -
  have d: "distinct (map fst (AList.clearjunk z))" by simp
  have "map_of (AList.clearjunk z) m = Some s" using mem_least_Some [OF assms] d by simp
  moreover have "s \<le> s'" if "map_of z m' = Some s'" for m' s'
    using mem_least_Some [OF assms] map_of_SomeD [of "AList.clearjunk z" m' s'] that by (auto simp: map_of_clearjunk)
  ultimately show ?thesis by (simp add: zleast_def map_of_clearjunk)
qed

lemma clearjunk_Nil: "AList.clearjunk z = [] \<longleftrightarrow> z = []"
  by (cases z) auto

interpretation mem_store: redis_store "on_kv mem_kv_ops" fst mem_zset_ops mem_zview
proof (unfold_locales, goal_cases)
  case (8 q k ms q')
  then show ?case
    by (cases q)
      (auto simp: mem_zset_ops_def mem_zview_def mem_least_None clearjunk_Nil delete_conv' fun_eq_iff fun_upd_def
        dest!: mem_zleast split: option.splits)
next
  case (9 q k e q')
  then show ?case by (cases q) (auto simp: mem_zset_ops_def split: option.splits)
qed (auto simp: on_kv_def mem_kv_ops_def mem_zset_ops_def mem_zview_def mem_put_view map_of_drop map_sum_def
      split: option.splits if_splits prod.splits)

end
