(* ===== verification/Service_Pool.thy ===== *)
theory Service_Pool
  imports Redis_Zset
begin

text \<open>
  The pool of rented services: \<open>pool/redis.go\<close> and \<open>pool/pool.go\<close> (one sorted set per pool, a member per
  service slot, the score being the instant its lease ends), the locks of
  \<open>dbtools/redispool/redis_cache.go\<close> it uses, \<open>config/pool.go\<close>, \<open>lifecycle/retry.go\<close> and the manager of
  \<open>pool/svrpool\<close>. Other clients work on the same server: where a Go function issues several commands, an
  argument \<open>env\<close> gives what others do between them.
\<close>

section \<open>The locks of \<open>redispool\<close>\<close>

definition GetLock :: "'q kv_ops \<Rightarrow> gotime \<Rightarrow> string \<Rightarrow> duration \<Rightarrow> 'q \<Rightarrow> bool \<times> 'q" where
  "GetLock K now key expired q = (case kv_setnx K q now key ''1'' expired of
     Inl e \<Rightarrow> (False, q)
   | Inr (result, q') \<Rightarrow> (result, q'))"

text \<open>What a waiting client sees: per attempt, the clock and what others did before it.\<close>

type_synonym 'q schedule = "nat \<Rightarrow> gotime \<times> ('q \<Rightarrow> 'q)"

fun lock_tries :: "'q kv_ops \<Rightarrow> 'q schedule \<Rightarrow> string \<Rightarrow> duration \<Rightarrow> nat \<Rightarrow> 'q \<Rightarrow> unit res \<times> 'q" where
  "lock_tries K sched key expired 0 q = (Inl (Err ''lock failed''), q)"
| "lock_tries K sched key expired (Suc n) q =
     (case sched n of (now, env) \<Rightarrow>
        (case GetLock K now key expired (env q) of
           (got, q') \<Rightarrow> (if got then (Inr (), q') else lock_tries K sched key expired n q')))"

definition redispool_Lock :: "'q kv_ops \<Rightarrow> 'q schedule \<Rightarrow> string \<Rightarrow> duration \<Rightarrow> 'q \<Rightarrow> unit res \<times> 'q" where
  "redispool_Lock K sched key expired q = lock_tries K sched key expired 100 q"

definition UnLock :: "'q kv_ops \<Rightarrow> gotime \<Rightarrow> string \<Rightarrow> 'q \<Rightarrow> unit res \<times> 'q" where
  "UnLock K now key q = (case kv_del K q now key of Inl e \<Rightarrow> (Inl e, q) | Inr q' \<Rightarrow> (Inr (), q'))"

text \<open>\<open>LockWithTimeout\<close>, attempt by attempt; \<open>None\<close> while it is still waiting after the given ones. An attempt
  reads the clock again after it failed.\<close>

fun LockWithTimeout ::
  "'q kv_ops \<Rightarrow> gotime \<Rightarrow> (gotime \<times> gotime \<times> ('q \<Rightarrow> 'q)) list \<Rightarrow> string \<Rightarrow> duration \<Rightarrow> duration \<Rightarrow> 'q \<Rightarrow> bool option \<times> 'q" where
  "LockWithTimeout K start [] key expired timeout q = (None, q)"
| "LockWithTimeout K start ((now, after, env) # ts) key expired timeout q =
     (case GetLock K now key expired (env q) of
        (got, q') \<Rightarrow>
          (if got then (Some True, q')
           else if timeout < after - start then (Some False, q')
           else LockWithTimeout K start ts key expired timeout q'))"

section \<open>The pool\<close>

record ServiceInfo =
  si_Name :: string
  si_Cap :: int

record ServicePoolConfig =
  sc_Services :: "ServiceInfo list"
  sc_Expire :: duration
  sc_Version :: string

record RedisPool =
  rp_rdsKey :: string
  rp_conf :: ServicePoolConfig

definition zero_pool_conf :: ServicePoolConfig where
  "zero_pool_conf = \<lparr>sc_Services = [], sc_Expire = 0, sc_Version = []\<rparr>"

definition redisLock :: "string \<Rightarrow> string" where
  "redisLock key = key @ ''_lock''"

text \<open>The members of a configuration; the Go map is a list without repetition, in one order.\<close>

definition service_members :: "ServiceInfo \<Rightarrow> string list" where
  "service_members service = map (\<lambda>i. nat_digits i @ ''_'' @ si_Name service) [1..<nat (si_Cap service) + 1]"

definition generateMembers :: "ServiceInfo list \<Rightarrow> string list" where
  "generateMembers services = remdups (concat (map service_members services))"

definition diff :: "string list \<Rightarrow> string list \<Rightarrow> string list" where
  "diff source target = filter (\<lambda>m. m \<notin> set target) source"

text \<open>
  \<open>Acquire\<close> in its two commands: taking the least member out of the set, and putting it back with its old
  score (the pool is exhausted) or with the end of the new lease. The clock was read before both.
\<close>

definition ErrNoService :: "RedisPool \<Rightarrow> gerror" where
  "ErrNoService rp = Err (''no service '' @ rp_rdsKey rp)"

definition acquire_pop :: "'q zset_ops \<Rightarrow> RedisPool \<Rightarrow> 'q \<Rightarrow> redis_Z res \<times> 'q" where
  "acquire_pop Z rp q = (case zz_popmin Z q (rp_rdsKey rp) of
     (Inl e, q') \<Rightarrow> (Inl e, q')
   | (Inr [], q') \<Rightarrow> (Inl (ErrNoService rp), q')
   | (Inr (m # _), q') \<Rightarrow> (Inr m, q'))"

definition acquire_put :: "'q zset_ops \<Rightarrow> RedisPool \<Rightarrow> gotime \<Rightarrow> redis_Z \<Rightarrow> 'q \<Rightarrow> redis_Z res \<times> 'q" where
  "acquire_put Z rp now m q =
     (let nowNano = float64_of_int now; futureNano = float64_of_int (now + sc_Expire (rp_conf rp))
      in if nowNano < snd m
         then (case zz_add Z q (rp_rdsKey rp) [m] of
                 (Inl e, q') \<Rightarrow> (Inl e, q') | (Inr _, q') \<Rightarrow> (Inl (ErrNoService rp), q'))
         else (case zz_add Z q (rp_rdsKey rp) [(fst m, futureNano)] of
                 (Inl e, q') \<Rightarrow> (Inl e, q') | (Inr _, q') \<Rightarrow> (Inr (fst m, futureNano), q')))"

definition Acquire :: "'q zset_ops \<Rightarrow> RedisPool \<Rightarrow> gotime \<Rightarrow> ('q \<Rightarrow> 'q) \<Rightarrow> 'q \<Rightarrow> redis_Z res \<times> 'q" where
  "Acquire Z rp now env q = (case acquire_pop Z rp q of
     (Inl e, q') \<Rightarrow> (Inl e, q')
   | (Inr m, q') \<Rightarrow> acquire_put Z rp now m (env q'))"

text \<open>
  \<open>Release\<close>: one attempt is a WATCH (its result given), ZSCORE and, when the score is the caller's, a ZADD
  sent as a plain pipeline; \<open>env\<close> is what others do between the two. The caller's value is changed too. The
  loop repeats on a failed transaction; \<open>None\<close> when the given attempts do not end it.
\<close>

definition TxFailedErr :: gerror where
  "TxFailedErr = Err ''redis: transaction failed''"

definition release_attempt ::
  "'q zset_ops \<Rightarrow> RedisPool \<Rightarrow> unit res \<Rightarrow> ('q \<Rightarrow> 'q) \<Rightarrow> redis_Z \<Rightarrow> 'q \<Rightarrow> unit res \<times> redis_Z \<times> 'q" where
  "release_attempt Z rp watch env rz q = (case watch of
     Inl e \<Rightarrow> (Inl e, rz, q)
   | Inr _ \<Rightarrow> (case zz_score Z q (rp_rdsKey rp) (fst rz) of
       Inl e \<Rightarrow> (Inl (if e = redis_Nil then Err (''member does not exist.'' @ err_text e) else e), rz, q)
     | Inr score \<Rightarrow>
         (if score = snd rz
          then (case zz_add Z (env q) (rp_rdsKey rp) [(fst rz, 0)] of (r, q') \<Rightarrow> (r, (fst rz, 0), q'))
          else (Inr (), rz, q))))"

fun Release ::
  "'q zset_ops \<Rightarrow> RedisPool \<Rightarrow> (unit res \<times> ('q \<Rightarrow> 'q)) list \<Rightarrow> redis_Z \<Rightarrow> 'q \<Rightarrow> unit res option \<times> redis_Z \<times> 'q" where
  "Release Z rp [] rz q = (None, rz, q)"
| "Release Z rp ((watch, env) # attempts) rz q =
     (case release_attempt Z rp watch env rz q of
        (r, rz', q') \<Rightarrow> (if r = Inl TxFailedErr then Release Z rp attempts rz' q' else (Some r, rz', q')))"

text \<open>\<open>strings.SplitN(data, "_", 2)\<close>: what follows the first underscore, if there is one.\<close>

definition after_underscore :: "string \<Rightarrow> string option" where
  "after_underscore data = (case dropWhile (\<lambda>c. c \<noteq> CHR ''_'') data of [] \<Rightarrow> None | _ # rest \<Rightarrow> Some rest)"

definition AcquireString :: "'q zset_ops \<Rightarrow> RedisPool \<Rightarrow> gotime \<Rightarrow> ('q \<Rightarrow> 'q) \<Rightarrow> 'q \<Rightarrow> (string \<times> string) res \<times> 'q" where
  "AcquireString Z rp now env q = (case Acquire Z rp now env q of
     (Inl e, q') \<Rightarrow> (Inl e, q')
   | (Inr rz, q') \<Rightarrow> (case after_underscore (fst rz) of
       Some name \<Rightarrow> (Inr (fst rz, name), q')
     | None \<Rightarrow> (Inl (Err (''split key encoding failed: '' @ fst rz)), q')))"

text \<open>\<open>ReleaseString\<close>: \<open>unmarshal\<close> is \<open>json.Unmarshal\<close> into a \<open>redis.Z\<close> that starts as the given value.\<close>

definition ReleaseString ::
  "(string \<Rightarrow> redis_Z \<Rightarrow> redis_Z res) \<Rightarrow> 'q zset_ops \<Rightarrow> RedisPool \<Rightarrow> (unit res \<times> ('q \<Rightarrow> 'q)) list \<Rightarrow> string \<Rightarrow> 'q \<Rightarrow> unit res option \<times> 'q" where
  "ReleaseString unmarshal Z rp attempts i q = (case unmarshal i (i, 0) of
     Inl e \<Rightarrow> (Some (Inl e), q)
   | Inr rz \<Rightarrow> (case Release Z rp attempts rz q of (r, _, q') \<Rightarrow> (r, q')))"

definition Clear :: "'q zset_ops \<Rightarrow> RedisPool \<Rightarrow> 'q \<Rightarrow> 'q" where
  "Clear Z rp q = snd (zz_clear Z q (rp_rdsKey rp))"

text \<open>
  \<open>RefreshConfig\<close>: the lock, then the additions and the removals. The deferred unlock runs on every path that
  took the lock, after the explicit one on the successful path. The result is the pool with its new
  configuration, or the old one.
\<close>

definition refresh_members :: "'q zset_ops \<Rightarrow> string \<Rightarrow> string list \<Rightarrow> string list \<Rightarrow> 'q \<Rightarrow> unit res \<times> 'q" where
  "refresh_members Z key membersToAdd membersToRemove q =
     (case (if membersToAdd = [] then (Inr (), q) else zz_add Z q key (map (\<lambda>m. (m, 0)) membersToAdd)) of
        (Inl e, q1) \<Rightarrow> (Inl (Wrapf ''failed to add members'' e), q1)
      | (Inr _, q1) \<Rightarrow>
          (case (if membersToRemove = [] then (Inr (), q1) else zz_rem Z q1 key membersToRemove) of
             (Inl e, q2) \<Rightarrow> (Inl (Wrapf ''failed to remove members'' e), q2)
           | (Inr _, q2) \<Rightarrow> (Inr (), q2)))"

definition RefreshConfig ::
  "'q kv_ops \<Rightarrow> 'q zset_ops \<Rightarrow> 'q schedule \<Rightarrow> gotime \<Rightarrow> ServicePoolConfig \<Rightarrow> RedisPool \<Rightarrow> 'q \<Rightarrow> unit res \<times> RedisPool \<times> 'q" where
  "RefreshConfig K Z sched now newConf rp q =
     (let oldMembers = generateMembers (sc_Services (rp_conf rp));
          newMembers = generateMembers (sc_Services newConf);
          membersToAdd = diff newMembers oldMembers;
          membersToRemove = diff oldMembers newMembers;
          lock = redisLock (rp_rdsKey rp)
      in case redispool_Lock K sched lock (5 * time_Second) q of
           (Inl e, q1) \<Rightarrow> (Inl e, rp, q1)
         | (Inr _, q1) \<Rightarrow>
             (case refresh_members Z (rp_rdsKey rp) membersToAdd membersToRemove q1 of
                (Inl e, q2) \<Rightarrow> (Inl e, rp, snd (UnLock K now lock q2))
              | (Inr _, q2) \<Rightarrow>
                  (Inr (), rp\<lparr>rp_conf := newConf\<rparr>, snd (UnLock K now lock (snd (UnLock K now lock q2))))))"

text \<open>\<open>NewRedisPool\<close> panics when the first refresh fails.\<close>

definition NewRedisPool ::
  "'q kv_ops \<Rightarrow> 'q zset_ops \<Rightarrow> 'q schedule \<Rightarrow> gotime \<Rightarrow> string \<Rightarrow> ServicePoolConfig \<Rightarrow> 'q \<Rightarrow> RedisPool option \<times> 'q" where
  "NewRedisPool K Z sched now rdsKey conf q =
     (case RefreshConfig K Z sched now conf \<lparr>rp_rdsKey = rdsKey, rp_conf = zero_pool_conf\<rparr> q of
        (Inl e, _, q') \<Rightarrow> (None, q')
      | (Inr _, rp, q') \<Rightarrow> (Some rp, q'))"


section \<open>The manager of \<open>svrpool\<close>\<close>

text \<open>
  \<open>Retry\<close>: the function is called with the number of the attempt and gives whether to go on and the error
  (\<open>None\<close> for nil); it may panic. No attempt at all gives a nil error.
\<close>

fun Retry :: "nat \<Rightarrow> nat \<Rightarrow> (nat \<Rightarrow> 's \<Rightarrow> ((bool \<times> gerror option) \<times> 's) option) \<Rightarrow> gerror option \<Rightarrow> 's \<Rightarrow> (gerror option \<times> 's) option" where
  "Retry i 0 fn err s = Some (err, s)"
| "Retry i (Suc n) fn err s = (case fn i s of
     None \<Rightarrow> None
   | Some ((needContinue, err'), s') \<Rightarrow> (if \<not> needContinue then Some (err', s') else Retry (Suc i) n fn err' s'))"

record ServicePool =
  sp_pool :: RedisPool
  sp_settingGroup :: string
  sp_settingKey :: string
  sp_conf :: ServicePoolConfig

text \<open>The registered pools: no map before the first registration; an entry may be a nil pointer.\<close>

record PoolManager =
  pm_svrs :: "(string \<rightharpoonup> ServicePool option) option"

definition svrPoolRdsKey :: "string \<Rightarrow> string" where
  "svrPoolRdsKey key = ''svrpool:'' @ key"

type_synonym get_yaml = "string \<Rightarrow> string \<Rightarrow> ServicePoolConfig res"

text \<open>\<open>NewServicePool\<close>: nil when the settings cannot be read (inner \<open>None\<close>); a panic of the pool is the outer one.\<close>

definition NewServicePool ::
  "get_yaml \<Rightarrow> 'q kv_ops \<Rightarrow> 'q zset_ops \<Rightarrow> 'q schedule \<Rightarrow> gotime \<Rightarrow> string \<Rightarrow> string \<Rightarrow> 'q \<Rightarrow> ServicePool option option \<times> 'q" where
  "NewServicePool getYaml K Z sched now grp key q = (case getYaml grp key of
     Inl e \<Rightarrow> (Some None, q)
   | Inr conf \<Rightarrow> (case NewRedisPool K Z sched now (svrPoolRdsKey key) conf q of
       (None, q') \<Rightarrow> (None, q')
     | (Some rp, q') \<Rightarrow> (Some (Some \<lparr>sp_pool = rp, sp_settingGroup = grp, sp_settingKey = key, sp_conf = conf\<rparr>), q')))"

definition RegistryServicePool ::
  "get_yaml \<Rightarrow> 'q kv_ops \<Rightarrow> 'q zset_ops \<Rightarrow> 'q schedule \<Rightarrow> gotime \<Rightarrow> string \<Rightarrow> string \<Rightarrow> PoolManager \<Rightarrow> 'q \<Rightarrow> PoolManager option \<times> 'q" where
  "RegistryServicePool getYaml K Z sched now grp key pm q =
     (let svrs = (case pm_svrs pm of None \<Rightarrow> Map.empty | Some m \<Rightarrow> m)
      in if svrs key \<noteq> None then (Some (pm\<lparr>pm_svrs := Some svrs\<rparr>), q)
         else case NewServicePool getYaml K Z sched now grp key q of
           (None, q') \<Rightarrow> (None, q')
         | (Some sp, q') \<Rightarrow> (Some (pm\<lparr>pm_svrs := Some (svrs(key \<mapsto> sp))\<rparr>), q'))"

text \<open>One attempt of \<open>AcquireService\<close>; its state is the identifiers found so far and the server.\<close>

definition acquire_attempt ::
  "'q zset_ops \<Rightarrow> (nat \<Rightarrow> gotime \<times> ('q \<Rightarrow> 'q)) \<Rightarrow> PoolManager \<Rightarrow> string \<Rightarrow> nat \<Rightarrow> (string \<times> string) \<times> 'q \<Rightarrow>
     ((bool \<times> gerror option) \<times> ((string \<times> string) \<times> 'q)) option" where
  "acquire_attempt Z clock pm key i s = (case pm_svrs pm of
     None \<Rightarrow> Some ((True, Some (Err ''svrpool not init'')), s)
   | Some svrs \<Rightarrow> (case svrs key of
       None \<Rightarrow> Some ((True, Some (Err (''svr '' @ key @ '' not registered''))), s)
     | Some None \<Rightarrow> None
     | Some (Some sp) \<Rightarrow> (case AcquireString Z (sp_pool sp) (fst (clock i)) (snd (clock i)) (snd s) of
         (Inl e, q') \<Rightarrow> Some ((True, Some e), (([], []), q'))
       | (Inr r, q') \<Rightarrow> Some ((False, None), (r, q')))))"

definition pm_AcquireService ::
  "'q zset_ops \<Rightarrow> (nat \<Rightarrow> gotime \<times> ('q \<Rightarrow> 'q)) \<Rightarrow> PoolManager \<Rightarrow> string \<Rightarrow> int \<Rightarrow> 'q \<Rightarrow> (string \<times> string \<times> gerror option \<times> 'q) option" where
  "pm_AcquireService Z clock pm key retryTimes q =
     (case Retry 0 (nat retryTimes) (acquire_attempt Z clock pm key) None (([], []), q) of
        None \<Rightarrow> None
      | Some (err, ((i, svr), q')) \<Rightarrow> Some (i, svr, err, q'))"

definition pm_ReleaseService ::
  "(string \<Rightarrow> redis_Z \<Rightarrow> redis_Z res) \<Rightarrow> 'q zset_ops \<Rightarrow> (unit res \<times> ('q \<Rightarrow> 'q)) list \<Rightarrow> PoolManager \<Rightarrow> string \<Rightarrow> string \<Rightarrow> 'q \<Rightarrow> 'q option" where
  "pm_ReleaseService unmarshal Z attempts pm key i q = (case pm_svrs pm of
     None \<Rightarrow> Some q
   | Some svrs \<Rightarrow> (case svrs key of
       None \<Rightarrow> Some q
     | Some None \<Rightarrow> None
     | Some (Some sp) \<Rightarrow> Some (snd (ReleaseString unmarshal Z (sp_pool sp) attempts i q))))"

definition loadSetting :: "get_yaml \<Rightarrow> string \<Rightarrow> string \<Rightarrow> ServicePoolConfig res" where
  "loadSetting getYaml grp key = getYaml grp key"

definition refreshSetting ::
  "get_yaml \<Rightarrow> 'q kv_ops \<Rightarrow> 'q zset_ops \<Rightarrow> 'q schedule \<Rightarrow> gotime \<Rightarrow> ServicePool \<Rightarrow> 'q \<Rightarrow> ServicePool \<times> 'q" where
  "refreshSetting getYaml K Z sched now s q = (case loadSetting getYaml (sp_settingGroup s) (sp_settingKey s) of
     Inl e \<Rightarrow> (s, q)
   | Inr conf \<Rightarrow>
       (if conf = sp_conf s then (s, q)
        else case RefreshConfig K Z sched now conf (sp_pool s) q of
          (_, rp, q') \<Rightarrow> (s\<lparr>sp_pool := rp, sp_conf := conf\<rparr>, q')))"

text \<open>The refreshing goroutine of a key, one round; it panics on a nil pool.\<close>

definition refresh_round ::
  "get_yaml \<Rightarrow> 'q kv_ops \<Rightarrow> 'q zset_ops \<Rightarrow> 'q schedule \<Rightarrow> gotime \<Rightarrow> string \<Rightarrow> PoolManager \<Rightarrow> 'q \<Rightarrow> (PoolManager \<times> 'q) option" where
  "refresh_round getYaml K Z sched now key pm q = (case pm_svrs pm of
     Some svrs \<Rightarrow> (case svrs key of
       Some (Some sp) \<Rightarrow> (case refreshSetting getYaml K Z sched now sp q of
          (sp', q') \<Rightarrow> Some (pm\<lparr>pm_svrs := Some (svrs(key \<mapsto> Some sp'))\<rparr>, q'))
     | _ \<Rightarrow> None)
   | None \<Rightarrow> None)"

text \<open>The package-level functions: a manager is made on the first registration.\<close>

definition svrpool_RegistryServicePool ::
  "get_yaml \<Rightarrow> 'q kv_ops \<Rightarrow> 'q zset_ops \<Rightarrow> 'q schedule \<Rightarrow> gotime \<Rightarrow> string \<Rightarrow> string \<Rightarrow> PoolManager option \<Rightarrow> 'q \<Rightarrow> PoolManager option \<times> 'q" where
  "svrpool_RegistryServicePool getYaml K Z sched now grp key std q =
     RegistryServicePool getYaml K Z sched now grp key (case std of None \<Rightarrow> \<lparr>pm_svrs = None\<rparr> | Some pm \<Rightarrow> pm) q"

definition AcquireService ::
  "'q zset_ops \<Rightarrow> (nat \<Rightarrow> gotime \<times> ('q \<Rightarrow> 'q)) \<Rightarrow> PoolManager option \<Rightarrow> string \<Rightarrow> int \<Rightarrow> 'q \<Rightarrow> (string \<times> string \<times> gerror option \<times> 'q) option" where
  "AcquireService Z clock std key retryTimes q = (case std of
     None \<Rightarrow> Some ([], [], Some (Err ''svrpool not init''), q)
   | Some pm \<Rightarrow> pm_AcquireService Z clock pm key retryTimes q)"

definition ReleaseService ::
  "(string \<Rightarrow> redis_Z \<Rightarrow> redis_Z res) \<Rightarrow> 'q zset_ops \<Rightarrow> (unit res \<times> ('q \<Rightarrow> 'q)) list \<Rightarrow> PoolManager option \<Rightarrow> string \<Rightarrow> string \<Rightarrow> 'q \<Rightarrow> 'q option" where
  "ReleaseService unmarshal Z attempts std key i q = (case std of
     None \<Rightarrow> Some q
   | Some pm \<Rightarrow> pm_ReleaseService unmarshal Z attempts pm key i q)"

end
