(* ===== verification/Service_Pool_Correct.thy ===== *)
theory Service_Pool_Correct
  imports Service_Pool
begin

text \<open>
  Properties of the service pool: what one \<open>Acquire\<close> does, that a service is never rented twice at the same
  time as long as releases are atomic, that the code's release is not, what a refresh of the configuration
  does to the members, and that releasing by identifier has no effect.
\<close>

section \<open>One call\<close>

lemma redisLock_neq [simp]: "redisLock key \<noteq> key" "key \<noteq> redisLock key"
  by (simp_all add: redisLock_def)

text \<open>The score a popped member is put back with.\<close>

abbreviation put_score :: "RedisPool \<Rightarrow> gotime \<Rightarrow> int \<Rightarrow> int" where
  "put_score rp now s \<equiv> (if float64_of_int now < s then s else float64_of_int (now + sc_Expire (rp_conf rp)))"

context redis_zset
begin

lemma acquire_pop_cases:
  assumes "acquire_pop Z rp q = (r, q')"
  obtains m s where "r = Inr (m, s)" "zleast (zs q (rp_rdsKey rp)) m s" "zs q' = (zs q)(rp_rdsKey rp := (zs q (rp_rdsKey rp))(m := None))"
  | e where "r = Inl e" "e = ErrNoService rp" "zs q (rp_rdsKey rp) = Map.empty" "zs q' = zs q"
  | e where "r = Inl e" "zs q' = zs q \<or> (\<exists>m. zs q' = (zs q)(rp_rdsKey rp := (zs q (rp_rdsKey rp))(m := None)))"
proof (cases "zz_popmin Z q (rp_rdsKey rp)")
  case (Pair p q1)
  show ?thesis
  proof (cases p)
    case (Inl e)
    then show ?thesis using assms Pair popmin_failed [of q "rp_rdsKey rp" e q1] that(3) by (auto simp: acquire_pop_def)
  next
    case (Inr ms)
    then have "zz_popmin Z q (rp_rdsKey rp) = (Inr ms, q1)" using Pair by simp
    from popmin_ok [OF this] show ?thesis
    proof (elim disjE exE conjE)
      assume "ms = []" "zs q (rp_rdsKey rp) = Map.empty" "zs q1 = zs q"
      then show ?thesis using assms Pair Inr that(2) by (simp add: acquire_pop_def)
    next
      fix m s assume "ms = [(m, s)]" "zleast (zs q (rp_rdsKey rp)) m s" "zs q1 = (zs q)(rp_rdsKey rp := (zs q (rp_rdsKey rp))(m := None))"
      then show ?thesis using assms Pair Inr that(1) [of m s] by (auto simp: acquire_pop_def)
    qed
  qed
qed

lemma acquire_put_effect:
  assumes "acquire_put Z rp now (m, s) q = (r, q')"
  shows "(zs q' (rp_rdsKey rp) = zs q (rp_rdsKey rp) \<and> (\<exists>e. r = Inl e) \<or> zs q' (rp_rdsKey rp) = (zs q (rp_rdsKey rp))(m \<mapsto> put_score rp now s)) \<and>
    (\<forall>j. j \<noteq> rp_rdsKey rp \<longrightarrow> zs q' j = zs q j) \<and>
    (\<forall>rz. r = Inr rz \<longrightarrow> \<not> float64_of_int now < s \<and> rz = (m, put_score rp now s) \<and> zs q' (rp_rdsKey rp) = (zs q (rp_rdsKey rp))(m \<mapsto> snd rz))"
proof (cases "zz_add Z q (rp_rdsKey rp) [(m, put_score rp now s)]")
  case (Pair p q1)
  show ?thesis using assms Pair add_ok [OF Pair]
    by (cases p) (auto simp: acquire_put_def Let_def split: if_splits)
qed

end

section \<open>Leases\<close>

text \<open>
  Runs of any number of clients, each with its own pool object on the same key, as a log of events that
  grows from the head. A step is one command of an \<open>Acquire\<close> (the pop, with the clock reading \<open>now\<close> taken
  before it, or the put), or a whole release attempt with nobody in between. \<open>pend c\<close> is what client \<open>c\<close>
  has popped and not yet put back. Any command may fail.
\<close>

datatype pool_event = Granted string string gotime int | Released string int

definition frees :: "'q zset_ops \<Rightarrow> RedisPool \<Rightarrow> unit res \<Rightarrow> redis_Z \<Rightarrow> 'q \<Rightarrow> bool" where
  "frees Z rp watch rz q = (watch = Inr () \<and> zz_score Z q (rp_rdsKey rp) (fst rz) = Inr (snd rz))"

inductive pool_run ::
  "'q zset_ops \<Rightarrow> (string \<Rightarrow> RedisPool) \<Rightarrow> pool_event list \<Rightarrow> (string \<rightharpoonup> redis_Z \<times> gotime) \<Rightarrow> 'q \<Rightarrow> bool" for Z pools where
  start: "pool_run Z pools [] Map.empty q"
| pop: "pool_run Z pools log pend q \<Longrightarrow> pend c = None \<Longrightarrow> acquire_pop Z (pools c) q = (Inr m, q') \<Longrightarrow>
    pool_run Z pools log (pend(c \<mapsto> (m, now))) q'"
| pop_failed: "pool_run Z pools log pend q \<Longrightarrow> acquire_pop Z (pools c) q = (Inl e, q') \<Longrightarrow> pool_run Z pools log pend q'"
| put: "pool_run Z pools log pend q \<Longrightarrow> pend c = Some (m, now) \<Longrightarrow> acquire_put Z (pools c) now m q = (Inr rz, q') \<Longrightarrow>
    pool_run Z pools (Granted c (fst rz) now (snd rz) # log) (pend(c := None)) q'"
| put_failed: "pool_run Z pools log pend q \<Longrightarrow> pend c = Some (m, now) \<Longrightarrow> acquire_put Z (pools c) now m q = (Inl e, q') \<Longrightarrow>
    pool_run Z pools log (pend(c := None)) q'"
| release: "pool_run Z pools log pend q \<Longrightarrow> release_attempt Z (pools c) watch id rz q = (r, rz', q') \<Longrightarrow>
    pool_run Z pools (if frees Z (pools c) watch rz q then Released (fst rz) (snd rz) # log else log) pend q'"

text \<open>The end of the lease on a member that is still held according to a log, and when grants respect it.\<close>

fun held :: "string \<Rightarrow> pool_event list \<Rightarrow> int option" where
  "held m [] = None"
| "held m (Granted c m' t e # log) = (if m' = m then Some e else held m log)"
| "held m (Released m' s # log) = (case held m log of
     None \<Rightarrow> None | Some e \<Rightarrow> (if m' = m \<and> e \<le> s then None else Some e))"

fun spaced :: "pool_event list \<Rightarrow> bool" where
  "spaced [] = True"
| "spaced (Granted c m t e # log) = (spaced log \<and> (case held m log of None \<Rightarrow> True | Some e' \<Rightarrow> e' \<le> float64_of_int t))"
| "spaced (Released m s # log) = spaced log"

definition lease_inv :: "pool_event list \<Rightarrow> (string \<rightharpoonup> redis_Z \<times> gotime) \<Rightarrow> zset \<Rightarrow> bool" where
  "lease_inv log pend z = (
     (\<forall>c m s t. pend c = Some ((m, s), t) \<longrightarrow> z m = None \<and> (\<forall>e. held m log = Some e \<longrightarrow> e \<le> s)) \<and>
     (\<forall>c c' m s s' t t'. pend c = Some ((m, s), t) \<longrightarrow> pend c' = Some ((m, s'), t') \<longrightarrow> c = c') \<and>
     (\<forall>m s e. z m = Some s \<longrightarrow> held m log = Some e \<longrightarrow> e \<le> s))"

lemma lease_invI:
  assumes "\<And>c m s t. pend c = Some ((m, s), t) \<Longrightarrow> z m = None"
    and "\<And>c m s t e. pend c = Some ((m, s), t) \<Longrightarrow> held m log = Some e \<Longrightarrow> e \<le> s"
    and "\<And>c c' m s s' t t'. pend c = Some ((m, s), t) \<Longrightarrow> pend c' = Some ((m, s'), t') \<Longrightarrow> c = c'"
    and "\<And>m s e. z m = Some s \<Longrightarrow> held m log = Some e \<Longrightarrow> e \<le> s"
  shows "lease_inv log pend z"
  unfolding lease_inv_def using assms by blast

lemma lease_invD:
  assumes "lease_inv log pend z"
  shows "pend c = Some ((m, s), t) \<Longrightarrow> z m = None"
    and "pend c = Some ((m, s), t) \<Longrightarrow> held m log = Some e \<Longrightarrow> e \<le> s"
    and "pend c = Some ((m, s), t) \<Longrightarrow> pend c' = Some ((m, s'), t') \<Longrightarrow> c = c'"
    and "z m = Some s \<Longrightarrow> held m log = Some e \<Longrightarrow> e \<le> s"
  using assms unfolding lease_inv_def by blast+

lemma lease_inv_less:
  assumes "lease_inv log pend z" "\<And>m s. z' m = Some s \<Longrightarrow> z m = Some s"
  shows "lease_inv log pend z'"
proof (rule lease_invI)
  show "z' m = None" if "pend c = Some ((m, s), t)" for c m s t
    using lease_invD(1) [OF assms(1) that] assms(2) [of m] by (cases "z' m") auto
qed (use assms in \<open>auto dest: lease_invD\<close>)

lemma lease_inv_pop:
  assumes inv: "lease_inv log pend z" and "pend c = None" and m: "z m = Some s"
  shows "lease_inv log (pend(c \<mapsto> ((m, s), t))) (z(m := None))"
proof (rule lease_invI)
  have other: "m' \<noteq> m" if "pend c' = Some ((m', s1), t1)" for c' m' s1 t1
    using lease_invD(1) [OF inv that] m by auto
  show "(z(m := None)) m' = None" if "(pend(c \<mapsto> ((m, s), t))) c' = Some ((m', s1), t1)" for c' m' s1 t1
    using that lease_invD(1) [OF inv] by (auto split: if_splits)
  show "c1 = c2" if "(pend(c \<mapsto> ((m, s), t))) c1 = Some ((m', s1), t1)" "(pend(c \<mapsto> ((m, s), t))) c2 = Some ((m', s2), t2)"
    for c1 c2 m' s1 s2 t1 t2
    using that other lease_invD(3) [OF inv] by (auto split: if_splits)
qed (use m in \<open>auto dest: lease_invD [OF inv] split: if_splits\<close>)

lemma lease_inv_done: "lease_inv log pend z \<Longrightarrow> lease_inv log (pend(c := None)) z"
  by (rule lease_invI) (auto dest: lease_invD split: if_splits)

lemma lease_inv_put:
  assumes inv: "lease_inv log pend z" and p: "pend c = Some ((m, s), t)" and log': "\<And>m'. m' \<noteq> m \<Longrightarrow> held m' log' = held m' log"
    and s': "\<And>e. held m log' = Some e \<Longrightarrow> e \<le> s'"
  shows "lease_inv log' (pend(c := None)) (z(m \<mapsto> s'))"
proof (rule lease_invI)
  have other: "m' \<noteq> m" if "(pend(c := None)) c' = Some ((m', s1), t1)" for c' m' s1 t1
    using that p lease_invD(3) [OF inv, of c' m s1 t1 c s t] by (auto split: if_splits)
  show "(z(m \<mapsto> s')) m' = None" "held m' log' = Some e \<Longrightarrow> e \<le> s1"
    if at: "(pend(c := None)) c' = Some ((m', s1), t1)" for c' m' s1 t1 e
    using at other [OF at] lease_invD(1,2) [OF inv, of c' m' s1 t1] log' [of m'] by (auto split: if_splits)
  show "c1 = c2" if "(pend(c := None)) c1 = Some ((m', s1), t1)" "(pend(c := None)) c2 = Some ((m', s2), t2)"
    for c1 c2 m' s1 s2 t1 t2
    using that lease_invD(3) [OF inv] by (auto split: if_splits)
  show "e \<le> s1" if "(z(m \<mapsto> s')) m' = Some s1" "held m' log' = Some e" for m' s1 e
    using that s' log' [of m'] lease_invD(4) [OF inv, of m' s1 e] by (auto split: if_splits)
qed

lemma lease_inv_release:
  assumes inv: "lease_inv log pend z" and m: "z m = Some s" and z': "z' = z \<or> z' = z(m \<mapsto> 0)"
  shows "lease_inv (Released m s # log) pend z'"
proof (rule lease_invI)
  have none: "held m (Released m s # log) = None"
    using lease_invD(4) [OF inv m] by (auto split: option.splits)
  have held: "held m' (Released m s # log) = Some e \<Longrightarrow> held m' log = Some e \<and> m' \<noteq> m" for m' e
    using none by (cases "m' = m") (auto split: option.splits if_splits)
  show "z' m' = None" if "pend c = Some ((m', s1), t)" for c m' s1 t
    using lease_invD(1) [OF inv that] m z' by auto
  show "e \<le> s1" if "pend c = Some ((m', s1), t)" "held m' (Released m s # log) = Some e" for c m' s1 t e
    using lease_invD(2) [OF inv that(1)] held [OF that(2)] by simp
  show "e \<le> s1" if "z' m' = Some s1" "held m' (Released m s # log) = Some e" for m' s1 e
    using that z' held [OF that(2)] lease_invD(4) [OF inv] by (auto split: if_splits)
qed (auto dest: lease_invD [OF inv])

context redis_zset
begin

lemma put_score_ge:
  assumes "0 \<le> sc_Expire (rp_conf rp)"
  shows "s \<le> put_score rp now s"
proof -
  have "float64_of_int now \<le> float64_of_int (now + sc_Expire (rp_conf rp))"
    using assms by (intro float64_of_int_mono) simp
  then show ?thesis by auto
qed

lemma release_attempt_effect:
  assumes "release_attempt Z rp watch id rz q = (r, rz', q')"
  shows "if frees Z rp watch rz q then zs q (rp_rdsKey rp) (fst rz) = Some (snd rz) \<and>
       (zs q' (rp_rdsKey rp) = zs q (rp_rdsKey rp) \<or> zs q' (rp_rdsKey rp) = (zs q (rp_rdsKey rp))(fst rz \<mapsto> 0))
     else q' = q"
proof (cases "frees Z rp watch rz q")
  case True
  then have sc: "watch = Inr ()" "zz_score Z q (rp_rdsKey rp) (fst rz) = Inr (snd rz)" by (simp_all add: frees_def)
  obtain p q1 where a: "zz_add Z q (rp_rdsKey rp) [(fst rz, 0)] = (p, q1)" by fastforce
  have "q' = q1" using assms sc a by (simp add: release_attempt_def)
  then show ?thesis using True score_ok [OF sc(2)] add_ok [OF a] by (cases p) auto
next
  case False
  then show ?thesis using assms by (auto simp: release_attempt_def frees_def split: sum.splits if_splits)
qed

lemma pool_run_spaced:
  assumes "pool_run Z pools log pend q" and pools: "\<And>c. rp_rdsKey (pools c) = key" "\<And>c. 0 \<le> sc_Expire (rp_conf (pools c))"
  shows "lease_inv log pend (zs q key) \<and> spaced log"
  using assms(1)
proof (induction rule: pool_run.induct)
  case (start q)
  then show ?case by (simp add: lease_inv_def)
next
  case (pop log pend q c m q' now)
  show ?case using acquire_pop_cases [OF pop.hyps(3)]
  proof cases
    case (1 m' s)
    then have "zs q key m' = Some s" "zs q' key = (zs q key)(m' := None)" by (simp_all add: zleast_def pools)
    then show ?thesis using 1(1) pop.hyps(2) pop.IH lease_inv_pop [of log pend "zs q key" c m' s now] by (auto simp: fun_upd_def)
  qed auto
next
  case (pop_failed log pend q c e q')
  have "zs q' key m = Some s \<Longrightarrow> zs q key m = Some s" for m s
    using acquire_pop_cases [OF pop_failed.hyps(2)] by cases (auto simp: pools split: if_splits)
  then show ?case using pop_failed.IH lease_inv_less by blast
next
  case (put log pend q c m now rz q')
  obtain m' s where m: "m = (m', s)" by fastforce
  note e = acquire_put_effect [OF put.hyps(3) [unfolded m], unfolded pools]
  have rz: "rz = (m', put_score (pools c) now s)" "s \<le> float64_of_int now" "zs q' key = (zs q key)(m' \<mapsto> snd rz)" using e by auto
  have held: "e \<le> s" if "held m' log = Some e" for e
    using put.IH lease_invD(2) [of log pend "zs q key" c m' s now e] put.hyps(2) that m by simp
  have "lease_inv (Granted c m' now (snd rz) # log) (pend(c := None)) ((zs q key)(m' \<mapsto> snd rz))"
    using put.IH put.hyps(2) m by (intro lease_inv_put [where s = s and t = now]) auto
  moreover have "spaced (Granted c m' now (snd rz) # log)"
    using put.IH rz(2) held by (auto split: option.splits intro: order_trans)
  moreover have "fst rz = m'" using rz(1) by simp
  ultimately show ?case using rz(3) by (simp add: fun_upd_def)
next
  case (put_failed log pend q c m now e q')
  obtain m' s where m: "m = (m', s)" by fastforce
  have "lease_inv log (pend(c := None)) ((zs q key)(m' \<mapsto> put_score (pools c) now s))"
  proof (rule lease_inv_put [where s = s and t = now])
    show "e \<le> put_score (pools c) now s" if "held m' log = Some e" for e
      using put_failed.IH lease_invD(2) [of log pend "zs q key" c m' s now e] put_failed.hyps(2) that m
        put_score_ge [OF pools(2) [of c], of s now] by simp
  qed (use put_failed m in auto)
  then show ?case
    using acquire_put_effect [OF put_failed.hyps(3) [unfolded m], unfolded pools] put_failed.IH lease_inv_done by metis
next
  case (release log pend q c watch rz r rz' q')
  show ?case using release_attempt_effect [OF release.hyps(2)] release.IH lease_inv_release [of log pend "zs q key" "fst rz" "snd rz"]
    by (auto simp: pools)
qed

end

lemma held_since:
  assumes "\<And>c t e. Granted c m t e \<notin> set l2" "\<And>s. e \<le> s \<Longrightarrow> Released m s \<notin> set l2"
  shows "held m (l2 @ Granted c m t e # l1) = Some e"
  using assms
proof (induction l2)
  case (Cons ev l2)
  then have IH: "held m (l2 @ Granted c m t e # l1) = Some e" by (meson list.set_intros(2))
  show ?case using IH Cons.prems by (cases ev) auto
qed simp

lemma spaced_append: "spaced (l3 @ l) \<Longrightarrow> spaced l"
proof (induction l3)
  case (Cons ev l3)
  then show ?case by (cases ev) auto
qed simp



text \<open>A pool with one service and leases of ten nanoseconds, on the server in memory.\<close>

definition small_pool :: RedisPool where
  "small_pool = \<lparr>rp_rdsKey = ''k'', rp_conf = \<lparr>sc_Services = [\<lparr>si_Name = ''s'', si_Cap = 1\<rparr>], sc_Expire = 10, sc_Version = []\<rparr>\<rparr>"

definition small_store :: "int \<Rightarrow> mem_store" where
  "small_store s = (Map.empty, (\<lambda>_. [])(''k'' := [(''1_s'', s)]))"

abbreviation empty_store :: mem_store where
  "empty_store \<equiv> (Map.empty, \<lambda>_. [])"

lemma small_floats: "float64_of_int 0 = 0" "float64_of_int 10 = 10" "float64_of_int 11 = 11" "float64_of_int 20 = 20" "float64_of_int 21 = 21"
  "float64_of_int 30 = 30"
  by (simp_all add: float64_of_small)

lemmas small_evals = small_pool_def small_store_def small_floats acquire_pop_def acquire_put_def mem_zset_ops_def mem_put_def Let_def fun_upd_def

lemma small_pop: "acquire_pop mem_zset_ops small_pool (small_store s) = (Inr (''1_s'', s), empty_store)"
  by (simp add: small_evals AList.delete_simps fun_eq_iff)

lemma small_put: "s \<le> float64_of_int now \<Longrightarrow> acquire_put mem_zset_ops small_pool now (''1_s'', s) empty_store =
    (Inr (''1_s'', float64_of_int (now + 10)), small_store (float64_of_int (now + 10)))"
  by (simp add: small_evals fun_eq_iff)

lemma small_score: "zz_score mem_zset_ops (small_store s) (rp_rdsKey small_pool) ''1_s'' = Inr s"
  by (simp add: small_evals)

lemma small_add: "zz_add mem_zset_ops (small_store s) (rp_rdsKey small_pool) [(''1_s'', s')] = (Inr (), small_store s')"
  by (simp add: small_evals fun_eq_iff)

lemma small_round:
  assumes "pool_run mem_zset_ops (\<lambda>_. small_pool) log Map.empty (small_store s)" "s \<le> float64_of_int now"
  shows "pool_run mem_zset_ops (\<lambda>_. small_pool) (Granted c ''1_s'' now (float64_of_int (now + 10)) # log) Map.empty
    (small_store (float64_of_int (now + 10)))"
proof -
  have "pool_run mem_zset_ops (\<lambda>_. small_pool) log [c \<mapsto> ((''1_s'', s), now)] empty_store"
    by (rule pool_run.pop [OF assms(1) _ small_pop]) simp
  from pool_run.put [OF this _ small_put [OF assms(2)], of c] show ?thesis by simp
qed


text \<open>
  The release of the code is not atomic: it reads the score and then writes it in a plain pipeline, so a
  client whose lease has just ended can free the lease that another client took between the two commands.
  Here client A acquires at 0 and releases at 10, B acquires in the middle of that release and holds the
  service until 20, and C is given the same service at 11.
\<close>

theorem release_race:
  "\<exists>q1 q3 q4. Acquire mem_zset_ops small_pool 0 id (small_store 0) = (Inr (''1_s'', 10), q1) \<and>
     fst (Acquire mem_zset_ops small_pool 10 id q1) = Inr (''1_s'', 20) \<and>
     Release mem_zset_ops small_pool [(Inr (), \<lambda>q. snd (Acquire mem_zset_ops small_pool 10 id q))] (''1_s'', 10) q1 =
       (Some (Inr ()), (''1_s'', 0), q3) \<and>
     Acquire mem_zset_ops small_pool 11 id q3 = (Inr (''1_s'', 21), q4)"
proof -
  have a: "Acquire mem_zset_ops small_pool 0 id (small_store 0) = (Inr (''1_s'', 10), small_store 10)"
    by (simp add: Acquire_def small_pop small_put small_floats)
  have b: "Acquire mem_zset_ops small_pool 10 id (small_store 10) = (Inr (''1_s'', 20), small_store 20)"
    by (simp add: Acquire_def small_pop small_put small_floats)
  have r: "Release mem_zset_ops small_pool [(Inr (), \<lambda>q. snd (Acquire mem_zset_ops small_pool 10 id q))] (''1_s'', 10) (small_store 10) =
      (Some (Inr ()), (''1_s'', 0), small_store 0)"
    by (simp add: release_attempt_def b small_score small_add)
  have c: "Acquire mem_zset_ops small_pool 11 id (small_store 0) = (Inr (''1_s'', 21), small_store 21)"
    by (simp add: Acquire_def small_pop small_put small_floats)
  show ?thesis by (intro exI conjI, rule a, simp add: b, rule r, rule c)
qed


text \<open>A server whose set commands succeed.\<close>

definition zset_works :: "'q zset_ops \<Rightarrow> bool" where
  "zset_works Z = (\<forall>q k ms. \<not> isl (fst (zz_popmin Z q k)) \<and> \<not> isl (fst (zz_add Z q k ms)))"

lemma zset_worksD:
  assumes "zset_works Z"
  obtains ms q1 a q2 where "zz_popmin Z q k = (Inr ms, q1)" "zz_add Z q' k zm = (Inr a, q2)"
  using assms unfolding zset_works_def by (metis prod.collapse sum.collapse(2))

context redis_zset
begin

lemma Acquire_effect:
  assumes works: "zset_works Z" and acq: "Acquire Z rp now id q = (r, q')"
  shows "case r of
      Inr (m, e) \<Rightarrow> (\<exists>s. zleast (zs q (rp_rdsKey rp)) m s \<and> s \<le> float64_of_int now) \<and>
        e = float64_of_int (now + sc_Expire (rp_conf rp)) \<and> zs q' = (zs q)(rp_rdsKey rp := (zs q (rp_rdsKey rp))(m \<mapsto> e))
    | Inl e \<Rightarrow> e = ErrNoService rp \<and> zs q' = zs q \<and> (\<forall>m s. zs q (rp_rdsKey rp) m = Some s \<longrightarrow> float64_of_int now < s)"
proof -
  let ?k = "rp_rdsKey rp"
  obtain p q1 where pop: "acquire_pop Z rp q = (p, q1)" by fastforce
  show ?thesis using acquire_pop_cases [OF pop]
  proof cases
    case (1 m s)
    obtain a q2 where add: "zz_add Z q1 ?k [(m, put_score rp now s)] = (Inr a, q2)"
      using zset_worksD [OF works] by metis
    have z: "zs q2 = (zs q)(?k := (zs q ?k)(m \<mapsto> put_score rp now s))"
      using add_ok [OF add] 1(3) by (auto simp: fun_eq_iff)
    have least: "zs q ?k m = Some s" "\<And>m' s'. zs q ?k m' = Some s' \<Longrightarrow> s \<le> s'" using 1(2) by (auto simp: zleast_def)
    show ?thesis
    proof (cases "float64_of_int now < s")
      case True
      then have "r = Inl (ErrNoService rp)" "q' = q2" using acq pop 1(1) add by (auto simp: Acquire_def acquire_put_def)
      moreover have "zs q2 = zs q" using z True least(1) by (simp add: fun_eq_iff)
      ultimately show ?thesis using least(2) True by fastforce
    next
      case False
      then have "r = Inr (m, put_score rp now s)" "q' = q2" using acq pop 1(1) add by (auto simp: Acquire_def acquire_put_def Let_def)
      then show ?thesis using z 1(2) False by (auto simp: not_less)
    qed
  next
    case (2 e)
    then show ?thesis using acq pop by (auto simp: Acquire_def)
  next
    case (3 e)
    have "e = ErrNoService rp \<and> zs q ?k = Map.empty \<and> zs q' = zs q"
      using 3 acq pop zset_worksD [OF works, of q ?k] popmin_ok [of q ?k "[]" q1]
      by (auto simp: Acquire_def acquire_pop_def split: sum.splits list.splits prod.splits)
    then show ?thesis using 3 acq pop by (auto simp: Acquire_def)
  qed
qed

end

text \<open>
  One undisturbed \<open>Acquire\<close> on a server whose commands succeed: it hands out a member with the least
  score, provided that score is not in the future, and moves the score to the end of the lease, changing no
  other member and no other pool; otherwise it reports that no service is free, every member being
  rented, and leaves all sets as they were.
\<close>

theorem Acquire_correct:
  assumes "redis_zset Z zs" "zset_works Z" "Acquire Z rp now id q = (r, q')"
  shows "case r of
      Inr (m, e) \<Rightarrow> (\<exists>s. zleast (zs q (rp_rdsKey rp)) m s \<and> s \<le> float64_of_int now) \<and>
        e = float64_of_int (now + sc_Expire (rp_conf rp)) \<and> zs q' = (zs q)(rp_rdsKey rp := (zs q (rp_rdsKey rp))(m \<mapsto> e))
    | Inl e \<Rightarrow> e = ErrNoService rp \<and> zs q' = zs q \<and> (\<forall>m s. zs q (rp_rdsKey rp) m = Some s \<longrightarrow> float64_of_int now < s)"
  using redis_zset.Acquire_effect [OF assms] .

lemma mem_zset_works: "zset_works mem_zset_ops"
  by (auto simp: zset_works_def mem_zset_ops_def split: prod.splits option.splits)

theorem Acquire_correct_witness:
  "\<exists>s. zleast (mem_zview (small_store 7) ''k'') ''1_s'' s \<and> s \<le> float64_of_int 10"
proof -
  have "Acquire mem_zset_ops small_pool 10 id (small_store 7) = (Inr (''1_s'', 20), small_store 20)"
    by (simp add: Acquire_def small_pop small_put small_floats)
  from Acquire_correct [OF mem_store.redis_zset_axioms mem_zset_works this] show ?thesis by (auto simp: small_pool_def)
qed

section \<open>The configuration\<close>

lemma set_diff: "set (diff source target) = set source - set target"
  by (auto simp: diff_def)

context redis_store
begin

lemma GetLock_frame: "GetLock K now k ttl q = (b, q') \<Longrightarrow> j \<noteq> k \<Longrightarrow> zs q' j = zs q j"
  by (auto simp: GetLock_def split: sum.splits prod.splits dest: setnx_frame)

lemma lock_tries_frame:
  assumes "\<And>i q. zs (snd (sched i) q) j = zs q j" "j \<noteq> k"
  shows "lock_tries K sched k ttl n q = (r, q') \<Longrightarrow> zs q' j = zs q j"
proof (induction n arbitrary: q)
  case (Suc n)
  obtain now env where s: "sched n = (now, env)" by fastforce
  obtain b q1 where g: "GetLock K now k ttl (env q) = (b, q1)" by fastforce
  have "zs q1 j = zs q j" using GetLock_frame [OF g assms(2)] assms(1) [of n q] s by simp
  then show ?case using Suc s g by (auto split: if_splits)
qed simp

lemma UnLock_frame: "j \<noteq> k \<Longrightarrow> zs (snd (UnLock K now k q)) j = zs q j"
  by (auto simp: UnLock_def split: sum.splits dest: del_frame)

lemma refresh_members_ok:
  assumes "refresh_members Z k add rem q = (Inr (), q')"
  shows "zs q' k = (\<lambda>m. if m \<in> set rem then None else if m \<in> set add then Some 0 else zs q k m)"
proof -
  obtain r1 q1 where a: "(if add = [] then (Inr (), q) else zz_add Z q k (map (\<lambda>m. (m, 0)) add)) = (r1, q1)" by fastforce
  obtain r2 q2 where b: "(if rem = [] then (Inr (), q1) else zz_rem Z q1 k rem) = (r2, q2)" by fastforce
  have r: "\<exists>x. r1 = Inr x" "\<exists>y. r2 = Inr y" "q' = q2"
    using assms a b by (auto simp: refresh_members_def split: sum.splits)
  have "zs q1 k = (\<lambda>m. if m \<in> set add then Some 0 else zs q k m)"
    using a r(1) add_ok [of q k "map (\<lambda>m. (m, 0)) add" r1 q1] by (auto simp: zadd_zero split: if_splits)
  moreover have "zs q2 k = zs q1 k |` (- set rem)"
    using b r(2) rem_ok [of q1 k rem r2 q2] by (auto simp: restrict_map_def fun_eq_iff split: if_splits)
  ultimately show ?thesis using r(3) by (auto simp: restrict_map_def)
qed

lemma RefreshConfig_effect:
  assumes sched: "\<And>i q. zs (snd (sched i) q) (rp_rdsKey rp) = zs q (rp_rdsKey rp)"
    and ref: "RefreshConfig K Z sched now newConf rp q = (r, rp', q')"
    and new: "new = set (generateMembers (sc_Services newConf))" and old: "old = set (generateMembers (sc_Services (rp_conf rp)))"
  shows "case r of Inl e \<Rightarrow> rp' = rp
    | Inr _ \<Rightarrow> rp' = rp\<lparr>rp_conf := newConf\<rparr> \<and> zs q' (rp_rdsKey rp) =
        (\<lambda>m. if m \<in> new - old then Some 0 else if m \<in> old - new then None else zs q (rp_rdsKey rp) m)"
proof -
  let ?k = "rp_rdsKey rp"
  let ?add = "diff (generateMembers (sc_Services newConf)) (generateMembers (sc_Services (rp_conf rp)))"
  let ?rem = "diff (generateMembers (sc_Services (rp_conf rp))) (generateMembers (sc_Services newConf))"
  obtain l q1 where l: "redispool_Lock K sched (redisLock ?k) (5 * time_Second) q = (l, q1)" by fastforce
  obtain m q2 where m: "refresh_members Z ?k ?add ?rem q1 = (m, q2)" by fastforce
  have q1: "zs q1 ?k = zs q ?k" using lock_tries_frame [OF sched, of "redisLock ?k"] l by (simp add: redispool_Lock_def)
  show ?thesis
  proof (cases "isl l \<or> isl m")
    case True
    then show ?thesis using ref l m by (auto simp: RefreshConfig_def Let_def isl_def split: sum.splits)
  next
    case False
    then have lm: "l = Inr ()" "m = Inr ()" by (cases l; cases m; simp)+
    then have "r = Inr ()" "rp' = rp\<lparr>rp_conf := newConf\<rparr>" "zs q' ?k = zs q2 ?k"
      using ref l m by (auto simp: RefreshConfig_def Let_def UnLock_frame)
    then show ?thesis using refresh_members_ok [OF m [unfolded lm]] q1
      by (auto simp: new old set_diff fun_eq_iff)
  qed
qed

end

text \<open>
  Refreshing the configuration: whoever else waits for the lock, on success the members that only the
  new configuration has are free, those that only the old one had are gone, and every other member keeps its
  lease; on an error the pool keeps its old configuration.
\<close>

theorem RefreshConfig_members:
  assumes "redis_store K ent Z zs" "\<And>i q. zs (snd (sched i) q) (rp_rdsKey rp) = zs q (rp_rdsKey rp)"
    and "RefreshConfig K Z sched now newConf rp q = (r, rp', q')"
    and "new = set (generateMembers (sc_Services newConf))" "old = set (generateMembers (sc_Services (rp_conf rp)))"
  shows "case r of Inl e \<Rightarrow> rp' = rp
    | Inr _ \<Rightarrow> rp' = rp\<lparr>rp_conf := newConf\<rparr> \<and> zs q' (rp_rdsKey rp) =
        (\<lambda>m. if m \<in> new - old then Some 0 else if m \<in> old - new then None else zs q (rp_rdsKey rp) m)"
  using redis_store.RefreshConfig_effect [OF assms] .


definition two_conf :: ServicePoolConfig where
  "two_conf = \<lparr>sc_Services = [\<lparr>si_Name = ''t'', si_Cap = 2\<rparr>], sc_Expire = 10, sc_Version = []\<rparr>"

abbreviation quiet :: "'q schedule" where
  "quiet \<equiv> \<lambda>_. (0, id)"

lemma small_members: "generateMembers (sc_Services two_conf) = [''1_t'', ''2_t'']"
  "generateMembers (sc_Services (rp_conf small_pool)) = [''1_s'']"
  by code_simp+

lemma lock_free: "redispool_Lock (on_kv mem_kv_ops) quiet k (5 * time_Second) (Map.empty, z) =
    (Inr (), ([k \<mapsto> (''1'', Some (5 * time_Second))], z))"
  by (simp add: redispool_Lock_def numeral_nat GetLock_def on_kv_def mem_kv_ops_def)

theorem RefreshConfig_members_witness:
  "\<exists>q'. RefreshConfig (on_kv mem_kv_ops) mem_zset_ops quiet 1 two_conf small_pool (small_store 7) =
      (Inr (), small_pool\<lparr>rp_conf := two_conf\<rparr>, q') \<and>
    mem_zview q' ''k'' = [''1_t'' \<mapsto> 0, ''2_t'' \<mapsto> 0]"
proof -
  obtain q' where r: "RefreshConfig (on_kv mem_kv_ops) mem_zset_ops quiet 1 two_conf small_pool (small_store 7) =
      (Inr (), small_pool\<lparr>rp_conf := two_conf\<rparr>, q')"
    by (simp add: RefreshConfig_def Let_def small_members small_store_def lock_free refresh_members_def mem_zset_ops_def diff_def)
  have k: "rp_rdsKey small_pool = ''k''" by (simp add: small_pool_def)
  have "mem_zview q' ''k'' = [''1_t'' \<mapsto> 0, ''2_t'' \<mapsto> 0]"
    using RefreshConfig_members [OF mem_store.redis_store_axioms _ r small_members [THEN arg_cong, where f = set, symmetric]] k
    by (auto simp: small_store_def mem_zview_def fun_eq_iff)
  then show ?thesis using r by blast
qed

text \<open>
  A new pool does not start empty: the members of its configuration become free, also those that are
  rented at that moment, and members left over from an earlier configuration stay and are handed out.
\<close>

theorem NewRedisPool_not_cleared:
  assumes "redis_store K ent Z zs" "\<And>i q. zs (snd (sched i) q) rdsKey = zs q rdsKey"
    and "NewRedisPool K Z sched now rdsKey conf q = (Some rp, q')"
  shows "rp = \<lparr>rp_rdsKey = rdsKey, rp_conf = conf\<rparr> \<and>
    zs q' rdsKey = (\<lambda>m. if m \<in> set (generateMembers (sc_Services conf)) then Some 0 else zs q rdsKey m)"
proof -
  obtain r rp0 q0 where ref: "RefreshConfig K Z sched now conf \<lparr>rp_rdsKey = rdsKey, rp_conf = zero_pool_conf\<rparr> q = (r, rp0, q0)"
    by (cases "RefreshConfig K Z sched now conf \<lparr>rp_rdsKey = rdsKey, rp_conf = zero_pool_conf\<rparr> q")
  have "generateMembers (sc_Services zero_pool_conf) = []" by (simp add: generateMembers_def zero_pool_conf_def)
  moreover have "\<exists>x. r = Inr x" "rp0 = rp" "q0 = q'" using assms(3) ref by (auto simp: NewRedisPool_def split: sum.splits)
  ultimately show ?thesis
    using redis_store.RefreshConfig_effect [OF assms(1) _ ref refl refl] assms(2) by auto
qed

theorem NewRedisPool_not_cleared_witness:
  "\<exists>rp q'. NewRedisPool (on_kv mem_kv_ops) mem_zset_ops quiet 1 ''k'' two_conf (small_store 7) = (Some rp, q') \<and>
    mem_zview q' ''k'' ''1_s'' = Some 7"
proof -
  obtain rp q' where r: "NewRedisPool (on_kv mem_kv_ops) mem_zset_ops quiet 1 ''k'' two_conf (small_store 7) = (Some rp, q')"
    by (simp add: NewRedisPool_def RefreshConfig_def small_members zero_pool_conf_def generateMembers_def [of "[]"] small_store_def lock_free
        refresh_members_def mem_zset_ops_def diff_def Let_def)
  have "mem_zview q' ''k'' ''1_s'' = Some 7"
    using NewRedisPool_not_cleared [OF mem_store.redis_store_axioms _ r] by (auto simp: small_members small_store_def mem_zview_def)
  then show ?thesis using r by blast
qed

section \<open>Release by identifier\<close>

text \<open>JSON: a text that goes on after a number with an underscore is not a value.\<close>

definition json_like :: "(string \<Rightarrow> 'a \<Rightarrow> 'a res) \<Rightarrow> bool" where
  "json_like unmarshal = (\<forall>ds rest x. ds \<noteq> [] \<longrightarrow> (\<forall>c \<in> set ds. is_digit c) \<longrightarrow> isl (unmarshal (ds @ ''_'' @ rest) x))"

lemma member_form:
  assumes "m \<in> set (generateMembers services)"
  shows "\<exists>ds name. m = ds @ ''_'' @ name \<and> ds \<noteq> [] \<and> (\<forall>c \<in> set ds. is_digit c)"
proof -
  obtain service where "m \<in> set (service_members service)" using assms by (auto simp: generateMembers_def)
  then obtain i where "m = nat_digits i @ ''_'' @ si_Name service"
    unfolding service_members_def set_map by (elim imageE)
  then show ?thesis using nat_digits_all_digits nat_digits_nonempty by blast
qed

context redis_zset
begin

lemma acquired_member:
  assumes "Acquire Z rp now env q = (Inr rz, q')"
  shows "fst rz \<in> dom (zs q (rp_rdsKey rp))"
proof -
  obtain p q1 where pop: "acquire_pop Z rp q = (p, q1)" by fastforce
  obtain m s where p: "p = Inr (m, s)" using assms pop by (cases p) (auto simp: Acquire_def)
  have "zs q (rp_rdsKey rp) m = Some s" using acquire_pop_cases [OF pop] p by cases (auto simp: zleast_def)
  moreover have "fst rz = m" using assms pop p acquire_put_effect [of rp now m s "env q1" "Inr rz" q'] by (auto simp: Acquire_def)
  ultimately show ?thesis by auto
qed

end

text \<open>
  Releasing by identifier does nothing: an identifier handed out by \<open>AcquireString\<close> from a pool of
  configured members is not JSON, so \<open>ReleaseString\<close> reports an error whenever it is called with it, and the
  manager's \<open>ReleaseService\<close> leaves the server as it was; the service stays rented until its lease ends.
\<close>

theorem release_by_id_fails:
  assumes "redis_zset Z zs" "json_like unmarshal" "dom (zs q (rp_rdsKey rp)) \<subseteq> set (generateMembers services)"
    and acq: "AcquireString Z rp now env q = (Inr (i, name), q')"
  shows "\<exists>e. ReleaseString unmarshal Z rp attempts i q'' = (Some (Inl e), q'') \<and>
    (pm_svrs pm = Some (svrs(key \<mapsto> Some sp)) \<longrightarrow> sp_pool sp = rp \<longrightarrow>
       pm_ReleaseService unmarshal Z attempts pm key i q'' = Some q'')"
proof -
  obtain rz where "Acquire Z rp now env q = (Inr rz, q')" "fst rz = i"
    using acq by (auto simp: AcquireString_def split: prod.splits sum.splits option.splits)
  then have "i \<in> set (generateMembers services)" using redis_zset.acquired_member [OF assms(1)] assms(3) by blast
  then obtain e where "unmarshal i (i, 0) = Inl e" using member_form assms(2) unfolding json_like_def isl_def by metis
  then show ?thesis by (simp add: ReleaseString_def pm_ReleaseService_def)
qed

theorem release_by_id_fails_witness:
  "\<exists>e. ReleaseString (\<lambda>_ _. Inl (Err ''invalid character'')) mem_zset_ops small_pool [] ''1_s'' (small_store 20) = (Some (Inl e), small_store 20)"
proof -
  have a: "AcquireString mem_zset_ops small_pool 10 id (small_store 7) = (Inr (''1_s'', ''s''), small_store 20)"
    by (simp add: AcquireString_def Acquire_def small_pop small_put small_floats after_underscore_def)
  have d: "dom (mem_zview (small_store 7) (rp_rdsKey small_pool)) \<subseteq> set (generateMembers (sc_Services (rp_conf small_pool)))"
    by (auto simp: mem_zview_def small_store_def small_members split: if_splits)
  have j: "json_like (\<lambda>_ _. Inl (Err ''invalid character'') :: redis_Z res)" by (simp add: json_like_def)
  show ?thesis using release_by_id_fails [OF mem_store.redis_zset_axioms j d a, of "[]" "small_store 20"] by blast
qed

end
