(* ===== verification/Cache.thy ===== *)
theory Cache
  imports Redis_Kv Sql_Table
begin

text \<open>
  The caches: the interface of \<open>cache/cachetype/interface.go\<close> and its three implementations
  (\<open>cache/memory\<close>, \<open>cache/mysql\<close>, \<open>cache/redis\<close>). \<open>Get\<close> writes through the pointer it is given: it takes the value
  there and returns the value left there. JSON is a parameter. Times in error messages are left out.
\<close>

record 'v json =
  js_Marshal :: "'v \<Rightarrow> string res"
  js_Unmarshal :: "string \<Rightarrow> 'v \<Rightarrow> unit res \<times> 'v"

definition cache_Marshal :: "'v json \<Rightarrow> 'v \<Rightarrow> string" where
  "cache_Marshal J val = (case js_Marshal J val of Inl e \<Rightarrow> [] | Inr bs \<Rightarrow> bs)"

definition cache_Unmarshal :: "'v json \<Rightarrow> string \<Rightarrow> 'v \<Rightarrow> unit res \<times> 'v" where
  "cache_Unmarshal J data val = js_Unmarshal J data val"

record ('q, 'v) cache_ops =
  ca_Get :: "'q \<Rightarrow> gotime \<Rightarrow> string \<Rightarrow> 'v \<Rightarrow> unit res \<times> 'v \<times> 'q"
  ca_Set :: "'q \<Rightarrow> gotime \<Rightarrow> string \<Rightarrow> 'v \<Rightarrow> duration \<Rightarrow> unit res \<times> 'q"
  ca_IsExist :: "'q \<Rightarrow> gotime \<Rightarrow> string \<Rightarrow> bool \<times> 'q"
  ca_Delete :: "'q \<Rightarrow> gotime \<Rightarrow> string \<Rightarrow> unit res \<times> 'q"

definition ErrExpired :: "string \<Rightarrow> gerror" where
  "ErrExpired key = Err (''key('' @ key @ '') expired at'')"

section \<open>Memory\<close>

record 'v mem_data =
  md_Data :: 'v
  md_Expired :: gotime

type_synonym 'v Memory = "string \<rightharpoonup> 'v mem_data"

definition deleteKey :: "string \<Rightarrow> 'v Memory \<Rightarrow> unit res \<times> 'v Memory" where
  "deleteKey key mem = (Inr (), mem(key := None))"

text \<open>\<open>Get\<close> assigns to its own copy of the pointer: the caller's value stays.\<close>

definition memory_Get :: "'v Memory \<Rightarrow> gotime \<Rightarrow> string \<Rightarrow> 'v \<Rightarrow> unit res \<times> 'v \<times> 'v Memory" where
  "memory_Get mem now key val = (case mem key of
     Some ret \<Rightarrow>
       (if md_Expired ret < now then (Inl (ErrExpired key), val, snd (deleteKey key mem))
        else (Inr (), val, mem))
   | None \<Rightarrow> (Inr (), val, mem))"

definition memory_IsExist :: "'v Memory \<Rightarrow> gotime \<Rightarrow> string \<Rightarrow> bool \<times> 'v Memory" where
  "memory_IsExist mem now key = (case mem key of
     Some ret \<Rightarrow> (if md_Expired ret < now then (False, snd (deleteKey key mem)) else (True, mem))
   | None \<Rightarrow> (False, mem))"

definition memory_Set :: "'v Memory \<Rightarrow> gotime \<Rightarrow> string \<Rightarrow> 'v \<Rightarrow> duration \<Rightarrow> unit res \<times> 'v Memory" where
  "memory_Set mem now key val timeout = (Inr (), mem(key \<mapsto> \<lparr>md_Data = val, md_Expired = now + timeout\<rparr>))"

definition memory_Delete :: "'v Memory \<Rightarrow> gotime \<Rightarrow> string \<Rightarrow> unit res \<times> 'v Memory" where
  "memory_Delete mem now key = deleteKey key mem"

definition memory_NewCache :: "'v Memory" where
  "memory_NewCache = Map.empty"

definition memory_cache :: "('v Memory, 'v) cache_ops" where
  "memory_cache = \<lparr>ca_Get = memory_Get, ca_Set = memory_Set, ca_IsExist = memory_IsExist, ca_Delete = memory_Delete\<rparr>"

section \<open>Redis\<close>

definition redis_Get :: "'q kv_ops \<Rightarrow> 'v json \<Rightarrow> 'q \<Rightarrow> gotime \<Rightarrow> string \<Rightarrow> 'v \<Rightarrow> unit res \<times> 'v \<times> 'q" where
  "redis_Get K J q now key reply = (case kv_get K q now key of
     Inl e \<Rightarrow> (Inl e, reply, q)
   | Inr data \<Rightarrow> (case cache_Unmarshal J data reply of (r, reply') \<Rightarrow> (r, reply', q)))"

definition redis_GetContext :: "'q kv_ops \<Rightarrow> 'q \<Rightarrow> gotime \<Rightarrow> string \<Rightarrow> string option" where
  "redis_GetContext K q now key = (case kv_get K q now key of Inl e \<Rightarrow> None | Inr result \<Rightarrow> Some result)"

definition redis_Set :: "'q kv_ops \<Rightarrow> 'v json \<Rightarrow> 'q \<Rightarrow> gotime \<Rightarrow> string \<Rightarrow> 'v \<Rightarrow> duration \<Rightarrow> unit res \<times> 'q" where
  "redis_Set K J q now key val timeout = (case kv_set K q now key (cache_Marshal J val) timeout of
     Inl e \<Rightarrow> (Inl e, q)
   | Inr q' \<Rightarrow> (Inr (), q'))"

definition redis_IsExist :: "'q kv_ops \<Rightarrow> 'q \<Rightarrow> gotime \<Rightarrow> string \<Rightarrow> bool \<times> 'q" where
  "redis_IsExist K q now key = (case kv_exists K q now key of Inl e \<Rightarrow> (False, q) | Inr i \<Rightarrow> (0 < i, q))"

definition redis_Delete :: "'q kv_ops \<Rightarrow> 'q \<Rightarrow> gotime \<Rightarrow> string \<Rightarrow> unit res \<times> 'q" where
  "redis_Delete K q now key = (case kv_del K q now key of Inl e \<Rightarrow> (Inl e, q) | Inr q' \<Rightarrow> (Inr (), q'))"

definition redis_cache_of :: "'q kv_ops \<Rightarrow> 'v json \<Rightarrow> ('q, 'v) cache_ops" where
  "redis_cache_of K J = \<lparr>ca_Get = redis_Get K J, ca_Set = redis_Set K J, ca_IsExist = redis_IsExist K, ca_Delete = redis_Delete K\<rparr>"

section \<open>MySQL\<close>

text \<open>
  The rows are kept under a string key, so the table is reached through the statements of \<open>Sql_Table\<close> and a
  DELETE (\<open>D\<close>). \<open>Get\<close> takes a row for expired while its expiry is still ahead. The \<open>version\<close> column is a
  number here; a server that refuses a value beyond 16 bits fails the update.
\<close>

record CacheVal =
  cw_Key :: string
  cw_Val :: string
  cw_ExpiredAt :: gotime
  cw_Version :: nat

definition ErrRecordNotFound_cache :: gerror where
  "ErrRecordNotFound_cache = Err ''record not found''"

type_synonym 'd delete_stmt = "'d \<Rightarrow> (CacheVal \<Rightarrow> bool) \<Rightarrow> 'd res"

definition getCacheVal :: "('d, CacheVal) table_ops \<Rightarrow> 'd \<Rightarrow> string \<Rightarrow> CacheVal res" where
  "getCacheVal T d key = (case tb_find T d (\<lambda>_ c. cw_Key c = key) any_order of
     Inl e \<Rightarrow> Inl e
   | Inr [] \<Rightarrow> Inl ErrRecordNotFound_cache
   | Inr (cv # _) \<Rightarrow> (if cw_Key cv = [] then Inl ErrRecordNotFound_cache else Inr cv))"

definition mysql_Get :: "('d, CacheVal) table_ops \<Rightarrow> 'v json \<Rightarrow> 'd \<Rightarrow> gotime \<Rightarrow> string \<Rightarrow> 'v \<Rightarrow> unit res \<times> 'v \<times> 'd" where
  "mysql_Get T J d now key val = (case getCacheVal T d key of
     Inl e \<Rightarrow> (Inl e, val, d)
   | Inr cv \<Rightarrow>
       (if now < cw_ExpiredAt cv then (Inl (ErrExpired key), val, d)
        else case cache_Unmarshal J (cw_Val cv) val of (r, val') \<Rightarrow> (r, val', d)))"

definition mysql_Set :: "('d, CacheVal) table_ops \<Rightarrow> 'v json \<Rightarrow> 'd \<Rightarrow> gotime \<Rightarrow> string \<Rightarrow> 'v \<Rightarrow> duration \<Rightarrow> unit res \<times> 'd" where
  "mysql_Set T J d now key val timeout = (case getCacheVal T d key of
     Inl e \<Rightarrow> (case tb_insert T d [\<lparr>cw_Key = key, cw_Val = cache_Marshal J val, cw_ExpiredAt = now + timeout, cw_Version = 0\<rparr>] of
        Inl e' \<Rightarrow> (Inl e', d)
      | Inr (_, d') \<Rightarrow> (Inr (), d'))
   | Inr cv \<Rightarrow> (case tb_update T d (\<lambda>c. cw_Key c = cw_Key cv \<and> cw_Version c = cw_Version cv)
          (\<lambda>c. c\<lparr>cw_ExpiredAt := now + timeout, cw_Val := cache_Marshal J val, cw_Version := cw_Version c + 1\<rparr>) of
        Inl e' \<Rightarrow> (Inl e', d)
      | Inr d' \<Rightarrow> (Inr (), d')))"

definition mysql_IsExist :: "('d, CacheVal) table_ops \<Rightarrow> 'd \<Rightarrow> gotime \<Rightarrow> string \<Rightarrow> bool \<times> 'd" where
  "mysql_IsExist T d now key = (case tb_count T d (\<lambda>_ c. cw_Key c = key \<and> now < cw_ExpiredAt c) of
     Inl e \<Rightarrow> (False, d)
   | Inr n \<Rightarrow> (0 < n, d))"

definition mysql_Delete :: "'d delete_stmt \<Rightarrow> 'd \<Rightarrow> gotime \<Rightarrow> string \<Rightarrow> unit res \<times> 'd" where
  "mysql_Delete D d now key = (case D d (\<lambda>c. cw_Key c = key) of Inl e \<Rightarrow> (Inl e, d) | Inr d' \<Rightarrow> (Inr (), d'))"

definition mysql_cache :: "('d, CacheVal) table_ops \<Rightarrow> 'd delete_stmt \<Rightarrow> 'v json \<Rightarrow> ('d, 'v) cache_ops" where
  "mysql_cache T D J = \<lparr>ca_Get = mysql_Get T J, ca_Set = mysql_Set T J, ca_IsExist = mysql_IsExist T, ca_Delete = mysql_Delete D\<rparr>"

section \<open>What a client may rely on\<close>

text \<open>
  The view \<open>vw q k\<close> is the value last stored at a key and not removed since, whether or not its time is
  over. Reading into the zero value either leaves it or gives the stored value, and an error leaves it. A
  \<open>Set\<close> stores the value, loses what was there, or does nothing; a successful \<open>Delete\<close> removes it. Nothing else
  changes. All three caches keep this; what they differ in is when a stored value is found.
\<close>

locale cache_store =
  fixes C :: "('q, 'v) cache_ops" and vw :: "'q \<Rightarrow> string \<Rightarrow> 'v option" and zero :: 'v and cinv :: "'q \<Rightarrow> bool"
  assumes get_hit: "cinv q \<Longrightarrow> ca_Get C q now k zero = (Inr u, v, q') \<Longrightarrow> v = zero \<or> vw q k = Some v"
    and get_miss: "cinv q \<Longrightarrow> ca_Get C q now k zero = (Inl e, v, q') \<Longrightarrow> v = zero"
    and get_keeps: "cinv q \<Longrightarrow> ca_Get C q now k old = (r, v, q') \<Longrightarrow> cinv q' \<and> (vw q' j = vw q j \<or> vw q' j = None)"
    and set_view: "cinv q \<Longrightarrow> ca_Set C q now k v ttl = (r, q') \<Longrightarrow>
       cinv q' \<and> (vw q' k = vw q k \<or> vw q' k = Some v \<or> vw q' k = None) \<and> (j \<noteq> k \<longrightarrow> vw q' j = vw q j)"
    and delete_ok: "cinv q \<Longrightarrow> ca_Delete C q now k = (Inr u, q') \<Longrightarrow> vw q' k = None"
    and delete_keeps: "cinv q \<Longrightarrow> ca_Delete C q now k = (r, q') \<Longrightarrow> cinv q' \<and> (vw q' j = vw q j \<or> vw q' j = None)"

interpretation memory_store: cache_store memory_cache "\<lambda>q k. map_option md_Data (q k)" zero "\<lambda>_. True" for zero
  by unfold_locales
    (auto simp: memory_cache_def memory_Get_def memory_Set_def memory_Delete_def deleteKey_def split: option.splits if_splits)

text \<open>
  JSON: what was encoded is decoded to the same value, no value has the empty text, and a text that cannot
  be decoded leaves a zero value alone.
\<close>

definition json_ok :: "'v json \<Rightarrow> 'v \<Rightarrow> bool" where
  "json_ok J zero = (
     (\<forall>v s. js_Marshal J v = Inr s \<longrightarrow> (\<exists>u. js_Unmarshal J s zero = (Inr u, v))) \<and>
     (\<exists>e. js_Unmarshal J [] zero = (Inl e, zero)) \<and>
     (\<forall>s e v. js_Unmarshal J s zero = (Inl e, v) \<longrightarrow> v = zero))"

definition decoded :: "'v json \<Rightarrow> 'v \<Rightarrow> string \<Rightarrow> 'v option" where
  "decoded J zero s = (case js_Unmarshal J s zero of (Inl e, v) \<Rightarrow> None | (Inr _, v) \<Rightarrow> Some v)"

lemma decoded_Marshal: "json_ok J zero \<Longrightarrow> decoded J zero (cache_Marshal J v) = Some v \<or> decoded J zero (cache_Marshal J v) = None"
  unfolding json_ok_def decoded_def cache_Marshal_def by (cases "js_Marshal J v") fastforce+

lemma redis_cache_store:
  assumes "redis_kv K ent" "json_ok J zero"
  shows "cache_store (redis_cache_of K J) (\<lambda>q k. case ent q k of None \<Rightarrow> None | Some (s, x) \<Rightarrow> decoded J zero s) zero (\<lambda>_. True)"
proof (unfold_locales, goal_cases)
  case (1 q now k u v q')
  then obtain s where s: "kv_get K q now k = Inr s" "js_Unmarshal J s zero = (Inr u, v)"
    by (auto simp: redis_cache_of_def redis_Get_def cache_Unmarshal_def split: sum.splits prod.splits)
  then show ?case
    using redis_kv.get_ok [OF assms(1) s(1)] by (auto dest!: live_SomeD simp: decoded_def)
next
  case (2 q now k e v q')
  then show ?case using assms(2)
    by (auto simp: redis_cache_of_def redis_Get_def cache_Unmarshal_def json_ok_def split: sum.splits prod.splits)
next
  case (3 q now k old r v q' j)
  then show ?case by (auto simp: redis_cache_of_def redis_Get_def split: sum.splits prod.splits)
next
  case (4 q now k v ttl r q' j)
  then show ?case using redis_kv.set_ok [OF assms(1)] decoded_Marshal [OF assms(2), of v]
    by (auto simp: redis_cache_of_def redis_Set_def split: sum.splits)
next
  case (5 q now k u q')
  then show ?case using redis_kv.del_ok [OF assms(1)] by (auto simp: redis_cache_of_def redis_Delete_def split: sum.splits)
next
  case (6 q now k r q' j)
  then show ?case using redis_kv.del_ok [OF assms(1)] by (auto simp: redis_cache_of_def redis_Delete_def split: sum.splits)
qed

text \<open>The table \<open>sys_cache\<close>: the key is the primary key.\<close>

definition cval :: "CacheVal list \<Rightarrow> string \<rightharpoonup> CacheVal" where
  "cval cs = map_of (map (\<lambda>c. (cw_Key c, c)) cs)"

locale cacheval_table =
  fixes T :: "('d, CacheVal) table_ops" and D :: "'d delete_stmt" and crows :: "'d \<Rightarrow> CacheVal list" and dinv :: "'d \<Rightarrow> bool"
  assumes keys: "dinv d \<Longrightarrow> distinct (map cw_Key (crows d))"
    and find_ok: "dinv d \<Longrightarrow> tb_find T d (\<lambda>_ c. P c) le = Inr rs \<Longrightarrow> set rs = {c \<in> set (crows d). P c}"
    and insert_ok: "dinv d \<Longrightarrow> tb_insert T d [c] = Inr (rs, d') \<Longrightarrow> dinv d' \<and> cw_Key c \<notin> cw_Key ` set (crows d) \<and> crows d' = crows d @ [c]"
    and update_ok: "dinv d \<Longrightarrow> tb_update T d P f = Inr d' \<Longrightarrow> (\<And>c. cw_Key (f c) = cw_Key c) \<Longrightarrow> dinv d' \<and> crows d' = update_rows P f (crows d)"
    and delete_ok: "dinv d \<Longrightarrow> D d P = Inr d' \<Longrightarrow> dinv d' \<and> crows d' = filter (\<lambda>c. \<not> P c) (crows d)"
begin

lemma cval_iff: "dinv d \<Longrightarrow> cval (crows d) k = Some c \<longleftrightarrow> c \<in> set (crows d) \<and> cw_Key c = k"
  using keys [of d] by (auto simp: cval_def o_def)

lemma getCacheVal_ok: "dinv d \<Longrightarrow> getCacheVal T d k = Inr c \<Longrightarrow> k \<noteq> [] \<and> cval (crows d) k = Some c"
  using find_ok [of d "\<lambda>c. cw_Key c = k"]
  by (fastforce simp: getCacheVal_def cval_iff split: sum.splits list.splits if_splits)

lemma cval_insert: "cw_Key c \<notin> cw_Key ` set (crows d) \<Longrightarrow> crows d' = crows d @ [c] \<Longrightarrow> cval (crows d') = (cval (crows d))(cw_Key c \<mapsto> c)"
proof -
  assume a: "cw_Key c \<notin> cw_Key ` set (crows d)" "crows d' = crows d @ [c]"
  then have "cval (crows d) (cw_Key c) = None" by (simp add: cval_def map_of_eq_None_iff image_image)
  then show ?thesis using a(2) by (auto simp: cval_def map_add_def fun_eq_iff split: option.splits)
qed

lemma cval_delete: "crows d' = filter (\<lambda>c. cw_Key c \<noteq> k) (crows d) \<Longrightarrow> cval (crows d') = (cval (crows d))(k := None)"
proof -
  have "map_of (map (\<lambda>c. (cw_Key c, c)) (filter (\<lambda>c. cw_Key c \<noteq> k) cs)) = (map_of (map (\<lambda>c. (cw_Key c, c)) cs))(k := None)" for cs
    by (induction cs) auto
  then show "crows d' = filter (\<lambda>c. cw_Key c \<noteq> k) (crows d) \<Longrightarrow> ?thesis" by (simp add: cval_def)
qed

lemma cval_update:
  assumes "\<And>c. cw_Key (f c) = cw_Key c" "crows d' = update_rows P f (crows d)"
  shows "cval (crows d') k = map_option (\<lambda>c. if P c then f c else c) (cval (crows d) k)"
proof -
  have "map_of (map (\<lambda>c. (cw_Key c, c)) (update_rows P f cs)) k =
      map_option (\<lambda>c. if P c then f c else c) (map_of (map (\<lambda>c. (cw_Key c, c)) cs) k)" for cs
    using assms(1) by (induction cs) (auto simp: update_rows_def)
  then show ?thesis using assms(2) by (simp add: cval_def)
qed

lemma mysql_cache_store:
  assumes J: "json_ok J zero"
  shows "cache_store (mysql_cache T D J)
    (\<lambda>d k. if k = [] then None else Option.bind (cval (crows d) k) (\<lambda>c. decoded J zero (cw_Val c))) zero dinv"
proof (unfold_locales, goal_cases)
  case (1 d now k u v d')
  then obtain c where "getCacheVal T d k = Inr c" "js_Unmarshal J (cw_Val c) zero = (Inr u, v)"
    by (auto simp: mysql_cache_def mysql_Get_def cache_Unmarshal_def split: sum.splits prod.splits if_splits)
  then show ?case using getCacheVal_ok 1(1) by (auto simp: decoded_def)
next
  case (2 d now k e v d')
  then show ?case using J
    by (auto simp: mysql_cache_def mysql_Get_def cache_Unmarshal_def json_ok_def split: sum.splits prod.splits if_splits)
next
  case (3 d now k old r v d' j)
  then show ?case by (auto simp: mysql_cache_def mysql_Get_def split: sum.splits prod.splits if_splits)
next
  case (4 d now k v ttl r d' j)
  show ?case
  proof (cases "getCacheVal T d k")
    case (Inl e)
    let ?c = "\<lparr>cw_Key = k, cw_Val = cache_Marshal J v, cw_ExpiredAt = now + ttl, cw_Version = 0\<rparr>"
    show ?thesis
    proof (cases "tb_insert T d [?c]")
      case (Inr p)
      then obtain rs d2 where "tb_insert T d [?c] = Inr (rs, d2)" by (cases p) auto
      then show ?thesis using 4 Inl insert_ok [of d ?c rs d2] cval_insert [of ?c d d2] decoded_Marshal [OF J, of v]
        by (auto simp: mysql_cache_def mysql_Set_def)
    qed (use 4 Inl in \<open>auto simp: mysql_cache_def mysql_Set_def\<close>)
  next
    case (Inr cv)
    let ?P = "\<lambda>c. cw_Key c = cw_Key cv \<and> cw_Version c = cw_Version cv"
    let ?f = "\<lambda>c. c\<lparr>cw_ExpiredAt := now + ttl, cw_Val := cache_Marshal J v, cw_Version := cw_Version c + 1\<rparr>"
    have cv: "cval (crows d) k = Some cv" "cw_Key cv = k" using getCacheVal_ok [OF 4(1) Inr] cval_iff [OF 4(1)] by auto
    show ?thesis
    proof (cases "tb_update T d ?P ?f")
      case upd: (Inr d2)
      have r: "dinv d2" "\<And>i. cval (crows d2) i = map_option (\<lambda>c. if ?P c then ?f c else c) (cval (crows d) i)"
        using update_ok [OF 4(1) upd] cval_update [of ?f d2 ?P d] by auto
      have "cval (crows d2) j = cval (crows d) j" if "j \<noteq> k"
        using r(2) [of j] that cv(2) cval_iff [OF 4(1), of j] by (cases "cval (crows d) j") fastforce+
      then show ?thesis using 4 Inr upd r(1) r(2) [of k] cv decoded_Marshal [OF J, of v]
        by (auto simp: mysql_cache_def mysql_Set_def)
    qed (use 4 Inr in \<open>auto simp: mysql_cache_def mysql_Set_def\<close>)
  qed
next
  case (5 d now k u d')
  then show ?case using delete_ok [of d "\<lambda>c. cw_Key c = k" d'] cval_delete [of d' k d]
    by (auto simp: mysql_cache_def mysql_Delete_def split: sum.splits)
next
  case (6 d now k r d' j)
  then show ?case using delete_ok [of d "\<lambda>c. cw_Key c = k" d'] cval_delete [of d' k d]
    by (auto simp: mysql_cache_def mysql_Delete_def split: sum.splits)
qed

end


section \<open>The other caches in memory\<close>

text \<open>Both stores on the model's own servers, with strings as values: a text is its own JSON, marked by a quote.\<close>

definition quoted :: "string json" where
  "quoted = \<lparr>js_Marshal = (\<lambda>v. Inr (CHR 0x22 # v)),
     js_Unmarshal = (\<lambda>s old. case s of [] \<Rightarrow> (Inl (Err ''unexpected end of JSON input''), old)
       | c # v \<Rightarrow> if c = CHR 0x22 then (Inr (), v) else (Inl (Err ''invalid character''), old))\<rparr>"

lemma quoted_ok: "json_ok quoted []"
  by (auto simp: json_ok_def quoted_def split: list.splits if_splits)

interpretation redis_store_mem: cache_store "redis_cache_of mem_kv_ops quoted"
  "\<lambda>q k. case id q k of None \<Rightarrow> None | Some (s, x) \<Rightarrow> decoded quoted [] s" "[]" "\<lambda>_. True"
  by (rule redis_cache_store [OF mem_kv.redis_kv_axioms quoted_ok])

definition mem_cacheval :: "(CacheVal list, CacheVal) table_ops" where
  "mem_cacheval = \<lparr>
     tb_find = (\<lambda>d P le. Inr (filter (P d) d)),
     tb_count = (\<lambda>d P. Inr (length (filter (P d) d))),
     tb_update = (\<lambda>d P f. Inr (update_rows P f d)),
     tb_insert = (\<lambda>d rs. if distinct (map cw_Key (d @ rs)) then Inr (rs, d @ rs) else Inl (Err ''Duplicate entry'')),
     tb_save = (\<lambda>d r. Inl (Err ''not used''))\<rparr>"

definition mem_cacheval_delete :: "CacheVal list delete_stmt" where
  "mem_cacheval_delete d P = Inr (filter (\<lambda>c. \<not> P c) d)"

lemma distinct_update_rows: "(\<And>c. cw_Key (f c) = cw_Key c) \<Longrightarrow> map cw_Key (update_rows P f cs) = map cw_Key cs"
  by (auto simp: update_rows_def)

interpretation mysql_mem: cacheval_table mem_cacheval mem_cacheval_delete id "\<lambda>d. distinct (map cw_Key d)"
  by unfold_locales
    (auto simp: mem_cacheval_def mem_cacheval_delete_def distinct_update_rows distinct_map_filter split: if_splits, metis imageI)

interpretation mysql_store_mem: cache_store "mysql_cache mem_cacheval mem_cacheval_delete quoted"
  "\<lambda>d k. if k = [] then None else Option.bind (cval (id d) k) (\<lambda>c. decoded quoted [] (cw_Val c))" "[]" "\<lambda>d. distinct (map cw_Key d)"
  by (rule mysql_mem.mysql_cache_store [OF quoted_ok])

text \<open>
  The three caches serve a stored value differently. In one sequence on each, a value is stored for ten
  nanoseconds: Redis gives it back before the end and reports an error after; MySQL reports an error
  before the end and gives it back after; the memory cache reports success before the end but leaves the
  caller's value as it was, and also reports success for a key never stored.
\<close>

theorem caches_disagree:
  "(let q = snd (redis_Set mem_kv_ops quoted Map.empty 0 ''k'' ''v'' 10); rd = (\<lambda>now. redis_Get mem_kv_ops quoted q now ''k'' []);
        d = snd (mysql_Set mem_cacheval quoted [] 0 ''k'' ''v'' 10); my = (\<lambda>now. mysql_Get mem_cacheval quoted d now ''k'' []);
        m = snd (memory_Set memory_NewCache 0 ''k'' ''v'' 10); me = (\<lambda>now k. memory_Get m now k [])
    in fst (rd 5) = Inr () \<and> fst (snd (rd 5)) = ''v'' \<and> isl (fst (rd 20)) \<and>
       isl (fst (my 5)) \<and> fst (my 20) = Inr () \<and> fst (snd (my 20)) = ''v'' \<and>
       fst (me 5 ''k'') = Inr () \<and> fst (snd (me 5 ''k'')) = [] \<and> fst (me 5 ''other'') = Inr () \<and> isl (fst (me 20 ''k'')))"
  by (simp add: redis_Set_def redis_Get_def mysql_Set_def mysql_Get_def memory_Set_def memory_Get_def memory_NewCache_def getCacheVal_def
      cache_Unmarshal_def cache_Marshal_def quoted_def mem_kv_ops_def mem_cacheval_def expiry_def ErrRecordNotFound_cache_def update_rows_def)

end
