(* ===== verification/Base64.thy ===== *)
theory Base64
  imports Encryptor
begin

text \<open>
  \<open>encryptor/base64.go\<close> and the Base64 forms of AES: the standard encoding of \<open>encoding/base64\<close> (three
  bytes as four characters, padded with \<open>=\<close>; the decoder skips line breaks and ignores unused low bits),
  and encryption followed by it. The offset in a decoding error is left out.
\<close>

definition b64_alphabet :: string where
  "b64_alphabet = ''ABCDEFGHIJKLMNOPQRSTUVWXYZabcdefghijklmnopqrstuvwxyz0123456789+/''"

definition b64_char :: "nat \<Rightarrow> char" where
  "b64_char n = b64_alphabet ! n"

definition b64_value :: "char \<Rightarrow> nat option" where
  "b64_value c = (let i = length (takeWhile (\<lambda>a. a \<noteq> c) b64_alphabet) in if i < 64 then Some i else None)"

fun b64_encode :: "nat list \<Rightarrow> string" where
  "b64_encode [] = []"
| "b64_encode [a] = [b64_char (a div 4), b64_char (a mod 4 * 16), CHR ''='', CHR ''='']"
| "b64_encode [a, b] = [b64_char (a div 4), b64_char (a mod 4 * 16 + b div 16), b64_char (b mod 16 * 4), CHR ''='']"
| "b64_encode (a # b # c # rest) =
     b64_char (a div 4) # b64_char (a mod 4 * 16 + b div 16) # b64_char (b mod 16 * 4 + c div 64) # b64_char (c mod 64) # b64_encode rest"

definition b64_quad :: "nat \<Rightarrow> nat \<Rightarrow> nat \<Rightarrow> nat \<Rightarrow> nat list" where
  "b64_quad i j k l = [i * 4 + j div 16, j mod 16 * 16 + k div 4, k mod 4 * 64 + l]"

fun b64_decode :: "string \<Rightarrow> nat list option" where
  "b64_decode [] = Some []"
| "b64_decode (a # b # c # d # rest) = (case (b64_value a, b64_value b) of
     (Some i, Some j) \<Rightarrow>
       (if c = CHR ''='' then (if d = CHR ''='' \<and> rest = [] then Some (take 1 (b64_quad i j 0 0)) else None)
        else case b64_value c of
          None \<Rightarrow> None
        | Some k \<Rightarrow>
            (if d = CHR ''='' then (if rest = [] then Some (take 2 (b64_quad i j k 0)) else None)
             else case b64_value d of
               None \<Rightarrow> None
             | Some l \<Rightarrow> map_option ((@) (b64_quad i j k l)) (b64_decode rest)))
   | _ \<Rightarrow> None)"
| "b64_decode _ = None"

definition EncodeBase64 :: "bytes \<Rightarrow> string" where
  "EncodeBase64 src = b64_encode (map unat src)"

definition DecodeBase64 :: "string \<Rightarrow> bytes res" where
  "DecodeBase64 src = (case b64_decode (filter (\<lambda>c. c \<noteq> CHR 0x0A \<and> c \<noteq> CHR 0x0D) src) of
     None \<Rightarrow> Inl (Err ''illegal base64 data at input byte'')
   | Some bs \<Rightarrow> Inr (map of_nat bs))"

text \<open>An encryption may panic (outer \<open>None\<close>).\<close>

type_synonym encryptFunc = "bytes \<Rightarrow> bytes \<Rightarrow> bytes res option"

definition EncryptToBase64 :: "encryptFunc \<Rightarrow> bytes \<Rightarrow> bytes \<Rightarrow> string res option" where
  "EncryptToBase64 ef key src = (case ef key src of
     None \<Rightarrow> None
   | Some (Inl e) \<Rightarrow> Some (Inl e)
   | Some (Inr encrypted) \<Rightarrow> Some (Inr (EncodeBase64 encrypted)))"

definition DecryptFromBase64 :: "encryptFunc \<Rightarrow> bytes \<Rightarrow> string \<Rightarrow> bytes res option" where
  "DecryptFromBase64 df key src = (case DecodeBase64 src of
     Inl e \<Rightarrow> Some (Inl e)
   | Inr buf \<Rightarrow> df key buf)"

definition AesEncryptToBase64 :: "new_cipher \<Rightarrow> bytes \<Rightarrow> bytes \<Rightarrow> string res option" where
  "AesEncryptToBase64 newc key plainText = EncryptToBase64 (AesEncrypt newc) key plainText"

definition AesDecryptFromBase64 :: "new_cipher \<Rightarrow> bytes \<Rightarrow> string \<Rightarrow> bytes res option" where
  "AesDecryptFromBase64 newc key cipherText = DecryptFromBase64 (AesDecrypt newc) key cipherText"

section \<open>Round trip\<close>

lemma takeWhile_neq_nth:
  "distinct xs \<Longrightarrow> n < length xs \<Longrightarrow> length (takeWhile (\<lambda>a. a \<noteq> xs ! n) xs) = n"
proof (induction xs arbitrary: n)
  case (Cons x xs)
  then show ?case by (cases n) auto
qed simp

lemma b64_alphabet_facts: "distinct b64_alphabet" "length b64_alphabet = 64"
  "CHR ''='' \<notin> set b64_alphabet" "CHR 0x0A \<notin> set b64_alphabet" "CHR 0x0D \<notin> set b64_alphabet"
  by (simp_all add: b64_alphabet_def)

lemma b64_char_in: "n < 64 \<Longrightarrow> b64_char n \<in> set b64_alphabet"
  using b64_alphabet_facts(2) by (simp add: b64_char_def)

lemma b64_value_char [simp]: "n < 64 \<Longrightarrow> b64_value (b64_char n) = Some n"
  using takeWhile_neq_nth [OF b64_alphabet_facts(1), of n] b64_alphabet_facts(2)
  by (simp add: b64_value_def b64_char_def)

lemma b64_char_neq [simp]: "n < 64 \<Longrightarrow> b64_char n \<noteq> CHR ''=''" "n < 64 \<Longrightarrow> b64_char n \<noteq> CHR 0x0A" "n < 64 \<Longrightarrow> b64_char n \<noteq> CHR 0x0D"
  using b64_char_in b64_alphabet_facts(3-5) by metis+

lemma b64_sextets [simp]:
  fixes a b c :: nat
  shows "a < 256 \<Longrightarrow> a div 4 < 64" "a mod 4 * 16 < 64" "b < 256 \<Longrightarrow> a mod 4 * 16 + b div 16 < 64" "b mod 16 * 4 < 64"
    "c < 256 \<Longrightarrow> b mod 16 * 4 + c div 64 < 64" "c mod 64 < 64"
  by (simp_all add: less_mult_imp_div_less) (presburger+)?

lemma b64_join:
  fixes a b c :: nat
  shows "b < 256 \<Longrightarrow> c < 256 \<Longrightarrow>
      b64_quad (a div 4) (a mod 4 * 16 + b div 16) (b mod 16 * 4 + c div 64) (c mod 64) = [a, b, c]"
    and "b < 256 \<Longrightarrow> take 2 (b64_quad (a div 4) (a mod 4 * 16 + b div 16) (b mod 16 * 4) 0) = [a, b]"
    and "take (Suc 0) (b64_quad (a div 4) (a mod 4 * 16) 0 0) = [a]"
  by (simp_all add: b64_quad_def less_mult_imp_div_less)

lemma b64_decode_encode: "list_all (\<lambda>b. b < 256) bs \<Longrightarrow> b64_decode (b64_encode bs) = Some bs"
  by (induction bs rule: b64_encode.induct) (simp_all add: b64_join)

lemma b64_encode_plain: "list_all (\<lambda>b. b < 256) bs \<Longrightarrow>
    filter (\<lambda>c. c \<noteq> CHR 0x0A \<and> c \<noteq> CHR 0x0D) (b64_encode bs) = b64_encode bs"
  by (induction bs rule: b64_encode.induct) simp_all

lemma DecodeBase64_EncodeBase64 [simp]: "DecodeBase64 (EncodeBase64 src) = Inr src"
proof -
  have "list_all (\<lambda>b. b < 256) (map unat src)"
    using unsigned_less [where ?'a = nat and ?'b = 8] by (auto simp: list_all_iff)
  then show ?thesis by (simp add: DecodeBase64_def EncodeBase64_def b64_encode_plain b64_decode_encode o_def)
qed

lemma AesBase64_roundtrip:
  assumes "cipher_ok aes_BlockSize newc" "newc key = Inr blk"
  shows "\<exists>s. AesEncryptToBase64 newc key p = Some (Inr s) \<and> AesDecryptFromBase64 newc key s = Some (Inr p)"
  using AesEncrypt_roundtrip [OF assms, of p]
  by (auto simp: AesEncryptToBase64_def AesDecryptFromBase64_def EncryptToBase64_def DecryptFromBase64_def)

end
