(* ===== verification/Settings.thy ===== *)
theory Settings
  imports Cache Base64
begin

text \<open>
  The system settings: \<open>settings/secret.go\<close> (secrets encrypted with AES and marked by a prefix) and
  \<open>settings/setting.go\<close> (one table, read through a cache). The table statements, the upsert, the cache, the block
  cipher and the key are gathered in \<open>settings_env\<close>. A state is the database and the cache; an argument \<open>env\<close>
  is what others do between two steps of an operation. \<open>None\<close> is a panic of the decryption.
\<close>

definition str_bytes :: "string \<Rightarrow> bytes" where
  "str_bytes s = map (\<lambda>c. of_nat (of_char c)) s"

definition bytes_str :: "bytes \<Rightarrow> string" where
  "bytes_str bs = map (\<lambda>b. char_of (unat b)) bs"

lemma bytes_str_str_bytes [simp]: "bytes_str (str_bytes s) = s"
  by (induction s) (auto simp: bytes_str_def str_bytes_def unat_of_nat char_of_def [symmetric])

section \<open>Secrets\<close>

definition secretEncryptedPrefix :: string where
  "secretEncryptedPrefix = ''encryped:''"

definition is_encrypted :: "string \<Rightarrow> bool" where
  "is_encrypted s = has_prefix s secretEncryptedPrefix"

definition EncryptSecret :: "new_cipher \<Rightarrow> string \<Rightarrow> string \<Rightarrow> string option" where
  "EncryptSecret newc secretAESKey oriData =
     (if is_encrypted oriData then Some oriData
      else case AesEncryptToBase64 newc (str_bytes secretAESKey) (str_bytes oriData) of
        None \<Rightarrow> None
      | Some (Inl e) \<Rightarrow> Some oriData
      | Some (Inr encrypted) \<Rightarrow> Some (secretEncryptedPrefix @ encrypted))"

definition DecryptSecret :: "new_cipher \<Rightarrow> string \<Rightarrow> string \<Rightarrow> string option" where
  "DecryptSecret newc secretAESKey encData =
     (if \<not> is_encrypted encData then Some encData
      else let oriData = drop (length secretEncryptedPrefix) encData
           in case AesDecryptFromBase64 newc (str_bytes secretAESKey) oriData of
                None \<Rightarrow> None
              | Some (Inl e) \<Rightarrow> Some oriData
              | Some (Inr decrypted) \<Rightarrow> Some (bytes_str decrypted))"

text \<open>\<open>init\<close>: the key of the environment replaces the built-in one when it is set.\<close>

definition secretAESKey_of :: "string \<Rightarrow> string" where
  "secretAESKey_of skey = (if skey \<noteq> [] then skey else ''T651qzaEFL6Dpudy'')"

section \<open>Settings\<close>

type_synonym ValueType = string

definition ValueSecret :: ValueType where "ValueSecret = ''secret''"
definition ValuePassword :: ValueType where "ValuePassword = ''password''"
definition ValueText :: ValueType where "ValueText = ''text''"
definition ValueYaml :: ValueType where "ValueYaml = ''yaml''"

record SettingItem =
  st_ID :: nat
  st_CreatedAt :: "gotime option"
  st_UpdatedAt :: "gotime option"
  st_DeletedAt :: "gotime option"
  st_Group :: string
  st_Key :: string
  st_Name :: string
  st_Describe :: string
  st_ValueType :: ValueType
  st_Value :: string
  st_Default :: string

definition zero_setting :: SettingItem where
  "zero_setting = \<lparr>st_ID = 0, st_CreatedAt = None, st_UpdatedAt = None, st_DeletedAt = None, st_Group = [], st_Key = [],
     st_Name = [], st_Describe = [], st_ValueType = [], st_Value = [], st_Default = []\<rparr>"

record ('d, 'q) settings_env =
  se_T :: "('d, SettingItem) table_ops"
  se_U :: "'d \<Rightarrow> SettingItem \<Rightarrow> 'd res"
  se_C :: "('q, SettingItem) cache_ops"
  se_newc :: new_cipher
  se_key :: string

definition redisCacheKey :: "string \<Rightarrow> string \<Rightarrow> string" where
  "redisCacheKey grp key = ''core_setting::'' @ grp @ ''::'' @ key"

definition is_secret :: "SettingItem \<Rightarrow> bool" where
  "is_secret item = (st_ValueType item = ValueSecret \<or> st_ValueType item = ValuePassword)"

text \<open>The GORM hook that runs before a row is created or updated.\<close>

definition BeforeSave :: "('d, 'q) settings_env \<Rightarrow> SettingItem \<Rightarrow> SettingItem option" where
  "BeforeSave E item = (if is_secret item
     then map_option (\<lambda>v. item\<lparr>st_Value := v\<rparr>) (EncryptSecret (se_newc E) (se_key E) (st_Value item))
     else Some item)"

definition Identify :: "SettingItem \<Rightarrow> string" where
  "Identify item = st_Group item @ ''/'' @ st_Key item"

definition SecretValue :: "('d, 'q) settings_env \<Rightarrow> SettingItem \<Rightarrow> string option" where
  "SecretValue E item = (if is_secret item then DecryptSecret (se_newc E) (se_key E) (st_Value item) else Some (st_Value item))"

definition settings_GetByID :: "('d, 'q) settings_env \<Rightarrow> nat \<Rightarrow> 'd \<Rightarrow> SettingItem res" where
  "settings_GetByID E k d = (case tb_find (se_T E) d (\<lambda>_ r. st_ID r = k \<and> st_DeletedAt r = None) any_order of
     Inl e \<Rightarrow> Inl e
   | Inr rs \<Rightarrow> Inr (first_or zero_setting rs))"

text \<open>\<open>Create\<close> stamps the times; a missing value type takes the default of its tag.\<close>

definition setting_created :: "gotime \<Rightarrow> SettingItem \<Rightarrow> SettingItem" where
  "setting_created now v = v\<lparr>
     st_CreatedAt := (case st_CreatedAt v of None \<Rightarrow> Some now | Some t \<Rightarrow> Some t),
     st_UpdatedAt := (case st_UpdatedAt v of None \<Rightarrow> Some now | Some t \<Rightarrow> Some t),
     st_ValueType := (if st_ValueType v = [] then ValueText else st_ValueType v)\<rparr>"

definition UpsertSetting ::
  "('d, 'q) settings_env \<Rightarrow> gotime \<Rightarrow> ('d \<times> 'q \<Rightarrow> 'd \<times> 'q) \<Rightarrow> SettingItem \<Rightarrow> 'd \<times> 'q \<Rightarrow> (unit res \<times> 'd \<times> 'q) option" where
  "UpsertSetting E now env v s =
     (let q1 = snd (ca_Delete (se_C E) (snd s) now (redisCacheKey (st_Group v) (st_Key v)));
          (d, q) = env (fst s, q1)
      in case BeforeSave E v of
           None \<Rightarrow> None
         | Some v' \<Rightarrow> (case se_U E d (setting_created now v') of
             Inl e \<Rightarrow> Some (Inl e, d, q)
           | Inr d' \<Rightarrow> Some (Inr (), d', q)))"

definition SetText ::
  "('d, 'q) settings_env \<Rightarrow> gotime \<Rightarrow> ('d \<times> 'q \<Rightarrow> 'd \<times> 'q) \<Rightarrow> string \<Rightarrow> string \<Rightarrow> string \<Rightarrow> 'd \<times> 'q \<Rightarrow> (unit res \<times> 'd \<times> 'q) option" where
  "SetText E now env grp key val s =
     UpsertSetting E now env (zero_setting\<lparr>st_Group := grp, st_Key := key, st_Value := val, st_ValueType := ValueText\<rparr>) s"

definition settings_Set ::
  "('d, 'q) settings_env \<Rightarrow> gotime \<Rightarrow> ('d \<times> 'q \<Rightarrow> 'd \<times> 'q) \<Rightarrow> string \<Rightarrow> string \<Rightarrow> string \<Rightarrow> 'd \<times> 'q \<Rightarrow> (unit res \<times> 'd \<times> 'q) option" where
  "settings_Set E now env grp key val s = SetText E now env grp key val s"

definition SetYaml ::
  "('y \<Rightarrow> string res) \<Rightarrow> ('d, 'q) settings_env \<Rightarrow> gotime \<Rightarrow> ('d \<times> 'q \<Rightarrow> 'd \<times> 'q) \<Rightarrow> string \<Rightarrow> string \<Rightarrow> 'y \<Rightarrow> 'd \<times> 'q \<Rightarrow>
     (unit res \<times> 'd \<times> 'q) option" where
  "SetYaml marshal E now env grp key val s = (case marshal val of
     Inl e \<Rightarrow> Some (Inl e, s)
   | Inr vData \<Rightarrow>
       UpsertSetting E now env (zero_setting\<lparr>st_Group := grp, st_Key := key, st_Value := vData, st_ValueType := ValueYaml\<rparr>) s)"

text \<open>
  \<open>Get\<close>: the cache, then the first row by key; the query also asks for the identifier when the cache left one
  behind. \<open>env\<close> runs between the query and the write to the cache.
\<close>

definition setting_ErrNotFound :: gerror where
  "setting_ErrNotFound = Err ''record not found''"

definition settings_Get ::
  "('d, 'q) settings_env \<Rightarrow> gotime \<Rightarrow> ('d \<times> 'q \<Rightarrow> 'd \<times> 'q) \<Rightarrow> string \<Rightarrow> string \<Rightarrow> 'd \<times> 'q \<Rightarrow> SettingItem res \<times> 'd \<times> 'q" where
  "settings_Get E now env grp key s =
     (let rdsKey = redisCacheKey grp key
      in case ca_Get (se_C E) (snd s) now rdsKey zero_setting of
           (err, ret, q1) \<Rightarrow>
             (if err = Inr () \<and> st_Value ret \<noteq> [] then (Inr ret, fst s, q1)
              else case tb_find (se_T E) (fst s) (\<lambda>_ r. st_Group r = grp \<and> st_Key r = key \<and> st_DeletedAt r = None \<and>
                          (st_ID ret \<noteq> 0 \<longrightarrow> st_ID r = st_ID ret)) (\<lambda>a b. st_ID a \<le> st_ID b) of
                     Inl e \<Rightarrow> (Inl e, fst s, q1)
                   | Inr [] \<Rightarrow> (Inl setting_ErrNotFound, fst s, q1)
                   | Inr (r # _) \<Rightarrow>
                       (case env (fst s, q1) of (d, q) \<Rightarrow>
                          (Inr r, d, if st_Value r \<noteq> [] then snd (ca_Set (se_C E) q now rdsKey r (5 * 60 * time_Second)) else q))))"

definition GetValue ::
  "('d, 'q) settings_env \<Rightarrow> gotime \<Rightarrow> ('d \<times> 'q \<Rightarrow> 'd \<times> 'q) \<Rightarrow> string \<Rightarrow> string \<Rightarrow> 'd \<times> 'q \<Rightarrow> string res option \<times> 'd \<times> 'q" where
  "GetValue E now env grp key s = (case settings_Get E now env grp key s of
     (Inl e, s') \<Rightarrow> (Some (Inl e), s')
   | (Inr si, s') \<Rightarrow> (map_option Inr (SecretValue E si), s'))"

definition GetText ::
  "('d, 'q) settings_env \<Rightarrow> gotime \<Rightarrow> ('d \<times> 'q \<Rightarrow> 'd \<times> 'q) \<Rightarrow> string \<Rightarrow> string \<Rightarrow> 'd \<times> 'q \<Rightarrow> string res option \<times> 'd \<times> 'q" where
  "GetText E now env grp key s = GetValue E now env grp key s"

definition GetSecret ::
  "('d, 'q) settings_env \<Rightarrow> gotime \<Rightarrow> ('d \<times> 'q \<Rightarrow> 'd \<times> 'q) \<Rightarrow> string \<Rightarrow> string \<Rightarrow> 'd \<times> 'q \<Rightarrow> string res option \<times> 'd \<times> 'q" where
  "GetSecret E now env grp key s = (case settings_Get E now env grp key s of
     (Inl e, s') \<Rightarrow> (Some (Inl e), s')
   | (Inr si, s') \<Rightarrow> (map_option Inr (DecryptSecret (se_newc E) (se_key E) (st_Value si)), s'))"

text \<open>The readers that decode the text: \<open>decode\<close> is \<open>yaml.Unmarshal\<close> or \<open>json.Unmarshal\<close> into the caller's value.\<close>

definition decode_with :: "(string \<Rightarrow> 'y \<Rightarrow> unit res \<times> 'y) \<Rightarrow> 'y \<Rightarrow> string res option \<times> 's \<Rightarrow> (unit res \<times> 'y) option \<times> 's" where
  "decode_with decode val r = (case r of
     (None, s) \<Rightarrow> (None, s)
   | (Some (Inl e), s) \<Rightarrow> (Some (Inl e, val), s)
   | (Some (Inr text), s) \<Rightarrow> (Some (decode text val), s))"

definition GetYaml where
  "GetYaml unmarshal E now env grp key val s = decode_with unmarshal val (GetValue E now env grp key s)"

definition GetJSON where
  "GetJSON unmarshal E now env grp key val s = decode_with unmarshal val (GetValue E now env grp key s)"

definition GetSecretYaml where
  "GetSecretYaml unmarshal E now env grp key val s = decode_with unmarshal val (GetSecret E now env grp key s)"

definition settings_List :: "('d, 'q) settings_env \<Rightarrow> string \<Rightarrow> string list \<Rightarrow> 'd \<Rightarrow> SettingItem list res" where
  "settings_List E grp keys d =
     tb_find (se_T E) d (\<lambda>_ r. st_Group r = grp \<and> st_Key r \<in> set keys \<and> st_DeletedAt r = None) any_order"

text \<open>\<open>Updates\<close>: four columns of each given row, by identifier or by key, then its cache entry is dropped.\<close>

definition update_one ::
  "('d, 'q) settings_env \<Rightarrow> gotime \<Rightarrow> SettingItem \<Rightarrow> 'd \<times> 'q \<Rightarrow> (unit res \<times> 'd \<times> 'q) option" where
  "update_one E now item s =
     (case BeforeSave E (zero_setting\<lparr>st_Value := st_Value item, st_ValueType := st_ValueType item, st_Describe := st_Describe item,
            st_Name := st_Name item\<rparr>) of
        None \<Rightarrow> None
      | Some u \<Rightarrow>
          (case tb_update (se_T E) (fst s)
                  (\<lambda>r. (if st_ID item \<noteq> 0 then st_ID r = st_ID item else st_Group r = st_Group item \<and> st_Key r = st_Key item) \<and> st_DeletedAt r = None)
                  (\<lambda>r. r\<lparr>st_Value := st_Value u, st_ValueType := st_ValueType u, st_Describe := st_Describe u, st_Name := st_Name u,
                        st_UpdatedAt := Some now\<rparr>) of
             Inl e \<Rightarrow> Some (Inl e, s)
           | Inr d' \<Rightarrow> Some (Inr (), d', snd (ca_Delete (se_C E) (snd s) now (redisCacheKey (st_Group item) (st_Key item))))))"

fun Updates :: "('d, 'q) settings_env \<Rightarrow> gotime \<Rightarrow> SettingItem list \<Rightarrow> 'd \<times> 'q \<Rightarrow> (unit res \<times> 'd \<times> 'q) option" where
  "Updates E now [] s = Some (Inr (), s)"
| "Updates E now (item # items) s = (case update_one E now item s of
     None \<Rightarrow> None
   | Some (Inl e, s') \<Rightarrow> Some (Inl e, s')
   | Some (Inr _, s') \<Rightarrow> Updates E now items s')"

end
