(* ===== verification/Settings_Correct.thy ===== *)
theory Settings_Correct
  imports Settings
begin

text \<open>
  Properties of the settings: secrets survive encryption, a setting read through the cache is the row of the
  table in every sequence of calls, and two ways in which the cache can still be left behind the table.
\<close>

section \<open>Secrets\<close>

lemma is_encrypted_prefix [simp]: "is_encrypted (secretEncryptedPrefix @ s)"
  by (simp add: is_encrypted_def)

text \<open>
  Secrets (C21): with a key the cipher accepts, every text is encrypted without a panic; encrypting again changes
  nothing; and decrypting gives the text back, unless it began with the mark of encrypted texts, when it is
  stored as it is.
\<close>

theorem secret_roundtrip:
  assumes "cipher_ok aes_BlockSize newc" "newc (str_bytes key) = Inr blk"
  shows "\<exists>c. EncryptSecret newc key s = Some c \<and> EncryptSecret newc key c = Some c \<and> is_encrypted c \<and>
    (if is_encrypted s then c = s else DecryptSecret newc key c = Some s)"
proof (cases "is_encrypted s")
  case True
  then show ?thesis by (simp add: EncryptSecret_def)
next
  case False
  obtain b where "AesEncryptToBase64 newc (str_bytes key) (str_bytes s) = Some (Inr b)"
    "AesDecryptFromBase64 newc (str_bytes key) b = Some (Inr (str_bytes s))"
    using AesBase64_roundtrip [OF assms] by blast
  then show ?thesis using False by (simp add: EncryptSecret_def DecryptSecret_def)
qed

theorem secret_roundtrip_witness:
  "\<exists>c. EncryptSecret (xor_cipher 16) (secretAESKey_of []) ''pass'' = Some c \<and> DecryptSecret (xor_cipher 16) (secretAESKey_of []) c = Some ''pass''"
proof -
  have "\<exists>blk. xor_cipher 16 (str_bytes (secretAESKey_of [])) = Inr blk"
    by (simp add: xor_cipher_def str_bytes_def secretAESKey_of_def)
  moreover have "\<not> is_encrypted ''pass''" by (simp add: is_encrypted_def has_prefix_def secretEncryptedPrefix_def)
  moreover have "cipher_ok aes_BlockSize (xor_cipher 16)" using xor_cipher_ok(1) [of 16] by (simp add: aes_BlockSize_def)
  ultimately show ?thesis using secret_roundtrip [of "xor_cipher 16" "secretAESKey_of []" _ "''pass''"] by auto
qed

section \<open>The table and the cache\<close>

definition same_key :: "SettingItem \<Rightarrow> SettingItem \<Rightarrow> bool" where
  "same_key v r = (st_Group r = st_Group v \<and> st_Key r = st_Key v)"

definition set_columns :: "SettingItem \<Rightarrow> SettingItem \<Rightarrow> SettingItem" where
  "set_columns v r = r\<lparr>st_Name := st_Name v, st_Describe := st_Describe v, st_Value := st_Value v, st_ValueType := st_ValueType v,
     st_Default := st_Default v\<rparr>"

definition unique_keys :: "SettingItem list \<Rightarrow> bool" where
  "unique_keys rs = distinct (map (\<lambda>r. (st_Group r, st_Key r)) rs)"

text \<open>
  The table with its unique index on group and key: \<open>INSERT ... ON DUPLICATE KEY UPDATE\<close> changes the five
  named columns of the row with that key, deleted or not, or else adds a row.
\<close>

locale settings_store = sql_table T rows tinv st_ID setpk + cache_store C vw zero_setting cinv
  for T :: "('d, SettingItem) table_ops" and rows :: "'d \<Rightarrow> SettingItem list" and tinv :: "'d \<Rightarrow> bool"
    and setpk :: "nat \<Rightarrow> SettingItem \<Rightarrow> SettingItem"
    and C :: "('q, SettingItem) cache_ops" and vw :: "'q \<Rightarrow> string \<Rightarrow> SettingItem option" and cinv :: "'q \<Rightarrow> bool" +
  fixes U :: "'d \<Rightarrow> SettingItem \<Rightarrow> 'd res"
  assumes unique: "tinv d \<Longrightarrow> unique_keys (rows d)"
    and upsert_ok: "tinv d \<Longrightarrow> st_ID v = 0 \<Longrightarrow> U d v = Inr d' \<Longrightarrow> tinv d' \<and>
       (if list_ex (same_key v) (rows d) then rows d' = update_rows (same_key v) (set_columns v) (rows d)
        else \<exists>k. rows d' = rows d @ [v\<lparr>st_ID := k\<rparr>])"

text \<open>The row a reader should see.\<close>

definition row_of :: "SettingItem list \<Rightarrow> string \<Rightarrow> string \<Rightarrow> SettingItem option" where
  "row_of rs grp key = List.find (\<lambda>r. st_Group r = grp \<and> st_Key r = key \<and> st_DeletedAt r = None) rs"

lemma row_of_iff:
  assumes "unique_keys rs"
  shows "row_of rs grp key = Some r \<longleftrightarrow> r \<in> set rs \<and> st_Group r = grp \<and> st_Key r = key \<and> st_DeletedAt r = None"
  using assms unfolding row_of_def unique_keys_def
  by (induction rs) (auto simp: image_iff split: if_splits)

lemma row_of_None_iff: "row_of rs grp key = None \<longleftrightarrow> (\<forall>r \<in> set rs. \<not> (st_Group r = grp \<and> st_Key r = key \<and> st_DeletedAt r = None))"
  by (auto simp: row_of_def find_None_iff)

lemma row_of_update:
  assumes "\<And>r. P r \<Longrightarrow> \<not> (st_Group r = grp \<and> st_Key r = key)" "\<And>r. st_Group (f r) = st_Group r" "\<And>r. st_Key (f r) = st_Key r"
  shows "row_of (update_rows P f rs) grp key = row_of rs grp key"
  using assms unfolding row_of_def update_rows_def by (induction rs) auto

lemma row_of_append: "\<not> (st_Group v = grp \<and> st_Key v = key) \<Longrightarrow> row_of (rs @ [v]) grp key = row_of rs grp key"
  unfolding row_of_def by (induction rs) auto

text \<open>Cache keys of different settings differ as long as the groups have no colon.\<close>

definition plain :: "string \<Rightarrow> bool" where
  "plain grp = (CHR '':'' \<notin> set grp)"

lemma redisCacheKey_inj:
  assumes "plain g" "plain g'" "redisCacheKey g k = redisCacheKey g' k'"
  shows "g = g'" "k = k'"
proof -
  have "split_on CHR '':'' (g @ CHR '':'' # CHR '':'' # k) = split_on CHR '':'' (g' @ CHR '':'' # CHR '':'' # k')"
    using assms(3) by (simp add: redisCacheKey_def)
  then show "g = g'" using assms(1,2) by (simp add: plain_def split_on_append)
  then show "k = k'" using assms(3) by (simp add: redisCacheKey_def)
qed

section \<open>Reading through the cache\<close>

definition coherent :: "('d \<Rightarrow> SettingItem list) \<Rightarrow> ('q \<Rightarrow> string \<Rightarrow> SettingItem option) \<Rightarrow> 'd \<times> 'q \<Rightarrow> bool" where
  "coherent rows vw s = (\<forall>g k v. plain g \<longrightarrow> vw (snd s) (redisCacheKey g k) = Some v \<longrightarrow> row_of (rows (fst s)) g k = Some v)"

text \<open>
  Sequences of calls, none of them interrupted, from an empty cache: settings are upserted, read, and updated
  by key or by identifier, where an identifier comes with the key of its row. The cache entry is dropped
  successfully when a setting is written.
\<close>

inductive settings_run ::
  "('d, 'q) settings_env \<Rightarrow> ('d \<Rightarrow> SettingItem list) \<Rightarrow> ('d \<Rightarrow> bool) \<Rightarrow> ('q \<Rightarrow> string \<Rightarrow> SettingItem option) \<Rightarrow> ('q \<Rightarrow> bool) \<Rightarrow> 'd \<times> 'q \<Rightarrow> bool"
  for E rows tinv vw cinv where
  start: "tinv d \<Longrightarrow> cinv q \<Longrightarrow> (\<And>k. vw q k = None) \<Longrightarrow> settings_run E rows tinv vw cinv (d, q)"
| upsert: "settings_run E rows tinv vw cinv s \<Longrightarrow> plain (st_Group v) \<Longrightarrow> st_ID v = 0 \<Longrightarrow>
    fst (ca_Delete (se_C E) (snd s) now (redisCacheKey (st_Group v) (st_Key v))) = Inr () \<Longrightarrow>
    UpsertSetting E now id v s = Some (r, s') \<Longrightarrow> settings_run E rows tinv vw cinv s'"
| get: "settings_run E rows tinv vw cinv s \<Longrightarrow> plain g \<Longrightarrow> settings_Get E now id g k s = (r, s') \<Longrightarrow> settings_run E rows tinv vw cinv s'"
| update: "settings_run E rows tinv vw cinv s \<Longrightarrow> plain (st_Group v) \<Longrightarrow>
    fst (ca_Delete (se_C E) (snd s) now (redisCacheKey (st_Group v) (st_Key v))) = Inr () \<Longrightarrow>
    (\<And>x. x \<in> set (rows (fst s)) \<Longrightarrow> st_ID x = st_ID v \<Longrightarrow> same_key v x) \<Longrightarrow>
    update_one E now v s = Some (r, s') \<Longrightarrow> settings_run E rows tinv vw cinv s'"

context settings_store
begin

lemma coherent_drop:
  assumes "coherent rows vw (d, q)" "cinv q" and del: "ca_Delete C q now (redisCacheKey g0 k0) = (Inr (), q')" and "plain g0"
    and other: "\<And>g k. plain g \<Longrightarrow> (g, k) \<noteq> (g0, k0) \<Longrightarrow> row_of (rows d') g k = row_of (rows d) g k"
  shows "coherent rows vw (d', q')"
  unfolding coherent_def
proof (intro allI impI)
  fix g k v assume a: "plain g" "vw (snd (d', q')) (redisCacheKey g k) = Some v"
  have ne: "(g, k) \<noteq> (g0, k0)" using a delete_ok [OF assms(2) del] by auto
  have "vw q (redisCacheKey g k) = Some v" using a delete_keeps [OF assms(2) del, of "redisCacheKey g k"] by auto
  then show "row_of (rows (fst (d', q'))) g k = Some v" using assms(1) a(1) other [OF a(1) ne] by (simp add: coherent_def)
qed

lemma coherent_less: "coherent rows vw (d, q) \<Longrightarrow> (\<And>j. vw q' j = vw q j \<or> vw q' j = None) \<Longrightarrow> coherent rows vw (d, q')"
  unfolding coherent_def by (metis fst_conv option.distinct(1) snd_conv)

lemma upsert_other:
  assumes "tinv d" "st_ID v = 0" "U d v = Inr d'" "(g, k) \<noteq> (st_Group v, st_Key v)"
  shows "row_of (rows d') g k = row_of (rows d) g k"
proof (cases "list_ex (same_key v) (rows d)")
  case True
  then show ?thesis using upsert_ok [OF assms(1-3)] assms(4)
    by (auto simp: same_key_def set_columns_def intro!: row_of_update)
next
  case False
  then obtain i where "rows d' = rows d @ [v\<lparr>st_ID := i\<rparr>]" using upsert_ok [OF assms(1-3)] by auto
  then show ?thesis using assms(4) by (auto intro!: row_of_append)
qed

lemma coherentD: "coherent rows vw (d, q) \<Longrightarrow> plain g \<Longrightarrow> vw q (redisCacheKey g k) = Some v \<Longrightarrow> row_of (rows d) g k = Some v"
  by (simp add: coherent_def)

lemma coherent_set:
  assumes coh: "coherent rows vw (d, q)" and q: "cinv q" and g: "plain g" and row: "row_of (rows d) g k = Some x"
    and st: "ca_Set C q now (redisCacheKey g k) x ttl = (u, q')"
  shows "cinv q' \<and> coherent rows vw (d, q')"
proof
  show "cinv q'" using set_view [OF q st, of "[]"] by simp
  have "row_of (rows d) g' k' = Some v" if a: "plain g'" "vw q' (redisCacheKey g' k') = Some v" for g' k' v
  proof (cases "redisCacheKey g' k' = redisCacheKey g k")
    case True
    then have "g' = g" "k' = k" using redisCacheKey_inj [OF a(1) g] by auto
    then show ?thesis using set_view [OF q st, of "[]"] a row coherentD [OF coh g, of k v] by auto
  next
    case False
    then show ?thesis using set_view [OF q st, of "redisCacheKey g' k'"] a coherentD [OF coh a(1), of k' v] by simp
  qed
  then show "coherent rows vw (d, q')" by (simp add: coherent_def)
qed

text \<open>What one read does: it returns the row of the table and keeps the cache in step.\<close>

lemma settings_Get_reads:
  assumes inv: "tinv d" "cinv q" "coherent rows vw (d, q)" and g: "plain g"
    and get: "settings_Get E now id g k (d, q) = (r, s')" and E: "se_T E = T" "se_C E = C"
  shows "(\<forall>x. r = Inr x \<longrightarrow> row_of (rows d) g k = Some x) \<and> fst s' = d \<and> cinv (snd s') \<and> coherent rows vw s'"
proof -
  let ?key = "redisCacheKey g k"
  obtain err ret q1 where c: "ca_Get C q now ?key zero_setting = (err, ret, q1)" using prod_cases3 by blast
  have q1: "cinv q1" "coherent rows vw (d, q1)" using get_keeps [OF inv(2) c] coherent_less [OF inv(3)] by auto
  have ret: "ret = zero_setting \<or> err = Inr () \<and> row_of (rows d) g k = Some ret"
  proof (cases err)
    case (Inl e)
    then show ?thesis using get_miss [OF inv(2), of now ?key e ret q1] c by simp
  next
    case (Inr u)
    then show ?thesis using get_hit [OF inv(2), of now ?key u ret q1] c inv(3) g by (auto simp: coherent_def)
  qed
  show ?thesis
  proof (cases "err = Inr () \<and> st_Value ret \<noteq> []")
    case True
    then have "r = Inr ret" "s' = (d, q1)" using get c E by (auto simp: settings_Get_def)
    moreover have "ret \<noteq> zero_setting" using True by (auto simp: zero_setting_def)
    ultimately show ?thesis using ret q1 by simp
  next
    case False
    let ?P = "\<lambda>_ x. st_Group x = g \<and> st_Key x = k \<and> st_DeletedAt x = None \<and> (st_ID ret \<noteq> 0 \<longrightarrow> st_ID x = st_ID ret)"
    show ?thesis
    proof (cases "tb_find T d ?P (\<lambda>a b. st_ID a \<le> st_ID b)")
      case (Inl e)
      then show ?thesis using get c E False q1 by (auto simp: settings_Get_def)
    next
      case (Inr rs)
      show ?thesis
      proof (cases rs)
        case Nil
        then show ?thesis using get c E False q1 Inr by (auto simp: settings_Get_def)
      next
        case (Cons x xs)
        have row: "row_of (rows d) g k = Some x"
          using find_set [OF inv(1) Inr] Cons by (auto simp: row_of_iff [OF unique [OF inv(1)]])
        define q2 where "q2 = (if st_Value x \<noteq> [] then snd (ca_Set C q1 now ?key x (5 * 60 * time_Second)) else q1)"
        have r: "r = Inr x" "s' = (d, q2)" using get c E False Inr Cons by (auto simp: settings_Get_def q2_def)
        obtain u q3 where st: "ca_Set C q1 now ?key x (5 * 60 * time_Second) = (u, q3)" by fastforce
        have "cinv q3 \<and> coherent rows vw (d, q3)" by (rule coherent_set [OF q1(2,1) g row st])
        then show ?thesis using r row q1 st by (auto simp: q2_def)
      qed
    qed
  qed
qed

end

text \<open>The invariant of sequences of calls.\<close>

context settings_store
begin

lemma update_one_other:
  assumes d: "tinv d" and upd: "update_one E now v (d, q) = Some (Inr u, d', q')" and E: "se_T E = T"
    and keys: "\<And>x. x \<in> set (rows d) \<Longrightarrow> st_ID x = st_ID v \<Longrightarrow> same_key v x" and other: "(g, k) \<noteq> (st_Group v, st_Key v)"
  shows "tinv d' \<and> row_of (rows d') g k = row_of (rows d) g k"
proof -
  let ?P = "\<lambda>r. (if st_ID v \<noteq> 0 then st_ID r = st_ID v else st_Group r = st_Group v \<and> st_Key r = st_Key v) \<and> st_DeletedAt r = None"
  obtain f where "tb_update T d ?P f = Inr d'" and f: "\<And>r. st_Group (f r) = st_Group r" "\<And>r. st_Key (f r) = st_Key r"
    using upd E by (fastforce simp: update_one_def split: option.splits sum.splits)
  then have rows': "rows d' = update_rows ?P f (rows d)" "tinv d'" using update_rows_ok [OF d] by auto
  have "update_rows ?P f (rows d) = update_rows (\<lambda>r. ?P r \<and> same_key v r) f (rows d)"
    using keys by (auto simp: update_rows_def same_key_def)
  then show ?thesis using rows' f other by (auto simp: same_key_def intro!: row_of_update)
qed

lemma settings_run_coherent:
  assumes run: "settings_run E rows tinv vw cinv s" and E: "se_T E = T" "se_C E = C" "se_U E = U"
  shows "tinv (fst s) \<and> cinv (snd s) \<and> coherent rows vw s"
  using run
proof (induction rule: settings_run.induct)
  case (start d q)
  then show ?case by (simp add: coherent_def)
next
  case (upsert s v now r s')
  obtain d q where s: "s = (d, q)" by fastforce
  obtain q1 where del: "ca_Delete C q now (redisCacheKey (st_Group v) (st_Key v)) = (Inr (), q1)"
    using upsert.hyps(4) E s by (cases "ca_Delete C q now (redisCacheKey (st_Group v) (st_Key v))") auto
  have q1: "cinv q1" using delete_keeps [OF _ del] upsert.IH s by auto
  obtain v' where v': "BeforeSave E v = Some v'" using upsert.hyps(5) by (auto simp: UpsertSetting_def Let_def split: option.splits)
  have key: "st_Group (setting_created now v') = st_Group v" "st_Key (setting_created now v') = st_Key v" "st_ID (setting_created now v') = 0"
    using v' upsert.hyps(3) by (auto simp: BeforeSave_def setting_created_def split: if_splits)
  show ?case
  proof (cases "U d (setting_created now v')")
    case (Inl e)
    then have "s' = (d, q1)" using upsert.hyps(5) E s del v' by (auto simp: UpsertSetting_def)
    then show ?thesis using coherent_drop [OF _ _ del upsert.hyps(2), of d d] upsert.IH s q1 by simp
  next
    case (Inr d')
    then have s': "s' = (d', q1)" using upsert.hyps(5) E s del v' by (auto simp: UpsertSetting_def)
    have "tinv d'" using upsert_ok [OF _ key(3) Inr] upsert.IH s by simp
    moreover have "coherent rows vw (d', q1)"
      using coherent_drop [OF _ _ del upsert.hyps(2), of d d'] upsert_other [OF _ key(3) Inr] upsert.IH s key by simp
    ultimately show ?thesis using s' q1 by simp
  qed
next
  case (get s g now k r s')
  obtain d q where s: "s = (d, q)" by fastforce
  show ?case using settings_Get_reads [OF _ _ _ get.hyps(2) get.hyps(3) [unfolded s] E(1,2)] get.IH s by auto
next
  case (update s v now r s')
  obtain d q where s: "s = (d, q)" by fastforce
  show ?case
  proof (cases r)
    case (Inl e)
    then have "s' = s" using update.hyps(5) by (auto simp: update_one_def split: option.splits sum.splits)
    then show ?thesis using update.IH by simp
  next
    case (Inr u)
    obtain q1 where del: "ca_Delete C q now (redisCacheKey (st_Group v) (st_Key v)) = (Inr (), q1)"
      using update.hyps(3) E s by (cases "ca_Delete C q now (redisCacheKey (st_Group v) (st_Key v))") auto
    obtain d' where s': "s' = (d', q1)"
      using update.hyps(5) s E del Inr by (auto simp: update_one_def split: option.splits sum.splits)
    have upd: "update_one E now v (d, q) = Some (Inr u, d', q1)" using update.hyps(5) s s' Inr by simp
    have inv: "tinv d" "cinv q" "coherent rows vw (d, q)" using update.IH s by auto
    have keys: "x \<in> set (rows d) \<Longrightarrow> st_ID x = st_ID v \<Longrightarrow> same_key v x" for x using update.hyps(4) s by simp
    have "tinv d'" using update_one_other [OF inv(1) upd E(1) keys, of "st_Group v @ ''x''" "[]"] by simp
    moreover have "coherent rows vw (d', q1)"
      using coherent_drop [OF inv(3,2) del update.hyps(2)] update_one_other [OF inv(1) upd E(1) keys] by auto
    ultimately show ?thesis using s' delete_keeps [OF inv(2) del] by simp
  qed
qed

end



section \<open>A store in memory\<close>

text \<open>A text form of settings: the fields in order, every character marked, every field closed.\<close>

fun field_text :: "string \<Rightarrow> string" where
  "field_text [] = '';''"
| "field_text (c # cs) = CHR ''.'' # c # field_text cs"

fun read_field :: "string \<Rightarrow> (string \<times> string) option" where
  "read_field (a # rest) =
     (if a = CHR '';'' then Some ([], rest)
      else if a = CHR ''.'' then
        (case rest of c # rest' \<Rightarrow> map_option (\<lambda>(f, r). (c # f, r)) (read_field rest') | [] \<Rightarrow> None)
      else None)"
| "read_field [] = None"

fun read_fields :: "nat \<Rightarrow> string \<Rightarrow> string list option" where
  "read_fields 0 s = (if s = [] then Some [] else None)"
| "read_fields (Suc n) s = (case read_field s of None \<Rightarrow> None | Some (f, r) \<Rightarrow> map_option ((#) f) (read_fields n r))"

definition time_text :: "gotime option \<Rightarrow> string" where
  "time_text t = (case t of None \<Rightarrow> [] | Some n \<Rightarrow> (if n < 0 then CHR ''-'' # nat_digits (nat (- n)) else nat_digits (nat n)))"

definition read_time :: "string \<Rightarrow> gotime option" where
  "read_time s = (case s of [] \<Rightarrow> None
     | c # cs \<Rightarrow> (if c = CHR ''-'' then map_option (\<lambda>n. - int n) (parse_digits cs) else map_option int (parse_digits s)))"

definition setting_fields :: "SettingItem \<Rightarrow> string list" where
  "setting_fields v = [nat_digits (st_ID v), time_text (st_CreatedAt v), time_text (st_UpdatedAt v), time_text (st_DeletedAt v),
     st_Group v, st_Key v, st_Name v, st_Describe v, st_ValueType v, st_Value v, st_Default v]"

definition setting_of_fields :: "string list \<Rightarrow> SettingItem option" where
  "setting_of_fields fs = (case fs of
     [i, c, u, d, g, k, n, e, t, v, f] \<Rightarrow> map_option (\<lambda>i. \<lparr>st_ID = i, st_CreatedAt = read_time c, st_UpdatedAt = read_time u,
        st_DeletedAt = read_time d, st_Group = g, st_Key = k, st_Name = n, st_Describe = e, st_ValueType = t, st_Value = v,
        st_Default = f\<rparr>) (parse_digits i)
   | _ \<Rightarrow> None)"

definition setting_json :: "SettingItem json" where
  "setting_json = \<lparr>js_Marshal = (\<lambda>v. Inr (concat (map field_text (setting_fields v)))),
     js_Unmarshal = (\<lambda>s old. case Option.bind (read_fields 11 s) setting_of_fields of
        None \<Rightarrow> (Inl (Err ''invalid text''), old) | Some v \<Rightarrow> (Inr (), v))\<rparr>"

lemma read_field_text [simp]: "read_field (field_text f @ r) = Some (f, r)"
  by (induction f rule: field_text.induct) auto

lemma read_fields_text: "read_fields (length fs) (concat (map field_text fs)) = Some fs"
  by (induction fs) auto

lemma read_time_text [simp]: "read_time (time_text t) = t"
proof (cases t)
  case (Some n)
  obtain c cs where cs: "nat_digits (nat n) = c # cs" by (metis nat_digits_nonempty neq_Nil_conv)
  have "read_time (c # cs) = Some (int (nat n))"
    using hd_nat_digits_not_sign [OF cs] parse_digits_nat_digits [of "nat n"] by (simp add: read_time_def cs)
  then show ?thesis using Some cs by (auto simp: time_text_def) (simp add: read_time_def)
qed (simp add: time_text_def read_time_def)

lemma setting_json_ok: "json_ok setting_json zero_setting"
proof -
  have "read_fields 11 (concat (map field_text (setting_fields v))) = Some (setting_fields v)" for v
  proof -
    have "length (setting_fields v) = 11" by (simp add: setting_fields_def)
    then show ?thesis using read_fields_text [of "setting_fields v"] by metis
  qed
  moreover have "setting_of_fields (setting_fields v) = Some v" for v
    by (simp add: setting_of_fields_def setting_fields_def)
  moreover have "read_fields 11 [] = None" by (simp add: eval_nat_numeral)
  ultimately show ?thesis by (auto simp: json_ok_def setting_json_def split: option.splits)
qed

definition settings_table :: "(SettingItem list, SettingItem) table_ops" where
  "settings_table = with_index unique_keys id (mem_table st_ID (\<lambda>k r. r\<lparr>st_ID := k\<rparr>))"

definition settings_upsert :: "SettingItem list \<Rightarrow> SettingItem \<Rightarrow> SettingItem list res" where
  "settings_upsert d v = (if list_ex (same_key v) d then Inr (update_rows (same_key v) (set_columns v) d)
     else Inr (d @ [v\<lparr>st_ID := Suc (foldr max (map st_ID d) 0)\<rparr>]))"

lemma fresh_id: "x \<in> set d \<Longrightarrow> st_ID x < Suc (foldr max (map st_ID d) 0)"
  by (induction d) (auto simp: less_Suc_eq_le max_def)

lemma settings_upsert_ok:
  assumes "mem_wf st_ID d \<and> unique_keys d" "settings_upsert d v = Inr d'"
  shows "(mem_wf st_ID d' \<and> unique_keys d') \<and>
    (if list_ex (same_key v) d then d' = update_rows (same_key v) (set_columns v) d else \<exists>k. d' = d @ [v\<lparr>st_ID := k\<rparr>])"
proof (cases "list_ex (same_key v) d")
  case True
  have wf: "mem_wf st_ID rs = (distinct (map st_ID rs) \<and> 0 \<notin> set (map st_ID rs))" for rs
    by (auto simp: mem_wf_def list_all_iff)
  have "map st_ID (update_rows (same_key v) (set_columns v) d) = map st_ID d"
    "map (\<lambda>r. (st_Group r, st_Key r)) (update_rows (same_key v) (set_columns v) d) = map (\<lambda>r. (st_Group r, st_Key r)) d"
    by (auto simp: update_rows_def set_columns_def)
  then show ?thesis using assms True by (simp add: settings_upsert_def wf unique_keys_def del: set_map)
next
  case False
  let ?k = "Suc (foldr max (map st_ID d) 0)"
  have d': "d' = d @ [v\<lparr>st_ID := ?k\<rparr>]" using assms(2) False by (simp add: settings_upsert_def)
  have "?k \<notin> st_ID ` set d" using fresh_id by (metis imageE less_irrefl)
  moreover have "(st_Group v, st_Key v) \<notin> (\<lambda>r. (st_Group r, st_Key r)) ` set d"
    using False by (auto simp: list_ex_iff same_key_def)
  ultimately show ?thesis using assms(1) False d' by (auto simp: mem_wf_def unique_keys_def)
qed

interpretation settings_mem: settings_store settings_table id "\<lambda>d. mem_wf st_ID d \<and> unique_keys (id d)" "\<lambda>k r. r\<lparr>st_ID := k\<rparr>"
  "redis_cache_of mem_kv_ops setting_json" "\<lambda>q k. case id q k of None \<Rightarrow> None | Some (s, x) \<Rightarrow> decoded setting_json zero_setting s"
  "\<lambda>_. True" settings_upsert
proof (rule settings_store.intro)
  show "sql_table settings_table id (\<lambda>d. mem_wf st_ID d \<and> unique_keys (id d)) st_ID (\<lambda>k r. r\<lparr>st_ID := k\<rparr>)"
    unfolding settings_table_def by (rule with_index_sql_table, rule mem_table_sql_table) simp
  show "cache_store (redis_cache_of mem_kv_ops setting_json)
     (\<lambda>q k. case id q k of None \<Rightarrow> None | Some (s, x) \<Rightarrow> decoded setting_json zero_setting s) zero_setting (\<lambda>_. True)"
    by (rule redis_cache_store [OF mem_kv.redis_kv_axioms setting_json_ok])
next
  show "settings_store_axioms id (\<lambda>d. mem_wf st_ID d \<and> unique_keys (id d)) settings_upsert"
  proof
    show "unique_keys (id d)" if "mem_wf st_ID d \<and> unique_keys (id d)" for d using that ..
  next
    fix d v d' assume a: "mem_wf st_ID d \<and> unique_keys (id d)" "settings_upsert d v = Inr d'"
    show "(mem_wf st_ID d' \<and> unique_keys (id d')) \<and> (if list_ex (same_key v) (id d)
        then id d' = update_rows (same_key v) (set_columns v) (id d) else \<exists>k. id d' = id d @ [v\<lparr>st_ID := k\<rparr>])"
      unfolding id_apply by (rule settings_upsert_ok [OF a(1) [unfolded id_apply] a(2)])
  qed
qed


definition mem_settings :: "(SettingItem list, mem_kv) settings_env" where
  "mem_settings = \<lparr>se_T = settings_table, se_U = settings_upsert, se_C = redis_cache_of mem_kv_ops setting_json,
     se_newc = xor_cipher 16, se_key = secretAESKey_of []\<rparr>"

definition one_setting :: "string \<Rightarrow> SettingItem" where
  "one_setting v = zero_setting\<lparr>st_ID := 1, st_Group := ''g'', st_Key := ''k'', st_ValueType := ValueText, st_Value := v\<rparr>"

abbreviation cached :: "string \<Rightarrow> gotime \<Rightarrow> mem_kv" where
  "cached v now \<equiv> [redisCacheKey ''g'' ''k'' \<mapsto> (cache_Marshal setting_json (one_setting v), Some (now + 300 * time_Second))]"

lemma setting_json_read: "cache_Unmarshal setting_json (cache_Marshal setting_json v) zero_setting = (Inr (), v)"
  using setting_json_ok by (auto simp: json_ok_def cache_Unmarshal_def cache_Marshal_def split: sum.splits) (simp_all add: setting_json_def)

lemma mem_settings_sel [simp]: "se_T mem_settings = settings_table" "se_U mem_settings = settings_upsert"
  "se_C mem_settings = redis_cache_of mem_kv_ops setting_json" "se_newc mem_settings = xor_cipher 16" "se_key mem_settings = secretAESKey_of []"
  by (simp_all add: mem_settings_def)

lemma one_setting_sel [simp]: "st_Group (one_setting v) = ''g''" "st_Key (one_setting v) = ''k''" "st_Value (one_setting v) = v"
  "st_DeletedAt (one_setting v) = None" "st_ID (one_setting v) = 1"
  by (simp_all add: one_setting_def zero_setting_def)

text \<open>A read with an empty cache, and one with the setting in the cache.\<close>

lemma read_uncached:
  "v \<noteq> [] \<Longrightarrow> settings_Get mem_settings now id ''g'' ''k'' ([one_setting v], Map.empty) = (Inr (one_setting v), [one_setting v], cached v now)"
  by (simp add: settings_Get_def redis_cache_of_def redis_Get_def redis_Set_def mem_kv_ops_def settings_table_def with_index_def mem_table_def
      isort_by_def zero_setting_def expiry_def time_Second_def)

lemma read_cached:
  assumes "v \<noteq> []" "now' < now + 300 * time_Second"
  shows "settings_Get mem_settings now' id ''g'' ''k'' (d, cached v now) = (Inr (one_setting v), d, cached v now)"
proof -
  have "kv_get mem_kv_ops (cached v now) now' (redisCacheKey ''g'' ''k'') = Inr (cache_Marshal setting_json (one_setting v))"
    using assms(2) by (simp add: mem_kv_ops_def)
  then show ?thesis using assms(1) by (simp add: settings_Get_def redis_cache_of_def redis_Get_def setting_json_read)
qed



section \<open>Where the cache falls behind\<close>

text \<open>
  The cache is emptied before the row is written: a reader between the two steps of an upsert finds the
  old row and puts it back into the cache, and readers get the old value for five minutes although the table
  has the new one.
\<close>

theorem upsert_race_stale:
  "\<exists>d q. SetText mem_settings 2 (\<lambda>s. snd (settings_Get mem_settings 2 id ''g'' ''k'' s)) ''g'' ''k'' ''new'' ([one_setting ''old''], cached ''old'' 1) =
      Some (Inr (), d, q) \<and>
    map_option st_Value (row_of d ''g'' ''k'') = Some ''new'' \<and>
    fst (settings_Get mem_settings (299 * time_Second) id ''g'' ''k'' (d, q)) = Inr (one_setting ''old'')"
proof -
  let ?new = "zero_setting\<lparr>st_Group := ''g'', st_Key := ''k'', st_Value := ''new'', st_ValueType := ValueText\<rparr>"
  let ?d = "update_rows (same_key (setting_created 2 ?new)) (set_columns (setting_created 2 ?new)) [one_setting ''old'']"
  have b: "BeforeSave mem_settings ?new = Some ?new"
    by (simp add: BeforeSave_def is_secret_def ValueText_def ValueSecret_def ValuePassword_def)
  have k: "same_key (setting_created 2 ?new) (one_setting ''old'')" by (simp add: same_key_def setting_created_def)
  have del: "snd (ca_Delete (se_C mem_settings) (cached ''old'' 1) 2 (redisCacheKey ''g'' ''k'')) = Map.empty"
    by (simp add: redis_cache_of_def redis_Delete_def mem_kv_ops_def)
  have w: "SetText mem_settings 2 (\<lambda>s. snd (settings_Get mem_settings 2 id ''g'' ''k'' s)) ''g'' ''k'' ''new'' ([one_setting ''old''], cached ''old'' 1) =
      Some (Inr (), ?d, cached ''old'' 2)"
    unfolding SetText_def UpsertSetting_def by (simp add: del read_uncached b settings_upsert_def k del: mem_settings_sel(3))
  have "map_option st_Value (row_of ?d ''g'' ''k'') = Some ''new''"
    using k by (simp add: row_of_def update_rows_def set_columns_def) (simp add: setting_created_def)
  then show ?thesis using w read_cached [of "''old''" "299 * time_Second" 2 ?d] by (auto simp: time_Second_def)
qed

text \<open>
  An update by identifier leaves the cache as it is: \<open>Updates\<close> drops the entry under the group and key of its
  argument, which are empty when only the identifier is given; the new value is in the table and readers
  keep getting the old one.
\<close>

theorem update_by_id_stale:
  "\<exists>d q. Updates mem_settings 1 [zero_setting\<lparr>st_ID := 1, st_Value := ''new'', st_ValueType := ValueText\<rparr>] ([one_setting ''old''], cached ''old'' 1) =
      Some (Inr (), d, q) \<and>
    map_option st_Value (row_of d ''g'' ''k'') = Some ''new'' \<and>
    fst (settings_Get mem_settings (299 * time_Second) id ''g'' ''k'' (d, q)) = Inr (one_setting ''old'')"
proof -
  let ?u = "zero_setting\<lparr>st_ID := 1, st_Value := ''new'', st_ValueType := ValueText\<rparr>"
  let ?d = "[(one_setting ''old'')\<lparr>st_Value := ''new'', st_ValueType := ValueText, st_Describe := [], st_Name := [], st_UpdatedAt := Some 1\<rparr>]"
  have b: "BeforeSave mem_settings (zero_setting\<lparr>st_Value := ''new'', st_ValueType := ValueText, st_Describe := [], st_Name := []\<rparr>) =
      Some (zero_setting\<lparr>st_Value := ''new'', st_ValueType := ValueText, st_Describe := [], st_Name := []\<rparr>)"
    by (simp add: BeforeSave_def is_secret_def ValueText_def ValueSecret_def ValuePassword_def)
  have del: "snd (ca_Delete (se_C mem_settings) (cached ''old'' 1) 1 (redisCacheKey [] [])) = cached ''old'' 1"
    by (auto simp: redis_cache_of_def redis_Delete_def mem_kv_ops_def redisCacheKey_def fun_eq_iff)
  have e: "st_Group ?u = []" "st_Key ?u = []" "st_Describe ?u = []" "st_Name ?u = []" by (simp_all add: zero_setting_def)
  have upd: "tb_update settings_table [one_setting ''old''] (\<lambda>r. st_ID r = 1 \<and> st_DeletedAt r = None)
      (\<lambda>r. r\<lparr>st_Value := ''new'', st_ValueType := ValueText, st_Describe := [], st_Name := [], st_UpdatedAt := Some 1\<rparr>) = Inr ?d"
    by (simp add: settings_table_def with_index_def mem_table_def update_rows_def mem_checked_def mem_wf_def unique_keys_def)
  have "Updates mem_settings 1 [?u] ([one_setting ''old''], cached ''old'' 1) = Some (Inr (), ?d, cached ''old'' 1)"
    using b upd del by (simp add: update_one_def zero_setting_def)
  moreover have "map_option st_Value (row_of ?d ''g'' ''k'') = Some ''new''" by (simp add: row_of_def)
  ultimately show ?thesis using read_cached [of "''old''" "299 * time_Second" 1 ?d] by (auto simp: time_Second_def)
qed

end
