(* ===== verification/Conc_Queue.thy ===== *)
theory Conc_Queue
  imports Go_Prelude "HOL-Library.Word" "HOL-Library.Multiset"
begin

text \<open>
  The worker queue of \<open>concqueue/queue.go\<close> and \<open>option.go\<close>: a channel of tasks, workers that take tasks from it,
  and \<open>StopAndWait\<close>. Goroutines are steps on one state: each definition is what a goroutine does without
  being interrupted at an atomic operation, a channel operation or the wait group. Idle workers are those
  waiting in \<open>select\<close>; a busy worker is its task in \<open>qu_running\<close>; together they are the count of the wait group.
  What a task does when it runs is a parameter.
\<close>

datatype outcome = Finished | Failed gerror | Panicked string

record 't queue =
  qu_taskQueue :: "'t list"
  qu_size :: nat
  qu_chanClosed :: bool
  qu_ctxDone :: bool
  qu_workerCount :: int
  qu_errCount :: "32 word"
  qu_onErr :: bool
  qu_reports :: "string list"
  qu_closed :: bool
  qu_idle :: nat
  qu_running :: "'t list"

definition queue_start :: "'t queue \<Rightarrow> 't queue" where
  "queue_start q = (if qu_closed q then q else q\<lparr>qu_idle := qu_idle q + nat (qu_workerCount q)\<rparr>)"

type_synonym 't queue_option = "'t queue \<Rightarrow> 't queue"

text \<open>\<open>WithContext\<close> gives a context that may be done already; \<open>WithErrorHandler\<close> may give nil.\<close>

definition WithContext :: "bool \<Rightarrow> 't queue_option" where
  "WithContext done q = q\<lparr>qu_ctxDone := done\<rparr>"

definition WithErrorHandler :: "bool \<Rightarrow> 't queue_option" where
  "WithErrorHandler handler q = q\<lparr>qu_onErr := handler\<rparr>"

definition queue_New :: "int \<Rightarrow> nat \<Rightarrow> 't queue_option list \<Rightarrow> 't queue" where
  "queue_New workerCount queueSize options =
     queue_start (fold (\<lambda>opt q. opt q) options
       \<lparr>qu_taskQueue = [], qu_size = queueSize, qu_chanClosed = False, qu_ctxDone = False, qu_workerCount = workerCount,
        qu_errCount = 0, qu_onErr = True, qu_reports = [], qu_closed = False, qu_idle = 0, qu_running = []\<rparr>)"

text \<open>
  \<open>Submit\<close>: the check of the flag, then the send. Sending on a closed channel panics (outer \<open>None\<close>); a full
  channel blocks (inner \<open>None\<close>); without a buffer the task goes straight to an idle worker.
\<close>

definition Submit_check :: "'t queue \<Rightarrow> bool" where
  "Submit_check q = (\<not> qu_closed q)"

definition Submit_send :: "'t \<Rightarrow> 't queue \<Rightarrow> 't queue option option" where
  "Submit_send t q =
     (if qu_chanClosed q then None
      else Some (if qu_size q = 0
                 then (if 0 < qu_idle q then Some (q\<lparr>qu_idle := qu_idle q - 1, qu_running := qu_running q @ [t]\<rparr>) else None)
                 else (if length (qu_taskQueue q) < qu_size q then Some (q\<lparr>qu_taskQueue := qu_taskQueue q @ [t]\<rparr>) else None)))"

text \<open>An idle worker: a task, the end of a closed and empty channel, or (\<open>worker_leaves\<close>) the end of the context.\<close>

definition worker_takes :: "'t queue \<Rightarrow> 't queue option" where
  "worker_takes q =
     (if qu_idle q = 0 then None
      else case qu_taskQueue q of
        t # ts \<Rightarrow> Some (q\<lparr>qu_taskQueue := ts, qu_idle := qu_idle q - 1, qu_running := qu_running q @ [t]\<rparr>)
      | [] \<Rightarrow> (if qu_chanClosed q then Some (q\<lparr>qu_idle := qu_idle q - 1\<rparr>) else None))"

definition worker_leaves :: "'t queue \<Rightarrow> 't queue option" where
  "worker_leaves q = (if 0 < qu_idle q \<and> qu_ctxDone q then Some (q\<lparr>qu_idle := qu_idle q - 1\<rparr>) else None)"

text \<open>
  \<open>runTask\<close> of a busy worker. A panic is recovered: it is counted and reported, and as long as the queue is not
  closed one more worker is started, while the recovered worker goes on too.
\<close>

definition runTask :: "('t \<Rightarrow> outcome) \<Rightarrow> 't \<Rightarrow> 't queue \<Rightarrow> 't queue" where
  "runTask run t q =
     (let q1 = q\<lparr>qu_running := remove1 t (qu_running q), qu_idle := qu_idle q + 1\<rparr>
      in case run t of
           Finished \<Rightarrow> q1
         | Failed e \<Rightarrow> q1\<lparr>qu_errCount := qu_errCount q1 + 1\<rparr>
         | Panicked r \<Rightarrow>
             (let q2 = q1\<lparr>qu_errCount := qu_errCount q1 + 1\<rparr>;
                  q3 = (if qu_onErr q2 then q2\<lparr>qu_reports := r # qu_reports q2\<rparr> else q2)
              in if \<not> qu_closed q3 then q3\<lparr>qu_idle := qu_idle q3 + 1\<rparr> else q3))"

text \<open>\<open>StopAndWait\<close>: the compare-and-swap, the close by the one who won it, the wait, the cancellation.\<close>

definition stop_swap :: "'t queue \<Rightarrow> bool \<times> 't queue" where
  "stop_swap q = (if qu_closed q then (False, q) else (True, q\<lparr>qu_closed := True\<rparr>))"

definition stop_close :: "'t queue \<Rightarrow> 't queue" where
  "stop_close q = q\<lparr>qu_chanClosed := True\<rparr>"

definition queue_wait :: "'t queue \<Rightarrow> 32 word option" where
  "queue_wait q = (if qu_idle q + length (qu_running q) = 0 then Some (qu_errCount q) else None)"

definition queue_cancel :: "'t queue \<Rightarrow> 't queue" where
  "queue_cancel q = q\<lparr>qu_ctxDone := True\<rparr>"

section \<open>Runs\<close>

text \<open>
  A state of a run: the queue, the tasks whose \<open>Submit\<close> has passed the check but not yet sent, and the tasks
  accepted and run so far. The context is the queue's own. A send that panics has no step: it ends the
  program.
\<close>

inductive conc_run :: "('t \<Rightarrow> outcome) \<Rightarrow> int \<Rightarrow> nat \<Rightarrow> 't queue \<Rightarrow> 't list \<Rightarrow> 't list \<Rightarrow> 't list \<Rightarrow> bool" for run n cap where
  new: "conc_run run n cap (queue_New n cap []) [] [] []"
| check: "conc_run run n cap q pend acc fin \<Longrightarrow> Submit_check q \<Longrightarrow> conc_run run n cap q (t # pend) acc fin"
| send: "conc_run run n cap q pend acc fin \<Longrightarrow> t \<in> set pend \<Longrightarrow> Submit_send t q = Some (Some q') \<Longrightarrow>
    conc_run run n cap q' (remove1 t pend) (acc @ [t]) fin"
| drop: "conc_run run n cap q pend acc fin \<Longrightarrow> t \<in> set pend \<Longrightarrow> qu_ctxDone q \<Longrightarrow> conc_run run n cap q (remove1 t pend) acc fin"
| takes: "conc_run run n cap q pend acc fin \<Longrightarrow> worker_takes q = Some q' \<Longrightarrow> conc_run run n cap q' pend acc fin"
| leaves: "conc_run run n cap q pend acc fin \<Longrightarrow> worker_leaves q = Some q' \<Longrightarrow> conc_run run n cap q' pend acc fin"
| runs: "conc_run run n cap q pend acc fin \<Longrightarrow> t \<in> set (qu_running q) \<Longrightarrow> conc_run run n cap (runTask run t q) pend acc (fin @ [t])"
| swap: "conc_run run n cap q pend acc fin \<Longrightarrow> conc_run run n cap (snd (stop_swap q)) pend acc fin"
| close: "conc_run run n cap q pend acc fin \<Longrightarrow> qu_closed q \<Longrightarrow> conc_run run n cap (stop_close q) pend acc fin"
| cancel: "conc_run run n cap q pend acc fin \<Longrightarrow> qu_closed q \<Longrightarrow> queue_wait q \<noteq> None \<Longrightarrow> conc_run run n cap (queue_cancel q) pend acc fin"

definition failures :: "('t \<Rightarrow> outcome) \<Rightarrow> 't list \<Rightarrow> nat" where
  "failures run ts = length (filter (\<lambda>t. run t \<noteq> Finished) ts)"

definition conc_inv :: "('t \<Rightarrow> outcome) \<Rightarrow> int \<Rightarrow> 't queue \<Rightarrow> 't list \<Rightarrow> 't list \<Rightarrow> bool" where
  "conc_inv run n q acc fin = (
     mset acc = mset (qu_taskQueue q) + mset (qu_running q) + mset fin \<and>
     qu_errCount q = of_nat (failures run fin) \<and>
     (nat n \<le> qu_idle q + length (qu_running q) \<or> qu_chanClosed q \<and> qu_taskQueue q = []) \<and>
     (qu_ctxDone q \<longrightarrow> qu_idle q = 0 \<and> qu_running q = []))"

lemma failures_snoc: "failures run (ts @ [t]) = failures run ts + (if run t = Finished then 0 else 1)"
  by (simp add: failures_def)

lemma length_remove1_mem: "t \<in> set ts \<Longrightarrow> length ts = Suc (length (remove1 t ts))"
  by (induction ts) auto

lemma conc_inv_send: "conc_inv run n q acc fin \<Longrightarrow> Submit_send t q = Some (Some q') \<Longrightarrow> conc_inv run n q' (acc @ [t]) fin"
  by (auto simp: conc_inv_def Submit_send_def split: if_splits)

lemma conc_inv_takes: "conc_inv run n q acc fin \<Longrightarrow> worker_takes q = Some q' \<Longrightarrow> conc_inv run n q' acc fin"
  by (auto simp: conc_inv_def worker_takes_def split: if_splits list.splits)

lemma runTask_sel [simp]:
  "qu_taskQueue (runTask run t q) = qu_taskQueue q" "qu_running (runTask run t q) = remove1 t (qu_running q)"
  "qu_chanClosed (runTask run t q) = qu_chanClosed q" "qu_closed (runTask run t q) = qu_closed q"
  "qu_ctxDone (runTask run t q) = qu_ctxDone q"
  "qu_errCount (runTask run t q) = qu_errCount q + (if run t = Finished then 0 else 1)"
  "qu_idle (runTask run t q) = qu_idle q + (case run t of Panicked r \<Rightarrow> if qu_closed q then 1 else 2 | _ \<Rightarrow> 1)"
  by (simp_all add: runTask_def Let_def split: outcome.splits)

lemma conc_inv_runs:
  assumes inv: "conc_inv run n q acc fin" and t: "t \<in> set (qu_running q)"
  shows "conc_inv run n (runTask run t q) acc (fin @ [t])"
proof -
  have "mset acc = mset (qu_taskQueue q) + mset (remove1 t (qu_running q)) + mset (fin @ [t])"
    using inv t by (simp add: conc_inv_def)
  moreover have "\<not> qu_ctxDone q" using inv t by (auto simp: conc_inv_def)
  moreover have "qu_idle q + length (qu_running q) \<le> qu_idle (runTask run t q) + length (remove1 t (qu_running q))"
    using length_remove1_mem [OF t] by (simp split: outcome.splits)
  moreover have "qu_errCount (runTask run t q) = of_nat (failures run (fin @ [t]))"
    using inv by (simp add: conc_inv_def failures_snoc)
  ultimately show ?thesis using inv by (auto simp: conc_inv_def simp del: mset_append mset_remove1 runTask_sel(6,7))
qed

lemma conc_run_inv: "conc_run run n cap q pend acc fin \<Longrightarrow> conc_inv run n q acc fin"
proof (induction rule: conc_run.induct)
  case new
  show ?case by (simp add: conc_inv_def queue_New_def queue_start_def failures_def)
next
  case (leaves q pend acc fin q')
  then show ?case by (auto simp: conc_inv_def worker_leaves_def split: if_splits)
next
  case (swap q pend acc fin)
  then show ?case by (auto simp: conc_inv_def stop_swap_def)
next
  case (close q pend acc fin)
  then show ?case by (auto simp: conc_inv_def stop_close_def)
next
  case (cancel q pend acc fin)
  then show ?case by (auto simp: conc_inv_def queue_cancel_def queue_wait_def split: if_splits)
qed (auto intro: conc_inv_send conc_inv_takes conc_inv_runs)

text \<open>
  What \<open>StopAndWait\<close> promises (C18): in every interleaving, when the wait of a queue with at least one worker
  returns, every task that \<open>Submit\<close> accepted has been run exactly once, and the number returned is the number
  of those that failed or panicked, modulo the width of the counter.
\<close>

theorem StopAndWait_all_run:
  assumes "conc_run run n cap q pend acc fin" "0 < n" "queue_wait q = Some e"
  shows "mset fin = mset acc \<and> e = of_nat (failures run acc)"
proof -
  have inv: "conc_inv run n q acc fin" by (rule conc_run_inv [OF assms(1)])
  have w: "qu_idle q = 0" "qu_running q = []" "e = qu_errCount q" using assms(3) by (auto simp: queue_wait_def split: if_splits)
  then have "qu_taskQueue q = []" using inv assms(2) by (auto simp: conc_inv_def)
  then have m: "mset fin = mset acc" using inv w by (simp add: conc_inv_def)
  then have "mset (filter (\<lambda>t. run t \<noteq> Finished) fin) = mset (filter (\<lambda>t. run t \<noteq> Finished) acc)" by simp
  then have "failures run fin = failures run acc" unfolding failures_def by (metis size_mset)
  then show ?thesis using m inv w by (simp add: conc_inv_def)
qed

lemma small_run: "conc_run (\<lambda>t. if t = 0 then Failed (Err ''e'') else Finished) 1 1
    \<lparr>qu_taskQueue = [], qu_size = 1, qu_chanClosed = True, qu_ctxDone = False, qu_workerCount = 1, qu_errCount = 1, qu_onErr = True,
     qu_reports = [], qu_closed = True, qu_idle = 0, qu_running = []\<rparr> [] [0::nat] [0]"
proof -
  let ?f = "\<lambda>t::nat. if t = 0 then Failed (Err ''e'') else Finished"
  let ?q = "\<lambda>buf chan cl err i r. \<lparr>qu_taskQueue = buf, qu_size = 1, qu_chanClosed = chan, qu_ctxDone = False, qu_workerCount = 1,
     qu_errCount = err, qu_onErr = True, qu_reports = [], qu_closed = cl, qu_idle = i, qu_running = r\<rparr>"
  have "(queue_New 1 1 [] :: nat queue) = ?q [] False False 0 1 []" by (simp add: queue_New_def queue_start_def)
  then have "conc_run ?f 1 1 (?q [] False False 0 1 []) [] [] []" using conc_run.new [of ?f 1 1] by simp
  from conc_run.check [OF this, of 0] have "conc_run ?f 1 1 (?q [] False False 0 1 []) [0] [] []" by (simp add: Submit_check_def)
  from conc_run.send [OF this, of 0] have "conc_run ?f 1 1 (?q [0] False False 0 1 []) [] [0] []" by (simp add: Submit_send_def)
  from conc_run.swap [OF this] have "conc_run ?f 1 1 (?q [0] False True 0 1 []) [] [0] []" by (simp add: stop_swap_def)
  from conc_run.close [OF this] have "conc_run ?f 1 1 (?q [0] True True 0 1 []) [] [0] []" by (simp add: stop_close_def)
  from conc_run.takes [OF this] have "conc_run ?f 1 1 (?q [] True True 0 0 [0]) [] [0] []" by (simp add: worker_takes_def)
  from conc_run.runs [OF this, of 0] have "conc_run ?f 1 1 (?q [] True True 1 1 []) [] [0] [0]" by (simp add: runTask_def)
  from conc_run.takes [OF this] show ?thesis by (simp add: worker_takes_def)
qed

theorem StopAndWait_all_run_witness:
  "mset [0::nat] = mset [0] \<and> (1::32 word) = of_nat (failures (\<lambda>t. if t = 0 then Failed (Err ''e'') else Finished) [0::nat])"
  using StopAndWait_all_run [OF small_run, of 1] by (simp add: queue_wait_def)

section \<open>Stopping ends\<close>

text \<open>The steps of workers, and the work left: a queued task counts three, a running one two, an idle worker one.\<close>

inductive worker_step :: "('t \<Rightarrow> outcome) \<Rightarrow> 't queue \<Rightarrow> 't queue \<Rightarrow> bool" for run where
  step_takes: "worker_takes q = Some q' \<Longrightarrow> worker_step run q q'"
| step_leaves: "worker_leaves q = Some q' \<Longrightarrow> worker_step run q q'"
| step_runs: "t \<in> set (qu_running q) \<Longrightarrow> worker_step run q (runTask run t q)"

definition load :: "'t queue \<Rightarrow> nat" where
  "load q = 3 * length (qu_taskQueue q) + 2 * length (qu_running q) + qu_idle q"

lemma worker_step_load:
  assumes "worker_step run q q'" "qu_closed q"
  shows "load q' < load q"
  using assms(1)
proof cases
  case step_takes
  then show ?thesis by (auto simp: worker_takes_def load_def split: if_splits list.splits)
next
  case step_leaves
  then show ?thesis by (auto simp: worker_leaves_def load_def split: if_splits)
next
  case (step_runs t)
  then show ?thesis using assms(2) length_remove1_mem [of t "qu_running q"] by (simp add: load_def split: outcome.splits)
qed

lemma worker_step_keeps: "worker_step run q q' \<Longrightarrow> qu_closed q' = qu_closed q \<and> qu_chanClosed q' = qu_chanClosed q"
  by (induction rule: worker_step.induct) (auto simp: worker_takes_def worker_leaves_def split: if_splits list.splits)

lemma worker_step_enabled: "qu_chanClosed q \<Longrightarrow> queue_wait q = None \<Longrightarrow> \<exists>q'. worker_step run q q'"
proof (cases "qu_running q")
  case Nil
  assume "qu_chanClosed q" "queue_wait q = None"
  then have "worker_takes q \<noteq> None" using Nil by (auto simp: queue_wait_def worker_takes_def split: if_splits list.splits)
  then show ?thesis using worker_step.step_takes by (metis not_None_eq)
next
  case (Cons t ts)
  then show ?thesis using worker_step.step_runs [of t q run] by auto
qed

text \<open>
  Stopping ends: once the channel is closed, the workers take at most \<open>load q\<close> more steps, in whatever
  order and however the tasks end, and when they can take no further step the wait has returned. A panic no
  longer adds a worker then.
\<close>

theorem stop_terminates:
  assumes "qu_closed q" "qu_chanClosed q" and steps: "((worker_step run) ^^ k) q q'"
  shows "k \<le> load q \<and> (queue_wait q' = None \<longrightarrow> (\<exists>q''. worker_step run q' q''))"
proof -
  have "((worker_step run) ^^ k) q q' \<Longrightarrow> qu_closed q' \<and> qu_chanClosed q' \<and> load q' + k \<le> load q" for q'
  proof (induction k arbitrary: q')
    case 0
    then show ?case using assms by simp
  next
    case (Suc k)
    then obtain p where p: "((worker_step run) ^^ k) q p" "worker_step run p q'" by auto
    then show ?case using Suc.IH [OF p(1)] worker_step_load [OF p(2)] worker_step_keeps [OF p(2)] by simp
  qed
  from this [OF steps] show ?thesis using worker_step_enabled [of q' run] by fastforce
qed


definition stopping :: "nat queue" where
  "stopping = \<lparr>qu_taskQueue = [5], qu_size = 2, qu_chanClosed = True, qu_ctxDone = False, qu_workerCount = 1, qu_errCount = 0,
     qu_onErr = True, qu_reports = [], qu_closed = True, qu_idle = 1, qu_running = []\<rparr>"

theorem stop_terminates_witness: "1 \<le> load stopping"
proof -
  have "worker_step (\<lambda>_. Finished) stopping (stopping\<lparr>qu_taskQueue := [], qu_idle := 0, qu_running := [5]\<rparr>)"
    by (rule worker_step.step_takes) (simp add: worker_takes_def stopping_def)
  then have "((worker_step (\<lambda>_. Finished)) ^^ 1) stopping (stopping\<lparr>qu_taskQueue := [], qu_idle := 0, qu_running := [5]\<rparr>)" by (auto simp: relcompp_apply)
  from stop_terminates [OF _ _ this] show ?thesis by (simp add: stopping_def)
qed

section \<open>Two races\<close>

text \<open>
  A panic raises the number of workers: the recovered worker goes on and a second one is started, so a queue
  made with one worker has two after one panic.
\<close>

lemma panic_adds_worker:
  "\<exists>q. conc_run (\<lambda>t. Panicked ''p'') 1 1 q [] [0::nat] [0] \<and> qu_workerCount q = 1 \<and> qu_idle q = 2"
proof -
  let ?f = "\<lambda>t::nat. Panicked ''p''"
  have "conc_run ?f 1 1 (queue_New 1 1 []) [] [] []" by (rule conc_run.new)
  from conc_run.check [OF this, of 0] have "conc_run ?f 1 1 (queue_New 1 1 []) [0] [] []"
    by (simp add: Submit_check_def queue_New_def queue_start_def)
  from conc_run.send [OF this, of 0] have "conc_run ?f 1 1 ((queue_New 1 1 [])\<lparr>qu_taskQueue := [0]\<rparr>) [] [0] []"
    by (simp add: Submit_send_def queue_New_def queue_start_def)
  from conc_run.takes [OF this] have "conc_run ?f 1 1 ((queue_New 1 1 [])\<lparr>qu_idle := 0, qu_running := [0]\<rparr>) [] [0] []"
    by (simp add: worker_takes_def queue_New_def queue_start_def)
  from conc_run.runs [OF this, of 0] show ?thesis
    by (auto simp: runTask_def queue_New_def queue_start_def eval_nat_numeral)
qed

text \<open>
  A submission can panic: between its check of the flag and its send, another goroutine stops the queue and
  closes the channel.
\<close>

lemma submit_send_panics:
  "\<exists>q. conc_run run 1 1 q [t] [] [] \<and> Submit_send t q = None"
proof -
  have "conc_run run 1 1 (queue_New 1 1 []) [] [] []" by (rule conc_run.new)
  then have "conc_run run 1 1 (queue_New 1 1 []) [t] [] []"
    by (rule conc_run.check) (simp add: Submit_check_def queue_New_def queue_start_def)
  from conc_run.swap [OF this] have "conc_run run 1 1 ((queue_New 1 1 [])\<lparr>qu_closed := True\<rparr>) [t] [] []"
    by (simp add: stop_swap_def queue_New_def queue_start_def)
  from conc_run.close [OF this] show ?thesis by (auto simp: stop_close_def Submit_send_def)
qed

end
