(* ===== verification/Go_Path.thy ===== *)
theory Go_Path
  imports Go_Prelude
begin

text \<open>
  The lexical part of Go's \<open>path/filepath\<close> on Unix. A path names a \<^emph>\<open>location\<close>: whether it is rooted, and
  its normalised components, in which \<open>..\<close> is left only at the front of a path that is not rooted.
  \<open>Clean\<close>, \<open>Join\<close> and \<open>Dir\<close> are given on strings as the library does them; the lemmas say what they do
  to the location. \<open>below\<close> is containment of locations, the notion in which a storage directory confines its
  files.
\<close>

section \<open>Locations\<close>

type_synonym loc = "bool \<times> string list"

abbreviation dotdot :: string where "dotdot \<equiv> ''..''"

text \<open>One component, onto the reversed components read so far.\<close>

definition clean_step :: "bool \<Rightarrow> string \<Rightarrow> string list \<Rightarrow> string list" where
  "clean_step rooted c acc =
     (if c = [] \<or> c = ''.'' then acc
      else if c = dotdot then
        (case acc of
           [] \<Rightarrow> (if rooted then [] else [dotdot])
         | x # xs \<Rightarrow> (if x = dotdot then dotdot # acc else xs))
      else c # acc)"

definition is_rooted :: "string \<Rightarrow> bool" where
  "is_rooted p \<longleftrightarrow> p \<noteq> [] \<and> hd p = CHR ''/''"

definition loc_of :: "string \<Rightarrow> loc" where
  "loc_of p = (is_rooted p, rev (fold (clean_step (is_rooted p)) (split_on CHR ''/'' p) []))"

definition path_string :: "loc \<Rightarrow> string" where
  "path_string l = (if fst l then CHR ''/'' # join_strings ''/'' (snd l)
     else if snd l = [] then ''.'' else join_strings ''/'' (snd l))"

section \<open>The library functions\<close>

definition Clean :: "string \<Rightarrow> string" where
  "Clean p = path_string (loc_of p)"

definition Join :: "string \<Rightarrow> string \<Rightarrow> string" where
  "Join a b = (if a \<noteq> [] then Clean (a @ ''/'' @ b) else if b \<noteq> [] then Clean b else [])"

definition Dir :: "string \<Rightarrow> string" where
  "Dir p = Clean (rev (dropWhile (\<lambda>c. c \<noteq> CHR ''/'') (rev p)))"

section \<open>Normal locations\<close>

text \<open>A component that names an entry of a directory.\<close>

definition is_name :: "string \<Rightarrow> bool" where
  "is_name c \<longleftrightarrow> c \<noteq> [] \<and> c \<noteq> ''.'' \<and> c \<noteq> dotdot \<and> CHR ''/'' \<notin> set c"

text \<open>Reversed components: names, then the leading \<open>..\<close> of a path that is not rooted.\<close>

fun norm_rev :: "bool \<Rightarrow> string list \<Rightarrow> bool" where
  "norm_rev rooted [] = True"
| "norm_rev rooted (c # cs) = (if is_name c then norm_rev rooted cs else \<not> rooted \<and> c = dotdot \<and> set cs \<subseteq> {dotdot})"

abbreviation normal :: "loc \<Rightarrow> bool" where
  "normal l \<equiv> norm_rev (fst l) (rev (snd l))"

lemma not_name_dotdot [simp]: "\<not> is_name dotdot" "\<not> is_name []" "\<not> is_name ''.''"
  by (simp_all add: is_name_def)

lemma norm_rev_dots: "\<not> rooted \<Longrightarrow> set cs \<subseteq> {dotdot} \<Longrightarrow> norm_rev rooted cs"
  by (cases cs) auto

lemma clean_step_name [simp]: "is_name c \<Longrightarrow> clean_step r c acc = c # acc"
  by (simp add: clean_step_def is_name_def)

lemma clean_step_skip [simp]: "clean_step r [] acc = acc"
  by (simp add: clean_step_def)

lemma norm_rev_step:
  assumes "norm_rev r acc" "CHR ''/'' \<notin> set c"
  shows "norm_rev r (clean_step r c acc)"
proof (cases acc)
  case Nil
  with assms show ?thesis by (auto simp: clean_step_def is_name_def)
next
  case (Cons x xs)
  with assms show ?thesis by (auto simp: clean_step_def is_name_def norm_rev_dots split: if_splits)
qed

lemma norm_rev_fold:
  "norm_rev r acc \<Longrightarrow> \<forall>c\<in>set cs. CHR ''/'' \<notin> set c \<Longrightarrow> norm_rev r (fold (clean_step r) cs acc)"
  by (induction cs arbitrary: acc) (auto simp: norm_rev_step)

lemma split_on_parts: "x \<in> set (split_on c s) \<Longrightarrow> c \<notin> set x"
  by (induction s arbitrary: x) (auto split: list.splits if_splits)

lemma loc_of_normal [simp]: "normal (loc_of p)"
  by (auto simp: loc_of_def split_on_parts intro!: norm_rev_fold)

text \<open>Normalising normal components gives them back.\<close>

lemma fold_clean_dots: "\<not> r \<Longrightarrow> set cs \<subseteq> {dotdot} \<Longrightarrow> set acc \<subseteq> {dotdot} \<Longrightarrow> fold (clean_step r) cs acc = rev cs @ acc"
  by (induction cs arbitrary: acc) (auto simp: clean_step_def split: list.splits)

lemma fold_clean_names: "\<forall>c\<in>set cs. is_name c \<Longrightarrow> fold (clean_step r) cs acc = rev cs @ acc"
  by (induction cs arbitrary: acc) auto

lemma fold_clean_normal: "norm_rev r cs \<Longrightarrow> fold (clean_step r) (rev cs) [] = cs"
proof (induction cs)
  case (Cons c cs)
  show ?case
  proof (cases "is_name c")
    case True
    with Cons show ?thesis by simp
  next
    case False
    with Cons.prems have "\<not> r" "set (rev (c # cs)) \<subseteq> {dotdot}" by auto
    then show ?thesis using fold_clean_dots [of r "rev (c # cs)" "[]"] by simp
  qed
qed simp

lemma norm_rev_no_slash: "norm_rev r cs \<Longrightarrow> c \<in> set cs \<Longrightarrow> CHR ''/'' \<notin> set c \<and> c \<noteq> [] \<and> c \<noteq> ''.''"
  by (induction cs) (auto simp: is_name_def split: if_splits)

lemma path_string_nonempty [simp]: "normal l \<Longrightarrow> path_string l \<noteq> []"
  by (cases "snd l") (auto simp: path_string_def dest: norm_rev_no_slash elim!: join_strings.elims)

lemma join_hd: "cs \<noteq> [] \<Longrightarrow> hd cs \<noteq> [] \<Longrightarrow> join_strings sep cs \<noteq> [] \<and> hd (join_strings sep cs) = hd (hd cs)"
  by (cases "(sep, cs)" rule: join_strings.cases) auto

lemma is_rooted_path_string:
  assumes "normal l"
  shows "is_rooted (path_string l) = fst l"
proof (cases "fst l \<or> snd l = []")
  case True
  then show ?thesis by (auto simp: path_string_def is_rooted_def)
next
  case False
  then have "hd (snd l) \<in> set (rev (snd l))" by simp
  from norm_rev_no_slash [OF assms this] have h: "CHR ''/'' \<notin> set (hd (snd l))" "hd (snd l) \<noteq> []" by auto
  then have "hd (hd (snd l)) \<noteq> CHR ''/''" by (metis hd_in_set)
  with h False join_hd [of "snd l" "''/''"] show ?thesis
    by (simp add: path_string_def is_rooted_def)
qed

text \<open>Reading a printed location component by component is reading its components.\<close>

lemma fold_split_path:
  assumes "normal l"
  shows "fold (clean_step r) (split_on CHR ''/'' (path_string l)) acc = fold (clean_step r) (snd l) acc"
proof -
  have ns: "\<forall>c\<in>set (snd l). CHR ''/'' \<notin> set c" using norm_rev_no_slash [OF assms] by auto
  have j: "fold (clean_step r) (split_on CHR ''/'' (join_strings ''/'' (snd l))) acc = fold (clean_step r) (snd l) acc"
    using split_on_join [OF _ ns] by (cases "snd l = []") auto
  have "fold (clean_step r) (split_on CHR ''/'' ''.'') acc = acc" by (simp add: clean_step_def)
  with j show ?thesis by (auto simp: path_string_def)
qed

lemma loc_of_path_string: "normal l \<Longrightarrow> loc_of (path_string l) = l"
  using fold_clean_normal [of "fst l" "rev (snd l)"]
  by (simp add: loc_of_def is_rooted_path_string fold_split_path)

lemma loc_of_Clean [simp]: "loc_of (Clean p) = loc_of p"
  by (simp add: Clean_def loc_of_path_string)

lemma Clean_Clean: "Clean (Clean p) = Clean p"
  by (simp add: Clean_def loc_of_path_string)

lemma Clean_nonempty [simp]: "Clean p \<noteq> []"
  by (simp add: Clean_def)

lemma Join_nonempty [simp]: "a \<noteq> [] \<Longrightarrow> Join a b \<noteq> []"
  by (simp add: Join_def)

lemma split_on_cat: "split_on c (a @ c # b) = split_on c a @ split_on c b"
  by (induction a) (auto split: list.splits)

lemma is_rooted_append [simp]: "a \<noteq> [] \<Longrightarrow> is_rooted (a @ b) = is_rooted a"
  by (simp add: is_rooted_def)

lemma loc_of_Join:
  "a \<noteq> [] \<Longrightarrow> loc_of (Join a b) =
     (fst (loc_of a), rev (fold (clean_step (fst (loc_of a))) (split_on CHR ''/'' b) (rev (snd (loc_of a)))))"
  by (simp add: Join_def) (simp add: loc_of_def split_on_cat)

section \<open>Containment\<close>

definition below :: "loc \<Rightarrow> loc \<Rightarrow> bool" where
  "below d l \<longleftrightarrow> fst l = fst d \<and> (\<exists>rel. snd l = snd d @ rel \<and> (\<forall>c\<in>set rel. is_name c))"

definition climbs :: "string \<Rightarrow> bool" where
  "climbs s \<longleftrightarrow> dotdot \<in> set (snd (loc_of s))"

lemma below_refl [simp]: "below d d"
  by (simp add: below_def)

lemma below_trans: "below a b \<Longrightarrow> below b c \<Longrightarrow> below a c"
  by (auto simp: below_def)

lemma norm_rev_names: "norm_rev r cs \<Longrightarrow> dotdot \<notin> set cs \<Longrightarrow> \<forall>c\<in>set cs. is_name c"
proof (induction cs)
  case (Cons c cs)
  then show ?case by (cases "is_name c") auto
qed simp

lemma climbs_names: "\<not> climbs s \<Longrightarrow> \<forall>c\<in>set (snd (loc_of s)). is_name c"
  using norm_rev_names [of "fst (loc_of s)" "rev (snd (loc_of s))"] by (simp add: climbs_def)

lemma norm_rev_rooted: "norm_rev True cs \<Longrightarrow> dotdot \<notin> set cs"
proof (induction cs)
  case (Cons c cs)
  then show ?case by (cases "is_name c") auto
qed simp

lemma rooted_not_climbs: "is_rooted s \<Longrightarrow> \<not> climbs s"
  using norm_rev_rooted [of "rev (snd (loc_of s))"] loc_of_normal [of s] by (simp add: loc_of_def climbs_def)

text \<open>A path that does not climb stays inside the directory it is joined to, at its own components.\<close>

lemma Join_Clean_loc:
  assumes "d \<noteq> []" "\<not> climbs s"
  shows "loc_of (Join d (Clean s)) = (fst (loc_of d), snd (loc_of d) @ snd (loc_of s))"
proof -
  have "fold (clean_step r) (split_on CHR ''/'' (Clean s)) acc = rev (snd (loc_of s)) @ acc" for r acc
    using fold_split_path [OF loc_of_normal, of r s acc] fold_clean_names [OF climbs_names [OF assms(2)]]
    by (simp add: Clean_def)
  with assms(1) show ?thesis by (simp add: loc_of_Join)
qed

lemma Join_Clean_below: "d \<noteq> [] \<Longrightarrow> \<not> climbs s \<Longrightarrow> below (loc_of d) (loc_of (Join d (Clean s)))"
  using climbs_names [of s] by (auto simp: Join_Clean_loc below_def)

lemma Join_name_loc:
  assumes "d \<noteq> []" "is_name nm"
  shows "loc_of (Join d nm) = (fst (loc_of d), snd (loc_of d) @ [nm])"
  using assms split_on_none [of "CHR ''/''" nm] by (simp add: loc_of_Join is_name_def [of nm])

lemma below_linear:
  assumes "below a c" "below b c"
  shows "below a b \<or> below b a"
proof -
  from assms obtain x y where x: "snd c = snd a @ x" "\<forall>n\<in>set x. is_name n" and y: "snd c = snd b @ y" "\<forall>n\<in>set y. is_name n"
    and r: "fst a = fst b" by (auto simp: below_def)
  have "snd a @ x = snd b @ y" using x(1) y(1) by simp
  then obtain us where "snd a = snd b @ us \<and> us @ x = y \<or> snd b = snd a @ us \<and> us @ y = x"
    unfolding append_eq_append_conv2 by metis
  then show ?thesis using x(2) y(2) r by (auto simp: below_def)
qed

text \<open>The directory of an entry.\<close>

lemma path_string_child:
  assumes "is_name nm"
  shows "path_string (r, cs @ [nm]) = (if cs = [] then (if r then ''/'' else []) else path_string (r, cs) @ ''/'') @ nm"
  by (auto simp: path_string_def join_strings_snoc)

lemma Dir_Join:
  assumes "d \<noteq> []" "is_name nm"
  shows "loc_of (Dir (Join d nm)) = loc_of d"
proof -
  obtain r cs where l: "loc_of d = (r, cs)" by (cases "loc_of d")
  have norm: "normal (r, cs)" using loc_of_normal [of d] by (simp add: l)
  let ?pre = "if cs = [] then (if r then ''/'' else []) else path_string (r, cs) @ ''/''"
  have "Join d nm = path_string (loc_of (Join d nm))" using assms(1) by (simp add: Join_def Clean_def loc_of_path_string)
  then have J: "Join d nm = ?pre @ nm" by (simp only: Join_name_loc [OF assms] l path_string_child [OF assms(2)] fst_conv snd_conv)
  have ns: "CHR ''/'' \<notin> set nm" using assms(2) by (simp add: is_name_def)
  have "rev (dropWhile (\<lambda>c. c \<noteq> CHR ''/'') (rev (?pre @ nm))) = ?pre"
    using ns by (simp add: dropWhile_append dropWhile_eq_Nil_conv)
  then have "loc_of (Dir (Join d nm)) = loc_of ?pre" by (simp add: Dir_def J)
  moreover have "loc_of (x @ ''/'') = loc_of x" if "x \<noteq> []" for x
    using that split_on_cat [of "CHR ''/''" x "[]"] by (simp add: loc_of_def)
  moreover have "loc_of ''/'' = (True, [])" "loc_of [] = (False, [])"
    by (simp_all add: loc_of_def is_rooted_def)
  ultimately show ?thesis using norm l by (auto simp: loc_of_path_string)
qed

end
