(* ===== verification/File_System.thy ===== *)
theory File_System
  imports Go_Path
begin

text \<open>
  The operating system's files, as the storage code uses them through \<open>os\<close> and \<open>io\<close>. A state is abstract; a
  view gives the node at each location. Every call may fail with any error. The laws are those of a file
  system without links: a call changes only the node it names, \<open>MkdirAll\<close> only adds missing directories on
  the way, a read gives what the file holds at that moment.
\<close>

section \<open>Operations\<close>

datatype fnode = File string | Directory

text \<open>What a reader delivers: its bytes, then an error unless it ends with \<open>EOF\<close>.\<close>

type_synonym reader = "string \<times> gerror option"

record 'f fs_ops =
  fs_stat :: "'f \<Rightarrow> string \<Rightarrow> bool res"
  fs_mkdirall :: "'f \<Rightarrow> string \<Rightarrow> unit res \<times> 'f"
  fs_create :: "'f \<Rightarrow> string \<Rightarrow> unit res \<times> 'f"
  fs_write :: "'f \<Rightarrow> string \<Rightarrow> string \<Rightarrow> (nat \<times> gerror option) \<times> 'f"
  fs_open :: "'f \<Rightarrow> string \<Rightarrow> unit res"
  fs_read :: "'f \<Rightarrow> string \<Rightarrow> reader"
  fs_remove :: "'f \<Rightarrow> string \<Rightarrow> unit res \<times> 'f"
  fs_readdir :: "'f \<Rightarrow> string \<Rightarrow> (string \<times> bool) list res"

text \<open>\<open>io.Copy\<close> into the file opened at \<open>p\<close>: the bytes written, and the first error.\<close>

definition io_Copy :: "'f fs_ops \<Rightarrow> 'f \<Rightarrow> string \<Rightarrow> reader \<Rightarrow> (nat \<times> gerror option) \<times> 'f" where
  "io_Copy F f p r = (case fs_write F f p (fst r) of ((n, e), f') \<Rightarrow> ((n, if e = None then snd r else e), f'))"

section \<open>Laws\<close>

abbreviation child :: "loc \<Rightarrow> string \<Rightarrow> loc" where
  "child l nm \<equiv> (fst l, snd l @ [nm])"

abbreviation descend :: "loc \<Rightarrow> string list \<Rightarrow> loc" where
  "descend l rel \<equiv> (fst l, snd l @ rel)"

definition file_at :: "('f \<Rightarrow> loc \<Rightarrow> fnode option) \<Rightarrow> 'f \<Rightarrow> loc \<Rightarrow> string option" where
  "file_at node f l = (case node f l of Some (File c) \<Rightarrow> Some c | _ \<Rightarrow> None)"

locale file_system =
  fixes F :: "'f fs_ops" and node :: "'f \<Rightarrow> loc \<Rightarrow> fnode option"
  assumes stat_ok: "fs_stat F f p = Inr d \<Longrightarrow> \<exists>n. node f (loc_of p) = Some n \<and> d = (n = Directory)"
    and mkdirall_frame: "fs_mkdirall F f p = (r, f') \<Longrightarrow> node f' l = node f l \<or>
      node f l = None \<and> node f' l = Some Directory \<and> below l (loc_of p)"
    and mkdirall_ok: "fs_mkdirall F f p = (Inr u, f') \<Longrightarrow> node f' (loc_of p) = Some Directory"
    and create_frame: "fs_create F f p = (r, f') \<Longrightarrow> l \<noteq> loc_of p \<Longrightarrow> node f' l = node f l"
    and create_ok: "fs_create F f p = (Inr u, f') \<Longrightarrow> node f' (loc_of p) = Some (File [])"
    and write_frame: "fs_write F f p s = (ne, f') \<Longrightarrow> l \<noteq> loc_of p \<Longrightarrow> node f' l = node f l"
    and write_ok: "fs_write F f p s = ((n, e), f') \<Longrightarrow> node f (loc_of p) = Some (File c) \<Longrightarrow>
      n \<le> length s \<and> (e = None \<longrightarrow> n = length s) \<and> node f' (loc_of p) = Some (File (c @ take n s))"
    and open_ok: "fs_open F f p = Inr u \<Longrightarrow> node f (loc_of p) \<noteq> None"
    and read_ok: "node f (loc_of p) = Some (File c) \<Longrightarrow> snd (fs_read F f p) = None \<Longrightarrow> fst (fs_read F f p) = c"
    and read_dir: "node f (loc_of p) = Some Directory \<Longrightarrow> snd (fs_read F f p) \<noteq> None"
    and remove_frame: "fs_remove F f p = (r, f') \<Longrightarrow> l \<noteq> loc_of p \<Longrightarrow> node f' l = node f l"
    and remove_ok: "fs_remove F f p = (Inr u, f') \<Longrightarrow> node f' (loc_of p) = None"
    and readdir_ok: "fs_readdir F f p = Inr es \<Longrightarrow> node f (loc_of p) = Some Directory \<and> distinct (map fst es) \<and>
      (\<forall>nm d. (nm, d) \<in> set es \<longleftrightarrow> is_name nm \<and> (\<exists>n. node f (child (loc_of p) nm) = Some n \<and> d = (n = Directory)))"
begin

lemma io_Copy_frame: "io_Copy F f p r = (ne, f') \<Longrightarrow> l \<noteq> loc_of p \<Longrightarrow> node f' l = node f l"
  by (auto simp: io_Copy_def split: prod.splits dest: write_frame)

lemma io_Copy_ok:
  "io_Copy F f p r = ((n, None), f') \<Longrightarrow> node f (loc_of p) = Some (File c) \<Longrightarrow>
     n = length (fst r) \<and> snd r = None \<and> node f' (loc_of p) = Some (File (c @ fst r))"
  by (auto simp: io_Copy_def split: prod.splits if_splits dest!: write_ok)

end

section \<open>An instance in memory\<close>

text \<open>
  Nodes by location. A node can be made only in an existing directory, and only an empty directory can be
  removed.
\<close>

type_synonym mem_fs = "(loc \<times> fnode) list"

abbreviation no_such :: gerror where "no_such \<equiv> Err ''no such file or directory''"

fun make_dirs :: "loc \<Rightarrow> string list \<Rightarrow> mem_fs \<Rightarrow> unit res \<times> mem_fs" where
  "make_dirs l [] f = (case map_of f l of
     Some Directory \<Rightarrow> (Inr (), f)
   | Some (File _) \<Rightarrow> (Inl (Err ''not a directory''), f)
   | None \<Rightarrow> (Inr (), (l, Directory) # f))"
| "make_dirs l (c # cs) f = (case make_dirs l [] f of
     (Inl e, f') \<Rightarrow> (Inl e, f')
   | (Inr _, f') \<Rightarrow> make_dirs (child l c) cs f')"

definition children :: "mem_fs \<Rightarrow> loc \<Rightarrow> (string \<times> bool) list" where
  "children f l = map (\<lambda>nm. (nm, map_of f (child l nm) = Some Directory))
     (remdups (map (\<lambda>e. last (snd (fst e))) (filter (\<lambda>e. fst (fst e) = fst l \<and> snd (fst e) \<noteq> [] \<and>
        butlast (snd (fst e)) = snd l \<and> is_name (last (snd (fst e)))) f)))"

definition mem_fs_ops :: "mem_fs fs_ops" where
  "mem_fs_ops = \<lparr>
     fs_stat = (\<lambda>f p. case map_of f (loc_of p) of None \<Rightarrow> Inl no_such | Some n \<Rightarrow> Inr (n = Directory)),
     fs_mkdirall = (\<lambda>f p. if dotdot \<in> set (snd (loc_of p)) then (Inl no_such, f)
        else make_dirs (fst (loc_of p), []) (snd (loc_of p)) f),
     fs_create = (\<lambda>f p. let l = loc_of p in
        if map_of f l = Some Directory then (Inl (Err ''is a directory''), f)
        else if snd l = [] \<or> map_of f (fst l, butlast (snd l)) \<noteq> Some Directory then (Inl no_such, f)
        else (Inr (), (l, File []) # f)),
     fs_write = (\<lambda>f p s. case map_of f (loc_of p) of
        Some (File c) \<Rightarrow> ((length s, None), (loc_of p, File (c @ s)) # f)
      | _ \<Rightarrow> ((0, Some no_such), f)),
     fs_open = (\<lambda>f p. if map_of f (loc_of p) = None then Inl no_such else Inr ()),
     fs_read = (\<lambda>f p. case map_of f (loc_of p) of
        Some (File c) \<Rightarrow> (c, None) | _ \<Rightarrow> ([], Some (Err ''is a directory''))),
     fs_remove = (\<lambda>f p. let l = loc_of p in
        if map_of f l = None then (Inl no_such, f)
        else if children f l \<noteq> [] then (Inl (Err ''directory not empty''), f)
        else (Inr (), filter (\<lambda>e. fst e \<noteq> l) f)),
     fs_readdir = (\<lambda>f p. if map_of f (loc_of p) = Some Directory then Inr (children f (loc_of p))
        else Inl no_such)\<rparr>"

lemma make_dirs_one:
  "make_dirs l [] f = (r, f') \<Longrightarrow> (map_of f' x = map_of f x \<or> map_of f x = None \<and> map_of f' x = Some Directory \<and> x = l) \<and>
     (is_ok r \<longrightarrow> map_of f' l = Some Directory)"
  by (cases "map_of f l"; cases "the (map_of f l)") (auto split: if_splits)

lemma make_dirs_frame:
  "make_dirs l cs f = (r, f') \<Longrightarrow> \<forall>c\<in>set cs. is_name c \<Longrightarrow> map_of f' x = map_of f x \<or>
     map_of f x = None \<and> map_of f' x = Some Directory \<and> below x (descend l cs)"
proof (induction l cs f arbitrary: r f' rule: make_dirs.induct)
  case (1 l f)
  then show ?case using make_dirs_one [of l f r f' x] by auto
next
  case (2 l c cs f)
  obtain r1 f1 where s: "make_dirs l [] f = (r1, f1)" by (cases "make_dirs l [] f")
  have b: "below l (descend l (c # cs))" using 2(4) by (auto simp: below_def)
  have one: "map_of f1 x = map_of f x \<or> map_of f x = None \<and> map_of f1 x = Some Directory \<and> x = l"
    using make_dirs_one [OF s] by blast
  show ?case
  proof (cases r1)
    case (Inl e)
    with 2(3) s one b show ?thesis by auto
  next
    case (Inr u)
    with 2(3) s have "make_dirs (child l c) cs f1 = (r, f')" by simp
    from 2(2) [OF s [symmetric] Inr this] 2(4)
    have "map_of f' x = map_of f1 x \<or> map_of f1 x = None \<and> map_of f' x = Some Directory \<and> below x (descend l (c # cs))" by simp
    with one b show ?thesis by auto
  qed
qed

lemma make_dirs_ok: "make_dirs l cs f = (Inr u, f') \<Longrightarrow> map_of f' (descend l cs) = Some Directory"
proof (induction l cs f arbitrary: f' rule: make_dirs.induct)
  case (1 l f)
  then show ?case using make_dirs_one [of l f "Inr u" f' l] by simp
next
  case (2 l c cs f)
  obtain r1 f1 where s: "make_dirs l [] f = (r1, f1)" by (cases "make_dirs l [] f")
  with 2(3) obtain v where v: "r1 = Inr v" by (cases r1) auto
  with 2(3) s have "make_dirs (child l c) cs f1 = (Inr u, f')" by simp
  from 2(2) [OF s [symmetric] v this] show ?case by simp
qed

lemma map_of_filter_other: "x \<noteq> l \<Longrightarrow> map_of (filter (\<lambda>e. fst e \<noteq> l) f) x = map_of f x"
  by (induction f) auto

lemma map_of_filter_same: "map_of (filter (\<lambda>e. fst e \<noteq> l) f) l = None"
  by (induction f) auto

lemma set_children:
  "(nm, d) \<in> set (children f l) \<longleftrightarrow> is_name nm \<and> (\<exists>n. map_of f (child l nm) = Some n \<and> d = (n = Directory))"
proof -
  have "nm \<in> set (map (\<lambda>e. last (snd (fst e))) (filter (\<lambda>e. fst (fst e) = fst l \<and> snd (fst e) \<noteq> [] \<and>
      butlast (snd (fst e)) = snd l \<and> is_name (last (snd (fst e)))) f)) \<longleftrightarrow> is_name nm \<and> child l nm \<in> fst ` set f"
    (is "?L \<longleftrightarrow> ?R")
  proof
    assume ?L
    then obtain e where e: "e \<in> set f" "fst (fst e) = fst l" "snd (fst e) \<noteq> []" "butlast (snd (fst e)) = snd l"
      "is_name (last (snd (fst e)))" "nm = last (snd (fst e))" by auto
    from append_butlast_last_id [OF e(3)] e have "fst e = child l nm" by (simp add: prod_eq_iff)
    with e(1,5,6) show ?R by (metis imageI)
  next
    assume ?R
    then obtain e where "e \<in> set f" "fst e = child l nm" "is_name nm" by (metis imageE)
    then show ?L by (auto intro!: image_eqI [of _ _ e])
  qed
  then have "(nm, d) \<in> set (children f l) \<longleftrightarrow>
      (is_name nm \<and> map_of f (child l nm) \<noteq> None) \<and> d = (map_of f (child l nm) = Some Directory)"
    unfolding children_def map_of_eq_None_iff set_map set_remdups by blast
  then show ?thesis by auto
qed

lemma distinct_children: "distinct (map fst (children f l))"
  by (simp add: children_def comp_def)

lemma mem_mkdirall_names: "dotdot \<notin> set (snd (loc_of p)) \<Longrightarrow> \<forall>c\<in>set (snd (loc_of p)). is_name c"
  using climbs_names [of p] by (simp add: climbs_def)

interpretation mem_files: file_system mem_fs_ops map_of
proof
  show "map_of f' l = map_of f l \<or> map_of f l = None \<and> map_of f' l = Some Directory \<and> below l (loc_of p)"
    if "fs_mkdirall mem_fs_ops f p = (r, f')" for f p r f' l
    using that make_dirs_frame [of "(fst (loc_of p), [])" "snd (loc_of p)" f r f' l] mem_mkdirall_names [of p]
    by (auto simp: mem_fs_ops_def split: if_splits)
  show "map_of f' (loc_of p) = Some Directory" if "fs_mkdirall mem_fs_ops f p = (Inr u, f')" for f p u f'
    using that make_dirs_ok [of "(fst (loc_of p), [])" "snd (loc_of p)" f u f'] by (auto simp: mem_fs_ops_def split: if_splits)
  show "map_of f (loc_of p) = Some Directory \<and> distinct (map fst es) \<and>
      (\<forall>nm d. (nm, d) \<in> set es \<longleftrightarrow> is_name nm \<and> (\<exists>n. map_of f (child (loc_of p) nm) = Some n \<and> d = (n = Directory)))"
    if "fs_readdir mem_fs_ops f p = Inr es" for f p es
    using that set_children [of _ _ f "loc_of p"] distinct_children [of f "loc_of p"]
    by (auto simp: mem_fs_ops_def split: if_splits)
qed (auto simp: mem_fs_ops_def map_of_filter_other map_of_filter_same Let_def split: option.splits fnode.splits if_splits)

end
