(* ===== verification/Storage_Model.thy ===== *)
theory Storage_Model
  imports Sql_Table File_System
begin

text \<open>
  The records of the storage component (\<open>config/storage.go\<close>, \<open>storage/fileinfo.go\<close>, \<open>storage/temp_file.go\<close>) and the
  statements on their tables. \<open>First\<close> and \<open>Last\<close> take the least and the greatest primary key and report a missing record.
\<close>

section \<open>Configuration\<close>

record StorageOption =
  so_Purpose :: string
  so_PresignedTimeout :: duration

record LocalStorageConfig =
  lc_Dir :: string
  lc_PublicPrefix :: string

record AliOSSConfig =
  ao_RegionID :: string
  ao_Endpoint :: string
  ao_AccessKeyID :: string
  ao_AccessKeySecret :: string
  ao_Bucket :: string

record UpYunConfig =
  uy_Bucket :: string
  uy_Operator :: string
  uy_Password :: string

record TencentCOSConfig =
  tx_SecretID :: string
  tx_SecretKey :: string
  tx_Region :: string
  tx_Endpoint :: string
  tx_Bucket :: string

record MinossConfig =
  mo_EndPoint :: string
  mo_AccessKeyID :: string
  mo_SecretAccessKey :: string
  mo_Bucket :: string

record S3StorageConfig =
  s3_EndPoint :: string
  s3_AccessKeyID :: string
  s3_SecretAccessKey :: string
  s3_Region :: string
  s3_Bucket :: string
  s3_UsePathStyle :: bool

record StorageConfig =
  sc_Option :: StorageOption
  sc_Local :: "LocalStorageConfig option"
  sc_AliOSS :: "AliOSSConfig option"
  sc_UpYun :: "UpYunConfig option"
  sc_Tencent :: "TencentCOSConfig option"
  sc_Minoss :: "MinossConfig option"
  sc_S3 :: "S3StorageConfig option"

section \<open>Files\<close>

type_synonym FileStatus = string

definition FileStatusUploading :: FileStatus where "FileStatusUploading = ''uploading''"
definition FileStatusNormal :: FileStatus where "FileStatusNormal = ''normal''"
definition FileStatusUploadWaitComp :: FileStatus where "FileStatusUploadWaitComp = ''upload_wait_comp''"

record UploadedChunk =
  uc_PartNumber :: int
  uc_Etag :: string

record FileInfo =
  fi_ID :: nat
  fi_CreatedAt :: "gotime option"
  fi_UpdatedAt :: "gotime option"
  fi_DeletedAt :: "gotime option"
  fi_CompanyID :: nat
  fi_Uin :: nat
  fi_Purpose :: string
  fi_Filename :: string
  fi_FileExt :: string
  fi_MIMEType :: string
  fi_Size :: int
  fi_Hash :: string
  fi_ChunkHash :: string
  fi_StoragePath :: string
  fi_PublicURL :: string
  fi_CopyNumber :: int
  fi_UploadChunkSize :: int
  fi_UploadChunkTotal :: int
  fi_Status :: FileStatus
  fi_UploadedChunks :: "UploadedChunk list"
  fi_Progress :: int
  fi_Exists :: bool
  fi_UploadS3ID :: string
  fi_RenewCount :: int
  fi_AbortAt :: "gotime option"
  fi_CompletedAt :: "gotime option"
  fi_Extra :: string

text \<open>\<open>Progress\<close>, a float that no code here reads or computes, is kept as an integer.\<close>

definition zero_file :: FileInfo where
  "zero_file = \<lparr>fi_ID = 0, fi_CreatedAt = None, fi_UpdatedAt = None, fi_DeletedAt = None, fi_CompanyID = 0, fi_Uin = 0,
     fi_Purpose = [], fi_Filename = [], fi_FileExt = [], fi_MIMEType = [], fi_Size = 0, fi_Hash = [], fi_ChunkHash = [],
     fi_StoragePath = [], fi_PublicURL = [], fi_CopyNumber = 0, fi_UploadChunkSize = 0, fi_UploadChunkTotal = 0,
     fi_Status = [], fi_UploadedChunks = [], fi_Progress = 0, fi_Exists = False, fi_UploadS3ID = [], fi_RenewCount = 0,
     fi_AbortAt = None, fi_CompletedAt = None, fi_Extra = []\<rparr>"

text \<open>What \<open>Create\<close> adds: the times, and the defaults of the column tags for zero fields.\<close>

definition file_created :: "gotime \<Rightarrow> FileInfo \<Rightarrow> FileInfo" where
  "file_created now fi = fi\<lparr>
     fi_CreatedAt := (if fi_CreatedAt fi = None then Some now else fi_CreatedAt fi),
     fi_UpdatedAt := (if fi_UpdatedAt fi = None then Some now else fi_UpdatedAt fi),
     fi_CopyNumber := (if fi_CopyNumber fi = 0 then 1 else fi_CopyNumber fi),
     fi_Status := (if fi_Status fi = [] then FileStatusNormal else fi_Status fi)\<rparr>"

section \<open>Statements on the file table\<close>

definition gorm_ErrRecordNotFound :: gerror where
  "gorm_ErrRecordNotFound = Err ''record not found''"

definition first_file :: "('d, FileInfo) table_ops \<Rightarrow> (FileInfo \<Rightarrow> bool) \<Rightarrow> 'd \<Rightarrow> FileInfo res" where
  "first_file T P d = (case tb_find T d (\<lambda>_ r. P r \<and> fi_DeletedAt r = None) (\<lambda>a b. fi_ID a \<le> fi_ID b) of
     Inl e \<Rightarrow> Inl e
   | Inr [] \<Rightarrow> Inl gorm_ErrRecordNotFound
   | Inr (r # _) \<Rightarrow> Inr r)"

definition found_file :: "FileInfo res \<Rightarrow> FileInfo res" where
  "found_file x = (case x of Inl e \<Rightarrow> Inl e | Inr fi \<Rightarrow> (if fi_ID fi = 0 then Inl gorm_ErrRecordNotFound else Inr fi))"

definition GetFileByChunkHash :: "('d, FileInfo) table_ops \<Rightarrow> string \<Rightarrow> int \<Rightarrow> 'd \<Rightarrow> FileInfo res" where
  "GetFileByChunkHash T hashstr sz d = found_file (first_file T (\<lambda>r. fi_Size r = sz \<and> fi_ChunkHash r = hashstr) d)"

definition GetFileByHash :: "('d, FileInfo) table_ops \<Rightarrow> string \<Rightarrow> 'd \<Rightarrow> FileInfo res" where
  "GetFileByHash T hashstr d = found_file (first_file T (\<lambda>r. fi_Hash r = hashstr) d)"

definition GetFileByPublicURL :: "('d, FileInfo) table_ops \<Rightarrow> string \<Rightarrow> 'd \<Rightarrow> FileInfo res" where
  "GetFileByPublicURL T publicURL d = found_file (first_file T (\<lambda>r. fi_PublicURL r = publicURL) d)"

text \<open>
  \<open>SaveCopyFile\<close>: one transaction. The update goes through \<open>Table(\<dots>)\<close> without a model, so it reaches soft-deleted
  rows too and stamps no time.
\<close>

definition SaveCopyFile :: "('d, FileInfo) table_ops \<Rightarrow> gotime \<Rightarrow> FileInfo \<Rightarrow> 'd \<Rightarrow> (FileInfo \<times> 'd) res" where
  "SaveCopyFile T now fi d = (case tb_insert T d [file_created now fi] of
     Inl e \<Rightarrow> Inl e
   | Inr (created, d1) \<Rightarrow>
       (let fi' = first_or zero_file created in
        case tb_update T d1 (\<lambda>r. fi_Hash r = fi_Hash fi' \<and> fi_Size r = fi_Size fi') (\<lambda>r. r\<lparr>fi_CopyNumber := fi_CopyNumber fi'\<rparr>) of
          Inl e \<Rightarrow> Inl e
        | Inr d2 \<Rightarrow> Inr (fi', d2)))"

definition GetCompanyFileByID :: "('d, FileInfo) table_ops \<Rightarrow> nat \<Rightarrow> nat \<Rightarrow> 'd \<Rightarrow> FileInfo res" where
  "GetCompanyFileByID T companyID k d = (if k = 0 then Inl gorm_ErrRecordNotFound
     else first_file T (\<lambda>r. fi_CompanyID r = companyID \<and> fi_ID r = k) d)"

definition GetFileByID :: "('d, FileInfo) table_ops \<Rightarrow> nat \<Rightarrow> 'd \<Rightarrow> FileInfo res" where
  "GetFileByID T k d = (if k = 0 then Inl gorm_ErrRecordNotFound else first_file T (\<lambda>r. fi_ID r = k) d)"

definition file_UpdateByID :: "('d, FileInfo) table_ops \<Rightarrow> gotime \<Rightarrow> nat \<Rightarrow> (FileInfo \<Rightarrow> FileInfo) \<Rightarrow> 'd \<Rightarrow> 'd res" where
  "file_UpdateByID T now k f d = tb_update T d (\<lambda>r. fi_ID r = k \<and> fi_DeletedAt r = None) (\<lambda>r. (f r)\<lparr>fi_UpdatedAt := Some now\<rparr>)"

text \<open>The date and the random characters are arguments.\<close>

definition GenerateFileStoragePath :: "string \<Rightarrow> string \<Rightarrow> string \<Rightarrow> nat \<Rightarrow> string \<Rightarrow> string" where
  "GenerateFileStoragePath date rnd purpose owner fileExt =
     purpose @ ''/'' @ date @ ''/'' @ nat_digits owner @ ''-'' @ rnd @ fileExt"

definition GenerateFileStoragePathWithName :: "string \<Rightarrow> string \<Rightarrow> string \<Rightarrow> nat \<Rightarrow> string \<Rightarrow> string" where
  "GenerateFileStoragePathWithName date rnd purpose owner fileName =
     purpose @ ''/'' @ date @ ''/'' @ nat_digits owner @ ''-'' @ rnd @ ''/'' @ fileName"

section \<open>Temporary files\<close>

record TempFile =
  tf_ID :: nat
  tf_CreatedAt :: "gotime option"
  tf_UpdatedAt :: "gotime option"
  tf_DeletedAt :: "gotime option"
  tf_CompanyID :: nat
  tf_Uin :: nat
  tf_EmployeeID :: nat
  tf_Purpose :: string
  tf_Filename :: string
  tf_FileExt :: string
  tf_MIMEType :: string
  tf_Size :: int
  tf_ChunkHash :: string
  tf_StoragePath :: string
  tf_PublicURL :: string
  tf_ErrMsg :: string
  tf_AnnotationsStr :: string
  tf_ThirdUploadID :: string
  tf_ExpiredAt :: "gotime option"
  tf_PartSize :: int
  tf_PartCount :: int

definition live_temp :: "('d, TempFile) table_ops \<Rightarrow> (TempFile \<Rightarrow> bool) \<Rightarrow> (TempFile \<Rightarrow> TempFile \<Rightarrow> bool) \<Rightarrow> 'd \<Rightarrow> TempFile res" where
  "live_temp T P le d = (case tb_find T d (\<lambda>_ r. P r \<and> tf_DeletedAt r = None) le of
     Inl e \<Rightarrow> Inl e
   | Inr [] \<Rightarrow> Inl gorm_ErrRecordNotFound
   | Inr (r # _) \<Rightarrow> (if tf_ID r = 0 then Inl gorm_ErrRecordNotFound else Inr r))"

definition GetTempFileByHash :: "('d, TempFile) table_ops \<Rightarrow> string \<Rightarrow> int \<Rightarrow> 'd \<Rightarrow> TempFile res" where
  "GetTempFileByHash T hashstr sz d = live_temp T (\<lambda>r. tf_Size r = sz \<and> tf_ChunkHash r = hashstr) (\<lambda>a b. tf_ID a \<le> tf_ID b) d"

definition GetTempFileByThirdUploadID :: "('d, TempFile) table_ops \<Rightarrow> nat \<Rightarrow> string \<Rightarrow> 'd \<Rightarrow> TempFile res" where
  "GetTempFileByThirdUploadID T companyID thirdUploadID d =
     live_temp T (\<lambda>r. tf_CompanyID r = companyID \<and> tf_ThirdUploadID r = thirdUploadID) (\<lambda>a b. tf_ID b \<le> tf_ID a) d"

definition temp_created :: "gotime \<Rightarrow> TempFile \<Rightarrow> TempFile" where
  "temp_created now t = t\<lparr>
     tf_CreatedAt := (if tf_CreatedAt t = None then Some now else tf_CreatedAt t),
     tf_UpdatedAt := (if tf_UpdatedAt t = None then Some now else tf_UpdatedAt t)\<rparr>"

definition SaveTempFile :: "('d, TempFile) table_ops \<Rightarrow> gotime \<Rightarrow> TempFile \<Rightarrow> 'd \<Rightarrow> (TempFile \<times> 'd) res" where
  "SaveTempFile T now t d = (case tb_insert T d [temp_created now t] of
     Inl e \<Rightarrow> Inl e
   | Inr (created, d') \<Rightarrow> Inr (first_or t created, d'))"

end
