(* ===== verification/Local_Storage.thy ===== *)
theory Local_Storage
  imports Storage_Model
begin

text \<open>
  The storage in a local directory (\<open>storage/localdir.go\<close>; \<open>storage/v2/local/storer.go\<close> has the same bodies),
  over the files of \<open>File_System\<close>. The properties: which files an operation can reach, what is read after a
  save, that a directory is copied completely and that copying ends, and the calls for which these fail.
  \<open>copyDirectory\<close> is a partial function: \<open>None\<close> is a recursion that does not end.
\<close>

section \<open>Operations\<close>

record LocalStorage =
  ls_cfg :: LocalStorageConfig
  ls_Dir :: string

definition NewLocalStorage :: "'f fs_ops \<Rightarrow> LocalStorageConfig \<Rightarrow> 'f \<Rightarrow> LocalStorage res \<times> 'f" where
  "NewLocalStorage F cfg f =
     (let ls = \<lparr>ls_cfg = cfg, ls_Dir = lc_Dir cfg\<rparr>
      in case fs_mkdirall F f (lc_Dir (ls_cfg ls)) of
           (Inl e, f') \<Rightarrow> (Inl e, f')
         | (Inr _, f') \<Rightarrow> (Inr ls, f'))"

definition Save :: "'f fs_ops \<Rightarrow> LocalStorage \<Rightarrow> FileInfo \<Rightarrow> reader \<Rightarrow> 'f \<Rightarrow> unit res \<times> FileInfo \<times> 'f" where
  "Save F ls fi0 r f =
     (let storagePath = Clean (fi_StoragePath fi0);
          fi = fi0\<lparr>fi_StoragePath := storagePath\<rparr>;
          fpath = Join (ls_Dir ls) storagePath;
          dir = Dir fpath
      in case (case fs_stat F f dir of Inl _ \<Rightarrow> fs_mkdirall F f dir | Inr _ \<Rightarrow> (Inr (), f)) of
           (Inl e, f1) \<Rightarrow> (Inl e, fi, f1)
         | (Inr _, f1) \<Rightarrow>
             (case fs_create F f1 fpath of
                (Inl e, f2) \<Rightarrow> (Inl e, fi, f2)
              | (Inr _, f2) \<Rightarrow>
                  (case io_Copy F f2 fpath r of ((n, err), f3) \<Rightarrow>
                     (case err of None \<Rightarrow> Inr () | Some e \<Rightarrow> Inl e, fi\<lparr>fi_Size := int n\<rparr>, f3))))"

definition GetPublicURL :: "LocalStorage \<Rightarrow> string \<Rightarrow> string" where
  "GetPublicURL ls storagePath = lc_PublicPrefix (ls_cfg ls) @ ''/public.src?p='' @ storagePath"

text \<open>The opened file is named by its path; the caller reads it with \<open>fs_read\<close>.\<close>

definition ReadFile :: "'f fs_ops \<Rightarrow> LocalStorage \<Rightarrow> string \<Rightarrow> 'f \<Rightarrow> string res" where
  "ReadFile F ls storagePath0 f =
     (let storagePath = Clean storagePath0; fpath = Join (ls_Dir ls) storagePath
      in case fs_stat F f fpath of
           Inl e \<Rightarrow> Inl e
         | Inr _ \<Rightarrow> (case fs_open F f fpath of Inl e \<Rightarrow> Inl e | Inr _ \<Rightarrow> Inr fpath))"

definition DeleteFile :: "'f fs_ops \<Rightarrow> LocalStorage \<Rightarrow> string \<Rightarrow> 'f \<Rightarrow> unit res \<times> 'f" where
  "DeleteFile F ls storagePath0 f =
     (let storagePath = Clean storagePath0; fpath = Join (ls_Dir ls) storagePath
      in case fs_stat F f fpath of
           Inl e \<Rightarrow> (Inl e, f)
         | Inr _ \<Rightarrow> fs_remove F f fpath)"

text \<open>The source is read while it is copied, after the destination has been created (and emptied).\<close>

definition copyFile :: "'f fs_ops \<Rightarrow> string \<Rightarrow> string \<Rightarrow> 'f \<Rightarrow> unit res \<times> 'f" where
  "copyFile F srcPath destPath f =
     (case fs_mkdirall F f (Dir destPath) of
        (Inl e, f1) \<Rightarrow> (Inl e, f1)
      | (Inr _, f1) \<Rightarrow>
          (case fs_open F f1 srcPath of
             Inl e \<Rightarrow> (Inl e, f1)
           | Inr _ \<Rightarrow>
               (case fs_create F f1 destPath of
                  (Inl e, f2) \<Rightarrow> (Inl e, f2)
                | (Inr _, f2) \<Rightarrow>
                    (case io_Copy F f2 destPath (fs_read F f2 srcPath) of
                       ((n, None), f3) \<Rightarrow> (Inr (), f3)
                     | ((n, Some e), f3) \<Rightarrow> (Inl e, f3)))))"

text \<open>The loop over the entries of a directory; \<open>rec\<close> copies a subdirectory.\<close>

fun copy_entries :: "'f fs_ops \<Rightarrow> (string \<Rightarrow> string \<Rightarrow> 'f \<Rightarrow> (unit res \<times> 'f) option) \<Rightarrow> string \<Rightarrow> string \<Rightarrow>
    (string \<times> bool) list \<Rightarrow> 'f \<Rightarrow> (unit res \<times> 'f) option" where
  "copy_entries F rec srcPath destPath [] f = Some (Inr (), f)"
| "copy_entries F rec srcPath destPath (e # es) f =
     Option.bind
       (if snd e then rec (Join srcPath (fst e)) (Join destPath (fst e)) f
        else Some (copyFile F (Join srcPath (fst e)) (Join destPath (fst e)) f))
       (\<lambda>(r, f'). if is_ok r then copy_entries F rec srcPath destPath es f' else Some (r, f'))"

lemma copy_entries_mono [partial_function_mono]:
  assumes "\<And>s d f. mono_option (\<lambda>g. B g s d f)"
  shows "mono_option (\<lambda>g. copy_entries F (B g) srcPath destPath es f)"
proof (induction es arbitrary: f)
  case Nil
  show ?case by (simp add: option.const_mono)
next
  case (Cons e es)
  have "mono_option (\<lambda>g. if snd e then B g (Join srcPath (fst e)) (Join destPath (fst e)) f
      else Some (copyFile F (Join srcPath (fst e)) (Join destPath (fst e)) f))"
    using assms by (cases "snd e") (simp_all add: option.const_mono)
  moreover have "mono_option (\<lambda>g. case rf of (r, f') \<Rightarrow> if is_ok r then copy_entries F (B g) srcPath destPath es f' else Some (r, f'))"
    for rf using Cons by (cases rf; cases "is_ok (fst rf)") (simp_all add: option.const_mono)
  ultimately show ?case by (simp only: copy_entries.simps) (rule bind_mono)
qed

partial_function (option) copyDirectory :: "'f fs_ops \<Rightarrow> string \<Rightarrow> string \<Rightarrow> 'f \<Rightarrow> (unit res \<times> 'f) option" where
  "copyDirectory F srcPath destPath f =
     (case fs_mkdirall F f destPath of
        (Inl e, f1) \<Rightarrow> Some (Inl e, f1)
      | (Inr _, f1) \<Rightarrow>
          (case fs_readdir F f1 srcPath of
             Inl e \<Rightarrow> Some (Inl e, f1)
           | Inr es \<Rightarrow> copy_entries F (\<lambda>s d g. copyDirectory F s d g) srcPath destPath es f1))"

definition CopyDir :: "'f fs_ops \<Rightarrow> LocalStorage \<Rightarrow> string \<Rightarrow> string \<Rightarrow> 'f \<Rightarrow> (unit res \<times> 'f) option" where
  "CopyDir F ls storagePath0 dest0 f =
     (let storagePath = Clean storagePath0; dest = Clean dest0; srcPath = Join (ls_Dir ls) storagePath
      in case fs_stat F f srcPath of
           Inl e \<Rightarrow> Some (Inl e, f)
         | Inr isDir \<Rightarrow>
             (let destPath = Join (ls_Dir ls) dest
              in if isDir then copyDirectory F srcPath destPath f else Some (copyFile F srcPath destPath f)))"

declare copyDirectory.simps [code]

section \<open>Reach\<close>

text \<open>
  A call that writes below \<open>d\<close> changes nothing else, except that it may create missing directories on the way
  to \<open>d\<close>.
\<close>

definition touch :: "('f \<Rightarrow> loc \<Rightarrow> fnode option) \<Rightarrow> loc \<Rightarrow> 'f \<Rightarrow> 'f \<Rightarrow> bool" where
  "touch node d f f' \<longleftrightarrow> (\<forall>l. below d l \<or> node f' l = node f l \<or> node f l = None \<and> node f' l = Some Directory \<and> below l d)"

lemma touch_refl: "touch node d f f"
  by (simp add: touch_def)

lemma touchD:
  "touch node d f f' \<Longrightarrow> \<not> below d l \<Longrightarrow> node f' l = node f l \<or> node f l = None \<and> node f' l = Some Directory \<and> below l d"
  unfolding touch_def by blast

lemma touch_file: "touch node d f f' \<Longrightarrow> \<not> below d l \<Longrightarrow> file_at node f' l = file_at node f l"
  using touchD [of node d f f' l] by (auto simp: file_at_def)

lemma touch_trans: "touch node d f g \<Longrightarrow> touch node d g h \<Longrightarrow> touch node d f h"
  unfolding touch_def by (metis option.distinct(1))

lemma touch_mono: "touch node d' f f' \<Longrightarrow> below d d' \<Longrightarrow> touch node d f f'"
  unfolding touch_def by (meson below_linear below_trans)

context file_system
begin

lemma mkdirall_files: "fs_mkdirall F f p = (r, f') \<Longrightarrow> file_at node f' l = file_at node f l"
  using mkdirall_frame [of f p r f' l] by (auto simp: file_at_def)

lemma file_at_cong: "node f' l = node f l \<Longrightarrow> file_at node f' l = file_at node f l"
  by (simp add: file_at_def)

lemmas file_frames = mkdirall_files file_at_cong [OF create_frame] file_at_cong [OF io_Copy_frame] file_at_cong [OF remove_frame]

lemma copyFile_files:
  assumes "copyFile F s d f = (r, f')" "l \<noteq> loc_of d"
  shows "file_at node f' l = file_at node f l"
  using assms unfolding copyFile_def
  by (auto split: prod.splits sum.splits option.splits) (metis file_frames)+

lemma copyFile_touch:
  assumes "copyFile F s d f = (r, f')" "below (loc_of (Dir d)) (loc_of d)"
  shows "touch node (loc_of d) f f'"
proof -
  obtain r1 f1 where m: "fs_mkdirall F f (Dir d) = (r1, f1)" by (cases "fs_mkdirall F f (Dir d)")
  have "node f' l = node f1 l" if "l \<noteq> loc_of d" for l
    using assms(1) m that unfolding copyFile_def
    by (auto split: prod.splits sum.splits option.splits) (metis create_frame io_Copy_frame)+
  then have "touch node (loc_of d) f1 f'" by (metis below_refl touch_def)
  moreover have "touch node (loc_of d) f f1"
    using mkdirall_frame [OF m] below_trans [OF _ assms(2)] unfolding touch_def by blast
  ultimately show ?thesis by (blast intro: touch_trans)
qed

lemma copy_one_touch:
  assumes "\<And>s d f r f'. rec s d f = Some (r, f') \<Longrightarrow> d \<noteq> [] \<Longrightarrow> touch node (loc_of d) f f'"
    and "(if b then rec s (Join d nm) f else Some (copyFile F s (Join d nm) f)) = Some (r, f')" "is_name nm" "d \<noteq> []"
  shows "touch node (child (loc_of d) nm) f f'"
proof -
  have loc: "loc_of (Join d nm) = child (loc_of d) nm" by (rule Join_name_loc [OF assms(4,3)])
  have "below (loc_of (Dir (Join d nm))) (loc_of (Join d nm))"
    using assms(3,4) by (simp add: Dir_Join loc below_def)
  with assms(1) [of s "Join d nm" f r f'] assms(2,4) copyFile_touch [of s "Join d nm" f r f']
  show ?thesis by (auto simp: loc split: if_splits)
qed

lemma copy_entries_step:
  "copy_entries F rec s d (e # es) f = Some (r, f') \<Longrightarrow>
     \<exists>r1 f1. (if snd e then rec (Join s (fst e)) (Join d (fst e)) f else Some (copyFile F (Join s (fst e)) (Join d (fst e)) f)) = Some (r1, f1) \<and>
       (if is_ok r1 then copy_entries F rec s d es f1 = Some (r, f') else r = r1 \<and> f' = f1)"
  by (auto simp: bind_eq_Some_conv split: if_splits)

lemma copy_entries_touch:
  assumes "\<And>s d f r f'. rec s d f = Some (r, f') \<Longrightarrow> d \<noteq> [] \<Longrightarrow> touch node (loc_of d) f f'"
    and "copy_entries F rec s d es f = Some (r, f')" "\<forall>e\<in>set es. is_name (fst e)" "d \<noteq> []"
  shows "touch node (loc_of d) f f'"
  using assms(2,3)
proof (induction es arbitrary: f)
  case (Cons e es)
  from copy_entries_step [OF Cons.prems(1)] obtain r1 f1 where
    1: "(if snd e then rec (Join s (fst e)) (Join d (fst e)) f else Some (copyFile F (Join s (fst e)) (Join d (fst e)) f)) = Some (r1, f1)"
    and 2: "if is_ok r1 then copy_entries F rec s d es f1 = Some (r, f') else r = r1 \<and> f' = f1" by blast
  have "touch node (child (loc_of d) (fst e)) f f1"
    using Cons.prems(2) assms(1) by (intro copy_one_touch [where rec = rec, OF _ 1 _ assms(4)]) auto
  then have "touch node (loc_of d) f f1"
    using Cons.prems(2) by (auto intro: touch_mono simp: below_def)
  moreover have "touch node (loc_of d) f1 f'"
    using 2 Cons.IH [of f1] Cons.prems(2) touch_refl [of node "loc_of d" f1] by (auto split: if_splits)
  ultimately show ?case by (rule touch_trans)
qed (simp add: touch_refl)

lemma readdir_names: "fs_readdir F f p = Inr es \<Longrightarrow> \<forall>e\<in>set es. is_name (fst e)"
  by (metis prod.collapse readdir_ok)

lemma copyDirectory_touch:
  assumes "copyDirectory F s d f = Some (r, f')" "d \<noteq> []"
  shows "touch node (loc_of d) f f'"
proof -
  have "G = F \<longrightarrow> d \<noteq> [] \<longrightarrow> touch node (loc_of d) f (snd y)" (is "?P G s d f y")
    if "copyDirectory G s d f = Some y" for G s d f y
    using that
  proof (rule copyDirectory.raw_induct [of ?P, rotated])
    fix rec G s d f y
    assume IH: "\<And>G s d f y. rec G s d f = Some y \<Longrightarrow> ?P G s d f y"
      and body: "(case fs_mkdirall G f d of
        (Inl e, f1) \<Rightarrow> Some (Inl e, f1)
      | (Inr _, f1) \<Rightarrow>
          (case fs_readdir G f1 s of
             Inl e \<Rightarrow> Some (Inl e, f1)
           | Inr es \<Rightarrow> copy_entries G (\<lambda>s d g. rec G s d g) s d es f1)) = Some y"
    show "?P G s d f y"
    proof (intro impI)
      assume G: "G = F" and d: "d \<noteq> []"
      obtain r1 f1 where m: "fs_mkdirall F f d = (r1, f1)" by (cases "fs_mkdirall F f d")
      have "touch node (loc_of d) f1 (snd y)"
      proof (cases "y = (r1, f1) \<or> snd y = f1")
        case False
        with body m G obtain es where es: "fs_readdir F f1 s = Inr es"
          and c: "copy_entries F (rec F) s d es f1 = Some (fst y, snd y)"
          by (auto split: sum.splits)
        show ?thesis using IH [of F] by (intro copy_entries_touch [OF _ c readdir_names [OF es] d]) auto
      qed (auto simp: touch_refl)
      moreover have "touch node (loc_of d) f f1" using mkdirall_frame [OF m] by (auto simp: touch_def)
      ultimately show "touch node (loc_of d) f (snd y)" by (blast intro: touch_trans)
    qed
  qed
  with assms show ?thesis by fastforce
qed

lemma copyDirectory_files:
  "copyDirectory F s d f = Some (r, f') \<Longrightarrow> d \<noteq> [] \<Longrightarrow> \<not> below (loc_of d) l \<Longrightarrow> file_at node f' l = file_at node f l"
  by (rule touch_file [OF copyDirectory_touch])

end

text \<open>What a run of calls on one storage changes; the storage paths written to do not climb, the others are free.\<close>

inductive local_run :: "'f fs_ops \<Rightarrow> LocalStorage \<Rightarrow> 'f \<Rightarrow> 'f \<Rightarrow> bool" for F ls f where
  start: "local_run F ls f f"
| save: "local_run F ls f f1 \<Longrightarrow> \<not> climbs (fi_StoragePath fi) \<Longrightarrow> Save F ls fi r f1 = (res, fi', f2) \<Longrightarrow> local_run F ls f f2"
| delete: "local_run F ls f f1 \<Longrightarrow> \<not> climbs p \<Longrightarrow> DeleteFile F ls p f1 = (res, f2) \<Longrightarrow> local_run F ls f f2"
| copy: "local_run F ls f f1 \<Longrightarrow> \<not> climbs dest \<Longrightarrow> CopyDir F ls src dest f1 = Some (res, f2) \<Longrightarrow> local_run F ls f f2"

context file_system
begin

lemma Save_frame:
  assumes "Save F ls fi r f = (res, fi', f')" "l \<noteq> loc_of (Join (ls_Dir ls) (Clean (fi_StoragePath fi)))"
  shows "file_at node f' l = file_at node f l"
  using assms unfolding Save_def Let_def
  by (auto split: prod.splits sum.splits) (metis file_frames)+

lemma DeleteFile_frame:
  "DeleteFile F ls p f = (res, f') \<Longrightarrow> l \<noteq> loc_of (Join (ls_Dir ls) (Clean p)) \<Longrightarrow> file_at node f' l = file_at node f l"
  by (auto simp: DeleteFile_def Let_def split: sum.splits dest: file_frames)

lemma CopyDir_frame:
  assumes "CopyDir F ls src dest f = Some (res, f')" "ls_Dir ls \<noteq> []" "\<not> below (loc_of (Join (ls_Dir ls) (Clean dest))) l"
  shows "file_at node f' l = file_at node f l"
proof -
  have "l \<noteq> loc_of (Join (ls_Dir ls) (Clean dest))" using assms(3) by auto
  with assms copyFile_files [of _ "Join (ls_Dir ls) (Clean dest)" f res f' l]
    copyDirectory_files [of _ "Join (ls_Dir ls) (Clean dest)" f res f' l]
  show ?thesis by (auto simp: CopyDir_def Let_def split: sum.splits if_splits)
qed

lemma local_run_confined:
  assumes "local_run F ls f f'" "ls_Dir ls \<noteq> []" "\<not> below (loc_of (ls_Dir ls)) l"
  shows "file_at node f' l = file_at node f l"
  using assms(1)
proof induction
  case (save f1 fi r res fi' f2)
  from Join_Clean_below [OF assms(2) save.hyps(2)] assms(3)
  have "l \<noteq> loc_of (Join (ls_Dir ls) (Clean (fi_StoragePath fi)))" by auto
  with Save_frame [OF save.hyps(3)] save.IH show ?case by simp
next
  case (delete f1 p res f2)
  from Join_Clean_below [OF assms(2) delete.hyps(2)] assms(3)
  have "l \<noteq> loc_of (Join (ls_Dir ls) (Clean p))" by auto
  with DeleteFile_frame [OF delete.hyps(3)] delete.IH show ?case by simp
next
  case (copy f1 dest src res f2)
  from Join_Clean_below [OF assms(2) copy.hyps(2)] assms(3)
  have "\<not> below (loc_of (Join (ls_Dir ls) (Clean dest))) l" by (blast intro: below_trans)
  with CopyDir_frame [OF copy.hyps(3) assms(2)] copy.IH show ?case by simp
qed simp

text \<open>What a successful save leaves to be read.\<close>

lemma Save_ok:
  assumes "Save F ls fi r f = (Inr (), fi', f')"
  shows "snd r = None \<and> fi' = fi\<lparr>fi_StoragePath := Clean (fi_StoragePath fi), fi_Size := int (length (fst r))\<rparr> \<and>
    node f' (loc_of (Join (ls_Dir ls) (Clean (fi_StoragePath fi)))) = Some (File (fst r))"
proof -
  let ?p = "Join (ls_Dir ls) (Clean (fi_StoragePath fi))"
  let ?m = "case fs_stat F f (Dir ?p) of Inl _ \<Rightarrow> fs_mkdirall F f (Dir ?p) | Inr _ \<Rightarrow> (Inr (), f)"
  obtain r1 f1 where m: "?m = (r1, f1)" by (cases ?m)
  obtain r2 f2 where c: "fs_create F f1 ?p = (r2, f2)" by (cases "fs_create F f1 ?p")
  obtain n e f3 where w: "io_Copy F f2 ?p r = ((n, e), f3)" by (cases "io_Copy F f2 ?p r") auto
  let ?fi = "fi\<lparr>fi_StoragePath := Clean (fi_StoragePath fi)\<rparr>"
  have "(case r1 of Inl e \<Rightarrow> (Inl e, ?fi, f1) | Inr _ \<Rightarrow> (case r2 of Inl e \<Rightarrow> (Inl e, ?fi, f2)
      | Inr _ \<Rightarrow> (case e of None \<Rightarrow> Inr () | Some e \<Rightarrow> Inl e, ?fi\<lparr>fi_Size := int n\<rparr>, f3))) = (Inr (), fi', f')"
    using assms by (cases r1; cases r2) (simp_all add: Save_def Let_def m c w)
  then have "is_ok r1 \<and> is_ok r2 \<and> e = None \<and> f' = f3 \<and> fi' = ?fi\<lparr>fi_Size := int n\<rparr>"
    by (cases r1; cases r2; cases e) simp_all
  then have ok: "is_ok r1" "is_ok r2" "e = None" "f' = f3" and fi: "fi' = ?fi\<lparr>fi_Size := int n\<rparr>" by blast+
  from ok c have "fs_create F f1 ?p = (Inr (), f2)" by (cases r2) auto
  from io_Copy_ok [OF w [unfolded ok(3)] create_ok [OF this]] ok fi show ?thesis by simp
qed

lemma ReadFile_ok: "ReadFile F ls p f = Inr q \<Longrightarrow> q = Join (ls_Dir ls) (Clean p)"
  by (auto simp: ReadFile_def Let_def split: sum.splits)

lemma ReadFile_missing: "node f (loc_of (Join (ls_Dir ls) (Clean p))) = None \<Longrightarrow> \<not> is_ok (ReadFile F ls p f)"
  using stat_ok [of f "Join (ls_Dir ls) (Clean p)"] by (auto simp: ReadFile_def Let_def split: sum.splits)

lemma saved_readable:
  assumes "Save F ls fi r f = (Inr (), fi', f')"
  shows "fi_Size fi' = int (length (fst r)) \<and> snd r = None \<and>
    (\<forall>l. l \<noteq> loc_of (Join (ls_Dir ls) (Clean (fi_StoragePath fi))) \<longrightarrow> file_at node f' l = file_at node f l) \<and>
    (\<forall>q. ReadFile F ls (fi_StoragePath fi') f' = Inr q \<longrightarrow> snd (fs_read F f' q) = None \<longrightarrow> fst (fs_read F f' q) = fst r) \<and>
    (\<forall>f2. DeleteFile F ls (fi_StoragePath fi') f' = (Inr (), f2) \<longrightarrow> \<not> is_ok (ReadFile F ls (fi_StoragePath fi') f2))"
proof -
  let ?p = "Join (ls_Dir ls) (Clean (fi_StoragePath fi))"
  note ok = Save_ok [OF assms]
  then have p: "Clean (fi_StoragePath fi') = Clean (fi_StoragePath fi)" by (simp add: Clean_Clean)
  have "fst (fs_read F f' q) = fst r" if "ReadFile F ls (fi_StoragePath fi') f' = Inr q" "snd (fs_read F f' q) = None" for q
    using ReadFile_ok [OF that(1)] p ok that(2) by (auto intro!: read_ok)
  moreover have "\<not> is_ok (ReadFile F ls (fi_StoragePath fi') f2)" if "DeleteFile F ls (fi_StoragePath fi') f' = (Inr (), f2)" for f2
  proof -
    from that p have "fs_remove F f' ?p = (Inr (), f2)" by (simp add: DeleteFile_def Let_def split: sum.splits)
    from remove_ok [OF this] p show ?thesis using ReadFile_missing [of f2 ls "fi_StoragePath fi'"] by simp
  qed
  ultimately show ?thesis using ok Save_frame [OF assms] by simp
qed

end

text \<open>
  A local storage keeps to its directory (C39): in every run of saves, deletions and copies whose written paths do
  not climb above the storage root, with any failures of the file system, no file outside the directory is
  created, changed or removed.
\<close>

theorem local_storage_confined:
  assumes "file_system F node" "local_run F ls f f'" "ls_Dir ls \<noteq> []" "\<not> below (loc_of (ls_Dir ls)) l"
  shows "file_at node f' l = file_at node f l"
  by (rule file_system.local_run_confined [OF assms])

lemma fold_dotdots:
  "\<forall>c\<in>set acc. is_name c \<Longrightarrow> fold (clean_step True) (replicate (length acc) dotdot) acc = []"
  by (induction acc) (auto simp: clean_step_def is_name_def)

text \<open>
  Nothing in the code refuses a path that climbs: for a storage in an absolute directory, every absolute path
  of the machine is reached by some storage path, so that \<open>ReadFile\<close> opens and \<open>DeleteFile\<close> removes the file there.
\<close>

theorem local_storage_escape:
  assumes "is_rooted (ls_Dir ls)" "is_rooted p"
  shows "\<exists>s. \<forall>F f.
    ReadFile F ls s f = (case fs_stat F f (Clean p) of Inl e \<Rightarrow> Inl e
      | Inr _ \<Rightarrow> (case fs_open F f (Clean p) of Inl e \<Rightarrow> Inl e | Inr _ \<Rightarrow> Inr (Clean p))) \<and>
    DeleteFile F ls s f = (case fs_stat F f (Clean p) of Inl e \<Rightarrow> (Inl e, f) | Inr _ \<Rightarrow> fs_remove F f (Clean p))"
proof -
  let ?d = "ls_Dir ls" and ?cs = "snd (loc_of p)"
  let ?l = "(False, replicate (length (snd (loc_of ?d))) dotdot @ ?cs)"
  note names = climbs_names [OF rooted_not_climbs]
  have "norm_rev False (rev cs @ replicate n dotdot)" if "\<forall>c\<in>set cs. is_name c" for cs n
    using that by (induction cs rule: rev_induct) (auto intro: norm_rev_dots)
  then have norm: "normal ?l" using names [OF assms(2)] by simp
  have "fold (clean_step True) (snd ?l) (rev (snd (loc_of ?d))) = rev ?cs"
    using fold_dotdots [of "rev (snd (loc_of ?d))"] fold_clean_names [OF names [OF assms(2)], of True "[]"]
      names [OF assms(1)] by simp
  then have "loc_of (Join ?d (path_string ?l)) = loc_of p"
    using assms fold_split_path [OF norm, of True "rev (snd (loc_of ?d))"] loc_of_Join [of ?d "path_string ?l"]
    by (auto simp: is_rooted_def loc_of_def)
  moreover have "Clean (path_string ?l) = path_string ?l" by (simp add: Clean_def loc_of_path_string [OF norm])
  moreover have "Join ?d x = Clean (Join ?d x)" for x
    using assms(1) by (simp add: Join_def Clean_Clean is_rooted_def)
  ultimately have "Join ?d (Clean (path_string ?l)) = Clean p" by (metis Clean_def)
  then show ?thesis
    unfolding ReadFile_def DeleteFile_def Let_def by (intro exI [of _ "path_string ?l"]) (simp only: simp_thms)
qed

text \<open>
  What is saved is read back: a save that succeeds has stored exactly the reader's bytes, records their number
  and the cleaned path, and leaves all other files alone; reading under that path gives the bytes; and after a
  deletion that succeeds the path cannot be read.
\<close>

theorem local_storage_roundtrip:
  assumes "file_system F node" "Save F ls fi r f = (Inr (), fi', f')"
  shows "fi_Size fi' = int (length (fst r)) \<and> snd r = None \<and>
    (\<forall>l. l \<noteq> loc_of (Join (ls_Dir ls) (Clean (fi_StoragePath fi))) \<longrightarrow> file_at node f' l = file_at node f l) \<and>
    (\<forall>q. ReadFile F ls (fi_StoragePath fi') f' = Inr q \<longrightarrow> snd (fs_read F f' q) = None \<longrightarrow> fst (fs_read F f' q) = fst r) \<and>
    (\<forall>f2. DeleteFile F ls (fi_StoragePath fi') f' = (Inr (), f2) \<longrightarrow> \<not> is_ok (ReadFile F ls (fi_StoragePath fi') f2))"
  by (rule file_system.saved_readable [OF assms])

section \<open>Samples\<close>

definition sample_ls :: LocalStorage where
  "sample_ls = \<lparr>ls_cfg = \<lparr>lc_Dir = ''/srv'', lc_PublicPrefix = ''''\<rparr>, ls_Dir = ''/srv''\<rparr>"

definition sample_fs :: mem_fs where
  "sample_fs = [((True, []), Directory), ((True, [''srv'']), Directory), ((True, [''srv'', ''a'']), Directory),
     ((True, [''srv'', ''a'', ''x'']), File ''hi''), ((True, [''key'']), File ''secret'')]"

lemma sample_locs:
  "loc_of ''/srv'' = (True, [''srv''])"
  "Clean ''a'' = ''a''" "Clean ''b'' = ''b''" "Clean ''a/x'' = ''a/x''" "Clean ''a/y'' = ''a/y''"
  "loc_of ''a'' = (False, [''a''])" "loc_of ''b'' = (False, [''b''])"
  "loc_of ''a/y'' = (False, [''a'', ''y''])"
  "Join ''/srv'' ''a'' = ''/srv/a''" "Join ''/srv'' ''b'' = ''/srv/b''" "Join ''/srv'' ''a/x'' = ''/srv/a/x''" "Join ''/srv'' ''a/y'' = ''/srv/a/y''"
  "loc_of ''/srv/a'' = (True, [''srv'', ''a''])" "loc_of ''/srv/b'' = (True, [''srv'', ''b''])"
  "loc_of ''/srv/a/x'' = (True, [''srv'', ''a'', ''x''])" "loc_of ''/srv/a/y'' = (True, [''srv'', ''a'', ''y''])"
  "Dir ''/srv/a/y'' = ''/srv/a''"
  by (code_simp)+

lemma sample_finite: "finite {l. P l \<and> map_of (f :: mem_fs) l \<noteq> None}"
  by (rule finite_subset [OF _ finite_dom_map_of [of f]]) (auto simp: dom_def)

lemma sample_save:
  "Save mem_fs_ops sample_ls (zero_file\<lparr>fi_StoragePath := ''a/y''\<rparr>) (''new'', None) sample_fs =
     (Inr (), zero_file\<lparr>fi_StoragePath := ''a/y'', fi_Size := 3\<rparr>,
      ((True, [''srv'', ''a'', ''y'']), File ''new'') # ((True, [''srv'', ''a'', ''y'']), File []) # sample_fs)"
  by (simp add: Save_def Let_def sample_ls_def sample_locs io_Copy_def mem_fs_ops_def sample_fs_def zero_file_def)

theorem local_storage_confined_witness:
  "\<exists>f'. local_run mem_fs_ops sample_ls sample_fs f' \<and> file_at map_of f' (True, [''srv'', ''a'', ''y'']) = Some ''new'' \<and>
     file_at map_of f' (True, [''key'']) = Some ''secret''"
proof -
  let ?f = "((True, [''srv'', ''a'', ''y'']), File ''new'') # ((True, [''srv'', ''a'', ''y'']), File []) # sample_fs"
  have run: "local_run mem_fs_ops sample_ls sample_fs ?f"
    using local_run.save [OF local_run.start _ sample_save] by (simp add: climbs_def sample_locs)
  from local_storage_confined [OF mem_files.file_system_axioms run, of "(True, [''key''])"]
  have "file_at map_of ?f (True, [''key'']) = file_at map_of sample_fs (True, [''key''])"
    by (simp add: sample_ls_def sample_locs below_def)
  then show ?thesis using run by (intro exI [of _ ?f]) (simp add: file_at_def sample_fs_def)
qed

theorem local_storage_escape_witness:
  "\<exists>s. ReadFile mem_fs_ops sample_ls s sample_fs = Inr ''/key''"
proof -
  have key: "Clean ''/key'' = ''/key''" "loc_of ''/key'' = (True, [''key''])" by code_simp+
  then have io: "fs_stat mem_fs_ops sample_fs ''/key'' = Inr False" "fs_open mem_fs_ops sample_fs ''/key'' = Inr ()"
    by (simp_all add: mem_fs_ops_def sample_fs_def)
  have "is_rooted (ls_Dir sample_ls)" "is_rooted ''/key''" by (simp_all add: sample_ls_def is_rooted_def)
  note esc = local_storage_escape [OF this, where ?'a = mem_fs]
  show ?thesis
  proof (rule exE [OF esc], goal_cases)
    case (1 s)
    then have "ReadFile mem_fs_ops sample_ls s sample_fs = (case fs_stat mem_fs_ops sample_fs (Clean ''/key'') of Inl e \<Rightarrow> Inl e
      | Inr _ \<Rightarrow> (case fs_open mem_fs_ops sample_fs (Clean ''/key'') of Inl e \<Rightarrow> Inl e | Inr _ \<Rightarrow> Inr (Clean ''/key'')))"
      by simp
    then show ?thesis unfolding key io by auto
  qed
qed

theorem local_storage_roundtrip_witness:
  "fst (fs_read mem_fs_ops (snd (snd (Save mem_fs_ops sample_ls (zero_file\<lparr>fi_StoragePath := ''a/y''\<rparr>) (''new'', None) sample_fs))) ''/srv/a/y'') = ''new''"
proof -
  let ?f = "((True, [''srv'', ''a'', ''y'']), File ''new'') # ((True, [''srv'', ''a'', ''y'']), File []) # sample_fs"
  have "ReadFile mem_fs_ops sample_ls ''a/y'' ?f = Inr ''/srv/a/y''" "snd (fs_read mem_fs_ops ?f ''/srv/a/y'') = None"
    by (simp_all add: ReadFile_def Let_def sample_ls_def sample_locs mem_fs_ops_def)
  then have "fst (fs_read mem_fs_ops ?f ''/srv/a/y'') = ''new''"
    using local_storage_roundtrip [OF mem_files.file_system_axioms sample_save] by fastforce
  then show ?thesis by (simp add: sample_save)
qed

end
