(* ===== verification/Local_Copy.thy ===== *)
theory Local_Copy
  imports Local_Storage
begin

text \<open>
  Copying in the local storage: that a directory is copied completely and that the recursion ends, and what goes
  wrong when source and destination overlap.
\<close>

section \<open>Copying\<close>

text \<open>Two locations of which neither contains the other.\<close>

definition apart :: "loc \<Rightarrow> loc \<Rightarrow> bool" where
  "apart a b \<longleftrightarrow> \<not> below a b \<and> \<not> below b a"

lemma below_child: "is_name nm \<Longrightarrow> below l (child l nm)"
  by (simp add: below_def)

lemma apart_child: "apart a b \<Longrightarrow> is_name nm \<Longrightarrow> apart (child a nm) (child b nm)"
  unfolding apart_def by (meson below_child below_linear below_trans)

lemma touch_apart: "touch node d f f' \<Longrightarrow> apart s d \<Longrightarrow> below s l \<Longrightarrow> node f' l = node f l"
  unfolding apart_def by (meson below_linear below_trans touchD)

lemma siblings_apart: "nm \<noteq> nm' \<Longrightarrow> below (child l nm) x \<Longrightarrow> \<not> below (child l nm') x"
  by (auto simp: below_def)

text \<open>A path to a file below \<open>l\<close> through directories.\<close>

definition file_below :: "('f \<Rightarrow> loc \<Rightarrow> fnode option) \<Rightarrow> 'f \<Rightarrow> loc \<Rightarrow> string list \<Rightarrow> string \<Rightarrow> bool" where
  "file_below node f l rel c \<longleftrightarrow> (\<forall>nm\<in>set rel. is_name nm) \<and> (\<forall>i<length rel. node f (descend l (take i rel)) = Some Directory) \<and>
     node f (descend l rel) = Some (File c)"

lemma file_below_Nil [simp]: "file_below node f l [] c \<longleftrightarrow> node f l = Some (File c)"
  by (simp add: file_below_def)

lemma file_below_Cons:
  "file_below node f l (nm # rel) c \<longleftrightarrow> is_name nm \<and> node f l = Some Directory \<and> file_below node f (child l nm) rel c"
proof -
  have "(\<forall>i<Suc (length rel). node f (descend l (take i (nm # rel))) = Some Directory) \<longleftrightarrow>
      node f l = Some Directory \<and> (\<forall>i<length rel. node f (descend (child l nm) (take i rel)) = Some Directory)"
    by (subst All_less_Suc2) simp
  then show ?thesis by (auto simp: file_below_def)
qed

lemma file_below_cong:
  assumes "\<And>x. below l x \<Longrightarrow> node f' x = node f x"
  shows "file_below node f' l rel c = file_below node f l rel c"
proof (cases "\<forall>nm\<in>set rel. is_name nm")
  case True
  then have "below l (descend l (take i rel))" for i by (auto simp: below_def dest: in_set_takeD)
  from this [of "length rel"] this assms show ?thesis by (simp add: file_below_def)
next
  case False
  then show ?thesis by (auto simp: file_below_def)
qed

context file_system
begin

lemma copyFile_ok:
  assumes "copyFile F s d f = (Inr u, f')" "loc_of s \<noteq> loc_of d" "node f (loc_of s) = Some (File c)"
  shows "node f' (loc_of d) = Some (File c)"
proof -
  obtain r1 f1 where m: "fs_mkdirall F f (Dir d) = (r1, f1)" by (cases "fs_mkdirall F f (Dir d)")
  obtain r2 f2 where k: "fs_create F f1 d = (r2, f2)" by (cases "fs_create F f1 d")
  obtain n e f3 where w: "io_Copy F f2 d (fs_read F f2 s) = ((n, e), f3)" by (cases "io_Copy F f2 d (fs_read F f2 s)") auto
  from assms(1) m k w have ok: "is_ok r2" "e = None" "f3 = f'"
    unfolding copyFile_def by (auto split: sum.splits option.splits)
  then obtain u2 where k2: "fs_create F f1 d = (Inr u2, f2)" using k by (cases r2) auto
  have "node f2 (loc_of s) = Some (File c)"
    using mkdirall_frame [OF m, of "loc_of s"] create_frame [OF k assms(2)] assms(3) by auto
  moreover note io_Copy_ok [OF w [unfolded ok] create_ok [OF k2]]
  ultimately show ?thesis using read_ok [of f2 s c] by simp
qed

lemma copy_entries_keep:
  assumes "\<And>s d f r f'. rec s d f = Some (r, f') \<Longrightarrow> d \<noteq> [] \<Longrightarrow> touch node (loc_of d) f f'"
    and "copy_entries F rec s d es f = Some (r, f')" "\<forall>e\<in>set es. is_name (fst e)" "d \<noteq> []"
    and "nm \<notin> fst ` set es" "below (child (loc_of d) nm) l" "node f l = Some x"
  shows "node f' l = Some x"
  using assms(2,3,5,7)
proof (induction es arbitrary: f)
  case (Cons e es)
  from copy_entries_step [OF Cons.prems(1)] obtain r1 f1 where
    1: "(if snd e then rec (Join s (fst e)) (Join d (fst e)) f else Some (copyFile F (Join s (fst e)) (Join d (fst e)) f)) = Some (r1, f1)"
    and 2: "if is_ok r1 then copy_entries F rec s d es f1 = Some (r, f') else r = r1 \<and> f' = f1" by blast
  have "touch node (child (loc_of d) (fst e)) f f1"
    using Cons.prems(2) assms(1) by (intro copy_one_touch [where rec = rec, OF _ 1 _ assms(4)]) auto
  moreover have "\<not> below (child (loc_of d) (fst e)) l"
    using Cons.prems(3) by (intro siblings_apart [OF _ assms(6)]) auto
  ultimately have "node f1 l = Some x" using Cons.prems(4) by (auto dest: touchD)
  with 2 Cons.IH [of f1] Cons.prems(2,3) show ?case by (auto split: if_splits)
qed simp

end

text \<open>What a call of the copy promises.\<close>

definition promise :: "('f \<Rightarrow> loc \<Rightarrow> fnode option) \<Rightarrow> string \<Rightarrow> string \<Rightarrow> 'f \<Rightarrow> unit res \<times> 'f \<Rightarrow> bool" where
  "promise node s d f y \<longleftrightarrow> (d \<noteq> [] \<longrightarrow> touch node (loc_of d) f (snd y) \<and>
     (is_ok (fst y) \<longrightarrow> s \<noteq> [] \<longrightarrow> apart (loc_of s) (loc_of d) \<longrightarrow>
        (\<forall>rel c. file_below node f (loc_of s) rel c \<longrightarrow> node (snd y) (descend (loc_of d) rel) = Some (File c))))"

definition copies :: "('f \<Rightarrow> loc \<Rightarrow> fnode option) \<Rightarrow> (string \<Rightarrow> string \<Rightarrow> 'f \<Rightarrow> (unit res \<times> 'f) option) \<Rightarrow> bool" where
  "copies node rec \<longleftrightarrow> (\<forall>s d f y. rec s d f = Some y \<longrightarrow> promise node s d f y)"

lemma copies_touch: "copies node rec \<Longrightarrow> rec s d f = Some (r, f') \<Longrightarrow> d \<noteq> [] \<Longrightarrow> touch node (loc_of d) f f'"
  unfolding copies_def promise_def by fastforce

lemma copies_file:
  "copies node rec \<Longrightarrow> rec s d f = Some (r, f') \<Longrightarrow> is_ok r \<Longrightarrow> s \<noteq> [] \<Longrightarrow> d \<noteq> [] \<Longrightarrow> apart (loc_of s) (loc_of d) \<Longrightarrow>
     file_below node f (loc_of s) rel c \<Longrightarrow> node f' (descend (loc_of d) rel) = Some (File c)"
  unfolding copies_def promise_def by fastforce

context file_system
begin

lemma copy_one_ok:
  assumes "copies node rec" "(if b then rec (Join s nm) (Join d nm) f else Some (copyFile F (Join s nm) (Join d nm) f)) = Some (r, f')" "is_ok r"
    and "is_name nm" "s \<noteq> []" "d \<noteq> []" "apart (loc_of s) (loc_of d)"
    and "node f (child (loc_of s) nm) = Some n" "b = (n = Directory)" "file_below node f (child (loc_of s) nm) rel c"
  shows "node f' (descend (child (loc_of d) nm) rel) = Some (File c)"
proof -
  note loc = Join_name_loc [OF assms(5,4)] Join_name_loc [OF assms(6,4)]
  have ap: "apart (child (loc_of s) nm) (child (loc_of d) nm)" by (rule apart_child [OF assms(7,4)])
  show ?thesis
  proof (cases b)
    case True
    with assms(2) have rc: "rec (Join s nm) (Join d nm) f = Some (r, f')" by simp
    have ne: "Join s nm \<noteq> []" "Join d nm \<noteq> []" using assms(5,6) by simp_all
    have "apart (loc_of (Join s nm)) (loc_of (Join d nm))" "file_below node f (loc_of (Join s nm)) rel c"
      using ap assms(10) by (simp_all only: loc)
    from copies_file [OF assms(1) rc assms(3) ne this] show ?thesis by (simp add: loc)
  next
    case False
    with assms(8-10) have "rel = []" by (cases rel) (auto simp: file_below_Cons)
    moreover have "loc_of (Join s nm) \<noteq> loc_of (Join d nm)" using ap below_refl unfolding loc apart_def by metis
    moreover obtain u where "copyFile F (Join s nm) (Join d nm) f = (Inr u, f')" using assms(2,3) False by (cases r) auto
    ultimately show ?thesis using copyFile_ok [of "Join s nm" "Join d nm" f u f' c] assms(10) by (simp add: loc)
  qed
qed

lemma copy_entries_ok:
  assumes "copies node rec" "s \<noteq> []" "d \<noteq> []" "apart (loc_of s) (loc_of d)"
    and "copy_entries F rec s d es f = Some (r, f')" "is_ok r" "distinct (map fst es)"
    and "\<forall>e\<in>set es. is_name (fst e) \<and> (\<exists>n. node f (child (loc_of s) (fst e)) = Some n \<and> snd e = (n = Directory))"
    and "nm \<in> fst ` set es" "file_below node f (child (loc_of s) nm) rel c"
  shows "node f' (descend (child (loc_of d) nm) rel) = Some (File c)"
  using assms(5,7-)
proof (induction es arbitrary: f)
  case (Cons e es)
  let ?one = "\<lambda>f. if snd e then rec (Join s (fst e)) (Join d (fst e)) f else Some (copyFile F (Join s (fst e)) (Join d (fst e)) f)"
  from copy_entries_step [OF Cons.prems(1)] assms(6) obtain r1 f1 where
    1: "?one f = Some (r1, f1)" "is_ok r1" and 2: "copy_entries F rec s d es f1 = Some (r, f')"
    by (metis (full_types))
  have names: "\<forall>e\<in>set es. is_name (fst e)" "is_name (fst e)" using Cons.prems(3) by auto
  note rec_touch = copies_touch [OF assms(1)]
  have "touch node (child (loc_of d) (fst e)) f f1"
    using rec_touch by (intro copy_one_touch [where rec = rec, OF _ 1(1) names(2) assms(3)])
  then have "touch node (loc_of d) f f1" by (rule touch_mono [OF _ below_child [OF names(2)]])
  then have same: "node f1 l = node f l" if "below (loc_of s) l" for l by (rule touch_apart [OF _ assms(4) that])
  show ?case
  proof (cases "nm = fst e")
    case True
    from Cons.prems(3) obtain n where n: "node f (child (loc_of s) (fst e)) = Some n" "snd e = (n = Directory)" by auto
    have at1: "node f1 (descend (child (loc_of d) nm) rel) = Some (File c)"
      unfolding True by (rule copy_one_ok [OF assms(1) 1 names(2) assms(2-4) n Cons.prems(5) [unfolded True]])
    have "nm \<notin> fst ` set es" using Cons.prems(2) True by auto
    moreover have "below (child (loc_of d) nm) (descend (child (loc_of d) nm) rel)"
      using Cons.prems(5) by (auto simp: below_def file_below_def)
    ultimately show ?thesis using rec_touch by (intro copy_entries_keep [where rec = rec, OF _ 2 names(1) assms(3) _ _ at1])
  next
    case False
    have cs: "below (loc_of s) (child (loc_of s) n)" if "is_name n" for n by (rule below_child [OF that])
    have nm: "is_name nm" using Cons.prems(3,4) by auto
    have "file_below node f1 (child (loc_of s) nm) rel c"
      using Cons.prems(5) file_below_cong [of "child (loc_of s) nm" node f1 f] same below_trans [OF cs [OF nm]] by blast
    moreover have "\<forall>e\<in>set es. is_name (fst e) \<and> (\<exists>n. node f1 (child (loc_of s) (fst e)) = Some n \<and> snd e = (n = Directory))"
      using Cons.prems(3) same [OF cs] by simp
    ultimately show ?thesis using False Cons.prems(2,4) by (intro Cons.IH [OF 2]) auto
  qed
qed simp

text \<open>The body of \<open>copyDirectory\<close> keeps the promise when its recursive calls do.\<close>

lemma copy_body_ok:
  assumes rec: "copies node rec"
    and body: "(case fs_mkdirall F f d of
        (Inl e, f1) \<Rightarrow> Some (Inl e, f1)
      | (Inr _, f1) \<Rightarrow>
          (case fs_readdir F f1 s of
             Inl e \<Rightarrow> Some (Inl e, f1)
           | Inr es \<Rightarrow> copy_entries F (\<lambda>s d g. rec s d g) s d es f1)) = Some y"
  shows "promise node s d f y"
  unfolding promise_def
proof (intro impI conjI allI)
  obtain r1 f1 where m: "fs_mkdirall F f d = (r1, f1)" by (cases "fs_mkdirall F f d")
  have t1: "touch node (loc_of d) f f1" using mkdirall_frame [OF m] by (auto simp: touch_def)
  consider (err) "snd y = f1" "\<not> is_ok (fst y)"
    | (loop) es where "fs_readdir F f1 s = Inr es" "copy_entries F rec s d es f1 = Some (fst y, snd y)"
    using body m by (cases r1; cases "fs_readdir F f1 s") auto
  note body_cases = this
  assume d: "d \<noteq> []"
  show "touch node (loc_of d) f (snd y)"
  proof (cases rule: body_cases)
    case (loop es)
    have "touch node (loc_of d) f1 (snd y)"
      using copies_touch [OF rec] by (intro copy_entries_touch [where rec = rec, OF _ loop(2) readdir_names [OF loop(1)] d])
    then show ?thesis by (rule touch_trans [OF t1])
  qed (use t1 in simp)
  fix rel c
  assume ok: "is_ok (fst y)" and s: "s \<noteq> []" and ap: "apart (loc_of s) (loc_of d)" and fb: "file_below node f (loc_of s) rel c"
  show "node (snd y) (descend (loc_of d) rel) = Some (File c)"
  proof (cases rule: body_cases)
    case (loop es)
    note es = readdir_ok [OF loop(1)]
    have fb1: "file_below node f1 (loc_of s) rel c" using fb file_below_cong touch_apart [OF t1 ap] by metis
    with es obtain nm rel' where rel: "rel = nm # rel'" by (cases rel) auto
    with fb1 have nm: "is_name nm" "file_below node f1 (child (loc_of s) nm) rel' c" by (auto simp: file_below_Cons)
    then obtain n where "node f1 (child (loc_of s) nm) = Some n" by (cases rel') (auto simp: file_below_Cons)
    with es nm(1) have "(nm, n = Directory) \<in> set es" by blast
    then have "nm \<in> fst ` set es" by (metis fst_conv imageI)
    moreover have "\<forall>e\<in>set es. is_name (fst e) \<and> (\<exists>n. node f1 (child (loc_of s) (fst e)) = Some n \<and> snd e = (n = Directory))"
      using es by auto
    ultimately show ?thesis using copy_entries_ok [OF rec s d ap loop(2) ok _ _ _ nm(2)] es rel by simp
  qed (use ok in simp)
qed

lemma copies_copyDirectory: "copies node (copyDirectory F)"
proof -
  have "G = F \<longrightarrow> promise node s d f y" (is "?P G s d f y")
    if "copyDirectory G s d f = Some y" for G s d f y
    using that
  proof (rule copyDirectory.raw_induct [of ?P, rotated])
    fix rec G s d f y
    assume IH: "\<And>G s d f y. rec G s d f = Some y \<Longrightarrow> ?P G s d f y"
      and body: "(case fs_mkdirall G f d of
        (Inl e, f1) \<Rightarrow> Some (Inl e, f1)
      | (Inr _, f1) \<Rightarrow>
          (case fs_readdir G f1 s of
             Inl e \<Rightarrow> Some (Inl e, f1)
           | Inr es \<Rightarrow> copy_entries G (\<lambda>s d g. rec G s d g) s d es f1)) = Some y"
    show "?P G s d f y"
    proof
      assume G: "G = F"
      have rec: "copies node (rec F)" using IH [of F] by (simp add: copies_def)
      show "promise node s d f y" using body unfolding G by (rule copy_body_ok [OF rec])
    qed
  qed
  then show ?thesis by (auto simp: copies_def)
qed

end

context file_system
begin

lemma copy_entries_returns:
  assumes "s \<noteq> []" "d \<noteq> []" "apart (loc_of s) (loc_of d)" "\<forall>e\<in>set es. is_name (fst e)"
    and "\<And>s d f r f'. rec s d f = Some (r, f') \<Longrightarrow> d \<noteq> [] \<Longrightarrow> touch node (loc_of d) f f'"
    and "\<And>e f'. e \<in> set es \<Longrightarrow> snd e \<Longrightarrow> (\<And>l. below (loc_of s) l \<Longrightarrow> node f' l = node f l) \<Longrightarrow>
      \<exists>y. rec (Join s (fst e)) (Join d (fst e)) f' = Some y"
  shows "\<exists>y. copy_entries F rec s d es f = Some y"
  using assms(4,6)
proof (induction es arbitrary: f)
  case (Cons e es)
  let ?one = "if snd e then rec (Join s (fst e)) (Join d (fst e)) f else Some (copyFile F (Join s (fst e)) (Join d (fst e)) f)"
  obtain r1 f1 where 1: "?one = Some (r1, f1)"
    using Cons.prems(2) [of e f] by (cases "snd e"; cases "copyFile F (Join s (fst e)) (Join d (fst e)) f") auto
  have nm: "is_name (fst e)" "\<forall>e\<in>set es. is_name (fst e)" using Cons.prems(1) by simp_all
  have "touch node (child (loc_of d) (fst e)) f f1"
    using assms(5) by (intro copy_one_touch [where rec = rec, OF _ 1 nm(1) assms(2)])
  then have "touch node (loc_of d) f f1" by (rule touch_mono [OF _ below_child [OF nm(1)]])
  then have same: "node f1 l = node f l" if "below (loc_of s) l" for l by (rule touch_apart [OF _ assms(3) that])
  have "\<exists>y. copy_entries F rec s d es f1 = Some y"
  proof (rule Cons.IH [OF nm(2)])
    fix x g assume "x \<in> set es" "snd x" and g: "\<And>l. below (loc_of s) l \<Longrightarrow> node g l = node f1 l"
    then show "\<exists>y. rec (Join s (fst x)) (Join d (fst x)) g = Some y"
      using Cons.prems(2) [of x g] g same by simp
  qed
  with 1 show ?case by auto
qed simp

text \<open>A directory with finitely many nodes is copied in finitely many calls, whatever fails.\<close>

lemma copyDirectory_returns:
  assumes "finite {l. below (loc_of s) l \<and> node f l \<noteq> None}" "s \<noteq> []" "d \<noteq> []" "apart (loc_of s) (loc_of d)"
  shows "\<exists>y. copyDirectory F s d f = Some y"
  using assms
proof (induction "card {l. below (loc_of s) l \<and> node f l \<noteq> None}" arbitrary: s d f rule: less_induct)
  case less
  obtain r1 f1 where m: "fs_mkdirall F f d = (r1, f1)" by (cases "fs_mkdirall F f d")
  have "touch node (loc_of d) f f1" using mkdirall_frame [OF m] by (auto simp: touch_def)
  then have same: "node f1 l = node f l" if "below (loc_of s) l" for l by (rule touch_apart [OF _ less.prems(4) that])
  show ?case
  proof (cases "is_ok r1 \<and> (\<exists>es. fs_readdir F f1 s = Inr es)")
    case False
    then show ?thesis using m by (cases r1; cases "fs_readdir F f1 s") (auto simp: copyDirectory.simps [of F s d f])
  next
    case True
    then obtain es where es: "fs_readdir F f1 s = Inr es" by blast
    have "\<exists>y. copy_entries F (copyDirectory F) s d es f1 = Some y"
    proof (rule copy_entries_returns [OF less.prems(2-4) readdir_names [OF es] copyDirectory_touch], assumption+)
      fix e g assume e: "e \<in> set es" "snd e" and g: "\<And>l. below (loc_of s) l \<Longrightarrow> node g l = node f1 l"
      have nm: "is_name (fst e)" using readdir_names [OF es] e by blast
      let ?s = "Join s (fst e)" and ?d = "Join d (fst e)"
      have loc: "loc_of ?s = child (loc_of s) (fst e)" "loc_of ?d = child (loc_of d) (fst e)"
        using less.prems(2,3) nm by (simp_all add: Join_name_loc)
      have "{l. below (loc_of ?s) l \<and> node g l \<noteq> None} \<subset> {l. below (loc_of s) l \<and> node f l \<noteq> None}"
      proof
        show "{l. below (loc_of ?s) l \<and> node g l \<noteq> None} \<subseteq> {l. below (loc_of s) l \<and> node f l \<noteq> None}"
          using below_trans [OF below_child [OF nm, of "loc_of s"]] g same by (auto simp: loc)
        have "node f (loc_of s) \<noteq> None" using readdir_ok [OF es] same [of "loc_of s"] by simp
        moreover have "\<not> below (loc_of ?s) (loc_of s)" by (auto simp: loc below_def)
        ultimately show "{l. below (loc_of ?s) l \<and> node g l \<noteq> None} \<noteq> {l. below (loc_of s) l \<and> node f l \<noteq> None}"
          by (metis (mono_tags, lifting) below_refl mem_Collect_eq)
      qed
      then show "\<exists>y. copyDirectory F ?s ?d g = Some y"
        using less.prems nm by (intro less.hyps psubset_card_mono)
          (auto simp: loc apart_child intro: finite_subset)
    qed
    then show ?thesis using True m es by (cases r1) (auto simp: copyDirectory.simps [of F s d f])
  qed
qed

end

context file_system
begin

lemma CopyDir_ok:
  assumes "ls_Dir ls \<noteq> []" "apart (loc_of (Join (ls_Dir ls) (Clean src))) (loc_of (Join (ls_Dir ls) (Clean dest)))"
    and "CopyDir F ls src dest f = Some (r, f')" "is_ok r" "file_below node f (loc_of (Join (ls_Dir ls) (Clean src))) rel c"
  shows "node f' (descend (loc_of (Join (ls_Dir ls) (Clean dest))) rel) = Some (File c)"
proof -
  let ?sp = "Join (ls_Dir ls) (Clean src)" and ?dp = "Join (ls_Dir ls) (Clean dest)"
  from assms(3,4) obtain b where b: "fs_stat F f ?sp = Inr b"
    and c: "(if b then copyDirectory F ?sp ?dp f else Some (copyFile F ?sp ?dp f)) = Some (r, f')"
    by (auto simp: CopyDir_def Let_def split: sum.splits)
  show ?thesis
  proof (cases b)
    case True
    with c have "copyDirectory F ?sp ?dp f = Some (r, f')" by simp
    from copies_file [OF copies_copyDirectory this assms(4) _ _ assms(2,5)] assms(1) show ?thesis by simp
  next
    case False
    with stat_ok [OF b] assms(5) have "rel = []" by (cases rel) (auto simp: file_below_Cons)
    moreover from False c assms(4) obtain u where "copyFile F ?sp ?dp f = (Inr u, f')" by (cases r) auto
    moreover have "loc_of ?sp \<noteq> loc_of ?dp" using assms(2) below_refl unfolding apart_def by metis
    ultimately show ?thesis using copyFile_ok [of ?sp ?dp f u f' c] assms(5) by simp
  qed
qed

lemma CopyDir_returns:
  assumes "ls_Dir ls \<noteq> []" "apart (loc_of (Join (ls_Dir ls) (Clean src))) (loc_of (Join (ls_Dir ls) (Clean dest)))"
    and "finite {l. below (loc_of (Join (ls_Dir ls) (Clean src))) l \<and> node f l \<noteq> None}"
  shows "\<exists>r f'. CopyDir F ls src dest f = Some (r, f')"
  using copyDirectory_returns [OF assms(3) _ _ assms(2)] assms(1)
  by (cases "fs_stat F f (Join (ls_Dir ls) (Clean src))"; cases "copyFile F (Join (ls_Dir ls) (Clean src)) (Join (ls_Dir ls) (Clean dest)) f")
    (auto simp: CopyDir_def Let_def)

text \<open>A file copied onto itself: the destination is emptied before the source is read.\<close>

lemma copyFile_self:
  assumes "copyFile F p p f = (Inr u, f')"
  shows "node f' (loc_of p) = Some (File [])"
proof -
  obtain r1 f1 where m: "fs_mkdirall F f (Dir p) = (r1, f1)" by (cases "fs_mkdirall F f (Dir p)")
  obtain r2 f2 where k: "fs_create F f1 p = (r2, f2)" by (cases "fs_create F f1 p")
  obtain n e f3 where w: "io_Copy F f2 p (fs_read F f2 p) = ((n, e), f3)" by (cases "io_Copy F f2 p (fs_read F f2 p)") auto
  from assms m k w have ok: "is_ok r2" "e = None" "f3 = f'"
    unfolding copyFile_def by (auto split: sum.splits option.splits)
  then obtain v where "fs_create F f1 p = (Inr v, f2)" using k by (cases r2) auto
  note empty = create_ok [OF this]
  from io_Copy_ok [OF w [unfolded ok] empty] read_ok [OF empty] show ?thesis by simp
qed

end

text \<open>
  Copying is complete and ends: when neither of source and destination contains the other and the source has
  finitely many nodes, \<open>CopyDir\<close> returns, whatever the file system refuses; no file outside the destination
  changes; and when it reports success every file of the source, at every depth, is at the same place below the
  destination with the same bytes.
\<close>

theorem CopyDir_copies:
  assumes "file_system F node" "ls_Dir ls \<noteq> []"
    and "apart (loc_of (Join (ls_Dir ls) (Clean src))) (loc_of (Join (ls_Dir ls) (Clean dest)))"
    and "finite {l. below (loc_of (Join (ls_Dir ls) (Clean src))) l \<and> node f l \<noteq> None}"
  shows "\<exists>r f'. CopyDir F ls src dest f = Some (r, f') \<and>
    (\<forall>l. \<not> below (loc_of (Join (ls_Dir ls) (Clean dest))) l \<longrightarrow> file_at node f' l = file_at node f l) \<and>
    (is_ok r \<longrightarrow> (\<forall>rel c. file_below node f (loc_of (Join (ls_Dir ls) (Clean src))) rel c \<longrightarrow>
       file_at node f' (descend (loc_of (Join (ls_Dir ls) (Clean dest))) rel) = Some c))"
proof -
  obtain r f' where run: "CopyDir F ls src dest f = Some (r, f')"
    using file_system.CopyDir_returns [OF assms] by blast
  with file_system.CopyDir_frame [OF assms(1) run assms(2)] file_system.CopyDir_ok [OF assms(1-3) run]
  show ?thesis by (auto simp: file_at_def)
qed

theorem CopyDir_copies_witness:
  "\<exists>r f'. CopyDir mem_fs_ops sample_ls ''a'' ''b'' sample_fs = Some (r, f') \<and>
     (is_ok r \<longrightarrow> file_at map_of f' (True, [''srv'', ''b'', ''x'']) = Some ''hi'')"
proof -
  have ap: "apart (loc_of (Join (ls_Dir sample_ls) (Clean ''a''))) (loc_of (Join (ls_Dir sample_ls) (Clean ''b'')))"
    by (simp add: sample_ls_def sample_locs apart_def below_def)
  have "file_below map_of sample_fs (True, [''srv'', ''a'']) [''x''] ''hi''"
    by (simp add: file_below_Cons sample_fs_def is_name_def)
  moreover have "ls_Dir sample_ls \<noteq> []" by (simp add: sample_ls_def)
  ultimately show ?thesis
    using CopyDir_copies [OF mem_files.file_system_axioms _ ap sample_finite, of sample_fs] by (auto simp: sample_ls_def sample_locs)
qed

context file_system
begin

text \<open>When all entries have been copied successfully, so has each subdirectory among them.\<close>

lemma copy_entries_subdir:
  "copy_entries F rec s d es f = Some (r, f') \<Longrightarrow> is_ok r \<Longrightarrow> (nm, True) \<in> set es \<Longrightarrow>
     \<exists>g r1 f1. rec (Join s nm) (Join d nm) g = Some (r1, f1) \<and> is_ok r1"
proof (induction es arbitrary: f)
  case (Cons e es)
  from copy_entries_step [OF Cons.prems(1)] Cons.prems(2) obtain r1 f1 where
    1: "(if snd e then rec (Join s (fst e)) (Join d (fst e)) f else Some (copyFile F (Join s (fst e)) (Join d (fst e)) f)) = Some (r1, f1)"
    and 2: "is_ok r1" "copy_entries F rec s d es f1 = Some (r, f')"
    by (metis (full_types))
  show ?case
  proof (cases "e = (nm, True)")
    case True
    with 1 2(1) show ?thesis by (intro exI conjI) auto
  next
    case False
    with Cons.IH [OF 2(2) Cons.prems(2)] Cons.prems(3) show ?thesis by auto
  qed
qed simp

lemma copyDirectory_into_itself:
  assumes "copyDirectory F s d f = Some (r, f')" "s \<noteq> []" "d \<noteq> []" "is_name nm" "loc_of d = child (loc_of s) nm"
  shows "\<not> is_ok r"
proof -
  have "G = F \<longrightarrow> s \<noteq> [] \<longrightarrow> d \<noteq> [] \<longrightarrow> loc_of d = child (loc_of s) nm \<longrightarrow> \<not> is_ok (fst y)" (is "?P G s d f y")
    if "copyDirectory G s d f = Some y" for G s d f y
    using that
  proof (rule copyDirectory.raw_induct [of ?P, rotated])
    fix rec G s d f y
    assume IH: "\<And>G s d f y. rec G s d f = Some y \<Longrightarrow> ?P G s d f y"
      and body: "(case fs_mkdirall G f d of
        (Inl e, f1) \<Rightarrow> Some (Inl e, f1)
      | (Inr _, f1) \<Rightarrow>
          (case fs_readdir G f1 s of
             Inl e \<Rightarrow> Some (Inl e, f1)
           | Inr es \<Rightarrow> copy_entries G (\<lambda>s d g. rec G s d g) s d es f1)) = Some y"
    show "?P G s d f y"
    proof (intro impI notI)
      assume G: "G = F" and sd: "s \<noteq> []" "d \<noteq> []" and l: "loc_of d = child (loc_of s) nm" and ok: "is_ok (fst y)"
      obtain r1 f1 where m: "fs_mkdirall F f d = (r1, f1)" by (cases "fs_mkdirall F f d")
      with body G ok obtain es u where es: "fs_readdir F f1 s = Inr es" and r1: "r1 = Inr u"
        and c: "copy_entries F (rec F) s d es f1 = Some (fst y, snd y)"
        by (cases r1; cases "fs_readdir F f1 s") auto
      from mkdirall_ok [OF m [unfolded r1]] l readdir_ok [OF es] assms(4) have "(nm, True) \<in> set es" by simp
      from copy_entries_subdir [OF c ok this] obtain g r2 f2 where
        "rec F (Join s nm) (Join d nm) g = Some (r2, f2)" "is_ok r2" by blast
      then show False using IH [of F "Join s nm" "Join d nm" g "(r2, f2)"] sd l assms(4) by (simp add: Join_name_loc)
    qed
  qed
  with assms show ?thesis by fastforce
qed

end

section \<open>Overlapping source and destination\<close>

text \<open>
  Copies onto and into the source: a file that is copied onto itself is empty when the call reports success,
  because the destination is created before the source is read; and copying a directory into a subdirectory of
  itself never reports success, because each level finds among the entries of its source the directory it has just
  made.
\<close>

theorem CopyDir_overlap:
  assumes "file_system F node" "ls_Dir ls \<noteq> []" "CopyDir F ls src dest f = Some (r, f')" "is_ok r"
  shows "(fs_stat F f (Join (ls_Dir ls) (Clean src)) = Inr False \<longrightarrow> Clean src = Clean dest \<longrightarrow>
      node f' (loc_of (Join (ls_Dir ls) (Clean src))) = Some (File [])) \<and>
    (fs_stat F f (Join (ls_Dir ls) (Clean src)) = Inr True \<longrightarrow> is_name nm \<longrightarrow>
      loc_of (Join (ls_Dir ls) (Clean dest)) \<noteq> child (loc_of (Join (ls_Dir ls) (Clean src))) nm)"
proof -
  let ?s = "Join (ls_Dir ls) (Clean src)" and ?d = "Join (ls_Dir ls) (Clean dest)"
  obtain u where u: "r = Inr u" using assms(4) by (cases r) auto
  have "node f' (loc_of ?s) = Some (File [])" if "fs_stat F f ?s = Inr False" "Clean src = Clean dest"
    using assms(3) that u file_system.copyFile_self [OF assms(1), of ?s f u f'] by (simp add: CopyDir_def Let_def)
  moreover have "loc_of ?d \<noteq> child (loc_of ?s) nm" if "fs_stat F f ?s = Inr True" "is_name nm"
  proof
    assume l: "loc_of ?d = child (loc_of ?s) nm"
    from assms(3) that(1) have "copyDirectory F ?s ?d f = Some (r, f')" by (simp add: CopyDir_def Let_def)
    from file_system.copyDirectory_into_itself [OF assms(1) this _ _ that(2) l] assms(2,4) show False by simp
  qed
  ultimately show ?thesis by blast
qed

theorem CopyDir_overlap_witness:
  "\<exists>f'. CopyDir mem_fs_ops sample_ls ''a/x'' ''a/x'' sample_fs = Some (Inr (), f') \<and>
     map_of f' (True, [''srv'', ''a'', ''x'']) = Some (File [])"
proof -
  have d: "Dir ''/srv/a/x'' = ''/srv/a''" by code_simp
  let ?f = "((True, [''srv'', ''a'', ''x'']), File []) # ((True, [''srv'', ''a'', ''x'']), File []) # sample_fs"
  have run: "CopyDir mem_fs_ops sample_ls ''a/x'' ''a/x'' sample_fs = Some (Inr (), ?f)"
    by (simp add: CopyDir_def copyFile_def Let_def sample_ls_def sample_locs d io_Copy_def mem_fs_ops_def sample_fs_def)
  have "fs_stat mem_fs_ops sample_fs (Join (ls_Dir sample_ls) (Clean ''a/x'')) = Inr False"
    by (simp add: sample_ls_def sample_locs mem_fs_ops_def sample_fs_def)
  then show ?thesis
    using run CopyDir_overlap [OF mem_files.file_system_axioms _ run] by (simp add: sample_ls_def sample_locs)
qed

end
