(* ===== verification/Object_Store.thy ===== *)
theory Object_Store
  imports Go_Path
begin

text \<open>
  The object store behind the storage clients: a bucket of objects by key, and multipart uploads, whose parts
  are numbered from 1. The service and its SDK are not code of the repository: a record of operations, one
  per call the sources make, with the state after the call also when it fails. The locale \<open>object_store\<close> names
  the documented behaviour: listings come in the order of the keys or part numbers and give at most
  1000 entries, and completing an upload joins the parts it is given.
\<close>

section \<open>Parts by number\<close>

fun put_part :: "int \<Rightarrow> 'a \<Rightarrow> (int \<times> 'a) list \<Rightarrow> (int \<times> 'a) list" where
  "put_part n x [] = [(n, x)]"
| "put_part n x ((m, y) # ps) =
     (if n < m then (n, x) # (m, y) # ps else if n = m then (n, x) # ps else (m, y) # put_part n x ps)"

abbreviation by_number :: "(int \<times> 'a) list \<Rightarrow> bool" where
  "by_number ps \<equiv> sorted_wrt (<) (map fst ps)"

lemma keys_put_part [simp]: "fst ` set (put_part n x ps) = insert n (fst ` set ps)"
  by (induction n x ps rule: put_part.induct) auto

lemma by_number_put_part: "by_number ps \<Longrightarrow> by_number (put_part n x ps)"
proof (induction n x ps rule: put_part.induct)
  case (2 n x m y ps)
  have "\<forall>k\<in>set (map fst (put_part n x ps)). k \<in> insert n (fst ` set ps)"
    unfolding set_map keys_put_part by blast
  with 2 show ?case by auto
qed simp

lemma set_put_part: "by_number ps \<Longrightarrow> set (put_part n x ps) = insert (n, x) {p \<in> set ps. fst p \<noteq> n}"
  by (induction n x ps rule: put_part.induct) auto

lemma map_put_part: "map (\<lambda>(m, y). (m - k, f y)) (put_part n x ps) = put_part (n - k) (f x) (map (\<lambda>(m, y). (m - k, f y)) ps)"
  by (induction n x ps rule: put_part.induct) auto

lemma by_number_distinct: "by_number ps \<Longrightarrow> distinct (map fst ps)"
  by (simp add: strict_sorted_iff)

section \<open>Operations\<close>

text \<open>A part as \<open>ListParts\<close> reports it and as \<open>CompleteMultipartUpload\<close> takes it.\<close>

record cos_Part =
  cp_PartNumber :: int
  cp_ETag :: string

record 'o cos_ops =
  cos_Put :: "'o \<Rightarrow> string \<Rightarrow> string \<Rightarrow> string \<Rightarrow> string res \<times> 'o"
  cos_Get :: "'o \<Rightarrow> string \<Rightarrow> string res"
  cos_Delete :: "'o \<Rightarrow> string \<Rightarrow> unit res \<times> 'o"
  cos_Head :: "'o \<Rightarrow> string \<Rightarrow> unit res"
  cos_Copy :: "'o \<Rightarrow> string \<Rightarrow> string \<Rightarrow> unit res \<times> 'o"
  cos_BucketGet :: "'o \<Rightarrow> string \<Rightarrow> (string list \<times> string list) res"
  cos_Presign :: "'o \<Rightarrow> string \<Rightarrow> string \<Rightarrow> (string \<times> string) list \<Rightarrow> string res"
  cos_Initiate :: "'o \<Rightarrow> string \<Rightarrow> string option \<Rightarrow> string res \<times> 'o"
  cos_ListParts :: "'o \<Rightarrow> string \<Rightarrow> string \<Rightarrow> cos_Part list res"
  cos_UploadPart :: "'o \<Rightarrow> string \<Rightarrow> string \<Rightarrow> int \<Rightarrow> string \<Rightarrow> int option \<Rightarrow> string res \<times> 'o"
  cos_Complete :: "'o \<Rightarrow> string \<Rightarrow> string \<Rightarrow> cos_Part list \<Rightarrow> unit res \<times> 'o"
  cos_Abort :: "'o \<Rightarrow> string \<Rightarrow> string \<Rightarrow> unit res \<times> 'o"

text \<open>\<open>IsNotFoundError\<close> of the SDK.\<close>

definition cos_NoSuchKey :: gerror where
  "cos_NoSuchKey = Err ''404 NoSuchKey''"

text \<open>The parts of an upload: number, tag and data.\<close>

type_synonym parts = "(int \<times> string \<times> string) list"

definition headers :: "parts \<Rightarrow> cos_Part list" where
  "headers ps = map (\<lambda>(n, t, _). \<lparr>cp_PartNumber = n, cp_ETag = t\<rparr>) ps"

text \<open>The data of the listed parts, if every one was uploaded with that tag.\<close>

fun gather :: "parts \<Rightarrow> cos_Part list \<Rightarrow> string option" where
  "gather ps [] = Some []"
| "gather ps (c # cs) = (case map_of ps (cp_PartNumber c) of
     Some (t, b) \<Rightarrow> (if t = cp_ETag c then map_option ((@) b) (gather ps cs) else None)
   | None \<Rightarrow> None)"

text \<open>What a listing with delimiter \<open>/\<close> shows of a key: itself, or its prefix up to the next slash.\<close>

definition shown_entry :: "string \<Rightarrow> string \<Rightarrow> string + string" where
  "shown_entry prefix key = (let rest = drop (length prefix) key in
     if CHR ''/'' \<in> set rest then Inr (prefix @ takeWhile (\<lambda>c. c \<noteq> CHR ''/'') rest @ ''/'') else Inl key)"

section \<open>Laws\<close>

locale object_store =
  fixes S :: "'o cos_ops" and obj :: "'o \<Rightarrow> string \<Rightarrow> string option" and up :: "'o \<Rightarrow> string \<Rightarrow> string \<Rightarrow> parts option"
    and endpoint :: string
  assumes parts_sorted: "up s k u = Some ps \<Longrightarrow> by_number ps"
    and put_ok: "cos_Put S s k b ct = (Inr t, s') \<Longrightarrow> obj s' k = Some b"
    and put_frame: "cos_Put S s k b ct = (r, s') \<Longrightarrow> (\<forall>k'. k' \<noteq> k \<longrightarrow> obj s' k' = obj s k') \<and> up s' = up s"
    and get_ok: "cos_Get S s k = Inr b \<Longrightarrow> obj s k = Some b"
    and delete_ok: "cos_Delete S s k = (Inr v, s') \<Longrightarrow> obj s' k = None"
    and delete_frame: "cos_Delete S s k = (w, s') \<Longrightarrow> (\<forall>k'. k' \<noteq> k \<longrightarrow> obj s' k' = obj s k') \<and> up s' = up s"
    and head_ok: "cos_Head S s k = Inr v \<Longrightarrow> obj s k \<noteq> None"
    and head_missing: "cos_Head S s k = Inl cos_NoSuchKey \<Longrightarrow> obj s k = None"
    and copy_ok: "cos_Copy S s k (endpoint @ ''/'' @ src) = (Inr v, s') \<Longrightarrow> obj s src \<noteq> None \<and> obj s' k = obj s src"
    and copy_atomic: "cos_Copy S s k (endpoint @ ''/'' @ src) = (w, s') \<Longrightarrow> obj s' k = obj s k \<or> obj s' k = obj s src"
    and copy_frame: "cos_Copy S s k url = (w, s') \<Longrightarrow> (\<forall>k'. k' \<noteq> k \<longrightarrow> obj s' k' = obj s k') \<and> up s' = up s"
    and list_sound: "cos_BucketGet S s prefix = Inr (ks, cps) \<Longrightarrow> distinct ks \<and> distinct cps \<and>
       Inl ` set ks \<union> Inr ` set cps \<subseteq> shown_entry prefix ` {k. obj s k \<noteq> None \<and> has_prefix k prefix}"
    and list_all_below_1000: "cos_BucketGet S s prefix = Inr (ks, cps) \<Longrightarrow> length ks + length cps < 1000 \<Longrightarrow>
       Inl ` set ks \<union> Inr ` set cps = shown_entry prefix ` {k. obj s k \<noteq> None \<and> has_prefix k prefix}"
    and initiate_ok: "cos_Initiate S s k m = (Inr u, s') \<Longrightarrow> up s k u = None \<and> up s' k u = Some []"
    and initiate_frame: "cos_Initiate S s k m = (r, s') \<Longrightarrow> obj s' = obj s \<and>
       (\<forall>k' u'. up s k' u' \<noteq> None \<longrightarrow> up s' k' u' = up s k' u')"
    and list_parts: "cos_ListParts S s k u = Inr cs \<Longrightarrow> \<exists>ps. up s k u = Some ps \<and> cs = take 1000 (headers ps)"
    and upload_ok: "cos_UploadPart S s k u n b sz = (Inr t, s') \<Longrightarrow>
       \<exists>ps. up s k u = Some ps \<and> up s' k u = Some (put_part n (t, b) ps) \<and> 1 \<le> n \<and> n \<le> 10000"
    and upload_failed: "cos_UploadPart S s k u n b sz = (Inl e, s') \<Longrightarrow> up s' k u = up s k u \<or>
       (\<exists>ps t. up s k u = Some ps \<and> up s' k u = Some (put_part n (t, b) ps) \<and> 1 \<le> n \<and> n \<le> 10000)"
    and upload_frame: "cos_UploadPart S s k u n b sz = (r, s') \<Longrightarrow> obj s' = obj s \<and>
       (\<forall>k' u'. (k', u') \<noteq> (k, u) \<longrightarrow> up s' k' u' = up s k' u')"
    and complete_ok: "cos_Complete S s k u cs = (Inr v, s') \<Longrightarrow>
       \<exists>ps b. up s k u = Some ps \<and> gather ps cs = Some b \<and> obj s' k = Some b \<and> up s' k u = None"
    and complete_frame: "cos_Complete S s k u cs = (w, s') \<Longrightarrow> (\<forall>k'. k' \<noteq> k \<longrightarrow> obj s' k' = obj s k') \<and>
       (\<forall>k' u'. (k', u') \<noteq> (k, u) \<longrightarrow> up s' k' u' = up s k' u')"
    and abort_ok: "cos_Abort S s k u = (Inr v, s') \<Longrightarrow> up s' k u = None"
    and abort_frame: "cos_Abort S s k u = (w, s') \<Longrightarrow> obj s' = obj s \<and>
       (\<forall>k' u'. (k', u') \<noteq> (k, u) \<longrightarrow> up s' k' u' = up s k' u')"

section \<open>Gathering\<close>

lemma gather_headers:
  assumes "distinct (map fst qs)" "set ps \<subseteq> set qs"
  shows "gather qs (headers ps) = Some (concat (map (\<lambda>(_, _, b). b) ps))"
  using assms(2)
proof (induction ps)
  case (Cons p ps)
  obtain n t b where p: "p = (n, t, b)" by (cases p) auto
  with Cons(2) assms(1) have "map_of qs n = Some (t, b)" by simp
  with Cons p show ?case by (simp add: headers_def)
qed (simp add: headers_def)

lemma gather_first:
  assumes "by_number ps"
  shows "gather ps (take n (headers ps)) = Some (concat (map (\<lambda>(_, _, b). b) (take n ps)))"
  using gather_headers [of ps "take n ps"] by_number_distinct [OF assms] set_take_subset [of n ps]
  by (simp add: headers_def take_map)

section \<open>An instance in memory\<close>

text \<open>
  Objects and uploads as association lists; identifiers of uploads are numbered; a part's tag is its data.
\<close>

record mem_bucket =
  ms_objects :: "(string \<times> string) list"
  ms_uploads :: "((string \<times> string) \<times> parts) list"
  ms_next :: nat

definition ms_obj :: "mem_bucket \<Rightarrow> string \<Rightarrow> string option" where
  "ms_obj s k = map_of (ms_objects s) k"

definition sort_parts :: "parts \<Rightarrow> parts" where
  "sort_parts l = foldr (\<lambda>(n, x). put_part n x) l []"

definition ms_ups :: "mem_bucket \<Rightarrow> string \<Rightarrow> string \<Rightarrow> parts option" where
  "ms_ups s k u = map_option sort_parts (map_of (ms_uploads s) (k, u))"

definition mem_entries :: "mem_bucket \<Rightarrow> string \<Rightarrow> (string + string) list" where
  "mem_entries s prefix = take 1000 (remdups (map (shown_entry prefix)
     (filter (\<lambda>k. has_prefix k prefix) (map fst (ms_objects s)))))"

definition lefts :: "('a + 'b) list \<Rightarrow> 'a list" where
  "lefts es = concat (map (case_sum (\<lambda>k. [k]) (\<lambda>_. [])) es)"

definition rights :: "('a + 'b) list \<Rightarrow> 'b list" where
  "rights es = concat (map (case_sum (\<lambda>_. []) (\<lambda>p. [p])) es)"

definition mem_endpoint :: string where
  "mem_endpoint = ''b.cos.r.myqcloud.com''"

definition mem_cos :: "mem_bucket cos_ops" where
  "mem_cos = \<lparr>
     cos_Put = (\<lambda>s k b ct. (Inr [], s\<lparr>ms_objects := (k, b) # ms_objects s\<rparr>)),
     cos_Get = (\<lambda>s k. case ms_obj s k of None \<Rightarrow> Inl cos_NoSuchKey | Some b \<Rightarrow> Inr b),
     cos_Delete = (\<lambda>s k. (Inr (), s\<lparr>ms_objects := filter (\<lambda>e. fst e \<noteq> k) (ms_objects s)\<rparr>)),
     cos_Head = (\<lambda>s k. case ms_obj s k of None \<Rightarrow> Inl cos_NoSuchKey | Some b \<Rightarrow> Inr ()),
     cos_Copy = (\<lambda>s k url. case (if has_prefix url (mem_endpoint @ ''/'') then ms_obj s (drop (length mem_endpoint + 1) url) else None) of
        None \<Rightarrow> (Inl cos_NoSuchKey, s)
      | Some b \<Rightarrow> (Inr (), s\<lparr>ms_objects := (k, b) # ms_objects s\<rparr>)),
     cos_BucketGet = (\<lambda>s prefix. let es = mem_entries s prefix in
        Inr (lefts es, rights es)),
     cos_Presign = (\<lambda>s m k q. Inr (''https://'' @ mem_endpoint @ ''/'' @ k)),
     cos_Initiate = (\<lambda>s k m. let u = nat_digits (ms_next s) in
        if map_of (ms_uploads s) (k, u) \<noteq> None then (Inl (Err ''500 InternalError''), s)
        else (Inr u, s\<lparr>ms_uploads := ((k, u), []) # ms_uploads s, ms_next := ms_next s + 1\<rparr>)),
     cos_ListParts = (\<lambda>s k u. case ms_ups s k u of None \<Rightarrow> Inl (Err ''404 NoSuchUpload'') | Some ps \<Rightarrow> Inr (take 1000 (headers ps))),
     cos_UploadPart = (\<lambda>s k u n b sz. case map_of (ms_uploads s) (k, u) of
        None \<Rightarrow> (Inl (Err ''404 NoSuchUpload''), s)
      | Some l \<Rightarrow> (if 1 \<le> n \<and> n \<le> 10000 then (Inr b, s\<lparr>ms_uploads := ((k, u), (n, b, b) # l) # ms_uploads s\<rparr>)
          else (Inl (Err ''400 InvalidPart''), s))),
     cos_Complete = (\<lambda>s k u cs. case ms_ups s k u of
        None \<Rightarrow> (Inl (Err ''404 NoSuchUpload''), s)
      | Some ps \<Rightarrow> (case gather ps cs of
          None \<Rightarrow> (Inl (Err ''400 InvalidPart''), s)
        | Some b \<Rightarrow> (Inr (), s\<lparr>ms_objects := (k, b) # ms_objects s,
            ms_uploads := filter (\<lambda>e. fst e \<noteq> (k, u)) (ms_uploads s)\<rparr>))),
     cos_Abort = (\<lambda>s k u. (Inr (), s\<lparr>ms_uploads := filter (\<lambda>e. fst e \<noteq> (k, u)) (ms_uploads s)\<rparr>))\<rparr>"

lemma by_number_sort_parts: "by_number (sort_parts l)"
  unfolding sort_parts_def by (induction l) (auto simp: by_number_put_part)

lemma sort_parts_simps [simp]: "sort_parts [] = []" "sort_parts ((n, x) # l) = put_part n x (sort_parts l)"
  by (simp_all add: sort_parts_def)

lemma map_of_drop_key: "map_of (filter (\<lambda>e. fst e \<noteq> k) l) x = (if x = k then None else map_of l x)"
  by (induction l) auto

lemma lefts_rights_simps [simp]:
  "lefts [] = []" "lefts (Inl k # es) = k # lefts es" "lefts (Inr p # es) = lefts es"
  "rights [] = []" "rights (Inl k # es) = rights es" "rights (Inr p # es) = p # rights es"
  by (simp_all add: lefts_def rights_def)

lemma lefts_rights: "Inl ` set (lefts es) \<union> Inr ` set (rights es) = set es"
proof (induction es)
  case (Cons e es)
  then show ?case by (cases e) auto
qed simp

lemma distinct_lefts_rights: "distinct es \<Longrightarrow> distinct (lefts es) \<and> distinct (rights es)"
proof (induction es)
  case (Cons e es)
  have "x \<in> set (lefts es) \<Longrightarrow> Inl x \<in> set es" "y \<in> set (rights es) \<Longrightarrow> Inr y \<in> set es" for x y
    using lefts_rights [of es] by auto
  with Cons show ?case by (cases e) auto
qed simp

lemma length_lefts_rights: "length (lefts es) + length (rights es) = length es"
proof (induction es)
  case (Cons e es)
  then show ?case by (cases e) auto
qed simp

lemma mem_keys: "ms_obj s k \<noteq> None \<longleftrightarrow> k \<in> set (map fst (ms_objects s))"
  by (simp add: ms_obj_def map_of_eq_None_iff)

lemma set_mem_entries:
  "set (mem_entries s prefix) \<subseteq> shown_entry prefix ` {k. ms_obj s k \<noteq> None \<and> has_prefix k prefix}"
  "length (mem_entries s prefix) < 1000 \<Longrightarrow> set (mem_entries s prefix) = shown_entry prefix ` {k. ms_obj s k \<noteq> None \<and> has_prefix k prefix}"
proof -
  define es where "es = remdups (map (shown_entry prefix) (filter (\<lambda>k. has_prefix k prefix) (map fst (ms_objects s))))"
  have es: "set es = shown_entry prefix ` {k. ms_obj s k \<noteq> None \<and> has_prefix k prefix}"
    unfolding es_def mem_keys by auto
  have m: "mem_entries s prefix = take 1000 es" unfolding mem_entries_def es_def ..
  show "set (mem_entries s prefix) \<subseteq> shown_entry prefix ` {k. ms_obj s k \<noteq> None \<and> has_prefix k prefix}"
    unfolding m es [symmetric] by (rule set_take_subset)
  show "length (mem_entries s prefix) < 1000 \<Longrightarrow> set (mem_entries s prefix) = shown_entry prefix ` {k. ms_obj s k \<noteq> None \<and> has_prefix k prefix}"
    unfolding m es [symmetric] by (simp add: min_def split: if_splits)
qed

lemmas mem_cos_defs = mem_cos_def ms_obj_def ms_ups_def

interpretation mem_objects: object_store mem_cos ms_obj ms_ups mem_endpoint
proof (unfold_locales, goal_cases)
  case (1 s k u ps)
  then show ?case by (auto simp: ms_ups_def by_number_sort_parts)
next
  case (12 s prefix ks ps)
  moreover have "distinct (mem_entries s prefix)" by (simp add: mem_entries_def)
  ultimately show ?case using lefts_rights [of "mem_entries s prefix"] distinct_lefts_rights [of "mem_entries s prefix"]
      set_mem_entries(1) [of s prefix] by (simp add: mem_cos_def Let_def)
next
  case (13 s prefix ks ps)
  then show ?case using lefts_rights [of "mem_entries s prefix"] length_lefts_rights [of "mem_entries s prefix"] set_mem_entries(2) [of s prefix] by (simp add: mem_cos_def Let_def)
qed (auto simp: mem_cos_defs fun_eq_iff map_of_drop_key Let_def cos_NoSuchKey_def split: option.splits if_splits)

end
