(* ===== verification/Http_Mime.thy ===== *)
theory Http_Mime
  imports Go_Prelude
begin

text \<open>
  Content types and file extensions (\<open>httptools/mime.go\<close>). The two tables are Go maps; a header's first
  \<open>Content-Type\<close> value is the argument of the second lookup, empty when there is none.
\<close>

definition extToMimeTypeMap :: "(string \<times> string) list" where
  "extToMimeTypeMap = [
     (''.html'', ''text/html''),
     (''.css'', ''text/css''),
     (''.js'', ''application/javascript''),
     (''.json'', ''application/json''),
     (''.jpg'', ''image/jpeg''),
     (''.png'', ''image/png''),
     (''.gif'', ''image/gif''),
     (''.svg'', ''image/svg+xml''),
     (''.ico'', ''image/x-icon''),
     (''.webp'', ''image/webp''),
     (''.bmp'', ''image/bmp''),
     (''.tiff'', ''image/tiff''),
     (''.woff'', ''application/font-woff''),
     (''.woff2'', ''application/font-woff2''),
     (''.ttf'', ''application/font-ttf''),
     (''.otf'', ''application/font-otf''),
     (''.eot'', ''application/vnd.ms-fontobject''),
     (''.mp3'', ''audio/mpeg''),
     (''.mp4'', ''video/mp4''),
     (''.m4v'', ''video/x-m4v''),
     (''.mov'', ''video/quicktime''),
     (''.webm'', ''video/webm''),
     (''.flv'', ''video/x-flv''),
     (''.swf'', ''application/x-shockwave-flash''),
     (''.pdf'', ''application/pdf''),
     (''.doc'', ''application/msword''),
     (''.docx'', ''application/vnd.openxmlformats-officedocument.wordprocessingml.document''),
     (''.xls'', ''application/vnd.ms-excel''),
     (''.xlsx'', ''application/vnd.openxmlformats-officedocument.spreadsheetml.sheet''),
     (''.ppt'', ''application/vnd.ms-powerpoint''),
     (''.pptx'', ''application/vnd.openxmlformats-officedocument.presentationml.presentation''),
     (''.txt'', ''text/plain''),
     (''.rtf'', ''application/rtf''),
     (''.xml'', ''text/xml''),
     (''.zip'', ''application/zip''),
     (''.rar'', ''application/x-rar-compressed''),
     (''.7z'', ''application/x-7z-compressed''),
     (''.bz2'', ''application/x-bzip2''),
     (''.gz'', ''application/x-gzip''),
     (''.xz'', ''application/x-xz''),
     (''.tar'', ''application/x-tar'')]"

definition mimeTypeToExtMap :: "(string \<times> string) list" where
  "mimeTypeToExtMap = [
     (''text/html'', ''.html''),
     (''text/css'', ''.css''),
     (''application/javascript'', ''.js''),
     (''application/json'', ''.json''),
     (''image/jpeg'', ''.jpg''),
     (''image/png'', ''.png''),
     (''image/gif'', ''.gif''),
     (''image/svg+xml'', ''.svg''),
     (''image/x-icon'', ''.ico''),
     (''image/webp'', ''.webp''),
     (''image/bmp'', ''.bmp''),
     (''image/tiff'', ''.tiff''),
     (''image/x-tiff'', ''.tiff''),
     (''image/x-ms-bmp'', ''.bmp''),
     (''application/font-woff'', ''.woff''),
     (''application/font-woff2'', ''.woff2''),
     (''application/font-ttf'', ''.ttf''),
     (''application/font-otf'', ''.otf''),
     (''application/vnd.ms-fontobject'', ''.eot''),
     (''audio/mpeg'', ''.mp3''),
     (''video/mp4'', ''.mp4''),
     (''video/x-m4v'', ''.m4v''),
     (''video/quicktime'', ''.mov''),
     (''video/webm'', ''.webm''),
     (''video/x-flv'', ''.flv''),
     (''application/x-shockwave-flash'', ''.swf''),
     (''application/pdf'', ''.pdf''),
     (''application/msword'', ''.doc''),
     (''application/vnd.openxmlformats-officedocument.wordprocessingml.document'', ''.docx''),
     (''application/vnd.ms-excel'', ''.xls''),
     (''application/vnd.openxmlformats-officedocument.spreadsheetml.sheet'', ''.xlsx''),
     (''application/vnd.ms-powerpoint'', ''.ppt''),
     (''application/vnd.openxmlformats-officedocument.presentationml.presentation'', ''.pptx''),
     (''text/plain'', ''.txt''),
     (''application/rtf'', ''.rtf''),
     (''text/xml'', ''.xml''),
     (''application/zip'', ''.zip''),
     (''application/x-rar-compressed'', ''.rar''),
     (''application/x-7z-compressed'', ''.7z''),
     (''application/x-bzip2'', ''.bz2''),
     (''application/x-gzip'', ''.gz''),
     (''application/x-xz'', ''.xz''),
     (''application/x-tar'', ''.tar'')]"

definition TransformContentType2Ext :: "string \<Rightarrow> string" where
  "TransformContentType2Ext ct = (if ct = [] then [] else case map_of mimeTypeToExtMap ct of None \<Rightarrow> [] | Some ext \<Rightarrow> ext)"

definition TransformExt2ContentType :: "string \<Rightarrow> string" where
  "TransformExt2ContentType ext = (case map_of extToMimeTypeMap ext of None \<Rightarrow> [] | Some mt \<Rightarrow> mt)"

text \<open>The second table inverts the first, so a known extension survives the way through its content type.\<close>

lemma mime_tables_inverse: "list_all (\<lambda>(ext, mt). mt \<noteq> [] \<and> map_of mimeTypeToExtMap mt = Some ext) extToMimeTypeMap"
  by code_simp

lemma ext_content_type_roundtrip:
  assumes "map_of extToMimeTypeMap ext \<noteq> None"
  shows "TransformContentType2Ext (TransformExt2ContentType ext) = ext"
proof -
  obtain mt where "map_of extToMimeTypeMap ext = Some mt" using assms by blast
  then show ?thesis using mime_tables_inverse map_of_SomeD [of extToMimeTypeMap ext mt]
    by (auto simp: TransformContentType2Ext_def TransformExt2ContentType_def list_all_iff)
qed

end
