(* ===== verification/Uploader.thy ===== *)
theory Uploader
  imports Storage_Model Object_Store Http_Mime
begin

text \<open>
  Multipart uploads (\<open>storage/uploader.go\<close>, \<open>storage/biz.go\<close>, and the upload half of \<open>storage/tencent_cos.go\<close>).
  A client announces a file, receives an upload identifier and the number of parts, sends parts in any order
  and asks for completion, which joins them in the bucket and turns the row of the temporary table into one
  of the file table. The interface \<open>iUploader\<close> is a record; \<open>TencentCos\<close> is its implementation. Part numbers
  count from 0 on this side and from 1 in the bucket.
\<close>

section \<open>Data\<close>

definition defaultPartSize :: int where
  "defaultPartSize = 1024 * 1024 * 5"

record InitMultipartUploadRequest =
  mu_SHA1 :: string
  mu_Size :: int
  mu_Filename :: string
  mu_CompanyID :: nat
  mu_Uin :: nat
  mu_EmployeeID :: nat
  mu_UploadID :: string

record CheckMultipartUploadResponse =
  cm_UploadID :: string
  cm_PartSize :: int
  cm_PartCount :: int
  cm_PartNumbersUploaded :: "int list"
  cm_PartNumbersNeedUpload :: "int list"
  cm_UploadStatus :: FileStatus
  cm_FileInfo :: "FileInfo option"

text \<open>The methods of the interface that the uploader calls.\<close>

record 'o iUploader =
  InitUploadTask :: "TempFile \<Rightarrow> 'o \<Rightarrow> TempFile res \<times> 'o"
  ListUploadExistsTrunk :: "TempFile \<Rightarrow> 'o \<Rightarrow> int list res"
  UploadTrunk :: "TempFile \<Rightarrow> int \<Rightarrow> string \<Rightarrow> int \<Rightarrow> 'o \<Rightarrow> unit res \<times> 'o"
  CompleteUploadTask :: "TempFile \<Rightarrow> 'o \<Rightarrow> unit res \<times> 'o"
  up_GetPublicURL :: "string \<Rightarrow> bool \<Rightarrow> 'o \<Rightarrow> string"

text \<open>\<open>Ext\<close> and \<open>ToLower\<close>: the last extension of the last element, and ASCII letters in lower case.\<close>

definition Ext :: "string \<Rightarrow> string" where
  "Ext p = (let b = takeWhile (\<lambda>c. c \<noteq> CHR ''/'') (rev p) in
     if CHR ''.'' \<in> set b then CHR ''.'' # rev (takeWhile (\<lambda>c. c \<noteq> CHR ''.'') b) else [])"

definition ToLower :: "string \<Rightarrow> string" where
  "ToLower s = map (\<lambda>c. let n = of_char c :: nat in if 65 \<le> n \<and> n \<le> 90 then char_of (n + 32) else c) s"

section \<open>The Tencent client\<close>

record TencentCos =
  tc_opt :: StorageOption
  tc_cosCfg :: TencentCOSConfig

definition tc_domain :: "TencentCos \<Rightarrow> string" where
  "tc_domain tc = tx_Bucket (tc_cosCfg tc) @ ''.cos.'' @ tx_Region (tc_cosCfg tc) @ ''.myqcloud.com''"

text \<open>\<open>parse\<close> is \<open>url.Parse\<close>, of which only the error matters here; the SDK's client is the parameter of the methods.\<close>

definition NewTencentCos :: "(string \<Rightarrow> gerror option) \<Rightarrow> TencentCOSConfig \<Rightarrow> StorageOption \<Rightarrow> TencentCos res" where
  "NewTencentCos parse cfg opt = (let tc = \<lparr>tc_opt = opt, tc_cosCfg = cfg\<rparr> in
     case parse (''https://'' @ tc_domain tc) of Some e \<Rightarrow> Inl e | None \<Rightarrow> Inr tc)"

definition tc_GetPresignedURL :: "'o cos_ops \<Rightarrow> TencentCos \<Rightarrow> string \<Rightarrow> string \<Rightarrow> 'o \<Rightarrow> string res" where
  "tc_GetPresignedURL S tc method storagePath s = cos_Presign S s method storagePath []"

definition tc_GetPublicURL :: "'o cos_ops \<Rightarrow> TencentCos \<Rightarrow> string \<Rightarrow> bool \<Rightarrow> 'o \<Rightarrow> string" where
  "tc_GetPublicURL S tc storagePath temp s = (if \<not> temp then ''https://'' @ tc_domain tc @ ''/'' @ storagePath
     else (case cos_Presign S s ''GET'' storagePath [] of Inl _ \<Rightarrow> [] | Inr u \<Rightarrow> u))"

definition tc_InitUploadTask :: "'o cos_ops \<Rightarrow> TempFile \<Rightarrow> 'o \<Rightarrow> TempFile res \<times> 'o" where
  "tc_InitUploadTask S tempFile s = (case cos_Initiate S s (tf_StoragePath tempFile) (Some (tf_ChunkHash tempFile)) of
     (Inl e, s') \<Rightarrow> (Inl e, s')
   | (Inr u, s') \<Rightarrow> (Inr (tempFile\<lparr>tf_ThirdUploadID := u\<rparr>), s'))"

definition tc_ListUploadExistsTrunk :: "'o cos_ops \<Rightarrow> TempFile \<Rightarrow> 'o \<Rightarrow> int list res" where
  "tc_ListUploadExistsTrunk S tempFile s = (case cos_ListParts S s (tf_StoragePath tempFile) (tf_ThirdUploadID tempFile) of
     Inl e \<Rightarrow> Inl e
   | Inr cs \<Rightarrow> Inr (sort (map (\<lambda>c. cp_PartNumber c - 1) cs)))"

text \<open>The store accepts part numbers up to 10000 only, so \<open>partNumber + 1\<close> need not be kept at 64 bits.\<close>

definition tc_UploadTrunk :: "'o cos_ops \<Rightarrow> TempFile \<Rightarrow> int \<Rightarrow> string \<Rightarrow> int \<Rightarrow> 'o \<Rightarrow> unit res \<times> 'o" where
  "tc_UploadTrunk S tempFile partNumber data sz s =
     (case cos_UploadPart S s (tf_StoragePath tempFile) (tf_ThirdUploadID tempFile) (partNumber + 1) data (Some sz) of
        (Inl e, s') \<Rightarrow> (Inl e, s')
      | (Inr _, s') \<Rightarrow> (Inr (), s'))"

definition tc_CompleteUploadTask :: "'o cos_ops \<Rightarrow> TempFile \<Rightarrow> 'o \<Rightarrow> unit res \<times> 'o" where
  "tc_CompleteUploadTask S tempFile s = (let filename = tf_StoragePath tempFile; uploadid = tf_ThirdUploadID tempFile in
     case cos_ListParts S s filename uploadid of
       Inl e \<Rightarrow> (Inl e, s)
     | Inr cs \<Rightarrow> cos_Complete S s filename uploadid cs)"

definition tc_uploader :: "'o cos_ops \<Rightarrow> TencentCos \<Rightarrow> 'o iUploader" where
  "tc_uploader S tc = \<lparr>
     InitUploadTask = tc_InitUploadTask S,
     ListUploadExistsTrunk = tc_ListUploadExistsTrunk S,
     UploadTrunk = tc_UploadTrunk S,
     CompleteUploadTask = tc_CompleteUploadTask S,
     up_GetPublicURL = tc_GetPublicURL S tc\<rparr>"

section \<open>The uploader\<close>

text \<open>\<open>size % partSize\<close> and \<open>size / partSize\<close> truncate toward zero.\<close>

definition GetPartCount :: "int \<Rightarrow> int \<Rightarrow> int" where
  "GetPartCount sz partSize = (if sz - tquot sz partSize * partSize = 0 then tquot sz partSize else tquot sz partSize + 1)"

definition contains :: "int list \<Rightarrow> int \<Rightarrow> bool" where
  "contains arr val = list_ex (\<lambda>v. v = val) arr"

definition getNeedUploadPartNumbers :: "int \<Rightarrow> int list \<Rightarrow> int list" where
  "getNeedUploadPartNumbers partCount exi = filter (\<lambda>i. \<not> contains exi i) [0..partCount - 1]"

record 'o Uploader =
  ul_cfg :: StorageConfig
  ul_tempFile :: TempFile
  ul_updr :: "'o iUploader"

text \<open>The configuration comes from the settings as \<open>yaml\<close>.\<close>

definition getUploadProvider ::
  "'o cos_ops \<Rightarrow> (string \<Rightarrow> gerror option) \<Rightarrow> StorageConfig res \<Rightarrow> (StorageConfig \<times> 'o iUploader) res" where
  "getUploadProvider S parse yaml = (case yaml of
     Inl e \<Rightarrow> Inl e
   | Inr cfg \<Rightarrow> (case sc_Tencent cfg of
       None \<Rightarrow> Inl (Err ''storage config error'')
     | Some c \<Rightarrow> (case NewTencentCos parse c (sc_Option cfg) of Inl e \<Rightarrow> Inl e | Inr tc \<Rightarrow> Inr (cfg, tc_uploader S tc))))"

definition new_temp_file :: "gotime \<Rightarrow> string \<Rightarrow> string \<Rightarrow> StorageConfig \<Rightarrow> InitMultipartUploadRequest \<Rightarrow> TempFile" where
  "new_temp_file now date rnd cfg req = (let ext = ToLower (Ext (mu_Filename req)) in
     \<lparr>tf_ID = 0, tf_CreatedAt = None, tf_UpdatedAt = None, tf_DeletedAt = None,
       tf_CompanyID = mu_CompanyID req, tf_Uin = mu_Uin req, tf_EmployeeID = 0, tf_Purpose = so_Purpose (sc_Option cfg),
       tf_Filename = mu_Filename req, tf_FileExt = ext, tf_MIMEType = TransformExt2ContentType ext,
       tf_Size = mu_Size req, tf_ChunkHash = mu_SHA1 req,
       tf_StoragePath = ''/'' @ nat_digits (mu_CompanyID req) @ ''/'' @ so_Purpose (sc_Option cfg) @ ''/'' @ date @ ''-'' @
         nat_digits (mu_Uin req) @ ''-'' @ rnd @ ext,
       tf_PublicURL = [], tf_ErrMsg = [], tf_AnnotationsStr = [], tf_ThirdUploadID = [],
       tf_ExpiredAt = Some (now + 24 * 7 * 60 * time_Minute), tf_PartSize = defaultPartSize,
       tf_PartCount = GetPartCount (mu_Size req) defaultPartSize\<rparr>)"

definition newUploader :: "('t, TempFile) table_ops \<Rightarrow> gotime \<Rightarrow> string \<Rightarrow> string \<Rightarrow> StorageConfig \<Rightarrow> 'o iUploader \<Rightarrow>
    InitMultipartUploadRequest \<Rightarrow> 't \<Rightarrow> 'o \<Rightarrow> 'o Uploader res \<times> 't \<times> 'o" where
  "newUploader T now date rnd cfg updr req t s =
     (case InitUploadTask updr (new_temp_file now date rnd cfg req) s of
        (Inl e, s') \<Rightarrow> (Inl e, t, s')
      | (Inr tempFile, s') \<Rightarrow> (case SaveTempFile T now tempFile t of
          Inl e \<Rightarrow> (Inl e, t, s')
        | Inr (saved, t') \<Rightarrow> (Inr \<lparr>ul_cfg = cfg, ul_tempFile = saved, ul_updr = updr\<rparr>, t', s')))"

definition GetUploader :: "('t, TempFile) table_ops \<Rightarrow> 'o cos_ops \<Rightarrow> gotime \<Rightarrow> string \<Rightarrow> string \<Rightarrow> (string \<Rightarrow> gerror option) \<Rightarrow>
    StorageConfig res \<Rightarrow> InitMultipartUploadRequest \<Rightarrow> 't \<Rightarrow> 'o \<Rightarrow> 'o Uploader res \<times> 't \<times> 'o" where
  "GetUploader T S now date rnd parse yaml req t s = (case getUploadProvider S parse yaml of
     Inl e \<Rightarrow> (Inl e, t, s)
   | Inr (cfg, updr) \<Rightarrow>
       (if mu_UploadID req \<noteq> [] then
          (case GetTempFileByThirdUploadID T (mu_CompanyID req) (mu_UploadID req) t of
             Inl e \<Rightarrow> (Inl e, t, s)
           | Inr tempFile \<Rightarrow> (Inr \<lparr>ul_cfg = cfg, ul_tempFile = tempFile, ul_updr = updr\<rparr>, t, s))
        else
          (case GetTempFileByHash T (mu_SHA1 req) (mu_Size req) t of
             Inl e \<Rightarrow> (if e = gorm_ErrRecordNotFound then newUploader T now date rnd cfg updr req t s else (Inl e, t, s))
           | Inr tempFile \<Rightarrow> (Inr \<lparr>ul_cfg = cfg, ul_tempFile = tempFile, ul_updr = updr\<rparr>, t, s))))"

definition ListTrunks :: "'o Uploader \<Rightarrow> 'o \<Rightarrow> CheckMultipartUploadResponse res" where
  "ListTrunks u s = (let tf = ul_tempFile u in
     case ListUploadExistsTrunk (ul_updr u) tf s of
       Inl e \<Rightarrow> Inl e
     | Inr exi \<Rightarrow> Inr \<lparr>cm_UploadID = tf_ThirdUploadID tf, cm_PartSize = tf_PartSize tf, cm_PartCount = tf_PartCount tf,
         cm_PartNumbersUploaded = exi,
         cm_PartNumbersNeedUpload = (if int (length exi) = tf_PartCount tf then [] else getNeedUploadPartNumbers (tf_PartCount tf) exi),
         cm_UploadStatus = (if int (length exi) = tf_PartCount tf then FileStatusUploadWaitComp else FileStatusUploading),
         cm_FileInfo = None\<rparr>)"

definition ul_UploadPart :: "'o Uploader \<Rightarrow> int \<Rightarrow> string \<Rightarrow> int \<Rightarrow> 'o \<Rightarrow> unit res \<times> 'o" where
  "ul_UploadPart u partNumber data sz s = UploadTrunk (ul_updr u) (ul_tempFile u) partNumber data sz s"

definition completed_file :: "'o Uploader \<Rightarrow> 'o \<Rightarrow> FileInfo" where
  "completed_file u s = (let tf = ul_tempFile u in zero_file\<lparr>
     fi_CompanyID := tf_CompanyID tf, fi_Uin := tf_Uin tf, fi_Purpose := tf_Purpose tf, fi_Filename := tf_Filename tf,
     fi_FileExt := tf_FileExt tf, fi_MIMEType := tf_MIMEType tf, fi_ChunkHash := tf_ChunkHash tf, fi_Size := tf_Size tf,
     fi_StoragePath := tf_StoragePath tf, fi_CopyNumber := 1, fi_Status := FileStatusNormal,
     fi_PublicURL := up_GetPublicURL (ul_updr u) (tf_StoragePath tf) False s\<rparr>)"

text \<open>\<open>tx.Delete\<close> of a row with a \<open>DeletedAt\<close> column marks it; without a primary key it is refused.\<close>

definition delete_temp :: "('t, TempFile) table_ops \<Rightarrow> gotime \<Rightarrow> TempFile \<Rightarrow> 't \<Rightarrow> 't res" where
  "delete_temp T now tf t = (if tf_ID tf = 0 then Inl (Err ''WHERE conditions required'')
     else tb_update T t (\<lambda>r. tf_ID r = tf_ID tf \<and> tf_DeletedAt r = None) (\<lambda>r. r\<lparr>tf_DeletedAt := Some now\<rparr>))"

definition CompleteUpload :: "('t, TempFile) table_ops \<Rightarrow> ('d, FileInfo) table_ops \<Rightarrow> gotime \<Rightarrow> 'o Uploader \<Rightarrow>
    't \<Rightarrow> 'd \<Rightarrow> 'o \<Rightarrow> FileInfo res \<times> 't \<times> 'd \<times> 'o" where
  "CompleteUpload T D now u t d s = (case CompleteUploadTask (ul_updr u) (ul_tempFile u) s of
     (Inl e, s') \<Rightarrow> (Inl e, t, d, s')
   | (Inr _, s') \<Rightarrow>
       (let fi = completed_file u s' in
        case tb_insert D d [file_created now fi] of
          Inl e \<Rightarrow> (Inl e, t, d, s')
        | Inr (created, d') \<Rightarrow> (case delete_temp T now (ul_tempFile u) t of
            Inl e \<Rightarrow> (Inl e, t, d, s')
          | Inr t' \<Rightarrow> (Inr (first_or fi created), t', d', s'))))"

text \<open>\<open>Cancel\<close> does nothing, and never fails.\<close>

definition Cancel :: "'o Uploader \<Rightarrow> 'o \<Rightarrow> unit res \<times> 'o" where
  "Cancel u s = (Inr (), s)"

end
