(* ===== verification/Uploader_Correct.thy ===== *)
theory Uploader_Correct
  imports Uploader
begin

text \<open>
  What a completed multipart upload contains. The contract \<open>multipart_uploader\<close> is what the uploader relies on;
  the Tencent client keeps it over every object store. A session is any sequence of attempts to send a part,
  failed ones included, with anything else happening in the bucket in between.
\<close>

section \<open>The contract of an upload provider\<close>

locale multipart_uploader =
  fixes U :: "'o iUploader" and obj :: "'o \<Rightarrow> string \<Rightarrow> string option"
    and held :: "'o \<Rightarrow> string \<Rightarrow> string \<Rightarrow> (int \<times> string) list option"
  assumes held_sorted: "held s k u = Some ps \<Longrightarrow> by_number ps"
    and init_ok: "InitUploadTask U tf s = (Inr tf', s') \<Longrightarrow>
       \<exists>u. tf' = tf\<lparr>tf_ThirdUploadID := u\<rparr> \<and> held s' (tf_StoragePath tf) u = Some []"
    and listing_ok: "ListUploadExistsTrunk U tf s = Inr ns \<Longrightarrow>
       \<exists>ps. held s (tf_StoragePath tf) (tf_ThirdUploadID tf) = Some ps \<and> ns = take 1000 (map fst ps)"
    and trunk_ok: "UploadTrunk U tf n b sz s = (Inr v, s') \<Longrightarrow>
       \<exists>ps. held s (tf_StoragePath tf) (tf_ThirdUploadID tf) = Some ps \<and>
         held s' (tf_StoragePath tf) (tf_ThirdUploadID tf) = Some (put_part n b ps)"
    and trunk_failed: "UploadTrunk U tf n b sz s = (Inl e, s') \<Longrightarrow>
       held s' (tf_StoragePath tf) (tf_ThirdUploadID tf) = held s (tf_StoragePath tf) (tf_ThirdUploadID tf) \<or>
       (\<exists>ps. held s (tf_StoragePath tf) (tf_ThirdUploadID tf) = Some ps \<and>
         held s' (tf_StoragePath tf) (tf_ThirdUploadID tf) = Some (put_part n b ps))"
    and complete_ok: "CompleteUploadTask U tf s = (Inr v, s') \<Longrightarrow>
       \<exists>ps. held s (tf_StoragePath tf) (tf_ThirdUploadID tf) = Some ps \<and>
         obj s' (tf_StoragePath tf) = Some (concat (map snd (take 1000 ps))) \<and>
         held s' (tf_StoragePath tf) (tf_ThirdUploadID tf) = None"

text \<open>The parts of the bucket, numbered from 0.\<close>

definition held_of :: "('o \<Rightarrow> string \<Rightarrow> string \<Rightarrow> parts option) \<Rightarrow> 'o \<Rightarrow> string \<Rightarrow> string \<Rightarrow> (int \<times> string) list option" where
  "held_of up s k u = map_option (map (\<lambda>(n, x). (n - 1, snd x))) (up s k u)"

lemma by_number_shift: "by_number (map (\<lambda>(n, x). (n - 1, f x)) ps) = by_number ps"
  by (simp add: sorted_wrt_map case_prod_beta)

lemma map_snd_shift: "map snd (take n (map (\<lambda>(m, x). (m - 1, snd x)) ps)) = map (\<lambda>(_, _, b). b) (take n ps)"
  by (simp add: take_map case_prod_beta)

lemma listed_numbers:
  "map (\<lambda>c. cp_PartNumber c - 1) (take n (headers ps)) = take n (map fst (map (\<lambda>(m, x). (m - 1, snd x)) ps))"
  by (simp add: take_map headers_def case_prod_beta comp_def)

lemma sort_listed: "by_number ps \<Longrightarrow> sort (take n (map fst ps)) = take n (map fst ps)"
  by (rule sort_key_id_if_sorted) (simp add: sorted_wrt_take strict_sorted_iff)

lemma tc_multipart:
  assumes "object_store S obj up ep"
  shows "multipart_uploader (tc_uploader S tc) obj (held_of up)"
proof -
  note os = object_store.upload_ok [OF assms] object_store.upload_failed [OF assms]
  have sorted: "by_number (map (\<lambda>(n, x). (n - 1, snd x)) ps)" if "up s k u = Some ps" for s k u ps
    unfolding by_number_shift by (rule object_store.parts_sorted [OF assms that])
  show ?thesis
  proof (unfold_locales, goal_cases)
    case (1 s k u ps)
    then show ?case by (auto simp: held_of_def simp del: map_map intro: sorted)
  next
    case (2 tf s tf' s')
    then obtain u where "cos_Initiate S s (tf_StoragePath tf) (Some (tf_ChunkHash tf)) = (Inr u, s')"
      "tf' = tf\<lparr>tf_ThirdUploadID := u\<rparr>"
      by (auto simp: tc_uploader_def tc_InitUploadTask_def split: prod.splits sum.splits)
    then show ?case using object_store.initiate_ok [OF assms] by (fastforce simp: held_of_def)
  next
    case (3 tf s ns)
    then obtain cs where "cos_ListParts S s (tf_StoragePath tf) (tf_ThirdUploadID tf) = Inr cs"
      "ns = sort (map (\<lambda>c. cp_PartNumber c - 1) cs)"
      by (auto simp: tc_uploader_def tc_ListUploadExistsTrunk_def split: sum.splits)
    moreover from this obtain ps where "up s (tf_StoragePath tf) (tf_ThirdUploadID tf) = Some ps" "cs = take 1000 (headers ps)"
      using object_store.list_parts [OF assms] by blast
    ultimately show ?case using sort_listed [OF sorted] by (simp add: held_of_def listed_numbers)
  next
    case (4 tf n b sz s v s')
    then obtain t where "cos_UploadPart S s (tf_StoragePath tf) (tf_ThirdUploadID tf) (n + 1) b (Some sz) = (Inr t, s')"
      by (auto simp: tc_uploader_def tc_UploadTrunk_def split: prod.splits sum.splits)
    from os(1) [OF this] show ?case by (auto simp: held_of_def map_put_part)
  next
    case (5 tf n b sz s e s')
    then have "cos_UploadPart S s (tf_StoragePath tf) (tf_ThirdUploadID tf) (n + 1) b (Some sz) = (Inl e, s')"
      by (auto simp: tc_uploader_def tc_UploadTrunk_def split: prod.splits sum.splits)
    from os(2) [OF this] show ?case by (auto simp: held_of_def map_put_part)
  next
    case (6 tf s v s')
    then obtain cs where cs: "cos_ListParts S s (tf_StoragePath tf) (tf_ThirdUploadID tf) = Inr cs"
      "cos_Complete S s (tf_StoragePath tf) (tf_ThirdUploadID tf) cs = (Inr v, s')"
      by (auto simp: tc_uploader_def tc_CompleteUploadTask_def Let_def split: sum.splits)
    obtain ps where ps: "up s (tf_StoragePath tf) (tf_ThirdUploadID tf) = Some ps" "cs = take 1000 (headers ps)"
      using object_store.list_parts [OF assms cs(1)] by blast
    moreover have "gather ps cs = Some (concat (map (\<lambda>(_, _, b). b) (take 1000 ps)))"
      unfolding ps(2) by (rule gather_first [OF object_store.parts_sorted [OF assms ps(1)]])
    ultimately show ?case using object_store.complete_ok [OF assms cs(2)] by (simp add: held_of_def map_snd_shift)
  qed
qed

section \<open>Sessions\<close>

text \<open>The attempts of a session with what they sent and whether they succeeded.\<close>

inductive uploading :: "'o Uploader \<Rightarrow> ('o \<Rightarrow> 'o \<Rightarrow> bool) \<Rightarrow> 'o \<Rightarrow> (int \<times> string \<times> bool) list \<Rightarrow> 'o \<Rightarrow> bool"
  for u others s0 where
  up_start: "uploading u others s0 [] s0"
| up_part: "uploading u others s0 hs s1 \<Longrightarrow> ul_UploadPart u n b sz s1 = (r, s2) \<Longrightarrow> uploading u others s0 (hs @ [(n, b, is_ok r)]) s2"
| up_other: "uploading u others s0 hs s1 \<Longrightarrow> others s1 s2 \<Longrightarrow> uploading u others s0 hs s2"

text \<open>The slices of a file.\<close>

definition file_chunk :: "string \<Rightarrow> int \<Rightarrow> string" where
  "file_chunk content n = take (nat defaultPartSize) (drop (nat n * nat defaultPartSize) content)"

lemma concat_chunks: "concat (map (\<lambda>n. take p (drop (n * p) xs)) [0..<k]) = take (k * p) xs"
proof (induction k)
  case (Suc k)
  then show ?case using take_add [of "k * p" p xs] by (simp add: add.commute)
qed simp

lemma take_upt_0: "take n [0..<k] = [0..<min n k]"
  by (cases "n \<le> k") (simp_all add: min_def)

lemma sorted_numbers:
  assumes "by_number ps" "fst ` set ps = {0..<k}" "\<forall>p\<in>set ps. snd p = f (fst p)"
  shows "ps = map (\<lambda>n. (int n, f (int n))) [0..<nat k]"
proof -
  have "map fst ps = map int [0..<nat k]"
  proof (rule sorted_distinct_set_unique)
    show "sorted (map fst ps)" "distinct (map fst ps)" using assms(1) by (simp_all add: strict_sorted_iff)
    show "sorted (map int [0..<nat k])" by (simp add: sorted_wrt_map)
    show "distinct (map int [0..<nat k])" by (simp add: distinct_map)
    show "set (map fst ps) = set (map int [0..<nat k])"
      using assms(2) image_int_atLeastLessThan [of 0 "nat k"] by (cases "0 \<le> k") simp_all
  qed
  moreover have "ps = map (\<lambda>n. (n, f n)) (map fst ps)" unfolding map_map
    by (rule map_idI [symmetric]) (use assms(3) in auto)
  ultimately show ?thesis by (simp add: comp_def)
qed

lemma tquot_pos: "0 \<le> a \<Longrightarrow> 0 < b \<Longrightarrow> tquot a b = a div b"
  by (auto simp: tquot_def sgn_if)

lemma GetPartCount_pos: "0 \<le> sz \<Longrightarrow> 0 < p \<Longrightarrow> GetPartCount sz p = (if sz mod p = 0 then sz div p else sz div p + 1)"
  by (simp add: GetPartCount_def tquot_pos minus_div_mult_eq_mod)

lemma GetPartCount_covers:
  assumes "0 \<le> sz" "0 < p"
  shows "0 \<le> GetPartCount sz p" "(GetPartCount sz p - 1) * p < sz" "sz \<le> GetPartCount sz p * p"
proof -
  define q where "q = sz div p * p"
  have q: "sz = q + sz mod p" "sz mod p < p" "0 \<le> sz mod p" "0 \<le> sz div p"
    using assms by (simp_all add: q_def pos_imp_zdiv_nonneg_iff)
  have c: "GetPartCount sz p = (if sz mod p = 0 then sz div p else sz div p + 1)" using assms by (rule GetPartCount_pos)
  with q(4) show "0 \<le> GetPartCount sz p" by simp
  have e: "GetPartCount sz p * p = (if sz mod p = 0 then q else q + p)" by (simp add: c q_def distrib_right)
  with q(1-3) show "sz \<le> GetPartCount sz p * p" by (simp split: if_splits)
  have "(GetPartCount sz p - 1) * p = GetPartCount sz p * p - p" by (simp add: left_diff_distrib)
  moreover have "sz mod p \<noteq> 0 \<Longrightarrow> q < sz" using q(1,3) by linarith
  ultimately show "(GetPartCount sz p - 1) * p < sz" using e q(1) assms by (cases "sz mod p = 0") simp_all
qed

lemma chunks_joined:
  assumes "ps = map (\<lambda>n. (int n, file_chunk content (int n))) [0..<nat (GetPartCount (int (length content)) defaultPartSize)]"
  shows "concat (map snd (take 1000 ps)) = take (1000 * nat defaultPartSize) content"
proof -
  let ?k = "nat (GetPartCount (int (length content)) defaultPartSize)" and ?p = "nat defaultPartSize"
  have p: "0 < defaultPartSize" by (simp add: defaultPartSize_def)
  have "concat (map snd (take 1000 ps)) = concat (map (\<lambda>n. take ?p (drop (n * ?p) content)) [0..<min 1000 ?k])"
    unfolding assms take_map by (simp add: comp_def file_chunk_def take_upt_0)
  also have "\<dots> = take (min 1000 ?k * ?p) content" by (rule concat_chunks)
  also have "\<dots> = take (1000 * ?p) content"
  proof (cases "?k \<le> 1000")
    case True
    have "int (length content) \<le> int ?k * int ?p"
      using GetPartCount_covers(1,3) [OF _ p, of "int (length content)"] p by simp
    then have l: "length content \<le> ?k * ?p" by (metis of_nat_le_iff of_nat_mult)
    with True have "length content \<le> 1000 * ?p" using mult_le_mono1 order_trans by blast
    with l True show ?thesis by simp
  qed (simp add: min_def)
  finally show ?thesis .
qed

context multipart_uploader
begin

abbreviation held_by :: "'o Uploader \<Rightarrow> 'o \<Rightarrow> (int \<times> string) list option" where
  "held_by u s \<equiv> held s (tf_StoragePath (ul_tempFile u)) (tf_ThirdUploadID (ul_tempFile u))"

text \<open>The parts held came from attempts of the session, and every successful attempt left its part there.\<close>

lemma uploading_held:
  assumes "uploading u others s0 hs s" "ul_updr u = U" "held_by u s0 = Some []"
    and "\<And>s s'. others s s' \<Longrightarrow> held_by u s' = held_by u s"
  shows "\<exists>ps. held_by u s = Some ps \<and> (\<forall>p\<in>set ps. \<exists>ok. (fst p, snd p, ok) \<in> set hs) \<and>
    (\<forall>n b. (n, b, True) \<in> set hs \<longrightarrow> n \<in> fst ` set ps)"
  using assms(1)
proof induction
  case up_start
  then show ?case using assms(3) by simp
next
  case (up_part hs s1 n b sz r s2)
  then obtain ps where ps: "held_by u s1 = Some ps" "\<forall>p\<in>set ps. \<exists>ok. (fst p, snd p, ok) \<in> set hs"
    "\<forall>n b. (n, b, True) \<in> set hs \<longrightarrow> n \<in> fst ` set ps" by blast
  have tr: "UploadTrunk U (ul_tempFile u) n b sz s1 = (r, s2)" using up_part(2) assms(2) by (simp add: ul_UploadPart_def)
  consider (kept) "held_by u s2 = Some ps" "\<not> is_ok r" | (put) "held_by u s2 = Some (put_part n b ps)"
  proof (cases r)
    case (Inl e)
    then show ?thesis using trunk_failed [of "ul_tempFile u" n b sz s1 e s2] tr ps(1) that by auto
  next
    case (Inr v)
    then show ?thesis using trunk_ok [of "ul_tempFile u" n b sz s1 v s2] tr ps(1) that by auto
  qed
  then show ?case
  proof cases
    case kept
    then show ?thesis using ps by fastforce
  next
    case put
    have "set (put_part n b ps) = insert (n, b) {p \<in> set ps. fst p \<noteq> n}"
      by (rule set_put_part) (rule held_sorted [OF ps(1)])
    then have "\<forall>p\<in>set (put_part n b ps). \<exists>ok. (fst p, snd p, ok) \<in> set (hs @ [(n, b, is_ok r)])"
      using ps(2) by auto
    moreover have "\<forall>m c. (m, c, True) \<in> set (hs @ [(n, b, is_ok r)]) \<longrightarrow> m \<in> fst ` set (put_part n b ps)"
      unfolding keys_put_part using ps(3) by auto
    ultimately show ?thesis using put by blast
  qed
next
  case (up_other hs s1 s2)
  then show ?case using assms(4) by simp
qed

lemma uploading_chunks:
  assumes "uploading u others s0 hs s" "ul_updr u = U" "held_by u s0 = Some []"
    and "\<And>s s'. others s s' \<Longrightarrow> held_by u s' = held_by u s"
    and "\<forall>(n, b, ok)\<in>set hs. 0 \<le> n \<and> n < k \<and> b = f n"
    and "\<forall>n. 0 \<le> n \<and> n < k \<longrightarrow> (n, f n, True) \<in> set hs"
  shows "held_by u s = Some (map (\<lambda>n. (int n, f (int n))) [0..<nat k])"
proof -
  obtain ps where ps: "held_by u s = Some ps" "\<forall>p\<in>set ps. \<exists>ok. (fst p, snd p, ok) \<in> set hs"
    "\<forall>n b. (n, b, True) \<in> set hs \<longrightarrow> n \<in> fst ` set ps" using uploading_held [OF assms(1-4)] by blast
  have sent: "0 \<le> fst p \<and> fst p < k \<and> snd p = f (fst p)" if p: "p \<in> set ps" for p
  proof -
    obtain ok where "(fst p, snd p, ok) \<in> set hs" using ps(2) p by blast
    with assms(5) show ?thesis by auto
  qed
  have "fst ` set ps = {0..<k}"
  proof
    show "fst ` set ps \<subseteq> {0..<k}" using sent by auto
    show "{0..<k} \<subseteq> fst ` set ps"
    proof
      fix x assume "x \<in> {0..<k}"
      then have "(x, f x, True) \<in> set hs" using assms(6) by simp
      then show "x \<in> fst ` set ps" using ps(3) by blast
    qed
  qed
  then show ?thesis using ps(1) sorted_numbers [OF held_sorted [OF ps(1)]] sent by simp
qed

end

section \<open>A whole upload\<close>

abbreviation temp_table where
  "temp_table T rows tinv \<equiv> sql_table T rows tinv tf_ID (\<lambda>k r. r\<lparr>tf_ID := k\<rparr>)"

abbreviation file_table where
  "file_table D rows tinv \<equiv> sql_table D rows tinv fi_ID (\<lambda>k r. r\<lparr>fi_ID := k\<rparr>)"

lemma insert_one:
  assumes "sql_table T rows tinv pk setpk" "tinv d" "tb_insert T d [r] = Inr (rs, d')"
  shows "\<exists>r'. rs = [r'] \<and> rows d' = rows d @ [r'] \<and> tinv d' \<and> r' = (if pk r = 0 then setpk (pk r') r else r)"
proof -
  have "rows d' = rows d @ rs" "tinv d'" "list_all2 (\<lambda>r r'. r' = (if pk r = 0 then setpk (pk r') r else r)) [r] rs"
    using sql_table.insert_rows [OF assms] by simp_all
  then show ?thesis by (auto simp: list_all2_Cons1)
qed

lemma newUploader_ok:
  assumes "multipart_uploader U obj held" "temp_table T rows tinv" "tinv t"
    and "newUploader T now date rnd cfg U req t s = (Inr u, t', s')"
  shows "ul_updr u = U" "held s' (tf_StoragePath (ul_tempFile u)) (tf_ThirdUploadID (ul_tempFile u)) = Some []"
    "tf_Size (ul_tempFile u) = mu_Size req" "tf_PartCount (ul_tempFile u) = GetPartCount (mu_Size req) defaultPartSize"
    "tinv t'" "rows t' = rows t @ [ul_tempFile u]" "tf_ChunkHash (ul_tempFile u) = mu_SHA1 req"
    "tf_CompanyID (ul_tempFile u) = mu_CompanyID req" "tf_DeletedAt (ul_tempFile u) = None"
proof -
  let ?f = "new_temp_file now date rnd cfg req"
  obtain tf saved where i: "InitUploadTask U ?f s = (Inr tf, s')" and sv: "SaveTempFile T now tf t = Inr (saved, t')"
    and u: "u = \<lparr>ul_cfg = cfg, ul_tempFile = saved, ul_updr = U\<rparr>"
    using assms(4) by (auto simp: newUploader_def split: prod.splits sum.splits)
  obtain w where w: "tf = ?f\<lparr>tf_ThirdUploadID := w\<rparr>" "held s' (tf_StoragePath ?f) w = Some []"
    using multipart_uploader.init_ok [OF assms(1) i] by blast
  obtain rs where "tb_insert T t [temp_created now tf] = Inr (rs, t')" "saved = first_or tf rs"
    using sv by (auto simp: SaveTempFile_def split: sum.splits)
  with insert_one [OF assms(2,3)] obtain r' where r': "saved = r'" "rows t' = rows t @ [r']" "tinv t'"
    "r' = (temp_created now tf)\<lparr>tf_ID := tf_ID r'\<rparr>"
    by (fastforce simp: temp_created_def w(1) new_temp_file_def Let_def)
  have eqs: "tf_StoragePath r' = tf_StoragePath ?f \<and> tf_ThirdUploadID r' = w \<and> tf_Size r' = mu_Size req \<and>
      tf_PartCount r' = GetPartCount (mu_Size req) defaultPartSize \<and> tf_ChunkHash r' = mu_SHA1 req \<and>
      tf_CompanyID r' = mu_CompanyID req \<and> tf_DeletedAt r' = None"
    by (subst (1 2 3 4 5 6 7) r'(4)) (simp add: temp_created_def w(1) new_temp_file_def Let_def)
  show "ul_updr u = U" "held s' (tf_StoragePath (ul_tempFile u)) (tf_ThirdUploadID (ul_tempFile u)) = Some []"
    "tf_Size (ul_tempFile u) = mu_Size req" "tf_PartCount (ul_tempFile u) = GetPartCount (mu_Size req) defaultPartSize"
    "tinv t'" "rows t' = rows t @ [ul_tempFile u]" "tf_ChunkHash (ul_tempFile u) = mu_SHA1 req"
    "tf_CompanyID (ul_tempFile u) = mu_CompanyID req" "tf_DeletedAt (ul_tempFile u) = None"
    using eqs w(2) r'(1-3) u by simp_all
qed

lemma CompleteUpload_ok:
  assumes "multipart_uploader U obj held" "ul_updr u = U" "temp_table T trows tinv" "tinv t" "file_table D drows dinv" "dinv d"
    and "CompleteUpload T D now u t d s = (Inr fi, t', d', s')"
  shows "\<exists>ps. held s (tf_StoragePath (ul_tempFile u)) (tf_ThirdUploadID (ul_tempFile u)) = Some ps \<and>
       obj s' (fi_StoragePath fi) = Some (concat (map snd (take 1000 ps)))"
    "drows d' = drows d @ [fi]" "fi_StoragePath fi = tf_StoragePath (ul_tempFile u)" "fi_Size fi = tf_Size (ul_tempFile u)"
    "fi_ChunkHash fi = tf_ChunkHash (ul_tempFile u)"  "fi_CompanyID fi = tf_CompanyID (ul_tempFile u)"
    "trows t' = update_rows (\<lambda>r. tf_ID r = tf_ID (ul_tempFile u) \<and> tf_DeletedAt r = None) (\<lambda>r. r\<lparr>tf_DeletedAt := Some now\<rparr>) (trows t)"
proof -
  let ?f = "completed_file u s'"
  obtain v rs where c: "CompleteUploadTask U (ul_tempFile u) s = (Inr v, s')"
    and ins: "tb_insert D d [file_created now ?f] = Inr (rs, d')" and del: "delete_temp T now (ul_tempFile u) t = Inr t'"
    and fi: "fi = first_or ?f rs"
    using assms(2,7) by (auto simp: CompleteUpload_def Let_def split: prod.splits sum.splits)
  obtain r' where r': "fi = r'" "drows d' = drows d @ [r']" "r' = (file_created now ?f)\<lparr>fi_ID := fi_ID r'\<rparr>"
    using insert_one [OF assms(5,6) ins] fi by (fastforce simp: file_created_def completed_file_def zero_file_def Let_def)
  have eqs: "fi_StoragePath r' = tf_StoragePath (ul_tempFile u) \<and> fi_Size r' = tf_Size (ul_tempFile u) \<and>
      fi_ChunkHash r' = tf_ChunkHash (ul_tempFile u) \<and> fi_CompanyID r' = tf_CompanyID (ul_tempFile u)"
    by (subst (1 2 3 4) r'(3)) (simp add: file_created_def completed_file_def Let_def)
  show "\<exists>ps. held s (tf_StoragePath (ul_tempFile u)) (tf_ThirdUploadID (ul_tempFile u)) = Some ps \<and>
       obj s' (fi_StoragePath fi) = Some (concat (map snd (take 1000 ps)))"
    using multipart_uploader.complete_ok [OF assms(1) c] eqs r'(1) by auto
  show "drows d' = drows d @ [fi]" "fi_StoragePath fi = tf_StoragePath (ul_tempFile u)" "fi_Size fi = tf_Size (ul_tempFile u)"
    "fi_ChunkHash fi = tf_ChunkHash (ul_tempFile u)" "fi_CompanyID fi = tf_CompanyID (ul_tempFile u)"
    using eqs r'(1,2) by simp_all
  show "trows t' = update_rows (\<lambda>r. tf_ID r = tf_ID (ul_tempFile u) \<and> tf_DeletedAt r = None) (\<lambda>r. r\<lparr>tf_DeletedAt := Some now\<rparr>) (trows t)"
    using del sql_table.update_rows_ok [OF assms(3,4)] by (auto simp: delete_temp_def split: if_splits)
qed


text \<open>The contract in use: the store in memory, empty tables and a file of five bytes.\<close>

definition ex_tc :: TencentCos where
  "ex_tc = \<lparr>tc_opt = \<lparr>so_Purpose = ''doc'', so_PresignedTimeout = 60\<rparr>,
     tc_cosCfg = \<lparr>tx_SecretID = [], tx_SecretKey = [], tx_Region = ''r'', tx_Endpoint = [], tx_Bucket = ''b''\<rparr>\<rparr>"

definition ex_cfg :: StorageConfig where
  "ex_cfg = \<lparr>sc_Option = tc_opt ex_tc, sc_Local = None, sc_AliOSS = None, sc_UpYun = None, sc_Tencent = Some (tc_cosCfg ex_tc),
     sc_Minoss = None, sc_S3 = None\<rparr>"

definition ex_req :: InitMultipartUploadRequest where
  "ex_req = \<lparr>mu_SHA1 = ''x'', mu_Size = 5, mu_Filename = ''A.TXT'', mu_CompanyID = 2, mu_Uin = 3, mu_EmployeeID = 0, mu_UploadID = []\<rparr>"

definition ex_store :: mem_bucket where
  "ex_store = \<lparr>ms_objects = [], ms_uploads = [], ms_next = 7\<rparr>"

definition ex_temps :: "(TempFile list, TempFile) table_ops" where
  "ex_temps = mem_table tf_ID (\<lambda>k r. r\<lparr>tf_ID := k\<rparr>)"

definition ex_files :: "(FileInfo list, FileInfo) table_ops" where
  "ex_files = mem_table fi_ID (\<lambda>k r. r\<lparr>fi_ID := k\<rparr>)"

definition ex_uploader :: "mem_bucket iUploader" where
  "ex_uploader = tc_uploader mem_cos ex_tc"

definition ex_new :: "mem_bucket Uploader res \<times> TempFile list \<times> mem_bucket" where
  "ex_new = newUploader ex_temps 0 ''20250101'' ''abcdefg'' ex_cfg ex_uploader ex_req [] ex_store"

definition ex_u :: "mem_bucket Uploader" where
  "ex_u = (case ex_new of (Inr u, _) \<Rightarrow> u | _ \<Rightarrow> \<lparr>ul_cfg = ex_cfg, ul_tempFile = new_temp_file 0 [] [] ex_cfg ex_req, ul_updr = ex_uploader\<rparr>)"

lemma ex_tables: "temp_table ex_temps id (mem_wf tf_ID)" "file_table ex_files id (mem_wf fi_ID)"
  unfolding ex_temps_def ex_files_def by (rule mem_table_sql_table; simp)+

lemmas ex_defs = ex_tc_def ex_cfg_def ex_req_def ex_store_def ex_temps_def ex_files_def ex_uploader_def ex_new_def ex_u_def

lemma ex_new_eq: "\<exists>t1 s1. ex_new = (Inr ex_u, t1, s1)"
  by (simp add: ex_defs newUploader_def new_temp_file_def tc_uploader_def tc_InitUploadTask_def mem_cos_def SaveTempFile_def
      mem_table_def mem_insert_def temp_created_def mem_wf_def mem_checked_def Let_def)

definition ex_done :: "FileInfo res \<times> TempFile list \<times> FileInfo list \<times> mem_bucket" where
  "ex_done = (let s1 = snd (snd ex_new); t1 = fst (snd ex_new) in
     CompleteUpload ex_temps ex_files 9 ex_u t1 [] (snd (ul_UploadPart ex_u 0 ''hello'' 5 s1)))"

lemma ex_done_eq: "\<exists>fi t3 d' s3. ex_done = (Inr fi, t3, d', s3)"
  using ex_new_eq
  by (simp add: ex_done_def ex_defs newUploader_def new_temp_file_def tc_uploader_def tc_InitUploadTask_def mem_cos_def SaveTempFile_def
      mem_table_def mem_insert_def temp_created_def mem_wf_def mem_checked_def Let_def ul_UploadPart_def tc_UploadTrunk_def
      CompleteUpload_def tc_CompleteUploadTask_def ms_ups_def headers_def delete_temp_def update_rows_def completed_file_def zero_file_def file_created_def)

lemma ex_part_ok: "is_ok (fst (ul_UploadPart ex_u 0 ''hello'' 5 (snd (snd ex_new))))" "tf_PartCount (ul_tempFile ex_u) = 1"
  by (simp_all add: ex_defs newUploader_def new_temp_file_def tc_uploader_def tc_InitUploadTask_def mem_cos_def SaveTempFile_def
      mem_table_def mem_insert_def temp_created_def mem_wf_def mem_checked_def Let_def ul_UploadPart_def tc_UploadTrunk_def
      GetPartCount_def defaultPartSize_def tquot_def)

lemma ex_chunk: "file_chunk ''hello'' 0 = ''hello''"
  by (simp add: file_chunk_def defaultPartSize_def)


section \<open>Which parts are missing\<close>

text \<open> \<open>ListTrunks\<close> while the parts held are among those announced and at most 1000 are announced: the parts
  reported as uploaded are exactly those held, those reported as needed are exactly the missing ones, both in
  ascending order, and the status is \<open>upload_wait_comp\<close> exactly when nothing is missing.
\<close>

theorem ListTrunks_correct:
  assumes "object_store S obj up ep" "ul_updr u = tc_uploader S tc" "0 \<le> tf_PartCount (ul_tempFile u)" "tf_PartCount (ul_tempFile u) \<le> 1000"
    and "held_of up s (tf_StoragePath (ul_tempFile u)) (tf_ThirdUploadID (ul_tempFile u)) = Some ps"
    and "fst ` set ps \<subseteq> {0..<tf_PartCount (ul_tempFile u)}"
    and "ListTrunks u s = Inr resp"
  shows "cm_PartNumbersUploaded resp = map fst ps \<and>
    cm_PartNumbersNeedUpload resp = filter (\<lambda>i. i \<notin> fst ` set ps) [0..tf_PartCount (ul_tempFile u) - 1] \<and>
    (cm_UploadStatus resp = FileStatusUploadWaitComp \<longleftrightarrow> fst ` set ps = {0..<tf_PartCount (ul_tempFile u)})"
proof -
  let ?k = "tf_PartCount (ul_tempFile u)"
  note m = tc_multipart [OF assms(1), of tc]
  have d: "distinct (map fst ps)" by (rule by_number_distinct [OF multipart_uploader.held_sorted [OF m assms(5)]])
  then have len: "length ps = card (fst ` set ps)" using distinct_card [OF d] by simp
  have "card (fst ` set ps) \<le> nat ?k" using card_mono [OF _ assms(6)] by simp
  with len assms(4) have "take 1000 (map fst ps) = map fst ps" by simp
  then have exi: "ListUploadExistsTrunk (ul_updr u) (ul_tempFile u) s = Inr (map fst ps)"
    using assms(2,5,7) multipart_uploader.listing_ok [OF m, of "ul_tempFile u" s]
    by (auto simp: ListTrunks_def Let_def split: sum.splits)
  have full: "int (length ps) = ?k \<longleftrightarrow> fst ` set ps = {0..<?k}"
  proof
    assume "int (length ps) = ?k"
    then have "card (fst ` set ps) = card {0..<?k}" using len by simp
    then show "fst ` set ps = {0..<?k}" using card_subset_eq [OF _ assms(6)] by simp
  qed (use len assms(3) in simp)
  have none: "fst ` set ps = {0..<?k} \<Longrightarrow> filter (\<lambda>i. i \<notin> fst ` set ps) [0..?k - 1] = []"
    by (simp add: filter_empty_conv)
  have need: "getNeedUploadPartNumbers ?k (map fst ps) = filter (\<lambda>i. i \<notin> fst ` set ps) [0..?k - 1]"
    unfolding getNeedUploadPartNumbers_def contains_def list_ex_iff by (rule filter_cong) auto
  have "resp = \<lparr>cm_UploadID = tf_ThirdUploadID (ul_tempFile u), cm_PartSize = tf_PartSize (ul_tempFile u), cm_PartCount = ?k,
      cm_PartNumbersUploaded = map fst ps,
      cm_PartNumbersNeedUpload = (if int (length ps) = ?k then [] else filter (\<lambda>i. i \<notin> fst ` set ps) [0..?k - 1]),
      cm_UploadStatus = (if int (length ps) = ?k then FileStatusUploadWaitComp else FileStatusUploading), cm_FileInfo = None\<rparr>"
    using assms(7) unfolding need [symmetric] by (simp add: ListTrunks_def Let_def exi)
  then show ?thesis using full none by (auto simp: FileStatusUploadWaitComp_def FileStatusUploading_def)
qed

theorem ListTrunks_correct_witness:
  "\<exists>resp. ListTrunks ex_u (snd (snd ex_new)) = Inr resp \<and> cm_PartNumbersNeedUpload resp = [0] \<and>
     cm_UploadStatus resp \<noteq> FileStatusUploadWaitComp"
proof -
  obtain t1 s1 where new: "ex_new = (Inr ex_u, t1, s1)" using ex_new_eq by blast
  have n: "newUploader ex_temps 0 ''20250101'' ''abcdefg'' ex_cfg (tc_uploader mem_cos ex_tc) ex_req [] ex_store = (Inr ex_u, t1, s1)"
    using new by (simp add: ex_new_def ex_uploader_def)
  note held = newUploader_ok(1,2) [OF tc_multipart [OF mem_objects.object_store_axioms] ex_tables(1) _ n]
  have "\<exists>resp. ListTrunks ex_u s1 = Inr resp"
    using held by (auto simp: mem_wf_def ListTrunks_def Let_def tc_uploader_def tc_ListUploadExistsTrunk_def mem_cos_def held_of_def)
  then obtain resp where r: "ListTrunks ex_u s1 = Inr resp" by blast
  from ListTrunks_correct [OF mem_objects.object_store_axioms held(1) _ _ held(2) _ r]
  show ?thesis unfolding new using r by (auto simp: ex_part_ok(2) mem_wf_def)
qed

section \<open>Resuming by content\<close>

text \<open>The live row \<open>tf\<close> is the only one with its hash and size.\<close>

definition sole_upload :: "TempFile list \<Rightarrow> TempFile \<Rightarrow> bool" where
  "sole_upload rs tf = (tf \<in> set rs \<and> tf_DeletedAt tf = None \<and>
     (\<forall>r\<in>set rs. tf_DeletedAt r = None \<and> tf_Size r = tf_Size tf \<and> tf_ChunkHash r = tf_ChunkHash tf \<longrightarrow> r = tf))"

lemma GetTempFileByHash_unique:
  assumes "temp_table T rows tinv" "tinv t" "sole_upload (rows t) tf"
    and "GetTempFileByHash T (tf_ChunkHash tf) (tf_Size tf) t = x"
  shows "x = Inr tf \<or> (\<exists>e P le. x = Inl e \<and> tb_find T t P le = Inl e)"
proof (cases "tb_find T t (\<lambda>_ r. (tf_Size r = tf_Size tf \<and> tf_ChunkHash r = tf_ChunkHash tf) \<and> tf_DeletedAt r = None) (\<lambda>a b. tf_ID a \<le> tf_ID b)")
  case (Inr rs)
  have rs: "set rs = {r \<in> set (rows t). (tf_Size r = tf_Size tf \<and> tf_ChunkHash r = tf_ChunkHash tf) \<and> tf_DeletedAt r = None}"
    by (rule sql_table.find_set [OF assms(1,2) Inr])
  then have "set rs = {tf}" using assms(3) unfolding sole_upload_def by blast
  then obtain rs' where "rs = tf # rs'" by (cases rs) auto
  moreover have "tf_ID tf \<noteq> 0" using sql_table.keys_nonzero [OF assms(1,2)] assms(3) unfolding sole_upload_def by blast
  ultimately show ?thesis using assms(4) Inr by (simp add: GetTempFileByHash_def live_temp_def)
next
  case (Inl e)
  then have "x = Inl e" using assms(4) by (simp add: GetTempFileByHash_def live_temp_def)
  with Inl show ?thesis by blast
qed

text \<open>
  A request without an upload identifier is answered with the row that has its hash and size, whoever
  created that row and however long ago.
\<close>

lemma GetUploader_by_hash:
  assumes "temp_table T rows tinv" "tinv t" "sole_upload (rows t) tf"
    and "mu_SHA1 req = tf_ChunkHash tf" "mu_Size req = tf_Size tf" "mu_UploadID req = []"
    and "\<And>P le. tb_find T t P le \<noteq> Inl gorm_ErrRecordNotFound"
    and "GetUploader T S now date rnd parse yaml req t s = (Inr u, t', s')"
  shows "ul_tempFile u = tf \<and> t' = t \<and> s' = s \<and> (\<exists>tc. ul_updr u = tc_uploader S tc)"
proof -
  obtain cfg U where p: "getUploadProvider S parse yaml = Inr (cfg, U)"
    using assms(8) by (cases "getUploadProvider S parse yaml") (auto simp: GetUploader_def)
  then have up: "\<exists>tc. U = tc_uploader S tc" by (auto simp: getUploadProvider_def split: sum.splits option.splits)
  have "GetTempFileByHash T (tf_ChunkHash tf) (tf_Size tf) t = Inr tf \<or>
      (\<exists>e. GetTempFileByHash T (tf_ChunkHash tf) (tf_Size tf) t = Inl e \<and> e \<noteq> gorm_ErrRecordNotFound)"
    using GetTempFileByHash_unique [OF assms(1-3) refl] assms(7) by blast
  then consider "GetTempFileByHash T (tf_ChunkHash tf) (tf_Size tf) t = Inr tf"
    | e where "GetTempFileByHash T (tf_ChunkHash tf) (tf_Size tf) t = Inl e" "e \<noteq> gorm_ErrRecordNotFound" by blast
  then show ?thesis using assms(4-6,8) p up by cases (auto simp: GetUploader_def)
qed

lemma unknown_upload_fails:
  assumes "multipart_uploader U obj held" "ul_updr u = U"
    and "held s (tf_StoragePath (ul_tempFile u)) (tf_ThirdUploadID (ul_tempFile u)) = None"
  shows "\<not> is_ok (ListTrunks u s)" "\<not> is_ok (fst (ul_UploadPart u n b sz s))" "\<not> is_ok (fst (CompleteUpload T D now u t d s))"
proof -
  have "ListUploadExistsTrunk U (ul_tempFile u) s \<noteq> Inr ns" for ns
    using multipart_uploader.listing_ok [OF assms(1), of "ul_tempFile u" s ns] assms(3) by auto
  then show "\<not> is_ok (ListTrunks u s)" using assms(2) by (auto simp: ListTrunks_def Let_def split: sum.splits)
  have "UploadTrunk U (ul_tempFile u) n b sz s \<noteq> (Inr v, s')" for v s'
    using multipart_uploader.trunk_ok [OF assms(1), of "ul_tempFile u" n b sz s v s'] assms(3) by auto
  then show "\<not> is_ok (fst (ul_UploadPart u n b sz s))"
    using assms(2) by (cases "UploadTrunk U (ul_tempFile u) n b sz s") (auto simp: ul_UploadPart_def is_ok_iff)
  have "CompleteUploadTask U (ul_tempFile u) s \<noteq> (Inr v, s')" for v s'
    using multipart_uploader.complete_ok [OF assms(1), of "ul_tempFile u" s v s'] assms(3) by auto
  then show "\<not> is_ok (fst (CompleteUpload T D now u t d s))"
    using assms(2) by (cases "CompleteUploadTask U (ul_tempFile u) s") (auto simp: CompleteUpload_def split: sum.splits)
qed


text \<open>
  (C24) A completion whose database transaction fails. The parts are joined and the upload identifier is gone,
  but the temporary row stays. From then on listing, sending a part and completing all fail for this upload
  in every state in which the bucket does not know the identifier, and every request for the same hash and
  size is given this row again: the content cannot be uploaded until the row is removed by hand. (The expiry
  time stored in the row is not read.)
\<close>

theorem upload_stuck:
  assumes "object_store S obj up ep" "ul_updr u = tc_uploader S tc" "temp_table T trows tinv" "tinv t"
    and "sole_upload (trows t) (ul_tempFile u)" "\<And>P le. tb_find T t P le \<noteq> Inl gorm_ErrRecordNotFound"
    and joined: "CompleteUploadTask (ul_updr u) (ul_tempFile u) s = (Inr v, s1)"
    and failed: "CompleteUpload T D now u t d s = (Inl e, t', d', s')"
    and later: "up s2 (tf_StoragePath (ul_tempFile u)) (tf_ThirdUploadID (ul_tempFile u)) =
      up s' (tf_StoragePath (ul_tempFile u)) (tf_ThirdUploadID (ul_tempFile u))"
    and again: "GetUploader T S now' date rnd parse yaml req t' s2 = (Inr w, t2, s3)" "mu_UploadID req = []"
      "mu_SHA1 req = tf_ChunkHash (ul_tempFile u)" "mu_Size req = tf_Size (ul_tempFile u)"
  shows "t' = t \<and> d' = d \<and> ul_tempFile w = ul_tempFile u \<and> t2 = t' \<and> s3 = s2 \<and> \<not> is_ok (ListTrunks w s3) \<and>
    \<not> is_ok (fst (ul_UploadPart w n b sz s3)) \<and> \<not> is_ok (fst (CompleteUpload T D now' w t2 d' s3))"
proof -
  have st: "t' = t" "d' = d" "s' = s1"
    using failed joined by (auto simp: CompleteUpload_def Let_def split: sum.splits prod.splits)
  obtain tc' where w: "ul_tempFile w = ul_tempFile u" "t2 = t'" "s3 = s2" "ul_updr w = tc_uploader S tc'"
    using GetUploader_by_hash [OF assms(3,4,5) again(3,4,2) assms(6) again(1) [unfolded st(1)]] st by auto
  have "held_of up s1 (tf_StoragePath (ul_tempFile u)) (tf_ThirdUploadID (ul_tempFile u)) = None"
    using multipart_uploader.complete_ok [OF tc_multipart [OF assms(1)] joined [unfolded assms(2)]] by blast
  then have "held_of up s3 (tf_StoragePath (ul_tempFile w)) (tf_ThirdUploadID (ul_tempFile w)) = None"
    using later w st by (simp add: held_of_def)
  from unknown_upload_fails [OF tc_multipart [OF assms(1)] w(4) this] st w show ?thesis by simp
qed


definition ex_locked :: "(FileInfo list, FileInfo) table_ops" where
  "ex_locked = with_index (\<lambda>_. False) id ex_files"

definition ex_sent :: mem_bucket where
  "ex_sent = snd (ul_UploadPart ex_u 0 ''hello'' 5 (snd (snd ex_new)))"

lemmas ex_eval = ex_defs ex_sent_def ex_locked_def newUploader_def new_temp_file_def tc_uploader_def tc_InitUploadTask_def
  mem_cos_def SaveTempFile_def mem_table_def mem_insert_def temp_created_def mem_wf_def mem_checked_def Let_def ul_UploadPart_def
  tc_UploadTrunk_def CompleteUpload_def tc_CompleteUploadTask_def ms_ups_def headers_def with_index_def index_checked_def

lemma ex_joined: "\<exists>s1. CompleteUploadTask (ul_updr ex_u) (ul_tempFile ex_u) ex_sent = (Inr (), s1)"
  by (simp add: ex_eval)

lemma ex_failed: "\<exists>e t' d' s'. CompleteUpload ex_temps ex_locked 9 ex_u (fst (snd ex_new)) [] ex_sent = (Inl e, t', d', s')"
  by (simp add: ex_eval)

lemma ex_sole: "sole_upload (fst (snd ex_new)) (ul_tempFile ex_u)" "mem_wf tf_ID (fst (snd ex_new))"
  by (simp_all add: ex_eval sole_upload_def)

lemma ex_again: "\<exists>w t2 s3. GetUploader ex_temps mem_cos 20 [] [] (\<lambda>_. None) (Inr ex_cfg) ex_req (fst (snd ex_new)) s = (Inr w, t2, s3)"
  by (simp add: ex_eval GetUploader_def getUploadProvider_def NewTencentCos_def GetTempFileByHash_def live_temp_def isort_by_def)

lemma ex_same: "mu_SHA1 ex_req = tf_ChunkHash (ul_tempFile ex_u)" "mu_Size ex_req = tf_Size (ul_tempFile ex_u)"
    "ul_updr ex_u = tc_uploader mem_cos ex_tc" "mu_UploadID ex_req = []"
  by (simp_all add: ex_eval)

lemma ex_find: "tb_find ex_temps t P le \<noteq> Inl e"
  by (simp add: ex_temps_def mem_table_def)

theorem upload_stuck_witness:
  "\<exists>e d' s' w t2 s3. CompleteUpload ex_temps ex_locked 9 ex_u (fst (snd ex_new)) [] ex_sent = (Inl e, fst (snd ex_new), d', s') \<and>
     GetUploader ex_temps mem_cos 20 [] [] (\<lambda>_. None) (Inr ex_cfg) ex_req (fst (snd ex_new)) s' = (Inr w, t2, s3) \<and>
     \<not> is_ok (ListTrunks w s3) \<and> \<not> is_ok (fst (ul_UploadPart w 0 ''hello'' 5 s3))"
proof -
  obtain s1 where j: "CompleteUploadTask (ul_updr ex_u) (ul_tempFile ex_u) ex_sent = (Inr (), s1)" using ex_joined by blast
  obtain e t' d' s' where f: "CompleteUpload ex_temps ex_locked 9 ex_u (fst (snd ex_new)) [] ex_sent = (Inl e, t', d', s')"
    using ex_failed by blast
  have t': "t' = fst (snd ex_new)" using f j by (auto simp: CompleteUpload_def Let_def split: sum.splits prod.splits)
  obtain w t2 s3 where a: "GetUploader ex_temps mem_cos 20 [] [] (\<lambda>_. None) (Inr ex_cfg) ex_req (fst (snd ex_new)) s' = (Inr w, t2, s3)"
    using ex_again [of s'] by blast
  have "sole_upload (id (fst (snd ex_new))) (ul_tempFile ex_u)" using ex_sole(1) by simp
  from upload_stuck [OF mem_objects.object_store_axioms ex_same(3) ex_tables(1) ex_sole(2) this ex_find j f refl a [folded t']
      ex_same(4) ex_same(1,2), of 0 "''hello''" 5] f a t'
  show ?thesis by blast
qed


end
