(* ===== verification/Cos_Storage.thy ===== *)
theory Cos_Storage
  imports Uploader
begin

text \<open>
  The other operations of the Tencent client (\<open>storage/tencent_cos.go\<close>): saving, reading, deleting, copying whole
  prefixes, and the multipart calls with the part list given by the caller. The client holds the bucket and
  region; keys are opaque strings. A nil pointer among the inputs is \<open>None\<close>.
\<close>

section \<open>Objects\<close>

text \<open>\<open>Trim\<close> of double quotes.\<close>

definition trim_quotes :: "string \<Rightarrow> string" where
  "trim_quotes s = rev (dropWhile (\<lambda>c. c = CHR 0x22) (rev (dropWhile (\<lambda>c. c = CHR 0x22) s)))"

text \<open>\<open>mime\<close> is \<open>mime.TypeByExtension\<close>, which reads the tables of the host. The reader, when there is one, is its content.\<close>

definition tc_Save :: "'o cos_ops \<Rightarrow> TencentCos \<Rightarrow> (string \<Rightarrow> string) \<Rightarrow> FileInfo \<Rightarrow> string option \<Rightarrow> 'o \<Rightarrow> FileInfo res \<times> 'o" where
  "tc_Save S tc mime fi r s = (if fi_StoragePath fi = [] then (Inl (Err ''storage path is empty''), s)
     else case r of
       None \<Rightarrow> (Inl (Err ''reader is empty''), s)
     | Some b \<Rightarrow> (case cos_Put S s (fi_StoragePath fi) b (mime (fi_FileExt fi)) of
         (Inl e, s') \<Rightarrow> (Inl e, s')
       | (Inr etag, s') \<Rightarrow>
           (let fi1 = (if etag \<noteq> [] then fi\<lparr>fi_Hash := ''md5:'' @ trim_quotes etag\<rparr> else fi)
            in (Inr (fi1\<lparr>fi_PublicURL := tc_GetPublicURL S tc (fi_StoragePath fi1) False s'\<rparr>), s'))))"

definition tc_ReadFile :: "'o cos_ops \<Rightarrow> string \<Rightarrow> 'o \<Rightarrow> string res" where
  "tc_ReadFile S storagePath s = (if storagePath = [] then Inl (Err ''storage path is empty'') else cos_Get S s storagePath)"

definition tc_DeleteFile :: "'o cos_ops \<Rightarrow> string \<Rightarrow> 'o \<Rightarrow> unit res \<times> 'o" where
  "tc_DeleteFile S storagePath s = (if storagePath = [] then (Inl (Err ''storage path is empty''), s)
     else cos_Delete S s storagePath)"

section \<open>Copying\<close>

text \<open>A path without an object is taken for a directory.\<close>

definition tc_isDirectory :: "'o cos_ops \<Rightarrow> string \<Rightarrow> 'o \<Rightarrow> bool res" where
  "tc_isDirectory S storagePath s = (case cos_Head S s storagePath of
     Inl e \<Rightarrow> (if e = cos_NoSuchKey then Inr True else Inl e)
   | Inr _ \<Rightarrow> Inr False)"

text \<open>\<open>TrimPrefix\<close>.\<close>

definition trim_prefix :: "string \<Rightarrow> string \<Rightarrow> string" where
  "trim_prefix s p = (if has_prefix s p then drop (length p) s else s)"

definition tc_copyObject :: "'o cos_ops \<Rightarrow> TencentCos \<Rightarrow> string \<Rightarrow> string \<Rightarrow> 'o \<Rightarrow> unit res \<times> 'o" where
  "tc_copyObject S tc storagePath dest s =
     cos_Copy S s dest (trim_prefix (tc_GetPublicURL S tc storagePath False s) ''https://'')"

fun copy_objects :: "'o cos_ops \<Rightarrow> TencentCos \<Rightarrow> string \<Rightarrow> string \<Rightarrow> string list \<Rightarrow> 'o \<Rightarrow> unit res \<times> 'o" where
  "copy_objects S tc storagePath dest [] s = (Inr (), s)"
| "copy_objects S tc storagePath dest (k # ks) s =
     (case tc_copyObject S tc k (Join dest (trim_prefix k storagePath)) s of
        (Inl e, s') \<Rightarrow> (Inl e, s')
      | (Inr _, s') \<Rightarrow> copy_objects S tc storagePath dest ks s')"

text \<open>The loop over the common prefixes; \<open>rec\<close> copies one.\<close>

fun copy_prefixes :: "(string \<Rightarrow> string \<Rightarrow> 'o \<Rightarrow> (unit res \<times> 'o) option) \<Rightarrow> string \<Rightarrow> string \<Rightarrow> string list \<Rightarrow> 'o \<Rightarrow> (unit res \<times> 'o) option" where
  "copy_prefixes rec storagePath dest [] s = Some (Inr (), s)"
| "copy_prefixes rec storagePath dest (p # ps) s =
     Option.bind (rec p (Join dest (trim_prefix p storagePath)) s)
       (\<lambda>(r, s'). if is_ok r then copy_prefixes rec storagePath dest ps s' else Some (r, s'))"

lemma copy_prefixes_mono [partial_function_mono]:
  assumes "\<And>p d s. mono_option (\<lambda>g. B g p d s)"
  shows "mono_option (\<lambda>g. copy_prefixes (B g) storagePath dest ps s)"
proof (induction ps arbitrary: s)
  case Nil
  show ?case by (simp add: option.const_mono)
next
  case (Cons p ps)
  have "mono_option (\<lambda>g. case rs of (r, s') \<Rightarrow> if is_ok r then copy_prefixes (B g) storagePath dest ps s' else Some (r, s'))"
    for rs using Cons by (cases rs; cases "is_ok (fst rs)") (simp_all add: option.const_mono)
  then show ?case by (simp only: copy_prefixes.simps) (rule bind_mono, rule assms)
qed

partial_function (option) tc_copyDirectory ::
  "'o cos_ops \<Rightarrow> TencentCos \<Rightarrow> string \<Rightarrow> string \<Rightarrow> 'o \<Rightarrow> (unit res \<times> 'o) option" where
  "tc_copyDirectory S tc storagePath dest s = (case cos_BucketGet S s storagePath of
     Inl e \<Rightarrow> Some (Inl e, s)
   | Inr (ks, ps) \<Rightarrow> (case copy_objects S tc storagePath dest ks s of
       (Inl e, s') \<Rightarrow> Some (Inl e, s')
     | (Inr _, s') \<Rightarrow> copy_prefixes (\<lambda>p d t. tc_copyDirectory S tc p d t) storagePath dest ps s'))"

declare tc_copyDirectory.simps [code]

definition tc_CopyDir :: "'o cos_ops \<Rightarrow> TencentCos \<Rightarrow> string \<Rightarrow> string \<Rightarrow> 'o \<Rightarrow> (unit res \<times> 'o) option" where
  "tc_CopyDir S tc storagePath dest s =
     (if storagePath = [] then Some (Inl (Err ''source storage path is empty''), s)
      else if dest = [] then Some (Inl (Err ''destination storage path is empty''), s)
      else case tc_isDirectory S storagePath s of
        Inl e \<Rightarrow> Some (Inl e, s)
      | Inr isDir \<Rightarrow> (if isDir then tc_copyDirectory S tc storagePath dest s else Some (tc_copyObject S tc storagePath dest s)))"

definition tc_UploadDirectory :: "string \<Rightarrow> string \<Rightarrow> string list res" where
  "tc_UploadDirectory localDirPath destDir = Inl (Err ''UploadDirectory not implemented for TencentCos'')"

section \<open>Multipart calls\<close>

record CreateMultipartUploadInput =
  ci_Bucket :: "string option"
  ci_StoragePath :: "string option"
  ci_ContentType :: "string option"

record GeneratePresignedURLInput =
  gi_Method :: "string option"
  gi_Bucket :: "string option"
  gi_StoragePath :: "string option"
  gi_UploadID :: "string option"
  gi_PartNumber :: "int option"
  gi_ContentType :: "string option"
  gi_ContentLength :: "int option"
  gi_ContentMD5 :: "string option"

record UploadPartInput =
  pi_Bucket :: "string option"
  pi_StoragePath :: "string option"
  pi_UploadID :: "string option"
  pi_PartNumber :: "int option"
  pi_Data :: "string option"

text \<open>The fields of a part of the SDK's type are pointers too.\<close>

record CompleteMultipartUploadInput =
  mi_Bucket :: "string option"
  mi_StoragePath :: "string option"
  mi_UploadID :: "string option"
  mi_Parts :: "(int option \<times> string option) list option"

record AbortMultipartUploadInput =
  ai_Bucket :: "string option"
  ai_StoragePath :: "string option"
  ai_UploadID :: "string option"

definition tc_CreateMultipartUpload :: "'o cos_ops \<Rightarrow> CreateMultipartUploadInput option \<Rightarrow> 'o \<Rightarrow> string res \<times> 'o" where
  "tc_CreateMultipartUpload S inp s = (case inp of
     Some i \<Rightarrow> (case ci_StoragePath i of
       Some p \<Rightarrow> (if p = [] then (Inl (Err ''storage path is empty''), s) else cos_Initiate S s p None)
     | None \<Rightarrow> (Inl (Err ''storage path is empty''), s))
   | None \<Rightarrow> (Inl (Err ''storage path is empty''), s))"

definition tc_GeneratePresignedURL :: "'o cos_ops \<Rightarrow> GeneratePresignedURLInput option \<Rightarrow> 'o \<Rightarrow> string res" where
  "tc_GeneratePresignedURL S inp s = (case inp of
     Some i \<Rightarrow> (case (gi_StoragePath i, gi_UploadID i, gi_PartNumber i) of
       (Some p, Some u, Some n) \<Rightarrow> cos_Presign S s ''PUT'' p [(''uploadId'', u), (''partNumber'', itoa n)]
     | _ \<Rightarrow> Inl (Err ''storagePath, uploadID or partNumber is nil''))
   | None \<Rightarrow> Inl (Err ''storagePath, uploadID or partNumber is nil''))"

definition tc_UploadPart :: "'o cos_ops \<Rightarrow> UploadPartInput option \<Rightarrow> 'o \<Rightarrow> string res \<times> 'o" where
  "tc_UploadPart S inp s = (case inp of
     Some i \<Rightarrow> (case (pi_StoragePath i, pi_UploadID i, pi_PartNumber i) of
       (Some p, Some u, Some n) \<Rightarrow>
         (if p = [] then (Inl (Err ''storage path is empty''), s)
          else case pi_Data i of
            None \<Rightarrow> (Inl (Err ''reader is empty''), s)
          | Some b \<Rightarrow> (case cos_UploadPart S s p u n b None of
              (Inl e, s') \<Rightarrow> (Inl e, s')
            | (Inr etag, s') \<Rightarrow> (Inr (trim_quotes etag), s')))
     | _ \<Rightarrow> (Inl (Err ''storagePath, uploadID or partNumber is nil''), s))
   | None \<Rightarrow> (Inl (Err ''storagePath, uploadID or partNumber is nil''), s))"

text \<open>\<open>aws.ToInt32\<close> and \<open>aws.ToString\<close> read a nil pointer as the zero value.\<close>

definition tc_CompleteMultipartUpload :: "'o cos_ops \<Rightarrow> CompleteMultipartUploadInput option \<Rightarrow> 'o \<Rightarrow> unit res \<times> 'o" where
  "tc_CompleteMultipartUpload S inp s = (case inp of
     Some i \<Rightarrow> (case (mi_StoragePath i, mi_UploadID i, mi_Parts i) of
       (Some p, Some u, Some cs) \<Rightarrow> cos_Complete S s p u
          (map (\<lambda>(n, t). \<lparr>cp_PartNumber = (case n of None \<Rightarrow> 0 | Some m \<Rightarrow> m), cp_ETag = (case t of None \<Rightarrow> [] | Some x \<Rightarrow> x)\<rparr>) cs)
     | _ \<Rightarrow> (Inl (Err ''storagePath, uploadID or parts is nil''), s))
   | None \<Rightarrow> (Inl (Err ''storagePath, uploadID or parts is nil''), s))"

definition tc_AbortMultipartUpload :: "'o cos_ops \<Rightarrow> AbortMultipartUploadInput option \<Rightarrow> 'o \<Rightarrow> unit res \<times> 'o" where
  "tc_AbortMultipartUpload S inp s = (case inp of
     Some i \<Rightarrow> (case (ai_StoragePath i, ai_UploadID i) of
       (Some p, Some u) \<Rightarrow> cos_Abort S s p u
     | _ \<Rightarrow> (Inl (Err ''storagePath or uploadID is nil''), s))
   | None \<Rightarrow> (Inl (Err ''storagePath or uploadID is nil''), s))"

end
