(* ===== verification/Cos_Copy.thy ===== *)
theory Cos_Copy
  imports Cos_Storage
begin

text \<open>
  What \<open>CopyDir\<close> of the Tencent client copies: every object whose key begins with the given string, to the key
  made of the destination and the rest. The rest is cut off as a string, not at a slash, so without a trailing
  slash the neighbours of a directory are copied too.
\<close>

section \<open>Paths of copies\<close>

lemma Join_path: "d \<noteq> [] \<Longrightarrow> Join d x = path_string (loc_of (Join d x))"
  by (simp add: Join_def Clean_def loc_of_path_string)

lemma Join_nested:
  assumes "d \<noteq> []"
  shows "Join (Join d (a @ ''/'')) b = Join d (a @ ''/'' @ b)"
proof -
  have "loc_of (Join (Join d (a @ ''/'')) b) = loc_of (Join d (a @ ''/'' @ b))"
    using assms by (simp add: loc_of_Join split_on_cat)
  moreover have "Join (Join d (a @ ''/'')) b = path_string (loc_of (Join (Join d (a @ ''/'')) b))"
    using assms by (intro Join_path) simp
  ultimately show ?thesis using Join_path [OF assms, of "a @ ''/'' @ b"] by simp
qed

lemma shown_entry_cases:
  assumes "has_prefix k p"
  obtains "shown_entry p k = Inl k" | w rest where "shown_entry p k = Inr (p @ w @ ''/'')" "k = p @ w @ ''/'' @ rest"
proof (cases "CHR ''/'' \<in> set (drop (length p) k)")
  case True
  let ?r = "drop (length p) k"
  have k: "k = p @ ?r" using assms by (metis append_eq_conv_conj has_prefix_conv)
  have "dropWhile (\<lambda>c. c \<noteq> CHR ''/'') ?r \<noteq> []" using True by (auto simp: dropWhile_eq_Nil_conv)
  then obtain c rest where c: "dropWhile (\<lambda>c. c \<noteq> CHR ''/'') ?r = c # rest" by (meson neq_Nil_conv)
  have "\<not> hd (dropWhile (\<lambda>c. c \<noteq> CHR ''/'') ?r) \<noteq> CHR ''/''" by (rule hd_dropWhile) (simp add: c)
  with c have d: "dropWhile (\<lambda>c. c \<noteq> CHR ''/'') ?r = CHR ''/'' # rest" by simp
  have "?r = takeWhile (\<lambda>c. c \<noteq> CHR ''/'') ?r @ ''/'' @ rest"
    using takeWhile_dropWhile_id [of "\<lambda>c. c \<noteq> CHR ''/''" ?r] d by simp
  then have "k = p @ takeWhile (\<lambda>c. c \<noteq> CHR ''/'') ?r @ ''/'' @ rest" using k by simp
  moreover have "shown_entry p k = Inr (p @ takeWhile (\<lambda>c. c \<noteq> CHR ''/'') ?r @ ''/'')" using True by (simp add: shown_entry_def Let_def)
  ultimately show thesis using that(2) by blast
next
  case False
  then show thesis using that(1) by (simp add: shown_entry_def Let_def)
qed

lemma shown_entry_Inl: "shown_entry p k = Inl x \<Longrightarrow> x = k"
  by (simp add: shown_entry_def Let_def split: if_splits)

section \<open>Right writes\<close>

text \<open>The step from \<open>s\<close> to \<open>s'\<close> writes at most, at the copies of the keys in \<open>K\<close>, what these held in \<open>s0\<close>.\<close>

definition right_writes :: "('o \<Rightarrow> string \<Rightarrow> string option) \<Rightarrow> string set \<Rightarrow> (string \<Rightarrow> string) \<Rightarrow> 'o \<Rightarrow> 'o \<Rightarrow> 'o \<Rightarrow> bool" where
  "right_writes obj K g s0 s s' \<longleftrightarrow> (\<forall>x. obj s' x = obj s x \<or> (\<exists>k\<in>K. x = g k \<and> obj s' x = obj s0 k))"

lemma right_writes_refl [simp]: "right_writes obj K g s0 s s"
  by (simp add: right_writes_def)

lemma right_writes_trans: "right_writes obj K g s0 s s1 \<Longrightarrow> right_writes obj K g s0 s1 s2 \<Longrightarrow> right_writes obj K g s0 s s2"
  unfolding right_writes_def by metis

lemma right_writes_keep:
  "right_writes obj K g s0 s s' \<Longrightarrow> inj_on g K \<Longrightarrow> k \<in> K \<Longrightarrow> obj s (g k) = obj s0 k \<Longrightarrow> obj s' (g k) = obj s0 k"
  unfolding right_writes_def by (metis inj_onD)

lemma right_writes_source:
  "right_writes obj K g s0 s s' \<Longrightarrow> (\<And>k. k \<in> K \<Longrightarrow> \<not> has_prefix (g k) p) \<Longrightarrow> has_prefix x p \<Longrightarrow> obj s' x = obj s x"
  unfolding right_writes_def by metis

context object_store
begin

lemma tc_copyObject_ok:
  assumes "endpoint = tc_domain tc" "tc_copyObject S tc k d s = (r, s')"
  shows "x \<noteq> d \<Longrightarrow> obj s' x = obj s x" "is_ok r \<Longrightarrow> obj s' d = obj s k" "obj s' d = obj s d \<or> obj s' d = obj s k"
proof -
  have c: "cos_Copy S s d (endpoint @ ''/'' @ k) = (r, s')"
    using assms by (simp add: tc_copyObject_def tc_GetPublicURL_def trim_prefix_def has_prefix_conv)
  then show "x \<noteq> d \<Longrightarrow> obj s' x = obj s x" using copy_frame by blast
  show "obj s' d = obj s d \<or> obj s' d = obj s k" using c copy_atomic by blast
  assume "is_ok r"
  then obtain v where "r = Inr v" by (auto simp: is_ok_iff)
  with c show "obj s' d = obj s k" using copy_ok by blast
qed

lemma tc_copyObject_right:
  assumes "endpoint = tc_domain tc" "tc_copyObject S tc k (g k) s = (r, s')" "k \<in> K" "obj s k = obj s0 k"
  shows "right_writes obj K g s0 s s'"
  unfolding right_writes_def
proof
  fix x
  show "obj s' x = obj s x \<or> (\<exists>k\<in>K. x = g k \<and> obj s' x = obj s0 k)"
    using tc_copyObject_ok(1,3) [OF assms(1,2)] assms(3,4) by (cases "x = g k") auto
qed

lemma copy_objects_right:
  assumes "endpoint = tc_domain tc" "inj_on g K" "\<And>k. k \<in> K \<Longrightarrow> \<not> has_prefix (g k) p0" "K \<subseteq> {k. has_prefix k p0}"
    and "copy_objects S tc p d ks s = (r, s')" "set ks \<subseteq> K" "\<forall>k\<in>set ks. Join d (trim_prefix k p) = g k"
    and "\<forall>k. has_prefix k p0 \<longrightarrow> obj s k = obj s0 k"
  shows "right_writes obj K g s0 s s' \<and> (is_ok r \<longrightarrow> (\<forall>k\<in>set ks. obj s' (g k) = obj s0 k))"
  using assms(5-8)
proof (induction ks arbitrary: s)
  case (Cons k ks)
  obtain r1 s1 where c: "tc_copyObject S tc k (g k) s = (r1, s1)" by (cases "tc_copyObject S tc k (g k) s")
  have k: "k \<in> K" "obj s k = obj s0 k" using Cons.prems(2,4) assms(4) by auto
  have w1: "right_writes obj K g s0 s s1" by (rule tc_copyObject_right [where g = g, OF assms(1) c k])
  show ?case
  proof (cases "is_ok r1")
    case True
    with c Cons.prems(1,3) have rest: "copy_objects S tc p d ks s1 = (r, s')" by (cases r1) auto
    have "\<forall>k. has_prefix k p0 \<longrightarrow> obj s1 k = obj s0 k"
      using right_writes_source [OF w1 assms(3)] Cons.prems(4) by auto
    with Cons.IH [OF rest] Cons.prems(2,3) have ih: "right_writes obj K g s0 s1 s'" "is_ok r \<longrightarrow> (\<forall>k\<in>set ks. obj s' (g k) = obj s0 k)"
      by auto
    have "obj s' (g k) = obj s0 k"
      by (rule right_writes_keep [OF ih(1) assms(2) k(1)]) (simp add: tc_copyObject_ok(2) [OF assms(1) c True] k(2))
    with ih right_writes_trans [OF w1 ih(1)] show ?thesis by simp
  next
    case False
    with c Cons.prems(1,3) have "\<not> is_ok r" "s' = s1" by (cases r1; auto)+
    with w1 show ?thesis by simp
  qed
qed simp

lemma copy_prefixes_right:
  assumes "inj_on g K" "\<And>k. k \<in> K \<Longrightarrow> \<not> has_prefix (g k) p0"
    and rec: "\<And>q s. q \<in> set ps \<Longrightarrow> \<forall>k. has_prefix k p0 \<longrightarrow> obj s k = obj s0 k \<Longrightarrow> \<exists>r s'. rec q (Join d (trim_prefix q p)) s = Some (r, s') \<and>
       right_writes obj K g s0 s s' \<and> (is_ok r \<longrightarrow> (\<forall>k\<in>K. has_prefix k q \<longrightarrow> obj s' (g k) = obj s0 k))"
    and "\<forall>k. has_prefix k p0 \<longrightarrow> obj s k = obj s0 k"
  shows "\<exists>r s'. copy_prefixes rec p d ps s = Some (r, s') \<and> right_writes obj K g s0 s s' \<and>
    (is_ok r \<longrightarrow> (\<forall>q\<in>set ps. \<forall>k\<in>K. has_prefix k q \<longrightarrow> obj s' (g k) = obj s0 k))"
  using assms(3,4)
proof (induction ps arbitrary: s)
  case (Cons q ps)
  obtain r1 s1 where 1: "rec q (Join d (trim_prefix q p)) s = Some (r1, s1)" "right_writes obj K g s0 s s1"
    "is_ok r1 \<longrightarrow> (\<forall>k\<in>K. has_prefix k q \<longrightarrow> obj s1 (g k) = obj s0 k)"
    using Cons.prems(1) [of q s] Cons.prems(2) by auto
  show ?case
  proof (cases "is_ok r1")
    case True
    have "\<forall>k. has_prefix k p0 \<longrightarrow> obj s1 k = obj s0 k"
      using right_writes_source [OF 1(2) assms(2)] Cons.prems(2) by auto
    then have "\<exists>r s'. copy_prefixes rec p d ps s1 = Some (r, s') \<and> right_writes obj K g s0 s1 s' \<and>
        (is_ok r \<longrightarrow> (\<forall>q\<in>set ps. \<forall>k\<in>K. has_prefix k q \<longrightarrow> obj s' (g k) = obj s0 k))"
      by (intro Cons.IH Cons.prems(1)) simp_all
    then obtain r s' where 2: "copy_prefixes rec p d ps s1 = Some (r, s')"
      "right_writes obj K g s0 s1 s'" "is_ok r \<longrightarrow> (\<forall>q\<in>set ps. \<forall>k\<in>K. has_prefix k q \<longrightarrow> obj s' (g k) = obj s0 k)" by blast
    have "\<forall>k\<in>K. has_prefix k q \<longrightarrow> obj s' (g k) = obj s0 k"
      using right_writes_keep [OF 2(2) assms(1)] 1(3) True by blast
    then show ?thesis using 1(1) 2 True right_writes_trans [OF 1(2) 2(2)] by simp
  qed (use 1 in simp)
qed simp

text \<open>A listing of a prefix of fewer than 1000 objects is complete.\<close>

lemma listing_complete:
  assumes "cos_BucketGet S s p = Inr (ks, ps)" "finite E" "card E < 1000" "E = {k. obj s k \<noteq> None \<and> has_prefix k p}"
  shows "Inl ` set ks \<union> Inr ` set ps = shown_entry p ` E"
proof -
  have d: "distinct ks" "distinct ps" and sub: "Inl ` set ks \<union> Inr ` set ps \<subseteq> shown_entry p ` E"
    using list_sound [OF assms(1)] assms(4) by auto
  have "length ks + length ps = card (Inl ` set ks :: (string + string) set) + card (Inr ` set ps :: (string + string) set)"
    using d by (simp add: card_image distinct_card)
  also have "\<dots> = card (Inl ` set ks \<union> Inr ` set ps)" by (rule card_Un_disjoint [symmetric]) auto
  also have "\<dots> \<le> card (shown_entry p ` E)" by (rule card_mono) (use sub assms(2) in auto)
  also have "\<dots> \<le> card E" by (rule card_image_le [OF assms(2)])
  finally show ?thesis using list_all_below_1000 [OF assms(1)] assms(3,4) by simp
qed

text \<open>The call for a common prefix: it is longer, its targets are those of the outer call, and the keys below it are nearer.\<close>

lemma sub_entry:
  assumes "k \<in> K" "has_prefix k p" "shown_entry p k = Inr q" "\<forall>k\<in>K. has_prefix k p \<longrightarrow> length k \<le> length p + n"
  shows "\<exists>w. q = p @ w @ ''/'' \<and> length w < n"
proof -
  obtain w rest where w: "q = p @ w @ ''/''" "k = p @ w @ ''/'' @ rest"
    using shown_entry_cases [OF assms(2)] assms(3) by (metis Inl_Inr_False Inr_inject)
  have "length k \<le> length p + n" using assms(1,2,4) by blast
  with w show ?thesis by auto
qed

lemma sub_target:
  assumes "q = p @ w @ ''/''"
  shows "trim_prefix q p = w @ ''/''"
    and "d \<noteq> [] \<Longrightarrow> \<forall>k\<in>K. has_prefix k p \<longrightarrow> Join d (drop (length p) k) = g k \<Longrightarrow>
      \<forall>k\<in>K. has_prefix k q \<longrightarrow> Join (Join d (w @ ''/'')) (drop (length q) k) = g k"
    and "length w < n \<Longrightarrow> \<forall>k\<in>K. has_prefix k p \<longrightarrow> length k \<le> length p + n \<Longrightarrow>
      \<forall>k\<in>K. has_prefix k q \<longrightarrow> length k \<le> length q + (n - length w - 1)"
proof -
  have qp: "has_prefix x q \<Longrightarrow> has_prefix x p" for x using assms by (auto simp: has_prefix_conv)
  show "trim_prefix q p = w @ ''/''" using assms by (simp add: trim_prefix_def)
  show "\<forall>k\<in>K. has_prefix k q \<longrightarrow> Join (Join d (w @ ''/'')) (drop (length q) k) = g k"
    if d: "d \<noteq> []" and g: "\<forall>k\<in>K. has_prefix k p \<longrightarrow> Join d (drop (length p) k) = g k"
  proof (intro ballI impI)
    fix x assume x: "x \<in> K" "has_prefix x q"
    then obtain y where y: "x = q @ y" by (auto simp: has_prefix_conv)
    have "Join d (drop (length p) x) = g x" using g x(1) qp [OF x(2)] by blast
    then show "Join (Join d (w @ ''/'')) (drop (length q) x) = g x" using Join_nested [OF d, of w y] y assms by simp
  qed
  show "\<forall>k\<in>K. has_prefix k q \<longrightarrow> length k \<le> length q + (n - length w - 1)"
    if "length w < n" "\<forall>k\<in>K. has_prefix k p \<longrightarrow> length k \<le> length p + n"
    using that qp assms by fastforce
qed

lemma tc_copyDirectory_right:
  assumes e: "endpoint = tc_domain tc" and inj: "inj_on g K" and out: "\<And>k. k \<in> K \<Longrightarrow> \<not> has_prefix (g k) p0"
    and K: "K = {k. obj s0 k \<noteq> None \<and> has_prefix k p0}" "finite K" "card K < 1000"
    and "has_prefix p p0" "d \<noteq> []" "\<forall>k\<in>K. has_prefix k p \<longrightarrow> Join d (drop (length p) k) = g k"
    and "\<forall>k\<in>K. has_prefix k p \<longrightarrow> length k \<le> length p + n" "\<forall>k. has_prefix k p0 \<longrightarrow> obj s k = obj s0 k"
  shows "\<exists>r s'. tc_copyDirectory S tc p d s = Some (r, s') \<and> right_writes obj K g s0 s s' \<and>
    (is_ok r \<longrightarrow> (\<forall>k\<in>K. has_prefix k p \<longrightarrow> obj s' (g k) = obj s0 k))"
  using assms(7-)
proof (induction n arbitrary: p d s rule: less_induct)
  case (less n)
  show ?case
  proof (cases "cos_BucketGet S s p")
    case (Inl x)
    then show ?thesis by (subst tc_copyDirectory.simps) simp
  next
    case (Inr l)
    then obtain ks ps where l: "cos_BucketGet S s p = Inr (ks, ps)" by (cases l) auto
    let ?E = "{k \<in> K. has_prefix k p}"
    have pp: "has_prefix k p \<Longrightarrow> has_prefix k p0" for k using less.prems(1) by (auto simp: has_prefix_conv)
    have E: "?E = {k. obj s k \<noteq> None \<and> has_prefix k p}" using less.prems(5) pp unfolding K(1) by auto
    have "card ?E \<le> card K" by (rule card_mono [OF K(2)]) auto
    then have lst: "Inl ` set ks \<union> Inr ` set ps = shown_entry p ` ?E"
      using listing_complete [OF l _ _ E] K(2,3) by simp
    have Ks: "K \<subseteq> {k. has_prefix k p0}" using K(1) by auto
    have ks: "set ks \<subseteq> ?E"
    proof
      fix k assume "k \<in> set ks"
      then have "Inl k \<in> shown_entry p ` ?E" unfolding lst [symmetric] by simp
      then show "k \<in> ?E" using shown_entry_Inl by (metis (no_types, lifting) imageE)
    qed
    obtain r1 s1 where c: "copy_objects S tc p d ks s = (r1, s1)" by (cases "copy_objects S tc p d ks s")
    have "set ks \<subseteq> K" "\<forall>k\<in>set ks. Join d (trim_prefix k p) = g k"
      using ks less.prems(3) by (auto simp: trim_prefix_def)
    then have 1: "right_writes obj K g s0 s s1" "is_ok r1 \<longrightarrow> (\<forall>k\<in>set ks. obj s1 (g k) = obj s0 k)"
      using copy_objects_right [OF e inj out Ks c _ _ less.prems(5)] by auto
    show ?thesis
    proof (cases "is_ok r1")
      case False
      then show ?thesis using l c 1 by (subst tc_copyDirectory.simps) (auto split: sum.splits)
    next
      case True
      have src: "\<forall>k. has_prefix k p0 \<longrightarrow> obj s1 k = obj s0 k" using right_writes_source [OF 1(1) out] less.prems(5) by auto
      have rec: "\<exists>r s'. tc_copyDirectory S tc q (Join d (trim_prefix q p)) t = Some (r, s') \<and> right_writes obj K g s0 t s' \<and>
          (is_ok r \<longrightarrow> (\<forall>k\<in>K. has_prefix k q \<longrightarrow> obj s' (g k) = obj s0 k))"
        if "q \<in> set ps" "\<forall>k. has_prefix k p0 \<longrightarrow> obj t k = obj s0 k" for q t
      proof -
        have "Inr q \<in> shown_entry p ` ?E" unfolding lst [symmetric] using that(1) by simp
        then obtain k where k: "k \<in> K" "has_prefix k p" "shown_entry p k = Inr q" by auto
        obtain w where w: "q = p @ w @ ''/''" "length w < n" using sub_entry [OF k less.prems(4)] by blast
        show ?thesis unfolding sub_target(1) [OF w(1)]
          by (rule less.IH [OF _ _ _ sub_target(2) [OF w(1) less.prems(2,3)] sub_target(3) [OF w less.prems(4)] that(2)])
            (use w less.prems(1,2) in \<open>auto simp: has_prefix_conv\<close>)
      qed
      obtain r s' where 2: "copy_prefixes (\<lambda>p d t. tc_copyDirectory S tc p d t) p d ps s1 = Some (r, s')" "right_writes obj K g s0 s1 s'"
        "is_ok r \<longrightarrow> (\<forall>q\<in>set ps. \<forall>k\<in>K. has_prefix k q \<longrightarrow> obj s' (g k) = obj s0 k)"
        using copy_prefixes_right [where rec = "\<lambda>p d t. tc_copyDirectory S tc p d t", OF inj out rec src] by blast
      have "obj s' (g k) = obj s0 k" if k: "k \<in> K" "has_prefix k p" "is_ok r" for k
      proof -
        have en: "shown_entry p k \<in> Inl ` set ks \<union> Inr ` set ps" unfolding lst using k(1,2) by blast
        show ?thesis
        proof (rule shown_entry_cases [OF k(2)])
          assume "shown_entry p k = Inl k"
          with en have "k \<in> set ks" by auto
          then show ?thesis using right_writes_keep [OF 2(2) inj k(1)] 1(2) True by blast
        next
          fix w rest assume "shown_entry p k = Inr (p @ w @ ''/'')" "k = p @ w @ ''/'' @ rest"
          with en have "p @ w @ ''/'' \<in> set ps" "has_prefix k (p @ w @ ''/'')" by (auto simp: has_prefix_conv)
          then show ?thesis using 2(3) k(1,3) by blast
        qed
      qed
      moreover have "tc_copyDirectory S tc p d s = Some (r, s')"
        using l c True 2(1) by (subst tc_copyDirectory.simps) (auto simp: is_ok_iff)
      ultimately show ?thesis using right_writes_trans [OF 1(1) 2(2)] by blast
    qed
  qed
qed

end

section \<open>The property\<close>

text \<open> \<open>CopyDir\<close> of the Tencent client on a path that is not an object, when fewer than 1000 objects have a key
  beginning with it, the copies have keys of their own and none of these begins with the source: the recursion
  over common prefixes ends; no other key changes; and when success is reported, every object whose key begins
  with the source \<^emph>\<open>as a string\<close> has been copied, to the destination joined with the rest of the key. For a
  source that ends with a slash these are the objects of the directory. Without the slash the objects of its
  neighbours are among them: copying \<open>a\<close> to \<open>c\<close> also copies \<open>ab/y\<close>, to \<open>c/b/y\<close>.
\<close>

theorem tc_CopyDir_copies:
  assumes "object_store S obj up (tc_domain tc)" "src \<noteq> []" "dest \<noteq> []" "obj s src = None"
    and "finite {k. obj s k \<noteq> None \<and> has_prefix k src}" "card {k. obj s k \<noteq> None \<and> has_prefix k src} < 1000"
    and "inj_on (\<lambda>k. Join dest (drop (length src) k)) {k. obj s k \<noteq> None \<and> has_prefix k src}"
    and "\<And>k. obj s k \<noteq> None \<Longrightarrow> has_prefix k src \<Longrightarrow> \<not> has_prefix (Join dest (drop (length src) k)) src"
  shows "\<exists>r s'. tc_CopyDir S tc src dest s = Some (r, s') \<and>
    (\<forall>x. (\<forall>k. obj s k \<noteq> None \<and> has_prefix k src \<longrightarrow> x \<noteq> Join dest (drop (length src) k)) \<longrightarrow> obj s' x = obj s x) \<and>
    (is_ok r \<longrightarrow> (\<forall>k. obj s k \<noteq> None \<and> has_prefix k src \<longrightarrow> obj s' (Join dest (drop (length src) k)) = obj s k))"
proof -
  let ?K = "{k. obj s k \<noteq> None \<and> has_prefix k src}" and ?g = "\<lambda>k. Join dest (drop (length src) k)"
  have "\<forall>k\<in>?K. has_prefix k src \<longrightarrow> length k \<le> length src + Max (length ` ?K)"
    using assms(5) by (auto intro!: trans_le_add2)
  then have "\<exists>r s'. tc_copyDirectory S tc src dest s = Some (r, s') \<and> right_writes obj ?K ?g s s s' \<and>
      (is_ok r \<longrightarrow> (\<forall>k\<in>?K. has_prefix k src \<longrightarrow> obj s' (?g k) = obj s k))"
    by (intro object_store.tc_copyDirectory_right [OF assms(1) refl assms(7) _ refl assms(5,6), where n = "Max (length ` ?K)"])
      (use assms(3,8) in \<open>auto simp: has_prefix_def\<close>)
  then obtain r s' where run: "tc_copyDirectory S tc src dest s = Some (r, s')" "right_writes obj ?K ?g s s s'"
    "is_ok r \<longrightarrow> (\<forall>k\<in>?K. has_prefix k src \<longrightarrow> obj s' (?g k) = obj s k)" by blast
  show ?thesis
  proof (cases "cos_Head S s src")
    case (Inl e)
    show ?thesis
    proof (cases "e = cos_NoSuchKey")
      case True
      with Inl run(1) assms(2,3) have "tc_CopyDir S tc src dest s = Some (r, s')" by (simp add: tc_CopyDir_def tc_isDirectory_def)
      then show ?thesis using run(2,3) unfolding right_writes_def by blast
    qed (use Inl assms(2,3) in \<open>simp add: tc_CopyDir_def tc_isDirectory_def\<close>)
  next
    case (Inr v)
    then show ?thesis using object_store.head_ok [OF assms(1)] assms(4) by blast
  qed
qed

definition ex_bucket :: mem_bucket where
  "ex_bucket = \<lparr>ms_objects = [(''a/x'', ''1''), (''ab/y'', ''2'')], ms_uploads = [], ms_next = 0\<rparr>"

definition ex_client :: TencentCos where
  "ex_client = \<lparr>tc_opt = \<lparr>so_Purpose = ''doc'', so_PresignedTimeout = 60\<rparr>,
     tc_cosCfg = \<lparr>tx_SecretID = [], tx_SecretKey = [], tx_Region = ''r'', tx_Endpoint = [], tx_Bucket = ''b''\<rparr>\<rparr>"

lemma ex_bucket_keys: "{k. ms_obj ex_bucket k \<noteq> None \<and> has_prefix k ''a''} = {''a/x'', ''ab/y''}"
  by (auto simp: ex_bucket_def ms_obj_def has_prefix_def split: if_splits)

lemma ex_copy_ok: "\<exists>u. map_option fst (tc_CopyDir mem_cos ex_client ''a'' ''c'' ex_bucket) = Some (Inr u)"
proof -
  have "map_option fst (tc_CopyDir mem_cos ex_client ''a'' ''c'' ex_bucket) = Some (Inr ())" by code_simp
  then show ?thesis by blast
qed

lemma ex_targets: "Join ''c'' ''/x'' = ''c/x''" "Join ''c'' ''b/y'' = ''c/b/y''" "tc_domain ex_client = mem_endpoint"
  by code_simp+

theorem tc_CopyDir_copies_witness:
  "\<exists>s'. tc_CopyDir mem_cos ex_client ''a'' ''c'' ex_bucket = Some (Inr (), s') \<and>
     ms_obj s' ''c/x'' = Some ''1'' \<and> ms_obj s' ''c/b/y'' = Some ''2''"
proof -
  have os: "object_store mem_cos ms_obj ms_ups (tc_domain ex_client)"
    unfolding ex_targets(3) by (rule mem_objects.object_store_axioms)
  have keys: "ms_obj ex_bucket k \<noteq> None \<Longrightarrow> has_prefix k ''a'' \<Longrightarrow> k = ''a/x'' \<or> k = ''ab/y''" for k
    using ex_bucket_keys by blast
  have at: "ms_obj ex_bucket ''a/x'' = Some ''1''" "ms_obj ex_bucket ''ab/y'' = Some ''2''" "ms_obj ex_bucket ''a'' = None"
    "has_prefix ''a/x'' ''a''" "has_prefix ''ab/y'' ''a''" by code_simp+
  have none: "\<not> has_prefix (Join ''c'' (drop (length ''a'') k)) ''a''" if "ms_obj ex_bucket k \<noteq> None" "has_prefix k ''a''" for k
    using keys [OF that] ex_targets by (auto simp: has_prefix_def)
  have "inj_on (\<lambda>k. Join ''c'' (drop (length ''a'') k)) {''a/x'', ''ab/y''}" by (simp add: ex_targets)
  from tc_CopyDir_copies [where src = "''a''" and dest = "''c''", OF os _ _ at(3) _ _ _ none] this
  obtain r s' where run: "tc_CopyDir mem_cos ex_client ''a'' ''c'' ex_bucket = Some (r, s')"
    "is_ok r \<longrightarrow> (\<forall>k. ms_obj ex_bucket k \<noteq> None \<and> has_prefix k ''a'' \<longrightarrow>
       ms_obj s' (Join ''c'' (drop (length ''a'') k)) = ms_obj ex_bucket k)"
    unfolding ex_bucket_keys by auto
  have "r = Inr ()" using ex_copy_ok run(1) by auto
  moreover have "ms_obj s' (Join ''c'' (drop (length ''a'') ''a/x'')) = Some ''1''"
    "ms_obj s' (Join ''c'' (drop (length ''a'') ''ab/y'')) = Some ''2''" using run(2) calculation at by (metis is_ok_simps(2) option.simps(3))+
  ultimately show ?thesis using run(1) ex_targets by simp
qed


end
