(* ===== verification/Storage_Factory.thy ===== *)
theory Storage_Factory
  imports Storage_Model
begin

text \<open>
  How a storage is found for a purpose, in both versions of the package (\<open>storage/storage.go\<close>, \<open>storage/v2/storager.go\<close>,
  \<open>storage/v2/biz.go\<close>). The storages themselves are values of any type; the constructors of the first version are a
  record, the second version looks its constructors up in a registry filled by the driver packages. The configuration of
  a key of the core settings is \<open>yaml\<close>. The process-wide table of storages is the state.
\<close>

section \<open>First version\<close>

definition SettingPrefix :: string where
  "SettingPrefix = ''cos-''"

record 'st constructors =
  mk_Local :: "LocalStorageConfig \<Rightarrow> 'st res"
  mk_Tencent :: "TencentCOSConfig \<Rightarrow> StorageOption \<Rightarrow> 'st res"
  mk_Min :: "MinossConfig \<Rightarrow> StorageOption \<Rightarrow> 'st res"
  mk_S3 :: "S3StorageConfig \<Rightarrow> StorageOption \<Rightarrow> 'st res"

definition NewStorageWithCfg :: "'st constructors \<Rightarrow> StorageConfig \<Rightarrow> 'st res" where
  "NewStorageWithCfg D cfg = (case sc_Local cfg of Some c \<Rightarrow> mk_Local D c
     | None \<Rightarrow> (case sc_Tencent cfg of Some c \<Rightarrow> mk_Tencent D c (sc_Option cfg)
     | None \<Rightarrow> (case sc_Minoss cfg of Some c \<Rightarrow> mk_Min D c (sc_Option cfg)
     | None \<Rightarrow> (case sc_S3 cfg of Some c \<Rightarrow> mk_S3 D c (sc_Option cfg)
     | None \<Rightarrow> Inl (Err ''not found useful remote storage config'')))))"

definition NewStorage :: "'st constructors \<Rightarrow> (string \<Rightarrow> StorageConfig res) \<Rightarrow> string \<Rightarrow> 'st res" where
  "NewStorage D yaml purpose = (case yaml (SettingPrefix @ purpose) of
     Inl e \<Rightarrow> Inl e
   | Inr cfg \<Rightarrow> (case sc_Local cfg of Some c \<Rightarrow> mk_Local D c
     | None \<Rightarrow> (case sc_Tencent cfg of Some c \<Rightarrow> mk_Tencent D c (sc_Option cfg)
     | None \<Rightarrow> (case sc_Minoss cfg of Some c \<Rightarrow> mk_Min D c (sc_Option cfg)
     | None \<Rightarrow> (case sc_S3 cfg of Some c \<Rightarrow> mk_S3 D c (sc_Option cfg)
     | None \<Rightarrow> Inl (Err ''not found useful remote storage config''))))))"

definition LoadStorager :: "'st constructors \<Rightarrow> (string \<Rightarrow> StorageConfig res) \<Rightarrow> string \<Rightarrow> (string \<rightharpoonup> 'st) \<Rightarrow> 'st res \<times> (string \<rightharpoonup> 'st)" where
  "LoadStorager D yaml purpose m = (case m purpose of
     Some s \<Rightarrow> (Inr s, m)
   | None \<Rightarrow> (case NewStorage D yaml purpose of Inl e \<Rightarrow> (Inl e, m) | Inr s \<Rightarrow> (Inr s, m(purpose \<mapsto> s))))"

text \<open>\<open>save\<close> is the method \<open>Save\<close> of a storage, on a state of its own.\<close>

definition UploadFile :: "'st constructors \<Rightarrow> (string \<Rightarrow> StorageConfig res) \<Rightarrow> ('st \<Rightarrow> FileInfo \<Rightarrow> reader \<Rightarrow> 'w \<Rightarrow> FileInfo res \<times> 'w) \<Rightarrow>
    FileInfo \<Rightarrow> reader \<Rightarrow> (string \<rightharpoonup> 'st) \<Rightarrow> 'w \<Rightarrow> FileInfo res \<times> (string \<rightharpoonup> 'st) \<times> 'w" where
  "UploadFile D yaml save fi r m w = (case LoadStorager D yaml (fi_Purpose fi) m of
     (Inl e, m') \<Rightarrow> (Inl e, m', w)
   | (Inr s, m') \<Rightarrow> (case save s fi r w of (x, w') \<Rightarrow> (x, m', w')))"

section \<open>Second version\<close>

type_synonym 'st registry = "string \<rightharpoonup> (StorageConfig \<Rightarrow> 'st res)"

definition v2_Register :: "string \<Rightarrow> (StorageConfig \<Rightarrow> 'st res) \<Rightarrow> 'st registry \<Rightarrow> 'st registry" where
  "v2_Register name fn reg = reg(name \<mapsto> fn)"

definition storage_kind :: "StorageConfig \<Rightarrow> string option" where
  "storage_kind cfg = (if sc_Local cfg \<noteq> None then Some ''local''
     else if sc_Tencent cfg \<noteq> None then Some ''tencos''
     else if sc_Minoss cfg \<noteq> None then Some ''minio''
     else if sc_S3 cfg \<noteq> None then Some ''s3''
     else None)"

text \<open>The list of registered names in the message is left out.\<close>

definition v2_NewStorageWithCfg :: "'st registry \<Rightarrow> StorageConfig \<Rightarrow> 'st res" where
  "v2_NewStorageWithCfg reg cfg = (case storage_kind cfg of
     None \<Rightarrow> Inl (Err ''no storage config matched'')
   | Some kind \<Rightarrow> (case reg kind of
       None \<Rightarrow> Inl (Err (''storage driver '' @ kind @ '' not registered''))
     | Some factory \<Rightarrow> factory cfg))"

definition v2_NewStorage :: "'st registry \<Rightarrow> (string \<Rightarrow> StorageConfig res) \<Rightarrow> string \<Rightarrow> 'st res" where
  "v2_NewStorage reg yaml purpose = (case yaml (SettingPrefix @ purpose) of
     Inl e \<Rightarrow> Inl e
   | Inr cfg \<Rightarrow> v2_NewStorageWithCfg reg cfg)"

definition v2_LoadStorager :: "'st registry \<Rightarrow> (string \<Rightarrow> StorageConfig res) \<Rightarrow> string \<Rightarrow> (string \<rightharpoonup> 'st) \<Rightarrow> 'st res \<times> (string \<rightharpoonup> 'st)" where
  "v2_LoadStorager reg yaml purpose m = (case m purpose of
     Some s \<Rightarrow> (Inr s, m)
   | None \<Rightarrow> (case v2_NewStorage reg yaml purpose of Inl e \<Rightarrow> (Inl e, m) | Inr s \<Rightarrow> (Inr s, m(purpose \<mapsto> s))))"

text \<open>What the four driver packages register.\<close>

definition local_driver :: "'st constructors \<Rightarrow> StorageConfig \<Rightarrow> 'st res" where
  "local_driver D cfg = (case sc_Local cfg of None \<Rightarrow> Inl (Err ''local config is nil'') | Some c \<Rightarrow> mk_Local D c)"

definition tencos_driver :: "'st constructors \<Rightarrow> StorageConfig \<Rightarrow> 'st res" where
  "tencos_driver D cfg = (case sc_Tencent cfg of None \<Rightarrow> Inl (Err ''tencent cos config is nil'') | Some c \<Rightarrow> mk_Tencent D c (sc_Option cfg))"

definition minio_driver :: "'st constructors \<Rightarrow> StorageConfig \<Rightarrow> 'st res" where
  "minio_driver D cfg = (case sc_Minoss cfg of None \<Rightarrow> Inl (Err ''minio config is nil'') | Some c \<Rightarrow> mk_Min D c (sc_Option cfg))"

definition s3_driver :: "'st constructors \<Rightarrow> StorageConfig \<Rightarrow> 'st res" where
  "s3_driver D cfg = (case sc_S3 cfg of None \<Rightarrow> Inl (Err ''s3 config is nil'') | Some c \<Rightarrow> mk_S3 D c (sc_Option cfg))"

section \<open>Properties\<close>

text \<open>The registry after the \<open>init\<close> functions of all four driver packages.\<close>

definition all_drivers :: "'st constructors \<Rightarrow> 'st registry" where
  "all_drivers D = v2_Register ''s3'' (s3_driver D) (v2_Register ''minio'' (minio_driver D)
     (v2_Register ''tencos'' (tencos_driver D) (v2_Register ''local'' (local_driver D) Map.empty)))"

lemmas driver_defs = all_drivers_def s3_driver_def minio_driver_def tencos_driver_def local_driver_def

lemma v2_same_storage: "v2_NewStorageWithCfg (all_drivers D) cfg = Inr s \<longleftrightarrow> NewStorageWithCfg D cfg = Inr s"
  by (auto simp: v2_NewStorageWithCfg_def storage_kind_def driver_defs v2_Register_def NewStorageWithCfg_def split: option.splits)

lemma NewStorage_cfg: "NewStorage D yaml purpose = (case yaml (SettingPrefix @ purpose) of Inl e \<Rightarrow> Inl e | Inr cfg \<Rightarrow> NewStorageWithCfg D cfg)"
  by (simp add: NewStorage_def NewStorageWithCfg_def split: sum.splits)

text \<open>
  Once a purpose has been loaded its storage stays: whatever the settings say later, every later request for the
  purpose gets the storage of the first successful one, and requests for other purposes do not disturb it.
\<close>

lemma LoadStorager_sticky:
  assumes "LoadStorager D yaml purpose m = (Inr s, m1)"
  shows "LoadStorager D' yaml' purpose m1 = (Inr s, m1)" "m1 purpose = Some s"
    "LoadStorager D' yaml' purpose' m1 = (x, m2) \<Longrightarrow> m2 purpose = Some s"
proof -
  show m1: "m1 purpose = Some s" using assms by (auto simp: LoadStorager_def split: option.splits sum.splits)
  then show "LoadStorager D' yaml' purpose m1 = (Inr s, m1)" by (simp add: LoadStorager_def)
  show "LoadStorager D' yaml' purpose' m1 = (x, m2) \<Longrightarrow> m2 purpose = Some s"
    using m1 by (auto simp: LoadStorager_def split: option.splits sum.splits)
qed

text \<open>Both versions load the same storages.\<close>

lemma v2_loads_same:
  "fst (v2_LoadStorager (all_drivers D) yaml purpose m) = Inr s \<longleftrightarrow> fst (LoadStorager D yaml purpose m) = Inr s"
  "snd (v2_LoadStorager (all_drivers D) yaml purpose m) = snd (LoadStorager D yaml purpose m)"
proof -
  have "v2_NewStorage (all_drivers D) yaml purpose = Inr t \<longleftrightarrow> NewStorage D yaml purpose = Inr t" for t
    unfolding v2_NewStorage_def NewStorage_cfg by (cases "yaml (SettingPrefix @ purpose)") (simp_all add: v2_same_storage)
  then consider (ok) t where "v2_NewStorage (all_drivers D) yaml purpose = Inr t" "NewStorage D yaml purpose = Inr t"
    | (err) e e' where "v2_NewStorage (all_drivers D) yaml purpose = Inl e" "NewStorage D yaml purpose = Inl e'"
    by (metis sum.exhaust)
  then show "fst (v2_LoadStorager (all_drivers D) yaml purpose m) = Inr s \<longleftrightarrow> fst (LoadStorager D yaml purpose m) = Inr s"
    "snd (v2_LoadStorager (all_drivers D) yaml purpose m) = snd (LoadStorager D yaml purpose m)"
    by (cases; simp add: v2_LoadStorager_def LoadStorager_def split: option.splits)+
qed

end
