(* ===== verification/Jobs.thy ===== *)
theory Jobs
  imports Sql_Table Storage_Model Go_Json
begin

text \<open>
  Background jobs and their rows: the jobs of the cron registry (\<open>job/job.go\<close>, \<open>job/cronjob.go\<close>), asynchronous jobs
  (\<open>job/async_job.go\<close>, \<open>job/asyncjob\<close>) and export jobs (\<open>job/export_job.go\<close>, \<open>apis/exportjob\<close>) with the
  monitor that fails those that take too long. \<open>Seconds()\<close> is compared exactly: the durations are far below the
  sizes at which a \<open>float64\<close> cannot separate nanoseconds from whole seconds.
\<close>

section \<open>Rows\<close>

type_synonym JobStatus = string

definition JobStatusPending :: JobStatus where "JobStatusPending = ''pending''"
definition JobStatusSuccess :: JobStatus where "JobStatusSuccess = ''success''"
definition JobStatusFailed :: JobStatus where "JobStatusFailed = ''failed''"

lemmas job_status_defs = JobStatusPending_def JobStatusSuccess_def JobStatusFailed_def

record gorm_Model =
  m_ID :: nat
  m_CreatedAt :: gotime
  m_UpdatedAt :: gotime
  m_DeletedAt :: "gotime option"

record Job = gorm_Model +
  jb_JobUUID :: string
  jb_CompanyID :: nat
  jb_Uin :: nat
  jb_Purpose :: string
  jb_JobStatus :: JobStatus
  jb_CostSeconds :: int
  jb_Output :: string
  jb_ErrorMsg :: string
  jb_Extra :: string

record AsyncJob = gorm_Model +
  aj_JobUUID :: string
  aj_Uin :: nat
  aj_Purpose :: string
  aj_BusinessID :: nat
  aj_JobStatus :: JobStatus
  aj_ErrorMsg :: string
  aj_CostSeconds :: int
  aj_Input :: string
  aj_Output :: string
  aj_Extra :: string

record ExportJob = gorm_Model +
  ej_JobUUID :: string
  ej_CompanyID :: nat
  ej_Uin :: nat
  ej_Purpose :: string
  ej_ExportStatus :: JobStatus
  ej_CostSeconds :: int
  ej_TimeoutSeconds :: int
  ej_Output :: string
  ej_ErrorMsg :: string

section \<open>Statements\<close>

text \<open>\<open>Last\<close>: the live row with the greatest key, or \<open>ErrRecordNotFound\<close>.\<close>

definition last_row :: "('d, 'a gorm_Model_scheme) table_ops \<Rightarrow> ('a gorm_Model_scheme \<Rightarrow> bool) \<Rightarrow> 'd \<Rightarrow> 'a gorm_Model_scheme res" where
  "last_row T P d = (case tb_find T d (\<lambda>_ r. P r \<and> m_DeletedAt r = None) (\<lambda>a b. m_ID b \<le> m_ID a) of
     Inl e \<Rightarrow> Inl e
   | Inr [] \<Rightarrow> Inl gorm_ErrRecordNotFound
   | Inr (r # _) \<Rightarrow> Inr r)"

definition create_row :: "('d, 'r) table_ops \<Rightarrow> 'r \<Rightarrow> 'd \<Rightarrow> ('r \<times> 'd) res" where
  "create_row T r d = (case tb_insert T d [r] of Inl e \<Rightarrow> Inl e | Inr (rs, d') \<Rightarrow> Inr (first_or r rs, d'))"

text \<open>\<open>Save\<close> writes every column of the row as it is in memory, with a new update time.\<close>

definition save_row_at :: "('d, 'a gorm_Model_scheme) table_ops \<Rightarrow> gotime \<Rightarrow> 'a gorm_Model_scheme \<Rightarrow> 'd \<Rightarrow> ('a gorm_Model_scheme \<times> 'd) res" where
  "save_row_at T now r d = (let r' = r\<lparr>m_UpdatedAt := now\<rparr> in
     case tb_save T d r' of Inl e \<Rightarrow> Inl e | Inr d' \<Rightarrow> Inr (r', d'))"

definition seconds_since :: "gotime \<Rightarrow> gotime \<Rightarrow> int" where
  "seconds_since now t = whole_seconds (time_Sub now t)"

definition longer_than :: "gotime \<Rightarrow> gotime \<Rightarrow> int \<Rightarrow> bool" where
  "longer_than now t secs \<longleftrightarrow> secs * time_Second < time_Sub now t"

section \<open>Export jobs\<close>

definition CreateExportJob :: "('d, ExportJob) table_ops \<Rightarrow> gotime \<Rightarrow> string \<Rightarrow> nat \<Rightarrow> nat \<Rightarrow> string \<Rightarrow> int \<Rightarrow> 'd \<Rightarrow> (ExportJob \<times> 'd) res" where
  "CreateExportJob T now uuid compid uin purpose timeoutSeconds d = create_row T
     \<lparr>m_ID = 0, m_CreatedAt = now, m_UpdatedAt = now, m_DeletedAt = None, ej_JobUUID = uuid, ej_CompanyID = compid, ej_Uin = uin,
       ej_Purpose = purpose, ej_ExportStatus = JobStatusPending, ej_CostSeconds = 0, ej_TimeoutSeconds = timeoutSeconds,
       ej_Output = [], ej_ErrorMsg = []\<rparr> d"

definition ej_GetJobByUUID :: "('d, ExportJob) table_ops \<Rightarrow> string \<Rightarrow> 'd \<Rightarrow> ExportJob res" where
  "ej_GetJobByUUID T uuid d = last_row T (\<lambda>r. ej_JobUUID r = uuid) d"

definition ej_timed_out :: "gotime \<Rightarrow> ExportJob \<Rightarrow> bool" where
  "ej_timed_out now j \<longleftrightarrow> 0 < ej_TimeoutSeconds j \<and> longer_than now (m_CreatedAt j) (ej_TimeoutSeconds j)"

text \<open>The row that \<open>UpdateJobStatus\<close> saves.\<close>

definition ej_updated :: "gotime \<Rightarrow> string \<Rightarrow> gerror option \<Rightarrow> ExportJob \<Rightarrow> ExportJob" where
  "ej_updated now output e j0 =
     (let j1 = (if ej_timed_out now j0 then j0\<lparr>ej_ExportStatus := JobStatusFailed, ej_ErrorMsg := ''timeout''\<rparr> else j0);
          j2 = (case e of
             Some x \<Rightarrow> j1\<lparr>ej_ExportStatus := JobStatusFailed,
                ej_ErrorMsg := (if ej_ErrorMsg j1 = [] then err_text x else ej_ErrorMsg j1 @ ''; '' @ err_text x)\<rparr>
           | None \<Rightarrow> (if ej_ExportStatus j1 = JobStatusPending then j1\<lparr>ej_ExportStatus := JobStatusSuccess\<rparr> else j1));
          j3 = (if output \<noteq> [] then j2\<lparr>ej_Output := output\<rparr> else j2)
      in j3\<lparr>ej_CostSeconds := seconds_since now (m_CreatedAt j3)\<rparr>)"

definition ej_UpdateJobStatus :: "('d, ExportJob) table_ops \<Rightarrow> gotime \<Rightarrow> string \<Rightarrow> string \<Rightarrow> gerror option \<Rightarrow> 'd \<Rightarrow> (ExportJob \<times> 'd) res" where
  "ej_UpdateJobStatus T now uuid output e d = (case ej_GetJobByUUID T uuid d of
     Inl x \<Rightarrow> Inl x
   | Inr ejob \<Rightarrow> save_row_at T now (ej_updated now output e ejob) d)"

definition checkTimeoutJob :: "('d, ExportJob) table_ops \<Rightarrow> gotime \<Rightarrow> ExportJob \<Rightarrow> 'd \<Rightarrow> (bool \<times> gerror option) \<times> 'd" where
  "checkTimeoutJob T now j d = (if ej_timed_out now j then
       (case save_row_at T now (j\<lparr>ej_ExportStatus := JobStatusFailed, ej_ErrorMsg := ''timeout''\<rparr>) d of
          Inl e \<Rightarrow> ((True, Some e), d)
        | Inr (_, d') \<Rightarrow> ((True, None), d'))
     else ((False, None), d))"

text \<open>
  The sweep reads all candidates first and then checks them one by one, with the clock of that moment; before
  each check others may have acted (\<open>steps\<close>: clock and action).
\<close>

fun repair_loop :: "('d, ExportJob) table_ops \<Rightarrow> (gotime \<times> ('d \<Rightarrow> 'd)) list \<Rightarrow> ExportJob list \<Rightarrow> 'd \<Rightarrow> 'd" where
  "repair_loop T steps [] d = d"
| "repair_loop T [] (j # js) d = d"
| "repair_loop T ((now, env) # steps) (j # js) d = (case checkTimeoutJob T now j (env d) of
     ((_, Some e), d') \<Rightarrow> d'
   | ((_, None), d') \<Rightarrow> repair_loop T steps js d')"

definition repairTimeoutJobs :: "('d, ExportJob) table_ops \<Rightarrow> (gotime \<times> ('d \<Rightarrow> 'd)) list \<Rightarrow> 'd \<Rightarrow> 'd" where
  "repairTimeoutJobs T steps d =
     (case tb_find T d (\<lambda>_ r. (ej_ExportStatus r = JobStatusPending \<and> 0 < ej_TimeoutSeconds r) \<and> m_DeletedAt r = None) any_order of
        Inl e \<Rightarrow> d
      | Inr jobs \<Rightarrow> repair_loop T steps jobs d)"

definition ErrCode_InternalError :: nat where "ErrCode_InternalError = 500"
definition ErrCode_NoPermission :: nat where "ErrCode_NoPermission = 403"

record DetailExportJobResponse =
  dr_Code :: nat
  dr_Message :: string
  dr_JobID :: string
  dr_FileURL :: string
  dr_Status :: string
  dr_ErrMsg :: string

abbreviation empty_detail :: DetailExportJobResponse where
  "empty_detail \<equiv> \<lparr>dr_Code = 0, dr_Message = [], dr_JobID = [], dr_FileURL = [], dr_Status = [], dr_ErrMsg = []\<rparr>"

text \<open>\<open>load\<close> is \<open>storage.LoadStorager\<close>, giving the \<open>GetPresignedURL\<close> of the storager for a purpose; \<open>uin\<close> is the caller.\<close>

definition DetailExportJob :: "('d, ExportJob) table_ops \<Rightarrow> (string \<Rightarrow> (string \<Rightarrow> string \<Rightarrow> string res) res) \<Rightarrow>
    nat \<Rightarrow> string \<Rightarrow> 'd \<Rightarrow> DetailExportJobResponse" where
  "DetailExportJob T load uin jobID d = (case ej_GetJobByUUID T jobID d of
     Inl e \<Rightarrow> empty_detail\<lparr>dr_Message := err_text e, dr_Code := ErrCode_InternalError\<rparr>
   | Inr ejob \<Rightarrow>
       (if ej_Uin ejob \<noteq> uin then empty_detail\<lparr>dr_Message := ''no permission'', dr_Code := ErrCode_NoPermission\<rparr>
        else let resp = empty_detail\<lparr>dr_JobID := ej_JobUUID ejob, dr_Status := ej_ExportStatus ejob, dr_ErrMsg := ej_ErrorMsg ejob\<rparr>
          in if ej_Output ejob = [] \<or> ej_ExportStatus ejob \<noteq> JobStatusSuccess then resp
             else case load (ej_Purpose ejob) of
               Inl e \<Rightarrow> resp\<lparr>dr_Message := err_text e, dr_Code := ErrCode_InternalError\<rparr>
             | Inr presigned \<Rightarrow> (case presigned ''GET'' (ej_Output ejob) of
                 Inl e \<Rightarrow> resp\<lparr>dr_Message := err_text e, dr_Code := ErrCode_InternalError\<rparr>
               | Inr fileURL \<Rightarrow> resp\<lparr>dr_FileURL := fileURL\<rparr>)))"

section \<open>Asynchronous jobs\<close>

record CreateJobRequest =
  cj_Uin :: nat
  cj_Purpose :: string
  cj_BusinessID :: nat
  cj_Input :: string
  cj_Extra :: string

definition cj_Validate :: "CreateJobRequest option \<Rightarrow> CreateJobRequest res" where
  "cj_Validate req = (case req of
     None \<Rightarrow> Inl (Err ''request is nil'')
   | Some q \<Rightarrow> (if cj_Purpose q = [] then Inl (Err ''purpose is empty'') else Inr q))"

record UpdateJobStatusRequest =
  uj_JobUUID :: string
  uj_Error :: "gerror option"
  uj_Output :: string

definition uj_Validate :: "UpdateJobStatusRequest option \<Rightarrow> UpdateJobStatusRequest res" where
  "uj_Validate req = (case req of
     None \<Rightarrow> Inl (Err ''request is nil'')
   | Some q \<Rightarrow> (if uj_JobUUID q = [] then Inl (Err ''job_uuid is empty'') else Inr q))"

definition CreateAsyncJob :: "('d, AsyncJob) table_ops \<Rightarrow> gotime \<Rightarrow> string \<Rightarrow> CreateJobRequest option \<Rightarrow> 'd \<Rightarrow> (AsyncJob \<times> 'd) res" where
  "CreateAsyncJob T now uuid req d = (case cj_Validate req of
     Inl e \<Rightarrow> Inl e
   | Inr q \<Rightarrow> create_row T
       \<lparr>m_ID = 0, m_CreatedAt = now, m_UpdatedAt = now, m_DeletedAt = None, aj_JobUUID = uuid, aj_Uin = cj_Uin q,
         aj_Purpose = cj_Purpose q, aj_BusinessID = cj_BusinessID q, aj_JobStatus = JobStatusPending, aj_ErrorMsg = [],
         aj_CostSeconds = 0, aj_Input = cj_Input q, aj_Output = [], aj_Extra = cj_Extra q\<rparr> d)"

definition aj_GetJobByUUID :: "('d, AsyncJob) table_ops \<Rightarrow> string \<Rightarrow> 'd \<Rightarrow> AsyncJob res" where
  "aj_GetJobByUUID T uuid d = last_row T (\<lambda>r. aj_JobUUID r = uuid) d"

definition BatchGetJobByUUIDs :: "('d, AsyncJob) table_ops \<Rightarrow> string list \<Rightarrow> 'd \<Rightarrow> AsyncJob list res" where
  "BatchGetJobByUUIDs T jobUUIDs d = tb_find T d (\<lambda>_ r. aj_JobUUID r \<in> set jobUUIDs \<and> m_DeletedAt r = None) any_order"

definition BatchGetJobStatusByUUIDs :: "('d, AsyncJob) table_ops \<Rightarrow> string list \<Rightarrow> 'd \<Rightarrow> (string \<rightharpoonup> JobStatus) res" where
  "BatchGetJobStatusByUUIDs T jobUUIDs d =
     (case tb_find T d (\<lambda>_ r. aj_JobUUID r \<in> set jobUUIDs \<and> m_DeletedAt r = None) any_order of
        Inl e \<Rightarrow> Inl e
      | Inr ejobs \<Rightarrow> Inr (fold (\<lambda>ejob m. m(aj_JobUUID ejob \<mapsto> aj_JobStatus ejob)) ejobs Map.empty))"

text \<open>The columns of \<open>updateMap\<close>, computed from the row that was read.\<close>

definition aj_changes :: "gotime \<Rightarrow> UpdateJobStatusRequest \<Rightarrow> AsyncJob \<Rightarrow> AsyncJob \<Rightarrow> AsyncJob" where
  "aj_changes now q ejob r =
     (let r1 = r\<lparr>aj_CostSeconds := seconds_since now (m_CreatedAt ejob)\<rparr>;
          r2 = (case uj_Error q of
             Some e \<Rightarrow> r1\<lparr>aj_JobStatus := JobStatusFailed,
                aj_ErrorMsg := (if aj_ErrorMsg ejob = [] then err_text e else aj_ErrorMsg ejob @ ''; '' @ err_text e)\<rparr>
           | None \<Rightarrow> r1\<lparr>aj_JobStatus := JobStatusSuccess\<rparr>)
      in (if uj_Output q \<noteq> [] then r2\<lparr>aj_Output := uj_Output q\<rparr> else r2))"

definition aj_UpdateJobStatus :: "('d, AsyncJob) table_ops \<Rightarrow> gotime \<Rightarrow> UpdateJobStatusRequest option \<Rightarrow> 'd \<Rightarrow> (AsyncJob \<times> 'd) res" where
  "aj_UpdateJobStatus T now req d = (case uj_Validate req of
     Inl e \<Rightarrow> Inl e
   | Inr q \<Rightarrow> (case aj_GetJobByUUID T (uj_JobUUID q) d of
       Inl e \<Rightarrow> Inl e
     | Inr ejob \<Rightarrow>
         (case tb_update T d (\<lambda>r. m_ID r = m_ID ejob \<and> m_DeletedAt r = None)
             (\<lambda>r. (aj_changes now q ejob r)\<lparr>m_UpdatedAt := now\<rparr>) of
            Inl e \<Rightarrow> Inl e
          | Inr d' \<Rightarrow> Inr (ejob, d'))))"

section \<open>Cron jobs\<close>

text \<open>\<open>ErrorMsg.Add\<close> on the empty array: the JSON array of one string.\<close>

definition first_error :: "string \<Rightarrow> string" where
  "first_error e = ''['' @ json_string e @ '']''"

text \<open>The row of a run when it starts, and what it becomes when the task returns.\<close>

definition new_cron_job :: "string \<Rightarrow> gotime \<Rightarrow> string \<Rightarrow> Job" where
  "new_cron_job purpose start uuid =
     \<lparr>m_ID = 0, m_CreatedAt = start, m_UpdatedAt = start, m_DeletedAt = None, jb_JobUUID = uuid, jb_CompanyID = 0, jb_Uin = 0,
       jb_Purpose = purpose, jb_JobStatus = JobStatusPending, jb_CostSeconds = 0, jb_Output = [], jb_ErrorMsg = [], jb_Extra = ''{}''\<rparr>"

definition finished_cron_job :: "gotime \<Rightarrow> gotime \<Rightarrow> string \<times> gerror option \<Rightarrow> Job \<Rightarrow> Job" where
  "finished_cron_job start finish res job =
     (let job1 = job\<lparr>jb_CostSeconds := seconds_since finish start\<rparr>
      in case snd res of
           Some e \<Rightarrow> job1\<lparr>jb_JobStatus := JobStatusFailed, jb_ErrorMsg := first_error (err_text e)\<rparr>
         | None \<Rightarrow> job1\<lparr>jb_JobStatus := JobStatusSuccess, jb_Output := fst res\<rparr>)"

text \<open>
  The function registered with the scheduler, one run: \<open>master\<close> is \<open>IsMaster\<close> at that moment, \<open>start\<close> and \<open>finish\<close> the
  clock readings, \<open>uuid\<close> the generated identifier. The task's effect is on a state of its own; \<open>None\<close> is a panic, which
  the deferred function recovers.
\<close>

definition cron_run :: "('d, Job) table_ops \<Rightarrow> string \<Rightarrow> ('s \<Rightarrow> (string \<times> gerror option) option \<times> 's) \<Rightarrow>
    bool \<Rightarrow> gotime \<Rightarrow> gotime \<Rightarrow> string \<Rightarrow> 'd \<Rightarrow> 's \<Rightarrow> 'd \<times> 's" where
  "cron_run T purpose taskFunc master start finish uuid d s =
     (if \<not> master then (d, s)
      else case create_row T (new_cron_job purpose start uuid) d of
        Inl e \<Rightarrow> (d, s)
      | Inr (job, d1) \<Rightarrow> (case taskFunc s of
          (None, s') \<Rightarrow> (d1, s')
        | (Some res, s') \<Rightarrow> (case save_row_at T finish (finished_cron_job start finish res job) d1 of
            Inl e \<Rightarrow> (d1, s')
          | Inr (_, d2) \<Rightarrow> (d2, s'))))"

end
