(* ===== verification/Jobs_Correct.thy ===== *)
theory Jobs_Correct
  imports Jobs
begin

text \<open>
  Properties of the job tables: how the status of an export job moves under reports and sweeps, what a sweep does
  and how it can undo a finished job, who sees a job, what an asynchronous report writes and returns, and what one
  run of a cron job leaves behind.
\<close>

abbreviation job_table where
  "job_table T rows tinv \<equiv> sql_table T rows tinv m_ID (\<lambda>k r. r\<lparr>m_ID := k\<rparr>)"

section \<open>Statements on job tables\<close>

lemma last_row_live:
  assumes "job_table T rows tinv" "tinv d" "last_row T P d = Inr r"
  shows "r \<in> set (rows d)" "P r" "m_DeletedAt r = None"
proof -
  obtain rs where f: "tb_find T d (\<lambda>_ r. P r \<and> m_DeletedAt r = None) (\<lambda>a b. m_ID b \<le> m_ID a) = Inr (r # rs)"
    using assms(3) by (auto simp: last_row_def split: sum.splits list.splits)
  have "r \<in> {r \<in> set (rows d). P r \<and> m_DeletedAt r = None}"
    using sql_table.find_set [OF assms(1,2) f] by auto
  then show "r \<in> set (rows d)" "P r" "m_DeletedAt r = None" by auto
qed

lemma save_row_at_ok:
  assumes "job_table T rows tinv" "tinv d" "save_row_at T now r d = Inr (r', d')" "m_ID r \<in> m_ID ` set (rows d)"
  shows "r' = r\<lparr>m_UpdatedAt := now\<rparr>" "tinv d'" "row_at m_ID (rows d') k = (if k = m_ID r then Some r' else row_at m_ID (rows d) k)"
proof -
  show r': "r' = r\<lparr>m_UpdatedAt := now\<rparr>"
    using assms(3) by (auto simp: save_row_at_def Let_def split: sum.splits)
  have "tb_save T d r' = Inr d'" using assms(3) by (auto simp: save_row_at_def Let_def split: sum.splits)
  moreover have "m_ID r' \<in> m_ID ` set (rows d)" using assms(4) r' by simp
  note s = sql_table.save_row_at [OF assms(1,2) calculation this]
  show "tinv d'" by (rule s(1))
  show "row_at m_ID (rows d') k = (if k = m_ID r then Some r' else row_at m_ID (rows d) k)" using s(2) [of k] r' by simp
qed

lemma create_row_ok:
  assumes "job_table T rows tinv" "tinv d" "create_row T r d = Inr (r', d')" "m_ID r = 0"
  shows "r' = r\<lparr>m_ID := m_ID r'\<rparr>" "tinv d'" "rows d' = rows d @ [r']" "m_ID r' \<notin> m_ID ` set (rows d)"
proof -
  obtain rs where "tb_insert T d [r] = Inr (rs, d')" "r' = first_or r rs"
    using assms(3) by (auto simp: create_row_def split: sum.splits)
  with sql_table.insert_rows [OF assms(1,2)] assms(4)
  show "r' = r\<lparr>m_ID := m_ID r'\<rparr>" "tinv d'" and rs: "rows d' = rows d @ [r']"
    by (fastforce simp: list_all2_Cons1)+
  have "distinct (map m_ID (rows d'))" using sql_table.keys_distinct [OF assms(1)] \<open>tinv d'\<close> by blast
  then show "m_ID r' \<notin> m_ID ` set (rows d)" by (simp add: rs)
qed

lemma row_at_append_new: "k \<in> pk ` set rs \<Longrightarrow> row_at pk (rs @ rs') k = row_at pk rs k"
  by (induction rs) auto

section \<open>The status of an export job\<close>

text \<open>The order of the states: a failed job stays failed, a finished one never becomes pending again.\<close>

definition status_leads :: "JobStatus \<Rightarrow> JobStatus \<Rightarrow> bool" where
  "status_leads a b \<longleftrightarrow> b = a \<or> a \<noteq> JobStatusFailed \<and> (b = JobStatusFailed \<or> a = JobStatusPending \<and> b = JobStatusSuccess)"

text \<open>What no operation changes of a row.\<close>

definition same_job :: "ExportJob \<Rightarrow> ExportJob \<Rightarrow> bool" where
  "same_job j j' \<longleftrightarrow> m_ID j' = m_ID j \<and> m_CreatedAt j' = m_CreatedAt j \<and> m_DeletedAt j' = m_DeletedAt j \<and> ej_JobUUID j' = ej_JobUUID j \<and>
     ej_CompanyID j' = ej_CompanyID j \<and> ej_Uin j' = ej_Uin j \<and> ej_Purpose j' = ej_Purpose j \<and> ej_TimeoutSeconds j' = ej_TimeoutSeconds j"

definition job_moves :: "ExportJob list \<Rightarrow> ExportJob list \<Rightarrow> bool" where
  "job_moves rs rs' \<longleftrightarrow> (\<forall>k r. row_at m_ID rs k = Some r \<longrightarrow>
     (\<exists>r'. row_at m_ID rs' k = Some r' \<and> same_job r r' \<and> status_leads (ej_ExportStatus r) (ej_ExportStatus r')))"

lemma status_distinct [simp]:
  "JobStatusPending \<noteq> JobStatusFailed" "JobStatusFailed \<noteq> JobStatusPending" "JobStatusPending \<noteq> JobStatusSuccess"
  "JobStatusSuccess \<noteq> JobStatusPending" "JobStatusFailed \<noteq> JobStatusSuccess" "JobStatusSuccess \<noteq> JobStatusFailed"
  by (simp_all add: job_status_defs)

lemma status_leads_refl [simp]: "status_leads a a"
  by (simp add: status_leads_def)

lemma status_leads_trans: "status_leads a b \<Longrightarrow> status_leads b c \<Longrightarrow> status_leads a c"
  by (auto simp: status_leads_def)

lemma same_job_refl [simp]: "same_job j j"
  by (simp add: same_job_def)

lemma same_job_trans: "same_job a b \<Longrightarrow> same_job b c \<Longrightarrow> same_job a c"
  by (simp add: same_job_def)

lemma job_moves_refl [simp]: "job_moves rs rs"
  by (auto simp: job_moves_def)

lemma job_moves_trans: "job_moves a b \<Longrightarrow> job_moves b c \<Longrightarrow> job_moves a c"
  unfolding job_moves_def by (meson same_job_trans status_leads_trans)

lemma ej_updated_status:
  "ej_ExportStatus (ej_updated now output e j) =
     (if e \<noteq> None \<or> ej_timed_out now j then JobStatusFailed
      else if ej_ExportStatus j = JobStatusPending then JobStatusSuccess else ej_ExportStatus j)"
  by (auto simp: ej_updated_def Let_def job_status_defs split: option.splits)

lemma ej_updated_same: "same_job j (ej_updated now output e j)"
  by (auto simp: ej_updated_def Let_def same_job_def split: option.splits)

lemma ej_updated_leads:
  "status_leads (ej_ExportStatus j) (ej_ExportStatus (ej_updated now output e j))"
  by (auto simp: ej_updated_status status_leads_def)

lemma save_moves:
  assumes "job_table T rows tinv" "tinv d" "save_row_at T now j' d = Inr (r, d')" "row_at m_ID (rows d) (m_ID j) = Some j"
    and "same_job j j'" "status_leads (ej_ExportStatus j) (ej_ExportStatus j')"
  shows "tinv d'" "job_moves (rows d) (rows d')"
proof -
  have k: "m_ID j' = m_ID j" using assms(5) by (simp add: same_job_def)
  moreover have "m_ID j' \<in> m_ID ` set (rows d)" using assms(4) row_at_SomeD [of m_ID] by (metis k imageI)
  note s = save_row_at_ok [OF assms(1-3) this]
  show "tinv d'" by (rule s(2))
  show "job_moves (rows d) (rows d')" unfolding job_moves_def
  proof (intro allI impI)
    fix n x assume x: "row_at m_ID (rows d) n = Some x"
    show "\<exists>r'. row_at m_ID (rows d') n = Some r' \<and> same_job x r' \<and> status_leads (ej_ExportStatus x) (ej_ExportStatus r')"
      using s(1,3) x assms(4-6) k by (cases "n = m_ID j") (auto simp: same_job_def)
  qed
qed

section \<open>A sweep\<close>

definition failed_by_timeout :: "gotime \<Rightarrow> ExportJob \<Rightarrow> ExportJob" where
  "failed_by_timeout now j = j\<lparr>ej_ExportStatus := JobStatusFailed, ej_ErrorMsg := ''timeout'', m_UpdatedAt := now\<rparr>"

lemma checkTimeoutJob_row:
  assumes "job_table T rows tinv" "tinv d" "checkTimeoutJob T now j d = (x, d')" "m_ID j \<in> m_ID ` set (rows d)"
  shows "tinv d'" "k \<noteq> m_ID j \<Longrightarrow> row_at m_ID (rows d') k = row_at m_ID (rows d) k"
    "d' = d \<or> ej_timed_out now j \<and> row_at m_ID (rows d') (m_ID j) = Some (failed_by_timeout now j)"
proof -
  have "d' = d \<or> ej_timed_out now j \<and> (\<exists>r'. save_row_at T now (j\<lparr>ej_ExportStatus := JobStatusFailed, ej_ErrorMsg := ''timeout''\<rparr>) d = Inr (r', d'))"
    using assms(3) by (auto simp: checkTimeoutJob_def split: if_splits sum.splits prod.splits)
  with save_row_at_ok [OF assms(1,2), of now "j\<lparr>ej_ExportStatus := JobStatusFailed, ej_ErrorMsg := ''timeout''\<rparr>"] assms(2,4)
  show "tinv d'" "k \<noteq> m_ID j \<Longrightarrow> row_at m_ID (rows d') k = row_at m_ID (rows d) k"
    "d' = d \<or> ej_timed_out now j \<and> row_at m_ID (rows d') (m_ID j) = Some (failed_by_timeout now j)"
    by (auto simp: failed_by_timeout_def)
qed

text \<open>The sweep by itself: the rows it was given are still current at their check.\<close>

lemma repair_loop_rows:
  assumes "job_table T rows tinv" "tinv d" "\<forall>j\<in>set js. row_at m_ID (rows d) (m_ID j) = Some j" "distinct (map m_ID js)"
    and "\<forall>x\<in>set steps. snd x = id"
  shows "tinv (repair_loop T steps js d) \<and> (\<forall>k. row_at m_ID (rows (repair_loop T steps js d)) k = row_at m_ID (rows d) k \<or>
    (\<exists>j\<in>set js. \<exists>now\<in>fst ` set steps. m_ID j = k \<and> ej_timed_out now j \<and>
       row_at m_ID (rows (repair_loop T steps js d)) k = Some (failed_by_timeout now j)))"
  using assms(2-)
proof (induction js arbitrary: steps d)
  case (Cons j js)
  show ?case
  proof (cases steps)
    case (Cons st rest)
    obtain now where st: "st = (now, id)" using Cons.prems(4) Cons by (cases st) (auto simp: id_def)
    obtain b e d1 where c: "checkTimeoutJob T now j d = ((b, e), d1)" by (cases "checkTimeoutJob T now j d") auto
    let ?d2 = "repair_loop T steps (j # js) d"
    have d2: "?d2 = (if e = None then repair_loop T rest js d1 else d1)" using Cons st c by (cases e) simp_all
    have "m_ID j \<in> m_ID ` set (rows d)" using Cons.prems(2) row_at_SomeD [of m_ID "rows d" "m_ID j" j] by auto
    note ch = checkTimeoutJob_row [OF assms(1) Cons.prems(1) c this]
    have one: "row_at m_ID (rows d1) k = row_at m_ID (rows d) k \<or>
        m_ID j = k \<and> ej_timed_out now j \<and> row_at m_ID (rows d1) k = Some (failed_by_timeout now j)" for k
      using ch(2,3) by (cases "k = m_ID j") auto
    have "\<forall>x\<in>set js. row_at m_ID (rows d1) (m_ID x) = Some x"
    proof
      fix x assume x: "x \<in> set js"
      then have "m_ID x \<noteq> m_ID j" using Cons.prems(3) by (simp, metis imageI)
      then show "row_at m_ID (rows d1) (m_ID x) = Some x" using ch(2) Cons.prems(2) x by simp
    qed
    with Cons.IH [OF ch(1)] Cons.prems(3,4) Cons have ih: "tinv (repair_loop T rest js d1)"
      "\<And>k. row_at m_ID (rows (repair_loop T rest js d1)) k = row_at m_ID (rows d1) k \<or>
        (\<exists>j\<in>set js. \<exists>now\<in>fst ` set rest. m_ID j = k \<and> ej_timed_out now j \<and>
           row_at m_ID (rows (repair_loop T rest js d1)) k = Some (failed_by_timeout now j))" by auto
    have now: "now \<in> fst ` set steps" "fst ` set rest \<subseteq> fst ` set steps" using Cons st by auto
    define changed where "changed x k \<longleftrightarrow> (\<exists>y\<in>set (j # js). \<exists>n\<in>fst ` set steps. m_ID y = k \<and> ej_timed_out n y \<and>
        x = Some (failed_by_timeout n y))" for x k
    have "row_at m_ID (rows d1) k = row_at m_ID (rows d) k \<or> changed (row_at m_ID (rows d1) k) k" for k
      using one [of k] now(1) list.set_intros(1) [of j js] unfolding changed_def by blast
    moreover have "row_at m_ID (rows (repair_loop T rest js d1)) k = row_at m_ID (rows d1) k \<or>
        changed (row_at m_ID (rows (repair_loop T rest js d1)) k) k" for k
      using ih(2) [of k] now(2) unfolding changed_def by (meson list.set_intros(2) subsetD)
    ultimately have "row_at m_ID (rows ?d2) k = row_at m_ID (rows d) k \<or> changed (row_at m_ID (rows ?d2) k) k" for k
      unfolding d2 by (metis (full_types))
    then show ?thesis using d2 ih(1) ch(1) unfolding changed_def by simp
  qed (use Cons.prems(1) in simp)
qed simp

section \<open>Histories of export jobs\<close>

text \<open>One operation at a time: creation, a report, and a sweep during which nothing else happens.\<close>

inductive export_step :: "('d, ExportJob) table_ops \<Rightarrow> 'd \<Rightarrow> 'd \<Rightarrow> bool" for T where
  es_create: "CreateExportJob T now uuid compid uin purpose timeoutSeconds d = Inr (j, d') \<Longrightarrow> export_step T d d'"
| es_update: "ej_UpdateJobStatus T now uuid output e d = Inr (j, d') \<Longrightarrow> export_step T d d'"
| es_repair: "\<forall>x\<in>set steps. snd x = id \<Longrightarrow> export_step T d (repairTimeoutJobs T steps d)"

lemma repair_moves:
  assumes "job_table T rows tinv" "tinv d" "\<forall>x\<in>set steps. snd x = id"
  shows "tinv (repairTimeoutJobs T steps d) \<and> job_moves (rows d) (rows (repairTimeoutJobs T steps d))"
proof (cases "tb_find T d (\<lambda>_ r. (ej_ExportStatus r = JobStatusPending \<and> 0 < ej_TimeoutSeconds r) \<and> m_DeletedAt r = None) any_order")
  case (Inr js)
  have set: "set js = {r \<in> set (rows d). (ej_ExportStatus r = JobStatusPending \<and> 0 < ej_TimeoutSeconds r) \<and> m_DeletedAt r = None}"
    by (rule sql_table.find_set [OF assms(1,2) Inr])
  then have cur: "\<forall>j\<in>set js. row_at m_ID (rows d) (m_ID j) = Some j" using sql_table.row_at_mem [OF assms(1,2)] by simp
  note loop = repair_loop_rows [OF assms(1,2) cur sql_table.find_distinct [OF assms(1,2) Inr] assms(3)]
  have "\<exists>r'. row_at m_ID (rows (repair_loop T steps js d)) k = Some r' \<and> same_job r r' \<and> status_leads (ej_ExportStatus r) (ej_ExportStatus r')"
    if r: "row_at m_ID (rows d) k = Some r" for k r
  proof -
    consider "row_at m_ID (rows (repair_loop T steps js d)) k = Some r"
      | j now where "j \<in> set js" "m_ID j = k" "row_at m_ID (rows (repair_loop T steps js d)) k = Some (failed_by_timeout now j)"
      using loop r by metis
    then show ?thesis
    proof cases
      case 2
      then have "j = r" using cur r by auto
      with 2 set show ?thesis by (auto simp: failed_by_timeout_def same_job_def status_leads_def)
    qed simp
  qed
  then show ?thesis using loop Inr by (simp add: repairTimeoutJobs_def job_moves_def)
qed (use assms(2) in \<open>simp add: repairTimeoutJobs_def\<close>)

lemma export_step_moves:
  assumes "job_table T rows tinv" "export_step T d d'" "tinv d"
  shows "tinv d' \<and> job_moves (rows d) (rows d')"
  using assms(2,3)
proof cases
  case (es_create now uuid compid uin purpose timeoutSeconds j)
  then have c: "create_row T (\<lparr>m_ID = 0, m_CreatedAt = now, m_UpdatedAt = now, m_DeletedAt = None, ej_JobUUID = uuid, ej_CompanyID = compid,
      ej_Uin = uin, ej_Purpose = purpose, ej_ExportStatus = JobStatusPending, ej_CostSeconds = 0, ej_TimeoutSeconds = timeoutSeconds,
      ej_Output = [], ej_ErrorMsg = []\<rparr>) d = Inr (j, d')" by (simp add: CreateExportJob_def)
  note ok = create_row_ok [OF assms(1,3) c]
  have "job_moves (rows d) (rows d @ [j])" unfolding job_moves_def
    using row_at_SomeD [of m_ID "rows d"] row_at_append_new [of _ m_ID "rows d" "[j]"] by (metis imageI same_job_refl status_leads_refl)
  with ok show ?thesis by simp
next
  case (es_update now uuid out e j)
  then obtain ejob where g: "ej_GetJobByUUID T uuid d = Inr ejob" "save_row_at T now (ej_updated now out e ejob) d = Inr (j, d')"
    by (auto simp: ej_UpdateJobStatus_def split: sum.splits)
  have "row_at m_ID (rows d) (m_ID ejob) = Some ejob"
    using last_row_live [OF assms(1,3) g(1) [unfolded ej_GetJobByUUID_def]] sql_table.row_at_mem [OF assms(1,3)] by simp
  with save_moves [OF assms(1,3) g(2)] show ?thesis using ej_updated_same ej_updated_leads by blast
next
  case (es_repair steps)
  then show ?thesis using repair_moves [OF assms(1,3)] by simp
qed

text \<open>
  (C38) Along every history of creations, reports and sweeps that do not overlap: no export job disappears or changes
  its identifier, owner, company, purpose, timeout or creation time; a failed job stays failed, whatever is
  reported later; a successful one can only become failed; and nothing becomes pending again.
\<close>

theorem export_job_final:
  assumes "job_table T rows tinv" "(export_step T)\<^sup>*\<^sup>* d d'" "tinv d" "row_at m_ID (rows d) k = Some r"
  shows "\<exists>r'. row_at m_ID (rows d') k = Some r' \<and> same_job r r' \<and> status_leads (ej_ExportStatus r) (ej_ExportStatus r')"
proof -
  have "tinv d' \<and> job_moves (rows d) (rows d')" using assms(2)
  proof induction
    case base
    then show ?case using assms(3) by simp
  next
    case (step y z)
    then show ?case using export_step_moves [OF assms(1)] job_moves_trans by blast
  qed
  then show ?thesis using assms(4) unfolding job_moves_def by blast
qed


text \<open>A table in memory, with a job that may take ten seconds.\<close>

definition ex_job :: ExportJob where
  "ex_job = \<lparr>m_ID = 1, m_CreatedAt = 0, m_UpdatedAt = 0, m_DeletedAt = None, ej_JobUUID = ''u'', ej_CompanyID = 2, ej_Uin = 3,
     ej_Purpose = ''doc'', ej_ExportStatus = JobStatusPending, ej_CostSeconds = 0, ej_TimeoutSeconds = 10, ej_Output = [], ej_ErrorMsg = []\<rparr>"

definition ex_jobs :: "('a gorm_Model_scheme list, 'a gorm_Model_scheme) table_ops" where
  "ex_jobs = mem_table m_ID (\<lambda>k r. r\<lparr>m_ID := k\<rparr>)"

lemma ex_jobs_table: "job_table ex_jobs id (mem_wf m_ID)"
  unfolding ex_jobs_def by (rule mem_table_sql_table) simp

theorem export_job_final_witness:
  "\<exists>d' r'. (export_step ex_jobs)\<^sup>*\<^sup>* [ex_job\<lparr>ej_ExportStatus := JobStatusFailed\<rparr>] d' \<and>
     is_ok (ej_UpdateJobStatus ex_jobs 5 ''u'' ''out'' None [ex_job\<lparr>ej_ExportStatus := JobStatusFailed\<rparr>]) \<and>
     row_at m_ID d' 1 = Some r' \<and> ej_ExportStatus r' = JobStatusFailed"
proof -
  let ?j = "ex_job\<lparr>ej_ExportStatus := JobStatusFailed\<rparr>"
  have "\<exists>j d'. ej_UpdateJobStatus ex_jobs 5 ''u'' ''out'' None [?j] = Inr (j, d')"
    by (simp add: ex_jobs_def ex_job_def mem_table_def ej_UpdateJobStatus_def ej_GetJobByUUID_def last_row_def isort_by_def
        save_row_at_def Let_def ej_updated_def ej_timed_out_def longer_than_def time_Sub_def time_Second_def mem_checked_def mem_wf_def replace_row_def)
  then obtain j d' where u: "ej_UpdateJobStatus ex_jobs 5 ''u'' ''out'' None [?j] = Inr (j, d')" by blast
  then have st: "(export_step ex_jobs)\<^sup>*\<^sup>* [?j] d'" by (intro r_into_rtranclp es_update)
  have "\<exists>r'. row_at m_ID (id d') 1 = Some r' \<and> same_job ?j r' \<and> status_leads (ej_ExportStatus ?j) (ej_ExportStatus r')"
    by (rule export_job_final [OF ex_jobs_table st]) (simp_all add: mem_wf_def ex_job_def)
  then show ?thesis using st u by (auto simp: status_leads_def)
qed

section \<open>A report during a sweep\<close>

text \<open> The sweep saves the row it read, not the row as it is. When a job that was pending at the sweep's read is
  reported successful in time, with its output, before the sweep comes to it, and the timeout has passed by then,
  the sweep overwrites the finished job: the row is failed with \<open>timeout\<close> and the output is lost.
\<close>

theorem export_lost_update:
  assumes "job_table T rows tinv" "tinv d"
    and "tb_find T d (\<lambda>_ r. (ej_ExportStatus r = JobStatusPending \<and> 0 < ej_TimeoutSeconds r) \<and> m_DeletedAt r = None) any_order = Inr [j]"
    and report: "ej_UpdateJobStatus T now1 (ej_JobUUID j) out None d = Inr (j1, d1)" "m_ID j1 = m_ID j" "\<not> ej_timed_out now1 j" "out \<noteq> []"
    and late: "ej_timed_out now2 j" and saved: "tb_save T d1 (failed_by_timeout now2 j) = Inr d2"
  shows "ej_ExportStatus j1 = JobStatusSuccess \<and> ej_Output j1 = out \<and> row_at m_ID (rows d1) (m_ID j) = Some j1 \<and>
    repairTimeoutJobs T [(now2, \<lambda>_. d1)] d = d2 \<and> row_at m_ID (rows d2) (m_ID j) = Some (failed_by_timeout now2 j)"
proof -
  have j: "j \<in> set (rows d)" "ej_ExportStatus j = JobStatusPending"
    using sql_table.find_set [OF assms(1-3)] by auto
  obtain ejob where g: "last_row T (\<lambda>r. ej_JobUUID r = ej_JobUUID j) d = Inr ejob" "save_row_at T now1 (ej_updated now1 out None ejob) d = Inr (j1, d1)"
    using report(1) by (auto simp: ej_UpdateJobStatus_def ej_GetJobByUUID_def split: sum.splits)
  have ej: "ejob \<in> set (rows d)" using last_row_live [OF assms(1,2) g(1)] by simp
  have id: "m_ID (ej_updated now1 out None ejob) = m_ID ejob" using ej_updated_same [of ejob] by (simp add: same_job_def)
  have in_rows: "m_ID (ej_updated now1 out None ejob) \<in> m_ID ` set (rows d)" using ej id by simp
  note s1 = save_row_at_ok [OF assms(1,2) g(2) in_rows]
  have "m_ID ejob = m_ID j" using s1(1) id report(2) by simp
  then have "ejob = j" using sql_table.row_at_mem [OF assms(1,2)] ej j(1) by (metis option.inject)
  then have done1: "ej_ExportStatus j1 = JobStatusSuccess" "ej_Output j1 = out" "row_at m_ID (rows d1) (m_ID j) = Some j1"
    using s1(1,3) id j(2) report(3,4) by (simp_all add: ej_updated_status) (simp add: ej_updated_def Let_def)
  have up: "j\<lparr>ej_ExportStatus := JobStatusFailed, ej_ErrorMsg := ''timeout''\<rparr>\<lparr>m_UpdatedAt := now2\<rparr> = failed_by_timeout now2 j"
    by (simp add: failed_by_timeout_def)
  have "checkTimeoutJob T now2 j d1 = ((True, None), d2)"
    using late saved by (simp add: checkTimeoutJob_def save_row_at_def Let_def up)
  then have rep: "repairTimeoutJobs T [(now2, \<lambda>_. d1)] d = d2" using assms(3) by (simp add: repairTimeoutJobs_def)
  have "m_ID (failed_by_timeout now2 j) \<in> m_ID ` set (rows d1)"
    using done1(3) row_at_SomeD [of m_ID "rows d1" "m_ID j" j1] by (simp add: failed_by_timeout_def) (metis imageI)
  from sql_table.save_row_at(2) [OF assms(1) s1(2) saved this, of "m_ID j"]
  show ?thesis using done1 rep by (simp add: failed_by_timeout_def)
qed

lemma ex_lost_update:
  "tb_find ex_jobs [ex_job] (\<lambda>_ r. (ej_ExportStatus r = JobStatusPending \<and> 0 < ej_TimeoutSeconds r) \<and> m_DeletedAt r = None) any_order = Inr [ex_job]"
  "\<exists>j1 d1 d2. ej_UpdateJobStatus ex_jobs (9 * time_Second) ''u'' ''out'' None [ex_job] = Inr (j1, d1) \<and> m_ID j1 = 1 \<and>
     tb_save ex_jobs d1 (failed_by_timeout (11 * time_Second) ex_job) = Inr d2"
  "\<not> ej_timed_out (9 * time_Second) ex_job" "ej_timed_out (11 * time_Second) ex_job"
  by (simp_all add: ex_jobs_def ex_job_def mem_table_def ej_UpdateJobStatus_def ej_GetJobByUUID_def last_row_def isort_by_def
      save_row_at_def Let_def ej_updated_def ej_timed_out_def longer_than_def time_Sub_def time_Second_def mem_checked_def mem_wf_def
      replace_row_def failed_by_timeout_def)

theorem export_lost_update_witness:
  "\<exists>j1 d1 d2. ej_UpdateJobStatus ex_jobs (9 * time_Second) ''u'' ''out'' None [ex_job] = Inr (j1, d1) \<and>
     ej_ExportStatus j1 = JobStatusSuccess \<and> ej_Output j1 = ''out'' \<and>
     repairTimeoutJobs ex_jobs [(11 * time_Second, \<lambda>_. d1)] [ex_job] = d2 \<and>
     row_at m_ID d2 1 = Some (failed_by_timeout (11 * time_Second) ex_job)"
proof -
  have j: "ej_JobUUID ex_job = ''u''" "m_ID ex_job = 1" "mem_wf m_ID [ex_job]" by (simp_all add: ex_job_def mem_wf_def)
  obtain j1 d1 d2 where u: "ej_UpdateJobStatus ex_jobs (9 * time_Second) (ej_JobUUID ex_job) ''out'' None [ex_job] = Inr (j1, d1)"
    "m_ID j1 = m_ID ex_job" "tb_save ex_jobs d1 (failed_by_timeout (11 * time_Second) ex_job) = Inr d2"
    using ex_lost_update(2) j by auto
  from export_lost_update [OF ex_jobs_table j(3) ex_lost_update(1) u(1,2) ex_lost_update(3) _ ex_lost_update(4) u(3)]
  show ?thesis using u(1) j by auto
qed

section \<open>Who sees an export job\<close>

text \<open> \<open>DetailExportJob\<close> gives the identifier, status, error text and file address of a job only to the user whose
  job it is, for a live job with the requested identifier; a file address is given only for a successful job with an
  output, and is the storage's address of that output. Everybody else receives an error code and none of these.
\<close>

theorem DetailExportJob_private:
  assumes "job_table T rows tinv" "tinv d"
    and "DetailExportJob T load uin jobID d = resp"
  shows "dr_Code resp \<noteq> 0 \<and> dr_JobID resp = [] \<and> dr_FileURL resp = [] \<and> dr_Status resp = [] \<and> dr_ErrMsg resp = [] \<or>
    (\<exists>j\<in>set (rows d). ej_JobUUID j = jobID \<and> m_DeletedAt j = None \<and> ej_Uin j = uin \<and> dr_JobID resp = jobID \<and>
       dr_Status resp = ej_ExportStatus j \<and> dr_ErrMsg resp = ej_ErrorMsg j \<and>
       (dr_FileURL resp \<noteq> [] \<longrightarrow> ej_ExportStatus j = JobStatusSuccess \<and> ej_Output j \<noteq> [] \<and>
          (\<exists>presigned. load (ej_Purpose j) = Inr presigned \<and> presigned ''GET'' (ej_Output j) = Inr (dr_FileURL resp))))"
proof (cases "ej_GetJobByUUID T jobID d")
  case (Inl e)
  then show ?thesis using assms(3) by (auto simp: DetailExportJob_def ErrCode_InternalError_def)
next
  case (Inr j)
  note live = last_row_live [OF assms(1,2) Inr [unfolded ej_GetJobByUUID_def]]
  show ?thesis
  proof (cases "ej_Uin j = uin")
    case True
    with Inr assms(3) live show ?thesis
      by (intro disjI2 bexI [of _ j]) (auto simp: DetailExportJob_def Let_def split: sum.splits if_splits)
  next
    case False
    then show ?thesis using Inr assms(3) by (auto simp: DetailExportJob_def ErrCode_NoPermission_def)
  qed
qed

theorem DetailExportJob_private_witness:
  "\<exists>resp. DetailExportJob ex_jobs (\<lambda>_. Inr (\<lambda>_ p. Inr (''https://'' @ p))) 4 ''u'' [ex_job] = resp \<and> dr_Code resp = 403 \<and> dr_JobID resp = []"
proof -
  let ?r = "DetailExportJob ex_jobs (\<lambda>_. Inr (\<lambda>_ p. Inr (''https://'' @ p))) 4 ''u'' [ex_job]"
  have "mem_wf m_ID [ex_job]" "\<forall>j\<in>set (id [ex_job]). ej_Uin j \<noteq> 4" by (simp_all add: mem_wf_def ex_job_def)
  moreover have "dr_Code ?r = 403"
    by (simp add: DetailExportJob_def ej_GetJobByUUID_def last_row_def ex_jobs_def mem_table_def isort_by_def ex_job_def ErrCode_NoPermission_def)
  ultimately show ?thesis using DetailExportJob_private [OF ex_jobs_table _ refl, of "[ex_job]" "\<lambda>_. Inr (\<lambda>_ p. Inr (''https://'' @ p))" 4 "''u''"] by auto
qed

section \<open>Reports on asynchronous jobs\<close>

text \<open> A successful \<open>UpdateJobStatus\<close> of an asynchronous job changes exactly the newest live row with the identifier:
  its status becomes success or failed as reported, whatever it was, so a failed job can be turned into a successful
  one; an error is appended to the earlier ones; an empty output keeps the old one. The job it returns is the row as it
  was before.
\<close>

theorem aj_UpdateJobStatus_effect:
  assumes "job_table T rows tinv" "tinv d" "aj_UpdateJobStatus T now (Some q) d = Inr (ejob, d')"
  shows "row_at m_ID (rows d) (m_ID ejob) = Some ejob \<and> aj_JobUUID ejob = uj_JobUUID q \<and> m_DeletedAt ejob = None \<and>
    (\<forall>k. k \<noteq> m_ID ejob \<longrightarrow> row_at m_ID (rows d') k = row_at m_ID (rows d) k) \<and>
    (\<exists>r. row_at m_ID (rows d') (m_ID ejob) = Some r \<and>
       aj_JobStatus r = (if uj_Error q = None then JobStatusSuccess else JobStatusFailed) \<and>
       aj_Output r = (if uj_Output q = [] then aj_Output ejob else uj_Output q) \<and>
       (\<forall>e. uj_Error q = Some e \<longrightarrow> aj_ErrorMsg r = (if aj_ErrorMsg ejob = [] then err_text e else aj_ErrorMsg ejob @ ''; '' @ err_text e)))"
proof -
  obtain q' where v: "uj_Validate (Some q) = Inr q'" using assms(3) by (auto simp: aj_UpdateJobStatus_def split: sum.splits)
  then have q': "q' = q" by (auto simp: uj_Validate_def split: if_splits)
  have g: "last_row T (\<lambda>r. aj_JobUUID r = uj_JobUUID q) d = Inr ejob"
    and u: "tb_update T d (\<lambda>r. m_ID r = m_ID ejob \<and> m_DeletedAt r = None) (\<lambda>r. (aj_changes now q ejob r)\<lparr>m_UpdatedAt := now\<rparr>) = Inr d'"
    using assms(3) v q' by (auto simp: aj_UpdateJobStatus_def aj_GetJobByUUID_def split: sum.splits)
  note live = last_row_live [OF assms(1,2) g]
  have at: "row_at m_ID (rows d) (m_ID ejob) = Some ejob" using live sql_table.row_at_mem [OF assms(1,2)] by simp
  have "m_ID ((aj_changes now q ejob r)\<lparr>m_UpdatedAt := now\<rparr>) = m_ID r" for r
    by (auto simp: aj_changes_def Let_def split: option.splits)
  note rows = sql_table.update_row_at(2) [OF assms(1,2) u this]
  have "row_at m_ID (rows d') k = row_at m_ID (rows d) k" if "k \<noteq> m_ID ejob" for k
    using rows [of k] that row_at_SomeD [of m_ID "rows d" k] by (cases "row_at m_ID (rows d) k") auto
  moreover have "row_at m_ID (rows d') (m_ID ejob) = Some ((aj_changes now q ejob ejob)\<lparr>m_UpdatedAt := now\<rparr>)"
    using rows [of "m_ID ejob"] at live(3) by simp
  ultimately show ?thesis using at live by (auto simp: aj_changes_def Let_def split: option.splits)
qed

definition ex_async :: AsyncJob where
  "ex_async = \<lparr>m_ID = 1, m_CreatedAt = 0, m_UpdatedAt = 0, m_DeletedAt = None, aj_JobUUID = ''u'', aj_Uin = 3, aj_Purpose = ''p'',
     aj_BusinessID = 0, aj_JobStatus = JobStatusFailed, aj_ErrorMsg = ''x'', aj_CostSeconds = 0, aj_Input = [], aj_Output = [], aj_Extra = []\<rparr>"

theorem aj_UpdateJobStatus_effect_witness:
  "\<exists>ejob d' r. aj_UpdateJobStatus ex_jobs 5 (Some \<lparr>uj_JobUUID = ''u'', uj_Error = None, uj_Output = ''out''\<rparr>) [ex_async] = Inr (ejob, d') \<and>
     aj_JobStatus ejob = JobStatusFailed \<and> row_at m_ID d' 1 = Some r \<and> aj_JobStatus r = JobStatusSuccess"
proof -
  let ?q = "\<lparr>uj_JobUUID = ''u'', uj_Error = None, uj_Output = ''out''\<rparr>"
  have "\<exists>d'. aj_UpdateJobStatus ex_jobs 5 (Some ?q) [ex_async] = Inr (ex_async, d')"
    by (simp add: aj_UpdateJobStatus_def uj_Validate_def aj_GetJobByUUID_def last_row_def ex_jobs_def mem_table_def isort_by_def ex_async_def
        mem_checked_def mem_wf_def update_rows_def aj_changes_def Let_def)
  then obtain d' where u: "aj_UpdateJobStatus ex_jobs 5 (Some ?q) [ex_async] = Inr (ex_async, d')" by blast
  have "mem_wf m_ID [ex_async]" by (simp add: mem_wf_def ex_async_def)
  from aj_UpdateJobStatus_effect [OF ex_jobs_table this u] u show ?thesis by (auto simp: ex_async_def)
qed

lemma fold_status_map:
  "fold (\<lambda>ejob m. m(aj_JobUUID ejob \<mapsto> aj_JobStatus ejob)) js m u = (case map_of (rev (map (\<lambda>j. (aj_JobUUID j, aj_JobStatus j)) js)) u of
     Some x \<Rightarrow> Some x | None \<Rightarrow> m u)"
  by (induction js arbitrary: m) (auto simp: map_add_def split: option.splits)

text \<open>The status map has an entry for exactly the requested identifiers with a live row, and it is the status of such a row.\<close>

lemma BatchGetJobStatusByUUIDs_ok:
  assumes "job_table T rows tinv" "tinv d" "BatchGetJobStatusByUUIDs T us d = Inr m"
  shows "m u \<noteq> None \<longleftrightarrow> u \<in> set us \<and> (\<exists>r\<in>set (rows d). aj_JobUUID r = u \<and> m_DeletedAt r = None)"
    and "m u = Some x \<Longrightarrow> \<exists>r\<in>set (rows d). aj_JobUUID r = u \<and> m_DeletedAt r = None \<and> aj_JobStatus r = x"
proof -
  obtain js where f: "tb_find T d (\<lambda>_ r. aj_JobUUID r \<in> set us \<and> m_DeletedAt r = None) any_order = Inr js"
    and m: "m = fold (\<lambda>ejob m. m(aj_JobUUID ejob \<mapsto> aj_JobStatus ejob)) js Map.empty"
    using assms(3) by (auto simp: BatchGetJobStatusByUUIDs_def split: sum.splits)
  have js: "set js = {r \<in> set (rows d). aj_JobUUID r \<in> set us \<and> m_DeletedAt r = None}"
    by (rule sql_table.find_set [OF assms(1,2) f])
  have mu: "m u = map_of (rev (map (\<lambda>j. (aj_JobUUID j, aj_JobStatus j)) js)) u"
    unfolding m by (simp add: fold_status_map split: option.splits)
  then have "m u \<noteq> None \<longleftrightarrow> u \<in> aj_JobUUID ` set js" by (auto simp: map_of_eq_None_iff image_iff)
  then show "m u \<noteq> None \<longleftrightarrow> u \<in> set us \<and> (\<exists>r\<in>set (rows d). aj_JobUUID r = u \<and> m_DeletedAt r = None)"
    unfolding js by auto
  show "m u = Some x \<Longrightarrow> \<exists>r\<in>set (rows d). aj_JobUUID r = u \<and> m_DeletedAt r = None \<and> aj_JobStatus r = x"
    unfolding mu using js by (auto dest!: map_of_SomeD)
qed

section \<open>A run of a cron job\<close>

lemma replace_last: "pk r = pk x \<Longrightarrow> pk x \<notin> pk ` set rs \<Longrightarrow> replace_row pk r (rs @ [x]) = rs @ [r]"
  by (auto simp: replace_row_def rev_image_eqI intro!: map_idI)

lemma new_cron_job_row:
  assumes "job = (new_cron_job purpose start uuid)\<lparr>m_ID := m_ID job\<rparr>"
  shows "jb_JobUUID job = uuid" "jb_JobStatus job = JobStatusPending"
  by (subst assms, simp add: new_cron_job_def)+

lemma finished_cron_job_row:
  "m_ID (finished_cron_job start finish res job) = m_ID job" "jb_JobUUID (finished_cron_job start finish res job) = jb_JobUUID job"
  "snd res = None \<Longrightarrow> jb_JobStatus (finished_cron_job start finish res job) = JobStatusSuccess \<and> jb_Output (finished_cron_job start finish res job) = fst res"
  "snd res = Some e \<Longrightarrow> jb_JobStatus (finished_cron_job start finish res job) = JobStatusFailed \<and>
     jb_ErrorMsg (finished_cron_job start finish res job) = first_error (err_text e)"
  by (auto simp: finished_cron_job_def Let_def split: option.splits)

text \<open>What the row of a run may say, given what the task did.\<close>

definition cron_outcome :: "(string \<times> gerror option) option \<Rightarrow> Job \<Rightarrow> bool" where
  "cron_outcome result j = (jb_JobStatus j = JobStatusPending \<or> (case result of
     None \<Rightarrow> False
   | Some (output, None) \<Rightarrow> jb_JobStatus j = JobStatusSuccess \<and> jb_Output j = output
   | Some (output, Some e) \<Rightarrow> jb_JobStatus j = JobStatusFailed \<and> jb_ErrorMsg j = first_error (err_text e)))"

text \<open> One run of a registered cron job. On a node that is not master nothing happens. Otherwise either the job's row could
  not be stored, and the task is not run, or one new row is added and the task is run exactly once. The row is then
  successful with the task's output, or failed with its error; it is still pending when the task panicked, and also
  when the final write failed. No run touches an existing row, so such a row stays pending.
\<close>

theorem cron_run_effect:
  assumes "job_table T rows tinv" "tinv d" "cron_run T purpose taskFunc master start finish uuid d s = (d', s')"
  shows "(d' = d \<and> s' = s) \<or> (master \<and> s' = snd (taskFunc s) \<and>
    (\<exists>j. rows d' = rows d @ [j] \<and> jb_JobUUID j = uuid \<and> cron_outcome (fst (taskFunc s)) j))"
proof (cases "d' = d \<and> s' = s")
  case False
  then obtain job d1 where m: "master" and c: "create_row T (new_cron_job purpose start uuid) d = Inr (job, d1)"
    using assms(3) by (auto simp: cron_run_def split: if_splits sum.splits)
  have ok: "rows d1 = rows d @ [job]" "tinv d1" "m_ID job \<notin> m_ID ` set (rows d)" "jb_JobUUID job = uuid" "jb_JobStatus job = JobStatusPending"
    using create_row_ok [OF assms(1,2) c] new_cron_job_row [of job] by (simp_all add: new_cron_job_def)
  have pend: "cron_outcome x job" for x using ok(5) by (simp add: cron_outcome_def)
  obtain result s1 where t: "taskFunc s = (result, s1)" by (cases "taskFunc s")
  have s': "s' = s1" using assms(3) m c t by (auto simp: cron_run_def split: sum.splits prod.splits option.splits)
  consider "d' = d1" | res r where "result = Some res" "save_row_at T finish (finished_cron_job start finish res job) d1 = Inr (r, d')"
    using assms(3) m c t by (cases result) (auto simp: cron_run_def split: sum.splits prod.splits)
  then have "\<exists>j. rows d' = rows d @ [j] \<and> jb_JobUUID j = uuid \<and> cron_outcome result j"
  proof cases
    case 1
    then show ?thesis using ok pend by auto
  next
    case 2
    let ?j = "(finished_cron_job start finish res job)\<lparr>m_UpdatedAt := finish\<rparr>"
    have sv: "tb_save T d1 ?j = Inr d'" using 2(2) by (auto simp: save_row_at_def Let_def split: sum.splits)
    have "m_ID ?j \<in> m_ID ` set (rows d1)" by (simp add: ok(1) finished_cron_job_row(1))
    from sql_table.save_row [OF assms(1) ok(2) sv this] have "rows d' = rows d @ [?j]"
      using ok(3) replace_last [of m_ID ?j job "rows d"] by (simp add: ok(1) finished_cron_job_row(1))
    moreover have "cron_outcome result ?j"
      using 2(1) finished_cron_job_row(3,4) [of res] by (cases res; cases "snd res") (auto simp: cron_outcome_def)
    ultimately show ?thesis using ok(4) by (auto simp: finished_cron_job_row(2))
  qed
  then show ?thesis using m s' t by simp
qed simp

theorem cron_run_effect_witness:
  "\<exists>j. cron_run ex_jobs ''nightly'' (\<lambda>s :: nat. (None, s + 1)) True 0 5 ''id'' [] 7 = ([j], 8) \<and> jb_JobStatus j = JobStatusPending"
proof -
  have "\<exists>d'. cron_run ex_jobs ''nightly'' (\<lambda>s :: nat. (None, s + 1)) True 0 5 ''id'' [] 7 = (d', 8) \<and> d' \<noteq> []"
    by (simp add: cron_run_def create_row_def ex_jobs_def mem_table_def mem_insert_def new_cron_job_def mem_checked_def mem_wf_def Let_def)
  then obtain d' where r: "cron_run ex_jobs ''nightly'' (\<lambda>s :: nat. (None, s + 1)) True 0 5 ''id'' [] 7 = (d', 8)" "d' \<noteq> []" by blast
  have "mem_wf m_ID []" by (simp add: mem_wf_def)
  from cron_run_effect [OF ex_jobs_table this r(1)] r show ?thesis by (auto simp: cron_outcome_def)
qed

end
