(* ===== verification/Llm_Types.thy ===== *)
theory Llm_Types
  imports Go_Prelude
begin

text \<open>
  The messages of the language model abstraction (\<open>llm/llmtype/types.go\<close>, \<open>stream.go\<close>) and their JSON form. A JSON text is
  represented by its value; writing a value and reading it back is the library's part. Struct fields are found by
  their exact key. \<open>any\<close> fields (tool parameters, tool choice, raw responses) are values of any type.
\<close>

section \<open>JSON values\<close>

datatype json = JNull | JBool bool | JNum int | JStr string | JArr "json list" | JObj "(string \<times> json) list"

definition json_type_error :: gerror where
  "json_type_error = Err ''json: cannot unmarshal value into Go struct field''"

text \<open>A string field: a missing key and \<open>null\<close> leave the zero value.\<close>

definition dec_string :: "json option \<Rightarrow> string res" where
  "dec_string v = (case v of
     None \<Rightarrow> Inr []
   | Some JNull \<Rightarrow> Inr []
   | Some (JStr s) \<Rightarrow> Inr s
   | Some _ \<Rightarrow> Inl json_type_error)"

text \<open>A field with \<open>omitempty\<close>.\<close>

definition opt_string :: "string \<Rightarrow> string \<Rightarrow> (string \<times> json) list" where
  "opt_string k s = (if s = [] then [] else [(k, JStr s)])"

text \<open>A failing decoder stops a list.\<close>

fun dec_list :: "(json \<Rightarrow> 'a res) \<Rightarrow> json list \<Rightarrow> 'a list res" where
  "dec_list f [] = Inr []"
| "dec_list f (v # vs) = (case f v of Inl e \<Rightarrow> Inl e | Inr x \<Rightarrow> (case dec_list f vs of Inl e \<Rightarrow> Inl e | Inr xs \<Rightarrow> Inr (x # xs)))"

section \<open>Types\<close>

type_synonym Role = string
type_synonym PartType = string
type_synonym ToolType = string
type_synonym FinishReason = string

definition PartTypeText :: PartType where "PartTypeText = ''text''"
definition PartTypeImageURL :: PartType where "PartTypeImageURL = ''image_url''"
definition FinishReasonToolCalls :: FinishReason where "FinishReasonToolCalls = ''tool_calls''"

record ImageURLData =
  iu_URL :: string
  iu_Detail :: string

text \<open>The implementations of the interface \<open>Part\<close>; an image part carries a type field of its own.\<close>

datatype Part = TextPart string | ImageUrlPart PartType ImageURLData

fun part_Type :: "Part \<Rightarrow> PartType" where
  "part_Type (TextPart _) = PartTypeText"
| "part_Type (ImageUrlPart _ _) = PartTypeImageURL"

record FunctionCall =
  fc_Name :: string
  fc_Arguments :: string

record ToolCall =
  tl_ID :: string
  tl_Type :: ToolType
  tl_Function :: FunctionCall

record Message =
  ms_Role :: Role
  ms_Content :: string
  ms_Parts :: "Part list"
  ms_ToolCalls :: "ToolCall list"
  ms_ToolCallID :: string
  ms_Name :: string

record 'a FunctionDefinition =
  fd_Name :: string
  fd_Description :: string
  fd_Parameters :: 'a

record 'a Tool =
  to_Type :: ToolType
  to_Function :: "'a FunctionDefinition"

record Usage =
  us_PromptTokens :: int
  us_CompletionTokens :: int
  us_TotalTokens :: int

record ('a, 'f) ChatRequest =
  cr_Model :: string
  cr_Messages :: "Message list"
  cr_Tools :: "'a Tool list"
  cr_ToolChoice :: 'a
  cr_Temperature :: "'f option"
  cr_MaxTokens :: int
  cr_TopP :: "'f option"
  cr_TraceID :: string
  cr_TaskID :: string

record 'r ChatResponse =
  cs_ID :: string
  cs_Content :: string
  cs_ToolCalls :: "ToolCall list"
  cs_FinishReason :: FinishReason
  cs_Usage :: Usage
  cs_RawResponse :: 'r

record StreamChunk =
  sk_ID :: string
  sk_Content :: string
  sk_ToolCalls :: "ToolCall list"
  sk_FinishReason :: FinishReason
  sk_Usage :: "Usage option"
  sk_Done :: bool

section \<open>Messages as JSON\<close>

definition enc_toolcall :: "ToolCall \<Rightarrow> json" where
  "enc_toolcall t = JObj [(''id'', JStr (tl_ID t)), (''type'', JStr (tl_Type t)),
     (''function'', JObj [(''name'', JStr (fc_Name (tl_Function t))), (''arguments'', JStr (fc_Arguments (tl_Function t)))])]"

text \<open>\<open>json.Marshal\<close> of a part uses the field tags only.\<close>

fun enc_part :: "Part \<Rightarrow> json" where
  "enc_part (TextPart t) = JObj [(''text'', JStr t)]"
| "enc_part (ImageUrlPart ty d) =
     JObj [(''type'', JStr ty), (''image_url'', JObj ((''url'', JStr (iu_URL d)) # opt_string ''detail'' (iu_Detail d)))]"

definition common_fields :: "Message \<Rightarrow> (string \<times> json) list" where
  "common_fields m = (if ms_ToolCalls m = [] then [] else [(''tool_calls'', JArr (map enc_toolcall (ms_ToolCalls m)))]) @
     opt_string ''tool_call_id'' (ms_ToolCallID m) @ opt_string ''name'' (ms_Name m)"

text \<open>\<open>bytesJoin\<close> writes the array of the parts.\<close>

definition bytesJoin :: "json list \<Rightarrow> json" where
  "bytesJoin parts = JArr parts"

definition msg_MarshalJSON :: "Message \<Rightarrow> json" where
  "msg_MarshalJSON m = (if ms_Parts m \<noteq> []
     then JObj ([(''role'', JStr (ms_Role m)), (''content'', bytesJoin (map enc_part (ms_Parts m)))] @ common_fields m)
     else JObj ((''role'', JStr (ms_Role m)) # opt_string ''content'' (ms_Content m) @ common_fields m))"

definition fields :: "json \<Rightarrow> (string \<times> json) list res" where
  "fields v = (case v of JObj kvs \<Rightarrow> Inr kvs | JNull \<Rightarrow> Inr [] | _ \<Rightarrow> Inl json_type_error)"

definition dec_function :: "json option \<Rightarrow> FunctionCall res" where
  "dec_function v = (case v of
     None \<Rightarrow> Inr \<lparr>fc_Name = [], fc_Arguments = []\<rparr>
   | Some x \<Rightarrow> (case fields x of
       Inl e \<Rightarrow> Inl e
     | Inr kvs \<Rightarrow> (case (dec_string (map_of kvs ''name''), dec_string (map_of kvs ''arguments'')) of
         (Inr n, Inr a) \<Rightarrow> Inr \<lparr>fc_Name = n, fc_Arguments = a\<rparr>
       | _ \<Rightarrow> Inl json_type_error)))"

definition dec_toolcall :: "json \<Rightarrow> ToolCall res" where
  "dec_toolcall v = (case fields v of
     Inl e \<Rightarrow> Inl e
   | Inr kvs \<Rightarrow> (case (dec_string (map_of kvs ''id''), dec_string (map_of kvs ''type''), dec_function (map_of kvs ''function'')) of
       (Inr i, Inr t, Inr f) \<Rightarrow> Inr \<lparr>tl_ID = i, tl_Type = t, tl_Function = f\<rparr>
     | _ \<Rightarrow> Inl json_type_error))"

definition dec_toolcalls :: "json option \<Rightarrow> ToolCall list res" where
  "dec_toolcalls v = (case v of
     None \<Rightarrow> Inr []
   | Some JNull \<Rightarrow> Inr []
   | Some (JArr vs) \<Rightarrow> dec_list dec_toolcall vs
   | Some _ \<Rightarrow> Inl json_type_error)"

definition dec_imageurl :: "json option \<Rightarrow> ImageURLData res" where
  "dec_imageurl v = (case v of
     None \<Rightarrow> Inr \<lparr>iu_URL = [], iu_Detail = []\<rparr>
   | Some x \<Rightarrow> (case fields x of
       Inl e \<Rightarrow> Inl e
     | Inr kvs \<Rightarrow> (case (dec_string (map_of kvs ''url''), dec_string (map_of kvs ''detail'')) of
         (Inr u, Inr d) \<Rightarrow> Inr \<lparr>iu_URL = u, iu_Detail = d\<rparr>
       | _ \<Rightarrow> Inl json_type_error)))"

text \<open>One element of a content array: its type decides how it is read.\<close>

definition dec_part :: "json \<Rightarrow> Part res" where
  "dec_part raw = (case fields raw of
     Inl e \<Rightarrow> Inl e
   | Inr kvs \<Rightarrow> (case dec_string (map_of kvs ''type'') of
       Inl e \<Rightarrow> Inl e
     | Inr ty \<Rightarrow>
         (if ty = PartTypeText then (case dec_string (map_of kvs ''text'') of Inl e \<Rightarrow> Inl e | Inr t \<Rightarrow> Inr (TextPart t))
          else if ty = PartTypeImageURL then (case dec_imageurl (map_of kvs ''image_url'') of Inl e \<Rightarrow> Inl e | Inr d \<Rightarrow> Inr (ImageUrlPart ty d))
          else Inl (Err (''unknown part type: '' @ ty)))))"

text \<open>Into a fresh message.\<close>

definition msg_UnmarshalJSON :: "json \<Rightarrow> Message res" where
  "msg_UnmarshalJSON data = (case fields data of
     Inl e \<Rightarrow> Inl e
   | Inr kvs \<Rightarrow> (case (dec_string (map_of kvs ''role''), dec_toolcalls (map_of kvs ''tool_calls''),
         dec_string (map_of kvs ''tool_call_id''), dec_string (map_of kvs ''name'')) of
       (Inr role, Inr tcs, Inr tid, Inr name) \<Rightarrow>
         (let m = \<lparr>ms_Role = role, ms_Content = [], ms_Parts = [], ms_ToolCalls = tcs, ms_ToolCallID = tid, ms_Name = name\<rparr>
          in case map_of kvs ''content'' of
               None \<Rightarrow> Inr m
             | Some (JStr s) \<Rightarrow> Inr (m\<lparr>ms_Content := s\<rparr>)
             | Some (JArr raws) \<Rightarrow> (case dec_list dec_part raws of Inl e \<Rightarrow> Inl e | Inr ps \<Rightarrow> Inr (m\<lparr>ms_Parts := ps\<rparr>))
             | Some v \<Rightarrow> (case dec_string (Some v) of Inl e \<Rightarrow> Inl e | Inr s \<Rightarrow> Inr (m\<lparr>ms_Content := s\<rparr>)))
     | _ \<Rightarrow> Inl json_type_error))"


section \<open>Reading back what was written\<close>

text \<open>The fields of a written message are looked up by keys that differ from each other.\<close>

lemma map_of_opt_string [simp]: "map_of (opt_string k s) k' = (if k = k' \<and> s \<noteq> [] then Some (JStr s) else None)"
  by (simp add: opt_string_def)

lemma dec_string_simps [simp]:
  "dec_string None = Inr []" "dec_string (Some JNull) = Inr []" "dec_string (Some (JStr s)) = Inr s"
  by (simp_all add: dec_string_def)

lemma fields_JObj [simp]: "fields (JObj kvs) = Inr kvs"
  by (simp add: fields_def)

lemma dec_enc_toolcall [simp]: "dec_toolcall (enc_toolcall t) = Inr t"
  by (simp add: dec_toolcall_def enc_toolcall_def dec_function_def)

lemma dec_list_map:
  assumes "\<And>x. x \<in> set xs \<Longrightarrow> f (g x) = Inr x"
  shows "dec_list f (map g xs) = Inr xs"
  using assms by (induction xs) simp_all

lemma dec_enc_toolcalls:
  "dec_toolcalls (map_of (common_fields m) ''tool_calls'') = Inr (ms_ToolCalls m)"
  by (simp add: common_fields_def dec_toolcalls_def map_add_def dec_list_map)

lemma dec_common_strings:
  "dec_string (map_of (common_fields m) ''tool_call_id'') = Inr (ms_ToolCallID m)"
  "dec_string (map_of (common_fields m) ''name'') = Inr (ms_Name m)"
  by (auto simp: common_fields_def map_add_def split: option.split)

lemma common_fields_content [simp]: "map_of (common_fields m) ''content'' = None"
  by (simp add: common_fields_def map_add_def)

text \<open>What reading makes of a written part: the type field of an image part decides, a text part has none.\<close>

fun reread_part :: "Part \<Rightarrow> Part res" where
  "reread_part (TextPart t) = Inl (Err ''unknown part type: '')"
| "reread_part (ImageUrlPart ty d) =
     (if ty = PartTypeText then Inr (TextPart [])
      else if ty = PartTypeImageURL then Inr (ImageUrlPart ty d)
      else Inl (Err (''unknown part type: '' @ ty)))"

lemma dec_enc_part: "dec_part (enc_part p) = reread_part p"
  by (cases p) (simp_all add: dec_part_def dec_imageurl_def PartTypeText_def PartTypeImageURL_def)

fun readable_part :: "Part \<Rightarrow> bool" where
  "readable_part (TextPart t) = False"
| "readable_part (ImageUrlPart ty d) = (ty = PartTypeImageURL)"

lemma reread_part_same: "reread_part p = Inr p \<longleftrightarrow> readable_part p"
  by (cases p) (auto simp: PartTypeText_def PartTypeImageURL_def)

lemma dec_list_same: "dec_list (dec_part) (map enc_part ps) = Inr ps \<longleftrightarrow> list_all readable_part ps"
  by (induction ps) (auto simp: dec_enc_part reread_part_same [symmetric] split: sum.splits)

lemma dec_list_text: "TextPart t \<in> set ps \<Longrightarrow> isl (dec_list dec_part (map enc_part ps))"
  by (induction ps) (auto simp: dec_enc_part split: sum.splits)

lemma reread_message:
  "msg_UnmarshalJSON (msg_MarshalJSON m) =
     (if ms_Parts m = [] then Inr m
      else case dec_list dec_part (map enc_part (ms_Parts m)) of
             Inl e \<Rightarrow> Inl e | Inr ps \<Rightarrow> Inr (m\<lparr>ms_Content := [], ms_Parts := ps\<rparr>))"
proof (cases "ms_Parts m = []")
  case True
  then show ?thesis
    by (simp add: msg_UnmarshalJSON_def msg_MarshalJSON_def map_add_def dec_enc_toolcalls dec_common_strings
        Let_def split: option.split)
next
  case False
  then show ?thesis
    by (simp add: msg_UnmarshalJSON_def msg_MarshalJSON_def bytesJoin_def dec_enc_toolcalls dec_common_strings
        Let_def split: sum.split)
qed

text \<open> A message is read back as it was written exactly when it has no parts, or only image parts whose type field is
  \<open>image_url\<close> and no text content beside them.
\<close>
theorem message_roundtrip:
  "msg_UnmarshalJSON (msg_MarshalJSON m) = Inr m \<longleftrightarrow>
     ms_Parts m = [] \<or> ms_Content m = [] \<and> list_all readable_part (ms_Parts m)"
  by (cases m) (auto simp: reread_message dec_list_same [symmetric] split: sum.split)

text \<open>A message with a text part cannot be read back: a text part is written without its type.\<close>
theorem text_part_unreadable:
  assumes "TextPart t \<in> set (ms_Parts m)"
  shows "isl (msg_UnmarshalJSON (msg_MarshalJSON m))"
  using dec_list_text [OF assms] assms by (auto simp: reread_message split: sum.split)

end
