(* ===== verification/Llm_Openai.thy ===== *)
theory Llm_Openai
  imports Llm_Types "HOL-Library.AList"
begin

text \<open>
  The OpenAI driver (\<open>llm/provider/openai\<close>) and the registry of drivers (\<open>llm/factory.go\<close>, \<open>llm/option.go\<close>). The
  types of the SDK are records with the fields the driver reads or writes. The SDK's calls are parameters; the
  stream of one call is the list of the responses \<open>Recv\<close> returns before its first error, and that error.

  Tool calls arrive in pieces. The cache that collects them is a Go map, kept as an association list; the order in which
  Go iterates over it is the parameter \<open>ord\<close>, which may give another order each time.
\<close>

section \<open>The types of the SDK\<close>

record ImageURL =
  ci_URL :: string
  ci_Detail :: string

record ChatMessagePart =
  cp_Type :: string
  cp_Text :: string
  cp_ImageURL :: "ImageURL option"

record oai_ToolCall =
  od_Index :: "int option"
  od_ID :: string
  od_Type :: string
  od_Name :: string
  od_Arguments :: string

record ChatCompletionMessage =
  cm_Role :: string
  cm_Content :: string
  cm_MultiContent :: "ChatMessagePart list"
  cm_ToolCalls :: "oai_ToolCall list"
  cm_ToolCallID :: string
  cm_Name :: string

record ('a, 'f) ChatCompletionRequest =
  cq_Model :: string
  cq_Messages :: "ChatCompletionMessage list"
  cq_MaxTokens :: int
  cq_Temperature :: 'f
  cq_TopP :: 'f
  cq_Tools :: "'a Tool list"
  cq_ToolChoice :: 'a

record Choice =
  ch_Message :: ChatCompletionMessage
  ch_FinishReason :: string

record ChatCompletionResponse =
  rs_ID :: string
  rs_Choices :: "Choice list"
  rs_Usage :: Usage

record StreamChoice =
  sc_Content :: string
  sc_ToolCalls :: "oai_ToolCall list"
  sc_FinishReason :: string

record ChatCompletionStreamResponse =
  sr_ID :: string
  sr_Choices :: "StreamChoice list"
  sr_Usage :: "Usage option"

definition ChatMessagePartTypeText :: string where "ChatMessagePartTypeText = ''text''"
definition ChatMessagePartTypeImageURL :: string where "ChatMessagePartTypeImageURL = ''image_url''"

section \<open>Requests\<close>

fun convertPart :: "Part \<Rightarrow> ChatMessagePart" where
  "convertPart (TextPart t) = \<lparr>cp_Type = ChatMessagePartTypeText, cp_Text = t, cp_ImageURL = None\<rparr>"
| "convertPart (ImageUrlPart _ d) =
     \<lparr>cp_Type = ChatMessagePartTypeImageURL, cp_Text = [], cp_ImageURL = Some \<lparr>ci_URL = iu_URL d, ci_Detail = iu_Detail d\<rparr>\<rparr>"

definition convertParts :: "Part list \<Rightarrow> ChatMessagePart list" where
  "convertParts parts = map convertPart parts"

definition convertTools :: "'a Tool list \<Rightarrow> 'a Tool list" where
  "convertTools tools = map (\<lambda>t. \<lparr>to_Type = to_Type t, to_Function = \<lparr>fd_Name = fd_Name (to_Function t),
     fd_Description = fd_Description (to_Function t), fd_Parameters = fd_Parameters (to_Function t)\<rparr>\<rparr>) tools"

definition convertToolCalls :: "ToolCall list \<Rightarrow> oai_ToolCall list" where
  "convertToolCalls tcs = map (\<lambda>tc. \<lparr>od_Index = None, od_ID = tl_ID tc, od_Type = tl_Type tc,
     od_Name = fc_Name (tl_Function tc), od_Arguments = fc_Arguments (tl_Function tc)\<rparr>) tcs"

definition convertMessage :: "Message \<Rightarrow> ChatCompletionMessage" where
  "convertMessage msg = (let m = \<lparr>cm_Role = ms_Role msg, cm_Content = ms_Content msg, cm_MultiContent = [],
       cm_ToolCalls = convertToolCalls (ms_ToolCalls msg), cm_ToolCallID = ms_ToolCallID msg, cm_Name = ms_Name msg\<rparr>
     in if ms_Parts msg \<noteq> [] then m\<lparr>cm_Content := [], cm_MultiContent := convertParts (ms_Parts msg)\<rparr> else m)"

definition convertMessages :: "Message list \<Rightarrow> ChatCompletionMessage list" where
  "convertMessages msgs = map convertMessage msgs"

definition convertRequest :: "('a, 'f::zero) ChatRequest \<Rightarrow> ('a, 'f) ChatCompletionRequest" where
  "convertRequest req = \<lparr>cq_Model = cr_Model req, cq_Messages = convertMessages (cr_Messages req),
     cq_MaxTokens = cr_MaxTokens req,
     cq_Temperature = (case cr_Temperature req of None \<Rightarrow> 0 | Some t \<Rightarrow> t),
     cq_TopP = (case cr_TopP req of None \<Rightarrow> 0 | Some p \<Rightarrow> p),
     cq_Tools = convertTools (cr_Tools req), cq_ToolChoice = cr_ToolChoice req\<rparr>"

section \<open>Responses\<close>

fun extractTextFromMultiContent :: "ChatMessagePart list \<Rightarrow> string" where
  "extractTextFromMultiContent [] = []"
| "extractTextFromMultiContent (p # ps) =
     (if cp_Type p = ChatMessagePartTypeText then cp_Text p else []) @ extractTextFromMultiContent ps"

definition convertResponseToolCalls :: "oai_ToolCall list \<Rightarrow> ToolCall list" where
  "convertResponseToolCalls tcs = map (\<lambda>tc. \<lparr>tl_ID = od_ID tc, tl_Type = od_Type tc,
     tl_Function = \<lparr>fc_Name = od_Name tc, fc_Arguments = od_Arguments tc\<rparr>\<rparr>) tcs"

definition convertUsage :: "Usage \<Rightarrow> Usage" where
  "convertUsage u = \<lparr>us_PromptTokens = us_PromptTokens u, us_CompletionTokens = us_CompletionTokens u,
     us_TotalTokens = us_TotalTokens u\<rparr>"

definition convertResponse :: "ChatCompletionResponse \<Rightarrow> ChatCompletionResponse ChatResponse" where
  "convertResponse resp =
    (let r = \<lparr>cs_ID = rs_ID resp, cs_Content = [], cs_ToolCalls = [], cs_FinishReason = [],
              cs_Usage = convertUsage (rs_Usage resp), cs_RawResponse = resp\<rparr>
     in case rs_Choices resp of
          [] \<Rightarrow> r
        | c # _ \<Rightarrow> r\<lparr>cs_Content := (if cm_MultiContent (ch_Message c) \<noteq> []
                        then extractTextFromMultiContent (cm_MultiContent (ch_Message c)) else cm_Content (ch_Message c)),
                     cs_FinishReason := ch_FinishReason c,
                     cs_ToolCalls := convertResponseToolCalls (cm_ToolCalls (ch_Message c))\<rparr>)"

definition convertStreamToolCalls :: "oai_ToolCall list \<Rightarrow> ToolCall list" where
  "convertStreamToolCalls tcs = map (\<lambda>tc. \<lparr>tl_ID = od_ID tc, tl_Type = od_Type tc,
     tl_Function = \<lparr>fc_Name = od_Name tc, fc_Arguments = od_Arguments tc\<rparr>\<rparr>) tcs"

definition convertStreamChunk :: "ChatCompletionStreamResponse \<Rightarrow> StreamChunk" where
  "convertStreamChunk resp =
    (let chunk = \<lparr>sk_ID = sr_ID resp, sk_Content = [], sk_ToolCalls = [], sk_FinishReason = [],
                  sk_Usage = map_option (\<lambda>u. \<lparr>us_PromptTokens = us_PromptTokens u,
                    us_CompletionTokens = us_CompletionTokens u, us_TotalTokens = us_TotalTokens u\<rparr>) (sr_Usage resp),
                  sk_Done = False\<rparr>
     in case sr_Choices resp of
          [] \<Rightarrow> chunk
        | c # _ \<Rightarrow> chunk\<lparr>sk_Content := sc_Content c, sk_FinishReason := sc_FinishReason c,
                         sk_ToolCalls := (if sc_ToolCalls c \<noteq> [] then convertStreamToolCalls (sc_ToolCalls c) else [])\<rparr>)"

section \<open>Streams\<close>

type_synonym toolcall_cache = "(int \<times> ToolCall) list"
type_synonym iteration = "nat \<Rightarrow> (int \<times> ToolCall) list \<Rightarrow> (int \<times> ToolCall) list"

text \<open>One round of the merging loop.\<close>

definition merge_delta :: "toolcall_cache \<Rightarrow> oai_ToolCall \<Rightarrow> toolcall_cache" where
  "merge_delta cache d = (case od_Index d of
     None \<Rightarrow> cache
   | Some idx \<Rightarrow> (case map_of cache idx of
       None \<Rightarrow> AList.update idx \<lparr>tl_ID = (if od_ID d \<noteq> [] then od_ID d else []), tl_Type = od_Type d,
                  tl_Function = \<lparr>fc_Name = od_Name d, fc_Arguments = od_Arguments d\<rparr>\<rparr> cache
     | Some tc \<Rightarrow> AList.update idx
         (tc\<lparr>tl_ID := (if od_ID d \<noteq> [] then od_ID d else tl_ID tc),
             tl_Function := \<lparr>fc_Name = (if od_Name d \<noteq> [] then fc_Name (tl_Function tc) @ od_Name d
                                         else fc_Name (tl_Function tc)),
                             fc_Arguments = (if od_Arguments d \<noteq> [] then fc_Arguments (tl_Function tc) @ od_Arguments d
                                              else fc_Arguments (tl_Function tc))\<rparr>\<rparr>) cache))"

text \<open>The new cache, and the tool calls in the order of iteration number \<open>n\<close>.\<close>

definition mergeStreamToolCalls :: "iteration \<Rightarrow> nat \<Rightarrow> toolcall_cache \<Rightarrow> oai_ToolCall list \<Rightarrow> toolcall_cache \<times> ToolCall list" where
  "mergeStreamToolCalls ord n cache deltas =
     (let cache' = foldl merge_delta cache deltas in (cache', map snd (ord n cache')))"

definition flushToolCallCache :: "iteration \<Rightarrow> nat \<Rightarrow> toolcall_cache \<Rightarrow> ToolCall list" where
  "flushToolCallCache ord n cache = map snd (ord n cache)"

definition io_EOF :: gerror where "io_EOF = Err ''EOF''"

definition isStreamEOF :: "gerror \<Rightarrow> bool" where
  "isStreamEOF e = errors_is e io_EOF"

definition doneChunk :: StreamChunk where
  "doneChunk = \<lparr>sk_ID = [], sk_Content = [], sk_ToolCalls = [], sk_FinishReason = [], sk_Usage = None, sk_Done = True\<rparr>"

text \<open>
  The body of the loop for one response: the cache afterwards and the chunk. Iterations are numbered two per response.
\<close>

definition stream_round ::
  "iteration \<Rightarrow> nat \<Rightarrow> toolcall_cache \<Rightarrow> ChatCompletionStreamResponse \<Rightarrow> toolcall_cache \<times> StreamChunk" where
  "stream_round ord n cache resp =
    (let chunk = convertStreamChunk resp;
         (cache', chunk') = (case sr_Choices resp of
             [] \<Rightarrow> (cache, chunk)
           | c # _ \<Rightarrow> (if sc_ToolCalls c \<noteq> [] then (let (k, tcs) = mergeStreamToolCalls ord (2 * n) cache (sc_ToolCalls c)
                                                     in (k, chunk\<lparr>sk_ToolCalls := tcs\<rparr>))
                       else (cache, chunk)))
     in case sr_Choices resp of
          [] \<Rightarrow> (cache', chunk')
        | c # _ \<Rightarrow> (cache', if sc_FinishReason c = FinishReasonToolCalls
                            then chunk'\<lparr>sk_ToolCalls := flushToolCallCache ord (2 * n + 1) cache'\<rparr> else chunk'))"

text \<open>
  The handler is a function on a state of its own: \<open>handler h (Inr chunk)\<close> is \<open>handler(chunk, nil)\<close> and
  \<open>handler h (Inl err)\<close> is \<open>handler(nil, err)\<close>. The result is the handler's state and the returned error.
\<close>

fun handleStream_from :: "iteration \<Rightarrow> ('h \<Rightarrow> StreamChunk res \<Rightarrow> bool \<times> 'h) \<Rightarrow> nat \<Rightarrow> toolcall_cache \<Rightarrow>
    ChatCompletionStreamResponse list \<Rightarrow> gerror \<Rightarrow> 'h \<Rightarrow> 'h \<times> gerror option" where
  "handleStream_from ord handler n cache [] err h =
     (if isStreamEOF err then (let (cont, h') = handler h (Inr doneChunk) in (h', None))
      else (let (cont, h') = handler h (Inl err) in (h', if \<not> cont then None else Some err)))"
| "handleStream_from ord handler n cache (resp # resps) err h =
     (let (cache', chunk) = stream_round ord n cache resp; (cont, h') = handler h (Inr chunk)
      in if \<not> cont then (h', None) else handleStream_from ord handler (Suc n) cache' resps err h')"

definition handleStream :: "iteration \<Rightarrow> ('h \<Rightarrow> StreamChunk res \<Rightarrow> bool \<times> 'h) \<Rightarrow>
    ChatCompletionStreamResponse list \<Rightarrow> gerror \<Rightarrow> 'h \<Rightarrow> 'h \<times> gerror option" where
  "handleStream ord handler = handleStream_from ord handler 0 []"

section \<open>The client\<close>

record Client =
  cl_key :: string
  cl_base :: string
  cl_proxy :: "string option"
  cl_defaultModel :: string

definition with_model :: "Client \<Rightarrow> ('a, 'f) ChatRequest \<Rightarrow> ('a, 'f) ChatRequest" where
  "with_model c req = (if cr_Model req = [] then req\<lparr>cr_Model := cl_defaultModel c\<rparr> else req)"

text \<open>Both calls set the model in the caller's request, which is the first component of the result.\<close>

definition Chat :: "(('a, 'f::zero) ChatCompletionRequest \<Rightarrow> ChatCompletionResponse res) \<Rightarrow> Client \<Rightarrow> ('a, 'f) ChatRequest \<Rightarrow>
    ('a, 'f) ChatRequest \<times> ChatCompletionResponse ChatResponse res" where
  "Chat CreateChatCompletion c req = (let req' = with_model c req
     in (req', case CreateChatCompletion (convertRequest req') of Inl e \<Rightarrow> Inl e | Inr resp \<Rightarrow> Inr (convertResponse resp)))"

definition ChatStream ::
  "(('a, 'f::zero) ChatCompletionRequest \<Rightarrow> (ChatCompletionStreamResponse list \<times> gerror) res) \<Rightarrow> iteration \<Rightarrow> Client \<Rightarrow>
    ('a, 'f) ChatRequest \<Rightarrow> ('h \<Rightarrow> StreamChunk res \<Rightarrow> bool \<times> 'h) \<Rightarrow> 'h \<Rightarrow> ('a, 'f) ChatRequest \<times> 'h \<times> gerror option" where
  "ChatStream CreateChatCompletionStream ord c req handler h = (let req' = with_model c req
     in (req', case CreateChatCompletionStream (convertRequest req') of
          Inl e \<Rightarrow> (h, Some e)
        | Inr (resps, err) \<Rightarrow> handleStream ord handler resps err h))"

section \<open>Drivers\<close>

record Config =
  cf_BaseURL :: string
  cf_ProxyURL :: string
  cf_ModelName :: string

type_synonym llm_option = "Config \<Rightarrow> Config"

definition WithBaseURL :: "string \<Rightarrow> llm_option" where "WithBaseURL u cfg = cfg\<lparr>cf_BaseURL := u\<rparr>"
definition WithProxy :: "string \<Rightarrow> llm_option" where "WithProxy u cfg = cfg\<lparr>cf_ProxyURL := u\<rparr>"
definition WithDefaultModel :: "string \<Rightarrow> llm_option" where "WithDefaultModel m cfg = cfg\<lparr>cf_ModelName := m\<rparr>"

type_synonym ProviderFactory = "string \<Rightarrow> llm_option list \<Rightarrow> Client res"

text \<open>\<open>url.Parse\<close> accepts or rejects the proxy; \<open>DefaultConfig\<close> has the SDK's base address.\<close>

definition newFactory :: "(string \<Rightarrow> bool) \<Rightarrow> string \<Rightarrow> ProviderFactory" where
  "newFactory url_ok default_base apiKey opts =
    (let cfg = foldl (\<lambda>c opt. opt c) \<lparr>cf_BaseURL = [], cf_ProxyURL = [], cf_ModelName = []\<rparr> opts;
         base = (if cf_BaseURL cfg \<noteq> [] then cf_BaseURL cfg else default_base)
     in if cf_ProxyURL cfg \<noteq> []
        then (if \<not> url_ok (cf_ProxyURL cfg) then Inl (Err (''invalid proxy url: '' @ cf_ProxyURL cfg))
              else Inr \<lparr>cl_key = apiKey, cl_base = base, cl_proxy = Some (cf_ProxyURL cfg), cl_defaultModel = cf_ModelName cfg\<rparr>)
        else Inr \<lparr>cl_key = apiKey, cl_base = base, cl_proxy = None, cl_defaultModel = cf_ModelName cfg\<rparr>)"

type_synonym provider_registry = "string \<rightharpoonup> ProviderFactory"

definition RegisterProvider :: "provider_registry \<Rightarrow> string \<Rightarrow> ProviderFactory \<Rightarrow> provider_registry" where
  "RegisterProvider providers name factory = providers(name \<mapsto> factory)"

definition llm_Register :: "(string \<Rightarrow> bool) \<Rightarrow> string \<Rightarrow> provider_registry \<Rightarrow> provider_registry" where
  "llm_Register url_ok default_base providers = RegisterProvider providers ''openai'' (newFactory url_ok default_base)"

definition llm_NewClient :: "provider_registry \<Rightarrow> string \<Rightarrow> string \<Rightarrow> llm_option list \<Rightarrow> Client res" where
  "llm_NewClient providers provider apiKey opts = (case providers provider of
     None \<Rightarrow> Inl (Err (''unsupported llm provider: '' @ provider))
   | Some factory \<Rightarrow> factory apiKey opts)"


section \<open>What a tool call is assembled from\<close>

definition deltas_for :: "int \<Rightarrow> oai_ToolCall list \<Rightarrow> oai_ToolCall list" where
  "deltas_for i ds = filter (\<lambda>d. od_Index d = Some i) ds"

definition last_id :: "oai_ToolCall list \<Rightarrow> string" where
  "last_id ds = (case filter (\<lambda>s. s \<noteq> []) (map od_ID ds) of [] \<Rightarrow> [] | s # ss \<Rightarrow> last (s # ss))"

definition assembled :: "oai_ToolCall list \<Rightarrow> ToolCall" where
  "assembled ds = \<lparr>tl_ID = last_id ds, tl_Type = od_Type (hd ds),
     tl_Function = \<lparr>fc_Name = concat (map od_Name ds), fc_Arguments = concat (map od_Arguments ds)\<rparr>\<rparr>"

text \<open>One call per index, in the order the indices appeared.\<close>

definition all_calls :: "oai_ToolCall list \<Rightarrow> ToolCall list" where
  "all_calls ds = map (\<lambda>i. assembled (deltas_for i ds)) (rev (remdups (rev (List.map_filter od_Index ds))))"

lemma last_id_snoc: "last_id (ds @ [d]) = (if od_ID d \<noteq> [] then od_ID d else last_id ds)"
  by (simp add: last_id_def split: list.split) (auto simp: append_eq_Cons_conv)

lemma assembled_single: "assembled [d] = \<lparr>tl_ID = od_ID d, tl_Type = od_Type d,
     tl_Function = \<lparr>fc_Name = od_Name d, fc_Arguments = od_Arguments d\<rparr>\<rparr>"
  by (simp add: assembled_def last_id_def)

lemma assembled_snoc:
  assumes "ds \<noteq> []"
  shows "assembled (ds @ [d]) = \<lparr>tl_ID = (if od_ID d \<noteq> [] then od_ID d else tl_ID (assembled ds)), tl_Type = tl_Type (assembled ds),
     tl_Function = \<lparr>fc_Name = fc_Name (tl_Function (assembled ds)) @ od_Name d,
                    fc_Arguments = fc_Arguments (tl_Function (assembled ds)) @ od_Arguments d\<rparr>\<rparr>"
  using assms by (simp add: assembled_def last_id_snoc)

lemma deltas_for_snoc: "deltas_for i (ds @ [d]) = deltas_for i ds @ (if od_Index d = Some i then [d] else [])"
  by (simp add: deltas_for_def)

lemma merge_delta_lookup:
  "map_of (merge_delta c d) i = (if od_Index d \<noteq> Some i then map_of c i
     else case map_of c i of
       None \<Rightarrow> Some (assembled [d])
     | Some tc \<Rightarrow> Some \<lparr>tl_ID = (if od_ID d \<noteq> [] then od_ID d else tl_ID tc), tl_Type = tl_Type tc,
         tl_Function = \<lparr>fc_Name = fc_Name (tl_Function tc) @ od_Name d,
                        fc_Arguments = fc_Arguments (tl_Function tc) @ od_Arguments d\<rparr>\<rparr>)"
  by (auto simp: merge_delta_def update_conv' assembled_single split: option.split)

lemma merged_lookup:
  "map_of (foldl merge_delta [] ds) i = (if deltas_for i ds = [] then None else Some (assembled (deltas_for i ds)))"
proof (induction ds rule: rev_induct)
  case Nil
  then show ?case by (simp add: deltas_for_def)
next
  case (snoc d ds)
  then show ?case
    by (simp add: merge_delta_lookup deltas_for_snoc assembled_snoc)
qed

lemma merge_delta_distinct: "distinct (map fst c) \<Longrightarrow> distinct (map fst (merge_delta c d))"
  by (simp add: merge_delta_def distinct_update split: option.split)

lemma merged_distinct: "distinct (map fst (foldl merge_delta [] ds))"
  by (induction ds rule: rev_induct) (simp_all add: merge_delta_distinct)

lemma merged_keys: "fst ` set (foldl merge_delta [] ds) = set (List.map_filter od_Index ds)"
proof -
  have "fst ` set (foldl merge_delta [] ds) = {i. deltas_for i ds \<noteq> []}"
    unfolding dom_map_of_conv_image_fst [symmetric] by (auto simp: merged_lookup dom_def)
  also have "\<dots> = set (List.map_filter od_Index ds)"
    by (force simp: deltas_for_def filter_empty_conv List.map_filter_def)
  finally show ?thesis .
qed

lemma merged_mset: "mset (map snd (foldl merge_delta [] ds)) = mset (all_calls ds)"
proof -
  let ?c = "foldl merge_delta [] ds"
  have "mset (map fst ?c) = mset (rev (remdups (rev (List.map_filter od_Index ds))))"
    using merged_distinct merged_keys [of ds] by (intro iffD1 [OF set_eq_iff_mset_eq_distinct]) auto
  moreover have "map snd ?c = map (\<lambda>i. assembled (deltas_for i ds)) (map fst ?c)"
  proof -
    have "snd p = assembled (deltas_for (fst p) ds)" if "p \<in> set ?c" for p
      using that merged_lookup [of ds "fst p"] map_of_is_SomeI [OF merged_distinct, of "fst p" "snd p" ds]
      by (auto split: if_splits)
    then show ?thesis by simp
  qed
  ultimately show ?thesis
    unfolding all_calls_def by (metis mset_map)
qed

section \<open>The chunks of a stream\<close>

fun stream_chunks :: "iteration \<Rightarrow> nat \<Rightarrow> toolcall_cache \<Rightarrow> ChatCompletionStreamResponse list \<Rightarrow> StreamChunk list" where
  "stream_chunks ord n cache [] = []"
| "stream_chunks ord n cache (resp # resps) =
     snd (stream_round ord n cache resp) # stream_chunks ord (Suc n) (fst (stream_round ord n cache resp)) resps"

definition stream_events :: "iteration \<Rightarrow> ChatCompletionStreamResponse list \<Rightarrow> gerror \<Rightarrow> StreamChunk res list" where
  "stream_events ord resps err =
     map Inr (stream_chunks ord 0 [] resps) @ [if isStreamEOF err then Inr doneChunk else Inl err]"

definition first_deltas :: "ChatCompletionStreamResponse \<Rightarrow> oai_ToolCall list" where
  "first_deltas resp = (case sr_Choices resp of [] \<Rightarrow> [] | c # _ \<Rightarrow> sc_ToolCalls c)"

definition finish_reason :: "ChatCompletionStreamResponse \<Rightarrow> string" where
  "finish_reason resp = (case sr_Choices resp of [] \<Rightarrow> [] | c # _ \<Rightarrow> sc_FinishReason c)"

lemma length_stream_chunks [simp]: "length (stream_chunks ord n cache resps) = length resps"
  by (induction resps arbitrary: n cache) simp_all

lemma stream_round_cache: "fst (stream_round ord n cache resp) = foldl merge_delta cache (first_deltas resp)"
  by (simp add: stream_round_def first_deltas_def mergeStreamToolCalls_def Let_def split: list.split)

lemma stream_round_fields:
  "sk_ID (snd (stream_round ord n cache resp)) = sr_ID resp"
  "sk_Content (snd (stream_round ord n cache resp)) = (case sr_Choices resp of [] \<Rightarrow> [] | c # _ \<Rightarrow> sc_Content c)"
  "sk_FinishReason (snd (stream_round ord n cache resp)) = finish_reason resp"
  "sk_Usage (snd (stream_round ord n cache resp)) = sr_Usage resp"
  "\<not> sk_Done (snd (stream_round ord n cache resp))"
  by (simp_all add: stream_round_def finish_reason_def convertStreamChunk_def mergeStreamToolCalls_def Let_def map_option_idI
      split: list.split)

lemma stream_round_calls:
  assumes ord: "\<And>n xs. mset (ord n xs) = mset xs"
  shows "mset (sk_ToolCalls (snd (stream_round ord n (foldl merge_delta [] ds) resp))) =
    (if first_deltas resp \<noteq> [] \<or> finish_reason resp = FinishReasonToolCalls then mset (all_calls (ds @ first_deltas resp)) else {#})"
proof -
  have out: "mset (map snd (ord k (foldl merge_delta [] xs))) = mset (all_calls xs)" for k xs
    by (metis merged_mset mset_map ord)
  have "FinishReasonToolCalls \<noteq> []" by (simp add: FinishReasonToolCalls_def)
  then show ?thesis
    using out [of _ "ds @ first_deltas resp"] out [of _ ds]
    by (auto simp: stream_round_def first_deltas_def finish_reason_def convertStreamChunk_def mergeStreamToolCalls_def
        flushToolCallCache_def Let_def split: list.splits)
qed

lemma stream_chunks_nth:
  assumes "i < length resps"
  shows "\<exists>n. stream_chunks ord k (foldl merge_delta [] ds) resps ! i =
    snd (stream_round ord n (foldl merge_delta [] (ds @ concat (map first_deltas (take i resps)))) (resps ! i))"
  using assms
proof (induction resps arbitrary: i k ds)
  case Nil
  then show ?case by simp
next
  case (Cons r rs)
  show ?case
  proof (cases i)
    case 0
    then show ?thesis by auto
  next
    case (Suc j)
    then show ?thesis
      using Cons.IH [of j "Suc k" "ds @ first_deltas r"] Cons.prems by (simp add: stream_round_cache)
  qed
qed


section \<open>What a handler sees\<close>

text \<open>A handler that records what it gets and asks to stop at its \<open>k\<close>-th call.\<close>

definition recorder :: "nat \<Rightarrow> StreamChunk res list \<Rightarrow> StreamChunk res \<Rightarrow> bool \<times> StreamChunk res list" where
  "recorder k h x = (Suc (length h) < k, h @ [x])"

lemma handleStream_from_recorder:
  assumes "length h < k"
  shows "handleStream_from ord (recorder k) n cache resps err h =
    (h @ take (k - length h) (map Inr (stream_chunks ord n cache resps) @ [if isStreamEOF err then Inr doneChunk else Inl err]),
     if \<not> isStreamEOF err \<and> length h + length resps + 1 < k then Some err else None)"
  using assms
proof (induction resps arbitrary: h n cache)
  case Nil
  then show ?case by (cases "k - length h") (auto simp: recorder_def)
next
  case (Cons r rs)
  obtain cache' chunk where round: "stream_round ord n cache r = (cache', chunk)" by fastforce
  show ?case
  proof (cases "Suc (length h) < k")
    case True
    then have "k - length h = Suc (k - Suc (length h))" by simp
    moreover have "recorder k h (Inr chunk) = (True, h @ [Inr chunk])"
      using True by (simp add: recorder_def)
    ultimately show ?thesis
      using True Cons.IH [of "h @ [Inr chunk]" "Suc n" cache'] by (simp add: round)
  next
    case False
    then have "k - length h = Suc 0" using Cons.prems by simp
    with False show ?thesis by (simp add: recorder_def round)
  qed
qed

text \<open> A handler that stops at its \<open>k\<close>-th call is called for the first \<open>k\<close> events of the stream, in order: one chunk per
  response, then a final chunk marked as done, or the error. The error is returned only if the
  handler was told of it and asked to go on.
\<close>
theorem handleStream_delivers:
  assumes "0 < k"
  shows "handleStream ord (recorder k) resps err [] =
    (take k (stream_events ord resps err), if \<not> isStreamEOF err \<and> length resps + 1 < k then Some err else None)"
  using assms by (simp add: handleStream_def stream_events_def handleStream_from_recorder)


text \<open>A stream with a call in two pieces, recorded by a handler that stops after the first chunk and by one that does not stop.\<close>

definition demo_stream :: "ChatCompletionStreamResponse list" where
  "demo_stream =
    [\<lparr>sr_ID = ''r'', sr_Choices = [\<lparr>sc_Content = [], sc_ToolCalls = [\<lparr>od_Index = Some 0, od_ID = ''c1'', od_Type = ''function'',
        od_Name = ''f'', od_Arguments = ''{''\<rparr>], sc_FinishReason = []\<rparr>], sr_Usage = None\<rparr>,
     \<lparr>sr_ID = ''r'', sr_Choices = [\<lparr>sc_Content = [], sc_ToolCalls = [\<lparr>od_Index = Some 0, od_ID = [], od_Type = [],
        od_Name = [], od_Arguments = ''}''\<rparr>], sc_FinishReason = FinishReasonToolCalls\<rparr>], sr_Usage = None\<rparr>]"


theorem handleStream_delivers_witness:
  "snd (handleStream (\<lambda>_ xs. xs) (recorder 4) demo_stream (Err ''reset'') []) = Some (Err ''reset'') \<and>
   snd (handleStream (\<lambda>_ xs. xs) (recorder 3) demo_stream (Err ''reset'') []) = None"
  using handleStream_delivers [of 4 "\<lambda>_ xs. xs" demo_stream "Err ''reset''"]
    handleStream_delivers [of 3 "\<lambda>_ xs. xs" demo_stream "Err ''reset''"]
  by (simp add: demo_stream_def isStreamEOF_def io_EOF_def)

text \<open>
  Handing over the finished calls leaves them in the cache: a piece that arrives later with the same index is appended to the call
  already delivered.
\<close>
theorem flushed_call_grows:
  assumes "od_Index d = Some i" and "od_Index d' = Some i"
    and "sr_Choices r = [\<lparr>sc_Content = x, sc_ToolCalls = [d], sc_FinishReason = FinishReasonToolCalls\<rparr>]"
    and "sr_Choices r' = [\<lparr>sc_Content = y, sc_ToolCalls = [d'], sc_FinishReason = z\<rparr>]"
  shows "map sk_ToolCalls (stream_chunks (\<lambda>_ xs. xs) 0 [] [r, r']) = [[assembled [d]], [assembled [d, d']]]"
  using assms by (simp add: stream_round_def mergeStreamToolCalls_def flushToolCallCache_def merge_delta_def convertStreamChunk_def
      assembled_def last_id_def FinishReasonToolCalls_def Let_def)

section \<open>What is sent\<close>

text \<open>
  A converted message never has both a text and a list of parts, which the SDK refuses; the trace fields are
  not sent; and a temperature of zero is sent as if none had been given.
\<close>

lemma convertMessage_exclusive: "cm_Content (convertMessage m) = [] \<or> cm_MultiContent (convertMessage m) = []"
  by (simp add: convertMessage_def Let_def)

theorem convertMessages_exclusive:
  "list_all (\<lambda>m. cm_Content m = [] \<or> cm_MultiContent m = []) (convertMessages msgs)"
  by (simp add: convertMessages_def list_all_iff convertMessage_exclusive)

theorem request_ignores_trace: "convertRequest (req\<lparr>cr_TraceID := t, cr_TaskID := u\<rparr>) = convertRequest req"
  by (simp add: convertRequest_def)

theorem zero_temperature_lost:
  "convertRequest (req\<lparr>cr_Temperature := Some 0\<rparr>) = convertRequest (req\<lparr>cr_Temperature := None\<rparr>)"
  by (simp add: convertRequest_def)

theorem tool_calls_roundtrip: "convertResponseToolCalls (convertToolCalls tcs) = tcs"
  by (simp add: convertResponseToolCalls_def convertToolCalls_def o_def map_idI)

fun part_text :: "Part \<Rightarrow> string" where
  "part_text (TextPart t) = t"
| "part_text (ImageUrlPart _ _) = []"

theorem extracted_text: "extractTextFromMultiContent (convertParts ps) = concat (map part_text ps)"
proof (induction ps)
  case (Cons p ps)
  then show ?case
    by (cases p) (simp_all add: convertParts_def ChatMessagePartTypeText_def ChatMessagePartTypeImageURL_def)
qed (simp add: convertParts_def)

section \<open>Opening a client\<close>

text \<open>After the driver is registered, the last option of each kind decides, and a missing model is filled in on every call.\<close>

theorem openai_client_model:
  "llm_NewClient (llm_Register url_ok base reg) ''openai'' key (opts @ [WithDefaultModel m]) = Inr c \<Longrightarrow>
     cl_defaultModel c = m \<and> cr_Model (fst (Chat call c req)) = (if cr_Model req = [] then m else cr_Model req)"
  by (auto simp: llm_NewClient_def llm_Register_def RegisterProvider_def newFactory_def WithDefaultModel_def Chat_def
      with_model_def Let_def split: if_splits)

theorem unknown_provider:
  "p \<noteq> ''openai'' \<Longrightarrow> reg p = None \<Longrightarrow>
     llm_NewClient (llm_Register url_ok base reg) p key opts = Inl (Err (''unsupported llm provider: '' @ p))"
  by (simp add: llm_NewClient_def llm_Register_def RegisterProvider_def)

end
