(* ===== verification/Stat_Manager.thy ===== *)
theory Stat_Manager
  imports Go_Prelude
begin

text \<open>
  The statistics manager (\<open>stat/manager.go\<close>): a registry of functions, and their concurrent execution. \<open>Execute\<close> starts
  one goroutine per function in an error group; a semaphore of 15 permits limits how many run, and the first error
  cancels the context. A run is a path of a step relation over the atomic actions of the goroutines. The semaphore
  and the error group are the library's: a goroutine that waits gets a permit if one is free and the context is not
  cancelled, and fails once it is cancelled; the group keeps the first error reported to it.

  A statistic function is the caller's code. It is given by the outcomes it may return.
\<close>

section \<open>Types\<close>

datatype 'f MetricValue = IntMetric int | FloatMetric 'f

text \<open>A single value, grouped values, or an error.\<close>

type_synonym ('f, 'k) stat_out = "('f MetricValue option \<times> ('k \<rightharpoonup> 'f MetricValue) option) res"

type_synonym ('f, 'k) StatFunc = "('f, 'k) stat_out \<Rightarrow> bool"

record ('f, 'k) StatResult =
  sx_Name :: string
  sx_SingleValue :: "'f MetricValue option"
  sx_GroupedValue :: "('k \<rightharpoonup> 'f MetricValue) option"
  sx_IsGrouped :: bool
  sx_Error :: "gerror option"

definition sx_IsSuccess :: "('f, 'k) StatResult \<Rightarrow> bool" where
  "sx_IsSuccess r = (sx_Error r = None)"

definition GetSingleValue :: "('f, 'k) StatResult \<Rightarrow> 'f MetricValue option" where
  "GetSingleValue r = (if sx_IsGrouped r \<or> sx_Error r \<noteq> None then None else sx_SingleValue r)"

definition GetGroupedValue :: "('f, 'k) StatResult \<Rightarrow> ('k \<rightharpoonup> 'f MetricValue) option" where
  "GetGroupedValue r = (if \<not> sx_IsGrouped r \<or> sx_Error r \<noteq> None then None else sx_GroupedValue r)"

type_synonym ('f, 'k) StatManager = "string \<rightharpoonup> ('f, 'k) StatFunc"

section \<open>The registry\<close>

text \<open>\<open>None\<close> stands for a nil function.\<close>

definition stat_Register ::
  "('f, 'k) StatManager \<Rightarrow> string \<Rightarrow> ('f, 'k) StatFunc option \<Rightarrow> ('f, 'k) StatManager \<times> gerror option" where
  "stat_Register m name fn =
    (if name = [] then (m, Some (Err ''stat name cannot be empty''))
     else case fn of
       None \<Rightarrow> (m, Some (Err ''stat function cannot be nil''))
     | Some f \<Rightarrow> (if m name \<noteq> None then (m, Some (Err (''stat '' @ name @ '' already registered'')))
                  else (m(name \<mapsto> f), None)))"

text \<open>The list is the map in the order of its iteration.\<close>

fun BatchRegister ::
  "('f, 'k) StatManager \<Rightarrow> (string \<times> ('f, 'k) StatFunc option) list \<Rightarrow> ('f, 'k) StatManager \<times> gerror option" where
  "BatchRegister m [] = (m, None)"
| "BatchRegister m ((name, fn) # rest) =
     (case stat_Register m name fn of
        (m', Some e) \<Rightarrow> (m', Some e)
      | (m', None) \<Rightarrow> BatchRegister m' rest)"

section \<open>Execution\<close>

text \<open>The entry a goroutine writes for its function's outcome, and the error it returns.\<close>

definition stat_entry :: "string \<Rightarrow> ('f, 'k) stat_out \<Rightarrow> ('f, 'k) StatResult \<times> gerror option" where
  "stat_entry name out = (case out of
     Inl err \<Rightarrow> (\<lparr>sx_Name = name, sx_SingleValue = None, sx_GroupedValue = None, sx_IsGrouped = False, sx_Error = Some err\<rparr>,
                 Some (Wrapf (''stat function '' @ name @ '' failed'') err))
   | Inr (single, grouped) \<Rightarrow>
       (if single \<noteq> None \<and> grouped \<noteq> None
        then (\<lparr>sx_Name = name, sx_SingleValue = None, sx_GroupedValue = None, sx_IsGrouped = False,
                sx_Error = Some (Err ''stat function returned both single and grouped values'')\<rparr>,
              Some (Err (''stat function '' @ name @ '' returned invalid result: both single and grouped values present'')))
        else (\<lparr>sx_Name = name, sx_SingleValue = single, sx_GroupedValue = grouped, sx_IsGrouped = (grouped \<noteq> None), sx_Error = None\<rparr>,
              None)))"

text \<open>Where a goroutine is: before \<open>Acquire\<close>, in its function, returned with an error or none, counted by the group.\<close>

datatype goroutine = GWaiting | GRunning | GReturned "gerror option" | GFinished

record ('f, 'k) execution =
  ex_at :: "string \<rightharpoonup> goroutine"
  ex_held :: nat
  ex_cancelled :: bool
  ex_first :: "gerror option"
  ex_result :: "string \<rightharpoonup> ('f, 'k) StatResult"

definition max_concurrent :: nat where "max_concurrent = 15"

definition ex_start :: "bool \<Rightarrow> ('f, 'k) StatManager \<Rightarrow> ('f, 'k) execution" where
  "ex_start parent_done funcs = \<lparr>ex_at = (\<lambda>n. map_option (\<lambda>_. GWaiting) (funcs n)), ex_held = 0, ex_cancelled = parent_done,
     ex_first = None, ex_result = Map.empty\<rparr>"

definition ex_acquire :: "string \<Rightarrow> ('f, 'k) execution \<Rightarrow> ('f, 'k) execution" where
  "ex_acquire n s = s\<lparr>ex_at := (ex_at s)(n \<mapsto> GRunning), ex_held := Suc (ex_held s)\<rparr>"

definition ex_acquire_fails :: "string \<Rightarrow> gerror \<Rightarrow> ('f, 'k) execution \<Rightarrow> ('f, 'k) execution" where
  "ex_acquire_fails n e s = s\<lparr>ex_at := (ex_at s)(n \<mapsto> GReturned (Some (Wrapf (''failed to acquire semaphore for '' @ n) e)))\<rparr>"

text \<open>The function returns, its entry is written and the permit is given back.\<close>

definition ex_run :: "string \<Rightarrow> ('f, 'k) stat_out \<Rightarrow> ('f, 'k) execution \<Rightarrow> ('f, 'k) execution" where
  "ex_run n out s = s\<lparr>ex_at := (ex_at s)(n \<mapsto> GReturned (snd (stat_entry n out))), ex_held := ex_held s - 1,
     ex_result := (ex_result s)(n \<mapsto> fst (stat_entry n out))\<rparr>"

definition ex_report :: "string \<Rightarrow> gerror option \<Rightarrow> ('f, 'k) execution \<Rightarrow> ('f, 'k) execution" where
  "ex_report n e s = s\<lparr>ex_at := (ex_at s)(n \<mapsto> GFinished), ex_cancelled := (ex_cancelled s \<or> e \<noteq> None),
     ex_first := (if ex_first s = None then e else ex_first s)\<rparr>"

inductive ex_step :: "('f, 'k) StatManager \<Rightarrow> ('f, 'k) execution \<Rightarrow> ('f, 'k) execution \<Rightarrow> bool" for funcs where
  acquire: "ex_at s n = Some GWaiting \<Longrightarrow> \<not> ex_cancelled s \<Longrightarrow> ex_held s < max_concurrent \<Longrightarrow> ex_step funcs s (ex_acquire n s)"
| acquire_fails: "ex_at s n = Some GWaiting \<Longrightarrow> ex_cancelled s \<Longrightarrow> ex_step funcs s (ex_acquire_fails n e s)"
| run: "ex_at s n = Some GRunning \<Longrightarrow> funcs n = Some f \<Longrightarrow> f out \<Longrightarrow> ex_step funcs s (ex_run n out s)"
| report: "ex_at s n = Some (GReturned e) \<Longrightarrow> ex_step funcs s (ex_report n e s)"
| parent: "\<not> ex_cancelled s \<Longrightarrow> ex_step funcs s (s\<lparr>ex_cancelled := True\<rparr>)"

inductive ex_reach :: "bool \<Rightarrow> ('f, 'k) StatManager \<Rightarrow> ('f, 'k) execution \<Rightarrow> bool" for parent_done funcs where
  start: "ex_reach parent_done funcs (ex_start parent_done funcs)"
| step: "ex_reach parent_done funcs s \<Longrightarrow> ex_step funcs s s' \<Longrightarrow> ex_reach parent_done funcs s'"

definition all_finished :: "('f, 'k) execution \<Rightarrow> bool" where
  "all_finished s = (\<forall>n \<in> dom (ex_at s). ex_at s n = Some GFinished)"

text \<open>
  What \<open>Execute\<close> may return: nothing but the error of an invalid query, an empty result without functions, or the result and the
  first error once every goroutine is counted.
\<close>

definition Execute_returns ::
  "gerror option \<Rightarrow> bool \<Rightarrow> ('f, 'k) StatManager \<Rightarrow> (string \<rightharpoonup> ('f, 'k) StatResult) option \<times> gerror option \<Rightarrow> bool" where
  "Execute_returns invalid parent_done funcs ret = (case invalid of
     Some e \<Rightarrow> ret = (None, Some (Wrapf ''invalid query'' e))
   | None \<Rightarrow> (if dom funcs = {} then ret = (Some Map.empty, None)
             else \<exists>s. ex_reach parent_done funcs s \<and> all_finished s \<and> ret = (Some (ex_result s), ex_first s)))"

section \<open>The invariant of a run\<close>

definition succeeded :: "('f, 'k) execution \<Rightarrow> string \<Rightarrow> bool" where
  "succeeded s n = (\<exists>r. ex_result s n = Some r \<and> sx_Error r = None)"

definition ex_inv :: "('f, 'k) StatManager \<Rightarrow> ('f, 'k) execution \<Rightarrow> bool" where
  "ex_inv funcs s \<longleftrightarrow>
     dom (ex_at s) = dom funcs \<and>
     (\<forall>n r. ex_result s n = Some r \<longrightarrow> (\<exists>f out. funcs n = Some f \<and> f out \<and> r = fst (stat_entry n out))) \<and>
     (\<forall>n. ex_at s n = Some GWaiting \<or> ex_at s n = Some GRunning \<longrightarrow> ex_result s n = None) \<and>
     (\<forall>n e. ex_at s n = Some (GReturned e) \<longrightarrow> (e = None \<longleftrightarrow> succeeded s n)) \<and>
     (ex_first s = None \<longleftrightarrow> (\<forall>n. ex_at s n = Some GFinished \<longrightarrow> succeeded s n)) \<and>
     ex_held s = card {n. ex_at s n = Some GRunning} \<and> ex_held s \<le> max_concurrent"

lemma stat_entry_agree: "(snd (stat_entry n out) = None) = (sx_Error (fst (stat_entry n out)) = None)"
  by (simp add: stat_entry_def split: sum.split prod.split)

lemma ex_inv_start: "ex_inv funcs (ex_start p funcs)"
  by (auto simp: ex_inv_def ex_start_def succeeded_def dom_def)


lemma running_upd:
  "{m. (f(n \<mapsto> g)) m = Some GRunning} = (if g = GRunning then insert n {m. f m = Some GRunning} else {m. f m = Some GRunning} - {n})"
  by auto

lemma running_finite: "finite (dom f) \<Longrightarrow> finite {m. f m = Some GRunning}"
  by (rule finite_subset [of _ "dom f"]) auto

text \<open>A goroutine that is not counted yet moves on, and may write its own entry.\<close>

lemma ex_inv_move:
  assumes inv: "ex_inv funcs s" and at: "ex_at s n = Some g" "g \<noteq> GFinished" "g' \<noteq> GFinished"
    and upd: "ex_at s' = (ex_at s)(n \<mapsto> g')" "ex_first s' = ex_first s" "\<And>m. m \<noteq> n \<Longrightarrow> ex_result s' m = ex_result s m"
    and held: "ex_held s' = card {m. ex_at s' m = Some GRunning}" "ex_held s' \<le> max_concurrent"
    and entry: "\<And>r. ex_result s' n = Some r \<Longrightarrow> \<exists>f out. funcs n = Some f \<and> f out \<and> r = fst (stat_entry n out)"
    and wait: "g' = GWaiting \<or> g' = GRunning \<Longrightarrow> ex_result s' n = None"
    and ret: "\<And>e. g' = GReturned e \<Longrightarrow> (e = None \<longleftrightarrow> succeeded s' n)"
  shows "ex_inv funcs s'"
proof -
  have other: "succeeded s' m = succeeded s m" if "m \<noteq> n" for m
    using upd(3) [OF that] by (simp add: succeeded_def)
  have "(ex_at s' m = Some GFinished \<longrightarrow> succeeded s' m) \<longleftrightarrow> (ex_at s m = Some GFinished \<longrightarrow> succeeded s m)" for m
    using at by (cases "m = n") (simp_all add: upd(1) other)
  then have fin: "(ex_first s' = None) = (\<forall>m. ex_at s' m = Some GFinished \<longrightarrow> succeeded s' m)"
    using inv upd(2) by (simp add: ex_inv_def)
  have entries: "\<exists>f out. funcs m = Some f \<and> f out \<and> r = fst (stat_entry m out)" if "ex_result s' m = Some r" for m r
    using that inv entry by (cases "m = n") (auto simp: upd(3) ex_inv_def)
  have waits: "ex_result s' m = None" if "ex_at s' m = Some GWaiting \<or> ex_at s' m = Some GRunning" for m
    using that inv wait by (cases "m = n") (auto simp: upd(1,3) ex_inv_def)
  have rets: "(e = None) = succeeded s' m" if "ex_at s' m = Some (GReturned e)" for m e
    using that inv ret by (cases "m = n") (auto simp: upd(1) other ex_inv_def)
  have doms: "dom (ex_at s') = dom funcs"
    using inv at(1) by (auto simp: upd(1) ex_inv_def)
  show ?thesis
    unfolding ex_inv_def using doms entries waits rets fin held by blast
qed

lemma ex_inv_acquire:
  assumes "ex_inv funcs s" and "finite (dom funcs)" and at: "ex_at s n = Some GWaiting" and "ex_held s < max_concurrent"
  shows "ex_inv funcs (ex_acquire n s)"
proof -
  have "finite {m. ex_at s m = Some GRunning}"
    using assms(1,2) by (intro running_finite) (simp add: ex_inv_def)
  then have "card {m. ex_at (ex_acquire n s) m = Some GRunning} = Suc (card {m. ex_at s m = Some GRunning})"
    using at by (simp add: ex_acquire_def running_upd del: fun_upd_apply)
  with assms show ?thesis
    by (intro ex_inv_move [OF assms(1) at, of GRunning]) (auto simp: ex_inv_def ex_acquire_def)
qed

lemma ex_inv_acquire_fails:
  assumes inv: "ex_inv funcs s" and at: "ex_at s n = Some GWaiting"
  shows "ex_inv funcs (ex_acquire_fails n e s)"
proof -
  let ?g = "GReturned (Some (Wrapf (''failed to acquire semaphore for '' @ n) e))"
  have "card {m. ex_at (ex_acquire_fails n e s) m = Some GRunning} = card {m. ex_at s m = Some GRunning}"
    using at by (simp add: ex_acquire_fails_def running_upd del: fun_upd_apply)
  moreover have "ex_result s n = None" using inv at by (simp add: ex_inv_def)
  ultimately show ?thesis
    using inv by (intro ex_inv_move [OF inv at, of ?g]) (auto simp: ex_inv_def ex_acquire_fails_def succeeded_def)
qed

lemma ex_inv_run:
  assumes inv: "ex_inv funcs s" and "finite (dom funcs)" and at: "ex_at s n = Some GRunning" and f: "funcs n = Some f" "f out"
  shows "ex_inv funcs (ex_run n out s)"
proof -
  have "finite {m. ex_at s m = Some GRunning}"
    using assms(1,2) by (intro running_finite) (simp add: ex_inv_def)
  then have "card {m. ex_at (ex_run n out s) m = Some GRunning} = card {m. ex_at s m = Some GRunning} - 1"
    using at by (simp add: ex_run_def running_upd del: fun_upd_apply)
  then show ?thesis
    using inv f by (intro ex_inv_move [OF inv at, of "GReturned (snd (stat_entry n out))"])
      (auto simp: ex_inv_def ex_run_def succeeded_def stat_entry_agree)
qed

lemma ex_inv_report:
  assumes inv: "ex_inv funcs s" and at: "ex_at s n = Some (GReturned e)"
  shows "ex_inv funcs (ex_report n e s)"
proof -
  have "card {m. ex_at (ex_report n e s) m = Some GRunning} = card {m. ex_at s m = Some GRunning}"
    using at by (simp add: ex_report_def running_upd del: fun_upd_apply)
  moreover have "e = None \<longleftrightarrow> succeeded s n"
    using inv at by (simp add: ex_inv_def)
  ultimately show ?thesis
    using inv at by (auto simp: ex_inv_def ex_report_def succeeded_def)
qed

lemma ex_inv_step:
  assumes "ex_step funcs s s'" and "ex_inv funcs s" and "finite (dom funcs)"
  shows "ex_inv funcs s'"
  using assms
proof (cases rule: ex_step.cases)
  case parent
  then show ?thesis using assms(2) by (simp add: ex_inv_def succeeded_def)
qed (simp_all add: ex_inv_acquire ex_inv_acquire_fails ex_inv_run ex_inv_report)

lemma ex_inv_reach: "ex_reach p funcs s \<Longrightarrow> finite (dom funcs) \<Longrightarrow> ex_inv funcs s"
  by (induction rule: ex_reach.induct) (auto intro: ex_inv_start ex_inv_step)

section \<open>What is returned\<close>

text \<open>
  (C27) Whatever the interleaving, the limit of 15 functions at a time is kept, and \<open>Execute\<close> returns only entries that the registered
  functions gave; it returns no error exactly when every function has an entry without one.
\<close>
theorem Execute_sound:
  assumes "finite (dom funcs)" and "Execute_returns None p funcs (Some res, err)"
  shows "(\<forall>n r. res n = Some r \<longrightarrow> (\<exists>f out. funcs n = Some f \<and> f out \<and> r = fst (stat_entry n out))) \<and>
    (err = None \<longleftrightarrow> dom res = dom funcs \<and> (\<forall>r \<in> ran res. sx_IsSuccess r)) \<and>
    (\<forall>s. ex_reach p funcs s \<longrightarrow> card {n. ex_at s n = Some GRunning} \<le> max_concurrent)"
proof -
  have lim: "card {n. ex_at s n = Some GRunning} \<le> max_concurrent" if "ex_reach p funcs s" for s
    using ex_inv_reach [OF that assms(1)] by (simp add: ex_inv_def)
  show ?thesis
  proof (cases "dom funcs = {}")
    case True
    then show ?thesis using assms(2) lim by (simp add: Execute_returns_def)
  next
    case False
    then obtain s where s: "ex_reach p funcs s" "all_finished s" "res = ex_result s" "err = ex_first s"
      using assms(2) by (auto simp: Execute_returns_def)
    have inv: "ex_inv funcs s" by (rule ex_inv_reach [OF s(1) assms(1)])
    have entries: "\<forall>n r. res n = Some r \<longrightarrow> (\<exists>f out. funcs n = Some f \<and> f out \<and> r = fst (stat_entry n out))"
      using inv s by (simp add: ex_inv_def)
    have fin: "ex_at s n = Some GFinished \<longleftrightarrow> n \<in> dom funcs" for n
      using inv s(2) by (auto simp: ex_inv_def all_finished_def)
    have "err = None \<longleftrightarrow> (\<forall>n \<in> dom funcs. succeeded s n)"
      using inv s(4) by (simp add: ex_inv_def fin Ball_def)
    also have "\<dots> \<longleftrightarrow> dom res = dom funcs \<and> (\<forall>r \<in> ran res. sx_IsSuccess r)"
    proof
      assume ok: "\<forall>n \<in> dom funcs. succeeded s n"
      have "dom res = dom funcs"
        using ok entries by (force simp: succeeded_def s(3) dom_def)
      moreover have "sx_IsSuccess r" if r: "r \<in> ran res" for r
      proof -
        obtain n where n: "res n = Some r" using r by (auto simp: ran_def)
        then have "n \<in> dom funcs" using entries by blast
        with ok have "succeeded s n" by blast
        with n show ?thesis by (simp add: succeeded_def s(3) sx_IsSuccess_def)
      qed
      ultimately show "dom res = dom funcs \<and> (\<forall>r \<in> ran res. sx_IsSuccess r)" by simp
    next
      assume "dom res = dom funcs \<and> (\<forall>r \<in> ran res. sx_IsSuccess r)"
      then show "\<forall>n \<in> dom funcs. succeeded s n"
        unfolding succeeded_def s(3) [symmetric] sx_IsSuccess_def by (metis domD ranI)
    qed
    finally show ?thesis using entries lim by simp
  qed
qed


section \<open>Every run ends\<close>

text \<open>Every action of a goroutine brings it closer to its end, and the context is cancelled once.\<close>

fun actions_left :: "goroutine \<Rightarrow> nat" where
  "actions_left GWaiting = 3"
| "actions_left GRunning = 2"
| "actions_left (GReturned _) = 1"
| "actions_left GFinished = 0"

definition ex_measure :: "('f, 'k) StatManager \<Rightarrow> ('f, 'k) execution \<Rightarrow> nat" where
  "ex_measure funcs s = (\<Sum>n \<in> dom funcs. actions_left (the (ex_at s n))) + (if ex_cancelled s then 0 else 1)"

lemma actions_sum_upd:
  assumes "finite A" and "n \<in> A" and "f n = Some g" and "actions_left g' < actions_left g"
  shows "(\<Sum>m \<in> A. actions_left (the ((f(n \<mapsto> g')) m))) < (\<Sum>m \<in> A. actions_left (the (f m)))"
  using assms by (intro sum_strict_mono_ex1) auto

lemma ex_step_decreases:
  assumes "ex_step funcs s s'" and "finite (dom funcs)" and "dom (ex_at s) = dom funcs"
  shows "ex_measure funcs s' < ex_measure funcs s"
proof -
  have less: "(\<Sum>m \<in> dom funcs. actions_left (the (((ex_at s)(n \<mapsto> g')) m))) < (\<Sum>m \<in> dom funcs. actions_left (the (ex_at s m)))"
    if "ex_at s n = Some g" "actions_left g' < actions_left g" for n g g'
    using that assms(2,3) by (intro actions_sum_upd) auto
  from assms(1) show ?thesis
  proof cases
    case (acquire n)
    then show ?thesis using less [of n GWaiting GRunning] by (simp add: ex_measure_def ex_acquire_def del: fun_upd_apply)
  next
    case (acquire_fails n e)
    then show ?thesis
      using less [of n GWaiting "GReturned (Some (Wrapf (''failed to acquire semaphore for '' @ n) e))"]
      by (simp add: ex_measure_def ex_acquire_fails_def del: fun_upd_apply)
  next
    case (run n f out)
    then show ?thesis
      using less [of n GRunning "GReturned (snd (stat_entry n out))"] by (simp add: ex_measure_def ex_run_def del: fun_upd_apply)
  next
    case (report n e)
    then show ?thesis
      using less [of n "GReturned e" GFinished] by (simp add: ex_measure_def ex_report_def del: fun_upd_apply)
  next
    case parent
    then show ?thesis by (simp add: ex_measure_def)
  qed
qed

text \<open>While a goroutine is not counted, some goroutine can act: a full semaphore means that some function is running.\<close>

lemma ex_progress:
  assumes "ex_inv funcs s" and "finite (dom funcs)" and total: "\<And>n f. funcs n = Some f \<Longrightarrow> \<exists>out. f out" and "\<not> all_finished s"
  shows "\<exists>s'. ex_step funcs s s'"
proof -
  obtain n g where n: "ex_at s n = Some g" "g \<noteq> GFinished"
    using assms(4) by (auto simp: all_finished_def)
  have runs: "\<exists>s'. ex_step funcs s s'" if "ex_at s m = Some GRunning" for m
  proof -
    have "m \<in> dom funcs" using that assms(1) by (auto simp: ex_inv_def)
    then obtain f out where "funcs m = Some f" "f out" using total by blast
    then show ?thesis using that ex_step.run by blast
  qed
  show ?thesis
  proof (cases g)
    case GWaiting
    show ?thesis
    proof (cases "ex_cancelled s \<or> ex_held s < max_concurrent")
      case True
      then show ?thesis using n GWaiting ex_step.acquire ex_step.acquire_fails by blast
    next
      case False
      then have "card {m. ex_at s m = Some GRunning} \<noteq> 0"
        using assms(1) by (simp add: ex_inv_def max_concurrent_def)
      then have "{m. ex_at s m = Some GRunning} \<noteq> {}" using card.empty by force
      then show ?thesis using runs by blast
    qed
  next
    case GRunning
    then show ?thesis using runs n by blast
  next
    case (GReturned e)
    then show ?thesis using n ex_step.report by blast
  next
    case GFinished
    then show ?thesis using n by simp
  qed
qed

text \<open> If every registered function returns, \<open>Execute\<close> returns: there is no infinite run, a run that has not ended can go on,
  and every reachable state has a run to a return.
\<close>
theorem Execute_terminates:
  assumes "finite (dom funcs)" and "\<And>n f. funcs n = Some f \<Longrightarrow> \<exists>out. f out"
  shows "(\<nexists>run. ex_reach p funcs (run 0) \<and> (\<forall>i. ex_step funcs (run i) (run (Suc i)))) \<and>
    (\<forall>s. ex_reach p funcs s \<longrightarrow> \<not> all_finished s \<longrightarrow> (\<exists>s'. ex_step funcs s s')) \<and>
    (\<exists>res err. Execute_returns None p funcs (Some res, err))"
proof (intro conjI)
  have dec: "ex_measure funcs s' < ex_measure funcs s" if "ex_reach p funcs s" "ex_step funcs s s'" for s s'
    using ex_step_decreases [OF that(2) assms(1)] ex_inv_reach [OF that(1) assms(1)] by (simp add: ex_inv_def)
  show "\<nexists>run. ex_reach p funcs (run 0) \<and> (\<forall>i. ex_step funcs (run i) (run (Suc i)))"
  proof
    assume "\<exists>run. ex_reach p funcs (run 0) \<and> (\<forall>i. ex_step funcs (run i) (run (Suc i)))"
    then obtain run where run: "ex_reach p funcs (run 0)" "\<And>i. ex_step funcs (run i) (run (Suc i))" by blast
    have "ex_reach p funcs (run i)" for i
      by (induction i) (auto intro: run ex_reach.step)
    then have "ex_measure funcs (run (Suc i)) < ex_measure funcs (run i)" for i
      using dec run(2) by blast
    then show False
      using wf_no_infinite_down_chainE [OF wf_measure, of "\<lambda>i. run i" "ex_measure funcs"] by auto
  qed
  have go: "\<exists>s'. ex_step funcs s s'" if "ex_reach p funcs s" "\<not> all_finished s" for s
    using ex_inv_reach [OF that(1) assms(1)] assms that(2) by (intro ex_progress)
  then show "\<forall>s. ex_reach p funcs s \<longrightarrow> \<not> all_finished s \<longrightarrow> (\<exists>s'. ex_step funcs s s')" by blast
  have "\<exists>s'. ex_reach p funcs s' \<and> all_finished s'" if "ex_reach p funcs s" for s
    using that
  proof (induction "ex_measure funcs s" arbitrary: s rule: less_induct)
    case less
    show ?case
    proof (cases "all_finished s")
      case False
      then obtain s' where s': "ex_step funcs s s'" using go less.prems by blast
      show ?thesis
        using less.hyps [OF dec [OF less.prems s'] ex_reach.step [OF less.prems s']] .
    qed (use less.prems in blast)
  qed
  then show "\<exists>res err. Execute_returns None p funcs (Some res, err)"
    using ex_reach.start unfolding Execute_returns_def by (cases "dom funcs = {}") auto
qed

section \<open>A function that is not run\<close>

text \<open>Two functions, one of which fails at once.\<close>

definition two_stats :: "(nat, nat) StatManager" where
  "two_stats = [''a'' \<mapsto> (\<lambda>out. out = Inl (Err ''down'')), ''b'' \<mapsto> (\<lambda>out. out = Inr (Some (IntMetric 1), None))]"

theorem Execute_terminates_witness:
  "\<exists>res err. Execute_returns None False two_stats (Some res, err)"
proof -
  have "\<exists>out. f out" if "two_stats n = Some f" for n f
    using that by (auto simp: two_stats_def split: if_splits)
  moreover have "finite (dom two_stats)" by (simp add: two_stats_def)
  ultimately show ?thesis using Execute_terminates [of two_stats False] by blast
qed

text \<open>
  After the first failure a function that has not got its permit yet is not run and has no entry, not even one that
  marks it as failed, however few functions there are.
\<close>
theorem Execute_skips:
  "\<exists>err. Execute_returns None False two_stats
     (Some [''a'' \<mapsto> \<lparr>sx_Name = ''a'', sx_SingleValue = None, sx_GroupedValue = None, sx_IsGrouped = False,
                     sx_Error = Some (Err ''down'')\<rparr>], Some err)"
proof -
  let ?e = "Inl (Err ''down'') :: (nat, nat) stat_out"
  let ?s0 = "ex_start False two_stats"
  let ?s1 = "ex_acquire ''a'' ?s0"
  let ?s2 = "ex_run ''a'' ?e ?s1"
  let ?s3 = "ex_report ''a'' (snd (stat_entry ''a'' ?e)) ?s2"
  let ?s4 = "ex_acquire_fails ''b'' (Err ''context canceled'') ?s3"
  let ?s5 = "ex_report ''b'' (Some (Wrapf (''failed to acquire semaphore for '' @ ''b'') (Err ''context canceled''))) ?s4"
  note defs = ex_start_def ex_acquire_def ex_run_def ex_report_def ex_acquire_fails_def two_stats_def max_concurrent_def stat_entry_def
  have "ex_step two_stats ?s0 ?s1" by (rule ex_step.acquire) (simp_all add: defs)
  moreover have "ex_step two_stats ?s1 ?s2" by (rule ex_step.run [where f = "\<lambda>out. out = ?e"]) (simp_all add: defs)
  moreover have "ex_step two_stats ?s2 ?s3" by (rule ex_step.report) (simp add: defs)
  moreover have "ex_step two_stats ?s3 ?s4" by (rule ex_step.acquire_fails) (simp_all add: defs)
  moreover have "ex_step two_stats ?s4 ?s5" by (rule ex_step.report) (simp add: defs)
  ultimately have "ex_reach False two_stats ?s5" by (meson ex_reach.start ex_reach.step)
  moreover have "all_finished ?s5" by (auto simp: all_finished_def defs split: if_splits)
  ultimately show ?thesis
    unfolding Execute_returns_def by (simp add: two_stats_def) (rule exI, rule exI [of _ ?s5], simp add: defs)
qed

theorem Execute_sound_witness:
  "\<exists>res err. Execute_returns None False two_stats (Some res, Some err) \<and>
     \<not> (dom res = dom two_stats \<and> ran res \<subseteq> Collect sx_IsSuccess) \<and>
     card {n. ex_at (ex_start False two_stats) n = Some GRunning} \<le> max_concurrent"
proof -
  have fin: "finite (dom two_stats)" by (simp add: two_stats_def)
  obtain res err where run: "Execute_returns None False two_stats (Some res, Some err)"
    using Execute_skips by blast
  from Execute_sound [OF fin run] have "\<not> (dom res = dom two_stats \<and> (\<forall>r \<in> ran res. sx_IsSuccess r))"
    "card {n. ex_at (ex_start False two_stats) n = Some GRunning} \<le> max_concurrent"
    using ex_reach.start by blast+
  then show ?thesis using run by blast
qed

section \<open>Registering\<close>

text \<open>
  Registering a batch succeeds exactly when every name is new and not empty and every function is there; after a failure the
  functions before it stay registered.
\<close>

theorem BatchRegister_ok:
  assumes "distinct (map fst fs)"
  shows "snd (BatchRegister m fs) = None \<longleftrightarrow> (\<forall>(n, f) \<in> set fs. n \<noteq> [] \<and> f \<noteq> None \<and> m n = None)"
  using assms
proof (induction fs arbitrary: m)
  case (Cons p fs)
  obtain n f where p: "p = (n, f)" by fastforce
  have "n \<notin> fst ` set fs" using Cons.prems by (simp add: p)
  then have "(\<forall>(k, h) \<in> set fs. k \<noteq> [] \<and> h \<noteq> None \<and> (m(n \<mapsto> x)) k = None) = (\<forall>(k, h) \<in> set fs. k \<noteq> [] \<and> h \<noteq> None \<and> m k = None)" for x
    by (force split: prod.split)
  with Cons show ?case
    by (auto simp: p stat_Register_def split: option.split)
qed simp

theorem BatchRegister_keeps: "m n = Some f \<Longrightarrow> fst (BatchRegister m fs) n = Some f"
proof (induction fs arbitrary: m)
  case (Cons p fs)
  obtain name fn where p: "p = (name, fn)" by fastforce
  have "fst (BatchRegister (m(name \<mapsto> x)) fs) n = Some f" if "m name = None" for x
    using that Cons.prems by (intro Cons.IH) auto
  with Cons.prems show ?case by (auto simp: p stat_Register_def split: option.split)
qed simp

end
