(* ===== verification/Es_Scroll.thy ===== *)
theory Es_Scroll
  imports Go_Prelude
begin

text \<open>
  Reading all hits of a query in batches (\<open>dbtools/estool/scroll.go\<close>). The search server is a parameter: a record of the
  three requests on an abstract state. The locale \<open>scroll_server\<close> names what a scroll promises: the batches are the
  hits in order, without repetition, and a batch is empty only at the end. A hit is decoded into the element type by a parameter.
\<close>

section \<open>The server\<close>

record 'h scrollResult =
  sl_ScrollID :: string
  sl_Hits :: "'h list"

text \<open>No answer, an error status with its text, or a body that is decoded.\<close>

datatype 'h es_reply = EsFail gerror | EsStatus string | EsBody "'h scrollResult res"

record SearchRequest =
  sq_Index :: string
  sq_Scroll :: duration
  sq_Size :: int
  sq_Body :: string

record ('e, 'h) es_ops =
  es_search :: "SearchRequest \<Rightarrow> 'e \<Rightarrow> 'h es_reply \<times> 'e"
  es_scroll :: "string \<Rightarrow> duration \<Rightarrow> 'e \<Rightarrow> 'h es_reply \<times> 'e"
  es_clear :: "string \<Rightarrow> 'e \<Rightarrow> 'e"

section \<open>Configuration\<close>

record ScrollConfig =
  sf_ScrollSize :: int
  sf_ScrollTime :: duration
  sf_Total :: int
  sf_SearchOptions :: "(SearchRequest \<Rightarrow> SearchRequest) list"

type_synonym ScrollOption = "ScrollConfig \<Rightarrow> ScrollConfig"

definition WithScrollSize :: "int \<Rightarrow> ScrollOption" where "WithScrollSize n c = c\<lparr>sf_ScrollSize := n\<rparr>"
definition WithScrollTime :: "duration \<Rightarrow> ScrollOption" where "WithScrollTime t c = c\<lparr>sf_ScrollTime := t\<rparr>"
definition WithTotal :: "int \<Rightarrow> ScrollOption" where "WithTotal n c = c\<lparr>sf_Total := n\<rparr>"
definition WithSearchOptions :: "(SearchRequest \<Rightarrow> SearchRequest) list \<Rightarrow> ScrollOption" where
  "WithSearchOptions fs c = c\<lparr>sf_SearchOptions := sf_SearchOptions c @ fs\<rparr>"

definition defaultScrollConfig :: ScrollConfig where
  "defaultScrollConfig = \<lparr>sf_ScrollSize = 100, sf_ScrollTime = 5 * time_Minute, sf_Total = 0, sf_SearchOptions = []\<rparr>"

section \<open>Requests\<close>

definition read_reply :: "string \<Rightarrow> string \<Rightarrow> 'h es_reply \<Rightarrow> 'h scrollResult res" where
  "read_reply bad_status bad_body r = (case r of
     EsFail e \<Rightarrow> Inl e
   | EsStatus t \<Rightarrow> Inl (Err (bad_status @ '': '' @ t))
   | EsBody (Inl e) \<Rightarrow> Inl (Wrapf bad_body e)
   | EsBody (Inr res) \<Rightarrow> Inr res)"

definition initialSearch :: "('e, 'h) es_ops \<Rightarrow> SearchRequest \<Rightarrow> 'e \<Rightarrow> 'h scrollResult res \<times> 'e" where
  "initialSearch S req e = (let (r, e') = es_search S req e
     in (read_reply ''search request failed'' ''cannot parse the search result'' r, e'))"

definition continueScroll :: "('e, 'h) es_ops \<Rightarrow> string \<Rightarrow> ScrollConfig \<Rightarrow> 'e \<Rightarrow> 'h scrollResult res \<times> 'e" where
  "continueScroll S scrollID config e = (let (r, e') = es_scroll S scrollID (sf_ScrollTime config) e
     in (read_reply ''scroll request failed'' ''cannot parse the scroll result'' r, e'))"

definition clearScroll :: "('e, 'h) es_ops \<Rightarrow> string \<Rightarrow> 'e \<Rightarrow> 'e" where
  "clearScroll S scrollID e = es_clear S scrollID e"

text \<open>Hits are decoded and appended one by one; what was appended before a failure stays.\<close>

fun appendHitsToSlice :: "('h \<Rightarrow> 'a res) \<Rightarrow> 'h list \<Rightarrow> 'a list \<Rightarrow> 'a list \<times> gerror option" where
  "appendHitsToSlice decode [] dest = (dest, None)"
| "appendHitsToSlice decode (h # hs) dest = (case decode h of
     Inl e \<Rightarrow> (dest, Some e)
   | Inr x \<Rightarrow> appendHitsToSlice decode hs (dest @ [x]))"

text \<open>How many hits of a batch are still wanted.\<close>

definition batchCount :: "int \<Rightarrow> nat \<Rightarrow> nat \<Rightarrow> nat" where
  "batchCount lim processed n =
     (if 0 < lim \<and> lim < int (processed + n) then nat (lim - int processed) else n)"

definition limit_reached :: "int \<Rightarrow> nat \<Rightarrow> bool" where
  "limit_reached lim processed = (0 < lim \<and> lim \<le> int processed)"

section \<open>The loop\<close>

text \<open>
  The loop over further batches, entered with the hits of the last one. \<open>ctx i\<close> is what the context says before the
  \<open>i\<close>-th request of the loop. The result is the server, the last scroll identifier, the destination and the error.
\<close>

partial_function (option) scroll_loop ::
  "('e, 'h) es_ops \<Rightarrow> ('h \<Rightarrow> 'a res) \<Rightarrow> (nat \<Rightarrow> gerror option) \<Rightarrow> ScrollConfig \<Rightarrow> nat \<Rightarrow> string \<Rightarrow> 'h list \<Rightarrow> nat \<Rightarrow> 'a list \<Rightarrow> 'e \<Rightarrow>
    ('e \<times> string \<times> 'a list \<times> gerror option) option" where
  "scroll_loop S decode ctx config i scrollID hits processed dest e =
    (if hits = [] then Some (e, scrollID, dest, None)
     else case ctx i of
       Some err \<Rightarrow> Some (e, scrollID, dest, Some err)
     | None \<Rightarrow> (case continueScroll S scrollID config e of
         (Inl err, e') \<Rightarrow> Some (e', scrollID, dest, Some (Wrapf ''cannot continue the scroll'' err))
       | (Inr res, e') \<Rightarrow>
           (let scrollID' = (if sl_ScrollID res \<noteq> [] then sl_ScrollID res else scrollID);
                n = batchCount (sf_Total config) processed (length (sl_Hits res))
            in case (if 0 < n then appendHitsToSlice decode (take n (sl_Hits res)) dest else (dest, None)) of
                 (dest', Some err) \<Rightarrow> Some (e', scrollID', dest', Some (Wrapf ''cannot convert the scroll result'' err))
               | (dest', None) \<Rightarrow>
                   (if limit_reached (sf_Total config) (processed + n) then Some (e', scrollID', dest', None)
                    else scroll_loop S decode ctx config (Suc i) scrollID' (sl_Hits res) (processed + n) dest' e'))))"

text \<open>The deferred call.\<close>

definition finish_scroll :: "('e, 'h) es_ops \<Rightarrow> 'e \<times> string \<times> 'a list \<times> gerror option \<Rightarrow> 'a list \<times> gerror option \<times> 'e" where
  "finish_scroll S r = (case r of (e, scrollID, dest, err) \<Rightarrow> (dest, err, if scrollID \<noteq> [] then clearScroll S scrollID e else e))"

text \<open>
  \<open>dsl_size q\<close> is the number the member \<open>size\<close> of the query has, cut to an integer (\<open>getSizeFromDSL\<close>, over the JSON
  decoder; zero if there is none). The destination is a pointer to a slice.
\<close>

definition scroll_request :: "(string \<Rightarrow> int) \<Rightarrow> ScrollConfig \<Rightarrow> string \<Rightarrow> string \<Rightarrow> SearchRequest" where
  "scroll_request dsl_size config index queryBody =
    foldl (\<lambda>r f. f r) \<lparr>sq_Index = index, sq_Scroll = sf_ScrollTime config,
      sq_Size = (if 0 < dsl_size queryBody then dsl_size queryBody else sf_ScrollSize config), sq_Body = queryBody\<rparr>
      (sf_SearchOptions config)"

definition ScrollAll ::
  "('e, 'h) es_ops \<Rightarrow> ('h \<Rightarrow> 'a res) \<Rightarrow> (string \<Rightarrow> int) \<Rightarrow> (nat \<Rightarrow> gerror option) \<Rightarrow> string \<Rightarrow> string \<Rightarrow> 'a list \<Rightarrow> ScrollOption list \<Rightarrow> 'e \<Rightarrow>
    ('a list \<times> gerror option \<times> 'e) option" where
  "ScrollAll S decode dsl_size ctx index queryBody dest opts e =
    (if index = [] then Some (dest, Some (Err ''the index name must not be empty''), e)
     else let config = foldl (\<lambda>c f. f c) defaultScrollConfig opts
     in case initialSearch S (scroll_request dsl_size config index queryBody) e of
          (Inl err, e') \<Rightarrow> Some (dest, Some (Wrapf ''initial search failed'' err), e')
        | (Inr res, e') \<Rightarrow>
            (let n = batchCount (sf_Total config) 0 (length (sl_Hits res))
             in map_option (finish_scroll S)
               (if sl_Hits res \<noteq> []
                then case (if 0 < n then appendHitsToSlice decode (take n (sl_Hits res)) dest else (dest, None)) of
                       (dest', Some err) \<Rightarrow> Some (e', sl_ScrollID res, dest', Some (Wrapf ''cannot convert the initial result'' err))
                     | (dest', None) \<Rightarrow>
                         (if limit_reached (sf_Total config) n then Some (e', sl_ScrollID res, dest', None)
                          else scroll_loop S decode ctx config 0 (sl_ScrollID res) (sl_Hits res) n dest' e')
                else scroll_loop S decode ctx config 0 (sl_ScrollID res) [] 0 dest e')))"

declare scroll_loop.simps [code]

section \<open>Decoded prefixes\<close>

text \<open>\<open>xs\<close> are the decoded elements of a prefix of \<open>w\<close>, and of all of \<open>w\<close> if the flag says so.\<close>

definition decoded_prefix :: "('h \<Rightarrow> 'a res) \<Rightarrow> 'h list \<Rightarrow> 'a list \<Rightarrow> bool \<Rightarrow> bool" where
  "decoded_prefix decode w xs complete \<longleftrightarrow> (\<exists>u v. w = u @ v \<and> map decode u = map Inr xs \<and> (complete \<longrightarrow> v = []))"

lemma decoded_prefix_Nil [simp]: "decoded_prefix decode w [] False" "decoded_prefix decode [] [] c"
  by (auto simp: decoded_prefix_def)

lemma decoded_prefix_complete: "decoded_prefix decode w xs True \<longleftrightarrow> map decode w = map Inr xs"
  by (simp add: decoded_prefix_def)

lemma decoded_prefix_append: "map decode u = map Inr xs \<Longrightarrow> decoded_prefix decode v ys c \<Longrightarrow> decoded_prefix decode (u @ v) (xs @ ys) c"
  unfolding decoded_prefix_def by (metis append_assoc map_append)

lemma decoded_prefix_weaken: "decoded_prefix decode u xs c \<Longrightarrow> decoded_prefix decode (u @ v) xs False"
  unfolding decoded_prefix_def by (metis append_assoc)

lemma appendHits_prefix:
  assumes "appendHitsToSlice decode hs dest = (dest', err)"
  shows "\<exists>xs. dest' = dest @ xs \<and> decoded_prefix decode hs xs (err = None)"
  using assms
proof (induction hs arbitrary: dest)
  case Nil
  then show ?case by (auto simp: decoded_prefix_def)
next
  case (Cons h hs)
  show ?case
  proof (cases "decode h")
    case (Inl e)
    then show ?thesis using Cons.prems by auto
  next
    case (Inr x)
    then obtain xs where xs: "dest' = (dest @ [x]) @ xs" "decoded_prefix decode hs xs (err = None)"
      using Cons by fastforce
    have "decoded_prefix decode ([h] @ hs) ([x] @ xs) (err = None)"
      using Inr xs(2) by (intro decoded_prefix_append) simp_all
    then show ?thesis using xs(1) by auto
  qed
qed

text \<open>The hits that are still wanted.\<close>

definition wanted :: "int \<Rightarrow> nat \<Rightarrow> 'h list \<Rightarrow> 'h list" where
  "wanted lim processed hs = (if 0 < lim then take (nat (lim - int processed)) hs else hs)"

lemma wanted_batch:
  assumes "0 < lim \<longrightarrow> int p < lim" and "c = batchCount lim p (length (take n hs))"
  shows "wanted lim p hs = take c (take n hs) @ (if limit_reached lim (p + c) then [] else wanted lim (p + c) (drop n hs))"
proof (cases "0 < lim \<and> lim < int (p + length (take n hs))")
  case True
  then have "c = nat (lim - int p)" using assms(2) by (simp add: batchCount_def)
  moreover have "nat (lim - int p) \<le> min n (length hs)" using True by (auto simp: min.commute)
  ultimately show ?thesis using True assms(1) by (auto simp: wanted_def limit_reached_def)
next
  case False
  then have c: "c = min n (length hs)" using assms(2) by (auto simp: batchCount_def min.commute)
  show ?thesis
  proof (cases "0 < lim")
    case True
    then have "nat (lim - int p) = c + nat (lim - int (p + c))" using False c by auto
    then show ?thesis using True False c
      by (simp add: wanted_def limit_reached_def take_add min_def)
  next
    case False
    then show ?thesis using c by (simp add: wanted_def limit_reached_def min_def)
  qed
qed

section \<open>What a scroll promises\<close>

locale scroll_server =
  fixes S :: "('e, 'h) es_ops"
    and found :: "'e \<Rightarrow> SearchRequest \<Rightarrow> 'h list"
    and rest :: "'e \<Rightarrow> string \<Rightarrow> (nat \<times> 'h list) option"
  assumes search_ok: "es_search S req e = (EsBody (Inr res), e') \<Longrightarrow> 0 < sq_Size req \<Longrightarrow>
      sl_Hits res = take (nat (sq_Size req)) (found e req) \<and> sl_ScrollID res \<noteq> [] \<and>
      rest e' (sl_ScrollID res) = Some (nat (sq_Size req), drop (nat (sq_Size req)) (found e req))"
    and scroll_ok: "rest e i = Some (n, hs) \<Longrightarrow> es_scroll S i t e = (EsBody (Inr res), e') \<Longrightarrow>
      sl_Hits res = take n hs \<and> rest e' (if sl_ScrollID res \<noteq> [] then sl_ScrollID res else i) = Some (n, drop n hs)"
begin

lemma continueScroll_ok:
  assumes "continueScroll S i config e = (Inr res, e')" and "rest e i = Some (n, hs)"
  shows "sl_Hits res = take n hs \<and> rest e' (if sl_ScrollID res \<noteq> [] then sl_ScrollID res else i) = Some (n, drop n hs)"
proof -
  have "es_scroll S i (sf_ScrollTime config) e = (EsBody (Inr res), e')"
    using assms(1) by (auto simp: continueScroll_def read_reply_def split: prod.splits es_reply.splits sum.splits)
  from scroll_ok [OF assms(2) this] show ?thesis .
qed

lemma initialSearch_ok:
  assumes "initialSearch S req e = (Inr res, e')" and "0 < sq_Size req"
  shows "sl_Hits res = take (nat (sq_Size req)) (found e req) \<and> sl_ScrollID res \<noteq> [] \<and>
      rest e' (sl_ScrollID res) = Some (nat (sq_Size req), drop (nat (sq_Size req)) (found e req))"
  using assms search_ok by (auto simp: initialSearch_def read_reply_def split: prod.splits es_reply.splits sum.splits)

lemma scroll_loop_returns:
  assumes "rest e i = Some (n, hs)" and "0 < n" and "0 < sf_Total config \<longrightarrow> int p < sf_Total config" and "hits = [] \<longrightarrow> hs = []"
  shows "\<exists>e' i' xs err. scroll_loop S decode ctx config k i hits p dest e = Some (e', i', dest @ xs, err) \<and>
    decoded_prefix decode (wanted (sf_Total config) p hs) xs (err = None)"
  using assms
proof (induction "length hs + (if hits = [] then 0 else 1)" arbitrary: e i hs p hits k dest rule: less_induct)
  case less
  note unfold = scroll_loop.simps [of S decode ctx config k i hits p dest e]
  consider "hits = []" | err where "hits \<noteq> []" "ctx k = Some err" | "hits \<noteq> []" "ctx k = None" by (cases "ctx k") auto
  then show ?case
  proof cases
    case 1
    then have "scroll_loop S decode ctx config k i hits p dest e = Some (e, i, dest @ [], None)" by (subst unfold) simp
    then show ?thesis using 1 less.prems(4) by (auto simp: wanted_def intro!: exI [of _ "[]"])
  next
    case 2
    then show ?thesis by (auto simp: unfold)
  next
    case 3
    obtain r e' where call: "continueScroll S i config e = (r, e')" by fastforce
    show ?thesis
    proof (cases r)
      case (Inl err)
      then show ?thesis using 3 call by (auto simp: unfold)
    next
      case (Inr res)
      define i' where "i' = (if sl_ScrollID res \<noteq> [] then sl_ScrollID res else i)"
      define c where "c = batchCount (sf_Total config) p (length (sl_Hits res))"
      have next_batch: "sl_Hits res = take n hs" "rest e' i' = Some (n, drop n hs)"
        using continueScroll_ok [OF call [unfolded Inr] less.prems(1)] by (simp_all add: i'_def)
      obtain dest' err where app: "(if 0 < c then appendHitsToSlice decode (take c (sl_Hits res)) dest else (dest, None)) = (dest', err)"
        by fastforce
      have "appendHitsToSlice decode (take c (sl_Hits res)) dest = (dest', err)"
        using app by (cases "0 < c") auto
      then obtain xs where xs: "dest' = dest @ xs" "decoded_prefix decode (take c (sl_Hits res)) xs (err = None)"
        using appendHits_prefix by blast
      have w: "wanted (sf_Total config) p hs = take c (sl_Hits res) @
          (if limit_reached (sf_Total config) (p + c) then [] else wanted (sf_Total config) (p + c) (drop n hs))"
        using wanted_batch [OF less.prems(3) c_def [unfolded next_batch(1)]] by (simp add: next_batch(1))
      have run: "scroll_loop S decode ctx config k i hits p dest e = (case err of
            Some err' \<Rightarrow> Some (e', i', dest', Some (Wrapf ''cannot convert the scroll result'' err'))
          | None \<Rightarrow> (if limit_reached (sf_Total config) (p + c) then Some (e', i', dest', None)
                     else scroll_loop S decode ctx config (Suc k) i' (sl_Hits res) (p + c) dest' e'))"
        using 3 call Inr by (subst unfold) (simp add: i'_def [symmetric] c_def [symmetric] app Let_def split: option.split)
      show ?thesis
      proof (cases err)
        case (Some err')
        then show ?thesis
          using run xs decoded_prefix_weaken [OF xs(2)] unfolding w by auto
      next
        case None
        then have dec: "map decode (take c (sl_Hits res)) = map Inr xs"
          using xs(2) by (simp add: decoded_prefix_complete)
        show ?thesis
        proof (cases "limit_reached (sf_Total config) (p + c)")
          case True
          then show ?thesis using run None xs(1) dec unfolding w by (auto simp: decoded_prefix_complete)
        next
          case False
          have smaller: "length (drop n hs) + (if sl_Hits res = [] then 0 else 1) < length hs + (if hits = [] then 0 else 1)"
            using 3(1) less.prems(2) by (cases hs) (auto simp: next_batch(1))
          obtain e'' i'' ys err'' where rec: "scroll_loop S decode ctx config (Suc k) i' (sl_Hits res) (p + c) dest' e' = Some (e'', i'', dest' @ ys, err'')"
            "decoded_prefix decode (wanted (sf_Total config) (p + c) (drop n hs)) ys (err'' = None)"
            using less.hyps [OF smaller next_batch(2) less.prems(2), of "p + c" "Suc k" dest'] False next_batch(1) less.prems(2)
            by (auto simp: limit_reached_def)
          have "decoded_prefix decode (wanted (sf_Total config) p hs) (xs @ ys) (err'' = None)"
            unfolding w using False decoded_prefix_append [OF dec rec(2)] by simp
          then show ?thesis using run None False rec(1) xs(1) by auto
        qed
      qed
    qed
  qed
qed

lemma ScrollAll_batches:
  assumes "index \<noteq> []" and conf: "config = foldl (\<lambda>c f. f c) defaultScrollConfig opts"
    and req: "req = scroll_request dsl_size config index q" and "0 < sq_Size req"
  shows "\<exists>xs err e'. ScrollAll S decode dsl_size ctx index q dest opts e = Some (dest @ xs, err, e') \<and>
    decoded_prefix decode (wanted (sf_Total config) 0 (found e req)) xs (err = None)"
proof -
  obtain r e1 where call: "initialSearch S req e = (r, e1)" by fastforce
  show ?thesis
  proof (cases r)
    case (Inl err)
    then show ?thesis using call assms(1) by (auto simp: ScrollAll_def Let_def conf req)
  next
    case (Inr res)
    let ?n = "nat (sq_Size req)" and ?all = "found e req" and ?lim = "sf_Total config"
    define c where "c = batchCount ?lim 0 (length (sl_Hits res))"
    have first: "sl_Hits res = take ?n ?all" "rest e1 (sl_ScrollID res) = Some (?n, drop ?n ?all)"
      using initialSearch_ok [OF call [unfolded Inr] assms(4)] by simp_all
    have pos: "0 < ?n" using assms(4) by simp
    obtain dest' err where app: "(if 0 < c then appendHitsToSlice decode (take c (sl_Hits res)) dest else (dest, None)) = (dest', err)"
      by fastforce
    have "appendHitsToSlice decode (take c (sl_Hits res)) dest = (dest', err)"
      using app by (cases "0 < c") auto
    then obtain xs where xs: "dest' = dest @ xs" "decoded_prefix decode (take c (sl_Hits res)) xs (err = None)"
      using appendHits_prefix by blast
    have w: "wanted ?lim 0 ?all = take c (sl_Hits res) @ (if limit_reached ?lim c then [] else wanted ?lim c (drop ?n ?all))"
      using wanted_batch [of ?lim 0 c ?n ?all] by (simp add: c_def first(1))
    have run: "ScrollAll S decode dsl_size ctx index q dest opts e = map_option (finish_scroll S)
        (if sl_Hits res \<noteq> [] then (case err of
            Some err' \<Rightarrow> Some (e1, sl_ScrollID res, dest', Some (Wrapf ''cannot convert the initial result'' err'))
          | None \<Rightarrow> (if limit_reached ?lim c then Some (e1, sl_ScrollID res, dest', None)
                     else scroll_loop S decode ctx config 0 (sl_ScrollID res) (sl_Hits res) c dest' e1))
         else scroll_loop S decode ctx config 0 (sl_ScrollID res) [] 0 dest e1)"
      using assms(1) call Inr
      by (simp add: ScrollAll_def Let_def conf [symmetric] req [symmetric] c_def [symmetric] app cong: if_cong split: option.split)
    have loop: "\<exists>ys err2 e2. map_option (finish_scroll S) (scroll_loop S decode ctx config 0 (sl_ScrollID res) hits p d e1) = Some (d @ ys, err2, e2) \<and>
        decoded_prefix decode (wanted ?lim p (drop ?n ?all)) ys (err2 = None)"
      if "0 < ?lim \<longrightarrow> int p < ?lim" "hits = sl_Hits res" for p hits d
    proof -
      have "hits = [] \<longrightarrow> drop ?n ?all = []" using that(2) first(1) pos by auto
      from scroll_loop_returns [OF first(2) pos that(1) this, of decode ctx 0 d] show ?thesis by (auto simp: finish_scroll_def)
    qed
    consider "sl_Hits res = []" | "sl_Hits res \<noteq> []" "err \<noteq> None" | "sl_Hits res \<noteq> []" "err = None" "limit_reached ?lim c"
      | "sl_Hits res \<noteq> []" "err = None" "\<not> limit_reached ?lim c" by blast
    then show ?thesis
    proof cases
      case 1
      then have "?all = []" using first(1) pos by auto
      then show ?thesis using loop [of 0 "[]" dest] run 1 by (auto simp: wanted_def)
    next
      case 2
      then show ?thesis using run xs decoded_prefix_weaken [OF xs(2)] unfolding w by (auto simp: finish_scroll_def)
    next
      case 3
      then show ?thesis using run xs unfolding w by (auto simp: finish_scroll_def)
    next
      case 4
      obtain ys err2 e2 where l: "map_option (finish_scroll S) (scroll_loop S decode ctx config 0 (sl_ScrollID res) (sl_Hits res) c dest' e1) = Some (dest' @ ys, err2, e2)"
        "decoded_prefix decode (wanted ?lim c (drop ?n ?all)) ys (err2 = None)"
        using loop [of c "sl_Hits res" dest'] 4(3) by (auto simp: limit_reached_def)
      have "decoded_prefix decode (wanted ?lim 0 ?all) (xs @ ys) (err2 = None)"
        unfolding w using 4 l(2) xs(2) by (auto intro: decoded_prefix_append simp: decoded_prefix_complete)
      then show ?thesis using run 4 l(1) xs(1) by auto
    qed
  qed
qed

end


section \<open>A server in memory\<close>

record es_mem =
  em_docs :: "(string \<times> string list) list"
  em_open :: "(string \<times> nat \<times> string list) list"

definition mem_id :: "es_mem \<Rightarrow> string" where
  "mem_id e = CHR ''s'' # replicate (length (em_open e)) CHR ''x''"

definition mem_found :: "es_mem \<Rightarrow> SearchRequest \<Rightarrow> string list" where
  "mem_found e req = (case map_of (em_docs e) (sq_Index req) of None \<Rightarrow> [] | Some hs \<Rightarrow> hs)"

definition mem_search :: "SearchRequest \<Rightarrow> es_mem \<Rightarrow> string es_reply \<times> es_mem" where
  "mem_search req e = (if sq_Size req \<le> 0 then (EsStatus ''size must be positive'', e)
     else (EsBody (Inr \<lparr>sl_ScrollID = mem_id e, sl_Hits = take (nat (sq_Size req)) (mem_found e req)\<rparr>),
           e\<lparr>em_open := (mem_id e, nat (sq_Size req), drop (nat (sq_Size req)) (mem_found e req)) # em_open e\<rparr>))"

definition mem_scroll :: "string \<Rightarrow> duration \<Rightarrow> es_mem \<Rightarrow> string es_reply \<times> es_mem" where
  "mem_scroll i t e = (case map_of (em_open e) i of
     None \<Rightarrow> (EsStatus ''no search context'', e)
   | Some (n, hs) \<Rightarrow> (EsBody (Inr \<lparr>sl_ScrollID = [], sl_Hits = take n hs\<rparr>), e\<lparr>em_open := (i, n, drop n hs) # em_open e\<rparr>))"

definition mem_es :: "(es_mem, string) es_ops" where
  "mem_es = \<lparr>es_search = mem_search, es_scroll = mem_scroll, es_clear = (\<lambda>i e. e\<lparr>em_open := filter (\<lambda>p. fst p \<noteq> i) (em_open e)\<rparr>)\<rparr>"

interpretation mem_server: scroll_server mem_es mem_found "\<lambda>e. map_of (em_open e)"
  by unfold_locales (auto simp: mem_es_def mem_search_def mem_scroll_def mem_id_def split: if_splits option.splits)

section \<open>Reading all hits\<close>

text \<open>
  (C28) Over a server that keeps the promise of a scroll, \<open>ScrollAll\<close> returns whatever fails on the way. The elements it appends are the
  decoded hits of the query in order, a prefix of those wanted: the first \<open>Total\<close> hits, or all of them without a limit. Without
  an error it has appended all that are wanted.
\<close>
theorem ScrollAll_correct:
  assumes "scroll_server S found rest" and "index \<noteq> []"
    and "config = foldl (\<lambda>c f. f c) defaultScrollConfig opts" and "req = scroll_request dsl_size config index q"
    and "0 < sq_Size req"
  shows "\<exists>xs err e'. ScrollAll S decode dsl_size ctx index q dest opts e = Some (dest @ xs, err, e') \<and>
    (let w = (if 0 < sf_Total config then take (nat (sf_Total config)) (found e req) else found e req) in
     (\<exists>k. map decode (take k w) = map Inr xs) \<and> (err = None \<longrightarrow> map decode w = map Inr xs))"
proof -
  obtain xs err e' where run: "ScrollAll S decode dsl_size ctx index q dest opts e = Some (dest @ xs, err, e')"
    "decoded_prefix decode (wanted (sf_Total config) 0 (found e req)) xs (err = None)"
    using scroll_server.ScrollAll_batches [OF assms] by blast
  have "\<exists>k. map decode (take k (wanted (sf_Total config) 0 (found e req))) = map Inr xs"
    using run(2) unfolding decoded_prefix_def by (metis append_eq_conv_conj)
  then show ?thesis
    using run by (auto simp: wanted_def Let_def decoded_prefix_complete)
qed

theorem ScrollAll_correct_witness:
  "\<exists>xs err e'. ScrollAll mem_es Inr (\<lambda>_. 0) (\<lambda>_. None) ''idx'' ''{}'' [''z''] [WithScrollSize 2, WithTotal 3]
      \<lparr>em_docs = [(''idx'', [''a'', ''b'', ''c'', ''d''])], em_open = []\<rparr> = Some ([''z''] @ xs, err, e') \<and>
    (err = None \<longrightarrow> xs = [''a'', ''b'', ''c''])"
proof -
  let ?e = "\<lparr>em_docs = [(''idx'', [''a'', ''b'', ''c'', ''d''])], em_open = []\<rparr> :: es_mem"
  let ?opts = "[WithScrollSize 2, WithTotal 3]"
  let ?config = "foldl (\<lambda>c f. f c) defaultScrollConfig ?opts"
  let ?req = "scroll_request (\<lambda>_. 0) ?config ''idx'' ''{}''"
  have size: "0 < sq_Size ?req" and total: "sf_Total ?config = 3" and all: "mem_found ?e ?req = [''a'', ''b'', ''c'', ''d'']"
    by (simp_all add: scroll_request_def defaultScrollConfig_def WithScrollSize_def WithTotal_def mem_found_def)
  have inj: "map Inr us = map Inr xs \<longleftrightarrow> us = (xs :: string list)" for us xs
    by (simp add: inj_map_eq_map)
  from ScrollAll_correct [OF mem_server.scroll_server_axioms _ refl refl size, of Inr "\<lambda>_. None" "[''z'']" ?e]
  obtain xs err e' where run: "ScrollAll mem_es Inr (\<lambda>_. 0) (\<lambda>_. None) ''idx'' ''{}'' [''z''] ?opts ?e = Some ([''z''] @ xs, err, e')"
      and ok: "err = None \<longrightarrow> (if (0::int) < 3 then take (nat 3) [''a'', ''b'', ''c'', ''d''] else [''a'', ''b'', ''c'', ''d'']) = xs"
    unfolding Let_def total all inj by blast
  have "err = None \<longrightarrow> xs = [''a'', ''b'', ''c'']" using ok by auto
  with run show ?thesis by blast
qed

text \<open>The comment on \<open>ScrollConfig\<close> gives 1000 as the default size of a batch and an enabled limit.\<close>
theorem scroll_defaults: "sf_ScrollSize defaultScrollConfig = 100 \<and> wanted (sf_Total defaultScrollConfig) 0 hs = hs"
  by (simp add: defaultScrollConfig_def wanted_def)

end
