(* ===== verification/Rpc_Queue.thy ===== *)
theory Rpc_Queue
  imports Go_Prelude
begin

text \<open>
  Requests and replies over a message broker (\<open>queue/rpcqueue/controller.go\<close>). Any number of goroutines call \<open>SendRequest\<close>; one
  goroutine consumes the replies and hands each to the request with its correlation identifier, through a channel without
  a buffer. A run is a path of a step relation over the atomic actions: the critical sections under the lock, the
  publication, the sends and receives, and closing a channel. The broker is the environment: replies arrive at any time.
\<close>

section \<open>State\<close>

text \<open>
  A request is known by its channel. \<open>Returned r\<close>: the body has returned \<open>r\<close> and the deferred function has not begun;
  \<open>Deleted r\<close>: the map entry is deleted; \<open>Closed r\<close>: the channel is closed and the caller has \<open>r\<close>.
\<close>

datatype request_at = Registered | Selecting | Returned "string res" | Deleted "string res" | Closed "string res"

datatype consumer = Idle | Holding string string | Sending nat string | Exited

record RPCQueue =
  rq_requestQueueName :: string
  rq_responseCh :: "string \<rightharpoonup> nat"
  rq_requests :: "nat \<rightharpoonup> string \<times> request_at"
  rq_consumer :: consumer
  rq_arrived :: "(string \<times> string) list"
  rq_taken :: nat
  rq_panic :: bool

definition NewRPCQueue :: "string \<Rightarrow> RPCQueue" where
  "NewRPCQueue name = \<lparr>rq_requestQueueName = name, rq_responseCh = Map.empty, rq_requests = Map.empty, rq_consumer = Idle,
     rq_arrived = [], rq_taken = 0, rq_panic = False\<rparr>"

section \<open>Actions of a request\<close>

definition move_to :: "nat \<Rightarrow> string \<Rightarrow> request_at \<Rightarrow> RPCQueue \<Rightarrow> RPCQueue" where
  "move_to ch corrID a q = q\<lparr>rq_requests := (rq_requests q)(ch \<mapsto> (corrID, a))\<rparr>"

text \<open>\<open>uuid\<close> is what \<open>GenerateUUID\<close> returns; \<open>ch\<close> is the new channel.\<close>

definition send_register :: "nat \<Rightarrow> string \<Rightarrow> string \<Rightarrow> RPCQueue \<Rightarrow> RPCQueue" where
  "send_register ch uuid corrID q = (let corr = (if corrID = [] then uuid else corrID)
     in (move_to ch corr Registered q)\<lparr>rq_responseCh := (rq_responseCh q)(corr \<mapsto> ch)\<rparr>)"

definition request_timeout :: "RPCQueue \<Rightarrow> gerror" where
  "request_timeout q = Err (''request queue('' @ rq_requestQueueName q @ '') timeout'')"

text \<open>The deferred function deletes the entry of its identifier, whoever registered it.\<close>

definition cleanup_delete :: "nat \<Rightarrow> string \<Rightarrow> string res \<Rightarrow> RPCQueue \<Rightarrow> RPCQueue" where
  "cleanup_delete ch corrID r q = (move_to ch corrID (Deleted r) q)\<lparr>rq_responseCh := (rq_responseCh q)(corrID := None)\<rparr>"

section \<open>Actions of the consumer\<close>

definition take_msg :: "RPCQueue \<Rightarrow> RPCQueue" where
  "take_msg q = q\<lparr>rq_consumer := Holding (fst (rq_arrived q ! rq_taken q)) (snd (rq_arrived q ! rq_taken q)), rq_taken := Suc (rq_taken q)\<rparr>"

definition lookup_channel :: "string \<Rightarrow> string \<Rightarrow> RPCQueue \<Rightarrow> RPCQueue" where
  "lookup_channel corrID body q = q\<lparr>rq_consumer := (case rq_responseCh q corrID of None \<Rightarrow> Idle | Some ch \<Rightarrow> Sending ch body)\<rparr>"

text \<open>
  The sending \<open>select\<close> with a default: the reply is handed over if the request is at its own \<open>select\<close>, dropped if the channel
  is open and nobody receives, and sending on a closed channel panics.
\<close>

definition offer :: "nat \<Rightarrow> string \<Rightarrow> RPCQueue \<Rightarrow> RPCQueue" where
  "offer ch body q = (case rq_requests q ch of
     Some (corrID, Selecting) \<Rightarrow> (move_to ch corrID (Returned (Inr body)) q)\<lparr>rq_consumer := Idle\<rparr>
   | Some (corrID, Closed r) \<Rightarrow> q\<lparr>rq_panic := True\<rparr>
   | _ \<Rightarrow> q\<lparr>rq_consumer := Idle\<rparr>)"

section \<open>Runs\<close>

text \<open>After a panic the process is gone.\<close>

inductive rpc_step :: "RPCQueue \<Rightarrow> RPCQueue \<Rightarrow> bool" where
  begin_send: "\<not> rq_panic q \<Longrightarrow> rq_requests q ch = None \<Longrightarrow> rpc_step q (send_register ch uuid corrID q)"
| publish_ok: "\<not> rq_panic q \<Longrightarrow> rq_requests q ch = Some (c, Registered) \<Longrightarrow> rpc_step q (move_to ch c Selecting q)"
| publish_fails: "\<not> rq_panic q \<Longrightarrow> rq_requests q ch = Some (c, Registered) \<Longrightarrow> rpc_step q (move_to ch c (Returned (Inl e)) q)"
| times_out: "\<not> rq_panic q \<Longrightarrow> rq_requests q ch = Some (c, Selecting) \<Longrightarrow> rpc_step q (move_to ch c (Returned (Inl (request_timeout q))) q)"
| deletes: "\<not> rq_panic q \<Longrightarrow> rq_requests q ch = Some (c, Returned r) \<Longrightarrow> rpc_step q (cleanup_delete ch c r q)"
| closes: "\<not> rq_panic q \<Longrightarrow> rq_requests q ch = Some (c, Deleted r) \<Longrightarrow> rpc_step q (move_to ch c (Closed r) q)"
| arrives: "\<not> rq_panic q \<Longrightarrow> rpc_step q (q\<lparr>rq_arrived := rq_arrived q @ [(c, b)]\<rparr>)"
| takes: "\<not> rq_panic q \<Longrightarrow> rq_consumer q = Idle \<Longrightarrow> rq_taken q < length (rq_arrived q) \<Longrightarrow> rpc_step q (take_msg q)"
| looks_up: "\<not> rq_panic q \<Longrightarrow> rq_consumer q = Holding c b \<Longrightarrow> rpc_step q (lookup_channel c b q)"
| offers: "\<not> rq_panic q \<Longrightarrow> rq_consumer q = Sending ch b \<Longrightarrow> rpc_step q (offer ch b q)"
| exits: "\<not> rq_panic q \<Longrightarrow> rq_consumer q = Idle \<Longrightarrow> rpc_step q (q\<lparr>rq_consumer := Exited\<rparr>)"

inductive rpc_reach :: "string \<Rightarrow> RPCQueue \<Rightarrow> bool" for name where
  start: "rpc_reach name (NewRPCQueue name)"
| step: "rpc_reach name q \<Longrightarrow> rpc_step q q' \<Longrightarrow> rpc_reach name q'"

section \<open>Invariants\<close>

text \<open>The answer a request has been given.\<close>

fun answer_of :: "request_at \<Rightarrow> string option" where
  "answer_of (Returned (Inr b)) = Some b"
| "answer_of (Deleted (Inr b)) = Some b"
| "answer_of (Closed (Inr b)) = Some b"
| "answer_of _ = None"

definition in_flight :: "RPCQueue \<Rightarrow> nat" where
  "in_flight q = (case rq_consumer q of Holding _ _ \<Rightarrow> 1 | Sending _ _ \<Rightarrow> 1 | _ \<Rightarrow> 0)"

definition answered :: "RPCQueue \<Rightarrow> nat set" where
  "answered q = {ch. \<exists>c a b. rq_requests q ch = Some (c, a) \<and> answer_of a = Some b}"

definition rpc_inv :: "RPCQueue \<Rightarrow> bool" where
  "rpc_inv q \<longleftrightarrow>
     (\<forall>c ch. rq_responseCh q c = Some ch \<longrightarrow> (\<exists>a. rq_requests q ch = Some (c, a))) \<and>
     (\<forall>c b. rq_consumer q = Holding c b \<longrightarrow> (c, b) \<in> set (take (rq_taken q) (rq_arrived q))) \<and>
     (\<forall>ch b. rq_consumer q = Sending ch b \<longrightarrow> (\<exists>c a. rq_requests q ch = Some (c, a) \<and> (c, b) \<in> set (take (rq_taken q) (rq_arrived q)))) \<and>
     (\<forall>ch c a b. rq_requests q ch = Some (c, a) \<and> answer_of a = Some b \<longrightarrow> (c, b) \<in> set (take (rq_taken q) (rq_arrived q))) \<and>
     rq_taken q \<le> length (rq_arrived q)"

definition rpc_count :: "RPCQueue \<Rightarrow> bool" where
  "rpc_count q \<longleftrightarrow> finite (answered q) \<and> card (answered q) + in_flight q \<le> rq_taken q"

lemma rpc_inv_start: "rpc_inv (NewRPCQueue name) \<and> rpc_count (NewRPCQueue name)"
  by (simp add: rpc_inv_def rpc_count_def NewRPCQueue_def answered_def in_flight_def)

lemma answer_of_cases [simp]:
  "answer_of Registered = None" "answer_of Selecting = None"
  "answer_of (Returned r) = answer_of (Deleted r)" "answer_of (Closed r) = answer_of (Deleted r)"
  "answer_of (Deleted (Inl e)) = None"
  by (cases r; simp)+

lemma move_to_frame [simp]:
  "rq_responseCh (move_to ch c a q) = rq_responseCh q" "rq_consumer (move_to ch c a q) = rq_consumer q"
  "rq_arrived (move_to ch c a q) = rq_arrived q" "rq_taken (move_to ch c a q) = rq_taken q"
  "rq_panic (move_to ch c a q) = rq_panic q" "rq_requests (move_to ch c a q) = (rq_requests q)(ch \<mapsto> (c, a))"
  by (simp_all add: move_to_def)

text \<open>A request that moves without a new answer.\<close>

lemma rpc_inv_move:
  assumes "rpc_inv q" and "rq_requests q ch = Some (c, a)" and "answer_of a' = answer_of a"
  shows "rpc_inv (move_to ch c a' q)"
proof -
  have "c' = c" if "rq_responseCh q c' = Some ch" for c'
    using that assms(1,2) by (force simp: rpc_inv_def)
  then show ?thesis using assms by (auto simp: rpc_inv_def)
qed

lemma answered_move:
  assumes "rq_requests q ch = Some (c, a)" and "answer_of a' = answer_of a"
  shows "answered (move_to ch c a' q) = answered q"
  using assms by (auto simp: answered_def move_to_def)

lemma rpc_count_same:
  "answered q' = answered q \<Longrightarrow> in_flight q' = in_flight q \<Longrightarrow> rq_taken q' = rq_taken q \<Longrightarrow> rpc_count q \<Longrightarrow> rpc_count q'"
  by (simp add: rpc_count_def)

lemma rpc_move:
  assumes "rpc_inv q \<and> rpc_count q" and "rq_requests q ch = Some (c, a)" and "answer_of a' = answer_of a"
  shows "rpc_inv (move_to ch c a' q) \<and> rpc_count (move_to ch c a' q)"
  using assms rpc_inv_move answered_move rpc_count_same [of "move_to ch c a' q" q]
  by (auto simp: in_flight_def move_to_def)

lemma rpc_register:
  assumes "rpc_inv q \<and> rpc_count q" and "rq_requests q ch = None"
  shows "rpc_inv (send_register ch uuid corrID q) \<and> rpc_count (send_register ch uuid corrID q)"
proof
  have "rq_responseCh q c \<noteq> Some ch" for c using assms by (force simp: rpc_inv_def)
  then show "rpc_inv (send_register ch uuid corrID q)"
    using assms unfolding rpc_inv_def send_register_def move_to_def Let_def by (auto split: if_splits)
  have "answered (send_register ch uuid corrID q) = answered q"
    using assms(2) by (auto simp: answered_def send_register_def move_to_def Let_def)
  then show "rpc_count (send_register ch uuid corrID q)"
    using assms(1) by (auto simp: rpc_count_def in_flight_def send_register_def move_to_def Let_def)
qed

lemma rpc_delete:
  assumes "rpc_inv q \<and> rpc_count q" and "rq_requests q ch = Some (c, Returned r)"
  shows "rpc_inv (cleanup_delete ch c r q) \<and> rpc_count (cleanup_delete ch c r q)"
proof -
  have "rpc_inv (move_to ch c (Deleted r) q) \<and> rpc_count (move_to ch c (Deleted r) q)"
    using rpc_move [OF assms, of "Deleted r"] by simp
  then show ?thesis
    by (auto simp: cleanup_delete_def rpc_inv_def rpc_count_def answered_def in_flight_def split: if_splits)
qed

lemma rpc_offer:
  assumes "rpc_inv q \<and> rpc_count q" and "rq_consumer q = Sending ch b"
  shows "rpc_inv (offer ch b q) \<and> rpc_count (offer ch b q)"
proof -
  obtain c a where ch: "rq_requests q ch = Some (c, a)" "(c, b) \<in> set (take (rq_taken q) (rq_arrived q))"
    using assms by (auto simp: rpc_inv_def)
  have idle: "rpc_inv (q\<lparr>rq_consumer := Idle\<rparr>) \<and> rpc_count (q\<lparr>rq_consumer := Idle\<rparr>)"
    using assms(1) by (auto simp: rpc_inv_def rpc_count_def answered_def in_flight_def)
  show ?thesis
  proof (cases a)
    case Selecting
    then have off: "offer ch b q = (move_to ch c (Returned (Inr b)) q)\<lparr>rq_consumer := Idle\<rparr>"
      using ch(1) by (simp add: offer_def)
    have "answered (offer ch b q) = insert ch (answered q)"
      using ch(1) by (auto simp: off answered_def move_to_def)
    moreover have "ch \<notin> answered q" using ch(1) Selecting by (simp add: answered_def)
    ultimately have "rpc_count (offer ch b q)"
      using assms by (auto simp: rpc_count_def in_flight_def off move_to_def)
    moreover have "c' = c" if "rq_responseCh q c' = Some ch" for c'
      using that assms(1) ch(1) by (force simp: rpc_inv_def)
    then have "rpc_inv (offer ch b q)"
      using assms(1) ch unfolding rpc_inv_def off move_to_def by auto
    ultimately show ?thesis by simp
  next
    case (Closed r)
    then show ?thesis using assms ch(1) by (auto simp: offer_def rpc_inv_def rpc_count_def answered_def in_flight_def)
  qed (use ch(1) idle in \<open>simp_all add: offer_def\<close>)
qed

lemma rpc_take:
  assumes "rpc_inv q \<and> rpc_count q" and "rq_consumer q = Idle" and "rq_taken q < length (rq_arrived q)"
  shows "rpc_inv (take_msg q) \<and> rpc_count (take_msg q)"
  using assms by (auto simp: rpc_inv_def rpc_count_def take_msg_def answered_def in_flight_def take_Suc_conv_app_nth)

lemma rpc_lookup:
  assumes "rpc_inv q \<and> rpc_count q" and "rq_consumer q = Holding c b"
  shows "rpc_inv (lookup_channel c b q) \<and> rpc_count (lookup_channel c b q)"
proof -
  have "\<exists>a. rq_requests q ch = Some (c, a)" if "rq_responseCh q c = Some ch" for ch
    using assms(1) that by (simp add: rpc_inv_def)
  then show ?thesis
    using assms by (fastforce simp: rpc_inv_def rpc_count_def lookup_channel_def answered_def in_flight_def split: option.split)
qed

lemma rpc_arrive:
  assumes "rpc_inv q \<and> rpc_count q"
  shows "rpc_inv (q\<lparr>rq_arrived := rq_arrived q @ [d]\<rparr>) \<and> rpc_count (q\<lparr>rq_arrived := rq_arrived q @ [d]\<rparr>)"
  using assms by (auto simp: rpc_inv_def rpc_count_def answered_def in_flight_def)

lemma rpc_inv_step: "rpc_step q q' \<Longrightarrow> rpc_inv q \<and> rpc_count q \<Longrightarrow> rpc_inv q' \<and> rpc_count q'"
proof (induction rule: rpc_step.induct)
  case (begin_send q ch uuid corrID)
  then show ?case by (intro rpc_register)
next
  case (publish_ok q ch c)
  then show ?case by (intro rpc_move [where a = Registered]) simp_all
next
  case (publish_fails q ch c e)
  then show ?case by (intro rpc_move [where a = Registered]) simp_all
next
  case (times_out q ch c)
  then show ?case by (intro rpc_move [where a = Selecting]) simp_all
next
  case (deletes q ch c r)
  then show ?case by (intro rpc_delete)
next
  case (closes q ch c r)
  then show ?case by (intro rpc_move [where a = "Deleted r"]) simp_all
next
  case (arrives q c b)
  then show ?case by (intro rpc_arrive)
next
  case (takes q)
  then show ?case by (intro rpc_take)
next
  case (looks_up q c b)
  then show ?case by (intro rpc_lookup)
next
  case (offers q ch b)
  then show ?case by (intro rpc_offer)
next
  case (exits q)
  then show ?case by (auto simp: rpc_inv_def rpc_count_def answered_def in_flight_def)
qed

lemma rpc_inv_reach: "rpc_reach name q \<Longrightarrow> rpc_inv q \<and> rpc_count q"
  by (induction rule: rpc_reach.induct) (auto simp: rpc_inv_start dest: rpc_inv_step)


section \<open>Answers\<close>

text \<open>
  (C26) Whatever the interleaving of requests, replies and timeouts, also with repeated identifiers: a request that returns an answer
  returns the body of a reply that arrived with its own correlation identifier, and at most one request is answered per reply.
\<close>
theorem rpc_answers_match:
  assumes "rpc_reach name q"
  shows "(\<forall>ch c b. rq_requests q ch = Some (c, Closed (Inr b)) \<longrightarrow> (c, b) \<in> set (rq_arrived q)) \<and>
    card (answered q) \<le> length (rq_arrived q)"
proof -
  have inv: "rpc_inv q" "rpc_count q" using rpc_inv_reach [OF assms] by simp_all
  have "(c, b) \<in> set (take (rq_taken q) (rq_arrived q))" if "rq_requests q ch = Some (c, Closed (Inr b))" for ch c b
    using inv(1) that unfolding rpc_inv_def by (metis answer_of.simps(3))
  moreover have "card (answered q) \<le> length (rq_arrived q)"
    using inv unfolding rpc_inv_def rpc_count_def by linarith
  ultimately show ?thesis by (meson in_set_takeD)
qed

text \<open>A reply that is looked up while its request waits, with nothing in between, is the answer.\<close>
theorem reply_delivered:
  assumes "rq_responseCh q c = Some ch" and "rq_requests q ch = Some (c, Selecting)"
  shows "rq_requests (offer ch b (lookup_channel c b q)) ch = Some (c, Returned (Inr b))"
  using assms by (simp add: lookup_channel_def offer_def)

section \<open>Three runs\<close>

text \<open>A request and its reply.\<close>

definition rpc_begun :: RPCQueue where
  "rpc_begun = send_register 0 [] ''id'' (NewRPCQueue ''q'')"

definition rpc_replied :: "RPCQueue \<Rightarrow> RPCQueue" where
  "rpc_replied q = take_msg (q\<lparr>rq_arrived := rq_arrived q @ [(''id'', ''ok'')]\<rparr>)"

lemmas rpc_run_simps = rpc_begun_def rpc_replied_def NewRPCQueue_def send_register_def move_to_def take_msg_def lookup_channel_def
  offer_def cleanup_delete_def request_timeout_def Let_def

lemma rpc_begun_reach: "rpc_reach ''q'' rpc_begun"
  unfolding rpc_begun_def by (rule rpc_reach.step [OF rpc_reach.start], rule rpc_step.begin_send) (simp_all add: NewRPCQueue_def)

lemma rpc_reach_reply:
  assumes "rpc_reach name q" and "\<not> rq_panic q" and "rq_consumer q = Idle" and "rq_taken q = length (rq_arrived q)"
  shows "rpc_reach name (rpc_replied q)"
proof -
  have "rpc_reach name (q\<lparr>rq_arrived := rq_arrived q @ [(''id'', ''ok'')]\<rparr>)"
    using assms by (intro rpc_reach.step [OF assms(1) rpc_step.arrives])
  then show ?thesis
    unfolding rpc_replied_def by (rule rpc_reach.step) (rule rpc_step.takes, use assms in simp_all)
qed

theorem rpc_answers_match_witness:
  "\<exists>q. rpc_reach ''q'' q \<and> rq_requests q 0 = Some (''id'', Returned (Inr ''ok'')) \<and> card (answered q) \<le> length (rq_arrived q)"
proof -
  let ?q1 = "move_to 0 ''id'' Selecting rpc_begun"
  let ?q2 = "rpc_replied ?q1"
  let ?q3 = "lookup_channel ''id'' ''ok'' ?q2"
  let ?q4 = "offer 0 ''ok'' ?q3"
  have "rpc_reach ''q'' ?q1"
    by (rule rpc_reach.step [OF rpc_begun_reach], rule rpc_step.publish_ok) (simp_all add: rpc_run_simps)
  then have "rpc_reach ''q'' ?q2"
    by (rule rpc_reach_reply) (simp_all add: rpc_run_simps)
  then have "rpc_reach ''q'' ?q3"
    by (rule rpc_reach.step) (rule rpc_step.looks_up, simp_all add: rpc_run_simps)
  then have q4: "rpc_reach ''q'' ?q4"
    by (rule rpc_reach.step) (rule rpc_step.offers, simp_all add: rpc_run_simps)
  moreover have "rq_requests ?q4 0 = Some (''id'', Returned (Inr ''ok''))" by (simp add: rpc_run_simps)
  ultimately show ?thesis using rpc_answers_match [OF q4] by blast
qed

text \<open> The consumer can take the process down: it looks up the channel of a request, the request times out, removes its entry and closes
  the channel, and the consumer sends on it.
\<close>
theorem rpc_late_reply_panics: "\<exists>q. rpc_reach ''q'' q \<and> rq_panic q"
proof -
  let ?q1 = "move_to 0 ''id'' Selecting rpc_begun"
  let ?q2 = "rpc_replied ?q1"
  let ?q3 = "lookup_channel ''id'' ''ok'' ?q2"
  let ?t = "Inl (request_timeout ?q3)"
  let ?q4 = "move_to 0 ''id'' (Returned ?t) ?q3"
  let ?q5 = "cleanup_delete 0 ''id'' ?t ?q4"
  let ?q6 = "move_to 0 ''id'' (Closed ?t) ?q5"
  let ?q7 = "offer 0 ''ok'' ?q6"
  have "rpc_reach ''q'' ?q1"
    by (rule rpc_reach.step [OF rpc_begun_reach], rule rpc_step.publish_ok) (simp_all add: rpc_run_simps)
  then have "rpc_reach ''q'' ?q2"
    by (rule rpc_reach_reply) (simp_all add: rpc_run_simps)
  then have "rpc_reach ''q'' ?q3"
    by (rule rpc_reach.step) (rule rpc_step.looks_up, simp_all add: rpc_run_simps)
  then have "rpc_reach ''q'' ?q4"
    by (rule rpc_reach.step) (rule rpc_step.times_out, simp_all add: rpc_run_simps)
  then have "rpc_reach ''q'' ?q5"
    by (rule rpc_reach.step) (rule rpc_step.deletes, simp_all add: rpc_run_simps)
  then have "rpc_reach ''q'' ?q6"
    by (rule rpc_reach.step) (rule rpc_step.closes, simp_all add: rpc_run_simps)
  then have "rpc_reach ''q'' ?q7"
    by (rule rpc_reach.step) (rule rpc_step.offers, simp_all add: rpc_run_simps)
  moreover have "rq_panic ?q7" by (simp add: rpc_run_simps)
  ultimately show ?thesis by blast
qed

text \<open>
  A reply that is offered before the request has reached its \<open>select\<close> is dropped, and the request can only time out.
\<close>
theorem rpc_early_reply_lost:
  "\<exists>q. rpc_reach ''q'' q \<and> (''id'', ''ok'') \<in> set (take (rq_taken q) (rq_arrived q)) \<and> rq_consumer q = Idle \<and>
     rq_requests q 0 = Some (''id'', Selecting)"
proof -
  let ?q1 = "rpc_replied rpc_begun"
  let ?q2 = "lookup_channel ''id'' ''ok'' ?q1"
  let ?q3 = "offer 0 ''ok'' ?q2"
  let ?q4 = "move_to 0 ''id'' Selecting ?q3"
  have "rpc_reach ''q'' ?q1"
    by (rule rpc_reach_reply [OF rpc_begun_reach]) (simp_all add: rpc_run_simps)
  then have "rpc_reach ''q'' ?q2"
    by (rule rpc_reach.step) (rule rpc_step.looks_up, simp_all add: rpc_run_simps)
  then have "rpc_reach ''q'' ?q3"
    by (rule rpc_reach.step) (rule rpc_step.offers, simp_all add: rpc_run_simps)
  then have "rpc_reach ''q'' ?q4"
    by (rule rpc_reach.step) (rule rpc_step.publish_ok, simp_all add: rpc_run_simps)
  moreover have "(''id'', ''ok'') \<in> set (take (rq_taken ?q4) (rq_arrived ?q4)) \<and> rq_consumer ?q4 = Idle \<and>
      rq_requests ?q4 0 = Some (''id'', Selecting)"
    by (simp add: rpc_run_simps)
  ultimately show ?thesis by blast
qed

text \<open>
  With the identifier of a request in flight, a second request replaces its entry, and the end of the first removes the entry of
  the second: neither can be answered any more.
\<close>
theorem rpc_repeated_id:
  assumes "ch \<noteq> ch'" and "c \<noteq> []"
  shows "rq_responseCh (cleanup_delete ch c r (send_register ch' u c (send_register ch u' c q))) c = None \<and>
    rq_responseCh (send_register ch' u c (send_register ch u' c q)) c = Some ch'"
  using assms by (simp add: cleanup_delete_def send_register_def Let_def)

end
