(* ===== verification/Redis_Cache.thy ===== *)
theory Redis_Cache
  imports Redis_Zset
begin

text \<open>
  The Redis helpers of \<open>dbtools/redispool/redis_cache.go\<close> (its locks are in \<open>Service_Pool\<close>). The commands of the client are a record of
  operations on an abstract server state; string commands are those of \<open>Redis_Kv\<close>. A command that fails may have had an effect, so
  it returns a state as well. The package functions go through the instance set by \<open>InitCache\<close>; without one they panic (\<open>None\<close>).
\<close>

section \<open>Commands\<close>

type_synonym redis_bounds = "string \<times> string \<times> int \<times> int"

record 'q redis_client =
  rc_kv :: "'q kv_ops"
  rc_setex :: "'q \<Rightarrow> gotime \<Rightarrow> string \<Rightarrow> string \<Rightarrow> duration \<Rightarrow> 'q res"
  rc_ttl :: "'q \<Rightarrow> gotime \<Rightarrow> string \<Rightarrow> duration res"
  rc_lpush :: "'q \<Rightarrow> string \<Rightarrow> string list \<Rightarrow> unit res \<times> 'q"
  rc_rpop :: "'q \<Rightarrow> string \<Rightarrow> string res \<times> 'q"
  rc_rpoplpush :: "'q \<Rightarrow> string \<Rightarrow> string \<Rightarrow> string res \<times> 'q"
  rc_lrem :: "'q \<Rightarrow> string \<Rightarrow> int \<Rightarrow> string \<Rightarrow> int res \<times> 'q"
  rc_zadd :: "'q \<Rightarrow> string \<Rightarrow> redis_Z list \<Rightarrow> int res \<times> 'q"
  rc_zcount :: "'q \<Rightarrow> string \<Rightarrow> string \<Rightarrow> string \<Rightarrow> int res"
  rc_zincrby :: "'q \<Rightarrow> string \<Rightarrow> int \<Rightarrow> string \<Rightarrow> int res \<times> 'q"
  rc_zrange_scores :: "'q \<Rightarrow> string \<Rightarrow> int \<Rightarrow> int \<Rightarrow> redis_Z list res"
  rc_zrange :: "'q \<Rightarrow> string \<Rightarrow> int \<Rightarrow> int \<Rightarrow> string list res"
  rc_zrangebyscore :: "'q \<Rightarrow> string \<Rightarrow> redis_bounds \<Rightarrow> string list res"
  rc_zrangebyscore_scores :: "'q \<Rightarrow> string \<Rightarrow> redis_bounds \<Rightarrow> redis_Z list res"
  rc_zrem :: "'q \<Rightarrow> string \<Rightarrow> string list \<Rightarrow> int res \<times> 'q"
  rc_hdel :: "'q \<Rightarrow> string \<Rightarrow> string list \<Rightarrow> int res \<times> 'q"
  rc_hexists :: "'q \<Rightarrow> string \<Rightarrow> string \<Rightarrow> bool res"
  rc_hget :: "'q \<Rightarrow> string \<Rightarrow> string \<Rightarrow> string res"
  rc_hset :: "'q \<Rightarrow> string \<Rightarrow> string list \<Rightarrow> int res \<times> 'q"
  rc_hsetnx :: "'q \<Rightarrow> string \<Rightarrow> string \<Rightarrow> string \<Rightarrow> bool res \<times> 'q"

section \<open>Methods of the cache\<close>

definition rc_IsExist :: "'q redis_client \<Rightarrow> 'q \<Rightarrow> gotime \<Rightarrow> string \<Rightarrow> bool" where
  "rc_IsExist C q now key = (case kv_exists (rc_kv C) q now key of Inl e \<Rightarrow> False | Inr n \<Rightarrow> 0 < n)"

definition rc_TTL :: "'q redis_client \<Rightarrow> 'q \<Rightarrow> gotime \<Rightarrow> string \<Rightarrow> duration" where
  "rc_TTL C q now key = (case rc_ttl C q now key of Inl e \<Rightarrow> 0 | Inr d \<Rightarrow> d)"

definition rc_Get :: "'q redis_client \<Rightarrow> 'q \<Rightarrow> gotime \<Rightarrow> string \<Rightarrow> string res" where
  "rc_Get C q now key = kv_get (rc_kv C) q now key"

definition rc_SetEx :: "'q redis_client \<Rightarrow> 'q \<Rightarrow> gotime \<Rightarrow> string \<Rightarrow> string \<Rightarrow> duration \<Rightarrow> 'q res" where
  "rc_SetEx C q now key data expired = rc_setex C q now key data expired"

definition rc_SetNX :: "'q redis_client \<Rightarrow> 'q \<Rightarrow> gotime \<Rightarrow> string \<Rightarrow> string \<Rightarrow> duration \<Rightarrow> (bool \<times> 'q) res" where
  "rc_SetNX C q now key data expired = kv_setnx (rc_kv C) q now key data expired"

definition rc_Del :: "'q redis_client \<Rightarrow> 'q \<Rightarrow> gotime \<Rightarrow> string \<Rightarrow> 'q res" where
  "rc_Del C q now key = kv_del (rc_kv C) q now key"

definition rc_LPush :: "'q redis_client \<Rightarrow> 'q \<Rightarrow> string \<Rightarrow> string list \<Rightarrow> unit res \<times> 'q" where
  "rc_LPush C q key values = rc_lpush C q key values"

definition rc_RPop :: "'q redis_client \<Rightarrow> 'q \<Rightarrow> string \<Rightarrow> string res \<times> 'q" where
  "rc_RPop C q key = rc_rpop C q key"

definition rc_RPopLPush :: "'q redis_client \<Rightarrow> 'q \<Rightarrow> string \<Rightarrow> string \<Rightarrow> string res \<times> 'q" where
  "rc_RPopLPush C q src dst = rc_rpoplpush C q src dst"

definition rc_LRem :: "'q redis_client \<Rightarrow> 'q \<Rightarrow> string \<Rightarrow> int \<Rightarrow> string \<Rightarrow> int res \<times> 'q" where
  "rc_LRem C q key cnt v = rc_lrem C q key cnt v"

definition rc_ZAdd :: "'q redis_client \<Rightarrow> 'q \<Rightarrow> string \<Rightarrow> redis_Z list \<Rightarrow> int res \<times> 'q" where
  "rc_ZAdd C q key members = rc_zadd C q key members"

definition rc_ZCount :: "'q redis_client \<Rightarrow> 'q \<Rightarrow> string \<Rightarrow> string \<Rightarrow> string \<Rightarrow> int res" where
  "rc_ZCount C q key lo hi = rc_zcount C q key lo hi"

definition rc_ZIncrBy :: "'q redis_client \<Rightarrow> 'q \<Rightarrow> string \<Rightarrow> int \<Rightarrow> string \<Rightarrow> int res \<times> 'q" where
  "rc_ZIncrBy C q key increment m = rc_zincrby C q key increment m"

definition rc_ZRangeWithScores :: "'q redis_client \<Rightarrow> 'q \<Rightarrow> string \<Rightarrow> int \<Rightarrow> int \<Rightarrow> redis_Z list res" where
  "rc_ZRangeWithScores C q key start stop = rc_zrange_scores C q key start stop"

definition rc_ZRange :: "'q redis_client \<Rightarrow> 'q \<Rightarrow> string \<Rightarrow> int \<Rightarrow> int \<Rightarrow> string list res" where
  "rc_ZRange C q key start stop = rc_zrange C q key start stop"

definition rc_ZRangeByScore :: "'q redis_client \<Rightarrow> 'q \<Rightarrow> string \<Rightarrow> redis_bounds \<Rightarrow> string list res" where
  "rc_ZRangeByScore C q key bounds = rc_zrangebyscore C q key bounds"

definition rc_ZRangeByScoreWithScores :: "'q redis_client \<Rightarrow> 'q \<Rightarrow> string \<Rightarrow> redis_bounds \<Rightarrow> redis_Z list res" where
  "rc_ZRangeByScoreWithScores C q key bounds = rc_zrangebyscore_scores C q key bounds"

definition rc_ZRem :: "'q redis_client \<Rightarrow> 'q \<Rightarrow> string \<Rightarrow> string list \<Rightarrow> int res \<times> 'q" where
  "rc_ZRem C q key members = rc_zrem C q key members"

definition rc_HDel :: "'q redis_client \<Rightarrow> 'q \<Rightarrow> string \<Rightarrow> string list \<Rightarrow> int res \<times> 'q" where
  "rc_HDel C q key fs = rc_hdel C q key fs"

definition rc_HExists :: "'q redis_client \<Rightarrow> 'q \<Rightarrow> string \<Rightarrow> string \<Rightarrow> bool res" where
  "rc_HExists C q key field = rc_hexists C q key field"

definition rc_HGet :: "'q redis_client \<Rightarrow> 'q \<Rightarrow> string \<Rightarrow> string \<Rightarrow> string res" where
  "rc_HGet C q key field = rc_hget C q key field"

definition rc_HSet :: "'q redis_client \<Rightarrow> 'q \<Rightarrow> string \<Rightarrow> string \<Rightarrow> string \<Rightarrow> int res \<times> 'q" where
  "rc_HSet C q key field v = rc_hset C q key [field, v]"

definition rc_HMSet :: "'q redis_client \<Rightarrow> 'q \<Rightarrow> string \<Rightarrow> string list \<Rightarrow> int res \<times> 'q" where
  "rc_HMSet C q key values = rc_hset C q key values"

definition rc_HSetNX :: "'q redis_client \<Rightarrow> 'q \<Rightarrow> string \<Rightarrow> string \<Rightarrow> string \<Rightarrow> bool res \<times> 'q" where
  "rc_HSetNX C q key field v = rc_hsetnx C q key field v"

section \<open>Functions of the package\<close>

type_synonym 'q std_cache = "'q redis_client option"

definition InitCache :: "'q redis_client \<Rightarrow> 'q std_cache" where "InitCache cli = Some cli"

definition CacheInstance :: "'q std_cache \<Rightarrow> 'q redis_client option" where "CacheInstance std = std"

definition pool_SetString :: "'q std_cache \<Rightarrow> 'q \<Rightarrow> gotime \<Rightarrow> string \<Rightarrow> string \<Rightarrow> duration \<Rightarrow> 'q res option" where
  "pool_SetString std q now key v timeout = map_option (\<lambda>C. rc_SetEx C q now key v timeout) (CacheInstance std)"

definition pool_GetString :: "'q std_cache \<Rightarrow> 'q \<Rightarrow> gotime \<Rightarrow> string \<Rightarrow> string res option" where
  "pool_GetString std q now key = map_option (\<lambda>C. rc_Get C q now key) (CacheInstance std)"

definition pool_Del :: "'q std_cache \<Rightarrow> 'q \<Rightarrow> gotime \<Rightarrow> string \<Rightarrow> 'q res option" where
  "pool_Del std q now key = map_option (\<lambda>C. rc_Del C q now key) (CacheInstance std)"

text \<open>The time to live is read by a second command, at \<open>now'\<close> on \<open>q'\<close>. Durations count nanoseconds.\<close>

definition IsExistKey :: "'q std_cache \<Rightarrow> 'q \<times> gotime \<Rightarrow> 'q \<times> gotime \<Rightarrow> string \<Rightarrow> (bool \<times> duration) option" where
  "IsExistKey std first second key = map_option (\<lambda>C.
     if \<not> rc_IsExist C (fst first) (snd first) key then (False, -2)
     else (True, rc_TTL C (fst second) (snd second) key)) (CacheInstance std)"

text \<open>\<open>marshal\<close> and \<open>unmarshal\<close> are the JSON encoder and decoder for the type of the value.\<close>

definition pool_SetJSON :: "('a \<Rightarrow> string res) \<Rightarrow> 'q std_cache \<Rightarrow> 'q \<Rightarrow> gotime \<Rightarrow> string \<Rightarrow> 'a \<Rightarrow> duration \<Rightarrow> 'q res option" where
  "pool_SetJSON marshal std q now key v expired = (case marshal v of Inl e \<Rightarrow> Some (Inl e) | Inr data \<Rightarrow> pool_SetString std q now key data expired)"

definition pool_GetJSON :: "(string \<Rightarrow> 'a res) \<Rightarrow> 'q std_cache \<Rightarrow> 'q \<Rightarrow> gotime \<Rightarrow> string \<Rightarrow> 'a res option" where
  "pool_GetJSON unmarshal std q now key = map_option (\<lambda>r. case r of Inl e \<Rightarrow> Inl e | Inr data \<Rightarrow> unmarshal data) (pool_GetString std q now key)"

definition pool_LPush :: "'q std_cache \<Rightarrow> 'q \<Rightarrow> string \<Rightarrow> string list \<Rightarrow> (unit res \<times> 'q) option" where
  "pool_LPush std q key values = map_option (\<lambda>C. rc_LPush C q key values) (CacheInstance std)"

definition pool_RPop :: "'q std_cache \<Rightarrow> 'q \<Rightarrow> string \<Rightarrow> (string res \<times> 'q) option" where
  "pool_RPop std q key = map_option (\<lambda>C. rc_RPop C q key) (CacheInstance std)"

definition pool_RPopLPush :: "'q std_cache \<Rightarrow> 'q \<Rightarrow> string \<Rightarrow> string \<Rightarrow> (string res \<times> 'q) option" where
  "pool_RPopLPush std q src dst = map_option (\<lambda>C. rc_RPopLPush C q src dst) (CacheInstance std)"

definition pool_LRem :: "'q std_cache \<Rightarrow> 'q \<Rightarrow> string \<Rightarrow> int \<Rightarrow> string \<Rightarrow> (int res \<times> 'q) option" where
  "pool_LRem std q key cnt v = map_option (\<lambda>C. rc_LRem C q key cnt v) (CacheInstance std)"

definition pool_SetNX :: "'q std_cache \<Rightarrow> 'q \<Rightarrow> gotime \<Rightarrow> string \<Rightarrow> string \<Rightarrow> duration \<Rightarrow> (bool \<times> 'q) res option" where
  "pool_SetNX std q now key data expired = map_option (\<lambda>C. rc_SetNX C q now key data expired) (CacheInstance std)"

definition pool_ZAdd :: "'q std_cache \<Rightarrow> 'q \<Rightarrow> string \<Rightarrow> redis_Z list \<Rightarrow> (int res \<times> 'q) option" where
  "pool_ZAdd std q key members = map_option (\<lambda>C. rc_ZAdd C q key members) (CacheInstance std)"

definition pool_ZCount :: "'q std_cache \<Rightarrow> 'q \<Rightarrow> string \<Rightarrow> string \<Rightarrow> string \<Rightarrow> int res option" where
  "pool_ZCount std q key lo hi = map_option (\<lambda>C. rc_ZCount C q key lo hi) (CacheInstance std)"

definition pool_ZIncrBy :: "'q std_cache \<Rightarrow> 'q \<Rightarrow> string \<Rightarrow> int \<Rightarrow> string \<Rightarrow> (int res \<times> 'q) option" where
  "pool_ZIncrBy std q key increment m = map_option (\<lambda>C. rc_ZIncrBy C q key increment m) (CacheInstance std)"

definition pool_ZRangeWithScores :: "'q std_cache \<Rightarrow> 'q \<Rightarrow> string \<Rightarrow> int \<Rightarrow> int \<Rightarrow> redis_Z list res option" where
  "pool_ZRangeWithScores std q key start stop = map_option (\<lambda>C. rc_ZRangeWithScores C q key start stop) (CacheInstance std)"

definition pool_ZRange :: "'q std_cache \<Rightarrow> 'q \<Rightarrow> string \<Rightarrow> int \<Rightarrow> int \<Rightarrow> string list res option" where
  "pool_ZRange std q key start stop = map_option (\<lambda>C. rc_ZRange C q key start stop) (CacheInstance std)"

definition pool_ZRangeByScore :: "'q std_cache \<Rightarrow> 'q \<Rightarrow> string \<Rightarrow> redis_bounds \<Rightarrow> string list res option" where
  "pool_ZRangeByScore std q key bounds = map_option (\<lambda>C. rc_ZRangeByScore C q key bounds) (CacheInstance std)"

definition pool_ZRangeByScoreWithScores :: "'q std_cache \<Rightarrow> 'q \<Rightarrow> string \<Rightarrow> redis_bounds \<Rightarrow> redis_Z list res option" where
  "pool_ZRangeByScoreWithScores std q key bounds = map_option (\<lambda>C. rc_ZRangeByScoreWithScores C q key bounds) (CacheInstance std)"

text \<open>The members are not passed on.\<close>

definition pool_ZRem :: "'q std_cache \<Rightarrow> 'q \<Rightarrow> string \<Rightarrow> string list \<Rightarrow> (int res \<times> 'q) option" where
  "pool_ZRem std q key members = map_option (\<lambda>C. rc_ZRem C q key []) (CacheInstance std)"


section \<open>What the server promises\<close>

text \<open>\<open>ls q k\<close> is the list at \<open>k\<close>, its head first; \<open>zs q k\<close> the sorted set; \<open>ent\<close> the strings.\<close>

fun remove_first :: "nat \<Rightarrow> 'a \<Rightarrow> 'a list \<Rightarrow> 'a list" where
  "remove_first n v [] = []"
| "remove_first n v (x # xs) = (if x = v \<and> 0 < n then remove_first (n - 1) v xs else x # remove_first n v xs)"

locale cache_server =
  fixes C :: "'q redis_client" and ent :: "'q \<Rightarrow> string \<Rightarrow> kv_entry option"
    and ls :: "'q \<Rightarrow> string \<Rightarrow> string list" and zs :: "'q \<Rightarrow> string \<Rightarrow> zset"
  assumes setex_ok: "rc_setex C q now k v ttl = Inr q' \<Longrightarrow> 0 < ttl \<and> ent q' = (ent q)(k \<mapsto> (v, Some (now + ttl)))"
    and get_ok: "kv_get (rc_kv C) q now k = Inr v \<Longrightarrow> live (ent q k) now = Some v"
    and lpush_ok: "rc_lpush C q k vs = (Inr u, q') \<Longrightarrow> ls q' = (ls q)(k := rev vs @ ls q k)"
    and rpop_ok: "rc_rpop C q k = (Inr v, q') \<Longrightarrow> ls q k \<noteq> [] \<and> v = last (ls q k) \<and> ls q' = (ls q)(k := butlast (ls q k))"
    and rpoplpush_ok: "rc_rpoplpush C q src dst = (Inr v, q') \<Longrightarrow> ls q src \<noteq> [] \<and> v = last (ls q src) \<and>
       ls q' = ((ls q)(src := butlast (ls q src)))(dst := v # ((ls q)(src := butlast (ls q src))) dst)"
    and lrem_ok: "rc_lrem C q k cnt v = (Inr n, q') \<Longrightarrow> 0 < cnt \<Longrightarrow>
       ls q' = (ls q)(k := remove_first (nat cnt) v (ls q k)) \<and> n = int (length (ls q k)) - int (length (ls q' k))"
    and zrem_ok: "rc_zrem C q k ms = (Inr n, q') \<Longrightarrow> ms \<noteq> [] \<and> zs q' = (zs q)(k := zs q k |` (- set ms))"
    and zrem_none: "rc_zrem C q k [] = (r, q') \<Longrightarrow> zs q' = zs q"

text \<open>\<open>n\<close> elements are popped, each successfully.\<close>

fun pop_many :: "'q std_cache \<Rightarrow> string \<Rightarrow> nat \<Rightarrow> 'q \<Rightarrow> (string list \<times> 'q) option" where
  "pop_many std key 0 q = Some ([], q)"
| "pop_many std key (Suc n) q = (case pool_RPop std q key of
     Some (Inr v, q') \<Rightarrow> (case pop_many std key n q' of Some (vs, q'') \<Rightarrow> Some (v # vs, q'') | None \<Rightarrow> None)
   | _ \<Rightarrow> None)"

context cache_server
begin

lemma pop_many_order:
  assumes "pop_many (Some C) k n q = Some (vs, q')"
  shows "vs = take n (rev (ls q k)) \<and> n \<le> length (ls q k) \<and> rev (ls q' k) = drop n (rev (ls q k))"
  using assms
proof (induction n arbitrary: q vs)
  case (Suc n)
  then obtain v q1 where pop: "rc_rpop C q k = (Inr v, q1)"
    by (auto simp: pool_RPop_def CacheInstance_def rc_RPop_def split: sum.splits prod.splits)
  with Suc.prems obtain ws where ws: "pop_many (Some C) k n q1 = Some (ws, q')" "vs = v # ws"
    by (auto simp: pool_RPop_def CacheInstance_def rc_RPop_def split: option.splits)
  note front = rpop_ok [OF pop]
  then have "ls q k = ls q1 k @ [v]" by simp
  then have "rev (ls q k) = v # rev (ls q1 k)" "length (ls q k) = Suc (length (ls q1 k))" by simp_all
  with Suc.IH [OF ws(1)] ws(2) show ?case by simp
qed simp

lemma moved_then_removed:
  assumes "src \<noteq> dst" and "rc_rpoplpush C q src dst = (Inr v, q1)" and "rc_lrem C q1 dst 1 v = (Inr n, q2)"
  shows "ls q2 = (ls q)(src := butlast (ls q src)) \<and> n = 1"
proof -
  have "ls q1 = ((ls q)(src := butlast (ls q src)))(dst := v # ls q dst)"
    using rpoplpush_ok [OF assms(2)] assms(1) by simp
  moreover have "ls q2 = (ls q1)(dst := remove_first 1 v (ls q1 dst)) \<and> n = int (length (ls q1 dst)) - int (length (ls q2 dst))"
    using lrem_ok [OF assms(3)] by simp
  moreover have "remove_first 0 v xs = xs" for xs by (induction xs) auto
  ultimately show ?thesis using assms(1) by auto
qed

end

section \<open>A server in memory\<close>

record mem_cache =
  mc_strings :: mem_kv
  mc_lists :: "string \<Rightarrow> string list"
  mc_sets :: "string \<Rightarrow> zset"

definition mc_pop :: "mem_cache \<Rightarrow> string \<Rightarrow> string res \<times> mem_cache" where
  "mc_pop q k = (if mc_lists q k = [] then (Inl redis_Nil, q)
     else (Inr (last (mc_lists q k)), q\<lparr>mc_lists := (mc_lists q)(k := butlast (mc_lists q k))\<rparr>))"

definition mc_push :: "mem_cache \<Rightarrow> string \<Rightarrow> string list \<Rightarrow> mem_cache" where
  "mc_push q k vs = q\<lparr>mc_lists := (mc_lists q)(k := rev vs @ mc_lists q k)\<rparr>"

definition mc_other :: gerror where "mc_other = Err ''not supported''"

definition mc_client :: "mem_cache redis_client" where
  "mc_client = \<lparr>rc_kv = \<lparr>kv_set = (\<lambda>q now k v ttl. Inr (q\<lparr>mc_strings := (mc_strings q)(k \<mapsto> (v, expiry now ttl))\<rparr>)),
       kv_setnx = (\<lambda>_ _ _ _ _. Inl mc_other),
       kv_get = (\<lambda>q now k. case live (mc_strings q k) now of None \<Rightarrow> Inl redis_Nil | Some v \<Rightarrow> Inr v),
       kv_expire = (\<lambda>_ _ _ _. Inl mc_other), kv_exists = (\<lambda>q now k. Inr (if live (mc_strings q k) now = None then 0 else 1)),
       kv_del = (\<lambda>q now k. Inr (q\<lparr>mc_strings := (mc_strings q)(k := None)\<rparr>))\<rparr>,
     rc_setex = (\<lambda>q now k v ttl. if ttl \<le> 0 then Inl (Err ''ERR invalid expire time'')
       else Inr (q\<lparr>mc_strings := (mc_strings q)(k \<mapsto> (v, Some (now + ttl)))\<rparr>)),
     rc_ttl = (\<lambda>_ _ _. Inl mc_other),
     rc_lpush = (\<lambda>q k vs. (Inr (), mc_push q k vs)), rc_rpop = mc_pop,
     rc_rpoplpush = (\<lambda>q src dst. case mc_pop q src of (Inl e, q') \<Rightarrow> (Inl e, q') | (Inr v, q') \<Rightarrow> (Inr v, mc_push q' dst [v])),
     rc_lrem = (\<lambda>q k cnt v. if cnt \<le> 0 then (Inl mc_other, q)
       else (Inr (int (length (mc_lists q k)) - int (length (remove_first (nat cnt) v (mc_lists q k)))),
             q\<lparr>mc_lists := (mc_lists q)(k := remove_first (nat cnt) v (mc_lists q k))\<rparr>)),
     rc_zadd = (\<lambda>q k ms. (Inr (int (length ms)), q\<lparr>mc_sets := (mc_sets q)(k := zadd ms (mc_sets q k))\<rparr>)),
     rc_zcount = (\<lambda>_ _ _ _. Inl mc_other), rc_zincrby = (\<lambda>q _ _ _. (Inl mc_other, q)),
     rc_zrange_scores = (\<lambda>_ _ _ _. Inl mc_other), rc_zrange = (\<lambda>_ _ _ _. Inl mc_other),
     rc_zrangebyscore = (\<lambda>_ _ _. Inl mc_other), rc_zrangebyscore_scores = (\<lambda>_ _ _. Inl mc_other),
     rc_zrem = (\<lambda>q k ms. if ms = [] then (Inl (Err ''ERR wrong number of arguments''), q)
       else (Inr (int (length (filter (\<lambda>m. mc_sets q k m \<noteq> None) (remdups ms)))), q\<lparr>mc_sets := (mc_sets q)(k := mc_sets q k |` (- set ms))\<rparr>)),
     rc_hdel = (\<lambda>q _ _. (Inl mc_other, q)), rc_hexists = (\<lambda>_ _ _. Inl mc_other), rc_hget = (\<lambda>_ _ _. Inl mc_other),
     rc_hset = (\<lambda>q _ _. (Inl mc_other, q)), rc_hsetnx = (\<lambda>q _ _ _. (Inl mc_other, q))\<rparr>"

interpretation mem_cache_server: cache_server mc_client mc_strings mc_lists mc_sets
  by unfold_locales (auto simp: mc_client_def mc_pop_def mc_push_def split: if_splits option.splits)

section \<open>Queues, values and members\<close>

text \<open> A list used through \<open>LPush\<close> and \<open>RPop\<close> is a queue: after pushing \<open>vs\<close>, popping \<open>n\<close> elements gives first the
  elements that were there, oldest first, then \<open>vs\<close> in order, and leaves the rest.
\<close>
theorem list_is_queue:
  assumes "cache_server C ent ls zs" and "pool_LPush (Some C) q k vs = Some (Inr (), q1)" and "pop_many (Some C) k n q1 = Some (ws, q2)"
  shows "ws = take n (rev (ls q k) @ vs) \<and> rev (ls q2 k) = drop n (rev (ls q k) @ vs)"
proof -
  have pushed: "ls q1 = (ls q)(k := rev vs @ ls q k)"
    using cache_server.lpush_ok [OF assms(1)] assms(2) by (simp add: pool_LPush_def CacheInstance_def rc_LPush_def)
  then show ?thesis using cache_server.pop_many_order [OF assms(1,3)] by simp
qed

theorem list_is_queue_witness:
  "\<exists>ws q2. pop_many (Some mc_client) ''k'' 2 (mc_push \<lparr>mc_strings = Map.empty, mc_lists = (\<lambda>_. [''old'']), mc_sets = (\<lambda>_. Map.empty)\<rparr> ''k'' [''a'', ''b'']) =
     Some (ws, q2) \<and> ws = [''old'', ''a'']"
proof -
  let ?q = "\<lparr>mc_strings = Map.empty, mc_lists = (\<lambda>_. [''old'']), mc_sets = (\<lambda>_. Map.empty)\<rparr>"
  let ?q1 = "mc_push ?q ''k'' [''a'', ''b'']"
  have push: "pool_LPush (Some mc_client) ?q ''k'' [''a'', ''b''] = Some (Inr (), ?q1)"
    by (simp add: pool_LPush_def CacheInstance_def rc_LPush_def mc_client_def)
  obtain ws q2 where pop: "pop_many (Some mc_client) ''k'' 2 ?q1 = Some (ws, q2)"
    by (simp add: numeral_2_eq_2 pool_RPop_def CacheInstance_def rc_RPop_def mc_client_def mc_pop_def mc_push_def)
  show ?thesis
    using pop list_is_queue [OF mem_cache_server.cache_server_axioms push pop] by simp
qed

text \<open>An element taken over with \<open>RPopLPush\<close> and removed with \<open>LRem\<close> leaves the second list as it was.\<close>
theorem taken_and_confirmed:
  assumes "cache_server C ent ls zs" and "src \<noteq> dst" and "pool_RPopLPush (Some C) q src dst = Some (Inr v, q1)"
    and "pool_LRem (Some C) q1 dst 1 v = Some (Inr n, q2)"
  shows "ls q2 = (ls q)(src := butlast (ls q src)) \<and> v = last (ls q src) \<and> n = 1"
  using assms cache_server.moved_then_removed [OF assms(1,2)] cache_server.rpoplpush_ok [OF assms(1)]
  by (simp add: pool_RPopLPush_def pool_LRem_def CacheInstance_def rc_RPopLPush_def rc_LRem_def)

text \<open>A value written as JSON is read back until it expires.\<close>
theorem json_roundtrip:
  assumes "cache_server C ent ls zs" and "\<And>v s. marshal v = Inr s \<Longrightarrow> unmarshal s = Inr v"
    and "pool_SetJSON marshal (Some C) q now key v ttl = Some (Inr q')" and "pool_GetJSON unmarshal (Some C) q' now' key = Some (Inr w)"
  shows "w = v \<and> now' < now + ttl"
  using assms(3,4) cache_server.setex_ok [OF assms(1)] cache_server.get_ok [OF assms(1)] assms(2)
  by (fastforce simp: pool_SetJSON_def pool_GetJSON_def pool_SetString_def pool_GetString_def CacheInstance_def rc_SetEx_def rc_Get_def
      split: sum.splits if_splits)

text \<open>\<open>ZRem\<close> of the package removes no member, whatever members it is given.\<close>
theorem ZRem_removes_nothing:
  assumes "cache_server C ent ls zs" and "pool_ZRem (Some C) q key members = Some (r, q')"
  shows "zs q' = zs q \<and> isl r"
proof -
  have call: "rc_zrem C q key [] = (r, q')"
    using assms(2) by (simp add: pool_ZRem_def CacheInstance_def rc_ZRem_def)
  then have "isl r"
    using cache_server.zrem_ok [OF assms(1), of q key "[]" _ q'] by (cases r) auto
  then show ?thesis using cache_server.zrem_none [OF assms(1) call] by simp
qed

end
