(* ===== verification/Easy_Metrics.thy ===== *)
theory Easy_Metrics
  imports Go_Prelude "HOL-Library.List_Lexorder" "HOL-Library.Char_ord"
begin

text \<open>
  The metrics helper (\<open>metrics/easy_metrics.go\<close>): metrics are registered with Prometheus when they are first used, under a key
  made of the name and the sorted label names. The Prometheus registry is a parameter; the locale \<open>prom_registry\<close> names what it
  promises. A series is known by the updates it has received, so that no float arithmetic is needed. Every update runs under
  the mutex of the manager, so it is one step.
\<close>

section \<open>Prometheus\<close>

datatype metric_kind = KCounter | KGauge | KHistogram | KSummary

text \<open>Label values by name; a Go map, so its names are distinct and it is iterated in some order.\<close>

type_synonym labels = "(string \<times> string) list"

record 'v collector =
  co_kind :: metric_kind
  co_namespace :: string
  co_subsystem :: string
  co_name :: string
  co_help :: string
  co_labels :: "string list"
  co_buckets :: "'v list"
  co_objectives :: "('v \<times> 'v) list"

datatype 'v update = UInc | UAdd 'v | USet 'v | UDec | UObserve 'v

text \<open>\<open>pr_update\<close> is \<open>vec.With(labels)\<close> and the update; \<open>None\<close> is a panic.\<close>

record ('r, 'v) prom_ops =
  pr_register :: "'v collector \<Rightarrow> 'r \<Rightarrow> 'r res"
  pr_update :: "'v collector \<Rightarrow> labels \<Rightarrow> 'v update \<Rightarrow> 'r \<Rightarrow> 'r option"

section \<open>The manager\<close>

record 'v EasyMetrics =
  em_vecs :: "metric_kind \<Rightarrow> string \<rightharpoonup> 'v collector"
  em_labelKeys :: "string \<rightharpoonup> string list"
  em_namespace :: string
  em_subsystem :: string

record 'v Options =
  op_Namespace :: string
  op_Subsystem :: string
  op_Buckets :: "'v list"
  op_Objectives :: "('v \<times> 'v) list"

text \<open>
  The result pairs the manager with the registry it uses, the package's own \<open>std\<close>. The registry that is given is not used.
\<close>

definition NewEasyMetrics :: "'r \<Rightarrow> 'r \<Rightarrow> 'v Options list \<Rightarrow> 'v EasyMetrics \<times> 'r" where
  "NewEasyMetrics std registry opts = (case opts of
     [] \<Rightarrow> (\<lparr>em_vecs = (\<lambda>_. Map.empty), em_labelKeys = Map.empty, em_namespace = [], em_subsystem = []\<rparr>, std)
   | opt # _ \<Rightarrow> (\<lparr>em_vecs = (\<lambda>_. Map.empty), em_labelKeys = Map.empty, em_namespace = op_Namespace opt, em_subsystem = op_Subsystem opt\<rparr>, std))"

definition extractLabelKeys :: "labels \<Rightarrow> string list" where
  "extractLabelKeys ls = sort (map fst ls)"

definition getLabelKey :: "string \<Rightarrow> string list \<Rightarrow> string" where
  "getLabelKey name keys = name @ '':'' @ join_strings '','' keys"

fun kind_word :: "metric_kind \<Rightarrow> string" where
  "kind_word KCounter = ''counter''" | "kind_word KGauge = ''gauge''"
| "kind_word KHistogram = ''histogram''" | "kind_word KSummary = ''summary''"

definition new_collector :: "'v EasyMetrics \<Rightarrow> metric_kind \<Rightarrow> string \<Rightarrow> string list \<Rightarrow> 'v list \<Rightarrow> ('v \<times> 'v) list \<Rightarrow> 'v collector" where
  "new_collector em kind name keys buckets objectives = \<lparr>co_kind = kind, co_namespace = em_namespace em,
     co_subsystem = em_subsystem em, co_name = name, co_help = ''Auto-generated '' @ kind_word kind @ '' metric: '' @ name,
     co_labels = keys, co_buckets = buckets, co_objectives = objectives\<rparr>"

text \<open>The four registering functions have one body; the collector to register is an argument of it.\<close>

definition auto_register :: "('r, 'v) prom_ops \<Rightarrow> metric_kind \<Rightarrow> string \<Rightarrow> labels \<Rightarrow> 'v list \<Rightarrow> ('v \<times> 'v) list \<Rightarrow>
    'v EasyMetrics \<Rightarrow> 'r \<Rightarrow> ('v collector \<times> 'v EasyMetrics \<times> 'r) res" where
  "auto_register P kind name ls buckets objectives em r =
    (let keys = extractLabelKeys ls; key = getLabelKey name keys
     in case em_vecs em kind key of
          Some c \<Rightarrow> Inr (c, em, r)
        | None \<Rightarrow> (let c = new_collector em kind name keys buckets objectives
            in case pr_register P c r of
                 Inl e \<Rightarrow> Inl (Wrapf (''failed to register '' @ kind_word kind @ '' '' @ name) e)
               | Inr r' \<Rightarrow> Inr (c, em\<lparr>em_vecs := (em_vecs em)(kind := (em_vecs em kind)(key \<mapsto> c)),
                                    em_labelKeys := (em_labelKeys em)(key \<mapsto> keys)\<rparr>, r')))"

definition autoRegisterCounter where
  "autoRegisterCounter P name ls = auto_register P KCounter name ls [] []"

definition autoRegisterGauge where
  "autoRegisterGauge P name ls = auto_register P KGauge name ls [] []"

definition autoRegisterHistogram where
  "autoRegisterHistogram P defBuckets name ls buckets =
     auto_register P KHistogram name ls (if buckets = [] then defBuckets else buckets) []"

definition autoRegisterSummary where
  "autoRegisterSummary P defObjectives name ls objectives =
     auto_register P KSummary name ls [] (if objectives = [] then defObjectives else objectives)"

section \<open>Builders\<close>

record 'v builder =
  bu_name :: string
  bu_labels :: "labels option"
  bu_buckets :: "'v list"
  bu_objectives :: "('v \<times> 'v) list"

definition new_builder :: "string \<Rightarrow> 'v builder" where
  "new_builder name = \<lparr>bu_name = name, bu_labels = None, bu_buckets = [], bu_objectives = []\<rparr>"

definition builder_With :: "labels option \<Rightarrow> 'v builder \<Rightarrow> 'v builder" where
  "builder_With ls b = b\<lparr>bu_labels := ls\<rparr>"

definition Buckets :: "'v list \<Rightarrow> 'v builder \<Rightarrow> 'v builder" where
  "Buckets bs b = b\<lparr>bu_buckets := bs\<rparr>"

definition Objectives :: "('v \<times> 'v) list \<Rightarrow> 'v builder \<Rightarrow> 'v builder" where
  "Objectives os b = b\<lparr>bu_objectives := os\<rparr>"

text \<open>A nil map of labels becomes an empty one.\<close>

definition labels_of :: "'v builder \<Rightarrow> labels" where
  "labels_of b = (case bu_labels b of None \<Rightarrow> [] | Some ls \<Rightarrow> ls)"

text \<open>An update, after the registration: \<open>None\<close> is a panic.\<close>

definition updated_vec :: "('r, 'v) prom_ops \<Rightarrow> labels \<Rightarrow> 'v update \<Rightarrow> ('v collector \<times> 'v EasyMetrics \<times> 'r) res \<Rightarrow>
    'v EasyMetrics \<Rightarrow> 'r \<Rightarrow> (unit res \<times> 'v EasyMetrics \<times> 'r) option" where
  "updated_vec P ls u reg em r = (case reg of
     Inl e \<Rightarrow> Some (Inl e, em, r)
   | Inr (c, em', r') \<Rightarrow> map_option (\<lambda>r''. (Inr (), em', r'')) (pr_update P c ls u r'))"

definition counter_op where
  "counter_op P u b em r = updated_vec P (labels_of b) u (autoRegisterCounter P (bu_name b) (labels_of b) em r) em r"

definition counter_Inc where "counter_Inc P b em r = counter_op P UInc b em r"
definition counter_Add where "counter_Add P v b em r = counter_op P (UAdd v) b em r"

definition gauge_op where
  "gauge_op P u b em r = updated_vec P (labels_of b) u (autoRegisterGauge P (bu_name b) (labels_of b) em r) em r"

definition gauge_Set where "gauge_Set P v b em r = gauge_op P (USet v) b em r"
definition gauge_Inc where "gauge_Inc P b em r = gauge_op P UInc b em r"
definition gauge_Dec where "gauge_Dec P b em r = gauge_op P UDec b em r"
definition gauge_Add where "gauge_Add P v b em r = gauge_op P (UAdd v) b em r"

definition histogram_Observe where
  "histogram_Observe P defBuckets v b em r =
     updated_vec P (labels_of b) (UObserve v) (autoRegisterHistogram P defBuckets (bu_name b) (labels_of b) (bu_buckets b) em r) em r"

definition summary_Observe where
  "summary_Observe P defObjectives v b em r =
     updated_vec P (labels_of b) (UObserve v) (autoRegisterSummary P defObjectives (bu_name b) (labels_of b) (bu_objectives b) em r) em r"

text \<open>Timing: \<open>seconds\<close> converts the time between the two clock readings.\<close>

definition histogram_Time where
  "histogram_Time P defBuckets seconds start stop b em r = histogram_Observe P defBuckets (seconds (time_Sub stop start)) b em r"

definition summary_Time where
  "summary_Time P defObjectives seconds start stop b em r = summary_Observe P defObjectives (seconds (time_Sub stop start)) b em r"

record 'v Timer =
  ti_start :: gotime
  ti_builder :: "'v builder"

definition histogram_Timer :: "gotime \<Rightarrow> 'v builder \<Rightarrow> 'v Timer" where
  "histogram_Timer now b = \<lparr>ti_start = now, ti_builder = b\<rparr>"

definition timer_Stop where
  "timer_Stop P defBuckets seconds now t em r = histogram_Observe P defBuckets (seconds (time_Sub now (ti_start t))) (ti_builder t) em r"


section \<open>Keys\<close>

text \<open>Label names as Prometheus accepts them, as far as it matters here.\<close>

definition valid_names :: "string list \<Rightarrow> bool" where
  "valid_names ks \<longleftrightarrow> (\<forall>k \<in> set ks. k \<noteq> [] \<and> CHR '':'' \<notin> set k \<and> CHR '','' \<notin> set k)"

lemma valid_names_sort [simp]: "valid_names (sort ks) = valid_names ks"
  by (simp add: valid_names_def)

lemma join_no_colon: "valid_names ks \<Longrightarrow> CHR '':'' \<notin> set (join_strings '','' ks)"
  by (induction "'',''" ks rule: join_strings.induct) (auto simp: valid_names_def)

lemma join_inj:
  assumes "valid_names ks" "valid_names js" "join_strings '','' ks = join_strings '','' js"
  shows "ks = js"
proof -
  have empty: "join_strings '','' xs = [] \<Longrightarrow> valid_names xs \<Longrightarrow> xs = []" for xs
    by (cases xs rule: join_strings.cases [of "('','', xs)" for xs, simplified]) (auto simp: valid_names_def)
  have split: "split_on CHR '','' (join_strings '','' xs) = xs" if "xs \<noteq> []" "valid_names xs" for xs
    using that by (intro split_on_join) (auto simp: valid_names_def)
  show ?thesis
  proof (cases "ks = [] \<or> js = []")
    case True
    then show ?thesis using assms empty by (metis join_strings.simps(1))
  next
    case False
    then show ?thesis using assms split by metis
  qed
qed

lemma after_last_colon: "CHR '':'' \<notin> set j \<Longrightarrow> takeWhile (\<lambda>c. c \<noteq> CHR '':'') (rev (n @ '':'' @ j)) = rev j"
  by (auto simp: takeWhile_append)

text \<open>With valid label names the key tells the name and the label names apart.\<close>

theorem getLabelKey_inj:
  assumes "valid_names ks" "valid_names js" "getLabelKey n ks = getLabelKey m js"
  shows "n = m \<and> ks = js"
proof -
  let ?a = "join_strings '','' ks" and ?b = "join_strings '','' js"
  have "rev ?a = rev ?b"
    using assms(3) after_last_colon [OF join_no_colon [OF assms(1)], of n] after_last_colon [OF join_no_colon [OF assms(2)], of m]
    unfolding getLabelKey_def by metis
  then have "?a = ?b" by simp
  then show ?thesis using assms join_inj by (auto simp: getLabelKey_def)
qed

section \<open>What Prometheus promises\<close>

definition same_name :: "'v collector \<Rightarrow> 'v collector \<Rightarrow> bool" where
  "same_name c d = (co_namespace c = co_namespace d \<and> co_subsystem c = co_subsystem d \<and> co_name c = co_name d)"

locale prom_registry =
  fixes P :: "('r, 'v) prom_ops" and registered :: "'r \<Rightarrow> 'v collector set"
    and series :: "'r \<Rightarrow> 'v collector \<Rightarrow> (string \<rightharpoonup> string) \<Rightarrow> 'v update list"
  assumes register_ok: "pr_register P c r = Inr r' \<Longrightarrow> registered r' = insert c (registered r) \<and> series r' = series r \<and>
      (\<forall>d \<in> registered r. \<not> same_name c d) \<and> valid_names (co_labels c)"
    and update_ok: "pr_update P c ls u r = Some r' \<Longrightarrow> registered r' = registered r \<and>
      series r' = (series r)(c := (series r c)(map_of ls := series r c (map_of ls) @ [u]))"

text \<open>All updates of all kinds.\<close>

fun em_op where
  "em_op P dB dO KCounter u b em r = counter_op P u b em r"
| "em_op P dB dO KGauge u b em r = gauge_op P u b em r"
| "em_op P dB dO KHistogram u b em r =
     updated_vec P (labels_of b) u (autoRegisterHistogram P dB (bu_name b) (labels_of b) (bu_buckets b) em r) em r"
| "em_op P dB dO KSummary u b em r =
     updated_vec P (labels_of b) u (autoRegisterSummary P dO (bu_name b) (labels_of b) (bu_objectives b) em r) em r"

text \<open>A manager in use: others may register collectors and update their own in between.\<close>

inductive em_reach :: "('r, 'v) prom_ops \<Rightarrow> ('r \<Rightarrow> 'v collector set) \<Rightarrow> 'v list \<Rightarrow> ('v \<times> 'v) list \<Rightarrow> 'v EasyMetrics \<Rightarrow> 'r \<Rightarrow> bool"
  for P registered dB dO where
  new: "NewEasyMetrics std reg opts = (em, r) \<Longrightarrow> em_reach P registered dB dO em r"
| op: "em_reach P registered dB dO em r \<Longrightarrow> em_op P dB dO kind u b em r = Some (x, em', r') \<Longrightarrow> em_reach P registered dB dO em' r'"
| others: "em_reach P registered dB dO em r \<Longrightarrow> registered r \<subseteq> registered r' \<Longrightarrow> em_reach P registered dB dO em r'"

definition em_inv :: "('r \<Rightarrow> 'v collector set) \<Rightarrow> 'v EasyMetrics \<Rightarrow> 'r \<Rightarrow> bool" where
  "em_inv registered em r \<longleftrightarrow> (\<forall>kind key c. em_vecs em kind key = Some c \<longrightarrow>
     key = getLabelKey (co_name c) (co_labels c) \<and> valid_names (co_labels c) \<and> co_kind c = kind \<and>
     co_namespace c = em_namespace em \<and> co_subsystem c = em_subsystem em \<and> c \<in> registered r) \<and>
   (\<forall>kind key c kind' key' d. em_vecs em kind key = Some c \<longrightarrow> em_vecs em kind' key' = Some d \<longrightarrow> same_name c d \<longrightarrow> c = d)"

context prom_registry
begin

lemma auto_register_cases:
  assumes "auto_register P kind name ls bs os em r = Inr (c, em', r')"
  obtains "em_vecs em kind (getLabelKey name (extractLabelKeys ls)) = Some c" "em' = em" "r' = r"
  | "em_vecs em kind (getLabelKey name (extractLabelKeys ls)) = None" "c = new_collector em kind name (extractLabelKeys ls) bs os"
    "pr_register P c r = Inr r'"
    "em_vecs em' = (em_vecs em)(kind := (em_vecs em kind)(getLabelKey name (extractLabelKeys ls) \<mapsto> c))"
    "em_namespace em' = em_namespace em" "em_subsystem em' = em_subsystem em"
  using assms by (auto simp: auto_register_def Let_def split: option.splits sum.splits)

lemma auto_register_inv:
  assumes "em_inv registered em r" and "auto_register P kind name ls bs os em r = Inr (c, em', r')"
  shows "em_inv registered em' r' \<and> series r' = series r \<and>
    em_vecs em' kind (getLabelKey name (extractLabelKeys ls)) = Some c"
  using assms(2)
proof (cases rule: auto_register_cases)
  case 1
  then show ?thesis using assms(1) by simp
next
  case 2
  let ?key = "getLabelKey name (extractLabelKeys ls)"
  have reg: "registered r' = insert c (registered r)" "series r' = series r" "\<forall>d \<in> registered r. \<not> same_name c d" "valid_names (co_labels c)"
    using register_ok [OF 2(3)] by simp_all
  have stored: "kind' = kind \<and> key' = ?key \<and> d = c \<or> em_vecs em kind' key' = Some d" if "em_vecs em' kind' key' = Some d" for kind' key' d
    using that by (auto simp: 2(4) split: if_splits)
  have old: "\<not> same_name c d \<and> \<not> same_name d c" if "em_vecs em kind' key' = Some d" for kind' key' d
    using that assms(1) reg(3) unfolding em_inv_def same_name_def by metis
  have "c = d" if "em_vecs em' k1 key1 = Some c" "em_vecs em' k2 key2 = Some d" "same_name c d" for k1 key1 c k2 key2 d
    using stored [OF that(1)] stored [OF that(2)] old that(3) assms(1) unfolding em_inv_def by metis
  moreover have "key = getLabelKey (co_name d) (co_labels d) \<and> valid_names (co_labels d) \<and> co_kind d = kind' \<and>
      co_namespace d = em_namespace em' \<and> co_subsystem d = em_subsystem em' \<and> d \<in> registered r'"
    if "em_vecs em' kind' key = Some d" for kind' key d
    using stored [OF that] assms(1) reg(1,4) 2(5,6) unfolding em_inv_def by (auto simp: 2(2) new_collector_def)
  ultimately have "em_inv registered em' r'" unfolding em_inv_def by blast
  then show ?thesis using reg(2) by (simp add: 2(4))
qed

lemma updated_vec_cases:
  assumes "updated_vec P ls u reg em r = Some (x, em', r')"
  obtains e where "reg = Inl e" "x = Inl e" "em' = em" "r' = r"
  | c r1 where "reg = Inr (c, em', r1)" "x = Inr ()" "pr_update P c ls u r1 = Some r'"
  using assms by (auto simp: updated_vec_def split: sum.splits)

text \<open>Each kind of update registers with arguments of its own.\<close>

lemma em_op_reg:
  obtains bs os where "em_op P dB dO kind u b em r = updated_vec P (labels_of b) u (auto_register P kind (bu_name b) (labels_of b) bs os em r) em r"
  by (cases kind) (auto simp: counter_op_def gauge_op_def autoRegisterCounter_def autoRegisterGauge_def
      autoRegisterHistogram_def autoRegisterSummary_def)

lemma em_op_inv:
  assumes "em_inv registered em r" and "em_op P dB dO kind u b em r = Some (x, em', r')"
  shows "em_inv registered em' r'"
proof -
  obtain bs os where run: "updated_vec P (labels_of b) u (auto_register P kind (bu_name b) (labels_of b) bs os em r) em r = Some (x, em', r')"
    using em_op_reg [of dB dO kind u b em r] assms(2) by metis
  from run show ?thesis
  proof (cases rule: updated_vec_cases)
    case (2 c r1)
    then show ?thesis
      using auto_register_inv [OF assms(1) 2(1)] update_ok [OF 2(3)] by (simp add: em_inv_def)
  qed (use assms(1) in simp)
qed

lemma em_reach_inv: "em_reach P registered dB dO em r \<Longrightarrow> em_inv registered em r"
proof (induction rule: em_reach.induct)
  case (new std reg opts em r)
  then show ?case by (auto simp: em_inv_def NewEasyMetrics_def split: list.splits)
next
  case (op em r kind u b x em' r')
  then show ?case using em_op_inv by blast
next
  case (others em r r')
  then show ?case by (auto simp: em_inv_def)
qed

end


section \<open>A registry in memory\<close>

record 'v mem_prom =
  mp_collectors :: "'v collector list"
  mp_series :: "'v collector \<Rightarrow> (string \<rightharpoonup> string) \<Rightarrow> 'v update list"

text \<open>A counter refuses to be decreased, and labels must be those of the collector.\<close>

definition mem_prom_ops :: "('v::{ord,zero} mem_prom, 'v) prom_ops" where
  "mem_prom_ops = \<lparr>
     pr_register = (\<lambda>c r. if list_ex (same_name c) (mp_collectors r) then Inl (Err ''duplicate metrics collector registration attempted'')
       else if \<not> valid_names (co_labels c) then Inl (Err ''invalid label name'')
       else Inr (r\<lparr>mp_collectors := c # mp_collectors r\<rparr>)),
     pr_update = (\<lambda>c ls u r. if sort (map fst ls) \<noteq> co_labels c \<or> co_kind c = KCounter \<and> (case u of UAdd v \<Rightarrow> v < 0 | _ \<Rightarrow> False) then None
       else Some (r\<lparr>mp_series := (mp_series r)(c := (mp_series r c)(map_of ls := mp_series r c (map_of ls) @ [u]))\<rparr>))\<rparr>"

interpretation mem_prom: prom_registry mem_prom_ops "\<lambda>r. set (mp_collectors r)" mp_series
  by unfold_locales (auto simp: mem_prom_ops_def list_ex_iff split: if_splits)

section \<open>What an update does\<close>

text \<open> An update that reports success appends exactly itself to exactly one series: the one of these label values in the one collector
  kept for the kind, the name and the set of label names, whatever the order of the labels and of earlier calls.
\<close>
theorem metric_update_effect:
  assumes "prom_registry P registered series" and "em_reach P registered dB dO em r"
    and "valid_names (map fst (labels_of b))" and "em_op P dB dO kind u b em r = Some (Inr (), em', r')"
  shows "\<exists>c. em_vecs em' kind (getLabelKey (bu_name b) (extractLabelKeys (labels_of b))) = Some c \<and>
    co_kind c = kind \<and> co_name c = bu_name b \<and> co_labels c = extractLabelKeys (labels_of b) \<and> c \<in> registered r' \<and>
    series r' = (series r)(c := (series r c)(map_of (labels_of b) := series r c (map_of (labels_of b)) @ [u]))"
proof -
  let ?key = "getLabelKey (bu_name b) (extractLabelKeys (labels_of b))"
  have inv: "em_inv registered em r" using prom_registry.em_reach_inv [OF assms(1,2)] .
  obtain bs os where "updated_vec P (labels_of b) u (auto_register P kind (bu_name b) (labels_of b) bs os em r) em r = Some (Inr (), em', r')"
    using prom_registry.em_op_reg [OF assms(1), of dB dO kind u b em r] assms(4) by metis
  then obtain c r1 where c: "auto_register P kind (bu_name b) (labels_of b) bs os em r = Inr (c, em', r1)"
      "pr_update P c (labels_of b) u r1 = Some r'"
    by (cases rule: prom_registry.updated_vec_cases [OF assms(1), consumes 1]) auto
  have reg: "em_inv registered em' r1" "series r1 = series r" "em_vecs em' kind ?key = Some c"
    using prom_registry.auto_register_inv [OF assms(1) inv c(1)] by simp_all
  then have "?key = getLabelKey (co_name c) (co_labels c) \<and> valid_names (co_labels c) \<and> co_kind c = kind \<and> c \<in> registered r1"
    unfolding em_inv_def by blast
  moreover have "valid_names (extractLabelKeys (labels_of b))" using assms(3) by (simp add: extractLabelKeys_def)
  ultimately have "co_name c = bu_name b \<and> co_labels c = extractLabelKeys (labels_of b) \<and> co_kind c = kind \<and> c \<in> registered r1"
    using getLabelKey_inj by metis
  then show ?thesis
    using reg prom_registry.update_ok [OF assms(1) c(2)] by auto
qed

text \<open>
  A name belongs to the kind and the set of label names it was first used with: any other use of it through the same manager
  reports an error and changes nothing.
\<close>
theorem metric_name_taken:
  assumes "prom_registry P registered series" and "em_reach P registered dB dO em r"
    and "em_vecs em kind (getLabelKey (bu_name b) keys) = Some c" and "valid_names keys" and "valid_names (map fst (labels_of b))"
    and "kind' \<noteq> kind \<or> extractLabelKeys (labels_of b) \<noteq> keys"
  shows "\<exists>e. em_op P dB dO kind' u b em r = Some (Inl e, em, r)"
proof -
  let ?keys = "extractLabelKeys (labels_of b)"
  have inv: "em_inv registered em r" using prom_registry.em_reach_inv [OF assms(1,2)] .
  have stored: "getLabelKey (bu_name b) keys = getLabelKey (co_name c) (co_labels c)" "valid_names (co_labels c)" "co_kind c = kind"
    "co_namespace c = em_namespace em" "co_subsystem c = em_subsystem em" "c \<in> registered r"
    using inv assms(3) unfolding em_inv_def by blast+
  then have c: "co_name c = bu_name b" "co_labels c = keys" using getLabelKey_inj [OF assms(4)] by metis+
  have valid: "valid_names ?keys" using assms(5) by (simp add: extractLabelKeys_def)
  obtain bs os where run: "em_op P dB dO kind' u b em r = updated_vec P (labels_of b) u (auto_register P kind' (bu_name b) (labels_of b) bs os em r) em r"
    using prom_registry.em_op_reg [OF assms(1)] by blast
  have same: "same_name (new_collector em kind' (bu_name b) ?keys bs os) c"
    using stored c by (simp add: same_name_def new_collector_def)
  show ?thesis
  proof (cases "em_vecs em kind' (getLabelKey (bu_name b) ?keys)")
    case None
    have "pr_register P (new_collector em kind' (bu_name b) ?keys bs os) r \<noteq> Inr r'" for r'
      using prom_registry.register_ok [OF assms(1)] same stored(6) by blast
    then show ?thesis
      using None by (simp add: run updated_vec_def auto_register_def Let_def split: sum.split)
  next
    case (Some d)
    then have "same_name d c" "valid_names (co_labels d)" "getLabelKey (bu_name b) ?keys = getLabelKey (co_name d) (co_labels d)" "co_kind d = kind'"
      using inv stored c getLabelKey_inj [OF valid] unfolding em_inv_def same_name_def by metis+
    moreover from this have "d = c" using inv Some assms(3) unfolding em_inv_def by blast
    ultimately have "kind' = kind" "?keys = keys" using stored(3) c getLabelKey_inj [OF valid] by metis+
    with assms(6) show ?thesis by simp
  qed
qed


definition demo_builder :: "nat builder" where
  "demo_builder = builder_With (Some [(''path'', ''/''), (''code'', ''200'')]) (new_builder ''hits'')"

definition demo_registry :: "nat mem_prom" where
  "demo_registry = \<lparr>mp_collectors = [], mp_series = (\<lambda>_ _. [])\<rparr>"

definition demo_metrics :: "nat EasyMetrics" where
  "demo_metrics = \<lparr>em_vecs = (\<lambda>_. Map.empty), em_labelKeys = Map.empty, em_namespace = [], em_subsystem = []\<rparr>"

theorem metric_update_effect_witness:
  "\<exists>em' r' c. counter_Inc mem_prom_ops demo_builder demo_metrics demo_registry = Some (Inr (), em', r') \<and>
     co_labels c = [''code'', ''path''] \<and> mp_series r' c (map_of [(''path'', ''/''), (''code'', ''200'')]) = [UInc]"
proof -
  have keys: "extractLabelKeys (labels_of demo_builder) = [''code'', ''path'']"
    by (simp add: extractLabelKeys_def labels_of_def demo_builder_def builder_With_def new_builder_def less_char_def)
  have reach: "em_reach mem_prom_ops (\<lambda>r. set (mp_collectors r)) [] [] demo_metrics demo_registry"
    by (rule em_reach.new [of demo_registry demo_registry "[]"]) (simp add: NewEasyMetrics_def demo_metrics_def)
  have ls: "labels_of demo_builder = [(''path'', ''/''), (''code'', ''200'')]"
    by (simp add: labels_of_def demo_builder_def builder_With_def)
  have valid: "valid_names (map fst (labels_of demo_builder))" by (simp add: ls valid_names_def)
  have srt: "sort [''path'', ''code''] = [''code'', ''path'']" using keys by (simp add: extractLabelKeys_def ls)
  obtain em' r' where run: "em_op mem_prom_ops [] [] KCounter UInc demo_builder demo_metrics demo_registry = Some (Inr (), em', r')"
    by (simp add: counter_op_def autoRegisterCounter_def auto_register_def keys [unfolded ls] ls updated_vec_def demo_metrics_def demo_registry_def
        mem_prom_ops_def new_collector_def valid_names_def srt Let_def)
  obtain c where "co_labels c = [''code'', ''path'']"
      "mp_series r' = (mp_series demo_registry)(c := (mp_series demo_registry c)(map_of (labels_of demo_builder) :=
         mp_series demo_registry c (map_of (labels_of demo_builder)) @ [UInc]))"
    using metric_update_effect [OF mem_prom.prom_registry_axioms reach valid run] unfolding keys by blast
  then show ?thesis using run by (auto simp: counter_Inc_def ls demo_registry_def)
qed

text \<open>The registry given to \<open>NewEasyMetrics\<close> has no influence.\<close>
theorem registry_ignored: "NewEasyMetrics std reg opts = NewEasyMetrics std reg' opts"
  by (simp add: NewEasyMetrics_def)

end
