(* ===== verification/Go_Types.thy ===== *)
theory Go_Types
  imports Settings Go_Json
begin

text \<open>
  The small types of \<open>types\<close>: arrays kept as JSON texts (\<open>array_string.go\<close>, \<open>array_uint.go\<close>), secrets and identifiers that
  are encrypted when they leave the program (\<open>secret.go\<close>), and the three-valued boolean of the tables (\<open>boolean.go\<close>). The JSON
  codec, gzip and base58 are parameters; a decoder of arrays returns what it leaves in the slice and an error.
\<close>

section \<open>Arrays in a text column\<close>

type_synonym StringArray = string
type_synonym UintArray = string

type_synonym 'a arr_decoder = "string \<Rightarrow> 'a list \<times> gerror option"

definition NewStringArray :: "(string list \<Rightarrow> string) \<Rightarrow> string list \<Rightarrow> StringArray" where
  "NewStringArray enc v = (if v = [] then [] else enc v)"

text \<open>A decoding error is logged; what has been decoded is returned.\<close>

definition sa_Slice :: "string arr_decoder \<Rightarrow> StringArray \<Rightarrow> string list" where
  "sa_Slice dec i = (if i = [] then [] else fst (dec i))"

definition sa_MarshalJSON :: "(string list \<Rightarrow> string) \<Rightarrow> string arr_decoder \<Rightarrow> StringArray \<Rightarrow> string" where
  "sa_MarshalJSON enc dec i = enc (sa_Slice dec i)"

definition sa_UnmarshalJSON :: "string \<Rightarrow> StringArray" where
  "sa_UnmarshalJSON data = data"

definition sa_First :: "string arr_decoder \<Rightarrow> StringArray \<Rightarrow> string" where
  "sa_First dec i = (case sa_Slice dec i of [] \<Rightarrow> [] | u # _ \<Rightarrow> u)"

definition sa_Add :: "(string list \<Rightarrow> string) \<Rightarrow> string arr_decoder \<Rightarrow> string \<Rightarrow> StringArray \<Rightarrow> StringArray" where
  "sa_Add enc dec item i = NewStringArray enc (sa_Slice dec i @ [item])"

definition sa_Remove :: "(string list \<Rightarrow> string) \<Rightarrow> string arr_decoder \<Rightarrow> string \<Rightarrow> StringArray \<Rightarrow> StringArray" where
  "sa_Remove enc dec item i = NewStringArray enc (filter (\<lambda>v. v \<noteq> item) (sa_Slice dec i))"

fun contains_loop :: "'a \<Rightarrow> 'a list \<Rightarrow> bool" where
  "contains_loop x [] = False"
| "contains_loop x (v # vs) = (if v = x then True else contains_loop x vs)"

definition sa_Contains :: "string arr_decoder \<Rightarrow> string \<Rightarrow> StringArray \<Rightarrow> bool" where
  "sa_Contains dec v i = contains_loop v (sa_Slice dec i)"

text \<open>\<open>seen\<close> is the map \<open>unique\<close>.\<close>

fun unique_loop :: "'a set \<Rightarrow> 'a list \<Rightarrow> 'a list \<Rightarrow> 'a list" where
  "unique_loop seen result [] = result"
| "unique_loop seen result (v # vs) =
     (if v \<notin> seen then unique_loop (insert v seen) (result @ [v]) vs else unique_loop seen result vs)"

definition sa_RemoveDuplicates :: "(string list \<Rightarrow> string) \<Rightarrow> string arr_decoder \<Rightarrow> StringArray \<Rightarrow> StringArray" where
  "sa_RemoveDuplicates enc dec i = NewStringArray enc (unique_loop {} [] (sa_Slice dec i))"

definition NewUintArray :: "(64 word list \<Rightarrow> string) \<Rightarrow> 64 word list \<Rightarrow> UintArray" where
  "NewUintArray enc v = (if v = [] then ''[]'' else enc v)"

definition ua_Slice :: "64 word arr_decoder \<Rightarrow> UintArray \<Rightarrow> 64 word list" where
  "ua_Slice dec i = (if i = [] \<or> i = ''null'' then [] else fst (dec i))"

definition ua_MarshalJSON :: "(64 word list \<Rightarrow> string) \<Rightarrow> 64 word arr_decoder \<Rightarrow> UintArray \<Rightarrow> string" where
  "ua_MarshalJSON enc dec i = enc (ua_Slice dec i)"

definition ua_UnmarshalJSON :: "string \<Rightarrow> UintArray" where
  "ua_UnmarshalJSON data = data"

definition ua_Append :: "(64 word list \<Rightarrow> string) \<Rightarrow> 64 word arr_decoder \<Rightarrow> 64 word \<Rightarrow> UintArray \<Rightarrow> UintArray" where
  "ua_Append enc dec v i = NewUintArray enc (ua_Slice dec i @ [v])"

definition ua_Remove :: "(64 word list \<Rightarrow> string) \<Rightarrow> 64 word arr_decoder \<Rightarrow> 64 word \<Rightarrow> UintArray \<Rightarrow> UintArray" where
  "ua_Remove enc dec item i = NewUintArray enc (filter (\<lambda>v. v \<noteq> item) (ua_Slice dec i))"

definition ua_Contains :: "64 word arr_decoder \<Rightarrow> 64 word \<Rightarrow> UintArray \<Rightarrow> bool" where
  "ua_Contains dec v i = contains_loop v (ua_Slice dec i)"

definition ua_RemoveDuplicates :: "(64 word list \<Rightarrow> string) \<Rightarrow> 64 word arr_decoder \<Rightarrow> UintArray \<Rightarrow> UintArray" where
  "ua_RemoveDuplicates enc dec i = NewUintArray enc (unique_loop {} [] (ua_Slice dec i))"

definition ContainsString :: "string list \<Rightarrow> string \<Rightarrow> bool" where
  "ContainsString arr str = contains_loop str arr"

definition InUintSlice :: "64 word \<Rightarrow> 64 word list \<Rightarrow> bool" where
  "InUintSlice num arr = contains_loop num arr"

definition InStringSlice :: "string \<Rightarrow> string list \<Rightarrow> bool" where
  "InStringSlice str arr = contains_loop str arr"

section \<open>Three-valued booleans\<close>

type_synonym Bool = "32 word"

definition types_False :: Bool where "types_False = - 1"
definition types_True :: Bool where "types_True = 1"
definition types_Any :: Bool where "types_Any = 2"

definition BoolName :: "Bool \<Rightarrow> string option" where
  "BoolName x = (if x = types_False then Some ''FALSE'' else if x = types_True then Some ''TRUE''
     else if x = types_Any then Some ''ANY'' else None)"

definition NewBool :: "bool \<Rightarrow> Bool" where
  "NewBool v = (if v then types_True else types_False)"

definition bool_ToString :: "Bool \<Rightarrow> string" where
  "bool_ToString x = (case BoolName x of Some v \<Rightarrow> v | None \<Rightarrow> ''FALSE'')"

definition bool_Value :: "Bool \<Rightarrow> bool" where
  "bool_Value b = (b = types_True)"

definition bool_MarshalJSON :: "Bool \<Rightarrow> string" where
  "bool_MarshalJSON b = (if bool_Value b then ''true'' else ''false'')"

text \<open>\<open>strconv.ParseBool\<close>.\<close>

definition ParseBool :: "string \<Rightarrow> bool res" where
  "ParseBool s = (if s \<in> {''1'', ''t'', ''T'', ''TRUE'', ''true'', ''True''} then Inr True
     else if s \<in> {''0'', ''f'', ''F'', ''FALSE'', ''false'', ''False''} then Inr False
     else Inl (Err ''strconv.ParseBool: invalid syntax''))"

definition bool_UnmarshalJSON :: "string \<Rightarrow> Bool res" where
  "bool_UnmarshalJSON data = map_sum id NewBool (ParseBool data)"

section \<open>Encrypted texts\<close>

text \<open>gzip and base58.\<close>

record packer =
  pk_gzip :: "bytes \<Rightarrow> bytes res"
  pk_gunzip :: "bytes \<Rightarrow> bytes res"
  pk_enc58 :: "bytes \<Rightarrow> string"
  pk_dec58 :: "string \<Rightarrow> bytes res"

definition BlowfishEncryptToBase58 :: "new_cipher \<Rightarrow> rand_reader \<Rightarrow> packer \<Rightarrow> bytes \<Rightarrow> bytes \<Rightarrow> string res option" where
  "BlowfishEncryptToBase58 newc rnd pk key plaintext =
     map_option (\<lambda>r. case r of
         Inl e \<Rightarrow> Inl e
       | Inr ciphertext \<Rightarrow> map_sum id (pk_enc58 pk) (pk_gzip pk ciphertext))
       (BlowfishEncrypt newc rnd key plaintext)"

text \<open>The text is unpacked before the key is checked.\<close>

definition BlowfishDecryptFromBase58 :: "new_cipher \<Rightarrow> packer \<Rightarrow> bytes \<Rightarrow> string \<Rightarrow> bytes res option" where
  "BlowfishDecryptFromBase58 newc pk key str =
     (case pk_dec58 pk str of
        Inl e \<Rightarrow> Some (Inl e)
      | Inr encod \<Rightarrow> (case pk_gunzip pk encod of
          Inl e \<Rightarrow> Some (Inl e)
        | Inr ciphertext \<Rightarrow> BlowfishDecrypt newc key ciphertext))"

definition secretKey :: bytes where "secretKey = str_bytes ''q84n7hz7k4b4tcb0''"

definition encryptorPrefix :: string where "encryptorPrefix = ''enc:''"

definition secret_Enc :: "new_cipher \<Rightarrow> rand_reader \<Rightarrow> packer \<Rightarrow> string \<Rightarrow> string option" where
  "secret_Enc newc rnd pk s =
     (if has_prefix s encryptorPrefix then Some s
      else map_option (\<lambda>r. case r of Inl e \<Rightarrow> s | Inr enc \<Rightarrow> encryptorPrefix @ enc)
             (BlowfishEncryptToBase58 newc rnd pk secretKey (str_bytes s)))"

definition secret_Dec :: "new_cipher \<Rightarrow> packer \<Rightarrow> string \<Rightarrow> string option" where
  "secret_Dec newc pk s =
     (if \<not> has_prefix s encryptorPrefix then Some s
      else map_option (\<lambda>r. case r of Inl e \<Rightarrow> s | Inr dec \<Rightarrow> bytes_str dec)
             (BlowfishDecryptFromBase58 newc pk secretKey (drop (length encryptorPrefix) s)))"

section \<open>Encrypted identifiers\<close>

type_synonym SafeID = "64 word"

text \<open>\<open>big.NewInt(x).Bytes()\<close> and \<open>SetBytes(b).Int64()\<close>: the magnitude, most significant byte first; the low 64 bits.\<close>

fun be_bytes :: "nat \<Rightarrow> bytes" where
  "be_bytes n = (if n = 0 then [] else be_bytes (n div 256) @ [of_nat (n mod 256)])"

declare be_bytes.simps [simp del]

definition of_be :: "bytes \<Rightarrow> nat" where
  "of_be bs = foldl (\<lambda>a b. a * 256 + unat b) 0 bs"

definition big_Bytes :: "64 word \<Rightarrow> bytes" where
  "big_Bytes x = be_bytes (nat \<bar>sint x\<bar>)"

definition big_Int64 :: "bytes \<Rightarrow> 64 word" where
  "big_Int64 bs = of_nat (of_be bs)"

definition id_Enc :: "new_cipher \<Rightarrow> rand_reader \<Rightarrow> packer \<Rightarrow> SafeID \<Rightarrow> string option" where
  "id_Enc newc rnd pk i = map_option (\<lambda>r. case r of Inl e \<Rightarrow> [] | Inr s \<Rightarrow> s)
     (BlowfishEncryptToBase58 newc rnd pk secretKey (big_Bytes i))"

text \<open>An error leaves the identifier as it was.\<close>

definition id_Dec :: "new_cipher \<Rightarrow> packer \<Rightarrow> string \<Rightarrow> SafeID \<Rightarrow> SafeID option" where
  "id_Dec newc pk idstr old = map_option (\<lambda>r. case r of Inl e \<Rightarrow> old | Inr dec \<Rightarrow> big_Int64 dec)
     (BlowfishDecryptFromBase58 newc pk secretKey idstr)"

text \<open>\<open>unquote\<close> is \<open>json.Unmarshal\<close> into a string.\<close>

definition id_MarshalJSON :: "new_cipher \<Rightarrow> rand_reader \<Rightarrow> packer \<Rightarrow> SafeID \<Rightarrow> string option" where
  "id_MarshalJSON newc rnd pk i = map_option json_string (id_Enc newc rnd pk i)"

definition id_UnmarshalJSON :: "new_cipher \<Rightarrow> packer \<Rightarrow> (string \<Rightarrow> string res) \<Rightarrow> string \<Rightarrow> SafeID res option" where
  "id_UnmarshalJSON newc pk unquote data = (case unquote data of
     Inl e \<Rightarrow> Some (Inl e)
   | Inr idstr \<Rightarrow> map_option (map_sum id big_Int64) (BlowfishDecryptFromBase58 newc pk secretKey idstr))"


section \<open>Arrays behave as lists\<close>

text \<open>What a codec of arrays promises for elements in \<open>V\<close> (a text that is valid UTF-8 for strings): its texts are read back.\<close>

definition array_codec :: "'a set \<Rightarrow> ('a list \<Rightarrow> string) \<Rightarrow> 'a arr_decoder \<Rightarrow> bool" where
  "array_codec V enc dec \<longleftrightarrow> (\<forall>xs. set xs \<subseteq> V \<longrightarrow> dec (enc xs) = (xs, None) \<and> enc xs \<noteq> [] \<and> enc xs \<noteq> ''null'') \<and> dec ''[]'' = ([], None)"

lemma contains_loop_iff: "contains_loop x vs \<longleftrightarrow> x \<in> set vs"
  by (induction vs) auto

text \<open>The first occurrences in order, as a definition without a set.\<close>

fun first_occurrences :: "'a list \<Rightarrow> 'a list" where
  "first_occurrences [] = []"
| "first_occurrences (v # vs) = v # filter (\<lambda>x. x \<noteq> v) (first_occurrences vs)"

lemma unique_loop_eq: "unique_loop seen result vs = result @ filter (\<lambda>x. x \<notin> seen) (first_occurrences vs)"
proof (induction vs arbitrary: seen result)
  case (Cons v vs)
  have "filter (\<lambda>x. x \<notin> insert v seen) ys = filter (\<lambda>x. x \<notin> seen) (filter (\<lambda>x. x \<noteq> v) ys)" for ys
    by (simp add: conj_commute)
  moreover have "v \<in> seen \<Longrightarrow> filter (\<lambda>x. x \<notin> seen) (filter (\<lambda>x. x \<noteq> v) ys) = filter (\<lambda>x. x \<notin> seen) ys" for ys
    by (induction ys) auto
  ultimately show ?case using Cons by simp
qed simp

lemma set_first_occurrences [simp]: "set (first_occurrences vs) = set vs"
  by (induction vs) auto

lemma sa_Slice_New:
  assumes "array_codec V enc dec" and "set xs \<subseteq> V"
  shows "sa_Slice dec (NewStringArray enc xs) = xs"
  using assms by (simp add: array_codec_def sa_Slice_def NewStringArray_def)

lemma ua_Slice_New:
  assumes "array_codec V enc dec" and "set xs \<subseteq> V"
  shows "ua_Slice dec (NewUintArray enc xs) = xs"
  using assms by (simp add: array_codec_def ua_Slice_def NewUintArray_def)

text \<open>Both array types refine lists.\<close>

theorem string_array_refines_list:
  assumes "array_codec V enc dec" and "set (sa_Slice dec i) \<subseteq> V" and "x \<in> V"
  shows "sa_Slice dec (sa_Add enc dec x i) = sa_Slice dec i @ [x] \<and>
    sa_Slice dec (sa_Remove enc dec x i) = filter (\<lambda>v. v \<noteq> x) (sa_Slice dec i) \<and>
    sa_Slice dec (sa_RemoveDuplicates enc dec i) = first_occurrences (sa_Slice dec i) \<and>
    (sa_Contains dec x i \<longleftrightarrow> x \<in> set (sa_Slice dec i))"
  using assms(2,3) unfolding sa_Add_def sa_Remove_def sa_RemoveDuplicates_def sa_Contains_def contains_loop_iff unique_loop_eq
  by (intro conjI; (subst sa_Slice_New [OF assms(1)])?) auto

theorem uint_array_refines_list:
  assumes "array_codec UNIV enc dec"
  shows "ua_Slice dec (ua_Append enc dec x i) = ua_Slice dec i @ [x] \<and>
    ua_Slice dec (ua_Remove enc dec x i) = filter (\<lambda>v. v \<noteq> x) (ua_Slice dec i) \<and>
    ua_Slice dec (ua_RemoveDuplicates enc dec i) = first_occurrences (ua_Slice dec i) \<and>
    (ua_Contains dec x i \<longleftrightarrow> x \<in> set (ua_Slice dec i))"
  unfolding ua_Append_def ua_Remove_def ua_RemoveDuplicates_def ua_Contains_def contains_loop_iff unique_loop_eq
  by (intro conjI; (subst ua_Slice_New [OF assms])?) auto

section \<open>Booleans\<close>

theorem bool_json: "bool_UnmarshalJSON (bool_MarshalJSON b) = Inr (NewBool (bool_Value b))"
  by (simp add: bool_UnmarshalJSON_def bool_MarshalJSON_def ParseBool_def)

text \<open>\<open>Any\<close> is read back as \<open>False\<close>.\<close>
theorem any_not_kept: "bool_UnmarshalJSON (bool_MarshalJSON types_Any) = Inr types_False"
  by (simp add: bool_json bool_Value_def NewBool_def types_Any_def types_True_def)

section \<open>Secrets and identifiers come back\<close>

text \<open>What the packers promise.\<close>

definition packer_ok :: "packer \<Rightarrow> bool" where
  "packer_ok pk \<longleftrightarrow> (\<forall>d z. pk_gzip pk d = Inr z \<longrightarrow> pk_gunzip pk z = Inr d) \<and> (\<forall>d. pk_dec58 pk (pk_enc58 pk d) = Inr d)"

lemma base58_roundtrip:
  assumes bf: "stream_cipher_ok blowfish_BlockSize newc" and r: "rand_ok rnd" and pk: "packer_ok pk"
  shows "\<exists>r. BlowfishEncryptToBase58 newc rnd pk key p = Some r \<and>
    (\<forall>s. r = Inr s \<longrightarrow> BlowfishDecryptFromBase58 newc pk key s = Some (Inr p))"
proof (cases "newc key")
  case (Inl e)
  then show ?thesis by (simp add: BlowfishEncryptToBase58_def BlowfishEncrypt_def)
next
  case (Inr blk)
  then have blk: "BlockSize blk = 8" "\<And>b. length b = 8 \<Longrightarrow> length (bl_Encrypt blk b) = 8"
    using bf unfolding stream_cipher_ok_def blowfish_BlockSize_def by auto
  show ?thesis
  proof (cases "rnd 8")
    case (Inl e)
    then show ?thesis using Inr by (simp add: BlowfishEncryptToBase58_def BlowfishEncrypt_def blowfish_BlockSize_def)
  next
    case iv: (Inr iv)
    then have "length iv = 8" using r by (simp add: rand_ok_def)
    with cfb_dec_enc [of 8 "bl_Encrypt blk" iv p] blk Inr iv
    obtain c where c: "BlowfishEncrypt newc rnd key p = Some (Inr (iv @ c))" "BlowfishDecrypt newc key (iv @ c) = Some (Inr p)"
      by (simp add: BlowfishEncrypt_def BlowfishDecrypt_def blowfish_BlockSize_def CFBEncrypt_def CFBDecrypt_def concat_blocks)
    then show ?thesis
      using pk by (cases "pk_gzip pk (iv @ c)")
        (auto simp: BlowfishEncryptToBase58_def BlowfishDecryptFromBase58_def packer_ok_def)
  qed
qed

lemma of_be_append: "of_be (bs @ [b]) = of_be bs * 256 + unat b"
  by (simp add: of_be_def)

lemma of_be_be_bytes: "of_be (be_bytes n) = n"
proof (induction n rule: be_bytes.induct)
  case (1 n)
  show ?case
  proof (cases "n = 0")
    case True
    then show ?thesis by (simp add: be_bytes.simps of_be_def)
  next
    case False
    have "unat (of_nat (n mod 256) :: 8 word) = n mod 256" by (simp add: unat_of_nat)
    then show ?thesis using 1 [OF False] False by (subst be_bytes.simps) (simp add: of_be_append)
  qed
qed

lemma sint_nonneg: "0 \<le> sint (i :: 64 word) \<longleftrightarrow> uint i < 2 ^ 63"
proof -
  have u: "0 \<le> uint i" "uint i < 2 ^ 64" using uint_range_size [of i] by (simp_all add: word_size)
  have "uint i div 2 ^ 63 = (if uint i < 2 ^ 63 then 0 else 1)"
    using u int_div_pos_eq [of "uint i" "2 ^ 63" 1 "uint i - 2 ^ 63"] by (auto simp: div_pos_pos_trivial)
  then have "bit (uint i) 63 \<longleftrightarrow> \<not> uint i < 2 ^ 63" by (simp add: bit_iff_odd)
  then show ?thesis by (simp add: sint_uint)
qed

text \<open> An identifier up to \<open>2 ^ 63\<close> that could be encrypted comes back from its text; a larger one comes back as its negation modulo
  \<open>2 ^ 64\<close>, because its magnitude as a signed number is what is encrypted.
\<close>
theorem safe_id_roundtrip:
  assumes "stream_cipher_ok blowfish_BlockSize newc" and "rand_ok rnd" and "packer_ok pk" and "id_Enc newc rnd pk i = Some s" and "s \<noteq> []"
  shows "id_Dec newc pk s old = Some (if uint i \<le> 2 ^ 63 then i else - i)"
proof -
  obtain r where r: "BlowfishEncryptToBase58 newc rnd pk secretKey (big_Bytes i) = Some r"
    "\<And>s. r = Inr s \<Longrightarrow> BlowfishDecryptFromBase58 newc pk secretKey s = Some (Inr (big_Bytes i))"
    using base58_roundtrip [OF assms(1-3)] by blast
  have "r = Inr s" using r(1) assms(4,5) by (cases r) (auto simp: id_Enc_def)
  then have dec: "BlowfishDecryptFromBase58 newc pk secretKey s = Some (Inr (big_Bytes i))" using r(2) by simp
  have "(of_nat (nat \<bar>sint i\<bar>) :: 64 word) = word_of_int \<bar>sint i\<bar>"
    by (metis abs_ge_zero nat_0_le of_int_of_nat_eq)
  moreover have "(word_of_int \<bar>sint i\<bar> :: 64 word) = (if 0 \<le> sint i then i else - i)"
    by (simp add: abs_if)
  moreover have "0 \<le> sint i \<longleftrightarrow> uint i < 2 ^ 63" by (rule sint_nonneg)
  moreover have "- i = i" if "uint i = 2 ^ 63"
  proof -
    have "i = 9223372036854775808" using word_of_int_uint [of i] that by simp
    then show ?thesis by simp
  qed
  ultimately have "big_Int64 (big_Bytes i) = (if uint i \<le> 2 ^ 63 then i else - i)"
    by (auto simp: big_Int64_def big_Bytes_def of_be_be_bytes)
  then show ?thesis by (simp add: id_Dec_def dec)
qed


text \<open>Packers that keep the bytes and write each as two characters.\<close>

definition plain_packer :: packer where
  "plain_packer = \<lparr>pk_gzip = Inr, pk_gunzip = Inr, pk_enc58 = bytes_str, pk_dec58 = (\<lambda>s. Inr (str_bytes s))\<rparr>"

lemma str_bytes_bytes_str [simp]: "str_bytes (bytes_str bs) = bs"
proof -
  have "(of_nat (of_char (char_of (unat b) :: char)) :: 8 word) = b" for b :: "8 word"
  proof -
    have "unat b < 256" using unsigned_less [of b, where ?'a = nat] by simp
    then show ?thesis by simp
  qed
  then show ?thesis by (induction bs) (simp_all add: bytes_str_def str_bytes_def)
qed

lemma plain_packer_ok: "packer_ok plain_packer"
  by (simp add: packer_ok_def plain_packer_def)

definition key_cipher :: new_cipher where
  "key_cipher key = (if length key < 8 then Inl (Err ''invalid key size'')
     else Inr \<lparr>BlockSize = 8, bl_Encrypt = (\<lambda>b. xor_bytes b (take 8 key)), bl_Decrypt = (\<lambda>b. xor_bytes b (take 8 key))\<rparr>)"

lemma key_cipher_ok: "stream_cipher_ok blowfish_BlockSize key_cipher"
  by (auto simp: stream_cipher_ok_def key_cipher_def blowfish_BlockSize_def xor_bytes_twice split: if_splits)

theorem safe_id_roundtrip_witness:
  "\<exists>s. id_Enc key_cipher zero_rand plain_packer 300 = Some s \<and> s \<noteq> [] \<and> id_Dec key_cipher plain_packer s 0 = Some 300"
proof -
  obtain c where "BlowfishEncrypt key_cipher zero_rand secretKey (big_Bytes 300) = Some (Inr (replicate 8 7 @ c))"
    by (simp add: BlowfishEncrypt_def key_cipher_def secretKey_def str_bytes_def zero_rand_def blowfish_BlockSize_def CFBEncrypt_def)
  then have s: "id_Enc key_cipher zero_rand plain_packer 300 = Some (bytes_str (replicate 8 7 @ c))"
    by (simp add: id_Enc_def BlowfishEncryptToBase58_def plain_packer_def)
  have "bytes_str (replicate 8 7 @ c) \<noteq> []" by (simp add: bytes_str_def)
  then show ?thesis
    using s safe_id_roundtrip [OF key_cipher_ok zero_rand_ok plain_packer_ok s, of 0] by auto
qed

text \<open>
  A secret without the mark comes back from its encrypted form, unless the encryption failed and it was stored as it is;
  encrypting twice is encrypting once. A text that begins with the mark is taken for encrypted.
\<close>
theorem type_secret_roundtrip:
  assumes "stream_cipher_ok blowfish_BlockSize newc" and "rand_ok rnd" and "packer_ok pk" and "\<not> has_prefix s encryptorPrefix"
  shows "\<exists>t. secret_Enc newc rnd pk s = Some t \<and> secret_Dec newc pk t = Some s \<and> (has_prefix t encryptorPrefix \<longrightarrow> secret_Enc newc rnd pk t = Some t)"
proof -
  obtain r where r: "BlowfishEncryptToBase58 newc rnd pk secretKey (str_bytes s) = Some r"
    "\<And>t. r = Inr t \<Longrightarrow> BlowfishDecryptFromBase58 newc pk secretKey t = Some (Inr (str_bytes s))"
    using base58_roundtrip [OF assms(1-3)] by blast
  show ?thesis
  proof (cases r)
    case (Inl e)
    then show ?thesis using r(1) assms(4) by (simp add: secret_Enc_def secret_Dec_def)
  next
    case (Inr t)
    then show ?thesis using r assms(4) by (simp add: secret_Enc_def secret_Dec_def)
  qed
qed

theorem marked_secret_not_encrypted: "secret_Enc newc rnd pk (encryptorPrefix @ s) = Some (encryptorPrefix @ s)"
  by (simp add: secret_Enc_def)

end
