(* ===== verification/Go_Url.thy ===== *)
theory Go_Url
  imports Go_Path
begin

text \<open>
  The part of Go's \<open>net/url\<close> that the S3 storage uses: \<open>Parse\<close>, \<open>JoinPath\<close> and \<open>String\<close>, with percent encoding as the
  library does it (Go 1.23). The lemmas: decoding what was encoded gives the text back, and what \<open>JoinPath\<close> prints for a
  base that is only a scheme and a plain host. The texts of parse errors are shortened.
\<close>

section \<open>Percent encoding\<close>

datatype url_mode = encodePath | encodeHost | encodeZone | encodeUserPassword | encodeFragment

definition in_range :: "char \<Rightarrow> nat \<Rightarrow> nat \<Rightarrow> bool" where
  "in_range c a b \<longleftrightarrow> a \<le> of_char c \<and> of_char c \<le> b"

definition is_letter :: "char \<Rightarrow> bool" where
  "is_letter c \<longleftrightarrow> in_range c 97 122 \<or> in_range c 65 90"

definition is_alnum :: "char \<Rightarrow> bool" where
  "is_alnum c \<longleftrightarrow> is_letter c \<or> is_digit c"

definition shouldEscape :: "url_mode \<Rightarrow> char \<Rightarrow> bool" where
  "shouldEscape mode c = (if is_alnum c then False
     else if (mode = encodeHost \<or> mode = encodeZone) \<and> (c \<in> set ''!$&()*+,;=:[]<>'' \<or> c = CHR 0x27 \<or> c = CHR 0x22) then False
     else if c \<in> set ''-_.~'' then False
     else if c \<in> set ''$&+,/:;=?@'' \<and> mode = encodePath then c = CHR ''?''
     else if c \<in> set ''$&+,/:;=?@'' \<and> mode = encodeUserPassword then c \<in> set ''@/?:''
     else if c \<in> set ''$&+,/:;=?@'' \<and> mode = encodeFragment then False
     else if mode = encodeFragment \<and> c \<in> set ''!()*'' then False
     else True)"

definition upperhex :: "nat \<Rightarrow> char" where
  "upperhex d = (if d < 10 then char_of (48 + d) else char_of (55 + d))"

definition ishex :: "char \<Rightarrow> bool" where
  "ishex c \<longleftrightarrow> is_digit c \<or> in_range c 97 102 \<or> in_range c 65 70"

definition unhex :: "char \<Rightarrow> nat" where
  "unhex c = (if is_digit c then of_char c - 48
     else if in_range c 97 102 then of_char c - 97 + 10
     else if in_range c 65 70 then of_char c - 65 + 10 else 0)"

fun url_escape :: "url_mode \<Rightarrow> string \<Rightarrow> string" where
  "url_escape mode [] = []"
| "url_escape mode (c # s) =
     (if shouldEscape mode c then CHR ''%'' # upperhex (of_char c div 16) # upperhex (of_char c mod 16) # url_escape mode s
      else c # url_escape mode s)"

abbreviation hex_char :: "char \<Rightarrow> char \<Rightarrow> char" where
  "hex_char a b \<equiv> char_of (16 * unhex a + unhex b)"

fun url_unescape :: "url_mode \<Rightarrow> string \<Rightarrow> string res" where
  "url_unescape mode [] = Inr []"
| "url_unescape mode (c # s) =
     (if c = CHR ''%'' then
        (case s of
           a # b # t \<Rightarrow>
             (if \<not> ishex a \<or> \<not> ishex b then Inl (Err ''invalid URL escape'')
              else if mode = encodeHost \<and> unhex a < 8 \<and> \<not> (a = CHR ''2'' \<and> b = CHR ''5'') then Inl (Err ''invalid URL escape'')
              else if mode = encodeZone \<and> \<not> (a = CHR ''2'' \<and> b = CHR ''5'') \<and> hex_char a b \<noteq> CHR '' '' \<and>
                shouldEscape encodeHost (hex_char a b) then Inl (Err ''invalid URL escape'')
              else (case url_unescape mode t of Inl e \<Rightarrow> Inl e | Inr u \<Rightarrow> Inr (hex_char a b # u)))
         | _ \<Rightarrow> Inl (Err ''invalid URL escape''))
      else if (mode = encodeHost \<or> mode = encodeZone) \<and> of_char c < (128::nat) \<and> shouldEscape mode c
        then Inl (Err ''invalid character in host name'')
      else (case url_unescape mode s of Inl e \<Rightarrow> Inl e | Inr u \<Rightarrow> Inr (c # u)))"

definition validEncoded :: "url_mode \<Rightarrow> string \<Rightarrow> bool" where
  "validEncoded mode s = list_all (\<lambda>c. c \<in> set ''!$&()*+,;=:@[]%'' \<or> c = CHR 0x27 \<or> \<not> shouldEscape mode c) s"

section \<open>Cutting\<close>

text \<open>\<open>strings.Cut\<close> at the first separator, and at the last one.\<close>

definition str_cut :: "char \<Rightarrow> string \<Rightarrow> string \<times> string" where
  "str_cut c s = (takeWhile (\<lambda>x. x \<noteq> c) s, drop 1 (dropWhile (\<lambda>x. x \<noteq> c) s))"

definition before_last :: "char \<Rightarrow> string \<Rightarrow> string" where
  "before_last c s = rev (drop 1 (dropWhile (\<lambda>x. x \<noteq> c) (rev s)))"

definition after_last :: "char \<Rightarrow> string \<Rightarrow> string" where
  "after_last c s = rev (takeWhile (\<lambda>x. x \<noteq> c) (rev s))"

fun find_sub :: "string \<Rightarrow> string \<Rightarrow> nat option" where
  "find_sub p [] = (if p = [] then Some 0 else None)"
| "find_sub p (c # s) = (if has_prefix (c # s) p then Some 0 else map_option Suc (find_sub p s))"

section \<open>Parsing\<close>

record URL =
  u_Scheme :: string
  u_Opaque :: string
  u_User :: "(string \<times> string option) option"
  u_Host :: string
  u_Path :: string
  u_RawPath :: string
  u_OmitHost :: bool
  u_ForceQuery :: bool
  u_RawQuery :: string
  u_Fragment :: string
  u_RawFragment :: string

definition zero_url :: URL where
  "zero_url = \<lparr>u_Scheme = [], u_Opaque = [], u_User = None, u_Host = [], u_Path = [], u_RawPath = [], u_OmitHost = False,
     u_ForceQuery = False, u_RawQuery = [], u_Fragment = [], u_RawFragment = []\<rparr>"

definition setPath :: "URL \<Rightarrow> string \<Rightarrow> URL res" where
  "setPath u p = (case url_unescape encodePath p of
     Inl e \<Rightarrow> Inl e
   | Inr path \<Rightarrow> Inr (u\<lparr>u_Path := path, u_RawPath := (if p = url_escape encodePath path then [] else p)\<rparr>))"

definition setFragment :: "URL \<Rightarrow> string \<Rightarrow> URL res" where
  "setFragment u f = (case url_unescape encodeFragment f of
     Inl e \<Rightarrow> Inl e
   | Inr frag \<Rightarrow> Inr (u\<lparr>u_Fragment := frag, u_RawFragment := (if f = url_escape encodeFragment frag then [] else f)\<rparr>))"

definition EscapedPath :: "URL \<Rightarrow> string" where
  "EscapedPath u = (if u_RawPath u \<noteq> [] \<and> validEncoded encodePath (u_RawPath u) \<and>
       url_unescape encodePath (u_RawPath u) = Inr (u_Path u) then u_RawPath u
     else if u_Path u = ''*'' then ''*'' else url_escape encodePath (u_Path u))"

definition EscapedFragment :: "URL \<Rightarrow> string" where
  "EscapedFragment u = (if u_RawFragment u \<noteq> [] \<and> validEncoded encodeFragment (u_RawFragment u) \<and>
       url_unescape encodeFragment (u_RawFragment u) = Inr (u_Fragment u) then u_RawFragment u
     else url_escape encodeFragment (u_Fragment u))"

text \<open>The letters read so far are the scheme if a colon comes next.\<close>

fun get_scheme :: "string \<Rightarrow> string \<Rightarrow> string \<Rightarrow> (string \<times> string) res" where
  "get_scheme raw acc [] = Inr ([], raw)"
| "get_scheme raw acc (c # s) =
     (if is_letter c then get_scheme raw (acc @ [c]) s
      else if is_digit c \<or> c \<in> set ''+-.'' then (if acc = [] then Inr ([], raw) else get_scheme raw (acc @ [c]) s)
      else if c = CHR '':'' then (if acc = [] then Inl (Err ''missing protocol scheme'') else Inr (acc, s))
      else Inr ([], raw))"

definition getScheme :: "string \<Rightarrow> (string \<times> string) res" where
  "getScheme raw = get_scheme raw [] raw"

definition lower_char :: "char \<Rightarrow> char" where
  "lower_char c = (if in_range c 65 90 then char_of (of_char c + (32::nat)) else c)"

definition validOptionalPort :: "string \<Rightarrow> bool" where
  "validOptionalPort port \<longleftrightarrow> port = [] \<or> hd port = CHR '':'' \<and> list_all is_digit (tl port)"

definition url_app :: "string res \<Rightarrow> string res \<Rightarrow> string res" where
  "url_app x y = (case x of Inl e \<Rightarrow> Inl e | Inr a \<Rightarrow> (case y of Inl e \<Rightarrow> Inl e | Inr b \<Rightarrow> Inr (a @ b)))"

definition parseHost :: "string \<Rightarrow> string res" where
  "parseHost host =
     (if has_prefix host ''['' then
        (if CHR '']'' \<notin> set host then Inl (Err ''missing ']' in host'')
         else if \<not> validOptionalPort (after_last CHR '']'' host) then Inl (Err ''invalid port after host'')
         else (let pre = before_last CHR '']'' host; rest = drop (length pre) host in
           case find_sub ''%25'' pre of
             Some z \<Rightarrow> url_app (url_unescape encodeHost (take z pre))
               (url_app (url_unescape encodeZone (drop z pre)) (url_unescape encodeHost rest))
           | None \<Rightarrow> url_unescape encodeHost host))
      else if CHR '':'' \<in> set host \<and> \<not> validOptionalPort (CHR '':'' # after_last CHR '':'' host)
        then Inl (Err ''invalid port after host'')
      else url_unescape encodeHost host)"

definition validUserinfo :: "string \<Rightarrow> bool" where
  "validUserinfo s = list_all (\<lambda>c. is_alnum c \<or> c \<in> set ''-._:~!$&()*+,;=%@'' \<or> c = CHR 0x27) s"

definition parse_user :: "string \<Rightarrow> (string \<times> string option) res" where
  "parse_user userinfo =
     (if \<not> validUserinfo userinfo then Inl (Err ''net/url: invalid userinfo'')
      else if CHR '':'' \<notin> set userinfo then
        (case url_unescape encodeUserPassword userinfo of Inl e \<Rightarrow> Inl e | Inr u \<Rightarrow> Inr (u, None))
      else (case url_unescape encodeUserPassword (fst (str_cut CHR '':'' userinfo)) of
          Inl e \<Rightarrow> Inl e
        | Inr u \<Rightarrow> (case url_unescape encodeUserPassword (snd (str_cut CHR '':'' userinfo)) of
            Inl e \<Rightarrow> Inl e
          | Inr w \<Rightarrow> Inr (u, Some w))))"

definition parseAuthority :: "string \<Rightarrow> ((string \<times> string option) option \<times> string) res" where
  "parseAuthority authority =
     (if CHR ''@'' \<notin> set authority then (case parseHost authority of Inl e \<Rightarrow> Inl e | Inr h \<Rightarrow> Inr (None, h))
      else (case parseHost (after_last CHR ''@'' authority) of
          Inl e \<Rightarrow> Inl e
        | Inr h \<Rightarrow> (case parse_user (before_last CHR ''@'' authority) of Inl e \<Rightarrow> Inl e | Inr u \<Rightarrow> Inr (Some u, h))))"

definition is_ctl :: "char \<Rightarrow> bool" where
  "is_ctl c \<longleftrightarrow> of_char c < (32::nat) \<or> of_char c = (127::nat)"

text \<open>The path and the authority, once scheme and query are cut off.\<close>

definition parse_rest :: "URL \<Rightarrow> string \<Rightarrow> URL res" where
  "parse_rest u rest =
     (if \<not> has_prefix rest ''/'' \<and> u_Scheme u \<noteq> [] then Inr (u\<lparr>u_Opaque := rest\<rparr>)
      else if \<not> has_prefix rest ''/'' \<and> CHR '':'' \<in> set (fst (str_cut CHR ''/'' rest))
        then Inl (Err ''first path segment in URL cannot contain colon'')
      else if (u_Scheme u \<noteq> [] \<or> \<not> has_prefix rest ''///'') \<and> has_prefix rest ''//'' then
        (let authority = takeWhile (\<lambda>c. c \<noteq> CHR ''/'') (drop 2 rest); path = dropWhile (\<lambda>c. c \<noteq> CHR ''/'') (drop 2 rest)
         in case parseAuthority authority of
              Inl e \<Rightarrow> Inl e
            | Inr (user, host) \<Rightarrow> setPath (u\<lparr>u_User := user, u_Host := host\<rparr>) path)
      else setPath (if u_Scheme u \<noteq> [] \<and> has_prefix rest ''/'' then u\<lparr>u_OmitHost := True\<rparr> else u) rest)"

definition url_parse :: "string \<Rightarrow> URL res" where
  "url_parse raw =
     (if list_ex is_ctl raw then Inl (Err ''net/url: invalid control character in URL'')
      else if raw = ''*'' then Inr (zero_url\<lparr>u_Path := ''*''\<rparr>)
      else (case getScheme raw of
          Inl e \<Rightarrow> Inl e
        | Inr (scheme, rest) \<Rightarrow>
            (let u = zero_url\<lparr>u_Scheme := map lower_char scheme\<rparr> in
             if rest \<noteq> [] \<and> last rest = CHR ''?'' \<and> CHR ''?'' \<notin> set (butlast rest)
             then parse_rest (u\<lparr>u_ForceQuery := True\<rparr>) (butlast rest)
             else parse_rest (u\<lparr>u_RawQuery := snd (str_cut CHR ''?'' rest)\<rparr>) (fst (str_cut CHR ''?'' rest)))))"

definition url_Parse :: "string \<Rightarrow> URL res" where
  "url_Parse raw = (case url_parse (fst (str_cut CHR ''#'' raw)) of
     Inl e \<Rightarrow> Inl (Wrapf ''parse'' e)
   | Inr u \<Rightarrow> (if snd (str_cut CHR ''#'' raw) = [] then Inr u
       else (case setFragment u (snd (str_cut CHR ''#'' raw)) of Inl e \<Rightarrow> Inl (Wrapf ''parse'' e) | Inr u' \<Rightarrow> Inr u')))"

section \<open>Printing and joining\<close>

definition user_String :: "string \<times> string option \<Rightarrow> string" where
  "user_String w = url_escape encodeUserPassword (fst w) @
     (case snd w of None \<Rightarrow> [] | Some p \<Rightarrow> '':'' @ url_escape encodeUserPassword p)"

definition url_authority :: "URL \<Rightarrow> string" where
  "url_authority u =
     (if (u_Scheme u \<noteq> [] \<or> u_Host u \<noteq> [] \<or> u_User u \<noteq> None) \<and> \<not> (u_OmitHost u \<and> u_Host u = [] \<and> u_User u = None)
      then (if u_Host u \<noteq> [] \<or> u_Path u \<noteq> [] \<or> u_User u \<noteq> None then ''//'' else []) @
        (case u_User u of None \<Rightarrow> [] | Some w \<Rightarrow> user_String w @ ''@'') @ url_escape encodeHost (u_Host u)
      else [])"

definition url_hier :: "URL \<Rightarrow> string" where
  "url_hier u = (let scheme = (if u_Scheme u \<noteq> [] then u_Scheme u @ '':'' else []); path = EscapedPath u;
       pre = scheme @ url_authority u @ (if path \<noteq> [] \<and> hd path \<noteq> CHR ''/'' \<and> u_Host u \<noteq> [] then ''/'' else [])
     in pre @ (if pre = [] \<and> CHR '':'' \<in> set (fst (str_cut CHR ''/'' path)) then ''./'' else []) @ path)"

definition url_String :: "URL \<Rightarrow> string" where
  "url_String u = (if u_Opaque u \<noteq> [] then (if u_Scheme u \<noteq> [] then u_Scheme u @ '':'' else []) @ u_Opaque u else url_hier u) @
     (if u_ForceQuery u \<or> u_RawQuery u \<noteq> [] then ''?'' @ u_RawQuery u else []) @
     (if u_Fragment u \<noteq> [] then ''#'' @ EscapedFragment u else [])"

text \<open>\<open>path.Join\<close> of several elements: the empty ones are left out.\<close>

definition path_Join :: "string list \<Rightarrow> string" where
  "path_Join elem = (let es = filter (\<lambda>e. e \<noteq> []) elem in if es = [] then [] else Clean (join_strings ''/'' es))"

text \<open>The error of \<open>setPath\<close> is dropped: the result then has the path of the base.\<close>

definition url_JoinPath_method :: "URL \<Rightarrow> string list \<Rightarrow> URL" where
  "url_JoinPath_method u elem =
     (let first = EscapedPath u; es = first # elem;
          p = (if has_prefix first ''/'' then path_Join es else drop 1 (path_Join ((''/'' @ first) # elem)));
          lst = (if elem = [] then (if has_prefix first ''/'' then first else ''/'' @ first) else last elem);
          p' = (if lst \<noteq> [] \<and> last lst = CHR ''/'' \<and> \<not> (p \<noteq> [] \<and> last p = CHR ''/'') then p @ ''/'' else p)
      in case setPath u p' of Inl _ \<Rightarrow> u | Inr u' \<Rightarrow> u')"

definition url_JoinPath :: "string \<Rightarrow> string list \<Rightarrow> string res" where
  "url_JoinPath base elem = (case url_Parse base of Inl e \<Rightarrow> Inl e | Inr u \<Rightarrow> Inr (url_String (url_JoinPath_method u elem)))"

section \<open>Decoding what was encoded\<close>

lemma hex_digits: "d < 16 \<Longrightarrow> ishex (upperhex d) \<and> unhex (upperhex d) = d"
  by (cases "d < 10") (simp_all add: upperhex_def ishex_def unhex_def is_digit_def in_range_def)

lemma percent_escaped: "mode \<noteq> encodeHost \<Longrightarrow> mode \<noteq> encodeZone \<Longrightarrow> shouldEscape mode CHR ''%''"
  by (simp add: shouldEscape_def is_alnum_def is_letter_def in_range_def is_digit_def)

lemma url_unescape_escape:
  assumes "mode \<noteq> encodeHost" "mode \<noteq> encodeZone"
  shows "url_unescape mode (url_escape mode s) = Inr s"
proof (induction s)
  case (Cons c s)
  have d: "of_char c div 16 < (16::nat)" using nat_of_char_less_256 [of c] by linarith
  have "hex_char (upperhex (of_char c div 16)) (upperhex (of_char c mod 16)) = c"
    using hex_digits [OF d] hex_digits [of "of_char c mod 16"] by simp
  with Cons assms hex_digits [OF d] hex_digits [of "of_char c mod 16"] percent_escaped [OF assms]
  show ?case by auto
qed simp

lemma url_unescape_plain: "mode \<noteq> encodeHost \<Longrightarrow> mode \<noteq> encodeZone \<Longrightarrow> CHR ''%'' \<notin> set s \<Longrightarrow> url_unescape mode s = Inr s"
  by (induction s) auto

lemma length_url_escape: "length s \<le> length (url_escape mode s)"
  by (induction s) auto

lemma url_escape_longer: "c \<in> set s \<Longrightarrow> shouldEscape mode c \<Longrightarrow> length s < length (url_escape mode s)"
proof (induction s)
  case (Cons x s)
  then show ?case using length_url_escape [of s mode] by (auto simp: less_Suc_eq_le)
qed simp

lemma url_escape_id: "url_escape mode s = s \<Longrightarrow> c \<in> set s \<Longrightarrow> \<not> shouldEscape mode c"
  using url_escape_longer [of c s mode] by auto

text \<open>What is printed for a path without percent signs: itself when every character may stand in a path, else its encoding.\<close>

definition encoded_path :: "string \<Rightarrow> string" where
  "encoded_path p = (if validEncoded encodePath p then p else url_escape encodePath p)"

lemma decode_encoded_path: "CHR ''%'' \<notin> set p \<Longrightarrow> url_unescape encodePath (encoded_path p) = Inr p"
  by (simp add: encoded_path_def url_unescape_escape url_unescape_plain)

lemma set_plain_path:
  assumes "CHR ''%'' \<notin> set p" "p \<noteq> ''*''"
  shows "\<exists>u'. setPath u p = Inr u' \<and> EscapedPath u' = encoded_path p \<and> u' = u\<lparr>u_Path := p, u_RawPath := u_RawPath u'\<rparr>"
proof -
  have un: "url_unescape encodePath p = Inr p" using assms(1) by (intro url_unescape_plain) simp_all
  have "validEncoded encodePath p" if "url_escape encodePath p = p"
    using url_escape_id [OF that] unfolding validEncoded_def list_all_iff by blast
  then show ?thesis using un assms(2) by (auto simp: setPath_def EscapedPath_def encoded_path_def)
qed

section \<open>A base of scheme and host\<close>

definition plain_scheme :: "string \<Rightarrow> bool" where
  "plain_scheme s \<longleftrightarrow> s \<noteq> [] \<and> list_all (\<lambda>c. in_range c 97 122) s"

definition plain_host :: "string \<Rightarrow> bool" where
  "plain_host h \<longleftrightarrow> (let name = takeWhile (\<lambda>c. c \<noteq> CHR '':'') h in name \<noteq> [] \<and>
     list_all (\<lambda>c. is_alnum c \<or> c \<in> set ''-.'') name \<and> validOptionalPort (drop (length name) h))"

lemma plain_host_chars: "plain_host h \<Longrightarrow> c \<in> set h \<Longrightarrow> is_alnum c \<or> c \<in> set ''-.:''"
proof -
  assume h: "plain_host h" and c: "c \<in> set h"
  let ?n = "takeWhile (\<lambda>c. c \<noteq> CHR '':'') h"
  have "c \<in> set ?n \<or> c \<in> set (drop (length ?n) h)"
    using c by (metis Un_iff set_append takeWhile_dropWhile_id dropWhile_eq_drop)
  then show ?thesis
  proof
    assume "c \<in> set ?n"
    with h show ?thesis by (auto simp: plain_host_def Let_def list_all_iff)
  next
    assume d: "c \<in> set (drop (length ?n) h)"
    then obtain x xs where x: "drop (length ?n) h = x # xs" by (cases "drop (length ?n) h") auto
    with h have "x = CHR '':''" "\<forall>y\<in>set xs. is_digit y" by (auto simp: plain_host_def Let_def validOptionalPort_def list_all_iff)
    with d x show ?thesis by (auto simp: is_alnum_def)
  qed
qed

lemma alnum_not: "is_alnum c \<Longrightarrow> c \<noteq> CHR ''/'' \<and> c \<noteq> CHR ''#'' \<and> c \<noteq> CHR ''?'' \<and> c \<noteq> CHR ''@'' \<and> c \<noteq> CHR ''['' \<and> c \<noteq> CHR ''%'' \<and> c \<noteq> CHR '':'' \<and> \<not> is_ctl c"
  by (auto simp: is_alnum_def is_letter_def in_range_def is_digit_def is_ctl_def)

lemma plain_host_not:
  assumes "plain_host h" "c \<in> set h"
  shows "c \<noteq> CHR ''/'' \<and> c \<noteq> CHR ''#'' \<and> c \<noteq> CHR ''?'' \<and> c \<noteq> CHR ''@'' \<and> c \<noteq> CHR ''['' \<and> c \<noteq> CHR ''%'' \<and> \<not> is_ctl c"
  using plain_host_chars [OF assms] alnum_not [of c] by (auto simp: is_ctl_def)

lemma plain_host_escape: "plain_host h \<Longrightarrow> url_escape encodeHost h = h \<and> url_unescape encodeHost h = Inr h"
proof -
  assume "plain_host h"
  have "\<not> shouldEscape encodeHost c" if "c \<in> set h" for c
  proof (cases "is_alnum c")
    case False
    with plain_host_chars [OF \<open>plain_host h\<close> that] have "c \<in> set ''-.:''" by blast
    then show ?thesis by (auto simp: shouldEscape_def)
  qed (simp add: shouldEscape_def)
  with plain_host_not [OF \<open>plain_host h\<close>] have "\<forall>c\<in>set h. \<not> shouldEscape encodeHost c \<and> c \<noteq> CHR ''%''" by blast
  then show ?thesis by (induction h) auto
qed

lemma after_last_append: "c \<notin> set t \<Longrightarrow> after_last c (s @ c # t) = t"
  by (simp add: after_last_def takeWhile_append)

lemma plain_host_port: "plain_host h \<Longrightarrow> CHR '':'' \<in> set h \<Longrightarrow> validOptionalPort (CHR '':'' # after_last CHR '':'' h)"
proof -
  assume h: "plain_host h" and c: "CHR '':'' \<in> set h"
  let ?n = "takeWhile (\<lambda>c. c \<noteq> CHR '':'') h"
  from c have "dropWhile (\<lambda>c. c \<noteq> CHR '':'') h \<noteq> []" by auto
  then obtain p where p: "dropWhile (\<lambda>c. c \<noteq> CHR '':'') h = CHR '':'' # p"
    using hd_dropWhile [of "\<lambda>c. c \<noteq> CHR '':''" h] by (cases "dropWhile (\<lambda>c. c \<noteq> CHR '':'') h") auto
  then have "drop (length ?n) h = CHR '':'' # p" by (metis dropWhile_eq_drop)
  moreover have "validOptionalPort (drop (length ?n) h)" using h by (simp add: plain_host_def Let_def)
  ultimately have d: "list_all is_digit p" by (simp add: validOptionalPort_def)
  then have "CHR '':'' \<notin> set p" by (auto simp: list_all_iff is_digit_def)
  moreover have "h = ?n @ CHR '':'' # p" using p by (metis takeWhile_dropWhile_id)
  ultimately have "after_last CHR '':'' h = p" by (metis after_last_append)
  with d show ?thesis by (simp add: validOptionalPort_def)
qed

lemma plain_host_authority: "plain_host h \<Longrightarrow> parseAuthority h = Inr (None, h)"
proof -
  assume h: "plain_host h"
  then have "\<not> has_prefix h ''[''" using plain_host_not [of h "CHR ''[''"] by (cases h) (auto simp: has_prefix_def)
  then have "parseHost h = Inr h" using plain_host_port [OF h] plain_host_escape [OF h] by (auto simp: parseHost_def)
  then show ?thesis using plain_host_not [OF h] by (auto simp: parseAuthority_def)
qed

lemma plain_scheme_chars: "plain_scheme s \<Longrightarrow> c \<in> set s \<Longrightarrow> is_letter c \<and> lower_char c = c \<and> is_alnum c"
  by (auto simp: plain_scheme_def list_all_iff in_range_def is_letter_def lower_char_def is_alnum_def)

lemma get_scheme_letters: "\<forall>c\<in>set s. is_letter c \<Longrightarrow> get_scheme raw acc (s @ CHR '':'' # t) = (if acc @ s = [] then Inl (Err ''missing protocol scheme'') else Inr (acc @ s, t))"
proof (induction s arbitrary: acc)
  case Nil
  show ?case by (simp add: is_letter_def in_range_def is_digit_def)
qed simp

lemma cut_none: "c \<notin> set s \<Longrightarrow> str_cut c s = (s, [])"
proof -
  assume "c \<notin> set s"
  then have "takeWhile (\<lambda>x. x \<noteq> c) s = s" "dropWhile (\<lambda>x. x \<noteq> c) s = []"
    by (auto simp: takeWhile_eq_all_conv dropWhile_eq_Nil_conv)
  then show ?thesis by (simp only: str_cut_def drop_Nil)
qed

definition base_url :: "string \<Rightarrow> string \<Rightarrow> URL" where
  "base_url sch h = zero_url\<lparr>u_Scheme := sch, u_Host := h\<rparr>"

lemma url_Parse_base:
  assumes "plain_scheme sch" "plain_host h"
  shows "url_Parse (sch @ ''://'' @ h) = Inr (base_url sch h)"
proof -
  let ?raw = "sch @ CHR '':'' # CHR ''/'' # CHR ''/'' # h"
  have cs: "c \<noteq> CHR ''#'' \<and> \<not> is_ctl c" if "c \<in> set ?raw" for c
    using that plain_scheme_chars [OF assms(1)] alnum_not [of c] plain_host_not [OF assms(2)] by (auto simp: is_ctl_def)
  have sch: "sch \<noteq> []" "map lower_char sch = sch" using assms(1) plain_scheme_chars [OF assms(1)] by (simp_all add: plain_scheme_def map_idI)
  have gs: "getScheme ?raw = Inr (sch, CHR ''/'' # CHR ''/'' # h)"
    unfolding getScheme_def using get_scheme_letters [of sch ?raw "[]"] plain_scheme_chars [OF assms(1)] sch by simp
  have noq: "CHR ''?'' \<notin> set h" "CHR ''/'' \<notin> set h" using plain_host_not [OF assms(2)] by auto
  have tw: "takeWhile (\<lambda>c. c \<noteq> CHR ''/'') h = h" "dropWhile (\<lambda>c. c \<noteq> CHR ''/'') h = []"
    using noq(2) by (auto simp: takeWhile_eq_all_conv dropWhile_eq_Nil_conv)
  have h: "h \<noteq> []" using assms(2) by (auto simp: plain_host_def)
  have "last (CHR ''/'' # CHR ''/'' # h) \<noteq> CHR ''?''" using h noq(1) last_in_set [of h] by (auto simp del: last_in_set)
  moreover have "str_cut CHR ''?'' (CHR ''/'' # CHR ''/'' # h) = (CHR ''/'' # CHR ''/'' # h, [])" using noq(1) by (intro cut_none) simp
  moreover have "parse_rest (zero_url\<lparr>u_Scheme := sch\<rparr>) (CHR ''/'' # CHR ''/'' # h) = Inr (base_url sch h)"
    using sch(1) plain_host_authority [OF assms(2)]
    by (simp add: parse_rest_def has_prefix_def zero_url_def base_url_def tw setPath_def del: takeWhile_eq_all_conv)
  moreover have "\<not> list_ex is_ctl ?raw" using cs by (auto simp: list_ex_iff)
  moreover have "?raw \<noteq> ''*''" using sch(1) by (cases sch) auto
  ultimately have "url_parse ?raw = Inr (base_url sch h)"
    using gs sch(2) by (simp add: url_parse_def zero_url_def)
  moreover have "str_cut CHR ''#'' ?raw = (?raw, [])" using cs by (intro cut_none) blast
  ultimately show ?thesis by (simp add: url_Parse_def)
qed

text \<open>Joining elements to such a base prints the encoded joined path after it.\<close>

lemma url_JoinPath_base:
  assumes "plain_scheme sch" "plain_host h" "path_Join (''/'' # es) = CHR ''/'' # p" "p \<noteq> []"
    and "es \<noteq> []" "last es \<noteq> []" "last (last es) \<noteq> CHR ''/''" "hd p \<noteq> CHR ''/''" "CHR ''%'' \<notin> set p" "p \<noteq> ''*''"
  shows "url_JoinPath (sch @ ''://'' @ h) es = Inr (sch @ ''://'' @ h @ ''/'' @ encoded_path p)"
proof -
  have sch: "sch \<noteq> []" and h: "h \<noteq> []" using assms(1,2) by (auto simp: plain_scheme_def plain_host_def)
  have e0: "EscapedPath (base_url sch h) = []" by (simp add: EscapedPath_def base_url_def zero_url_def)
  obtain u' where u': "setPath (base_url sch h) p = Inr u'" "EscapedPath u' = encoded_path p"
    "u' = (base_url sch h)\<lparr>u_Path := p, u_RawPath := u_RawPath u'\<rparr>" using set_plain_path [OF assms(9,10)] by blast
  have j: "url_JoinPath_method (base_url sch h) es = u'"
    using assms(3,5,6,7) u'(1) by (simp add: url_JoinPath_method_def e0 has_prefix_def)
  have f: "u_Scheme u' = sch \<and> u_Host u' = h \<and> u_User u' = None \<and> u_Opaque u' = [] \<and> \<not> u_OmitHost u' \<and>
      \<not> u_ForceQuery u' \<and> u_RawQuery u' = [] \<and> u_Fragment u' = [] \<and> u_Path u' = p"
    by (subst (1 2 3 4 5 6 7 8 9) u'(3)) (simp add: base_url_def zero_url_def)
  have "\<not> shouldEscape encodePath (hd p) \<or> hd (url_escape encodePath p) = CHR ''%''" using assms(4) by (cases p) auto
  then have hd: "encoded_path p \<noteq> [] \<and> hd (encoded_path p) \<noteq> CHR ''/''"
    using assms(4,8) by (cases p) (auto simp: encoded_path_def)
  have "url_String u' = sch @ ''://'' @ h @ ''/'' @ encoded_path p"
    using f sch h hd u'(2) assms(4) plain_host_escape [OF assms(2)]
    by (simp add: url_String_def url_hier_def url_authority_def)
  then show ?thesis using url_Parse_base [OF assms(1,2)] j by (simp add: url_JoinPath_def)
qed

end
