(* ===== verification/S3_Client.thy ===== *)
theory S3_Client
  imports Cos_Storage Go_Url "HOL-Library.List_Lexorder" "HOL-Library.Char_ord"
begin

text \<open>
  The S3 service as \<open>storage/s3.go\<close> calls it through the AWS SDK: a record of operations by bucket and key, the locale
  \<open>s3_store\<close> with the documented behaviour of the calls, and an instance in memory. A listing comes in pages; \<open>left\<close> are
  the keys still to come at a continuation token, so the laws do not depend on when a page is fetched while the bucket
  changes elsewhere. The source of a copy is a text that the service decodes; only sources without characters that need
  encoding are covered by the law.
\<close>

section \<open>Operations\<close>

record 'o aws_ops =
  aws_HeadBucket :: "'o \<Rightarrow> string \<Rightarrow> unit res"
  aws_Upload :: "'o \<Rightarrow> string \<Rightarrow> string \<Rightarrow> reader \<Rightarrow> string \<Rightarrow> unit res \<times> 'o"
  aws_GetObject :: "'o \<Rightarrow> string \<Rightarrow> string \<Rightarrow> string res"
  aws_DeleteObject :: "'o \<Rightarrow> string \<Rightarrow> string \<Rightarrow> unit res \<times> 'o"
  aws_HeadObject :: "'o \<Rightarrow> string \<Rightarrow> string \<Rightarrow> unit res"
  aws_CopyObject :: "'o \<Rightarrow> string \<Rightarrow> string \<Rightarrow> string \<Rightarrow> unit res \<times> 'o"
  aws_ListObjectsV2 :: "'o \<Rightarrow> string \<Rightarrow> string \<Rightarrow> string option \<Rightarrow> (string list \<times> string option) res"
  aws_PresignGet :: "'o \<Rightarrow> string \<Rightarrow> string \<Rightarrow> duration \<Rightarrow> string res"
  aws_PresignPut :: "'o \<Rightarrow> string \<Rightarrow> string \<Rightarrow> string option \<Rightarrow> duration \<Rightarrow> string res"
  aws_PresignUploadPart :: "'o \<Rightarrow> string \<Rightarrow> string \<Rightarrow> string \<Rightarrow> int \<Rightarrow> string option \<Rightarrow> int option \<Rightarrow> duration \<Rightarrow> string res"
  aws_CreateMultipartUpload :: "'o \<Rightarrow> string \<Rightarrow> string \<Rightarrow> string option \<Rightarrow> string res \<times> 'o"
  aws_UploadPart :: "'o \<Rightarrow> string \<Rightarrow> string \<Rightarrow> string \<Rightarrow> int \<Rightarrow> string \<Rightarrow> string res \<times> 'o"
  aws_CompleteMultipartUpload :: "'o \<Rightarrow> string \<Rightarrow> string \<Rightarrow> string \<Rightarrow> (int option \<times> string option) list \<Rightarrow> unit res \<times> 'o"
  aws_AbortMultipartUpload :: "'o \<Rightarrow> string \<Rightarrow> string \<Rightarrow> string \<Rightarrow> unit res \<times> 'o"

text \<open>The SDK's type \<open>types.NotFound\<close>.\<close>

definition aws_NotFound :: gerror where
  "aws_NotFound = Err ''NotFound''"

text \<open>The parts given to the completion, when no field is missing.\<close>

fun given_parts :: "(int option \<times> string option) list \<Rightarrow> cos_Part list option" where
  "given_parts [] = Some []"
| "given_parts ((Some n, Some t) # ps) = map_option ((#) \<lparr>cp_PartNumber = n, cp_ETag = t\<rparr>) (given_parts ps)"
| "given_parts _ = None"

definition source_plain :: "string \<Rightarrow> bool" where
  "source_plain s = list_all (\<lambda>c. is_alnum c \<or> c \<in> set ''-_.~/'') s"

section \<open>Laws\<close>

text \<open>The keys of a bucket that begin with a prefix.\<close>

definition keys_with :: "('o \<Rightarrow> string \<Rightarrow> string \<Rightarrow> string option) \<Rightarrow> 'o \<Rightarrow> string \<Rightarrow> string \<Rightarrow> string set" where
  "keys_with obj s b p = {k. obj s b k \<noteq> None \<and> has_prefix k p}"

locale s3_store =
  fixes S :: "'o aws_ops" and obj :: "'o \<Rightarrow> string \<Rightarrow> string \<Rightarrow> string option"
    and up :: "'o \<Rightarrow> string \<Rightarrow> string \<Rightarrow> string \<Rightarrow> parts option"
    and left :: "'o \<Rightarrow> string \<Rightarrow> string \<Rightarrow> string option \<Rightarrow> string set"
  assumes parts_sorted: "up s b k u = Some ps \<Longrightarrow> by_number ps"
    and put_ok: "aws_Upload S s b k r ct = (Inr v, s') \<Longrightarrow> snd r = None \<and> obj s' b k = Some (fst r)"
    and put_atomic: "aws_Upload S s b k r ct = (w, s') \<Longrightarrow> obj s' b k = obj s b k \<or> snd r = None \<and> obj s' b k = Some (fst r)"
    and put_frame: "aws_Upload S s b k r ct = (w, s') \<Longrightarrow> (\<forall>b' k'. (b', k') \<noteq> (b, k) \<longrightarrow> obj s' b' k' = obj s b' k') \<and>
       (\<forall>b' k' u. up s b' k' u \<noteq> None \<longrightarrow> up s' b' k' u = up s b' k' u)"
    and get_ok: "aws_GetObject S s b k = Inr c \<Longrightarrow> obj s b k = Some c"
    and delete_ok: "aws_DeleteObject S s b k = (Inr v, s') \<Longrightarrow> obj s' b k = None"
    and delete_frame: "aws_DeleteObject S s b k = (w, s') \<Longrightarrow> (\<forall>b' k'. (b', k') \<noteq> (b, k) \<longrightarrow> obj s' b' k' = obj s b' k') \<and> up s' = up s"
    and head_ok: "aws_HeadObject S s b k = Inr v \<Longrightarrow> obj s b k \<noteq> None"
    and head_missing: "aws_HeadObject S s b k = Inl e \<Longrightarrow> errors_is e aws_NotFound \<Longrightarrow> obj s b k = None"
    and copy_ok: "aws_CopyObject S s b k (sb @ ''/'' @ src) = (Inr v, s') \<Longrightarrow> CHR ''/'' \<notin> set sb \<Longrightarrow> source_plain (sb @ ''/'' @ src) \<Longrightarrow>
       obj s sb src \<noteq> None \<and> obj s' b k = obj s sb src"
    and copy_atomic: "aws_CopyObject S s b k (sb @ ''/'' @ src) = (w, s') \<Longrightarrow> CHR ''/'' \<notin> set sb \<Longrightarrow> source_plain (sb @ ''/'' @ src) \<Longrightarrow>
       obj s' b k = obj s b k \<or> obj s' b k = obj s sb src"
    and copy_frame: "aws_CopyObject S s b k src = (w, s') \<Longrightarrow> (\<forall>b' k'. (b', k') \<noteq> (b, k) \<longrightarrow> obj s' b' k' = obj s b' k') \<and> up s' = up s"
    and left_start: "left s b p None = keys_with obj s b p"
    and left_stable: "keys_with obj s' b p = keys_with obj s b p \<Longrightarrow> left s' b p tok = left s b p tok"
    and list_page: "aws_ListObjectsV2 S s b p tok = Inr (ks, nxt) \<Longrightarrow> distinct ks \<and> set ks \<subseteq> left s b p tok"
    and list_last: "aws_ListObjectsV2 S s b p tok = Inr (ks, None) \<Longrightarrow> set ks = left s b p tok"
    and list_more: "aws_ListObjectsV2 S s b p tok = Inr (ks, Some t) \<Longrightarrow> t \<noteq> [] \<and> ks \<noteq> [] \<and> left s b p (Some t) = left s b p tok - set ks"
    and create_ok: "aws_CreateMultipartUpload S s b k mt = (Inr u, s') \<Longrightarrow> up s b k u = None \<and> up s' b k u = Some []"
    and create_frame: "aws_CreateMultipartUpload S s b k mt = (x, s') \<Longrightarrow> obj s' = obj s \<and>
       (\<forall>b' k' u'. up s b' k' u' \<noteq> None \<longrightarrow> up s' b' k' u' = up s b' k' u')"
    and upload_ok: "aws_UploadPart S s b k u n c = (Inr t, s') \<Longrightarrow>
       \<exists>ps. up s b k u = Some ps \<and> up s' b k u = Some (put_part n (t, c) ps) \<and> 1 \<le> n \<and> n \<le> 10000"
    and upload_frame: "aws_UploadPart S s b k u n c = (x, s') \<Longrightarrow> obj s' = obj s \<and>
       (\<forall>b' k' u'. (b', k', u') \<noteq> (b, k, u) \<longrightarrow> up s' b' k' u' = up s b' k' u')"
    and complete_ok: "aws_CompleteMultipartUpload S s b k u gs = (Inr v, s') \<Longrightarrow>
       \<exists>ps cs c. up s b k u = Some ps \<and> given_parts gs = Some cs \<and> sorted_wrt (<) (map cp_PartNumber cs) \<and>
         gather ps cs = Some c \<and> obj s' b k = Some c \<and> up s' b k u = None"
    and complete_frame: "aws_CompleteMultipartUpload S s b k u gs = (w, s') \<Longrightarrow>
       (\<forall>b' k'. (b', k') \<noteq> (b, k) \<longrightarrow> obj s' b' k' = obj s b' k') \<and>
       (\<forall>b' k' u'. (b', k', u') \<noteq> (b, k, u) \<longrightarrow> up s' b' k' u' = up s b' k' u')"
    and abort_ok: "aws_AbortMultipartUpload S s b k u = (Inr v, s') \<Longrightarrow> up s' b k u = None"
    and abort_frame: "aws_AbortMultipartUpload S s b k u = (w, s') \<Longrightarrow> obj s' = obj s \<and>
       (\<forall>b' k' u'. (b', k', u') \<noteq> (b, k, u) \<longrightarrow> up s' b' k' u' = up s b' k' u')"

section \<open>An instance in memory\<close>

text \<open>Pages of at most two keys in the order of the keys; a token is the last key of a page, after a letter.\<close>

record mem_s3 =
  m3_objects :: "((string \<times> string) \<times> string) list"
  m3_uploads :: "((string \<times> string \<times> string) \<times> parts) list"
  m3_next :: nat

definition m3_obj :: "mem_s3 \<Rightarrow> string \<Rightarrow> string \<Rightarrow> string option" where
  "m3_obj s b k = map_of (m3_objects s) (b, k)"

definition m3_up :: "mem_s3 \<Rightarrow> string \<Rightarrow> string \<Rightarrow> string \<Rightarrow> parts option" where
  "m3_up s b k u = map_option sort_parts (map_of (m3_uploads s) (b, k, u))"

definition m3_keys :: "mem_s3 \<Rightarrow> string \<Rightarrow> string \<Rightarrow> string list" where
  "m3_keys s b p = map (\<lambda>e. snd (fst e)) (filter (\<lambda>e. fst (fst e) = b \<and> has_prefix (snd (fst e)) p) (m3_objects s))"

definition after_token :: "string option \<Rightarrow> string \<Rightarrow> bool" where
  "after_token tok k = (case tok of None \<Rightarrow> True | Some t \<Rightarrow> tl t < k)"

definition m3_left :: "mem_s3 \<Rightarrow> string \<Rightarrow> string \<Rightarrow> string option \<Rightarrow> string set" where
  "m3_left s b p tok = {k \<in> keys_with m3_obj s b p. after_token tok k}"

definition m3_page :: "string list \<Rightarrow> string list \<times> string option" where
  "m3_page l = (take 2 l, if length l \<le> 2 then None else Some (CHR ''k'' # last (take 2 l)))"

definition m3_list :: "mem_s3 \<Rightarrow> string \<Rightarrow> string \<Rightarrow> string option \<Rightarrow> string list" where
  "m3_list s b p tok = sort (remdups (filter (after_token tok) (m3_keys s b p)))"

definition mem_aws :: "mem_s3 aws_ops" where
  "mem_aws = \<lparr>
     aws_HeadBucket = (\<lambda>s b. Inr ()),
     aws_Upload = (\<lambda>s b k r ct. case snd r of Some e \<Rightarrow> (Inl e, s)
        | None \<Rightarrow> (Inr (), s\<lparr>m3_objects := ((b, k), fst r) # m3_objects s\<rparr>)),
     aws_GetObject = (\<lambda>s b k. case m3_obj s b k of None \<Rightarrow> Inl aws_NotFound | Some c \<Rightarrow> Inr c),
     aws_DeleteObject = (\<lambda>s b k. (Inr (), s\<lparr>m3_objects := filter (\<lambda>e. fst e \<noteq> (b, k)) (m3_objects s)\<rparr>)),
     aws_HeadObject = (\<lambda>s b k. case m3_obj s b k of None \<Rightarrow> Inl aws_NotFound | Some c \<Rightarrow> Inr ()),
     aws_CopyObject = (\<lambda>s b k src. case url_unescape encodePath src of
        Inl e \<Rightarrow> (Inl e, s)
      | Inr x \<Rightarrow> (case m3_obj s (fst (str_cut CHR ''/'' x)) (snd (str_cut CHR ''/'' x)) of
          None \<Rightarrow> (Inl aws_NotFound, s)
        | Some c \<Rightarrow> (Inr (), s\<lparr>m3_objects := ((b, k), c) # m3_objects s\<rparr>))),
     aws_ListObjectsV2 = (\<lambda>s b p tok. Inr (m3_page (m3_list s b p tok))),
     aws_PresignGet = (\<lambda>s b k d. Inr (b @ ''/'' @ k @ ''?get'')),
     aws_PresignPut = (\<lambda>s b k ct d. Inr (b @ ''/'' @ k @ ''?put'')),
     aws_PresignUploadPart = (\<lambda>s b k u n md5 len d. Inr (b @ ''/'' @ k @ ''?partNumber='' @ itoa n)),
     aws_CreateMultipartUpload = (\<lambda>s b k ct. let u = nat_digits (m3_next s) in
        if map_of (m3_uploads s) (b, k, u) \<noteq> None then (Inl (Err ''InternalError''), s)
        else (Inr u, s\<lparr>m3_uploads := ((b, k, u), []) # m3_uploads s, m3_next := m3_next s + 1\<rparr>)),
     aws_UploadPart = (\<lambda>s b k u n c. case map_of (m3_uploads s) (b, k, u) of
        None \<Rightarrow> (Inl (Err ''NoSuchUpload''), s)
      | Some l \<Rightarrow> (if 1 \<le> n \<and> n \<le> 10000 then (Inr c, s\<lparr>m3_uploads := ((b, k, u), (n, c, c) # l) # m3_uploads s\<rparr>)
          else (Inl (Err ''InvalidArgument''), s))),
     aws_CompleteMultipartUpload = (\<lambda>s b k u gs. case m3_up s b k u of
        None \<Rightarrow> (Inl (Err ''NoSuchUpload''), s)
      | Some ps \<Rightarrow> (case given_parts gs of
          None \<Rightarrow> (Inl (Err ''MalformedXML''), s)
        | Some cs \<Rightarrow> (if \<not> sorted_wrt (<) (map cp_PartNumber cs) then (Inl (Err ''InvalidPartOrder''), s)
            else (case gather ps cs of
              None \<Rightarrow> (Inl (Err ''InvalidPart''), s)
            | Some c \<Rightarrow> (Inr (), s\<lparr>m3_objects := ((b, k), c) # m3_objects s,
                m3_uploads := filter (\<lambda>e. fst e \<noteq> (b, k, u)) (m3_uploads s)\<rparr>))))),
     aws_AbortMultipartUpload = (\<lambda>s b k u. (Inr (), s\<lparr>m3_uploads := filter (\<lambda>e. fst e \<noteq> (b, k, u)) (m3_uploads s)\<rparr>))\<rparr>"

lemma m3_keys_with: "set (m3_keys s b p) = keys_with m3_obj s b p"
proof -
  have "set (map (\<lambda>e. snd (fst e)) (filter (\<lambda>e. fst (fst e) = b \<and> has_prefix (snd (fst e)) p) l)) =
      {k. (b, k) \<in> fst ` set l \<and> has_prefix k p}" for l :: "((string \<times> string) \<times> string) list"
    by (induction l) auto
  moreover have "m3_obj s b k \<noteq> None \<longleftrightarrow> (b, k) \<in> fst ` set (m3_objects s)" for k
    by (simp add: m3_obj_def map_of_eq_None_iff)
  ultimately show ?thesis by (simp add: m3_keys_def keys_with_def)
qed

lemma set_m3_list: "set (m3_list s b p tok) = m3_left s b p tok"
  by (auto simp: m3_list_def m3_left_def m3_keys_with)

lemma m3_list_sorted: "sorted_wrt (<) (m3_list s b p tok)"
  by (simp add: m3_list_def strict_sorted_iff)

lemma m3_page_more:
  assumes "m3_page (m3_list s b p tok) = (ks, Some t)"
  shows "t \<noteq> [] \<and> ks \<noteq> [] \<and> m3_left s b p (Some t) = m3_left s b p tok - set ks"
proof -
  let ?l = "m3_list s b p tok"
  from assms have len: "2 < length ?l" and ks: "ks = take 2 ?l" and t: "t = CHR ''k'' # last ks"
    by (auto simp: m3_page_def split: if_splits)
  have ne: "ks \<noteq> []" using len ks by auto
  let ?m = "last ks"
  have m: "?m \<in> set ks" using ne by simp
  have le: "k \<le> ?m" if "k \<in> set ks" for k
  proof -
    have "sorted_wrt (<) (butlast ks @ [?m])" using m3_list_sorted [of s b p tok] ks ne by (simp add: sorted_wrt_take)
    moreover have "k \<in> set (butlast ks) \<or> k = ?m" using that ne by (metis append_butlast_last_id in_set_butlast_appendI rotate1.simps(2) set_ConsD set_rotate1)
    ultimately show ?thesis by (auto simp: sorted_wrt_append)
  qed
  have gt: "?m < k" if "k \<in> set (drop 2 ?l)" for k
  proof -
    have "sorted_wrt (<) (ks @ drop 2 ?l)" using m3_list_sorted [of s b p tok] ks by simp
    with m that show ?thesis by (auto simp: sorted_wrt_append)
  qed
  have split: "set ?l = set ks \<union> set (drop 2 ?l)" using ks by (metis append_take_drop_id set_append)
  have tok: "after_token tok k" if "?m < k" for k
  proof -
    have "after_token tok ?m" using m split set_m3_list [of s b p tok] by (auto simp: m3_left_def)
    with that show ?thesis by (auto simp: after_token_def split: option.splits)
  qed
  have "m3_left s b p (Some t) = {k \<in> set ?l. ?m < k}"
    using tok unfolding set_m3_list by (auto simp: m3_left_def after_token_def t)
  also have "\<dots> = set ?l - set ks" using split gt le by force
  finally show ?thesis using ne t set_m3_list by simp
qed

lemma source_plain_unescape:
  assumes "source_plain s"
  shows "url_unescape encodePath s = Inr s"
proof -
  have "CHR ''%'' \<notin> set s" using assms alnum_not [of "CHR ''%''"] by (auto simp: source_plain_def list_all_iff)
  then show ?thesis by (intro url_unescape_plain) simp_all
qed

lemma cut_first: "c \<notin> set a \<Longrightarrow> str_cut c (a @ c # b) = (a, b)"
  by (simp add: str_cut_def takeWhile_append dropWhile_append dropWhile_eq_Nil_conv)

lemma m3_frames [simp]: "m3_up (s\<lparr>m3_objects := x\<rparr>) = m3_up s" "m3_obj (s\<lparr>m3_uploads := y\<rparr>) = m3_obj s" "m3_obj (s\<lparr>m3_next := z\<rparr>) = m3_obj s"
  by (simp_all add: fun_eq_iff m3_up_def m3_obj_def)

lemmas mem_aws_simps = mem_aws_def m3_obj_def m3_up_def

interpretation mem_s3_objects: s3_store mem_aws m3_obj m3_up m3_left
proof
  show "by_number ps" if "m3_up s b k u = Some ps" for s b k u ps
    using that by_number_sort_parts by (auto simp: m3_up_def)
  show "m3_left s b p None = keys_with m3_obj s b p" for s b p by (simp add: m3_left_def after_token_def)
  show "m3_left s' b p tok = m3_left s b p tok" if "keys_with m3_obj s' b p = keys_with m3_obj s b p" for s s' b p tok
    using that by (simp add: m3_left_def)
  show "distinct ks \<and> set ks \<subseteq> m3_left s b p tok" if "aws_ListObjectsV2 mem_aws s b p tok = Inr (ks, nxt)" for s b p tok ks nxt
    using that set_m3_list [of s b p tok] m3_list_sorted [of s b p tok] in_set_takeD [of _ 2 "m3_list s b p tok"]
    by (auto simp: mem_aws_def m3_page_def strict_sorted_iff)
  show "set ks = m3_left s b p tok" if "aws_ListObjectsV2 mem_aws s b p tok = Inr (ks, None)" for s b p tok ks
    using that set_m3_list [of s b p tok] by (auto simp: mem_aws_def m3_page_def split: if_splits)
  show "t \<noteq> [] \<and> ks \<noteq> [] \<and> m3_left s b p (Some t) = m3_left s b p tok - set ks"
    if "aws_ListObjectsV2 mem_aws s b p tok = Inr (ks, Some t)" for s b p tok ks t
    using that by (intro m3_page_more) (simp add: mem_aws_def)
  show "m3_obj s sb src \<noteq> None \<and> m3_obj s' b k = m3_obj s sb src"
    if "aws_CopyObject mem_aws s b k (sb @ ''/'' @ src) = (Inr v, s')" "CHR ''/'' \<notin> set sb" "source_plain (sb @ ''/'' @ src)"
    for s b k sb src v s'
    using that source_plain_unescape [OF that(3)] cut_first [OF that(2), of src]
    by (auto simp: mem_aws_def m3_obj_def split: option.splits)
  show "m3_obj s' b k = m3_obj s b k \<or> m3_obj s' b k = m3_obj s sb src"
    if "aws_CopyObject mem_aws s b k (sb @ ''/'' @ src) = (w, s')" "CHR ''/'' \<notin> set sb" "source_plain (sb @ ''/'' @ src)"
    for s b k sb src w s'
    using that source_plain_unescape [OF that(3)] cut_first [OF that(2), of src]
    by (auto simp: mem_aws_def m3_obj_def split: option.splits)
qed (auto simp: mem_aws_simps map_of_drop_key Let_def aws_NotFound_def split: option.splits sum.splits if_splits)

end
