(* ===== verification/Go_Walk.thy ===== *)
theory Go_Walk
  imports Local_Copy
begin

text \<open>
  \<open>filepath.Rel\<close> and \<open>filepath.WalkDir\<close> on Unix, over the files of \<open>File_System\<close>. The callback gets the path, whether it is
  a directory, and the error of the listing or of the first look at the root; it works on a state of its own. It is not
  expected to return \<open>SkipDir\<close> or \<open>SkipAll\<close>. A listing that failed gives no entries.
\<close>

section \<open>Relative paths\<close>

fun strip_common :: "string list \<Rightarrow> string list \<Rightarrow> string list \<times> string list" where
  "strip_common (b # bs) (t # ts) = (if b = t then strip_common bs ts else (b # bs, t # ts))"
| "strip_common bs ts = (bs, ts)"

text \<open>Unlike the base, a target \<open>.\<close> keeps its dot. A base that still has to climb is an error, unless the target has ended.\<close>

definition Rel :: "string \<Rightarrow> string \<Rightarrow> string res" where
  "Rel basepath targpath =
     (if Clean targpath = Clean basepath then Inr ''.''
      else if fst (loc_of basepath) \<noteq> fst (loc_of targpath) then Inl (Err (''Rel: can't make '' @ targpath @ '' relative to '' @ basepath))
      else (let comps = (if Clean targpath = ''.'' then [''.''] else snd (loc_of targpath)) in
        case strip_common (snd (loc_of basepath)) comps of
          ([], ts) \<Rightarrow> Inr (join_strings ''/'' ts)
        | (b # bs, ts) \<Rightarrow>
            (if b = dotdot \<and> ts \<noteq> [] then Inl (Err (''Rel: can't make '' @ targpath @ '' relative to '' @ basepath))
             else Inr (join_strings ''/'' (map (\<lambda>_. dotdot) (b # bs) @ ts)))))"

lemma strip_common_append: "strip_common bs (bs @ ts) = ([], ts)"
  by (induction bs) (cases ts, auto)

lemma norm_rev_inj: "path_string a = path_string b \<Longrightarrow> normal a \<Longrightarrow> normal b \<Longrightarrow> a = b"
  by (metis loc_of_path_string)

text \<open>Below the base, the relative path is the names on the way.\<close>

lemma Rel_below:
  assumes "loc_of p = descend (loc_of base) rel" "\<forall>c\<in>set rel. is_name c"
  shows "Rel base p = Inr (path_string (False, rel))"
proof (cases "rel = []")
  case True
  with assms(1) show ?thesis by (simp add: Rel_def Clean_def path_string_def)
next
  case False
  have ne: "Clean p \<noteq> Clean base" using assms(1) False by (metis append_self_conv loc_of_Clean prod.collapse snd_conv)
  moreover have "Clean p \<noteq> ''.''"
  proof
    assume "Clean p = ''.''"
    moreover have "loc_of ''.'' = (False, [])" by (simp add: loc_of_def is_rooted_def clean_step_def)
    ultimately have "loc_of p = (False, [])" by (metis loc_of_Clean)
    with assms(1) False show False by simp
  qed
  ultimately show ?thesis using assms(1) False strip_common_append [of "snd (loc_of base)" rel]
    by (simp add: Rel_def path_string_def)
qed

section \<open>Walking\<close>

type_synonym 'a walk_fn = "string \<Rightarrow> bool \<Rightarrow> gerror option \<Rightarrow> 'a \<Rightarrow> unit res \<times> 'a"

fun walk_entries :: "(string \<Rightarrow> bool \<Rightarrow> 'a \<Rightarrow> (unit res \<times> 'a) option) \<Rightarrow> string \<Rightarrow> (string \<times> bool) list \<Rightarrow> 'a \<Rightarrow> (unit res \<times> 'a) option" where
  "walk_entries rec path [] a = Some (Inr (), a)"
| "walk_entries rec path (e # es) a = Option.bind (rec (Join path (fst e)) (snd e) a)
     (\<lambda>(r, a'). if is_ok r then walk_entries rec path es a' else Some (r, a'))"

lemma walk_entries_mono [partial_function_mono]:
  assumes "\<And>p d a. mono_option (\<lambda>g. B g p d a)"
  shows "mono_option (\<lambda>g. walk_entries (B g) path es a)"
proof (induction es arbitrary: a)
  case Nil
  show ?case by (simp add: option.const_mono)
next
  case (Cons e es)
  have "mono_option (\<lambda>g. case ra of (r, a') \<Rightarrow> if is_ok r then walk_entries (B g) path es a' else Some (r, a'))"
    for ra using Cons by (cases ra; cases "is_ok (fst ra)") (simp_all add: option.const_mono)
  then show ?case by (simp only: walk_entries.simps) (rule bind_mono, rule assms)
qed

partial_function (option) walk_dir :: "'f fs_ops \<Rightarrow> 'a walk_fn \<Rightarrow> 'f \<Rightarrow> string \<Rightarrow> bool \<Rightarrow> 'a \<Rightarrow> (unit res \<times> 'a) option" where
  "walk_dir F fn f path isDir a = (case fn path isDir None a of
     (Inl e, a') \<Rightarrow> Some (Inl e, a')
   | (Inr _, a') \<Rightarrow> (if \<not> isDir then Some (Inr (), a')
       else (case fs_readdir F f path of
           Inl e \<Rightarrow> Some (fn path isDir (Some e) a')
         | Inr es \<Rightarrow> walk_entries (\<lambda>p d b. walk_dir F fn f p d b) path es a')))"

declare walk_dir.simps [code]

definition WalkDir :: "'f fs_ops \<Rightarrow> 'a walk_fn \<Rightarrow> 'f \<Rightarrow> string \<Rightarrow> 'a \<Rightarrow> (unit res \<times> 'a) option" where
  "WalkDir F fn f root a = (case fs_stat F f root of
     Inl e \<Rightarrow> Some (fn root False (Some e) a)
   | Inr isDir \<Rightarrow> walk_dir F fn f root isDir a)"

section \<open>What a walk visits\<close>

text \<open>
  Below a root with finitely many nodes the walk ends. What it does is described by a relation \<open>R\<close> between the states of the
  callback, which every visit satisfies, and a property \<open>P\<close> of locations that the visit of a file achieves and later visits
  keep: \<open>walks\<close> says that a walk from a path stays in \<open>R\<close> and, when it succeeds, has achieved \<open>P\<close> for every file below.
\<close>

definition walks :: "('f \<Rightarrow> loc \<Rightarrow> fnode option) \<Rightarrow> ('a \<Rightarrow> 'a \<Rightarrow> bool) \<Rightarrow> (loc \<Rightarrow> 'a \<Rightarrow> bool) \<Rightarrow> 'f \<Rightarrow>
    (string \<Rightarrow> bool \<Rightarrow> 'a \<Rightarrow> (unit res \<times> 'a) option) \<Rightarrow> loc \<Rightarrow> bool" where
  "walks node R P f rec root \<longleftrightarrow> (\<forall>path n a r a'. rec path (n = Directory) a = Some (r, a') \<longrightarrow> path \<noteq> [] \<longrightarrow> below root (loc_of path) \<longrightarrow>
     node f (loc_of path) = Some n \<longrightarrow>
     R a a' \<and> (is_ok r \<longrightarrow> (\<forall>rel c. file_below node f (loc_of path) rel c \<longrightarrow> P (descend (loc_of path) rel) a')))"

lemma walksD:
  assumes "walks node R P f rec root" "rec path (n = Directory) a = Some (r, a')" "path \<noteq> []" "below root (loc_of path)" "node f (loc_of path) = Some n"
  shows "R a a'" "is_ok r \<Longrightarrow> file_below node f (loc_of path) rel c \<Longrightarrow> P (descend (loc_of path) rel) a'"
  using assms unfolding walks_def by blast+

text \<open>What is asked of the callback.\<close>

definition visits :: "('f \<Rightarrow> loc \<Rightarrow> fnode option) \<Rightarrow> ('a \<Rightarrow> 'a \<Rightarrow> bool) \<Rightarrow> (loc \<Rightarrow> 'a \<Rightarrow> bool) \<Rightarrow> 'f \<Rightarrow> 'a walk_fn \<Rightarrow> loc \<Rightarrow> bool" where
  "visits node R P f fn root \<longleftrightarrow> (\<forall>a. R a a) \<and> (\<forall>a b c. R a b \<longrightarrow> R b c \<longrightarrow> R a c) \<and> (\<forall>l a b. P l a \<longrightarrow> R a b \<longrightarrow> P l b) \<and>
     (\<forall>p d e a. \<not> is_ok (fst (fn p d (Some e) a)) \<and> R a (snd (fn p d (Some e) a))) \<and>
     (\<forall>p n a r a'. fn p (n = Directory) None a = (r, a') \<longrightarrow> p \<noteq> [] \<longrightarrow> below root (loc_of p) \<longrightarrow> node f (loc_of p) = Some n \<longrightarrow>
       R a a' \<and> (is_ok r \<longrightarrow> n \<noteq> Directory \<longrightarrow> P (loc_of p) a'))"

lemma visitsD:
  assumes "visits node R P f fn root"
  shows "R a a" "R a b \<Longrightarrow> R b c \<Longrightarrow> R a c" "P l a \<Longrightarrow> R a b \<Longrightarrow> P l b"
    "\<not> is_ok (fst (fn p d (Some e) a))" "R a (snd (fn p d (Some e) a))"
    "fn p (n = Directory) None a = (r, a') \<Longrightarrow> p \<noteq> [] \<Longrightarrow> below root (loc_of p) \<Longrightarrow> node f (loc_of p) = Some n \<Longrightarrow> R a a'"
    "fn p (n = Directory) None a = (r, a') \<Longrightarrow> p \<noteq> [] \<Longrightarrow> below root (loc_of p) \<Longrightarrow> node f (loc_of p) = Some n \<Longrightarrow> is_ok r \<Longrightarrow>
       n \<noteq> Directory \<Longrightarrow> P (loc_of p) a'"
  using assms unfolding visits_def by blast+

context file_system
begin

lemma walk_entries_returns:
  assumes "\<And>e b. e \<in> set es \<Longrightarrow> \<exists>y. rec (Join path (fst e)) (snd e) b = Some y"
  shows "\<exists>y. walk_entries rec path es a = Some y"
  using assms
proof (induction es arbitrary: a)
  case (Cons e es)
  obtain r a' where 1: "rec (Join path (fst e)) (snd e) a = Some (r, a')" using Cons.prems [of e a] by auto
  show ?case using 1 Cons.IH [of a'] Cons.prems by (cases "is_ok r") auto
qed simp

lemma walk_dir_returns:
  assumes "finite {l. below (loc_of path) l \<and> node f l \<noteq> None}" "path \<noteq> []"
  shows "\<exists>y. walk_dir F fn f path isDir a = Some y"
  using assms
proof (induction "card {l. below (loc_of path) l \<and> node f l \<noteq> None}" arbitrary: path isDir a rule: less_induct)
  case less
  show ?case
  proof (cases "fs_readdir F f path")
    case (Inl e)
    then show ?thesis by (subst walk_dir.simps) (auto split: prod.splits sum.splits)
  next
    case (Inr es)
    have "\<exists>y. walk_dir F fn f (Join path (fst e)) (snd e) b = Some y" if e: "e \<in> set es" for e b
    proof -
      have nm: "is_name (fst e)" using readdir_names [OF Inr] e by blast
      note loc = Join_name_loc [OF less.prems(2) nm]
      have sub: "{l. below (loc_of (Join path (fst e))) l \<and> node f l \<noteq> None} \<subset> {l. below (loc_of path) l \<and> node f l \<noteq> None}"
      proof
        show "{l. below (loc_of (Join path (fst e))) l \<and> node f l \<noteq> None} \<subseteq> {l. below (loc_of path) l \<and> node f l \<noteq> None}"
          using below_trans [OF below_child [OF nm, of "loc_of path"]] by (auto simp: loc)
        have "node f (loc_of path) \<noteq> None" using readdir_ok [OF Inr] by simp
        moreover have "\<not> below (loc_of (Join path (fst e))) (loc_of path)" by (auto simp: loc below_def)
        ultimately show "{l. below (loc_of (Join path (fst e))) l \<and> node f l \<noteq> None} \<noteq> {l. below (loc_of path) l \<and> node f l \<noteq> None}"
          by (metis (mono_tags, lifting) below_refl mem_Collect_eq)
      qed
      show ?thesis using less.prems by (intro less.hyps psubset_card_mono sub finite_subset [OF psubset_imp_subset [OF sub]]) auto
    qed
    then have "\<exists>y. walk_entries (\<lambda>p d b. walk_dir F fn f p d b) path es a' = Some y" for a' by (intro walk_entries_returns) blast
    with Inr show ?thesis by (subst walk_dir.simps) (auto split: prod.splits sum.splits)
  qed
qed

lemma WalkDir_returns:
  assumes "finite {l. below (loc_of root) l \<and> node f l \<noteq> None}" "root \<noteq> []"
  shows "\<exists>r a'. WalkDir F fn f root a = Some (r, a')"
  using walk_dir_returns [OF assms] by (cases "fs_stat F f root"; cases "fn root False (Some (projl (fs_stat F f root))) a") (auto simp: WalkDir_def)

lemma walk_entries_visits:
  assumes "visits node R P f fn root" "walks node R P f rec root" "path \<noteq> []" "below root (loc_of path)"
    and "walk_entries rec path es a = Some (r, a')" "distinct (map fst es)"
    and "\<forall>e\<in>set es. is_name (fst e) \<and> (\<exists>n. node f (child (loc_of path) (fst e)) = Some n \<and> snd e = (n = Directory))"
  shows "R a a' \<and> (is_ok r \<longrightarrow> (\<forall>e\<in>set es. \<forall>rel c. file_below node f (child (loc_of path) (fst e)) rel c \<longrightarrow>
    P (descend (child (loc_of path) (fst e)) rel) a'))"
  using assms(5-)
proof (induction es arbitrary: a)
  case Nil
  then show ?case using visitsD(1) [OF assms(1)] by simp
next
  case (Cons e es)
  obtain r1 a1 where 1: "rec (Join path (fst e)) (snd e) a = Some (r1, a1)"
    and 2: "if is_ok r1 then walk_entries rec path es a1 = Some (r, a') else r = r1 \<and> a' = a1"
    using Cons.prems(1) by (auto simp: bind_eq_Some_conv split: if_splits)
  obtain n where n: "is_name (fst e)" "node f (child (loc_of path) (fst e)) = Some n" "snd e = (n = Directory)"
    using Cons.prems(3) by auto
  note loc = Join_name_loc [OF assms(3) n(1)]
  have b: "below root (loc_of (Join path (fst e)))" using below_trans [OF assms(4) below_child [OF n(1)]] by (simp add: loc)
  have at: "node f (loc_of (Join path (fst e))) = Some n" using n(2) by (simp add: loc)
  note w = walksD [OF assms(2) 1 [unfolded n(3)] Join_nonempty [OF assms(3)] b at]
  show ?case
  proof (cases "is_ok r1")
    case True
    with 2 have rest: "walk_entries rec path es a1 = Some (r, a')" by simp
    have ih: "R a1 a' \<and> (is_ok r \<longrightarrow> (\<forall>e\<in>set es. \<forall>rel c. file_below node f (child (loc_of path) (fst e)) rel c \<longrightarrow>
        P (descend (child (loc_of path) (fst e)) rel) a'))"
      using Cons.prems(2,3) by (intro Cons.IH [OF rest]) auto
    have "P (descend (child (loc_of path) (fst e)) rel) a'" if "file_below node f (child (loc_of path) (fst e)) rel c" for rel c
      using visitsD(3) [OF assms(1) w(2) [OF True] conjunct1 [OF ih]] that by (simp add: loc)
    with ih visitsD(2) [OF assms(1) w(1)] show ?thesis by auto
  qed (use 2 w(1) in simp)
qed

lemma walk_body_visits:
  assumes v: "visits node R P f fn root" and rec: "walks node R P f rec root"
    and body: "(case fn path (n = Directory) None a of
     (Inl e, a') \<Rightarrow> Some (Inl e, a')
   | (Inr _, a') \<Rightarrow> (if \<not> (n = Directory) then Some (Inr (), a')
       else (case fs_readdir F f path of
           Inl e \<Rightarrow> Some (fn path (n = Directory) (Some e) a')
         | Inr es \<Rightarrow> walk_entries (\<lambda>p d b. rec p d b) path es a'))) = Some (r, a')"
    and at: "path \<noteq> []" "below root (loc_of path)" "node f (loc_of path) = Some n"
  shows "R a a' \<and> (is_ok r \<longrightarrow> (\<forall>rel c. file_below node f (loc_of path) rel c \<longrightarrow> P (descend (loc_of path) rel) a'))"
proof -
  obtain r1 a1 where 1: "fn path (n = Directory) None a = (r1, a1)" by (cases "fn path (n = Directory) None a")
  note R1 = visitsD(6) [OF v 1 at]
  consider (stop) "r = r1" "a' = a1" "\<not> is_ok r1" | (plain) c where "n = File c" "is_ok r1" "a' = a1"
    | (err) e where "n = Directory" "fs_readdir F f path = Inl e" "fn path True (Some e) a1 = (r, a')"
    | (dir) es where "n = Directory" "fs_readdir F f path = Inr es" "walk_entries rec path es a1 = Some (r, a')"
    using body 1 by (cases r1; cases n; cases "fs_readdir F f path") auto
  then show ?thesis
  proof cases
    case (plain c)
    have "P (loc_of path) a1" using visitsD(7) [OF v 1 at plain(2)] plain(1) by simp
    moreover have "rel = []" if "file_below node f (loc_of path) rel c'" for rel c'
      using that at(3) plain(1) by (cases rel) (auto simp: file_below_Cons)
    ultimately show ?thesis using R1 plain(3) by fastforce
  next
    case (err e)
    then show ?thesis using visitsD(4,5) [OF v, where p = path and d = True and e = e and a = a1] visitsD(2) [OF v R1] by simp
  next
    case (dir es)
    note es = readdir_ok [OF dir(2)]
    have ok: "\<forall>e\<in>set es. is_name (fst e) \<and> (\<exists>n. node f (child (loc_of path) (fst e)) = Some n \<and> snd e = (n = Directory))"
      using es by auto
    from walk_entries_visits [OF v rec at(1,2) dir(3) _ ok] es
    have w: "R a1 a'" "is_ok r \<Longrightarrow> e \<in> set es \<Longrightarrow> file_below node f (child (loc_of path) (fst e)) rel c \<Longrightarrow>
      P (descend (child (loc_of path) (fst e)) rel) a'" for e rel c by blast+
    have "P (descend (loc_of path) rel) a'" if ok: "is_ok r" and fb: "file_below node f (loc_of path) rel c" for rel c
    proof -
      obtain nm rel' where rel: "rel = nm # rel'" using fb at(3) dir(1) by (cases rel) auto
      with fb have nm: "is_name nm" "file_below node f (child (loc_of path) nm) rel' c" by (auto simp: file_below_Cons)
      then obtain m where "node f (child (loc_of path) nm) = Some m" by (cases rel') (auto simp: file_below_Cons)
      with es nm(1) have "(nm, m = Directory) \<in> set es" by blast
      from w(2) [OF ok this] nm(2) rel show ?thesis by simp
    qed
    then show ?thesis using visitsD(2) [OF v R1 w(1)] by blast
  qed (use R1 in simp)
qed

lemma walks_walk_dir:
  assumes v: "visits node R P f fn root"
  shows "walks node R P f (walk_dir F fn f) root"
proof -
  have "G = F \<longrightarrow> h = fn \<longrightarrow> g = f \<longrightarrow> (\<forall>n. d = (n = Directory) \<longrightarrow> path \<noteq> [] \<longrightarrow> below root (loc_of path) \<longrightarrow> node f (loc_of path) = Some n \<longrightarrow>
      R a (snd y) \<and> (is_ok (fst y) \<longrightarrow> (\<forall>rel c. file_below node f (loc_of path) rel c \<longrightarrow> P (descend (loc_of path) rel) (snd y))))"
    (is "?P G h g path d a y")
    if "walk_dir G h g path d a = Some y" for G h g path d a y
    using that
  proof (rule walk_dir.raw_induct [of ?P, rotated])
    fix rec G h g path d a y
    assume IH: "\<And>G h g path d a y. rec G h g path d a = Some y \<Longrightarrow> ?P G h g path d a y"
      and body: "(case h path d None a of
        (Inl e, a') \<Rightarrow> Some (Inl e, a')
      | (Inr _, a') \<Rightarrow> (if \<not> d then Some (Inr (), a')
          else (case fs_readdir G g path of
              Inl e \<Rightarrow> Some (h path d (Some e) a')
            | Inr es \<Rightarrow> walk_entries (\<lambda>p d b. rec G h g p d b) path es a'))) = Some y"
    have rec: "walks node R P f (rec F fn f) root" unfolding walks_def using IH [of F fn f] by fastforce
    show "?P G h g path d a y"
      using body walk_body_visits [OF v rec, where path = path and a = a and r = "fst y" and a' = "snd y"] by auto
  qed
  then show ?thesis unfolding walks_def by fastforce
qed

lemma WalkDir_visits:
  assumes "visits node R P f fn (loc_of root)" "root \<noteq> []" "WalkDir F fn f root a = Some (r, a')"
  shows "R a a' \<and> (is_ok r \<longrightarrow> (\<forall>rel c. file_below node f (loc_of root) rel c \<longrightarrow> P (descend (loc_of root) rel) a'))"
proof (cases "fs_stat F f root")
  case (Inl e)
  then show ?thesis using visitsD(4,5) [OF assms(1), where p = root and d = False and e = e and a = a] assms(3) by (simp add: WalkDir_def)
next
  case (Inr d)
  from stat_ok [OF this] obtain n where n: "node f (loc_of root) = Some n" "d = (n = Directory)" by blast
  with Inr assms(3) have "walk_dir F fn f root (n = Directory) a = Some (r, a')" by (simp add: WalkDir_def)
  from walksD [OF walks_walk_dir [OF assms(1)] this assms(2) below_refl n(1)] show ?thesis by blast
qed

end

end
