(* ===== verification/S3_Storage.thy ===== *)
theory S3_Storage
  imports S3_Client Go_Walk
begin

text \<open>
  The S3 storage (\<open>storage/s3.go\<close>), over the service of \<open>S3_Client\<close>. A nil pointer among the inputs is \<open>None\<close>; an outer
  \<open>None\<close> is a panic in \<open>s3_GeneratePresignedURL\<close> and a loop that does not end in the copying and uploading of directories.
  \<open>mime\<close> is \<open>mime.TypeByExtension\<close>, which reads the tables of the host.
\<close>

section \<open>Client\<close>

record S3Fs =
  s3_opt :: StorageOption
  s3_cfg :: S3StorageConfig

abbreviation s3_bucket :: "S3Fs \<Rightarrow> string" where
  "s3_bucket c \<equiv> s3_Bucket (s3_cfg c)"

text \<open>\<open>load\<close> is the SDK's \<open>LoadDefaultConfig\<close>, by region, key and secret, of which only the error matters here.\<close>

definition NewS3Fs :: "'o aws_ops \<Rightarrow> (string \<Rightarrow> string \<Rightarrow> string \<Rightarrow> gerror option) \<Rightarrow> S3StorageConfig \<Rightarrow> StorageOption \<Rightarrow> 'o \<Rightarrow> S3Fs res" where
  "NewS3Fs S load cfg opt s = (if s3_Bucket cfg = [] then Inl (Err ''configuration bucket error'')
     else (let s3fs = \<lparr>s3_opt = opt, s3_cfg = cfg\<rparr> in
       case load (s3_Region cfg) (s3_AccessKeyID cfg) (s3_SecretAccessKey cfg) of
         Some e \<Rightarrow> Inl e
       | None \<Rightarrow> (case aws_HeadBucket S s (s3_Bucket cfg) of Inl e \<Rightarrow> Inl e | Inr _ \<Rightarrow> Inr s3fs)))"

section \<open>Objects\<close>

definition s3_GetPublicURL :: "S3Fs \<Rightarrow> string \<Rightarrow> bool \<Rightarrow> string" where
  "s3_GetPublicURL c storagePath temp = (if storagePath = [] then []
     else case url_Parse (s3_EndPoint (s3_cfg c)) of
       Inl _ \<Rightarrow> storagePath
     | Inr u \<Rightarrow>
         (if s3_UsePathStyle (s3_cfg c) then
            (case url_JoinPath (u_Scheme u @ ''://'' @ u_Host u) [s3_bucket c, storagePath] of
               Inl _ \<Rightarrow> storagePath | Inr public_url \<Rightarrow> public_url)
          else (case url_JoinPath (u_Scheme u @ ''://'' @ s3_bucket c @ ''.'' @ u_Host u) [storagePath] of
               Inl _ \<Rightarrow> storagePath | Inr public_url \<Rightarrow> public_url)))"

definition s3_Save :: "'o aws_ops \<Rightarrow> S3Fs \<Rightarrow> (string \<Rightarrow> string) \<Rightarrow> FileInfo \<Rightarrow> reader option \<Rightarrow> 'o \<Rightarrow> FileInfo res \<times> 'o" where
  "s3_Save S c mime fi r s = (if fi_StoragePath fi = [] then (Inl (Err ''storage path is empty''), s)
     else case r of
       None \<Rightarrow> (Inl (Err ''reader is empty''), s)
     | Some b \<Rightarrow> (case aws_Upload S s (s3_bucket c) (fi_StoragePath fi) b (mime (fi_FileExt fi)) of
         (Inl e, s') \<Rightarrow> (Inl e, s')
       | (Inr _, s') \<Rightarrow> (Inr (fi\<lparr>fi_PublicURL := s3_GetPublicURL c (fi_StoragePath fi) False\<rparr>), s')))"

definition s3_GetPresignedURL :: "'o aws_ops \<Rightarrow> S3Fs \<Rightarrow> string \<Rightarrow> string \<Rightarrow> 'o \<Rightarrow> string res" where
  "s3_GetPresignedURL S c method storagePath s =
     (if method = ''GET'' then aws_PresignGet S s (s3_bucket c) storagePath (so_PresignedTimeout (s3_opt c))
      else if method = ''PUT'' then aws_PresignPut S s (s3_bucket c) storagePath None (so_PresignedTimeout (s3_opt c))
      else Inl (Err (''only GET and PUT are allowed,now: '' @ method)))"

definition s3_ReadFile :: "'o aws_ops \<Rightarrow> S3Fs \<Rightarrow> string \<Rightarrow> 'o \<Rightarrow> string res" where
  "s3_ReadFile S c storagePath s = (if storagePath = [] then Inl (Err ''storage path is empty'')
     else aws_GetObject S s (s3_bucket c) storagePath)"

definition s3_DeleteFile :: "'o aws_ops \<Rightarrow> S3Fs \<Rightarrow> string \<Rightarrow> 'o \<Rightarrow> unit res \<times> 'o" where
  "s3_DeleteFile S c storagePath s = (if storagePath = [] then (Inl (Err ''storage path is empty''), s)
     else (case aws_DeleteObject S s (s3_bucket c) storagePath of (Inl e, s') \<Rightarrow> (Inl e, s') | (Inr _, s') \<Rightarrow> (Inr (), s')))"

section \<open>Copying\<close>

definition s3_isDirectory :: "'o aws_ops \<Rightarrow> S3Fs \<Rightarrow> string \<Rightarrow> 'o \<Rightarrow> bool res" where
  "s3_isDirectory S c storagePath s = (case aws_HeadObject S s (s3_bucket c) storagePath of
     Inl e \<Rightarrow> (if errors_is e aws_NotFound then Inr True else Inl e)
   | Inr _ \<Rightarrow> Inr False)"

definition s3_copyObject :: "'o aws_ops \<Rightarrow> S3Fs \<Rightarrow> string \<Rightarrow> string \<Rightarrow> 'o \<Rightarrow> unit res \<times> 'o" where
  "s3_copyObject S c sourceKey destKey s = (if sourceKey = destKey then (Inr (), s)
     else (case aws_CopyObject S s (s3_bucket c) destKey (s3_bucket c @ ''/'' @ sourceKey) of
         (Inl e, s') \<Rightarrow> (Inl (Wrapf (''copy object '' @ sourceKey @ '' to '' @ destKey @ '' error'') e), s')
       | (Inr _, s') \<Rightarrow> (Inr (), s')))"

text \<open>One page of the listing.\<close>

fun s3_copy_page :: "'o aws_ops \<Rightarrow> S3Fs \<Rightarrow> string \<Rightarrow> string \<Rightarrow> string list \<Rightarrow> 'o \<Rightarrow> unit res \<times> 'o" where
  "s3_copy_page S c sourcePrefix destPrefix [] s = (Inr (), s)"
| "s3_copy_page S c sourcePrefix destPrefix (key # keys) s =
     (let destKey = Join destPrefix (trim_prefix key sourcePrefix) in
      if destKey = destPrefix then s3_copy_page S c sourcePrefix destPrefix keys s
      else (case s3_copyObject S c key destKey s of
          (Inl e, s') \<Rightarrow> (Inl e, s')
        | (Inr _, s') \<Rightarrow> s3_copy_page S c sourcePrefix destPrefix keys s'))"

text \<open>
  The loop over the SDK's paginator: it has more pages before the first one is read, and then as long as the last page
  came with a token.
\<close>

definition HasMorePages :: "bool \<Rightarrow> string option \<Rightarrow> bool" where
  "HasMorePages first tok \<longleftrightarrow> first \<or> (case tok of None \<Rightarrow> False | Some t \<Rightarrow> t \<noteq> [])"

partial_function (option) s3_copy_pages ::
  "'o aws_ops \<Rightarrow> S3Fs \<Rightarrow> string \<Rightarrow> string \<Rightarrow> bool \<Rightarrow> string option \<Rightarrow> 'o \<Rightarrow> (unit res \<times> 'o) option" where
  "s3_copy_pages S c sourcePrefix destPrefix first tok s =
     (if HasMorePages first tok then
        (case aws_ListObjectsV2 S s (s3_bucket c) sourcePrefix tok of
           Inl e \<Rightarrow> Some (Inl (Wrapf ''list objects error'' e), s)
         | Inr (keys, nxt) \<Rightarrow>
             (case s3_copy_page S c sourcePrefix destPrefix keys s of
                (Inl e, s') \<Rightarrow> Some (Inl e, s')
              | (Inr _, s') \<Rightarrow> s3_copy_pages S c sourcePrefix destPrefix False nxt s'))
      else Some (Inr (), s))"

declare s3_copy_pages.simps [code]

definition s3_copyDirectory :: "'o aws_ops \<Rightarrow> S3Fs \<Rightarrow> string \<Rightarrow> string \<Rightarrow> 'o \<Rightarrow> (unit res \<times> 'o) option" where
  "s3_copyDirectory S c sourcePrefix destPrefix s = s3_copy_pages S c sourcePrefix destPrefix True None s"

definition s3_CopyDir :: "'o aws_ops \<Rightarrow> S3Fs \<Rightarrow> string \<Rightarrow> string \<Rightarrow> 'o \<Rightarrow> (unit res \<times> 'o) option" where
  "s3_CopyDir S c storagePath dest s =
     (if storagePath = [] then Some (Inl (Err ''source storage path is empty''), s)
      else if dest = [] then Some (Inl (Err ''destination storage path is empty''), s)
      else case s3_isDirectory S c storagePath s of
        Inl e \<Rightarrow> Some (Inl (Wrapf ''check source path error'' e), s)
      | Inr isDir \<Rightarrow> (if isDir then s3_copyDirectory S c storagePath dest s else Some (s3_copyObject S c storagePath dest s)))"

section \<open>Uploading a directory\<close>

text \<open>The callback of the walk: the paths uploaded so far and the store are its state.\<close>

definition s3_upload_visit :: "'o aws_ops \<Rightarrow> S3Fs \<Rightarrow> (string \<Rightarrow> string) \<Rightarrow> 'f fs_ops \<Rightarrow> string \<Rightarrow> string \<Rightarrow> 'f \<Rightarrow> (string list \<times> 'o) walk_fn" where
  "s3_upload_visit S c mime F localDirPath destDir f filePath isDir err = (\<lambda>(uploadedPaths, s). case err of
     Some e \<Rightarrow> (Inl (Wrapf (''error accessing path '' @ filePath) e), uploadedPaths, s)
   | None \<Rightarrow> (if isDir then (Inr (), uploadedPaths, s)
       else case Rel localDirPath filePath of
         Inl e \<Rightarrow> (Inl (Wrapf (''failed to get relative path for '' @ filePath) e), uploadedPaths, s)
       | Inr relPath \<Rightarrow>
           (let storagePath = Join destDir relPath; fileExt = Ext filePath in
            case fs_open F f filePath of
              Inl e \<Rightarrow> (Inl (Wrapf (''failed to open file '' @ filePath) e), uploadedPaths, s)
            | Inr _ \<Rightarrow>
                (case s3_Save S c mime (zero_file\<lparr>fi_StoragePath := storagePath, fi_FileExt := fileExt\<rparr>) (Some (fs_read F f filePath)) s of
                   (Inl e, s') \<Rightarrow> (Inl (Wrapf (''failed to upload file '' @ filePath @ '' to '' @ storagePath) e), uploadedPaths, s')
                 | (Inr _, s') \<Rightarrow> (Inr (), uploadedPaths @ [storagePath], s')))))"

definition s3_UploadDirectory :: "'o aws_ops \<Rightarrow> S3Fs \<Rightarrow> (string \<Rightarrow> string) \<Rightarrow> 'f fs_ops \<Rightarrow> string \<Rightarrow> string \<Rightarrow> 'f \<Rightarrow> 'o \<Rightarrow>
    (string list res \<times> 'o) option" where
  "s3_UploadDirectory S c mime F localDirPath destDir f s =
     (if localDirPath = [] then Some (Inl (Err ''local directory path is empty''), s)
      else map_option (\<lambda>(r, uploadedPaths, s'). (case r of Inl e \<Rightarrow> Inl e | Inr _ \<Rightarrow> Inr uploadedPaths, s'))
        (WalkDir F (s3_upload_visit S c mime F localDirPath destDir f) f localDirPath ([], s)))"

section \<open>Multipart calls\<close>

text \<open>\<open>int32(n)\<close>.\<close>

definition to_int32 :: "int \<Rightarrow> int" where
  "to_int32 n = (n + 2 ^ 31) mod 2 ^ 32 - 2 ^ 31"

definition s3_getBucketName :: "S3Fs \<Rightarrow> string option \<Rightarrow> string" where
  "s3_getBucketName c bucket = (case bucket of Some b \<Rightarrow> (if b \<noteq> [] then b else s3_bucket c) | None \<Rightarrow> s3_bucket c)"

definition s3_CreateMultipartUpload :: "'o aws_ops \<Rightarrow> S3Fs \<Rightarrow> CreateMultipartUploadInput option \<Rightarrow> 'o \<Rightarrow> string res \<times> 'o" where
  "s3_CreateMultipartUpload S c inp s = (case inp of
     Some i \<Rightarrow> (case ci_StoragePath i of
       Some p \<Rightarrow> (if p = [] then (Inl (Err ''storage path is empty''), s)
         else aws_CreateMultipartUpload S s (s3_getBucketName c (ci_Bucket i)) p (ci_ContentType i))
     | None \<Rightarrow> (Inl (Err ''storage path is empty''), s))
   | None \<Rightarrow> (Inl (Err ''storage path is empty''), s))"

text \<open>The part number is dereferenced without a check.\<close>

definition s3_GeneratePresignedURL :: "'o aws_ops \<Rightarrow> S3Fs \<Rightarrow> GeneratePresignedURLInput option \<Rightarrow> 'o \<Rightarrow> string res option" where
  "s3_GeneratePresignedURL S c inp s = (case inp of
     Some i \<Rightarrow> (case gi_StoragePath i of
       Some p \<Rightarrow> (let method = (case gi_Method i of None \<Rightarrow> [] | Some m \<Rightarrow> m); b = s3_getBucketName c (gi_Bucket i);
             expires = so_PresignedTimeout (s3_opt c) in
         if method = ''GET'' then Some (aws_PresignGet S s b p expires)
         else if method = ''PUT'' then
           (case gi_UploadID i of
              Some u \<Rightarrow> (if u = [] then Some (aws_PresignPut S s b p (gi_ContentType i) expires)
                else (case gi_PartNumber i of
                    None \<Rightarrow> None
                  | Some n \<Rightarrow> Some (aws_PresignUploadPart S s b p u (to_int32 n) (gi_ContentMD5 i) (gi_ContentLength i) expires)))
            | None \<Rightarrow> Some (aws_PresignPut S s b p (gi_ContentType i) expires))
         else Some (Inl (Err (''only GET and PUT are allowed,now: '' @ method))))
     | None \<Rightarrow> Some (Inl (Err ''storagePath, uploadID or partNumber is nil'')))
   | None \<Rightarrow> Some (Inl (Err ''storagePath, uploadID or partNumber is nil'')))"

definition s3_UploadPart :: "'o aws_ops \<Rightarrow> S3Fs \<Rightarrow> UploadPartInput option \<Rightarrow> 'o \<Rightarrow> string res \<times> 'o" where
  "s3_UploadPart S c inp s = (case inp of
     Some i \<Rightarrow> (case (pi_StoragePath i, pi_UploadID i, pi_PartNumber i) of
       (Some p, Some u, Some n) \<Rightarrow> (case pi_Data i of
           None \<Rightarrow> (Inl (Err ''reader is empty''), s)
         | Some b \<Rightarrow> aws_UploadPart S s (s3_getBucketName c (pi_Bucket i)) p u (to_int32 n) b)
     | _ \<Rightarrow> (Inl (Err ''storagePath, uploadID or partNumber is nil''), s))
   | None \<Rightarrow> (Inl (Err ''storagePath, uploadID or partNumber is nil''), s))"

definition s3_CompleteMultipartUpload :: "'o aws_ops \<Rightarrow> S3Fs \<Rightarrow> CompleteMultipartUploadInput option \<Rightarrow> 'o \<Rightarrow> unit res \<times> 'o" where
  "s3_CompleteMultipartUpload S c inp s = (case inp of
     Some i \<Rightarrow> (case (mi_StoragePath i, mi_UploadID i, mi_Parts i) of
       (Some p, Some u, Some cs) \<Rightarrow> aws_CompleteMultipartUpload S s (s3_getBucketName c (mi_Bucket i)) p u cs
     | _ \<Rightarrow> (Inl (Err ''storagePath, uploadID or parts is nil''), s))
   | None \<Rightarrow> (Inl (Err ''storagePath, uploadID or parts is nil''), s))"

definition s3_AbortMultipartUpload :: "'o aws_ops \<Rightarrow> S3Fs \<Rightarrow> AbortMultipartUploadInput option \<Rightarrow> 'o \<Rightarrow> unit res \<times> 'o" where
  "s3_AbortMultipartUpload S c inp s = (case inp of
     Some i \<Rightarrow> (case (ai_StoragePath i, ai_UploadID i) of
       (Some p, Some u) \<Rightarrow> aws_AbortMultipartUpload S s (s3_getBucketName c (ai_Bucket i)) p u
     | _ \<Rightarrow> (Inl (Err ''storagePath or uploadID is nil''), s))
   | None \<Rightarrow> (Inl (Err ''storagePath or uploadID is nil''), s))"

end
