(* ===== verification/S3_Correct.thy ===== *)
theory S3_Correct
  imports S3_Storage Cos_Copy
begin

text \<open>
  What the S3 storage does with objects: the public address of a key, copying of all objects with a prefix over any
  number of pages, uploading of a directory tree, and multipart uploads.
\<close>

section \<open>Copying\<close>

lemma to_int32_wraps: "to_int32 (n + 2 ^ 32) = to_int32 n"
proof -
  have "(n + 2 ^ 32 + 2 ^ 31) mod 2 ^ 32 = (n + 2 ^ 31) mod (2 ^ 32 :: int)"
    using mod_add_self2 [of "n + 2 ^ 31" "2 ^ 32 :: int"] by (simp add: algebra_simps)
  then show ?thesis by (simp add: to_int32_def)
qed

lemma to_int32_small: "1 \<le> n \<Longrightarrow> n \<le> 10000 \<Longrightarrow> to_int32 n = n"
  by (simp add: to_int32_def)

text \<open>What the copies of a listing are: the keys \<open>K\<close>, all with the prefix \<open>p\<close>, go to \<open>g\<close>, none of them into the prefix again.\<close>

definition copy_plan :: "string \<Rightarrow> string \<Rightarrow> string \<Rightarrow> string set \<Rightarrow> (string \<Rightarrow> string) \<Rightarrow> bool" where
  "copy_plan b p d K g \<longleftrightarrow> inj_on g K \<and> CHR ''/'' \<notin> set b \<and>
     (\<forall>k\<in>K. has_prefix k p \<and> source_plain (b @ ''/'' @ k) \<and> g k = Join d (trim_prefix k p) \<and> \<not> has_prefix (g k) p)"

lemma copy_planD:
  assumes "copy_plan b p d K g"
  shows "inj_on g K" "CHR ''/'' \<notin> set b" "k \<in> K \<Longrightarrow> has_prefix k p" "k \<in> K \<Longrightarrow> source_plain (b @ ''/'' @ k)"
    "k \<in> K \<Longrightarrow> g k = Join d (trim_prefix k p)" "k \<in> K \<Longrightarrow> \<not> has_prefix (g k) p"
  using assms unfolding copy_plan_def by blast+

context s3_store
begin

lemma s3_copyObject_ok:
  assumes "s3_copyObject S c k d s = (r, s')" "CHR ''/'' \<notin> set (s3_bucket c)" "source_plain (s3_bucket c @ ''/'' @ k)"
  shows "x \<noteq> d \<Longrightarrow> obj s' (s3_bucket c) x = obj s (s3_bucket c) x" "is_ok r \<Longrightarrow> obj s' (s3_bucket c) d = obj s (s3_bucket c) k"
    "obj s' (s3_bucket c) d = obj s (s3_bucket c) d \<or> obj s' (s3_bucket c) d = obj s (s3_bucket c) k"
proof -
  let ?b = "s3_bucket c"
  have "(k \<noteq> d \<longrightarrow> obj s' ?b = (obj s ?b)(d := obj s' ?b d)) \<and> (k = d \<longrightarrow> s' = s) \<and> (is_ok r \<longrightarrow> obj s' ?b d = obj s ?b k) \<and>
      (obj s' ?b d = obj s ?b d \<or> obj s' ?b d = obj s ?b k)"
  proof (cases "k = d")
    case True
    with assms(1) show ?thesis by (simp add: s3_copyObject_def)
  next
    case False
    obtain w s1 where w: "aws_CopyObject S s ?b d (?b @ ''/'' @ k) = (w, s1)" by (cases "aws_CopyObject S s ?b d (?b @ ''/'' @ k)")
    with assms(1) False have s': "s' = s1" "is_ok r \<longleftrightarrow> is_ok w" by (cases w; auto simp: s3_copyObject_def)+
    have "is_ok w \<longrightarrow> obj s' ?b d = obj s ?b k" using w s' copy_ok [OF _ assms(2,3)] by (cases w) auto
    then show ?thesis using copy_atomic [OF w assms(2,3)] copy_frame [OF w] s' False by (auto simp: fun_eq_iff)
  qed
  then show "x \<noteq> d \<Longrightarrow> obj s' ?b x = obj s ?b x" "is_ok r \<Longrightarrow> obj s' ?b d = obj s ?b k"
    "obj s' ?b d = obj s ?b d \<or> obj s' ?b d = obj s ?b k" by (metis fun_upd_other, auto)
qed

lemma s3_copyObject_right:
  assumes "copy_plan (s3_bucket c) p d K g" "s3_copyObject S c k (g k) s = (r, s')" "k \<in> K" "obj s (s3_bucket c) k = obj s0 (s3_bucket c) k"
  shows "right_writes (\<lambda>s. obj s (s3_bucket c)) K g s0 s s'"
  unfolding right_writes_def
proof
  fix x
  show "obj s' (s3_bucket c) x = obj s (s3_bucket c) x \<or> (\<exists>k\<in>K. x = g k \<and> obj s' (s3_bucket c) x = obj s0 (s3_bucket c) k)"
    using s3_copyObject_ok(1,3) [OF assms(2) copy_planD(2) [OF assms(1)] copy_planD(4) [OF assms(1,3)]] assms(3,4) by (cases "x = g k") auto
qed

lemma s3_copy_page_right:
  assumes "copy_plan (s3_bucket c) p d K g" "s3_copy_page S c p d ks s = (r, s')" "set ks \<subseteq> K"
    and "\<forall>k. has_prefix k p \<longrightarrow> obj s (s3_bucket c) k = obj s0 (s3_bucket c) k"
  shows "right_writes (\<lambda>s. obj s (s3_bucket c)) K g s0 s s' \<and>
    (is_ok r \<longrightarrow> (\<forall>k\<in>set ks. g k \<noteq> d \<longrightarrow> obj s' (s3_bucket c) (g k) = obj s0 (s3_bucket c) k))"
  using assms(2-)
proof (induction ks arbitrary: s)
  case (Cons k ks)
  note plan = copy_planD [OF assms(1)]
  have k: "k \<in> K" "obj s (s3_bucket c) k = obj s0 (s3_bucket c) k" using Cons.prems(2,3) plan(3) by auto
  note g = plan(5) [OF k(1)]
  show ?case
  proof (cases "g k = d")
    case True
    with Cons.prems(1) g have "s3_copy_page S c p d ks s = (r, s')" by simp
    from Cons.IH [OF this] Cons.prems(2,3) True show ?thesis by auto
  next
    case False
    obtain r1 s1 where c: "s3_copyObject S c k (g k) s = (r1, s1)" by (cases "s3_copyObject S c k (g k) s")
    have w1: "right_writes (\<lambda>s. obj s (s3_bucket c)) K g s0 s s1" by (rule s3_copyObject_right [OF assms(1) c k])
    show ?thesis
    proof (cases "is_ok r1")
      case True
      with c Cons.prems(1) g False have rest: "s3_copy_page S c p d ks s1 = (r, s')" by (cases r1) (auto simp: Let_def)
      have "\<forall>k. has_prefix k p \<longrightarrow> obj s1 (s3_bucket c) k = obj s0 (s3_bucket c) k"
        using right_writes_source [OF w1 plan(6)] Cons.prems(3) by auto
      with Cons.IH [OF rest] Cons.prems(2) have ih: "right_writes (\<lambda>s. obj s (s3_bucket c)) K g s0 s1 s'"
        "is_ok r \<longrightarrow> (\<forall>k\<in>set ks. g k \<noteq> d \<longrightarrow> obj s' (s3_bucket c) (g k) = obj s0 (s3_bucket c) k)" by auto
      have "obj s' (s3_bucket c) (g k) = obj s0 (s3_bucket c) k"
        by (rule right_writes_keep [OF ih(1) plan(1) k(1)])
          (simp add: s3_copyObject_ok(2) [OF c plan(2) plan(4) [OF k(1)] True] k(2))
      with ih right_writes_trans [OF w1 ih(1)] show ?thesis by simp
    next
      case False
      with c Cons.prems(1) g \<open>g k \<noteq> d\<close> have "\<not> is_ok r" "s' = s1" by (cases r1; auto simp: Let_def)+
      with w1 show ?thesis by simp
    qed
  qed
qed simp

lemma s3_copy_pages_right:
  assumes "copy_plan (s3_bucket c) p d K g" "finite (left s (s3_bucket c) p tok)" "left s (s3_bucket c) p tok \<subseteq> K" "HasMorePages first tok"
    and "\<forall>k. has_prefix k p \<longrightarrow> obj s (s3_bucket c) k = obj s0 (s3_bucket c) k"
  shows "\<exists>r s'. s3_copy_pages S c p d first tok s = Some (r, s') \<and> right_writes (\<lambda>s. obj s (s3_bucket c)) K g s0 s s' \<and>
    (is_ok r \<longrightarrow> (\<forall>k\<in>left s (s3_bucket c) p tok. g k \<noteq> d \<longrightarrow> obj s' (s3_bucket c) (g k) = obj s0 (s3_bucket c) k))"
  using assms(2-)
proof (induction "card (left s (s3_bucket c) p tok)" arbitrary: s first tok rule: less_induct)
  case less
  let ?b = "s3_bucket c"
  note plan = copy_planD [OF assms(1)]
  note run = s3_copy_pages.simps [of S c p d first tok s]
  show ?case
  proof (cases "aws_ListObjectsV2 S s ?b p tok")
    case (Inl e)
    with less.prems(3) show ?thesis by (simp add: run)
  next
    case (Inr page)
    obtain ks nxt where page: "page = (ks, nxt)" by (cases page)
    note ls = Inr [unfolded page]
    have ks: "distinct ks" "set ks \<subseteq> left s ?b p tok" using list_page [OF ls] by auto
    obtain r1 s1 where c: "s3_copy_page S c p d ks s = (r1, s1)" by (cases "s3_copy_page S c p d ks s")
    have "set ks \<subseteq> K" using ks(2) less.prems(2) by blast
    note cp = s3_copy_page_right [OF assms(1) c this less.prems(4)]
    have same: "obj s1 ?b x = obj s ?b x" if "has_prefix x p" for x
      using right_writes_source [OF conjunct1 [OF cp] plan(6)] that by simp
    have st: "left s1 ?b p t = left s ?b p t" for t using same by (intro left_stable) (auto simp: keys_with_def)
    show ?thesis
    proof (cases r1)
      case (Inl e)
      with ls c cp less.prems(3) show ?thesis by (simp add: run)
    next
      case ok: (Inr u)
      have at: "\<forall>k\<in>set ks. g k \<noteq> d \<longrightarrow> obj s1 ?b (g k) = obj s0 ?b k" using cp ok by simp
      show ?thesis
      proof (cases nxt)
        case None
        have "s3_copy_pages S c p d False None s1 = Some (Inr (), s1)" by (simp add: s3_copy_pages.simps [of S c p d False] HasMorePages_def)
        with None ls c cp ok at less.prems(3) list_last [of s ?b p tok ks] show ?thesis by (simp add: run)
      next
        case (Some t)
        note more = list_more [OF ls [unfolded Some]]
        have "hd ks \<in> set ks" using more by simp
        then have sub: "left s1 ?b p (Some t) \<subset> left s ?b p tok" using more ks(2) unfolding st by blast
        then have "card (left s1 ?b p (Some t)) < card (left s ?b p tok)" "finite (left s1 ?b p (Some t))" "left s1 ?b p (Some t) \<subseteq> K"
          using less.prems(1,2) by (auto intro: psubset_card_mono finite_subset)
        moreover have "HasMorePages False (Some t)" using more by (simp add: HasMorePages_def)
        moreover have "\<forall>k. has_prefix k p \<longrightarrow> obj s1 ?b k = obj s0 ?b k" using same less.prems(4) by simp
        ultimately obtain r s' where ih: "s3_copy_pages S c p d False (Some t) s1 = Some (r, s')"
          "right_writes (\<lambda>s. obj s ?b) K g s0 s1 s'"
          "is_ok r \<longrightarrow> (\<forall>k\<in>left s1 ?b p (Some t). g k \<noteq> d \<longrightarrow> obj s' ?b (g k) = obj s0 ?b k)"
          using less.hyps [of s1 "Some t" False] by blast
        have "obj s' ?b (g k) = obj s0 ?b k" if "k \<in> set ks" "g k \<noteq> d" for k
          using right_writes_keep [OF ih(2) plan(1), of k] at that \<open>set ks \<subseteq> K\<close> by auto
        with ih(3) more st have "is_ok r \<longrightarrow> (\<forall>k\<in>left s ?b p tok. g k \<noteq> d \<longrightarrow> obj s' ?b (g k) = obj s0 ?b k)" by auto
        moreover have "right_writes (\<lambda>s. obj s ?b) K g s0 s s'" using right_writes_trans [OF conjunct1 [OF cp] ih(2)] .
        ultimately show ?thesis using ls c ok Some ih(1) less.prems(3) by (auto simp: run)
      qed
    qed
  qed
qed

lemma s3_copyDirectory_right:
  assumes "copy_plan (s3_bucket c) p d (keys_with obj s (s3_bucket c) p) g" "finite (keys_with obj s (s3_bucket c) p)"
  shows "\<exists>r s'. s3_copyDirectory S c p d s = Some (r, s') \<and>
    right_writes (\<lambda>s. obj s (s3_bucket c)) (keys_with obj s (s3_bucket c) p) g s s s' \<and>
    (is_ok r \<longrightarrow> (\<forall>k\<in>keys_with obj s (s3_bucket c) p. g k \<noteq> d \<longrightarrow> obj s' (s3_bucket c) (g k) = obj s (s3_bucket c) k))"
  using s3_copy_pages_right [OF assms(1), of s None True s] assms(2) by (simp add: left_start s3_copyDirectory_def HasMorePages_def)

end



definition ex_s3 :: S3Fs where
  "ex_s3 = \<lparr>s3_opt = \<lparr>so_Purpose = ''doc'', so_PresignedTimeout = 60\<rparr>,
     s3_cfg = \<lparr>s3_EndPoint = ''https://s3.local:9000'', s3_AccessKeyID = [], s3_SecretAccessKey = [], s3_Region = [],
       s3_Bucket = ''b'', s3_UsePathStyle = True\<rparr>\<rparr>"

definition ex_objects :: mem_s3 where
  "ex_objects = \<lparr>m3_objects = [((''b'', ''a/x''), ''1''), ((''b'', ''a/y''), ''2''), ((''b'', ''a/z''), ''3''), ((''c'', ''a/x''), ''4'')],
     m3_uploads = [], m3_next = 0\<rparr>"

lemma ex_s3_bucket [simp]: "s3_bucket ex_s3 = ''b''"
  by (simp add: ex_s3_def)

lemma ex_s3_keys: "m3_obj ex_objects ''b'' k \<noteq> None \<and> has_prefix k ''a/'' \<longleftrightarrow> k \<in> {''a/x'', ''a/y'', ''a/z''}"
  by (auto simp: ex_objects_def m3_obj_def has_prefix_def split: if_splits)

lemma ex_s3_copy: "map_option fst (s3_CopyDir mem_aws ex_s3 ''a/'' ''c'' ex_objects) = Some (Inr ())"
  by code_simp

lemma ex_s3_targets: "Join ''c'' ''x'' = ''c/x''" "Join ''c'' ''y'' = ''c/y''" "Join ''c'' ''z'' = ''c/z''"
  by code_simp+

lemma ex_s3_plain: "list_all (\<lambda>k. source_plain (''b/'' @ k)) [''a/x'', ''a/y'', ''a/z'']"
  by code_simp

lemma ex_s3_objects: "m3_obj ex_objects ''b'' ''a/'' = None"
  "map (m3_obj ex_objects ''b'') [''a/x'', ''a/y'', ''a/z''] = [Some ''1'', Some ''2'', Some ''3'']"
  by code_simp+

lemmas ex_s3_runs = ex_s3_copy ex_s3_targets ex_s3_plain ex_s3_objects



section \<open>Public addresses\<close>

lemma fold_clean_filter: "fold (clean_step r) es acc = fold (clean_step r) (filter (\<lambda>e. e \<noteq> []) es) acc"
  by (induction es arbitrary: acc) auto

lemma Clean_names:
  assumes "is_rooted s" "filter (\<lambda>e. e \<noteq> []) (split_on CHR ''/'' s) = cs" "\<forall>c\<in>set cs. is_name c"
  shows "Clean s = CHR ''/'' # join_strings ''/'' cs"
  using assms fold_clean_filter [of True "split_on CHR ''/'' s" "[]"] fold_clean_names [OF assms(3), of True "[]"]
  by (simp add: Clean_def loc_of_def path_string_def)

lemma split_names: "cs \<noteq> [] \<Longrightarrow> \<forall>c\<in>set cs. is_name c \<Longrightarrow> split_on CHR ''/'' (join_strings ''/'' cs) = cs \<and> filter (\<lambda>e. e \<noteq> []) cs = cs"
  using split_on_join [of cs "CHR ''/''"] by (auto simp: is_name_def filter_id_conv)

text \<open>A key as the uploading code makes it: a clean relative path, perhaps with a slash before it.\<close>

lemma plain_key:
  assumes "Clean key = key" "\<not> is_rooted key" "\<not> climbs key" "key \<noteq> ''.''"
  shows "\<exists>cs. cs \<noteq> [] \<and> (\<forall>c\<in>set cs. is_name c) \<and> key = join_strings ''/'' cs"
proof -
  have "key = path_string (loc_of key)" using assms(1) by (simp add: Clean_def)
  moreover have "fst (loc_of key) = False" using assms(2) by (simp add: loc_of_def)
  ultimately show ?thesis using assms(4) climbs_names [OF assms(3)]
    by (intro exI [of _ "snd (loc_of key)"]) (auto simp: path_string_def split: if_splits)
qed

lemma join_names_ends:
  assumes "cs \<noteq> []" "\<forall>c\<in>set cs. is_name c"
  shows "join_strings ''/'' cs \<noteq> []" "last (join_strings ''/'' cs) \<noteq> CHR ''/''" "hd (join_strings ''/'' cs) \<noteq> CHR ''/''"
proof -
  have h: "hd cs \<noteq> []" "CHR ''/'' \<notin> set (hd cs)" using assms by (auto simp: is_name_def)
  then show "join_strings ''/'' cs \<noteq> []" "hd (join_strings ''/'' cs) \<noteq> CHR ''/''"
    using join_hd [OF assms(1), of "''/''"] hd_in_set [of "hd cs"] by (auto simp del: hd_in_set)
  have "last (join_strings ''/'' cs) = last (last cs)" using assms
  proof (induction cs rule: rev_nonempty_induct)
    case (snoc x xs)
    then show ?case by (simp add: join_strings_snoc is_name_def)
  qed simp
  moreover have "last cs \<noteq> []" "CHR ''/'' \<notin> set (last cs)" using assms by (auto simp: is_name_def)
  ultimately show "last (join_strings ''/'' cs) \<noteq> CHR ''/''" using last_in_set [of "last cs"] by (auto simp del: last_in_set)
qed

lemma path_Join_key:
  assumes "cs \<noteq> []" "\<forall>c\<in>set cs. is_name c" "key = join_strings ''/'' cs \<or> key = CHR ''/'' # join_strings ''/'' cs"
  shows "path_Join [''/'', key] = CHR ''/'' # join_strings ''/'' cs"
    and "is_name b \<Longrightarrow> path_Join [''/'', b, key] = CHR ''/'' # b @ ''/'' @ join_strings ''/'' cs"
proof -
  note sp = split_names [OF assms(1,2)]
  have key: "key \<noteq> []" "filter (\<lambda>e. e \<noteq> []) (split_on CHR ''/'' key) = cs"
    using assms(3) sp join_names_ends(1) [OF assms(1,2)] by (auto simp: split_on.simps)
  have "Clean (''//'' @ key) = CHR ''/'' # join_strings ''/'' cs"
    using key(2) assms(2) by (intro Clean_names) (simp_all add: is_rooted_def)
  then show "path_Join [''/'', key] = CHR ''/'' # join_strings ''/'' cs" using key(1) by (simp add: path_Join_def)
  assume b: "is_name b"
  then have "Clean (''//'' @ b @ ''/'' @ key) = CHR ''/'' # join_strings ''/'' (b # cs)"
    using key(2) assms(2) by (intro Clean_names) (auto simp: is_rooted_def is_name_def split_on_append)
  moreover have "join_strings ''/'' (b # cs) = b @ ''/'' @ join_strings ''/'' cs" using assms(1) by (cases cs) simp_all
  ultimately show "path_Join [''/'', b, key] = CHR ''/'' # b @ ''/'' @ join_strings ''/'' cs"
    using key(1) b by (simp add: path_Join_def is_name_def)
qed

text \<open>
  The public address of a clean key at an endpoint \<open>scheme://host\<close>, path style: the path after the host decodes to bucket and
  key. A key with a slash before it gets the same address, so the address of the object stored under \<open>/k\<close> is that of the
  object \<open>k\<close>.
\<close>

theorem s3_public_url:
  assumes "s3_EndPoint (s3_cfg c) = sch @ ''://'' @ host" "plain_scheme sch" "plain_host host" "s3_UsePathStyle (s3_cfg c)"
    and "is_name (s3_bucket c)" "Clean key = key" "\<not> is_rooted key" "\<not> climbs key" "key \<noteq> ''.''"
    and "CHR ''%'' \<notin> set (s3_bucket c @ key)"
  shows "\<exists>p. s3_GetPublicURL c key temp = sch @ ''://'' @ host @ ''/'' @ p \<and>
    s3_GetPublicURL c (CHR ''/'' # key) temp = sch @ ''://'' @ host @ ''/'' @ p \<and>
    url_unescape encodePath p = Inr (s3_bucket c @ ''/'' @ key)"
proof -
  let ?b = "s3_bucket c"
  obtain cs where cs: "cs \<noteq> []" "\<forall>c\<in>set cs. is_name c" "key = join_strings ''/'' cs" using plain_key [OF assms(6-9)] by blast
  note ends = join_names_ends [OF cs(1,2), folded cs(3)]
  have b: "?b \<noteq> []" "CHR ''/'' \<notin> set ?b" using assms(5) by (auto simp: is_name_def)
  have hd: "hd (?b @ ''/'' @ key) \<noteq> CHR ''/''" using b hd_in_set [of ?b] by (auto simp del: hd_in_set)
  have star: "?b @ ''/'' @ key \<noteq> ''*''" using b by (cases ?b) auto
  have "url_JoinPath (sch @ ''://'' @ host) [?b, k] = Inr (sch @ ''://'' @ host @ ''/'' @ encoded_path (?b @ ''/'' @ key))"
    if "k = key \<or> k = CHR ''/'' # key" for k
    using path_Join_key(2) [OF cs(1,2) _ assms(5), of k] that cs(3) ends hd star assms(10)
    by (intro url_JoinPath_base assms(2,3)) auto
  moreover have "url_Parse (s3_EndPoint (s3_cfg c)) = Inr (base_url sch host)" using url_Parse_base [OF assms(2,3)] assms(1) by simp
  ultimately have "s3_GetPublicURL c k temp = sch @ ''://'' @ host @ ''/'' @ encoded_path (?b @ ''/'' @ key)"
    if "k = key \<or> k = CHR ''/'' # key" for k
    using that assms(4) ends(1) by (auto simp: s3_GetPublicURL_def base_url_def zero_url_def)
  moreover have "url_unescape encodePath (encoded_path (?b @ ''/'' @ key)) = Inr (?b @ ''/'' @ key)"
    using assms(10) by (intro decode_encoded_path) auto
  ultimately show ?thesis by blast
qed

theorem s3_public_url_witness:
  "\<exists>p. s3_GetPublicURL ex_s3 ''a/x y.png'' False = ''https://s3.local:9000/'' @ p \<and>
    s3_GetPublicURL ex_s3 ''/a/x y.png'' False = ''https://s3.local:9000/'' @ p \<and> url_unescape encodePath p = Inr ''b/a/x y.png''"
proof -
  have h: "plain_scheme ''https''" "plain_host ''s3.local:9000''" "is_name ''b''" "Clean ''a/x y.png'' = ''a/x y.png''"
    "\<not> is_rooted ''a/x y.png''" "\<not> climbs ''a/x y.png''" by code_simp+
  have e: "s3_EndPoint (s3_cfg ex_s3) = ''https'' @ ''://'' @ ''s3.local:9000''" "s3_UsePathStyle (s3_cfg ex_s3)" by (simp_all add: ex_s3_def)
  show ?thesis using s3_public_url [where temp = False, OF e(1) h(1,2) e(2) _ h(4,5,6)] h(3) by simp
qed


section \<open>Uploading a directory\<close>

text \<open>The key of the file at relative location \<open>rel\<close>, and the files below a root whatever leads to them.\<close>

definition upload_key :: "string \<Rightarrow> string list \<Rightarrow> string" where
  "upload_key destDir rel = Join destDir (path_string (False, rel))"

definition tree_file :: "('f \<Rightarrow> loc \<Rightarrow> fnode option) \<Rightarrow> 'f \<Rightarrow> loc \<Rightarrow> string list \<Rightarrow> string \<Rightarrow> bool" where
  "tree_file node f root rel c \<longleftrightarrow> (\<forall>nm\<in>set rel. is_name nm) \<and> node f (descend root rel) = Some (File c)"

lemma normal_names: "\<forall>nm\<in>set rel. is_name nm \<Longrightarrow> norm_rev r (rev rel)"
  by (induction rel rule: rev_induct) auto

lemma upload_key_inj:
  assumes "upload_key d rel = upload_key d rel'" "d \<noteq> []" "\<forall>nm\<in>set rel. is_name nm" "\<forall>nm\<in>set rel'. is_name nm"
  shows "rel = rel'"
proof -
  have at: "loc_of (upload_key d x) = descend (loc_of d) x" if x: "\<forall>nm\<in>set x. is_name nm" for x
  proof -
    have loc: "loc_of (path_string (False, x)) = (False, x)" using normal_names [OF x] by (simp add: loc_of_path_string)
    then have cl: "Clean (path_string (False, x)) = path_string (False, x)" by (simp add: Clean_def)
    have "\<not> climbs (path_string (False, x))" using x by (auto simp: climbs_def loc)
    from Join_Clean_loc [OF assms(2) this] show ?thesis by (simp only: upload_key_def cl loc snd_conv)
  qed
  from at [OF assms(3)] at [OF assms(4)] have "descend (loc_of d) rel = descend (loc_of d) rel'" unfolding assms(1) by (rule trans [OF sym])
  then show ?thesis by simp
qed

text \<open>What a visit may change: it adds uploaded paths, and stores files of the tree under their keys.\<close>

definition upload_rel :: "('o \<Rightarrow> string \<Rightarrow> string option) \<Rightarrow> (string list \<Rightarrow> string \<Rightarrow> bool) \<Rightarrow> string \<Rightarrow> string list \<times> 'o \<Rightarrow> string list \<times> 'o \<Rightarrow> bool" where
  "upload_rel ob isf d a a' \<longleftrightarrow> set (fst a) \<subseteq> set (fst a') \<and>
     (\<forall>z\<in>set (fst a'). z \<in> set (fst a) \<or> (\<exists>rel c. isf rel c \<and> z = upload_key d rel)) \<and>
     (\<forall>x. ob (snd a') x = ob (snd a) x \<or> (\<exists>rel c. isf rel c \<and> x = upload_key d rel \<and> ob (snd a') x = Some c))"

definition upload_done :: "('o \<Rightarrow> string \<Rightarrow> string option) \<Rightarrow> (string list \<Rightarrow> string \<Rightarrow> bool) \<Rightarrow> string \<Rightarrow> loc \<Rightarrow> loc \<Rightarrow> string list \<times> 'o \<Rightarrow> bool" where
  "upload_done ob isf d root l a \<longleftrightarrow> (\<forall>rel c. l = descend root rel \<longrightarrow> isf rel c \<longrightarrow>
     ob (snd a) (upload_key d rel) = Some c \<and> upload_key d rel \<in> set (fst a))"

lemma upload_rel_trans: "upload_rel ob isf d a b \<Longrightarrow> upload_rel ob isf d b c \<Longrightarrow> upload_rel ob isf d a c"
  unfolding upload_rel_def
proof (elim conjE, intro conjI ballI allI)
  fix x
  assume ab: "\<forall>x. ob (snd b) x = ob (snd a) x \<or> (\<exists>rel c. isf rel c \<and> x = upload_key d rel \<and> ob (snd b) x = Some c)"
    and bc: "\<forall>x. ob (snd c) x = ob (snd b) x \<or> (\<exists>rel c'. isf rel c' \<and> x = upload_key d rel \<and> ob (snd c) x = Some c')"
  show "ob (snd c) x = ob (snd a) x \<or> (\<exists>rel c'. isf rel c' \<and> x = upload_key d rel \<and> ob (snd c) x = Some c')"
    using spec [OF ab, of x] spec [OF bc, of x] by auto
qed blast+

lemma upload_done_keep:
  assumes "upload_done ob isf d root l a" "upload_rel ob isf d a b"
    and "\<And>rel rel' c c'. isf rel c \<Longrightarrow> isf rel' c' \<Longrightarrow> upload_key d rel = upload_key d rel' \<Longrightarrow> c = c'"
  shows "upload_done ob isf d root l b"
  unfolding upload_done_def
proof (intro allI impI)
  fix rel c assume l: "l = descend root rel" "isf rel c"
  with assms(1) have "ob (snd a) (upload_key d rel) = Some c" "upload_key d rel \<in> set (fst a)" by (auto simp: upload_done_def)
  with assms(2,3) l(2) show "ob (snd b) (upload_key d rel) = Some c \<and> upload_key d rel \<in> set (fst b)"
    unfolding upload_rel_def by (metis subsetD)
qed

lemma upload_visits:
  assumes "file_system F node" "s3_store S obj up left" "localDir \<noteq> []" "destDir \<noteq> []"
  shows "visits node (upload_rel (\<lambda>s. obj s (s3_bucket c)) (tree_file node f (loc_of localDir)) destDir)
    (upload_done (\<lambda>s. obj s (s3_bucket c)) (tree_file node f (loc_of localDir)) destDir (loc_of localDir)) f
    (s3_upload_visit S c mime F localDir destDir f) (loc_of localDir)"
    (is "visits node ?R ?P f ?fn ?root")
  unfolding visits_def
proof (intro conjI allI impI)
  let ?ob = "\<lambda>s. obj s (s3_bucket c)"
  have same: "c = c'" if "tree_file node f ?root rel c" "tree_file node f ?root rel' c'" "upload_key destDir rel = upload_key destDir rel'" for rel rel' c c'
    using upload_key_inj [OF that(3) assms(4)] that(1,2) by (auto simp: tree_file_def)
  show refl: "?R a a" for a by (auto simp: upload_rel_def)
  show "?R a c" if "?R a b" "?R b c" for a b c using upload_rel_trans that .
  show "?P l b" if "?P l a" "?R a b" for l a b using upload_done_keep [OF that same] .
  show "\<not> is_ok (fst (?fn p d (Some e) a))" "?R a (snd (?fn p d (Some e) a))" for p d e a
    using refl by (cases a; simp add: s3_upload_visit_def)+
  fix p n a r a'
  assume run: "?fn p (n = Directory) None a = (r, a')" and at: "p \<noteq> []" "below ?root (loc_of p)" "node f (loc_of p) = Some n"
  obtain ps s where a: "a = (ps, s)" by (cases a)
  have "?R a a' \<and> (is_ok r \<longrightarrow> n \<noteq> Directory \<longrightarrow> ?P (loc_of p) a')"
  proof (cases n)
    case Directory
    with run a refl show ?thesis by (simp add: s3_upload_visit_def)
  next
    case (File cont)
    obtain rel where rel: "loc_of p = descend ?root rel" "\<forall>nm\<in>set rel. is_name nm" using at(2) by (auto simp: below_def prod_eq_iff)
    have isf: "tree_file node f ?root rel cont" using rel at(3) File by (simp add: tree_file_def)
    have key: "Join destDir (path_string (False, rel)) \<noteq> []" using assms(4) by simp
    let ?up = "aws_Upload S s (s3_bucket c) (upload_key destDir rel) (fs_read F f p) (mime (Ext p))"
    obtain w s1 where w: "?up = (w, s1)" by (cases ?up)
    have new: "?ob s1 x = ?ob s x \<or> x = upload_key destDir rel \<and> ?ob s1 x = Some cont" for x
      using s3_store.put_frame [OF assms(2) w] s3_store.put_atomic [OF assms(2) w] file_system.read_ok [OF assms(1), of f p cont] at(3) File
      by (cases "x = upload_key destDir rel") auto
    have R: "?R (ps, s) (ps, s1)" "?R (ps, s) (ps @ [upload_key destDir rel], s1)"
      using new isf by (auto simp: upload_rel_def)
    have "a' = (ps, s) \<and> \<not> is_ok r \<or> a' = (ps, s1) \<and> \<not> is_ok r \<or> a' = (ps @ [upload_key destDir rel], s1) \<and> is_ok w"
      using run a File Rel_below [OF rel] key w
      by (auto simp: s3_upload_visit_def s3_Save_def upload_key_def Let_def split: sum.splits) (metis is_ok_simps(2))+
    moreover have "?P (loc_of p) (ps @ [upload_key destDir rel], s1)" if ok: "is_ok w"
    proof -
      obtain v where "w = Inr v" using ok by (auto simp: is_ok_iff)
      with s3_store.put_ok [OF assms(2), of s] w have "snd (fs_read F f p) = None" "?ob s1 (upload_key destDir rel) = Some (fst (fs_read F f p))" by auto
      then have "?ob s1 (upload_key destDir rel) = Some cont" using file_system.read_ok [OF assms(1), of f p cont] at(3) File by simp
      then show ?thesis using isf rel(1) by (auto simp: upload_done_def tree_file_def)
    qed
    ultimately show ?thesis using a R refl by auto
  qed
  then show "?R a a'" "is_ok r \<Longrightarrow> n \<noteq> Directory \<Longrightarrow> ?P (loc_of p) a'" by auto
qed

text \<open>
  \<open>UploadDirectory\<close> of the S3 storage on a finite tree: it ends; every object it changes or reports is a file of the tree under
  the key made of the destination and the file's relative path; and when it reports success, every file of the tree is
  stored under its key with its contents, and reported. (C34)
\<close>

theorem s3_UploadDirectory_complete:
  assumes "file_system F node" "s3_store S obj up left" "localDir \<noteq> []" "destDir \<noteq> []"
    and "finite {l. below (loc_of localDir) l \<and> node f l \<noteq> None}"
  shows "\<exists>r s'. s3_UploadDirectory S c mime F localDir destDir f s = Some (r, s') \<and>
    (\<forall>x. obj s' (s3_bucket c) x = obj s (s3_bucket c) x \<or>
      (\<exists>rel cont. tree_file node f (loc_of localDir) rel cont \<and> x = upload_key destDir rel \<and> obj s' (s3_bucket c) x = Some cont)) \<and>
    (\<forall>paths. r = Inr paths \<longrightarrow>
      (\<forall>z\<in>set paths. \<exists>rel cont. tree_file node f (loc_of localDir) rel cont \<and> z = upload_key destDir rel) \<and>
      (\<forall>rel cont. file_below node f (loc_of localDir) rel cont \<longrightarrow>
        obj s' (s3_bucket c) (upload_key destDir rel) = Some cont \<and> upload_key destDir rel \<in> set paths))"
proof -
  let ?fn = "s3_upload_visit S c mime F localDir destDir f"
  obtain r ps s' where run: "WalkDir F ?fn f localDir ([], s) = Some (r, ps, s')"
    using file_system.WalkDir_returns [OF assms(1,5,3)] by (metis prod.collapse)
  note v = file_system.WalkDir_visits [OF assms(1) upload_visits [OF assms(1-4)] assms(3) run]
  have "file_below node f (loc_of localDir) rel cont \<Longrightarrow> tree_file node f (loc_of localDir) rel cont" for rel cont
    by (simp add: file_below_def tree_file_def)
  with v have fin: "is_ok r \<Longrightarrow> file_below node f (loc_of localDir) rel cont \<Longrightarrow>
      obj s' (s3_bucket c) (upload_key destDir rel) = Some cont \<and> upload_key destDir rel \<in> set ps" for rel cont
    unfolding upload_done_def by fastforce
  have out: "s3_UploadDirectory S c mime F localDir destDir f s = Some (case r of Inl e \<Rightarrow> Inl e | Inr _ \<Rightarrow> Inr ps, s')"
    using run assms(3) by (simp add: s3_UploadDirectory_def)
  show ?thesis unfolding out using v fin by (cases r) (auto simp: upload_rel_def)
qed

definition ex_tree :: mem_fs where
  "ex_tree = [((False, [''d'']), Directory), ((False, [''d'', ''a'']), File ''1''), ((False, [''d'', ''s'']), Directory),
     ((False, [''d'', ''s'', ''b'']), File ''2'')]"

lemma ex_upload_ok:
  "map_option fst (s3_UploadDirectory mem_aws ex_s3 (\<lambda>_. []) mem_fs_ops ''d'' ''up'' ex_tree ex_objects) = Some (Inr [''up/a'', ''up/s/b''])"
  by code_simp

lemma ex_upload_keys: "upload_key ''up'' [''a''] = ''up/a''" "upload_key ''up'' [''s'', ''b''] = ''up/s/b''" "loc_of ''d'' = (False, [''d''])"
  by code_simp+

theorem s3_UploadDirectory_complete_witness:
  "\<exists>s'. s3_UploadDirectory mem_aws ex_s3 (\<lambda>_. []) mem_fs_ops ''d'' ''up'' ex_tree ex_objects = Some (Inr [''up/a'', ''up/s/b''], s') \<and>
    m3_obj s' ''b'' ''up/a'' = Some ''1'' \<and> m3_obj s' ''b'' ''up/s/b'' = Some ''2''"
proof -
  let ?run = "s3_UploadDirectory mem_aws ex_s3 (\<lambda>_. []) mem_fs_ops ''d'' ''up'' ex_tree ex_objects"
  have fs: "file_system mem_fs_ops map_of" by (rule mem_files.file_system_axioms)
  have st: "s3_store mem_aws m3_obj m3_up m3_left" by (rule mem_s3_objects.s3_store_axioms)
  have "{l. below (loc_of ''d'') l \<and> map_of ex_tree l \<noteq> None} \<subseteq> fst ` set ex_tree" by (auto simp: map_of_eq_None_iff)
  then have fin: "finite {l. below (loc_of ''d'') l \<and> map_of ex_tree l \<noteq> None}" by (rule finite_subset) simp
  have ne: "''d'' \<noteq> []" "''up'' \<noteq> []" by simp_all
  from s3_UploadDirectory_complete [OF fs st ne fin, where mime = "\<lambda>_. []" and c = ex_s3 and s = ex_objects]
  obtain r s' where run: "?run = Some (r, s')" and all: "\<forall>paths. r = Inr paths \<longrightarrow>
      (\<forall>rel cont. file_below map_of ex_tree (loc_of ''d'') rel cont \<longrightarrow>
        m3_obj s' (s3_bucket ex_s3) (upload_key ''up'' rel) = Some cont \<and> upload_key ''up'' rel \<in> set paths)" by blast
  have r: "r = Inr [''up/a'', ''up/s/b'']" using ex_upload_ok run by simp
  have "file_below map_of ex_tree (loc_of ''d'') [''a''] ''1''" "file_below map_of ex_tree (loc_of ''d'') [''s'', ''b''] ''2''"
    unfolding ex_upload_keys(3) ex_tree_def by (auto simp: file_below_Cons is_name_def)
  with all r have "m3_obj s' (s3_bucket ex_s3) (upload_key ''up'' [''a'']) = Some ''1''"
    "m3_obj s' (s3_bucket ex_s3) (upload_key ''up'' [''s'', ''b'']) = Some ''2''" by blast+
  then show ?thesis using run r by (simp add: ex_upload_keys)
qed


section \<open>Multipart uploads\<close>

text \<open>A client that sends the chunks as parts \<open>n\<close>, \<open>n + 1\<close>, and so on, and collects the parts for the completion.\<close>

fun s3_send_parts :: "'o aws_ops \<Rightarrow> S3Fs \<Rightarrow> string \<Rightarrow> string \<Rightarrow> int \<Rightarrow> string list \<Rightarrow> 'o \<Rightarrow> (int option \<times> string option) list res \<times> 'o" where
  "s3_send_parts S c p u n [] s = (Inr [], s)"
| "s3_send_parts S c p u n (d # ds) s =
     (case s3_UploadPart S c (Some \<lparr>pi_Bucket = None, pi_StoragePath = Some p, pi_UploadID = Some u, pi_PartNumber = Some n, pi_Data = Some d\<rparr>) s of
        (Inl e, s') \<Rightarrow> (Inl e, s')
      | (Inr t, s') \<Rightarrow> (case s3_send_parts S c p u (n + 1) ds s' of
          (Inl e, s'') \<Rightarrow> (Inl e, s'')
        | (Inr ts, s'') \<Rightarrow> (Inr ((Some n, Some t) # ts), s'')))"

lemma put_part_last: "\<forall>q\<in>set ps. fst q < n \<Longrightarrow> put_part n x ps = ps @ [(n, x)]"
  by (induction n x ps rule: put_part.induct) auto

lemma given_parts_headers: "given_parts (map (\<lambda>(m, t, _). (Some m, Some t)) ps) = Some (headers ps)"
  by (induction ps) (auto simp: headers_def)

context s3_store
begin

lemma s3_send_parts_ok:
  assumes "s3_send_parts S c p u n ds s = (Inr ts, s')" "up s (s3_bucket c) p u = Some ps" "\<forall>q\<in>set ps. fst q < n" "1 \<le> n" "n \<le> 10001"
  shows "\<exists>new. up s' (s3_bucket c) p u = Some (ps @ new) \<and> ts = map (\<lambda>(m, t, _). (Some m, Some t)) new \<and> map (\<lambda>(_, _, b). b) new = ds"
  using assms
proof (induction ds arbitrary: n s ps ts)
  case (Cons d ds)
  obtain t s1 ts' where 1: "aws_UploadPart S s (s3_bucket c) p u (to_int32 n) d = (Inr t, s1)"
    and 2: "s3_send_parts S c p u (n + 1) ds s1 = (Inr ts', s')" and ts: "ts = (Some n, Some t) # ts'"
    using Cons.prems(1) by (auto simp: s3_UploadPart_def s3_getBucketName_def split: prod.splits sum.splits)
  from upload_ok [OF 1] Cons.prems(2) have u: "up s1 (s3_bucket c) p u = Some (put_part (to_int32 n) (t, d) ps)" "to_int32 n \<le> 10000" by auto
  have n: "n \<le> 10000"
  proof (rule ccontr)
    assume "\<not> n \<le> 10000"
    with Cons.prems(5) have "n = 10001" by simp
    with u(2) show False by (simp add: to_int32_def)
  qed
  then have "to_int32 n = n" using Cons.prems(4) by (rule to_int32_small [rotated])
  with u(1) put_part_last [OF Cons.prems(3)] have u1: "up s1 (s3_bucket c) p u = Some (ps @ [(n, t, d)])" by simp
  have "\<forall>q\<in>set (ps @ [(n, t, d)]). fst q < n + 1" using Cons.prems(3) by auto
  then obtain new where "up s' (s3_bucket c) p u = Some ((ps @ [(n, t, d)]) @ new)" "ts' = map (\<lambda>(m, t, _). (Some m, Some t)) new" "map (\<lambda>(_, _, b). b) new = ds"
    using Cons.IH [OF 2 u1] Cons.prems(4) n by auto
  with ts show ?case by (intro exI [of _ "(n, t, d) # new"]) simp
qed simp

end

text \<open>
  Multipart upload through the S3 storage: creating an upload, sending the chunks as parts 1, 2, and so on, and completing it
  with the collected tags leaves the chunks joined in order as the object, if every call succeeds. (C35)
\<close>

theorem s3_multipart_roundtrip:
  assumes "s3_store S obj up left" "ci_Bucket ci = None" "ci_StoragePath ci = Some p"
    and "s3_CreateMultipartUpload S c (Some ci) s = (Inr u, s1)" "s3_send_parts S c p u 1 ds s1 = (Inr ts, s2)"
    and "s3_CompleteMultipartUpload S c (Some \<lparr>mi_Bucket = None, mi_StoragePath = Some p, mi_UploadID = Some u, mi_Parts = Some ts\<rparr>) s2 = (Inr (), s3)"
  shows "obj s3 (s3_bucket c) p = Some (concat ds) \<and> up s3 (s3_bucket c) p u = None"
proof -
  have "aws_CreateMultipartUpload S s (s3_bucket c) p (ci_ContentType ci) = (Inr u, s1)"
    using assms(2-4) by (auto simp: s3_CreateMultipartUpload_def s3_getBucketName_def split: if_splits)
  from s3_store.create_ok [OF assms(1) this] have "up s1 (s3_bucket c) p u = Some []" by simp
  from s3_store.s3_send_parts_ok [OF assms(1,5) this] obtain new where new: "up s2 (s3_bucket c) p u = Some new"
    "ts = map (\<lambda>(m, t, _). (Some m, Some t)) new" "map (\<lambda>(_, _, b). b) new = ds" by auto
  have "aws_CompleteMultipartUpload S s2 (s3_bucket c) p u ts = (Inr (), s3)"
    using assms(6) by (simp add: s3_CompleteMultipartUpload_def s3_getBucketName_def)
  from s3_store.complete_ok [OF assms(1) this] new(1,2) obtain b where b: "gather new (headers new) = Some b"
    "obj s3 (s3_bucket c) p = Some b" "up s3 (s3_bucket c) p u = None" by (auto simp: given_parts_headers)
  have "distinct (map fst new)" by (rule by_number_distinct [OF s3_store.parts_sorted [OF assms(1) new(1)]])
  with gather_headers [of new new] b(1) new(3) have "b = concat ds" by simp
  with b show ?thesis by simp
qed

definition ex_create :: CreateMultipartUploadInput where
  "ex_create = \<lparr>ci_Bucket = None, ci_StoragePath = Some ''big'', ci_ContentType = None\<rparr>"

lemma ex_multipart:
  "fst (s3_CreateMultipartUpload mem_aws ex_s3 (Some ex_create) ex_objects) = Inr ''0''"
  "fst (s3_send_parts mem_aws ex_s3 ''big'' ''0'' 1 [''ab'', ''c''] (snd (s3_CreateMultipartUpload mem_aws ex_s3 (Some ex_create) ex_objects))) =
     Inr [(Some 1, Some ''ab''), (Some 2, Some ''c'')]"
  "fst (s3_CompleteMultipartUpload mem_aws ex_s3 (Some \<lparr>mi_Bucket = None, mi_StoragePath = Some ''big'', mi_UploadID = Some ''0'',
       mi_Parts = Some [(Some 1, Some ''ab''), (Some 2, Some ''c'')]\<rparr>)
     (snd (s3_send_parts mem_aws ex_s3 ''big'' ''0'' 1 [''ab'', ''c''] (snd (s3_CreateMultipartUpload mem_aws ex_s3 (Some ex_create) ex_objects))))) = Inr ()"
  by code_simp+

theorem s3_multipart_roundtrip_witness:
  "\<exists>s1 s2 s3. s3_CreateMultipartUpload mem_aws ex_s3 (Some ex_create) ex_objects = (Inr ''0'', s1) \<and>
    s3_send_parts mem_aws ex_s3 ''big'' ''0'' 1 [''ab'', ''c''] s1 = (Inr [(Some 1, Some ''ab''), (Some 2, Some ''c'')], s2) \<and>
    m3_obj s3 ''b'' ''big'' = Some ''abc''"
proof -
  have st: "s3_store mem_aws m3_obj m3_up m3_left" by (rule mem_s3_objects.s3_store_axioms)
  let ?c = "s3_CreateMultipartUpload mem_aws ex_s3 (Some ex_create) ex_objects"
  let ?s = "s3_send_parts mem_aws ex_s3 ''big'' ''0'' 1 [''ab'', ''c''] (snd ?c)"
  let ?m = "s3_CompleteMultipartUpload mem_aws ex_s3 (Some \<lparr>mi_Bucket = None, mi_StoragePath = Some ''big'', mi_UploadID = Some ''0'',
       mi_Parts = Some [(Some 1, Some ''ab''), (Some 2, Some ''c'')]\<rparr>) (snd ?s)"
  have c: "?c = (Inr ''0'', snd ?c)" and s: "?s = (Inr [(Some 1, Some ''ab''), (Some 2, Some ''c'')], snd ?s)" and m: "?m = (Inr (), snd ?m)"
    using ex_multipart by (simp_all only: prod_eq_iff fst_conv snd_conv)
  have "m3_obj (snd ?m) (s3_bucket ex_s3) ''big'' = Some (concat [''ab'', ''c''])"
    using s3_multipart_roundtrip [OF st _ _ c s m] by (simp add: ex_create_def)
  then show ?thesis using c s by (intro exI [of _ "snd ?c"] exI [of _ "snd ?s"] exI [of _ "snd ?m"]) simp
qed

text \<open>
  Part numbers are cut to 32 bits on the way: part \<open>n + 2 ^ 32\<close> is sent as part \<open>n\<close> and replaces it.
\<close>

lemma s3_UploadPart_wraps:
  "s3_UploadPart S c (Some (i\<lparr>pi_PartNumber := Some (n + 2 ^ 32)\<rparr>)) s = s3_UploadPart S c (Some (i\<lparr>pi_PartNumber := Some n\<rparr>)) s"
  using to_int32_wraps [of n] by (simp add: s3_UploadPart_def split: option.split)

text \<open>Asking for the address of a part without naming the part number panics.\<close>

lemma s3_presign_panics:
  "gi_StoragePath i = Some p \<Longrightarrow> gi_Method i = Some ''PUT'' \<Longrightarrow> gi_UploadID i = Some u \<Longrightarrow> u \<noteq> [] \<Longrightarrow> gi_PartNumber i = None \<Longrightarrow>
     s3_GeneratePresignedURL S c (Some i) s = None"
  by (simp add: s3_GeneratePresignedURL_def)

end
