(* ===== verification/Minio_Storage.thy ===== *)
theory Minio_Storage
  imports S3_Correct
begin

text \<open>
  The MinIO storage (\<open>storage/minoss.go\<close>) over the service as the code calls it through the MinIO client: a record of
  operations, the locale \<open>min_store\<close> with the documented behaviour, an instance in memory, the driver, and what copying does.
  A listing is a channel that a goroutine of the client fills while the copying goes on; receiving from it gives the next key,
  an error, or that it is closed. \<open>left\<close> are the keys still to come, \<open>about\<close> the bucket and prefix that are listed.
\<close>

section \<open>Operations of the client\<close>

record ('o, 'i) min_ops =
  min_New :: "string \<Rightarrow> string \<Rightarrow> string \<Rightarrow> gerror option"
  min_BucketExists :: "'o \<Rightarrow> string \<Rightarrow> bool res"
  min_PutObject :: "'o \<Rightarrow> string \<Rightarrow> string \<Rightarrow> reader \<Rightarrow> int \<Rightarrow> string \<Rightarrow> unit res \<times> 'o"
  min_PresignedGetObject :: "'o \<Rightarrow> string \<Rightarrow> string \<Rightarrow> duration \<Rightarrow> string res"
  min_GetObject :: "'o \<Rightarrow> string \<Rightarrow> string \<Rightarrow> reader res"
  min_RemoveObject :: "'o \<Rightarrow> string \<Rightarrow> string \<Rightarrow> unit res \<times> 'o"
  min_StatObject :: "'o \<Rightarrow> string \<Rightarrow> string \<Rightarrow> unit res"
  min_CopyObject :: "'o \<Rightarrow> string \<times> string \<Rightarrow> string \<times> string \<Rightarrow> unit res \<times> 'o"
  min_ListObjects :: "string \<Rightarrow> string \<Rightarrow> 'i"
  min_receive :: "'o \<Rightarrow> 'i \<Rightarrow> (string res \<times> 'i) option"
  min_NewMultipartUpload :: "'o \<Rightarrow> string \<Rightarrow> string \<Rightarrow> string res \<times> 'o"
  min_PutObjectPart :: "'o \<Rightarrow> string \<Rightarrow> string \<Rightarrow> string \<Rightarrow> int \<Rightarrow> string \<Rightarrow> int \<Rightarrow> string res \<times> 'o"
  min_CompleteMultipartUpload :: "'o \<Rightarrow> string \<Rightarrow> string \<Rightarrow> string \<Rightarrow> cos_Part list \<Rightarrow> unit res \<times> 'o"
  min_AbortMultipartUpload :: "'o \<Rightarrow> string \<Rightarrow> string \<Rightarrow> string \<Rightarrow> unit res \<times> 'o"

text \<open>An error response with code \<open>NoSuchKey\<close>.\<close>

definition min_NoSuchKey :: gerror where
  "min_NoSuchKey = Err ''The specified key does not exist.''"

text \<open>
  The size of an object is part of the call, or -1 when it is not known. An object is fetched when it is read: the call itself
  does not fail for a missing key.
\<close>

locale min_store =
  fixes S :: "('o, 'i) min_ops" and obj :: "'o \<Rightarrow> string \<Rightarrow> string \<Rightarrow> string option"
    and left :: "'o \<Rightarrow> 'i \<Rightarrow> string set" and about :: "'i \<Rightarrow> string \<times> string"
  assumes put_ok: "min_PutObject S s b k r sz ct = (Inr v, s') \<Longrightarrow> sz = int (length (fst r)) \<or> sz = -1 \<Longrightarrow>
       snd r = None \<and> obj s' b k = Some (fst r)"
    and put_frame: "min_PutObject S s b k r sz ct = (w, s') \<Longrightarrow> (b', k') \<noteq> (b, k) \<Longrightarrow> obj s' b' k' = obj s b' k'"
    and get_ok: "min_GetObject S s b k = Inr r \<Longrightarrow> snd r = None \<Longrightarrow> obj s b k = Some (fst r)"
    and remove_ok: "min_RemoveObject S s b k = (Inr v, s') \<Longrightarrow> obj s' b k = None"
    and remove_frame: "min_RemoveObject S s b k = (w, s') \<Longrightarrow> (b', k') \<noteq> (b, k) \<Longrightarrow> obj s' b' k' = obj s b' k'"
    and stat_ok: "min_StatObject S s b k = Inr v \<Longrightarrow> obj s b k \<noteq> None"
    and copy_ok: "min_CopyObject S s (b, k) (sb, sk) = (Inr v, s') \<Longrightarrow> obj s sb sk \<noteq> None \<and> obj s' b k = obj s sb sk"
    and copy_atomic: "min_CopyObject S s (b, k) (sb, sk) = (w, s') \<Longrightarrow> obj s' b k = obj s b k \<or> obj s' b k = obj s sb sk"
    and copy_frame: "min_CopyObject S s (b, k) src = (w, s') \<Longrightarrow> (b', k') \<noteq> (b, k) \<Longrightarrow> obj s' b' k' = obj s b' k'"
    and list_start: "left s (min_ListObjects S b p) = keys_with obj s b p" "about (min_ListObjects S b p) = (b, p)"
    and list_stable: "about i = (b, p) \<Longrightarrow> keys_with obj s' b p = keys_with obj s b p \<Longrightarrow> left s' i = left s i"
    and list_next: "min_receive S s i = Some (Inr k, i') \<Longrightarrow> k \<in> left s i \<and> left s i' = left s i - {k} \<and> about i' = about i"
    and list_closed: "min_receive S s i = None \<Longrightarrow> left s i = {}"

section \<open>The storage\<close>

record MinFs =
  mfs_opt :: StorageOption
  mfs_cfg :: MinossConfig

abbreviation mfs_bucket :: "MinFs \<Rightarrow> string" where
  "mfs_bucket c \<equiv> mo_Bucket (mfs_cfg c)"

definition NewMinFs :: "('o, 'i) min_ops \<Rightarrow> MinossConfig \<Rightarrow> StorageOption \<Rightarrow> 'o \<Rightarrow> MinFs res" where
  "NewMinFs S cfg opt s = (if mo_Bucket cfg = [] then Inl (Err ''configuration bucket error'')
     else (case min_New S (mo_EndPoint cfg) (mo_AccessKeyID cfg) (mo_SecretAccessKey cfg) of
         Some e \<Rightarrow> Inl e
       | None \<Rightarrow> (case min_BucketExists S s (mo_Bucket cfg) of
           Inl e \<Rightarrow> Inl e
         | Inr isE \<Rightarrow> (if \<not> isE then Inl (Err ''bucket not exists'') else Inr \<lparr>mfs_opt = opt, mfs_cfg = cfg\<rparr>))))"

definition min_Save :: "('o, 'i) min_ops \<Rightarrow> MinFs \<Rightarrow> (string \<Rightarrow> string) \<Rightarrow> FileInfo \<Rightarrow> reader option \<Rightarrow> 'o \<Rightarrow> unit res \<times> 'o" where
  "min_Save S c mime fi r s = (if fi_StoragePath fi = [] then (Inl (Err ''storage path is empty''), s)
     else case r of
       None \<Rightarrow> (Inl (Err ''reader is empty''), s)
     | Some b \<Rightarrow> (case min_PutObject S s (mfs_bucket c) (fi_StoragePath fi) b (fi_Size fi) (mime (fi_FileExt fi)) of
         (Inl e, s') \<Rightarrow> (Inl e, s')
       | (Inr _, s') \<Rightarrow> (Inr (), s')))"

definition min_GetPublicURL :: "MinFs \<Rightarrow> string \<Rightarrow> bool \<Rightarrow> string" where
  "min_GetPublicURL c storagePath temp = storagePath"

text \<open>The method is not looked at.\<close>

definition min_GetPresignedURL :: "('o, 'i) min_ops \<Rightarrow> MinFs \<Rightarrow> string \<Rightarrow> string \<Rightarrow> 'o \<Rightarrow> string res" where
  "min_GetPresignedURL S c method storagePath s =
     min_PresignedGetObject S s (mfs_bucket c) storagePath (so_PresignedTimeout (mfs_opt c))"

definition min_ReadFile :: "('o, 'i) min_ops \<Rightarrow> MinFs \<Rightarrow> string \<Rightarrow> 'o \<Rightarrow> reader res" where
  "min_ReadFile S c storagePath s = (if storagePath = [] then Inl (Err ''storage path is empty'')
     else min_GetObject S s (mfs_bucket c) storagePath)"

definition min_DeleteFile :: "('o, 'i) min_ops \<Rightarrow> MinFs \<Rightarrow> string \<Rightarrow> 'o \<Rightarrow> unit res \<times> 'o" where
  "min_DeleteFile S c storagePath s = (if storagePath = [] then (Inl (Err ''storage path is empty''), s)
     else min_RemoveObject S s (mfs_bucket c) storagePath)"

definition min_isDirectory :: "('o, 'i) min_ops \<Rightarrow> MinFs \<Rightarrow> string \<Rightarrow> 'o \<Rightarrow> bool res" where
  "min_isDirectory S c storagePath s = (case min_StatObject S s (mfs_bucket c) storagePath of
     Inl e \<Rightarrow> (if e = min_NoSuchKey then Inr True else Inl e)
   | Inr _ \<Rightarrow> Inr False)"

definition min_copyObject :: "('o, 'i) min_ops \<Rightarrow> MinFs \<Rightarrow> string \<Rightarrow> string \<Rightarrow> 'o \<Rightarrow> unit res \<times> 'o" where
  "min_copyObject S c storagePath dest s = min_CopyObject S s (mfs_bucket c, dest) (mfs_bucket c, storagePath)"

text \<open>The loop over the channel.\<close>

partial_function (option) min_copy_loop :: "('o, 'i) min_ops \<Rightarrow> MinFs \<Rightarrow> string \<Rightarrow> string \<Rightarrow> 'i \<Rightarrow> 'o \<Rightarrow> (unit res \<times> 'o) option" where
  "min_copy_loop S c storagePath dest i s = (case min_receive S s i of
     None \<Rightarrow> Some (Inr (), s)
   | Some (Inl e, i') \<Rightarrow> Some (Inl e, s)
   | Some (Inr key, i') \<Rightarrow>
       (case min_copyObject S c key (Join dest (trim_prefix key storagePath)) s of
          (Inl e, s') \<Rightarrow> Some (Inl e, s')
        | (Inr _, s') \<Rightarrow> min_copy_loop S c storagePath dest i' s'))"

declare min_copy_loop.simps [code]

definition min_copyDirectory :: "('o, 'i) min_ops \<Rightarrow> MinFs \<Rightarrow> string \<Rightarrow> string \<Rightarrow> 'o \<Rightarrow> (unit res \<times> 'o) option" where
  "min_copyDirectory S c storagePath dest s = min_copy_loop S c storagePath dest (min_ListObjects S (mfs_bucket c) storagePath) s"

definition min_CopyDir :: "('o, 'i) min_ops \<Rightarrow> MinFs \<Rightarrow> string \<Rightarrow> string \<Rightarrow> 'o \<Rightarrow> (unit res \<times> 'o) option" where
  "min_CopyDir S c storagePath dest s =
     (if storagePath = [] then Some (Inl (Err ''source storage path is empty''), s)
      else if dest = [] then Some (Inl (Err ''destination storage path is empty''), s)
      else case min_isDirectory S c storagePath s of
        Inl e \<Rightarrow> Some (Inl e, s)
      | Inr isDir \<Rightarrow> (if isDir then min_copyDirectory S c storagePath dest s else Some (min_copyObject S c storagePath dest s)))"

definition min_UploadDirectory :: "string \<Rightarrow> string \<Rightarrow> string list res" where
  "min_UploadDirectory localDirPath destDir = Inl (Err ''UploadDirectory not implemented for MinFs'')"

section \<open>Multipart calls\<close>

text \<open>The bucket of the input is not used.\<close>

definition min_CreateMultipartUpload :: "('o, 'i) min_ops \<Rightarrow> MinFs \<Rightarrow> CreateMultipartUploadInput option \<Rightarrow> 'o \<Rightarrow> string res \<times> 'o" where
  "min_CreateMultipartUpload S c inp s = (case inp of
     Some i \<Rightarrow> (case ci_StoragePath i of
       Some p \<Rightarrow> (if p = [] then (Inl (Err ''storage path is empty''), s) else min_NewMultipartUpload S s (mfs_bucket c) p)
     | None \<Rightarrow> (Inl (Err ''storage path is empty''), s))
   | None \<Rightarrow> (Inl (Err ''storage path is empty''), s))"

definition min_GeneratePresignedURL :: "GeneratePresignedURLInput option \<Rightarrow> string res" where
  "min_GeneratePresignedURL inp = Inl (Err ''presigned part URL not supported for MinIO'')"

definition min_UploadPart :: "('o, 'i) min_ops \<Rightarrow> MinFs \<Rightarrow> UploadPartInput option \<Rightarrow> 'o \<Rightarrow> string res \<times> 'o" where
  "min_UploadPart S c inp s = (case inp of
     Some i \<Rightarrow> (case pi_StoragePath i of
       Some p \<Rightarrow> (if p = [] then (Inl (Err ''storage path is empty''), s)
         else (case (pi_UploadID i, pi_PartNumber i) of
             (Some u, Some n) \<Rightarrow> (case pi_Data i of
                 None \<Rightarrow> (Inl (Err ''reader is empty''), s)
               | Some b \<Rightarrow> min_PutObjectPart S s (mfs_bucket c) p u n b (-1))
           | _ \<Rightarrow> (Inl (Err ''uploadID or partNumber is nil''), s)))
     | None \<Rightarrow> (Inl (Err ''storage path is empty''), s))
   | None \<Rightarrow> (Inl (Err ''storage path is empty''), s))"

definition min_CompleteUpload :: "('o, 'i) min_ops \<Rightarrow> MinFs \<Rightarrow> CompleteMultipartUploadInput option \<Rightarrow> 'o \<Rightarrow> unit res \<times> 'o" where
  "min_CompleteUpload S c inp s = (case inp of
     Some i \<Rightarrow> (case (mi_StoragePath i, mi_UploadID i, mi_Parts i) of
       (Some p, Some u, Some cs) \<Rightarrow>
         (let compParts = map (\<lambda>(n, t). \<lparr>cp_PartNumber = (case n of None \<Rightarrow> 0 | Some m \<Rightarrow> m), cp_ETag = (case t of None \<Rightarrow> [] | Some x \<Rightarrow> x)\<rparr>) cs
          in min_CompleteMultipartUpload S s (mfs_bucket c) p u compParts)
     | _ \<Rightarrow> (Inl (Err ''storagePath, uploadID or parts is nil''), s))
   | None \<Rightarrow> (Inl (Err ''storagePath, uploadID or parts is nil''), s))"

definition min_AbortUpload :: "('o, 'i) min_ops \<Rightarrow> MinFs \<Rightarrow> AbortMultipartUploadInput option \<Rightarrow> 'o \<Rightarrow> unit res \<times> 'o" where
  "min_AbortUpload S c inp s = (case inp of
     Some i \<Rightarrow> (case (ai_StoragePath i, ai_UploadID i) of
       (Some p, Some u) \<Rightarrow> min_AbortMultipartUpload S s (mfs_bucket c) p u
     | _ \<Rightarrow> (Inl (Err ''storagePath or uploadID is nil''), s))
   | None \<Rightarrow> (Inl (Err ''storagePath or uploadID is nil''), s))"

section \<open>Copying\<close>

context min_store
begin

lemma min_copyObject_right:
  assumes "min_copyObject S c k (g k) s = (r, s')" "k \<in> K" "obj s (mfs_bucket c) k = obj s0 (mfs_bucket c) k"
  shows "right_writes (\<lambda>s. obj s (mfs_bucket c)) K g s0 s s'" "is_ok r \<Longrightarrow> obj s' (mfs_bucket c) (g k) = obj s (mfs_bucket c) k"
proof -
  note run = assms(1) [unfolded min_copyObject_def]
  show "right_writes (\<lambda>s. obj s (mfs_bucket c)) K g s0 s s'"
    unfolding right_writes_def
  proof
    fix x
    show "obj s' (mfs_bucket c) x = obj s (mfs_bucket c) x \<or> (\<exists>k\<in>K. x = g k \<and> obj s' (mfs_bucket c) x = obj s0 (mfs_bucket c) k)"
      using copy_atomic [OF run] copy_frame [OF run, of "mfs_bucket c" x] assms(2,3) by (cases "x = g k") auto
  qed
  show "is_ok r \<Longrightarrow> obj s' (mfs_bucket c) (g k) = obj s (mfs_bucket c) k" using copy_ok run by (cases r) auto
qed

lemma min_copy_loop_right:
  assumes "inj_on g K" "\<And>k. k \<in> K \<Longrightarrow> has_prefix k p \<and> g k = Join d (trim_prefix k p) \<and> \<not> has_prefix (g k) p"
    and "about i = (mfs_bucket c, p)" "finite (left s i)" "left s i \<subseteq> K"
    and "\<forall>k. has_prefix k p \<longrightarrow> obj s (mfs_bucket c) k = obj s0 (mfs_bucket c) k"
  shows "\<exists>r s'. min_copy_loop S c p d i s = Some (r, s') \<and> right_writes (\<lambda>s. obj s (mfs_bucket c)) K g s0 s s' \<and>
    (is_ok r \<longrightarrow> (\<forall>k\<in>left s i. obj s' (mfs_bucket c) (g k) = obj s0 (mfs_bucket c) k))"
  using assms(3-)
proof (induction "card (left s i)" arbitrary: s i rule: less_induct)
  case less
  let ?b = "mfs_bucket c"
  note run = min_copy_loop.simps [of S c p d i s]
  consider (closed) "min_receive S s i = None" | (err) e i' where "min_receive S s i = Some (Inl e, i')"
    | (key) k i' where "min_receive S s i = Some (Inr k, i')" by (metis option.exhaust prod.exhaust sum.exhaust)
  then show ?case
  proof cases
    case closed
    then show ?thesis using list_closed by (simp add: run)
  next
    case (err e i')
    then show ?thesis by (simp add: run)
  next
    case (key k i')
    have k: "k \<in> left s i" "left s i' = left s i - {k}" "about i' = (?b, p)" using list_next [OF key] less.prems(1) by auto
    have kK: "k \<in> K" "obj s ?b k = obj s0 ?b k" using k(1) less.prems(3,4) assms(2) by auto
    have g: "g k = Join d (trim_prefix k p)" using assms(2) kK by blast
    obtain r1 s1 where c: "min_copyObject S c k (g k) s = (r1, s1)" by (cases "min_copyObject S c k (g k) s")
    note cp = min_copyObject_right [where g = g, OF c kK]
    show ?thesis
    proof (cases r1)
      case (Inl e)
      with key c g cp(1) show ?thesis by (simp add: run)
    next
      case (Inr u)
      have same: "obj s1 ?b x = obj s ?b x" if "has_prefix x p" for x
        using right_writes_source [OF cp(1), of p x] assms(2) that by blast
      have st: "left s1 i' = left s i - {k}" 
      proof -
        have "keys_with obj s1 ?b p = keys_with obj s ?b p" using same by (auto simp: keys_with_def)
        from list_stable [OF k(3) this] k(2) show ?thesis by simp
      qed
      have "card (left s1 i') < card (left s i)" using card_Diff1_less [OF less.prems(2) k(1)] by (simp only: st)
      moreover have "\<forall>k. has_prefix k p \<longrightarrow> obj s1 ?b k = obj s0 ?b k" using same less.prems(4) by simp
      ultimately obtain r s' where ih: "min_copy_loop S c p d i' s1 = Some (r, s')" "right_writes (\<lambda>s. obj s ?b) K g s0 s1 s'"
        "is_ok r \<longrightarrow> (\<forall>k\<in>left s1 i'. obj s' ?b (g k) = obj s0 ?b k)"
        using less.hyps [of s1 i'] less.prems(2,3) st k(3) by auto
      have "obj s' ?b (g k) = obj s0 ?b k" using right_writes_keep [OF ih(2) assms(1) kK(1)] cp(2) Inr kK(2) by simp
      with ih(3) st have "is_ok r \<longrightarrow> (\<forall>k\<in>left s i. obj s' ?b (g k) = obj s0 ?b k)" by auto
      then show ?thesis using key c g Inr ih(1) right_writes_trans [OF cp(1) ih(2)] by (auto simp: run)
    qed
  qed
qed

lemma min_copyDirectory_right:
  assumes "inj_on g (keys_with obj s (mfs_bucket c) p)" "finite (keys_with obj s (mfs_bucket c) p)"
    and "\<And>k. k \<in> keys_with obj s (mfs_bucket c) p \<Longrightarrow> g k = Join d (trim_prefix k p) \<and> \<not> has_prefix (g k) p"
  shows "\<exists>r s'. min_copyDirectory S c p d s = Some (r, s') \<and>
    right_writes (\<lambda>s. obj s (mfs_bucket c)) (keys_with obj s (mfs_bucket c) p) g s s s' \<and>
    (is_ok r \<longrightarrow> (\<forall>k\<in>keys_with obj s (mfs_bucket c) p. obj s' (mfs_bucket c) (g k) = obj s (mfs_bucket c) k))"
proof -
  have "has_prefix k p \<and> g k = Join d (trim_prefix k p) \<and> \<not> has_prefix (g k) p" if "k \<in> keys_with obj s (mfs_bucket c) p" for k
    using assms(3) [OF that] that unfolding keys_with_def by blast
  from min_copy_loop_right [where i = "min_ListObjects S (mfs_bucket c) p", OF assms(1) this] assms(2)
  show ?thesis by (simp add: min_copyDirectory_def list_start)
qed

end


section \<open>An instance in memory\<close>

text \<open>The objects of the S3 instance; a channel is the bucket, the prefix and the last key received.\<close>

type_synonym mem_channel = "string \<times> string \<times> string option"

definition mem_receive :: "mem_s3 \<Rightarrow> mem_channel \<Rightarrow> (string res \<times> mem_channel) option" where
  "mem_receive s i = (case i of (b, p, tok) \<Rightarrow> (case m3_list s b p tok of [] \<Rightarrow> None | k # _ \<Rightarrow> Some (Inr k, (b, p, Some (CHR ''k'' # k)))))"

definition mem_min :: "(mem_s3, mem_channel) min_ops" where
  "mem_min = \<lparr>
     min_New = (\<lambda>_ _ _. None),
     min_BucketExists = (\<lambda>s b. Inr True),
     min_PutObject = (\<lambda>s b k r sz ct. case snd r of Some e \<Rightarrow> (Inl e, s)
        | None \<Rightarrow> (Inr (), s\<lparr>m3_objects := ((b, k), if sz = -1 then fst r else take (nat sz) (fst r)) # m3_objects s\<rparr>)),
     min_PresignedGetObject = (\<lambda>s b k d. Inr (b @ ''/'' @ k)),
     min_GetObject = (\<lambda>s b k. case m3_obj s b k of None \<Rightarrow> Inr ([], Some min_NoSuchKey) | Some c \<Rightarrow> Inr (c, None)),
     min_RemoveObject = (\<lambda>s b k. (Inr (), s\<lparr>m3_objects := filter (\<lambda>e. fst e \<noteq> (b, k)) (m3_objects s)\<rparr>)),
     min_StatObject = (\<lambda>s b k. case m3_obj s b k of None \<Rightarrow> Inl min_NoSuchKey | Some c \<Rightarrow> Inr ()),
     min_CopyObject = (\<lambda>s d src. case m3_obj s (fst src) (snd src) of
        None \<Rightarrow> (Inl min_NoSuchKey, s) | Some c \<Rightarrow> (Inr (), s\<lparr>m3_objects := (d, c) # m3_objects s\<rparr>)),
     min_ListObjects = (\<lambda>b p. (b, p, None)),
     min_receive = mem_receive,
     min_NewMultipartUpload = (\<lambda>s b k. aws_CreateMultipartUpload mem_aws s b k None),
     min_PutObjectPart = (\<lambda>s b k u n d sz. aws_UploadPart mem_aws s b k u n d),
     min_CompleteMultipartUpload = (\<lambda>s b k u cs. aws_CompleteMultipartUpload mem_aws s b k u (map (\<lambda>c. (Some (cp_PartNumber c), Some (cp_ETag c))) cs)),
     min_AbortMultipartUpload = (\<lambda>s b k u. aws_AbortMultipartUpload mem_aws s b k u)\<rparr>"

definition mem_left :: "mem_s3 \<Rightarrow> mem_channel \<Rightarrow> string set" where
  "mem_left s i = (case i of (b, p, tok) \<Rightarrow> m3_left s b p tok)"

definition mem_about :: "mem_channel \<Rightarrow> string \<times> string" where
  "mem_about i = (fst i, fst (snd i))"

lemma mem_receive_next:
  assumes "mem_receive s i = Some (Inr k, i')"
  shows "k \<in> mem_left s i \<and> mem_left s i' = mem_left s i - {k} \<and> mem_about i' = mem_about i"
proof -
  obtain b p tok where i: "i = (b, p, tok)" by (cases i)
  from assms i obtain ks where l: "m3_list s b p tok = k # ks" and i': "i' = (b, p, Some (CHR ''k'' # k))"
    by (auto simp: mem_receive_def split: list.splits)
  have sorted: "\<forall>x\<in>set ks. k < x" using m3_list_sorted [of s b p tok] l by simp
  have set: "m3_left s b p tok = insert k (set ks)" using set_m3_list [of s b p tok] l by simp
  have tok: "after_token tok x" if "k < x" for x
  proof -
    have "after_token tok k" using set by (auto simp: m3_left_def)
    with that show ?thesis by (auto simp: after_token_def split: option.splits)
  qed
  have "m3_left s b p (Some (CHR ''k'' # k)) = {x \<in> m3_left s b p tok. k < x}"
    using tok by (auto simp: m3_left_def after_token_def)
  also have "\<dots> = m3_left s b p tok - {k}" using sorted unfolding set by auto
  finally show ?thesis using set by (simp add: mem_left_def mem_about_def i i')
qed

interpretation mem_min_objects: min_store mem_min m3_obj mem_left mem_about
proof
  show "mem_left s' i = mem_left s i" if "mem_about i = (b, p)" "keys_with m3_obj s' b p = keys_with m3_obj s b p" for i b p s s'
    using that by (cases i) (auto simp: mem_left_def mem_about_def m3_left_def)
  show "k \<in> mem_left s i \<and> mem_left s i' = mem_left s i - {k} \<and> mem_about i' = mem_about i"
    if "min_receive mem_min s i = Some (Inr k, i')" for s i k i'
    using that by (intro mem_receive_next) (simp add: mem_min_def)
  show "mem_left s i = {}" if "min_receive mem_min s i = None" for s i
  proof (cases i)
    case (fields b p tok)
    with that have "m3_list s b p tok = []" by (auto simp: mem_min_def mem_receive_def split: list.splits)
    with set_m3_list [of s b p tok] fields show ?thesis by (simp add: mem_left_def)
  qed
qed (auto simp: mem_min_def m3_obj_def mem_left_def mem_about_def m3_left_def after_token_def map_of_drop_key split: option.splits if_splits)

text \<open>
  \<open>CopyDir\<close> of the MinIO storage on a path without an object of its own: it ends, provided no copy falls under the source
  prefix again. It changes at most the targets, and when it succeeds every object whose key begins with the source has its copy.
  Unlike in the S3 storage the object whose target is the destination itself is copied too.
\<close>

theorem min_CopyDir_copies:
  assumes "min_store S obj left about" "src \<noteq> []" "dest \<noteq> []" "obj s (mfs_bucket c) src = None"
    and "finite {k. obj s (mfs_bucket c) k \<noteq> None \<and> has_prefix k src}"
    and "inj_on (\<lambda>k. Join dest (drop (length src) k)) {k. obj s (mfs_bucket c) k \<noteq> None \<and> has_prefix k src}"
    and "\<And>k. obj s (mfs_bucket c) k \<noteq> None \<Longrightarrow> has_prefix k src \<Longrightarrow> \<not> has_prefix (Join dest (drop (length src) k)) src"
  shows "\<exists>r s'. min_CopyDir S c src dest s = Some (r, s') \<and>
    (\<forall>x. (\<forall>k. obj s (mfs_bucket c) k \<noteq> None \<and> has_prefix k src \<longrightarrow> x \<noteq> Join dest (drop (length src) k)) \<longrightarrow>
      obj s' (mfs_bucket c) x = obj s (mfs_bucket c) x) \<and>
    (is_ok r \<longrightarrow> (\<forall>k. obj s (mfs_bucket c) k \<noteq> None \<and> has_prefix k src \<longrightarrow>
      obj s' (mfs_bucket c) (Join dest (drop (length src) k)) = obj s (mfs_bucket c) k))"
proof -
  let ?b = "mfs_bucket c" and ?g = "\<lambda>k. Join dest (drop (length src) k)"
  let ?K = "keys_with obj s ?b src"
  have g: "?g k = Join dest (trim_prefix k src) \<and> \<not> has_prefix (?g k) src" if "k \<in> ?K" for k
    using assms(7) [of k] that by (auto simp: keys_with_def trim_prefix_def)
  have fin: "finite ?K" and inj: "inj_on ?g ?K" using assms(5,6) by (simp_all add: keys_with_def)
  from min_store.min_copyDirectory_right [OF assms(1) inj fin g] obtain r s' where run: "min_copyDirectory S c src dest s = Some (r, s')"
    "right_writes (\<lambda>s. obj s ?b) ?K ?g s s s'" "is_ok r \<longrightarrow> (\<forall>k\<in>?K. obj s' ?b (?g k) = obj s ?b k)" by blast
  show ?thesis
  proof (cases "min_isDirectory S c src s")
    case (Inl e)
    with assms(2,3) show ?thesis by (simp add: min_CopyDir_def)
  next
    case (Inr d)
    have d using Inr assms(4) min_store.stat_ok [OF assms(1), of s ?b src]
      by (cases "min_StatObject S s ?b src") (auto simp: min_isDirectory_def split: if_splits)
    with Inr run(1) assms(2,3) have "min_CopyDir S c src dest s = Some (r, s')" by (simp add: min_CopyDir_def)
    then show ?thesis using run(2,3) unfolding right_writes_def keys_with_def by blast
  qed
qed

text \<open>Whatever method is asked for, the address is that of a download.\<close>

lemma min_presign_ignores_method: "min_GetPresignedURL S c method p s = min_GetPresignedURL S c ''GET'' p s"
  by (simp add: min_GetPresignedURL_def)

end
