(* ===== verification/Upload_Api.thy ===== *)
theory Upload_Api
  imports Minio_Storage Storage_Factory Uploader_Correct
begin

text \<open>
  What the storages have in common (the interface \<open>Storager\<close> of \<open>storage/storage.go\<close>), as a locale: what is saved under a path is
  what is read there, and nothing else changes. The four drivers give it, each with its own notion of which paths are the
  same file. On it rests the handler that stores an uploaded image (\<open>apis/upload/uplaod.go\<close>).
\<close>

section \<open>The contract of a storage\<close>

text \<open>
  \<open>key\<close> says which stored file a path names; \<open>fits\<close> is what a driver asks of the record that describes the upload.
\<close>

locale storager =
  fixes save :: "FileInfo \<Rightarrow> reader \<Rightarrow> 'w \<Rightarrow> FileInfo res \<times> 'w" and read :: "string \<Rightarrow> 'w \<Rightarrow> reader res"
    and delete :: "string \<Rightarrow> 'w \<Rightarrow> unit res \<times> 'w" and content :: "'w \<Rightarrow> 'k \<Rightarrow> string option"
    and key :: "string \<Rightarrow> 'k" and fits :: "FileInfo \<Rightarrow> reader \<Rightarrow> bool"
  assumes save_ok: "save fi r w = (Inr fi', w') \<Longrightarrow> fits fi r \<Longrightarrow> snd r = None \<and> content w' (key (fi_StoragePath fi)) = Some (fst r)"
    and save_same: "save fi r w = (Inr fi', w') \<Longrightarrow> key (fi_StoragePath fi') = key (fi_StoragePath fi)"
    and save_record: "save fi r w = (Inr fi', w') \<Longrightarrow> fi_ID fi' = fi_ID fi \<and> fi_Purpose fi' = fi_Purpose fi \<and> fi_Uin fi' = fi_Uin fi"
    and save_frame: "save fi r w = (x, w') \<Longrightarrow> k \<noteq> key (fi_StoragePath fi) \<Longrightarrow> content w' k = content w k"
    and read_ok: "read p w = Inr r \<Longrightarrow> snd r = None \<Longrightarrow> content w (key p) = Some (fst r)"
    and delete_ok: "delete p w = (Inr u, w') \<Longrightarrow> content w' (key p) = None"
    and delete_frame: "delete p w = (y, w') \<Longrightarrow> k \<noteq> key p \<Longrightarrow> content w' k = content w k"
begin

text \<open>What was saved is read back, also after other files were saved or deleted.\<close>

lemma saved_is_read:
  assumes "save fi r w = (Inr fi', w1)" "fits fi r" "content w2 (key (fi_StoragePath fi)) = content w1 (key (fi_StoragePath fi))"
    and "read p w2 = Inr rd" "snd rd = None" "key p = key (fi_StoragePath fi)"
  shows "fst rd = fst r"
  using save_ok [OF assms(1,2)] read_ok [OF assms(4,5)] assms(3,6) by simp

end

section \<open>The drivers\<close>

text \<open>The methods of the drivers in the form of the contract.\<close>

definition local_save :: "'f fs_ops \<Rightarrow> LocalStorage \<Rightarrow> FileInfo \<Rightarrow> reader \<Rightarrow> 'f \<Rightarrow> FileInfo res \<times> 'f" where
  "local_save F ls fi r f = (case Save F ls fi r f of (Inl e, fi', f') \<Rightarrow> (Inl e, f') | (Inr _, fi', f') \<Rightarrow> (Inr fi', f'))"

definition local_read :: "'f fs_ops \<Rightarrow> LocalStorage \<Rightarrow> string \<Rightarrow> 'f \<Rightarrow> reader res" where
  "local_read F ls p f = (case ReadFile F ls p f of Inl e \<Rightarrow> Inl e | Inr q \<Rightarrow> Inr (fs_read F f q))"

definition s3_read :: "'o aws_ops \<Rightarrow> S3Fs \<Rightarrow> string \<Rightarrow> 'o \<Rightarrow> reader res" where
  "s3_read S c p s = (case s3_ReadFile S c p s of Inl e \<Rightarrow> Inl e | Inr b \<Rightarrow> Inr (b, None))"

definition tc_save :: "'o cos_ops \<Rightarrow> TencentCos \<Rightarrow> (string \<Rightarrow> string) \<Rightarrow> FileInfo \<Rightarrow> reader \<Rightarrow> 'o \<Rightarrow> FileInfo res \<times> 'o" where
  "tc_save S tc mime fi r s = tc_Save S tc mime fi (Some (fst r)) s"

definition tc_read :: "'o cos_ops \<Rightarrow> string \<Rightarrow> 'o \<Rightarrow> reader res" where
  "tc_read S p s = (case tc_ReadFile S p s of Inl e \<Rightarrow> Inl e | Inr b \<Rightarrow> Inr (b, None))"

definition min_save :: "('o, 'i) min_ops \<Rightarrow> MinFs \<Rightarrow> (string \<Rightarrow> string) \<Rightarrow> FileInfo \<Rightarrow> reader \<Rightarrow> 'o \<Rightarrow> FileInfo res \<times> 'o" where
  "min_save S c mime fi r s = (case min_Save S c mime fi (Some r) s of (Inl e, s') \<Rightarrow> (Inl e, s') | (Inr _, s') \<Rightarrow> (Inr fi, s'))"

definition any_upload :: "FileInfo \<Rightarrow> reader \<Rightarrow> bool" where
  "any_upload fi r = True"

definition whole_upload :: "FileInfo \<Rightarrow> reader \<Rightarrow> bool" where
  "whole_upload fi r \<longleftrightarrow> snd r = None"

definition sized_upload :: "FileInfo \<Rightarrow> reader \<Rightarrow> bool" where
  "sized_upload fi r \<longleftrightarrow> fi_Size fi = int (length (fst r)) \<or> fi_Size fi = -1"

locale local_client = file_system F node for F :: "'f fs_ops" and node +
  fixes ls :: LocalStorage

sublocale local_client < ld: storager "local_save F ls" "local_read F ls" "DeleteFile F ls" "file_at node"
  "\<lambda>p. loc_of (Join (ls_Dir ls) (Clean p))" any_upload
proof
  fix fi r w fi' w' k x p u y rd
  let ?k = "\<lambda>p. loc_of (Join (ls_Dir ls) (Clean p))"
  show "snd r = None \<and> file_at node w' (?k (fi_StoragePath fi)) = Some (fst r)" "?k (fi_StoragePath fi') = ?k (fi_StoragePath fi)"
    "fi_ID fi' = fi_ID fi \<and> fi_Purpose fi' = fi_Purpose fi \<and> fi_Uin fi' = fi_Uin fi"
    if "local_save F ls fi r w = (Inr fi', w')"
  proof -
    from that have "Save F ls fi r w = (Inr (), fi', w')" by (auto simp: local_save_def split: prod.splits sum.splits)
    from Save_ok [OF this] show "snd r = None \<and> file_at node w' (?k (fi_StoragePath fi)) = Some (fst r)"
      "?k (fi_StoragePath fi') = ?k (fi_StoragePath fi)" "fi_ID fi' = fi_ID fi \<and> fi_Purpose fi' = fi_Purpose fi \<and> fi_Uin fi' = fi_Uin fi"
      by (simp_all add: file_at_def Clean_Clean)
  qed
  show "file_at node w' k = file_at node w k" if "local_save F ls fi r w = (x, w')" "k \<noteq> ?k (fi_StoragePath fi)"
    using that by (auto simp: local_save_def split: prod.splits sum.splits intro: Save_frame)
  show "file_at node w (?k p) = Some (fst rd)" if "local_read F ls p w = Inr rd" "snd rd = None"
  proof -
    from that obtain q where q: "ReadFile F ls p w = Inr q" "rd = fs_read F w q" by (auto simp: local_read_def split: sum.splits)
    then have "node w (?k p) \<noteq> None" using ReadFile_missing [of w ls p] by auto
    then show ?thesis using ReadFile_ok [OF q(1)] q(2) that(2) read_ok [of w "Join (ls_Dir ls) (Clean p)"] read_dir [of w "Join (ls_Dir ls) (Clean p)"]
      by (auto simp: file_at_def split: fnode.splits)
  qed
  show "file_at node w' (?k p) = None" if "DeleteFile F ls p w = (Inr u, w')"
    using that remove_ok by (auto simp: DeleteFile_def Let_def file_at_def split: sum.splits)
  show "file_at node w' k = file_at node w k" if "DeleteFile F ls p w = (y, w')" "k \<noteq> ?k p"
    using DeleteFile_frame [OF that] .
qed

locale s3_client = s3_store S obj up left for S :: "'o aws_ops" and obj up left +
  fixes c :: S3Fs and mime :: "string \<Rightarrow> string"

sublocale s3_client < sd: storager "\<lambda>fi r. s3_Save S c mime fi (Some r)" "s3_read S c" "s3_DeleteFile S c" "\<lambda>s. obj s (s3_bucket c)" "\<lambda>p. p" any_upload
  by unfold_locales
    (auto simp: s3_Save_def s3_read_def s3_ReadFile_def s3_DeleteFile_def split: if_splits prod.splits sum.splits
      dest: put_ok put_frame get_ok delete_ok delete_frame)

locale cos_client = object_store S obj up endpoint for S :: "'o cos_ops" and obj up endpoint +
  fixes tc :: TencentCos and mime :: "string \<Rightarrow> string"

sublocale cos_client < td: storager "tc_save S tc mime" "tc_read S" "tc_DeleteFile S" obj "\<lambda>p. p" whole_upload
  by unfold_locales
    (auto simp: tc_save_def tc_Save_def tc_read_def tc_ReadFile_def tc_DeleteFile_def whole_upload_def Let_def split: if_splits prod.splits sum.splits
      dest: put_ok put_frame get_ok delete_ok delete_frame)

locale min_client = min_store S obj left about for S :: "('o, 'i) min_ops" and obj left about +
  fixes c :: MinFs and mime :: "string \<Rightarrow> string"

sublocale min_client < md: storager "min_save S c mime" "min_ReadFile S c" "min_DeleteFile S c" "\<lambda>s. obj s (mfs_bucket c)" "\<lambda>p. p" sized_upload
  by unfold_locales
    (auto simp: min_save_def min_Save_def min_ReadFile_def min_DeleteFile_def sized_upload_def split: if_splits prod.splits sum.splits
      dest: put_ok put_frame get_ok remove_ok remove_frame)


text \<open>The drivers on their instances in memory.\<close>

definition ex_local :: LocalStorage where
  "ex_local = \<lparr>ls_cfg = \<lparr>lc_Dir = ''d'', lc_PublicPrefix = ''http://h''\<rparr>, ls_Dir = ''d''\<rparr>"

definition ex_minio :: MinFs where
  "ex_minio = \<lparr>mfs_opt = \<lparr>so_Purpose = ''doc'', so_PresignedTimeout = 60\<rparr>,
     mfs_cfg = \<lparr>mo_EndPoint = ''m'', mo_AccessKeyID = [], mo_SecretAccessKey = [], mo_Bucket = ''b''\<rparr>\<rparr>"

interpretation mem_local: local_client mem_fs_ops map_of ex_local
  by (intro local_client.intro mem_files.file_system_axioms)

interpretation mem_s3_client: s3_client mem_aws m3_obj m3_up m3_left ex_s3 "\<lambda>_. []"
  by (intro s3_client.intro mem_s3_objects.s3_store_axioms)

interpretation mem_cos_client: cos_client mem_cos ms_obj ms_ups mem_endpoint ex_client "\<lambda>_. []"
  by (intro cos_client.intro mem_objects.object_store_axioms)

interpretation mem_min_client: min_client mem_min m3_obj mem_left mem_about ex_minio "\<lambda>_. []"
  by (intro min_client.intro mem_min_objects.min_store_axioms)

context min_client
begin

lemma min_storager: "storager (min_save S c mime) (min_ReadFile S c) (min_DeleteFile S c) (\<lambda>s. obj s (mfs_bucket c)) (\<lambda>p. p) sized_upload"
  by (rule md.storager_axioms)

end

section \<open>Uploading an image\<close>

text \<open>What the handler answers: an error with a status and a message, or the identifier and address of the file.\<close>

datatype upload_reply = UploadError nat string | UploadImageResponse nat string

text \<open>
  \<open>form\<close> is the form file of the request: its content, name and size. \<open>save\<close> and \<open>url\<close> are the methods \<open>Save\<close> and
  \<open>GetPublicURL\<close> of a storage. The date and the random characters of the path are arguments.
\<close>

definition image_info :: "string \<Rightarrow> string \<Rightarrow> nat \<Rightarrow> nat \<Rightarrow> string \<Rightarrow> string \<Rightarrow> int \<Rightarrow> FileInfo" where
  "image_info date rnd companyID uin purpose filename sz =
     (let ext = ToLower (Ext filename) in
      zero_file\<lparr>fi_Purpose := purpose, fi_CompanyID := companyID, fi_Uin := uin, fi_Filename := filename, fi_Size := sz, fi_FileExt := ext,
        fi_StoragePath := ''/'' @ GenerateFileStoragePath date rnd purpose uin ext\<rparr>)"

definition UploadUserImage :: "'st constructors \<Rightarrow> (string \<Rightarrow> StorageConfig res) \<Rightarrow> ('st \<Rightarrow> FileInfo \<Rightarrow> reader \<Rightarrow> 'w \<Rightarrow> FileInfo res \<times> 'w) \<Rightarrow>
    ('st \<Rightarrow> string \<Rightarrow> bool \<Rightarrow> 'w \<Rightarrow> string) \<Rightarrow> ('d, FileInfo) table_ops \<Rightarrow> gotime \<Rightarrow> string \<Rightarrow> string \<Rightarrow> nat \<Rightarrow> nat \<Rightarrow>
    (reader \<times> string \<times> int) res \<Rightarrow> string \<Rightarrow> (string \<rightharpoonup> 'st) \<Rightarrow> 'w \<Rightarrow> 'd \<Rightarrow> upload_reply \<times> (string \<rightharpoonup> 'st) \<times> 'w \<times> 'd" where
  "UploadUserImage D yaml save url T now date rnd companyID uin form purpose m w d = (case form of
     Inl _ \<Rightarrow> (UploadError 400 ''invalid parameter'', m, w, d)
   | Inr (f, filename, sz) \<Rightarrow>
       (case LoadStorager D yaml purpose m of
          (Inl _, m') \<Rightarrow> (UploadError 500 ''server error'', m', w, d)
        | (Inr st, m') \<Rightarrow>
            (case save st (image_info date rnd companyID uin purpose filename sz) f w of
               (Inl _, w') \<Rightarrow> (UploadError 500 ''server error'', m', w', d)
             | (Inr fi, w') \<Rightarrow>
                 (let fi1 = fi\<lparr>fi_PublicURL := url st (fi_StoragePath fi) False w'\<rparr> in
                  case tb_insert T d [file_created now fi1] of
                    Inl _ \<Rightarrow> (UploadError 500 ''server error'', m', w', d)
                  | Inr (created, d') \<Rightarrow>
                      (let fi2 = first_or fi1 created in (UploadImageResponse (fi_ID fi2) (fi_PublicURL fi2), m', w', d'))))))"

text \<open>
  The handler answers with a file only when everything was done: the storage of the purpose holds the bytes of the form file
  under the generated path, and the table has gained exactly one row, with the identifier and address of the answer, for that
  purpose and user, which is the file the path names. On every error answer the table is as it was. (C36)
\<close>

theorem UploadUserImage_done:
  assumes "\<And>st. storager (save st) (read st) (delete st) (content st) (key st) (fits st)"
    and "sql_table T rows tinv fi_ID (\<lambda>k r. r\<lparr>fi_ID := k\<rparr>)" "tinv d"
    and "UploadUserImage D yaml save url T now date rnd companyID uin form purpose m w d = (reply, m', w', d')"
  shows "(case reply of
      UploadError status msg \<Rightarrow> rows d' = rows d
    | UploadImageResponse fid addr \<Rightarrow>
        (\<exists>st f filename sz row. m' purpose = Some st \<and> form = Inr (f, filename, sz) \<and> rows d' = rows d @ [row] \<and>
          fi_ID row = fid \<and> fid \<noteq> 0 \<and> fi_PublicURL row = addr \<and> fi_Purpose row = purpose \<and> fi_Uin row = uin \<and>
          key st (fi_StoragePath row) = key st (fi_StoragePath (image_info date rnd companyID uin purpose filename sz)) \<and>
          (fits st (image_info date rnd companyID uin purpose filename sz) f \<longrightarrow>
            snd f = None \<and> content st w' (key st (fi_StoragePath row)) = Some (fst f))))"
proof (cases reply)
  case (UploadError status msg)
  with assms(4) show ?thesis
    by (auto simp: UploadUserImage_def Let_def split: sum.splits prod.splits)
next
  case (UploadImageResponse fid addr)
  with assms(4) obtain f filename sz st fi created where s: "form = Inr (f, filename, sz)" "LoadStorager D yaml purpose m = (Inr st, m')"
    "save st (image_info date rnd companyID uin purpose filename sz) f w = (Inr fi, w')"
    "tb_insert T d [file_created now (fi\<lparr>fi_PublicURL := url st (fi_StoragePath fi) False w'\<rparr>)] = Inr (created, d')"
    "fid = fi_ID (first_or (fi\<lparr>fi_PublicURL := url st (fi_StoragePath fi) False w'\<rparr>) created)"
    "addr = fi_PublicURL (first_or (fi\<lparr>fi_PublicURL := url st (fi_StoragePath fi) False w'\<rparr>) created)"
    by (auto simp: UploadUserImage_def Let_def split: sum.splits prod.splits)
  let ?fi1 = "fi\<lparr>fi_PublicURL := url st (fi_StoragePath fi) False w'\<rparr>" and ?i = "image_info date rnd companyID uin purpose filename sz"
  have rec: "fi_ID fi = 0" "fi_Purpose fi = purpose" "fi_Uin fi = uin"
    using storager.save_record [OF assms(1) s(3)] by (simp_all add: image_info_def Let_def zero_file_def)
  from sql_table.insert_rows [OF assms(2,3) s(4)] obtain row where row: "created = [row]" "rows d' = rows d @ [row]" "tinv d'"
    "row = (file_created now ?fi1)\<lparr>fi_ID := fi_ID row\<rparr>" using rec(1) by (auto simp: list_all2_Cons1 file_created_def)
  have "fi_ID row \<noteq> 0" using sql_table.keys_nonzero [OF assms(2) row(3), of row] row(2) by simp
  moreover have "fi_PublicURL row = fi_PublicURL ?fi1 \<and> fi_Purpose row = purpose \<and> fi_Uin row = uin \<and> fi_StoragePath row = fi_StoragePath fi"
    by (subst (1 2 3 4) row(4)) (simp add: file_created_def rec)
  moreover have "m' purpose = Some st" using s(2) by (auto simp: LoadStorager_def split: option.splits sum.splits)
  ultimately show ?thesis
    using s row storager.save_same [OF assms(1) s(3)] storager.save_ok [OF assms(1) s(3)] UploadImageResponse by auto
qed


definition ex_makers :: "MinFs constructors" where
  "ex_makers = \<lparr>mk_Local = (\<lambda>_. Inl (Err [])), mk_Tencent = (\<lambda>_ _. Inl (Err [])), mk_Min = (\<lambda>c opt. Inr \<lparr>mfs_opt = opt, mfs_cfg = c\<rparr>),
     mk_S3 = (\<lambda>_ _. Inl (Err []))\<rparr>"

definition ex_image_upload :: "upload_reply \<times> (string \<rightharpoonup> MinFs) \<times> mem_s3 \<times> FileInfo list" where
  "ex_image_upload = UploadUserImage ex_makers (\<lambda>_. Inl (Err [])) (\<lambda>st. min_save mem_min st (\<lambda>_. []))
     (\<lambda>st p temp w. min_GetPublicURL st p temp) ex_files 9 ''20240101'' ''abc'' 3 7 (Inr ((''img'', None), ''me.png'', 3)) ''avatar''
     [''avatar'' \<mapsto> ex_minio] ex_objects []"

lemma ex_image_path: "fi_StoragePath (image_info ''20240101'' ''abc'' 3 7 ''avatar'' ''me.png'' 3) = ''/avatar/20240101/7-abc.png''"
  by code_simp

lemma ex_image_reply: "fst ex_image_upload = UploadImageResponse 1 ''/avatar/20240101/7-abc.png'' \<and> fst (snd ex_image_upload) ''avatar'' = Some ex_minio"
  using ex_image_path
  by (simp add: ex_image_upload_def UploadUserImage_def LoadStorager_def min_save_def min_Save_def mem_min_def min_GetPublicURL_def
      ex_files_def mem_table_def mem_insert_def mem_checked_def mem_wf_def file_created_def image_info_def zero_file_def Let_def)

theorem UploadUserImage_done_witness:
  "\<exists>m' w' row. ex_image_upload = (UploadImageResponse 1 ''/avatar/20240101/7-abc.png'', m', w', [row]) \<and>
     fi_PublicURL row = ''/avatar/20240101/7-abc.png'' \<and> m3_obj w' ''b'' (fi_StoragePath row) = Some ''img''"
proof -
  obtain m' w' d' where run: "ex_image_upload = (UploadImageResponse 1 ''/avatar/20240101/7-abc.png'', m', w', d')"
    using ex_image_reply by (metis prod.collapse)
  have st: "storager (min_save mem_min st (\<lambda>_. [])) (min_ReadFile mem_min st) (min_DeleteFile mem_min st)
      (\<lambda>s. m3_obj s (mfs_bucket st)) (\<lambda>p. p) sized_upload" for st
    by (rule min_client.min_storager [OF min_client.intro [OF mem_min_objects.min_store_axioms]])
  have "mem_wf fi_ID []" by (simp add: mem_wf_def)
  from UploadUserImage_done [where save = "\<lambda>st. min_save mem_min st (\<lambda>_. [])" and read = "min_ReadFile mem_min"
      and delete = "min_DeleteFile mem_min" and content = "\<lambda>st s. m3_obj s (mfs_bucket st)" and key = "\<lambda>st p. p" and fits = "\<lambda>st. sized_upload",
      OF st ex_tables(2) this run [unfolded ex_image_upload_def]]
  obtain st row where row: "m' ''avatar'' = Some st" "d' = [row]" "fi_PublicURL row = ''/avatar/20240101/7-abc.png''"
    "m3_obj w' (mfs_bucket st) (fi_StoragePath row) = Some ''img''" by (auto simp: sized_upload_def image_info_def Let_def)
  have "st = ex_minio" using conjunct2 [OF ex_image_reply] row(1) by (simp only: run fst_conv snd_conv option.inject)
  then show ?thesis using run row by (auto simp: ex_minio_def)
qed

end
