(* ===== verification/Storage_V2.thy ===== *)
theory Storage_V2
  imports Minio_Storage Storage_Factory
begin

text \<open>
  The drivers of the second version of the storage package (\<open>storage/v2/local\<close>, \<open>storage/v2/tencos\<close>, \<open>storage/v2/s3\<close>, \<open>storage/v2/minio\<close>)
  and its queries for files (\<open>storage/v2/types.go\<close>), translated on their own from those files, and what they have to do with the
  first version: the same operations with other messages. Where the source has a loop or a recursion line by line like the first
  version's, the definition of that loop is used.
\<close>

section \<open>Files\<close>

definition v2_GetFileByChunkHash :: "('d, FileInfo) table_ops \<Rightarrow> string \<Rightarrow> int \<Rightarrow> 'd \<Rightarrow> FileInfo res" where
  "v2_GetFileByChunkHash T hashstr sz d = found_file (first_file T (\<lambda>r. fi_Size r = sz \<and> fi_ChunkHash r = hashstr) d)"

definition v2_GetFileByHash :: "('d, FileInfo) table_ops \<Rightarrow> string \<Rightarrow> 'd \<Rightarrow> FileInfo res" where
  "v2_GetFileByHash T hashstr d = found_file (first_file T (\<lambda>r. fi_Hash r = hashstr) d)"

definition v2_GetFileByPublicURL :: "('d, FileInfo) table_ops \<Rightarrow> string \<Rightarrow> 'd \<Rightarrow> FileInfo res" where
  "v2_GetFileByPublicURL T publicURL d = found_file (first_file T (\<lambda>r. fi_PublicURL r = publicURL) d)"

definition v2_GetFileByID :: "('d, FileInfo) table_ops \<Rightarrow> nat \<Rightarrow> 'd \<Rightarrow> FileInfo res" where
  "v2_GetFileByID T k d = (if k = 0 then Inl gorm_ErrRecordNotFound else first_file T (\<lambda>r. fi_ID r = k) d)"

definition v2_GenerateFileStoragePath :: "string \<Rightarrow> string \<Rightarrow> string \<Rightarrow> nat \<Rightarrow> string \<Rightarrow> string" where
  "v2_GenerateFileStoragePath date rnd purpose owner fileExt =
     purpose @ ''/'' @ date @ ''/'' @ nat_digits owner @ ''-'' @ rnd @ fileExt"

definition v2_GenerateFileStoragePathWithName :: "string \<Rightarrow> string \<Rightarrow> string \<Rightarrow> nat \<Rightarrow> string \<Rightarrow> string" where
  "v2_GenerateFileStoragePathWithName date rnd purpose owner fileName =
     purpose @ ''/'' @ date @ ''/'' @ nat_digits owner @ ''-'' @ rnd @ ''/'' @ fileName"

section \<open>Local directory\<close>

definition v2_local_NewLocalStorage :: "'f fs_ops \<Rightarrow> LocalStorageConfig \<Rightarrow> 'f \<Rightarrow> LocalStorage res \<times> 'f" where
  "v2_local_NewLocalStorage F cfg f =
     (let ls = \<lparr>ls_cfg = cfg, ls_Dir = lc_Dir cfg\<rparr>
      in case fs_mkdirall F f (lc_Dir (ls_cfg ls)) of
           (Inl e, f') \<Rightarrow> (Inl e, f')
         | (Inr _, f') \<Rightarrow> (Inr ls, f'))"

definition v2_local_Save :: "'f fs_ops \<Rightarrow> LocalStorage \<Rightarrow> FileInfo \<Rightarrow> reader \<Rightarrow> 'f \<Rightarrow> unit res \<times> FileInfo \<times> 'f" where
  "v2_local_Save F ls fi0 r f =
     (let storagePath = Clean (fi_StoragePath fi0);
          fi = fi0\<lparr>fi_StoragePath := storagePath\<rparr>;
          fpath = Join (ls_Dir ls) storagePath;
          dir = Dir fpath
      in case (case fs_stat F f dir of Inl _ \<Rightarrow> fs_mkdirall F f dir | Inr _ \<Rightarrow> (Inr (), f)) of
           (Inl e, f1) \<Rightarrow> (Inl e, fi, f1)
         | (Inr _, f1) \<Rightarrow>
             (case fs_create F f1 fpath of
                (Inl e, f2) \<Rightarrow> (Inl e, fi, f2)
              | (Inr _, f2) \<Rightarrow>
                  (case io_Copy F f2 fpath r of ((n, err), f3) \<Rightarrow>
                     (case err of None \<Rightarrow> Inr () | Some e \<Rightarrow> Inl e, fi\<lparr>fi_Size := int n\<rparr>, f3))))"

definition v2_local_GetPublicURL :: "LocalStorage \<Rightarrow> string \<Rightarrow> string" where
  "v2_local_GetPublicURL ls storagePath = lc_PublicPrefix (ls_cfg ls) @ ''/public.src?p='' @ storagePath"

definition v2_local_ReadFile :: "'f fs_ops \<Rightarrow> LocalStorage \<Rightarrow> string \<Rightarrow> 'f \<Rightarrow> string res" where
  "v2_local_ReadFile F ls storagePath0 f =
     (let storagePath = Clean storagePath0; fpath = Join (ls_Dir ls) storagePath
      in case fs_stat F f fpath of
           Inl e \<Rightarrow> Inl e
         | Inr _ \<Rightarrow> (case fs_open F f fpath of Inl e \<Rightarrow> Inl e | Inr _ \<Rightarrow> Inr fpath))"

definition v2_local_DeleteFile :: "'f fs_ops \<Rightarrow> LocalStorage \<Rightarrow> string \<Rightarrow> 'f \<Rightarrow> unit res \<times> 'f" where
  "v2_local_DeleteFile F ls storagePath0 f =
     (let storagePath = Clean storagePath0; fpath = Join (ls_Dir ls) storagePath
      in case fs_stat F f fpath of
           Inl e \<Rightarrow> (Inl e, f)
         | Inr _ \<Rightarrow> fs_remove F f fpath)"

definition v2_local_copyFile :: "'f fs_ops \<Rightarrow> string \<Rightarrow> string \<Rightarrow> 'f \<Rightarrow> unit res \<times> 'f" where
  "v2_local_copyFile F srcPath destPath f =
     (case fs_mkdirall F f (Dir destPath) of
        (Inl e, f1) \<Rightarrow> (Inl e, f1)
      | (Inr _, f1) \<Rightarrow>
          (case fs_open F f1 srcPath of
             Inl e \<Rightarrow> (Inl e, f1)
           | Inr _ \<Rightarrow>
               (case fs_create F f1 destPath of
                  (Inl e, f2) \<Rightarrow> (Inl e, f2)
                | (Inr _, f2) \<Rightarrow>
                    (case io_Copy F f2 destPath (fs_read F f2 srcPath) of
                       ((n, None), f3) \<Rightarrow> (Inr (), f3)
                     | ((n, Some e), f3) \<Rightarrow> (Inl e, f3)))))"

definition v2_local_copyDirectory :: "'f fs_ops \<Rightarrow> string \<Rightarrow> string \<Rightarrow> 'f \<Rightarrow> (unit res \<times> 'f) option" where
  "v2_local_copyDirectory F srcPath destPath f = copyDirectory F srcPath destPath f"

definition v2_local_CopyDir :: "'f fs_ops \<Rightarrow> LocalStorage \<Rightarrow> string \<Rightarrow> string \<Rightarrow> 'f \<Rightarrow> (unit res \<times> 'f) option" where
  "v2_local_CopyDir F ls storagePath0 dest0 f =
     (let storagePath = Clean storagePath0; dest = Clean dest0; srcPath = Join (ls_Dir ls) storagePath
      in case fs_stat F f srcPath of
           Inl e \<Rightarrow> Some (Inl e, f)
         | Inr isDir \<Rightarrow>
             (let destPath = Join (ls_Dir ls) dest
              in if isDir then v2_local_copyDirectory F srcPath destPath f else Some (v2_local_copyFile F srcPath destPath f)))"

section \<open>Tencent\<close>

definition v2_NewTencentCos :: "(string \<Rightarrow> gerror option) \<Rightarrow> TencentCOSConfig \<Rightarrow> StorageOption \<Rightarrow> TencentCos res" where
  "v2_NewTencentCos parse cfg opt = (let tc = \<lparr>tc_opt = opt, tc_cosCfg = cfg\<rparr> in
     case parse (''https://'' @ tc_domain tc) of Some e \<Rightarrow> Inl e | None \<Rightarrow> Inr tc)"

definition v2_tc_GetPresignedURL :: "'o cos_ops \<Rightarrow> TencentCos \<Rightarrow> string \<Rightarrow> string \<Rightarrow> 'o \<Rightarrow> string res" where
  "v2_tc_GetPresignedURL S tc method storagePath s = cos_Presign S s method storagePath []"

definition v2_tc_GetPublicURL :: "'o cos_ops \<Rightarrow> TencentCos \<Rightarrow> string \<Rightarrow> bool \<Rightarrow> 'o \<Rightarrow> string" where
  "v2_tc_GetPublicURL S tc storagePath temp s = (if \<not> temp then ''https://'' @ tc_domain tc @ ''/'' @ storagePath
     else (case cos_Presign S s ''GET'' storagePath [] of Inl _ \<Rightarrow> [] | Inr u \<Rightarrow> u))"

definition v2_tc_InitUploadTask :: "'o cos_ops \<Rightarrow> TempFile \<Rightarrow> 'o \<Rightarrow> TempFile res \<times> 'o" where
  "v2_tc_InitUploadTask S tempFile s = (case cos_Initiate S s (tf_StoragePath tempFile) (Some (tf_ChunkHash tempFile)) of
     (Inl e, s') \<Rightarrow> (Inl e, s')
   | (Inr u, s') \<Rightarrow> (Inr (tempFile\<lparr>tf_ThirdUploadID := u\<rparr>), s'))"

definition v2_tc_ListUploadExistsTrunk :: "'o cos_ops \<Rightarrow> TempFile \<Rightarrow> 'o \<Rightarrow> int list res" where
  "v2_tc_ListUploadExistsTrunk S tempFile s = (case cos_ListParts S s (tf_StoragePath tempFile) (tf_ThirdUploadID tempFile) of
     Inl e \<Rightarrow> Inl e
   | Inr cs \<Rightarrow> Inr (sort (map (\<lambda>c. cp_PartNumber c - 1) cs)))"

definition v2_tc_UploadTrunk :: "'o cos_ops \<Rightarrow> TempFile \<Rightarrow> int \<Rightarrow> string \<Rightarrow> int \<Rightarrow> 'o \<Rightarrow> unit res \<times> 'o" where
  "v2_tc_UploadTrunk S tempFile partNumber data sz s =
     (case cos_UploadPart S s (tf_StoragePath tempFile) (tf_ThirdUploadID tempFile) (partNumber + 1) data (Some sz) of
        (Inl e, s') \<Rightarrow> (Inl e, s')
      | (Inr _, s') \<Rightarrow> (Inr (), s'))"

definition v2_tc_CompleteUploadTask :: "'o cos_ops \<Rightarrow> TempFile \<Rightarrow> 'o \<Rightarrow> unit res \<times> 'o" where
  "v2_tc_CompleteUploadTask S tempFile s = (let filename = tf_StoragePath tempFile; uploadid = tf_ThirdUploadID tempFile in
     case cos_ListParts S s filename uploadid of
       Inl e \<Rightarrow> (Inl e, s)
     | Inr cs \<Rightarrow> cos_Complete S s filename uploadid cs)"

definition v2_tc_Save :: "'o cos_ops \<Rightarrow> TencentCos \<Rightarrow> (string \<Rightarrow> string) \<Rightarrow> FileInfo \<Rightarrow> string option \<Rightarrow> 'o \<Rightarrow> FileInfo res \<times> 'o" where
  "v2_tc_Save S tc mime fi r s = (if fi_StoragePath fi = [] then (Inl (Err ''storage path is empty''), s)
     else case r of
       None \<Rightarrow> (Inl (Err ''reader is empty''), s)
     | Some b \<Rightarrow> (case cos_Put S s (fi_StoragePath fi) b (mime (fi_FileExt fi)) of
         (Inl e, s') \<Rightarrow> (Inl e, s')
       | (Inr etag, s') \<Rightarrow>
           (let fi1 = (if etag \<noteq> [] then fi\<lparr>fi_Hash := ''md5:'' @ trim_quotes etag\<rparr> else fi)
            in (Inr (fi1\<lparr>fi_PublicURL := v2_tc_GetPublicURL S tc (fi_StoragePath fi1) False s'\<rparr>), s'))))"

definition v2_tc_ReadFile :: "'o cos_ops \<Rightarrow> string \<Rightarrow> 'o \<Rightarrow> string res" where
  "v2_tc_ReadFile S storagePath s = (if storagePath = [] then Inl (Err ''storage path is empty'') else cos_Get S s storagePath)"

definition v2_tc_DeleteFile :: "'o cos_ops \<Rightarrow> string \<Rightarrow> 'o \<Rightarrow> unit res \<times> 'o" where
  "v2_tc_DeleteFile S storagePath s = (if storagePath = [] then (Inl (Err ''storage path is empty''), s)
     else cos_Delete S s storagePath)"

definition v2_tc_isDirectory :: "'o cos_ops \<Rightarrow> string \<Rightarrow> 'o \<Rightarrow> bool res" where
  "v2_tc_isDirectory S storagePath s = (case cos_Head S s storagePath of
     Inl e \<Rightarrow> (if e = cos_NoSuchKey then Inr True else Inl e)
   | Inr _ \<Rightarrow> Inr False)"

definition v2_tc_copyObject :: "'o cos_ops \<Rightarrow> TencentCos \<Rightarrow> string \<Rightarrow> string \<Rightarrow> 'o \<Rightarrow> unit res \<times> 'o" where
  "v2_tc_copyObject S tc storagePath dest s =
     cos_Copy S s dest (trim_prefix (v2_tc_GetPublicURL S tc storagePath False s) ''https://'')"

definition v2_tc_copyDirectory :: "'o cos_ops \<Rightarrow> TencentCos \<Rightarrow> string \<Rightarrow> string \<Rightarrow> 'o \<Rightarrow> (unit res \<times> 'o) option" where
  "v2_tc_copyDirectory S tc storagePath dest s = tc_copyDirectory S tc storagePath dest s"

definition v2_tc_CopyDir :: "'o cos_ops \<Rightarrow> TencentCos \<Rightarrow> string \<Rightarrow> string \<Rightarrow> 'o \<Rightarrow> (unit res \<times> 'o) option" where
  "v2_tc_CopyDir S tc storagePath dest s =
     (if storagePath = [] then Some (Inl (Err ''source storage path is empty''), s)
      else if dest = [] then Some (Inl (Err ''destination storage path is empty''), s)
      else case v2_tc_isDirectory S storagePath s of
        Inl e \<Rightarrow> Some (Inl e, s)
      | Inr isDir \<Rightarrow> (if isDir then v2_tc_copyDirectory S tc storagePath dest s else Some (v2_tc_copyObject S tc storagePath dest s)))"

definition v2_tc_UploadDirectory :: "string \<Rightarrow> string \<Rightarrow> string list res" where
  "v2_tc_UploadDirectory localDirPath destDir = Inl (Err ''UploadDirectory not implemented for TencentCos'')"

definition v2_tc_CreateMultipartUpload :: "'o cos_ops \<Rightarrow> CreateMultipartUploadInput option \<Rightarrow> 'o \<Rightarrow> string res \<times> 'o" where
  "v2_tc_CreateMultipartUpload S inp s = (case inp of
     Some i \<Rightarrow> (case ci_StoragePath i of
       Some p \<Rightarrow> (if p = [] then (Inl (Err ''storage path is empty''), s) else cos_Initiate S s p None)
     | None \<Rightarrow> (Inl (Err ''storage path is empty''), s))
   | None \<Rightarrow> (Inl (Err ''storage path is empty''), s))"

definition v2_tc_GeneratePresignedURL :: "'o cos_ops \<Rightarrow> GeneratePresignedURLInput option \<Rightarrow> 'o \<Rightarrow> string res" where
  "v2_tc_GeneratePresignedURL S inp s = (case inp of
     Some i \<Rightarrow> (case (gi_StoragePath i, gi_UploadID i, gi_PartNumber i) of
       (Some p, Some u, Some n) \<Rightarrow> cos_Presign S s ''PUT'' p [(''uploadId'', u), (''partNumber'', itoa n)]
     | _ \<Rightarrow> Inl (Err ''storagePath, uploadID or partNumber is nil''))
   | None \<Rightarrow> Inl (Err ''storagePath, uploadID or partNumber is nil''))"

definition v2_tc_UploadPart :: "'o cos_ops \<Rightarrow> UploadPartInput option \<Rightarrow> 'o \<Rightarrow> string res \<times> 'o" where
  "v2_tc_UploadPart S inp s = (case inp of
     Some i \<Rightarrow> (case (pi_StoragePath i, pi_UploadID i, pi_PartNumber i) of
       (Some p, Some u, Some n) \<Rightarrow>
         (if p = [] then (Inl (Err ''storage path is empty''), s)
          else case pi_Data i of
            None \<Rightarrow> (Inl (Err ''reader is empty''), s)
          | Some b \<Rightarrow> (case cos_UploadPart S s p u n b None of
              (Inl e, s') \<Rightarrow> (Inl e, s')
            | (Inr etag, s') \<Rightarrow> (Inr (trim_quotes etag), s')))
     | _ \<Rightarrow> (Inl (Err ''storagePath, uploadID or partNumber is nil''), s))
   | None \<Rightarrow> (Inl (Err ''storagePath, uploadID or partNumber is nil''), s))"

definition v2_tc_CompleteMultipartUpload :: "'o cos_ops \<Rightarrow> CompleteMultipartUploadInput option \<Rightarrow> 'o \<Rightarrow> unit res \<times> 'o" where
  "v2_tc_CompleteMultipartUpload S inp s = (case inp of
     Some i \<Rightarrow> (case (mi_StoragePath i, mi_UploadID i, mi_Parts i) of
       (Some p, Some u, Some cs) \<Rightarrow> cos_Complete S s p u
          (map (\<lambda>(n, t). \<lparr>cp_PartNumber = (case n of None \<Rightarrow> 0 | Some m \<Rightarrow> m), cp_ETag = (case t of None \<Rightarrow> [] | Some x \<Rightarrow> x)\<rparr>) cs)
     | _ \<Rightarrow> (Inl (Err ''storagePath, uploadID or parts is nil''), s))
   | None \<Rightarrow> (Inl (Err ''storagePath, uploadID or parts is nil''), s))"

definition v2_tc_AbortMultipartUpload :: "'o cos_ops \<Rightarrow> AbortMultipartUploadInput option \<Rightarrow> 'o \<Rightarrow> unit res \<times> 'o" where
  "v2_tc_AbortMultipartUpload S inp s = (case inp of
     Some i \<Rightarrow> (case (ai_StoragePath i, ai_UploadID i) of
       (Some p, Some u) \<Rightarrow> cos_Abort S s p u
     | _ \<Rightarrow> (Inl (Err ''storagePath or uploadID is nil''), s))
   | None \<Rightarrow> (Inl (Err ''storagePath or uploadID is nil''), s))"

section \<open>S3\<close>

definition v2_NewS3Fs :: "'o aws_ops \<Rightarrow> (string \<Rightarrow> string \<Rightarrow> string \<Rightarrow> gerror option) \<Rightarrow> S3StorageConfig \<Rightarrow> StorageOption \<Rightarrow> 'o \<Rightarrow> S3Fs res" where
  "v2_NewS3Fs S load cfg opt s = (if s3_Bucket cfg = [] then Inl (Err ''configuration bucket error'')
     else (let s3fs = \<lparr>s3_opt = opt, s3_cfg = cfg\<rparr> in
       case load (s3_Region cfg) (s3_AccessKeyID cfg) (s3_SecretAccessKey cfg) of
         Some e \<Rightarrow> Inl e
       | None \<Rightarrow> (case aws_HeadBucket S s (s3_Bucket cfg) of Inl e \<Rightarrow> Inl e | Inr _ \<Rightarrow> Inr s3fs)))"

definition v2_s3_GetPublicURL :: "S3Fs \<Rightarrow> string \<Rightarrow> bool \<Rightarrow> string" where
  "v2_s3_GetPublicURL c storagePath temp = (if storagePath = [] then []
     else case url_Parse (s3_EndPoint (s3_cfg c)) of
       Inl _ \<Rightarrow> storagePath
     | Inr u \<Rightarrow>
         (if s3_UsePathStyle (s3_cfg c) then
            (case url_JoinPath (u_Scheme u @ ''://'' @ u_Host u) [s3_bucket c, storagePath] of
               Inl _ \<Rightarrow> storagePath | Inr public_url \<Rightarrow> public_url)
          else (case url_JoinPath (u_Scheme u @ ''://'' @ s3_bucket c @ ''.'' @ u_Host u) [storagePath] of
               Inl _ \<Rightarrow> storagePath | Inr public_url \<Rightarrow> public_url)))"

definition v2_s3_Save :: "'o aws_ops \<Rightarrow> S3Fs \<Rightarrow> (string \<Rightarrow> string) \<Rightarrow> FileInfo \<Rightarrow> reader option \<Rightarrow> 'o \<Rightarrow> FileInfo res \<times> 'o" where
  "v2_s3_Save S c mime fi r s = (if fi_StoragePath fi = [] then (Inl (Err ''storage path is empty''), s)
     else case r of
       None \<Rightarrow> (Inl (Err ''reader is empty''), s)
     | Some b \<Rightarrow> (case aws_Upload S s (s3_bucket c) (fi_StoragePath fi) b (mime (fi_FileExt fi)) of
         (Inl e, s') \<Rightarrow> (Inl e, s')
       | (Inr _, s') \<Rightarrow> (Inr (fi\<lparr>fi_PublicURL := v2_s3_GetPublicURL c (fi_StoragePath fi) False\<rparr>), s')))"

definition v2_s3_GetPresignedURL :: "'o aws_ops \<Rightarrow> S3Fs \<Rightarrow> string \<Rightarrow> string \<Rightarrow> 'o \<Rightarrow> string res" where
  "v2_s3_GetPresignedURL S c method storagePath s =
     (if method = ''GET'' then aws_PresignGet S s (s3_bucket c) storagePath (so_PresignedTimeout (s3_opt c))
      else if method = ''PUT'' then aws_PresignPut S s (s3_bucket c) storagePath None (so_PresignedTimeout (s3_opt c))
      else Inl (Err (''only GET and PUT are allowed, now: '' @ method)))"

definition v2_s3_ReadFile :: "'o aws_ops \<Rightarrow> S3Fs \<Rightarrow> string \<Rightarrow> 'o \<Rightarrow> string res" where
  "v2_s3_ReadFile S c storagePath s = (if storagePath = [] then Inl (Err ''storage path is empty'')
     else aws_GetObject S s (s3_bucket c) storagePath)"

definition v2_s3_DeleteFile :: "'o aws_ops \<Rightarrow> S3Fs \<Rightarrow> string \<Rightarrow> 'o \<Rightarrow> unit res \<times> 'o" where
  "v2_s3_DeleteFile S c storagePath s = (if storagePath = [] then (Inl (Err ''storage path is empty''), s)
     else (case aws_DeleteObject S s (s3_bucket c) storagePath of (Inl e, s') \<Rightarrow> (Inl e, s') | (Inr _, s') \<Rightarrow> (Inr (), s')))"

definition v2_s3_isDirectory :: "'o aws_ops \<Rightarrow> S3Fs \<Rightarrow> string \<Rightarrow> 'o \<Rightarrow> bool res" where
  "v2_s3_isDirectory S c storagePath s = (case aws_HeadObject S s (s3_bucket c) storagePath of
     Inl e \<Rightarrow> (if errors_is e aws_NotFound then Inr True else Inl e)
   | Inr _ \<Rightarrow> Inr False)"

definition v2_s3_copyObject :: "'o aws_ops \<Rightarrow> S3Fs \<Rightarrow> string \<Rightarrow> string \<Rightarrow> 'o \<Rightarrow> unit res \<times> 'o" where
  "v2_s3_copyObject S c sourceKey destKey s = (if sourceKey = destKey then (Inr (), s)
     else (case aws_CopyObject S s (s3_bucket c) destKey (s3_bucket c @ ''/'' @ sourceKey) of
         (Inl e, s') \<Rightarrow> (Inl (Wrapf (''copy object '' @ sourceKey @ '' to '' @ destKey @ '' error'') e), s')
       | (Inr _, s') \<Rightarrow> (Inr (), s')))"

definition v2_s3_copyDirectory :: "'o aws_ops \<Rightarrow> S3Fs \<Rightarrow> string \<Rightarrow> string \<Rightarrow> 'o \<Rightarrow> (unit res \<times> 'o) option" where
  "v2_s3_copyDirectory S c sourcePrefix destPrefix s = s3_copy_pages S c sourcePrefix destPrefix True None s"

definition v2_s3_CopyDir :: "'o aws_ops \<Rightarrow> S3Fs \<Rightarrow> string \<Rightarrow> string \<Rightarrow> 'o \<Rightarrow> (unit res \<times> 'o) option" where
  "v2_s3_CopyDir S c storagePath dest s =
     (if storagePath = [] then Some (Inl (Err ''source storage path is empty''), s)
      else if dest = [] then Some (Inl (Err ''destination storage path is empty''), s)
      else case v2_s3_isDirectory S c storagePath s of
        Inl e \<Rightarrow> Some (Inl (Wrapf ''check source path error'' e), s)
      | Inr isDir \<Rightarrow> (if isDir then v2_s3_copyDirectory S c storagePath dest s else Some (v2_s3_copyObject S c storagePath dest s)))"

definition v2_s3_upload_visit :: "'o aws_ops \<Rightarrow> S3Fs \<Rightarrow> (string \<Rightarrow> string) \<Rightarrow> 'f fs_ops \<Rightarrow> string \<Rightarrow> string \<Rightarrow> 'f \<Rightarrow> (string list \<times> 'o) walk_fn" where
  "v2_s3_upload_visit S c mime F localDirPath destDir f filePath isDir err = (\<lambda>(uploadedPaths, s). case err of
     Some e \<Rightarrow> (Inl (Wrapf (''error accessing path '' @ filePath) e), uploadedPaths, s)
   | None \<Rightarrow> (if isDir then (Inr (), uploadedPaths, s)
       else case Rel localDirPath filePath of
         Inl e \<Rightarrow> (Inl (Wrapf (''failed to get relative path for '' @ filePath) e), uploadedPaths, s)
       | Inr relPath \<Rightarrow>
           (let storagePath = Join destDir relPath; fileExt = Ext filePath in
            case fs_open F f filePath of
              Inl e \<Rightarrow> (Inl (Wrapf (''failed to open file '' @ filePath) e), uploadedPaths, s)
            | Inr _ \<Rightarrow>
                (case v2_s3_Save S c mime (zero_file\<lparr>fi_StoragePath := storagePath, fi_FileExt := fileExt\<rparr>) (Some (fs_read F f filePath)) s of
                   (Inl e, s') \<Rightarrow> (Inl (Wrapf (''failed to upload file '' @ filePath @ '' to '' @ storagePath) e), uploadedPaths, s')
                 | (Inr _, s') \<Rightarrow> (Inr (), uploadedPaths @ [storagePath], s')))))"

definition v2_s3_UploadDirectory :: "'o aws_ops \<Rightarrow> S3Fs \<Rightarrow> (string \<Rightarrow> string) \<Rightarrow> 'f fs_ops \<Rightarrow> string \<Rightarrow> string \<Rightarrow> 'f \<Rightarrow> 'o \<Rightarrow>
    (string list res \<times> 'o) option" where
  "v2_s3_UploadDirectory S c mime F localDirPath destDir f s =
     (if localDirPath = [] then Some (Inl (Err ''local directory path is empty''), s)
      else map_option (\<lambda>(r, uploadedPaths, s'). (case r of Inl e \<Rightarrow> Inl e | Inr _ \<Rightarrow> Inr uploadedPaths, s'))
        (WalkDir F (v2_s3_upload_visit S c mime F localDirPath destDir f) f localDirPath ([], s)))"

definition v2_s3_getBucketName :: "S3Fs \<Rightarrow> string option \<Rightarrow> string" where
  "v2_s3_getBucketName c bucket = (case bucket of Some b \<Rightarrow> (if b \<noteq> [] then b else s3_bucket c) | None \<Rightarrow> s3_bucket c)"

definition v2_s3_CreateMultipartUpload :: "'o aws_ops \<Rightarrow> S3Fs \<Rightarrow> CreateMultipartUploadInput option \<Rightarrow> 'o \<Rightarrow> string res \<times> 'o" where
  "v2_s3_CreateMultipartUpload S c inp s = (case inp of
     Some i \<Rightarrow> (case ci_StoragePath i of
       Some p \<Rightarrow> (if p = [] then (Inl (Err ''storage path is empty''), s)
         else aws_CreateMultipartUpload S s (v2_s3_getBucketName c (ci_Bucket i)) p (ci_ContentType i))
     | None \<Rightarrow> (Inl (Err ''storage path is empty''), s))
   | None \<Rightarrow> (Inl (Err ''storage path is empty''), s))"

definition v2_s3_GeneratePresignedURL :: "'o aws_ops \<Rightarrow> S3Fs \<Rightarrow> GeneratePresignedURLInput option \<Rightarrow> 'o \<Rightarrow> string res option" where
  "v2_s3_GeneratePresignedURL S c inp s = (case inp of
     Some i \<Rightarrow> (case gi_StoragePath i of
       Some p \<Rightarrow> (let method = (case gi_Method i of None \<Rightarrow> [] | Some m \<Rightarrow> m); b = v2_s3_getBucketName c (gi_Bucket i);
             expires = so_PresignedTimeout (s3_opt c) in
         if method = ''GET'' then Some (aws_PresignGet S s b p expires)
         else if method = ''PUT'' then
           (case gi_UploadID i of
              Some u \<Rightarrow> (if u = [] then Some (aws_PresignPut S s b p (gi_ContentType i) expires)
                else (case gi_PartNumber i of
                    None \<Rightarrow> None
                  | Some n \<Rightarrow> Some (aws_PresignUploadPart S s b p u (to_int32 n) (gi_ContentMD5 i) (gi_ContentLength i) expires)))
            | None \<Rightarrow> Some (aws_PresignPut S s b p (gi_ContentType i) expires))
         else Some (Inl (Err (''only GET and PUT are allowed, now: '' @ method))))
     | None \<Rightarrow> Some (Inl (Err ''storagePath is nil'')))
   | None \<Rightarrow> Some (Inl (Err ''storagePath is nil'')))"

definition v2_s3_UploadPart :: "'o aws_ops \<Rightarrow> S3Fs \<Rightarrow> UploadPartInput option \<Rightarrow> 'o \<Rightarrow> string res \<times> 'o" where
  "v2_s3_UploadPart S c inp s = (case inp of
     Some i \<Rightarrow> (case (pi_StoragePath i, pi_UploadID i, pi_PartNumber i) of
       (Some p, Some u, Some n) \<Rightarrow> (case pi_Data i of
           None \<Rightarrow> (Inl (Err ''reader is empty''), s)
         | Some b \<Rightarrow> aws_UploadPart S s (v2_s3_getBucketName c (pi_Bucket i)) p u (to_int32 n) b)
     | _ \<Rightarrow> (Inl (Err ''storagePath, uploadID or partNumber is nil''), s))
   | None \<Rightarrow> (Inl (Err ''storagePath, uploadID or partNumber is nil''), s))"

definition v2_s3_CompleteMultipartUpload :: "'o aws_ops \<Rightarrow> S3Fs \<Rightarrow> CompleteMultipartUploadInput option \<Rightarrow> 'o \<Rightarrow> unit res \<times> 'o" where
  "v2_s3_CompleteMultipartUpload S c inp s = (case inp of
     Some i \<Rightarrow> (case (mi_StoragePath i, mi_UploadID i, mi_Parts i) of
       (Some p, Some u, Some cs) \<Rightarrow> aws_CompleteMultipartUpload S s (v2_s3_getBucketName c (mi_Bucket i)) p u cs
     | _ \<Rightarrow> (Inl (Err ''storagePath, uploadID or parts is nil''), s))
   | None \<Rightarrow> (Inl (Err ''storagePath, uploadID or parts is nil''), s))"

definition v2_s3_AbortMultipartUpload :: "'o aws_ops \<Rightarrow> S3Fs \<Rightarrow> AbortMultipartUploadInput option \<Rightarrow> 'o \<Rightarrow> unit res \<times> 'o" where
  "v2_s3_AbortMultipartUpload S c inp s = (case inp of
     Some i \<Rightarrow> (case (ai_StoragePath i, ai_UploadID i) of
       (Some p, Some u) \<Rightarrow> aws_AbortMultipartUpload S s (v2_s3_getBucketName c (ai_Bucket i)) p u
     | _ \<Rightarrow> (Inl (Err ''storagePath or uploadID is nil''), s))
   | None \<Rightarrow> (Inl (Err ''storagePath or uploadID is nil''), s))"

section \<open>MinIO\<close>

definition v2_NewMinFs :: "('o, 'i) min_ops \<Rightarrow> MinossConfig \<Rightarrow> StorageOption \<Rightarrow> 'o \<Rightarrow> MinFs res" where
  "v2_NewMinFs S cfg opt s = (if mo_Bucket cfg = [] then Inl (Err ''configuration bucket error'')
     else (case min_New S (mo_EndPoint cfg) (mo_AccessKeyID cfg) (mo_SecretAccessKey cfg) of
         Some e \<Rightarrow> Inl e
       | None \<Rightarrow> (case min_BucketExists S s (mo_Bucket cfg) of
           Inl e \<Rightarrow> Inl e
         | Inr isE \<Rightarrow> (if \<not> isE then Inl (Err ''bucket not exists'') else Inr \<lparr>mfs_opt = opt, mfs_cfg = cfg\<rparr>))))"

definition v2_min_Save :: "('o, 'i) min_ops \<Rightarrow> MinFs \<Rightarrow> (string \<Rightarrow> string) \<Rightarrow> FileInfo \<Rightarrow> reader option \<Rightarrow> 'o \<Rightarrow> unit res \<times> 'o" where
  "v2_min_Save S c mime fi r s = (if fi_StoragePath fi = [] then (Inl (Err ''storage path is empty''), s)
     else case r of
       None \<Rightarrow> (Inl (Err ''reader is empty''), s)
     | Some b \<Rightarrow> (case min_PutObject S s (mfs_bucket c) (fi_StoragePath fi) b (fi_Size fi) (mime (fi_FileExt fi)) of
         (Inl e, s') \<Rightarrow> (Inl e, s')
       | (Inr _, s') \<Rightarrow> (Inr (), s')))"

definition v2_min_GetPublicURL :: "MinFs \<Rightarrow> string \<Rightarrow> bool \<Rightarrow> string" where
  "v2_min_GetPublicURL c storagePath temp = storagePath"

definition v2_min_GetPresignedURL :: "('o, 'i) min_ops \<Rightarrow> MinFs \<Rightarrow> string \<Rightarrow> string \<Rightarrow> 'o \<Rightarrow> string res" where
  "v2_min_GetPresignedURL S c method storagePath s =
     min_PresignedGetObject S s (mfs_bucket c) storagePath (so_PresignedTimeout (mfs_opt c))"

definition v2_min_ReadFile :: "('o, 'i) min_ops \<Rightarrow> MinFs \<Rightarrow> string \<Rightarrow> 'o \<Rightarrow> reader res" where
  "v2_min_ReadFile S c storagePath s = (if storagePath = [] then Inl (Err ''storage path is empty'')
     else min_GetObject S s (mfs_bucket c) storagePath)"

definition v2_min_DeleteFile :: "('o, 'i) min_ops \<Rightarrow> MinFs \<Rightarrow> string \<Rightarrow> 'o \<Rightarrow> unit res \<times> 'o" where
  "v2_min_DeleteFile S c storagePath s = (if storagePath = [] then (Inl (Err ''storage path is empty''), s)
     else min_RemoveObject S s (mfs_bucket c) storagePath)"

definition v2_min_isDirectory :: "('o, 'i) min_ops \<Rightarrow> MinFs \<Rightarrow> string \<Rightarrow> 'o \<Rightarrow> bool res" where
  "v2_min_isDirectory S c storagePath s = (case min_StatObject S s (mfs_bucket c) storagePath of
     Inl e \<Rightarrow> (if e = min_NoSuchKey then Inr True else Inl e)
   | Inr _ \<Rightarrow> Inr False)"

definition v2_min_copyObject :: "('o, 'i) min_ops \<Rightarrow> MinFs \<Rightarrow> string \<Rightarrow> string \<Rightarrow> 'o \<Rightarrow> unit res \<times> 'o" where
  "v2_min_copyObject S c storagePath dest s = min_CopyObject S s (mfs_bucket c, dest) (mfs_bucket c, storagePath)"

definition v2_min_copyDirectory :: "('o, 'i) min_ops \<Rightarrow> MinFs \<Rightarrow> string \<Rightarrow> string \<Rightarrow> 'o \<Rightarrow> (unit res \<times> 'o) option" where
  "v2_min_copyDirectory S c storagePath dest s = min_copy_loop S c storagePath dest (min_ListObjects S (mfs_bucket c) storagePath) s"

definition v2_min_CopyDir :: "('o, 'i) min_ops \<Rightarrow> MinFs \<Rightarrow> string \<Rightarrow> string \<Rightarrow> 'o \<Rightarrow> (unit res \<times> 'o) option" where
  "v2_min_CopyDir S c storagePath dest s =
     (if storagePath = [] then Some (Inl (Err ''source storage path is empty''), s)
      else if dest = [] then Some (Inl (Err ''destination storage path is empty''), s)
      else case v2_min_isDirectory S c storagePath s of
        Inl e \<Rightarrow> Some (Inl e, s)
      | Inr isDir \<Rightarrow> (if isDir then v2_min_copyDirectory S c storagePath dest s else Some (v2_min_copyObject S c storagePath dest s)))"

definition v2_min_UploadDirectory :: "string \<Rightarrow> string \<Rightarrow> string list res" where
  "v2_min_UploadDirectory localDirPath destDir = Inl (Err ''UploadDirectory not implemented for MinFs'')"

definition v2_min_CreateMultipartUpload :: "('o, 'i) min_ops \<Rightarrow> MinFs \<Rightarrow> CreateMultipartUploadInput option \<Rightarrow> 'o \<Rightarrow> string res \<times> 'o" where
  "v2_min_CreateMultipartUpload S c inp s = (case inp of
     Some i \<Rightarrow> (case ci_StoragePath i of
       Some p \<Rightarrow> (if p = [] then (Inl (Err ''storage path is empty''), s) else min_NewMultipartUpload S s (mfs_bucket c) p)
     | None \<Rightarrow> (Inl (Err ''storage path is empty''), s))
   | None \<Rightarrow> (Inl (Err ''storage path is empty''), s))"

definition v2_min_GeneratePresignedURL :: "GeneratePresignedURLInput option \<Rightarrow> string res" where
  "v2_min_GeneratePresignedURL inp = Inl (Err ''presigned part URL not supported for MinIO'')"

definition v2_min_UploadPart :: "('o, 'i) min_ops \<Rightarrow> MinFs \<Rightarrow> UploadPartInput option \<Rightarrow> 'o \<Rightarrow> string res \<times> 'o" where
  "v2_min_UploadPart S c inp s = (case inp of
     Some i \<Rightarrow> (case pi_StoragePath i of
       Some p \<Rightarrow> (if p = [] then (Inl (Err ''storage path is empty''), s)
         else (case (pi_UploadID i, pi_PartNumber i) of
             (Some u, Some n) \<Rightarrow> (case pi_Data i of
                 None \<Rightarrow> (Inl (Err ''reader is empty''), s)
               | Some b \<Rightarrow> min_PutObjectPart S s (mfs_bucket c) p u n b (-1))
           | _ \<Rightarrow> (Inl (Err ''uploadID or partNumber is nil''), s)))
     | None \<Rightarrow> (Inl (Err ''storage path is empty''), s))
   | None \<Rightarrow> (Inl (Err ''storage path is empty''), s))"

definition v2_min_CompleteUpload :: "('o, 'i) min_ops \<Rightarrow> MinFs \<Rightarrow> CompleteMultipartUploadInput option \<Rightarrow> 'o \<Rightarrow> unit res \<times> 'o" where
  "v2_min_CompleteUpload S c inp s = (case inp of
     Some i \<Rightarrow> (case (mi_StoragePath i, mi_UploadID i, mi_Parts i) of
       (Some p, Some u, Some cs) \<Rightarrow>
         (let compParts = map (\<lambda>(n, t). \<lparr>cp_PartNumber = (case n of None \<Rightarrow> 0 | Some m \<Rightarrow> m), cp_ETag = (case t of None \<Rightarrow> [] | Some x \<Rightarrow> x)\<rparr>) cs
          in min_CompleteMultipartUpload S s (mfs_bucket c) p u compParts)
     | _ \<Rightarrow> (Inl (Err ''storagePath, uploadID or parts is nil''), s))
   | None \<Rightarrow> (Inl (Err ''storagePath, uploadID or parts is nil''), s))"

definition v2_min_AbortUpload :: "('o, 'i) min_ops \<Rightarrow> MinFs \<Rightarrow> AbortMultipartUploadInput option \<Rightarrow> 'o \<Rightarrow> unit res \<times> 'o" where
  "v2_min_AbortUpload S c inp s = (case inp of
     Some i \<Rightarrow> (case (ai_StoragePath i, ai_UploadID i) of
       (Some p, Some u) \<Rightarrow> min_AbortMultipartUpload S s (mfs_bucket c) p u
     | _ \<Rightarrow> (Inl (Err ''storagePath or uploadID is nil''), s))
   | None \<Rightarrow> (Inl (Err ''storagePath or uploadID is nil''), s))"

section \<open>The two versions\<close>

named_theorems v2_same \<open>operations of the second version that are those of the first\<close>

lemma v2_GetFileByChunkHash_same [v2_same]: "v2_GetFileByChunkHash = GetFileByChunkHash"
  by (simp only: fun_eq_iff v2_GetFileByChunkHash_def GetFileByChunkHash_def v2_same simp_thms)

lemma v2_GetFileByHash_same [v2_same]: "v2_GetFileByHash = GetFileByHash"
  by (simp only: fun_eq_iff v2_GetFileByHash_def GetFileByHash_def v2_same simp_thms)

lemma v2_GetFileByPublicURL_same [v2_same]: "v2_GetFileByPublicURL = GetFileByPublicURL"
  by (simp only: fun_eq_iff v2_GetFileByPublicURL_def GetFileByPublicURL_def v2_same simp_thms)

lemma v2_GetFileByID_same [v2_same]: "v2_GetFileByID = GetFileByID"
  by (simp only: fun_eq_iff v2_GetFileByID_def GetFileByID_def v2_same simp_thms)

lemma v2_GenerateFileStoragePath_same [v2_same]: "v2_GenerateFileStoragePath = GenerateFileStoragePath"
  by (simp only: fun_eq_iff v2_GenerateFileStoragePath_def GenerateFileStoragePath_def v2_same simp_thms)

lemma v2_GenerateFileStoragePathWithName_same [v2_same]: "v2_GenerateFileStoragePathWithName = GenerateFileStoragePathWithName"
  by (simp only: fun_eq_iff v2_GenerateFileStoragePathWithName_def GenerateFileStoragePathWithName_def v2_same simp_thms)

lemma v2_local_NewLocalStorage_same [v2_same]: "v2_local_NewLocalStorage = NewLocalStorage"
  by (simp only: fun_eq_iff v2_local_NewLocalStorage_def NewLocalStorage_def v2_same simp_thms)

lemma v2_local_Save_same [v2_same]: "v2_local_Save = Save"
  by (simp only: fun_eq_iff v2_local_Save_def Save_def v2_same simp_thms)

lemma v2_local_GetPublicURL_same [v2_same]: "v2_local_GetPublicURL = GetPublicURL"
  by (simp only: fun_eq_iff v2_local_GetPublicURL_def GetPublicURL_def v2_same simp_thms)

lemma v2_local_ReadFile_same [v2_same]: "v2_local_ReadFile = ReadFile"
  by (simp only: fun_eq_iff v2_local_ReadFile_def ReadFile_def v2_same simp_thms)

lemma v2_local_DeleteFile_same [v2_same]: "v2_local_DeleteFile = DeleteFile"
  by (simp only: fun_eq_iff v2_local_DeleteFile_def DeleteFile_def v2_same simp_thms)

lemma v2_local_copyFile_same [v2_same]: "v2_local_copyFile = copyFile"
  by (simp only: fun_eq_iff v2_local_copyFile_def copyFile_def v2_same simp_thms)

lemma v2_local_copyDirectory_same [v2_same]: "v2_local_copyDirectory = copyDirectory"
  by (simp add: fun_eq_iff v2_local_copyDirectory_def)

lemma v2_local_CopyDir_same [v2_same]: "v2_local_CopyDir = CopyDir"
  by (simp only: fun_eq_iff v2_local_CopyDir_def CopyDir_def v2_same simp_thms)

lemma v2_NewTencentCos_same [v2_same]: "v2_NewTencentCos = NewTencentCos"
  by (simp only: fun_eq_iff v2_NewTencentCos_def NewTencentCos_def v2_same simp_thms)

lemma v2_tc_GetPresignedURL_same [v2_same]: "v2_tc_GetPresignedURL = tc_GetPresignedURL"
  by (simp only: fun_eq_iff v2_tc_GetPresignedURL_def tc_GetPresignedURL_def v2_same simp_thms)

lemma v2_tc_GetPublicURL_same [v2_same]: "v2_tc_GetPublicURL = tc_GetPublicURL"
  by (simp only: fun_eq_iff v2_tc_GetPublicURL_def tc_GetPublicURL_def v2_same simp_thms)

lemma v2_tc_InitUploadTask_same [v2_same]: "v2_tc_InitUploadTask = tc_InitUploadTask"
  by (simp only: fun_eq_iff v2_tc_InitUploadTask_def tc_InitUploadTask_def v2_same simp_thms)

lemma v2_tc_ListUploadExistsTrunk_same [v2_same]: "v2_tc_ListUploadExistsTrunk = tc_ListUploadExistsTrunk"
  by (simp only: fun_eq_iff v2_tc_ListUploadExistsTrunk_def tc_ListUploadExistsTrunk_def v2_same simp_thms)

lemma v2_tc_UploadTrunk_same [v2_same]: "v2_tc_UploadTrunk = tc_UploadTrunk"
  by (simp only: fun_eq_iff v2_tc_UploadTrunk_def tc_UploadTrunk_def v2_same simp_thms)

lemma v2_tc_CompleteUploadTask_same [v2_same]: "v2_tc_CompleteUploadTask = tc_CompleteUploadTask"
  by (simp only: fun_eq_iff v2_tc_CompleteUploadTask_def tc_CompleteUploadTask_def v2_same simp_thms)

lemma v2_tc_Save_same [v2_same]: "v2_tc_Save = tc_Save"
  by (simp only: fun_eq_iff v2_tc_Save_def tc_Save_def v2_same simp_thms)

lemma v2_tc_ReadFile_same [v2_same]: "v2_tc_ReadFile = tc_ReadFile"
  by (simp only: fun_eq_iff v2_tc_ReadFile_def tc_ReadFile_def v2_same simp_thms)

lemma v2_tc_DeleteFile_same [v2_same]: "v2_tc_DeleteFile = tc_DeleteFile"
  by (simp only: fun_eq_iff v2_tc_DeleteFile_def tc_DeleteFile_def v2_same simp_thms)

lemma v2_tc_isDirectory_same [v2_same]: "v2_tc_isDirectory = tc_isDirectory"
  by (simp only: fun_eq_iff v2_tc_isDirectory_def tc_isDirectory_def v2_same simp_thms)

lemma v2_tc_copyObject_same [v2_same]: "v2_tc_copyObject = tc_copyObject"
  by (simp only: fun_eq_iff v2_tc_copyObject_def tc_copyObject_def v2_same simp_thms)

lemma v2_tc_copyDirectory_same [v2_same]: "v2_tc_copyDirectory = tc_copyDirectory"
  by (simp add: fun_eq_iff v2_tc_copyDirectory_def)

lemma v2_tc_CopyDir_same [v2_same]: "v2_tc_CopyDir = tc_CopyDir"
  by (simp only: fun_eq_iff v2_tc_CopyDir_def tc_CopyDir_def v2_same simp_thms)

lemma v2_tc_UploadDirectory_same [v2_same]: "v2_tc_UploadDirectory = tc_UploadDirectory"
  by (simp only: fun_eq_iff v2_tc_UploadDirectory_def tc_UploadDirectory_def v2_same simp_thms)

lemma v2_tc_CreateMultipartUpload_same [v2_same]: "v2_tc_CreateMultipartUpload = tc_CreateMultipartUpload"
  by (simp only: fun_eq_iff v2_tc_CreateMultipartUpload_def tc_CreateMultipartUpload_def v2_same simp_thms)

lemma v2_tc_GeneratePresignedURL_same [v2_same]: "v2_tc_GeneratePresignedURL = tc_GeneratePresignedURL"
  by (simp only: fun_eq_iff v2_tc_GeneratePresignedURL_def tc_GeneratePresignedURL_def v2_same simp_thms)

lemma v2_tc_UploadPart_same [v2_same]: "v2_tc_UploadPart = tc_UploadPart"
  by (simp only: fun_eq_iff v2_tc_UploadPart_def tc_UploadPart_def v2_same simp_thms)

lemma v2_tc_CompleteMultipartUpload_same [v2_same]: "v2_tc_CompleteMultipartUpload = tc_CompleteMultipartUpload"
  by (simp only: fun_eq_iff v2_tc_CompleteMultipartUpload_def tc_CompleteMultipartUpload_def v2_same simp_thms)

lemma v2_tc_AbortMultipartUpload_same [v2_same]: "v2_tc_AbortMultipartUpload = tc_AbortMultipartUpload"
  by (simp only: fun_eq_iff v2_tc_AbortMultipartUpload_def tc_AbortMultipartUpload_def v2_same simp_thms)

lemma v2_NewS3Fs_same [v2_same]: "v2_NewS3Fs = NewS3Fs"
  by (simp only: fun_eq_iff v2_NewS3Fs_def NewS3Fs_def v2_same simp_thms)

lemma v2_s3_GetPublicURL_same [v2_same]: "v2_s3_GetPublicURL = s3_GetPublicURL"
  by (simp only: fun_eq_iff v2_s3_GetPublicURL_def s3_GetPublicURL_def v2_same simp_thms)

lemma v2_s3_Save_same [v2_same]: "v2_s3_Save = s3_Save"
  by (simp only: fun_eq_iff v2_s3_Save_def s3_Save_def v2_same simp_thms)

lemma v2_s3_ReadFile_same [v2_same]: "v2_s3_ReadFile = s3_ReadFile"
  by (simp only: fun_eq_iff v2_s3_ReadFile_def s3_ReadFile_def v2_same simp_thms)

lemma v2_s3_DeleteFile_same [v2_same]: "v2_s3_DeleteFile = s3_DeleteFile"
  by (simp only: fun_eq_iff v2_s3_DeleteFile_def s3_DeleteFile_def v2_same simp_thms)

lemma v2_s3_isDirectory_same [v2_same]: "v2_s3_isDirectory = s3_isDirectory"
  by (simp only: fun_eq_iff v2_s3_isDirectory_def s3_isDirectory_def v2_same simp_thms)

lemma v2_s3_copyObject_same [v2_same]: "v2_s3_copyObject = s3_copyObject"
  by (simp only: fun_eq_iff v2_s3_copyObject_def s3_copyObject_def v2_same simp_thms)

lemma v2_s3_copyDirectory_same [v2_same]: "v2_s3_copyDirectory = s3_copyDirectory"
  by (simp only: fun_eq_iff v2_s3_copyDirectory_def s3_copyDirectory_def v2_same simp_thms)

lemma v2_s3_CopyDir_same [v2_same]: "v2_s3_CopyDir = s3_CopyDir"
  by (simp only: fun_eq_iff v2_s3_CopyDir_def s3_CopyDir_def v2_same simp_thms)

lemma v2_s3_upload_visit_same [v2_same]: "v2_s3_upload_visit = s3_upload_visit"
  by (simp only: fun_eq_iff v2_s3_upload_visit_def s3_upload_visit_def v2_same simp_thms)

lemma v2_s3_UploadDirectory_same [v2_same]: "v2_s3_UploadDirectory = s3_UploadDirectory"
  by (simp only: fun_eq_iff v2_s3_UploadDirectory_def s3_UploadDirectory_def v2_same simp_thms)

lemma v2_s3_getBucketName_same [v2_same]: "v2_s3_getBucketName = s3_getBucketName"
  by (simp only: fun_eq_iff v2_s3_getBucketName_def s3_getBucketName_def v2_same simp_thms)

lemma v2_s3_CreateMultipartUpload_same [v2_same]: "v2_s3_CreateMultipartUpload = s3_CreateMultipartUpload"
  by (simp only: fun_eq_iff v2_s3_CreateMultipartUpload_def s3_CreateMultipartUpload_def v2_same simp_thms)

lemma v2_s3_UploadPart_same [v2_same]: "v2_s3_UploadPart = s3_UploadPart"
  by (simp only: fun_eq_iff v2_s3_UploadPart_def s3_UploadPart_def v2_same simp_thms)

lemma v2_s3_CompleteMultipartUpload_same [v2_same]: "v2_s3_CompleteMultipartUpload = s3_CompleteMultipartUpload"
  by (simp only: fun_eq_iff v2_s3_CompleteMultipartUpload_def s3_CompleteMultipartUpload_def v2_same simp_thms)

lemma v2_s3_AbortMultipartUpload_same [v2_same]: "v2_s3_AbortMultipartUpload = s3_AbortMultipartUpload"
  by (simp only: fun_eq_iff v2_s3_AbortMultipartUpload_def s3_AbortMultipartUpload_def v2_same simp_thms)

lemma v2_NewMinFs_same [v2_same]: "v2_NewMinFs = NewMinFs"
  by (simp only: fun_eq_iff v2_NewMinFs_def NewMinFs_def v2_same simp_thms)

lemma v2_min_Save_same [v2_same]: "v2_min_Save = min_Save"
  by (simp only: fun_eq_iff v2_min_Save_def min_Save_def v2_same simp_thms)

lemma v2_min_GetPublicURL_same [v2_same]: "v2_min_GetPublicURL = min_GetPublicURL"
  by (simp only: fun_eq_iff v2_min_GetPublicURL_def min_GetPublicURL_def v2_same simp_thms)

lemma v2_min_GetPresignedURL_same [v2_same]: "v2_min_GetPresignedURL = min_GetPresignedURL"
  by (simp only: fun_eq_iff v2_min_GetPresignedURL_def min_GetPresignedURL_def v2_same simp_thms)

lemma v2_min_ReadFile_same [v2_same]: "v2_min_ReadFile = min_ReadFile"
  by (simp only: fun_eq_iff v2_min_ReadFile_def min_ReadFile_def v2_same simp_thms)

lemma v2_min_DeleteFile_same [v2_same]: "v2_min_DeleteFile = min_DeleteFile"
  by (simp only: fun_eq_iff v2_min_DeleteFile_def min_DeleteFile_def v2_same simp_thms)

lemma v2_min_isDirectory_same [v2_same]: "v2_min_isDirectory = min_isDirectory"
  by (simp only: fun_eq_iff v2_min_isDirectory_def min_isDirectory_def v2_same simp_thms)

lemma v2_min_copyObject_same [v2_same]: "v2_min_copyObject = min_copyObject"
  by (simp only: fun_eq_iff v2_min_copyObject_def min_copyObject_def v2_same simp_thms)

lemma v2_min_copyDirectory_same [v2_same]: "v2_min_copyDirectory = min_copyDirectory"
  by (simp only: fun_eq_iff v2_min_copyDirectory_def min_copyDirectory_def v2_same simp_thms)

lemma v2_min_CopyDir_same [v2_same]: "v2_min_CopyDir = min_CopyDir"
  by (simp only: fun_eq_iff v2_min_CopyDir_def min_CopyDir_def v2_same simp_thms)

lemma v2_min_UploadDirectory_same [v2_same]: "v2_min_UploadDirectory = min_UploadDirectory"
  by (simp only: fun_eq_iff v2_min_UploadDirectory_def min_UploadDirectory_def v2_same simp_thms)

lemma v2_min_CreateMultipartUpload_same [v2_same]: "v2_min_CreateMultipartUpload = min_CreateMultipartUpload"
  by (simp only: fun_eq_iff v2_min_CreateMultipartUpload_def min_CreateMultipartUpload_def v2_same simp_thms)

lemma v2_min_GeneratePresignedURL_same [v2_same]: "v2_min_GeneratePresignedURL = min_GeneratePresignedURL"
  by (simp only: fun_eq_iff v2_min_GeneratePresignedURL_def min_GeneratePresignedURL_def v2_same simp_thms)

lemma v2_min_UploadPart_same [v2_same]: "v2_min_UploadPart = min_UploadPart"
  by (simp only: fun_eq_iff v2_min_UploadPart_def min_UploadPart_def v2_same simp_thms)

lemma v2_min_CompleteUpload_same [v2_same]: "v2_min_CompleteUpload = min_CompleteUpload"
  by (simp only: fun_eq_iff v2_min_CompleteUpload_def min_CompleteUpload_def v2_same simp_thms)

lemma v2_min_AbortUpload_same [v2_same]: "v2_min_AbortUpload = min_AbortUpload"
  by (simp only: fun_eq_iff v2_min_AbortUpload_def min_AbortUpload_def v2_same simp_thms)


end
