(* ===== verification/Api_Auth.thy ===== *)
theory Api_Auth
  imports Settings_Correct Cos_Storage
begin

text \<open>
  Authentication of requests (\<open>apis/runtime/auth\<close>): claims and their validity, login states, the secret of an issuer. The JWT
  library is a parameter: \<open>unverified\<close> decodes a token into claims, \<open>verify\<close> checks its signature with a key. An outer \<open>None\<close>
  is a panic, which only the decryption of a setting can cause here.
\<close>

section \<open>Claims\<close>

type_synonym LoginWay = nat

definition LoginWayUnknown :: LoginWay where "LoginWayUnknown = 0"
definition LoginWayEmail :: LoginWay where "LoginWayEmail = 1"
definition LoginWayPhone :: LoginWay where "LoginWayPhone = 2"
definition LoginWayWxWeb :: LoginWay where "LoginWayWxWeb = 3"
definition LoginWayWxMp :: LoginWay where "LoginWayWxMp = 4"
definition LoginWayWxMini :: LoginWay where "LoginWayWxMini = 5"
definition LoginWayGithub :: LoginWay where "LoginWayGithub = 6"
definition LoginWayWorkWechat :: LoginWay where "LoginWayWorkWechat = 7"

record UserClaims =
  uc_Uin :: nat
  uc_IssuedAt :: int
  uc_ExpiresAt :: int
  uc_Issuer :: string
  uc_Audience :: string
  uc_LoginWay :: LoginWay

definition zero_claims :: UserClaims where
  "zero_claims = \<lparr>uc_Uin = 0, uc_IssuedAt = 0, uc_ExpiresAt = 0, uc_Issuer = [], uc_Audience = [], uc_LoginWay = LoginWayUnknown\<rparr>"

text \<open>\<open>Valid\<close>: the inner error of a \<open>ValidationError\<close> is that of the last failed test. \<open>now\<close> is in seconds.\<close>

definition Claims_Valid :: "int \<Rightarrow> UserClaims \<Rightarrow> gerror option" where
  "Claims_Valid now c =
     (let e1 = (if uc_IssuedAt c > now then Some (Err ''token used before issued'') else None);
          e2 = (if uc_ExpiresAt c < now then Some (Err ''token is expired'') else e1) in e2)"

section \<open>Login states\<close>

type_synonym State = int
type_synonym auth_Role = int

definition StateNil :: State where "StateNil = 0"
definition StateSucc :: State where "StateSucc = 1"
definition StateFailed :: State where "StateFailed = 2"

definition RoleNil :: auth_Role where "RoleNil = 0"
definition RoleUser :: auth_Role where "RoleUser = 1"
definition RoleEmployee :: auth_Role where "RoleEmployee = 2"
definition RoleAPI :: auth_Role where "RoleAPI = 3"

definition AuthBearer :: string where "AuthBearer = ''Bearer ''"
definition AuthAPIKeyPrefix :: string where "AuthAPIKeyPrefix = ''yg-''"

record LoginStatus =
  ls_Token :: string
  ls_Claim :: "UserClaims option"
  ls_Issuer :: string
  ls_Err :: "gerror option"
  ls_Role :: auth_Role
  ls_State :: State
  ls_idmap :: "(string \<rightharpoonup> nat) option"

definition zero_status :: LoginStatus where
  "zero_status = \<lparr>ls_Token = [], ls_Claim = None, ls_Issuer = [], ls_Err = None, ls_Role = RoleNil, ls_State = StateNil, ls_idmap = None\<rparr>"

definition SetID :: "string \<Rightarrow> nat \<Rightarrow> LoginStatus \<Rightarrow> LoginStatus" where
  "SetID idname i ls = (let m = (case ls_idmap ls of None \<Rightarrow> Map.empty | Some m \<Rightarrow> m) in ls\<lparr>ls_idmap := Some (m(idname \<mapsto> i))\<rparr>)"

definition GetID :: "string \<Rightarrow> LoginStatus \<Rightarrow> nat" where
  "GetID idname ls = (case ls_idmap ls of None \<Rightarrow> 0 | Some m \<Rightarrow> (case m idname of None \<Rightarrow> 0 | Some i \<Rightarrow> i))"

lemma GetID_SetID: "GetID n (SetID m i ls) = (if n = m then i else GetID n ls)"
  by (simp add: GetID_def SetID_def Let_def split: option.split)

section \<open>Secrets\<close>

record JwtConfig =
  jc_Secret :: string
  jc_Expire :: duration

definition zero_jwt :: JwtConfig where
  "zero_jwt = \<lparr>jc_Secret = [], jc_Expire = 0\<rparr>"

definition GetJwtSetting where
  "GetJwtSetting unmarshal E now env issuer s = (case GetYaml unmarshal E now env ''core'' (''jwt-'' @ issuer) zero_jwt s of
     (None, s') \<Rightarrow> (None, s')
   | (Some (Inl e, _), s') \<Rightarrow> (Some (Inl e), s')
   | (Some (Inr _, jset), s') \<Rightarrow> (Some (Inr jset), s'))"

definition GetJwtSecret where
  "GetJwtSecret unmarshal E now env issuer s = (case GetYaml unmarshal E now env ''core'' (''jwt-'' @ issuer) zero_jwt s of
     (None, s') \<Rightarrow> (None, s')
   | (Some (Inl e, _), s') \<Rightarrow> (Some (Inl e), s')
   | (Some (Inr _, jset), s') \<Rightarrow> (Some (Inr (jc_Secret jset)), s'))"

text \<open>
  \<open>ParseWithClaims\<close> of the JWT library: decode, ask for the key, let the claims validate themselves, check the signature; all
  of it has to succeed.
\<close>

definition ParseWithClaims :: "(string \<Rightarrow> UserClaims res) \<Rightarrow> (string \<Rightarrow> string \<Rightarrow> gerror option) \<Rightarrow> int \<Rightarrow>
    (UserClaims \<Rightarrow> 's \<Rightarrow> string res option \<times> 's) \<Rightarrow> string \<Rightarrow> 's \<Rightarrow> UserClaims res option \<times> 's" where
  "ParseWithClaims unverified verify unow keyFunc token s = (case unverified token of
     Inl e \<Rightarrow> (Some (Inl e), s)
   | Inr claims \<Rightarrow> (case keyFunc claims s of
       (None, s') \<Rightarrow> (None, s')
     | (Some (Inl e), s') \<Rightarrow> (Some (Inl e), s')
     | (Some (Inr key), s') \<Rightarrow>
         (Some (case verify token key of
            Some e \<Rightarrow> Inl e
          | None \<Rightarrow> (case Claims_Valid unow claims of Some e \<Rightarrow> Inl e | None \<Rightarrow> Inr claims)), s')))"

lemma ParseWithClaims_ok:
  assumes "ParseWithClaims unverified verify unow keyFunc token s = (Some (Inr c), s')"
  shows "unverified token = Inr c \<and> (\<exists>key. keyFunc c s = (Some (Inr key), s') \<and> verify token key = None) \<and>
    uc_IssuedAt c \<le> unow \<and> unow \<le> uc_ExpiresAt c"
  using assms
  by (auto simp: ParseWithClaims_def Claims_Valid_def Let_def split: sum.splits prod.splits option.splits if_splits)

text \<open>A token that carries no expiry is not valid for ever: it has expired since 1970.\<close>

lemma no_expiry_expired: "0 < unow \<Longrightarrow> uc_ExpiresAt c = 0 \<Longrightarrow> Claims_Valid unow c \<noteq> None"
  by (simp add: Claims_Valid_def)

end
