(* ===== verification/Api_Server.thy ===== *)
theory Api_Server
  imports Api_Auth Uploader
begin

text \<open>
  The HTTP runtime (\<open>apis/runtime\<close>): the state of a request, the chain of handlers of a route, the error answers, the middleware
  and the router. Gin is third-party code; of it the model has the rule by which handlers run (\<open>Next\<close>, \<open>Abort\<close>), and
  parameters for the rest. Logs and the latency histogram do not influence a request and are left out.
\<close>

section \<open>Requests\<close>

record BaseResponse =
  br_Code :: nat
  br_Message :: string
  br_MessageData :: "(string \<times> string) list"
  br_Env :: string
  br_RequestID :: string

text \<open>
  The answer struct of a handler, as reflection sees it: its exported fields in order, each with its value, a pointer followed;
  a nil pointer has no value.
\<close>

datatype fval = FUint nat | FInt int | FStr string | FMap "(string \<times> string) list" | FBase BaseResponse | FNil | FOther

type_synonym out_struct = "(string \<times> fval) list"

datatype reply = ReplyBase nat string | ReplyUnauthorized | ReplyLicense string | ReplyOut out_struct | ReplyText string

text \<open>
  The context of a request: what gin keeps of it, the keys the runtime sets, the state of the settings and that of everything
  else. A body is a reader; \<open>rc_replies\<close> are the bodies written so far.
\<close>

record ('s, 'w) req_ctx =
  rc_header :: "string \<Rightarrow> string"
  rc_path :: string
  rc_fullPath :: string
  rc_remote :: string
  rc_body :: "reader option"
  rc_aborted :: bool
  rc_errors :: "gerror list"
  rc_status :: nat
  rc_replies :: "reply list"
  rc_out_header :: "(string \<times> string) list"
  ck_RequestID :: "string option"
  ck_LoginStatus :: "LoginStatus option"
  ck_Uin :: "nat option"
  ck_Lang :: "string option"
  ck_Code :: "int option"
  rc_settings :: 's
  rc_world :: 'w

definition gin_Abort :: "('s, 'w) req_ctx \<Rightarrow> ('s, 'w) req_ctx" where
  "gin_Abort c = c\<lparr>rc_aborted := True\<rparr>"

text \<open>The status can be set as long as nothing has been written.\<close>

definition gin_WriteHeader :: "nat \<Rightarrow> ('s, 'w) req_ctx \<Rightarrow> ('s, 'w) req_ctx" where
  "gin_WriteHeader code c = (if rc_replies c = [] then c\<lparr>rc_status := code\<rparr> else c)"

definition gin_Write :: "reply \<Rightarrow> ('s, 'w) req_ctx \<Rightarrow> ('s, 'w) req_ctx" where
  "gin_Write r c = c\<lparr>rc_replies := rc_replies c @ [r]\<rparr>"

definition gin_JSON :: "nat \<Rightarrow> reply \<Rightarrow> ('s, 'w) req_ctx \<Rightarrow> ('s, 'w) req_ctx" where
  "gin_JSON code r c = gin_Write r (gin_WriteHeader code c)"

section \<open>Chains of handlers\<close>

text \<open>
  What a handler does until it returns, calls \<open>Next\<close> or panics (the flag tells a broken connection), what it does after \<open>Next\<close>
  has returned (a flag tells a panic there), and the deferred function that recovers a panic, if it has one.
\<close>

datatype 'c outcome = Returned 'c | NextCalled 'c | Panicked bool 'c

record 'c handler =
  h_before :: "'c \<Rightarrow> 'c outcome"
  h_after :: "'c \<Rightarrow> bool \<times> 'c"
  h_recover :: "(bool \<Rightarrow> 'c \<Rightarrow> 'c) option"

definition plain_handler :: "('c \<Rightarrow> 'c outcome) \<Rightarrow> 'c handler" where
  "plain_handler f = \<lparr>h_before = f, h_after = Pair False, h_recover = None\<rparr>"

text \<open>A chain ends, or a panic leaves it, with the number of handlers that had not started.\<close>

datatype 'c ran = Finished 'c | Panic nat bool 'c

fun gin_run :: "('s, 'w) req_ctx handler list \<Rightarrow> ('s, 'w) req_ctx \<Rightarrow> ('s, 'w) req_ctx ran" where
  "gin_run [] c = Finished c"
| "gin_run (h # hs) c = (if rc_aborted c then Finished c else case h_before h c of
     Returned c' \<Rightarrow> gin_run hs c'
   | Panicked broken c' \<Rightarrow> Panic (length hs) broken c'
   | NextCalled c' \<Rightarrow> (case gin_run hs c' of
       Finished c'' \<Rightarrow> (case h_after h c'' of (p, c''') \<Rightarrow> if p then Panic 0 False c''' else Finished c''')
     | Panic n broken c'' \<Rightarrow> (case h_recover h of
         None \<Rightarrow> Panic n broken c''
       | Some f \<Rightarrow> gin_run (drop (length hs - n) hs) (f broken c''))))"

section \<open>Answers\<close>

datatype msg_arg = MsgText string | MsgOther string

definition msg_text :: "msg_arg \<Rightarrow> string" where
  "msg_text m = (case m of MsgText s \<Rightarrow> s | MsgOther s \<Rightarrow> s)"

text \<open>\<open>fmt.Sprint\<close> puts a space between two operands when neither is a string.\<close>

fun sprint :: "msg_arg list \<Rightarrow> string" where
  "sprint [] = []"
| "sprint [m] = msg_text m"
| "sprint (m # n # ms) = msg_text m @ (case (m, n) of (MsgOther _, MsgOther _) \<Rightarrow> '' '' | _ \<Rightarrow> []) @ sprint (n # ms)"

definition formatMessage :: "(string \<Rightarrow> msg_arg list \<Rightarrow> string) \<Rightarrow> msg_arg list \<Rightarrow> string" where
  "formatMessage sprintf msgs = (case msgs of
     [] \<Rightarrow> []
   | [m] \<Rightarrow> sprint [m]
   | m # ms \<Rightarrow> (case m of MsgText format \<Rightarrow> sprintf format ms | MsgOther _ \<Rightarrow> sprint msgs))"

definition CodeOK :: nat where "CodeOK = 0"
definition ErrCode_BadRequest :: nat where "ErrCode_BadRequest = 400"
definition code_InternalError :: nat where "code_InternalError = 500"
definition ErrCode_NotFound :: nat where "ErrCode_NotFound = 404"
definition ErrCode_Unauthorized :: nat where "ErrCode_Unauthorized = 401"

definition errCodeMap :: "nat \<rightharpoonup> string" where
  "errCodeMap = [10001 \<mapsto> ''wrong username or password'', 10002 \<mapsto> ''user status not normal'', 10003 \<mapsto> ''user has no resource'',
     10004 \<mapsto> ''mobile forgot password not supported'', 10005 \<mapsto> ''verify code sent too often'', 10006 \<mapsto> ''password too short'']"

definition GetMessage :: "nat \<Rightarrow> string" where
  "GetMessage code = (case errCodeMap code of None \<Rightarrow> [] | Some m \<Rightarrow> m)"

definition ResponseMessage :: "nat \<Rightarrow> string \<Rightarrow> ('s, 'w) req_ctx \<Rightarrow> ('s, 'w) req_ctx" where
  "ResponseMessage code msg c = gin_Abort (gin_Write (ReplyBase code msg) c)"

definition rt_Success :: "(string \<Rightarrow> msg_arg list \<Rightarrow> string) \<Rightarrow> msg_arg list \<Rightarrow> ('s, 'w) req_ctx \<Rightarrow> ('s, 'w) req_ctx" where
  "rt_Success sprintf msgs c = ResponseMessage 0 (formatMessage sprintf msgs) (gin_WriteHeader 200 c)"

definition BadRequest :: "(string \<Rightarrow> msg_arg list \<Rightarrow> string) \<Rightarrow> msg_arg list \<Rightarrow> ('s, 'w) req_ctx \<Rightarrow> ('s, 'w) req_ctx" where
  "BadRequest sprintf msgs c = ResponseMessage ErrCode_BadRequest (formatMessage sprintf msgs) (gin_WriteHeader 400 c)"

definition BadRequestWithCode :: "(string \<Rightarrow> msg_arg list \<Rightarrow> string) \<Rightarrow> int \<Rightarrow> msg_arg list \<Rightarrow> ('s, 'w) req_ctx \<Rightarrow> ('s, 'w) req_ctx" where
  "BadRequestWithCode sprintf code msgs c = ResponseMessage ErrCode_BadRequest (formatMessage sprintf msgs) (gin_WriteHeader 400 c)"

definition InternalError :: "(string \<Rightarrow> msg_arg list \<Rightarrow> string) \<Rightarrow> msg_arg list \<Rightarrow> ('s, 'w) req_ctx \<Rightarrow> ('s, 'w) req_ctx" where
  "InternalError sprintf msgs c = ResponseMessage code_InternalError (formatMessage sprintf msgs) (gin_WriteHeader 500 c)"

definition InternalErrorWithCode :: "(string \<Rightarrow> msg_arg list \<Rightarrow> string) \<Rightarrow> int \<Rightarrow> msg_arg list \<Rightarrow> ('s, 'w) req_ctx \<Rightarrow> ('s, 'w) req_ctx" where
  "InternalErrorWithCode sprintf code msgs c = ResponseMessage code_InternalError (formatMessage sprintf msgs) (gin_WriteHeader 500 c)"

section \<open>Readers of the context\<close>

text \<open>\<open>MustGet\<close> panics on a missing key: \<open>None\<close>.\<close>

definition ctx_RequestID :: "('s, 'w) req_ctx \<Rightarrow> string option" where
  "ctx_RequestID c = ck_RequestID c"

definition ctx_LoginStatus :: "('s, 'w) req_ctx \<Rightarrow> LoginStatus option" where
  "ctx_LoginStatus c = ck_LoginStatus c"

definition GetLanguage :: "('s, 'w) req_ctx \<Rightarrow> string" where
  "GetLanguage c = (case ck_Lang c of None \<Rightarrow> [] | Some l \<Rightarrow> l)"

definition ctx_CompanyID :: "('s, 'w) req_ctx \<Rightarrow> nat option" where
  "ctx_CompanyID c = map_option (GetID ''companyid'') (ctx_LoginStatus c)"

definition ctx_EmployeeID :: "('s, 'w) req_ctx \<Rightarrow> nat option" where
  "ctx_EmployeeID c = map_option (GetID ''employeeid'') (ctx_LoginStatus c)"

definition ctx_Uin :: "('s, 'w) req_ctx \<Rightarrow> nat option" where
  "ctx_Uin c = map_option (GetID ''uin'') (ctx_LoginStatus c)"

definition ctx_APIKeyID :: "('s, 'w) req_ctx \<Rightarrow> nat option" where
  "ctx_APIKeyID c = map_option (GetID ''api_key_id'') (ctx_LoginStatus c)"

definition GetRealIP :: "('s, 'w) req_ctx \<Rightarrow> string" where
  "GetRealIP c =
     (if rc_header c ''X-Real-Ip'' \<noteq> [] then rc_header c ''X-Real-Ip''
      else if rc_header c ''X-Forwarded-For'' \<noteq> [] then rc_header c ''X-Forwarded-For''
      else rc_remote c)"

end
