(* ===== verification/Api_Middleware.thy ===== *)
theory Api_Middleware
  imports Api_Server
begin

text \<open>
  The middleware (\<open>apis/runtime/middleware\<close>), the handlers made from functions and the router (\<open>apis/runtime/server\<close>). What
  the process gives them is one record: the settings, the JWT library, the clock, formatting, the configured environment, a
  fresh identifier and the translations.
\<close>

record ('d, 'q) api_env =
  ae_E :: "('d, 'q) settings_env"
  ae_unmarshal :: "string \<Rightarrow> JwtConfig \<Rightarrow> unit res \<times> JwtConfig"
  ae_others :: "'d \<times> 'q \<Rightarrow> 'd \<times> 'q"
  ae_unverified :: "string \<Rightarrow> UserClaims res"
  ae_verify :: "string \<Rightarrow> string \<Rightarrow> gerror option"
  ae_now :: gotime
  ae_sprintf :: "string \<Rightarrow> msg_arg list \<Rightarrow> string"
  ae_Env :: string
  ae_uuid :: string
  ae_tr :: "string \<Rightarrow> string \<Rightarrow> (string \<times> string) list \<Rightarrow> string"

type_synonym ('d, 'q, 'w) hdl = "('d \<times> 'q, 'w) req_ctx handler"

section \<open>Login\<close>

text \<open>\<open>strings.TrimSpace\<close>, of ASCII white space.\<close>

definition is_space :: "char \<Rightarrow> bool" where
  "is_space ch = (let n = of_char ch :: nat in 9 \<le> n \<and> n \<le> 13 \<or> n = 32)"

definition TrimSpace :: "string \<Rightarrow> string" where
  "TrimSpace s = rev (dropWhile is_space (rev (dropWhile is_space s)))"

definition jwt_key :: "('d, 'q) api_env \<Rightarrow> UserClaims \<Rightarrow> 'd \<times> 'q \<Rightarrow> string res option \<times> 'd \<times> 'q" where
  "jwt_key A c s = GetJwtSecret (ae_unmarshal A) (ae_E A) (ae_now A) (ae_others A) (uc_Issuer c) s"

text \<open>The deferred function, which also runs on a panic.\<close>

definition login_defer :: "LoginStatus \<Rightarrow> ('s, 'w) req_ctx \<Rightarrow> ('s, 'w) req_ctx" where
  "login_defer ls c = (let c1 = c\<lparr>ck_LoginStatus := Some ls\<rparr> in
     case ls_Claim ls of Some cl \<Rightarrow> (if uc_Uin cl > 0 then c1\<lparr>ck_Uin := Some (uc_Uin cl)\<rparr> else c1) | None \<Rightarrow> c1)"

definition mw_LoginStatus :: "('d, 'q) api_env \<Rightarrow> ('d, 'q, 'w) hdl" where
  "mw_LoginStatus A = plain_handler (\<lambda>c. let authstr = rc_header c ''Authorization'' in
     if authstr = [] then Returned (login_defer zero_status c)
     else (let tok = TrimSpace (trim_prefix authstr AuthBearer); ls = zero_status\<lparr>ls_Token := tok\<rparr> in
       if has_prefix tok AuthAPIKeyPrefix
       then Returned (login_defer (ls\<lparr>ls_Role := RoleAPI, ls_State := StateSucc, ls_Claim := Some zero_claims\<rparr>) c)
       else (case ParseWithClaims (ae_unverified A) (ae_verify A) (unix_seconds (ae_now A)) (jwt_key A) tok (rc_settings c) of
           (None, s') \<Rightarrow> Panicked False (login_defer ls (c\<lparr>rc_settings := s'\<rparr>))
         | (Some (Inl e), s') \<Rightarrow> Returned (login_defer (ls\<lparr>ls_Err := Some e, ls_State := StateFailed\<rparr>) (c\<lparr>rc_settings := s'\<rparr>))
         | (Some (Inr cl), s') \<Rightarrow>
             Returned (login_defer (ls\<lparr>ls_State := StateSucc, ls_Claim := Some cl, ls_Issuer := uc_Issuer cl\<rparr>) (c\<lparr>rc_settings := s'\<rparr>)))))"

text \<open>
  The application's injectors by issuer. An injector is given the login status, which it can change, and can change the context;
  \<open>None\<close> is a panic in it.
\<close>

type_synonym ('s, 'w) injector = "('s, 'w) req_ctx \<Rightarrow> LoginStatus \<Rightarrow> (gerror option \<times> LoginStatus \<times> ('s, 'w) req_ctx) option"

record ('s, 'w) authInjectors =
  ai_injectors :: "string \<rightharpoonup> ('s, 'w) injector"
  ai_defaultInjector :: "('s, 'w) injector option"

definition AuthInject :: "string \<Rightarrow> ('s, 'w) injector \<Rightarrow> ('s, 'w) authInjectors \<Rightarrow> ('s, 'w) authInjectors" where
  "AuthInject issuer injector ai = (let ai1 = ai\<lparr>ai_injectors := (ai_injectors ai)(issuer \<mapsto> injector)\<rparr> in
     if issuer = [] then ai1\<lparr>ai_defaultInjector := Some injector\<rparr> else ai1)"

definition ai_Default :: "('s, 'w) injector \<Rightarrow> ('s, 'w) authInjectors \<Rightarrow> ('s, 'w) authInjectors" where
  "ai_Default injector ai = ai\<lparr>ai_defaultInjector := Some injector\<rparr>"

definition chosen_injector :: "('s, 'w) authInjectors \<Rightarrow> string \<Rightarrow> ('s, 'w) injector option" where
  "chosen_injector ai issuer = (case ai_injectors ai issuer of Some f \<Rightarrow> Some f | None \<Rightarrow> ai_defaultInjector ai)"

definition ai_Inject :: "('s, 'w) authInjectors \<Rightarrow> ('s, 'w) req_ctx handler" where
  "ai_Inject ai = plain_handler (\<lambda>c. case ctx_LoginStatus c of
     None \<Rightarrow> Panicked False c
   | Some ls \<Rightarrow> (if ls_State ls \<noteq> StateSucc then Returned c
       else case ls_Claim ls of
         None \<Rightarrow> Panicked False c
       | Some cl \<Rightarrow> (case chosen_injector ai (uc_Issuer cl) of
           None \<Rightarrow> Returned (if ls_Err ls \<noteq> None then c\<lparr>ck_LoginStatus := Some (ls\<lparr>ls_State := StateFailed\<rparr>)\<rparr> else c)
         | Some f \<Rightarrow> (case f c ls of
             None \<Rightarrow> Panicked False c
           | Some (err, ls', c') \<Rightarrow>
               Returned (c'\<lparr>ck_LoginStatus := Some (if err \<noteq> None then ls'\<lparr>ls_Err := err, ls_State := StateFailed\<rparr> else ls'\<lparr>ls_Err := err\<rparr>)\<rparr>)))))"

definition AuthMiddleWare :: "('s, 'w) req_ctx handler" where
  "AuthMiddleWare = plain_handler (\<lambda>c. case ctx_LoginStatus c of
     None \<Rightarrow> Panicked False c
   | Some ls \<Rightarrow> (if ls_State ls \<noteq> StateSucc then Returned (gin_JSON 200 ReplyUnauthorized (gin_Abort c)) else NextCalled c))"

definition AuthMiddleWareEmployee :: "('s, 'w) req_ctx handler" where
  "AuthMiddleWareEmployee = plain_handler (\<lambda>c. case ctx_LoginStatus c of
     None \<Rightarrow> Panicked False c
   | Some ls \<Rightarrow> (if ls_State ls \<noteq> StateSucc \<or> ls_Role ls \<noteq> RoleEmployee then Returned (gin_JSON 200 ReplyUnauthorized (gin_Abort c)) else NextCalled c))"

section \<open>Other middleware\<close>

definition CustomerHeader :: "('d, 'q) api_env \<Rightarrow> ('s, 'w) req_ctx handler" where
  "CustomerHeader A = plain_handler (\<lambda>c. if ae_Env A = [] then Returned c
     else (let reqID = rc_header c ''X-Request-Id''; reqID = (if reqID = [] then ae_uuid A else reqID) in
       Returned (c\<lparr>ck_RequestID := Some reqID, rc_out_header := rc_out_header c @ [(''Env'', ae_Env A)]\<rparr>)))"

definition GenerateRequestID :: "('d, 'q) api_env \<Rightarrow> string option \<Rightarrow> ('s, 'w) req_ctx handler" where
  "GenerateRequestID A generator = plain_handler (\<lambda>c. let reqID = rc_header c ''X-Request-Id'' in
     Returned (c\<lparr>ck_RequestID := Some (if reqID = [] then (case generator of None \<Rightarrow> ae_uuid A | Some g \<Rightarrow> g) else reqID)\<rparr>))"

definition AcceptLanguage :: "('s, 'w) req_ctx handler" where
  "AcceptLanguage = plain_handler (\<lambda>c. Returned (c\<lparr>ck_Lang := Some (rc_header c ''Accept-Language'')\<rparr>))"

text \<open>The body is read and put back; after a failed read nothing of it is left.\<close>

definition getReqBody :: "('s, 'w) req_ctx \<Rightarrow> string res \<times> ('s, 'w) req_ctx" where
  "getReqBody c = (case rc_body c of
     None \<Rightarrow> (Inr [], c)
   | Some (b, None) \<Rightarrow> (Inr b, c\<lparr>rc_body := Some (b, None)\<rparr>)
   | Some (b, Some e) \<Rightarrow> (Inl e, c\<lparr>rc_body := Some ([], Some e)\<rparr>))"

definition has_suffix :: "string \<Rightarrow> string \<Rightarrow> bool" where
  "has_suffix s x = has_prefix (rev s) (rev x)"

definition mw_Logger :: "string list \<Rightarrow> ('s, 'w) req_ctx handler" where
  "mw_Logger whitelist = plain_handler (\<lambda>c. if list_ex (has_suffix (rc_fullPath c)) whitelist then NextCalled c
     else (case getReqBody c of
         (Inl e, c') \<Rightarrow> NextCalled (c'\<lparr>rc_errors := rc_errors c' @ [e]\<rparr>)
       | (Inr _, c') \<Rightarrow> NextCalled c'))"

definition mw_Metrics :: "string list \<Rightarrow> ('s, 'w) req_ctx handler" where
  "mw_Metrics whitelist = plain_handler (\<lambda>c. if list_ex (has_suffix (rc_fullPath c)) whitelist then NextCalled c
     else (case getReqBody c of
         (Inl e, c') \<Rightarrow> NextCalled (c'\<lparr>rc_errors := rc_errors c' @ [e]\<rparr>)
       | (Inr _, c') \<Rightarrow> NextCalled c'))"

definition Recovery :: "('d, 'q) api_env \<Rightarrow> ('s, 'w) req_ctx handler" where
  "Recovery A = \<lparr>h_before = NextCalled, h_after = Pair False, h_recover = Some (\<lambda>brokenPipe c.
     if brokenPipe then gin_Abort (c\<lparr>rc_errors := rc_errors c @ [Err ''broken pipe'']\<rparr>)
     else InternalError (ae_sprintf A) [MsgText ''network error, try again later''] c)\<rparr>"

fun str_contains :: "string \<Rightarrow> string \<Rightarrow> bool" where
  "str_contains [] x \<longleftrightarrow> x = []"
| "str_contains (ch # s) x \<longleftrightarrow> has_prefix (ch # s) x \<or> str_contains s x"

definition LicenseCheck :: "('d, 'q) api_env \<Rightarrow> string list \<Rightarrow> ('d, 'q, 'w) hdl" where
  "LicenseCheck A whitelist = plain_handler (\<lambda>c. if list_ex (str_contains (rc_path c)) whitelist then NextCalled c
     else (let refuse = (\<lambda>msg c. Returned (gin_JSON 200 (ReplyLicense msg) (gin_Abort c))) in
       case GetValue (ae_E A) (ae_now A) (ae_others A) ''license'' ''enable'' (rc_settings c) of
         (None, s') \<Rightarrow> Panicked False (c\<lparr>rc_settings := s'\<rparr>)
       | (Some (Inl _), s') \<Rightarrow> refuse ''license auth failed'' (c\<lparr>rc_settings := s'\<rparr>)
       | (Some (Inr license), s') \<Rightarrow>
           (if license = [] then refuse ''license is not found'' (c\<lparr>rc_settings := s'\<rparr>)
            else case parse_int64 license of
              None \<Rightarrow> refuse ''invalid license'' (c\<lparr>rc_settings := s'\<rparr>)
            | Some micros \<Rightarrow> (if ae_now A > micros * 1000 then refuse ''license expired'' (c\<lparr>rc_settings := s'\<rparr>)
                else NextCalled (c\<lparr>rc_settings := s'\<rparr>)))))"

end
