(* ===== verification/Api_Router.thy ===== *)
theory Api_Router
  imports Api_Middleware
begin

text \<open>
  Handlers made from functions (\<open>apis/runtime/server/handler.go\<close>) and the router (\<open>server.go\<close>). What reflection finds in a
  function is a record. Panics of reflection are modelled: \<open>None\<close> in the operations on answer structs.
\<close>

section \<open>Functions as handlers\<close>

datatype api_ret = RetNone | RetNil | RetErr gerror | RetOther string

text \<open>
  \<open>af_input\<close> decodes the body into a fresh input and gives what calling the function with it does: a panic, or what it returned,
  the output struct and the context; the second component is what is left of the body.
\<close>

record ('s, 'w) api_func =
  af_is_func :: bool
  af_type :: string
  af_NumIn :: nat
  af_NumOut :: nat
  af_ptr_args :: bool
  af_input :: "reader option \<Rightarrow> (gerror + (('s, 'w) req_ctx \<Rightarrow> (bool \<times> ('s, 'w) req_ctx) + (api_ret \<times> out_struct \<times> ('s, 'w) req_ctx))) \<times> reader option"

definition to_int64 :: "int \<Rightarrow> int" where
  "to_int64 n = (n + 2 ^ 63) mod 2 ^ 64 - 2 ^ 63"

definition completed_base :: "('d, 'q) api_env \<Rightarrow> ('s, 'w) req_ctx \<Rightarrow> BaseResponse \<Rightarrow> BaseResponse" where
  "completed_base A c br = (let br1 = (if br_Message br = [] then br\<lparr>br_Message := GetMessage (br_Code br)\<rparr> else br) in
     br1\<lparr>br_RequestID := (case ck_RequestID c of None \<Rightarrow> [] | Some r \<Rightarrow> r), br_Env := ae_Env A\<rparr>)"

fun fixBaseResponse :: "('d, 'q) api_env \<Rightarrow> ('s, 'w) req_ctx \<Rightarrow> out_struct \<Rightarrow> (('s, 'w) req_ctx \<times> out_struct) option" where
  "fixBaseResponse A c [] = Some (c, [])"
| "fixBaseResponse A c ((name, v) # fs) = (case (name = ''Code'', v) of
     (True, FUint k) \<Rightarrow> Some (c\<lparr>ck_Code := Some (to_int64 (int k))\<rparr>, (name, v) # fs)
   | (True, FInt k) \<Rightarrow> Some (c\<lparr>ck_Code := Some k\<rparr>, (name, v) # fs)
   | (_, FNil) \<Rightarrow> None
   | (_, FBase br) \<Rightarrow> Some (c\<lparr>ck_Code := Some (int (br_Code br))\<rparr>, (name, FBase (completed_base A c br)) # fs)
   | _ \<Rightarrow> map_option (\<lambda>(c', fs'). (c', (name, v) # fs')) (fixBaseResponse A c fs))"

text \<open>\<open>FieldByName\<close> finds a field of the struct or, promoted, one of an embedded \<open>BaseResponse\<close>.\<close>

definition embedded_base :: "out_struct \<Rightarrow> BaseResponse option" where
  "embedded_base out = (case map_of out ''BaseResponse'' of Some (FBase br) \<Rightarrow> Some br | _ \<Rightarrow> None)"

definition message_field :: "out_struct \<Rightarrow> string option" where
  "message_field out = (case map_of out ''Message'' of
     Some (FStr m) \<Rightarrow> Some m
   | Some _ \<Rightarrow> None
   | None \<Rightarrow> map_option br_Message (embedded_base out))"

definition message_data :: "out_struct \<Rightarrow> (string \<times> string) list" where
  "message_data out = (case map_of out ''MessageData'' of
     Some (FMap d) \<Rightarrow> d
   | Some _ \<Rightarrow> []
   | None \<Rightarrow> (case embedded_base out of None \<Rightarrow> [] | Some br \<Rightarrow> br_MessageData br))"

definition set_message :: "string \<Rightarrow> out_struct \<Rightarrow> out_struct" where
  "set_message m out = (if map_of out ''Message'' \<noteq> None
     then map (\<lambda>(n, v). (n, if n = ''Message'' then FStr m else v)) out
     else map (\<lambda>(n, v). (n, if n = ''BaseResponse'' then (case v of FBase br \<Rightarrow> FBase (br\<lparr>br_Message := m\<rparr>) | _ \<Rightarrow> v) else v)) out)"

text \<open>A struct without such a field panics: its missing message is read as the text of an invalid value, and setting it fails.\<close>

definition translateMessage :: "('d, 'q) api_env \<Rightarrow> ('s, 'w) req_ctx \<Rightarrow> out_struct \<Rightarrow> out_struct option" where
  "translateMessage A c out = (case message_field out of
     None \<Rightarrow> None
   | Some m \<Rightarrow> Some (if m = [] then out else set_message (ae_tr A (GetLanguage c) m (message_data out)) out))"

definition transAPI :: "('d, 'q) api_env \<Rightarrow> ('s, 'w) api_func \<Rightarrow> ('s, 'w) req_ctx handler" where
  "transAPI A f = plain_handler (\<lambda>c. let fmt = ae_sprintf A in
     if \<not> af_is_func f then Returned (BadRequest fmt [MsgText ''failed hdrType %T'', MsgOther (af_type f)] c)
     else if af_NumIn f \<noteq> 3
       then Returned (InternalError fmt [MsgText ''invalid handler params number. %T %v'', MsgOther (af_type f), MsgOther (itoa (int (af_NumIn f)))] c)
     else if af_NumOut f > 1
       then Returned (InternalError fmt [MsgText ''invalid handler returns number. %T %v'', MsgOther (af_type f), MsgOther (itoa (int (af_NumOut f)))] c)
     else if \<not> af_ptr_args f then Panicked False c
     else (case af_input f (rc_body c) of
         (Inl e, rest) \<Rightarrow> Returned (BadRequest fmt [MsgText ''decode request failed, %s'', MsgOther (err_text e)] (c\<lparr>rc_body := rest\<rparr>))
       | (Inr call, rest) \<Rightarrow> (case call (c\<lparr>rc_body := rest\<rparr>) of
           Inl (broken, c') \<Rightarrow> Panicked broken c'
         | Inr (ret, out, c') \<Rightarrow> (case ret of
             RetOther t \<Rightarrow> Returned (InternalError fmt [MsgText ''invalid handler returns type: %T'', MsgOther t] c')
           | RetErr e \<Rightarrow> Returned (InternalError fmt [MsgText ''handler return error %T %s'', MsgOther (err_text e)] c')
           | _ \<Rightarrow> (case translateMessage A c' out of
               None \<Rightarrow> Panicked False c'
             | Some out' \<Rightarrow> (if rc_aborted c' then Returned c'
                 else (case fixBaseResponse A c' out' of
                     None \<Rightarrow> Panicked False c'
                   | Some (c'', out'') \<Rightarrow> Returned (gin_JSON 200 (ReplyOut out'') c'')))))))) "

section \<open>Router\<close>

text \<open>What \<open>P\<close> accepts: a gin handler, a handler of \<open>net/http\<close>, which neither aborts nor calls \<open>Next\<close>, or anything else.\<close>

datatype ('s, 'w) hdr = GinHandler "('s, 'w) req_ctx handler" | HttpHandler "('s, 'w) req_ctx \<Rightarrow> (bool \<times> ('s, 'w) req_ctx) + ('s, 'w) req_ctx"
  | ApiHandler "('s, 'w) api_func"

definition transHttp :: "(('s, 'w) req_ctx \<Rightarrow> (bool \<times> ('s, 'w) req_ctx) + ('s, 'w) req_ctx) \<Rightarrow> ('s, 'w) req_ctx handler" where
  "transHttp f = plain_handler (\<lambda>c. case f c of Inl (broken, c') \<Rightarrow> Panicked broken c' | Inr c' \<Rightarrow> Returned c')"

fun trans_hdr :: "('d, 'q) api_env \<Rightarrow> ('s, 'w) hdr \<Rightarrow> ('s, 'w) req_ctx handler" where
  "trans_hdr A (GinHandler h) = h"
| "trans_hdr A (HttpHandler f) = transHttp f"
| "trans_hdr A (ApiHandler f) = transAPI A f"

text \<open>
  The router: the handlers of the engine, the prefixes, the groups, which are made with the engine's handlers of that time, and the
  routes by method, prefix and action.
\<close>

record ('s, 'w) Router =
  rt_eng :: "('s, 'w) req_ctx handler list"
  rt_Prefix :: string
  rt_prefixes :: "string list"
  rt_routerMap :: "string set"
  rt_groups :: "(string \<times> ('s, 'w) req_ctx handler list) list"
  rt_deployMode :: string
  rt_routes :: "((string \<times> string \<times> string) \<times> ('s, 'w) req_ctx handler list) list"

definition PrefixAPIV3 :: string where "PrefixAPIV3 = ''/v3/''"
definition PrefixAPIDefault :: string where "PrefixAPIDefault = ''/v4/''"

text \<open>Options. \<open>order\<close> is the order in which the set of prefixes is iterated.\<close>

definition WithPrefixes :: "(string list \<Rightarrow> string list) \<Rightarrow> string list \<Rightarrow> ('s, 'w) Router \<Rightarrow> ('s, 'w) Router" where
  "WithPrefixes order prefixes svr =
     svr\<lparr>rt_prefixes := order (remdups ((if rt_Prefix svr \<noteq> [] then [rt_Prefix svr] else []) @ filter (\<lambda>p. p \<noteq> []) prefixes))\<rparr>"

definition WithDeployMode :: "string \<Rightarrow> ('s, 'w) Router \<Rightarrow> ('s, 'w) Router" where
  "WithDeployMode m svr = svr\<lparr>rt_deployMode := m\<rparr>"

definition WithMiddleware :: "('s, 'w) req_ctx handler list \<Rightarrow> ('s, 'w) Router \<Rightarrow> ('s, 'w) Router" where
  "WithMiddleware hs svr = svr\<lparr>rt_eng := rt_eng svr @ hs\<rparr>"

definition engine_handlers :: "('d, 'q) api_env \<Rightarrow> ('d, 'q, 'w) hdl \<Rightarrow> ('d \<times> 'q, 'w) authInjectors \<Rightarrow> ('d, 'q, 'w) hdl list" where
  "engine_handlers A cors ai =
     [cors, CustomerHeader A, mw_Logger [''.Ping'', ''metrics''], Recovery A, mw_LoginStatus A, AcceptLanguage, ai_Inject ai]"

text \<open>The injectors of a new router: none by issuer, and a default that accepts everything.\<close>

definition new_injectors :: "('s, 'w) authInjectors" where
  "new_injectors = \<lparr>ai_injectors = Map.empty, ai_defaultInjector = Some (\<lambda>c ls. Some (None, ls, c))\<rparr>"

text \<open>A map has one group per prefix, the last one made.\<close>

definition NewRouter :: "('d, 'q) api_env \<Rightarrow> ('d, 'q, 'w) hdl \<Rightarrow> ('d \<times> 'q, 'w) authInjectors \<Rightarrow> string \<Rightarrow>
    (('d \<times> 'q, 'w) Router \<Rightarrow> ('d \<times> 'q, 'w) Router) list \<Rightarrow> ('d \<times> 'q, 'w) Router" where
  "NewRouter A cors ai apiPrefix opts =
     (let apiPrefix = (if apiPrefix = [] then PrefixAPIV3 else apiPrefix);
          svr = \<lparr>rt_eng = engine_handlers A cors ai, rt_Prefix = apiPrefix, rt_prefixes = [], rt_routerMap = {}, rt_groups = [],
            rt_deployMode = [], rt_routes = []\<rparr>;
          svr = fold (\<lambda>opt s. opt s) opts svr;
          svr = (if rt_prefixes svr = [] then svr\<lparr>rt_prefixes := [rt_Prefix svr]\<rparr> else svr)
      in svr\<lparr>rt_groups := map (\<lambda>p. (p, rt_eng svr)) (remdups (rt_prefixes svr))\<rparr>)"

text \<open>Registering a method and path twice is a panic of gin.\<close>

fun add_routes :: "string list \<Rightarrow> string \<Rightarrow> ('s, 'w) req_ctx handler list \<Rightarrow> (string \<times> ('s, 'w) req_ctx handler list) list \<Rightarrow>
    ('s, 'w) Router \<Rightarrow> ('s, 'w) Router option" where
  "add_routes methods action hs [] svr = Some svr"
| "add_routes methods action hs ((p, mws) # gs) svr =
     (if \<exists>m\<in>set methods. map_of (rt_routes svr) (m, p, action) \<noteq> None then None
      else add_routes methods action hs gs (svr\<lparr>rt_routes := rt_routes svr @ map (\<lambda>m. ((m, p, action), mws @ hs)) methods\<rparr>))"

definition rt_register :: "('d, 'q) api_env \<Rightarrow> string list \<Rightarrow> string \<Rightarrow> ('s, 'w) hdr list \<Rightarrow> ('s, 'w) Router \<Rightarrow> ('s, 'w) Router option" where
  "rt_register A methods action hdrs svr =
     add_routes methods action (map (trans_hdr A) hdrs) (rt_groups svr) (svr\<lparr>rt_routerMap := insert action (rt_routerMap svr)\<rparr>)"

definition anyMethods :: "string list" where
  "anyMethods = [''GET'', ''POST'', ''PUT'', ''PATCH'', ''HEAD'', ''OPTIONS'', ''DELETE'', ''CONNECT'', ''TRACE'']"

definition rt_Any :: "('d, 'q) api_env \<Rightarrow> string \<Rightarrow> ('s, 'w) hdr list \<Rightarrow> ('s, 'w) Router \<Rightarrow> ('s, 'w) Router option" where
  "rt_Any A action hdrs svr = rt_register A anyMethods action hdrs svr"

definition rt_P :: "('d, 'q) api_env \<Rightarrow> string \<Rightarrow> ('s, 'w) hdr list \<Rightarrow> ('s, 'w) Router \<Rightarrow> ('s, 'w) Router option" where
  "rt_P A action hdrs svr = rt_register A [''POST''] action hdrs svr"

definition rt_G :: "('d, 'q) api_env \<Rightarrow> string \<Rightarrow> ('s, 'w) hdr list \<Rightarrow> ('s, 'w) Router \<Rightarrow> ('s, 'w) Router option" where
  "rt_G A action hdrs svr = rt_register A [''GET''] action hdrs svr"

definition PRequireLogin :: "('d, 'q) api_env \<Rightarrow> string \<Rightarrow> ('s, 'w) hdr list \<Rightarrow> ('s, 'w) Router \<Rightarrow> ('s, 'w) Router option" where
  "PRequireLogin A action hdrs svr = rt_P A action (GinHandler AuthMiddleWare # hdrs) svr"

definition PRequireEmployee :: "('d, 'q) api_env \<Rightarrow> string \<Rightarrow> ('s, 'w) hdr list \<Rightarrow> ('s, 'w) Router \<Rightarrow> ('s, 'w) Router option" where
  "PRequireEmployee A action hdrs svr = rt_P A action (GinHandler AuthMiddleWareEmployee # hdrs) svr"

definition GRequireLogin :: "('d, 'q) api_env \<Rightarrow> string \<Rightarrow> ('s, 'w) hdr list \<Rightarrow> ('s, 'w) Router \<Rightarrow> ('s, 'w) Router option" where
  "GRequireLogin A action hdrs svr = rt_G A action (GinHandler AuthMiddleWare # hdrs) svr"

end
