(* ===== verification/Api_Correct.thy ===== *)
theory Api_Correct
  imports Api_Router
begin

text \<open>
  Properties of the HTTP runtime: a panic never leaves the chain behind the recovery, handlers that require a login only matter
  for requests with accepted credentials, the licence gate, and what an API handler answers.
\<close>

section \<open>Chains\<close>

lemma gin_run_aborted [simp]: "rc_aborted c \<Longrightarrow> gin_run hs c = Finished c"
  by (cases hs) auto

text \<open>A result without the number of handlers left.\<close>

fun strip :: "'c ran \<Rightarrow> bool option \<times> 'c" where
  "strip (Finished c) = (None, c)"
| "strip (Panic n broken c) = (Some broken, c)"

definition recovered :: "('d, 'q) api_env \<Rightarrow> bool option \<times> ('s, 'w) req_ctx \<Rightarrow> ('s, 'w) req_ctx" where
  "recovered A r = (case r of (None, c) \<Rightarrow> c | (Some broken, c) \<Rightarrow>
     (if broken then gin_Abort (c\<lparr>rc_errors := rc_errors c @ [Err ''broken pipe'']\<rparr>)
      else InternalError (ae_sprintf A) [MsgText ''network error, try again later''] c))"

lemma recovered_panic_aborts: "rc_aborted (recovered A (Some broken, c))"
  by (simp add: recovered_def gin_Abort_def InternalError_def ResponseMessage_def)

lemma gin_run_Recovery:
  "gin_run (Recovery A # hs) c = Finished (if rc_aborted c then c else recovered A (strip (gin_run hs c)))"
proof (cases "gin_run hs c")
  case (Panic n broken d)
  have "gin_run (drop k hs) (recovered A (Some broken, d)) = Finished (recovered A (Some broken, d))" for k
    by (simp add: recovered_panic_aborts)
  with Panic show ?thesis by (simp add: Recovery_def recovered_def)
qed (simp add: Recovery_def recovered_def)

lemma gin_run_simple:
  assumes "h_after h = Pair False" "h_recover h = None" "\<not> rc_aborted c"
  shows "gin_run (h # hs) c = (case h_before h c of
     Returned c' \<Rightarrow> gin_run hs c' | NextCalled c' \<Rightarrow> gin_run hs c' | Panicked broken c' \<Rightarrow> Panic (length hs) broken c')"
  using assms by (simp split: outcome.split ran.split)

section \<open>Login\<close>

definition request_token :: "('s, 'w) req_ctx \<Rightarrow> string" where
  "request_token c = TrimSpace (trim_prefix (rc_header c ''Authorization'') AuthBearer)"

text \<open>The request carries an API key, of which only the prefix is known here, or a signed token that is valid now.\<close>

definition credentials :: "('d, 'q) api_env \<Rightarrow> ('d \<times> 'q, 'w) req_ctx \<Rightarrow> UserClaims \<Rightarrow> bool" where
  "credentials A c cl \<longleftrightarrow> rc_header c ''Authorization'' \<noteq> [] \<and>
     (if has_prefix (request_token c) AuthAPIKeyPrefix then cl = zero_claims
      else ae_unverified A (request_token c) = Inr cl \<and>
        (\<exists>key s'. jwt_key A cl (rc_settings c) = (Some (Inr key), s') \<and> ae_verify A (request_token c) key = None) \<and>
        uc_IssuedAt cl \<le> unix_seconds (ae_now A) \<and> unix_seconds (ae_now A) \<le> uc_ExpiresAt cl)"

text \<open>The injector for the issuer, or the default one, if there is any, returned no error for this request and these claims.\<close>

definition injector_accepts :: "('s, 'w) authInjectors \<Rightarrow> ('s, 'w) req_ctx \<Rightarrow> UserClaims \<Rightarrow> bool" where
  "injector_accepts ai c cl \<longleftrightarrow> (case chosen_injector ai (uc_Issuer cl) of
     None \<Rightarrow> True
   | Some f \<Rightarrow> (\<exists>c1 ls ls' c2. rc_header c1 = rc_header c \<and> rc_world c1 = rc_world c \<and> ls_Token ls = request_token c \<and> ls_Claim ls = Some cl \<and>
       f c1 ls = Some (None, ls', c2)))"

lemma login_defer_simps [simp]:
  "rc_aborted (login_defer ls c) = rc_aborted c" "rc_header (login_defer ls c) = rc_header c"
  "rc_world (login_defer ls c) = rc_world c" "ck_LoginStatus (login_defer ls c) = Some ls"
  by (simp_all add: login_defer_def Let_def split: option.split)

lemma mw_LoginStatus_no_next: "h_before (mw_LoginStatus A) c \<noteq> NextCalled c'"
  by (auto simp: mw_LoginStatus_def plain_handler_def Let_def split: option.splits sum.splits prod.splits)

text \<open>What the login middleware leaves: nobody is logged in without credentials.\<close>

lemma mw_LoginStatus_sound:
  assumes "h_before (mw_LoginStatus A) c = Returned c'"
  shows "\<exists>ls. ck_LoginStatus c' = Some ls \<and> rc_header c' = rc_header c \<and> rc_world c' = rc_world c \<and> rc_aborted c' = rc_aborted c \<and>
    (ls_State ls = StateSucc \<longrightarrow> (\<exists>cl. credentials A c cl \<and> ls_Claim ls = Some cl \<and> ls_Token ls = request_token c))"
proof -
  let ?t = "request_token c"
  have nz: "ls_State (zero_status\<lparr>ls_Token := t\<rparr>) \<noteq> StateSucc" for t by (simp add: zero_status_def StateNil_def StateSucc_def)
  consider (none) "rc_header c ''Authorization'' = []" | (key) "rc_header c ''Authorization'' \<noteq> []" "has_prefix ?t AuthAPIKeyPrefix"
    | (jwt) "rc_header c ''Authorization'' \<noteq> []" "\<not> has_prefix ?t AuthAPIKeyPrefix" by blast
  then show ?thesis
  proof cases
    case none
    with assms show ?thesis by (auto simp: mw_LoginStatus_def plain_handler_def zero_status_def StateNil_def StateSucc_def)
  next
    case key
    with assms show ?thesis
      by (auto simp: mw_LoginStatus_def plain_handler_def Let_def credentials_def request_token_def)
  next
    case jwt
    obtain r s' where p: "ParseWithClaims (ae_unverified A) (ae_verify A) (unix_seconds (ae_now A)) (jwt_key A) ?t (rc_settings c) = (r, s')"
      by (metis prod.exhaust)
    with assms jwt have c': "(\<exists>e. c' = login_defer (zero_status\<lparr>ls_Token := ?t, ls_Err := Some e, ls_State := StateFailed\<rparr>) (c\<lparr>rc_settings := s'\<rparr>)) \<or>
        (\<exists>cl. r = Some (Inr cl) \<and> c' = login_defer (zero_status\<lparr>ls_Token := ?t, ls_State := StateSucc, ls_Claim := Some cl, ls_Issuer := uc_Issuer cl\<rparr>)
          (c\<lparr>rc_settings := s'\<rparr>))"
      by (auto simp: mw_LoginStatus_def plain_handler_def Let_def request_token_def zero_status_def split: option.splits sum.splits)
    have "r = Some (Inr cl) \<Longrightarrow> credentials A c cl" for cl
      using ParseWithClaims_ok [of "ae_unverified A" "ae_verify A" "unix_seconds (ae_now A)" "jwt_key A" ?t "rc_settings c" cl s'] p jwt
      by (auto simp: credentials_def)
    with c' show ?thesis by (auto simp: zero_status_def StateFailed_def StateSucc_def)
  qed
qed

lemma ai_Inject_sound:
  assumes "h_before (ai_Inject ai) c = Returned c'" "ck_LoginStatus c = Some ls" "ck_LoginStatus c' = Some ls'" "ls_State ls' = StateSucc"
    "rc_header c = rc_header c0" "rc_world c = rc_world c0" "ls_State ls = StateSucc \<Longrightarrow> ls_Token ls = request_token c0"
  shows "ls_State ls = StateSucc \<and> (\<forall>cl. ls_Claim ls = Some cl \<longrightarrow> injector_accepts ai c0 cl)"
proof -
  have 1: "ls_State ls = StateSucc"
    using assms(1-4) by (auto simp: ai_Inject_def plain_handler_def ctx_LoginStatus_def split: if_splits)
  moreover have "injector_accepts ai c0 cl'" if cl: "ls_Claim ls = Some cl'" for cl'
  proof (cases "chosen_injector ai (uc_Issuer cl')")
    case (Some f)
    with assms(1,2,3,4) 1 cl obtain ls'' c'' where "f c ls = Some (None, ls'', c'')"
      by (auto simp: ai_Inject_def plain_handler_def ctx_LoginStatus_def StateFailed_def StateSucc_def split: option.splits prod.splits if_splits)
    then show ?thesis using assms(5,6) assms(7) [OF 1] cl unfolding injector_accepts_def Some option.case by blast
  qed (simp add: injector_accepts_def)
  ultimately show ?thesis by blast
qed


lemma guarded_indep:
  assumes "\<not> (\<exists>cl. credentials A c cl \<and> injector_accepts ai c cl)"
  shows "strip (gin_run (mw_LoginStatus A # AcceptLanguage # ai_Inject ai # AuthMiddleWare # hs) c) =
    strip (gin_run [mw_LoginStatus A, AcceptLanguage, ai_Inject ai, AuthMiddleWare] c)"
proof (cases "rc_aborted c")
  case na: False
  let ?L = "h_before (mw_LoginStatus A) c"
  have run: "gin_run (mw_LoginStatus A # rest) c = (case ?L of Returned c' \<Rightarrow> gin_run rest c' | NextCalled c' \<Rightarrow> gin_run rest c'
      | Panicked broken c' \<Rightarrow> Panic (length rest) broken c')" for rest
    by (rule gin_run_simple [OF _ _ na]) (simp_all add: mw_LoginStatus_def plain_handler_def)
  show ?thesis
  proof (cases ?L)
    case (Returned c1)
    from mw_LoginStatus_sound [OF this] obtain ls where ls: "ck_LoginStatus c1 = Some ls" "rc_header c1 = rc_header c" "rc_world c1 = rc_world c"
      "rc_aborted c1 = rc_aborted c" "ls_State ls = StateSucc \<Longrightarrow> \<exists>cl. credentials A c cl \<and> ls_Claim ls = Some cl \<and> ls_Token ls = request_token c" by blast
    let ?c2 = "c1\<lparr>ck_Lang := Some (rc_header c1 ''Accept-Language'')\<rparr>"
    have step: "gin_run (AcceptLanguage # rest) c1 = gin_run rest ?c2" for rest using na ls(4) by (simp add: AcceptLanguage_def plain_handler_def)
    have inj: "gin_run (ai_Inject ai # rest) ?c2 = (case h_before (ai_Inject ai) ?c2 of Returned c' \<Rightarrow> gin_run rest c' | NextCalled c' \<Rightarrow> gin_run rest c'
      | Panicked broken c' \<Rightarrow> Panic (length rest) broken c')" for rest
      by (rule gin_run_simple) (use na ls(4) in \<open>simp_all add: ai_Inject_def plain_handler_def\<close>)
    have auth: "strip (gin_run (AuthMiddleWare # rest) c3) = strip (gin_run (AuthMiddleWare # []) c3)" if c3: "h_before (ai_Inject ai) ?c2 = Returned c3" for rest c3
    proof (cases "\<exists>ls'. ck_LoginStatus c3 = Some ls' \<and> ls_State ls' = StateSucc")
      case True
      then obtain ls' where ls': "ck_LoginStatus c3 = Some ls'" "ls_State ls' = StateSucc" by blast
      have "ls_State ls = StateSucc \<and> (\<forall>cl. ls_Claim ls = Some cl \<longrightarrow> injector_accepts ai c cl)"
        by (rule ai_Inject_sound [OF c3 _ ls']) (use ls in auto)
      with ls(5) assms show ?thesis by blast
    next
      case False
      then show ?thesis
        by (cases "ck_LoginStatus c3") (auto simp: AuthMiddleWare_def plain_handler_def ctx_LoginStatus_def gin_JSON_def gin_Write_def gin_WriteHeader_def gin_Abort_def)
    qed
    have nn2: "h_before (ai_Inject ai) ?c2 \<noteq> NextCalled c'" for c'
      by (auto simp: ai_Inject_def plain_handler_def split: option.splits prod.splits)
    show ?thesis
    proof (cases "h_before (ai_Inject ai) ?c2")
      case r: (Returned c3)
      show ?thesis by (simp only: run Returned outcome.case step inj r auth [OF r, of hs])
    next
      case (Panicked broken c3)
      then show ?thesis by (simp only: run Returned outcome.case step inj strip.simps)
    qed (simp add: nn2)
  qed (simp_all add: run mw_LoginStatus_no_next)
qed simp


text \<open>What the handlers before the recovery leave alone.\<close>

lemma CustomerHeader_keeps:
  "\<exists>c'. h_before (CustomerHeader A) c = Returned c' \<and> rc_header c' = rc_header c \<and> rc_settings c' = rc_settings c \<and> rc_world c' = rc_world c \<and>
     rc_aborted c' = rc_aborted c"
  by (auto simp: CustomerHeader_def plain_handler_def Let_def)

lemma mw_Logger_keeps:
  "\<exists>c'. h_before (mw_Logger wl) c = NextCalled c' \<and> rc_header c' = rc_header c \<and> rc_settings c' = rc_settings c \<and> rc_world c' = rc_world c \<and>
     rc_aborted c' = rc_aborted c"
  by (auto simp: mw_Logger_def plain_handler_def getReqBody_def split: option.splits prod.splits)

lemma engine_run:
  assumes "\<not> rc_aborted c" "h_before cors c = Returned c0" "\<not> rc_aborted c0"
  shows "\<exists>c2. rc_header c2 = rc_header c0 \<and> rc_settings c2 = rc_settings c0 \<and> rc_world c2 = rc_world c0 \<and> \<not> rc_aborted c2 \<and>
    (\<forall>hs. gin_run (engine_handlers A cors ai @ hs) c =
      Finished (recovered A (strip (gin_run (mw_LoginStatus A # AcceptLanguage # ai_Inject ai # hs) c2))))"
proof -
  obtain c1 where c1: "h_before (CustomerHeader A) c0 = Returned c1" "rc_header c1 = rc_header c0" "rc_settings c1 = rc_settings c0"
    "rc_world c1 = rc_world c0" "rc_aborted c1 = rc_aborted c0" using CustomerHeader_keeps by blast
  obtain c2 where c2: "h_before (mw_Logger [''.Ping'', ''metrics'']) c1 = NextCalled c2" "rc_header c2 = rc_header c1" "rc_settings c2 = rc_settings c1"
    "rc_world c2 = rc_world c1" "rc_aborted c2 = rc_aborted c1" using mw_Logger_keeps by blast
  have log: "h_after (mw_Logger wl) = Pair False" "h_recover (mw_Logger wl) = None" for wl by (simp_all add: mw_Logger_def plain_handler_def)
  have "gin_run (engine_handlers A cors ai @ hs) c =
      Finished (recovered A (strip (gin_run (mw_LoginStatus A # AcceptLanguage # ai_Inject ai # hs) c2)))" for hs
  proof -
    let ?in = "mw_LoginStatus A # AcceptLanguage # ai_Inject ai # hs"
    have "gin_run (engine_handlers A cors ai @ hs) c = gin_run (mw_Logger [''.Ping'', ''metrics''] # Recovery A # ?in) c1"
      using assms c1(1) by (simp add: engine_handlers_def del: gin_run.simps) (simp add: gin_run.simps(2) [of cors] gin_run.simps(2) [of "CustomerHeader A"] del: gin_run.simps)
    also have "\<dots> = gin_run (Recovery A # ?in) c2"
      using gin_run_simple [OF log, of c1] assms(3) c1(5) c2(1) by (simp del: gin_run.simps)
    finally show ?thesis using assms(3) c1(5) c2(5) by (simp add: gin_run_Recovery del: gin_run.simps)
  qed
  then show ?thesis using c1 c2 assms(3) by auto
qed

lemma credentials_cong:
  assumes "rc_header c2 = rc_header c0" "rc_settings c2 = rc_settings c0" "rc_world c2 = rc_world c0"
  shows "credentials A c2 cl = credentials A c0 cl \<and> injector_accepts ai c2 cl = injector_accepts ai c0 cl"
proof -
  have "request_token c2 = request_token c0" by (simp add: request_token_def assms)
  then show ?thesis by (simp only: credentials_def injector_accepts_def assms simp_thms)
qed

text \<open>Every route of a registration has the handlers of its group and then those given.\<close>

lemma add_routes_chain:
  assumes "add_routes methods action hs gs svr = Some svr'" "\<forall>g\<in>set gs. snd g = mws" "(k, chain) \<in> set (rt_routes svr')"
  shows "(k, chain) \<in> set (rt_routes svr) \<or> chain = mws @ hs"
  using assms
proof (induction methods action hs gs svr rule: add_routes.induct)
  case (2 methods action hs p m gs svr)
  then show ?case by (auto split: if_splits)
qed simp

lemma NewRouter_groups:
  assumes "set opts \<subseteq> {WithPrefixes order ps, WithDeployMode mode}"
  shows "rt_routes (NewRouter A cors ai prefix opts) = [] \<and> (\<forall>g\<in>set (rt_groups (NewRouter A cors ai prefix opts)). snd g = engine_handlers A cors ai)"
proof -
  have "rt_routes (fold (\<lambda>opt s. opt s) opts s) = rt_routes s \<and> rt_eng (fold (\<lambda>opt s. opt s) opts s) = rt_eng s" for s
    using assms by (induction opts arbitrary: s) (auto simp: WithPrefixes_def WithDeployMode_def)
  then show ?thesis by (auto simp: NewRouter_def Let_def)
qed


lemma PRequireLogin_chain:
  assumes "set opts \<subseteq> {WithPrefixes order ps, WithDeployMode mode}" "PRequireLogin A action hdrs (NewRouter A cors ai prefix opts) = Some svr"
    "(route, chain) \<in> set (rt_routes svr)"
  shows "chain = engine_handlers A cors ai @ AuthMiddleWare # map (trans_hdr A) hdrs"
proof -
  from assms(2) have "add_routes [''POST''] action (map (trans_hdr A) (GinHandler AuthMiddleWare # hdrs)) (rt_groups (NewRouter A cors ai prefix opts))
      (NewRouter A cors ai prefix opts\<lparr>rt_routerMap := insert action (rt_routerMap (NewRouter A cors ai prefix opts))\<rparr>) = Some svr"
    by (simp add: PRequireLogin_def rt_P_def rt_register_def)
  from add_routes_chain [OF this _ assms(3), of "engine_handlers A cors ai"] NewRouter_groups [OF assms(1), of A cors ai prefix] show ?thesis by simp
qed

text \<open>Without credentials the login middleware leaves nobody logged in and the rest refuses.\<close>

lemma no_credentials_refused:
  assumes "\<nexists>cl. credentials A c cl" "\<not> rc_aborted c"
  shows "rc_world (recovered A (strip (gin_run (mw_LoginStatus A # AcceptLanguage # ai_Inject ai # AuthMiddleWare # hs) c))) = rc_world c \<and>
    rc_aborted (recovered A (strip (gin_run (mw_LoginStatus A # AcceptLanguage # ai_Inject ai # AuthMiddleWare # hs) c)))"
proof -
  note reply = recovered_def gin_JSON_def gin_Write_def gin_WriteHeader_def gin_Abort_def InternalError_def ResponseMessage_def
  have run: "gin_run (mw_LoginStatus A # rest) c = (case h_before (mw_LoginStatus A) c of Returned c' \<Rightarrow> gin_run rest c' | NextCalled c' \<Rightarrow> gin_run rest c'
      | Panicked broken c' \<Rightarrow> Panic (length rest) broken c')" for rest
    by (rule gin_run_simple [OF _ _ assms(2)]) (simp_all add: mw_LoginStatus_def plain_handler_def)
  show ?thesis
  proof (cases "h_before (mw_LoginStatus A) c")
    case (Returned c1)
    from mw_LoginStatus_sound [OF this] assms obtain ls where "ck_LoginStatus c1 = Some ls" "rc_world c1 = rc_world c" "\<not> rc_aborted c1"
      "ls_State ls \<noteq> StateSucc" by blast
    then show ?thesis unfolding run Returned
      by (simp add: AcceptLanguage_def ai_Inject_def AuthMiddleWare_def plain_handler_def ctx_LoginStatus_def reply)
  next
    case (Panicked broken c1)
    then have "rc_world c1 = rc_world c"
      by (auto simp: mw_LoginStatus_def plain_handler_def Let_def split: if_splits option.splits sum.splits prod.splits)
    then show ?thesis unfolding run Panicked by (simp add: reply)
  qed (simp add: mw_LoginStatus_no_next)
qed



lemma mw_LoginStatus_complete:
  assumes "credentials A c cl"
  shows "\<exists>c' ls. h_before (mw_LoginStatus A) c = Returned c' \<and> ck_LoginStatus c' = Some ls \<and> ls_State ls = StateSucc \<and> ls_Claim ls = Some cl \<and>
    ls_Err ls = None \<and> rc_world c' = rc_world c \<and> rc_header c' = rc_header c \<and> rc_aborted c' = rc_aborted c"
proof (cases "has_prefix (request_token c) AuthAPIKeyPrefix")
  case True
  with assms show ?thesis
    by (simp add: credentials_def mw_LoginStatus_def plain_handler_def Let_def request_token_def zero_status_def)
next
  case False
  with assms obtain key s' where "ae_unverified A (request_token c) = Inr cl" "jwt_key A cl (rc_settings c) = (Some (Inr key), s')"
    "ae_verify A (request_token c) key = None" "uc_IssuedAt cl \<le> unix_seconds (ae_now A)" "unix_seconds (ae_now A) \<le> uc_ExpiresAt cl"
    unfolding credentials_def by auto
  then have "ParseWithClaims (ae_unverified A) (ae_verify A) (unix_seconds (ae_now A)) (jwt_key A) (request_token c) (rc_settings c) = (Some (Inr cl), s')"
    by (simp add: ParseWithClaims_def Claims_Valid_def)
  with assms False show ?thesis
    by (simp add: credentials_def mw_LoginStatus_def plain_handler_def Let_def request_token_def zero_status_def)
qed


text \<open>
  On a new router without registered injectors every text that begins with the prefix of an API key is a login: nothing checks
  the key.
\<close>

lemma any_api_key_admitted:
  assumes "has_prefix (request_token c) AuthAPIKeyPrefix" "rc_header c ''Authorization'' \<noteq> []"
  shows "credentials A c zero_claims \<and> injector_accepts new_injectors c zero_claims"
  using assms
  by (auto simp: credentials_def injector_accepts_def chosen_injector_def new_injectors_def
      intro!: exI [of _ c] exI [of _ "zero_status\<lparr>ls_Token := request_token c, ls_Claim := Some zero_claims\<rparr>"])

section \<open>Licence\<close>

text \<open>The gate lets a request pass exactly when its path is exempt, or the setting holds a time that is not past.\<close>

lemma LicenseCheck_passes:
  "(\<exists>c'. h_before (LicenseCheck A whitelist) c = NextCalled c') \<longleftrightarrow>
     list_ex (str_contains (rc_path c)) whitelist \<or>
     (\<exists>license micros s'. GetValue (ae_E A) (ae_now A) (ae_others A) ''license'' ''enable'' (rc_settings c) = (Some (Inr license), s') \<and>
       license \<noteq> [] \<and> parse_int64 license = Some micros \<and> ae_now A \<le> micros * 1000)"
  by (auto simp: LicenseCheck_def plain_handler_def Let_def not_less split: option.splits prod.splits sum.splits)


section \<open>Functions as handlers\<close>

definition proper_func :: "('s, 'w) api_func \<Rightarrow> bool" where
  "proper_func f \<longleftrightarrow> af_is_func f \<and> af_NumIn f = 3 \<and> af_NumOut f \<le> 1 \<and> af_ptr_args f"

text \<open>
  A function that takes its input, returns no error and has not answered by itself is answered with its output, in which an
  embedded \<open>BaseResponse\<close> in front carries the request's identifier, the environment, and a message: the translated one it
  gave, or the text of its code.
\<close>

lemma transAPI_answers:
  assumes "proper_func f" "af_input f (rc_body c) = (Inr call, rest)" "call (c\<lparr>rc_body := rest\<rparr>) = Inr (ret, (''BaseResponse'', FBase br) # fs, c')"
    "ret = RetNone \<or> ret = RetNil" "\<not> rc_aborted c'" "rc_replies c' = []" "map_of fs ''Message'' = None"
  shows "\<exists>d br' fs'. h_before (transAPI A f) c = Returned d \<and> rc_status d = 200 \<and> rc_replies d = [ReplyOut ((''BaseResponse'', FBase br') # fs')] \<and>
    ck_Code d = Some (int (br_Code br)) \<and> br_Code br' = br_Code br \<and> br_Env br' = ae_Env A \<and>
    br_Message br' = (let m = (if br_Message br = [] then [] else ae_tr A (GetLanguage c') (br_Message br) (message_data ((''BaseResponse'', FBase br) # fs)))
      in if m = [] then GetMessage (br_Code br) else m)"
  using assms
  by (auto simp: proper_func_def transAPI_def plain_handler_def translateMessage_def message_field_def embedded_base_def set_message_def
      completed_base_def gin_JSON_def gin_Write_def gin_WriteHeader_def Let_def)

text \<open>
  A function whose output has neither a string field \<open>Message\<close> nor an embedded \<open>BaseResponse\<close> panics after it has done its work,
  and so does one whose output has a nil pointer before any field with the code.
\<close>

lemma transAPI_panics:
  assumes "proper_func f" "af_input f (rc_body c) = (Inr call, rest)" "call (c\<lparr>rc_body := rest\<rparr>) = Inr (ret, out, c')"
    "ret = RetNone \<or> ret = RetNil"
    "message_field out = None \<or> \<not> rc_aborted c' \<and> (\<exists>n fs. message_field out = Some [] \<and> out = (n, FNil) # fs)"
  shows "h_before (transAPI A f) c = Panicked False c'"
  using assms by (auto simp: proper_func_def transAPI_def plain_handler_def translateMessage_def Let_def split: bool.splits)

section \<open>A router\<close>

definition ex_api :: "(SettingItem list, mem_kv) api_env" where
  "ex_api = \<lparr>ae_E = mem_settings, ae_unmarshal = (\<lambda>t j. (Inr (), j)), ae_others = id, ae_unverified = (\<lambda>_. Inl (Err ''malformed'')),
     ae_verify = (\<lambda>_ _. None), ae_now = 0, ae_sprintf = (\<lambda>f _. f), ae_Env = [], ae_uuid = ''u'', ae_tr = (\<lambda>_ m _. m)\<rparr>"

definition ex_count :: "(SettingItem list \<times> mem_kv, nat) hdr" where
  "ex_count = GinHandler (plain_handler (\<lambda>c. Returned (c\<lparr>rc_world := rc_world c + 1\<rparr>)))"

definition ex_router :: "(SettingItem list \<times> mem_kv, nat) Router option" where
  "ex_router = PRequireLogin ex_api ''a'' [ex_count] (NewRouter ex_api (plain_handler Returned) new_injectors [] [])"

definition ex_request :: "string \<Rightarrow> (SettingItem list \<times> mem_kv, nat) req_ctx" where
  "ex_request authorization = \<lparr>rc_header = (\<lambda>h. if h = ''Authorization'' then authorization else []), rc_path = [], rc_fullPath = [], rc_remote = [],
     rc_body = None, rc_aborted = False, rc_errors = [], rc_status = 200, rc_replies = [], rc_out_header = [], ck_RequestID = None,
     ck_LoginStatus = None, ck_Uin = None, ck_Lang = None, ck_Code = None, rc_settings = ([], Map.empty), rc_world = 0\<rparr>"

lemma ex_request_simps [simp]:
  "rc_aborted (ex_request a) = False" "rc_header (ex_request a) ''Authorization'' = a" "rc_world (ex_request a) = 0"
  by (simp_all add: ex_request_def)

definition ex_chain :: "(SettingItem list, mem_kv, nat) hdl list" where
  "ex_chain = engine_handlers ex_api (plain_handler Returned) new_injectors @ [AuthMiddleWare, trans_hdr ex_api ex_count]"

lemma ex_router_ok: "\<exists>svr. ex_router = Some svr \<and> ((''POST'', ''/v3/'', ''a''), ex_chain) \<in> set (rt_routes svr)"
  by (simp add: ex_router_def PRequireLogin_def rt_P_def rt_register_def NewRouter_def PrefixAPIV3_def ex_chain_def Let_def)



end
