(* ===== verification/Api_Query.thy ===== *)
theory Api_Query
  imports Api_Middleware
begin

text \<open>
  Page queries (\<open>apis/apiobj/query.go\<close>): defaults and the check of what may be sorted and filtered by. The allowed fields are
  \<open>None\<close> when the caller's object does not offer them (or offers a nil slice), and then nothing is checked. Strings are ASCII.
\<close>

section \<open>Queries\<close>

definition DefaultPageSize :: int where "DefaultPageSize = 10"
definition PageMaxCount :: int where "PageMaxCount = 150"

record Filter =
  ft_Field :: string
  ft_Value :: "string list"
  ft_ExactMatch :: bool

record PageQuery =
  pq_Offset :: int
  pq_Limit :: int
  pq_ListAll :: bool
  pq_OrderBy :: "string list"
  pq_Filters :: "Filter list"
  pq_BeginTime :: gotime
  pq_EndTime :: gotime
  pq_IsBackend :: bool
  pq_CompanyID :: nat
  pq_EmployeeID :: nat
  pq_Uin :: nat

definition pq_Fill :: "PageQuery \<Rightarrow> PageQuery" where
  "pq_Fill p =
     (let p = (if pq_Offset p \<le> 0 then p\<lparr>pq_Offset := 0\<rparr> else p);
          p = (if pq_Limit p \<le> 0 \<or> pq_Limit p > PageMaxCount then p\<lparr>pq_Limit := DefaultPageSize\<rparr> else p)
      in if pq_ListAll p then p\<lparr>pq_Limit := PageMaxCount\<rparr> else p)"

fun containsString :: "string list \<Rightarrow> string \<Rightarrow> bool" where
  "containsString [] str = False"
| "containsString (v # vs) str = (if v = str then True else containsString vs str)"

definition TrimSuffix :: "string \<Rightarrow> string \<Rightarrow> string" where
  "TrimSuffix s x = (if has_suffix s x then take (length s - length x) s else s)"

definition order_field :: "string \<Rightarrow> string" where
  "order_field ob = TrimSuffix (TrimSuffix (ToLower (TrimSpace ob)) '' desc'') '' asc''"

fun check_orders :: "string list \<Rightarrow> string list \<Rightarrow> unit res" where
  "check_orders allowed [] = Inr ()"
| "check_orders allowed (ob # obs) = (if \<not> containsString allowed (order_field ob)
     then Inl (Err (''unsupported order field: %s'' @ order_field ob)) else check_orders allowed obs)"

fun check_filters :: "string list \<Rightarrow> Filter list \<Rightarrow> unit res" where
  "check_filters allowed [] = Inr ()"
| "check_filters allowed (f # fs) =
     (if \<not> containsString allowed (ft_Field f) then Inl (Err (''unsupported filter field: %s'' @ ft_Field f))
      else if ft_Value f = [] then Inl (Err (''filter value must not be empty: %v'' @ ft_Field f))
      else if has_suffix (ft_Field f) ''_at'' \<and> length (ft_Value f) \<noteq> 2 then Inl (Err (''time filter needs two values: %v'' @ ft_Field f))
      else check_filters allowed fs)"

definition IsValite :: "string list option \<Rightarrow> string list option \<Rightarrow> PageQuery \<Rightarrow> unit res" where
  "IsValite allowOrderFields allowFilterFields p =
     (if pq_Offset p < 0 then Inl (Err (''offset is invalid, '' @ itoa (pq_Offset p)))
      else if pq_Limit p \<le> 0 \<or> pq_Limit p > PageMaxCount then Inl (Err (''limit is invalid, '' @ itoa (pq_Limit p)))
      else case (case allowOrderFields of None \<Rightarrow> Inr () | Some fs \<Rightarrow> check_orders fs (pq_OrderBy p)) of
        Inl e \<Rightarrow> Inl e
      | Inr _ \<Rightarrow> (case allowFilterFields of None \<Rightarrow> Inr () | Some fs \<Rightarrow> check_filters fs (pq_Filters p)))"

section \<open>Properties\<close>

lemma containsString_set: "containsString vs s \<longleftrightarrow> s \<in> set vs"
  by (induction vs) auto

lemma TrimSuffix_cases: "s = TrimSuffix s x \<or> s = TrimSuffix s x @ x"
proof (cases "has_suffix s x")
  case True
  then obtain r where "rev s = rev x @ r" by (auto simp: has_suffix_def has_prefix_def) (metis append_take_drop_id)
  then have "s = rev r @ x" by (metis rev_append rev_rev_ident)
  then show ?thesis using True by (simp add: TrimSuffix_def)
qed (simp add: TrimSuffix_def)

lemma check_orders_ok: "check_orders allowed obs = Inr () \<longleftrightarrow> (\<forall>ob\<in>set obs. order_field ob \<in> set allowed)"
  by (induction obs) (auto simp: containsString_set)

lemma check_filters_ok:
  "check_filters allowed fs = Inr () \<longleftrightarrow>
     (\<forall>f\<in>set fs. ft_Field f \<in> set allowed \<and> ft_Value f \<noteq> [] \<and> (has_suffix (ft_Field f) ''_at'' \<longrightarrow> length (ft_Value f) = 2))"
  by (induction fs) (auto simp: containsString_set)

lemma pq_Fill_bounds: "0 \<le> pq_Offset (pq_Fill p) \<and> 1 \<le> pq_Limit (pq_Fill p) \<and> pq_Limit (pq_Fill p) \<le> PageMaxCount"
  by (auto simp: pq_Fill_def Let_def PageMaxCount_def DefaultPageSize_def)

lemma pq_Fill_keeps: "pq_OrderBy (pq_Fill p) = pq_OrderBy p" "pq_Filters (pq_Fill p) = pq_Filters p"
  by (simp_all add: pq_Fill_def Let_def)



text \<open>Two directions are accepted, although no database accepts them.\<close>

lemma two_directions_accepted: "check_orders [''id''] [''id asc desc''] = Inr ()"
  by code_simp

end
