(* ===== verification/Weed_Walk.thy ===== *)
theory Weed_Walk
  imports Api_Middleware "HOL-Library.Sublist"
begin

text \<open>
  Walking the directories of a SeaweedFS filer (\<open>storage/weedfs/filer.go\<close>; \<open>storage/v2/weedfs/filer.go\<close> has the same code). The
  filer's client and the JSON decoder are parameters: \<open>get\<close> gives a body, a status and an error for a path, arguments and
  headers. A walk that does not end is \<open>None\<close>.
\<close>

section \<open>Listing\<close>

record WeedFileChunk =
  wc_FileID :: string
  wc_Size :: int

record WeedFileEntry =
  we_FullPath :: string
  we_Mode :: int
  we_Mime :: string
  we_Md5 :: string
  we_FileSize :: int
  we_Chunks :: "WeedFileChunk list"

text \<open>\<open>fs.FileMode.IsDir\<close>: the highest of 32 bits; \<open>filepath.Base\<close>: the last element of a path.\<close>

definition mode_IsDir :: "int \<Rightarrow> bool" where
  "mode_IsDir m = bit m 31"

definition path_Base :: "string \<Rightarrow> string" where
  "path_Base p = (if p = [] then ''.'' else
     (let b = rev (takeWhile (\<lambda>ch. ch \<noteq> CHR ''/'') (dropWhile (\<lambda>ch. ch = CHR ''/'') (rev p))) in if b = [] then ''/'' else b))"

type_synonym 'b weed_get = "string \<Rightarrow> (string \<times> string list) list \<Rightarrow> (string \<times> string) list \<Rightarrow> 'b \<times> int \<times> gerror option"

definition weed_args :: "string \<Rightarrow> (string \<times> string list) list" where
  "weed_args lastFilename = (''limit'', [''500'']) #
     (if lastFilename \<noteq> [] then [(''lastFileName'', [if str_contains lastFilename ''/'' then path_Base lastFilename else lastFilename])] else [])"

definition ListWeedDirFiles :: "'b weed_get \<Rightarrow> ('b \<Rightarrow> WeedFileEntry list res) \<Rightarrow> string \<Rightarrow> string \<Rightarrow> WeedFileEntry list res" where
  "ListWeedDirFiles get decode rootDir lastFilename =
     (case get rootDir (weed_args lastFilename) [(''Accept'', ''application/json'')] of
        (data, code, Some e) \<Rightarrow> Inl e
      | (data, code, None) \<Rightarrow> (if code \<noteq> 200 then Inr [] else decode data))"

definition ExistsFile :: "(string \<Rightarrow> int res) \<Rightarrow> string \<Rightarrow> string \<Rightarrow> bool" where
  "ExistsFile head filerurl filename = (case head (filerurl @ filename) of Inl _ \<Rightarrow> False | Inr status \<Rightarrow> status = 200)"

section \<open>Walking\<close>

text \<open>The callback gets the directory and the entry, and its own state. The loop over a page; \<open>rec\<close> walks a directory.\<close>

type_synonym 'a weed_fn = "string \<Rightarrow> WeedFileEntry \<Rightarrow> 'a \<Rightarrow> unit res \<times> 'a"

fun weed_entries :: "'a weed_fn \<Rightarrow> (string \<Rightarrow> 'a \<Rightarrow> (unit res \<times> 'a) option) \<Rightarrow> string \<Rightarrow> WeedFileEntry list \<Rightarrow> 'a \<Rightarrow> (unit res \<times> 'a) option" where
  "weed_entries fn rec rootDir [] a = Some (Inr (), a)"
| "weed_entries fn rec rootDir (ent # ents) a = (case fn rootDir ent a of
     (Inl e, a') \<Rightarrow> Some (Inl e, a')
   | (Inr _, a') \<Rightarrow> (if mode_IsDir (we_Mode ent)
       then Option.bind (rec (we_FullPath ent) a') (\<lambda>(r, a''). if is_ok r then weed_entries fn rec rootDir ents a'' else Some (r, a''))
       else weed_entries fn rec rootDir ents a'))"

lemma weed_entries_mono [partial_function_mono]:
  assumes "\<And>p a. mono_option (\<lambda>g. B g p a)"
  shows "mono_option (\<lambda>g. weed_entries fn (B g) d es a)"
proof (induction es arbitrary: a)
  case (Cons e es)
  have next_mono: "mono_option (\<lambda>g. case ra of (r, a') \<Rightarrow> if is_ok r then weed_entries fn (B g) d es a' else Some (r, a'))" for ra
    using Cons by (cases ra; cases "is_ok (fst ra)") (simp_all add: option.const_mono)
  have "mono_option (\<lambda>g. Option.bind (B g p a') (\<lambda>(r, a''). if is_ok r then weed_entries fn (B g) d es a'' else Some (r, a'')))" for p a'
    by (rule bind_mono [OF assms next_mono])
  then show ?case using Cons by (cases "fn d e a"; cases "fst (fn d e a)"; cases "mode_IsDir (we_Mode e)") (simp_all add: option.const_mono)
qed (simp add: option.const_mono)

partial_function (option) weed_pages ::
  "'b weed_get \<Rightarrow> ('b \<Rightarrow> WeedFileEntry list res) \<Rightarrow> 'a weed_fn \<Rightarrow> string \<Rightarrow> string \<Rightarrow> 'a \<Rightarrow> (unit res \<times> 'a) option" where
  "weed_pages get decode fn rootDir lastFilename a = (case ListWeedDirFiles get decode rootDir lastFilename of
     Inl e \<Rightarrow> Some (Inl e, a)
   | Inr entries \<Rightarrow> Option.bind (weed_entries fn (\<lambda>p b. weed_pages get decode fn p [] b) rootDir entries a)
       (\<lambda>(r, a'). if \<not> is_ok r then Some (r, a')
          else if entries = [] then Some (Inr (), a')
          else weed_pages get decode fn rootDir (path_Base (we_FullPath (last entries))) a'))"

declare weed_pages.simps [code]

definition WalkWeedDir :: "'b weed_get \<Rightarrow> ('b \<Rightarrow> WeedFileEntry list res) \<Rightarrow> 'a weed_fn \<Rightarrow> string \<Rightarrow> 'a \<Rightarrow> (unit res \<times> 'a) option" where
  "WalkWeedDir get decode fn rootDir a = weed_pages get decode fn rootDir [] a"

section \<open>What a walk visits\<close>

text \<open>
  The contract of a filer with the tree \<open>tree\<close>: entries of a directory have distinct names; a successful listing holds at most
  the next 500 entries after the given name; every answer that is not a listing comes with an error; directories do not nest for
  ever.
\<close>

definition entry_name :: "WeedFileEntry \<Rightarrow> string" where
  "entry_name e = path_Base (we_FullPath e)"

definition entries_after :: "string \<Rightarrow> WeedFileEntry list \<Rightarrow> WeedFileEntry list" where
  "entries_after n es = (if n = [] then es else tl (dropWhile (\<lambda>e. entry_name e \<noteq> n) es))"

locale weed_filer =
  fixes get :: "'b weed_get" and decode :: "'b \<Rightarrow> WeedFileEntry list res" and tree :: "string \<Rightarrow> WeedFileEntry list" and rank :: "string \<Rightarrow> nat"
  assumes listing: "get d (weed_args n) hdrs = (data, code, None) \<Longrightarrow> n = [] \<or> n \<in> entry_name ` set (tree d) \<Longrightarrow>
      code = 200 \<and> (\<forall>es. decode data = Inr es \<longrightarrow> es = take 500 (entries_after n (tree d)))"
    and names: "distinct (map entry_name (tree d))" "e \<in> set (tree d) \<Longrightarrow> entry_name e \<noteq> []"
    and nesting: "e \<in> set (tree d) \<Longrightarrow> mode_IsDir (we_Mode e) \<Longrightarrow> rank (we_FullPath e) < rank d"

text \<open>The visits below a directory, in the order of the listings, each directory before its contents.\<close>

inductive preorder :: "(string \<Rightarrow> WeedFileEntry list) \<Rightarrow> string \<Rightarrow> WeedFileEntry list \<Rightarrow> (string \<times> WeedFileEntry) list \<Rightarrow> bool"
  for tree where
  pre_nil: "preorder tree d [] []"
| pre_file: "\<not> mode_IsDir (we_Mode e) \<Longrightarrow> preorder tree d es vs \<Longrightarrow> preorder tree d (e # es) ((d, e) # vs)"
| pre_dir: "mode_IsDir (we_Mode e) \<Longrightarrow> preorder tree (we_FullPath e) (tree (we_FullPath e)) us \<Longrightarrow> preorder tree d es vs \<Longrightarrow>
    preorder tree d (e # es) ((d, e) # us @ vs)"

text \<open>Calling back for a list of visits until one fails.\<close>

fun run_visits :: "'a weed_fn \<Rightarrow> (string \<times> WeedFileEntry) list \<Rightarrow> 'a \<Rightarrow> unit res \<times> 'a" where
  "run_visits fn [] a = (Inr (), a)"
| "run_visits fn ((d, e) # vs) a = (case fn d e a of (Inl err, a') \<Rightarrow> (Inl err, a') | (Inr _, a') \<Rightarrow> run_visits fn vs a')"

text \<open>The outcome of walking these visits: all of them, up to a failing callback, or a part and then an error of the filer.\<close>

definition walk_outcome :: "'a weed_fn \<Rightarrow> (string \<times> WeedFileEntry) list \<Rightarrow> 'a \<Rightarrow> unit res \<times> 'a \<Rightarrow> bool" where
  "walk_outcome fn vs a r \<longleftrightarrow> run_visits fn vs a = r \<or>
     (\<exists>us e. prefix us vs \<and> run_visits fn us a = (Inr (), snd r) \<and> fst r = Inl e)"

lemma run_visits_append:
  "run_visits fn (us @ vs) a = (case run_visits fn us a of (Inl e, a') \<Rightarrow> (Inl e, a') | (Inr _, a') \<Rightarrow> run_visits fn vs a')"
  by (induction us arbitrary: a) (auto split: sum.split prod.split)

lemma walk_outcome_none: "walk_outcome fn vs a (Inl e, a)"
  unfolding walk_outcome_def by (intro disjI2 exI [of _ "[]"]) simp

lemma walk_outcome_step:
  assumes "walk_outcome fn us a (Inr (), a')" "walk_outcome fn vs a' r"
  shows "walk_outcome fn (us @ vs) a r"
proof -
  have us: "run_visits fn us a = (Inr (), a')" using assms(1) by (simp add: walk_outcome_def)
  from assms(2) consider "run_visits fn vs a' = r" | ws e where "prefix ws vs" "run_visits fn ws a' = (Inr (), snd r)" "fst r = Inl e"
    unfolding walk_outcome_def by blast
  then show ?thesis
  proof cases
    case 2
    then have "prefix (us @ ws) (us @ vs)" "run_visits fn (us @ ws) a = (Inr (), snd r)" using us by (simp_all add: run_visits_append)
    with 2(3) show ?thesis unfolding walk_outcome_def by blast
  qed (simp add: walk_outcome_def run_visits_append us)
qed

lemma walk_outcome_stop:
  assumes "walk_outcome fn us a (Inl e, a')"
  shows "walk_outcome fn (us @ vs) a (Inl e, a')"
proof -
  from assms consider "run_visits fn us a = (Inl e, a')" | ws where "prefix ws us" "run_visits fn ws a = (Inr (), a')"
    unfolding walk_outcome_def by auto
  then show ?thesis
  proof cases
    case 2
    then have "prefix ws (us @ vs)" by simp
    with 2(2) show ?thesis unfolding walk_outcome_def by auto
  qed (simp add: walk_outcome_def run_visits_append)
qed


inductive_simps preorder_simps:
  "preorder tree d [] vs"
  "preorder tree d (e # es) vs"

lemma preorder_append: "preorder tree d xs us \<Longrightarrow> preorder tree d ys vs \<Longrightarrow> preorder tree d (xs @ ys) (us @ vs)"
  by (induction xs us rule: preorder.induct) (auto intro: preorder.intros)

lemma run_first: "fn d e a = (Inr x, a') \<Longrightarrow> walk_outcome fn [(d, e)] a (Inr (), a')"
  by (simp add: walk_outcome_def)

text \<open>The loop over a page, for a way to walk directories that has such outcomes.\<close>

lemma weed_entries_outcome:
  assumes "\<And>e a. e \<in> set es \<Longrightarrow> mode_IsDir (we_Mode e) \<Longrightarrow>
    \<exists>r vs. preorder tree (we_FullPath e) (tree (we_FullPath e)) vs \<and> rec (we_FullPath e) a = Some r \<and> walk_outcome fn vs a r"
  shows "\<exists>r vs. preorder tree d es vs \<and> weed_entries fn rec d es a = Some r \<and> walk_outcome fn vs a r"
  using assms
proof (induction es arbitrary: a)
  case Nil
  then show ?case by (auto intro: pre_nil simp: walk_outcome_def)
next
  case (Cons e es)
  have rest: "\<exists>r vs. preorder tree d es vs \<and> weed_entries fn rec d es b = Some r \<and> walk_outcome fn vs b r" for b
    using Cons.IH [of b] Cons.prems by simp
  obtain x a' where fn: "fn d e a = (x, a')" by fastforce
  show ?case
  proof (cases "mode_IsDir (we_Mode e)")
    case False
    obtain r vs where r: "preorder tree d es vs" "weed_entries fn rec d es a' = Some r" "walk_outcome fn vs a' r" using rest by blast
    note vs = pre_file [OF False r(1)]
    show ?thesis
    proof (cases x)
      case (Inl err)
      with fn vs show ?thesis by (auto simp: walk_outcome_def)
    next
      case (Inr u)
      with fn have "walk_outcome fn ([(d, e)] @ vs) a r" by (intro walk_outcome_step [OF run_first r(3)]) simp
      with fn Inr False vs r(2) show ?thesis by (cases r) auto
    qed
  next
    case True
    obtain ra us where ra: "preorder tree (we_FullPath e) (tree (we_FullPath e)) us" "rec (we_FullPath e) a' = Some ra" "walk_outcome fn us a' ra"
      using Cons.prems [of e a'] True by auto
    obtain r vs where r: "preorder tree d es vs" "weed_entries fn rec d es (snd ra) = Some r" "walk_outcome fn vs (snd ra) r" using rest by blast
    note vs = pre_dir [OF True ra(1) r(1)]
    show ?thesis
    proof (cases x)
      case (Inl err)
      with fn vs show ?thesis by (auto simp: walk_outcome_def)
    next
      case (Inr u)
      with fn have us: "walk_outcome fn ([(d, e)] @ us) a ra" by (intro walk_outcome_step [OF run_first ra(3)]) simp
      show ?thesis
      proof (cases "fst ra")
        case (Inl err)
        with us walk_outcome_stop [of fn "(d, e) # us" a err "snd ra" vs] have "walk_outcome fn ((d, e) # us @ vs) a ra" by (cases ra) simp
        with fn Inr True vs ra(2) Inl show ?thesis by (cases ra) (auto simp: is_ok_def)
      next
        case ok: (Inr w)
        with us r(3) have "walk_outcome fn ((d, e) # us @ vs) a r"
          using walk_outcome_step [of fn "(d, e) # us" a "snd ra" vs r] by (cases ra) simp
        with fn Inr True vs ra(2) r(2) ok show ?thesis by (cases ra; cases r) (auto simp: is_ok_def)
      qed
    qed
  qed
qed

context weed_filer
begin

lemma listed:
  assumes "ListWeedDirFiles get decode d n = Inr es" "n = [] \<or> n \<in> entry_name ` set (tree d)"
  shows "es = take 500 (entries_after n (tree d))"
proof -
  obtain data code err where g: "get d (weed_args n) [(''Accept'', ''application/json'')] = (data, code, err)" by (metis prod.exhaust)
  with assms(1) have "err = None" by (auto simp: ListWeedDirFiles_def split: option.splits)
  with listing [OF g [unfolded this] assms(2)] g assms(1) show ?thesis by (auto simp: ListWeedDirFiles_def)
qed

lemma entries_after_page:
  assumes "tree d = ps @ xs" "xs \<noteq> []"
  shows "entries_after (entry_name (last (take 500 xs))) (tree d) = drop 500 xs \<and> entry_name (last (take 500 xs)) \<in> entry_name ` set (tree d)"
proof -
  let ?l = "last (take 500 xs)"
  have xs: "xs = butlast (take 500 xs) @ ?l # drop 500 xs"
    using assms(2) by (metis append_Cons append_butlast_last_id append_eq_append_conv2 append_self_conv append_take_drop_id take_eq_Nil zero_neq_numeral)
  have "entry_name e \<noteq> entry_name ?l" if "e \<in> set (ps @ butlast (take 500 xs))" for e
  proof -
    have "distinct (map entry_name ((ps @ butlast (take 500 xs)) @ ?l # drop 500 xs))" using names(1) [of d] assms(1) xs by simp
    with that show ?thesis by (auto simp: image_iff)
  qed
  then have "dropWhile (\<lambda>e. entry_name e \<noteq> entry_name ?l) ((ps @ butlast (take 500 xs)) @ ?l # drop 500 xs) = ?l # drop 500 xs"
    by (subst dropWhile_append2) auto
  moreover have "?l \<in> set (tree d)" using assms xs by (metis Un_iff append_Cons in_set_conv_decomp set_append)
  moreover have "tree d = (ps @ butlast (take 500 xs)) @ ?l # drop 500 xs" using assms(1) xs by simp
  ultimately show ?thesis using names(2) [of ?l d] by (auto simp: entries_after_def)
qed

lemma preorder_exists: "set xs \<subseteq> set (tree d) \<Longrightarrow> \<exists>vs. preorder tree d xs vs"
proof (induction "rank d" arbitrary: d xs rule: less_induct)
  case less
  from less.prems show ?case
  proof (induction xs)
    case (Cons e xs)
    then obtain vs where vs: "preorder tree d xs vs" by auto
    show ?case
    proof (cases "mode_IsDir (we_Mode e)")
      case True
      with Cons.prems nesting [of e d] less.hyps [of "we_FullPath e" "tree (we_FullPath e)"] vs show ?thesis by (auto intro: pre_dir)
    qed (use vs in \<open>auto intro: pre_file\<close>)
  qed (auto intro: pre_nil)
qed

lemma weed_pages_outcome:
  assumes "tree d = ps @ xs" "entries_after n (tree d) = xs" "n = [] \<or> n \<in> entry_name ` set (tree d)"
  shows "\<exists>r vs. preorder tree d xs vs \<and> weed_pages get decode fn d n a = Some r \<and> walk_outcome fn vs a r"
  using assms
proof (induction "rank d" arbitrary: d ps xs n a rule: less_induct)
  case less
  note dirs = less.hyps
  from less.prems show ?case
  proof (induction "length xs" arbitrary: ps xs n a rule: less_induct)
    case less
    note pages = less.hyps and here = less.prems
    show ?case
    proof (cases "ListWeedDirFiles get decode d n")
      case (Inl e)
      obtain vs where "preorder tree d xs vs" using preorder_exists [of xs d] here(1) by auto
      with walk_outcome_none [of fn vs a e] show ?thesis by (subst weed_pages.simps) (auto simp: Inl)
    next
      case (Inr es)
      with listed [OF Inr here(3)] here(2) have es: "es = take 500 xs" by simp
      have "\<exists>r vs. preorder tree d es vs \<and> weed_entries fn (\<lambda>p b. weed_pages get decode fn p [] b) d es a = Some r \<and> walk_outcome fn vs a r"
        by (rule weed_entries_outcome, rule dirs [of _ "[]"])
          (use nesting es here(1) in \<open>auto simp: entries_after_def dest: in_set_takeD\<close>)
      then obtain r vs where r: "preorder tree d es vs" "weed_entries fn (\<lambda>p b. weed_pages get decode fn p [] b) d es a = Some r" "walk_outcome fn vs a r" by blast
      show ?thesis
      proof (cases "xs = []")
        case True
        with es r have "vs = []" by (auto elim: preorder.cases)
        with r True es show ?thesis by (subst weed_pages.simps) (auto simp: Inr walk_outcome_def is_ok_def intro!: exI [of _ "[]"])
      next
        case False
        from entries_after_page [OF here(1) False] have next_page: "entries_after (entry_name (last es)) (tree d) = drop 500 xs"
          "entry_name (last es) \<in> entry_name ` set (tree d)" using es by auto
        have "tree d = (ps @ take 500 xs) @ drop 500 xs" using here(1) by simp
        from pages [OF _ this next_page(1) disjI2 [OF next_page(2)], of "snd r"] False
        obtain r2 vs2 where r2: "preorder tree d (drop 500 xs) vs2" "weed_pages get decode fn d (entry_name (last es)) (snd r) = Some r2"
          "walk_outcome fn vs2 (snd r) r2" by auto
        have vs: "preorder tree d xs (vs @ vs2)" using preorder_append [OF r(1) r2(1)] es by simp
        show ?thesis
        proof (cases "fst r")
          case err: (Inl e)
          with r(3) have "walk_outcome fn (vs @ vs2) a r" using walk_outcome_stop [of fn vs a e "snd r" vs2] by (cases r) simp
          with vs r(2) err show ?thesis by (subst weed_pages.simps) (cases r, auto simp: Inr is_ok_def)
        next
          case ok: (Inr u)
          with r(3) r2(3) have "walk_outcome fn (vs @ vs2) a r2" using walk_outcome_step [of fn vs a "snd r" vs2 r2] by (cases r) simp
          with vs r(2) r2(2) ok False es show ?thesis
            by (subst weed_pages.simps) (cases r, cases r2, auto simp: Inr is_ok_def entry_name_def)
        qed
      qed
    qed
  qed
qed

end



section \<open>A filer in memory\<close>

definition ex_entry :: "string \<Rightarrow> int \<Rightarrow> WeedFileEntry" where
  "ex_entry p m = \<lparr>we_FullPath = p, we_Mode = m, we_Mime = [], we_Md5 = [], we_FileSize = 0, we_Chunks = []\<rparr>"

definition ex_weed :: "string \<Rightarrow> WeedFileEntry list" where
  "ex_weed d = (if d = ''/a'' then [ex_entry ''/a/s'' (2 ^ 31), ex_entry ''/a/x'' 0] else if d = ''/a/s'' then [ex_entry ''/a/s/y'' 0] else [])"

definition mem_weed_get :: "(string \<Rightarrow> WeedFileEntry list) \<Rightarrow> WeedFileEntry list weed_get" where
  "mem_weed_get tree d args hdrs =
     (take 500 (entries_after (case map_of args ''lastFileName'' of Some [n] \<Rightarrow> n | _ \<Rightarrow> []) (tree d)), 200, None)"

lemma ex_weed_names: "entry_name (ex_entry ''/a/s'' m) = ''s''" "entry_name (ex_entry ''/a/x'' m) = ''x''" "entry_name (ex_entry ''/a/s/y'' m) = ''y''"
  by (simp_all add: entry_name_def ex_entry_def path_Base_def)

lemma ex_weed_modes: "mode_IsDir (we_Mode (ex_entry p (2 ^ 31)))" "\<not> mode_IsDir (we_Mode (ex_entry p 0))" "we_FullPath (ex_entry p m) = p"
  by (simp_all add: mode_IsDir_def ex_entry_def bit_iff_odd)

interpretation mem_filer: weed_filer "mem_weed_get ex_weed" Inr ex_weed "\<lambda>d. if d = ''/a'' then 1 else 0"
proof
  fix d n hdrs data code
  assume g: "mem_weed_get ex_weed d (weed_args n) hdrs = (data, code, None)" and n: "n = [] \<or> n \<in> entry_name ` set (ex_weed d)"
  from n have "n \<in> {[], ''s'', ''x'', ''y''}" by (auto simp: ex_weed_def ex_weed_names split: if_splits)
  then have "(case map_of (weed_args n) ''lastFileName'' of Some [n] \<Rightarrow> n | _ \<Rightarrow> []) = n" by (auto simp: weed_args_def has_prefix_def)
  with g show "code = 200 \<and> (\<forall>es. Inr data = Inr es \<longrightarrow> es = take 500 (entries_after n (ex_weed d)))" by (auto simp: mem_weed_get_def)
qed (auto simp: ex_weed_def ex_weed_names ex_weed_modes split: if_splits)


text \<open>
  A status other than 200 without an error of the client is taken for the end of the directory: the walk reports success although
  it has seen nothing.
\<close>

lemma weed_status_silent:
  assumes "get d (weed_args []) [(''Accept'', ''application/json'')] = (data, code, None)" "code \<noteq> 200"
  shows "WalkWeedDir get decode fn d a = Some (Inr (), a)"
  unfolding WalkWeedDir_def by (subst weed_pages.simps) (simp add: ListWeedDirFiles_def assms is_ok_def)

end
