(* ===== verification/Remote_Settings.thy ===== *)
theory Remote_Settings
  imports Go_Prelude
begin

text \<open>
  Settings of a remote service (\<open>settings/remote/remote.go\<close>). The HTTP client, JSON and the keyed hash are parameters: \<open>send\<close>
  posts a body to an address with headers and gives the body of the answer, \<open>decode\<close> reads an answer into a struct that keeps
  what the text does not set, also when the text is not JSON.
\<close>

section \<open>Client\<close>

record RemoteSettingClient =
  rs_BaseURL :: string
  rs_AK :: string
  rs_SK :: string
  rs_Group :: string

record getSettingContentRequest =
  gr_GroupName :: string
  gr_SettingKey :: string

record getSettingContentResponse =
  gp_Code :: nat
  gp_Message :: string
  gp_Content :: string
  gp_Type :: string
  gp_Nonce :: string

definition zero_response :: getSettingContentResponse where
  "zero_response = \<lparr>gp_Code = 0, gp_Message = [], gp_Content = [], gp_Type = [], gp_Nonce = []\<rparr>"

record 'h remote_env =
  re_encode :: "getSettingContentRequest \<Rightarrow> string"
  re_valid_url :: "string \<Rightarrow> gerror option"
  re_send :: "string \<Rightarrow> string \<Rightarrow> (string \<times> string) list \<Rightarrow> 'h \<Rightarrow> string res \<times> 'h"
  re_decode :: "string \<Rightarrow> getSettingContentResponse \<Rightarrow> getSettingContentResponse"
  re_HmacHash :: "string \<Rightarrow> string \<Rightarrow> string"

definition NewRemoteSettingClient :: "string \<Rightarrow> string \<Rightarrow> string \<Rightarrow> string \<Rightarrow> RemoteSettingClient" where
  "NewRemoteSettingClient baseURL ak sk grp = \<lparr>rs_BaseURL = baseURL, rs_AK = ak, rs_SK = sk, rs_Group = grp\<rparr>"

definition NewRemoteSettingClientWithEnv :: "(string \<Rightarrow> string) \<Rightarrow> RemoteSettingClient" where
  "NewRemoteSettingClientWithEnv getenv = NewRemoteSettingClient ''https://yygu.cn/v2/cook.GetSettingContent''
     (getenv ''YGCFG_AK'') (getenv ''YGCFG_SK'') (getenv ''YGCFG_GROUP'')"

definition doReuqest :: "'h remote_env \<Rightarrow> RemoteSettingClient \<Rightarrow> getSettingContentRequest \<Rightarrow> getSettingContentResponse \<Rightarrow> string \<Rightarrow> 'h \<Rightarrow>
    getSettingContentResponse res \<times> 'h" where
  "doReuqest N c inp out token h = (case re_valid_url N (rs_BaseURL c) of
     Some e \<Rightarrow> (Inl e, h)
   | None \<Rightarrow>
       (case re_send N (rs_BaseURL c) (re_encode N inp)
               ((''Content-Type'', ''application/json'') # (if token \<noteq> [] then [(''Authorization'', token)] else [])) h of
          (Inl e, h') \<Rightarrow> (Inl e, h')
        | (Inr body, h') \<Rightarrow> (Inr (re_decode N body out), h')))"

definition remote_token :: "'h remote_env \<Rightarrow> RemoteSettingClient \<Rightarrow> string \<Rightarrow> string" where
  "remote_token N c nonce = (let tokenSli = [rs_AK c, nonce];
       expectedSignature = re_HmacHash N (rs_SK c) (join_strings ''.'' tokenSli) in join_strings ''.'' (tokenSli @ [expectedSignature]))"

definition remote_Get :: "'h remote_env \<Rightarrow> RemoteSettingClient \<Rightarrow> string \<Rightarrow> 'h \<Rightarrow> string res \<times> 'h" where
  "remote_Get N c key h =
     (let inp = \<lparr>gr_GroupName = rs_Group c, gr_SettingKey = key\<rparr> in
      case doReuqest N c inp zero_response [] h of
        (Inl e, h1) \<Rightarrow> (Inl e, h1)
      | (Inr out, h1) \<Rightarrow>
          (if gp_Code out = 0 then (Inr (gp_Content out), h1)
           else if gp_Code out \<noteq> 401 then (Inl (Err (''remote setting error: '' @ gp_Message out)), h1)
           else (case doReuqest N c inp out (remote_token N c (gp_Nonce out)) h1 of
               (Inl e, h2) \<Rightarrow> (Inl e, h2)
             | (Inr out2, h2) \<Rightarrow>
                 (if gp_Code out2 \<noteq> 0 then (Inl (Err (''remote setting error: '' @ gp_Message out2)), h2)
                  else (Inr (gp_Content out2), h2)))))"

definition GetRemoteText :: "'h remote_env \<Rightarrow> RemoteSettingClient \<Rightarrow> string \<Rightarrow> 'h \<Rightarrow> string res \<times> 'h" where
  "GetRemoteText N std key h = remote_Get N std key h"

definition GetRemoteYAML :: "'h remote_env \<Rightarrow> (string \<Rightarrow> 'y \<Rightarrow> unit res \<times> 'y) \<Rightarrow> RemoteSettingClient \<Rightarrow> string \<Rightarrow> 'y \<Rightarrow> 'h \<Rightarrow> (unit res \<times> 'y) \<times> 'h" where
  "GetRemoteYAML N unmarshal std key val h = (case remote_Get N std key h of
     (Inl e, h') \<Rightarrow> ((Inl e, val), h') | (Inr content, h') \<Rightarrow> (unmarshal content val, h'))"

definition GetRemoteJSON :: "'h remote_env \<Rightarrow> (string \<Rightarrow> 'y \<Rightarrow> unit res \<times> 'y) \<Rightarrow> RemoteSettingClient \<Rightarrow> string \<Rightarrow> 'y \<Rightarrow> 'h \<Rightarrow> (unit res \<times> 'y) \<times> 'h" where
  "GetRemoteJSON N unmarshal std key val h = (case remote_Get N std key h of
     (Inl e, h') \<Rightarrow> ((Inl e, val), h') | (Inr content, h') \<Rightarrow> (unmarshal content val, h'))"

section \<open>Properties\<close>

text \<open>
  The secret never leaves the process but through the keyed hash: two clients that differ in a secret with the same hashes send
  the same requests and return the same.
\<close>

lemma remote_secret_hidden:
  assumes "\<And>m. re_HmacHash N sk m = re_HmacHash N sk' m"
  shows "remote_Get N (c\<lparr>rs_SK := sk\<rparr>) key h = remote_Get N (c\<lparr>rs_SK := sk'\<rparr>) key h"
proof -
  have sel: "rs_BaseURL (c\<lparr>rs_SK := x\<rparr>) = rs_BaseURL c" "rs_AK (c\<lparr>rs_SK := x\<rparr>) = rs_AK c" "rs_SK (c\<lparr>rs_SK := x\<rparr>) = x"
    "rs_Group (c\<lparr>rs_SK := x\<rparr>) = rs_Group c" for x by simp_all
  show ?thesis unfolding remote_Get_def remote_token_def doReuqest_def sel assms by (rule refl)
qed

text \<open>
  A setting that the service answers for a proof of the nonce it asked for, the key identifier, the nonce and the hash of both
  joined by dots, is returned, after exactly two requests.
\<close>

lemma remote_Get_proves:
  assumes "re_valid_url N (rs_BaseURL c) = None" "inp = re_encode N \<lparr>gr_GroupName = rs_Group c, gr_SettingKey = key\<rparr>"
    "re_send N (rs_BaseURL c) inp [(''Content-Type'', ''application/json'')] h = (Inr b1, h1)"
    "gp_Code (re_decode N b1 zero_response) = 401" "gp_Nonce (re_decode N b1 zero_response) = nonce"
    "re_send N (rs_BaseURL c) inp [(''Content-Type'', ''application/json''),
       (''Authorization'', rs_AK c @ ''.'' @ nonce @ ''.'' @ re_HmacHash N (rs_SK c) (rs_AK c @ ''.'' @ nonce))] h1 = (Inr b2, h2)"
    "re_decode N b2 (re_decode N b1 zero_response) = out" "gp_Code out = 0"
  shows "remote_Get N c key h = (Inr (gp_Content out), h2)"
  using assms by (simp add: remote_Get_def doReuqest_def remote_token_def Let_def)

text \<open>
  An answer that is not JSON, such as the error page of a proxy, leaves the struct as it was, with code 0: the setting is
  reported as empty, without an error.
\<close>

lemma remote_garbage_is_empty:
  assumes "re_valid_url N (rs_BaseURL c) = None" "re_send N (rs_BaseURL c) (re_encode N \<lparr>gr_GroupName = rs_Group c, gr_SettingKey = key\<rparr>)
      [(''Content-Type'', ''application/json'')] h = (Inr page, h1)" "re_decode N page zero_response = zero_response"
  shows "remote_Get N c key h = (Inr [], h1)"
  using assms by (simp add: remote_Get_def doReuqest_def zero_response_def Let_def)

end
