(* ===== verification/Process_Life.thy ===== *)
theory Process_Life
  imports Go_Prelude
begin

text \<open>
  The life of the process (\<open>lifecycle/lifecycle.go\<close>): operations on a \<open>LifeCycle\<close>, and its end as steps of the goroutines that
  take part. Signals are names; closers are known by their position. \<open>Exit\<close> looks whether the channel is closed and closes it
  in two steps, between which others act.
\<close>

section \<open>Operations\<close>

record LifeCycle =
  lf_cancelled :: bool
  lf_chExit :: bool
  lf_exitTimeout :: duration
  lf_listenSigs :: "string list"
  lf_preExitRun :: "(unit \<Rightarrow> gerror option) option list"

definition lf_New :: LifeCycle where
  "lf_New = \<lparr>lf_cancelled = False, lf_chExit = False, lf_exitTimeout = 15 * time_Second, lf_listenSigs = [''SIGTERM'', ''SIGINT''], lf_preExitRun = []\<rparr>"

definition SetSignals :: "string list \<Rightarrow> LifeCycle \<Rightarrow> LifeCycle" where
  "SetSignals sigs l = l\<lparr>lf_listenSigs := sigs\<rparr>"

definition AddCloser :: "(unit \<Rightarrow> gerror option) option \<Rightarrow> LifeCycle \<Rightarrow> LifeCycle" where
  "AddCloser clr l = l\<lparr>lf_preExitRun := lf_preExitRun l @ [clr]\<rparr>"

definition AddCloseFunc :: "(unit \<Rightarrow> gerror option) \<Rightarrow> LifeCycle \<Rightarrow> LifeCycle" where
  "AddCloseFunc f l = AddCloser (Some f) l"

definition SetTimeout :: "duration \<Rightarrow> LifeCycle \<Rightarrow> LifeCycle" where
  "SetTimeout d l = l\<lparr>lf_exitTimeout := d\<rparr>"

definition CancelContext :: "LifeCycle \<Rightarrow> LifeCycle" where
  "CancelContext l = (if lf_cancelled l then l else l\<lparr>lf_cancelled := True\<rparr>)"

section \<open>Exit\<close>

text \<open>
  The process waits, runs its closers (those still running), has ended with a code, or has crashed. \<open>pr_closed\<close> are the closers
  that have returned; \<open>pr_closing\<close> the number of calls of \<open>Exit\<close> that found the channel open and have not closed it yet.
\<close>

datatype phase = Waiting | Exiting "nat set" | Ended nat | Crashed

record process =
  pr_lc :: LifeCycle
  pr_phase :: phase
  pr_closed :: "nat list"
  pr_closing :: nat

definition pr_start :: "LifeCycle \<Rightarrow> process" where
  "pr_start l = \<lparr>pr_lc = l, pr_phase = Waiting, pr_closed = [], pr_closing = 0\<rparr>"

text \<open>\<open>exit\<close>, up to the start of the closers.\<close>

definition lf_exit :: "process \<Rightarrow> process" where
  "lf_exit p = (if lf_exitTimeout (pr_lc p) < 1000 then p\<lparr>pr_phase := Ended 0\<rparr>
     else p\<lparr>pr_lc := (pr_lc p)\<lparr>lf_cancelled := True\<rparr>, pr_phase := Exiting {0..<length (lf_preExitRun (pr_lc p))}\<rparr>)"

text \<open>\<open>WaitExit\<close>: a signal that is listened to, or the closed channel, ends the waiting; other signals do not.\<close>

definition on_signal :: "string \<Rightarrow> process \<Rightarrow> process" where
  "on_signal sig p = (if list_ex (\<lambda>lisSig. lisSig = sig) (lf_listenSigs (pr_lc p)) then lf_exit p else p)"

text \<open>\<open>closeCh\<close> in two steps.\<close>

definition closeCh_check :: "process \<Rightarrow> process" where
  "closeCh_check p = (if lf_chExit (pr_lc p) then p else p\<lparr>pr_closing := pr_closing p + 1\<rparr>)"

definition closeCh_close :: "process \<Rightarrow> process" where
  "closeCh_close p = (if lf_chExit (pr_lc p) then p\<lparr>pr_phase := Crashed\<rparr>
     else p\<lparr>pr_lc := (pr_lc p)\<lparr>lf_chExit := True\<rparr>, pr_closing := pr_closing p - 1\<rparr>)"

inductive lf_step :: "process \<Rightarrow> process \<Rightarrow> bool" where
  step_signal: "pr_phase p = Waiting \<Longrightarrow> lf_step p (on_signal sig p)"
| step_channel: "pr_phase p = Waiting \<Longrightarrow> lf_chExit (pr_lc p) \<Longrightarrow> lf_step p (lf_exit p)"
| step_add: "pr_phase p = Waiting \<Longrightarrow> lf_step p (p\<lparr>pr_lc := AddCloser clr (pr_lc p)\<rparr>)"
| step_closer: "pr_phase p = Exiting R \<Longrightarrow> i \<in> R \<Longrightarrow> lf_step p (p\<lparr>pr_phase := Exiting (R - {i}), pr_closed := pr_closed p @ [i]\<rparr>)"
| step_done: "pr_phase p = Exiting {} \<Longrightarrow> lf_step p (p\<lparr>pr_phase := Ended 0\<rparr>)"
| step_timeout: "pr_phase p = Exiting R \<Longrightarrow> lf_step p (p\<lparr>pr_phase := Ended 1\<rparr>)"
| step_check: "\<forall>n. pr_phase p \<noteq> Ended n \<Longrightarrow> pr_phase p \<noteq> Crashed \<Longrightarrow> lf_step p (closeCh_check p)"
| step_close: "\<forall>n. pr_phase p \<noteq> Ended n \<Longrightarrow> pr_phase p \<noteq> Crashed \<Longrightarrow> 0 < pr_closing p \<Longrightarrow> lf_step p (closeCh_close p)"

text \<open>Every closer has returned once, or is still running, from the moment the closers were started.\<close>

definition closers_ok :: "process \<Rightarrow> bool" where
  "closers_ok p \<longleftrightarrow> distinct (pr_closed p) \<and> (case pr_phase p of
     Waiting \<Rightarrow> pr_closed p = []
   | Exiting R \<Rightarrow> lf_cancelled (pr_lc p) \<and> R \<inter> set (pr_closed p) = {} \<and> R \<union> set (pr_closed p) = {0..<length (lf_preExitRun (pr_lc p))}
   | Ended 0 \<Rightarrow> lf_exitTimeout (pr_lc p) < 1000 \<and> pr_closed p = [] \<or>
       lf_cancelled (pr_lc p) \<and> set (pr_closed p) = {0..<length (lf_preExitRun (pr_lc p))}
   | _ \<Rightarrow> True)"

lemma closers_ok_step: "lf_step p p' \<Longrightarrow> closers_ok p \<Longrightarrow> closers_ok p'"
proof (induction rule: lf_step.induct)
  case (step_closer p R i)
  then show ?case by (auto simp: closers_ok_def)
next
  case (step_close p)
  then show ?case by (auto simp: closers_ok_def closeCh_close_def split: phase.splits nat.splits)
next
  case (step_check p)
  then show ?case by (auto simp: closers_ok_def closeCh_check_def split: phase.splits)
qed (auto simp: closers_ok_def on_signal_def lf_exit_def AddCloser_def split: phase.splits)

text \<open>
  A process that ends with code 0, if its timeout is not below a microsecond, has cancelled its context and run every closer that was
  added, each once, whatever signals and calls of \<open>Exit\<close> it received.
\<close>

theorem exit_runs_closers:
  assumes "lf_step\<^sup>*\<^sup>* (pr_start l) p" "pr_phase p = Ended 0" "1000 \<le> lf_exitTimeout (pr_lc p)"
  shows "lf_cancelled (pr_lc p) \<and> distinct (pr_closed p) \<and> set (pr_closed p) = {0..<length (lf_preExitRun (pr_lc p))}"
proof -
  have "closers_ok p" using assms(1)
    by (induction rule: rtranclp_induct) (simp add: closers_ok_def pr_start_def, blast intro: closers_ok_step)
  with assms(2,3) show ?thesis by (auto simp: closers_ok_def)
qed

text \<open>A run that ends: a signal, and the only closer.\<close>

theorem exit_runs_closers_witness:
  "\<exists>p. lf_step\<^sup>*\<^sup>* (pr_start (AddCloseFunc (\<lambda>_. None) lf_New)) p \<and> pr_phase p = Ended 0 \<and> set (pr_closed p) = {0}"
proof -
  let ?l = "AddCloseFunc (\<lambda>_. None) lf_New"
  let ?p1 = "on_signal ''SIGTERM'' (pr_start ?l)"
  have l: "lf_exitTimeout ?l = 15 * time_Second" "lf_listenSigs ?l = [''SIGTERM'', ''SIGINT'']" "length (lf_preExitRun ?l) = 1"
    by (simp_all add: AddCloseFunc_def AddCloser_def lf_New_def)
  have p1: "pr_phase ?p1 = Exiting {0..<1}" "pr_closed ?p1 = []" "lf_exitTimeout (pr_lc ?p1) = 15 * time_Second"
    "lf_preExitRun (pr_lc ?p1) = lf_preExitRun ?l"
    by (simp_all add: on_signal_def lf_exit_def pr_start_def l time_Second_def)
  let ?p2 = "?p1\<lparr>pr_phase := Exiting ({0..<1} - {0}), pr_closed := pr_closed ?p1 @ [0]\<rparr>"
  let ?p3 = "?p2\<lparr>pr_phase := Ended 0\<rparr>"
  have "lf_step (pr_start ?l) ?p1" by (rule step_signal) (simp add: pr_start_def)
  moreover have "lf_step ?p1 ?p2" by (rule step_closer [OF p1(1)]) simp
  moreover have "lf_step ?p2 ?p3" by (rule step_done) simp
  ultimately have run: "lf_step\<^sup>*\<^sup>* (pr_start ?l) ?p3" by (meson rtranclp.rtrancl_into_rtrancl rtranclp.rtrancl_refl)
  have "set (pr_closed ?p3) = {0..<length (lf_preExitRun (pr_lc ?p3))}"
    using exit_runs_closers [OF run] p1 by (simp add: time_Second_def)
  then show ?thesis using run p1 l by (intro exI [of _ ?p3]) simp
qed

text \<open>Two calls of \<open>Exit\<close> that both find the channel open: the second close panics.\<close>

lemma exit_twice_crashes: "\<exists>p. lf_step\<^sup>*\<^sup>* (pr_start l) p \<and> (lf_chExit l \<or> pr_phase p = Crashed)"
proof (cases "lf_chExit l")
  case False
  let ?p0 = "pr_start l" let ?p1 = "closeCh_check ?p0" let ?p2 = "closeCh_check ?p1" let ?p3 = "closeCh_close ?p2"
  have ph: "pr_phase ?p0 = Waiting" "pr_phase ?p1 = Waiting" "pr_phase ?p2 = Waiting" "pr_phase ?p3 = Waiting" "pr_closing ?p2 = 2" "pr_closing ?p3 = 1"
    "lf_chExit (pr_lc ?p3)" using False by (simp_all add: pr_start_def closeCh_check_def closeCh_close_def)
  have "lf_step ?p0 ?p1" by (rule step_check) (simp_all add: ph)
  moreover have "lf_step ?p1 ?p2" by (rule step_check) (simp_all add: ph)
  moreover have "lf_step ?p2 ?p3" by (rule step_close) (simp_all add: ph)
  moreover have "lf_step ?p3 (closeCh_close ?p3)" by (rule step_close) (simp_all add: ph)
  ultimately have "lf_step\<^sup>*\<^sup>* ?p0 (closeCh_close ?p3)" by (meson rtranclp.rtrancl_into_rtrancl rtranclp.rtrancl_refl)
  moreover have "pr_phase (closeCh_close ?p3) = Crashed" using ph(7) by (simp add: closeCh_close_def)
  ultimately show ?thesis by blast
qed auto

end
