(* ===== verification/Go_Regexp.thy ===== *)
theory Go_Regexp
  imports Go_Prelude
begin

text \<open>
  Regular expressions of the standard library's \<open>regexp\<close>, as far as \<open>MatchString\<close> goes: which strings match. A class is a
  predicate on characters. Matching is executable, by derivatives, and agrees with the language of the expression. Inputs
  are byte strings; a class of Go ranges over code points, so expressions with classes beyond ASCII spell out their bytes.
\<close>

section \<open>Expressions and their languages\<close>

datatype re = RNone | REps | RSym "char \<Rightarrow> bool" | RSeq re re | RAlt re re | RStar re

primrec lang :: "re \<Rightarrow> string set" where
  "lang RNone = {}"
| "lang REps = {[]}"
| "lang (RSym P) = {[ch] | ch. P ch}"
| "lang (RSeq r s) = {u @ v | u v. u \<in> lang r \<and> v \<in> lang s}"
| "lang (RAlt r s) = lang r \<union> lang s"
| "lang (RStar r) = {concat us | us. \<forall>u\<in>set us. u \<in> lang r}"

primrec nullable :: "re \<Rightarrow> bool" where
  "nullable RNone = False"
| "nullable REps = True"
| "nullable (RSym P) = False"
| "nullable (RSeq r s) = (nullable r \<and> nullable s)"
| "nullable (RAlt r s) = (nullable r \<or> nullable s)"
| "nullable (RStar r) = True"

text \<open>Sequences and alternatives without the parts that match nothing.\<close>

definition seq_re :: "re \<Rightarrow> re \<Rightarrow> re" where
  "seq_re r s = (case r of RNone \<Rightarrow> RNone | REps \<Rightarrow> s | _ \<Rightarrow> RSeq r s)"

definition alt_re :: "re \<Rightarrow> re \<Rightarrow> re" where
  "alt_re r s = (case r of RNone \<Rightarrow> s | _ \<Rightarrow> (case s of RNone \<Rightarrow> r | _ \<Rightarrow> RAlt r s))"

primrec deriv :: "char \<Rightarrow> re \<Rightarrow> re" where
  "deriv ch RNone = RNone"
| "deriv ch REps = RNone"
| "deriv ch (RSym P) = (if P ch then REps else RNone)"
| "deriv ch (RSeq r s) = (if nullable r then alt_re (seq_re (deriv ch r) s) (deriv ch s) else seq_re (deriv ch r) s)"
| "deriv ch (RAlt r s) = alt_re (deriv ch r) (deriv ch s)"
| "deriv ch (RStar r) = seq_re (deriv ch r) (RStar r)"

fun re_match :: "re \<Rightarrow> string \<Rightarrow> bool" where
  "re_match r [] = nullable r"
| "re_match r (ch # s) = re_match (deriv ch r) s"

section \<open>Matching is membership\<close>

lemma lang_seq_re: "lang (seq_re r s) = lang (RSeq r s)"
  by (cases r) (auto simp: seq_re_def)

lemma lang_alt_re: "lang (alt_re r s) = lang (RAlt r s)"
  by (cases r; cases s) (auto simp: alt_re_def)

lemma nullable_lang: "nullable r \<longleftrightarrow> [] \<in> lang r"
  by (induction r) (auto intro: exI [of _ "[]"])

lemma star_first:
  assumes "ch # s = concat us" "\<forall>u\<in>set us. u \<in> L"
  shows "\<exists>u v. s = u @ v \<and> ch # u \<in> L \<and> (\<exists>ws. v = concat ws \<and> (\<forall>w\<in>set ws. w \<in> L))"
  using assms
proof (induction us)
  case (Cons u us)
  show ?case
  proof (cases u)
    case (Cons c u')
    with Cons.prems show ?thesis by (intro exI [of _ u'] exI [of _ "concat us"]) auto
  qed (use Cons in auto)
qed simp

lemma lang_deriv: "s \<in> lang (deriv ch r) \<longleftrightarrow> ch # s \<in> lang r"
proof (induction r arbitrary: s)
  case (RSeq r1 r2)
  have "s \<in> lang (deriv ch (RSeq r1 r2)) \<longleftrightarrow> (\<exists>u v. s = u @ v \<and> ch # u \<in> lang r1 \<and> v \<in> lang r2) \<or> ([] \<in> lang r1 \<and> ch # s \<in> lang r2)"
    using RSeq by (auto simp: lang_seq_re lang_alt_re nullable_lang)
  also have "\<dots> \<longleftrightarrow> ch # s \<in> lang (RSeq r1 r2)" by (auto simp: Cons_eq_append_conv)
  finally show ?case .
next
  case (RStar r)
  have "s \<in> lang (deriv ch (RStar r)) \<longleftrightarrow> (\<exists>u v. s = u @ v \<and> ch # u \<in> lang r \<and> v \<in> lang (RStar r))"
    using RStar by (auto simp: lang_seq_re)
  also have "\<dots> \<longleftrightarrow> ch # s \<in> lang (RStar r)"
  proof
    assume "\<exists>u v. s = u @ v \<and> ch # u \<in> lang r \<and> v \<in> lang (RStar r)"
    then obtain u ws where "s = u @ concat ws" "ch # u \<in> lang r" "\<forall>w\<in>set ws. w \<in> lang r" by auto
    then show "ch # s \<in> lang (RStar r)" by (auto intro!: exI [of _ "(ch # u) # ws"])
  next
    assume "ch # s \<in> lang (RStar r)"
    then obtain us where "ch # s = concat us" "\<forall>u\<in>set us. u \<in> lang r" by auto
    from star_first [OF this] show "\<exists>u v. s = u @ v \<and> ch # u \<in> lang r \<and> v \<in> lang (RStar r)" by auto
  qed
  finally show ?case .
qed (auto simp: lang_alt_re)

theorem re_match_lang: "re_match r s \<longleftrightarrow> s \<in> lang r"
  by (induction s arbitrary: r) (simp_all add: nullable_lang lang_deriv)

section \<open>Constructs of patterns\<close>

definition re_any :: re where "re_any = RSym (\<lambda>_. True)"
definition re_char :: "char \<Rightarrow> re" where "re_char c = RSym (\<lambda>ch. ch = c)"
definition re_of :: "char list \<Rightarrow> re" where "re_of cs = RSym (\<lambda>ch. ch \<in> set cs)"
definition re_digit :: re where "re_digit = RSym is_digit"
definition in_range :: "char \<Rightarrow> char \<Rightarrow> char \<Rightarrow> bool" where "in_range a b ch \<longleftrightarrow> (of_char a :: nat) \<le> of_char ch \<and> (of_char ch :: nat) \<le> of_char b"
definition is_letter :: "char \<Rightarrow> bool" where "is_letter ch \<longleftrightarrow> in_range CHR ''a'' CHR ''z'' ch \<or> in_range CHR ''A'' CHR ''Z'' ch"

fun re_seqs :: "re list \<Rightarrow> re" where
  "re_seqs [] = REps"
| "re_seqs [r] = r"
| "re_seqs (r # rs) = RSeq r (re_seqs rs)"

fun re_alts :: "re list \<Rightarrow> re" where
  "re_alts [] = RNone"
| "re_alts [r] = r"
| "re_alts (r # rs) = RAlt r (re_alts rs)"

definition re_plus :: "re \<Rightarrow> re" where "re_plus r = RSeq r (RStar r)"
definition re_times :: "nat \<Rightarrow> re \<Rightarrow> re" where "re_times n r = re_seqs (replicate n r)"
definition re_opt :: "re \<Rightarrow> re" where "re_opt r = RAlt REps r"

fun re_upto :: "nat \<Rightarrow> re \<Rightarrow> re" where
  "re_upto 0 r = REps"
| "re_upto (Suc n) r = re_opt (RSeq r (re_upto n r))"

definition re_text :: "string \<Rightarrow> re" where "re_text s = re_seqs (map re_char s)"

text \<open>An expression that is not anchored matches anywhere.\<close>

definition re_search :: "re \<Rightarrow> re" where "re_search r = re_seqs [RStar re_any, r, RStar re_any]"

lemma lang_re_seqs: "lang (re_seqs (r # rs)) = lang (RSeq r (re_seqs rs))"
  by (cases rs) auto

lemma lang_times_length: "(\<And>u. u \<in> lang r \<Longrightarrow> length u = k) \<Longrightarrow> s \<in> lang (re_times n r) \<Longrightarrow> length s = n * k"
  by (induction n arbitrary: s) (auto simp: re_times_def lang_re_seqs simp del: re_seqs.simps(2,3))

lemma lang_times_sym: "lang (re_times n (RSym P)) = {s. length s = n \<and> list_all P s}"
proof (induction n)
  case (Suc n)
  have "lang (re_times (Suc n) (RSym P)) = {u @ v | u v. u \<in> lang (RSym P) \<and> v \<in> lang (re_times n (RSym P))}"
    by (simp add: re_times_def lang_re_seqs del: re_seqs.simps(2,3))
  also have "\<dots> = {s. length s = Suc n \<and> list_all P s}" unfolding Suc by (auto simp: length_Suc_conv) (metis append_Cons append_Nil)
  finally show ?case .
qed (auto simp: re_times_def)

lemma lang_star_sym: "lang (RStar (RSym P)) = {s. list_all P s}"
proof -
  have "\<exists>us. s = concat us \<and> (\<forall>u\<in>set us. u \<in> lang (RSym P))" if "list_all P s" for s
    using that by (intro exI [of _ "map (\<lambda>ch. [ch]) s"]) (auto simp: list_all_iff)
  moreover have "list_all P (concat us)" if "\<forall>u\<in>set us. u \<in> lang (RSym P)" for us
    using that by (auto simp: list_all_iff)
  ultimately show ?thesis by auto
qed

end
