(* ===== verification/Validate.thy ===== *)
theory Validate
  imports Go_Regexp Api_Middleware
begin

text \<open>
  Checks of values (\<open>validate/validate.go\<close>), on ASCII strings. Error texts are given in English and without the value.
\<close>

section \<open>Checks by pattern\<close>

definition checked :: "string \<Rightarrow> bool \<Rightarrow> unit res" where
  "checked msg ok = (if ok then Inr () else Inl (Err msg))"

definition alnum :: "char \<Rightarrow> bool" where
  "alnum ch \<longleftrightarrow> is_letter ch \<or> is_digit ch"

definition email_label :: re where
  "email_label = RSeq (RSym alnum) (re_opt (RSeq (re_upto 61 (RSym (\<lambda>ch. alnum ch \<or> ch = CHR ''-''))) (RSym alnum)))"

definition emailRegexp :: re where
  "emailRegexp = re_seqs [re_plus (RSym (\<lambda>ch. alnum ch \<or> ch \<in> set ''.!#$%&'' \<or> ch = CHR 0x27 \<or> ch \<in> set ''*+/=?^_'' \<or> ch = CHR 0x60 \<or> ch \<in> set ''{|}~-'')),
     re_char CHR ''@'', email_label, RStar (RSeq (re_char CHR ''.'') email_label)]"

definition IsEmail :: "string \<Rightarrow> unit res" where
  "IsEmail v = checked ''invalid format email'' (re_match emailRegexp v)"

definition phoneRegexp :: re where
  "phoneRegexp = re_seqs [re_char CHR ''1'',
     re_alts [RSeq (re_of ''38796'') re_digit, re_seqs [re_char CHR ''1'', re_char CHR ''4'', re_of ''57''],
       RSeq (re_char CHR ''5'') (RSym (\<lambda>ch. ch \<noteq> CHR ''4''))],
     re_times 8 re_digit]"

definition IsPhone :: "string \<Rightarrow> unit res" where
  "IsPhone v = checked ''phone number format error'' (re_match phoneRegexp v)"

text \<open>
  The pattern of identity numbers: the first alternative is anchored at the beginning only, the second one nowhere. In the second one
  the ranges are written with the minus sign U+2212, so that each is a class of three characters, and repetitions lost their
  braces.
\<close>

definition re_minus :: re where
  "re_minus = re_seqs [RSym (\<lambda>ch. ch = CHR 0xE2), RSym (\<lambda>ch. ch = CHR 0x88), RSym (\<lambda>ch. ch = CHR 0x92)]"

definition card_month :: "re \<Rightarrow> re" where
  "card_month d = re_alts [RSeq (re_char CHR ''0'') d, re_text ''10'', re_text ''11'', re_text ''12'']"

definition card_day :: "re \<Rightarrow> re \<Rightarrow> re" where
  "card_day d1 d2 = re_alts [RSeq d1 d2, re_text ''10'', re_text ''20'', re_text ''30'', re_text ''31'']"

definition card_first :: re where
  "card_first = re_seqs [RSym (in_range CHR ''1'' CHR ''9''), re_times 5 re_digit,
     re_alts [re_text ''18'', re_text ''19'', RSeq (re_of ''23'') re_digit], re_times 2 re_digit,
     card_month (RSym (in_range CHR ''1'' CHR ''9'')), card_day (RSym (in_range CHR ''0'' CHR ''2'')) (RSym (in_range CHR ''1'' CHR ''9'')),
     re_times 3 re_digit, RSym (\<lambda>ch. is_digit ch \<or> ch \<in> set ''Xx'')]"

definition card_second :: re where
  "card_second = re_seqs [RAlt (re_of ''19'') re_minus, re_digit, re_char CHR ''5'', re_digit, re_char CHR ''2'',
     card_month (RAlt (re_of ''19'') re_minus), card_day (RAlt (re_of ''02'') re_minus) (RAlt (re_of ''19'') re_minus),
     re_digit, re_char CHR ''2'', RAlt (re_of ''09Xx'') re_minus]"

definition cardRegexp :: re where
  "cardRegexp = RAlt (RSeq card_first (RStar re_any)) (re_search card_second)"

definition IsCardNumber :: "string \<Rightarrow> unit res" where
  "IsCardNumber v = (if length v \<noteq> 18 \<and> length v \<noteq> 15 then Inl (Err ''card number length error'')
     else checked ''card number format error'' (re_match cardRegexp v))"

definition IsBankAccountNumber :: "string \<Rightarrow> unit res" where
  "IsBankAccountNumber v = (if length v \<noteq> 16 \<and> length v \<noteq> 19 then Inl (Err ''bank account length error'')
     else checked ''bank account format error'' (re_match (re_plus re_digit) v))"

definition IsLetterNumber :: "string \<Rightarrow> unit res" where
  "IsLetterNumber v = checked ''content format error'' (re_match (re_plus (RSym alnum)) v)"

definition IsDocumentNumber :: "string \<Rightarrow> bool" where
  "IsDocumentNumber v = re_match (re_seqs [re_times 2 (RSym is_letter), re_plus re_digit, RSym is_letter]) v"

definition IsApplicationNumber :: "string \<Rightarrow> bool" where
  "IsApplicationNumber v = re_match (re_seqs [re_times 2 (RSym is_letter), RStar re_digit, re_char CHR ''.'', re_digit]) v"

section \<open>Other checks\<close>

definition valid_username_char :: "char \<Rightarrow> bool" where
  "valid_username_char ch \<longleftrightarrow> alnum ch \<or> ch = CHR ''-''"

definition IsUsername :: "string \<Rightarrow> unit res" where
  "IsUsername u =
     (if length u < 3 \<or> length u > 32 then Inl (Err ''username must have 3-32 characters'')
      else if list_ex (\<lambda>ch. \<not> valid_username_char ch) u then Inl (Err ''username can only contain letters, digits and dashes'')
      else if hd u = CHR ''-'' \<or> last u = CHR ''-'' then Inl (Err ''username cannot begin or end with a dash'')
      else if str_contains u ''--'' then Inl (Err ''username cannot contain two dashes in a row'')
      else Inr ())"

definition IsTitle :: "string \<Rightarrow> unit res" where
  "IsTitle v = (if length v < 5 then Inl (Err ''title too short'') else Inr ())"

definition IsPassword :: "string \<Rightarrow> unit res" where
  "IsPassword v = (if length v < 6 then Inl (Err ''password too short'') else Inr ())"

definition defaultNearbyTimeRange :: duration where
  "defaultNearbyTimeRange = 3600 * time_Second * 24 * 365 * 8"

definition IsNearbyTime :: "gotime \<Rightarrow> gotime \<Rightarrow> duration list \<Rightarrow> unit res" where
  "IsNearbyTime now t intervals =
     (let begin_t = (if length intervals > 0 then now - intervals ! 0 else now - defaultNearbyTimeRange);
          end_t = (if length intervals > 1 then now + intervals ! 1 else now + defaultNearbyTimeRange)
      in if t < begin_t then Inl (Err ''invalid time, is before'')
         else if t > end_t then Inl (Err ''invalid time, is after'') else Inr ())"

section \<open>What is accepted\<close>

lemma checked_ok [simp]: "checked msg ok = Inr () \<longleftrightarrow> ok"
  by (simp add: checked_def)

lemma re_of_lang: "lang (re_of cs) = {[ch] | ch. ch \<in> set cs}" "lang (re_char c) = {[c]}" "lang re_digit = {[ch] | ch. is_digit ch}"
  by (auto simp: re_of_def re_char_def re_digit_def)

text \<open>
  Exactly the phone numbers that are accepted: eight digits after \<open>1\<close> and one of 3, 6, 7, 8, 9 with a digit, or after \<open>15\<close> and any
  character but 4, or after \<open>1145\<close> or \<open>1147\<close>.
\<close>

lemma seq_lang:
  "lang (RSeq (re_char x) r) = {x # v | v. v \<in> lang r}" "lang (RSeq (re_of A) r) = {ch # v | ch v. ch \<in> set A \<and> v \<in> lang r}"
  by (auto simp: re_char_def re_of_def) (metis append_Cons append_Nil)+

lemma phone_prefix_lang:
  "lang (RSeq (re_char x) (re_alts [RSeq (re_of A) re_digit, re_seqs [re_char y, re_char z, re_of B], RSeq (re_char w) (RSym P)])) =
     {pre. (\<exists>a b. pre = [x, a, b] \<and> a \<in> set A \<and> is_digit b) \<or> (\<exists>b\<in>set B. pre = [x, y, z, b]) \<or> (\<exists>b. pre = [x, w, b] \<and> P b)}"
  unfolding re_alts.simps re_seqs.simps seq_lang lang.simps(5) unfolding re_of_lang lang.simps(3) by auto

lemma lang_seq3: "lang (re_seqs [r, s, u]) = {p @ v | p v. p \<in> lang (RSeq r s) \<and> v \<in> lang u}"
  unfolding re_seqs.simps lang.simps(4) by auto (metis append_assoc)+

lemma IsPhone_accepts:
  "IsPhone v = Inr () \<longleftrightarrow> (\<exists>pre ds. v = pre @ ds \<and> length ds = 8 \<and> list_all is_digit ds \<and>
     ((\<exists>a b. pre = [CHR ''1'', a, b] \<and> a \<in> set ''38796'' \<and> is_digit b) \<or> (\<exists>b\<in>set ''57''. pre = [CHR ''1'', CHR ''1'', CHR ''4'', b]) \<or>
      (\<exists>b. pre = [CHR ''1'', CHR ''5'', b] \<and> b \<noteq> CHR ''4'')))"
proof -
  have ds: "lang (re_times 8 re_digit) = {ds. length ds = 8 \<and> list_all is_digit ds}"
    unfolding re_digit_def by (rule lang_times_sym)
  show ?thesis unfolding IsPhone_def checked_ok re_match_lang phoneRegexp_def lang_seq3 phone_prefix_lang ds mem_Collect_eq by blast
qed

text \<open>So numbers of the range 145 are refused, a number with a letter is accepted, and so is one with twelve digits.\<close>

lemma phone_flaws: "IsPhone ''14512345678'' \<noteq> Inr ()" "IsPhone ''15x12345678'' = Inr ()" "IsPhone ''114512345678'' = Inr ()"
  unfolding IsPhone_def checked_ok by code_simp+

text \<open>A valid old number of 15 digits is refused, and a text that contains an accident of the second pattern is accepted.\<close>

lemma card_flaws: "IsCardNumber ''110105491231002'' \<noteq> Inr ()" "IsCardNumber ''abc115120101020'' = Inr ()"
  by code_simp+

text \<open>User names, completely.\<close>

lemma str_contains_iff: "str_contains s x \<longleftrightarrow> (\<exists>u v. s = u @ x @ v)"
proof (induction s)
  case (Cons ch s)
  have "has_prefix (ch # s) x \<longleftrightarrow> (\<exists>v. ch # s = x @ v)" by (auto simp: has_prefix_def) (metis append_take_drop_id)
  with Cons show ?case by (auto simp: Cons_eq_append_conv)
qed simp

lemma IsUsername_accepts:
  "IsUsername u = Inr () \<longleftrightarrow> 3 \<le> length u \<and> length u \<le> 32 \<and> list_all valid_username_char u \<and> hd u \<noteq> CHR ''-'' \<and> last u \<noteq> CHR ''-'' \<and>
     \<not> (\<exists>a b. u = a @ ''--'' @ b)"
  unfolding str_contains_iff [symmetric] IsUsername_def by (auto simp: list_ex_iff list_all_iff not_less)

end
