(* ===== verification/File_Query.thy ===== *)
theory File_Query
  imports Storage_Model
begin

text \<open>
  Queries of the file table as chains of conditions (\<open>storage/fileinfo_query.go\<close>). How the database compares a column given by name
  with a value, \<open>sat\<close>, and orders rows by a column, \<open>col_le\<close>, are parameters; the columns with a method of their own are those of
  the record. A nil value is \<open>None\<close>.
\<close>

section \<open>Conditions\<close>

datatype sqlval = SqlInt int | SqlText string | SqlList "sqlval list"
datatype sqlop = OpEq | OpNe | OpGt | OpLt | OpLike | OpIn

record FileQuery =
  fq_conds :: "(FileInfo \<Rightarrow> bool) list"
  fq_order :: "(string \<times> bool) list"
  fq_limit :: "int option"
  fq_offset :: "int option"

type_synonym column_sem = "string \<Rightarrow> sqlop \<Rightarrow> sqlval \<Rightarrow> FileInfo \<Rightarrow> bool"

definition NewFileQuery :: FileQuery where
  "NewFileQuery = \<lparr>fq_conds = [], fq_order = [], fq_limit = None, fq_offset = None\<rparr>"

definition fq_Where :: "(FileInfo \<Rightarrow> bool) \<Rightarrow> FileQuery \<Rightarrow> FileQuery" where
  "fq_Where P q = q\<lparr>fq_conds := fq_conds q @ [P]\<rparr>"

definition fq_Eq :: "column_sem \<Rightarrow> string \<Rightarrow> sqlval option \<Rightarrow> FileQuery \<Rightarrow> FileQuery" where
  "fq_Eq sat column val q = (case val of Some v \<Rightarrow> (if v \<noteq> SqlText [] then fq_Where (sat column OpEq v) q else q) | None \<Rightarrow> q)"

definition fq_Ne :: "column_sem \<Rightarrow> string \<Rightarrow> sqlval option \<Rightarrow> FileQuery \<Rightarrow> FileQuery" where
  "fq_Ne sat column val q = (case val of Some v \<Rightarrow> (if v \<noteq> SqlText [] then fq_Where (sat column OpNe v) q else q) | None \<Rightarrow> q)"

definition fq_Gt :: "column_sem \<Rightarrow> string \<Rightarrow> sqlval option \<Rightarrow> FileQuery \<Rightarrow> FileQuery" where
  "fq_Gt sat column val q = (case val of Some v \<Rightarrow> fq_Where (sat column OpGt v) q | None \<Rightarrow> q)"

definition fq_Lt :: "column_sem \<Rightarrow> string \<Rightarrow> sqlval option \<Rightarrow> FileQuery \<Rightarrow> FileQuery" where
  "fq_Lt sat column val q = (case val of Some v \<Rightarrow> fq_Where (sat column OpLt v) q | None \<Rightarrow> q)"

definition fq_Like :: "column_sem \<Rightarrow> string \<Rightarrow> string \<Rightarrow> FileQuery \<Rightarrow> FileQuery" where
  "fq_Like sat column keyword q = (if keyword \<noteq> [] then fq_Where (sat column OpLike (SqlText (''%'' @ keyword @ ''%''))) q else q)"

definition fq_In :: "column_sem \<Rightarrow> string \<Rightarrow> sqlval list \<Rightarrow> FileQuery \<Rightarrow> FileQuery" where
  "fq_In sat column vals q = fq_Where (sat column OpIn (SqlList vals)) q"

definition fq_OrderBy :: "string \<Rightarrow> bool \<Rightarrow> FileQuery \<Rightarrow> FileQuery" where
  "fq_OrderBy column desc q = (if column \<noteq> [] then q\<lparr>fq_order := fq_order q @ [(column, desc)]\<rparr> else q)"

definition fq_LimitOffset :: "int \<Rightarrow> int \<Rightarrow> FileQuery \<Rightarrow> FileQuery" where
  "fq_LimitOffset limit off q =
     (let q = (if limit > 0 then q\<lparr>fq_limit := Some limit\<rparr> else q) in if off > 0 then q\<lparr>fq_offset := Some off\<rparr> else q)"

definition fq_Company :: "nat \<Rightarrow> FileQuery \<Rightarrow> FileQuery" where
  "fq_Company companyID q = (if companyID > 0 then fq_Where (\<lambda>r. fi_CompanyID r = companyID) q else q)"

definition fq_Uin :: "nat \<Rightarrow> FileQuery \<Rightarrow> FileQuery" where
  "fq_Uin uin q = (if uin > 0 then fq_Where (\<lambda>r. fi_Uin r = uin) q else q)"

definition fq_Purpose :: "string \<Rightarrow> FileQuery \<Rightarrow> FileQuery" where
  "fq_Purpose purpose q = (if purpose \<noteq> [] then fq_Where (\<lambda>r. fi_Purpose r = purpose) q else q)"

definition fq_Status :: "FileStatus \<Rightarrow> FileQuery \<Rightarrow> FileQuery" where
  "fq_Status status q = (if status \<noteq> [] then fq_Where (\<lambda>r. fi_Status r = status) q else q)"

definition fq_Hash :: "string \<Rightarrow> FileQuery \<Rightarrow> FileQuery" where
  "fq_Hash h q = (if h \<noteq> [] then fq_Where (\<lambda>r. fi_Hash r = h) q else q)"

definition fq_StoragePath :: "string \<Rightarrow> FileQuery \<Rightarrow> FileQuery" where
  "fq_StoragePath p q = (if p \<noteq> [] then fq_Where (\<lambda>r. fi_StoragePath r = p) q else q)"

section \<open>Execution\<close>

definition fq_holds :: "FileQuery \<Rightarrow> FileInfo \<Rightarrow> bool" where
  "fq_holds q r \<longleftrightarrow> list_all (\<lambda>P. P r) (fq_conds q) \<and> fi_DeletedAt r = None"

text \<open>Rows by the given columns in turn, and then as \<open>tie\<close> says.\<close>

fun fq_le :: "(string \<Rightarrow> FileInfo \<Rightarrow> FileInfo \<Rightarrow> bool) \<Rightarrow> (FileInfo \<Rightarrow> FileInfo \<Rightarrow> bool) \<Rightarrow> (string \<times> bool) list \<Rightarrow> FileInfo \<Rightarrow> FileInfo \<Rightarrow> bool" where
  "fq_le col_le tie [] a b = tie a b"
| "fq_le col_le tie ((column, desc) # os) a b =
     (let le = (if desc then col_le column b a else col_le column a b); ge = (if desc then col_le column a b else col_le column b a)
      in le \<and> (ge \<longrightarrow> fq_le col_le tie os a b))"

definition fq_window :: "FileQuery \<Rightarrow> 'r list \<Rightarrow> 'r list" where
  "fq_window q rs = (let rs = (case fq_offset q of None \<Rightarrow> rs | Some n \<Rightarrow> drop (nat n) rs) in case fq_limit q of None \<Rightarrow> rs | Some n \<Rightarrow> take (nat n) rs)"

definition fq_one :: "FileQuery \<Rightarrow> FileInfo list res \<Rightarrow> FileInfo res" where
  "fq_one q found = (case found of Inl e \<Rightarrow> Inl e | Inr rs \<Rightarrow> (case fq_window (q\<lparr>fq_limit := Some 1\<rparr>) rs of
     [] \<Rightarrow> Inl gorm_ErrRecordNotFound | r # _ \<Rightarrow> Inr r))"

definition fq_First :: "(string \<Rightarrow> FileInfo \<Rightarrow> FileInfo \<Rightarrow> bool) \<Rightarrow> ('d, FileInfo) table_ops \<Rightarrow> FileQuery \<Rightarrow> 'd \<Rightarrow> FileInfo res" where
  "fq_First col_le T q d = fq_one q (tb_find T d (\<lambda>_. fq_holds q) (fq_le col_le (\<lambda>a b. fi_ID a \<le> fi_ID b) (fq_order q)))"

definition fq_Last :: "(string \<Rightarrow> FileInfo \<Rightarrow> FileInfo \<Rightarrow> bool) \<Rightarrow> ('d, FileInfo) table_ops \<Rightarrow> FileQuery \<Rightarrow> 'd \<Rightarrow> FileInfo res" where
  "fq_Last col_le T q d = fq_one q (tb_find T d (\<lambda>_. fq_holds q) (fq_le col_le (\<lambda>a b. fi_ID b \<le> fi_ID a) (fq_order q)))"

definition fq_List :: "(string \<Rightarrow> FileInfo \<Rightarrow> FileInfo \<Rightarrow> bool) \<Rightarrow> ('d, FileInfo) table_ops \<Rightarrow> FileQuery \<Rightarrow> 'd \<Rightarrow> FileInfo list res" where
  "fq_List col_le T q d = (case tb_find T d (\<lambda>_. fq_holds q) (fq_le col_le any_order (fq_order q)) of Inl e \<Rightarrow> Inl e | Inr rs \<Rightarrow> Inr (fq_window q rs))"

definition fq_Count :: "('d, FileInfo) table_ops \<Rightarrow> FileQuery \<Rightarrow> 'd \<Rightarrow> nat res" where
  "fq_Count T q d = tb_count T d (\<lambda>_. fq_holds q)"

section \<open>Properties\<close>

lemma fq_window_subset: "set (fq_window q rs) \<subseteq> set rs"
  by (auto simp: fq_window_def Let_def split: option.splits dest: in_set_takeD in_set_dropD)

text \<open>A listing holds live rows that satisfy every condition of the chain.\<close>

lemma fq_List_sound:
  assumes "sql_table T rows tinv fi_ID setpk" "tinv d" "fq_List col_le T q d = Inr rs" "r \<in> set rs"
  shows "r \<in> set (rows d) \<and> fi_DeletedAt r = None \<and> (\<forall>P\<in>set (fq_conds q). P r)"
proof -
  from assms(3) obtain found where f: "tb_find T d (\<lambda>_. fq_holds q) (fq_le col_le any_order (fq_order q)) = Inr found" "rs = fq_window q found"
    by (auto simp: fq_List_def split: sum.splits)
  from sql_table.find_rows [OF assms(1,2) f(1)] have "set found = set (filter (fq_holds q) (rows d))" by (metis set_mset_mset)
  with assms(4) f(2) fq_window_subset [of q found] show ?thesis by (auto simp: fq_holds_def list_all_iff)
qed

text \<open>
  A listing for a company and a user shows only their files; but for the identifier zero, which a request without a login has, the
  condition is left out, and the listing shows the files of everyone.
\<close>

lemma fq_scoped:
  assumes "sql_table T rows tinv fi_ID setpk" "tinv d" "fq_List col_le T (fq_Uin uin (fq_Company companyID q)) d = Inr rs" "r \<in> set rs"
  shows "(0 < companyID \<longrightarrow> fi_CompanyID r = companyID) \<and> (0 < uin \<longrightarrow> fi_Uin r = uin)"
  using fq_List_sound [OF assms] by (auto simp: fq_Uin_def fq_Company_def fq_Where_def split: if_splits)

lemma fq_zero_unscoped: "fq_Uin 0 (fq_Company 0 q) = q"
  by (simp add: fq_Uin_def fq_Company_def)

end
