(* ===== verification/Db_Registry.thy ===== *)
theory Db_Registry
  imports Go_Url Uploader
begin

text \<open>
  Named database connections (\<open>dbtools/v2/registry.go\<close>, \<open>manager.go\<close>, \<open>helpers.go\<close>): drivers by scheme, connections by name. What a
  driver makes of an address (\<open>factory\<close>) and opening a connection are parameters. The lock makes each access of the table one step.
\<close>

section \<open>Drivers\<close>

type_synonym 'a driver_factory = "string \<Rightarrow> 'a res"

definition db_Register :: "string \<Rightarrow> 'a driver_factory \<Rightarrow> (string \<rightharpoonup> 'a driver_factory) \<Rightarrow> (string \<rightharpoonup> 'a driver_factory)" where
  "db_Register scheme factory drivers = drivers(ToLower scheme \<mapsto> factory)"

text \<open>\<open>open\<close> is \<open>gorm.Open\<close>.\<close>

definition db_Open :: "('a \<Rightarrow> 'db res) \<Rightarrow> (string \<rightharpoonup> 'a driver_factory) \<Rightarrow> string \<Rightarrow> 'db res" where
  "db_Open gorm_open drivers dburl = (case url_Parse dburl of
     Inl e \<Rightarrow> Inl e
   | Inr dsn \<Rightarrow> (let scheme = ToLower (u_Scheme dsn) in
       case drivers scheme of
         None \<Rightarrow> Inl (Err (''unsupported db scheme '' @ scheme))
       | Some factory \<Rightarrow> (case factory dburl of Inl e \<Rightarrow> Inl e | Inr dialector \<Rightarrow> gorm_open dialector)))"

section \<open>Connections\<close>

definition InitDBConn :: "(string \<Rightarrow> 'db res) \<Rightarrow> string \<Rightarrow> string \<Rightarrow> (string \<rightharpoonup> 'db) \<Rightarrow> 'db res \<times> (string \<rightharpoonup> 'db)" where
  "InitDBConn open_db name dburl dbs = (case open_db dburl of
     Inl e \<Rightarrow> (Inl e, dbs)
   | Inr db \<Rightarrow> (let name = (if name = [] then ''default'' else name) in (Inr db, dbs(name \<mapsto> db))))"

text \<open>The map of addresses is iterated in some order, given as a list.\<close>

fun InitMultiDBConn :: "(string \<Rightarrow> 'db res) \<Rightarrow> (string \<times> string) list \<Rightarrow> (string \<rightharpoonup> 'db) \<Rightarrow> unit res \<times> (string \<rightharpoonup> 'db)" where
  "InitMultiDBConn open_db [] dbs = (Inr (), dbs)"
| "InitMultiDBConn open_db ((name, dburl) # rest) dbs = (case InitDBConn open_db name dburl dbs of
     (Inl e, dbs') \<Rightarrow> (Inl e, dbs')
   | (Inr _, dbs') \<Rightarrow> InitMultiDBConn open_db rest dbs')"

definition RegistryDB :: "string \<Rightarrow> 'db \<Rightarrow> (string \<rightharpoonup> 'db) \<Rightarrow> (string \<rightharpoonup> 'db)" where
  "RegistryDB name db dbs = (if dbs name \<noteq> None then dbs else dbs(name \<mapsto> db))"

text \<open>An unknown name is a panic: \<open>None\<close>.\<close>

definition db_DB :: "string \<Rightarrow> (string \<rightharpoonup> 'db) \<Rightarrow> 'db option" where
  "db_DB name dbs = dbs name"

definition DBExists :: "string \<Rightarrow> (string \<rightharpoonup> 'db) \<Rightarrow> bool" where
  "DBExists name dbs = (dbs name \<noteq> None)"

definition db_Std :: "(string \<rightharpoonup> 'db) \<Rightarrow> 'db option" where "db_Std dbs = db_DB ''default'' dbs"
definition db_Core :: "(string \<rightharpoonup> 'db) \<Rightarrow> 'db option" where "db_Core dbs = db_DB ''core'' dbs"
definition db_Account :: "(string \<rightharpoonup> 'db) \<Rightarrow> 'db option" where "db_Account dbs = db_DB ''account'' dbs"

definition InitPostgresWithPool :: "(string \<Rightarrow> 'db res) \<Rightarrow> ('db \<Rightarrow> 'db res) \<Rightarrow> string \<Rightarrow> string \<Rightarrow> (string \<rightharpoonup> 'db) \<Rightarrow> 'db res \<times> (string \<rightharpoonup> 'db)" where
  "InitPostgresWithPool open_db pooled name dburl dbs = (case InitDBConn open_db name dburl dbs of
     (Inl e, dbs') \<Rightarrow> (Inl e, dbs')
   | (Inr db, dbs') \<Rightarrow> (case pooled db of Inl e \<Rightarrow> (Inl e, dbs') | Inr _ \<Rightarrow> (Inr db, dbs')))"

section \<open>Properties\<close>

text \<open>
  After the connections of a configuration with distinct, non-empty names were made, each name gives the connection of its address and
  every other name what it gave before.
\<close>

lemma InitMultiDBConn_ok:
  assumes "InitMultiDBConn open_db urls dbs = (Inr (), dbs')" "distinct (map fst urls)" "[] \<notin> fst ` set urls"
  shows "db_DB n dbs' = (case map_of urls n of None \<Rightarrow> db_DB n dbs | Some u \<Rightarrow> (case open_db u of Inr db \<Rightarrow> Some db | Inl _ \<Rightarrow> None))"
  using assms
proof (induction urls arbitrary: dbs)
  case (Cons p urls)
  obtain m u where p: "p = (m, u)" by fastforce
  with Cons.prems obtain db where db: "open_db u = Inr db" "InitMultiDBConn open_db urls (dbs(m \<mapsto> db)) = (Inr (), dbs')"
    by (auto simp: InitDBConn_def split: sum.splits)
  from Cons.IH [OF db(2)] Cons.prems(2,3) p have "db_DB n dbs' = (case map_of urls n of None \<Rightarrow> (dbs(m \<mapsto> db)) n | Some u \<Rightarrow> (case open_db u of Inr db \<Rightarrow> Some db | Inl _ \<Rightarrow> None))"
    by (simp add: db_DB_def split: option.split)
  moreover have "map_of urls m = None" using Cons.prems(2) p by (simp add: map_of_eq_None_iff)
  ultimately show ?case using db(1) p by (auto simp: db_DB_def split: option.split)
qed (simp add: db_DB_def)

text \<open>Registering never replaces a connection, while initialising does.\<close>

lemma RegistryDB_keeps: "db_DB n dbs = Some db \<Longrightarrow> db_DB n (RegistryDB m db' dbs) = Some db"
  by (auto simp: db_DB_def RegistryDB_def)

lemma InitDBConn_replaces: "open_db u = Inr db \<Longrightarrow> db_Std (snd (InitDBConn open_db [] u dbs)) = Some db"
  by (simp add: InitDBConn_def db_Std_def db_DB_def)

end
