(* ===== verification/Es_Query.thy ===== *)
theory Es_Query
  imports Go_Prelude
begin

text \<open>
  Building search requests (\<open>dbtools/esquery\<close>). Values are JSON values; encoding them is left to the JSON library.
\<close>

section \<open>Maps\<close>

datatype esval = ENum int | EStr string | EArr "esval list" | EMap "string \<rightharpoonup> esval"

type_synonym es_map = "string \<rightharpoonup> esval"

fun build_pairs :: "esval list \<Rightarrow> es_map \<Rightarrow> es_map" where
  "build_pairs (k # v # kvs) m = (case k of EStr key \<Rightarrow> build_pairs kvs (m(key \<mapsto> v)) | _ \<Rightarrow> build_pairs kvs m)"
| "build_pairs kvs m = m"

definition BuildMap :: "esval list \<Rightarrow> es_map" where
  "BuildMap kvs = build_pairs kvs Map.empty"

section \<open>Builder\<close>

record Builder =
  eb_body :: es_map

definition NewBuilder :: Builder where "NewBuilder = \<lparr>eb_body = Map.empty\<rparr>"

definition eb_Set :: "string \<Rightarrow> esval \<Rightarrow> Builder \<Rightarrow> Builder" where
  "eb_Set key val b = b\<lparr>eb_body := (eb_body b)(key \<mapsto> val)\<rparr>"

definition SetQuery :: "esval \<Rightarrow> Builder \<Rightarrow> Builder" where "SetQuery query b = eb_Set ''query'' query b"
definition SetAggs :: "esval \<Rightarrow> Builder \<Rightarrow> Builder" where "SetAggs aggs b = eb_Set ''aggs'' aggs b"
definition SetSort :: "esval \<Rightarrow> Builder \<Rightarrow> Builder" where "SetSort sort_v b = eb_Set ''sort'' sort_v b"
definition SetSize :: "int \<Rightarrow> Builder \<Rightarrow> Builder" where "SetSize sz b = eb_Set ''size'' (ENum sz) b"
definition SetFrom :: "int \<Rightarrow> Builder \<Rightarrow> Builder" where "SetFrom frm b = eb_Set ''from'' (ENum frm) b"
definition SetSource :: "string list \<Rightarrow> Builder \<Rightarrow> Builder" where "SetSource names b = eb_Set ''_source'' (EArr (map EStr names)) b"
definition SetHighlight :: "esval \<Rightarrow> Builder \<Rightarrow> Builder" where "SetHighlight highlight b = eb_Set ''highlight'' highlight b"
definition eb_Build :: "Builder \<Rightarrow> es_map" where "eb_Build b = eb_body b"

definition BuildBytes :: "(es_map \<Rightarrow> string res) \<Rightarrow> Builder \<Rightarrow> string res" where
  "BuildBytes marshal b = marshal (eb_body b)"

definition BuildSortField :: "string \<Rightarrow> string \<Rightarrow> es_map" where
  "BuildSortField field order = BuildMap [EStr field, EMap (BuildMap [EStr ''order'', EStr order])]"

definition BuildSortScore :: "string \<Rightarrow> es_map" where
  "BuildSortScore order = BuildMap [EStr ''_score'', EMap (BuildMap [EStr ''order'', EStr order])]"

section \<open>Highlighting\<close>

record HighlightCfg =
  hc_fragmentSize :: int
  hc_numberOfFragments :: int
  hc_PreTags :: "string list"
  hc_PostTags :: "string list"

definition WithFragmentSize :: "int \<Rightarrow> HighlightCfg \<Rightarrow> HighlightCfg" where "WithFragmentSize sz cfg = cfg\<lparr>hc_fragmentSize := sz\<rparr>"
definition WithNumberOfFragments :: "int \<Rightarrow> HighlightCfg \<Rightarrow> HighlightCfg" where "WithNumberOfFragments n cfg = cfg\<lparr>hc_numberOfFragments := n\<rparr>"
definition WithPreTags :: "string list \<Rightarrow> HighlightCfg \<Rightarrow> HighlightCfg" where "WithPreTags tags cfg = cfg\<lparr>hc_PreTags := tags\<rparr>"
definition WithPostTags :: "string list \<Rightarrow> HighlightCfg \<Rightarrow> HighlightCfg" where "WithPostTags tags cfg = cfg\<lparr>hc_PostTags := tags\<rparr>"

definition BuildHighlightField :: "string list \<Rightarrow> (HighlightCfg \<Rightarrow> HighlightCfg) list \<Rightarrow> es_map" where
  "BuildHighlightField names options =
     (let cfg = fold (\<lambda>opt c. opt c) options \<lparr>hc_fragmentSize = 1500, hc_numberOfFragments = 5, hc_PreTags = [''<em>''], hc_PostTags = [''</em>'']\<rparr>;
          fieldMap = fold (\<lambda>field m. m(field \<mapsto> EMap Map.empty)) names Map.empty
      in BuildMap [EStr ''fields'', EMap fieldMap, EStr ''fragment_size'', ENum (hc_fragmentSize cfg),
           EStr ''number_of_fragments'', ENum (hc_numberOfFragments cfg),
           EStr ''pre_tags'', EArr (map EStr (hc_PreTags cfg)), EStr ''post_tags'', EArr (map EStr (hc_PostTags cfg))])"

section \<open>Properties\<close>

text \<open>\<open>BuildMap\<close> keeps the last value given for a key and drops pairs whose key is not a string and a key without a value.\<close>

fun string_pairs :: "esval list \<Rightarrow> (string \<times> esval) list" where
  "string_pairs (k # v # kvs) = (case k of EStr key \<Rightarrow> (key, v) # string_pairs kvs | _ \<Rightarrow> string_pairs kvs)"
| "string_pairs kvs = []"

lemma build_pairs_add: "build_pairs kvs m = m ++ map_of (rev (string_pairs kvs))"
proof (induction kvs m rule: build_pairs.induct)
  case (1 k v kvs m)
  show ?case
  proof (cases k)
    case (EStr key)
    have "build_pairs kvs (m(key \<mapsto> v)) = m(key \<mapsto> v) ++ map_of (rev (string_pairs kvs))" using 1 EStr by (simp add: fun_upd_def)
    with EStr show ?thesis by simp
  qed (use 1 in auto)
qed auto

lemma BuildMap_lookup: "BuildMap kvs key = map_of (rev (string_pairs kvs)) key"
  by (simp add: BuildMap_def build_pairs_add)

text \<open>The fields of a highlight are exactly those named.\<close>

lemma highlight_fields: "\<exists>fm. BuildHighlightField names options ''fields'' = Some (EMap fm) \<and> dom fm = set names"
proof -
  have "dom (fold (\<lambda>field m. m(field \<mapsto> EMap Map.empty)) names m) = dom m \<union> set names" for m
    by (induction names arbitrary: m) auto
  then show ?thesis by (simp add: BuildHighlightField_def Let_def BuildMap_lookup)
qed

end
