(* ===== verification/Spec2Isabelle.thy ===== *)
theory Spec2Isabelle
  imports Task_Repository_Correct Task_Manager_Correct Task_Worker_Correct Task_Health_Correct Task_Lifecycle
    Cluster_Mutex Port_Pool Encryptor Snowflake Sse_Client Prompt_Correct Service_Pool_Correct Settings_Correct Conc_Queue
    Local_Copy Uploader_Correct Cos_Copy Storage_Factory Jobs_Correct Llm_Openai
    Stat_Manager Es_Scroll Rpc_Queue Redis_Cache Easy_Metrics Go_Types
    S3_Correct Minio_Storage Upload_Api Storage_V2
    Api_Correct Api_Query Weed_Walk Remote_Settings Process_Life Validate
    File_Query Db_Registry Es_Query
begin

text \<open>
  \<^bold>\<open>yg-go: a verification of the service library's core.\<close>

  \<^bold>\<open>The program.\<close> yg-go is a Go library for web services. The parts with logic of their own that are
  verified here:
  \<^item> the distributed task system (\<open>src/task\<close>): a manager stores tasks in a SQL table and announces work
    on Redis streams, workers fetch a task, run an executor and report the result, a health checker
    watches heartbeats in Redis hashes and hands the tasks of dead workers back;
  \<^item> prompts (\<open>src/prompt\<close>): versioned templates in SQL tables, with declared variables, validated and
    rendered on request;
  \<^item> coordination over Redis: leader election and locks (\<open>src/mutex\<close>, the locks of
    \<open>src/dbtools/redispool\<close>), pools of leased services (\<open>src/pool\<close>, \<open>src/pool/svrpool\<close>), which read their
    configuration from the settings;
  \<^item> settings (\<open>src/settings\<close>): a SQL table read through a cache (\<open>src/cache\<close>), with encrypted secrets
    (\<open>src/encryptor\<close>);
  \<^item> server-sent events (\<open>src/apis/sseclient\<close>): a log of messages, in memory or in Redis, that readers follow;
  \<^item> file storage (\<open>src/storage\<close>, and \<open>src/storage/v2\<close>): files below a local directory, objects in a bucket of Tencent
    COS, S3 or MinIO, multipart uploads that are resumed from a table, the choice of a storage for a purpose, and the handler
    (\<open>src/apis/upload\<close>) that stores an image of a user;
  \<^item> jobs (\<open>src/job\<close>, \<open>src/apis/exportjob\<close>): rows of asynchronous, export and cron jobs, with a sweep that fails the late ones;
  \<^item> language models (\<open>src/llm\<close>): messages, and a driver that assembles streamed tool calls;
  \<^item> requests and replies over a broker (\<open>src/queue/rpcqueue\<close>), concurrent statistics (\<open>src/stat\<close>), scrolling searches
    (\<open>src/dbtools/estool\<close>), metrics (\<open>src/metrics\<close>), small types (\<open>src/types\<close>);
  \<^item> the HTTP runtime (\<open>src/apis/runtime\<close>): login by token, middleware, chains of handlers and routes; page queries
    (\<open>src/apis/apiobj\<close>) and checks of values (\<open>src/validate\<close>);
  \<^item> settings of a remote service (\<open>src/settings/remote\<close>) and the end of a process (\<open>src/lifecycle\<close>);
  \<^item> local building blocks: the concurrent queue (\<open>src/concqueue\<close>), the port pool (\<open>src/pool/portspool\<close>),
    snowflake identifiers (\<open>src/encryptor/snowflake\<close>).

  \<^bold>\<open>What is outside.\<close> The SQL server, GORM, Redis, the template engine, the ciphers, the JSON and YAML
  decoders and the clock are not code of the repository (GORM and the Redis clients are vendored
  third-party code). They are parameters: records of operations on abstract states (\<open>table_ops\<close>,
  \<open>stream_ops\<close>, \<open>hash_ops\<close>, \<open>kv_ops\<close>, \<open>zset_ops\<close>, \<open>template_engine\<close>, \<open>settings_env\<close>, \<open>fs_ops\<close>, \<open>cos_ops\<close>,
  \<open>aws_ops\<close>, \<open>min_ops\<close>) and clock readings
  given as arguments. The locales \<open>sql_table\<close>, \<open>soft_dao\<close>, \<open>redis_stream\<close>, \<open>redis_scan\<close>, \<open>redis_hash\<close>,
  \<open>redis_kv\<close>, \<open>redis_zset\<close>, \<open>redis_store\<close>, \<open>cache_store\<close>, \<open>cacheval_table\<close>, \<open>settings_store\<close>, \<open>redis_log\<close>,
  \<open>file_system\<close>, \<open>object_store\<close>, \<open>s3_store\<close>, \<open>min_store\<close>, \<open>weed_filer\<close>, \<open>scroll_server\<close>, \<open>cache_server\<close> and \<open>prom_registry\<close> name the documented behaviour that the code relies on; any operation may fail with any error. In-memory
  implementations interpret every locale and are what the concrete runs are evaluated on.

  \<^bold>\<open>Theories of the base.\<close>
  \<^item> \<open>Go_Prelude\<close>: errors (\<open>errors.New\<close>, \<open>%w\<close> chains, \<open>errors.Is\<close>), time, \<open>strconv\<close>, \<open>strings\<close>, the rounding
    of an integer to a \<open>float64\<close>, and the shared lemmas on lists. \<open>Go_Json\<close>: \<open>json.Marshal\<close> of a string.
  \<^item> \<open>Sql_Table\<close>, \<open>Redis_Stream\<close>, \<open>Redis_Hash\<close>, \<open>Redis_Kv\<close>, \<open>Redis_Zset\<close>: the interfaces above, their laws
    and their instances.

  \<^bold>\<open>Theories of the task system.\<close>
  \<^item> \<open>Task_Model\<close> (\<open>task/model/entity.go\<close>, \<open>errors.go\<close>): the task entity, its predicates and
    transitions, validation. \<open>Task_Dao\<close> (\<open>task/model/dao.go\<close>): the statements on the table.
  \<^item> \<open>Task_Repository\<close> (\<open>task/manager/repository.go\<close>): picking, creating, canceling, timing out, restart
    recovery, dead workers, next steps. \<open>Task_Repository_Correct\<close>: its properties.
  \<^item> \<open>Task_Queue\<close> (\<open>task/manager/queue.go\<close>, \<open>config.go\<close>): the stream queue and its properties.
  \<^item> \<open>Task_Manager\<close> (\<open>task/manager/manager.go\<close>): creation, results, task flow, background ticks;
    \<open>Task_Manager_Correct\<close>: the effect of each operation on the table and on every stream.
  \<^item> \<open>Task_Worker\<close> (\<open>task/worker\<close>, and the adapter of \<open>task/example/main.go\<close>): registry, start and stop,
    the path of one task; \<open>Task_Worker_Correct\<close>: the contract \<open>work_manager\<close>, kept by the manager.
  \<^item> \<open>Task_Health\<close> (\<open>task/health\<close>): heartbeats and the three-phase sweep; \<open>Task_Health_Correct\<close>: the sweep
    refines a machine per worker.
  \<^item> \<open>Task_Lifecycle\<close>: the abstract machine of a task, the refinement of every table write to it, and
    the invariants of histories.

  \<^bold>\<open>Theories of the other parts.\<close>
  \<^item> \<open>Prompt_Model\<close> (\<open>prompt/model/entity.go\<close>, \<open>errors.go\<close>, \<open>render.go\<close>): variable extraction from the
    template's syntax tree, validation of values, rendering; \<open>Prompt_Dao\<close> (\<open>prompt/model/dao.go\<close>): both data
    access objects as instances of one soft-deleting DAO; \<open>Prompt_Correct\<close> (with \<open>prompt/renderer.go\<close>):
    validated values have the declared types and limits, and what \<open>RenderByCode\<close> checks.
  \<^item> \<open>Cluster_Mutex\<close> (\<open>mutex\<close>): the lease of the elected node under every interleaving of ticks, and the
    Redis locker. \<open>Service_Pool\<close> (\<open>pool\<close>, \<open>pool/svrpool\<close>, \<open>lifecycle/retry.go\<close>, the locks of \<open>redispool\<close>):
    leases as scores of a sorted set; \<open>Service_Pool_Correct\<close>: exclusiveness of a lease over the single Redis
    commands of any clients, the effect of a refresh, and the run in which a release breaks a lease.
  \<^item> \<open>Cache\<close> (\<open>cache\<close>): the interface with its three implementations and where they differ.
    \<open>Settings\<close> (\<open>settings\<close>): the table, the cache in front of it, secrets; \<open>Settings_Correct\<close>: reading through
    the cache equals reading the table as long as operations do not overlap, the runs in which it does
    not, and the round trip of a secret.
  \<^item> \<open>Base64\<close>, \<open>Encryptor\<close> (\<open>encryptor\<close>): padding, CBC and CFB over any block cipher, encodings, round trips.
    \<open>Snowflake\<close> (\<open>encryptor/snowflake\<close>): identifiers at 64-bit width, their order and bounds.
  \<^item> \<open>Sse_Cache\<close>, \<open>Sse_Client\<close> (\<open>apis/sseclient\<close>): both stores behind one contract (\<open>sse_store\<close>), the
    blocking reader, and what a follower receives whatever others append.
  \<^item> \<open>Conc_Queue\<close> (\<open>concqueue\<close>): the queue as a step relation over the atomic actions of its goroutines;
    \<open>Port_Pool\<close> (\<open>pool/portspool\<close>): the free and the allocated ports partition the range.

  \<^item> \<open>Go_Path\<close>, \<open>File_System\<close>: the lexical path functions of the standard library and the file system.
    \<open>Storage_Model\<close> (\<open>config/storage.go\<close>, \<open>storage/fileinfo.go\<close>, \<open>temp_file.go\<close>): records and statements.
    \<open>Local_Storage\<close> (\<open>storage/localdir.go\<close>; \<open>v2/local/storer.go\<close> has the same bodies): what can and cannot be
    reached, and the round trip; \<open>Local_Copy\<close>: copying ends and is complete, and what overlapping copies do.
  \<^item> \<open>Object_Store\<close>: the bucket. \<open>Uploader\<close> (\<open>storage/uploader.go\<close>, the upload half of \<open>tencent_cos.go\<close>);
    \<open>Uploader_Correct\<close>: the contract \<open>multipart_uploader\<close>, kept by the client over every bucket, what a completed upload
    holds, which parts are reported missing, and the upload that cannot be finished. \<open>Cos_Storage\<close> (the rest of
    \<open>tencent_cos.go\<close>), \<open>Cos_Copy\<close>: what copying a prefix copies. \<open>Http_Mime\<close> (\<open>httptools/mime.go\<close>). \<open>Storage_Factory\<close>
    (\<open>storage/storage.go\<close>, \<open>v2/storager.go\<close>): a loaded storage stays, and both versions load the same.
  \<^item> \<open>Go_Url\<close>, \<open>Go_Walk\<close>: \<open>net/url\<close> and \<open>filepath.WalkDir\<close>. \<open>S3_Client\<close>, \<open>S3_Storage\<close> (\<open>storage/s3.go\<close>), \<open>Minio_Storage\<close>
    (\<open>storage/minoss.go\<close>): the services and the drivers over them. \<open>S3_Correct\<close>: copies over the pages of a listing, a directory
    uploaded whole, multipart uploads, public addresses. \<open>Upload_Api\<close> (\<open>apis/upload\<close>): the contract \<open>storager\<close> of the interface
    \<open>Storager\<close>, shown of each of the four drivers, and the handler over it. \<open>Storage_V2\<close> (\<open>storage/v2\<close>): the drivers and
    queries of the second version, each equal to that of the first. \<open>Weed_Walk\<close> (\<open>storage/weedfs\<close>): walking the directories
    of a filer page by page. \<open>File_Query\<close> (\<open>storage/fileinfo_query.go\<close>): chains of conditions, and what a listing shows.
  \<^item> \<open>Api_Auth\<close> (\<open>apis/runtime/auth\<close>), \<open>Api_Server\<close> (\<open>apis/runtime\<close>), \<open>Api_Middleware\<close> (\<open>apis/runtime/middleware\<close>), \<open>Api_Router\<close>
    (\<open>apis/runtime/server\<close>): requests, handlers with what they do before and after \<open>Next\<close> and on a panic, and the router.
    \<open>Api_Correct\<close>: whom a route that requires a login lets through, and that panics stay behind the recovery. \<open>Api_Query\<close>
    (\<open>apis/apiobj/query.go\<close>): what an accepted query may ask for.
  \<^item> \<open>Go_Regexp\<close>: regular expressions, with a matcher by derivatives; \<open>Validate\<close> (\<open>validate\<close>): which values are accepted.
    \<open>Remote_Settings\<close> (\<open>settings/remote\<close>): the proof of the secret. \<open>Process_Life\<close> (\<open>lifecycle\<close>): a step relation for the end
    of the process, and which closers have run. \<open>Db_Registry\<close> (\<open>dbtools/v2\<close>): connections by name. \<open>Es_Query\<close>
    (\<open>dbtools/esquery\<close>): the maps a search request is built of.
  \<^item> \<open>Jobs\<close> (\<open>job\<close>, \<open>job/asyncjob\<close>, \<open>apis/exportjob\<close>); \<open>Jobs_Correct\<close>: the status of an export job along histories, the
    report that a sweep undoes, who sees a job, what a report writes and returns, one run of a cron job.
  \<^item> \<open>Llm_Types\<close> (\<open>llm/llmtype\<close>): messages, and which of them survive their JSON form. \<open>Llm_Openai\<close> (\<open>llm/provider/openai\<close>,
    \<open>llm/factory.go\<close>): conversion to the SDK's types, the chunks of a stream and what a handler sees of them, the
    registry of drivers.
  \<^item> \<open>Rpc_Queue\<close> (\<open>queue/rpcqueue\<close>) and \<open>Stat_Manager\<close> (\<open>stat\<close>): step relations over the atomic actions of goroutines; which replies
    answer which requests and the runs that lose one or panic; what concurrent statistics return, and that they return.
  \<^item> \<open>Es_Scroll\<close> (\<open>dbtools/estool/scroll.go\<close>): the hits a scroll collects over a server that keeps the contract \<open>scroll_server\<close>.
    \<open>Redis_Cache\<close> (the rest of \<open>dbtools/redispool/redis_cache.go\<close>): lists as queues, values as JSON, over \<open>cache_server\<close>.
    \<open>Easy_Metrics\<close> (\<open>metrics/easy_metrics.go\<close>): which series an update reaches, over \<open>prom_registry\<close>. \<open>Go_Types\<close> (\<open>types\<close>):
    arrays as JSON texts, encrypted secrets and identifiers.

  \<^bold>\<open>Modelling conventions.\<close> A Go function returning \<open>(T, error)\<close> is a function into \<open>gerror + 'a\<close>; where it
  can panic or still wait, the result is an option and \<open>None\<close> is the panic or the waiting, as the text at
  the definition says. A method that changes a store returns the new state; a failed GORM transaction
  returns none. An operation reads the clock once, unless the code reads it in a loop. A transaction
  whose statements all succeed commits. \<open>FOR UPDATE SKIP LOCKED\<close> is the set of rows held by other
  transactions. Between two commands of one operation other processes may act: where that matters an
  argument \<open>env\<close> (or \<open>sched\<close>) is what they do, and the theorems on interleavings use a step relation over
  single commands. Sorted-set scores are \<open>float64\<close> numbers with integer values. The loops over Redis SCAN
  cursors and the recursive copies are \<open>partial_function\<close>s, proved to return under the contracts of Redis, the file
  system and the bucket; loops that wait for the clock or
  for others take the list of readings or of actions they see, and no other definition needs fuel.
  Ranging over a Go map takes one order; where the order could matter the theorems say it does not. A
  goroutine started or stopped is an entry of a list of routine names, a ticker loop is one definition
  per tick. Strings in conditions of SQL statements are compared byte by byte. Error texts written in
  Chinese are given in English, and times and JSON dumps of conditions are left out of messages. Logging
  has no effect on state and is left out.

  \<^bold>\<open>What is not modelled, and why.\<close> Network and SDK clients (notification, downloads), logging and
  configuration loading pass data to libraries. They are listed with the reason in the manifest.
\<close>

end
